(* ===== verification/Netana_Prelude.thy ===== *)
theory Netana_Prelude
  imports Main "HOL-Library.Word" "HOL-Library.Monad_Syntax"
begin

text \<open>
  Shared vocabulary of the development: the machine integers of the C sources, the
  type of a routine that may wait for the device, little endian encoding, and the
  generic facts on lists and words which the component theories use.

  A C routine that can block is a function of type \<open>('s, 'a) proc\<close>: it gets the state
  and returns its result with the new state, or \<open>None\<close> while it is still waiting
  because the trace of device activity the state carries is used up.
\<close>

unbundle bit_operations_syntax

type_synonym u8 = "8 word"
type_synonym u16 = "16 word"
type_synonym u32 = "32 word"
type_synonym u64 = "64 word"
type_synonym bytes = "8 word list"
type_synonym ('s, 'a) proc = "'s \<Rightarrow> ('a \<times> 's) option"

named_theorems frame_simps \<open>what an operation leaves untouched\<close>
named_theorems inv_intros \<open>preservation of the component invariants\<close>

section \<open>Single bits of a 32 bit word\<close>

text \<open>The C expression \<open>1 << n\<close> on 32 bits.\<close>

definition msk :: "nat \<Rightarrow> u32" where
  "msk n = push_bit n 1"

lemma bit_msk [simp]: "bit (msk n) m \<longleftrightarrow> m = n \<and> n < 32"
  by (auto simp: msk_def bit_simps)

lemma and_msk_eq_0_iff [simp]: "w AND msk n = 0 \<longleftrightarrow> \<not> bit w n"
proof
  show "w AND msk n = 0 \<Longrightarrow> \<not> bit w n"
    using bit_and_iff[of w "msk n" n] bit_imp_le_length[of w n] by auto
  show "\<not> bit w n \<Longrightarrow> w AND msk n = 0"
    by (rule bit_word_eqI) (auto simp: bit_and_iff)
qed

lemma bit_xor_msk: "bit (w XOR msk n) m \<longleftrightarrow> (if m = n \<and> n < 32 then \<not> bit w m else bit w m)"
  by (auto simp: bit_xor_iff)

lemma bit_clear_msk: "bit (w AND NOT (msk n)) m \<longleftrightarrow> bit w m \<and> m \<noteq> n"
  using bit_imp_le_length[of w m] by (auto simp: bit_and_iff bit_not_iff)

lemma xor_msk_twice [simp]: "(w XOR msk n) XOR msk n = w"
  by (rule bit_word_eqI) (auto simp: bit_xor_iff)

lemma clear_msk_less: "bit w n \<Longrightarrow> w AND NOT (msk n) < w"
proof -
  assume b: "bit w n"
  have "w AND NOT (msk n) \<le> w"
    by (simp add: word_and_le2)
  moreover have "w AND NOT (msk n) \<noteq> w"
    using b bit_clear_msk[of w n n] by auto
  ultimately show ?thesis
    by simp
qed

section \<open>Little endian byte strings\<close>

definition le16 :: "u16 \<Rightarrow> bytes" where
  "le16 w = map (\<lambda>i. ucast (drop_bit (8 * i) w)) [0..<2]"

definition le32 :: "u32 \<Rightarrow> bytes" where
  "le32 w = map (\<lambda>i. ucast (drop_bit (8 * i) w)) [0..<4]"

definition le64 :: "u64 \<Rightarrow> bytes" where
  "le64 w = map (\<lambda>i. ucast (drop_bit (8 * i) w)) [0..<8]"

lemma length_le [simp]:
  "length (le16 a) = 2" "length (le32 b) = 4" "length (le64 c) = 8"
  by (simp_all add: le16_def le32_def le64_def)

section \<open>Memory blocks\<close>

text \<open>\<open>memcpy (dst + off, src, n)\<close> and \<open>memset\<close> on a block held as a byte list.\<close>

definition blit :: "nat \<Rightarrow> bytes \<Rightarrow> bytes \<Rightarrow> bytes" where
  "blit off src dst = take off dst @ src @ drop (off + length src) dst"

lemma length_blit [simp]:
  "off + length src \<le> length dst \<Longrightarrow> length (blit off src dst) = length dst"
  by (simp add: blit_def)

lemma take_blit: "off \<le> length dst \<Longrightarrow> take off (blit off src dst) = take off dst"
  by (simp add: blit_def)

lemma blit_here: "off \<le> length dst \<Longrightarrow> take (length src) (drop off (blit off src dst)) = src"
  by (simp add: blit_def)

lemma blit_beyond:
  "off \<le> length dst \<Longrightarrow> drop (off + length src) (blit off src dst) = drop (off + length src) dst"
  by (simp add: blit_def)

lemma blit_0: "length src \<le> length dst \<Longrightarrow> blit 0 src dst = src @ drop (length src) dst"
  by (simp add: blit_def)

section \<open>Unsigned comparisons carried to natural numbers\<close>

lemma unat_add_no_wrap:
  "unat a + unat b < 2 ^ LENGTH('a) \<Longrightarrow> unat (a + b) = unat a + unat b" for a b :: "'a::len word"
  by (simp add: unat_add_lem)

lemma unat_suc:
  fixes a b :: "'a::len word"
  assumes "a < b"
  shows "unat (a + 1) = Suc (unat a)"
proof -
  have "unat a < unat b"
    using assms by (simp add: word_less_nat_alt)
  moreover have "unat b < 2 ^ LENGTH('a)"
    by (rule unsigned_less)
  ultimately have "Suc (unat a) < 2 ^ LENGTH('a)"
    by linarith
  then show ?thesis
    by (simp add: unat_word_ariths)
qed

lemma unat_of_nat_le:
  fixes w :: "'a::len word"
  assumes "n \<le> unat w"
  shows "unat (of_nat n :: 'a word) = n"
proof -
  have "unat w < 2 ^ LENGTH('a)"
    by (rule unsigned_less)
  with assms have "n < 2 ^ LENGTH('a)"
    by linarith
  then show ?thesis
    by (simp add: unsigned_of_nat take_bit_nat_eq_self)
qed

lemma suc_le_iff_less: "a < b \<Longrightarrow> a + 1 \<le> b" for a b :: "'a::len word"
  by (simp add: inc_le)

lemma unat_ucast_32_64 [simp]: "unat (ucast (w :: u32) :: u64) = unat w"
proof -
  have "unat w < 2 ^ 32"
    using unsigned_less[of w] by simp
  then show ?thesis
    by (simp add: unsigned_ucast_eq take_bit_nat_eq_self_iff)
qed

lemma ucast_32_64_of_nat: "unat (w :: u32) = n \<Longrightarrow> (ucast w :: u64) = of_nat n"
  by auto

end
