(* ===== verification/Netana_State.thy ===== *)
theory Netana_State
  imports Netana_Prelude
begin

text \<open>
  The data the driver works on. First the constants of \<open>netana_errors.h\<close>,
  \<open>netana_user.h\<close>, \<open>netana_dpmlayout.h\<close> and \<open>netana_toolkit.h\<close>, then one record per C
  structure: the blocks of the dual ported memory (DPM) which host and netX share, the
  device instance \<open>NETANA_DEVINSTANCE_T\<close> of the toolkit, and the record \<open>sys\<close> which puts
  both together with the files, the callbacks made so far and the trace of what the
  device and the clock do next.

  A field of a C structure keeps its name behind a two letter prefix of its structure.
  Pointers into the DPM (\<open>ptBaseDPM\<close>, \<open>atFilters\<close>, \<open>aptGPIOs\<close>, ...) become the \<open>dpm\<close> record
  itself, one list element per port or GPIO.
\<close>

section \<open>Return codes\<close>

abbreviation (input) NETANA_NO_ERROR :: u32 where "NETANA_NO_ERROR \<equiv> 0x00000000"
abbreviation (input) NETANA_INVALID_PARAMETER :: u32 where "NETANA_INVALID_PARAMETER \<equiv> 0x80200001"
abbreviation (input) NETANA_INVALID_PORT :: u32 where "NETANA_INVALID_PORT \<equiv> 0x80200002"
abbreviation (input) NETANA_OUT_OF_MEMORY :: u32 where "NETANA_OUT_OF_MEMORY \<equiv> 0x80200003"
abbreviation (input) NETANA_FUNCTION_FAILED :: u32 where "NETANA_FUNCTION_FAILED \<equiv> 0x80200004"
abbreviation (input) NETANA_INVALID_POINTER :: u32 where "NETANA_INVALID_POINTER \<equiv> 0x80200005"
abbreviation (input) NETANA_INVALID_HANDLE :: u32 where "NETANA_INVALID_HANDLE \<equiv> 0x80200006"
abbreviation (input) NETANA_NO_WORKING_DIRECTORY :: u32 where "NETANA_NO_WORKING_DIRECTORY \<equiv> 0x80200007"
abbreviation (input) NETANA_NO_ENTRY_FOUND :: u32 where "NETANA_NO_ENTRY_FOUND \<equiv> 0x80200008"
abbreviation (input) NETANA_FUNCTION_NOT_AVAILABLE :: u32 where "NETANA_FUNCTION_NOT_AVAILABLE \<equiv> 0x80200009"
abbreviation (input) NETANA_INVALID_BUFFERSIZE :: u32 where "NETANA_INVALID_BUFFERSIZE \<equiv> 0x8020000A"
abbreviation (input) NETANA_ACCESS_DENIED :: u32 where "NETANA_ACCESS_DENIED \<equiv> 0x8020000B"
abbreviation (input) NETANA_TKIT_INITIALIZATION_FAILED :: u32 where "NETANA_TKIT_INITIALIZATION_FAILED \<equiv> 0x80210001"
abbreviation (input) NETANA_DMABUFFER_CREATION_FAILED :: u32 where "NETANA_DMABUFFER_CREATION_FAILED \<equiv> 0x80210002"
abbreviation (input) NETANA_HWRESET_ERROR :: u32 where "NETANA_HWRESET_ERROR \<equiv> 0x80210003"
abbreviation (input) NETANA_CHIP_NOT_SUPPORTED :: u32 where "NETANA_CHIP_NOT_SUPPORTED \<equiv> 0x80210004"
abbreviation (input) NETANA_DOWNLOAD_FAILED :: u32 where "NETANA_DOWNLOAD_FAILED \<equiv> 0x80210005"
abbreviation (input) NETANA_FW_START_FAILED :: u32 where "NETANA_FW_START_FAILED \<equiv> 0x80210006"
abbreviation (input) NETANA_DEV_MAILBOX_FULL :: u32 where "NETANA_DEV_MAILBOX_FULL \<equiv> 0x80210007"
abbreviation (input) NETANA_DEV_NOT_READY :: u32 where "NETANA_DEV_NOT_READY \<equiv> 0x80210008"
abbreviation (input) NETANA_DEV_MAILBOX_TOO_SHORT :: u32 where "NETANA_DEV_MAILBOX_TOO_SHORT \<equiv> 0x80210009"
abbreviation (input) NETANA_DEV_GET_NO_PACKET :: u32 where "NETANA_DEV_GET_NO_PACKET \<equiv> 0x8021000A"
abbreviation (input) NETANA_BUFFER_TOO_SHORT :: u32 where "NETANA_BUFFER_TOO_SHORT \<equiv> 0x8021000B"
abbreviation (input) NETANA_TRANSFER_TIMEOUT :: u32 where "NETANA_TRANSFER_TIMEOUT \<equiv> 0x8021000C"
abbreviation (input) NETANA_IRQEVENT_CREATION_FAILED :: u32 where "NETANA_IRQEVENT_CREATION_FAILED \<equiv> 0x8021000D"
abbreviation (input) NETANA_IRQLOCK_CREATION_FAILED :: u32 where "NETANA_IRQLOCK_CREATION_FAILED \<equiv> 0x8021000E"
abbreviation (input) NETANA_IOCTL_FAILED :: u32 where "NETANA_IOCTL_FAILED \<equiv> 0x80220001"
abbreviation (input) NETANA_DRIVER_NOT_RUNNING :: u32 where "NETANA_DRIVER_NOT_RUNNING \<equiv> 0x80220002"
abbreviation (input) NETANA_DEVICE_NOT_FOUND :: u32 where "NETANA_DEVICE_NOT_FOUND \<equiv> 0x80220003"
abbreviation (input) NETANA_DEVICE_STILL_OPEN :: u32 where "NETANA_DEVICE_STILL_OPEN \<equiv> 0x80220004"
abbreviation (input) NETANA_DEVICE_NOT_OPEN :: u32 where "NETANA_DEVICE_NOT_OPEN \<equiv> 0x80220005"
abbreviation (input) NETANA_MEMORY_MAPPING_FAILED :: u32 where "NETANA_MEMORY_MAPPING_FAILED \<equiv> 0x80220006"
abbreviation (input) NETANA_FILE_OPEN_ERROR :: u32 where "NETANA_FILE_OPEN_ERROR \<equiv> 0x80220007"
abbreviation (input) NETANA_FILE_READ_FAILED :: u32 where "NETANA_FILE_READ_FAILED \<equiv> 0x80220008"
abbreviation (input) NETANA_FILE_CREATION_FAILED :: u32 where "NETANA_FILE_CREATION_FAILED \<equiv> 0x80220009"
abbreviation (input) NETANA_FILE_WRITE_FAILED :: u32 where "NETANA_FILE_WRITE_FAILED \<equiv> 0x8022000A"
abbreviation (input) NETANA_CAPTURE_ACTIVE :: u32 where "NETANA_CAPTURE_ACTIVE \<equiv> 0x8022000B"
abbreviation (input) NETANA_CAPTURE_NOT_ACTIVE :: u32 where "NETANA_CAPTURE_NOT_ACTIVE \<equiv> 0x8022000C"
abbreviation (input) NETANA_FILECAPTURE_NOT_ACTIVE :: u32 where "NETANA_FILECAPTURE_NOT_ACTIVE \<equiv> 0x8022000D"
abbreviation (input) NETANA_CONFIGURATION_ERROR :: u32 where "NETANA_CONFIGURATION_ERROR \<equiv> 0x8022000E"
abbreviation (input) NETANA_THREAD_CREATION_FAILED :: u32 where "NETANA_THREAD_CREATION_FAILED \<equiv> 0x8022000F"
abbreviation (input) NETANA_NO_BUFFER_DATA :: u32 where "NETANA_NO_BUFFER_DATA \<equiv> 0x80220010"
abbreviation (input) NETANA_NO_STATE_CHANGE :: u32 where "NETANA_NO_STATE_CHANGE \<equiv> 0x80220011"
abbreviation (input) NETANA_NO_PLUGIN_FOUND :: u32 where "NETANA_NO_PLUGIN_FOUND \<equiv> 0x80220012"
abbreviation (input) NETANA_DRV_CMD_ACTIVE :: u32 where "NETANA_DRV_CMD_ACTIVE \<equiv> 0x80220013"
abbreviation (input) NETANA_TRANSPORT_CHECKSUM_ERROR :: u32 where "NETANA_TRANSPORT_CHECKSUM_ERROR \<equiv> 0x80230001"
abbreviation (input) NETANA_TRANSPORT_LENGTH_INCOMPLETE :: u32 where "NETANA_TRANSPORT_LENGTH_INCOMPLETE \<equiv> 0x80230002"
abbreviation (input) NETANA_TRANSPORT_DATA_TYPE_UNKOWN :: u32 where "NETANA_TRANSPORT_DATA_TYPE_UNKOWN \<equiv> 0x80230003"
abbreviation (input) NETANA_TRANSPORT_DEVICE_UNKNOWN :: u32 where "NETANA_TRANSPORT_DEVICE_UNKNOWN \<equiv> 0x80230004"
abbreviation (input) NETANA_TRANSPORT_CHANNEL_UNKNOWN :: u32 where "NETANA_TRANSPORT_CHANNEL_UNKNOWN \<equiv> 0x80230005"
abbreviation (input) NETANA_TRANSPORT_SEQUENCE :: u32 where "NETANA_TRANSPORT_SEQUENCE \<equiv> 0x80230006"
abbreviation (input) NETANA_TRANSPORT_BUFFEROVERFLOW :: u32 where "NETANA_TRANSPORT_BUFFEROVERFLOW \<equiv> 0x80230007"
abbreviation (input) NETANA_TRANSPORT_KEEPALIVE :: u32 where "NETANA_TRANSPORT_KEEPALIVE \<equiv> 0x80230008"
abbreviation (input) NETANA_TRANSPORT_RESOURCE :: u32 where "NETANA_TRANSPORT_RESOURCE \<equiv> 0x80230009"
abbreviation (input) NETANA_TRANSPORT_ERROR_UNKNOWN :: u32 where "NETANA_TRANSPORT_ERROR_UNKNOWN \<equiv> 0x8023000A"
abbreviation (input) NETANA_TRANSPORT_RECV_TIMEOUT :: u32 where "NETANA_TRANSPORT_RECV_TIMEOUT \<equiv> 0x8023000B"
abbreviation (input) NETANA_TRANSPORT_SEND_TIMEOUT :: u32 where "NETANA_TRANSPORT_SEND_TIMEOUT \<equiv> 0x8023000C"
abbreviation (input) NETANA_TRANSPORT_CONNECT :: u32 where "NETANA_TRANSPORT_CONNECT \<equiv> 0x8023000D"
abbreviation (input) NETANA_TRANSPORT_ABORTED :: u32 where "NETANA_TRANSPORT_ABORTED \<equiv> 0x8023000E"
abbreviation (input) NETANA_TRANSPORT_INVALID_RESPONSE :: u32 where "NETANA_TRANSPORT_INVALID_RESPONSE \<equiv> 0x8023000F"
abbreviation (input) NETANA_TRANSPORT_UNKNOWN_DATALAYER :: u32 where "NETANA_TRANSPORT_UNKNOWN_DATALAYER \<equiv> 0x80230010"
abbreviation (input) NETANA_CONNECTOR_FUNCTIONS_READ_ERROR :: u32 where "NETANA_CONNECTOR_FUNCTIONS_READ_ERROR \<equiv> 0x80230011"
abbreviation (input) NETANA_CONNECTOR_IDENTIFIER_TOO_LONG :: u32 where "NETANA_CONNECTOR_IDENTIFIER_TOO_LONG \<equiv> 0x80230012"
abbreviation (input) NETANA_CONNECTOR_IDENTIFIER_EMPTY :: u32 where "NETANA_CONNECTOR_IDENTIFIER_EMPTY \<equiv> 0x80230013"
abbreviation (input) NETANA_CONNECTOR_DUPLICATE_IDENTIFIER :: u32 where "NETANA_CONNECTOR_DUPLICATE_IDENTIFIER \<equiv> 0x80230014"
abbreviation (input) NETANA_TRANSPORT_DATA_TOO_SHORT :: u32 where "NETANA_TRANSPORT_DATA_TOO_SHORT \<equiv> 0x80230024"
abbreviation (input) NETANA_TRANSPORT_UNSUPPORTED_FUNCTION :: u32 where "NETANA_TRANSPORT_UNSUPPORTED_FUNCTION \<equiv> 0x80230025"
abbreviation (input) NETANA_TRANSPORT_TIMEOUT :: u32 where "NETANA_TRANSPORT_TIMEOUT \<equiv> 0x80230026"
abbreviation (input) NETANA_CAPTURE_ERROR_ON_TARGET :: u32 where "NETANA_CAPTURE_ERROR_ON_TARGET \<equiv> 0xC0230001"

section \<open>Handshake bits, modes and limits\<close>

abbreviation (input) NETANA_NEWDATA_BIT :: nat where "NETANA_NEWDATA_BIT \<equiv> 0"
abbreviation (input) NETANA_NEWSTATUS_BIT :: nat where "NETANA_NEWSTATUS_BIT \<equiv> 1"
abbreviation (input) NETANA_STARTSTOP_BIT :: nat where "NETANA_STARTSTOP_BIT \<equiv> 2"
abbreviation (input) NETANA_MDIO_BIT :: nat where "NETANA_MDIO_BIT \<equiv> 3"
abbreviation (input) NETANA_UPDATE_BIT :: nat where "NETANA_UPDATE_BIT \<equiv> 4"
abbreviation (input) NETANA_DRV_ERROR_BIT :: nat where "NETANA_DRV_ERROR_BIT \<equiv> 5"
abbreviation (input) NETANA_BLINK_BIT :: nat where "NETANA_BLINK_BIT \<equiv> 6"
abbreviation (input) NETANA_RESYNC_BIT :: nat where "NETANA_RESYNC_BIT \<equiv> 7"
abbreviation (input) NETANA_LICENSE_CHECK_BIT :: nat where "NETANA_LICENSE_CHECK_BIT \<equiv> 8"
abbreviation (input) NETANA_SEND_MBX_BIT :: nat where "NETANA_SEND_MBX_BIT \<equiv> 9"
abbreviation (input) NETANA_RECV_MBX_BIT :: nat where "NETANA_RECV_MBX_BIT \<equiv> 10"

abbreviation (input) NETANA_DEFAULT_TIMEOUT :: u32 where "NETANA_DEFAULT_TIMEOUT \<equiv> 1000"
abbreviation (input) NETANA_MAX_DMA_BUFFERS :: nat where "NETANA_MAX_DMA_BUFFERS \<equiv> 32"
abbreviation (input) NETANA_MAX_FILES :: u32 where "NETANA_MAX_FILES \<equiv> 256"
abbreviation (input) NETANA_MAX_FILEPATH :: nat where "NETANA_MAX_FILEPATH \<equiv> 256"
abbreviation (input) NETANA_MAX_DEVICENAMESIZE :: nat where "NETANA_MAX_DEVICENAMESIZE \<equiv> 64"
abbreviation (input) NETANA_MAX_PORTS :: nat where "NETANA_MAX_PORTS \<equiv> 4"
abbreviation (input) NETANA_MAX_GPIOS :: nat where "NETANA_MAX_GPIOS \<equiv> 4"

abbreviation (input) NETANA_FILE_HEADER_COOKIE :: u32 where "NETANA_FILE_HEADER_COOKIE \<equiv> 0x4145482e"
abbreviation (input) NETANA_FILE_HEADER_SIZE_INVALID :: u64 where
  "NETANA_FILE_HEADER_SIZE_INVALID \<equiv> 0xFFFFFFFFFFFFFFFF"
abbreviation (input) FILE_HEADER_SIZE :: u64 where "FILE_HEADER_SIZE \<equiv> 32"

abbreviation (input) NETANA_CAPTURE_STATE_OFF :: u32 where "NETANA_CAPTURE_STATE_OFF \<equiv> 0"
abbreviation (input) NETANA_CAPTURE_STATE_RUNNING :: u32 where "NETANA_CAPTURE_STATE_RUNNING \<equiv> 2"
abbreviation (input) NETANA_CAPTUREMODE_RINGBUFFER :: u32 where "NETANA_CAPTUREMODE_RINGBUFFER \<equiv> 0x80000000"
abbreviation (input) NETANA_CAPTURE_ERROR_DRIVER_FILE_FULL :: u32 where
  "NETANA_CAPTURE_ERROR_DRIVER_FILE_FULL \<equiv> 0xC0770000"
abbreviation (input) NETANA_CAPTURE_ERROR_DRIVER_INVALID_BUFFERSIZE :: u32 where
  "NETANA_CAPTURE_ERROR_DRIVER_INVALID_BUFFERSIZE \<equiv> 0xC0770001"

abbreviation (input) NETANA_GPIO_MODE_NONE :: u32 where "NETANA_GPIO_MODE_NONE \<equiv> 0"
abbreviation (input) NETANA_GPIO_MODE_RISING_EDGE :: u32 where "NETANA_GPIO_MODE_RISING_EDGE \<equiv> 1"
abbreviation (input) NETANA_GPIO_MODE_FALLING_EDGE :: u32 where "NETANA_GPIO_MODE_FALLING_EDGE \<equiv> 2"
abbreviation (input) NETANA_GPIO_MODE_OUTPUT :: u32 where "NETANA_GPIO_MODE_OUTPUT \<equiv> 3"
abbreviation (input) NETANA_GPIO_MODE_OUTPUT_PWM :: u32 where "NETANA_GPIO_MODE_OUTPUT_PWM \<equiv> 4"
abbreviation (input) NETANA_GPIO_MODE_SYNC :: u32 where "NETANA_GPIO_MODE_SYNC \<equiv> 5"
abbreviation (input) NETANA_GPIO_VOLTAGE_24V :: u32 where "NETANA_GPIO_VOLTAGE_24V \<equiv> 0"
abbreviation (input) NETANA_GPIO_VOLTAGE_3V :: u32 where "NETANA_GPIO_VOLTAGE_3V \<equiv> 1"

abbreviation (input) NETANA_PHY_DIRECTION_READ :: u32 where "NETANA_PHY_DIRECTION_READ \<equiv> 0"
abbreviation (input) NETANA_PHY_DIRECTION_WRITE :: u32 where "NETANA_PHY_DIRECTION_WRITE \<equiv> 1"

abbreviation (input) NANL_DEV_CLASS :: u16 where "NANL_DEV_CLASS \<equiv> 0x10"
abbreviation (input) NSCP_DEV_CLASS :: u16 where "NSCP_DEV_CLASS \<equiv> 0x31"
abbreviation (input) CIFX_DEV_CLASS :: u16 where "CIFX_DEV_CLASS \<equiv> 0x03"
abbreviation (input) NETANA_DEV_CLASS_NANL_500 :: u32 where "NETANA_DEV_CLASS_NANL_500 \<equiv> 1"
abbreviation (input) NETANA_DEV_CLASS_NSCP_100 :: u32 where "NETANA_DEV_CLASS_NSCP_100 \<equiv> 2"
abbreviation (input) NETANA_DEV_CLASS_CIFX :: u32 where "NETANA_DEV_CLASS_CIFX \<equiv> 4"

abbreviation (input) NETANA_CHANNEL_MAILBOX_SIZE :: u32 where "NETANA_CHANNEL_MAILBOX_SIZE \<equiv> 1596"
abbreviation (input) NETANA_PACKET_HEADER_SIZE :: u32 where "NETANA_PACKET_HEADER_SIZE \<equiv> 40"
abbreviation (input) IDENT_INFO_BLOCK_SIZE :: u32 where "IDENT_INFO_BLOCK_SIZE \<equiv> 30"

text \<open>The states \<open>NETANA_BITSTATE_XXX\<close> a handshake bit is compared with.\<close>

datatype bitstate =
    NETANA_BITSTATE_SET
  | NETANA_BITSTATE_CLEAR
  | NETANA_BITSTATE_EQUAL
  | NETANA_BITSTATE_UNEQUAL

datatype chiptype = eCHIP_NETX100_500 | eCHIP_NETX50 | eCHIP_UNKNOWN

section \<open>The dual ported memory\<close>

record feature_block =
  si_ulPhysType :: u32
  si_ulPhysTapPresent :: u32
  si_ulPhysForwardingSupport :: u32
  si_ulPhysPortSpeedSupport :: u32
  si_ulPhysTransparentModeSupport :: u32
  si_ulGpioInputRisingSupport :: u32
  si_ulGpioInputFallingSupport :: u32
  si_ulGpioOutputModeSupport :: u32
  si_ulGpioOutputPWMSupport :: u32
  si_ulGpioSyncInSupport :: u32
  si_ulGpioTriggerStartSupport :: u32
  si_ulGpioTriggerStopSupport :: u32
  si_ulGpioVoltage3VSupport :: u32
  si_ulGpioVoltage24VSupport :: u32
  si_ulSyncSupport :: u32

record system_info_block =
  si_abCookie :: bytes
  si_ulSystemError :: u32
  si_ulDPMLayoutVersion :: u32
  si_ulDPMTotalSize :: u32
  si_ulDPMUsedSize :: u32
  si_ulDeviceNr :: u32
  si_ulSerialNr :: u32
  si_ausHwOptions :: "u16 list"
  si_usManufacturer :: u16
  si_usProductionDate :: u16
  si_usDeviceClass :: u16
  si_bHwRevision :: u8
  si_bHwCompatibility :: u8
  si_szFirmwareName :: bytes
  si_ulVersionMajor :: u32
  si_ulVersionMinor :: u32
  si_ulVersionBuild :: u32
  si_ulVersionRevision :: u32
  si_ulPortCount :: u32
  si_ulGPIOCount :: u32
  si_ulFilterSize :: u32
  si_ulCounterSize :: u32
  si_ulLicenseFlags1 :: u32
  si_ulLicenseFlags2 :: u32
  si_usNetXLicenseID :: u16
  si_usNetXLicenseFlags :: u16
  si_features :: feature_block

record host_dma_buffer =
  hb_ulPhysicalAddressHigh :: u32
  hb_ulPhysicalAddressLow :: u32
  hb_ulBufferSize :: u32

record host_control_block =
  hc_ulBufferFlags :: u32
  hc_ulBufferCount :: u32
  hc_ulHostError :: u32
  hc_atDmaBuffers :: "host_dma_buffer list"
  hc_ulCaptureMode :: u32
  hc_ulPortEnableMask :: u32
  hc_ulMacMode :: u32
  hc_ulRefSeconds :: u32
  hc_ulRefNanoseconds :: u32
  hc_ulResyncP :: u32
  hc_ulResyncI :: u32
  hc_ulHostBufferTimeout :: u32

record netx_status_block =
  ns_ulBufferFlags :: u32
  ns_ulCaptureState :: u32
  ns_ulCaptureError :: u32
  ns_aulUsedBufferSize :: "u32 list"

record mdio_block =
  md_ulDirection :: u32
  md_ulPhyNum :: u32
  md_ulPhyReg :: u32
  md_ulValue :: u32

text \<open>
  The union \<open>uData\<close> of a GPIO block is three words; \<open>tTrigger\<close>, \<open>tOutput\<close>, \<open>tPwm\<close> and
  \<open>tSync\<close> are names for them (\<open>ulCaptureTriggers\<close>, \<open>ulLevel\<close>, \<open>ulHiPeriod\<close> and \<open>ulPeriod\<close>
  are the first word, \<open>ulEndDelay\<close> and \<open>ulLoPeriod\<close> the second).
\<close>

record gpio_block =
  gb_ulMode :: u32
  gb_ulVoltage :: u32
  gb_uData0 :: u32
  gb_uData1 :: u32
  gb_uData2 :: u32

record filter_pair =
  fp_pbMask :: bytes
  fp_pbValue :: bytes

record dpm_filter =
  fl_ulRelationShip :: u32
  fl_A :: filter_pair
  fl_B :: filter_pair

record counter_block =
  cb_ulLinkState :: u32
  cb_ullFramesReceivedOk :: u64
  cb_ullRXErrors :: u64
  cb_ullAlignmentErrors :: u64
  cb_ullFrameCheckSequenceErrors :: u64
  cb_ullFrameTooLongErrors :: u64
  cb_ullSFDErrors :: u64
  cb_ullShortFrame :: u64
  cb_ullFramesRejected :: u64
  cb_ullLongPreambleCnt :: u64
  cb_ullShortPreambleCnt :: u64
  cb_ullBytesLineBusy :: u64
  cb_ullMinIFG :: u32
  cb_ullTime :: u64

record handshake_cell =
  hs_usNetxFlags :: u16
  hs_usHostFlags :: u16

record send_mailbox =
  sm_usPackagesAccepted :: u16
  sm_abSendMailbox :: bytes

record recv_mailbox =
  rm_usWaitingPackages :: u16
  rm_abRecvMailbox :: bytes

record dpm =
  tSystemInfoBlock :: system_info_block
  tHostControlBlock :: host_control_block
  tNetxStatusBlock :: netx_status_block
  tMdioBlock :: mdio_block
  gpios :: "gpio_block list"
  filters :: "dpm_filter list"
  counters :: "counter_block list"
  pbIdentInfoBlock :: bytes
  tSendMailbox :: send_mailbox
  tRecvMailbox :: recv_mailbox
  atHandshake :: "handshake_cell list"
  ulIRQState_0 :: u32
  dmaMem :: "bytes list"

section \<open>The device instance of the toolkit\<close>

record dmabuffer =
  db_ulPhysicalAddress :: u32
  db_ulBufferSize :: u32

record irq2dsr_buffer =
  ib_atHskCell :: "handshake_cell list"
  ib_fValid :: bool

record file_header =
  fh_ulCookie :: u32
  fh_ulIdx :: u32
  fh_ullCaptureStart :: u64
  fh_ullDataSize :: u64
  fh_lTimezoneCorrection :: u32
  fh_ulReserved :: u32

text \<open>File handles are numbers, \<open>0\<close> is \<open>NULL\<close>.\<close>

record file_data =
  fd_hFile :: nat
  fd_ullOffset :: u64
  fd_ullDataWritten :: u64

text \<open>The file list fields, which the instances of the toolkit and of the library share.\<close>

record filelist =
  tFileHeader :: file_header
  fRingBuffer :: bool
  fWriteToFile :: bool
  ulFileCount :: u32
  ullFileSize :: u64
  szPath :: string
  szBaseFilename :: string
  ulCurrentFile :: u32
  atFiles :: "file_data list"

record ident_file_info =
  if_fIdentUpdateRequest :: bool
  if_szIdentInfoFileName :: string
  if_lError :: u32

record tx_mailbox =
  tx_ulSendMailboxLength :: u32
  tx_bSendCMDBitoffset :: u8
  tx_ulSendPacketCnt :: u32

record rx_mailbox =
  rx_ulRecvMailboxLength :: u32
  rx_bRecvACKBitoffset :: u8
  rx_ulRecvPacketCnt :: u32

text \<open>The filter a device starts with: copies from \<open>OS_Memalloc\<close>, \<open>NULL\<close> when that failed.\<close>

record default_pair =
  dp_pbMask :: "bytes option"
  dp_pbValue :: "bytes option"

record devinst =
  szDeviceName :: string
  szAliasName :: string
  ulDPMPhysicalAddress :: u32
  ulDPMSize :: u32
  ulInterruptNr :: u32
  ulFlashBased :: u32
  usDeviceClass :: u16
  ulDevNo :: u32
  ulDMABufferCount :: u32
  atDMABuffers :: "dmabuffer list"
  ulOpenCnt :: u32
  ulPortCnt :: u32
  ulFilterSize :: u32
  ulCounterSize :: u32
  ulGpioCnt :: u32
  eChip :: chiptype
  ulDeviceNr :: u32
  ulSerialNr :: u32
  ulIrqCounter :: u32
  iIrq2DsrBuffer :: nat
  atIrq2DsrBuffer :: "irq2dsr_buffer list"
  ulNetxFlags :: u32
  ulHostFlags :: u32
  ulCurrentBuffer :: u32
  flst :: filelist
  pfnStatus :: "nat option"
  pfnData :: "nat option"
  pvUser :: nat
  tIdentInfoFile :: ident_file_info
  atDefaultFilter :: "(default_pair \<times> default_pair) list"
  atDefaultGPIOs :: "gpio_block list"
  tSendMbx :: tx_mailbox
  tRecvMbx :: rx_mailbox

section \<open>Files, environment and the whole state\<close>

text \<open>
  A file is its content, the position of the next write and the space left on its
  medium. \<open>OS_FileOpen\<close>, \<open>OS_FileWrite\<close>, \<open>OS_FileSeek\<close> and \<open>OS_FileClose\<close> belong to the port of the toolkit and differ
  from platform to platform: the toolkit definitions take them as a \<open>file_ops\<close> argument.
\<close>

record file_st =
  fs_bytes :: bytes
  fs_pos :: nat
  fs_room :: nat
  fs_open :: bool

type_synonym fstore = "nat \<Rightarrow> file_st"

record file_ops =
  fo_write :: "nat \<Rightarrow> bytes \<Rightarrow> fstore \<Rightarrow> u64 \<times> fstore"
  fo_seek :: "nat \<Rightarrow> nat \<Rightarrow> fstore \<Rightarrow> fstore"
  fo_open :: "string \<Rightarrow> u64 \<Rightarrow> fstore \<Rightarrow> nat \<times> fstore"
  fo_close :: "nat \<Rightarrow> fstore \<Rightarrow> fstore"

text \<open>
  One tick is what happens during one blocking call (\<open>OS_WaitEvent\<close>, \<open>OS_Sleep\<close>): the
  DSR may have latched new netX flags, the netX may have written to the DPM, the
  millisecond counter has advanced, and \<open>tk_dsr\<close> tells whether the DSR thread runs
  \<open>netana_tkit_process\<close> before the call returns. The calls which share state with it, starting and
  stopping a capture, follow it; the others do not touch what it touches.
\<close>

record tick =
  tk_netx :: "u32 option"
  tk_dpm :: "dpm \<Rightarrow> dpm"
  tk_now :: u32
  tk_dsr :: bool

text \<open>
  \<open>waitLog\<close> records each wait for a handshake event with its timeout, latest first;
  \<open>hskEvents\<close> are the events \<open>ahHandshakeBitEvents\<close>; \<open>dataLog\<close> and \<open>statusLog\<close> the
  callbacks made (callback, arguments, \<open>pvUser\<close>), latest first.
\<close>

record sys =
  dev :: devinst
  dpm :: dpm
  fstore :: fstore
  env :: "tick list"
  now :: u32
  waitLog :: "(nat \<times> u32) list"
  hskEvents :: "bool list"
  hStopComplete :: bool
  dataLog :: "(nat \<times> bytes \<times> nat) list"
  statusLog :: "(nat \<times> u32 \<times> u32 \<times> nat) list"

definition upd_dev :: "(devinst \<Rightarrow> devinst) \<Rightarrow> sys \<Rightarrow> sys" where
  "upd_dev f s = s\<lparr>dev := f (dev s)\<rparr>"

definition upd_dpm :: "(dpm \<Rightarrow> dpm) \<Rightarrow> sys \<Rightarrow> sys" where
  "upd_dpm f s = s\<lparr>dpm := f (dpm s)\<rparr>"

end
