(* ===== verification/Netana_Sample.thy ===== *)
theory Netana_Sample
  imports Netana_State
begin

text \<open>
  A concrete device, on which the witnesses evaluate the model: two DMA buffers of eight
  bytes, two ports with filters of four bytes, four GPIOs, one capture file of 64 bytes.
  The trace of \<open>sample\<close> is empty; \<open>quiet\<close> is a tick in which only time passes and \<open>ack\<close>
  one in which the DSR latches the given netX flags.
\<close>

definition sample_features :: feature_block where
  "sample_features = \<lparr>si_ulPhysType = 0, si_ulPhysTapPresent = 1, si_ulPhysForwardingSupport = 1,
     si_ulPhysPortSpeedSupport = 0, si_ulPhysTransparentModeSupport = 1,
     si_ulGpioInputRisingSupport = 15, si_ulGpioInputFallingSupport = 15,
     si_ulGpioOutputModeSupport = 15, si_ulGpioOutputPWMSupport = 15, si_ulGpioSyncInSupport = 15,
     si_ulGpioTriggerStartSupport = 15, si_ulGpioTriggerStopSupport = 15,
     si_ulGpioVoltage3VSupport = 15, si_ulGpioVoltage24VSupport = 15, si_ulSyncSupport = 1\<rparr>"

definition sample_sysinfo :: system_info_block where
  "sample_sysinfo = \<lparr>si_abCookie = replicate 12 0, si_ulSystemError = 0, si_ulDPMLayoutVersion = 1,
     si_ulDPMTotalSize = 0x4000, si_ulDPMUsedSize = 0x3580, si_ulDeviceNr = 7310100,
     si_ulSerialNr = 20000, si_ausHwOptions = [1, 1, 0, 0], si_usManufacturer = 1,
     si_usProductionDate = 0x0A01, si_usDeviceClass = 0x10, si_bHwRevision = 1,
     si_bHwCompatibility = 0, si_szFirmwareName = replicate 32 65, si_ulVersionMajor = 1,
     si_ulVersionMinor = 5, si_ulVersionBuild = 2, si_ulVersionRevision = 0, si_ulPortCount = 2,
     si_ulGPIOCount = 4, si_ulFilterSize = 4, si_ulCounterSize = 112, si_ulLicenseFlags1 = 3,
     si_ulLicenseFlags2 = 0, si_usNetXLicenseID = 9, si_usNetXLicenseFlags = 0,
     si_features = sample_features\<rparr>"

definition sample_hostctrl :: host_control_block where
  "sample_hostctrl = \<lparr>hc_ulBufferFlags = 0, hc_ulBufferCount = 0, hc_ulHostError = 0,
     hc_atDmaBuffers = replicate 32 \<lparr>hb_ulPhysicalAddressHigh = 0, hb_ulPhysicalAddressLow = 0, hb_ulBufferSize = 0\<rparr>,
     hc_ulCaptureMode = 0, hc_ulPortEnableMask = 0, hc_ulMacMode = 0, hc_ulRefSeconds = 0,
     hc_ulRefNanoseconds = 0, hc_ulResyncP = 0, hc_ulResyncI = 0, hc_ulHostBufferTimeout = 0\<rparr>"

definition sample_status :: netx_status_block where
  "sample_status = \<lparr>ns_ulBufferFlags = 0, ns_ulCaptureState = 0, ns_ulCaptureError = 0,
     ns_aulUsedBufferSize = replicate 32 0\<rparr>"

definition sample_gpio :: gpio_block where
  "sample_gpio = \<lparr>gb_ulMode = 0, gb_ulVoltage = 0, gb_uData0 = 0, gb_uData1 = 0, gb_uData2 = 0\<rparr>"

definition sample_filter :: dpm_filter where
  "sample_filter = \<lparr>fl_ulRelationShip = 0,
     fl_A = \<lparr>fp_pbMask = [0, 0, 0, 0], fp_pbValue = [0, 0, 0, 0]\<rparr>,
     fl_B = \<lparr>fp_pbMask = [0, 0, 0, 0], fp_pbValue = [0, 0, 0, 0]\<rparr>\<rparr>"

definition sample_counter :: counter_block where
  "sample_counter = \<lparr>cb_ulLinkState = 7, cb_ullFramesReceivedOk = 100, cb_ullRXErrors = 0,
     cb_ullAlignmentErrors = 0, cb_ullFrameCheckSequenceErrors = 0, cb_ullFrameTooLongErrors = 0,
     cb_ullSFDErrors = 0, cb_ullShortFrame = 0, cb_ullFramesRejected = 0, cb_ullLongPreambleCnt = 0,
     cb_ullShortPreambleCnt = 0, cb_ullBytesLineBusy = 6400, cb_ullMinIFG = 960, cb_ullTime = 5\<rparr>"

definition sample_cell :: handshake_cell where
  "sample_cell = \<lparr>hs_usNetxFlags = 0, hs_usHostFlags = 0\<rparr>"

definition sample_dpm :: dpm where
  "sample_dpm = \<lparr>tSystemInfoBlock = sample_sysinfo, tHostControlBlock = sample_hostctrl,
     tNetxStatusBlock = sample_status,
     tMdioBlock = \<lparr>md_ulDirection = 0, md_ulPhyNum = 0, md_ulPhyReg = 0, md_ulValue = 0\<rparr>,
     gpios = replicate 4 sample_gpio, filters = replicate 2 sample_filter,
     counters = replicate 2 sample_counter, pbIdentInfoBlock = replicate 30 0,
     tSendMailbox = \<lparr>sm_usPackagesAccepted = 1, sm_abSendMailbox = replicate 60 0\<rparr>,
     tRecvMailbox = \<lparr>rm_usWaitingPackages = 0, rm_abRecvMailbox = replicate 60 0\<rparr>,
     atHandshake = replicate 16 sample_cell, ulIRQState_0 = 0,
     dmaMem = [[1, 2, 3, 4, 5, 6, 7, 8], [11, 12, 13, 14, 15, 16, 17, 18]]\<rparr>"

definition sample_irqbuf :: irq2dsr_buffer where
  "sample_irqbuf = \<lparr>ib_atHskCell = replicate 8 sample_cell, ib_fValid = False\<rparr>"

definition sample_header :: file_header where
  "sample_header = \<lparr>fh_ulCookie = 0x4145482e, fh_ulIdx = 0, fh_ullCaptureStart = 0, fh_ullDataSize = 0,
     fh_lTimezoneCorrection = 0, fh_ulReserved = 0\<rparr>"

definition sample_filelist :: filelist where
  "sample_filelist = \<lparr>tFileHeader = sample_header,
     fRingBuffer = False, fWriteToFile = False, ulFileCount = 0, ullFileSize = 0, szPath = '''',
     szBaseFilename = '''', ulCurrentFile = 0,
     atFiles = replicate 256 \<lparr>fd_hFile = 0, fd_ullOffset = 0, fd_ullDataWritten = 0\<rparr>\<rparr>"

definition sample_default :: default_pair where
  "sample_default = \<lparr>dp_pbMask = Some [0, 0, 0, 0], dp_pbValue = Some [0, 0, 0, 0]\<rparr>"

definition sample_dev :: devinst where
  "sample_dev = \<lparr>szDeviceName = ''netANALYZER_0'', szAliasName = ''netANALYZER_0'',
     ulDPMPhysicalAddress = 0xF0000000, ulDPMSize = 0x4000, ulInterruptNr = 16, ulFlashBased = 0,
     usDeviceClass = 0x10, ulDevNo = 0, ulDMABufferCount = 2,
     atDMABuffers = [\<lparr>db_ulPhysicalAddress = 0x1000, db_ulBufferSize = 8\<rparr>,
                     \<lparr>db_ulPhysicalAddress = 0x2000, db_ulBufferSize = 8\<rparr>],
     ulOpenCnt = 1, ulPortCnt = 2, ulFilterSize = 4, ulCounterSize = 112, ulGpioCnt = 4,
     eChip = eCHIP_NETX100_500, ulDeviceNr = 7310100, ulSerialNr = 20000, ulIrqCounter = 0,
     iIrq2DsrBuffer = 0, atIrq2DsrBuffer = [sample_irqbuf, sample_irqbuf],
     ulNetxFlags = 0, ulHostFlags = 0, ulCurrentBuffer = 0, flst = sample_filelist, pfnStatus = None, pfnData = None, pvUser = 0,
     tIdentInfoFile = \<lparr>if_fIdentUpdateRequest = False, if_szIdentInfoFileName = '''', if_lError = 0\<rparr>,
     atDefaultFilter = replicate 2 (sample_default, sample_default), atDefaultGPIOs = replicate 4 sample_gpio,
     tSendMbx = \<lparr>tx_ulSendMailboxLength = 60, tx_bSendCMDBitoffset = 9, tx_ulSendPacketCnt = 0\<rparr>,
     tRecvMbx = \<lparr>rx_ulRecvMailboxLength = 60, rx_bRecvACKBitoffset = 10, rx_ulRecvPacketCnt = 0\<rparr>\<rparr>"

definition sample :: sys where
  "sample = \<lparr>dev = sample_dev, dpm = sample_dpm,
     fstore = (\<lambda>_. \<lparr>fs_bytes = [], fs_pos = 0, fs_room = 1000, fs_open = True\<rparr>), env = [], now = 0,
     waitLog = [], hskEvents = replicate 16 False, hStopComplete = False,
     dataLog = [], statusLog = []\<rparr>"

definition quiet :: "u32 \<Rightarrow> tick" where
  "quiet t = \<lparr>tk_netx = None, tk_dpm = id, tk_now = t, tk_dsr = False\<rparr>"

definition ack :: "u32 \<Rightarrow> u32 \<Rightarrow> tick" where
  "ack f t = \<lparr>tk_netx = Some f, tk_dpm = id, tk_now = t, tk_dsr = False\<rparr>"

lemmas sample_defs = sample_features_def sample_sysinfo_def sample_hostctrl_def sample_status_def
  sample_gpio_def sample_filter_def sample_counter_def sample_cell_def sample_dpm_def
  sample_irqbuf_def sample_header_def sample_filelist_def sample_dev_def sample_def quiet_def ack_def

end
