(* ===== verification/Handshake.thy ===== *)
theory Handshake
  imports Netana_Sample
begin

text \<open>
  The handshake between host and netX (\<open>netana_functions.c\<close>): \<open>GetHskBitState\<close>,
  \<open>netana_tkit_WaitForBitState\<close> and \<open>netana_tkit_ToggleBit\<close>. The locale
  \<open>command_channel\<close> is the contract every command of the driver is built on: wait until
  the channel is free, write the parameters, toggle the command bit, wait for the device
  to toggle its own. It is interpreted on these definitions below, and on the handshake of
  the ROM loader in the theory of the boot mailbox.
\<close>

section \<open>Device activity during a wait\<close>

definition apply_tick :: "tick \<Rightarrow> sys \<Rightarrow> sys" where
  "apply_tick t s = s\<lparr>
     dev := (case tk_netx t of None \<Rightarrow> dev s | Some f \<Rightarrow> (dev s)\<lparr>ulNetxFlags := f\<rparr>),
     dpm := tk_dpm t (dpm s),
     now := tk_now t\<rparr>"

text \<open>One call of \<open>OS_WaitEvent\<close> on a handshake event, with the tick that ends it.\<close>

definition os_wait :: "nat \<Rightarrow> u32 \<Rightarrow> tick \<Rightarrow> tick list \<Rightarrow> sys \<Rightarrow> sys" where
  "os_wait ulBit ulTimeout t ts s =
     apply_tick t (s\<lparr>env := ts, waitLog := (ulBit, ulTimeout) # waitLog s\<rparr>)"

section \<open>The operations\<close>

fun GetHskBitState :: "devinst \<Rightarrow> u32 \<Rightarrow> bitstate \<Rightarrow> bitstate" where
  "GetHskBitState d ulBitMask NETANA_BITSTATE_SET =
     (if ulNetxFlags d AND ulBitMask \<noteq> 0 then NETANA_BITSTATE_SET else NETANA_BITSTATE_CLEAR)"
| "GetHskBitState d ulBitMask NETANA_BITSTATE_CLEAR =
     (if ulNetxFlags d AND ulBitMask \<noteq> 0 then NETANA_BITSTATE_SET else NETANA_BITSTATE_CLEAR)"
| "GetHskBitState d ulBitMask _ =
     (if (ulHostFlags d XOR ulNetxFlags d) AND ulBitMask \<noteq> 0
      then NETANA_BITSTATE_UNEQUAL else NETANA_BITSTATE_EQUAL)"

text \<open>The \<open>do ... while\<close> loop; each round consumes one tick in \<open>OS_WaitEvent\<close>.\<close>

fun wait_loop :: "nat \<Rightarrow> bitstate \<Rightarrow> u32 \<Rightarrow> u32 \<Rightarrow> u32 \<Rightarrow> tick list \<Rightarrow> sys \<Rightarrow> (bool \<times> sys) option" where
  "wait_loop ulBit bState ulTimeout lStartTime ulInternalTimeout [] s = None"
| "wait_loop ulBit bState ulTimeout lStartTime ulInternalTimeout (t # ts) s =
     (let s1 = os_wait ulBit ulInternalTimeout t ts s;
          ulDiffTime = now s1 - lStartTime;
          ulInternalTimeout' = ulTimeout - ulDiffTime
      in if GetHskBitState (dev s1) (msk ulBit) bState = bState then Some (True, s1)
         else if ulDiffTime > ulTimeout then Some (False, s1)
         else wait_loop ulBit bState ulTimeout lStartTime ulInternalTimeout' ts s1)"

definition netana_tkit_WaitForBitState :: "nat \<Rightarrow> bitstate \<Rightarrow> u32 \<Rightarrow> (sys, bool) proc" where
  "netana_tkit_WaitForBitState ulBit bState ulTimeout s =
     (if GetHskBitState (dev s) (msk ulBit) bState = bState then Some (True, s)
      else if ulTimeout = 0 then Some (False, s)
      else wait_loop ulBit bState ulTimeout (now s) ulTimeout (env s) s)"

definition set_host_cell :: "u16 \<Rightarrow> dpm \<Rightarrow> dpm" where
  "set_host_cell f m = m\<lparr>atHandshake :=
     (atHandshake m)[0 := ((atHandshake m) ! 0)\<lparr>hs_usHostFlags := f\<rparr>]\<rparr>"

definition netana_tkit_ToggleBit :: "nat \<Rightarrow> sys \<Rightarrow> sys" where
  "netana_tkit_ToggleBit ulBit s =
     (let f = ulHostFlags (dev s) XOR msk ulBit
      in s\<lparr>dev := (dev s)\<lparr>ulHostFlags := f\<rparr>, dpm := set_host_cell (ucast f) (dpm s)\<rparr>)"

lemma set_host_cell_frame [simp]:
  "tSystemInfoBlock (set_host_cell f m) = tSystemInfoBlock m"
  "tHostControlBlock (set_host_cell f m) = tHostControlBlock m"
  "tNetxStatusBlock (set_host_cell f m) = tNetxStatusBlock m"
  "tMdioBlock (set_host_cell f m) = tMdioBlock m" "gpios (set_host_cell f m) = gpios m"
  "filters (set_host_cell f m) = filters m" "counters (set_host_cell f m) = counters m"
  "pbIdentInfoBlock (set_host_cell f m) = pbIdentInfoBlock m"
  "tSendMailbox (set_host_cell f m) = tSendMailbox m" "tRecvMailbox (set_host_cell f m) = tRecvMailbox m"
  "dmaMem (set_host_cell f m) = dmaMem m" "ulIRQState_0 (set_host_cell f m) = ulIRQState_0 m"
  by (simp_all add: set_host_cell_def)

section \<open>What the operations mean for the bits\<close>

definition hostbit :: "sys \<Rightarrow> nat \<Rightarrow> bool" where
  "hostbit s b = bit (ulHostFlags (dev s)) b"

definition netxbit :: "sys \<Rightarrow> nat \<Rightarrow> bool" where
  "netxbit s b = bit (ulNetxFlags (dev s)) b"

text \<open>The declarative reading of a bit state.\<close>

fun bit_in_state :: "sys \<Rightarrow> nat \<Rightarrow> bitstate \<Rightarrow> bool" where
  "bit_in_state s b NETANA_BITSTATE_SET = netxbit s b"
| "bit_in_state s b NETANA_BITSTATE_CLEAR = (\<not> netxbit s b)"
| "bit_in_state s b NETANA_BITSTATE_EQUAL = (hostbit s b = netxbit s b)"
| "bit_in_state s b NETANA_BITSTATE_UNEQUAL = (hostbit s b \<noteq> netxbit s b)"

lemma GetHskBitState_iff [simp]:
  "GetHskBitState (dev s) (msk b) st = st \<longleftrightarrow> bit_in_state s b st"
  by (cases st) (auto simp: hostbit_def netxbit_def bit_xor_iff)

text \<open>Everything of the device instance but the netX flags survives a wait.\<close>

definition host_view :: "devinst \<Rightarrow> devinst" where
  "host_view d = d\<lparr>ulNetxFlags := 0\<rparr>"

lemma host_view_apply_tick [simp]: "host_view (dev (apply_tick t s)) = host_view (dev s)"
  by (simp add: apply_tick_def host_view_def split: option.split)

lemma host_view_sel [simp]:
  "ulHostFlags (host_view d) = ulHostFlags d"
  "ulPortCnt (host_view d) = ulPortCnt d"
  "ulGpioCnt (host_view d) = ulGpioCnt d"
  "ulFilterSize (host_view d) = ulFilterSize d"
  "usDeviceClass (host_view d) = usDeviceClass d"
  "ulCurrentBuffer (host_view d) = ulCurrentBuffer d"
  "ulDMABufferCount (host_view d) = ulDMABufferCount d"
  "atDMABuffers (host_view d) = atDMABuffers d"
  "flst (host_view d) = flst d"
  "pfnData (host_view d) = pfnData d"
  "pfnStatus (host_view d) = pfnStatus d"
  "pvUser (host_view d) = pvUser d"
  "tSendMbx (host_view d) = tSendMbx d"
  "tRecvMbx (host_view d) = tRecvMbx d"
  by (simp_all add: host_view_def)

lemma host_viewD:
  assumes "host_view d = host_view d'"
  shows "d = d'\<lparr>ulNetxFlags := ulNetxFlags d\<rparr>"
  using assms by (cases d; cases d') (simp add: host_view_def)

lemma host_view_cong: "host_view d = host_view d' \<Longrightarrow> f (host_view d) = f (host_view d')"
  by simp

lemmas host_view_fields =
  host_view_cong[where f = ulHostFlags, unfolded host_view_sel]
  host_view_cong[where f = ulPortCnt, unfolded host_view_sel]
  host_view_cong[where f = ulGpioCnt, unfolded host_view_sel]
  host_view_cong[where f = ulFilterSize, unfolded host_view_sel]
  host_view_cong[where f = usDeviceClass, unfolded host_view_sel]
  host_view_cong[where f = ulCurrentBuffer, unfolded host_view_sel]
  host_view_cong[where f = ulDMABufferCount, unfolded host_view_sel]
  host_view_cong[where f = atDMABuffers, unfolded host_view_sel]
  host_view_cong[where f = flst, unfolded host_view_sel]
  host_view_cong[where f = pfnData, unfolded host_view_sel]
  host_view_cong[where f = pfnStatus, unfolded host_view_sel]
  host_view_cong[where f = pvUser, unfolded host_view_sel]
  host_view_cong[where f = tSendMbx, unfolded host_view_sel]
  host_view_cong[where f = tRecvMbx, unfolded host_view_sel]

lemma os_wait_frame [simp]:
  "host_view (dev (os_wait b it t ts s)) = host_view (dev s)"
  "dpm (os_wait b it t ts s) = tk_dpm t (dpm s)"
  "env (os_wait b it t ts s) = ts"
  "now (os_wait b it t ts s) = tk_now t"
  "fstore (os_wait b it t ts s) = fstore s"
  "waitLog (os_wait b it t ts s) = (b, it) # waitLog s"
  "hskEvents (os_wait b it t ts s) = hskEvents s"
  "dataLog (os_wait b it t ts s) = dataLog s"
  "statusLog (os_wait b it t ts s) = statusLog s"
  "hStopComplete (os_wait b it t ts s) = hStopComplete s"
  by (simp_all add: os_wait_def apply_tick_def host_view_def split: option.split)

lemma os_wait_hostflags [simp]: "ulHostFlags (dev (os_wait b it t ts s)) = ulHostFlags (dev s)"
  by (simp add: os_wait_def apply_tick_def split: option.split)

lemma wait_loop_result:
  "wait_loop b st to t0 it ts s = Some (r, s') \<Longrightarrow> r \<longleftrightarrow> bit_in_state s' b st"
  by (induction ts arbitrary: it s) (auto simp: Let_def split: if_splits)

text \<open>What no wait touches: files, logs and everything of the instance but the netX flags.\<close>

definition wait_frame :: "sys \<Rightarrow> sys \<Rightarrow> bool" where
  "wait_frame s s' \<longleftrightarrow>
     host_view (dev s') = host_view (dev s) \<and> fstore s' = fstore s \<and>
     dataLog s' = dataLog s \<and> statusLog s' = statusLog s \<and>
     hskEvents s' = hskEvents s \<and> hStopComplete s' = hStopComplete s"

lemma wait_frame_refl [simp]: "wait_frame s s"
  by (simp add: wait_frame_def)

lemma wait_frame_trans: "wait_frame a b \<Longrightarrow> wait_frame b c \<Longrightarrow> wait_frame a c"
  by (simp add: wait_frame_def)

lemma wait_frame_os_wait [simp]: "wait_frame s (os_wait b it t ts s)"
  by (simp add: wait_frame_def)

lemma wait_loop_frame:
  "wait_loop b st to t0 it ts s = Some (r, s') \<Longrightarrow> wait_frame s s'"
  by (induction ts arbitrary: it s)
     (auto simp: Let_def split: if_splits intro: wait_frame_trans[OF wait_frame_os_wait])

lemma wait_loop_env:
  "wait_loop b st to t0 it ts s = Some (r, s') \<Longrightarrow> \<exists>n < length ts. env s' = drop (Suc n) ts"
proof (induction ts arbitrary: it s)
  case (Cons t ts)
  show ?case
  proof (cases "bit_in_state (os_wait b it t ts s) b st \<or> to < tk_now t - t0")
    case True
    then show ?thesis
      using Cons.prems by (intro exI[of _ 0]) (auto simp: Let_def split: if_splits)
  next
    case False
    then obtain n where "n < length ts" "env s' = drop (Suc n) ts"
      using Cons by (auto simp: Let_def split: if_splits)
    then show ?thesis
      by (intro exI[of _ "Suc n"]) auto
  qed
qed simp

text \<open>
  No wait is longer than the time left: the subtraction \<open>ulTimeout - ulDiffTime\<close> is only
  used again when it did not wrap.
\<close>

lemma wait_loop_log:
  "wait_loop b st to t0 it ts s = Some (r, s') \<Longrightarrow> it \<le> to \<Longrightarrow>
     \<exists>ws. waitLog s' = ws @ waitLog s \<and> (\<forall>(c, w) \<in> set ws. c = b \<and> w \<le> to)"
proof (induction ts arbitrary: it s)
  case (Cons t ts)
  let ?s1 = "os_wait b it t ts s"
  show ?case
  proof (cases "bit_in_state ?s1 b st \<or> to < tk_now t - t0")
    case True
    then show ?thesis
      using Cons.prems by (intro exI[of _ "[(b, it)]"]) (auto simp: Let_def split: if_splits)
  next
    case False
    then have "to - (tk_now t - t0) \<le> to"
      by (simp add: word_le_nat_alt unat_sub not_less)
    moreover have "wait_loop b st to t0 (to - (tk_now t - t0)) ts ?s1 = Some (r, s')"
      using False Cons.prems by (simp add: Let_def)
    ultimately obtain ws where
      "waitLog s' = ws @ waitLog ?s1" "\<forall>(c, w) \<in> set ws. c = b \<and> w \<le> to"
      using Cons.IH by blast
    then show ?thesis
      using Cons.prems(2) by (intro exI[of _ "ws @ [(b, it)]"]) auto
  qed
qed simp

text \<open>The wait ends at the first tick which shows the state or exceeds the timeout.\<close>

lemma wait_loop_returns:
  assumes "i < length ts" "to < tk_now (ts ! i) - t0"
  shows "\<exists>r s'. wait_loop b st to t0 it ts s = Some (r, s')"
  using assms
proof (induction ts arbitrary: it s i)
  case (Cons t ts)
  then show ?case
    by (cases i) (auto simp: Let_def)
qed simp

section \<open>Wait and toggle\<close>

lemma Wait_result:
  "netana_tkit_WaitForBitState b st to s = Some (r, s') \<Longrightarrow> r \<longleftrightarrow> bit_in_state s' b st"
  by (auto simp: netana_tkit_WaitForBitState_def split: if_splits dest: wait_loop_result)

lemma Wait_frame:
  "netana_tkit_WaitForBitState b st to s = Some (r, s') \<Longrightarrow> wait_frame s s'"
  by (auto simp: netana_tkit_WaitForBitState_def split: if_splits dest: wait_loop_frame)

lemma Wait_hostflags:
  "netana_tkit_WaitForBitState b st to s = Some (r, s') \<Longrightarrow>
     ulHostFlags (dev s') = ulHostFlags (dev s)"
  by (auto dest!: Wait_frame simp: wait_frame_def dest: host_view_fields)

lemma Wait_log:
  assumes "netana_tkit_WaitForBitState b st to s = Some (r, s')"
  shows "\<exists>ws. waitLog s' = ws @ waitLog s \<and> (\<forall>(c, w) \<in> set ws. c = b \<and> w \<le> to)"
proof (cases "bit_in_state s b st \<or> to = 0")
  case True
  then show ?thesis
    using assms by (intro exI[of _ "[]"]) (auto simp: netana_tkit_WaitForBitState_def split: if_splits)
next
  case False
  then show ?thesis
    using assms wait_loop_log[of b st to "now s" to "env s" s r s']
    by (simp add: netana_tkit_WaitForBitState_def)
qed

lemma Wait_immediate [simp]:
  "bit_in_state s b st \<Longrightarrow> netana_tkit_WaitForBitState b st to s = Some (True, s)"
  "\<not> bit_in_state s b st \<Longrightarrow> netana_tkit_WaitForBitState b st 0 s = Some (False, s)"
  by (simp_all add: netana_tkit_WaitForBitState_def)

lemma Toggle_frame [simp]:
  "ulNetxFlags (dev (netana_tkit_ToggleBit b s)) = ulNetxFlags (dev s)"
  "ulHostFlags (dev (netana_tkit_ToggleBit b s)) = ulHostFlags (dev s) XOR msk b"
  "dpm (netana_tkit_ToggleBit b s) =
     set_host_cell (ucast (ulHostFlags (dev s) XOR msk b)) (dpm s)"
  "env (netana_tkit_ToggleBit b s) = env s"
  "now (netana_tkit_ToggleBit b s) = now s"
  "fstore (netana_tkit_ToggleBit b s) = fstore s"
  "waitLog (netana_tkit_ToggleBit b s) = waitLog s"
  "hskEvents (netana_tkit_ToggleBit b s) = hskEvents s"
  "dataLog (netana_tkit_ToggleBit b s) = dataLog s"
  "statusLog (netana_tkit_ToggleBit b s) = statusLog s"
  "hStopComplete (netana_tkit_ToggleBit b s) = hStopComplete s"
  by (simp_all add: netana_tkit_ToggleBit_def Let_def)

text \<open>Everything of the instance but the host flags survives a toggle.\<close>

lemma dev_Toggle:
  "dev (netana_tkit_ToggleBit b s) = (dev s)\<lparr>ulHostFlags := ulHostFlags (dev s) XOR msk b\<rparr>"
  by (simp add: netana_tkit_ToggleBit_def Let_def)

lemma hostbit_Toggle: "b < 32 \<Longrightarrow> hostbit (netana_tkit_ToggleBit b s) c = (if c = b then \<not> hostbit s c else hostbit s c)"
  by (simp add: hostbit_def bit_xor_msk)

lemma netxbit_Toggle: "netxbit (netana_tkit_ToggleBit b s) c = netxbit s c"
  by (simp add: netxbit_def)

section \<open>The contract of a command channel\<close>

locale command_channel =
  fixes wait :: "nat \<Rightarrow> 't \<Rightarrow> 's \<Rightarrow> (bool \<times> 's) option"
    and toggle :: "nat \<Rightarrow> 's \<Rightarrow> 's"
    and host :: "'s \<Rightarrow> nat \<Rightarrow> bool"
    and netx :: "'s \<Rightarrow> nat \<Rightarrow> bool"
    and chan :: "nat \<Rightarrow> bool"
  assumes wait_result: "wait b t s = Some (r, s') \<Longrightarrow> r \<longleftrightarrow> host s' b = netx s' b"
    and wait_host: "wait b t s = Some (r, s') \<Longrightarrow> host s' c = host s c"
    and toggle_host: "chan b \<Longrightarrow> host (toggle b s) c = (if c = b then \<not> host s c else host s c)"
    and toggle_netx: "netx (toggle b s) c = netx s c"
begin

definition free :: "nat \<Rightarrow> 's \<Rightarrow> bool" where
  "free b s \<longleftrightarrow> host s b = netx s b"

lemma wait_free: "wait b t s = Some (True, s') \<Longrightarrow> free b s'"
  using wait_result[of b t s True s'] by (simp add: free_def)

lemma wait_busy: "wait b t s = Some (False, s') \<Longrightarrow> \<not> free b s'"
  using wait_result[of b t s False s'] by (simp add: free_def)

lemma toggle_busy: "chan b \<Longrightarrow> free b (toggle b s) \<longleftrightarrow> \<not> free b s"
  by (auto simp: free_def toggle_host toggle_netx)

lemma toggle_other: "chan b \<Longrightarrow> c \<noteq> b \<Longrightarrow> free c (toggle b s) \<longleftrightarrow> free c s"
  by (simp add: free_def toggle_host toggle_netx)

text \<open>
  A command which was sent on a free channel and for which the second wait succeeded has
  been answered: the device has changed its bit since the command was sent.
\<close>

lemma answered:
  assumes sent: "wait b t s = Some (True, s1)"
    and same: "host s2 b = host s1 b"
    and chan: "chan b"
    and acked: "wait b t' (toggle b s2) = Some (True, s3)"
  shows "netx s3 b \<noteq> netx s1 b" and "host s3 b \<noteq> host s1 b" and "free b s3"
proof -
  show fr: "free b s3"
    by (rule wait_free[OF acked])
  have "host s3 b = host (toggle b s2) b"
    by (rule wait_host[OF acked])
  then show "host s3 b \<noteq> host s1 b"
    using chan same by (simp add: toggle_host)
  then show "netx s3 b \<noteq> netx s1 b"
    using fr wait_free[OF sent] by (simp add: free_def)
qed

end

interpretation hsk: command_channel
  "\<lambda>b. netana_tkit_WaitForBitState b NETANA_BITSTATE_EQUAL" netana_tkit_ToggleBit hostbit netxbit "\<lambda>b. b < 32"
proof (unfold_locales, goal_cases)
  case (1 b t s r s')
  then show ?case
    using Wait_result by fastforce
next
  case (2 b t s r s' c)
  then show ?case
    by (simp add: hostbit_def Wait_hostflags)
next
  case (3 b s c)
  then show ?case
    by (rule hostbit_Toggle)
next
  case (4 b s c)
  then show ?case
    by (rule netxbit_Toggle)
qed

section \<open>Properties\<close>

text \<open>C6: \<open>netana_tkit_WaitForBitState\<close> returns 1 exactly when the handshake bit is in the
  requested state (set, clear, host and netX bit equal or unequal) at its return; the wait
  changes nothing of the instance but the netX flags the DSR latched, and no single wait it
  makes is longer than the caller's timeout.\<close>

theorem wait_for_bit_state_correct:
  assumes "netana_tkit_WaitForBitState b st to s = Some (r, s')"
  shows "(r \<longleftrightarrow> bit_in_state s' b st) \<and> wait_frame s s' \<and>
    (\<exists>ws. waitLog s' = ws @ waitLog s \<and> (\<forall>(c, w) \<in> set ws. c = b \<and> w \<le> to))"
  using Wait_result[OF assms] Wait_frame[OF assms] Wait_log[OF assms] by simp

definition waiting_sample :: sys where
  "waiting_sample = sample\<lparr>dev := sample_dev\<lparr>ulHostFlags := 4\<rparr>, env := [quiet 10, ack 4 400]\<rparr>"

lemma wait_for_bit_state_correct_witness:
  "\<exists>s'. netana_tkit_WaitForBitState 2 NETANA_BITSTATE_EQUAL 1000 waiting_sample = Some (True, s') \<and>
     bit_in_state s' 2 NETANA_BITSTATE_EQUAL"
proof -
  have "\<exists>s'. netana_tkit_WaitForBitState 2 NETANA_BITSTATE_EQUAL 1000 waiting_sample = Some (True, s')"
    by (simp add: waiting_sample_def netana_tkit_WaitForBitState_def bit_xor_iff hostbit_def
        netxbit_def os_wait_def apply_tick_def Let_def sample_defs)
  then show ?thesis
    using wait_for_bit_state_correct by blast
qed

text \<open>\<open>netana_tkit_WaitForBitState\<close> returns: as soon as the trace holds a tick at which
  more than the timeout has elapsed since the call, it has returned there at the latest.\<close>

theorem wait_for_bit_state_returns:
  assumes "i < length (env s)" "to < tk_now (env s ! i) - now s"
  shows "\<exists>r s'. netana_tkit_WaitForBitState b st to s = Some (r, s')"
proof (cases "bit_in_state s b st \<or> to = 0")
  case True
  then show ?thesis
    by (auto simp: netana_tkit_WaitForBitState_def)
next
  case False
  then show ?thesis
    using wait_loop_returns[OF assms, of b st to s] by (simp add: netana_tkit_WaitForBitState_def)
qed

lemma wait_for_bit_state_returns_witness:
  "\<exists>r s'. netana_tkit_WaitForBitState 2 NETANA_BITSTATE_EQUAL 1000
     (sample\<lparr>dev := sample_dev\<lparr>ulHostFlags := 4\<rparr>, env := [quiet 10, quiet 1001]\<rparr>) = Some (r, s')"
  by (rule wait_for_bit_state_returns[of 1]) (simp_all add: sample_defs)

text \<open>\<open>netana_tkit_ToggleBit\<close> flips the addressed host bit and no other, leaves the netX
  bits alone, and publishes the low half of the host flags in handshake cell 0; toggling
  twice restores the instance.\<close>

theorem toggle_bit_correct:
  assumes "b < 16" "atHandshake (dpm s) \<noteq> []"
  shows "hostbit (netana_tkit_ToggleBit b s) c = (if c = b then \<not> hostbit s c else hostbit s c) \<and>
    netxbit (netana_tkit_ToggleBit b s) c = netxbit s c \<and>
    hs_usHostFlags (atHandshake (dpm (netana_tkit_ToggleBit b s)) ! 0)
      = ucast (ulHostFlags (dev (netana_tkit_ToggleBit b s))) \<and>
    dev (netana_tkit_ToggleBit b (netana_tkit_ToggleBit b s)) = dev s"
  using assms by (simp add: hostbit_Toggle netxbit_Toggle set_host_cell_def dev_Toggle)

lemma toggle_bit_correct_witness:
  "hostbit (netana_tkit_ToggleBit 3 sample) 3 \<and>
   hs_usHostFlags (atHandshake (dpm (netana_tkit_ToggleBit 3 sample)) ! 0) = 8"
  using toggle_bit_correct[of 3 sample 3]
  by (simp add: hostbit_def sample_defs dev_Toggle msk_def)

end
