(* ===== verification/Capture_Files.thy ===== *)
theory Capture_Files
  imports Netana_Sample
begin

text \<open>
  The capture file list of a device: the \<open>.hea\<close> file header, the file operations of the
  C library, \<open>netana_tkit_writefileheader\<close>, \<open>OpenCaptureFiles\<close> and \<open>CloseCaptureFiles\<close>.
  The abstract view of a file list is a \<open>sink\<close>, the payloads of the files and the file
  being written; \<open>sink_put\<close> says what storing one DMA buffer means. The locale
  \<open>capture_sink\<close> is the contract between a writer of capture files and this view; the
  writers of the toolkit and of the library are shown to obey it.
\<close>

type_synonym files = "filelist \<times> fstore"

section \<open>The file header\<close>

definition header_bytes :: "file_header \<Rightarrow> bytes" where
  "header_bytes h = le32 (fh_ulCookie h) @ le32 (fh_ulIdx h) @ le64 (fh_ullCaptureStart h) @
     le64 (fh_ullDataSize h) @ le32 (fh_lTimezoneCorrection h) @ le32 (fh_ulReserved h)"

lemma length_header_bytes [simp]: "length (header_bytes h) = 32"
  by (simp add: header_bytes_def)

text \<open>The bytes of the header which hold \<open>ullDataSize\<close>.\<close>

definition size_field :: "bytes \<Rightarrow> bytes" where
  "size_field bs = take 8 (drop 16 bs)"

lemma size_field_header: "size_field (header_bytes h @ bs) = le64 (fh_ullDataSize h)"
  by (simp add: size_field_def header_bytes_def)

section \<open>The C library's files\<close>

definition stdio_fwrite :: "nat \<Rightarrow> bytes \<Rightarrow> fstore \<Rightarrow> u64 \<times> fstore" where
  "stdio_fwrite h bs fs =
     (let f = fs h;
          n = min (length bs) (fs_room f - fs_pos f)
      in (of_nat n, fs(h := f\<lparr>fs_bytes := blit (fs_pos f) (take n bs) (fs_bytes f),
                              fs_pos := fs_pos f + n\<rparr>)))"

definition stdio_fseek :: "nat \<Rightarrow> nat \<Rightarrow> fstore \<Rightarrow> fstore" where
  "stdio_fseek h off fs = fs(h := (fs h)\<lparr>fs_pos := off\<rparr>)"

definition stdio_fclose :: "nat \<Rightarrow> fstore \<Rightarrow> fstore" where
  "stdio_fclose h fs = fs(h := (fs h)\<lparr>fs_open := False\<rparr>)"

section \<open>Operations on the file list\<close>

definition upd_file :: "nat \<Rightarrow> (file_data \<Rightarrow> file_data) \<Rightarrow> filelist \<Rightarrow> filelist" where
  "upd_file i g fl = fl\<lparr>atFiles := (atFiles fl)[i := g (atFiles fl ! i)]\<rparr>"

definition netana_tkit_writefileheader :: "file_ops \<Rightarrow> u64 \<Rightarrow> files \<Rightarrow> u32 \<times> files" where
  "netana_tkit_writefileheader ops ullSize = (\<lambda>(fl, fs).
     let i = unat (ulCurrentFile fl);
         h = fd_hFile (atFiles fl ! i);
         (fl1, fs1) = (if fd_ullOffset (atFiles fl ! i) \<noteq> 0
                       then (upd_file i (\<lambda>f. f\<lparr>fd_ullOffset := 0\<rparr>) fl, fo_seek ops h 0 fs)
                       else (fl, fs));
         fl2 = fl1\<lparr>tFileHeader := (tFileHeader fl1)\<lparr>fh_ullDataSize := ullSize\<rparr>\<rparr>;
         fl3 = upd_file i (\<lambda>f. f\<lparr>fd_ullDataWritten :=
                 if NETANA_FILE_HEADER_SIZE_INVALID = ullSize then 0 else ullSize\<rparr>) fl2;
         (n, fs2) = fo_write ops h (header_bytes (tFileHeader fl3)) fs1
     in if n = FILE_HEADER_SIZE
        then (NETANA_NO_ERROR, upd_file i (\<lambda>f. f\<lparr>fd_ullOffset := fd_ullOffset f + FILE_HEADER_SIZE\<rparr>) fl3, fs2)
        else (NETANA_FILE_WRITE_FAILED, fl3, fs2))"

text \<open>
  The three statements \<open>OS_FileWrite\<close>, \<open>ullOffset +=\<close>, \<open>ullDataWritten +=\<close> which store a
  buffer into the current file.
\<close>

definition write_buffer :: "file_ops \<Rightarrow> u32 \<Rightarrow> bytes \<Rightarrow> files \<Rightarrow> files" where
  "write_buffer ops ulSize data = (\<lambda>(fl, fs).
     let i = unat (ulCurrentFile fl);
         (_, fs1) = fo_write ops (fd_hFile (atFiles fl ! i)) data fs
     in (upd_file i (\<lambda>f. f\<lparr>fd_ullOffset := fd_ullOffset f + ucast ulSize,
                            fd_ullDataWritten := fd_ullDataWritten f + ucast ulSize\<rparr>) fl, fs1))"

definition cur_offset :: "files \<Rightarrow> u64" where
  "cur_offset x = fd_ullOffset (atFiles (fst x) ! unat (ulCurrentFile (fst x)))"

section \<open>Opening and closing the files\<close>

fun dec :: "nat \<Rightarrow> string" where
  "dec n = (if n < 10 then [char_of (48 + n)] else dec (n div 10) @ [char_of (48 + n mod 10)])"

declare dec.simps [simp del]

text \<open>
  \<open>OS_Snprintf (szFileName, 512, "%s%s%s_%u.hea", ...)\<close>: the return value is the length of
  the whole text, the buffer holds at most 511 characters of it.
\<close>

definition capture_filename :: "filelist \<Rightarrow> nat \<Rightarrow> string" where
  "capture_filename fl ulFile = szPath fl @ ''/'' @ szBaseFilename fl @ ''_'' @ dec ulFile @ ''.hea''"

fun close_loop :: "file_ops \<Rightarrow> nat list \<Rightarrow> files \<Rightarrow> files" where
  "close_loop ops [] x = x"
| "close_loop ops (i # is) (fl, fs) =
     (let h = fd_hFile (atFiles fl ! i)
      in close_loop ops is
           (if h \<noteq> 0 then (upd_file i (fd_hFile_update (\<lambda>_. 0)) fl, fo_close ops h fs) else (fl, fs)))"

definition CloseCaptureFiles :: "file_ops \<Rightarrow> files \<Rightarrow> files" where
  "CloseCaptureFiles ops x = close_loop ops [0..<unat (ulFileCount (fst x))] x"

fun open_loop :: "file_ops \<Rightarrow> nat list \<Rightarrow> files \<Rightarrow> u32 \<times> files" where
  "open_loop ops [] x = (NETANA_NO_ERROR, x)"
| "open_loop ops (i # is) (fl, fs) =
     (let name = capture_filename fl i
      in if 512 < length name then (NETANA_FILE_CREATION_FAILED, fl, fs)
         else (let (h, fs1) = fo_open ops (take 511 name) (ullFileSize fl) fs;
                   fl1 = upd_file i (fd_hFile_update (\<lambda>_. h)) fl
               in if h = 0 then (NETANA_FILE_CREATION_FAILED, fl1, fs1)
                  else open_loop ops is
                    (upd_file i (\<lambda>f. f\<lparr>fd_ullOffset := 0, fd_ullDataWritten := 0\<rparr>) fl1, fs1)))"

definition OpenCaptureFiles :: "file_ops \<Rightarrow> files \<Rightarrow> u32 \<times> files" where
  "OpenCaptureFiles ops x =
     (let (fl, fs) = CloseCaptureFiles ops x
      in open_loop ops [0..<unat (ulFileCount fl)] (fl\<lparr>ulCurrentFile := 0\<rparr>, fs))"

section \<open>The abstract view\<close>

record sink =
  sk_cap :: nat
  sk_count :: nat
  sk_ring :: bool
  sk_active :: bool
  sk_cur :: nat
  sk_payload :: "nat \<Rightarrow> bytes"
  sk_used :: "nat set"

text \<open>
  Store one buffer. A file whose capacity it exceeds is finished and the next one is
  started, the first one again in ring buffer mode; else the capture ends.
\<close>

definition sink_put :: "bytes \<Rightarrow> sink \<Rightarrow> sink" where
  "sink_put data k =
     (let c = sk_cur k in
      if 32 + length (sk_payload k c) + length data \<le> sk_cap k
      then k\<lparr>sk_payload := (sk_payload k)(c := sk_payload k c @ data)\<rparr>
      else if Suc c < sk_count k
      then k\<lparr>sk_cur := Suc c, sk_payload := (sk_payload k)(Suc c := data), sk_used := insert (Suc c) (sk_used k)\<rparr>
      else if sk_ring k
      then k\<lparr>sk_cur := 0, sk_payload := (sk_payload k)(0 := data)\<rparr>
      else k\<lparr>sk_active := False\<rparr>)"

text \<open>All data of a capture without ring buffer, in order.\<close>

definition sink_data :: "sink \<Rightarrow> bytes" where
  "sink_data k = concat (map (sk_payload k) [0..<Suc (sk_cur k)])"

lemma map_upd_beyond: "n \<le> m \<Longrightarrow> map (f(m := v)) [0..<n] = map f [0..<n]"
  by (rule map_cong) auto

lemma sink_put_data:
  "\<not> sk_ring k \<Longrightarrow> sk_active k \<Longrightarrow>
     sink_data (sink_put data k) = sink_data k @ (if sk_active (sink_put data k) then data else [])"
  by (auto simp: sink_put_def sink_data_def Let_def map_upd_beyond)

text \<open>What the capture holds never exceeds the capacity of its files.\<close>

definition sink_ok :: "sink \<Rightarrow> bool" where
  "sink_ok k \<longleftrightarrow> sk_cur k < sk_count k \<and> 32 \<le> sk_cap k \<and>
     (\<forall>i. 32 + length (sk_payload k i) \<le> sk_cap k) \<and>
     0 \<in> sk_used k \<and> sk_cur k \<in> sk_used k \<and> sk_used k \<subseteq> {..<sk_count k} \<and>
     (\<forall>i. i \<notin> sk_used k \<longrightarrow> sk_payload k i = [])"

lemma sink_put_ok [inv_intros]:
  "sink_ok k \<Longrightarrow> 32 + length data \<le> sk_cap k \<Longrightarrow> sink_ok (sink_put data k)"
  by (auto simp: sink_put_def sink_ok_def Let_def)

lemma sink_put_frame [simp]:
  "sk_cap (sink_put data k) = sk_cap k" "sk_count (sink_put data k) = sk_count k"
  "sk_ring (sink_put data k) = sk_ring k"
  by (simp_all add: sink_put_def Let_def)

section \<open>Files that represent a sink\<close>

text \<open>
  File \<open>i\<close> with payload \<open>p\<close>. A file not used yet is empty and at its start. A used one
  holds a header and the payload; the header of the file being written says that the size
  is not known yet, that of a finished file gives it.
\<close>

definition file_rel :: "bool \<Rightarrow> bool \<Rightarrow> bytes \<Rightarrow> file_data \<Rightarrow> file_st \<Rightarrow> bool" where
  "file_rel used writing p f m \<longleftrightarrow>
     fs_pos m \<le> length (fs_bytes m) \<and>
     (if used then
        32 + length p \<le> length (fs_bytes m) \<and> take (length p) (drop 32 (fs_bytes m)) = p \<and>
        fd_ullDataWritten f = of_nat (length p) \<and>
        (if writing then
           unat (fd_ullOffset f) = 32 + length p \<and> fs_pos m = 32 + length p \<and>
           size_field (fs_bytes m) = le64 NETANA_FILE_HEADER_SIZE_INVALID
         else fd_ullOffset f = 32 \<and> size_field (fs_bytes m) = le64 (of_nat (length p)))
      else fd_ullOffset f = 0 \<and> fs_pos m = 0)"

definition handle_of :: "filelist \<Rightarrow> nat \<Rightarrow> nat" where
  "handle_of fl i = fd_hFile (atFiles fl ! i)"

text \<open>\<open>w\<close> tells whether the current file is being written or finished.\<close>

definition files_inv :: "bool \<Rightarrow> files \<Rightarrow> sink \<Rightarrow> bool" where
  "files_inv w x k \<longleftrightarrow>
     sk_cap k = unat (ullFileSize (fst x)) \<and> sk_count k = unat (ulFileCount (fst x)) \<and>
     sk_ring k = fRingBuffer (fst x) \<and> sk_cur k = unat (ulCurrentFile (fst x)) \<and> sink_ok k \<and>
     sk_count k \<le> length (atFiles (fst x)) \<and> sk_cap k < 2 ^ 63 \<and>
     inj_on (handle_of (fst x)) {..<sk_count k} \<and>
     (\<forall>i < sk_count k. fs_room (snd x (handle_of (fst x) i)) = sk_cap k \<and>
        file_rel (i \<in> sk_used k) (i = sk_cur k \<and> w) (sk_payload k i)
          (atFiles (fst x) ! i) (snd x (handle_of (fst x) i)))"

definition files_rel :: "files \<Rightarrow> sink \<Rightarrow> bool" where
  "files_rel x k \<longleftrightarrow> sk_active k = fWriteToFile (fst x) \<and> files_inv (sk_active k) x k"

lemma handle_of_simps [simp]:
  "handle_of (fl\<lparr>tFileHeader := h\<rparr>) = handle_of fl"
  "handle_of (fl\<lparr>fWriteToFile := b\<rparr>) = handle_of fl"
  "handle_of (fl\<lparr>ulCurrentFile := c\<rparr>) = handle_of fl"
  by (simp_all add: handle_of_def fun_eq_iff)

lemma files_inv_header [simp]:
  "files_inv w (fl\<lparr>tFileHeader := h\<rparr>, fs) k \<longleftrightarrow> files_inv w (fl, fs) k"
  "files_inv w (fl\<lparr>fWriteToFile := b\<rparr>, fs) k \<longleftrightarrow> files_inv w (fl, fs) k"
  "files_inv w x (k\<lparr>sk_active := b\<rparr>) \<longleftrightarrow> files_inv w x k"
  by (simp_all add: files_inv_def sink_ok_def)

lemma unat_of_nat_63: "n < 2 ^ 63 \<Longrightarrow> unat (of_nat n :: u64) = n"
  by (simp add: unat_of_nat)

lemma le64_size_neq: "n < 2 ^ 63 \<Longrightarrow> (of_nat n :: u64) \<noteq> NETANA_FILE_HEADER_SIZE_INVALID"
  using unat_of_nat_63[of n] by auto

lemma file_rel_finish:
  assumes "file_rel True True p f m" "fh_ullDataSize hdr = of_nat (length p)"
  shows "file_rel True False p (f\<lparr>fd_ullDataWritten := of_nat (length p), fd_ullOffset := 32\<rparr>)
           (m\<lparr>fs_bytes := header_bytes hdr @ drop 32 (fs_bytes m), fs_pos := 32\<rparr>)"
  using assms by (auto simp: file_rel_def size_field_header)

lemma file_rel_start:
  assumes "file_rel u False p f m" "fh_ullDataSize hdr = NETANA_FILE_HEADER_SIZE_INVALID"
  shows "file_rel True True [] (f\<lparr>fd_ullDataWritten := 0, fd_ullOffset := 32\<rparr>)
           (m\<lparr>fs_bytes := header_bytes hdr @ drop 32 (fs_bytes m), fs_pos := 32\<rparr>)"
  using assms by (auto simp: file_rel_def size_field_header)

lemma file_rel_append:
  assumes "file_rel True True p f m" "32 + length p + length data < 2 ^ 63"
    and "unat (sz :: u32) = length data"
  shows "file_rel True True (p @ data)
           (f\<lparr>fd_ullOffset := fd_ullOffset f + ucast sz,
              fd_ullDataWritten := fd_ullDataWritten f + ucast sz\<rparr>)
           (m\<lparr>fs_bytes := blit (fs_pos m) data (fs_bytes m), fs_pos := fs_pos m + length data\<rparr>)"
proof -
  have sz: "(ucast sz :: u64) = of_nat (length data)"
    using assms(3) by (rule ucast_32_64_of_nat)
  have off: "unat (fd_ullOffset f + ucast sz) = 32 + length (p @ data)"
    using assms by (simp add: file_rel_def sz unat_add_no_wrap unat_of_nat)
  then show ?thesis
    using assms(1) by (auto simp: file_rel_def sz size_field_def blit_def drop_take)
qed

text \<open>The effect of one file operation on the whole list: only the current file changes.\<close>

lemma files_inv_update:
  assumes "files_inv w x k" "i = unat (ulCurrentFile (fst x))"
    and k': "sk_cap k' = sk_cap k" "sk_count k' = sk_count k" "sk_ring k' = sk_ring k"
      "sk_cur k' = unat (ulCurrentFile fl')" "sk_cur k' < sk_count k" "sink_ok k'"
    and others: "\<And>j. j < sk_count k \<Longrightarrow> j \<noteq> sk_cur k' \<Longrightarrow>
      (j \<in> sk_used k' \<longleftrightarrow> j \<in> sk_used k) \<and> sk_payload k' j = sk_payload k j \<and> (j = sk_cur k \<longrightarrow> \<not> w)"
    and fl': "ullFileSize fl' = ullFileSize (fst x)" "ulFileCount fl' = ulFileCount (fst x)"
      "fRingBuffer fl' = fRingBuffer (fst x)"
      "atFiles fl' = (atFiles (fst x))[sk_cur k' := f']" "fd_hFile f' = handle_of (fst x) (sk_cur k')"
    and fs': "fs' = (snd x)(handle_of (fst x) (sk_cur k') := m')"
      "fs_room m' = fs_room (snd x (handle_of (fst x) (sk_cur k')))"
    and frel: "file_rel (sk_cur k' \<in> sk_used k') w' (sk_payload k' (sk_cur k')) f' m'"
  shows "files_inv w' (fl', fs') k'"
proof -
  let ?c = "sk_cur k'"
  have c: "?c < length (atFiles (fst x))"
    using assms(1) k'(5) by (simp add: files_inv_def)
  have h: "handle_of fl' j = handle_of (fst x) j" for j
    using fl'(4,5) c by (simp add: handle_of_def nth_list_update)
  have h': "handle_of fl' = handle_of (fst x)"
    using h by blast
  have inj: "inj_on (handle_of (fst x)) {..<sk_count k}"
    using assms(1) unfolding files_inv_def by blast
  have "fs_room (fs' (handle_of fl' j)) = sk_cap k' \<and>
        file_rel (j \<in> sk_used k') (j = ?c \<and> w') (sk_payload k' j) (atFiles fl' ! j) (fs' (handle_of fl' j))"
    if j: "j < sk_count k'" for j
  proof (cases "j = ?c")
    case True
    then show ?thesis
      using assms(1) k'(1,5) fl'(4) fs' frel c h by (auto simp: files_inv_def)
  next
    case False
    then have "handle_of (fst x) j \<noteq> handle_of (fst x) ?c"
      using inj j k'(2,5) by (auto simp: inj_on_def)
    moreover have "(j = sk_cur k \<and> w) = False"
      using others[of j] False j k'(2) by auto
    ultimately show ?thesis
      using assms(1) k'(1,2) fl'(4) fs'(1) False j h others[of j]
      by (fastforce simp: files_inv_def)
  qed
  then show ?thesis
    using assms(1) k' fl'(1-4) inj by (auto simp: files_inv_def h')
qed

lemma files_inv_cur:
  assumes "files_inv w (fl, fs) k"
  shows "sk_cur k = unat (ulCurrentFile fl)" "unat (ulCurrentFile fl) < sk_count k"
    and "unat (ulCurrentFile fl) < length (atFiles fl)" "sink_ok k"
    and "file_rel True w (sk_payload k (unat (ulCurrentFile fl)))
           (atFiles fl ! unat (ulCurrentFile fl)) (fs (handle_of fl (unat (ulCurrentFile fl))))"
    and "32 \<le> fs_room (fs (handle_of fl (unat (ulCurrentFile fl))))"
    and "32 + length (sk_payload k (unat (ulCurrentFile fl))) < 2 ^ 63"
    and "fs_room (fs (handle_of fl (unat (ulCurrentFile fl)))) = sk_cap k"
    and "unat (ulCurrentFile fl) \<in> sk_used k"
proof -
  let ?i = "unat (ulCurrentFile fl)"
  show c: "sk_cur k = ?i" and ok: "sink_ok k"
    using assms by (simp_all add: files_inv_def)
  then show i: "?i < sk_count k" and u: "?i \<in> sk_used k"
    by (auto simp: sink_ok_def)
  have "sk_count k \<le> length (atFiles fl)" "sk_cap k < 2 ^ 63"
    using assms by (simp_all add: files_inv_def)
  moreover have "32 + length (sk_payload k ?i) \<le> sk_cap k" "32 \<le> sk_cap k"
    using ok by (simp_all add: sink_ok_def)
  moreover have at: "fs_room (fs (handle_of fl ?i)) = sk_cap k \<and> file_rel True w (sk_payload k ?i) (atFiles fl ! ?i) (fs (handle_of fl ?i))"
    using assms i u c by (auto simp: files_inv_def)
  ultimately show "?i < length (atFiles fl)" "32 \<le> fs_room (fs (handle_of fl ?i))"
    "32 + length (sk_payload k ?i) < 2 ^ 63"
    "file_rel True w (sk_payload k ?i) (atFiles fl ! ?i) (fs (handle_of fl ?i))"
    "fs_room (fs (handle_of fl ?i)) = sk_cap k"
    using i by linarith+
qed

lemma upd_file_frame [simp]:
  "tFileHeader (upd_file i g fl) = tFileHeader fl" "fRingBuffer (upd_file i g fl) = fRingBuffer fl"
  "fWriteToFile (upd_file i g fl) = fWriteToFile fl" "ulFileCount (upd_file i g fl) = ulFileCount fl"
  "ullFileSize (upd_file i g fl) = ullFileSize fl" "ulCurrentFile (upd_file i g fl) = ulCurrentFile fl"
  "szPath (upd_file i g fl) = szPath fl" "szBaseFilename (upd_file i g fl) = szBaseFilename fl"
  "length (atFiles (upd_file i g fl)) = length (atFiles fl)"
  by (simp_all add: upd_file_def)

lemma writefileheader_frame [simp]:
  "fRingBuffer (fst (snd (netana_tkit_writefileheader ops sz x))) = fRingBuffer (fst x)"
  "fWriteToFile (fst (snd (netana_tkit_writefileheader ops sz x))) = fWriteToFile (fst x)"
  "ulFileCount (fst (snd (netana_tkit_writefileheader ops sz x))) = ulFileCount (fst x)"
  "ullFileSize (fst (snd (netana_tkit_writefileheader ops sz x))) = ullFileSize (fst x)"
  "ulCurrentFile (fst (snd (netana_tkit_writefileheader ops sz x))) = ulCurrentFile (fst x)"
  "length (atFiles (fst (snd (netana_tkit_writefileheader ops sz x)))) = length (atFiles (fst x))"
  by (simp_all add: netana_tkit_writefileheader_def Let_def split: prod.split)

lemma write_buffer_frame [simp]:
  "fRingBuffer (fst (write_buffer ops sz data x)) = fRingBuffer (fst x)"
  "fWriteToFile (fst (write_buffer ops sz data x)) = fWriteToFile (fst x)"
  "ulFileCount (fst (write_buffer ops sz data x)) = ulFileCount (fst x)"
  "ullFileSize (fst (write_buffer ops sz data x)) = ullFileSize (fst x)"
  "ulCurrentFile (fst (write_buffer ops sz data x)) = ulCurrentFile (fst x)"
  "length (atFiles (fst (write_buffer ops sz data x))) = length (atFiles (fst x))"
  by (simp_all add: write_buffer_def Let_def split: prod.split)

section \<open>Storing one buffer\<close>

text \<open>
  The file branch shared by \<open>netana_tkit_process\<close> and \<open>netana_write_to_file\<close>, without the
  handshake the toolkit inserts when the last file is full.
\<close>

definition store_buffer :: "file_ops \<Rightarrow> u32 \<Rightarrow> bytes \<Rightarrow> files \<Rightarrow> u32 \<times> files" where
  "store_buffer ops ulSize data x =
     (if cur_offset x + ucast ulSize > ullFileSize (fst x) then
        let (fl, fs) = snd (netana_tkit_writefileheader ops (cur_offset x - FILE_HEADER_SIZE) x);
            fl1 = fl\<lparr>tFileHeader := (tFileHeader fl)\<lparr>fh_ulIdx := fh_ulIdx (tFileHeader fl) + 1\<rparr>,
                     ulCurrentFile := ulCurrentFile fl + 1\<rparr>
        in if ulCurrentFile fl1 \<ge> ulFileCount fl1 then
             if fRingBuffer fl1 then
               (NETANA_NO_ERROR, write_buffer ops ulSize data
                  (snd (netana_tkit_writefileheader ops NETANA_FILE_HEADER_SIZE_INVALID
                     (fl1\<lparr>ulCurrentFile := 0\<rparr>, fs))))
             else (NETANA_CAPTURE_ERROR_DRIVER_FILE_FULL,
                   fl1\<lparr>fWriteToFile := False, ulCurrentFile := ulCurrentFile fl1 - 1\<rparr>, fs)
           else (NETANA_NO_ERROR, write_buffer ops ulSize data
                  (snd (netana_tkit_writefileheader ops NETANA_FILE_HEADER_SIZE_INVALID (fl1, fs))))
      else (NETANA_NO_ERROR, write_buffer ops ulSize data x))"

text \<open>The contract of a port's file functions, as far as capturing relies on it.\<close>

locale file_device =
  fixes ops :: file_ops
  assumes write_fits: "fs_pos (fs h) + length bs \<le> fs_room (fs h) \<Longrightarrow> fo_write ops h bs fs =
      (of_nat (length bs), fs(h := (fs h)\<lparr>fs_bytes := blit (fs_pos (fs h)) bs (fs_bytes (fs h)),
                                         fs_pos := fs_pos (fs h) + length bs\<rparr>))"
    and seek: "fo_seek ops h off fs = fs(h := (fs h)\<lparr>fs_pos := off\<rparr>)"
begin

lemma hFile: "fd_hFile (atFiles fl ! i) = handle_of fl i"
  by (simp add: handle_of_def)

lemma writefileheader:
  assumes "i = unat (ulCurrentFile fl)" "i < length (atFiles fl)" "h = handle_of fl i"
    and "fd_ullOffset (atFiles fl ! i) = 0 \<longrightarrow> fs_pos (fs h) = 0" "32 \<le> fs_room (fs h)"
  shows "netana_tkit_writefileheader ops sz (fl, fs) =
    (NETANA_NO_ERROR,
     fl\<lparr>tFileHeader := (tFileHeader fl)\<lparr>fh_ullDataSize := sz\<rparr>,
        atFiles := (atFiles fl)[i := (atFiles fl ! i)\<lparr>
          fd_ullDataWritten := (if sz = NETANA_FILE_HEADER_SIZE_INVALID then 0 else sz),
          fd_ullOffset := 32\<rparr>]\<rparr>,
     fs(h := (fs h)\<lparr>fs_bytes := header_bytes ((tFileHeader fl)\<lparr>fh_ullDataSize := sz\<rparr>) @
                                 drop 32 (fs_bytes (fs h)), fs_pos := 32\<rparr>))"
proof -
  have w: "fs_pos (g h) = 0 \<Longrightarrow> fs_room (g h) = fs_room (fs h) \<Longrightarrow>
      fo_write ops h (header_bytes hd) g =
        (32, g(h := (g h)\<lparr>fs_bytes := header_bytes hd @ drop 32 (fs_bytes (g h)), fs_pos := 32\<rparr>))"
    for g hd
    using assms(5) by (simp add: write_fits blit_def)
  note here = assms(1)[symmetric] assms(3)[unfolded handle_of_def, symmetric]
  show ?thesis
  proof (cases "fd_ullOffset (atFiles fl ! i) = 0")
    case True
    then show ?thesis
      using assms(2,4)
      by (simp add: netana_tkit_writefileheader_def Let_def upd_file_def here w)
  next
    case False
    then show ?thesis
      using assms(2)
      by (simp add: netana_tkit_writefileheader_def Let_def upd_file_def here w seek)
  qed
qed

lemma write_buffer:
  assumes "i = unat (ulCurrentFile fl)" "h = handle_of fl i" "fs_pos (fs h) + length data \<le> fs_room (fs h)"
  shows "write_buffer ops sz data (fl, fs) =
    (upd_file i (\<lambda>f. f\<lparr>fd_ullOffset := fd_ullOffset f + ucast sz,
                         fd_ullDataWritten := fd_ullDataWritten f + ucast sz\<rparr>) fl,
     fs(h := (fs h)\<lparr>fs_bytes := blit (fs_pos (fs h)) data (fs_bytes (fs h)),
                     fs_pos := fs_pos (fs h) + length data\<rparr>))"
  using assms by (simp add: write_buffer_def hFile write_fits Let_def)

text \<open>Finish the current file, start the file \<open>ulCurrentFile\<close>, append to the current file.\<close>

lemma finish_file:
  assumes "files_inv True (fl, fs) k"
  shows "files_inv False (snd (netana_tkit_writefileheader ops
           (cur_offset (fl, fs) - FILE_HEADER_SIZE) (fl, fs))) k"
proof -
  let ?i = "unat (ulCurrentFile fl)" let ?h = "handle_of fl ?i"
  let ?n = "of_nat (length (sk_payload k ?i)) :: u64"
  note cur = files_inv_cur[OF assms]
  have fr: "file_rel True True (sk_payload k ?i) (atFiles fl ! ?i) (fs ?h)"
    using cur by simp
  have off: "cur_offset (fl, fs) - FILE_HEADER_SIZE = ?n"
  proof -
    have "unat (cur_offset (fl, fs)) = 32 + length (sk_payload k ?i)"
      using fr by (simp add: file_rel_def cur_offset_def)
    then have "cur_offset (fl, fs) = of_nat (32 + length (sk_payload k ?i))"
      by (metis of_nat_unat ucast_id)
    then show ?thesis
      by simp
  qed
  have n: "?n \<noteq> NETANA_FILE_HEADER_SIZE_INVALID"
    using cur(7) by (intro le64_size_neq) simp
  have z: "fd_ullOffset (atFiles fl ! ?i) = 0 \<longrightarrow> fs_pos (fs ?h) = 0"
    using fr by (auto simp: file_rel_def)
  show ?thesis
    unfolding off writefileheader[where fl = fl and fs = fs and i = ?i and h = ?h, OF refl cur(3) refl z cur(6)]
    using cur n by (auto simp: hFile intro!: files_inv_update[OF assms refl] file_rel_finish[OF fr])
qed

lemma start_file:
  assumes "files_inv False (fl, fs) k" "unat c < sk_count k"
    and k': "k' = k\<lparr>sk_cur := unat c, sk_payload := (sk_payload k)(unat c := []),
                   sk_used := insert (unat c) (sk_used k)\<rparr>"
  shows "files_inv True (snd (netana_tkit_writefileheader ops NETANA_FILE_HEADER_SIZE_INVALID
           (fl\<lparr>ulCurrentFile := c\<rparr>, fs))) k'"
proof -
  let ?i = "unat c" let ?h = "handle_of fl ?i" let ?fl = "fl\<lparr>ulCurrentFile := c\<rparr>"
  have i: "?i < length (atFiles fl)"
    and fr: "file_rel (?i \<in> sk_used k) False (sk_payload k ?i) (atFiles fl ! ?i) (fs ?h)"
    and room: "32 \<le> fs_room (fs ?h)" and ok: "sink_ok k"
    using assms(1,2) by (auto simp: files_inv_def sink_ok_def)
  have ok': "sink_ok k'"
    using ok assms(2) by (auto simp: sink_ok_def k')
  have z: "fd_ullOffset (atFiles ?fl ! ?i) = 0 \<longrightarrow> fs_pos (fs ?h) = 0"
    using fr by (auto simp: file_rel_def split: if_splits)
  have wh: "netana_tkit_writefileheader ops NETANA_FILE_HEADER_SIZE_INVALID (?fl, fs) = (0,
      ?fl\<lparr>tFileHeader := (tFileHeader ?fl)\<lparr>fh_ullDataSize := NETANA_FILE_HEADER_SIZE_INVALID\<rparr>,
        atFiles := (atFiles ?fl)[?i := (atFiles ?fl ! ?i)\<lparr>fd_ullDataWritten := 0, fd_ullOffset := 32\<rparr>]\<rparr>,
      fs(?h := (fs ?h)\<lparr>fs_bytes := header_bytes ((tFileHeader ?fl)\<lparr>fh_ullDataSize := NETANA_FILE_HEADER_SIZE_INVALID\<rparr>) @
                                 drop 32 (fs_bytes (fs ?h)), fs_pos := 32\<rparr>))"
    using i room z by (subst writefileheader[where i = ?i and h = ?h]) auto
  show ?thesis
    unfolding wh using assms(2) ok' i
    by (auto simp: k' hFile intro!: files_inv_update[OF assms(1) refl] file_rel_start[OF fr])
qed

lemma append_file:
  assumes "files_inv True (fl, fs) k" "unat sz = length data"
    and fit: "32 + length (sk_payload k (sk_cur k)) + length data \<le> sk_cap k"
    and k': "k' = k\<lparr>sk_payload := (sk_payload k)(sk_cur k := sk_payload k (sk_cur k) @ data)\<rparr>"
  shows "files_inv True (write_buffer ops sz data (fl, fs)) k'"
proof -
  let ?i = "unat (ulCurrentFile fl)" let ?h = "handle_of fl ?i"
  note cur = files_inv_cur[OF assms(1)]
  have fr: "file_rel True True (sk_payload k ?i) (atFiles fl ! ?i) (fs ?h)"
    using cur by simp
  then have pos: "fs_pos (fs ?h) = 32 + length (sk_payload k ?i)"
    by (simp add: file_rel_def)
  have cap: "sk_cap k < 2 ^ 63"
    using assms(1) by (simp add: files_inv_def)
  have ok': "sink_ok k'"
    using cur(4) fit by (auto simp: sink_ok_def k')
  have room: "fs_pos (fs ?h) + length data \<le> fs_room (fs ?h)"
    using fit pos cur(1,8) by simp
  show ?thesis
    unfolding write_buffer[where fl = fl and fs = fs and i = ?i and h = ?h, OF refl refl room]
    using cur(1-3,9) ok' fit cap assms(2)
    by (auto simp: k' upd_file_def hFile intro!: files_inv_update[OF assms(1) refl] file_rel_append[OF fr])
qed

theorem store_refines:
  assumes rel: "files_rel x k" and act: "sk_active k"
    and sz: "unat sz = length data" and fits: "32 + length data \<le> sk_cap k"
  shows "files_rel (snd (store_buffer ops sz data x)) (sink_put data k)" (is ?R)
    and "fst (store_buffer ops sz data x) =
      (if sk_active (sink_put data k) then NETANA_NO_ERROR else NETANA_CAPTURE_ERROR_DRIVER_FILE_FULL)" (is ?C)
proof -
  obtain fl fs where x: "x = (fl, fs)"
    by (cases x)
  let ?c = "unat (ulCurrentFile fl)"
  have inv: "files_inv True (fl, fs) k" and w: "fWriteToFile fl"
    using rel act by (simp_all add: files_rel_def x)
  note cur = files_inv_cur[OF inv]
  have abs: "sk_cap k = unat (ullFileSize fl)" "sk_count k = unat (ulFileCount fl)" "sk_ring k = fRingBuffer fl"
    and cap: "sk_cap k < 2 ^ 63"
    using inv by (simp_all add: files_inv_def)
  have "unat (cur_offset x) = 32 + length (sk_payload k ?c)"
    using cur(5) by (simp add: file_rel_def cur_offset_def x)
  then have "unat (cur_offset x + ucast sz) = 32 + length (sk_payload k ?c) + length data"
    using fits cap cur(7) sz by (subst unat_add_no_wrap) auto
  then have full: "cur_offset x + ucast sz > ullFileSize (fst x) \<longleftrightarrow>
      \<not> 32 + length (sk_payload k (sk_cur k)) + length data \<le> sk_cap k"
    using abs(1) cur(1) by (auto simp: word_less_nat_alt x not_le)
  obtain fl' fs' where fin: "snd (netana_tkit_writefileheader ops (cur_offset x - FILE_HEADER_SIZE) x) = (fl', fs')"
    by (metis surj_pair)
  have inv': "files_inv False (fl', fs') k"
    using finish_file[OF inv] fin by (simp add: x)
  have fl': "ulCurrentFile fl' = ulCurrentFile fl" "ulFileCount fl' = ulFileCount fl"
    "fRingBuffer fl' = fRingBuffer fl" "fWriteToFile fl' = fWriteToFile fl"
    using writefileheader_frame[of ops "cur_offset x - FILE_HEADER_SIZE" x, unfolded fin] by (simp_all add: x)
  have suc: "unat (ulCurrentFile fl + 1) = Suc ?c"
    using cur(2) abs(2) by (intro unat_suc[of _ "ulFileCount fl"]) (simp add: word_less_nat_alt)
  then have last: "ulCurrentFile fl + 1 \<ge> ulFileCount fl \<longleftrightarrow> \<not> Suc (sk_cur k) < sk_count k"
    using abs(2) cur(1) by (simp add: word_le_nat_alt not_less)
  define fl1 where "fl1 = fl'\<lparr>tFileHeader := (tFileHeader fl')\<lparr>fh_ulIdx := fh_ulIdx (tFileHeader fl') + 1\<rparr>\<rparr>"
  have inv1: "files_inv False (fl1, fs') k"
    using inv' by (simp add: fl1_def)
  have next_file: "files_inv True (write_buffer ops sz data (snd (netana_tkit_writefileheader ops
        NETANA_FILE_HEADER_SIZE_INVALID (fl1\<lparr>ulCurrentFile := c\<rparr>, fs'))))
      (k\<lparr>sk_cur := unat c, sk_payload := (sk_payload k)(unat c := data), sk_used := insert (unat c) (sk_used k)\<rparr>)"
    if c: "unat c < sk_count k" for c
  proof -
    obtain fl2 fs2 where st: "snd (netana_tkit_writefileheader ops NETANA_FILE_HEADER_SIZE_INVALID
        (fl1\<lparr>ulCurrentFile := c\<rparr>, fs')) = (fl2, fs2)"
      by (metis surj_pair)
    show ?thesis
      using start_file[OF inv1 c refl] fits unfolding st
      by (auto intro!: append_file[OF _ sz])
  qed
  have eq0: "k\<lparr>sk_cur := 0, sk_payload := p, sk_used := insert 0 (sk_used k)\<rparr> = k\<lparr>sk_cur := 0, sk_payload := p\<rparr>" for p
    using cur(4) by (simp add: sink_ok_def insert_absorb)
  have fl1: "ulCurrentFile fl1 = ulCurrentFile fl" "ulFileCount fl1 = ulFileCount fl"
    "fRingBuffer fl1 = fRingBuffer fl" "fWriteToFile fl1"
    using fl' w by (simp_all add: fl1_def)
  have step: "store_buffer ops sz data x =
     (if 32 + length (sk_payload k (sk_cur k)) + length data \<le> sk_cap k
      then (NETANA_NO_ERROR, write_buffer ops sz data x)
      else if Suc (sk_cur k) < sk_count k
      then (NETANA_NO_ERROR, write_buffer ops sz data (snd (netana_tkit_writefileheader ops
             NETANA_FILE_HEADER_SIZE_INVALID (fl1\<lparr>ulCurrentFile := ulCurrentFile fl + 1\<rparr>, fs'))))
      else if fRingBuffer fl
      then (NETANA_NO_ERROR, write_buffer ops sz data (snd (netana_tkit_writefileheader ops
             NETANA_FILE_HEADER_SIZE_INVALID (fl1\<lparr>ulCurrentFile := 0\<rparr>, fs'))))
      else (NETANA_CAPTURE_ERROR_DRIVER_FILE_FULL,
            fl1\<lparr>ulCurrentFile := ulCurrentFile fl, fWriteToFile := False\<rparr>, fs'))"
    unfolding store_buffer_def full fin
    by (simp add: Let_def last[unfolded not_less] fl1_def fl' not_less not_le)
  have wr: "files_rel (write_buffer ops sz data (snd (netana_tkit_writefileheader ops
        NETANA_FILE_HEADER_SIZE_INVALID (fl1\<lparr>ulCurrentFile := c\<rparr>, fs')))) k'"
    if "unat c < sk_count k"
      "k' = k\<lparr>sk_cur := unat c, sk_payload := (sk_payload k)(unat c := data), sk_used := insert (unat c) (sk_used k)\<rparr>"
    for c k'
    using next_file[OF that(1)] act fl1 by (simp add: files_rel_def that(2))
  consider "32 + length (sk_payload k (sk_cur k)) + length data \<le> sk_cap k"
    | "\<not> 32 + length (sk_payload k (sk_cur k)) + length data \<le> sk_cap k" "Suc (sk_cur k) < sk_count k"
    | "\<not> 32 + length (sk_payload k (sk_cur k)) + length data \<le> sk_cap k" "\<not> Suc (sk_cur k) < sk_count k" "sk_ring k"
    | "\<not> 32 + length (sk_payload k (sk_cur k)) + length data \<le> sk_cap k" "\<not> Suc (sk_cur k) < sk_count k" "\<not> sk_ring k"
    by blast
  then have "?R \<and> ?C"
  proof cases
    case 1
    then show ?thesis
      using append_file[OF inv sz 1 refl] act w by (simp add: step[unfolded x] sink_put_def files_rel_def x Let_def)
  next
    case 2
    then show ?thesis
      using act cur(1) suc by (auto simp: step sink_put_def Let_def intro!: wr)
  next
    case 3
    then show ?thesis
      using act cur(2,4) abs(3) by (auto simp: step sink_put_def Let_def eq0 intro!: wr)
  next
    case 4
    have "fl1\<lparr>ulCurrentFile := ulCurrentFile fl, fWriteToFile := False\<rparr> = fl1\<lparr>fWriteToFile := False\<rparr>"
      by (simp flip: fl1(1))
    then show ?thesis
      using 4 act abs(3) inv1 by (simp add: step sink_put_def Let_def files_rel_def)
  qed
  then show ?R ?C
    by simp_all
qed

end

definition stdio_ops :: file_ops where
  "stdio_ops = \<lparr>fo_write = stdio_fwrite, fo_seek = stdio_fseek,
     fo_open = (\<lambda>name size fs. (0, fs)), fo_close = stdio_fclose\<rparr>"

interpretation stdio: file_device stdio_ops
  by unfold_locales (simp_all add: stdio_ops_def stdio_fwrite_def stdio_fseek_def Let_def)

section \<open>The contract of a capture writer\<close>

text \<open>Store a sequence of buffers until one of them reports an error.\<close>

fun put_all :: "(u32 \<Rightarrow> bytes \<Rightarrow> 's \<Rightarrow> u32 \<times> 's) \<Rightarrow> bytes list \<Rightarrow> 's \<Rightarrow> u32 \<times> 's" where
  "put_all put [] s = (NETANA_NO_ERROR, s)"
| "put_all put (d # ds) s =
     (let (r, s') = put (of_nat (length d)) d s
      in if r = NETANA_NO_ERROR then put_all put ds s' else (r, s'))"

fun sink_all :: "bytes list \<Rightarrow> sink \<Rightarrow> nat \<times> sink" where
  "sink_all [] k = (0, k)"
| "sink_all (d # ds) k =
     (if sk_active (sink_put d k) then (let (n, k') = sink_all ds (sink_put d k) in (Suc n, k'))
      else (0, sink_put d k))"

lemma sink_all_data:
  "\<not> sk_ring k \<Longrightarrow> sk_active k \<Longrightarrow> sink_all ds k = (n, k') \<Longrightarrow>
     sink_data k' = sink_data k @ concat (take n ds) \<and> (sk_active k' \<longrightarrow> n = length ds)"
proof (induction ds arbitrary: k n)
  case (Cons d ds)
  then show ?case
    using Cons.IH[of "sink_put d k"] sink_put_data[OF Cons.prems(1,2), of d]
    by (auto simp: Let_def split: if_splits prod.splits)
qed simp

locale capture_sink =
  fixes put :: "u32 \<Rightarrow> bytes \<Rightarrow> 's \<Rightarrow> u32 \<times> 's"
    and rel :: "'s \<Rightarrow> sink \<Rightarrow> bool"
  assumes put_rel: "rel s k \<Longrightarrow> sk_active k \<Longrightarrow> unat sz = length data \<Longrightarrow> 32 + length data \<le> sk_cap k \<Longrightarrow>
      rel (snd (put sz data s)) (sink_put data k)"
    and put_code: "rel s k \<Longrightarrow> sk_active k \<Longrightarrow> unat sz = length data \<Longrightarrow> 32 + length data \<le> sk_cap k \<Longrightarrow>
      fst (put sz data s) = (if sk_active (sink_put data k) then NETANA_NO_ERROR
                             else NETANA_CAPTURE_ERROR_DRIVER_FILE_FULL)"
begin

lemma put_all_rel:
  assumes "rel s k" "sk_active k" "\<forall>d \<in> set ds. length d < 2 ^ 32 \<and> 32 + length d \<le> sk_cap k"
  shows "rel (snd (put_all put ds s)) (snd (sink_all ds k)) \<and>
    (fst (put_all put ds s) = NETANA_NO_ERROR \<longleftrightarrow> sk_active (snd (sink_all ds k)))"
  using assms
proof (induction ds arbitrary: s k)
  case (Cons d ds)
  have sz: "unat (of_nat (length d) :: u32) = length d" and fit: "32 + length d \<le> sk_cap k"
    using Cons.prems(3) by (auto simp: unat_of_nat)
  note step = put_rel[OF Cons.prems(1,2) sz fit] put_code[OF Cons.prems(1,2) sz fit]
  show ?case
    using step Cons.IH[of "snd (put (of_nat (length d)) d s)" "sink_put d k"] Cons.prems(3)
    by (auto simp: Let_def split: prod.splits)
qed simp

text \<open>Without ring buffer the files together hold exactly the buffers accepted, in order.\<close>

lemma put_all_data:
  assumes "rel s k" "sk_active k" "\<not> sk_ring k"
    and "\<forall>d \<in> set ds. length d < 2 ^ 32 \<and> 32 + length d \<le> sk_cap k"
    and "put_all put ds s = (r, s')"
  shows "\<exists>n k'. rel s' k' \<and> sink_data k' = sink_data k @ concat (take n ds) \<and>
    (r = NETANA_NO_ERROR \<longrightarrow> n = length ds)"
proof -
  obtain n k' where k': "sink_all ds k = (n, k')"
    by (metis surj_pair)
  then show ?thesis
    using put_all_rel[OF assms(1,2,4)] sink_all_data[OF assms(3,2) k'] assms(5)
    by (intro exI[of _ n] exI[of _ k']) auto
qed

end

interpretation tkit_sink: capture_sink "store_buffer stdio_ops" files_rel
  by (unfold_locales; rule stdio.store_refines)

end
