(* ===== verification/Capture.thy ===== *)
theory Capture
  imports Handshake Capture_Files
begin

text \<open>
  The capture engine of the toolkit (\<open>netana_capture.c\<close>): \<open>netana_signal_driver_error\<close> and
  \<open>netana_tkit_process\<close>, which hands the DMA buffers the netX has filled to the capture
  files and to the user, in ring order, and returns them to the netX. The specification of
  its loop is \<open>ready_run\<close>: the consecutive filled buffers, starting at the current one.
\<close>

section \<open>The operations\<close>

definition files_of :: "sys \<Rightarrow> files" where
  "files_of s = (flst (dev s), fstore s)"

definition set_files :: "files \<Rightarrow> sys \<Rightarrow> sys" where
  "set_files x s = s\<lparr>dev := (dev s)\<lparr>flst := fst x\<rparr>, fstore := snd x\<rparr>"

definition upd_hostctrl :: "(host_control_block \<Rightarrow> host_control_block) \<Rightarrow> sys \<Rightarrow> sys" where
  "upd_hostctrl g s = s\<lparr>dpm := (dpm s)\<lparr>tHostControlBlock := g (tHostControlBlock (dpm s))\<rparr>\<rparr>"

definition netana_signal_driver_error :: "u32 \<Rightarrow> (sys, u32) proc" where
  "netana_signal_driver_error ulError s = do {
     (ok, s1) \<leftarrow> netana_tkit_WaitForBitState NETANA_DRV_ERROR_BIT NETANA_BITSTATE_EQUAL NETANA_DEFAULT_TIMEOUT s;
     if \<not> ok then Some (NETANA_FUNCTION_FAILED, s1)
     else Some (NETANA_NO_ERROR, netana_tkit_ToggleBit NETANA_DRV_ERROR_BIT
                  (upd_hostctrl (\<lambda>h. h\<lparr>hc_ulHostError := ulError\<rparr>) s1))
   }"

text \<open>The content of DMA buffer \<open>b\<close>, \<open>n\<close> bytes of it.\<close>

definition buffer_data :: "nat \<Rightarrow> u32 \<Rightarrow> sys \<Rightarrow> bytes" where
  "buffer_data b n s = take (unat n) (dmaMem (dpm s) ! b)"

text \<open>A buffer whose size exceeds the DMA buffer: the capture is aborted.\<close>

definition abort_file :: "file_ops \<Rightarrow> sys \<Rightarrow> sys" where
  "abort_file ops s =
     (if fWriteToFile (flst (dev s)) then
        let x = snd (netana_tkit_writefileheader ops (cur_offset (files_of s) - FILE_HEADER_SIZE) (files_of s))
        in set_files ((fst x)\<lparr>fWriteToFile := False\<rparr>, snd x) s
      else s)"

definition reject_buffer :: "file_ops \<Rightarrow> sys \<Rightarrow> sys option" where
  "reject_buffer ops s = do {
     (_, s1) \<leftarrow> netana_signal_driver_error NETANA_CAPTURE_ERROR_DRIVER_INVALID_BUFFERSIZE s;
     Some (abort_file ops s1)
   }"

text \<open>The branch \<open>if (ptDevInst->fWriteToFile)\<close> of \<open>netana_tkit_process\<close>.\<close>

definition file_branch :: "file_ops \<Rightarrow> u32 \<Rightarrow> nat \<Rightarrow> sys \<Rightarrow> sys option" where
  "file_branch ops used b s =
     (let x = files_of s; data = buffer_data b used s in
      if cur_offset x + ucast used > ullFileSize (fst x) then
        let (fl, fs) = snd (netana_tkit_writefileheader ops (cur_offset x - FILE_HEADER_SIZE) x);
            fl1 = fl\<lparr>tFileHeader := (tFileHeader fl)\<lparr>fh_ulIdx := fh_ulIdx (tFileHeader fl) + 1\<rparr>,
                     ulCurrentFile := ulCurrentFile fl + 1\<rparr>
        in if ulCurrentFile fl1 \<ge> ulFileCount fl1 then
             if fRingBuffer fl1 then
               Some (set_files (write_buffer ops used data
                  (snd (netana_tkit_writefileheader ops NETANA_FILE_HEADER_SIZE_INVALID
                     (fl1\<lparr>ulCurrentFile := 0\<rparr>, fs)))) s)
             else do {
               (_, s1) \<leftarrow> netana_signal_driver_error NETANA_CAPTURE_ERROR_DRIVER_FILE_FULL (set_files (fl1, fs) s);
               Some (set_files ((fst (files_of s1))\<lparr>fWriteToFile := False,
                       ulCurrentFile := ulCurrentFile (fst (files_of s1)) - 1\<rparr>, snd (files_of s1)) s1)
             }
           else Some (set_files (write_buffer ops used data
                  (snd (netana_tkit_writefileheader ops NETANA_FILE_HEADER_SIZE_INVALID (fl1, fs)))) s)
      else Some (set_files (write_buffer ops used data x) s))"

definition data_callback :: "nat \<Rightarrow> u32 \<Rightarrow> sys \<Rightarrow> sys" where
  "data_callback b used s =
     (case pfnData (dev s) of None \<Rightarrow> s
      | Some cb \<Rightarrow> s\<lparr>dataLog := (cb, buffer_data b used s, pvUser (dev s)) # dataLog s\<rparr>)"

definition accept_buffer :: "file_ops \<Rightarrow> u32 \<Rightarrow> nat \<Rightarrow> sys \<Rightarrow> sys option" where
  "accept_buffer ops used b s = do {
     s1 \<leftarrow> (if fWriteToFile (flst (dev s)) then file_branch ops used b s else Some s);
     Some (data_callback b used s1)
   }"

definition free_buffer :: "nat \<Rightarrow> sys \<Rightarrow> sys" where
  "free_buffer b s =
     (let s1 = upd_hostctrl (\<lambda>h. h\<lparr>hc_ulBufferFlags := hc_ulBufferFlags h XOR msk b\<rparr>) s;
          c = ulCurrentBuffer (dev s1) + 1
      in upd_dev (\<lambda>d. d\<lparr>ulCurrentBuffer := (if c \<ge> ulDMABufferCount d then 0 else c)\<rparr>) s1)"

text \<open>The body of the \<open>while\<close> loop.\<close>

definition process_buffer :: "file_ops \<Rightarrow> sys \<Rightarrow> sys option" where
  "process_buffer ops s =
     (let b = unat (ulCurrentBuffer (dev s));
          used = ns_aulUsedBufferSize (tNetxStatusBlock (dpm s)) ! b
      in do {
        s1 \<leftarrow> (if used > db_ulBufferSize (atDMABuffers (dev s) ! b)
               then reject_buffer ops s else accept_buffer ops used b s);
        Some (free_buffer b s1)
      })"

text \<open>The loop; it ends because each round clears a bit of \<open>ulUsedBuffers\<close>.\<close>

function process_loop :: "file_ops \<Rightarrow> u32 \<Rightarrow> sys \<Rightarrow> sys option" where
  "process_loop ops ulUsedBuffers s =
     (let m = msk (unat (ulCurrentBuffer (dev s))) in
      if ulUsedBuffers AND m \<noteq> 0
      then (case process_buffer ops s of None \<Rightarrow> None
            | Some s1 \<Rightarrow> process_loop ops (ulUsedBuffers AND NOT m) s1)
      else Some s)"
  by pat_completeness auto

termination
proof (relation "measure (\<lambda>(ops, u, s). unat u)", goal_cases)
  case (2 ops u s m s1)
  then have "bit u (unat (ulCurrentBuffer (dev s)))"
    by simp
  from clear_msk_less[OF this] 2(1) show ?case
    by (simp add: word_less_nat_alt)
qed simp

declare process_loop.simps [simp del]

definition process_status :: "sys \<Rightarrow> sys" where
  "process_status s =
     (let st = ns_ulCaptureState (tNetxStatusBlock (dpm s));
          er = ns_ulCaptureError (tNetxStatusBlock (dpm s));
          s1 = (case pfnStatus (dev s) of None \<Rightarrow> s
                | Some cb \<Rightarrow> s\<lparr>statusLog := (cb, st, er, pvUser (dev s)) # statusLog s\<rparr>);
          s2 = netana_tkit_ToggleBit NETANA_NEWSTATUS_BIT s1
      in if st = NETANA_CAPTURE_STATE_OFF then s2\<lparr>hStopComplete := True\<rparr> else s2)"

definition netana_tkit_process :: "file_ops \<Rightarrow> sys \<Rightarrow> sys option" where
  "netana_tkit_process ops s =
     (let ulUnequalFlags = ulNetxFlags (dev s) XOR ulHostFlags (dev s) in do {
        s1 \<leftarrow> (if ulUnequalFlags AND msk NETANA_NEWDATA_BIT \<noteq> 0 then
                let t = netana_tkit_ToggleBit NETANA_NEWDATA_BIT s
                in process_loop ops (hc_ulBufferFlags (tHostControlBlock (dpm t)) XOR
                                     ns_ulBufferFlags (tNetxStatusBlock (dpm t))) t
              else Some s);
        Some (if ulUnequalFlags AND msk NETANA_NEWSTATUS_BIT \<noteq> 0 then process_status s1 else s1)
      })"

section \<open>The buffers a call consumes\<close>

definition ready_run :: "nat \<Rightarrow> u32 \<Rightarrow> nat \<Rightarrow> nat list" where
  "ready_run cnt used cur = takeWhile (bit used) ([cur..<cnt] @ [0..<cur])"

definition next_buffer :: "nat \<Rightarrow> nat \<Rightarrow> nat" where
  "next_buffer cnt cur = (if Suc cur \<ge> cnt then 0 else Suc cur)"

lemma takeWhile_snoc: "\<not> P y \<Longrightarrow> takeWhile P (xs @ [y]) = takeWhile P xs"
  by (induction xs) auto

lemma ready_run_step:
  assumes "cur < cnt"
  shows "ready_run cnt used cur =
    (if bit used cur then cur # ready_run cnt (used AND NOT (msk cur)) (next_buffer cnt cur) else [])"
proof -
  let ?rest = "[Suc cur..<cnt] @ [0..<cur]"
  have order: "[cur..<cnt] @ [0..<cur] = cur # ?rest"
    using assms by (simp add: upt_conv_Cons)
  have nxt: "[next_buffer cnt cur..<cnt] @ [0..<next_buffer cnt cur] = ?rest @ [cur]"
  proof (cases "cnt = Suc cur")
    case True
    then show ?thesis
      by (simp add: next_buffer_def del: upt_conv_Cons)
  next
    case False
    then show ?thesis
      using assms by (simp add: next_buffer_def)
  qed
  have "takeWhile (bit (used AND NOT (msk cur))) (?rest @ [cur]) =
      takeWhile (bit (used AND NOT (msk cur))) ?rest"
    by (rule takeWhile_snoc) (simp add: bit_clear_msk)
  also have "\<dots> = takeWhile (bit used) ?rest"
    by (rule takeWhile_cong) (auto simp: bit_clear_msk)
  finally have "takeWhile (bit (used AND NOT (msk cur))) (?rest @ [cur]) = takeWhile (bit used) ?rest" .
  then show ?thesis
    unfolding ready_run_def order nxt by simp
qed

section \<open>The loop on well-behaved buffers\<close>

definition used_size :: "sys \<Rightarrow> nat \<Rightarrow> u32" where
  "used_size s b = ns_aulUsedBufferSize (tNetxStatusBlock (dpm s)) ! b"

definition used_data :: "sys \<Rightarrow> nat \<Rightarrow> bytes" where
  "used_data s b = buffer_data b (used_size s b) s"

definition store_step :: "file_ops \<Rightarrow> nat \<Rightarrow> sys \<Rightarrow> sys" where
  "store_step ops b s =
     (if fWriteToFile (flst (dev s))
      then set_files (snd (store_buffer ops (used_size s b) (used_data s b) (files_of s))) s else s)"

definition consume :: "file_ops \<Rightarrow> nat \<Rightarrow> sys \<Rightarrow> sys" where
  "consume ops b s = free_buffer b (data_callback b (used_size s b) (store_step ops b s))"

fun clean :: "file_ops \<Rightarrow> nat list \<Rightarrow> sys \<Rightarrow> bool" where
  "clean ops [] s \<longleftrightarrow> True"
| "clean ops (b # bs) s \<longleftrightarrow>
     used_size s b \<le> db_ulBufferSize (atDMABuffers (dev s) ! b) \<and>
     (fWriteToFile (flst (dev s)) \<longrightarrow>
        fst (store_buffer ops (used_size s b) (used_data s b) (files_of s)) = NETANA_NO_ERROR) \<and>
     clean ops bs (consume ops b s)"

lemma file_branch_store:
  assumes "fst (store_buffer ops used (buffer_data b used s) (files_of s)) = NETANA_NO_ERROR"
  shows "file_branch ops used b s = Some (set_files (snd (store_buffer ops used (buffer_data b used s) (files_of s))) s)"
  using assms unfolding file_branch_def store_buffer_def
  by (auto simp: Let_def split: prod.splits if_splits)

lemma process_buffer_clean:
  assumes "b = unat (ulCurrentBuffer (dev s))" "clean ops [b] s"
  shows "process_buffer ops s = Some (consume ops b s)"
  using assms file_branch_store[of ops "used_size s b" b s]
  by (auto simp: process_buffer_def accept_buffer_def consume_def store_step_def Let_def used_data_def used_size_def)

lemma set_files_frame [simp]:
  "dpm (set_files x s) = dpm s" "dataLog (set_files x s) = dataLog s"
  "dev (set_files x s) = (dev s)\<lparr>flst := fst x\<rparr>" "files_of (set_files x s) = x"
  "env (set_files x s) = env s" "statusLog (set_files x s) = statusLog s"
  by (simp_all add: set_files_def files_of_def)

lemma data_callback_frame [simp]:
  "dpm (data_callback b u s) = dpm s" "dev (data_callback b u s) = dev s"
  "files_of (data_callback b u s) = files_of s" "env (data_callback b u s) = env s"
  "statusLog (data_callback b u s) = statusLog s"
  by (simp_all add: data_callback_def files_of_def split: option.split)

lemma free_buffer_frame [simp]:
  "tNetxStatusBlock (dpm (free_buffer b s)) = tNetxStatusBlock (dpm s)"
  "dmaMem (dpm (free_buffer b s)) = dmaMem (dpm s)"
  "atHandshake (dpm (free_buffer b s)) = atHandshake (dpm s)"
  "hc_ulBufferFlags (tHostControlBlock (dpm (free_buffer b s))) =
     hc_ulBufferFlags (tHostControlBlock (dpm s)) XOR msk b"
  "dev (free_buffer b s) = (dev s)\<lparr>ulCurrentBuffer :=
     (if ulCurrentBuffer (dev s) + 1 \<ge> ulDMABufferCount (dev s) then 0 else ulCurrentBuffer (dev s) + 1)\<rparr>"
  "files_of (free_buffer b s) = files_of s" "dataLog (free_buffer b s) = dataLog s"
  "env (free_buffer b s) = env s" "statusLog (free_buffer b s) = statusLog s"
  by (simp_all add: free_buffer_def upd_hostctrl_def upd_dev_def files_of_def Let_def)

lemma store_step_frame [simp]:
  "dpm (store_step ops b s) = dpm s" "dataLog (store_step ops b s) = dataLog s"
  "env (store_step ops b s) = env s" "statusLog (store_step ops b s) = statusLog s"
  "pfnData (dev (store_step ops b s)) = pfnData (dev s)" "pvUser (dev (store_step ops b s)) = pvUser (dev s)"
  "ulCurrentBuffer (dev (store_step ops b s)) = ulCurrentBuffer (dev s)"
  "ulDMABufferCount (dev (store_step ops b s)) = ulDMABufferCount (dev s)"
  "atDMABuffers (dev (store_step ops b s)) = atDMABuffers (dev s)"
  "ulHostFlags (dev (store_step ops b s)) = ulHostFlags (dev s)"
  "ulNetxFlags (dev (store_step ops b s)) = ulNetxFlags (dev s)"
  "pfnStatus (dev (store_step ops b s)) = pfnStatus (dev s)"
  by (simp_all add: store_step_def)

lemma consume_frame [simp]:
  "used_size (consume ops b s) = used_size s" "used_data (consume ops b s) = used_data s"
  "pfnData (dev (consume ops b s)) = pfnData (dev s)" "pvUser (dev (consume ops b s)) = pvUser (dev s)"
  "ulDMABufferCount (dev (consume ops b s)) = ulDMABufferCount (dev s)"
  "atDMABuffers (dev (consume ops b s)) = atDMABuffers (dev s)"
  "ulHostFlags (dev (consume ops b s)) = ulHostFlags (dev s)"
  "ulNetxFlags (dev (consume ops b s)) = ulNetxFlags (dev s)"
  "tNetxStatusBlock (dpm (consume ops b s)) = tNetxStatusBlock (dpm s)"
  "env (consume ops b s) = env s" "statusLog (consume ops b s) = statusLog s"
  "pfnStatus (dev (consume ops b s)) = pfnStatus (dev s)"
  by (simp_all add: consume_def used_size_def used_data_def buffer_data_def fun_eq_iff)

lemma dataLog_callback:
  "dataLog (data_callback b u s) =
     (case pfnData (dev s) of None \<Rightarrow> dataLog s
      | Some cb \<Rightarrow> (cb, buffer_data b u s, pvUser (dev s)) # dataLog s)"
  by (simp add: data_callback_def split: option.split)

lemma consume_effect:
  "files_of (consume ops b s) =
     (if fWriteToFile (flst (dev s)) then snd (store_buffer ops (used_size s b) (used_data s b) (files_of s)) else files_of s)"
  "dataLog (consume ops b s) =
     (case pfnData (dev s) of None \<Rightarrow> dataLog s
      | Some cb \<Rightarrow> (cb, used_data s b, pvUser (dev s)) # dataLog s)"
  "hc_ulBufferFlags (tHostControlBlock (dpm (consume ops b s))) =
     hc_ulBufferFlags (tHostControlBlock (dpm s)) XOR msk b"
  "ulCurrentBuffer (dev (consume ops b s)) =
     (if ulCurrentBuffer (dev s) + 1 \<ge> ulDMABufferCount (dev s) then 0 else ulCurrentBuffer (dev s) + 1)"
  by (simp_all add: consume_def dataLog_callback)
     (simp_all add: store_step_def used_data_def buffer_data_def split: option.split)

lemma next_buffer_unat:
  "unat c < unat n \<Longrightarrow> unat (if c + 1 \<ge> n then 0 else c + 1) = next_buffer (unat n) (unat c)" for c n :: u32
  by (auto simp: next_buffer_def word_le_nat_alt unat_suc[of c n] word_less_nat_alt)

lemma process_loop_clean:
  "unat (ulCurrentBuffer (dev s)) < unat (ulDMABufferCount (dev s)) \<Longrightarrow>
   bs = ready_run (unat (ulDMABufferCount (dev s))) used (unat (ulCurrentBuffer (dev s))) \<Longrightarrow>
   clean ops bs s \<Longrightarrow> process_loop ops used s = Some (fold (consume ops) bs s)"
proof (induction bs arbitrary: used s)
  case Nil
  then have "\<not> bit used (unat (ulCurrentBuffer (dev s)))"
    by (auto simp: ready_run_step split: if_splits)
  then show ?case
    by (simp add: process_loop.simps[of ops used s])
next
  case (Cons b bs)
  let ?c = "unat (ulCurrentBuffer (dev s))" let ?n = "unat (ulDMABufferCount (dev s))"
  have b: "b = ?c" "bit used ?c" "bs = ready_run ?n (used AND NOT (msk ?c)) (next_buffer ?n ?c)"
    using Cons.prems(1,2) ready_run_step[of ?c ?n used] by (auto split: if_splits)
  have nxt: "unat (ulCurrentBuffer (dev (consume ops b s))) = next_buffer ?n ?c"
    using Cons.prems(1) by (simp add: consume_effect next_buffer_unat)
  have "next_buffer ?n ?c < ?n"
    using Cons.prems(1) by (simp add: next_buffer_def)
  then have "process_loop ops (used AND NOT (msk ?c)) (consume ops b s) = Some (fold (consume ops) bs (consume ops b s))"
    using Cons.prems(3) b(3) nxt by (intro Cons.IH) auto
  moreover have "process_buffer ops s = Some (consume ops b s)"
    using Cons.prems(3) b(1) by (intro process_buffer_clean) auto
  ultimately show ?case
    using b(2) by (simp add: process_loop.simps[of ops used s])
qed

section \<open>What a run of the loop achieves\<close>

definition whole_data :: "sys \<Rightarrow> nat \<Rightarrow> bool" where
  "whole_data s b \<longleftrightarrow> used_size s b \<le> db_ulBufferSize (atDMABuffers (dev s) ! b) \<and>
     unat (used_size s b) \<le> length (dmaMem (dpm s) ! b)"

lemma whole_data_size: "whole_data s b \<Longrightarrow> of_nat (length (used_data s b)) = used_size s b"
  by (simp add: whole_data_def used_data_def buffer_data_def min_absorb2)

lemma store_ok_writing:
  "fst (store_buffer ops sz data x) = NETANA_NO_ERROR \<Longrightarrow>
     fWriteToFile (fst (snd (store_buffer ops sz data x))) = fWriteToFile (fst x)"
proof -
  obtain fl fs where fin: "snd (netana_tkit_writefileheader ops (cur_offset x - FILE_HEADER_SIZE) x) = (fl, fs)"
    by (metis surj_pair)
  have "fWriteToFile fl = fWriteToFile (fst x)"
    using writefileheader_frame(2)[of ops "cur_offset x - FILE_HEADER_SIZE" x, unfolded fin] by simp
  then show "fst (store_buffer ops sz data x) = NETANA_NO_ERROR \<Longrightarrow> ?thesis"
    by (auto simp: store_buffer_def fin Let_def split: if_splits)
qed

lemma fold_consume_files:
  assumes "\<forall>b \<in> set bs. whole_data s b" "fWriteToFile (flst (dev s))"
    and "fst (put_all (store_buffer ops) (map (used_data s) bs) (files_of s)) = NETANA_NO_ERROR"
  shows "clean ops bs s \<and>
    files_of (fold (consume ops) bs s) = snd (put_all (store_buffer ops) (map (used_data s) bs) (files_of s))"
  using assms
proof (induction bs arbitrary: s)
  case (Cons b bs)
  let ?st = "store_buffer ops (used_size s b) (used_data s b) (files_of s)"
  have sz: "of_nat (length (used_data s b)) = used_size s b"
    using Cons.prems(1) by (simp add: whole_data_size)
  have ok: "fst ?st = NETANA_NO_ERROR"
    and rest: "fst (put_all (store_buffer ops) (map (used_data s) bs) (snd ?st)) = NETANA_NO_ERROR"
    using Cons.prems(3) by (auto simp: sz Let_def split: prod.splits if_splits)
  have wr: "fWriteToFile (flst (dev (consume ops b s)))"
    using store_ok_writing[OF ok] Cons.prems(2) consume_effect(1)[of ops b s]
    by (simp add: files_of_def prod_eq_iff)
  have "whole_data (consume ops b s) = whole_data s"
    by (auto simp: whole_data_def consume_def fun_eq_iff used_size_def)
  then have "clean ops bs (consume ops b s) \<and> files_of (fold (consume ops) bs (consume ops b s)) =
      snd (put_all (store_buffer ops) (map (used_data s) bs) (snd ?st))"
    using Cons.IH[of "consume ops b s"] Cons.prems(1,2) wr rest by (simp add: consume_effect(1))
  then show ?case
    using ok Cons.prems(1) by (auto simp: sz Let_def whole_data_def split: prod.split)
qed simp

lemma fold_consume_nofiles:
  assumes "\<forall>b \<in> set bs. whole_data s b" "\<not> fWriteToFile (flst (dev s))"
  shows "clean ops bs s \<and> files_of (fold (consume ops) bs s) = files_of s"
  using assms
proof (induction bs arbitrary: s)
  case (Cons b bs)
  have "whole_data (consume ops b s) = whole_data s"
    by (auto simp: whole_data_def consume_def fun_eq_iff used_size_def)
  moreover have "files_of (consume ops b s) = files_of s"
    using Cons.prems(2) by (simp add: consume_effect)
  moreover from this have "\<not> fWriteToFile (flst (dev (consume ops b s)))"
    using Cons.prems(2) by (simp add: files_of_def)
  ultimately show ?case
    using Cons.IH[of "consume ops b s"] Cons.prems by (simp add: whole_data_def)
qed simp

lemma fold_consume_log:
  "dataLog (fold (consume ops) bs s) =
     (case pfnData (dev s) of None \<Rightarrow> dataLog s
      | Some cb \<Rightarrow> rev (map (\<lambda>b. (cb, used_data s b, pvUser (dev s))) bs) @ dataLog s)"
  by (induction bs arbitrary: s) (auto simp: consume_effect split: option.split)

lemma fold_consume_flags:
  "distinct bs \<Longrightarrow> \<forall>b \<in> set bs. b < 32 \<Longrightarrow>
   bit (hc_ulBufferFlags (tHostControlBlock (dpm (fold (consume ops) bs s)))) i =
     (if i \<in> set bs then \<not> bit (hc_ulBufferFlags (tHostControlBlock (dpm s))) i
      else bit (hc_ulBufferFlags (tHostControlBlock (dpm s))) i)"
  by (induction bs arbitrary: s) (auto simp: consume_effect bit_xor_msk)

lemma fold_consume_frame [simp]:
  "ulHostFlags (dev (fold (consume ops) bs s)) = ulHostFlags (dev s)"
  "ulNetxFlags (dev (fold (consume ops) bs s)) = ulNetxFlags (dev s)"
  "tNetxStatusBlock (dpm (fold (consume ops) bs s)) = tNetxStatusBlock (dpm s)"
  "ulDMABufferCount (dev (fold (consume ops) bs s)) = ulDMABufferCount (dev s)"
  "env (fold (consume ops) bs s) = env s"
  by (induction bs arbitrary: s) simp_all

lemma fold_consume_cur:
  "unat (ulCurrentBuffer (dev s)) < unat (ulDMABufferCount (dev s)) \<Longrightarrow>
   unat (ulCurrentBuffer (dev (fold (consume ops) bs s))) =
     (unat (ulCurrentBuffer (dev s)) + length bs) mod unat (ulDMABufferCount (dev s))"
proof (induction bs arbitrary: s)
  case (Cons b bs)
  let ?c = "unat (ulCurrentBuffer (dev s))" let ?n = "unat (ulDMABufferCount (dev s))"
  have nxt: "unat (ulCurrentBuffer (dev (consume ops b s))) = next_buffer ?n ?c"
    using Cons.prems by (simp add: consume_effect next_buffer_unat)
  then have "unat (ulCurrentBuffer (dev (fold (consume ops) bs (consume ops b s)))) =
      (next_buffer ?n ?c + length bs) mod ?n"
    using Cons.IH[of "consume ops b s"] Cons.prems by (simp add: next_buffer_def)
  also have "\<dots> = (?c + length (b # bs)) mod ?n"
  proof (cases "Suc ?c = ?n")
    case True
    then show ?thesis
      using mod_add_self1[of ?n "length bs"] by (simp add: next_buffer_def flip: True)
  next
    case False
    then show ?thesis
      using Cons.prems by (simp add: next_buffer_def)
  qed
  finally show ?case
    by simp
qed simp

lemma ready_run_props:
  "cur < cnt \<Longrightarrow> distinct (ready_run cnt used cur)"
  "b \<in> set (ready_run cnt used cur) \<Longrightarrow> cur < cnt \<Longrightarrow> b < cnt \<and> bit used b"
proof -
  have d: "distinct ([cur..<cnt] @ [0..<cur])"
    by auto
  show "distinct (ready_run cnt used cur)"
    unfolding ready_run_def by (rule distinct_takeWhile[OF d])
  show "b \<in> set (ready_run cnt used cur) \<Longrightarrow> cur < cnt \<Longrightarrow> b < cnt \<and> bit used b"
    unfolding ready_run_def by (drule set_takeWhileD) auto
qed

section \<open>Any environment, any buffers\<close>

lemma signal_dev:
  assumes "netana_signal_driver_error e s = Some (r, s')"
  shows "\<exists>f g. dev s' = (dev s)\<lparr>ulNetxFlags := f, ulHostFlags := g\<rparr>"
    and "fstore s' = fstore s" "dataLog s' = dataLog s" "statusLog s' = statusLog s"
    and "r = NETANA_NO_ERROR \<longleftrightarrow> hostbit s' NETANA_DRV_ERROR_BIT \<noteq> hostbit s NETANA_DRV_ERROR_BIT"
    and "r = NETANA_NO_ERROR \<Longrightarrow> hc_ulHostError (tHostControlBlock (dpm s')) = e"
    and "r = NETANA_NO_ERROR \<or> r = NETANA_FUNCTION_FAILED"
proof -
  obtain ok s1 where w: "netana_tkit_WaitForBitState NETANA_DRV_ERROR_BIT NETANA_BITSTATE_EQUAL NETANA_DEFAULT_TIMEOUT s = Some (ok, s1)"
    and s': "s' = (if ok then netana_tkit_ToggleBit NETANA_DRV_ERROR_BIT
                  (upd_hostctrl (\<lambda>h. h\<lparr>hc_ulHostError := e\<rparr>) s1) else s1)"
    and r: "r = (if ok then NETANA_NO_ERROR else NETANA_FUNCTION_FAILED)"
  proof -
    from assms obtain ok s1 where
      "netana_tkit_WaitForBitState NETANA_DRV_ERROR_BIT NETANA_BITSTATE_EQUAL NETANA_DEFAULT_TIMEOUT s = Some (ok, s1)"
      "(if \<not> ok then Some (NETANA_FUNCTION_FAILED, s1)
        else Some (NETANA_NO_ERROR, netana_tkit_ToggleBit NETANA_DRV_ERROR_BIT
                  (upd_hostctrl (\<lambda>h. h\<lparr>hc_ulHostError := e\<rparr>) s1))) = Some (r, s')"
      by (auto simp: netana_signal_driver_error_def bind_eq_Some_conv)
    then show ?thesis
      by (intro that[of ok s1]) (auto split: if_splits)
  qed
  have fr: "wait_frame s s1"
    by (rule Wait_frame[OF w])
  then have "dev s1 = (dev s)\<lparr>ulNetxFlags := ulNetxFlags (dev s1)\<rparr>"
    by (intro host_viewD) (simp add: wait_frame_def)
  then show "\<exists>f g. dev s' = (dev s)\<lparr>ulNetxFlags := f, ulHostFlags := g\<rparr>"
    by (intro exI[of _ "ulNetxFlags (dev s1)"] exI[of _ "ulHostFlags (dev s')"])
       (auto simp: s' dev_Toggle upd_hostctrl_def)
  show "fstore s' = fstore s" "dataLog s' = dataLog s" "statusLog s' = statusLog s"
    using fr by (simp_all add: s' wait_frame_def upd_hostctrl_def)
  show "r = NETANA_NO_ERROR \<longleftrightarrow> hostbit s' NETANA_DRV_ERROR_BIT \<noteq> hostbit s NETANA_DRV_ERROR_BIT"
    using Wait_hostflags[OF w] by (simp add: s' r hostbit_def bit_xor_msk upd_hostctrl_def)
  show "r = NETANA_NO_ERROR \<Longrightarrow> hc_ulHostError (tHostControlBlock (dpm s')) = e"
    by (auto simp: s' r upd_hostctrl_def set_host_cell_def split: if_splits)
  show "r = NETANA_NO_ERROR \<or> r = NETANA_FUNCTION_FAILED"
    by (simp add: r)
qed

text \<open>The current buffer and the current file stay in range.\<close>

definition capture_inv :: "sys \<Rightarrow> bool" where
  "capture_inv s \<longleftrightarrow> ulCurrentBuffer (dev s) < ulDMABufferCount (dev s) \<and>
     (ulFileCount (flst (dev s)) = 0 \<or> ulCurrentFile (flst (dev s)) < ulFileCount (flst (dev s))) \<and>
     (fWriteToFile (flst (dev s)) \<longrightarrow> ulFileCount (flst (dev s)) \<noteq> 0)"

lemma file_branch_inv [inv_intros]:
  assumes "file_branch ops used b s = Some s'" "capture_inv s" "fWriteToFile (flst (dev s))"
  shows "capture_inv s' \<and> ulCurrentBuffer (dev s') = ulCurrentBuffer (dev s) \<and>
    ulFileCount (flst (dev s')) = ulFileCount (flst (dev s)) \<and>
    ulCurrentFile (flst (dev s')) < ulFileCount (flst (dev s'))"
proof -
  let ?x = "files_of s"
  obtain fl fs where fin: "snd (netana_tkit_writefileheader ops (cur_offset ?x - FILE_HEADER_SIZE) ?x) = (fl, fs)"
    by (metis surj_pair)
  have fl: "ulCurrentFile fl = ulCurrentFile (flst (dev s))" "ulFileCount fl = ulFileCount (flst (dev s))"
    "fRingBuffer fl = fRingBuffer (flst (dev s))" "fWriteToFile fl"
    using writefileheader_frame[of ops "cur_offset ?x - FILE_HEADER_SIZE" ?x, unfolded fin] assms(3)
    by (simp_all add: files_of_def)
  have lt: "ulCurrentFile (flst (dev s)) < ulFileCount (flst (dev s))" "0 < ulFileCount (flst (dev s))"
    using assms(2,3) by (auto simp: capture_inv_def intro: le_less_trans[of 0])
  define fl1 where "fl1 = fl\<lparr>tFileHeader := (tFileHeader fl)\<lparr>fh_ulIdx := fh_ulIdx (tFileHeader fl) + 1\<rparr>,
                     ulCurrentFile := ulCurrentFile fl + 1\<rparr>"
  show ?thesis
  proof (cases "cur_offset ?x + ucast used > ullFileSize (fst ?x) \<and>
      ulCurrentFile fl1 \<ge> ulFileCount fl1 \<and> \<not> fRingBuffer fl1")
    case True
    then obtain r s1 where s1: "netana_signal_driver_error NETANA_CAPTURE_ERROR_DRIVER_FILE_FULL (set_files (fl1, fs) s) = Some (r, s1)"
      and s': "s' = set_files ((fst (files_of s1))\<lparr>fWriteToFile := False,
             ulCurrentFile := ulCurrentFile (fst (files_of s1)) - 1\<rparr>, snd (files_of s1)) s1"
      using assms(1) by (auto simp: file_branch_def fin Let_def fl1_def bind_eq_Some_conv split: prod.splits)
    from signal_dev(1)[OF s1] obtain f g where "dev s1 = (dev s)\<lparr>flst := fl1, ulNetxFlags := f, ulHostFlags := g\<rparr>"
      by auto
    then show ?thesis
      using assms(2) lt fl by (auto simp: s' capture_inv_def fl1_def files_of_def)
  next
    case False
    let ?A = "set_files (write_buffer ops used (buffer_data b used s) ?x) s"
    let ?B = "\<lambda>y. set_files (write_buffer ops used (buffer_data b used s)
             (snd (netana_tkit_writefileheader ops NETANA_FILE_HEADER_SIZE_INVALID y))) s"
    have "file_branch ops used b s =
        (if cur_offset ?x + ucast used > ullFileSize (fst ?x)
         then if ulCurrentFile fl1 \<ge> ulFileCount fl1 then Some (?B (fl1\<lparr>ulCurrentFile := 0\<rparr>, fs)) else Some (?B (fl1, fs))
         else Some ?A)"
      using False unfolding file_branch_def Let_def fin prod.case fl1_def[symmetric] by auto
    then consider "s' = ?A" | "s' = ?B (fl1\<lparr>ulCurrentFile := 0\<rparr>, fs)"
      | "s' = ?B (fl1, fs)" "ulCurrentFile fl1 < ulFileCount fl1"
      using assms(1) by (metis not_le option.inject)
    then show ?thesis
      using assms(2,3) lt fl
      by cases (auto simp: capture_inv_def fl1_def files_of_def)
  qed
qed

lemma signal_frame:
  assumes "netana_signal_driver_error e s = Some (r, s')"
  shows "flst (dev s') = flst (dev s)" "ulCurrentBuffer (dev s') = ulCurrentBuffer (dev s)"
    and "ulDMABufferCount (dev s') = ulDMABufferCount (dev s)" "pfnData (dev s') = pfnData (dev s)"
    and "atDMABuffers (dev s') = atDMABuffers (dev s)"
  using signal_dev(1)[OF assms] by auto

lemma file_branch_log:
  assumes "file_branch ops used b s = Some s'"
  shows "dataLog s' = dataLog s"
  using assms
  by (auto simp: file_branch_def Let_def bind_eq_Some_conv signal_dev(3)
      split: if_splits prod.splits)

lemma abort_file_effect:
  "\<not> fWriteToFile (flst (dev (abort_file ops s)))" "dataLog (abort_file ops s) = dataLog s"
  "dpm (abort_file ops s) = dpm s" "ulHostFlags (dev (abort_file ops s)) = ulHostFlags (dev s)"
  "ulCurrentBuffer (dev (abort_file ops s)) = ulCurrentBuffer (dev s)"
  "ulDMABufferCount (dev (abort_file ops s)) = ulDMABufferCount (dev s)"
  "ulCurrentFile (flst (dev (abort_file ops s))) = ulCurrentFile (flst (dev s))"
  "ulFileCount (flst (dev (abort_file ops s))) = ulFileCount (flst (dev s))"
  by (simp_all add: abort_file_def Let_def) (simp_all add: files_of_def)

lemma reject_buffer_effect:
  assumes "reject_buffer ops s = Some s'"
  shows "\<not> fWriteToFile (flst (dev s'))" "dataLog s' = dataLog s"
    and "ulCurrentBuffer (dev s') = ulCurrentBuffer (dev s)"
    and "ulDMABufferCount (dev s') = ulDMABufferCount (dev s)"
    and "ulCurrentFile (flst (dev s')) = ulCurrentFile (flst (dev s))"
    and "ulFileCount (flst (dev s')) = ulFileCount (flst (dev s))"
    and "hostbit s' NETANA_DRV_ERROR_BIT \<noteq> hostbit s NETANA_DRV_ERROR_BIT \<Longrightarrow>
      hc_ulHostError (tHostControlBlock (dpm s')) = NETANA_CAPTURE_ERROR_DRIVER_INVALID_BUFFERSIZE"
proof -
  obtain r s1 where s1: "netana_signal_driver_error NETANA_CAPTURE_ERROR_DRIVER_INVALID_BUFFERSIZE s = Some (r, s1)"
    and s': "s' = abort_file ops s1"
    using assms by (auto simp: reject_buffer_def bind_eq_Some_conv)
  note fr = signal_frame[OF s1] signal_dev(3)[OF s1] abort_file_effect[of ops s1]
  show "\<not> fWriteToFile (flst (dev s'))" "dataLog s' = dataLog s"
    "ulCurrentBuffer (dev s') = ulCurrentBuffer (dev s)"
    "ulDMABufferCount (dev s') = ulDMABufferCount (dev s)"
    "ulCurrentFile (flst (dev s')) = ulCurrentFile (flst (dev s))"
    "ulFileCount (flst (dev s')) = ulFileCount (flst (dev s))"
    using fr by (simp_all add: s')
  assume "hostbit s' NETANA_DRV_ERROR_BIT \<noteq> hostbit s NETANA_DRV_ERROR_BIT"
  then show "hc_ulHostError (tHostControlBlock (dpm s')) = NETANA_CAPTURE_ERROR_DRIVER_INVALID_BUFFERSIZE"
    using signal_dev(5,6)[OF s1] fr by (simp add: s' hostbit_def)
qed

lemma free_buffer_inv [inv_intros]:
  assumes "capture_inv s"
  shows "capture_inv (free_buffer b s)"
  using assms by (auto simp: capture_inv_def not_le intro: le_less_trans[of 0])

lemma process_buffer_inv [inv_intros]:
  assumes "process_buffer ops s = Some s'" "capture_inv s"
  shows "capture_inv s'"
proof -
  let ?b = "unat (ulCurrentBuffer (dev s))"
  let ?u = "ns_aulUsedBufferSize (tNetxStatusBlock (dpm s)) ! ?b"
  from assms(1) obtain s1 where s1: "(if ?u > db_ulBufferSize (atDMABuffers (dev s) ! ?b)
       then reject_buffer ops s else accept_buffer ops ?u ?b s) = Some s1"
    and s': "s' = free_buffer ?b s1"
    by (auto simp: process_buffer_def Let_def bind_eq_Some_conv)
  have "capture_inv s1"
  proof (cases "?u > db_ulBufferSize (atDMABuffers (dev s) ! ?b)")
    case True
    then show ?thesis
      using reject_buffer_effect[of ops s s1] s1 assms(2) by (auto simp: capture_inv_def)
  next
    case False
    then obtain s2 where "(if fWriteToFile (flst (dev s)) then file_branch ops ?u ?b s else Some s) = Some s2"
      "s1 = data_callback ?b ?u s2"
      using s1 by (auto simp: accept_buffer_def bind_eq_Some_conv)
    then show ?thesis
      using file_branch_inv[of ops ?u ?b s s2] assms(2)
      by (auto simp: capture_inv_def split: if_splits)
  qed
  then show ?thesis
    unfolding s' by (rule free_buffer_inv)
qed

lemma process_loop_inv [inv_intros]:
  "process_loop ops used s = Some s' \<Longrightarrow> capture_inv s \<Longrightarrow> capture_inv s'"
proof (induction ops used s rule: process_loop.induct)
  case (1 ops used s)
  then show ?case
    by (subst (asm) (2) process_loop.simps)
       (auto simp: Let_def split: if_splits option.splits dest: process_buffer_inv)
qed

section \<open>The whole call\<close>

lemma process_status_frame [simp]:
  "dataLog (process_status s) = dataLog s" "files_of (process_status s) = files_of s"
  "tHostControlBlock (dpm (process_status s)) = tHostControlBlock (dpm s)"
  "tNetxStatusBlock (dpm (process_status s)) = tNetxStatusBlock (dpm s)"
  "ulCurrentBuffer (dev (process_status s)) = ulCurrentBuffer (dev s)"
  "ulDMABufferCount (dev (process_status s)) = ulDMABufferCount (dev s)"
  "flst (dev (process_status s)) = flst (dev s)"
  "ulNetxFlags (dev (process_status s)) = ulNetxFlags (dev s)"
  "ulHostFlags (dev (process_status s)) = ulHostFlags (dev s) XOR msk NETANA_NEWSTATUS_BIT"
  by (simp_all add: process_status_def Let_def files_of_def dev_Toggle set_host_cell_def split: option.split)

lemma toggle_used [simp]:
  "used_size (netana_tkit_ToggleBit b s) = used_size s" "used_data (netana_tkit_ToggleBit b s) = used_data s"
  "whole_data (netana_tkit_ToggleBit b s) = whole_data s"
  "files_of (netana_tkit_ToggleBit b s) = files_of s"
  "tHostControlBlock (dpm (netana_tkit_ToggleBit b s)) = tHostControlBlock (dpm s)"
  "tNetxStatusBlock (dpm (netana_tkit_ToggleBit b s)) = tNetxStatusBlock (dpm s)"
  by (simp_all add: used_size_def used_data_def buffer_data_def whole_data_def files_of_def dev_Toggle
      set_host_cell_def fun_eq_iff)

definition host_buffers :: "sys \<Rightarrow> u32" where
  "host_buffers s = hc_ulBufferFlags (tHostControlBlock (dpm s))"

definition netx_buffers :: "sys \<Rightarrow> u32" where
  "netx_buffers s = ns_ulBufferFlags (tNetxStatusBlock (dpm s))"

definition filled_run :: "sys \<Rightarrow> nat list" where
  "filled_run s = ready_run (unat (ulDMABufferCount (dev s))) (host_buffers s XOR netx_buffers s)
     (unat (ulCurrentBuffer (dev s)))"

section \<open>Properties\<close>

text \<open>C1: When the netX signals new data, \<open>netana_tkit_process\<close> returns, consumes exactly the
  consecutive filled DMA buffers starting at the current one in ring order, hands each of them
  once and in order to the data callback and to the capture files, returns exactly these
  buffers to the netX (their host bits become equal to the netX bits, no other bit changes),
  leaves the current buffer behind the last one consumed, and acknowledges the indication.\<close>

theorem process_delivers:
  assumes "ulCurrentBuffer (dev s) < ulDMABufferCount (dev s)" "ulDMABufferCount (dev s) \<le> 32"
    and "hostbit s NETANA_NEWDATA_BIT \<noteq> netxbit s NETANA_NEWDATA_BIT"
    and "\<forall>b \<in> set (filled_run s). whole_data s b"
    and "fWriteToFile (flst (dev s)) \<longrightarrow>
      fst (put_all (store_buffer ops) (map (used_data s) (filled_run s)) (files_of s)) = NETANA_NO_ERROR"
  shows "\<exists>s'. netana_tkit_process ops s = Some s' \<and>
    dataLog s' = (case pfnData (dev s) of None \<Rightarrow> dataLog s
      | Some cb \<Rightarrow> rev (map (\<lambda>b. (cb, used_data s b, pvUser (dev s))) (filled_run s)) @ dataLog s) \<and>
    files_of s' = (if fWriteToFile (flst (dev s))
      then snd (put_all (store_buffer ops) (map (used_data s) (filled_run s)) (files_of s)) else files_of s) \<and>
    (\<forall>i. bit (host_buffers s') i =
       (if i \<in> set (filled_run s) then bit (netx_buffers s) i else bit (host_buffers s) i)) \<and>
    unat (ulCurrentBuffer (dev s')) =
      (unat (ulCurrentBuffer (dev s)) + length (filled_run s)) mod unat (ulDMABufferCount (dev s)) \<and>
    hostbit s' NETANA_NEWDATA_BIT = netxbit s' NETANA_NEWDATA_BIT"
proof -
  define t where "t = netana_tkit_ToggleBit NETANA_NEWDATA_BIT s"
  let ?run = "filled_run s" let ?n = "unat (ulDMABufferCount (dev s))" let ?c = "unat (ulCurrentBuffer (dev s))"
  define s1 where "s1 = fold (consume ops) ?run t"
  have cn: "?c < ?n" "?n \<le> 32"
    using assms(1,2) by (simp_all add: word_less_nat_alt word_le_nat_alt)
  have t: "dev t = (dev s)\<lparr>ulHostFlags := ulHostFlags (dev s) XOR msk NETANA_NEWDATA_BIT\<rparr>"
    "used_data t = used_data s" "files_of t = files_of s" "whole_data t = whole_data s" "dataLog t = dataLog s"
    "host_buffers t = host_buffers s" "netx_buffers t = netx_buffers s"
    by (simp_all add: t_def dev_Toggle host_buffers_def netx_buffers_def)
  have cl: "clean ops ?run t \<and> files_of s1 = (if fWriteToFile (flst (dev s))
      then snd (put_all (store_buffer ops) (map (used_data s) ?run) (files_of s)) else files_of s)"
  proof (cases "fWriteToFile (flst (dev s))")
    case True
    then show ?thesis
      using fold_consume_files[of ?run t ops] assms(4,5) by (simp add: t s1_def)
  next
    case False
    then show ?thesis
      using fold_consume_nofiles[of ?run t ops] assms(4) by (simp add: t s1_def)
  qed
  have loop: "process_loop ops (host_buffers t XOR netx_buffers t) t = Some s1"
    unfolding s1_def using cn cl by (intro process_loop_clean) (simp_all add: t filled_run_def)
  have run: "distinct ?run" "\<forall>b \<in> set ?run. b < 32 \<and> bit (host_buffers s XOR netx_buffers s) b"
    using ready_run_props(1)[OF cn(1)] ready_run_props(2)[OF _ cn(1)] cn(2)
    unfolding filled_run_def by (blast, blast intro: less_le_trans)
  have unequal: "bit (ulNetxFlags (dev s) XOR ulHostFlags (dev s)) NETANA_NEWDATA_BIT"
    using assms(3) by (auto simp: hostbit_def netxbit_def bit_xor_iff)
  define s' where "s' = (if bit (ulNetxFlags (dev s) XOR ulHostFlags (dev s)) NETANA_NEWSTATUS_BIT
    then process_status s1 else s1)"
  have "netana_tkit_process ops s = Some s'"
    using unequal loop by (simp add: netana_tkit_process_def Let_def s'_def flip: t_def host_buffers_def netx_buffers_def)
  moreover have "dataLog s' = dataLog s1" "files_of s' = files_of s1" "host_buffers s' = host_buffers s1"
    "ulCurrentBuffer (dev s') = ulCurrentBuffer (dev s1)"
    by (simp_all add: s'_def host_buffers_def)
  moreover have "hostbit s' 0 = netxbit s' 0"
    using assms(3) by (auto simp: s'_def s1_def t hostbit_def netxbit_def bit_xor_msk)
  moreover have "bit (host_buffers s1) i = (if i \<in> set ?run then bit (netx_buffers s) i else bit (host_buffers s) i)" for i
    using fold_consume_flags[where bs = ?run and ops = ops and s = t and i = i] run t(6) by (auto simp: s1_def host_buffers_def bit_xor_iff)
  moreover have "unat (ulCurrentBuffer (dev s1)) = (?c + length ?run) mod ?n"
    using fold_consume_cur[of t ops ?run] cn by (simp add: s1_def t)
  ultimately show ?thesis
    using cl by (simp add: fold_consume_log s1_def t split: option.split)
qed

definition filled_sample :: sys where
  "filled_sample = sample\<lparr>dev := sample_dev\<lparr>ulNetxFlags := 1, pfnData := Some 7, ulCurrentBuffer := 1\<rparr>,
     dpm := sample_dpm\<lparr>tNetxStatusBlock := sample_status\<lparr>ns_ulBufferFlags := 3,
       ns_aulUsedBufferSize := 2 # 8 # replicate 30 0\<rparr>\<rparr>\<rparr>"

lemma filled_run_sample: "filled_run filled_sample = [1, 0]"
proof -
  have "[Suc 0..<2] = [Suc 0]"
    by (simp add: upt_rec)
  then show ?thesis
    by (simp add: filled_run_def filled_sample_def ready_run_def host_buffers_def netx_buffers_def sample_defs bit_simps)
qed

lemma process_delivers_witness:
  "\<exists>s'. netana_tkit_process stdio_ops filled_sample = Some s' \<and>
     dataLog s' = [(7, [1, 2], 0), (7, [11, 12, 13, 14, 15, 16, 17, 18], 0)]"
proof -
  have "\<forall>b \<in> set (filled_run filled_sample). whole_data filled_sample b"
    unfolding filled_run_sample
    by (simp add: whole_data_def used_size_def filled_sample_def sample_defs)
  then show ?thesis
    using process_delivers[of filled_sample stdio_ops] unfolding filled_run_sample
    by (auto simp: filled_sample_def sample_defs hostbit_def netxbit_def used_data_def used_size_def buffer_data_def)
qed

text \<open>A buffer for which the netX reports more data than the DMA buffer can hold is never
  delivered: no callback is made, capturing to file ends, the buffer is returned to the netX,
  and if the error could be signalled the host error register tells the netX why.\<close>

theorem oversized_buffer_rejected:
  assumes "process_buffer ops s = Some s'"
    and "used_size s (unat (ulCurrentBuffer (dev s))) >
           db_ulBufferSize (atDMABuffers (dev s) ! unat (ulCurrentBuffer (dev s)))"
  shows "dataLog s' = dataLog s \<and> \<not> fWriteToFile (flst (dev s')) \<and>
    (hostbit s' NETANA_DRV_ERROR_BIT \<noteq> hostbit s NETANA_DRV_ERROR_BIT \<longrightarrow>
       hc_ulHostError (tHostControlBlock (dpm s')) = NETANA_CAPTURE_ERROR_DRIVER_INVALID_BUFFERSIZE)"
proof -
  obtain s1 where s1: "reject_buffer ops s = Some s1" and s': "s' = free_buffer (unat (ulCurrentBuffer (dev s))) s1"
    using assms by (auto simp: process_buffer_def Let_def bind_eq_Some_conv used_size_def)
  have "hc_ulHostError (tHostControlBlock (dpm s')) = hc_ulHostError (tHostControlBlock (dpm s1))"
    by (simp add: s' free_buffer_def upd_hostctrl_def upd_dev_def Let_def)
  then show ?thesis
    using reject_buffer_effect[OF s1] by (simp add: s' hostbit_def)
qed

definition oversized_sample :: sys where
  "oversized_sample = sample\<lparr>dev := sample_dev\<lparr>pfnData := Some 7\<rparr>,
     dpm := sample_dpm\<lparr>tNetxStatusBlock := sample_status\<lparr>ns_ulBufferFlags := 1,
       ns_aulUsedBufferSize := 9 # replicate 31 0\<rparr>\<rparr>\<rparr>"

lemma oversized_buffer_rejected_witness:
  "\<exists>s'. process_buffer stdio_ops oversized_sample = Some s' \<and> dataLog s' = []"
proof -
  have "\<exists>s'. process_buffer stdio_ops oversized_sample = Some s'"
    by (simp add: process_buffer_def reject_buffer_def netana_signal_driver_error_def oversized_sample_def
        netana_tkit_WaitForBitState_def hostbit_def netxbit_def sample_defs)
  then obtain s' where "process_buffer stdio_ops oversized_sample = Some s'"
    by blast
  moreover from oversized_buffer_rejected[OF this] have "dataLog s' = []"
    by (simp add: used_size_def oversized_sample_def sample_defs)
  ultimately show ?thesis
    by blast
qed

text \<open>C7: Whatever the netX reports and whatever happens during the waits, \<open>netana_tkit_process\<close>
  keeps the current DMA buffer below the buffer count. If there are capture files, the current file stays
  below their number, whether they are still written or the writing was stopped, also by the
  last file being full; and it never starts writing without files.\<close>

theorem process_keeps_indices_in_range:
  assumes "netana_tkit_process ops s = Some s'" "capture_inv s"
  shows "capture_inv s'"
proof -
  have t: "capture_inv (netana_tkit_ToggleBit b s)" for b
    using assms(2) by (simp add: capture_inv_def dev_Toggle)
  have st: "capture_inv s1 \<Longrightarrow> capture_inv (process_status s1)" for s1
    by (simp add: capture_inv_def)
  show ?thesis
    using assms t st
    by (auto simp: netana_tkit_process_def Let_def bind_eq_Some_conv split: if_splits dest: process_loop_inv)
qed

lemma process_keeps_indices_in_range_witness:
  "\<exists>s'. netana_tkit_process stdio_ops (sample\<lparr>dev := sample_dev\<lparr>ulNetxFlags := 2\<rparr>\<rparr>) = Some s' \<and> capture_inv s'"
proof -
  let ?s = "sample\<lparr>dev := sample_dev\<lparr>ulNetxFlags := 2\<rparr>\<rparr>"
  have "netana_tkit_process stdio_ops ?s = Some (process_status ?s)"
    by (simp add: netana_tkit_process_def sample_defs bit_simps)
  moreover have "capture_inv ?s"
    by (simp add: capture_inv_def sample_defs)
  ultimately show ?thesis
    using process_keeps_indices_in_range by blast
qed

end
