(* ===== verification/Lib_Capture.thy ===== *)
theory Lib_Capture
  imports Capture_Files
begin

text \<open>
  The file writer of the user space library (\<open>libnetana/netana_capture.c\<close>). It is the
  twin of the toolkit's, written against \<open>fwrite\<close> and \<open>fseek\<close>; the theory shows that it is
  the toolkit's writer on the C library's files, hence that it obeys the contract
  \<open>capture_sink\<close>.
\<close>

definition netana_writefileheader :: "u64 \<Rightarrow> files \<Rightarrow> u32 \<times> files" where
  "netana_writefileheader ullSize = (\<lambda>(fl, fs).
     let i = unat (ulCurrentFile fl);
         h = fd_hFile (atFiles fl ! i);
         (fl1, fs1) = (if fd_ullOffset (atFiles fl ! i) \<noteq> 0
                       then (upd_file i (\<lambda>f. f\<lparr>fd_ullOffset := 0\<rparr>) fl, stdio_fseek h 0 fs)
                       else (fl, fs));
         fl2 = fl1\<lparr>tFileHeader := (tFileHeader fl1)\<lparr>fh_ullDataSize := ullSize\<rparr>\<rparr>;
         fl3 = upd_file i (\<lambda>f. f\<lparr>fd_ullDataWritten :=
                 if NETANA_FILE_HEADER_SIZE_INVALID = ullSize then 0 else ullSize\<rparr>) fl2;
         (n, fs2) = stdio_fwrite h (header_bytes (tFileHeader fl3)) fs1
     in if n = FILE_HEADER_SIZE
        then (NETANA_NO_ERROR, upd_file i (\<lambda>f. f\<lparr>fd_ullOffset := fd_ullOffset f + FILE_HEADER_SIZE\<rparr>) fl3, fs2)
        else (NETANA_FILE_WRITE_FAILED, fl3, fs2))"

definition lib_write_data :: "u32 \<Rightarrow> bytes \<Rightarrow> files \<Rightarrow> files" where
  "lib_write_data ulBufferSize pvBuffer = (\<lambda>(fl, fs).
     let i = unat (ulCurrentFile fl);
         (_, fs1) = stdio_fwrite (fd_hFile (atFiles fl ! i)) pvBuffer fs
     in (upd_file i (\<lambda>f. f\<lparr>fd_ullOffset := fd_ullOffset f + ucast ulBufferSize,
                            fd_ullDataWritten := fd_ullDataWritten f + ucast ulBufferSize\<rparr>) fl, fs1))"

definition netana_write_to_file :: "u32 \<Rightarrow> bytes \<Rightarrow> files \<Rightarrow> u32 \<times> files" where
  "netana_write_to_file ulBufferSize pvBuffer x =
     (if cur_offset x + ucast ulBufferSize > ullFileSize (fst x) then
        let (fl, fs) = snd (netana_writefileheader (cur_offset x - FILE_HEADER_SIZE) x);
            fl1 = fl\<lparr>tFileHeader := (tFileHeader fl)\<lparr>fh_ulIdx := fh_ulIdx (tFileHeader fl) + 1\<rparr>,
                     ulCurrentFile := ulCurrentFile fl + 1\<rparr>
        in if ulCurrentFile fl1 \<ge> ulFileCount fl1 then
             if fRingBuffer fl1 then
               (NETANA_NO_ERROR, lib_write_data ulBufferSize pvBuffer
                  (snd (netana_writefileheader NETANA_FILE_HEADER_SIZE_INVALID
                     (fl1\<lparr>ulCurrentFile := 0\<rparr>, fs))))
             else (NETANA_CAPTURE_ERROR_DRIVER_FILE_FULL,
                   fl1\<lparr>fWriteToFile := False, ulCurrentFile := ulCurrentFile fl1 - 1\<rparr>, fs)
           else (NETANA_NO_ERROR, lib_write_data ulBufferSize pvBuffer
                  (snd (netana_writefileheader NETANA_FILE_HEADER_SIZE_INVALID (fl1, fs))))
      else (NETANA_NO_ERROR, lib_write_data ulBufferSize pvBuffer x))"

lemma stdio_ops_sel: "fo_write stdio_ops = stdio_fwrite" "fo_seek stdio_ops = stdio_fseek"
  by (simp_all add: stdio_ops_def)

lemma lib_writefileheader_eq: "netana_writefileheader = netana_tkit_writefileheader stdio_ops"
  unfolding netana_writefileheader_def netana_tkit_writefileheader_def stdio_ops_sel ..

lemma lib_write_data_eq: "lib_write_data = write_buffer stdio_ops"
  unfolding lib_write_data_def write_buffer_def stdio_ops_sel ..

lemma lib_store_eq: "netana_write_to_file sz data x = store_buffer stdio_ops sz data x"
  unfolding netana_write_to_file_def store_buffer_def lib_writefileheader_eq lib_write_data_eq ..

interpretation lib_sink: capture_sink netana_write_to_file files_rel
  by (unfold_locales; unfold lib_store_eq; rule stdio.store_refines)

section \<open>A file list on which the properties are evaluated\<close>

text \<open>Two files of 40 bytes, the first one started by \<open>netana_writefileheader\<close>.\<close>

definition two_files :: files where
  "two_files = snd (netana_writefileheader NETANA_FILE_HEADER_SIZE_INVALID
     (sample_filelist\<lparr>ulFileCount := 2, ullFileSize := 40, fWriteToFile := True,
        atFiles := [\<lparr>fd_hFile = 1, fd_ullOffset = 0, fd_ullDataWritten = 0\<rparr>,
                    \<lparr>fd_hFile = 2, fd_ullOffset = 0, fd_ullDataWritten = 0\<rparr>]\<rparr>,
      \<lambda>_. \<lparr>fs_bytes = [], fs_pos = 0, fs_room = 40, fs_open = True\<rparr>))"

definition two_files_sink :: sink where
  "two_files_sink = \<lparr>sk_cap = 40, sk_count = 2, sk_ring = False, sk_active = True, sk_cur = 0,
     sk_payload = (\<lambda>_. []), sk_used = {0}\<rparr>"

lemma two_files_rel: "files_rel two_files two_files_sink"
proof -
  let ?fl = "sample_filelist\<lparr>ulFileCount := 2, ullFileSize := 40, fWriteToFile := True,
        atFiles := [\<lparr>fd_hFile = 1, fd_ullOffset = 0, fd_ullDataWritten = 0\<rparr>,
                    \<lparr>fd_hFile = 2, fd_ullOffset = 0, fd_ullDataWritten = 0\<rparr>]\<rparr>"
  let ?fs = "\<lambda>_. \<lparr>fs_bytes = [], fs_pos = 0, fs_room = 40, fs_open = True\<rparr>"
  have eq: "two_files = (?fl\<lparr>tFileHeader := sample_header\<lparr>fh_ullDataSize := NETANA_FILE_HEADER_SIZE_INVALID\<rparr>,
        atFiles := [\<lparr>fd_hFile = 1, fd_ullOffset = 32, fd_ullDataWritten = 0\<rparr>,
                    \<lparr>fd_hFile = 2, fd_ullOffset = 0, fd_ullDataWritten = 0\<rparr>]\<rparr>,
      ?fs(1 := \<lparr>fs_bytes = header_bytes (sample_header\<lparr>fh_ullDataSize := NETANA_FILE_HEADER_SIZE_INVALID\<rparr>),
                fs_pos = 32, fs_room = 40, fs_open = True\<rparr>))"
    unfolding two_files_def lib_writefileheader_eq
    by (subst stdio.writefileheader[OF refl _ refl]) (auto simp: handle_of_def sample_filelist_def)
  moreover have "size_field (header_bytes (sample_header\<lparr>fh_ullDataSize := NETANA_FILE_HEADER_SIZE_INVALID\<rparr>))
      = le64 NETANA_FILE_HEADER_SIZE_INVALID"
    using size_field_header[of "sample_header\<lparr>fh_ullDataSize := NETANA_FILE_HEADER_SIZE_INVALID\<rparr>" "[]"] by simp
  ultimately show ?thesis
    unfolding eq
    by (auto simp: files_rel_def files_inv_def two_files_sink_def sink_ok_def handle_of_def
        file_rel_def sample_filelist_def inj_on_def less_2_cases_iff)
qed

section \<open>Properties\<close>

text \<open>The library's \<open>netana_write_to_file\<close> and the toolkit's file branch are the same
  function on the C library's files: the same return code, the same file list (current file,
  offsets, header index), the same file contents.\<close>

theorem lib_writer_equals_toolkit:
  "netana_write_to_file ulSize data x = store_buffer stdio_ops ulSize data x"
  by (rule lib_store_eq)

text \<open>C4: Whatever sequence of DMA buffers is stored, without ring buffer mode the payloads of
  the capture files, read in file order, are exactly a prefix of the data in order; all of it
  when no file-full error was reported. Each finished file's header gives its payload's size.\<close>

theorem capture_files_hold_the_data:
  assumes "files_rel x k" "sk_active k" "\<not> sk_ring k"
    and "\<forall>d \<in> set ds. length d < 2 ^ 32 \<and> 32 + length d \<le> sk_cap k"
    and "put_all netana_write_to_file ds x = (r, x')"
  shows "\<exists>n k'. files_rel x' k' \<and> sink_data k' = sink_data k @ concat (take n ds) \<and>
    (r = NETANA_NO_ERROR \<longrightarrow> n = length ds)"
  by (rule lib_sink.put_all_data[OF assms])

lemma capture_files_hold_the_data_witness:
  "\<exists>n k' x'. put_all netana_write_to_file [[1, 2, 3], [4, 5, 6, 7, 8, 9]] two_files = (0, x') \<and>
     files_rel x' k' \<and> sink_data k' = [1, 2, 3, 4, 5, 6, 7, 8, 9]"
proof -
  let ?ds = "[[1, 2, 3], [4, 5, 6, 7, 8, 9]] :: bytes list"
  have act: "sk_active (snd (sink_all ?ds two_files_sink))"
    by (simp add: two_files_sink_def sink_put_def)
  obtain r x' where x': "put_all netana_write_to_file ?ds two_files = (r, x')"
    by (metis surj_pair)
  have r: "r = 0"
    using lib_sink.put_all_rel[OF two_files_rel, of ?ds] act x' by (simp add: two_files_sink_def)
  show ?thesis
    using capture_files_hold_the_data[OF two_files_rel _ _ _ x'] x' r
    by (auto simp: two_files_sink_def sink_data_def)
qed

end
