(* ===== verification/Interrupt.thy ===== *)
theory Interrupt
  imports Handshake
begin

text \<open>
  Interrupt service (\<open>netana_interrupt.c\<close>): the ISR snapshots the handshake cells into one
  of two buffers, the deferred routine (DSR) takes the snapshot over, latches the netX flags
  and signals the handshake events. The kernel build runs the DSR without a lock, so an
  interrupt may hit between any two of its memory accesses: \<open>irq_step\<close> is the step relation
  of both, one access of the DSR per step, and is shown to implement \<open>latch_step\<close>, a single
  place that always holds the latest snapshot not taken over yet.
\<close>

section \<open>The two handlers\<close>

abbreviation (input) NETANA_TKIT_ISR_IRQ_OTHERDEVICE :: nat where "NETANA_TKIT_ISR_IRQ_OTHERDEVICE \<equiv> 0"
abbreviation (input) NETANA_TKIT_ISR_IRQ_HANDLED :: nat where "NETANA_TKIT_ISR_IRQ_HANDLED \<equiv> 1"
abbreviation (input) NETANA_TKIT_ISR_IRQ_DSR_REQUESTED :: nat where "NETANA_TKIT_ISR_IRQ_DSR_REQUESTED \<equiv> 2"
abbreviation (input) NETANA_TKIT_DSR_HANDLED :: nat where "NETANA_TKIT_DSR_HANDLED \<equiv> 0"
abbreviation (input) NETANA_TKIT_DSR_PROCESSING_REQUEST :: nat where "NETANA_TKIT_DSR_PROCESSING_REQUEST \<equiv> 1"

abbreviation (input) MSK_IRQ_STA0_INT_REQ :: u32 where "MSK_IRQ_STA0_INT_REQ \<equiv> 0x80000000"

definition snapshot :: "sys \<Rightarrow> irq2dsr_buffer" where
  "snapshot s = \<lparr>ib_atHskCell = take 8 (atHandshake (dpm s)), ib_fValid = True\<rparr>"

definition netana_tkit_isr_handler :: "bool \<Rightarrow> sys \<Rightarrow> nat \<times> sys" where
  "netana_tkit_isr_handler fCheckOtherDevice s =
     (if fCheckOtherDevice \<and> ulIRQState_0 (dpm s) AND MSK_IRQ_STA0_INT_REQ = 0
      then (NETANA_TKIT_ISR_IRQ_OTHERDEVICE, s)
      else (NETANA_TKIT_ISR_IRQ_DSR_REQUESTED,
            upd_dev (\<lambda>d. d\<lparr>ulIrqCounter := ulIrqCounter d + 1,
                           atIrq2DsrBuffer := (atIrq2DsrBuffer d)[iIrq2DsrBuffer d := snapshot s]\<rparr>) s))"

definition dsr_flip :: "devinst \<Rightarrow> devinst" where
  "dsr_flip d = d\<lparr>iIrq2DsrBuffer := (if iIrq2DsrBuffer d = 0 then 1 else 0)\<rparr>"

definition dsr_invalidate :: "nat \<Rightarrow> devinst \<Rightarrow> devinst" where
  "dsr_invalidate b d = d\<lparr>atIrq2DsrBuffer :=
     (atIrq2DsrBuffer d)[b := (atIrq2DsrBuffer d ! b)\<lparr>ib_fValid := False\<rparr>]\<rparr>"

definition cell0 :: "nat \<Rightarrow> devinst \<Rightarrow> u16" where
  "cell0 b d = hs_usNetxFlags (ib_atHskCell (atIrq2DsrBuffer d ! b) ! 0)"

text \<open>The loop over the bit positions: set the events, note whether processing is needed.\<close>

fun signal_bits :: "u32 \<Rightarrow> nat list \<Rightarrow> nat \<times> bool list \<Rightarrow> nat \<times> bool list" where
  "signal_bits ulChangedBits [] x = x"
| "signal_bits ulChangedBits (p # ps) (lRet, evs) =
     signal_bits ulChangedBits ps
       (if ulChangedBits AND msk p \<noteq> 0
        then (if p = NETANA_NEWDATA_BIT \<or> p = NETANA_NEWSTATUS_BIT
              then NETANA_TKIT_DSR_PROCESSING_REQUEST else lRet, evs[p := True])
        else (lRet, evs))"

definition dsr_latch :: "nat \<Rightarrow> sys \<Rightarrow> nat \<times> sys" where
  "dsr_latch b s =
     (let f = ucast (cell0 b (dev s));
          ulChangedBits = ulNetxFlags (dev s) XOR f;
          (lRet, evs) = signal_bits ulChangedBits [0..<16] (NETANA_TKIT_DSR_HANDLED, hskEvents s)
      in (lRet, s\<lparr>dev := (dev s)\<lparr>ulNetxFlags := f\<rparr>, hskEvents := evs\<rparr>))"

definition netana_tkit_dsr_handler :: "sys \<Rightarrow> nat \<times> sys" where
  "netana_tkit_dsr_handler s =
     (let b = iIrq2DsrBuffer (dev s) in
      if \<not> ib_fValid (atIrq2DsrBuffer (dev s) ! b) then (NETANA_TKIT_DSR_HANDLED, s)
      else dsr_latch b (upd_dev (\<lambda>d. dsr_invalidate b (dsr_flip d)) s))"

lemma dsr_flags [simp]:
  "ulNetxFlags (dsr_invalidate b d) = ulNetxFlags d" "ulNetxFlags (dsr_flip d) = ulNetxFlags d"
  by (simp_all add: dsr_invalidate_def dsr_flip_def)

section \<open>The events\<close>

lemma signal_bits_result:
  "distinct ps \<Longrightarrow> \<forall>p \<in> set ps. p < length evs \<and> p < 32 \<Longrightarrow> signal_bits ch ps (r, evs) = (r', evs') \<Longrightarrow>
     length evs' = length evs \<and>
     (\<forall>i < length evs. evs' ! i = (evs ! i \<or> i \<in> set ps \<and> bit ch i)) \<and>
     r' = (if (0 \<in> set ps \<and> bit ch 0) \<or> (1 \<in> set ps \<and> bit ch 1) then 1 else r)"
proof (induction ps arbitrary: r evs)
  case (Cons p ps)
  let ?r = "if bit ch p \<and> (p = 0 \<or> p = 1) then 1 else r"
  let ?e = "if bit ch p then evs[p := True] else evs"
  have "signal_bits ch ps (?r, ?e) = (r', evs')"
    using Cons.prems(3) by (auto split: if_splits)
  from Cons.IH[OF _ _ this] Cons.prems(1,2) show ?case
    by (auto simp: nth_list_update split: if_splits)
qed simp

lemma dsr_latch_frame [simp]:
  "dev (snd (dsr_latch b s)) = (dev s)\<lparr>ulNetxFlags := ucast (cell0 b (dev s))\<rparr>"
  "dpm (snd (dsr_latch b s)) = dpm s"
  by (simp_all add: dsr_latch_def Let_def split: prod.split)

section \<open>ISR and DSR interleaved\<close>

text \<open>
  Where the DSR is: not running, past the test of \<open>fValid\<close>, past the flip of the buffer
  index, past the invalidation. The number is the buffer it works on.
\<close>

datatype dsr_pc = Idle | Checked nat | Flipped nat | Taken nat

datatype irq_event = Isr dpm | Dsr

fun dsr_step :: "sys \<times> dsr_pc \<Rightarrow> sys \<times> dsr_pc" where
  "dsr_step (s, Idle) =
     (let b = iIrq2DsrBuffer (dev s)
      in if ib_fValid (atIrq2DsrBuffer (dev s) ! b) then (s, Checked b) else (s, Idle))"
| "dsr_step (s, Checked b) = (upd_dev dsr_flip s, Flipped b)"
| "dsr_step (s, Flipped b) = (upd_dev (dsr_invalidate b) s, Taken b)"
| "dsr_step (s, Taken b) = (snd (dsr_latch b s), Idle)"

text \<open>An interrupt hits after the netX has written \<open>m\<close>; the DSR makes one step.\<close>

inductive irq_step :: "sys \<times> dsr_pc \<Rightarrow> irq_event \<Rightarrow> sys \<times> dsr_pc \<Rightarrow> bool" where
  isr: "irq_step (s, pc) (Isr m) (snd (netana_tkit_isr_handler False (s\<lparr>dpm := m\<rparr>)), pc)"
| dsr: "irq_step x Dsr (dsr_step x)"

lemma isr_step: "irq_step x (Isr m) (snd (netana_tkit_isr_handler False ((fst x)\<lparr>dpm := m\<rparr>)), snd x)"
  using isr[of "fst x" "snd x" m] by simp

inductive_cases irq_stepE: "irq_step x e y"

inductive irq_run :: "sys \<times> dsr_pc \<Rightarrow> irq_event list \<Rightarrow> sys \<times> dsr_pc \<Rightarrow> bool" where
  irq_run_Nil: "irq_run x [] x"
| irq_run_Cons: "irq_step x e y \<Longrightarrow> irq_run y es z \<Longrightarrow> irq_run x (e # es) z"

inductive_cases irq_run_ConsE: "irq_run x (e # es) z"
inductive_cases irq_run_NilE: "irq_run x [] z"

text \<open>The DSR run without interruption is \<open>netana_tkit_dsr_handler\<close>.\<close>

lemma dsr_uninterrupted:
  assumes "ib_fValid (atIrq2DsrBuffer (dev s) ! iIrq2DsrBuffer (dev s))"
  shows "dsr_step (dsr_step (dsr_step (dsr_step (s, Idle)))) = (snd (netana_tkit_dsr_handler s), Idle)"
  using assms by (simp add: netana_tkit_dsr_handler_def Let_def upd_dev_def)

text \<open>The specification: the latest snapshot, the one being latched, the flags latched.\<close>

record latch =
  lt_pending :: "u16 option"
  lt_taking :: "u16 option"
  lt_flags :: u32

fun latch_isr :: "u16 \<Rightarrow> latch \<Rightarrow> latch" where
  "latch_isr f l = l\<lparr>lt_pending := Some f\<rparr>"

definition latch_take :: "latch \<Rightarrow> latch" where
  "latch_take l = l\<lparr>lt_pending := None, lt_taking := lt_pending l\<rparr>"

definition latch_done :: "latch \<Rightarrow> latch" where
  "latch_done l = (case lt_taking l of None \<Rightarrow> l | Some f \<Rightarrow> l\<lparr>lt_taking := None, lt_flags := ucast f\<rparr>)"

definition netx_cell :: "dpm \<Rightarrow> u16" where
  "netx_cell m = hs_usNetxFlags (atHandshake m ! 0)"

definition valid_cell :: "nat \<Rightarrow> devinst \<Rightarrow> u16 option" where
  "valid_cell b d = (if ib_fValid (atIrq2DsrBuffer d ! b) then Some (cell0 b d) else None)"

fun latch_of :: "sys \<times> dsr_pc \<Rightarrow> latch" where
  "latch_of (s, pc) = \<lparr>lt_pending = valid_cell (iIrq2DsrBuffer (dev s)) (dev s),
     lt_taking = (case pc of Flipped b \<Rightarrow> Some (cell0 b (dev s)) | Taken b \<Rightarrow> Some (cell0 b (dev s)) | _ \<Rightarrow> None),
     lt_flags = ulNetxFlags (dev s)\<rparr>"

fun irq_inv :: "sys \<times> dsr_pc \<Rightarrow> bool" where
  "irq_inv (s, pc) \<longleftrightarrow>
     length (atIrq2DsrBuffer (dev s)) = 2 \<and> iIrq2DsrBuffer (dev s) < 2 \<and>
     (case pc of
        Idle \<Rightarrow> \<not> ib_fValid (atIrq2DsrBuffer (dev s) ! (1 - iIrq2DsrBuffer (dev s)))
      | Checked b \<Rightarrow> b = iIrq2DsrBuffer (dev s) \<and> ib_fValid (atIrq2DsrBuffer (dev s) ! b) \<and>
                     \<not> ib_fValid (atIrq2DsrBuffer (dev s) ! (1 - b))
      | Flipped b \<Rightarrow> b < 2 \<and> iIrq2DsrBuffer (dev s) = 1 - b
      | Taken b \<Rightarrow> b < 2 \<and> iIrq2DsrBuffer (dev s) = 1 - b \<and> \<not> ib_fValid (atIrq2DsrBuffer (dev s) ! b))"

fun latch_step :: "irq_event \<Rightarrow> dsr_pc \<Rightarrow> latch \<Rightarrow> latch" where
  "latch_step (Isr m) pc l = latch_isr (netx_cell m) l"
| "latch_step Dsr (Checked b) l = latch_take l"
| "latch_step Dsr (Taken b) l = latch_done l"
| "latch_step Dsr _ l = l"

lemma less_2: "n < (2 :: nat) \<Longrightarrow> n = 0 \<or> n = 1"
  by auto

lemma isr_refines:
  assumes "irq_inv (s, pc)" "atHandshake m \<noteq> []"
  shows "irq_inv (snd (netana_tkit_isr_handler False (s\<lparr>dpm := m\<rparr>)), pc) \<and>
    latch_of (snd (netana_tkit_isr_handler False (s\<lparr>dpm := m\<rparr>)), pc) = latch_step (Isr m) pc (latch_of (s, pc))"
  using assms less_2[of "iIrq2DsrBuffer (dev s)"]
  by (cases pc) (auto simp: netana_tkit_isr_handler_def upd_dev_def snapshot_def valid_cell_def cell0_def
      netx_cell_def nth_list_update numeral_2_eq_2)

lemma dsr_refines:
  assumes "irq_inv (s, pc)"
  shows "irq_inv (dsr_step (s, pc)) \<and> latch_of (dsr_step (s, pc)) = latch_step Dsr pc (latch_of (s, pc))"
  using assms less_2[of "iIrq2DsrBuffer (dev s)"]
  by (cases pc) (auto simp: upd_dev_def dsr_flip_def dsr_invalidate_def valid_cell_def cell0_def Let_def
      latch_take_def latch_done_def nth_list_update)

lemmas irq_refines = isr_refines dsr_refines

text \<open>The netX flags the host will have seen once the DSR has nothing left to do.\<close>

definition latest :: "latch \<Rightarrow> u32" where
  "latest l = (case lt_pending l of Some f \<Rightarrow> ucast f
     | None \<Rightarrow> (case lt_taking l of Some f \<Rightarrow> ucast f | None \<Rightarrow> lt_flags l))"

fun seen_flags :: "irq_event list \<Rightarrow> u32 \<Rightarrow> u32" where
  "seen_flags [] v = v"
| "seen_flags (Isr m # es) v = seen_flags es (ucast (netx_cell m))"
| "seen_flags (Dsr # es) v = seen_flags es v"

lemma latest_dsr:
  assumes "irq_inv (s, pc)"
  shows "latest (latch_of (dsr_step (s, pc))) = latest (latch_of (s, pc))"
proof -
  have eq: "latch_of (dsr_step (s, pc)) = latch_step Dsr pc (latch_of (s, pc))"
    using dsr_refines[OF assms] by blast
  show ?thesis
    unfolding eq using assms
    by (cases pc) (auto simp: latest_def latch_take_def latch_done_def valid_cell_def)
qed

lemma irq_run_latest:
  "irq_run x es y \<Longrightarrow> irq_inv x \<Longrightarrow> \<forall>m. Isr m \<in> set es \<longrightarrow> atHandshake m \<noteq> [] \<Longrightarrow>
     irq_inv y \<and> latest (latch_of y) = seen_flags es (latest (latch_of x))"
proof (induction rule: irq_run.induct)
  case (irq_run_Cons x e y es z)
  from irq_run_Cons.hyps(1) show ?case
  proof cases
    case (isr s pc m)
    then have "irq_inv y \<and> latch_of y = latch_step (Isr m) pc (latch_of x)"
      using isr_refines[of s pc m] irq_run_Cons.prems by simp
    moreover have "latest (latch_step (Isr m) pc l) = ucast (netx_cell m)" for l
      by (simp add: latest_def)
    ultimately show ?thesis
      using irq_run_Cons.IH irq_run_Cons.prems isr(2) by simp
  next
    case dsr
    obtain s pc where x: "x = (s, pc)"
      by (cases x)
    then have "irq_inv y \<and> latest (latch_of y) = latest (latch_of x)"
      using dsr dsr_refines[of s pc] latest_dsr[of s pc] irq_run_Cons.prems(1) by simp
    then show ?thesis
      using irq_run_Cons.IH irq_run_Cons.prems(2) dsr(1) by simp
  qed
qed simp

section \<open>Properties\<close>

text \<open>C5: No change of the netX flags is lost between ISR and DSR, however interrupts hit the
  DSR between its unlocked memory accesses: in every run the two buffers stay consistent, and
  when the DSR has become idle with no snapshot left, the flags the driver works with are those
  of the last interrupt.\<close>

theorem interrupts_not_lost:
  assumes "irq_run x es (s', Idle)" "irq_inv x" "\<forall>m. Isr m \<in> set es \<longrightarrow> atHandshake m \<noteq> []"
    and "\<not> ib_fValid (atIrq2DsrBuffer (dev s') ! iIrq2DsrBuffer (dev s'))"
  shows "irq_inv (s', Idle) \<and> ulNetxFlags (dev s') = seen_flags es (latest (latch_of x))"
  using irq_run_latest[OF assms(1-3)] assms(4) by (simp add: latest_def valid_cell_def)

definition irq_dpm :: "u16 \<Rightarrow> dpm" where
  "irq_dpm f = sample_dpm\<lparr>atHandshake := sample_cell\<lparr>hs_usNetxFlags := f\<rparr> # replicate 15 sample_cell\<rparr>"

lemma netx_cell_irq: "netx_cell (irq_dpm f) = f"
  by (simp add: netx_cell_def irq_dpm_def)

lemma interrupts_not_lost_witness:
  "\<exists>s'. irq_run (sample, Idle) [Isr (irq_dpm 1), Dsr, Isr (irq_dpm 3), Dsr, Isr (irq_dpm 7), Dsr, Dsr, Dsr, Dsr, Dsr, Dsr]
     (s', Idle) \<and> ulNetxFlags (dev s') = 7"
proof -
  let ?i = "\<lambda>f s. snd (netana_tkit_isr_handler False (s\<lparr>dpm := irq_dpm f\<rparr>))"
  let ?d = dsr_step
  define a where "a = ?d (?i 1 sample, Idle)"
  define b where "b = ?d (?i 3 (fst a), snd a)"
  define c where "c = ?d (?d (?i 7 (fst b), snd b))"
  define e where "e = ?d (?d (?d (?d c)))"
  have run: "irq_run (sample, Idle) [Isr (irq_dpm 1), Dsr, Isr (irq_dpm 3), Dsr, Isr (irq_dpm 7), Dsr, Dsr, Dsr, Dsr, Dsr, Dsr] e"
    unfolding e_def c_def b_def a_def
    by (rule irq_run_Cons irq_run_Nil isr_step[of "(sample, Idle)", unfolded fst_conv snd_conv] isr_step dsr)+
  have e: "snd e = Idle" "\<not> ib_fValid (atIrq2DsrBuffer (dev (fst e)) ! iIrq2DsrBuffer (dev (fst e)))"
    by (simp_all add: e_def c_def b_def a_def netana_tkit_isr_handler_def upd_dev_def snapshot_def Let_def
        dsr_flip_def dsr_invalidate_def irq_dpm_def sample_defs)
  have "irq_inv (sample, Idle)"
    by (simp add: sample_defs)
  moreover have "\<forall>m. Isr m \<in> set [Isr (irq_dpm 1), Dsr, Isr (irq_dpm 3), Dsr, Isr (irq_dpm 7), Dsr, Dsr, Dsr, Dsr, Dsr, Dsr] \<longrightarrow>
      atHandshake m \<noteq> []"
    by (auto simp: irq_dpm_def)
  moreover have "e = (fst e, Idle)"
    using e(1) by (metis prod.collapse)
  ultimately have "ulNetxFlags (dev (fst e)) = 7"
    using interrupts_not_lost[of "(sample, Idle)" _ "fst e"] run e(2) by (simp add: netx_cell_irq)
  then show ?thesis
    using run e(1) by (intro exI[of _ "fst e"]) (metis prod.collapse)
qed

text \<open>C8: The DSR latches the netX flags of the snapshot, hands the other buffer to the ISR,
  signals exactly the events of the bits that changed, and asks for processing exactly when the
  new-data or the new-status bit is among them; without a snapshot it does nothing.\<close>

theorem dsr_handler_correct:
  assumes "irq_inv (s, Idle)" "length (hskEvents s) = 16" "netana_tkit_dsr_handler s = (r, s')"
  shows "if ib_fValid (atIrq2DsrBuffer (dev s) ! iIrq2DsrBuffer (dev s)) then
      (let f = ucast (cell0 (iIrq2DsrBuffer (dev s)) (dev s)); ch = ulNetxFlags (dev s) XOR f in
       ulNetxFlags (dev s') = f \<and> iIrq2DsrBuffer (dev s') = 1 - iIrq2DsrBuffer (dev s) \<and>
       (\<forall>i < 16. hskEvents s' ! i \<longleftrightarrow> hskEvents s ! i \<or> bit ch i) \<and>
       (r = NETANA_TKIT_DSR_PROCESSING_REQUEST \<longleftrightarrow> bit ch NETANA_NEWDATA_BIT \<or> bit ch NETANA_NEWSTATUS_BIT) \<and>
       irq_inv (s', Idle))
    else s' = s \<and> r = NETANA_TKIT_DSR_HANDLED"
proof (cases "ib_fValid (atIrq2DsrBuffer (dev s) ! iIrq2DsrBuffer (dev s))")
  case False
  then show ?thesis
    using assms(3) by (simp add: netana_tkit_dsr_handler_def)
next
  case True
  let ?b = "iIrq2DsrBuffer (dev s)" let ?f = "ucast (cell0 ?b (dev s)) :: u32"
  let ?ch = "ulNetxFlags (dev s) XOR ?f"
  have b: "?b = 0 \<or> ?b = 1"
    using assms(1) by auto
  obtain r' evs where sb: "signal_bits ?ch [0..<16] (0, hskEvents s) = (r', evs)"
    by (metis surj_pair)
  have c: "cell0 ?b (dsr_invalidate ?b (dsr_flip (dev s))) = cell0 ?b (dev s)"
    using assms(1) by (auto simp: cell0_def dsr_invalidate_def dsr_flip_def)
  have s': "s' = s\<lparr>dev := (dsr_invalidate ?b (dsr_flip (dev s)))\<lparr>ulNetxFlags := ?f\<rparr>, hskEvents := evs\<rparr>" "r = r'"
    using assms(3) True sb
    by (auto simp: netana_tkit_dsr_handler_def Let_def dsr_latch_def upd_dev_def c)
  have "length evs = 16" "\<forall>i < 16. evs ! i = (hskEvents s ! i \<or> bit ?ch i)"
    "r' = (if bit ?ch 0 \<or> bit ?ch 1 then 1 else 0)"
    using signal_bits_result[OF _ _ sb] assms(2) by auto
  then show ?thesis
    using True b assms(1)
    by (auto simp: s' Let_def dsr_invalidate_def dsr_flip_def)
qed

lemma dsr_handler_correct_witness:
  "\<exists>r s'. netana_tkit_dsr_handler (snd (netana_tkit_isr_handler False (sample\<lparr>dpm := irq_dpm 2\<rparr>))) = (r, s') \<and> r = 1"
proof -
  let ?s = "snd (netana_tkit_isr_handler False (sample\<lparr>dpm := irq_dpm 2\<rparr>))"
  have v: "irq_inv (?s, Idle)" "length (hskEvents ?s) = 16"
    by (simp_all add: netana_tkit_isr_handler_def upd_dev_def snapshot_def irq_dpm_def sample_defs)
  obtain r s' where d: "netana_tkit_dsr_handler ?s = (r, s')"
    by (metis surj_pair)
  have "r = 1"
    using dsr_handler_correct[OF v d]
    by (simp add: netana_tkit_isr_handler_def upd_dev_def snapshot_def irq_dpm_def sample_defs cell0_def bit_simps)
  with d show ?thesis
    by blast
qed

text \<open>The ISR claims an interrupt only if the netX raised it: with a shared line and the
  global request bit clear it reports another device and changes nothing; otherwise it counts
  the interrupt, stores a valid snapshot in the buffer the DSR does not use and asks for the DSR.\<close>

theorem isr_handler_correct:
  "netana_tkit_isr_handler chk s =
     (if chk \<and> \<not> bit (ulIRQState_0 (dpm s)) 31 then (NETANA_TKIT_ISR_IRQ_OTHERDEVICE, s)
      else (NETANA_TKIT_ISR_IRQ_DSR_REQUESTED,
        s\<lparr>dev := (dev s)\<lparr>ulIrqCounter := ulIrqCounter (dev s) + 1,
             atIrq2DsrBuffer := (atIrq2DsrBuffer (dev s))[iIrq2DsrBuffer (dev s) := snapshot s]\<rparr>\<rparr>))"
proof -
  have "w AND MSK_IRQ_STA0_INT_REQ = 0 \<longleftrightarrow> \<not> bit w 31" for w :: u32
    using and_msk_eq_0_iff[of w 31] by (simp add: msk_def)
  then show ?thesis
    by (simp add: netana_tkit_isr_handler_def upd_dev_def)
qed

end
