(* ===== verification/Api_Config.thy ===== *)
theory Api_Config
  imports Handshake
begin

text \<open>
  The configuration calls of the toolkit API (\<open>netana_functions.c\<close>): the two hardware
  filters of a port, the mode, level and voltage of a GPIO, and the capture state. They
  write the DPM directly, without a handshake. A pointer argument which may be \<open>NULL\<close> is an
  option; what a call returns through a pointer is part of its result.
\<close>

definition IsCaptureRunning :: "sys \<Rightarrow> bool" where
  "IsCaptureRunning s \<longleftrightarrow> ns_ulCaptureState (tNetxStatusBlock (dpm s)) \<noteq> NETANA_CAPTURE_STATE_OFF"

definition netana_get_state :: "u32 option \<Rightarrow> u32 option \<Rightarrow> sys \<Rightarrow> u32 \<times> u32 option \<times> u32 option" where
  "netana_get_state pulCaptureState pulCaptureError s =
     (case (pulCaptureState, pulCaptureError) of
        (Some _, Some _) \<Rightarrow> (NETANA_NO_ERROR, Some (ns_ulCaptureState (tNetxStatusBlock (dpm s))),
                             Some (ns_ulCaptureError (tNetxStatusBlock (dpm s))))
      | _ \<Rightarrow> (NETANA_INVALID_PARAMETER, pulCaptureState, pulCaptureError))"

section \<open>Hardware filters\<close>

text \<open>The filter of the user, \<open>NETANA_FILTER_T\<close>.\<close>

record netana_filter =
  uf_ulFilterSize :: u32
  uf_pbMask :: "bytes option"
  uf_pbValue :: "bytes option"

text \<open>One half of \<open>netana_get_filter\<close>: \<open>None\<close> for the early return on a missing buffer.\<close>

definition read_filter :: "u32 \<Rightarrow> filter_pair \<Rightarrow> netana_filter option \<Rightarrow> netana_filter option option" where
  "read_filter limit p ptFilter =
     (case ptFilter of None \<Rightarrow> Some None
      | Some f \<Rightarrow>
          if uf_ulFilterSize f > 0 then
            (case (uf_pbMask f, uf_pbValue f) of
               (Some m, Some v) \<Rightarrow>
                 (let n = (if uf_ulFilterSize f > limit then limit else uf_ulFilterSize f)
                  in Some (Some (f\<lparr>uf_ulFilterSize := n,
                                   uf_pbMask := Some (blit 0 (take (unat n) (fp_pbMask p)) m),
                                   uf_pbValue := Some (blit 0 (take (unat n) (fp_pbValue p)) v)\<rparr>)))
             | _ \<Rightarrow> None)
          else Some (Some f))"

definition netana_get_filter :: "u32 \<Rightarrow> netana_filter option \<Rightarrow> netana_filter option \<Rightarrow> u32 option \<Rightarrow> sys
    \<Rightarrow> u32 \<times> netana_filter option \<times> netana_filter option \<times> u32 option" where
  "netana_get_filter ulPort ptFilterA ptFilterB pulRelationShip s =
     (if ulPort < ulPortCnt (dev s) then
        let fl = filters (dpm s) ! unat ulPort;
            rel = map_option (\<lambda>_. fl_ulRelationShip fl) pulRelationShip
        in case read_filter (ulFilterSize (dev s)) (fl_A fl) ptFilterA of
             None \<Rightarrow> (NETANA_INVALID_PARAMETER, ptFilterA, ptFilterB, rel)
           | Some a \<Rightarrow>
               (case read_filter (ulFilterSize (dev s)) (fl_B fl) ptFilterB of
                  None \<Rightarrow> (NETANA_INVALID_PARAMETER, a, ptFilterB, rel)
                | Some b \<Rightarrow> (NETANA_NO_ERROR, a, b, rel))
      else (NETANA_INVALID_PORT, ptFilterA, ptFilterB, pulRelationShip))"

definition validate_filter :: "u32 \<Rightarrow> netana_filter option \<Rightarrow> u32" where
  "validate_filter limit ptFilter =
     (case ptFilter of None \<Rightarrow> NETANA_NO_ERROR
      | Some f \<Rightarrow>
          if uf_ulFilterSize f > 0 then
            if uf_pbMask f = None \<or> uf_pbValue f = None then NETANA_INVALID_PARAMETER
            else if uf_ulFilterSize f > limit then NETANA_INVALID_BUFFERSIZE
            else NETANA_NO_ERROR
          else NETANA_NO_ERROR)"

text \<open>\<open>OS_Memset\<close> of the whole filter followed by \<open>OS_Memcpy\<close> of the given bytes.\<close>

definition write_filter :: "u32 \<Rightarrow> netana_filter option \<Rightarrow> filter_pair \<Rightarrow> filter_pair" where
  "write_filter limit ptFilter p =
     (let c = p\<lparr>fp_pbMask := blit 0 (replicate (unat limit) 0) (fp_pbMask p),
                fp_pbValue := blit 0 (replicate (unat limit) 0) (fp_pbValue p)\<rparr>
      in case ptFilter of None \<Rightarrow> c
         | Some f \<Rightarrow>
             if uf_ulFilterSize f > 0 then
               c\<lparr>fp_pbMask := blit 0 (take (unat (uf_ulFilterSize f)) (the (uf_pbMask f))) (fp_pbMask c),
                 fp_pbValue := blit 0 (take (unat (uf_ulFilterSize f)) (the (uf_pbValue f))) (fp_pbValue c)\<rparr>
             else c)"

definition upd_filter :: "nat \<Rightarrow> (dpm_filter \<Rightarrow> dpm_filter) \<Rightarrow> sys \<Rightarrow> sys" where
  "upd_filter i g s = s\<lparr>dpm := (dpm s)\<lparr>filters := (filters (dpm s))[i := g (filters (dpm s) ! i)]\<rparr>\<rparr>"

definition netana_set_filter :: "u32 \<Rightarrow> netana_filter option \<Rightarrow> netana_filter option \<Rightarrow> u32 \<Rightarrow> sys \<Rightarrow> u32 \<times> sys" where
  "netana_set_filter ulPort ptFilterA ptFilterB ulRelationShip s =
     (let limit = ulFilterSize (dev s) in
      if IsCaptureRunning s then (NETANA_CAPTURE_ACTIVE, s)
      else if validate_filter limit ptFilterA \<noteq> NETANA_NO_ERROR then (validate_filter limit ptFilterA, s)
      else if validate_filter limit ptFilterB \<noteq> NETANA_NO_ERROR then (validate_filter limit ptFilterB, s)
      else if ulPort < ulPortCnt (dev s) then
        (NETANA_NO_ERROR, upd_filter (unat ulPort) (\<lambda>fl. fl\<lparr>fl_ulRelationShip := ulRelationShip,
            fl_A := write_filter limit ptFilterA (fl_A fl),
            fl_B := write_filter limit ptFilterB (fl_B fl)\<rparr>) s)
      else (NETANA_INVALID_PORT, s))"

section \<open>GPIOs\<close>

text \<open>\<open>NETANA_GPIO_MODE_T\<close>; the union is two words, as in the block of the DPM.\<close>

record gpio_mode =
  gm_ulMode :: u32
  gm_uData0 :: u32
  gm_uData1 :: u32

definition gpio_at :: "sys \<Rightarrow> u32 \<Rightarrow> gpio_block" where
  "gpio_at s i = gpios (dpm s) ! unat i"

definition upd_gpio :: "nat \<Rightarrow> (gpio_block \<Rightarrow> gpio_block) \<Rightarrow> sys \<Rightarrow> sys" where
  "upd_gpio i g s = s\<lparr>dpm := (dpm s)\<lparr>gpios := (gpios (dpm s))[i := g (gpios (dpm s) ! i)]\<rparr>\<rparr>"

definition netana_get_gpio_mode :: "u32 \<Rightarrow> gpio_mode \<Rightarrow> sys \<Rightarrow> u32 \<times> gpio_mode" where
  "netana_get_gpio_mode ulGpio ptMode s =
     (if ulGpio < ulGpioCnt (dev s) then
        let b = gpio_at s ulGpio; m = ptMode\<lparr>gm_ulMode := gb_ulMode b, gm_uData0 := 0, gm_uData1 := 0\<rparr>
        in (NETANA_NO_ERROR,
            if gm_ulMode m = NETANA_GPIO_MODE_OUTPUT then m
            else m\<lparr>gm_uData0 := gb_uData0 b, gm_uData1 := gb_uData1 b\<rparr>)
      else (NETANA_INVALID_PARAMETER, ptMode))"

definition netana_set_gpio_mode :: "u32 \<Rightarrow> gpio_mode \<Rightarrow> sys \<Rightarrow> u32 \<times> sys" where
  "netana_set_gpio_mode ulGpio ptMode s =
     (let mode = gm_ulMode ptMode; i = unat ulGpio in
      if IsCaptureRunning s then (NETANA_CAPTURE_ACTIVE, s)
      else if ulGpio < ulGpioCnt (dev s) then
        if mode = NETANA_GPIO_MODE_RISING_EDGE \<or> mode = NETANA_GPIO_MODE_FALLING_EDGE then
          (NETANA_NO_ERROR, upd_gpio i (\<lambda>b. b\<lparr>gb_ulMode := mode, gb_uData0 := gm_uData0 ptMode,
                                              gb_uData1 := gm_uData1 ptMode\<rparr>) s)
        else if mode = NETANA_GPIO_MODE_OUTPUT then
          (NETANA_NO_ERROR, upd_gpio i (\<lambda>b. b\<lparr>gb_ulMode := mode, gb_uData0 := 0\<rparr>) s)
        else if mode = NETANA_GPIO_MODE_OUTPUT_PWM then
          (if gm_uData0 ptMode \<le> 100000000 \<and> gm_uData0 ptMode \<ge> 10 \<and>
              gm_uData1 ptMode \<le> 100000000 \<and> gm_uData1 ptMode \<ge> 10 then
             if list_ex (\<lambda>j. gb_ulMode (gpios (dpm s) ! j) = mode \<and> i \<noteq> j) [0..<unat (ulGpioCnt (dev s))]
             then (NETANA_FUNCTION_FAILED, s)
             else (NETANA_NO_ERROR, upd_gpio i (\<lambda>b. b\<lparr>gb_ulMode := mode, gb_uData0 := gm_uData0 ptMode,
                                                      gb_uData1 := gm_uData1 ptMode\<rparr>) s)
           else (NETANA_INVALID_PARAMETER, s))
        else if mode = NETANA_GPIO_MODE_SYNC then
          (NETANA_NO_ERROR, upd_gpio i (\<lambda>b. b\<lparr>gb_ulMode := mode, gb_uData0 := gm_uData0 ptMode\<rparr>) s)
        else (NETANA_NO_ERROR, upd_gpio i (\<lambda>b. b\<lparr>gb_ulMode := mode\<rparr>) s)
      else (NETANA_INVALID_PARAMETER, s))"

definition netana_set_gpio_output :: "u32 \<Rightarrow> u32 \<Rightarrow> sys \<Rightarrow> u32 \<times> sys" where
  "netana_set_gpio_output ulGpio ulLevel s =
     (if ulGpio \<ge> ulGpioCnt (dev s) \<or> (ulLevel \<noteq> 0 \<and> ulLevel \<noteq> 1) then (NETANA_INVALID_PARAMETER, s)
      else if gb_ulMode (gpio_at s ulGpio) = NETANA_GPIO_MODE_OUTPUT then
        (NETANA_NO_ERROR, upd_gpio (unat ulGpio) (\<lambda>b. b\<lparr>gb_uData0 := ulLevel\<rparr>) s)
      else (NETANA_FUNCTION_FAILED, s))"

definition supported_gpios :: "u32 \<Rightarrow> u32" where
  "supported_gpios cnt = fold (\<lambda>g m. m OR msk g) [0..<unat cnt] 0"

definition netana_set_gpio_voltage :: "u32 \<Rightarrow> u32 \<Rightarrow> sys \<Rightarrow> u32 \<times> sys" where
  "netana_set_gpio_voltage ulGpioSelMask ulGpioVoltageSel s =
     (let cnt = ulGpioCnt (dev s); feat = si_features (tSystemInfoBlock (dpm s)) in
      if ulGpioSelMask > supported_gpios cnt then (NETANA_INVALID_PARAMETER, s)
      else if usDeviceClass (dev s) = NANL_DEV_CLASS \<and> ulGpioSelMask \<noteq> 0x0F then (NETANA_INVALID_PARAMETER, s)
      else if ulGpioVoltageSel = NETANA_GPIO_VOLTAGE_3V \<and>
                si_ulGpioVoltage3VSupport feat AND ulGpioSelMask = ulGpioSelMask \<or>
              ulGpioVoltageSel = NETANA_GPIO_VOLTAGE_24V \<and>
                si_ulGpioVoltage24VSupport feat AND ulGpioSelMask = ulGpioSelMask then
        (NETANA_NO_ERROR,
         fold (\<lambda>g s. if ulGpioSelMask AND msk g \<noteq> 0
                     then upd_gpio g (\<lambda>b. b\<lparr>gb_ulVoltage := ulGpioVoltageSel\<rparr>) s else s)
           [0..<unat cnt] s)
      else (NETANA_INVALID_PARAMETER, s))"

definition netana_get_gpio_voltage :: "u32 \<Rightarrow> u32 option \<Rightarrow> sys \<Rightarrow> u32 \<times> u32 option" where
  "netana_get_gpio_voltage ulGpio pulGpioVoltageSel s =
     (if pulGpioVoltageSel = None \<or> ulGpio \<ge> ulGpioCnt (dev s)
      then (NETANA_INVALID_PARAMETER, pulGpioVoltageSel)
      else (NETANA_NO_ERROR, Some (gb_ulVoltage (gpio_at s ulGpio))))"

section \<open>What the calls leave alone\<close>

lemma upd_gpio_frame [simp]:
  "dev (upd_gpio i g s) = dev s" "length (gpios (dpm (upd_gpio i g s))) = length (gpios (dpm s))"
  "filters (dpm (upd_gpio i g s)) = filters (dpm s)"
  "tNetxStatusBlock (dpm (upd_gpio i g s)) = tNetxStatusBlock (dpm s)"
  "tSystemInfoBlock (dpm (upd_gpio i g s)) = tSystemInfoBlock (dpm s)"
  by (simp_all add: upd_gpio_def)

lemma upd_gpio_nth [simp]:
  "j < length (gpios (dpm s)) \<Longrightarrow>
     gpios (dpm (upd_gpio i g s)) ! j = (if i = j then g (gpios (dpm s) ! j) else gpios (dpm s) ! j)"
  by (cases "i = j") (simp_all add: upd_gpio_def)

lemma upd_filter_frame [simp]:
  "dev (upd_filter i g s) = dev s" "gpios (dpm (upd_filter i g s)) = gpios (dpm s)"
  "length (filters (dpm (upd_filter i g s))) = length (filters (dpm s))"
  "tNetxStatusBlock (dpm (upd_filter i g s)) = tNetxStatusBlock (dpm s)"
  by (simp_all add: upd_filter_def)

lemma upd_filter_nth [simp]:
  "j < length (filters (dpm s)) \<Longrightarrow>
     filters (dpm (upd_filter i g s)) ! j = (if i = j then g (filters (dpm s) ! j) else filters (dpm s) ! j)"
  by (cases "i = j") (simp_all add: upd_filter_def)

section \<open>Filters: what was set is read back\<close>

text \<open>The bytes of a filter of \<open>limit\<close> bytes after it was set: the given ones, then zeros.\<close>

fun filter_image :: "u32 \<Rightarrow> netana_filter option \<Rightarrow> filter_pair" where
  "filter_image limit None = \<lparr>fp_pbMask = replicate (unat limit) 0, fp_pbValue = replicate (unat limit) 0\<rparr>"
| "filter_image limit (Some f) =
     (let n = unat (uf_ulFilterSize f); pad = replicate (unat limit - n) 0
      in \<lparr>fp_pbMask = (if n = 0 then [] else take n (the (uf_pbMask f))) @ pad,
          fp_pbValue = (if n = 0 then [] else take n (the (uf_pbValue f))) @ pad\<rparr>)"

text \<open>A user filter names buffers which hold at least \<open>ulFilterSize\<close> bytes.\<close>

fun filter_sound :: "netana_filter option \<Rightarrow> bool" where
  "filter_sound None \<longleftrightarrow> True"
| "filter_sound (Some f) \<longleftrightarrow>
     (\<forall>m \<in> set_option (uf_pbMask f). unat (uf_ulFilterSize f) \<le> length m) \<and>
     (\<forall>v \<in> set_option (uf_pbValue f). unat (uf_ulFilterSize f) \<le> length v)"

definition dpm_filters_ok :: "sys \<Rightarrow> bool" where
  "dpm_filters_ok s \<longleftrightarrow> length (filters (dpm s)) = unat (ulPortCnt (dev s)) \<and>
     (\<forall>fl \<in> set (filters (dpm s)). \<forall>p \<in> {fl_A fl, fl_B fl}.
        length (fp_pbMask p) = unat (ulFilterSize (dev s)) \<and>
        length (fp_pbValue p) = unat (ulFilterSize (dev s)))"

lemma write_filter_image:
  assumes "validate_filter limit f = NETANA_NO_ERROR" "filter_sound f"
    and "length (fp_pbMask p) = unat limit" "length (fp_pbValue p) = unat limit"
  shows "write_filter limit f p = filter_image limit f"
proof (cases f)
  case None
  then show ?thesis
    using assms by (cases p) (simp add: write_filter_def blit_0)
next
  case (Some g)
  show ?thesis
  proof (cases "uf_ulFilterSize g > 0")
    case True
    then obtain m v where mv: "uf_pbMask g = Some m" "uf_pbValue g = Some v"
        and le: "unat (uf_ulFilterSize g) \<le> unat limit"
      using assms(1) Some by (auto simp: validate_filter_def word_le_nat_alt not_less split: if_splits)
    have "unat (uf_ulFilterSize g) \<noteq> 0"
      using True by (simp add: word_greater_zero_iff unat_eq_0)
    then show ?thesis
      using assms Some True mv le by (cases p) (simp add: write_filter_def Let_def blit_def min_absorb2)
  next
    case False
    then have "uf_ulFilterSize g = 0"
      by (simp add: word_greater_zero_iff)
    then show ?thesis
      using assms Some by (cases p) (simp add: write_filter_def blit_0 Let_def)
  qed
qed

lemma set_filter_ok:
  assumes "netana_set_filter i A B r s = (NETANA_NO_ERROR, s')"
  shows "\<not> IsCaptureRunning s" "i < ulPortCnt (dev s)"
    "validate_filter (ulFilterSize (dev s)) A = NETANA_NO_ERROR"
    "validate_filter (ulFilterSize (dev s)) B = NETANA_NO_ERROR"
    "s' = upd_filter (unat i) (\<lambda>fl. fl\<lparr>fl_ulRelationShip := r,
        fl_A := write_filter (ulFilterSize (dev s)) A (fl_A fl),
        fl_B := write_filter (ulFilterSize (dev s)) B (fl_B fl)\<rparr>) s"
  using assms by (auto simp: netana_set_filter_def Let_def split: if_splits)

lemma set_filter_error: "netana_set_filter i A B r s = (e, s') \<Longrightarrow> e \<noteq> NETANA_NO_ERROR \<Longrightarrow> s' = s"
  by (auto simp: netana_set_filter_def Let_def split: if_splits)

lemma set_filter_image:
  assumes "netana_set_filter i A B r s = (NETANA_NO_ERROR, s')"
    and "filter_sound A" "filter_sound B" "dpm_filters_ok s" "j < length (filters (dpm s))"
  shows "filters (dpm s') ! j =
    (if unat i = j then \<lparr>fl_ulRelationShip = r, fl_A = filter_image (ulFilterSize (dev s)) A,
                         fl_B = filter_image (ulFilterSize (dev s)) B\<rparr>
     else filters (dpm s) ! j)"
proof (cases "unat i = j")
  case True
  let ?fl = "filters (dpm s) ! j"
  have mem: "?fl \<in> set (filters (dpm s))"
    using assms(5) by simp
  have "write_filter (ulFilterSize (dev s)) A (fl_A ?fl) = filter_image (ulFilterSize (dev s)) A"
    using assms(2,4) mem set_filter_ok(3)[OF assms(1)] by (intro write_filter_image) (auto simp: dpm_filters_ok_def)
  moreover have "write_filter (ulFilterSize (dev s)) B (fl_B ?fl) = filter_image (ulFilterSize (dev s)) B"
    using assms(3,4) mem set_filter_ok(4)[OF assms(1)] by (intro write_filter_image) (auto simp: dpm_filters_ok_def)
  ultimately show ?thesis
    using True assms(5) by (cases "filters (dpm s) ! j") (simp add: set_filter_ok(5)[OF assms(1)])
qed (use assms(5) in \<open>simp add: set_filter_ok(5)[OF assms(1)]\<close>)

text \<open>What the user gets back with buffers of \<open>n\<close> bytes each.\<close>

definition read_back :: "nat \<Rightarrow> filter_pair \<Rightarrow> netana_filter option" where
  "read_back n p = Some \<lparr>uf_ulFilterSize = of_nat n, uf_pbMask = Some (take n (fp_pbMask p)),
                         uf_pbValue = Some (take n (fp_pbValue p))\<rparr>"

definition empty_filter :: "nat \<Rightarrow> netana_filter option" where
  "empty_filter n = Some \<lparr>uf_ulFilterSize = of_nat n, uf_pbMask = Some (replicate n 0),
                          uf_pbValue = Some (replicate n 0)\<rparr>"

lemma read_filter_image:
  assumes "n \<le> unat limit" "0 < n" "length (fp_pbMask p) = unat limit" "length (fp_pbValue p) = unat limit"
  shows "read_filter limit p (empty_filter n) = Some (read_back n p)"
proof -
  have n: "unat (of_nat n :: u32) = n"
    using assms(1) by (rule unat_of_nat_le)
  then have "(of_nat n :: u32) \<le> limit" "(0 :: u32) < of_nat n"
    using assms(1,2) by (simp_all add: word_le_nat_alt word_less_nat_alt)
  then show ?thesis
    using assms n by (simp add: read_filter_def empty_filter_def read_back_def Let_def blit_def not_less[symmetric])
qed

lemma length_filter_image:
  assumes "validate_filter limit f = NETANA_NO_ERROR" "filter_sound f"
  shows "length (fp_pbMask (filter_image limit f)) = unat limit"
    "length (fp_pbValue (filter_image limit f)) = unat limit"
proof -
  let ?p = "\<lparr>fp_pbMask = replicate (unat limit) 0, fp_pbValue = replicate (unat limit) 0\<rparr>"
  have "length (fp_pbMask (write_filter limit f ?p)) = unat limit \<and> length (fp_pbValue (write_filter limit f ?p)) = unat limit"
    using assms
    by (cases f) (auto simp: write_filter_def validate_filter_def blit_def word_le_nat_alt not_less min_def Let_def split: if_splits)
  then show "length (fp_pbMask (filter_image limit f)) = unat limit"
    "length (fp_pbValue (filter_image limit f)) = unat limit"
    using write_filter_image[OF assms, of ?p] by simp_all
qed

text \<open>C15: What \<open>netana_set_filter\<close> sets is what \<open>netana_get_filter\<close> reads back: the
  relationship and, for any read length up to the filter size, the masks and values given,
  extended by zeros; every other port and every GPIO keeps its configuration.\<close>

theorem filter_round_trip:
  assumes "netana_set_filter i A B r s = (NETANA_NO_ERROR, s')"
    and "filter_sound A" "filter_sound B" "dpm_filters_ok s"
    and "0 < n" "n \<le> unat (ulFilterSize (dev s))"
  shows "netana_get_filter i (empty_filter n) (empty_filter n) (Some x) s' =
      (NETANA_NO_ERROR, read_back n (filter_image (ulFilterSize (dev s)) A),
       read_back n (filter_image (ulFilterSize (dev s)) B), Some r) \<and>
    (\<forall>j < length (filters (dpm s)). j \<noteq> unat i \<longrightarrow> filters (dpm s') ! j = filters (dpm s) ! j) \<and>
    dev s' = dev s \<and> gpios (dpm s') = gpios (dpm s)"
proof -
  note ok = set_filter_ok[OF assms(1)]
  have i: "unat i < length (filters (dpm s))"
    using ok(2) assms(4) by (simp add: dpm_filters_ok_def word_less_nat_alt)
  have fl: "filters (dpm s') ! unat i = \<lparr>fl_ulRelationShip = r,
      fl_A = filter_image (ulFilterSize (dev s)) A, fl_B = filter_image (ulFilterSize (dev s)) B\<rparr>"
    using set_filter_image[OF assms(1-4) i] by simp
  have fr: "dev s' = dev s" "gpios (dpm s') = gpios (dpm s)"
    by (simp_all add: ok(5))
  have "read_filter (ulFilterSize (dev s)) (filter_image (ulFilterSize (dev s)) A) (empty_filter n) =
      Some (read_back n (filter_image (ulFilterSize (dev s)) A))"
    using assms ok length_filter_image[of "ulFilterSize (dev s)" A] by (intro read_filter_image) auto
  moreover have "read_filter (ulFilterSize (dev s)) (filter_image (ulFilterSize (dev s)) B) (empty_filter n) =
      Some (read_back n (filter_image (ulFilterSize (dev s)) B))"
    using assms ok length_filter_image[of "ulFilterSize (dev s)" B] by (intro read_filter_image) auto
  ultimately show ?thesis
    using ok(2) fl fr set_filter_image[OF assms(1-4)] by (simp add: netana_get_filter_def Let_def)
qed

definition user_filter :: "netana_filter option" where
  "user_filter = Some \<lparr>uf_ulFilterSize = 2, uf_pbMask = Some [255, 15], uf_pbValue = Some [8, 6]\<rparr>"

lemma filter_round_trip_witness:
  "\<exists>s'. netana_set_filter 1 user_filter None 5 sample = (NETANA_NO_ERROR, s') \<and>
     netana_get_filter 1 (empty_filter 3) (empty_filter 3) (Some 0) s' =
       (NETANA_NO_ERROR, read_back 3 \<lparr>fp_pbMask = [255, 15, 0, 0], fp_pbValue = [8, 6, 0, 0]\<rparr>, empty_filter 3, Some 5)"
proof -
  have 1: "netana_set_filter 1 user_filter None 5 sample = (NETANA_NO_ERROR, snd (netana_set_filter 1 user_filter None 5 sample))"
    by (simp add: netana_set_filter_def IsCaptureRunning_def validate_filter_def user_filter_def sample_defs Let_def)
  have ok: "dpm_filters_ok sample" "filter_sound user_filter" "filter_sound None"
    by (simp_all add: dpm_filters_ok_def user_filter_def sample_defs)
  show ?thesis
    using filter_round_trip[OF 1 ok(2,3,1), of 3 0] 1
    by (intro exI[of _ "snd (netana_set_filter 1 user_filter None 5 sample)"])
       (simp add: user_filter_def read_back_def empty_filter_def sample_defs Let_def)
qed

section \<open>GPIOs: modes, levels and voltages\<close>

definition gpios_ok :: "sys \<Rightarrow> bool" where
  "gpios_ok s \<longleftrightarrow> length (gpios (dpm s)) = unat (ulGpioCnt (dev s))"

text \<open>The signal generator: one GPIO at most, with periods in the allowed range.\<close>

definition pwm_at :: "sys \<Rightarrow> nat \<Rightarrow> bool" where
  "pwm_at s i \<longleftrightarrow> i < unat (ulGpioCnt (dev s)) \<and> gb_ulMode (gpios (dpm s) ! i) = NETANA_GPIO_MODE_OUTPUT_PWM"

definition pwm_range :: "u32 \<Rightarrow> bool" where
  "pwm_range w \<longleftrightarrow> 10 \<le> w \<and> w \<le> 100000000"

definition pwm_ok :: "sys \<Rightarrow> bool" where
  "pwm_ok s \<longleftrightarrow> (\<forall>i j. pwm_at s i \<longrightarrow> pwm_at s j \<longrightarrow> i = j) \<and>
     (\<forall>i. pwm_at s i \<longrightarrow> pwm_range (gb_uData0 (gpios (dpm s) ! i)) \<and> pwm_range (gb_uData1 (gpios (dpm s) ! i)))"

text \<open>The calls which write a GPIO block, in any order and with any arguments.\<close>

inductive gpio_calls :: "sys \<Rightarrow> sys \<Rightarrow> bool" where
  gpio_calls_none: "gpio_calls s s"
| gpio_calls_mode: "gpio_calls s s' \<Longrightarrow> gpio_calls s (snd (netana_set_gpio_mode i m s'))"
| gpio_calls_output: "gpio_calls s s' \<Longrightarrow> gpio_calls s (snd (netana_set_gpio_output i l s'))"
| gpio_calls_voltage: "gpio_calls s s' \<Longrightarrow> gpio_calls s (snd (netana_set_gpio_voltage sel v s'))"

lemma gpio_nth_bound: "gpios_ok s \<Longrightarrow> i < ulGpioCnt (dev s) \<Longrightarrow> unat i < length (gpios (dpm s))"
  by (simp add: gpios_ok_def word_less_nat_alt)

lemma pwm_at_upd:
  assumes "gpios_ok s"
  shows "pwm_at (upd_gpio i g s) j \<longleftrightarrow> j < unat (ulGpioCnt (dev s)) \<and>
    gb_ulMode (if i = j then g (gpios (dpm s) ! j) else gpios (dpm s) ! j) = NETANA_GPIO_MODE_OUTPUT_PWM"
  using assms by (auto simp: pwm_at_def gpios_ok_def)

lemma gpios_ok_upd [simp]: "gpios_ok (upd_gpio i g s) = gpios_ok s"
  by (simp add: gpios_ok_def)

text \<open>An update which cannot make a GPIO a PWM output and keeps those which are.\<close>

lemma pwm_ok_upd_other:
  assumes "gpios_ok s" "pwm_ok s"
    and "\<And>b. gb_ulMode (g b) = NETANA_GPIO_MODE_OUTPUT_PWM \<Longrightarrow> gb_ulMode b = NETANA_GPIO_MODE_OUTPUT_PWM \<and>
      gb_uData0 (g b) = gb_uData0 b \<and> gb_uData1 (g b) = gb_uData1 b"
  shows "pwm_ok (upd_gpio i g s)"
proof -
  have sub: "pwm_at s j \<and> gb_uData0 (gpios (dpm (upd_gpio i g s)) ! j) = gb_uData0 (gpios (dpm s) ! j) \<and>
      gb_uData1 (gpios (dpm (upd_gpio i g s)) ! j) = gb_uData1 (gpios (dpm s) ! j)"
    if "pwm_at (upd_gpio i g s) j" for j
  proof -
    have "j < length (gpios (dpm s))"
      using that assms(1) by (simp add: pwm_at_upd gpios_ok_def)
    then show ?thesis
      using that[unfolded pwm_at_upd[OF assms(1)]] assms(3)[of "gpios (dpm s) ! j"]
      by (cases "i = j") (auto simp: pwm_at_def)
  qed
  show ?thesis
    using assms(2) sub unfolding pwm_ok_def by metis
qed

lemma pwm_ok_upd_mode:
  "gpios_ok s \<Longrightarrow> pwm_ok s \<Longrightarrow> (\<And>b. gb_ulMode (g b) \<noteq> NETANA_GPIO_MODE_OUTPUT_PWM) \<Longrightarrow> pwm_ok (upd_gpio i g s)"
  by (rule pwm_ok_upd_other) simp_all

lemma pwm_ok_upd_pwm:
  assumes "gpios_ok s" "pwm_ok s" "i < unat (ulGpioCnt (dev s))" "\<And>j. pwm_at s j \<Longrightarrow> j = i"
    and "pwm_range x" "pwm_range y"
  shows "pwm_ok (upd_gpio i (\<lambda>b. b\<lparr>gb_ulMode := m, gb_uData0 := x, gb_uData1 := y\<rparr>) s)"
    (is "pwm_ok ?s'")
proof -
  have only: "j = i" if "pwm_at ?s' j" for j
    using that[unfolded pwm_at_upd[OF assms(1)]] assms(4)[of j] by (cases "i = j") (auto simp: pwm_at_def)
  have "i < length (gpios (dpm s))"
    using assms(1,3) by (simp add: gpios_ok_def)
  then have "gb_uData0 (gpios (dpm ?s') ! i) = x" "gb_uData1 (gpios (dpm ?s') ! i) = y"
    by simp_all
  then show ?thesis
    using only assms(5,6) unfolding pwm_ok_def by metis
qed

lemma pwm_ok_voltage:
  "gpios_ok s \<Longrightarrow> pwm_ok s \<Longrightarrow> pwm_ok (upd_gpio i (\<lambda>b. b\<lparr>gb_ulVoltage := v\<rparr>) s)"
  by (rule pwm_ok_upd_other) simp_all

lemma set_gpio_mode_frame [simp]:
  "dev (snd (netana_set_gpio_mode i m s)) = dev s"
  "gpios_ok (snd (netana_set_gpio_mode i m s)) = gpios_ok s"
  by (simp_all add: netana_set_gpio_mode_def Let_def)

lemma set_gpio_mode_pwm:
  assumes "gpios_ok s" "pwm_ok s"
  shows "pwm_ok (snd (netana_set_gpio_mode i m s))"
proof (cases "gm_ulMode m = NETANA_GPIO_MODE_OUTPUT_PWM \<and> fst (netana_set_gpio_mode i m s) = NETANA_NO_ERROR")
  case True
  let ?used = "list_ex (\<lambda>j. gb_ulMode (gpios (dpm s) ! j) = NETANA_GPIO_MODE_OUTPUT_PWM \<and> unat i \<noteq> j)
      [0..<unat (ulGpioCnt (dev s))]"
  have pwm: "netana_set_gpio_mode i m s =
      (if IsCaptureRunning s then (NETANA_CAPTURE_ACTIVE, s)
       else if i < ulGpioCnt (dev s) then
         if pwm_range (gm_uData0 m) \<and> pwm_range (gm_uData1 m) then
           if ?used then (NETANA_FUNCTION_FAILED, s)
           else (NETANA_NO_ERROR, upd_gpio (unat i) (\<lambda>b. b\<lparr>gb_ulMode := NETANA_GPIO_MODE_OUTPUT_PWM,
              gb_uData0 := gm_uData0 m, gb_uData1 := gm_uData1 m\<rparr>) s)
         else (NETANA_INVALID_PARAMETER, s)
       else (NETANA_INVALID_PARAMETER, s))"
    using True by (simp add: netana_set_gpio_mode_def Let_def pwm_range_def conj_ac)
  with True have ok: "i < ulGpioCnt (dev s)" "pwm_range (gm_uData0 m)" "pwm_range (gm_uData1 m)" and only: "\<not> ?used"
      and eq: "snd (netana_set_gpio_mode i m s) = upd_gpio (unat i) (\<lambda>b. b\<lparr>gb_ulMode := NETANA_GPIO_MODE_OUTPUT_PWM,
          gb_uData0 := gm_uData0 m, gb_uData1 := gm_uData1 m\<rparr>) s"
    by (simp_all split: if_splits)
  show ?thesis
    unfolding eq using assms ok only
    by (intro pwm_ok_upd_pwm) (auto simp: word_less_nat_alt list_ex_iff pwm_at_def)
next
  case False
  show ?thesis
  proof (cases "gm_ulMode m = NETANA_GPIO_MODE_OUTPUT_PWM")
    case True
    with False have "snd (netana_set_gpio_mode i m s) = s"
      by (auto simp: netana_set_gpio_mode_def Let_def)
    with assms show ?thesis
      by simp
  next
    case False
    with assms show ?thesis
      by (simp add: netana_set_gpio_mode_def Let_def pwm_ok_upd_mode)
  qed
qed

lemma set_gpio_output_frame [simp]:
  "dev (snd (netana_set_gpio_output i l s)) = dev s"
  "gpios_ok (snd (netana_set_gpio_output i l s)) = gpios_ok s"
  by (simp_all add: netana_set_gpio_output_def)

lemma set_gpio_output_pwm:
  assumes "gpios_ok s" "pwm_ok s"
  shows "pwm_ok (snd (netana_set_gpio_output i l s))"
proof (cases "snd (netana_set_gpio_output i l s) = s")
  case False
  then have m: "gb_ulMode (gpio_at s i) = NETANA_GPIO_MODE_OUTPUT" and
      eq: "snd (netana_set_gpio_output i l s) = upd_gpio (unat i) (\<lambda>b. b\<lparr>gb_uData0 := l\<rparr>) s"
    by (auto simp: netana_set_gpio_output_def split: if_splits)
  have "upd_gpio (unat i) (\<lambda>b. b\<lparr>gb_uData0 := l\<rparr>) s = upd_gpio (unat i) (\<lambda>b. b\<lparr>gb_ulMode := NETANA_GPIO_MODE_OUTPUT, gb_uData0 := l\<rparr>) s"
    using m by (cases "gpios (dpm s) ! unat i") (simp add: upd_gpio_def gpio_at_def)
  then show ?thesis
    unfolding eq using assms by (simp add: pwm_ok_upd_mode)
qed (use assms in simp)

lemma set_voltage_fold:
  assumes "gpios_ok s" "pwm_ok s"
  shows "pwm_ok (fold (\<lambda>g s. if P g then upd_gpio g (\<lambda>b. b\<lparr>gb_ulVoltage := v\<rparr>) s else s) js s) \<and>
    gpios_ok (fold (\<lambda>g s. if P g then upd_gpio g (\<lambda>b. b\<lparr>gb_ulVoltage := v\<rparr>) s else s) js s) \<and>
    dev (fold (\<lambda>g s. if P g then upd_gpio g (\<lambda>b. b\<lparr>gb_ulVoltage := v\<rparr>) s else s) js s) = dev s"
  using assms by (induction js arbitrary: s) (simp_all add: pwm_ok_voltage)

lemma set_gpio_voltage_pwm:
  assumes "gpios_ok s" "pwm_ok s"
  shows "pwm_ok (snd (netana_set_gpio_voltage sel v s)) \<and> gpios_ok (snd (netana_set_gpio_voltage sel v s))"
  using assms set_voltage_fold[OF assms] by (simp add: netana_set_gpio_voltage_def Let_def)

text \<open>C16: However the GPIO calls are mixed, at most one GPIO is a PWM output, and its high
  and low periods stay within the range \<open>netana_set_gpio_mode\<close> checks.\<close>

theorem one_pwm_output:
  assumes "gpio_calls s s'" "gpios_ok s" "pwm_ok s"
  shows "pwm_ok s'"
proof -
  have "pwm_ok s' \<and> gpios_ok s'"
    using assms
    by (induction rule: gpio_calls.induct)
       (simp_all add: set_gpio_mode_pwm set_gpio_output_pwm set_gpio_voltage_pwm)
  then show ?thesis
    by simp
qed

definition pwm_mode :: gpio_mode where
  "pwm_mode = \<lparr>gm_ulMode = NETANA_GPIO_MODE_OUTPUT_PWM, gm_uData0 = 50, gm_uData1 = 100\<rparr>"

lemma one_pwm_output_witness:
  "fst (netana_set_gpio_mode 2 pwm_mode (snd (netana_set_gpio_mode 1 pwm_mode sample))) = NETANA_FUNCTION_FAILED \<and>
   pwm_ok (snd (netana_set_gpio_mode 2 pwm_mode (snd (netana_set_gpio_mode 1 pwm_mode sample))))"
proof (rule conjI)
  show "fst (netana_set_gpio_mode 2 pwm_mode (snd (netana_set_gpio_mode 1 pwm_mode sample))) = NETANA_FUNCTION_FAILED"
    by (simp add: netana_set_gpio_mode_def pwm_mode_def IsCaptureRunning_def upd_gpio_def sample_defs
        Let_def list_ex_iff) (rule bexI[of _ "Suc 0"], simp_all)
  have "\<not> pwm_at sample i" for i
    by (auto simp: pwm_at_def sample_defs)
  then have "pwm_ok sample"
    by (simp add: pwm_ok_def)
  moreover have "gpios_ok sample"
    by (simp add: gpios_ok_def sample_defs)
  ultimately show "pwm_ok (snd (netana_set_gpio_mode 2 pwm_mode (snd (netana_set_gpio_mode 1 pwm_mode sample))))"
    using one_pwm_output[OF gpio_calls_mode[OF gpio_calls_mode[OF gpio_calls_none]], of sample] by blast
qed

text \<open>Which words of the union a mode uses.\<close>

definition gpio_image :: "gpio_mode \<Rightarrow> gpio_mode \<Rightarrow> bool" where
  "gpio_image m r \<longleftrightarrow> gm_ulMode r = gm_ulMode m \<and>
     (gm_ulMode m = NETANA_GPIO_MODE_OUTPUT \<longrightarrow> gm_uData0 r = 0 \<and> gm_uData1 r = 0) \<and>
     (gm_ulMode m \<in> {NETANA_GPIO_MODE_RISING_EDGE, NETANA_GPIO_MODE_FALLING_EDGE, NETANA_GPIO_MODE_OUTPUT_PWM}
        \<longrightarrow> gm_uData0 r = gm_uData0 m \<and> gm_uData1 r = gm_uData1 m) \<and>
     (gm_ulMode m = NETANA_GPIO_MODE_SYNC \<longrightarrow> gm_uData0 r = gm_uData0 m)"

text \<open>What \<open>netana_set_gpio_mode\<close> does to the block it sets.\<close>

definition mode_setter :: "gpio_mode \<Rightarrow> (gpio_block \<Rightarrow> gpio_block) \<Rightarrow> bool" where
  "mode_setter m g \<longleftrightarrow> (\<forall>b. gb_ulMode (g b) = gm_ulMode m \<and> gb_ulVoltage (g b) = gb_ulVoltage b \<and>
     (gm_ulMode m \<in> {NETANA_GPIO_MODE_RISING_EDGE, NETANA_GPIO_MODE_FALLING_EDGE, NETANA_GPIO_MODE_OUTPUT_PWM}
        \<longrightarrow> gb_uData0 (g b) = gm_uData0 m \<and> gb_uData1 (g b) = gm_uData1 m) \<and>
     (gm_ulMode m = NETANA_GPIO_MODE_SYNC \<longrightarrow> gb_uData0 (g b) = gm_uData0 m)) \<and>
     (gm_ulMode m = NETANA_GPIO_MODE_OUTPUT_PWM \<longrightarrow> pwm_range (gm_uData0 m) \<and> pwm_range (gm_uData1 m))"

lemma set_gpio_mode_ok:
  assumes "netana_set_gpio_mode i m s = (NETANA_NO_ERROR, s')"
  obtains g where "s' = upd_gpio (unat i) g s" "i < ulGpioCnt (dev s)" "\<not> IsCaptureRunning s" "mode_setter m g"
proof -
  have c: "\<not> IsCaptureRunning s" "i < ulGpioCnt (dev s)"
    using assms by (auto simp: netana_set_gpio_mode_def Let_def split: if_splits)
  consider "gm_ulMode m \<in> {NETANA_GPIO_MODE_RISING_EDGE, NETANA_GPIO_MODE_FALLING_EDGE}"
    | "gm_ulMode m = NETANA_GPIO_MODE_OUTPUT" | "gm_ulMode m = NETANA_GPIO_MODE_OUTPUT_PWM"
    | "gm_ulMode m = NETANA_GPIO_MODE_SYNC"
    | "gm_ulMode m \<notin> {NETANA_GPIO_MODE_RISING_EDGE, NETANA_GPIO_MODE_FALLING_EDGE, NETANA_GPIO_MODE_OUTPUT,
         NETANA_GPIO_MODE_OUTPUT_PWM, NETANA_GPIO_MODE_SYNC}"
    by blast
  then show ?thesis
  proof cases
    case 1
    then show ?thesis
      using assms c by (intro that[of "\<lambda>b. b\<lparr>gb_ulMode := gm_ulMode m, gb_uData0 := gm_uData0 m, gb_uData1 := gm_uData1 m\<rparr>"])
        (auto simp: netana_set_gpio_mode_def mode_setter_def Let_def)
  next
    case 2
    then show ?thesis
      using assms c by (intro that[of "\<lambda>b. b\<lparr>gb_ulMode := gm_ulMode m, gb_uData0 := 0\<rparr>"])
        (simp_all add: netana_set_gpio_mode_def mode_setter_def Let_def)
  next
    case 3
    then show ?thesis
      using assms c by (intro that[of "\<lambda>b. b\<lparr>gb_ulMode := gm_ulMode m, gb_uData0 := gm_uData0 m, gb_uData1 := gm_uData1 m\<rparr>"])
        (simp_all add: netana_set_gpio_mode_def mode_setter_def pwm_range_def Let_def split: if_splits)
  next
    case 4
    then show ?thesis
      using assms c by (intro that[of "\<lambda>b. b\<lparr>gb_ulMode := gm_ulMode m, gb_uData0 := gm_uData0 m\<rparr>"])
        (simp_all add: netana_set_gpio_mode_def mode_setter_def Let_def)
  next
    case 5
    then show ?thesis
      using assms c by (intro that[of "\<lambda>b. b\<lparr>gb_ulMode := gm_ulMode m\<rparr>"])
        (simp_all add: netana_set_gpio_mode_def mode_setter_def Let_def)
  qed
qed

text \<open>A mode \<open>netana_set_gpio_mode\<close> accepts is what \<open>netana_get_gpio_mode\<close> returns, with
  the parameters the mode has (an output starts at level 0, PWM periods are in range); the
  voltage of the GPIO and every other GPIO are untouched, and nothing is accepted while a
  capture runs.\<close>

theorem gpio_mode_round_trip:
  assumes "netana_set_gpio_mode i m s = (NETANA_NO_ERROR, s')" "gpios_ok s"
  shows "\<not> IsCaptureRunning s \<and>
    fst (netana_get_gpio_mode i x s') = NETANA_NO_ERROR \<and> gpio_image m (snd (netana_get_gpio_mode i x s')) \<and>
    (gm_ulMode m = NETANA_GPIO_MODE_OUTPUT_PWM \<longrightarrow> pwm_range (gm_uData0 m) \<and> pwm_range (gm_uData1 m)) \<and>
    (\<forall>j < length (gpios (dpm s)). gb_ulVoltage (gpios (dpm s') ! j) = gb_ulVoltage (gpios (dpm s) ! j) \<and>
       (j \<noteq> unat i \<longrightarrow> gpios (dpm s') ! j = gpios (dpm s) ! j))"
proof -
  from assms(1) obtain g where g: "s' = upd_gpio (unat i) g s" "i < ulGpioCnt (dev s)" "\<not> IsCaptureRunning s"
      "mode_setter m g"
    by (rule set_gpio_mode_ok)
  have i: "unat i < length (gpios (dpm s))"
    using assms(2) g(2) by (rule gpio_nth_bound)
  have "gpio_at s' i = g (gpio_at s i)"
    using i by (simp add: g(1) gpio_at_def)
  then have "fst (netana_get_gpio_mode i x s') = NETANA_NO_ERROR \<and> gpio_image m (snd (netana_get_gpio_mode i x s'))"
    using g by (simp add: netana_get_gpio_mode_def gpio_image_def mode_setter_def Let_def)
  then show ?thesis
    using g by (simp add: mode_setter_def)
qed

lemma gpio_mode_round_trip_witness:
  "\<exists>s'. netana_set_gpio_mode 3 pwm_mode sample = (NETANA_NO_ERROR, s') \<and>
     gpio_image pwm_mode (snd (netana_get_gpio_mode 3 pwm_mode s'))"
proof -
  have 1: "netana_set_gpio_mode 3 pwm_mode sample = (NETANA_NO_ERROR, snd (netana_set_gpio_mode 3 pwm_mode sample))"
    by (simp add: netana_set_gpio_mode_def pwm_mode_def IsCaptureRunning_def sample_defs Let_def list_ex_iff)
  have "gpios_ok sample"
    by (simp add: gpios_ok_def sample_defs)
  then show ?thesis
    using gpio_mode_round_trip[OF 1, of pwm_mode] 1 by blast
qed

section \<open>Voltage selection\<close>

lemma supported_gpios_bit: "bit (fold (\<lambda>g m. m OR msk g) [0..<n] (w :: u32)) j \<longleftrightarrow> bit w j \<or> (j < n \<and> j < 32)"
  by (induction n) (auto simp: bit_or_iff less_Suc_eq)

lemma supported_gpios_mask: "supported_gpios cnt = mask (unat cnt)"
  unfolding supported_gpios_def
  by (rule bit_word_eqI) (auto simp: supported_gpios_bit bit_mask_iff)

lemma select_in_range:
  assumes "w \<le> supported_gpios cnt" "unat cnt < 32" "bit w j"
  shows "j < unat cnt"
proof (rule ccontr)
  assume "\<not> j < unat cnt"
  have "uint w \<le> uint (mask (unat cnt) :: u32)"
    using assms(1) by (simp add: supported_gpios_mask word_le_def)
  also have "\<dots> = 2 ^ unat cnt - 1"
    using assms(2) by (simp only: uint_mask_eq) (simp add: mask_eq_exp_minus_1 min_def)
  finally have "uint w < 2 ^ unat cnt"
    by simp
  then have "w AND mask (unat cnt) = w"
    by (simp add: mask_eq_iff)
  then show False
    using assms(3) \<open>\<not> j < unat cnt\<close> by (metis bit_and_iff bit_mask_iff)
qed

lemma voltage_fold_nth:
  assumes "j < length (gpios (dpm s))"
  shows "gpios (dpm (fold (\<lambda>g s. if sel AND msk g \<noteq> 0 then upd_gpio g (\<lambda>b. b\<lparr>gb_ulVoltage := v\<rparr>) s else s) is s)) ! j =
    (if j \<in> set is \<and> bit sel j then (gpios (dpm s) ! j)\<lparr>gb_ulVoltage := v\<rparr> else gpios (dpm s) ! j) \<and>
    dev (fold (\<lambda>g s. if sel AND msk g \<noteq> 0 then upd_gpio g (\<lambda>b. b\<lparr>gb_ulVoltage := v\<rparr>) s else s) is s) = dev s"
  using assms by (induction "is" arbitrary: s) (auto split: if_splits)

text \<open>\<open>netana_set_gpio_voltage\<close> succeeds only for a selection of existing GPIOs which
  support the voltage (all four on a NANL device); it then sets the voltage of exactly the
  selected GPIOs, as \<open>netana_get_gpio_voltage\<close> reads it, and otherwise changes nothing.\<close>

theorem gpio_voltage_selected:
  assumes "netana_set_gpio_voltage sel v s = (r, s')" "gpios_ok s" "ulGpioCnt (dev s) < 32"
    and "j < ulGpioCnt (dev s)"
  shows "(r \<noteq> NETANA_NO_ERROR \<longrightarrow> s' = s) \<and>
    (r = NETANA_NO_ERROR \<longrightarrow>
       (\<forall>g. bit sel g \<longrightarrow> g < unat (ulGpioCnt (dev s))) \<and>
       (v = NETANA_GPIO_VOLTAGE_3V \<or> v = NETANA_GPIO_VOLTAGE_24V) \<and>
       (usDeviceClass (dev s) = NANL_DEV_CLASS \<longrightarrow> sel = 0x0F) \<and>
       netana_get_gpio_voltage j (Some x) s' =
         (NETANA_NO_ERROR, Some (if bit sel (unat j) then v else gb_ulVoltage (gpio_at s j))) \<and>
       gb_ulMode (gpio_at s' j) = gb_ulMode (gpio_at s j))"
proof (cases "r = NETANA_NO_ERROR")
  case False
  then show ?thesis
    using assms(1) by (auto simp: netana_set_gpio_voltage_def Let_def split: if_splits)
next
  case True
  let ?f = "\<lambda>g s. if sel AND msk g \<noteq> 0 then upd_gpio g (\<lambda>b. b\<lparr>gb_ulVoltage := v\<rparr>) s else s"
  have ok: "sel \<le> supported_gpios (ulGpioCnt (dev s))"
      "v = NETANA_GPIO_VOLTAGE_3V \<or> v = NETANA_GPIO_VOLTAGE_24V"
      "usDeviceClass (dev s) = NANL_DEV_CLASS \<longrightarrow> sel = 0x0F"
      and s': "s' = fold ?f [0..<unat (ulGpioCnt (dev s))] s"
    using assms(1) True by (auto simp: netana_set_gpio_voltage_def Let_def not_less split: if_splits)
  have j: "unat j < length (gpios (dpm s))"
    using assms(2,4) by (rule gpio_nth_bound)
  have "unat (ulGpioCnt (dev s)) < 32" "unat j < unat (ulGpioCnt (dev s))"
    using assms(3,4) by (simp_all add: word_less_nat_alt)
  then show ?thesis
    using ok True assms(4) select_in_range[OF ok(1)]
      voltage_fold_nth[OF j, of sel v "[0..<unat (ulGpioCnt (dev s))]"]
    by (simp add: s' netana_get_gpio_voltage_def gpio_at_def not_le)
qed

lemma gpio_voltage_selected_witness:
  "\<exists>s'. netana_set_gpio_voltage 15 1 sample = (NETANA_NO_ERROR, s') \<and>
     netana_get_gpio_voltage 2 (Some 9) s' = (NETANA_NO_ERROR, Some 1)"
proof -
  have "supported_gpios 4 = 15"
    by (simp add: supported_gpios_mask mask_numeral)
  then have 1: "netana_set_gpio_voltage 15 1 sample = (NETANA_NO_ERROR, snd (netana_set_gpio_voltage 15 1 sample))"
    by (simp add: netana_set_gpio_voltage_def sample_defs Let_def)
  have "gpios_ok sample" "ulGpioCnt (dev sample) < 32" "2 < ulGpioCnt (dev sample)"
    by (simp_all add: gpios_ok_def sample_defs)
  then show ?thesis
    using gpio_voltage_selected[OF 1, of 2 9] 1 by (auto simp: bit_simps)
qed

end
