(* ===== verification/Api_Command.thy ===== *)
theory Api_Command
  imports Api_Config Capture
begin

text \<open>
  The calls of the toolkit API which command the firmware (\<open>netana_functions.c\<close>): port
  counters, PHY registers, clock resynchronisation and licence check. Each waits until the
  channel of its command is free, writes its parameters into the DPM, toggles the command
  bit and waits for the device to toggle its own: \<open>send_command\<close> is this common shape.
\<close>

section \<open>The common shape\<close>

definition send_command :: "nat \<Rightarrow> u32 \<Rightarrow> (sys \<Rightarrow> sys) \<Rightarrow> (sys, bool) proc" where
  "send_command ulBit ulTimeout prep s = do {
     (ok, s1) \<leftarrow> netana_tkit_WaitForBitState ulBit NETANA_BITSTATE_EQUAL ulTimeout s;
     if \<not> ok then Some (False, s1)
     else netana_tkit_WaitForBitState ulBit NETANA_BITSTATE_EQUAL ulTimeout
            (netana_tkit_ToggleBit ulBit (prep s1))
   }"

section \<open>The calls\<close>

text \<open>The packed \<open>NETANA_COUNTER_BLOCK_T\<close>, which has the layout of \<open>NETANA_PORT_STATE_T\<close>.\<close>

definition counter_bytes :: "counter_block \<Rightarrow> bytes" where
  "counter_bytes c = le32 (cb_ulLinkState c) @ le64 (cb_ullFramesReceivedOk c) @ le64 (cb_ullRXErrors c) @
     le64 (cb_ullAlignmentErrors c) @ le64 (cb_ullFrameCheckSequenceErrors c) @
     le64 (cb_ullFrameTooLongErrors c) @ le64 (cb_ullSFDErrors c) @ le64 (cb_ullShortFrame c) @
     le64 (cb_ullFramesRejected c) @ le64 (cb_ullLongPreambleCnt c) @ le64 (cb_ullShortPreambleCnt c) @
     le64 (cb_ullBytesLineBusy c) @ le32 (cb_ullMinIFG c) @ le64 (cb_ullTime c)"

definition netana_get_portstat :: "u32 \<Rightarrow> u32 \<Rightarrow> bytes \<Rightarrow> (sys, u32 \<times> bytes) proc" where
  "netana_get_portstat ulPort ulSize ptStatus s =
     (if ulPort < ulPortCnt (dev s) then do {
        let ulCopySize = min (unat ulSize) 104;
        (ok, s1) \<leftarrow> send_command NETANA_UPDATE_BIT NETANA_DEFAULT_TIMEOUT id s;
        Some (if ok then (NETANA_NO_ERROR, blit 0 (take ulCopySize (counter_bytes (counters (dpm s1) ! unat ulPort))) ptStatus)
              else (NETANA_FUNCTION_FAILED, ptStatus), s1)
      } else Some ((NETANA_INVALID_PORT, ptStatus), s))"

definition upd_mdio :: "(mdio_block \<Rightarrow> mdio_block) \<Rightarrow> sys \<Rightarrow> sys" where
  "upd_mdio g s = s\<lparr>dpm := (dpm s)\<lparr>tMdioBlock := g (tMdioBlock (dpm s))\<rparr>\<rparr>"

definition netana_access_phy_reg :: "u32 \<Rightarrow> u8 \<Rightarrow> u8 \<Rightarrow> u16 \<Rightarrow> u32 \<Rightarrow> (sys, u32 \<times> u16) proc" where
  "netana_access_phy_reg ulDirection ulPhyNum ulPhyReg usValue ulTimeout s =
     (if ucast ulPhyNum < ulPortCnt (dev s) then do {
        (ok, s1) \<leftarrow> send_command NETANA_MDIO_BIT ulTimeout
           (\<lambda>s. upd_mdio (\<lambda>m. m\<lparr>md_ulDirection := ulDirection, md_ulPhyNum := ucast ulPhyNum,
                  md_ulPhyReg := ucast ulPhyReg,
                  md_ulValue := (if ulDirection = NETANA_PHY_DIRECTION_WRITE then ucast usValue else md_ulValue m)\<rparr>) s) s;
        Some (if ok then
                (NETANA_NO_ERROR, if ulDirection = NETANA_PHY_DIRECTION_READ
                                  then ucast (md_ulValue (tMdioBlock (dpm s1))) else usValue)
              else (NETANA_FUNCTION_FAILED, usValue), s1)
      } else Some ((NETANA_INVALID_PARAMETER, usValue), s))"

definition netana_resync_time :: "u64 \<Rightarrow> (sys, u32) proc" where
  "netana_resync_time ullReferenceTime s = do {
     (ok, s1) \<leftarrow> send_command NETANA_RESYNC_BIT NETANA_DEFAULT_TIMEOUT
        (upd_hostctrl (\<lambda>h. h\<lparr>hc_ulRefSeconds := ucast (drop_bit 32 ullReferenceTime),
                            hc_ulRefNanoseconds := ucast (ullReferenceTime AND 0xFFFFFFFF)\<rparr>)) s;
     Some (if ok then NETANA_NO_ERROR else NETANA_FUNCTION_FAILED, s1)
   }"

definition netana_config_pi_controller :: "u32 \<Rightarrow> u32 \<Rightarrow> sys \<Rightarrow> u32 \<times> sys" where
  "netana_config_pi_controller ulP ulI s =
     (NETANA_NO_ERROR, upd_hostctrl (\<lambda>h. h\<lparr>hc_ulResyncP := ulP, hc_ulResyncI := ulI\<rparr>) s)"

text \<open>The crypted information is read and overwritten in the buffer of the caller.\<close>

definition netana_check_device_ident :: "u32 \<Rightarrow> bytes option \<Rightarrow> (sys, u32 \<times> bytes option) proc" where
  "netana_check_device_ident ulInfoSize pbDevIdentInfo s =
     (case pbDevIdentInfo of None \<Rightarrow> Some ((NETANA_INVALID_POINTER, None), s)
      | Some info \<Rightarrow>
          if ulInfoSize > IDENT_INFO_BLOCK_SIZE then Some ((NETANA_FUNCTION_FAILED, Some info), s)
          else do {
            (ok, s1) \<leftarrow> send_command NETANA_LICENSE_CHECK_BIT NETANA_DEFAULT_TIMEOUT
               (\<lambda>s. s\<lparr>dpm := (dpm s)\<lparr>pbIdentInfoBlock :=
                        blit 0 (take (unat ulInfoSize) info) (pbIdentInfoBlock (dpm s))\<rparr>\<rparr>) s;
            Some (if ok then (NETANA_NO_ERROR, Some (blit 0 (take (unat ulInfoSize) (pbIdentInfoBlock (dpm s1))) info))
                  else (NETANA_FUNCTION_FAILED, Some info), s1)
          })"

section \<open>A command that succeeds was answered\<close>

text \<open>
  Seen from the call: the netX bit and the host bit agree again, both on the opposite of the
  value the host bit had when the call was made.
\<close>

definition answered :: "nat \<Rightarrow> sys \<Rightarrow> sys \<Rightarrow> bool" where
  "answered b s s' \<longleftrightarrow> netxbit s' b \<noteq> hostbit s b \<and> hostbit s' b \<noteq> hostbit s b"

text \<open>The state in which the command bit was toggled, parameters written.\<close>

definition issued :: "nat \<Rightarrow> u32 \<Rightarrow> (sys \<Rightarrow> sys) \<Rightarrow> sys \<Rightarrow> sys \<Rightarrow> bool" where
  "issued b to prep s s2 \<longleftrightarrow> (\<exists>s1. netana_tkit_WaitForBitState b NETANA_BITSTATE_EQUAL to s = Some (True, s1) \<and>
     s2 = netana_tkit_ToggleBit b (prep s1))"

text \<open>Parameters go to the DPM only.\<close>

definition dpm_only :: "(sys \<Rightarrow> sys) \<Rightarrow> bool" where
  "dpm_only prep \<longleftrightarrow> (\<forall>s. \<exists>m. prep s = s\<lparr>dpm := m\<rparr>)"

lemma dpm_only_hostbit: "dpm_only prep \<Longrightarrow> hostbit (prep s) b = hostbit s b"
  unfolding dpm_only_def hostbit_def by (metis sys.select_convs(1) sys.surjective sys.update_convs(2))

lemma dpm_only_dev: "dpm_only prep \<Longrightarrow> dev (prep s) = dev s"
  unfolding dpm_only_def by (metis sys.select_convs(1) sys.surjective sys.update_convs(2))

lemma dpm_only_id [simp]: "dpm_only id"
  unfolding dpm_only_def by (metis id_apply sys.surjective sys.update_convs(2))

lemma dpm_only_upd [simp]:
  "dpm_only (upd_hostctrl g)" "dpm_only (upd_mdio k)" "dpm_only (\<lambda>s. s\<lparr>dpm := h s\<rparr>)"
  by (auto simp: dpm_only_def upd_hostctrl_def upd_mdio_def)

lemma send_command_sent:
  assumes "send_command b to prep s = Some (True, s')"
  shows "\<exists>s2. issued b to prep s s2 \<and> netana_tkit_WaitForBitState b NETANA_BITSTATE_EQUAL to s2 = Some (True, s')"
  using assms by (auto simp: send_command_def issued_def bind_eq_Some_conv split: if_splits prod.splits)

lemma send_command_answered:
  assumes "send_command b to prep s = Some (True, s')" "dpm_only prep" "b < 32"
  shows "answered b s s'"
proof -
  obtain s1 where w: "netana_tkit_WaitForBitState b NETANA_BITSTATE_EQUAL to s = Some (True, s1)"
      "netana_tkit_WaitForBitState b NETANA_BITSTATE_EQUAL to (netana_tkit_ToggleBit b (prep s1)) = Some (True, s')"
    using send_command_sent[OF assms(1)] by (auto simp: issued_def)
  have "hostbit s1 b = hostbit s b"
    using hsk.wait_host[OF w(1)] .
  moreover have "hostbit s' b \<noteq> hostbit s1 b" "hsk.free b s'"
    using hsk.answered(2,3)[OF w(1) dpm_only_hostbit[OF assms(2)] assms(3) w(2)] .
  ultimately show ?thesis
    by (simp add: answered_def hsk.free_def)
qed

lemma send_command_dev:
  assumes "send_command b to prep s = Some (r, s')" "dpm_only prep"
  shows "dev s' = (dev s)\<lparr>ulNetxFlags := ulNetxFlags (dev s'), ulHostFlags := ulHostFlags (dev s')\<rparr>"
proof -
  obtain ok s1 where w: "netana_tkit_WaitForBitState b NETANA_BITSTATE_EQUAL to s = Some (ok, s1)"
      "\<not> ok \<and> s' = s1 \<or> netana_tkit_WaitForBitState b NETANA_BITSTATE_EQUAL to (netana_tkit_ToggleBit b (prep s1)) = Some (r, s')"
    using assms(1) by (auto simp: send_command_def bind_eq_Some_conv split: if_splits prod.splits)
  have d1: "dev s1 = (dev s)\<lparr>ulNetxFlags := ulNetxFlags (dev s1)\<rparr>"
    using Wait_frame[OF w(1)] by (auto simp: wait_frame_def dest: host_viewD)
  from w(2) show ?thesis
  proof
    assume "\<not> ok \<and> s' = s1"
    then show ?thesis
      using d1 by (cases "dev s"; cases "dev s1") simp
  next
    assume "netana_tkit_WaitForBitState b NETANA_BITSTATE_EQUAL to (netana_tkit_ToggleBit b (prep s1)) = Some (r, s')"
    then have "dev s' = (dev (netana_tkit_ToggleBit b (prep s1)))\<lparr>ulNetxFlags := ulNetxFlags (dev s')\<rparr>"
      by (auto dest!: Wait_frame simp: wait_frame_def dest: host_viewD)
    then have "dev s' = (dev s1)\<lparr>ulHostFlags := ulHostFlags (dev s1) XOR msk b, ulNetxFlags := ulNetxFlags (dev s')\<rparr>"
      by (simp add: dev_Toggle dpm_only_dev[OF assms(2)])
    then show ?thesis
      using d1 by (cases "dev s"; cases "dev s1"; cases "dev s'") simp
  qed
qed

section \<open>Properties\<close>

lemma length_counter_bytes [simp]: "length (counter_bytes c) = 104"
  by (simp add: counter_bytes_def)

text \<open>\<open>netana_get_portstat\<close> reports success only after the firmware has answered the
  update command of this call; it then returns the counters of the port as the DPM holds
  them at that time, cut to the size the caller asked for. It never writes beyond this size
  and leaves the buffer alone on every error.\<close>

theorem portstat_correct:
  assumes "netana_get_portstat p n buf s = Some ((r, buf'), s')" "min (unat n) 104 \<le> length buf"
  shows "(r = NETANA_NO_ERROR \<longrightarrow> p < ulPortCnt (dev s) \<and> answered NETANA_UPDATE_BIT s s' \<and>
       take (min (unat n) 104) buf' = take (unat n) (counter_bytes (counters (dpm s') ! unat p))) \<and>
    (r \<noteq> NETANA_NO_ERROR \<longrightarrow> buf' = buf \<and> (r = NETANA_INVALID_PORT \<and> s' = s \<or> r = NETANA_FUNCTION_FAILED)) \<and>
    length buf' = length buf \<and> drop (min (unat n) 104) buf' = drop (min (unat n) 104) buf"
proof (cases "p < ulPortCnt (dev s)")
  case True
  let ?n = "min (unat n) 104"
  from True assms(1) obtain ok where ok: "send_command NETANA_UPDATE_BIT NETANA_DEFAULT_TIMEOUT id s = Some (ok, s')"
      and res: "(r, buf') = (if ok then (NETANA_NO_ERROR, blit 0 (take ?n (counter_bytes (counters (dpm s') ! unat p))) buf)
        else (NETANA_FUNCTION_FAILED, buf))"
    by (auto simp: netana_get_portstat_def bind_eq_Some_conv)
  show ?thesis
  proof (cases ok)
    case True
    have "answered NETANA_UPDATE_BIT s s'"
      using ok True by (intro send_command_answered[of _ _ id]) auto
    moreover have "buf' = take ?n (counter_bytes (counters (dpm s') ! unat p)) @ drop ?n buf"
      using res True assms(2) by (simp add: blit_def)
    moreover have "r = NETANA_NO_ERROR"
      using res True by simp
    ultimately show ?thesis
      using \<open>p < ulPortCnt (dev s)\<close> assms(2) by (simp add: min_def)
  qed (use res in auto)
qed (use assms(1) in \<open>auto simp: netana_get_portstat_def\<close>)

definition answering :: "nat \<Rightarrow> sys" where
  "answering b = sample\<lparr>env := [quiet 5, ack (msk b) 9]\<rparr>"

lemma portstat_correct_witness:
  "\<exists>s' buf'. netana_get_portstat 1 4 [9, 9, 9, 9, 9, 9] (answering 4) = Some ((NETANA_NO_ERROR, buf'), s') \<and>
     buf' = [7, 0, 0, 0, 9, 9] \<and> answered NETANA_UPDATE_BIT (answering 4) s'"
proof -
  have "\<exists>s' buf'. netana_get_portstat 1 4 [9, 9, 9, 9, 9, 9] (answering 4) = Some ((NETANA_NO_ERROR, buf'), s') \<and>
      buf' = [7, 0, 0, 0, 9, 9]"
    by (simp add: netana_get_portstat_def send_command_def answering_def netana_tkit_WaitForBitState_def
        bit_in_state.simps hostbit_def netxbit_def netana_tkit_ToggleBit_def os_wait_def apply_tick_def
        set_host_cell_def counter_bytes_def le32_def blit_def sample_defs Let_def bit_xor_iff upt_rec)
  then show ?thesis
    using portstat_correct[of 1 4 "[9, 9, 9, 9, 9, 9]" "answering 4"] by fastforce
qed

text \<open>\<open>netana_access_phy_reg\<close> puts direction, PHY, register and, for a write, the value
  into the MDIO block before it toggles the command bit; it reports success only when the
  device has answered, and a read then returns the value the device left in the block. A
  PHY which does not exist is refused and nothing is sent.\<close>

theorem phy_access_correct:
  assumes "netana_access_phy_reg dir phy reg v to s = Some ((r, v'), s')"
  shows "(r = NETANA_NO_ERROR \<longrightarrow> answered NETANA_MDIO_BIT s s' \<and>
       (\<exists>s1 s2. netana_tkit_WaitForBitState NETANA_MDIO_BIT NETANA_BITSTATE_EQUAL to s = Some (True, s1) \<and>
          tMdioBlock (dpm s2) = \<lparr>md_ulDirection = dir, md_ulPhyNum = ucast phy, md_ulPhyReg = ucast reg,
             md_ulValue = (if dir = NETANA_PHY_DIRECTION_WRITE then ucast v else md_ulValue (tMdioBlock (dpm s1)))\<rparr> \<and>
          hostbit s2 NETANA_MDIO_BIT \<noteq> hostbit s NETANA_MDIO_BIT \<and>
          netana_tkit_WaitForBitState NETANA_MDIO_BIT NETANA_BITSTATE_EQUAL to s2 = Some (True, s')) \<and>
       v' = (if dir = NETANA_PHY_DIRECTION_READ then ucast (md_ulValue (tMdioBlock (dpm s'))) else v)) \<and>
    (r \<noteq> NETANA_NO_ERROR \<longrightarrow> v' = v) \<and>
    (r = NETANA_INVALID_PARAMETER \<longleftrightarrow> ulPortCnt (dev s) \<le> ucast phy) \<and>
    (r = NETANA_INVALID_PARAMETER \<longrightarrow> s' = s)"
proof (cases "ucast phy < ulPortCnt (dev s)")
  case True
  let ?prep = "\<lambda>s. upd_mdio (\<lambda>m. m\<lparr>md_ulDirection := dir, md_ulPhyNum := ucast phy, md_ulPhyReg := ucast reg,
      md_ulValue := (if dir = NETANA_PHY_DIRECTION_WRITE then ucast v else md_ulValue m)\<rparr>) s"
  from True assms obtain ok where ok: "send_command NETANA_MDIO_BIT to ?prep s = Some (ok, s')"
      and res: "(r, v') = (if ok then (NETANA_NO_ERROR, if dir = NETANA_PHY_DIRECTION_READ
          then ucast (md_ulValue (tMdioBlock (dpm s'))) else v) else (NETANA_FUNCTION_FAILED, v))"
    unfolding netana_access_phy_reg_def by (auto simp: bind_eq_Some_conv)
  show ?thesis
  proof (cases ok)
    case ok_true: True
    have po: "dpm_only ?prep"
      using dpm_only_upd(2) by simp
    have ans: "answered NETANA_MDIO_BIT s s'"
      using ok ok_true po by (intro send_command_answered) auto
    have sent: "send_command NETANA_MDIO_BIT to ?prep s = Some (True, s')"
      using ok ok_true by simp
    obtain s2 where s2: "issued NETANA_MDIO_BIT to ?prep s s2"
        "netana_tkit_WaitForBitState NETANA_MDIO_BIT NETANA_BITSTATE_EQUAL to s2 = Some (True, s')"
      using send_command_sent[OF sent] by blast
    from s2(1) obtain s1 where s1: "netana_tkit_WaitForBitState NETANA_MDIO_BIT NETANA_BITSTATE_EQUAL to s = Some (True, s1)"
        "s2 = netana_tkit_ToggleBit NETANA_MDIO_BIT (?prep s1)"
      by (auto simp: issued_def)
    have "hostbit s2 NETANA_MDIO_BIT \<noteq> hostbit s NETANA_MDIO_BIT"
      using hsk.wait_host[OF s1(1), of 3] dpm_only_hostbit[OF po, of s1 3] by (simp add: s1(2) hostbit_Toggle)
    moreover have "tMdioBlock (dpm s2) = \<lparr>md_ulDirection = dir, md_ulPhyNum = ucast phy, md_ulPhyReg = ucast reg,
        md_ulValue = (if dir = NETANA_PHY_DIRECTION_WRITE then ucast v else md_ulValue (tMdioBlock (dpm s1)))\<rparr>"
      by (cases "tMdioBlock (dpm s1)") (simp add: s1(2) upd_mdio_def)
    ultimately show ?thesis
      using res ok_true ans s1(1) s2(2) True by auto
  qed (use res True in auto)
qed (use assms in \<open>auto simp: netana_access_phy_reg_def\<close>)

lemma phy_access_correct_witness:
  "\<exists>s' v'. netana_access_phy_reg 1 1 2 77 1000 (answering 3) = Some ((NETANA_NO_ERROR, v'), s') \<and>
     answered NETANA_MDIO_BIT (answering 3) s'"
proof -
  have "\<exists>s' v'. netana_access_phy_reg 1 1 2 77 1000 (answering 3) = Some ((NETANA_NO_ERROR, v'), s')"
    by (simp add: netana_access_phy_reg_def send_command_def answering_def netana_tkit_WaitForBitState_def
        hostbit_def netxbit_def netana_tkit_ToggleBit_def os_wait_def apply_tick_def upd_mdio_def
        set_host_cell_def sample_defs Let_def bit_xor_iff)
  then show ?thesis
    using phy_access_correct by blast
qed

text \<open>\<open>netana_check_device_ident\<close> accepts at most \<open>IDENT_INFO_BLOCK_SIZE\<close> bytes, exchanges
  exactly these with the identification block, never changes a byte of the caller beyond
  them, and reports success only when the device has answered the licence command.\<close>

theorem check_ident_correct:
  assumes "netana_check_device_ident n (Some info) s = Some ((r, out), s')" "unat n \<le> length info"
  shows "(r = NETANA_NO_ERROR \<longrightarrow> unat n \<le> 30 \<and> answered NETANA_LICENSE_CHECK_BIT s s' \<and>
       (\<exists>rest. out = Some (take (unat n) (pbIdentInfoBlock (dpm s')) @ rest) \<and>
          (unat n \<le> length (pbIdentInfoBlock (dpm s')) \<longrightarrow> rest = drop (unat n) info))) \<and>
    (r \<noteq> NETANA_NO_ERROR \<longrightarrow> r = NETANA_FUNCTION_FAILED \<and> out = Some info)"
proof (cases "n > IDENT_INFO_BLOCK_SIZE")
  case False
  then have n: "unat n \<le> 30"
    by (simp add: word_less_nat_alt not_less)
  let ?prep = "\<lambda>s. s\<lparr>dpm := (dpm s)\<lparr>pbIdentInfoBlock := blit 0 (take (unat n) info) (pbIdentInfoBlock (dpm s))\<rparr>\<rparr>"
  from False assms(1) obtain ok where ok: "send_command NETANA_LICENSE_CHECK_BIT NETANA_DEFAULT_TIMEOUT ?prep s = Some (ok, s')"
      and res: "(r, out) = (if ok then (NETANA_NO_ERROR, Some (blit 0 (take (unat n) (pbIdentInfoBlock (dpm s'))) info))
         else (NETANA_FUNCTION_FAILED, Some info))"
    unfolding netana_check_device_ident_def by (auto simp: bind_eq_Some_conv)
  show ?thesis
  proof (cases ok)
    case True
    have "answered NETANA_LICENSE_CHECK_BIT s s'"
      using ok True by (intro send_command_answered) auto
    then show ?thesis
      using res True n by (simp add: blit_def)
  qed (use res in auto)
qed (use assms(1) in \<open>auto simp: netana_check_device_ident_def\<close>)

lemma check_ident_correct_witness:
  "\<exists>s' out. netana_check_device_ident 2 (Some [5, 6, 7]) (answering 8) = Some ((NETANA_NO_ERROR, out), s') \<and>
     answered NETANA_LICENSE_CHECK_BIT (answering 8) s'"
proof -
  have "\<exists>s' out. netana_check_device_ident 2 (Some [5, 6, 7]) (answering 8) = Some ((NETANA_NO_ERROR, out), s')"
    by (simp add: netana_check_device_ident_def send_command_def answering_def netana_tkit_WaitForBitState_def
        hostbit_def netxbit_def netana_tkit_ToggleBit_def os_wait_def apply_tick_def
        set_host_cell_def sample_defs Let_def bit_xor_iff)
  then show ?thesis
    using check_ident_correct[of 2 "[5, 6, 7]" "answering 8"] by fastforce
qed

end
