(* ===== verification/Capture_Runs.thy ===== *)
theory Capture_Runs
  imports Api_Command
begin

text \<open>
  Waiting beside the DSR thread. While \<open>netana_start_capture\<close> or \<open>netana_stop_capture\<close> wait for the
  device, the DSR thread of the driver (\<open>netana_dsrhandler\<close> in \<open>netana.c\<close>) goes on processing what the netX
  delivers: a tick with \<open>tk_dsr\<close> runs \<open>netana_tkit_process\<close> within the wait. \<open>engine_frame\<close> is what the engine cannot touch,
  \<open>took\<close> what it does to the capture files and to the user, however often it runs.
\<close>

section \<open>What the engine cannot touch\<close>

definition fixed_files :: "filelist \<Rightarrow> filelist" where
  "fixed_files fl = fl\<lparr>tFileHeader := (tFileHeader fl)\<lparr>fh_ulIdx := 0, fh_ullDataSize := 0\<rparr>, fWriteToFile := False, ulCurrentFile := 0,
     atFiles := map (\<lambda>f. f\<lparr>fd_ullOffset := 0, fd_ullDataWritten := 0\<rparr>) (atFiles fl)\<rparr>"

definition fixed_dev :: "devinst \<Rightarrow> devinst" where
  "fixed_dev d = d\<lparr>ulNetxFlags := 0, ulHostFlags := 0, ulCurrentBuffer := 0, flst := fixed_files (flst d)\<rparr>"

text \<open>The bits of the host the engine toggles.\<close>

definition engine_bits :: "nat set" where
  "engine_bits = {NETANA_NEWDATA_BIT, NETANA_NEWSTATUS_BIT, NETANA_DRV_ERROR_BIT}"

definition engine_frame :: "sys \<Rightarrow> sys \<Rightarrow> bool" where
  "engine_frame s s' \<longleftrightarrow> fixed_dev (dev s') = fixed_dev (dev s) \<and> (\<exists>n. env s' = drop n (env s)) \<and>
     (\<forall>b. b \<notin> engine_bits \<longrightarrow> hostbit s' b = hostbit s b) \<and> (\<exists>xs. dataLog s' = xs @ dataLog s)"

lemma engine_frame_refl [simp]: "engine_frame s s"
  by (auto simp: engine_frame_def intro: exI[of _ 0] exI[of _ "[]"])

lemma engine_frame_trans [trans]: "engine_frame a b \<Longrightarrow> engine_frame b c \<Longrightarrow> engine_frame a c"
  by (auto simp: engine_frame_def)

lemma fixed_upd_file:
  assumes "\<And>f. fd_hFile (g f) = fd_hFile f"
  shows "fixed_files (upd_file i g fl) = fixed_files fl"
proof -
  let ?F = "\<lambda>f. f\<lparr>fd_ullOffset := 0, fd_ullDataWritten := 0\<rparr>"
  have "?F (g f) = ?F f" for f
    using assms[of f] by (cases f; cases "g f") simp
  then have "map ?F ((atFiles fl)[i := g (atFiles fl ! i)]) = map ?F (atFiles fl)"
    using list_update_id[of "map ?F (atFiles fl)" i]
    by (cases "i < length (atFiles fl)") (simp_all add: map_update list_update_beyond)
  then show ?thesis
    by (simp add: fixed_files_def upd_file_def)
qed

lemma fixed_files_simps [simp]:
  "fixed_files (fl\<lparr>ulCurrentFile := c\<rparr>) = fixed_files fl" "fixed_files (fl\<lparr>fWriteToFile := w\<rparr>) = fixed_files fl"
  "h\<lparr>fh_ulIdx := 0, fh_ullDataSize := 0\<rparr> = (tFileHeader fl)\<lparr>fh_ulIdx := 0, fh_ullDataSize := 0\<rparr> \<Longrightarrow>
     fixed_files (fl\<lparr>tFileHeader := h\<rparr>) = fixed_files fl"
  by (simp_all add: fixed_files_def)

lemma fixed_header [simp]: "fixed_files (fst (snd (netana_tkit_writefileheader ops sz x))) = fixed_files (fst x)"
  by (cases x) (simp add: netana_tkit_writefileheader_def Let_def fixed_upd_file split: prod.split)

lemma fixed_write [simp]: "fixed_files (fst (write_buffer ops sz d x)) = fixed_files (fst x)"
  by (cases x) (simp add: write_buffer_def Let_def fixed_upd_file split: prod.split)

lemma fixed_store [simp]: "fixed_files (fst (snd (store_buffer ops sz d x))) = fixed_files (fst x)"
proof -
  obtain fl fs where fin: "snd (netana_tkit_writefileheader ops (cur_offset x - FILE_HEADER_SIZE) x) = (fl, fs)"
    by (metis surj_pair)
  have "fixed_files fl = fixed_files (fst x)"
    using fixed_header[of ops "cur_offset x - FILE_HEADER_SIZE" x] by (simp add: fin)
  moreover have "fixed_files (fl\<lparr>tFileHeader := (tFileHeader fl)\<lparr>fh_ulIdx := i\<rparr>, ulCurrentFile := c\<rparr>) = fixed_files fl"
    "fixed_files (fl\<lparr>tFileHeader := (tFileHeader fl)\<lparr>fh_ulIdx := i\<rparr>, ulCurrentFile := c, fWriteToFile := w\<rparr>) = fixed_files fl" for i c w
    by (simp_all add: fixed_files_def)
  ultimately show ?thesis
    by (simp add: store_buffer_def fin Let_def)
qed

lemma fixed_dev_set_files: "fixed_files (fst x) = fixed_files (flst d) \<Longrightarrow> fixed_dev (d\<lparr>flst := fst x\<rparr>) = fixed_dev d"
  by (simp add: fixed_dev_def)

lemma frame_set_files: "fixed_files (fst x) = fixed_files (flst (dev s)) \<Longrightarrow> engine_frame s (set_files x s)"
  by (auto simp: engine_frame_def fixed_dev_set_files hostbit_def intro: exI[of _ 0] exI[of _ "[]"])

lemma frame_callback: "engine_frame s (data_callback b u s)"
  by (auto simp: engine_frame_def data_callback_def hostbit_def split: option.split intro: exI[of _ 0] exI[of _ "[]"])

lemma frame_free: "engine_frame s (free_buffer b s)"
  by (auto simp: engine_frame_def hostbit_def fixed_dev_def intro: exI[of _ 0] exI[of _ "[]"])

lemma frame_toggle: "b \<in> engine_bits \<Longrightarrow> engine_frame s (netana_tkit_ToggleBit b s)"
  by (auto simp: engine_frame_def hostbit_def bit_xor_msk dev_Toggle fixed_dev_def intro: exI[of _ 0] exI[of _ "[]"])

lemma Wait_env: "netana_tkit_WaitForBitState b st to s = Some (r, s') \<Longrightarrow> \<exists>n. env s' = drop n (env s)"
  by (auto simp: netana_tkit_WaitForBitState_def split: if_splits dest!: wait_loop_env intro: exI[of _ 0])

lemma frame_signal:
  assumes "netana_signal_driver_error e s = Some (r, s')"
  shows "engine_frame s s'"
proof -
  obtain ok s1 where w: "netana_tkit_WaitForBitState NETANA_DRV_ERROR_BIT NETANA_BITSTATE_EQUAL NETANA_DEFAULT_TIMEOUT s = Some (ok, s1)"
    and s': "s' = s1 \<or> s' = netana_tkit_ToggleBit NETANA_DRV_ERROR_BIT (upd_hostctrl (\<lambda>h. h\<lparr>hc_ulHostError := e\<rparr>) s1)"
    using assms by (auto simp: netana_signal_driver_error_def bind_eq_Some_conv split: if_splits)
  have fr: "wait_frame s s1"
    by (rule Wait_frame[OF w])
  then have "dev s1 = (dev s)\<lparr>ulNetxFlags := ulNetxFlags (dev s1)\<rparr>"
    by (intro host_viewD) (simp add: wait_frame_def)
  then have "fixed_dev (dev s1) = fixed_dev (dev s)"
    by (cases "dev s"; cases "dev s1") (simp add: fixed_dev_def)
  then have "engine_frame s s1"
    using fr Wait_env[OF w] Wait_hostflags[OF w] by (auto simp: engine_frame_def wait_frame_def hostbit_def)
  also have "engine_frame s1 (upd_hostctrl (\<lambda>h. h\<lparr>hc_ulHostError := e\<rparr>) s1)"
    by (auto simp: engine_frame_def upd_hostctrl_def hostbit_def intro: exI[of _ 0] exI[of _ "[]"])
  finally show ?thesis
    using s' \<open>engine_frame s s1\<close> frame_toggle[of NETANA_DRV_ERROR_BIT] by (auto simp: engine_bits_def intro: engine_frame_trans)
qed

text \<open>The file branch of \<open>netana_tkit_process\<close> does to the files what \<open>store_buffer\<close> does, also when the last one is full.\<close>

lemma file_branch_files:
  assumes "file_branch ops used b s = Some s'"
  shows "files_of s' = snd (store_buffer ops used (buffer_data b used s) (files_of s))"
proof -
  let ?x = "files_of s"
  obtain fl fs where fin: "snd (netana_tkit_writefileheader ops (cur_offset ?x - FILE_HEADER_SIZE) ?x) = (fl, fs)"
    by (metis surj_pair)
  have sig: "files_of s1 = files_of s0" if "netana_signal_driver_error e s0 = Some (r, s1)" for e r s0 s1
    using signal_frame(1)[OF that] signal_dev(2)[OF that] by (simp add: files_of_def)
  show ?thesis
    using assms by (auto simp: file_branch_def store_buffer_def fin Let_def bind_eq_Some_conv split: if_splits dest!: sig)
qed

lemma file_branch_cases:
  assumes "file_branch ops used b s = Some s'"
  obtains (plain) "fst (store_buffer ops used (buffer_data b used s) (files_of s)) = NETANA_NO_ERROR"
      "s' = set_files (snd (store_buffer ops used (buffer_data b used s) (files_of s))) s"
    | (full) fl1 fs e r s1 where "fst (store_buffer ops used (buffer_data b used s) (files_of s)) \<noteq> NETANA_NO_ERROR"
      "fixed_files fl1 = fixed_files (flst (dev s))" "netana_signal_driver_error e (set_files (fl1, fs) s) = Some (r, s1)"
      "s' = set_files ((fst (files_of s1))\<lparr>fWriteToFile := False,
                     ulCurrentFile := ulCurrentFile (fst (files_of s1)) - 1\<rparr>, snd (files_of s1)) s1"
proof (cases "fst (store_buffer ops used (buffer_data b used s) (files_of s)) = NETANA_NO_ERROR")
  case True
  then show ?thesis
    using file_branch_store[OF True] assms plain by simp
next
  case False
  let ?x = "files_of s"
  obtain fl fs where fin: "snd (netana_tkit_writefileheader ops (cur_offset ?x - FILE_HEADER_SIZE) ?x) = (fl, fs)"
    by (metis surj_pair)
  have "fixed_files fl = fixed_files (flst (dev s))"
    using fixed_header[of ops "cur_offset ?x - FILE_HEADER_SIZE" ?x] by (simp add: fin) (simp add: files_of_def)
  then have fl: "fixed_files (fl\<lparr>tFileHeader := (tFileHeader fl)\<lparr>fh_ulIdx := i\<rparr>, ulCurrentFile := c\<rparr>) = fixed_files (flst (dev s))" for i c
    by simp
  define fl1 where "fl1 = fl\<lparr>tFileHeader := (tFileHeader fl)\<lparr>fh_ulIdx := fh_ulIdx (tFileHeader fl) + 1\<rparr>,
                     ulCurrentFile := ulCurrentFile fl + 1\<rparr>"
  have "cur_offset ?x + ucast used > ullFileSize (fst ?x)" "ulCurrentFile fl1 \<ge> ulFileCount fl1" "\<not> fRingBuffer fl1"
    using False by (auto simp: store_buffer_def fin fl1_def Let_def split: if_splits)
  then show ?thesis
    using assms full[OF False fl[where i = "fh_ulIdx (tFileHeader fl) + 1" and c = "ulCurrentFile fl + 1", folded fl1_def]]
    unfolding file_branch_def fin Let_def prod.case fl1_def[symmetric]
    by (auto simp: bind_eq_Some_conv)
qed

lemma frame_file_branch:
  assumes "file_branch ops used b s = Some s'"
  shows "engine_frame s s'"
  using assms
proof (cases rule: file_branch_cases)
  case plain
  then show ?thesis
    using frame_set_files[of "snd (store_buffer ops used (buffer_data b used s) (files_of s))" s] by (simp add: files_of_def)
next
  case (full fl1 fs e r s1)
  have "engine_frame s (set_files (fl1, fs) s)"
    using full(2) by (intro frame_set_files) simp
  also note frame_signal[OF full(3)]
  also have "engine_frame s1 s'"
    unfolding full(4) by (intro frame_set_files) (simp add: files_of_def)
  finally show ?thesis .
qed

lemma frame_abort: "engine_frame s (abort_file ops s)"
  unfolding abort_file_def Let_def by (auto intro!: frame_set_files simp: files_of_def)

lemma frame_process_buffer:
  assumes "process_buffer ops s = Some s'"
  shows "engine_frame s s'"
proof -
  let ?b = "unat (ulCurrentBuffer (dev s))"
  obtain s1 where s1: "s' = free_buffer ?b s1"
    "reject_buffer ops s = Some s1 \<or> accept_buffer ops (ns_aulUsedBufferSize (tNetxStatusBlock (dpm s)) ! ?b) ?b s = Some s1"
    using assms by (auto simp: process_buffer_def Let_def bind_eq_Some_conv split: if_splits)
  from s1(2) have "engine_frame s s1"
    by (auto simp: reject_buffer_def accept_buffer_def bind_eq_Some_conv split: if_splits
        intro: frame_callback engine_frame_trans[OF frame_signal frame_abort] engine_frame_trans[OF frame_file_branch frame_callback])
  then show ?thesis
    using engine_frame_trans[OF _ frame_free] by (simp add: s1(1))
qed

lemma frame_process_loop: "process_loop ops used s = Some s' \<Longrightarrow> engine_frame s s'"
proof (induction ops used s rule: process_loop.induct)
  case (1 ops used s)
  then show ?case
    by (subst (asm) (2) process_loop.simps)
       (auto simp: Let_def split: if_splits option.splits intro: engine_frame_trans[OF frame_process_buffer])
qed

lemma frame_status: "engine_frame s (process_status s)"
proof -
  define s1 where "s1 = (case pfnStatus (dev s) of None \<Rightarrow> s
                | Some cb \<Rightarrow> s\<lparr>statusLog := (cb, ns_ulCaptureState (tNetxStatusBlock (dpm s)), ns_ulCaptureError (tNetxStatusBlock (dpm s)), pvUser (dev s)) # statusLog s\<rparr>)"
  have "engine_frame s s1"
    by (auto simp: s1_def engine_frame_def hostbit_def split: option.split intro: exI[of _ 0] exI[of _ "[]"])
  also have "engine_frame s1 (netana_tkit_ToggleBit NETANA_NEWSTATUS_BIT s1)"
    by (rule frame_toggle) (simp add: engine_bits_def)
  also have "engine_frame (netana_tkit_ToggleBit NETANA_NEWSTATUS_BIT s1) (process_status s)"
    by (auto simp: process_status_def Let_def engine_frame_def hostbit_def simp flip: s1_def intro: exI[of _ 0] exI[of _ "[]"])
  finally show ?thesis .
qed

lemma process_parts:
  assumes "netana_tkit_process ops s = Some s'"
  obtains s1 where "s1 = s \<or> (\<exists>used. process_loop ops used (netana_tkit_ToggleBit NETANA_NEWDATA_BIT s) = Some s1)"
    "s' = s1 \<or> s' = process_status s1"
  using assms by (auto simp: netana_tkit_process_def Let_def bind_eq_Some_conv split: if_splits)

lemma frame_process:
  assumes "netana_tkit_process ops s = Some s'"
  shows "engine_frame s s'"
proof -
  from assms obtain s1 where "s1 = s \<or> (\<exists>used. process_loop ops used (netana_tkit_ToggleBit NETANA_NEWDATA_BIT s) = Some s1)"
    and s': "s' = s1 \<or> s' = process_status s1"
    by (rule process_parts)
  moreover have "engine_frame s (netana_tkit_ToggleBit NETANA_NEWDATA_BIT s)"
    by (rule frame_toggle) (simp add: engine_bits_def)
  ultimately have "engine_frame s s1"
    using engine_frame_trans[OF _ frame_process_loop] by auto
  then show ?thesis
    using s' engine_frame_trans[OF _ frame_status] by blast
qed

section \<open>Waiting beside the DSR thread\<close>

definition dsr_thread :: "file_ops \<Rightarrow> tick \<Rightarrow> sys \<Rightarrow> sys option" where
  "dsr_thread ops t s = (if tk_dsr t then netana_tkit_process ops s else Some s)"

lemma frame_tick: "env s = t # ts \<Longrightarrow> engine_frame s (apply_tick t (s\<lparr>env := ts\<rparr>))"
  by (auto simp: engine_frame_def apply_tick_def hostbit_def fixed_dev_def split: option.split
      intro: exI[of _ 1] exI[of _ "[]"])

lemma frame_dsr: "dsr_thread ops t s = Some s' \<Longrightarrow> engine_frame s s'"
  by (auto simp: dsr_thread_def split: if_splits intro: frame_process)

lemma frame_os_wait: "env s = t # ts \<Longrightarrow> engine_frame s (os_wait b it t ts s)"
  by (auto simp: engine_frame_def os_wait_def apply_tick_def hostbit_def fixed_dev_def split: option.split
      intro: exI[of _ 1] exI[of _ "[]"])

lemma engine_frame_env: "engine_frame s s' \<Longrightarrow> length (env s') \<le> length (env s)"
  by (auto simp: engine_frame_def)

text \<open>
  The loop of \<open>netana_tkit_WaitForBitState\<close> again, with the DSR thread running in each wait; waits of the DSR thread itself
  use up ticks, too.
\<close>

function beside_loop :: "file_ops \<Rightarrow> nat \<Rightarrow> bitstate \<Rightarrow> u32 \<Rightarrow> u32 \<Rightarrow> u32 \<Rightarrow> sys \<Rightarrow> (bool \<times> sys) option" where
  "beside_loop ops ulBit bState ulTimeout lStartTime ulInternalTimeout s =
     (case env s of [] \<Rightarrow> None
      | t # ts \<Rightarrow>
          (case dsr_thread ops t (os_wait ulBit ulInternalTimeout t ts s) of None \<Rightarrow> None
           | Some s1 \<Rightarrow>
               let ulDiffTime = now s1 - lStartTime
               in if GetHskBitState (dev s1) (msk ulBit) bState = bState then Some (True, s1)
                  else if ulDiffTime > ulTimeout then Some (False, s1)
                  else beside_loop ops ulBit bState ulTimeout lStartTime (ulTimeout - ulDiffTime) s1))"
  by pat_completeness auto

termination
proof (relation "measure (\<lambda>(ops, b, st, to, t0, it, s). length (env s))", goal_cases)
  case (2 ops b st to t0 it s t ts s1)
  then show ?case
    using engine_frame_env[OF frame_dsr[OF 2(2)]] by simp
qed simp

declare beside_loop.simps [simp del]

definition wait_beside :: "file_ops \<Rightarrow> nat \<Rightarrow> bitstate \<Rightarrow> u32 \<Rightarrow> (sys, bool) proc" where
  "wait_beside ops ulBit bState ulTimeout s =
     (if GetHskBitState (dev s) (msk ulBit) bState = bState then Some (True, s)
      else if ulTimeout = 0 then Some (False, s)
      else beside_loop ops ulBit bState ulTimeout (now s) ulTimeout s)"

text \<open>Without work for the DSR thread this is \<open>netana_tkit_WaitForBitState\<close>.\<close>

lemma beside_loop_alone:
  "\<forall>t \<in> set (env s). \<not> tk_dsr t \<Longrightarrow> beside_loop ops b st to t0 it s = wait_loop b st to t0 it (env s) s"
proof (induction "env s" arbitrary: s it)
  case Nil
  then show ?case
    by (simp add: beside_loop.simps)
next
  case (Cons t ts)
  then show ?case
    by (subst beside_loop.simps) (simp add: dsr_thread_def Let_def flip: Cons.hyps(2))
qed

lemma wait_beside_alone:
  "\<forall>t \<in> set (env s). \<not> tk_dsr t \<Longrightarrow> wait_beside ops b st to s = netana_tkit_WaitForBitState b st to s"
  by (simp add: wait_beside_def netana_tkit_WaitForBitState_def beside_loop_alone)

lemma beside_loop_result: "beside_loop ops b st to t0 it s = Some (r, s') \<Longrightarrow> r \<longleftrightarrow> bit_in_state s' b st"
proof (induction ops b st to t0 it s rule: beside_loop.induct)
  case (1 ops b st to t0 it s)
  from "1.prems" "1.IH" show ?case
    by (subst (asm) beside_loop.simps) (auto simp: Let_def split: list.splits option.splits if_splits)
qed

lemma wait_beside_result: "wait_beside ops b st to s = Some (r, s') \<Longrightarrow> r \<longleftrightarrow> bit_in_state s' b st"
  by (auto simp: wait_beside_def split: if_splits dest: beside_loop_result)

text \<open>Whatever each tick and each run of the DSR thread keep, the wait keeps.\<close>

lemma beside_loop_keeps:
  assumes "beside_loop ops b st to t0 it s = Some (r, s')" "P s"
    and "\<And>it s t ts s1. P s \<Longrightarrow> env s = t # ts \<Longrightarrow> dsr_thread ops t (os_wait b it t ts s) = Some s1 \<Longrightarrow> P s1"
  shows "P s'"
  using assms(1,2)
proof (induction "length (env s)" arbitrary: s it rule: less_induct)
  case less
  from less.prems(1) obtain t ts s1 where s1: "env s = t # ts" "dsr_thread ops t (os_wait b it t ts s) = Some s1"
      and rest: "s' = s1 \<or> (\<exists>it'. beside_loop ops b st to t0 it' s1 = Some (r, s'))"
    by (subst (asm) beside_loop.simps) (auto simp: Let_def split: list.splits option.splits if_splits)
  have "length (env s1) < length (env s)"
    using engine_frame_env[OF frame_dsr[OF s1(2)]] s1(1) by simp
  then show ?case
    using rest less.hyps assms(3)[OF less.prems(2) s1] by blast
qed

lemma wait_beside_keeps:
  assumes "wait_beside ops b st to s = Some (r, s')" "P s"
    and "\<And>it s t ts s1. P s \<Longrightarrow> env s = t # ts \<Longrightarrow> dsr_thread ops t (os_wait b it t ts s) = Some s1 \<Longrightarrow> P s1"
  shows "P s'"
  using assms(1,2) beside_loop_keeps[of ops b st to "now s" to s r s' P] assms(3)
  by (auto simp: wait_beside_def split: if_splits)

lemma frame_wait_beside: "wait_beside ops b st to s = Some (r, s') \<Longrightarrow> engine_frame s s'"
  by (erule wait_beside_keeps[where P = "engine_frame s"])
     (simp, blast intro: engine_frame_trans[OF _ engine_frame_trans[OF frame_os_wait frame_dsr]])

section \<open>The data taken while waiting\<close>

text \<open>
  The firmware never announces more data than the DMA buffer has, nor does it write a block larger than a capture file; no tick
  of the trace breaks this.
\<close>

definition honest_dpm :: "nat \<Rightarrow> devinst \<Rightarrow> dpm \<Rightarrow> bool" where
  "honest_dpm cap d m \<longleftrightarrow> (\<forall>b < unat (ulDMABufferCount d).
     ns_aulUsedBufferSize (tNetxStatusBlock m) ! b \<le> db_ulBufferSize (atDMABuffers d ! b) \<and>
     unat (db_ulBufferSize (atDMABuffers d ! b)) \<le> length (dmaMem m ! b) \<and>
     32 + unat (db_ulBufferSize (atDMABuffers d ! b)) \<le> cap)"

definition honest_netx :: "nat \<Rightarrow> sys \<Rightarrow> bool" where
  "honest_netx cap s \<longleftrightarrow> honest_dpm cap (dev s) (dpm s) \<and>
     (\<forall>t \<in> set (env s). \<forall>m. honest_dpm cap (dev s) m \<longrightarrow> honest_dpm cap (dev s) (tk_dpm t m))"

lemma fixed_dev_fields:
  assumes "fixed_dev d = fixed_dev d'"
  shows "pfnStatus d = pfnStatus d'" "pfnData d = pfnData d'" "pvUser d = pvUser d'"
    "ulDMABufferCount d = ulDMABufferCount d'" "atDMABuffers d = atDMABuffers d'"
    "ulFileCount (flst d) = ulFileCount (flst d')" "length (atFiles (flst d)) = length (atFiles (flst d'))"
    "i < length (atFiles (flst d)) \<Longrightarrow> handle_of (flst d) i = handle_of (flst d') i"
proof -
  have d: "d\<lparr>ulNetxFlags := 0, ulHostFlags := 0, ulCurrentBuffer := 0, flst := fixed_files (flst d)\<rparr> =
      d'\<lparr>ulNetxFlags := 0, ulHostFlags := 0, ulCurrentBuffer := 0, flst := fixed_files (flst d')\<rparr>"
    using assms by (simp add: fixed_dev_def)
  note fields = arg_cong[OF d, of pfnStatus] arg_cong[OF d, of pfnData] arg_cong[OF d, of pvUser]
    arg_cong[OF d, of ulDMABufferCount] arg_cong[OF d, of atDMABuffers] arg_cong[OF d, of flst]
  show "pfnStatus d = pfnStatus d'" "pfnData d = pfnData d'" "pvUser d = pvUser d'"
    "ulDMABufferCount d = ulDMABufferCount d'" "atDMABuffers d = atDMABuffers d'"
    using fields by simp_all
  have fl: "fixed_files (flst d) = fixed_files (flst d')"
    using fields by simp
  have at: "map (\<lambda>f. f\<lparr>fd_ullOffset := 0, fd_ullDataWritten := 0\<rparr>) (atFiles (flst d)) =
      map (\<lambda>f. f\<lparr>fd_ullOffset := 0, fd_ullDataWritten := 0\<rparr>) (atFiles (flst d'))"
    using arg_cong[OF fl, of atFiles] by (simp add: fixed_files_def)
  show "ulFileCount (flst d) = ulFileCount (flst d')"
    using arg_cong[OF fl, of ulFileCount] by (simp add: fixed_files_def)
  show len: "length (atFiles (flst d)) = length (atFiles (flst d'))"
    using arg_cong[OF at, of length] by simp
  show "handle_of (flst d) i = handle_of (flst d') i" if "i < length (atFiles (flst d))"
    using arg_cong[OF at, of "\<lambda>xs. fd_hFile (xs ! i)"] that len by (simp add: handle_of_def)
qed

lemma honest_frame:
  assumes "honest_netx cap s" "engine_frame s s'"
    and "tNetxStatusBlock (dpm s') = tNetxStatusBlock (dpm s)" "dmaMem (dpm s') = dmaMem (dpm s)"
  shows "honest_netx cap s'"
proof -
  have d: "ulDMABufferCount (dev s') = ulDMABufferCount (dev s)" "atDMABuffers (dev s') = atDMABuffers (dev s)"
    using assms(2) by (auto simp: engine_frame_def dest: fixed_dev_fields)
  then have "honest_dpm cap (dev s') = honest_dpm cap (dev s)"
    by (simp add: honest_dpm_def fun_eq_iff)
  moreover have "honest_dpm cap (dev s) (dpm s') = honest_dpm cap (dev s) (dpm s)"
    by (simp add: honest_dpm_def assms(3,4))
  moreover have "set (env s') \<subseteq> set (env s)"
    using assms(2) by (auto simp: engine_frame_def dest: in_set_dropD)
  ultimately show ?thesis
    using assms(1) by (auto simp: honest_netx_def)
qed

lemma honest_tick:
  assumes "honest_netx cap s" "env s = t # ts"
  shows "honest_netx cap (os_wait b it t ts s)" "honest_netx cap (apply_tick t (s\<lparr>env := ts\<rparr>))"
proof -
  have "honest_dpm cap ((dev s)\<lparr>ulNetxFlags := f\<rparr>) = honest_dpm cap (dev s)" for f
    by (simp add: honest_dpm_def fun_eq_iff)
  then show "honest_netx cap (apply_tick t (s\<lparr>env := ts\<rparr>))" "honest_netx cap (os_wait b it t ts s)"
    using assms by (auto simp: honest_netx_def os_wait_def apply_tick_def split: option.split)
qed

lemma honest_wait_loop:
  "wait_loop b st to t0 it ts s = Some (r, s') \<Longrightarrow> env s = ts \<Longrightarrow> honest_netx cap s \<Longrightarrow> honest_netx cap s'"
proof (induction ts arbitrary: it s)
  case (Cons t ts)
  then show ?case
    using honest_tick(1)[OF Cons.prems(3,2)] Cons.IH[of _ "os_wait b it t ts s"] by (auto simp: Let_def split: if_splits)
qed simp

lemma honest_signal:
  assumes "netana_signal_driver_error e s = Some (r, s')" "honest_netx cap s"
  shows "honest_netx cap s'"
proof -
  obtain ok s1 where w: "netana_tkit_WaitForBitState NETANA_DRV_ERROR_BIT NETANA_BITSTATE_EQUAL NETANA_DEFAULT_TIMEOUT s = Some (ok, s1)"
    and s': "s' = s1 \<or> s' = netana_tkit_ToggleBit NETANA_DRV_ERROR_BIT (upd_hostctrl (\<lambda>h. h\<lparr>hc_ulHostError := e\<rparr>) s1)"
    using assms(1) by (auto simp: netana_signal_driver_error_def bind_eq_Some_conv split: if_splits)
  have s1: "honest_netx cap s1"
    using w assms(2) by (auto simp: netana_tkit_WaitForBitState_def split: if_splits intro: honest_wait_loop)
  have "engine_frame s1 (netana_tkit_ToggleBit NETANA_DRV_ERROR_BIT (upd_hostctrl (\<lambda>h. h\<lparr>hc_ulHostError := e\<rparr>) s1))"
    by (rule engine_frame_trans[OF _ frame_toggle])
       (auto simp: engine_frame_def upd_hostctrl_def hostbit_def engine_bits_def intro: exI[of _ 0] exI[of _ "[]"])
  then show ?thesis
    using s' s1 honest_frame[OF s1] by (auto simp: upd_hostctrl_def)
qed

text \<open>The sink after storing \<open>ds\<close>, as long as it stores; the calls of the data callback which hand \<open>ds\<close> to the user.\<close>

definition stored :: "bytes list \<Rightarrow> sink \<Rightarrow> sink" where
  "stored ds k = fold (\<lambda>d k. if sk_active k then sink_put d k else k) ds k"

lemma stored_simps [simp]:
  "stored [] k = k"
  "stored (ds @ [d]) k = (if sk_active (stored ds k) then sink_put d (stored ds k) else stored ds k)"
  "sk_cap (stored ds k) = sk_cap k" "sk_count (stored ds k) = sk_count k" "sk_ring (stored ds k) = sk_ring k"
proof -
  show "stored [] k = k"
    "stored (ds @ [d]) k = (if sk_active (stored ds k) then sink_put d (stored ds k) else stored ds k)"
    by (simp_all add: stored_def)
  have "sk_cap (stored ds k) = sk_cap k \<and> sk_count (stored ds k) = sk_count k \<and> sk_ring (stored ds k) = sk_ring k"
    by (induction ds rule: rev_induct) (simp_all add: stored_def)
  then show "sk_cap (stored ds k) = sk_cap k" "sk_count (stored ds k) = sk_count k" "sk_ring (stored ds k) = sk_ring k"
    by simp_all
qed

lemma stored_append: "stored (ds @ es) k = stored es (stored ds k)"
  by (simp add: stored_def)

text \<open>In a list of files without ring buffer: the data so far and then a beginning of \<open>ds\<close>, all of it unless the files were full.\<close>

lemma stored_data:
  "\<not> sk_ring k \<Longrightarrow> \<exists>m \<le> length ds. sink_data (stored ds k) = sink_data k @ concat (take m ds) \<and>
     (sk_active (stored ds k) \<longrightarrow> m = length ds)"
proof (induction ds rule: rev_induct)
  case Nil
  then show ?case
    by simp
next
  case (snoc d ds)
  then obtain m where m: "m \<le> length ds" "sink_data (stored ds k) = sink_data k @ concat (take m ds)"
      "sk_active (stored ds k) \<longrightarrow> m = length ds"
    by blast
  show ?case
  proof (cases "sk_active (stored ds k) \<and> sk_active (sink_put d (stored ds k))")
    case True
    then show ?thesis
      using m sink_put_data[of "stored ds k" d] snoc.prems by (intro exI[of _ "Suc (length ds)"]) simp
  next
    case False
    then show ?thesis
      using m sink_put_data[of "stored ds k" d] snoc.prems by (intro exI[of _ m]) auto
  qed
qed

definition calls :: "devinst \<Rightarrow> bytes list \<Rightarrow> (nat \<times> bytes \<times> nat) list" where
  "calls d ds = (case pfnData d of None \<Rightarrow> [] | Some cb \<Rightarrow> rev (map (\<lambda>bs. (cb, bs, pvUser d)) ds))"

definition took :: "sys \<Rightarrow> sink \<Rightarrow> bytes list \<Rightarrow> sys \<Rightarrow> bool" where
  "took s0 k0 ds s \<longleftrightarrow> engine_frame s0 s \<and> honest_netx (sk_cap k0) s \<and> capture_inv s \<and>
     files_rel (files_of s) (stored ds k0) \<and> dataLog s = calls (dev s0) ds @ dataLog s0"

lemma took_start:
  "files_rel (files_of s) k \<Longrightarrow> honest_netx (sk_cap k) s \<Longrightarrow> capture_inv s \<Longrightarrow> took s k [] s"
  by (simp add: took_def calls_def split: option.split)

lemma took_keep:
  "took s0 k0 ds s \<Longrightarrow> engine_frame s s' \<Longrightarrow> files_of s' = files_of s \<Longrightarrow> dataLog s' = dataLog s \<Longrightarrow>
     honest_netx (sk_cap k0) s' \<Longrightarrow> capture_inv s' \<Longrightarrow> took s0 k0 ds s'"
  by (auto simp: took_def intro: engine_frame_trans)

lemma sink_put_full:
  "sk_active k \<Longrightarrow> \<not> sk_active (sink_put d k) \<Longrightarrow> length d' = length d \<Longrightarrow> sink_put d' k = sink_put d k"
  by (auto simp: sink_put_def Let_def split: if_splits)

lemma honest_buffer:
  assumes "honest_netx cap s" "b < unat (ulDMABufferCount (dev s))"
    and "u \<le> db_ulBufferSize (atDMABuffers (dev s) ! b)"
  shows "length (buffer_data b u s) = unat u" "32 + unat u \<le> cap"
  using assms by (auto simp: honest_netx_def honest_dpm_def buffer_data_def word_le_nat_alt dest!: spec[of _ b])

lemma dsr_inv:
  assumes "dsr_thread ops t s = Some s'" "capture_inv s"
  shows "capture_inv s'"
proof -
  have "capture_inv s'" if p: "netana_tkit_process ops s = Some s'"
  proof -
    have st: "capture_inv (process_status s1) = capture_inv s1" "capture_inv (netana_tkit_ToggleBit b s1) = capture_inv s1" for b s1
      by (simp_all add: capture_inv_def dev_Toggle)
    from p obtain s1 where "s1 = s \<or> (\<exists>used. process_loop ops used (netana_tkit_ToggleBit NETANA_NEWDATA_BIT s) = Some s1)"
      "s' = s1 \<or> s' = process_status s1"
      by (rule process_parts)
    then show ?thesis
      using assms(2) process_loop_inv[of ops _ "netana_tkit_ToggleBit NETANA_NEWDATA_BIT s"] by (auto simp: st)
  qed
  then show ?thesis
    using assms by (auto simp: dsr_thread_def split: if_splits)
qed

lemma inv_tick:
  assumes "capture_inv s"
  shows "capture_inv (os_wait b it t ts s)" "capture_inv (apply_tick t (s\<lparr>env := ts\<rparr>))"
  using assms by (auto simp: capture_inv_def os_wait_def apply_tick_def split: option.split)

lemma took_tick:
  assumes "took s0 k0 ds s" "env s = t # ts"
  shows "took s0 k0 ds (os_wait b it t ts s)" "took s0 k0 ds (apply_tick t (s\<lparr>env := ts\<rparr>))"
proof -
  have h: "honest_netx (sk_cap k0) s" "capture_inv s"
    using assms(1) by (simp_all add: took_def)
  have fl: "flst (dev (os_wait b it t ts s)) = flst (dev s)" "flst (dev (apply_tick t (s\<lparr>env := ts\<rparr>))) = flst (dev s)"
    "fstore (apply_tick t (s\<lparr>env := ts\<rparr>)) = fstore s" "dataLog (apply_tick t (s\<lparr>env := ts\<rparr>)) = dataLog s"
    by (simp_all add: os_wait_def apply_tick_def split: option.split)
  show "took s0 k0 ds (os_wait b it t ts s)"
    by (rule took_keep[OF assms(1) frame_os_wait[OF assms(2)]])
       (simp_all add: files_of_def fl honest_tick(1)[OF h(1) assms(2)] inv_tick(1)[OF h(2)])
  show "took s0 k0 ds (apply_tick t (s\<lparr>env := ts\<rparr>))"
    by (rule took_keep[OF assms(1) frame_tick[OF assms(2)]])
       (simp_all add: files_of_def fl honest_tick(2)[OF h(1) assms(2)] inv_tick(2)[OF h(2)])
qed

context file_device
begin

lemma file_branch_takes:
  assumes "file_branch ops u b s = Some s'" "files_rel (files_of s) k" "sk_active k"
    and "honest_netx (sk_cap k) s" "b < unat (ulDMABufferCount (dev s))" "u \<le> db_ulBufferSize (atDMABuffers (dev s) ! b)"
  shows "files_rel (files_of s') (sink_put (buffer_data b u s') k)" "honest_netx (sk_cap k) s'"
proof -
  let ?d = "buffer_data b u s"
  note d = honest_buffer[OF assms(4-6)]
  have rel: "files_rel (files_of s') (sink_put ?d k)"
    using store_refines(1)[OF assms(2,3), of u ?d] d by (simp add: file_branch_files[OF assms(1)])
  have code: "fst (store_buffer ops u ?d (files_of s)) = NETANA_NO_ERROR \<longleftrightarrow> sk_active (sink_put ?d k)"
    using store_refines(2)[OF assms(2,3), of u ?d] d by simp
  have eq: "(sk_active (sink_put ?d k) \<longrightarrow> buffer_data b u s' = ?d) \<and> honest_netx (sk_cap k) s'"
    using assms(1)
  proof (cases rule: file_branch_cases)
    case plain
    then show ?thesis
      using honest_frame[OF assms(4) frame_file_branch[OF assms(1)]] by (simp add: buffer_data_def)
  next
    case (full fl1 fs e r s1)
    have "honest_netx (sk_cap k) (set_files (fl1, fs) s)"
      using assms(4) by (simp add: honest_netx_def honest_dpm_def)
    then have "honest_netx (sk_cap k) s1"
      by (rule honest_signal[OF full(3)])
    then show ?thesis
      using full(1) code by (simp add: full(4) honest_netx_def honest_dpm_def)
  qed
  then show h: "honest_netx (sk_cap k) s'"
    by blast
  have "fixed_dev (dev s') = fixed_dev (dev s)"
    using frame_file_branch[OF assms(1)] by (simp add: engine_frame_def)
  then have "length (buffer_data b u s') = unat u"
    using assms(5,6) fixed_dev_fields(4,5)[of "dev s'" "dev s"] by (intro honest_buffer[OF h]) simp_all
  then have "sink_put (buffer_data b u s') k = sink_put ?d k"
    using eq sink_put_full[OF assms(3), of ?d "buffer_data b u s'"] d(1) by auto
  then show "files_rel (files_of s') (sink_put (buffer_data b u s') k)"
    using rel by simp
qed

lemma process_buffer_takes:
  assumes "process_buffer ops s = Some s'" "took s0 k0 ds s"
  shows "\<exists>d. took s0 k0 (ds @ [d]) s'"
proof -
  let ?b = "unat (ulCurrentBuffer (dev s))" let ?k = "stored ds k0"
  let ?u = "ns_aulUsedBufferSize (tNetxStatusBlock (dpm s)) ! ?b"
  have h: "honest_netx (sk_cap ?k) s" and inv: "capture_inv s" and rel: "files_rel (files_of s) ?k"
    and fr: "engine_frame s0 s"
    using assms(2) by (simp_all add: took_def)
  have b: "?b < unat (ulDMABufferCount (dev s))"
    using inv by (simp add: capture_inv_def word_less_nat_alt)
  have u: "?u \<le> db_ulBufferSize (atDMABuffers (dev s) ! ?b)"
    using h b by (auto simp: honest_netx_def honest_dpm_def)
  then obtain s1 where s1: "(if fWriteToFile (flst (dev s)) then file_branch ops ?u ?b s else Some s) = Some s1"
    and s': "s' = free_buffer ?b (data_callback ?b ?u s1)"
    using assms(1) by (auto simp: process_buffer_def accept_buffer_def Let_def bind_eq_Some_conv not_less[symmetric] split: if_splits)
  let ?d = "buffer_data ?b ?u s1"
  have act: "fWriteToFile (flst (dev s)) = sk_active ?k"
    using rel by (simp add: files_rel_def files_of_def)
  have "files_rel (files_of s1) (stored (ds @ [?d]) k0) \<and> honest_netx (sk_cap k0) s1 \<and> engine_frame s s1 \<and> dataLog s1 = dataLog s"
  proof (cases "sk_active ?k")
    case True
    then have fb: "file_branch ops ?u ?b s = Some s1"
      using s1 act by simp
    show ?thesis
      using file_branch_takes[OF fb rel True h b u] True frame_file_branch[OF fb] file_branch_log[OF fb] by simp
  next
    case False
    then show ?thesis
      using s1 act rel h by simp
  qed
  then have s1': "files_rel (files_of s1) (stored (ds @ [?d]) k0)" "honest_netx (sk_cap k0) s1" "engine_frame s s1"
    "dataLog s1 = dataLog s"
    by blast+
  have fr1: "engine_frame s1 s'"
    unfolding s' by (rule engine_frame_trans[OF frame_callback frame_free])
  have "fixed_dev (dev s1) = fixed_dev (dev s0)"
    using engine_frame_trans[OF fr s1'(3)] by (simp add: engine_frame_def)
  then have "dataLog s' = calls (dev s0) (ds @ [?d]) @ dataLog s0"
    using assms(2) s1'(4) fixed_dev_fields(2,3)[of "dev s1" "dev s0"]
    by (simp add: s' dataLog_callback took_def calls_def split: option.split)
  moreover have "honest_netx (sk_cap k0) s'"
    by (rule honest_frame[OF s1'(2) fr1]) (simp_all add: s')
  moreover have "files_of s' = files_of s1"
    by (simp add: s')
  moreover have "engine_frame s0 s'"
    using fr s1'(3) fr1 by (blast intro: engine_frame_trans)
  moreover have "capture_inv s'"
    by (rule process_buffer_inv[OF assms(1) inv])
  ultimately show ?thesis
    using s1'(1) unfolding took_def by (intro exI[of _ ?d]) simp
qed

lemma process_loop_takes:
  "process_loop ops used s = Some s' \<Longrightarrow> took s0 k0 ds s \<Longrightarrow> \<exists>ds'. took s0 k0 ds' s'"
proof (induction "unat used" arbitrary: used s ds rule: less_induct)
  case less
  let ?m = "msk (unat (ulCurrentBuffer (dev s)))"
  show ?case
  proof (cases "used AND ?m \<noteq> 0")
    case True
    then obtain s1 where s1: "process_buffer ops s = Some s1" "process_loop ops (used AND NOT ?m) s1 = Some s'"
      using less.prems(1) by (subst (asm) process_loop.simps) (auto simp: Let_def split: option.splits)
    obtain d where "took s0 k0 (ds @ [d]) s1"
      using process_buffer_takes[OF s1(1) less.prems(2)] by blast
    moreover have "unat (used AND NOT ?m) < unat used"
      using clear_msk_less[of used "unat (ulCurrentBuffer (dev s))"] True by (simp add: word_less_nat_alt)
    ultimately show ?thesis
      using less.hyps s1(2) by blast
  next
    case False
    then show ?thesis
      using less.prems by (subst (asm) process_loop.simps) auto
  qed
qed

lemma process_takes:
  assumes "netana_tkit_process ops s = Some s'" "took s0 k0 ds s"
  shows "\<exists>ds'. took s0 k0 ds' s'"
proof -
  from assms(1) obtain s1 where s1: "s1 = s \<or> (\<exists>used. process_loop ops used (netana_tkit_ToggleBit NETANA_NEWDATA_BIT s) = Some s1)"
    and s': "s' = s1 \<or> s' = process_status s1"
    by (rule process_parts)
  have keep: "took s0 k0 es (netana_tkit_ToggleBit NETANA_NEWDATA_BIT t)" "took s0 k0 es (process_status t)"
    if t: "took s0 k0 es t" for es t
  proof -
    have h: "honest_netx (sk_cap k0) t" "capture_inv t"
      using t by (simp_all add: took_def)
    have f: "engine_frame t (netana_tkit_ToggleBit NETANA_NEWDATA_BIT t)"
      by (rule frame_toggle) (simp add: engine_bits_def)
    have d: "dmaMem (dpm (process_status t)) = dmaMem (dpm t)"
      by (simp add: process_status_def Let_def split: option.split)
    show "took s0 k0 es (netana_tkit_ToggleBit NETANA_NEWDATA_BIT t)"
      using h by (intro took_keep[OF t f] honest_frame[OF _ f]) (auto simp: capture_inv_def dev_Toggle)
    show "took s0 k0 es (process_status t)"
      using h d by (intro took_keep[OF t frame_status] honest_frame[OF _ frame_status]) (auto simp: capture_inv_def)
  qed
  obtain es where "took s0 k0 es s1"
    using s1 assms(2) keep(1) process_loop_takes by blast
  then show ?thesis
    using s' keep(2) by blast
qed

lemma dsr_takes:
  "dsr_thread ops t s = Some s' \<Longrightarrow> took s0 k0 ds s \<Longrightarrow> \<exists>ds'. took s0 k0 ds' s'"
  by (auto simp: dsr_thread_def split: if_splits intro: process_takes)

lemma wait_beside_takes:
  assumes "wait_beside ops b st to s = Some (r, s')" "took s0 k0 ds s"
  shows "\<exists>ds'. took s0 k0 ds' s'"
  using assms(1)
proof (rule wait_beside_keeps[where P = "\<lambda>s. \<exists>ds. took s0 k0 ds s"])
  show "\<exists>ds. took s0 k0 ds s"
    using assms(2) by blast
qed (blast intro: dsr_takes took_tick(1))

end

section \<open>A command sent beside the DSR thread\<close>

definition send_beside :: "file_ops \<Rightarrow> nat \<Rightarrow> u32 \<Rightarrow> (sys, bool) proc" where
  "send_beside ops ulBit ulTimeout s = do {
     (ok, s1) \<leftarrow> wait_beside ops ulBit NETANA_BITSTATE_EQUAL ulTimeout s;
     if \<not> ok then Some (False, s1)
     else wait_beside ops ulBit NETANA_BITSTATE_EQUAL ulTimeout (netana_tkit_ToggleBit ulBit s1)
   }"

text \<open>Between \<open>s\<close> and \<open>s'\<close> the engine has taken \<open>ds\<close>; the host may have toggled further bits.\<close>

definition taken :: "sink \<Rightarrow> bytes list \<Rightarrow> sys \<Rightarrow> sys \<Rightarrow> bool" where
  "taken k ds s s' \<longleftrightarrow> fixed_dev (dev s') = fixed_dev (dev s) \<and> honest_netx (sk_cap k) s' \<and> capture_inv s' \<and>
     files_rel (files_of s') (stored ds k) \<and> dataLog s' = calls (dev s) ds @ dataLog s"

definition ready_to_take :: "sink \<Rightarrow> sys \<Rightarrow> bool" where
  "ready_to_take k s \<longleftrightarrow> honest_netx (sk_cap k) s \<and> capture_inv s \<and> files_rel (files_of s) k"

lemma taken_ready: "taken k ds s s' \<Longrightarrow> ready_to_take (stored ds k) s'"
  by (simp add: taken_def ready_to_take_def)

lemma calls_fixed: "fixed_dev d = fixed_dev d' \<Longrightarrow> calls d = calls d'"
  by (auto simp: calls_def fun_eq_iff split: option.split dest: fixed_dev_fields(2,3))

lemma calls_append: "calls d (ds @ es) = calls d es @ calls d ds"
  by (simp add: calls_def split: option.split)

lemma taken_trans: "taken k ds a b \<Longrightarrow> taken (stored ds k) es b c \<Longrightarrow> taken k (ds @ es) a c"
  using calls_fixed[of "dev b" "dev a"] by (simp add: taken_def stored_append calls_append)

lemma taken_refl: "ready_to_take k s \<Longrightarrow> taken k [] s s"
  by (simp add: taken_def ready_to_take_def calls_def split: option.split)

lemma taken_toggle:
  assumes "ready_to_take k s"
  shows "taken k [] s (netana_tkit_ToggleBit b (s\<lparr>hStopComplete := e\<rparr>))"
proof -
  let ?t = "netana_tkit_ToggleBit b (s\<lparr>hStopComplete := e\<rparr>)"
  have t: "dev ?t = (dev s)\<lparr>ulHostFlags := ulHostFlags (dev s) XOR msk b\<rparr>" "env ?t = env s"
    "tNetxStatusBlock (dpm ?t) = tNetxStatusBlock (dpm s)" "dmaMem (dpm ?t) = dmaMem (dpm s)"
    "files_of ?t = files_of s" "dataLog ?t = dataLog s"
    by (simp_all add: dev_Toggle files_of_def)
  then show ?thesis
    using assms
    by (simp add: taken_def ready_to_take_def calls_def honest_netx_def honest_dpm_def capture_inv_def fixed_dev_def
        split: option.split)
qed

context file_device
begin

lemma wait_beside_taken:
  assumes "wait_beside ops b st to s = Some (r, s')" "ready_to_take k s"
  shows "\<exists>ds. taken k ds s s'"
proof -
  have "took s k [] s"
    using assms(2) by (simp add: ready_to_take_def took_start)
  then obtain ds where "took s k ds s'"
    using wait_beside_takes[OF assms(1)] by blast
  then show ?thesis
    by (auto simp: took_def taken_def engine_frame_def)
qed

lemma send_beside_taken:
  assumes "send_beside ops b to s = Some (True, s')" "ready_to_take k s"
  shows "\<exists>ds. taken k ds s s'"
proof -
  obtain s1 where w: "wait_beside ops b NETANA_BITSTATE_EQUAL to s = Some (True, s1)"
      "wait_beside ops b NETANA_BITSTATE_EQUAL to (netana_tkit_ToggleBit b s1) = Some (True, s')"
    using assms(1) by (auto simp: send_beside_def bind_eq_Some_conv split: if_splits)
  obtain ds where ds: "taken k ds s s1"
    using wait_beside_taken[OF w(1) assms(2)] by blast
  have "taken (stored ds k) [] s1 (netana_tkit_ToggleBit b s1)"
    using taken_toggle[OF taken_ready[OF ds], of b "hStopComplete s1"] by simp
  from taken_trans[OF ds this] have t: "taken k ds s (netana_tkit_ToggleBit b s1)"
    by simp
  then obtain es where "taken (stored ds k) es (netana_tkit_ToggleBit b s1) s'"
    using wait_beside_taken[OF w(2) taken_ready[OF t]] by blast
  then show ?thesis
    using taken_trans[OF t] by blast
qed

end

text \<open>For any files: what the device instance keeps, and the answer of the netX.\<close>

lemma wait_beside_host: "wait_beside ops b st to s = Some (r, s') \<Longrightarrow> c \<notin> engine_bits \<Longrightarrow> hostbit s' c = hostbit s c"
  by (auto dest!: frame_wait_beside simp: engine_frame_def)

lemma wait_beside_fixed: "wait_beside ops b st to s = Some (r, s') \<Longrightarrow> fixed_dev (dev s') = fixed_dev (dev s)"
  by (auto dest!: frame_wait_beside simp: engine_frame_def)

lemma fixed_toggle [simp]: "fixed_dev (dev (netana_tkit_ToggleBit b s)) = fixed_dev (dev s)"
  by (simp add: dev_Toggle fixed_dev_def)

lemma sent_answered:
  assumes "wait_beside ops b NETANA_BITSTATE_EQUAL to s = Some (True, s1)" "b \<notin> engine_bits" "b < 32"
    and "wait_beside ops b NETANA_BITSTATE_EQUAL to (netana_tkit_ToggleBit b (s1\<lparr>hStopComplete := e\<rparr>)) = Some (True, s')"
  shows "answered b s s'" "fixed_dev (dev s') = fixed_dev (dev s)"
proof -
  have "hostbit s' b = hostbit (netana_tkit_ToggleBit b (s1\<lparr>hStopComplete := e\<rparr>)) b" "hostbit s1 b = hostbit s b"
    using wait_beside_host assms by blast+
  moreover have "hostbit (s1\<lparr>hStopComplete := e\<rparr>) b = hostbit s1 b"
    by (simp add: hostbit_def)
  moreover have "hostbit s' b = netxbit s' b"
    using wait_beside_result[OF assms(4)] by simp
  ultimately show "answered b s s'"
    using assms(3) by (simp add: answered_def hostbit_Toggle)
  show "fixed_dev (dev s') = fixed_dev (dev s)"
    using wait_beside_fixed[OF assms(1)] wait_beside_fixed[OF assms(4)] by simp
qed

lemma send_beside_answered:
  assumes "send_beside ops b to s = Some (True, s')" "b \<notin> engine_bits" "b < 32"
  shows "answered b s s'" "fixed_dev (dev s') = fixed_dev (dev s)"
proof -
  obtain s1 where w: "wait_beside ops b NETANA_BITSTATE_EQUAL to s = Some (True, s1)"
      "wait_beside ops b NETANA_BITSTATE_EQUAL to (netana_tkit_ToggleBit b s1) = Some (True, s')"
    using assms(1) by (auto simp: send_beside_def bind_eq_Some_conv split: if_splits)
  have "s1\<lparr>hStopComplete := hStopComplete s1\<rparr> = s1"
    by simp
  then show "answered b s s'" "fixed_dev (dev s') = fixed_dev (dev s)"
    using sent_answered[OF w(1) assms(2,3), of "hStopComplete s1" s'] w(2) by simp_all
qed

lemma send_beside_alone:
  assumes "\<forall>t \<in> set (env s). \<not> tk_dsr t"
  shows "send_beside ops b to s = send_command b to id s"
proof -
  have "wait_beside ops b NETANA_BITSTATE_EQUAL to (netana_tkit_ToggleBit b s1) =
      netana_tkit_WaitForBitState b NETANA_BITSTATE_EQUAL to (netana_tkit_ToggleBit b s1)"
    if "netana_tkit_WaitForBitState b NETANA_BITSTATE_EQUAL to s = Some (ok, s1)" for ok s1
    using Wait_env[OF that] assms by (intro wait_beside_alone) (metis Toggle_frame(4) in_set_dropD)
  then show ?thesis
    using wait_beside_alone[OF assms, of ops b NETANA_BITSTATE_EQUAL to]
    by (auto simp: send_beside_def send_command_def split: bind_split)
qed

end
