(* ===== verification/Os_Files.thy ===== *)
theory Os_Files
  imports Capture_Files
begin

text \<open>
  The file functions of the Linux port (\<open>OS_Linux.c\<close>) and the file names they accept
  (\<open>USER_Linux.c\<close>). In the kernel they reach firmware files only: \<open>OS_FileOpen\<close> knows the boot
  loader, the firmware and the identification file of the device which asked for a file name last, \<open>OS_FileWrite\<close>
  writes nothing. \<open>linux_ops\<close> is this port as an argument of the toolkit; \<open>names_no_firmware\<close> says which
  names it cannot open.
\<close>

section \<open>The names\<close>

definition USER_GetBootloaderFile :: "devinst \<Rightarrow> string" where
  "USER_GetBootloaderFile ptDevInst = ''netanalyzer/NETX100-BSL.bin''"

text \<open>No name for an unknown class: the buffer of the caller was cleared.\<close>

definition USER_GetFirmwareFile :: "devinst \<Rightarrow> string" where
  "USER_GetFirmwareFile ptDevInst =
     (if usDeviceClass ptDevInst = NANL_DEV_CLASS then ''netanalyzer/NANL-500.nxf''
      else if usDeviceClass ptDevInst = NSCP_DEV_CLASS then ''netanalyzer/NSCP-100.nxf''
      else if usDeviceClass ptDevInst = CIFX_DEV_CLASS then ''netanalyzer/NANLCIFX.nxf''
      else '''')"

definition USER_GetIdentInfoFile :: "devinst \<Rightarrow> string" where
  "USER_GetIdentInfoFile ptDevInst = if_szIdentInfoFileName (tIdentInfoFile ptDevInst)"

section \<open>The functions\<close>

text \<open>
  \<open>lp_pdeviceinstance\<close> is the device of the last \<open>USER_Get...File\<close>, none after \<open>OS_FileClose\<close>. The copies of boot loader and
  firmware exist with power management only; a handle is 0 where the source has \<open>NULL\<close>.
  \<open>request_firmware\<close> and \<open>release_firmware\<close> are the kernel's.
\<close>

record linux_port =
  lp_pdeviceinstance :: "devinst option"
  lp_resumephase :: bool
  lp_bl_copy :: nat
  lp_fw_copy :: nat
  lp_request_firmware :: "string \<Rightarrow> fstore \<Rightarrow> nat \<times> fstore"
  lp_release_firmware :: "nat \<Rightarrow> fstore \<Rightarrow> fstore"

definition OS_FileOpen :: "linux_port \<Rightarrow> string \<Rightarrow> u64 \<Rightarrow> fstore \<Rightarrow> nat \<times> fstore" where
  "OS_FileOpen P szFilename ullSize fs =
     (case lp_pdeviceinstance P of None \<Rightarrow> (0, fs)
      | Some d \<Rightarrow>
          if USER_GetBootloaderFile d = szFilename then
            (if lp_resumephase P \<and> lp_bl_copy P \<noteq> 0 then (lp_bl_copy P, fs) else lp_request_firmware P szFilename fs)
          else if USER_GetFirmwareFile d = szFilename then
            (if lp_resumephase P \<and> lp_fw_copy P \<noteq> 0 then (lp_fw_copy P, fs) else lp_request_firmware P szFilename fs)
          else if USER_GetIdentInfoFile d = szFilename then lp_request_firmware P szFilename fs
          else (0, fs))"

definition OS_FileWrite :: "nat \<Rightarrow> bytes \<Rightarrow> fstore \<Rightarrow> u64 \<times> fstore" where
  "OS_FileWrite pvFile pvBuffer fs = (0, fs)"

definition OS_FileSeek :: "nat \<Rightarrow> nat \<Rightarrow> fstore \<Rightarrow> fstore" where
  "OS_FileSeek pvFile ulOffset fs = fs"

definition OS_FileClose :: "linux_port \<Rightarrow> nat \<Rightarrow> fstore \<Rightarrow> fstore" where
  "OS_FileClose P pvFile fs =
     (if lp_resumephase P then fs else if pvFile \<noteq> 0 then lp_release_firmware P pvFile fs else fs)"

definition linux_ops :: "linux_port \<Rightarrow> file_ops" where
  "linux_ops P = \<lparr>fo_write = OS_FileWrite, fo_seek = OS_FileSeek, fo_open = OS_FileOpen P, fo_close = OS_FileClose P\<rparr>"

section \<open>What cannot be opened\<close>

text \<open>The capture file \<open>i\<close> of the list is not, of all things, the identification file of the device.\<close>

definition names_no_firmware :: "linux_port \<Rightarrow> filelist \<Rightarrow> nat \<Rightarrow> bool" where
  "names_no_firmware P fl i \<longleftrightarrow> (\<forall>d. lp_pdeviceinstance P = Some d \<longrightarrow>
     USER_GetIdentInfoFile d \<noteq> take 511 (capture_filename fl i))"

lemma hea_name:
  assumes "length ys < 511" "ys \<noteq> []" "last ys \<noteq> CHR ''a''"
  shows "take 511 (capture_filename fl i) \<noteq> ys"
proof
  assume eq: "take 511 (capture_filename fl i) = ys"
  then have "length (capture_filename fl i) \<le> 511"
    using assms(1) by (metis length_take min.absorb2 nat_le_linear nat_less_le)
  then have "ys = capture_filename fl i"
    using eq by simp
  then show False
    using assms(3) by (simp add: capture_filename_def)
qed

text \<open>A capture file name is longer than the names of the firmware files, or ends differently.\<close>

lemma capture_name_no_firmware:
  "take 511 (capture_filename fl i) \<noteq> USER_GetBootloaderFile d"
  "take 511 (capture_filename fl i) \<noteq> USER_GetFirmwareFile d"
proof -
  show "take 511 (capture_filename fl i) \<noteq> USER_GetBootloaderFile d"
    unfolding USER_GetBootloaderFile_def by (rule hea_name) simp_all
  have "take 511 (capture_filename fl i) \<noteq> []"
    by (simp add: capture_filename_def)
  then show "take 511 (capture_filename fl i) \<noteq> USER_GetFirmwareFile d"
    using hea_name[of "''netanalyzer/NANL-500.nxf''" fl i] hea_name[of "''netanalyzer/NSCP-100.nxf''" fl i]
      hea_name[of "''netanalyzer/NANLCIFX.nxf''" fl i]
    unfolding USER_GetFirmwareFile_def by (simp split: if_split)
qed

lemma OS_FileOpen_unknown:
  "\<forall>d. lp_pdeviceinstance P = Some d \<longrightarrow> USER_GetBootloaderFile d \<noteq> n \<and> USER_GetFirmwareFile d \<noteq> n \<and>
     USER_GetIdentInfoFile d \<noteq> n \<Longrightarrow> OS_FileOpen P n sz fs = (0, fs)"
  by (simp add: OS_FileOpen_def split: option.split)

lemma linux_no_capture_file:
  assumes "names_no_firmware P fl i"
  shows "fo_open (linux_ops P) (take 511 (capture_filename fl i)) sz fs = (0, fs)"
proof -
  have "OS_FileOpen P (take 511 (capture_filename fl i)) sz fs = (0, fs)"
    using assms capture_name_no_firmware[of fl i] unfolding names_no_firmware_def
    by (intro OS_FileOpen_unknown) metis
  then show ?thesis
    by (simp only: linux_ops_def file_ops.select_convs)
qed

end
