(* ===== verification/Api_Capture.thy ===== *)
theory Api_Capture
  imports Capture_Runs Os_Files
begin

text \<open>
  A capture from the file list to the stop command (\<open>netana_functions.c\<close>):
  \<open>netana_set_filelist\<close> opens the capture files, \<open>netana_start_capture\<close> hands the DMA buffers
  to the netX and starts the first file, \<open>netana_stop_capture\<close> waits for the last DMA,
  finishes the file and closes all of them; \<open>netana_file_info\<close> reports the progress. While starting and stopping wait,
  the DSR thread goes on processing data. The
  locale \<open>file_opener\<close> extends the file contract by opening and closing. What is stated for all ports holds for the Linux port
  (\<open>linux_ops\<close>), too; its files never take part in a capture.
\<close>

text \<open>The configuration of the toolkit, global variables of \<open>netana_toolkit.c\<close>.\<close>

record tkit_config =
  g_ulDMABufferCount :: u32
  g_ulDMABufferSize :: u32
  g_ulDMABufferTimeout :: u32
  g_lTimezoneCorrection :: u32

section \<open>The calls\<close>

definition netana_set_filelist :: "file_ops \<Rightarrow> tkit_config \<Rightarrow> string \<Rightarrow> string \<Rightarrow> u32 \<Rightarrow> u64 \<Rightarrow> sys \<Rightarrow> u32 \<times> sys" where
  "netana_set_filelist ops cfg path base ulCount ullSize s =
     (if IsCaptureRunning s then (NETANA_CAPTURE_ACTIVE, s)
      else if ulCount > NETANA_MAX_FILES then (NETANA_INVALID_PARAMETER, s)
      else if ullSize < ucast (g_ulDMABufferSize cfg) + FILE_HEADER_SIZE then (NETANA_INVALID_PARAMETER, s)
      else
        let fl = (flst (dev s))\<lparr>szPath := take NETANA_MAX_FILEPATH path,
               szBaseFilename := take NETANA_MAX_FILEPATH base,
               ulFileCount := ulCount, ullFileSize := ullSize\<rparr>;
            (r, x) = OpenCaptureFiles ops (fl, fstore s)
        in if r \<noteq> NETANA_NO_ERROR then
             let (fl1, fs1) = CloseCaptureFiles ops x in (r, set_files (fl1\<lparr>ulFileCount := 0\<rparr>, fs1) s)
           else (r, set_files x s))"

definition fill_dma_buffer :: "devinst \<Rightarrow> nat \<Rightarrow> host_control_block \<Rightarrow> host_control_block" where
  "fill_dma_buffer d i h = h\<lparr>hc_atDmaBuffers := (hc_atDmaBuffers h)[i :=
        (hc_atDmaBuffers h ! i)\<lparr>hb_ulPhysicalAddressHigh := 0,
           hb_ulPhysicalAddressLow := db_ulPhysicalAddress (atDMABuffers d ! i),
           hb_ulBufferSize := db_ulBufferSize (atDMABuffers d ! i)\<rparr>]\<rparr>"

definition fill_dma_buffers :: "devinst \<Rightarrow> host_control_block \<Rightarrow> host_control_block" where
  "fill_dma_buffers d h = fold (fill_dma_buffer d) [0..<unat (ulDMABufferCount d)] h"

text \<open>The host control block a capture starts with.\<close>

definition setup_capture :: "tkit_config \<Rightarrow> devinst \<Rightarrow> u32 \<Rightarrow> u32 \<Rightarrow> u32 \<Rightarrow> u64 \<Rightarrow> host_control_block \<Rightarrow> host_control_block" where
  "setup_capture cfg d ulCaptureMode ulPortEnableMask ulMacMode ullReferenceTime h =
     (fill_dma_buffers d (h\<lparr>hc_ulBufferFlags := 0, hc_ulBufferCount := ulDMABufferCount d,
                            hc_ulHostBufferTimeout := g_ulDMABufferTimeout cfg\<rparr>))
       \<lparr>hc_ulCaptureMode := ulCaptureMode, hc_ulPortEnableMask := ulPortEnableMask, hc_ulMacMode := ulMacMode,
        hc_ulRefSeconds := ucast (drop_bit 32 ullReferenceTime),
        hc_ulRefNanoseconds := ucast (ullReferenceTime AND 0xFFFFFFFF), hc_ulHostError := 0\<rparr>"

text \<open>The file part of \<open>netana_start_capture\<close>.\<close>

definition start_files :: "file_ops \<Rightarrow> tkit_config \<Rightarrow> u32 \<Rightarrow> u64 \<Rightarrow> files \<Rightarrow> u32 \<times> files" where
  "start_files ops cfg ulCaptureMode ullReferenceTime = (\<lambda>(fl, fs).
     let fl1 = fl\<lparr>fRingBuffer := (ulCaptureMode AND NETANA_CAPTUREMODE_RINGBUFFER \<noteq> 0)\<rparr>
     in if ulFileCount fl1 > 0 then
          let h = (tFileHeader fl1)\<lparr>fh_ulCookie := NETANA_FILE_HEADER_COOKIE, fh_ulIdx := 0,
                    fh_ullCaptureStart := ullReferenceTime,
                    fh_lTimezoneCorrection := g_lTimezoneCorrection cfg, fh_ulReserved := 0\<rparr>;
              (r, x) = netana_tkit_writefileheader ops NETANA_FILE_HEADER_SIZE_INVALID
                         (fl1\<lparr>ulCurrentFile := 0, fWriteToFile := True, tFileHeader := h\<rparr>, fs)
          in (if r \<noteq> NETANA_NO_ERROR then NETANA_FILE_WRITE_FAILED else NETANA_NO_ERROR, x)
        else (NETANA_NO_ERROR, fl1\<lparr>fWriteToFile := False\<rparr>, fs))"

definition netana_start_capture :: "file_ops \<Rightarrow> tkit_config \<Rightarrow> u32 \<Rightarrow> u32 \<Rightarrow> u32 \<Rightarrow> u64 \<Rightarrow>
    nat option \<Rightarrow> nat option \<Rightarrow> nat \<Rightarrow> (sys, u32) proc" where
  "netana_start_capture ops cfg ulCaptureMode ulPortEnableMask ulMacMode ullReferenceTime pfnSt pfnDat pvUsr s =
     (if IsCaptureRunning s then Some (NETANA_CAPTURE_ACTIVE, s)
      else if ulFileCount (flst (dev s)) = 0 \<and> pfnDat = None then Some (NETANA_CONFIGURATION_ERROR, s)
      else
        let s1 = upd_dev (\<lambda>d. d\<lparr>pfnStatus := pfnSt, pfnData := pfnDat, pvUser := pvUsr\<rparr>) s;
            s2 = upd_hostctrl (setup_capture cfg (dev s1) ulCaptureMode ulPortEnableMask ulMacMode ullReferenceTime) s1;
            (r, x) = start_files ops cfg ulCaptureMode ullReferenceTime (files_of s2);
            s3 = upd_dev (\<lambda>d. d\<lparr>ulCurrentBuffer := 0\<rparr>) (set_files x s2)
        in if r = NETANA_NO_ERROR then do {
             (ok, s4) \<leftarrow> send_beside ops NETANA_STARTSTOP_BIT NETANA_DEFAULT_TIMEOUT s3;
             Some (if ok then NETANA_NO_ERROR else NETANA_FUNCTION_FAILED, s4)
           } else Some (r, s3))"

text \<open>\<open>OS_WaitEvent (hStopComplete, 100)\<close>: whether the event was set, by the status handler of the DSR thread; it is reset.\<close>

definition wait_stop :: "file_ops \<Rightarrow> (sys, bool) proc" where
  "wait_stop ops s =
     (if hStopComplete s then Some (True, s\<lparr>hStopComplete := False\<rparr>)
      else (case env s of [] \<Rightarrow> None
            | t # ts \<Rightarrow> do {
                s1 \<leftarrow> dsr_thread ops t (apply_tick t (s\<lparr>env := ts\<rparr>));
                Some (hStopComplete s1, s1\<lparr>hStopComplete := False\<rparr>)
              }))"

text \<open>Up to \<open>ulCycles\<close> of these waits.\<close>

fun stop_loop :: "file_ops \<Rightarrow> nat \<Rightarrow> sys \<Rightarrow> sys option" where
  "stop_loop ops 0 s = Some s"
| "stop_loop ops (Suc ulCycles) s = do {
     (signalled, s1) \<leftarrow> wait_stop ops s;
     if signalled then Some s1 else stop_loop ops ulCycles s1
   }"

definition finish_files :: "file_ops \<Rightarrow> files \<Rightarrow> files" where
  "finish_files ops x =
     (if ulFileCount (fst x) > 0 then
        let x1 = (if fWriteToFile (fst x)
                  then snd (netana_tkit_writefileheader ops (cur_offset x - FILE_HEADER_SIZE) x) else x);
            (fl, fs) = CloseCaptureFiles ops x1
        in (fl\<lparr>ulFileCount := 0\<rparr>, fs)
      else x)"

definition netana_stop_capture :: "file_ops \<Rightarrow> (sys, u32) proc" where
  "netana_stop_capture ops s =
     (if \<not> IsCaptureRunning s then Some (NETANA_CAPTURE_NOT_ACTIVE, s)
      else do {
        (ok, s1) \<leftarrow> wait_beside ops NETANA_STARTSTOP_BIT NETANA_BITSTATE_EQUAL NETANA_DEFAULT_TIMEOUT s;
        if \<not> ok then Some (NETANA_FUNCTION_FAILED, s1)
        else do {
          (ok2, s2) \<leftarrow> wait_beside ops NETANA_STARTSTOP_BIT NETANA_BITSTATE_EQUAL NETANA_DEFAULT_TIMEOUT
                        (netana_tkit_ToggleBit NETANA_STARTSTOP_BIT (s1\<lparr>hStopComplete := False\<rparr>));
          if \<not> ok2 then Some (NETANA_FUNCTION_FAILED, s2)
          else do {
            s3 \<leftarrow> stop_loop ops 50 s2;
            let s4 = upd_dev (\<lambda>d. d\<lparr>pfnStatus := None, pfnData := None\<rparr>) s3;
            Some (NETANA_NO_ERROR, set_files (finish_files ops (files_of s4)) s4)
          }
        }
      })"

record file_information =
  fi_ulActualFileNr :: u32
  fi_ulMaxFileCnt :: u32
  fi_ullTotalBytesWritten :: u64
  fi_ullMaxBytes :: u64
  fi_ulRingBufferMode :: u32

definition file_information_bytes :: "file_information \<Rightarrow> bytes" where
  "file_information_bytes i = le32 (fi_ulActualFileNr i) @ le32 (fi_ulMaxFileCnt i) @
     le64 (fi_ullTotalBytesWritten i) @ le64 (fi_ullMaxBytes i) @ le32 (fi_ulRingBufferMode i)"

definition current_file_info :: "filelist \<Rightarrow> file_information" where
  "current_file_info fl = \<lparr>fi_ulActualFileNr = ulCurrentFile fl + 1, fi_ulMaxFileCnt = ulFileCount fl,
     fi_ullTotalBytesWritten = fold (\<lambda>i n. n + fd_ullDataWritten (atFiles fl ! i)) [0..<unat (ulFileCount fl)] 0,
     fi_ullMaxBytes = ullFileSize fl * ucast (ulFileCount fl),
     fi_ulRingBufferMode = (if fRingBuffer fl then 1 else 0)\<rparr>"

definition netana_file_info :: "u32 \<Rightarrow> bytes \<Rightarrow> sys \<Rightarrow> u32 \<times> bytes" where
  "netana_file_info ulFileInfoSize ptFileInfo s =
     (if \<not> IsCaptureRunning s then (NETANA_CAPTURE_NOT_ACTIVE, ptFileInfo)
      else if ulFileCount (flst (dev s)) = 0 then (NETANA_FILECAPTURE_NOT_ACTIVE, ptFileInfo)
      else (NETANA_NO_ERROR, blit 0 (take (min (unat ulFileInfoSize) 28)
              (file_information_bytes (current_file_info (flst (dev s))))) ptFileInfo))"

section \<open>Opening and closing the file list\<close>

lemma handle_of_upd: "handle_of (upd_file i g fl) j =
    (if i = j \<and> i < length (atFiles fl) then fd_hFile (g (atFiles fl ! i)) else handle_of fl j)"
  by (cases "i < length (atFiles fl)"; cases "i = j") (simp_all add: handle_of_def upd_file_def list_update_beyond not_less)

lemma handle_of_keep:
  "(\<And>f. fd_hFile (g f) = fd_hFile f) \<Longrightarrow> handle_of (upd_file i g fl) = handle_of fl"
  by (rule ext) (simp add: handle_of_upd, simp add: handle_of_def)

lemma writefileheader_handles [simp]:
  "handle_of (fst (snd (netana_tkit_writefileheader ops sz x))) = handle_of (fst x)"
  by (cases x) (simp add: netana_tkit_writefileheader_def handle_of_keep Let_def split: prod.split)

lemma handle_of_count [simp]:
  "handle_of (fl\<lparr>ulFileCount := c\<rparr>) = handle_of fl" "handle_of (fl\<lparr>fRingBuffer := b\<rparr>) = handle_of fl"
  by (simp_all add: handle_of_def fun_eq_iff)

text \<open>The first \<open>n\<close> files are open, at their start, and have the size asked for.\<close>

definition fresh_upto :: "nat \<Rightarrow> files \<Rightarrow> bool" where
  "fresh_upto n x \<longleftrightarrow> n \<le> length (atFiles (fst x)) \<and> inj_on (handle_of (fst x)) {..<n} \<and>
     (\<forall>i < n. handle_of (fst x) i \<noteq> 0 \<and> fs_open (snd x (handle_of (fst x) i)) \<and>
        fs_pos (snd x (handle_of (fst x) i)) = 0 \<and>
        fs_room (snd x (handle_of (fst x) i)) = unat (ullFileSize (fst x)) \<and>
        fd_ullOffset (atFiles (fst x) ! i) = 0 \<and> fd_ullDataWritten (atFiles (fst x) ! i) = 0)"

lemma fresh_uptoD:
  assumes "fresh_upto n x" "i < n"
  shows "i < length (atFiles (fst x))" "handle_of (fst x) i \<noteq> 0" "fs_open (snd x (handle_of (fst x) i))"
    "fs_pos (snd x (handle_of (fst x) i)) = 0" "fs_room (snd x (handle_of (fst x) i)) = unat (ullFileSize (fst x))"
    "fd_ullOffset (atFiles (fst x) ! i) = 0" "fd_ullDataWritten (atFiles (fst x) ! i) = 0"
  using assms by (auto simp: fresh_upto_def)

text \<open>One step of the loop of \<open>CloseCaptureFiles\<close>.\<close>

definition close_one :: "file_ops \<Rightarrow> nat \<Rightarrow> files \<Rightarrow> files" where
  "close_one ops i x =
     (if handle_of (fst x) i \<noteq> 0
      then (upd_file i (fd_hFile_update (\<lambda>_. 0)) (fst x), fo_close ops (handle_of (fst x) i) (snd x)) else x)"

lemma close_loop_Cons: "close_loop ops (j # js) x = close_loop ops js (close_one ops j x)"
  by (cases x) (simp add: close_one_def handle_of_def Let_def)

lemma close_loop_fold: "close_loop ops js x = fold (close_one ops) js x"
  by (induction js arbitrary: x) (simp_all add: close_loop_Cons del: close_loop.simps(2))

lemma close_one_frame [simp]:
  "ulFileCount (fst (close_one ops i x)) = ulFileCount (fst x)"
  "ullFileSize (fst (close_one ops i x)) = ullFileSize (fst x)"
  "length (atFiles (fst (close_one ops i x))) = length (atFiles (fst x))"
  "fWriteToFile (fst (close_one ops i x)) = fWriteToFile (fst x)"
  "fRingBuffer (fst (close_one ops i x)) = fRingBuffer (fst x)"
  by (simp_all add: close_one_def)

lemma close_loop_frame [simp]:
  "ulFileCount (fst (close_loop ops js x)) = ulFileCount (fst x)"
  "ullFileSize (fst (close_loop ops js x)) = ullFileSize (fst x)"
  "length (atFiles (fst (close_loop ops js x))) = length (atFiles (fst x))"
  "fWriteToFile (fst (close_loop ops js x)) = fWriteToFile (fst x)"
  "fRingBuffer (fst (close_loop ops js x)) = fRingBuffer (fst x)"
  unfolding close_loop_fold by (induction js arbitrary: x) simp_all

lemma CloseCaptureFiles_frame [simp]:
  "ulFileCount (fst (CloseCaptureFiles ops x)) = ulFileCount (fst x)"
  "ullFileSize (fst (CloseCaptureFiles ops x)) = ullFileSize (fst x)"
  "length (atFiles (fst (CloseCaptureFiles ops x))) = length (atFiles (fst x))"
  "fWriteToFile (fst (CloseCaptureFiles ops x)) = fWriteToFile (fst x)"
  by (simp_all add: CloseCaptureFiles_def)

lemma close_loop_handles:
  "(\<forall>j \<in> set js. j < length (atFiles (fst x))) \<Longrightarrow>
     handle_of (fst (close_loop ops js x)) i = (if i \<in> set js then 0 else handle_of (fst x) i)"
  unfolding close_loop_fold
proof (induction js arbitrary: x)
  case (Cons j js)
  have "handle_of (fst (close_one ops j x)) i = (if i = j then 0 else handle_of (fst x) i)"
    using Cons.prems by (auto simp: close_one_def handle_of_upd)
  then show ?case
    using Cons.IH[of "close_one ops j x"] Cons.prems by auto
qed simp

text \<open>
  After \<open>CloseCaptureFiles\<close> no entry of the list has a handle. Entries behind
  \<open>ulFileCount\<close> keep theirs: a list that is replaced by a shorter one leaves files open.
\<close>

lemma CloseCaptureFiles_handles:
  "unat (ulFileCount (fst x)) \<le> length (atFiles (fst x)) \<Longrightarrow>
     handle_of (fst (CloseCaptureFiles ops x)) i = (if i < unat (ulFileCount (fst x)) then 0 else handle_of (fst x) i)"
  by (simp add: CloseCaptureFiles_def close_loop_handles)

locale file_opener = file_device +
  assumes open_frame: "fo_open ops name sz fs = (h, fs') \<Longrightarrow> h \<noteq> 0 \<Longrightarrow> \<forall>j. j \<noteq> h \<longrightarrow> fs' j = fs j"
    and open_fresh: "fo_open ops name sz fs = (h, fs') \<Longrightarrow> h \<noteq> 0 \<Longrightarrow>
      \<not> fs_open (fs h) \<and> fs_open (fs' h) \<and> fs_pos (fs' h) = 0 \<and> fs_room (fs' h) = unat sz"
    and close: "fo_close ops h fs = fs(h := (fs h)\<lparr>fs_open := False\<rparr>)"
begin

lemma open_step:
  assumes fresh: "fresh_upto m (fl, fs)" and m: "m < length (atFiles fl)"
    and op: "fo_open ops name (ullFileSize fl) fs = (h, fs')" and h: "h \<noteq> 0"
  shows "fresh_upto (Suc m) (upd_file m (\<lambda>f. f\<lparr>fd_ullOffset := 0, fd_ullDataWritten := 0\<rparr>)
           (upd_file m (fd_hFile_update (\<lambda>_. h)) fl), fs')"
    (is "fresh_upto _ (?fl, fs')")
proof -
  note new = open_fresh[OF op h] and frame = open_frame[OF op h]
  have entry: "atFiles ?fl ! i = (if i = m then \<lparr>fd_hFile = h, fd_ullOffset = 0, fd_ullDataWritten = 0\<rparr> else atFiles fl ! i)"
    for i
    using m by (cases "atFiles fl ! m") (simp add: upd_file_def nth_list_update)
  have hd: "handle_of ?fl i = (if i = m then h else handle_of fl i)" for i
    by (simp add: handle_of_def entry)
  have old: "handle_of fl i \<noteq> h \<and> fs' (handle_of fl i) = fs (handle_of fl i)" if "i < m" for i
    using fresh_uptoD(3)[OF fresh that] new frame by auto
  have inj: "inj_on (handle_of fl) {..<m}" and ne: "\<And>i. i < m \<Longrightarrow> handle_of fl i \<noteq> h"
    using fresh old by (auto simp: fresh_upto_def)
  have "inj_on (handle_of ?fl) {..<Suc m}"
  proof (rule inj_onI)
    fix a b assume ab: "a \<in> {..<Suc m}" "b \<in> {..<Suc m}" "handle_of ?fl a = handle_of ?fl b"
    show "a = b"
    proof (cases "a = m \<or> b = m")
      case True
      then show ?thesis
        using ab ne[of a] ne[of b] by (simp add: hd less_Suc_eq split: if_splits)
    next
      case False
      then show ?thesis
        using ab inj_onD[OF inj, of a b] by (simp add: hd less_Suc_eq)
    qed
  qed
  then show ?thesis
    using fresh m new old h by (auto simp: fresh_upto_def hd entry less_Suc_eq)
qed

lemma open_loop_fresh:
  "open_loop ops [m..<n] (fl, fs) = (NETANA_NO_ERROR, x') \<Longrightarrow> fresh_upto m (fl, fs) \<Longrightarrow> n \<le> length (atFiles fl) \<Longrightarrow>
     m \<le> n \<Longrightarrow> fresh_upto n x' \<and> ulFileCount (fst x') = ulFileCount fl \<and> ullFileSize (fst x') = ullFileSize fl \<and>
       fRingBuffer (fst x') = fRingBuffer fl \<and> ulCurrentFile (fst x') = ulCurrentFile fl"
proof (induction "n - m" arbitrary: m fl fs)
  case 0
  then show ?case
    by auto
next
  case (Suc d)
  then have m: "m < n" "[m..<n] = m # [Suc m..<n]"
    by (simp_all add: upt_conv_Cons)
  obtain h fs1 where op: "fo_open ops (take 511 (capture_filename fl m)) (ullFileSize fl) fs = (h, fs1)"
    by (metis surj_pair)
  let ?fl = "upd_file m (\<lambda>f. f\<lparr>fd_ullOffset := 0, fd_ullDataWritten := 0\<rparr>) (upd_file m (fd_hFile_update (\<lambda>_. h)) fl)"
  have h: "h \<noteq> 0" and rest: "open_loop ops [Suc m..<n] (?fl, fs1) = (NETANA_NO_ERROR, x')"
    using Suc.prems(1) by (auto simp: m(2) op Let_def split: if_splits)
  have "fresh_upto (Suc m) (?fl, fs1)"
    using Suc.prems m by (intro open_step[OF _ _ op h]) auto
  then show ?case
    using Suc.hyps(1)[of "Suc m" ?fl fs1] rest Suc.hyps(2) Suc.prems(3) m(1) by simp
qed

lemma OpenCaptureFiles_fresh:
  assumes "OpenCaptureFiles ops x = (NETANA_NO_ERROR, x')" "unat (ulFileCount (fst x)) \<le> length (atFiles (fst x))"
  shows "fresh_upto (unat (ulFileCount (fst x))) x'" "ulFileCount (fst x') = ulFileCount (fst x)"
    "ullFileSize (fst x') = ullFileSize (fst x)" "ulCurrentFile (fst x') = 0"
proof -
  obtain fl fs where c: "CloseCaptureFiles ops x = (fl, fs)"
    by (metis surj_pair)
  have fl: "ulFileCount fl = ulFileCount (fst x)" "ullFileSize fl = ullFileSize (fst x)" "length (atFiles fl) = length (atFiles (fst x))"
    using CloseCaptureFiles_frame[of ops x] by (simp_all add: c)
  have "fresh_upto 0 (fl\<lparr>ulCurrentFile := 0\<rparr>, fs)"
    by (simp add: fresh_upto_def)
  then have "fresh_upto (unat (ulFileCount (fst x))) x' \<and> ulFileCount (fst x') = ulFileCount (fst x) \<and>
      ullFileSize (fst x') = ullFileSize (fst x) \<and> ulCurrentFile (fst x') = 0"
    using assms open_loop_fresh[of 0 "unat (ulFileCount (fst x))" "fl\<lparr>ulCurrentFile := 0\<rparr>" fs x']
    by (simp add: OpenCaptureFiles_def c fl)
  then show "fresh_upto (unat (ulFileCount (fst x))) x'" "ulFileCount (fst x') = ulFileCount (fst x)"
    "ullFileSize (fst x') = ullFileSize (fst x)" "ulCurrentFile (fst x') = 0"
    by simp_all
qed

end

section \<open>Starting the first file\<close>

definition new_sink :: "filelist \<Rightarrow> sink" where
  "new_sink fl = \<lparr>sk_cap = unat (ullFileSize fl), sk_count = unat (ulFileCount fl), sk_ring = fRingBuffer fl,
     sk_active = True, sk_cur = 0, sk_payload = (\<lambda>_. []), sk_used = {0}\<rparr>"

context file_device
begin

lemma start_fresh:
  assumes "fresh_upto (unat (ulFileCount fl)) (fl, fs)" "0 < ulFileCount fl" "ulCurrentFile fl = 0"
    and "32 \<le> ullFileSize fl" "unat (ullFileSize fl) < 2 ^ 63" "fWriteToFile fl"
  shows "fst (netana_tkit_writefileheader ops NETANA_FILE_HEADER_SIZE_INVALID (fl, fs)) = NETANA_NO_ERROR"
    "files_rel (snd (netana_tkit_writefileheader ops NETANA_FILE_HEADER_SIZE_INVALID (fl, fs))) (new_sink fl)"
proof -
  let ?h = "handle_of fl 0" let ?hd = "(tFileHeader fl)\<lparr>fh_ullDataSize := NETANA_FILE_HEADER_SIZE_INVALID\<rparr>"
  let ?f = "(atFiles fl ! 0)\<lparr>fd_ullDataWritten := 0, fd_ullOffset := 32\<rparr>"
  let ?m = "(fs ?h)\<lparr>fs_bytes := header_bytes ?hd @ drop 32 (fs_bytes (fs ?h)), fs_pos := 32\<rparr>"
  have n: "0 < unat (ulFileCount fl)"
    using assms(2) by (simp add: word_less_nat_alt)
  note f0 = fresh_uptoD[OF assms(1) n, simplified]
  have room: "32 \<le> unat (ullFileSize fl)"
    using assms(4) by (simp add: word_le_nat_alt)
  have inj: "inj_on (handle_of fl) {..<unat (ulFileCount fl)}"
    using assms(1) by (simp add: fresh_upto_def)
  have wh: "netana_tkit_writefileheader ops NETANA_FILE_HEADER_SIZE_INVALID (fl, fs) =
      (NETANA_NO_ERROR, fl\<lparr>tFileHeader := ?hd, atFiles := (atFiles fl)[0 := ?f]\<rparr>, fs(?h := ?m))"
    using f0 room by (subst writefileheader[where i = 0 and h = ?h]) (simp_all add: assms(3))
  let ?fl = "fl\<lparr>tFileHeader := ?hd, atFiles := (atFiles fl)[0 := ?f]\<rparr>"
  have hd: "handle_of ?fl = handle_of fl"
    by (rule ext, case_tac "x = 0") (use f0(1) in \<open>simp_all add: handle_of_def\<close>)
  have ok: "sink_ok (new_sink fl)"
    using n room by (auto simp: sink_ok_def new_sink_def)
  have "fs_room ((fs(?h := ?m)) (handle_of fl i)) = unat (ullFileSize fl) \<and>
      file_rel (i = 0) (i = 0) [] (atFiles ?fl ! i) ((fs(?h := ?m)) (handle_of fl i))"
    if i: "i < unat (ulFileCount fl)" for i
  proof (cases "i = 0")
    case True
    then show ?thesis
      using f0 by (simp add: file_rel_def size_field_header)
  next
    case False
    then have "handle_of fl i \<noteq> ?h"
      using inj_onD[OF inj, of i 0] i n by auto
    then show ?thesis
      using False fresh_uptoD[OF assms(1) i] by (simp add: file_rel_def)
  qed
  then have each: "\<forall>i < unat (ulFileCount fl). fs_room ((fs(?h := ?m)) (handle_of fl i)) = unat (ullFileSize fl) \<and>
      file_rel (i = 0) (i = 0) [] (atFiles ?fl ! i) ((fs(?h := ?m)) (handle_of fl i))"
    by blast
  have len: "unat (ulFileCount fl) \<le> length (atFiles fl)"
    using assms(1) by (simp add: fresh_upto_def)
  have "files_inv True (?fl, fs(?h := ?m)) (new_sink fl)"
    unfolding files_inv_def fst_conv snd_conv hd
    using ok inj len each assms(3,5) by (simp add: new_sink_def del: fun_upd_apply)
  then have "files_rel (?fl, fs(?h := ?m)) (new_sink fl)"
    using assms(6) by (simp add: files_rel_def new_sink_def)
  then show "fst (netana_tkit_writefileheader ops NETANA_FILE_HEADER_SIZE_INVALID (fl, fs)) = NETANA_NO_ERROR"
    "files_rel (snd (netana_tkit_writefileheader ops NETANA_FILE_HEADER_SIZE_INVALID (fl, fs))) (new_sink fl)"
    by (simp_all add: wh)
qed

end

section \<open>Finishing the files\<close>

text \<open>A finished capture file: its payload behind a header which gives the size.\<close>

definition finished_file :: "bytes \<Rightarrow> file_st \<Rightarrow> bool" where
  "finished_file p m \<longleftrightarrow> 32 + length p \<le> length (fs_bytes m) \<and> take (length p) (drop 32 (fs_bytes m)) = p \<and>
     size_field (fs_bytes m) = le64 (of_nat (length p))"

lemma file_rel_finished: "file_rel True False p f m \<Longrightarrow> finished_file p m"
  by (simp add: file_rel_def finished_file_def)

context file_opener
begin

lemma close_one_store [simp]:
  "fs_bytes (snd (close_one ops j x) h) = fs_bytes (snd x h)"
  "\<not> fs_open (snd x h) \<Longrightarrow> \<not> fs_open (snd (close_one ops j x) h)"
  by (simp_all add: close_one_def close)

lemma close_loop_bytes [simp]: "fs_bytes (snd (close_loop ops js x) h) = fs_bytes (snd x h)"
  unfolding close_loop_fold by (induction js arbitrary: x) simp_all

lemma close_loop_stays: "\<not> fs_open (snd x h) \<Longrightarrow> \<not> fs_open (snd (close_loop ops js x) h)"
  unfolding close_loop_fold by (induction js arbitrary: x) simp_all

lemma close_loop_closes:
  "j \<in> set js \<Longrightarrow> handle_of (fst x) j = h \<Longrightarrow> h \<noteq> 0 \<Longrightarrow> \<not> fs_open (snd (close_loop ops js x) h)"
proof (induction js arbitrary: x)
  case (Cons a js)
  show ?case
  proof (cases "a = j")
    case True
    then have "\<not> fs_open (snd (close_one ops a x) h)"
      using Cons.prems by (simp add: close_one_def close)
    then show ?thesis
      by (simp add: close_loop_Cons close_loop_stays del: close_loop.simps)
  next
    case False
    then have "handle_of (fst (close_one ops a x)) j = h"
      using Cons.prems by (auto simp: close_one_def handle_of_upd)
    then show ?thesis
      using Cons False by (simp add: close_loop_Cons del: close_loop.simps)
  qed
qed simp

lemma finish_files_result:
  assumes rel: "files_rel x k" and cnt: "0 < ulFileCount (fst x)"
    and hs: "\<forall>i < sk_count k. handle_of (fst x) i \<noteq> 0"
  shows "ulFileCount (fst (finish_files ops x)) = 0"
    "\<forall>i < sk_count k. handle_of (fst (finish_files ops x)) i = 0 \<and>
       \<not> fs_open (snd (finish_files ops x) (handle_of (fst x) i)) \<and>
       (i \<in> sk_used k \<longrightarrow> finished_file (sk_payload k i) (snd (finish_files ops x) (handle_of (fst x) i)))"
proof -
  define y where "y = (if fWriteToFile (fst x)
      then snd (netana_tkit_writefileheader ops (cur_offset x - FILE_HEADER_SIZE) x) else x)"
  have inv: "files_inv False y k"
    using rel finish_file[of "fst x" "snd x" k] by (auto simp: y_def files_rel_def)
  have hd: "handle_of (fst y) = handle_of (fst x)"
    by (simp add: y_def)
  have n: "sk_count k = unat (ulFileCount (fst y))" "sk_count k \<le> length (atFiles (fst y))"
    using inv by (simp_all add: files_inv_def)
  have fin: "fst (finish_files ops x) = (fst (CloseCaptureFiles ops y))\<lparr>ulFileCount := 0\<rparr>"
      "snd (finish_files ops x) = snd (CloseCaptureFiles ops y)"
    using cnt by (simp_all add: finish_files_def y_def Let_def split: prod.split)
  show "ulFileCount (fst (finish_files ops x)) = 0"
    by (simp add: fin)
  show "\<forall>i < sk_count k. handle_of (fst (finish_files ops x)) i = 0 \<and>
       \<not> fs_open (snd (finish_files ops x) (handle_of (fst x) i)) \<and>
       (i \<in> sk_used k \<longrightarrow> finished_file (sk_payload k i) (snd (finish_files ops x) (handle_of (fst x) i)))"
  proof (intro allI impI conjI)
    fix i assume i: "i < sk_count k"
    show "handle_of (fst (finish_files ops x)) i = 0"
      using CloseCaptureFiles_handles[of y ops i] n i by (simp add: fin)
    show "\<not> fs_open (snd (finish_files ops x) (handle_of (fst x) i))"
      using close_loop_closes[of i "[0..<unat (ulFileCount (fst y))]" y] hs i n hd
      by (simp add: fin CloseCaptureFiles_def)
    assume "i \<in> sk_used k"
    moreover have "file_rel (i \<in> sk_used k) False (sk_payload k i) (atFiles (fst y) ! i) (snd y (handle_of (fst y) i))"
      using inv i by (simp add: files_inv_def)
    ultimately have "finished_file (sk_payload k i) (snd y (handle_of (fst y) i))"
      using file_rel_finished by simp
    then show "finished_file (sk_payload k i) (snd (finish_files ops x) (handle_of (fst x) i))"
      by (simp add: fin CloseCaptureFiles_def finished_file_def hd)
  qed
qed

end

section \<open>A port on which captures can be stored\<close>

text \<open>
  Not the Linux port, but one with the files of the C library and a bounded number of handles, the lowest free one being
  taken and \<open>0\<close> returned when all are in use: on it the contract holds, and the witnesses run on it.
\<close>

definition table_open :: "string \<Rightarrow> u64 \<Rightarrow> fstore \<Rightarrow> nat \<times> fstore" where
  "table_open name sz fs =
     (case find (\<lambda>h. \<not> fs_open (fs h)) [1..<1024] of
        None \<Rightarrow> (0, fs)
      | Some h \<Rightarrow> (h, fs(h := \<lparr>fs_bytes = [], fs_pos = 0, fs_room = unat sz, fs_open = True\<rparr>)))"

definition port_ops :: file_ops where
  "port_ops = \<lparr>fo_write = stdio_fwrite, fo_seek = stdio_fseek, fo_open = table_open, fo_close = stdio_fclose\<rparr>"

interpretation port: file_opener port_ops
proof (unfold_locales, goal_cases)
  case (3 name sz fs h fs')
  then show ?case
    by (auto simp: port_ops_def table_open_def split: option.splits)
next
  case (4 name sz fs h fs')
  then show ?case
    by (auto simp: port_ops_def table_open_def find_Some_iff split: option.splits)
qed (simp_all add: port_ops_def stdio_fwrite_def stdio_fseek_def stdio_fclose_def Let_def)

section \<open>Properties\<close>

text \<open>A file list ready for a capture, or none.\<close>

definition filelist_ready :: "sys \<Rightarrow> bool" where
  "filelist_ready s \<longleftrightarrow> (let fl = flst (dev s) in
     fresh_upto (unat (ulFileCount fl)) (files_of s) \<and>
     (0 < ulFileCount fl \<longrightarrow> ulCurrentFile fl = 0 \<and> FILE_HEADER_SIZE \<le> ullFileSize fl))"

lemma set_filelist_cases:
  assumes "netana_set_filelist ops cfg path base n sz s = (r, s')" "\<not> IsCaptureRunning s" "n \<le> NETANA_MAX_FILES"
    "ucast (g_ulDMABufferSize cfg) + FILE_HEADER_SIZE \<le> sz"
  obtains x where "OpenCaptureFiles ops ((flst (dev s))\<lparr>szPath := take NETANA_MAX_FILEPATH path,
      szBaseFilename := take NETANA_MAX_FILEPATH base, ulFileCount := n, ullFileSize := sz\<rparr>, fstore s) = (r, x)"
    "r = NETANA_NO_ERROR \<longrightarrow> s' = set_files x s"
    "r \<noteq> NETANA_NO_ERROR \<longrightarrow> s' = set_files ((fst (CloseCaptureFiles ops x))\<lparr>ulFileCount := 0\<rparr>, snd (CloseCaptureFiles ops x)) s"
proof -
  obtain r' x where op: "OpenCaptureFiles ops ((flst (dev s))\<lparr>szPath := take NETANA_MAX_FILEPATH path,
      szBaseFilename := take NETANA_MAX_FILEPATH base, ulFileCount := n, ullFileSize := sz\<rparr>, fstore s) = (r', x)"
    by (metis surj_pair)
  have "r' = r"
    using assms op by (simp add: netana_set_filelist_def not_less Let_def split: prod.splits if_splits)
  then show ?thesis
    using assms op by (intro that[of x])
      (simp_all add: netana_set_filelist_def not_less Let_def split: prod.splits if_splits)
qed

lemma open_loop_frame:
  "open_loop ops js (fl, fs) = (r, x') \<Longrightarrow> ulFileCount (fst x') = ulFileCount fl \<and>
     length (atFiles (fst x')) = length (atFiles fl)"
  by (induction js arbitrary: fl fs) (auto simp: Let_def split: if_splits prod.splits)

lemma OpenCaptureFiles_frame:
  assumes "OpenCaptureFiles ops x = (r, x')"
  shows "ulFileCount (fst x') = ulFileCount (fst x)" "length (atFiles (fst x')) = length (atFiles (fst x))"
proof -
  obtain fl fs where c: "CloseCaptureFiles ops x = (fl, fs)"
    by (metis surj_pair)
  then show "ulFileCount (fst x') = ulFileCount (fst x)" "length (atFiles (fst x')) = length (atFiles (fst x))"
    using assms CloseCaptureFiles_frame(1,3)[of ops x] by (auto simp: OpenCaptureFiles_def c dest: open_loop_frame)
qed

text \<open>The sum in the size check of \<open>netana_set_filelist\<close> cannot wrap.\<close>

lemma buffer_fits:
  assumes "ucast (g :: u32) + FILE_HEADER_SIZE \<le> (sz :: u64)"
  shows "FILE_HEADER_SIZE \<le> sz" "unat g + 32 \<le> unat sz"
proof -
  have "unat g < 2 ^ 32"
    using unsigned_less[of g] by simp
  then have "unat (ucast g + FILE_HEADER_SIZE :: u64) = unat g + 32"
    by (subst unat_add_no_wrap) simp_all
  then show "unat g + 32 \<le> unat sz"
    using assms by (simp add: word_le_nat_alt)
  then show "FILE_HEADER_SIZE \<le> sz"
    by (simp add: word_le_nat_alt)
qed

text \<open>The port asked for files of these names one after the other: their handles, and the files afterwards.\<close>

fun open_all :: "file_ops \<Rightarrow> u64 \<Rightarrow> string list \<Rightarrow> fstore \<Rightarrow> nat list \<times> fstore" where
  "open_all ops sz [] fs = ([], fs)"
| "open_all ops sz (name # names) fs =
     (let (h, fs1) = fo_open ops name sz fs; (hs, fs2) = open_all ops sz names fs1 in (h # hs, fs2))"

lemma capture_filename_cong:
  "szPath fl = szPath fl' \<Longrightarrow> szBaseFilename fl = szBaseFilename fl' \<Longrightarrow> capture_filename fl = capture_filename fl'"
  by (simp add: capture_filename_def fun_eq_iff)

lemma open_loop_all:
  "open_loop ops [m..<n] (fl, fs) = (r, x') \<Longrightarrow> n \<le> length (atFiles fl) \<Longrightarrow> m \<le> n \<Longrightarrow>
     szPath (fst x') = szPath fl \<and> szBaseFilename (fst x') = szBaseFilename fl \<and> ullFileSize (fst x') = ullFileSize fl \<and>
     ulCurrentFile (fst x') = ulCurrentFile fl \<and> (r = NETANA_NO_ERROR \<or> r = NETANA_FILE_CREATION_FAILED) \<and>
     (\<forall>i < m. handle_of (fst x') i = handle_of fl i) \<and>
     (r = NETANA_NO_ERROR \<longrightarrow>
        (map (handle_of (fst x')) [m..<n], snd x') =
          open_all ops (ullFileSize fl) (map (\<lambda>i. take 511 (capture_filename fl i)) [m..<n]) fs \<and>
        (\<forall>i \<in> {m..<n}. handle_of (fst x') i \<noteq> 0))"
proof (induction "n - m" arbitrary: m fl fs)
  case 0
  then show ?case
    by auto
next
  case (Suc d)
  then have m: "m < n" "[m..<n] = m # [Suc m..<n]"
    by (simp_all add: upt_conv_Cons)
  obtain h fs1 where op: "fo_open ops (take 511 (capture_filename fl m)) (ullFileSize fl) fs = (h, fs1)"
    by (metis surj_pair)
  let ?fl1 = "upd_file m (fd_hFile_update (\<lambda>_. h)) fl"
  let ?fl = "upd_file m (\<lambda>f. f\<lparr>fd_ullOffset := 0, fd_ullDataWritten := 0\<rparr>) ?fl1"
  have hd: "handle_of ?fl1 i = (if i = m then h else handle_of fl i)" "handle_of ?fl i = (if i = m then h else handle_of fl i)" for i
    using m(1) Suc.prems(2) by (simp_all add: handle_of_upd handle_of_keep)
  show ?case
  proof (cases "512 < length (capture_filename fl m) \<or> h = 0")
    case True
    then have "r = NETANA_FILE_CREATION_FAILED \<and> (fst x' = fl \<or> fst x' = ?fl1)"
      using Suc.prems(1) unfolding m(2) open_loop.simps Let_def op prod.case by (auto split: if_splits)
    then show ?thesis
      using hd(1) by (elim conjE disjE) simp_all
  next
    case False
    then have rest: "open_loop ops [Suc m..<n] (?fl, fs1) = (r, x')"
      using Suc.prems(1) by (simp add: m(2) op Let_def)
    have d: "d = n - Suc m" "n \<le> length (atFiles ?fl)" "Suc m \<le> n"
      using Suc.hyps(2) Suc.prems(2) m(1) by simp_all
    note ih = Suc.hyps(1)[OF d(1) rest d(2,3)]
    have "capture_filename ?fl = capture_filename fl"
      by (rule capture_filename_cong) simp_all
    moreover have "h \<noteq> 0"
      using False by simp
    ultimately show ?thesis
      using ih m(1) hd(2) by (auto simp: m(2) op Let_def le_Suc_eq le_eq_less_or_eq less_Suc_eq Suc_le_eq split: prod.split)
  qed
qed

lemma linux_open_fails:
  "open_loop (linux_ops P) is (fl, fs) = (r, x') \<Longrightarrow> is \<noteq> [] \<Longrightarrow> names_no_firmware P fl (hd is) \<Longrightarrow> r \<noteq> NETANA_NO_ERROR"
  by (cases "is") (auto simp: linux_no_capture_file Let_def split: if_splits)

lemma Close_names [simp]:
  "szPath (fst (CloseCaptureFiles ops x)) = szPath (fst x)" "szBaseFilename (fst (CloseCaptureFiles ops x)) = szBaseFilename (fst x)"
proof -
  have "szPath (fst (close_loop ops js x)) = szPath (fst x) \<and> szBaseFilename (fst (close_loop ops js x)) = szBaseFilename (fst x)"
    for js and x :: files
    unfolding close_loop_fold by (induction js arbitrary: x) (simp_all add: close_one_def)
  then show "szPath (fst (CloseCaptureFiles ops x)) = szPath (fst x)" "szBaseFilename (fst (CloseCaptureFiles ops x)) = szBaseFilename (fst x)"
    by (simp_all add: CloseCaptureFiles_def)
qed

text \<open>The list \<open>netana_set_filelist\<close> asks the port to open, and the files once those of the old list among the first \<open>n\<close> are closed.\<close>

definition new_list :: "string \<Rightarrow> string \<Rightarrow> u32 \<Rightarrow> u64 \<Rightarrow> filelist \<Rightarrow> filelist" where
  "new_list path base n sz fl = fl\<lparr>szPath := take NETANA_MAX_FILEPATH path, szBaseFilename := take NETANA_MAX_FILEPATH base,
     ulFileCount := n, ullFileSize := sz\<rparr>"


definition sample_config :: tkit_config where
  "sample_config = \<lparr>g_ulDMABufferCount = 2, g_ulDMABufferSize = 8, g_ulDMABufferTimeout = 5, g_lTimezoneCorrection = 0\<rparr>"

text \<open>The sample device with a port on which no file is open.\<close>

definition idle_sample :: sys where
  "idle_sample = sample\<lparr>fstore := (\<lambda>_. \<lparr>fs_bytes = [], fs_pos = 0, fs_room = 0, fs_open = False\<rparr>),
     env := [quiet 5, ack 4 9]\<rparr>"

lemma table_open_first:
  "\<not> fs_open (fs 1) \<Longrightarrow> table_open name sz fs = (1, fs(1 := \<lparr>fs_bytes = [], fs_pos = 0, fs_room = unat sz, fs_open = True\<rparr>))"
  using upt_conv_Cons[of 1 1024] by (simp add: table_open_def)

definition listed_sample :: sys where
  "listed_sample = set_files
     ((flst sample_dev)\<lparr>szPath := ''/d'', szBaseFilename := ''c'', ulFileCount := 1, ullFileSize := 60,
        ulCurrentFile := 0, atFiles := (atFiles (flst sample_dev))[0 := \<lparr>fd_hFile = 1, fd_ullOffset = 0, fd_ullDataWritten = 0\<rparr>]\<rparr>,
      (fstore idle_sample)(1 := \<lparr>fs_bytes = [], fs_pos = 0, fs_room = 60, fs_open = True\<rparr>)) idle_sample"

lemma set_filelist_sample:
  "netana_set_filelist port_ops sample_config ''/d'' ''c'' 1 60 idle_sample = (NETANA_NO_ERROR, listed_sample)"
proof -
  have upd: "upd_file 0 g fl = fl\<lparr>atFiles := (atFiles fl)[0 := g (atFiles fl ! 0)]\<rparr>" for g fl
    by (simp add: upd_file_def)
  show ?thesis
    by (simp add: netana_set_filelist_def OpenCaptureFiles_def CloseCaptureFiles_def IsCaptureRunning_def
        idle_sample_def sample_config_def sample_defs Let_def listed_sample_def port_ops_def table_open_first
        capture_filename_def dec.simps upd set_files_def)
qed


section \<open>Starting\<close>

lemma fill_dma_buffer_frame [simp]:
  "hc_ulBufferFlags (fill_dma_buffer d i h) = hc_ulBufferFlags h"
  "hc_ulBufferCount (fill_dma_buffer d i h) = hc_ulBufferCount h"
  "length (hc_atDmaBuffers (fill_dma_buffer d i h)) = length (hc_atDmaBuffers h)"
  by (simp_all add: fill_dma_buffer_def)

lemma fill_dma_buffer_nth:
  "j < length (hc_atDmaBuffers h) \<Longrightarrow> hc_atDmaBuffers (fill_dma_buffer d i h) ! j =
     (if i = j then \<lparr>hb_ulPhysicalAddressHigh = 0, hb_ulPhysicalAddressLow = db_ulPhysicalAddress (atDMABuffers d ! j),
        hb_ulBufferSize = db_ulBufferSize (atDMABuffers d ! j)\<rparr> else hc_atDmaBuffers h ! j)"
  by (cases "hc_atDmaBuffers h ! i") (simp add: fill_dma_buffer_def nth_list_update)

lemma fill_dma_nth:
  "j < length (hc_atDmaBuffers h) \<Longrightarrow> hc_atDmaBuffers (fold (fill_dma_buffer d) is h) ! j =
     (if j \<in> set is then \<lparr>hb_ulPhysicalAddressHigh = 0, hb_ulPhysicalAddressLow = db_ulPhysicalAddress (atDMABuffers d ! j),
        hb_ulBufferSize = db_ulBufferSize (atDMABuffers d ! j)\<rparr> else hc_atDmaBuffers h ! j)"
  by (induction "is" arbitrary: h) (auto simp: fill_dma_buffer_nth)

lemma fill_dma_fields [simp]:
  "hc_ulBufferFlags (fill_dma_buffers d h) = hc_ulBufferFlags h"
  "hc_ulBufferCount (fill_dma_buffers d h) = hc_ulBufferCount h"
proof -
  have "hc_ulBufferFlags (fold (fill_dma_buffer d) is h) = hc_ulBufferFlags h \<and>
      hc_ulBufferCount (fold (fill_dma_buffer d) is h) = hc_ulBufferCount h" for "is"
    by (induction "is" arbitrary: h) simp_all
  then show "hc_ulBufferFlags (fill_dma_buffers d h) = hc_ulBufferFlags h"
    "hc_ulBufferCount (fill_dma_buffers d h) = hc_ulBufferCount h"
    by (simp_all add: fill_dma_buffers_def)
qed


text \<open>What \<open>netana_start_capture\<close> makes of the host control block \<open>h0\<close>: all buffers belong to the netX, with the addresses and
  sizes of the instance; mode, ports, MAC mode, timeout and the reference time are set.\<close>

definition ready_hostctrl :: "tkit_config \<Rightarrow> devinst \<Rightarrow> u32 \<Rightarrow> u32 \<Rightarrow> u32 \<Rightarrow> u64 \<Rightarrow> host_control_block \<Rightarrow> host_control_block \<Rightarrow> bool" where
  "ready_hostctrl cfg d mode ports mac t h0 h \<longleftrightarrow> hc_ulBufferFlags h = 0 \<and> hc_ulBufferCount h = ulDMABufferCount d \<and>
     hc_ulHostBufferTimeout h = g_ulDMABufferTimeout cfg \<and>
     hc_ulCaptureMode h = mode \<and> hc_ulPortEnableMask h = ports \<and> hc_ulMacMode h = mac \<and> hc_ulHostError h = 0 \<and>
     unat t = unat (hc_ulRefSeconds h) * 2 ^ 32 + unat (hc_ulRefNanoseconds h) \<and>
     hc_ulResyncP h = hc_ulResyncP h0 \<and> hc_ulResyncI h = hc_ulResyncI h0 \<and>
     length (hc_atDmaBuffers h) = length (hc_atDmaBuffers h0) \<and>
     (\<forall>i < length (hc_atDmaBuffers h0). hc_atDmaBuffers h ! i =
        (if i < unat (ulDMABufferCount d) then
           \<lparr>hb_ulPhysicalAddressHigh = 0, hb_ulPhysicalAddressLow = db_ulPhysicalAddress (atDMABuffers d ! i),
            hb_ulBufferSize = db_ulBufferSize (atDMABuffers d ! i)\<rparr> else hc_atDmaBuffers h0 ! i))"

lemma fill_dma_rest [simp]:
  "hc_ulResyncP (fill_dma_buffers d h) = hc_ulResyncP h" "hc_ulResyncI (fill_dma_buffers d h) = hc_ulResyncI h"
  "hc_ulHostBufferTimeout (fill_dma_buffers d h) = hc_ulHostBufferTimeout h"
  "length (hc_atDmaBuffers (fill_dma_buffers d h)) = length (hc_atDmaBuffers h)"
proof -
  have "hc_ulResyncP (fold (fill_dma_buffer d) is h) = hc_ulResyncP h \<and> hc_ulResyncI (fold (fill_dma_buffer d) is h) = hc_ulResyncI h \<and>
      hc_ulHostBufferTimeout (fold (fill_dma_buffer d) is h) = hc_ulHostBufferTimeout h \<and>
      length (hc_atDmaBuffers (fold (fill_dma_buffer d) is h)) = length (hc_atDmaBuffers h)" for "is"
    by (induction "is" arbitrary: h) (simp_all add: fill_dma_buffer_def)
  then show "hc_ulResyncP (fill_dma_buffers d h) = hc_ulResyncP h" "hc_ulResyncI (fill_dma_buffers d h) = hc_ulResyncI h"
    "hc_ulHostBufferTimeout (fill_dma_buffers d h) = hc_ulHostBufferTimeout h"
    "length (hc_atDmaBuffers (fill_dma_buffers d h)) = length (hc_atDmaBuffers h)"
    by (simp_all add: fill_dma_buffers_def)
qed

lemma time_halves: "unat (t :: u64) = unat (ucast (drop_bit 32 t) :: u32) * 2 ^ 32 + unat (ucast (t AND 0xFFFFFFFF) :: u32)"
proof -
  have t: "unat t < 2 ^ 64"
    using unsigned_less[of t] by simp
  have "unat (drop_bit 32 t) = unat t div 2 ^ 32"
    by (simp add: drop_bit_eq_div unat_div)
  moreover have "unat t div 2 ^ 32 < 2 ^ 32"
    using t by (simp add: less_mult_imp_div_less)
  ultimately have hi: "unat (ucast (drop_bit 32 t) :: u32) = unat t div 2 ^ 32"
    by (simp add: unsigned_ucast_eq take_bit_eq_mod)
  have lo: "unat (ucast (t AND 0xFFFFFFFF) :: u32) = unat t mod 2 ^ 32"
  proof -
    have m: "(0xFFFFFFFF :: u64) = mask 32"
      by (simp add: mask_eq_exp_minus_1)
    have "(ucast (t AND 0xFFFFFFFF) :: u32) = ucast t"
      unfolding m by (rule bit_word_eqI) (simp add: bit_simps)
    then show ?thesis
      by (simp add: unsigned_ucast_eq take_bit_eq_mod)
  qed
  show ?thesis
    unfolding hi lo by (rule div_mult_mod_eq[symmetric])
qed

lemma setup_capture_ready:
  "ready_hostctrl cfg d mode ports mac t h (setup_capture cfg d mode ports mac t h)"
  using time_halves[of t]
  by (simp add: ready_hostctrl_def setup_capture_def) (simp add: fill_dma_buffers_def fill_dma_nth)

text \<open>The sink of a capture that starts.\<close>

definition first_sink :: "u32 \<Rightarrow> filelist \<Rightarrow> sink" where
  "first_sink mode fl = new_sink (fl\<lparr>fRingBuffer := (mode AND NETANA_CAPTUREMODE_RINGBUFFER \<noteq> 0)\<rparr>)"

lemma first_sink_simps [simp]:
  "sk_cap (first_sink mode fl) = unat (ullFileSize fl)" "sk_count (first_sink mode fl) = unat (ulFileCount fl)"
  "sk_ring (first_sink mode fl) = (mode AND NETANA_CAPTUREMODE_RINGBUFFER \<noteq> 0)" "sk_active (first_sink mode fl)"
  "sink_data (first_sink mode fl) = []" "sk_used (first_sink mode fl) = {0}" "sk_payload (first_sink mode fl) i = []"
  by (simp_all add: first_sink_def new_sink_def sink_data_def)

lemma start_files_ready:
  assumes "file_device ops" "start_files ops cfg mode t (files_of s) = (NETANA_NO_ERROR, x)" "filelist_ready s"
    and "unat (ullFileSize (flst (dev s))) < 2 ^ 63" "0 < ulFileCount (flst (dev s))"
  shows "files_rel x (first_sink mode (flst (dev s)))"
proof -
  let ?h = "(tFileHeader (flst (dev s)))\<lparr>fh_ulCookie := NETANA_FILE_HEADER_COOKIE, fh_ulIdx := 0,
      fh_ullCaptureStart := t, fh_lTimezoneCorrection := g_lTimezoneCorrection cfg, fh_ulReserved := 0\<rparr>"
  let ?fl = "(flst (dev s))\<lparr>fRingBuffer := (mode AND NETANA_CAPTUREMODE_RINGBUFFER \<noteq> 0), ulCurrentFile := 0,
      fWriteToFile := True, tFileHeader := ?h\<rparr>"
  have fresh: "fresh_upto (unat (ulFileCount ?fl)) (?fl, fstore s)"
    using assms(3,5) by (simp add: filelist_ready_def fresh_upto_def files_of_def Let_def)
  have "files_rel (snd (netana_tkit_writefileheader ops NETANA_FILE_HEADER_SIZE_INVALID (?fl, fstore s))) (new_sink ?fl)"
    using assms(3-5) by (intro file_device.start_fresh[OF assms(1)] fresh) (simp_all add: filelist_ready_def Let_def)
  moreover have "x = snd (netana_tkit_writefileheader ops NETANA_FILE_HEADER_SIZE_INVALID (?fl, fstore s))"
    using assms(2,5) by (auto simp: start_files_def files_of_def Let_def split: prod.splits)
  ultimately show ?thesis
    by (simp add: new_sink_def first_sink_def)
qed

lemma start_files_frame:
  assumes "start_files ops cfg mode t (fl, fs) = (r, x)"
  shows "ulFileCount (fst x) = ulFileCount fl" "0 < ulFileCount fl \<Longrightarrow> ulCurrentFile (fst x) = 0"
    "ulFileCount fl = 0 \<Longrightarrow> \<not> fWriteToFile (fst x)"
proof -
  have x: "x = snd (start_files ops cfg mode t (fl, fs))"
    by (simp add: assms)
  show "ulFileCount (fst x) = ulFileCount fl" "0 < ulFileCount fl \<Longrightarrow> ulCurrentFile (fst x) = 0"
    "ulFileCount fl = 0 \<Longrightarrow> \<not> fWriteToFile (fst x)"
    unfolding x by (simp_all add: start_files_def Let_def case_prod_beta)
qed

lemma linux_start_files:
  assumes "fst (start_files (linux_ops P) cfg mode t (fl, fs)) = NETANA_NO_ERROR"
  shows "ulFileCount fl = 0"
proof (rule ccontr)
  assume "ulFileCount fl \<noteq> 0"
  moreover have "fst (netana_tkit_writefileheader (linux_ops P) sz y) = NETANA_FILE_WRITE_FAILED" for sz y
    by (cases y) (simp add: netana_tkit_writefileheader_def linux_ops_def OS_FileWrite_def Let_def)
  ultimately have "fst (start_files (linux_ops P) cfg mode t (fl, fs)) = NETANA_FILE_WRITE_FAILED"
    by (simp add: start_files_def Let_def case_prod_beta word_greater_zero_iff)
  then show False
    using assms by simp
qed

text \<open>The state in which the start command is sent.\<close>

definition start_state :: "nat option \<Rightarrow> nat option \<Rightarrow> nat \<Rightarrow> files \<Rightarrow> host_control_block \<Rightarrow> sys \<Rightarrow> sys" where
  "start_state st dat usr x h s = s\<lparr>dev := (dev s)\<lparr>pfnStatus := st, pfnData := dat, pvUser := usr, flst := fst x, ulCurrentBuffer := 0\<rparr>,
     fstore := snd x, dpm := (dpm s)\<lparr>tHostControlBlock := h\<rparr>\<rparr>"

lemma send_beside_inv:
  assumes "send_beside ops b to s = Some (r, s')" "capture_inv s"
  shows "capture_inv s'"
proof -
  have t: "capture_inv (netana_tkit_ToggleBit b s1) = capture_inv s1" for s1
    by (simp add: capture_inv_def dev_Toggle)
  have w: "wait_beside ops b st to s1 = Some (r, s2) \<Longrightarrow> capture_inv s1 \<Longrightarrow> capture_inv s2" for st s1 r s2
    by (erule wait_beside_keeps[where P = capture_inv]) (assumption, blast intro: dsr_inv inv_tick(1))
  show ?thesis
    using assms w by (auto simp: send_beside_def bind_eq_Some_conv t split: if_splits)
qed

text \<open>C9: A capture which \<open>netana_start_capture\<close> reports as started, on any port: there was none running, and there are files or
  a data callback. The start command was sent from the instance as it was at the call, with the callbacks registered, processing
  at buffer 0, the file list started, and a host control block that gives all DMA buffers to the netX, with the
  addresses and sizes of the instance, and carries mode, ports, timeout and time; the device answered the command. Whatever the DSR thread
  processes meanwhile, the callbacks stay registered and buffer and file indices are in range. With a file list whose files
  are fresh, on a port that keeps the file contract, the capture files then represent an empty capture of the configured capacity
  and the data taken since, the same as the user was given; without one nothing is written to files. On the Linux port
  no capture with a file list is ever started.\<close>

theorem start_capture_correct:
  assumes "netana_start_capture ops cfg mode ports mac t st dat usr s = Some (NETANA_NO_ERROR, s')"
    and "0 < ulDMABufferCount (dev s)"
  shows "\<not> IsCaptureRunning s \<and> (0 < ulFileCount (flst (dev s)) \<or> dat \<noteq> None) \<and>
    (\<exists>h x. ready_hostctrl cfg (dev s) mode ports mac t (tHostControlBlock (dpm s)) h \<and>
       start_files ops cfg mode t (files_of s) = (NETANA_NO_ERROR, x) \<and>
       send_beside ops NETANA_STARTSTOP_BIT NETANA_DEFAULT_TIMEOUT (start_state st dat usr x h s) = Some (True, s')) \<and>
    answered NETANA_STARTSTOP_BIT s s' \<and>
    pfnStatus (dev s') = st \<and> pfnData (dev s') = dat \<and> pvUser (dev s') = usr \<and> capture_inv s' \<and>
    (file_device ops \<and> filelist_ready s \<and> 0 < ulFileCount (flst (dev s)) \<and> unat (ullFileSize (flst (dev s))) < 2 ^ 63 \<and>
      honest_netx (unat (ullFileSize (flst (dev s)))) s \<longrightarrow>
      (\<exists>ds. files_rel (files_of s') (stored ds (first_sink mode (flst (dev s)))) \<and> dataLog s' = calls (dev s') ds @ dataLog s)) \<and>
    (ulFileCount (flst (dev s)) = 0 \<longrightarrow> \<not> fWriteToFile (flst (dev s'))) \<and>
    (\<forall>P. ops = linux_ops P \<longrightarrow> ulFileCount (flst (dev s)) = 0)"
proof -
  let ?s1 = "upd_dev (\<lambda>d. d\<lparr>pfnStatus := st, pfnData := dat, pvUser := usr\<rparr>) s"
  let ?s2 = "upd_hostctrl (setup_capture cfg (dev ?s1) mode ports mac t) ?s1"
  let ?h = "setup_capture cfg (dev ?s1) mode ports mac t (tHostControlBlock (dpm s))"
  let ?fl = "flst (dev s)"
  obtain r x where sf: "start_files ops cfg mode t (files_of ?s2) = (r, x)"
    by (metis surj_pair)
  have same: "files_of ?s2 = (?fl, fstore s)"
    by (simp add: files_of_def upd_hostctrl_def upd_dev_def)
  have s3: "upd_dev (\<lambda>d. d\<lparr>ulCurrentBuffer := 0\<rparr>) (set_files x ?s2) = start_state st dat usr x ?h s"
    by (simp add: start_state_def set_files_def upd_hostctrl_def upd_dev_def)
  let ?c = "start_state st dat usr x ?h s"
  have pre: "\<not> IsCaptureRunning s" "\<not> (ulFileCount ?fl = 0 \<and> dat = None)" and r: "r = NETANA_NO_ERROR"
    and cmd: "send_beside ops NETANA_STARTSTOP_BIT NETANA_DEFAULT_TIMEOUT ?c = Some (True, s')"
    using assms(1) by (auto simp: netana_start_capture_def Let_def sf s3 bind_eq_Some_conv split: if_splits)
  have c: "dev ?c = (dev s)\<lparr>pfnStatus := st, pfnData := dat, pvUser := usr, flst := fst x, ulCurrentBuffer := 0\<rparr>"
    "files_of ?c = x" "dataLog ?c = dataLog s" "env ?c = env s"
    by (simp_all add: start_state_def files_of_def)
  note ans = send_beside_answered[OF cmd, unfolded engine_bits_def]
  have "answered NETANA_STARTSTOP_BIT s s'"
    using ans(1) by (simp add: answered_def hostbit_def c)
  moreover have fx: "fixed_dev (dev s') = fixed_dev (dev ?c)"
    using ans(2) by simp
  moreover note xf = start_files_frame[OF sf[unfolded same]]
  have inv: "capture_inv ?c"
    using assms(2) xf by (cases "ulFileCount ?fl = 0") (simp_all add: capture_inv_def c word_greater_zero_iff)
  have inv': "capture_inv s'"
    by (rule send_beside_inv[OF cmd inv])
  moreover have "\<not> fWriteToFile (flst (dev s'))" if "ulFileCount ?fl = 0"
    using inv' that xf(1) fixed_dev_fields(6)[OF fx] by (simp add: capture_inv_def c)
  moreover have "ready_hostctrl cfg (dev s) mode ports mac t (tHostControlBlock (dpm s)) ?h"
    using setup_capture_ready[of cfg "dev ?s1" mode ports mac t] by (simp add: ready_hostctrl_def upd_dev_def)
  moreover have "\<exists>ds. files_rel (files_of s') (stored ds (first_sink mode ?fl)) \<and> dataLog s' = calls (dev s') ds @ dataLog s"
    if "file_device ops" "filelist_ready s" "0 < ulFileCount ?fl" "unat (ullFileSize ?fl) < 2 ^ 63" "honest_netx (unat (ullFileSize ?fl)) s"
  proof -
    have "files_rel x (first_sink mode ?fl)"
      using sf same r by (intro start_files_ready[OF that(1) _ that(2,4,3), of cfg mode t]) (simp add: files_of_def)
    moreover have "honest_netx (unat (ullFileSize ?fl)) ?c"
      using that(5) by (simp add: honest_netx_def honest_dpm_def start_state_def)
    ultimately have "ready_to_take (first_sink mode ?fl) ?c"
      using inv by (simp add: ready_to_take_def c)
    from file_device.send_beside_taken[OF that(1) cmd this]
    obtain ds where "taken (first_sink mode ?fl) ds ?c s'"
      by blast
    then show ?thesis
      using calls_fixed[OF fx] by (auto simp: taken_def c)
  qed
  moreover have "ulFileCount ?fl = 0" if "ops = linux_ops P" for P
    using linux_start_files[of P cfg mode t ?fl "fstore s"] sf same r that by simp
  ultimately show ?thesis
    using pre cmd r sf same fixed_dev_fields(1-3)[OF fx] by (auto simp: c files_of_def word_greater_zero_iff)
qed

lemma start_files_sample:
  "\<exists>x. start_files port_ops sample_config 0 7 (files_of listed_sample) = (NETANA_NO_ERROR, x) \<and>
     ulFileCount (fst x) = 1 \<and> handle_of (fst x) 0 = 1"
proof -
  have sf: "\<exists>x. start_files port_ops sample_config 0 7 (fl, fs) = (NETANA_NO_ERROR, x) \<and> ulFileCount (fst x) = 1 \<and>
      handle_of (fst x) 0 = 1"
    if "ulFileCount fl = 1" "fs_pos (fs 1) = 0" "fs_room (fs 1) = 60"
      "atFiles fl ! 0 = \<lparr>fd_hFile = 1, fd_ullOffset = 0, fd_ullDataWritten = 0\<rparr>" "length (atFiles fl) = 256" for fl fs
    using that
    by (simp add: start_files_def netana_tkit_writefileheader_def port_ops_def stdio_fwrite_def upd_file_def
        handle_of_def Let_def)
  show ?thesis
    unfolding files_of_def
    by (rule sf) (simp_all add: listed_sample_def set_files_def idle_sample_def sample_defs)
qed

lemma listed_sample_ready: "filelist_ready listed_sample" "unat (ullFileSize (flst (dev listed_sample))) < 2 ^ 63"
    "0 < ulFileCount (flst (dev listed_sample))" "ulFileCount (flst (dev listed_sample)) = 1"
  by (simp add: filelist_ready_def fresh_upto_def listed_sample_def idle_sample_def handle_of_def sample_defs inj_on_def)
     (simp_all add: listed_sample_def sample_defs)

lemma honest_sample:
  assumes "ulDMABufferCount d = 2" "atDMABuffers d = atDMABuffers sample_dev" "tNetxStatusBlock m = sample_status\<lparr>ns_ulCaptureState := c\<rparr>"
    "dmaMem m = dmaMem sample_dpm"
  shows "honest_dpm 60 d m"
proof -
  have "ns_aulUsedBufferSize (tNetxStatusBlock m) ! b \<le> db_ulBufferSize (atDMABuffers d ! b) \<and>
     unat (db_ulBufferSize (atDMABuffers d ! b)) \<le> length (dmaMem m ! b) \<and> 32 + unat (db_ulBufferSize (atDMABuffers d ! b)) \<le> 60"
    if "b < unat (ulDMABufferCount d)" for b
  proof -
    have "b < 2"
      using that assms(1) by simp
    then consider "b = 0" | "b = 1"
      by linarith
    then show ?thesis
      unfolding assms(2-4) by cases (simp_all add: sample_status_def sample_dev_def sample_dpm_def)
  qed
  then show ?thesis
    by (simp add: honest_dpm_def)
qed

lemma start_capture_correct_witness:
  "\<exists>s'. netana_start_capture port_ops sample_config 0 3 0 7 None (Some 1) 9 listed_sample = Some (NETANA_NO_ERROR, s') \<and>
     answered NETANA_STARTSTOP_BIT listed_sample s' \<and> (\<exists>ds. files_rel (files_of s') (stored ds (first_sink 0 (flst (dev listed_sample)))))"
proof -
  obtain x where x: "start_files port_ops sample_config 0 7 (files_of listed_sample) = (NETANA_NO_ERROR, x)"
    using start_files_sample by blast
  let ?s1 = "upd_dev (\<lambda>d. d\<lparr>pfnStatus := None, pfnData := Some 1, pvUser := 9\<rparr>) listed_sample"
  let ?s2 = "upd_hostctrl (setup_capture sample_config (dev ?s1) 0 3 0 7) ?s1"
  let ?s3 = "upd_dev (\<lambda>d. d\<lparr>ulCurrentBuffer := 0\<rparr>) (set_files x ?s2)"
  have same: "files_of ?s2 = files_of listed_sample"
    by (simp add: files_of_def upd_hostctrl_def upd_dev_def)
  have s3: "ulHostFlags (dev ?s3) = 0" "ulNetxFlags (dev ?s3) = 0" "env ?s3 = [quiet 5, ack 4 9]" "now ?s3 = 0"
    by (simp_all add: upd_dev_def set_files_def upd_hostctrl_def listed_sample_def idle_sample_def sample_defs)
  then have "\<exists>s4. send_command NETANA_STARTSTOP_BIT NETANA_DEFAULT_TIMEOUT id ?s3 = Some (True, s4)"
    by (simp add: send_command_def netana_tkit_WaitForBitState_def hostbit_def netxbit_def quiet_def ack_def
        netana_tkit_ToggleBit_def os_wait_def apply_tick_def Let_def bit_xor_iff)
  moreover have "\<forall>t \<in> set (env ?s3). \<not> tk_dsr t"
    by (simp only: s3) (simp add: quiet_def ack_def)
  ultimately have "\<exists>s4. send_beside port_ops NETANA_STARTSTOP_BIT NETANA_DEFAULT_TIMEOUT ?s3 = Some (True, s4)"
    by (simp only: send_beside_alone)
  moreover have "\<not> IsCaptureRunning listed_sample"
    by (simp add: IsCaptureRunning_def listed_sample_def idle_sample_def sample_defs)
  ultimately have "\<exists>s'. netana_start_capture port_ops sample_config 0 3 0 7 None (Some 1) 9 listed_sample = Some (NETANA_NO_ERROR, s')"
    unfolding netana_start_capture_def Let_def same x by auto
  moreover have "0 < ulDMABufferCount (dev listed_sample)"
    by (simp add: listed_sample_def set_files_def idle_sample_def sample_defs)
  moreover have "honest_netx (unat (ullFileSize (flst (dev listed_sample)))) listed_sample"
  proof -
    have l: "ulDMABufferCount (dev listed_sample) = 2" "atDMABuffers (dev listed_sample) = atDMABuffers sample_dev"
      "tNetxStatusBlock (dpm listed_sample) = sample_status\<lparr>ns_ulCaptureState := 0\<rparr>" "dmaMem (dpm listed_sample) = dmaMem sample_dpm"
      "unat (ullFileSize (flst (dev listed_sample))) = 60" "env listed_sample = [quiet 5, ack 4 9]"
      by (simp_all add: listed_sample_def set_files_def idle_sample_def sample_defs)
    then have "honest_dpm 60 (dev listed_sample) (dpm listed_sample)"
      by (intro honest_sample) simp_all
    then show ?thesis
      unfolding honest_netx_def l(5,6) by (simp add: quiet_def ack_def)
  qed
  ultimately show ?thesis
    using start_capture_correct[of port_ops sample_config 0 3 0 7 None "Some 1" 9 listed_sample] listed_sample_ready
      port.file_device_axioms by auto
qed

section \<open>Stopping\<close>

lemma frame_reset: "engine_frame s (s\<lparr>hStopComplete := e\<rparr>)"
  by (auto simp: engine_frame_def hostbit_def intro: exI[of _ 0] exI[of _ "[]"])

lemma frame_wait_stop: "wait_stop ops s = Some (r, s') \<Longrightarrow> engine_frame s s'"
  by (auto simp: wait_stop_def bind_eq_Some_conv split: if_splits list.splits
      intro!: frame_reset engine_frame_trans[OF engine_frame_trans[OF frame_tick frame_dsr] frame_reset])

lemma frame_stop_loop: "stop_loop ops n s = Some s' \<Longrightarrow> engine_frame s s'"
  by (induction n arbitrary: s)
     (auto simp: bind_eq_Some_conv split: if_splits dest: frame_wait_stop intro: engine_frame_trans)

context file_device
begin

lemma wait_stop_took:
  assumes "wait_stop ops s = Some (r, s')" "took s0 k ds s"
  shows "\<exists>ds'. took s0 k ds' s'"
proof -
  have reset: "took s0 k es (t\<lparr>hStopComplete := e\<rparr>)" if "took s0 k es t" for es t e
    using that by (intro took_keep[OF that frame_reset]) (simp_all add: took_def files_of_def honest_netx_def capture_inv_def)
  show ?thesis
  proof (cases "hStopComplete s")
    case True
    then show ?thesis
      using assms reset by (auto simp: wait_stop_def)
  next
    case False
    then obtain t ts s1 where "env s = t # ts" "dsr_thread ops t (apply_tick t (s\<lparr>env := ts\<rparr>)) = Some s1"
        "s' = s1\<lparr>hStopComplete := False\<rparr>"
      using assms(1) by (auto simp: wait_stop_def bind_eq_Some_conv split: list.splits)
    then show ?thesis
      using dsr_takes[OF _ took_tick(2)[OF assms(2)]] reset by blast
  qed
qed

lemma stop_loop_took: "stop_loop ops n s = Some s' \<Longrightarrow> took s0 k ds s \<Longrightarrow> \<exists>ds'. took s0 k ds' s'"
proof (induction n arbitrary: s ds)
  case (Suc n)
  then obtain r s1 where "wait_stop ops s = Some (r, s1)" "if r then s' = s1 else stop_loop ops n s1 = Some s'"
    by (auto simp: bind_eq_Some_conv split: if_splits)
  then show ?case
    using wait_stop_took[of s r s1 s0 k ds] Suc by (auto split: if_splits)
qed auto

lemma stop_loop_taken:
  assumes "stop_loop ops n s = Some s'" "ready_to_take k s"
  shows "\<exists>ds. taken k ds s s'"
proof -
  have "took s k [] s"
    using assms(2) by (simp add: ready_to_take_def took_start)
  then obtain ds where "took s k ds s'"
    using stop_loop_took[OF assms(1)] by blast
  then show ?thesis
    by (auto simp: took_def taken_def engine_frame_def)
qed

end

text \<open>C10: When \<open>netana_stop_capture\<close> reports success, on any port, a capture was running and this call sent the stop command, once: its first wait
  found the channel free (\<open>s1\<close>), the command bit was toggled, the device answered it in the second wait (\<open>s2\<close>), and at most 50 waits for the end of
  the last DMA followed (\<open>s3\<close>), the DSR thread processing data in all of them; the files were then finished as they were left there. At the return the
  command bit of the host still differs from its value at the call, the callbacks are gone, \<open>ulFileCount\<close> is 0 and no file of the list has a
  handle. On a port that keeps the file contract, and with a firmware that announces no more data than the buffers hold, every file is closed, and the
  used ones hold, behind a header with the right size, exactly what had been captured before and the data taken during the stop, the same as the user was given.\<close>

theorem stop_capture_correct:
  assumes "netana_stop_capture ops s = Some (NETANA_NO_ERROR, s')"
  shows "IsCaptureRunning s \<and>
    (\<exists>s1 s2 s3. wait_beside ops NETANA_STARTSTOP_BIT NETANA_BITSTATE_EQUAL NETANA_DEFAULT_TIMEOUT s = Some (True, s1) \<and>
       wait_beside ops NETANA_STARTSTOP_BIT NETANA_BITSTATE_EQUAL NETANA_DEFAULT_TIMEOUT
         (netana_tkit_ToggleBit NETANA_STARTSTOP_BIT (s1\<lparr>hStopComplete := False\<rparr>)) = Some (True, s2) \<and>
       answered NETANA_STARTSTOP_BIT s s2 \<and> stop_loop ops 50 s2 = Some s3 \<and>
       files_of s' = finish_files ops (files_of s3) \<and> dataLog s' = dataLog s3) \<and>
    hostbit s' NETANA_STARTSTOP_BIT \<noteq> hostbit s NETANA_STARTSTOP_BIT \<and>
    pfnStatus (dev s') = None \<and> pfnData (dev s') = None \<and> ulFileCount (flst (dev s')) = 0 \<and>
    (unat (ulFileCount (flst (dev s))) \<le> length (atFiles (flst (dev s))) \<longrightarrow>
      (\<forall>i < unat (ulFileCount (flst (dev s))). handle_of (flst (dev s')) i = 0)) \<and>
    (\<forall>k. file_opener ops \<and> files_rel (files_of s) k \<and> (\<forall>i < sk_count k. handle_of (flst (dev s)) i \<noteq> 0) \<and>
       capture_inv s \<and> honest_netx (sk_cap k) s \<longrightarrow>
      (\<exists>ds. dataLog s' = calls (dev s) ds @ dataLog s \<and>
        (\<forall>i < sk_count k. \<not> fs_open (fstore s' (handle_of (flst (dev s)) i)) \<and>
          (i \<in> sk_used (stored ds k) \<longrightarrow>
             finished_file (sk_payload (stored ds k) i) (fstore s' (handle_of (flst (dev s)) i))))))"
proof -
  have run: "IsCaptureRunning s"
    using assms by (auto simp: netana_stop_capture_def split: if_splits)
  obtain s1 s2 s3 where
    w1: "wait_beside ops NETANA_STARTSTOP_BIT NETANA_BITSTATE_EQUAL NETANA_DEFAULT_TIMEOUT s = Some (True, s1)" and
    w2: "wait_beside ops NETANA_STARTSTOP_BIT NETANA_BITSTATE_EQUAL NETANA_DEFAULT_TIMEOUT
       (netana_tkit_ToggleBit NETANA_STARTSTOP_BIT (s1\<lparr>hStopComplete := False\<rparr>)) = Some (True, s2)" and
    l: "stop_loop ops 50 s2 = Some s3" and
    s': "s' = (let s4 = upd_dev (\<lambda>d. d\<lparr>pfnStatus := None, pfnData := None\<rparr>) s3 in set_files (finish_files ops (files_of s4)) s4)"
    using assms run
    by (auto simp: netana_stop_capture_def bind_eq_Some_conv Let_def simp del: stop_loop.simps split: if_splits prod.splits)
  note ans = sent_answered[OF w1 _ _ w2, unfolded engine_bits_def, simplified]
  have fr: "engine_frame s2 s3"
    by (rule frame_stop_loop[OF l])
  have fx: "fixed_dev (dev s3) = fixed_dev (dev s)"
    using fr ans(2) by (simp add: engine_frame_def)
  have files: "files_of (upd_dev (\<lambda>d. d\<lparr>pfnStatus := None, pfnData := None\<rparr>) s3) = files_of s3"
    by (simp add: files_of_def upd_dev_def)
  have res: "files_of s' = finish_files ops (files_of s3)" "pfnStatus (dev s') = None" "pfnData (dev s') = None"
      "dataLog s' = dataLog s3" "ulHostFlags (dev s') = ulHostFlags (dev s3)"
    unfolding s' Let_def files by (simp_all add: upd_dev_def)
  then have fst': "flst (dev s') = fst (finish_files ops (files_of s3))" "fstore s' = snd (finish_files ops (files_of s3))"
    by (metis files_of_def fst_conv, metis files_of_def snd_conv)
  have host: "hostbit s' NETANA_STARTSTOP_BIT \<noteq> hostbit s NETANA_STARTSTOP_BIT"
    using fr ans(1) by (auto simp: engine_frame_def engine_bits_def answered_def hostbit_def res(5))
  have cnt: "ulFileCount (fst (files_of s3)) = ulFileCount (flst (dev s))" "length (atFiles (fst (files_of s3))) = length (atFiles (flst (dev s)))"
    using fixed_dev_fields(6,7)[OF fx] by (simp_all add: files_of_def)
  have gone: "ulFileCount (flst (dev s')) = 0"
    unfolding fst' finish_files_def by (simp add: Let_def case_prod_beta word_greater_zero_iff)
  have handles: "handle_of (flst (dev s')) i = 0"
    if "unat (ulFileCount (flst (dev s))) \<le> length (atFiles (flst (dev s)))" "i < unat (ulFileCount (flst (dev s)))" for i
  proof -
    have "0 < ulFileCount (fst (files_of s3))"
      using that(2) cnt(1) by (auto simp: word_greater_zero_iff)
    then show ?thesis
      unfolding fst' finish_files_def using that cnt
      by (simp add: Let_def case_prod_beta CloseCaptureFiles_handles)
  qed
  have data: "\<exists>ds. dataLog s' = calls (dev s) ds @ dataLog s \<and>
        (\<forall>i < sk_count k. \<not> fs_open (fstore s' (handle_of (flst (dev s)) i)) \<and>
          (i \<in> sk_used (stored ds k) \<longrightarrow>
             finished_file (sk_payload (stored ds k) i) (fstore s' (handle_of (flst (dev s)) i))))"
    if op: "file_opener ops" and rel: "files_rel (files_of s) k" and hs: "\<forall>i < sk_count k. handle_of (flst (dev s)) i \<noteq> 0"
      and inv: "capture_inv s" and hon: "honest_netx (sk_cap k) s" for k
  proof -
    have fd: "file_device ops"
      using op by (simp add: file_opener_def)
    have "ready_to_take k s"
      using rel inv hon by (simp add: ready_to_take_def)
    from file_device.wait_beside_taken[OF fd w1 this] obtain ds1 where t1: "taken k ds1 s s1"
      by blast
    from file_device.wait_beside_taken[OF fd w2 taken_ready[OF taken_trans[OF t1 taken_toggle[OF taken_ready[OF t1]]]]]
    obtain ds2 where "taken (stored (ds1 @ []) k) ds2 (netana_tkit_ToggleBit NETANA_STARTSTOP_BIT (s1\<lparr>hStopComplete := False\<rparr>)) s2"
      by blast
    with taken_trans[OF t1 taken_toggle[OF taken_ready[OF t1]]] have t2: "taken k ((ds1 @ []) @ ds2) s s2"
      by (rule taken_trans)
    from file_device.stop_loop_taken[OF fd l taken_ready[OF t2]] obtain ds3
      where "taken (stored ((ds1 @ []) @ ds2) k) ds3 s2 s3"
      by blast
    with t2 have t3: "taken k (((ds1 @ []) @ ds2) @ ds3) s s3"
      by (rule taken_trans)
    define ds where "ds = ((ds1 @ []) @ ds2) @ ds3"
    have rel3: "files_rel (files_of s3) (stored ds k)" and log3: "dataLog s3 = calls (dev s) ds @ dataLog s"
      using t3 by (simp_all add: taken_def ds_def)
    have n: "sk_count k = unat (ulFileCount (flst (dev s)))" "sk_count k \<le> length (atFiles (flst (dev s)))" "0 < ulFileCount (flst (dev s))"
      using rel by (auto simp: files_rel_def files_inv_def files_of_def sink_ok_def word_greater_zero_iff)
    have h3: "handle_of (fst (files_of s3)) i = handle_of (flst (dev s)) i" if "i < sk_count k" for i
      using fixed_dev_fields(8)[OF fx, of i] fixed_dev_fields(7)[OF fx] that n(2) by (simp add: files_of_def)
    have "\<forall>i < sk_count (stored ds k). handle_of (fst (files_of s3)) i \<noteq> 0"
      using hs h3 by simp
    from file_opener.finish_files_result(2)[OF op rel3 _ this] n(3) cnt(1)
    have "\<forall>i < sk_count k. \<not> fs_open (fstore s' (handle_of (flst (dev s)) i)) \<and>
          (i \<in> sk_used (stored ds k) \<longrightarrow>
             finished_file (sk_payload (stored ds k) i) (fstore s' (handle_of (flst (dev s)) i)))"
      by (simp add: fst'(2) h3)
    then show ?thesis
      using log3 res(4) by (intro exI[of _ ds]) simp
  qed
  show ?thesis
    using run w1 w2 ans(1) l res host gone handles data by blast
qed

text \<open>A running capture whose first file is open; the device acknowledges the stop, then reports its end, which the DSR thread processes.\<close>

definition off_tick :: tick where
  "off_tick = \<lparr>tk_netx = Some 6,
     tk_dpm = (\<lambda>m. m\<lparr>tNetxStatusBlock := (tNetxStatusBlock m)\<lparr>ns_ulCaptureState := NETANA_CAPTURE_STATE_OFF\<rparr>\<rparr>),
     tk_now = 20, tk_dsr = True\<rparr>"

definition running_sample :: sys where
  "running_sample = (set_files (snd (start_files port_ops sample_config 0 7 (files_of listed_sample))) listed_sample)
     \<lparr>dpm := sample_dpm\<lparr>tNetxStatusBlock := sample_status\<lparr>ns_ulCaptureState := NETANA_CAPTURE_STATE_RUNNING\<rparr>\<rparr>,
      env := [ack 4 9, off_tick]\<rparr>"

lemma stop_capture_sample: "\<exists>s'. netana_stop_capture port_ops running_sample = Some (NETANA_NO_ERROR, s')"
proof -
  have r: "IsCaptureRunning running_sample" "ulHostFlags (dev running_sample) = 0" "ulNetxFlags (dev running_sample) = 0"
      "env running_sample = [ack 4 9, off_tick]" "hStopComplete running_sample = False"
    by (simp_all add: IsCaptureRunning_def running_sample_def set_files_def listed_sample_def idle_sample_def sample_defs)
  define s1 where "s1 = netana_tkit_ToggleBit NETANA_STARTSTOP_BIT (running_sample\<lparr>hStopComplete := False\<rparr>)"
  have s1: "ulHostFlags (dev s1) = 4" "ulNetxFlags (dev s1) = 0" "env s1 = [ack 4 9, off_tick]" "hStopComplete s1 = False"
    by (simp_all add: s1_def r msk_def)
  define s2 where "s2 = os_wait NETANA_STARTSTOP_BIT NETANA_DEFAULT_TIMEOUT (ack 4 9) [off_tick] s1"
  have s2: "ulHostFlags (dev s2) = 4" "ulNetxFlags (dev s2) = 4" "env s2 = [off_tick]" "hStopComplete s2 = False"
    by (simp_all add: s2_def os_wait_def apply_tick_def ack_def s1)
  have w2: "wait_beside port_ops NETANA_STARTSTOP_BIT NETANA_BITSTATE_EQUAL NETANA_DEFAULT_TIMEOUT s1 = Some (True, s2)"
    using s1(3) by (subst wait_beside_def, subst beside_loop.simps)
      (simp add: dsr_thread_def ack_def[of 4 9] s2_def[symmetric, unfolded ack_def] hostbit_def netxbit_def s1 s2)
  have "\<exists>s3. wait_stop port_ops s2 = Some (True, s3)"
    by (simp add: wait_stop_def s2 dsr_thread_def netana_tkit_process_def process_status_def off_tick_def apply_tick_def
        Let_def bind_eq_Some_conv bit_simps split: option.split)
  then obtain s3 where "stop_loop port_ops 50 s2 = Some s3"
    by (auto simp: numeral_eq_Suc)
  moreover have "wait_beside port_ops NETANA_STARTSTOP_BIT NETANA_BITSTATE_EQUAL NETANA_DEFAULT_TIMEOUT running_sample =
      Some (True, running_sample)"
    by (simp add: wait_beside_def hostbit_def netxbit_def r)
  ultimately show ?thesis
    using r(1) w2 by (simp add: netana_stop_capture_def s1_def Let_def)
qed

lemma running_sample_files:
  obtains x where "start_files port_ops sample_config 0 7 (files_of listed_sample) = (NETANA_NO_ERROR, x)"
    "files_of running_sample = x" "flst (dev running_sample) = fst x" "files_rel x (first_sink 0 (flst (dev listed_sample)))"
    "handle_of (fst x) 0 = 1" "ulFileCount (fst x) = 1"
proof -
  obtain x where x: "start_files port_ops sample_config 0 7 (files_of listed_sample) = (NETANA_NO_ERROR, x)"
      "ulFileCount (fst x) = 1" "handle_of (fst x) 0 = 1"
    using start_files_sample by blast
  then show ?thesis
    using start_files_ready[OF port.file_device_axioms x(1) listed_sample_ready(1-3)]
    by (intro that[of x]) (simp_all add: running_sample_def files_of_def set_files_def)
qed

lemma stop_capture_correct_witness:
  "\<exists>s'. netana_stop_capture port_ops running_sample = Some (NETANA_NO_ERROR, s') \<and>
     ulFileCount (flst (dev s')) = 0 \<and> \<not> fs_open (fstore s' 1)"
proof -
  let ?k = "first_sink 0 (flst (dev listed_sample))"
  obtain x where x: "files_of running_sample = x" "flst (dev running_sample) = fst x" "files_rel x ?k"
      "handle_of (fst x) 0 = 1" "ulFileCount (fst x) = 1"
    by (rule running_sample_files)
  have c: "sk_count ?k = 1" "sk_cap ?k = 60"
    using listed_sample_ready(4) by (simp_all add: listed_sample_def)
  have d: "ulDMABufferCount (dev running_sample) = 2" "atDMABuffers (dev running_sample) = atDMABuffers sample_dev"
    "ulCurrentBuffer (dev running_sample) = 0" "dmaMem (dpm running_sample) = dmaMem sample_dpm"
    "tNetxStatusBlock (dpm running_sample) = sample_status\<lparr>ns_ulCaptureState := NETANA_CAPTURE_STATE_RUNNING\<rparr>"
    "env running_sample = [ack 4 9, off_tick]"
    by (simp_all add: running_sample_def set_files_def listed_sample_def idle_sample_def sample_def) (simp_all add: sample_dev_def)
  have "honest_dpm 60 (dev running_sample) (dpm running_sample)"
    by (rule honest_sample[where c = NETANA_CAPTURE_STATE_RUNNING]) (simp_all add: d)
  moreover have "honest_dpm 60 d m \<Longrightarrow> honest_dpm 60 d (tk_dpm off_tick m)" for d m
    by (simp add: honest_dpm_def off_tick_def)
  ultimately have "honest_netx (sk_cap ?k) running_sample"
    unfolding honest_netx_def c(2) d(6) by (simp add: ack_def)
  moreover have "ulCurrentFile (fst x) = 0"
    using x(3) by (simp add: files_rel_def files_inv_def first_sink_def new_sink_def unat_eq_zero)
  then have "capture_inv running_sample"
    by (simp add: capture_inv_def d x)
  ultimately show ?thesis
    using stop_capture_correct[of port_ops running_sample] stop_capture_sample x port.file_opener_axioms c(1) by fastforce
qed

text \<open>C12: During a file capture \<open>netana_file_info\<close> reports the current file, counted from 1, and
  the sum of the data in all files, which is exactly what the capture files hold; it copies
  at most the size the caller gives and leaves the rest of the buffer alone.\<close>

theorem file_info_correct:
  assumes "IsCaptureRunning s" "files_rel (files_of s) k" "min (unat n) 28 \<le> length buf"
    and "\<forall>i < sk_count k. i \<notin> sk_used k \<longrightarrow> fd_ullDataWritten (atFiles (flst (dev s)) ! i) = 0"
  shows "fst (netana_file_info n buf s) = NETANA_NO_ERROR \<and>
    fi_ulActualFileNr (current_file_info (flst (dev s))) = of_nat (Suc (sk_cur k)) \<and>
    fi_ullTotalBytesWritten (current_file_info (flst (dev s))) =
      of_nat (\<Sum>i < sk_count k. length (sk_payload k i)) \<and>
    take (min (unat n) 28) (snd (netana_file_info n buf s)) =
      take (unat n) (file_information_bytes (current_file_info (flst (dev s)))) \<and>
    drop (min (unat n) 28) (snd (netana_file_info n buf s)) = drop (min (unat n) 28) buf"
proof -
  let ?fl = "flst (dev s)"
  have "files_rel (?fl, fstore s) k"
    using assms(2) by (simp add: files_of_def)
  then have "files_inv (sk_active k) (?fl, fstore s) k"
    unfolding files_rel_def by blast
  then have inv: "files_inv (sk_active k) (?fl, fstore s) k" "sink_ok k"
    by assumption (use \<open>files_inv (sk_active k) (?fl, fstore s) k\<close> in \<open>simp add: files_inv_def\<close>)
  have cnt: "sk_count k = unat (ulFileCount ?fl)" "sk_cur k = unat (ulCurrentFile ?fl)" "ulFileCount ?fl \<noteq> 0"
    using inv by (auto simp: files_inv_def sink_ok_def)
  have w: "fd_ullDataWritten (atFiles ?fl ! i) = of_nat (length (sk_payload k i))" if "i < sk_count k" for i
    using inv assms(4) that by (cases "i \<in> sk_used k") (auto simp: files_inv_def file_rel_def sink_ok_def)
  have sum: "m \<le> sk_count k \<Longrightarrow> fold (\<lambda>i n. n + fd_ullDataWritten (atFiles ?fl ! i)) [0..<m] (0 :: u64) =
      of_nat (\<Sum>i < m. length (sk_payload k i))" for m
    by (induction m) (simp_all add: w)
  have len: "length (file_information_bytes i) = 28" for i
    by (simp add: file_information_bytes_def)
  have "ulCurrentFile ?fl + 1 = of_nat (Suc (sk_cur k))"
    by (simp add: cnt(2))
  then show ?thesis
    using assms(1,3) cnt(3) sum[of "sk_count k"]
    by (simp add: netana_file_info_def current_file_info_def cnt(1) blit_def len min_def)
qed

lemma file_info_correct_witness:
  "fst (netana_file_info 4 [9, 9, 9, 9, 9] running_sample) = NETANA_NO_ERROR \<and>
   drop 4 (snd (netana_file_info 4 [9, 9, 9, 9, 9] running_sample)) = [9]"
proof -
  let ?k = "first_sink 0 (flst (dev listed_sample))"
  obtain x where x: "files_of running_sample = x" "flst (dev running_sample) = fst x" "files_rel x ?k"
    by (rule running_sample_files)
  have "sk_count ?k = 1"
    using listed_sample_ready(4) by simp
  moreover have "IsCaptureRunning running_sample"
    by (simp add: IsCaptureRunning_def running_sample_def)
  ultimately show ?thesis
    using file_info_correct[of running_sample ?k 4 "[9, 9, 9, 9, 9]"] x by simp
qed

end
