(* ===== verification/Packets.thy ===== *)
theory Packets
  imports Netana_State
begin

text \<open>
  The packets exchanged through the mailboxes: the ten words of the header
  (\<open>NETANA_PACKET_HEADER\<close>, the same as \<open>RCX_PACKET_HEADER\<close>) followed by the data. A mailbox
  transports bytes, so the packet is encoded and decoded little endian;
  \<open>read_packet_bytes\<close> shows that decoding inverts encoding.
\<close>

record packet =
  pk_ulDest :: u32
  pk_ulSrc :: u32
  pk_ulDestId :: u32
  pk_ulSrcId :: u32
  pk_ulLen :: u32
  pk_ulId :: u32
  pk_ulState :: u32
  pk_ulCmd :: u32
  pk_ulExt :: u32
  pk_ulRout :: u32
  pk_abData :: bytes

definition header_words :: "packet \<Rightarrow> u32 list" where
  "header_words p = [pk_ulDest p, pk_ulSrc p, pk_ulDestId p, pk_ulSrcId p, pk_ulLen p, pk_ulId p,
     pk_ulState p, pk_ulCmd p, pk_ulExt p, pk_ulRout p]"

definition packet_bytes :: "packet \<Rightarrow> bytes" where
  "packet_bytes p = concat (map le32 (header_words p)) @ pk_abData p"

text \<open>Four bytes, little endian.\<close>

definition rd32 :: "bytes \<Rightarrow> u32" where
  "rd32 bs = ucast (bs ! 0) OR push_bit 8 (ucast (bs ! 1)) OR push_bit 16 (ucast (bs ! 2)) OR
     push_bit 24 (ucast (bs ! 3))"

definition word_at :: "nat \<Rightarrow> bytes \<Rightarrow> u32" where
  "word_at i bs = rd32 (take 4 (drop (4 * i) bs))"

definition read_packet :: "bytes \<Rightarrow> packet" where
  "read_packet bs = \<lparr>pk_ulDest = word_at 0 bs, pk_ulSrc = word_at 1 bs, pk_ulDestId = word_at 2 bs,
     pk_ulSrcId = word_at 3 bs, pk_ulLen = word_at 4 bs, pk_ulId = word_at 5 bs, pk_ulState = word_at 6 bs,
     pk_ulCmd = word_at 7 bs, pk_ulExt = word_at 8 bs, pk_ulRout = word_at 9 bs, pk_abData = drop 40 bs\<rparr>"

lemma le32_list: "le32 w = [ucast w, ucast (drop_bit 8 w), ucast (drop_bit 16 w), ucast (drop_bit 24 w)]"
  by (simp add: le32_def upt_rec)

lemma rd32_le32 [simp]: "rd32 (le32 w) = w"
proof (rule bit_word_eqI)
  fix n assume "n < LENGTH(32)"
  then have n: "n < 32"
    by simp
  then consider "n < 8" | "8 \<le> n" "n < 16" | "16 \<le> n" "n < 24" | "24 \<le> n" "n < 32"
    by linarith
  then show "bit (rd32 (le32 w)) n = bit w n"
    by cases (auto simp: rd32_def le32_list bit_or_iff bit_push_bit_iff bit_ucast_iff bit_drop_bit_eq)
qed

lemma length_packet_bytes [simp]: "length (packet_bytes p) = 40 + length (pk_abData p)"
  by (simp add: packet_bytes_def header_words_def)

lemma word_at_concat:
  "i < length ws \<Longrightarrow> word_at i (concat (map le32 ws) @ bs) = ws ! i"
proof (induction ws arbitrary: i)
  case (Cons w ws)
  show ?case
  proof (cases i)
    case (Suc j)
    then have "word_at i (concat (map le32 (w # ws)) @ bs) = word_at j (concat (map le32 ws) @ bs)"
      by (simp add: word_at_def)
    then show ?thesis
      using Cons Suc by simp
  qed (simp add: word_at_def)
qed simp

lemma word_at_packet_bytes: "i < 10 \<Longrightarrow> word_at i (packet_bytes p) = header_words p ! i"
  unfolding packet_bytes_def by (rule word_at_concat) (simp add: header_words_def)

lemma read_packet_bytes [simp]: "read_packet (packet_bytes p) = p"
  by (cases p)
     (simp add: read_packet_def word_at_packet_bytes header_words_def, simp add: packet_bytes_def header_words_def)

text \<open>A prefix of at least 40 bytes carries the header.\<close>

lemma word_at_take: "4 * i + 4 \<le> n \<Longrightarrow> word_at i (take n bs) = word_at i bs"
  by (simp add: word_at_def drop_take min_def)

lemma read_packet_take:
  "40 \<le> n \<Longrightarrow> read_packet (take n (packet_bytes p)) = p\<lparr>pk_abData := take (n - 40) (pk_abData p)\<rparr>"
  by (cases p)
     (simp add: read_packet_def word_at_take word_at_packet_bytes header_words_def drop_take,
      simp add: packet_bytes_def header_words_def)

definition packet_wf :: "packet \<Rightarrow> bool" where
  "packet_wf p \<longleftrightarrow> unat (pk_ulLen p) = length (pk_abData p)"

text \<open>The size \<open>ulLen + HEADER_SIZE\<close>, computed on 32 bits.\<close>

definition packet_size :: "packet \<Rightarrow> u32" where
  "packet_size p = pk_ulLen p + NETANA_PACKET_HEADER_SIZE"

lemma packet_size_wf:
  assumes "packet_wf p" "length (pk_abData p) + 40 < 2 ^ 32"
  shows "unat (packet_size p) = length (packet_bytes p)"
  using assms by (simp add: packet_size_def packet_wf_def unat_add_no_wrap)

end
