(* ===== verification/Api_Mailbox.thy ===== *)
theory Api_Mailbox
  imports Api_Command Packets
begin

text \<open>
  The packet interface of the toolkit API (\<open>netana_functions.c\<close>): \<open>put_packet\<close> and
  \<open>get_packet\<close> with the mutexes of \<open>netana_put_packet\<close> and \<open>netana_get_packet\<close>, and
  \<open>netana_get_mbx_state\<close>. The answer of \<open>OS_WaitMutex\<close> is an argument of the calls.
\<close>

definition send_bit :: "sys \<Rightarrow> nat" where
  "send_bit s = unat (tx_bSendCMDBitoffset (tSendMbx (dev s)))"

definition recv_bit :: "sys \<Rightarrow> nat" where
  "recv_bit s = unat (rx_bRecvACKBitoffset (tRecvMbx (dev s)))"

definition write_send_mailbox :: "bytes \<Rightarrow> sys \<Rightarrow> sys" where
  "write_send_mailbox bs s = s\<lparr>dpm := (dpm s)\<lparr>tSendMailbox := (tSendMailbox (dpm s))
     \<lparr>sm_abSendMailbox := blit 0 bs (sm_abSendMailbox (tSendMailbox (dpm s)))\<rparr>\<rparr>\<rparr>"

definition put_packet :: "packet \<Rightarrow> u32 \<Rightarrow> (sys, u32) proc" where
  "put_packet ptSendPkt ulTimeout s =
     (if packet_size ptSendPkt > tx_ulSendMailboxLength (tSendMbx (dev s))
      then Some (NETANA_DEV_MAILBOX_TOO_SHORT, s)
      else do {
        (ok, s1) \<leftarrow> netana_tkit_WaitForBitState (send_bit s) NETANA_BITSTATE_EQUAL ulTimeout s;
        if ok then
          Some (NETANA_NO_ERROR, netana_tkit_ToggleBit (send_bit s)
            (write_send_mailbox (take (unat (packet_size ptSendPkt)) (packet_bytes ptSendPkt))
              (upd_dev (\<lambda>d. d\<lparr>tSendMbx := (tSendMbx d)\<lparr>tx_ulSendPacketCnt := tx_ulSendPacketCnt (tSendMbx d) + 1\<rparr>\<rparr>) s1)))
        else Some (NETANA_DEV_MAILBOX_FULL, s1)
      })"

definition get_packet :: "bytes \<Rightarrow> u32 \<Rightarrow> u32 \<Rightarrow> (sys, u32 \<times> bytes) proc" where
  "get_packet ptRecvPkt ulRecvBufferSize ulTimeout s = do {
     (ok, s1) \<leftarrow> netana_tkit_WaitForBitState (recv_bit s) NETANA_BITSTATE_UNEQUAL ulTimeout s;
     if \<not> ok then Some ((NETANA_DEV_GET_NO_PACKET, ptRecvPkt), s1)
     else
       let s2 = upd_dev (\<lambda>d. d\<lparr>tRecvMbx := (tRecvMbx d)\<lparr>rx_ulRecvPacketCnt := rx_ulRecvPacketCnt (tRecvMbx d) + 1\<rparr>\<rparr>) s1;
           mbx = rm_abRecvMailbox (tRecvMailbox (dpm s2));
           ulCopySize = packet_size (read_packet mbx);
           (r, n) = (if ulCopySize > ulRecvBufferSize then (NETANA_BUFFER_TOO_SHORT, ulRecvBufferSize)
                     else (NETANA_NO_ERROR, ulCopySize))
       in Some ((r, blit 0 (take (unat n) mbx) ptRecvPkt), netana_tkit_ToggleBit (recv_bit s) s2)
   }"

definition netana_get_mbx_state :: "u32 option \<Rightarrow> u32 option \<Rightarrow> sys \<Rightarrow> u32 \<times> u32 option \<times> u32 option" where
  "netana_get_mbx_state pulRecvPktCnt pulSendPktCnt s =
     (if rx_ulRecvMailboxLength (tRecvMbx (dev s)) = 0
      then (NETANA_FUNCTION_NOT_AVAILABLE, pulRecvPktCnt, pulSendPktCnt)
      else (NETANA_NO_ERROR,
            map_option (\<lambda>_. ucast (rm_usWaitingPackages (tRecvMailbox (dpm s)))) pulRecvPktCnt,
            map_option (\<lambda>_. ucast (sm_usPackagesAccepted (tSendMailbox (dpm s)))) pulSendPktCnt))"

definition netana_put_packet :: "bool \<Rightarrow> packet \<Rightarrow> u32 \<Rightarrow> (sys, u32) proc" where
  "netana_put_packet fMutex ptSendPkt ulTimeout s =
     (if \<not> fMutex then Some (NETANA_DRV_CMD_ACTIVE, s) else put_packet ptSendPkt ulTimeout s)"

definition netana_get_packet :: "bool \<Rightarrow> u32 \<Rightarrow> bytes \<Rightarrow> u32 \<Rightarrow> (sys, u32 \<times> bytes) proc" where
  "netana_get_packet fMutex ulSize ptRecvPkt ulTimeout s =
     (if \<not> fMutex then Some ((NETANA_DRV_CMD_ACTIVE, ptRecvPkt), s)
      else get_packet ptRecvPkt ulSize ulTimeout s)"

section \<open>Properties\<close>

text \<open>C13: \<open>netana_put_packet\<close> sends a well formed packet which fits the mailbox as a whole:
  when it returns success, the mailbox holds the encoded packet, so that the device decodes
  the very packet given; the rest of the mailbox, and the receive mailbox, are untouched,
  the packet is counted and the send bit was toggled on a free channel. Every error leaves
  the host side unchanged.\<close>

theorem put_packet_correct:
  assumes "netana_put_packet mtx p to s = Some (r, s')" "packet_wf p" "length (pk_abData p) + 40 < 2 ^ 32"
    and "\<forall>s1. netana_tkit_WaitForBitState (send_bit s) NETANA_BITSTATE_EQUAL to s = Some (True, s1) \<longrightarrow>
      length (sm_abSendMailbox (tSendMailbox (dpm s1))) = unat (tx_ulSendMailboxLength (tSendMbx (dev s)))"
    and "send_bit s < 32"
  shows "(r = NETANA_NO_ERROR \<longrightarrow>
       length (packet_bytes p) \<le> unat (tx_ulSendMailboxLength (tSendMbx (dev s))) \<and>
       take (length (packet_bytes p)) (sm_abSendMailbox (tSendMailbox (dpm s'))) = packet_bytes p \<and>
       read_packet (take (length (packet_bytes p)) (sm_abSendMailbox (tSendMailbox (dpm s')))) = p \<and>
       tx_ulSendPacketCnt (tSendMbx (dev s')) = tx_ulSendPacketCnt (tSendMbx (dev s)) + 1 \<and>
       hostbit s' (send_bit s) \<noteq> hostbit s (send_bit s) \<and> netxbit s' (send_bit s) = hostbit s (send_bit s)) \<and>
    (r \<noteq> NETANA_NO_ERROR \<longrightarrow> host_view (dev s') = host_view (dev s) \<and>
       (r = NETANA_DRV_CMD_ACTIVE \<longleftrightarrow> \<not> mtx) \<and>
       (r = NETANA_DEV_MAILBOX_TOO_SHORT \<longleftrightarrow>
          mtx \<and> unat (tx_ulSendMailboxLength (tSendMbx (dev s))) < length (packet_bytes p)))"
proof (cases "mtx \<and> \<not> packet_size p > tx_ulSendMailboxLength (tSendMbx (dev s))")
  case False
  then show ?thesis
    using assms(1) packet_size_wf[OF assms(2,3)]
    by (auto simp: netana_put_packet_def put_packet_def word_less_nat_alt split: if_splits)
next
  case True
  then have n: "unat (packet_size p) = length (packet_bytes p)"
      "length (packet_bytes p) \<le> unat (tx_ulSendMailboxLength (tSendMbx (dev s)))"
    using packet_size_wf[OF assms(2,3)] by (simp_all add: word_less_nat_alt)
  from True assms(1) obtain ok s1 where
    w: "netana_tkit_WaitForBitState (send_bit s) NETANA_BITSTATE_EQUAL to s = Some (ok, s1)" and
    res: "(if ok then Some (NETANA_NO_ERROR, netana_tkit_ToggleBit (send_bit s)
            (write_send_mailbox (take (unat (packet_size p)) (packet_bytes p))
              (upd_dev (\<lambda>d. d\<lparr>tSendMbx := (tSendMbx d)\<lparr>tx_ulSendPacketCnt := tx_ulSendPacketCnt (tSendMbx d) + 1\<rparr>\<rparr>) s1)))
        else Some (NETANA_DEV_MAILBOX_FULL, s1)) = Some (r, s')"
    by (auto simp: netana_put_packet_def put_packet_def bind_eq_Some_conv)
  have hv: "host_view (dev s1) = host_view (dev s)"
    using Wait_frame[OF w] unfolding wait_frame_def by blast
  show ?thesis
  proof (cases ok)
    case ok: True
    have len: "length (sm_abSendMailbox (tSendMailbox (dpm s1))) = unat (tx_ulSendMailboxLength (tSendMbx (dev s)))"
      using assms(4) w ok by simp
    have mbx: "sm_abSendMailbox (tSendMailbox (dpm s')) =
        packet_bytes p @ drop (length (packet_bytes p)) (sm_abSendMailbox (tSendMailbox (dpm s1)))"
      using res ok n len by (auto simp: write_send_mailbox_def upd_dev_def blit_def)
    have "hostbit s' (send_bit s) \<noteq> hostbit s1 (send_bit s)" "netxbit s' (send_bit s) = netxbit s1 (send_bit s)"
      using res ok assms(5)
      by (auto simp: hostbit_Toggle netxbit_Toggle) (simp_all add: hostbit_def netxbit_def write_send_mailbox_def upd_dev_def)
    moreover have "hostbit s1 (send_bit s) = hostbit s (send_bit s)" "netxbit s1 (send_bit s) = hostbit s1 (send_bit s)"
      using hsk.wait_host[OF w] hsk.wait_free[OF w[unfolded ok[THEN eqTrueI]]] by (simp_all add: hsk.free_def)
    moreover have "tx_ulSendPacketCnt (tSendMbx (dev s')) = tx_ulSendPacketCnt (tSendMbx (dev s)) + 1"
      using res ok host_view_fields(13)[OF hv] by (auto simp: dev_Toggle write_send_mailbox_def upd_dev_def)
    ultimately show ?thesis
      using res ok n mbx True by simp
  qed (use res hv True n in \<open>auto simp: word_less_nat_alt\<close>)
qed

definition sample_packet :: packet where
  "sample_packet = \<lparr>pk_ulDest = 32, pk_ulSrc = 0, pk_ulDestId = 0, pk_ulSrcId = 0, pk_ulLen = 2, pk_ulId = 7,
     pk_ulState = 0, pk_ulCmd = 0x1EB6, pk_ulExt = 0, pk_ulRout = 0, pk_abData = [3, 4]\<rparr>"

lemma put_packet_correct_witness:
  "\<exists>s'. netana_put_packet True sample_packet 0 sample = Some (NETANA_NO_ERROR, s') \<and>
     read_packet (take 42 (sm_abSendMailbox (tSendMailbox (dpm s')))) = sample_packet"
proof -
  have b: "send_bit sample = 9" "bit_in_state sample 9 NETANA_BITSTATE_EQUAL"
    by (simp_all add: send_bit_def hostbit_def netxbit_def sample_defs)
  have p: "packet_wf sample_packet" "length (packet_bytes sample_packet) = 42" "length (pk_abData sample_packet) = 2"
    by (simp_all add: packet_wf_def sample_packet_def)
  have "\<not> packet_size sample_packet > tx_ulSendMailboxLength (tSendMbx (dev sample))"
    by (simp add: packet_size_def sample_packet_def sample_defs)
  then obtain s' where s': "netana_put_packet True sample_packet 0 sample = Some (NETANA_NO_ERROR, s')"
    using b by (simp add: netana_put_packet_def put_packet_def)
  have "length (sm_abSendMailbox (tSendMailbox (dpm sample))) = unat (tx_ulSendMailboxLength (tSendMbx (dev sample)))"
    by (simp add: sample_defs)
  then show ?thesis
    using put_packet_correct[OF s' p(1)] p b s' by simp
qed

text \<open>
  The size check works on 32 bits: a length field close to \<open>2 ^ 32\<close> wraps and is accepted,
  although no mailbox can hold such a packet. The copy uses the same wrapped size.
\<close>

lemma put_packet_length_wraps:
  assumes "pk_ulLen p = - NETANA_PACKET_HEADER_SIZE" "bit_in_state s (send_bit s) NETANA_BITSTATE_EQUAL"
  shows "\<exists>s'. put_packet p to s = Some (NETANA_NO_ERROR, s') \<and>
    sm_abSendMailbox (tSendMailbox (dpm s')) = sm_abSendMailbox (tSendMailbox (dpm s))"
proof -
  have "packet_size p = 0"
    by (simp add: packet_size_def assms(1))
  then show ?thesis
    using assms(2) by (simp add: put_packet_def write_send_mailbox_def upd_dev_def blit_def)
qed

text \<open>C14: \<open>netana_get_packet\<close> returns at most the size of the buffer given, and never writes
  beyond it. A packet which fits is returned whole; a longer one is cut and reported as
  \<open>NETANA_BUFFER_TOO_SHORT\<close>; in both cases the mailbox is released to the device and the
  packet counted. Without a packet, or without the mutex, the buffer is untouched.\<close>

theorem get_packet_correct:
  assumes "netana_get_packet mtx n buf to s = Some ((r, buf'), s')" "unat n \<le> length buf" "recv_bit s < 32"
  shows "(r \<in> {NETANA_NO_ERROR, NETANA_BUFFER_TOO_SHORT} \<longrightarrow>
       (let mbx = rm_abRecvMailbox (tRecvMailbox (dpm s')); len = unat (packet_size (read_packet mbx)) in
          (r = NETANA_BUFFER_TOO_SHORT \<longleftrightarrow> unat n < len) \<and>
          (min (unat n) len \<le> length mbx \<longrightarrow> take (min (unat n) len) buf' = take (min (unat n) len) mbx)) \<and>
       rx_ulRecvPacketCnt (tRecvMbx (dev s')) = rx_ulRecvPacketCnt (tRecvMbx (dev s)) + 1 \<and>
       hostbit s' (recv_bit s) = netxbit s' (recv_bit s)) \<and>
    (r \<notin> {NETANA_NO_ERROR, NETANA_BUFFER_TOO_SHORT} \<longrightarrow> buf' = buf \<and> host_view (dev s') = host_view (dev s)) \<and>
    drop (unat n) buf' = drop (unat n) buf"
proof (cases mtx)
  case False
  then show ?thesis
    using assms(1) by (auto simp: netana_get_packet_def)
next
  case True
  from True assms(1) obtain ok s1 where
    w: "netana_tkit_WaitForBitState (recv_bit s) NETANA_BITSTATE_UNEQUAL to s = Some (ok, s1)"
    by (auto simp: netana_get_packet_def get_packet_def bind_eq_Some_conv)
  have hv: "host_view (dev s1) = host_view (dev s)"
    using Wait_frame[OF w] unfolding wait_frame_def by blast
  show ?thesis
  proof (cases ok)
    case False
    then show ?thesis
      using True assms(1) w hv by (simp add: netana_get_packet_def get_packet_def)
  next
    case ok: True
    let ?s2 = "upd_dev (\<lambda>d. d\<lparr>tRecvMbx := (tRecvMbx d)\<lparr>rx_ulRecvPacketCnt := rx_ulRecvPacketCnt (tRecvMbx d) + 1\<rparr>\<rparr>) s1"
    let ?mbx = "rm_abRecvMailbox (tRecvMailbox (dpm s1))" let ?len = "packet_size (read_packet ?mbx)"
    have s': "s' = netana_tkit_ToggleBit (recv_bit s) ?s2"
        "r = (if ?len > n then NETANA_BUFFER_TOO_SHORT else NETANA_NO_ERROR)"
        "buf' = blit 0 (take (unat (if ?len > n then n else ?len)) ?mbx) buf"
      using True ok assms(1) w
      by (auto simp: netana_get_packet_def get_packet_def Let_def upd_dev_def split: if_splits)
    have m: "unat (if ?len > n then n else ?len) = min (unat n) (unat ?len)"
      by (auto simp: word_less_nat_alt min_def)
    have mbx: "rm_abRecvMailbox (tRecvMailbox (dpm s')) = ?mbx"
      by (simp add: s' upd_dev_def)
    have ne: "hostbit s1 (recv_bit s) \<noteq> netxbit s1 (recv_bit s)"
      using Wait_result[OF w] ok by simp
    have "hostbit ?s2 (recv_bit s) = hostbit s1 (recv_bit s)" "netxbit ?s2 (recv_bit s) = netxbit s1 (recv_bit s)"
      by (simp_all add: hostbit_def netxbit_def upd_dev_def)
    then have eq: "hostbit s' (recv_bit s) = netxbit s' (recv_bit s)"
      using ne assms(3) by (simp add: s'(1) hostbit_Toggle netxbit_Toggle)
    have cnt: "rx_ulRecvPacketCnt (tRecvMbx (dev s')) = rx_ulRecvPacketCnt (tRecvMbx (dev s)) + 1"
      using host_view_fields(14)[OF hv] by (simp add: s'(1) dev_Toggle upd_dev_def)
    have b: "buf' = take (min (unat n) (unat ?len)) ?mbx @ drop (min (length ?mbx) (min (unat n) (unat ?len))) buf"
      by (simp add: s'(3) m blit_def)
    have "drop (unat n) buf' = drop (unat n) buf"
      unfolding b by (simp add: min_def)
    moreover have "min (unat n) (unat ?len) \<le> length ?mbx \<longrightarrow> take (min (unat n) (unat ?len)) buf' = take (min (unat n) (unat ?len)) ?mbx"
      by (simp add: b)
    ultimately show ?thesis
      using eq cnt unfolding Let_def mbx by (simp add: s'(2) word_less_nat_alt)
  qed
qed

definition packet_waiting :: sys where
  "packet_waiting = sample\<lparr>dev := sample_dev\<lparr>ulNetxFlags := msk 10\<rparr>,
     dpm := sample_dpm\<lparr>tRecvMailbox := \<lparr>rm_usWaitingPackages = 1,
       rm_abRecvMailbox = packet_bytes sample_packet @ replicate 18 0\<rparr>\<rparr>\<rparr>"

lemma get_packet_correct_witness:
  "\<exists>s' buf'. netana_get_packet True 3 [9, 9, 9, 9] 0 packet_waiting = Some ((NETANA_BUFFER_TOO_SHORT, buf'), s') \<and>
     drop 3 buf' = [9] \<and> hostbit s' 10 = netxbit s' 10"
proof -
  have b: "recv_bit packet_waiting = 10" "bit_in_state packet_waiting 10 NETANA_BITSTATE_UNEQUAL"
    by (simp_all add: recv_bit_def packet_waiting_def hostbit_def netxbit_def sample_defs)
  have "take 40 (packet_bytes sample_packet @ replicate 18 0) = take 40 (packet_bytes sample_packet)"
    by simp
  then have "word_at 4 (packet_bytes sample_packet @ replicate 18 0) = pk_ulLen sample_packet"
    using word_at_take[of 4 40 "packet_bytes sample_packet @ replicate 18 0"] word_at_take[of 4 40 "packet_bytes sample_packet"]
    by (simp add: word_at_packet_bytes header_words_def)
  then have "packet_size (read_packet (rm_abRecvMailbox (tRecvMailbox (dpm packet_waiting)))) = 42"
    by (simp add: packet_waiting_def packet_size_def read_packet_def sample_packet_def)
  then have "\<exists>s' buf'. netana_get_packet True 3 [9, 9, 9, 9] 0 packet_waiting = Some ((NETANA_BUFFER_TOO_SHORT, buf'), s')"
    using b by (simp add: netana_get_packet_def get_packet_def upd_dev_def Let_def)
  then show ?thesis
    using get_packet_correct[of True 3 "[9, 9, 9, 9]" 0 packet_waiting] b(1) by fastforce
qed

end
