(* ===== verification/Crc32.thy ===== *)
theory Crc32
  imports Netana_Prelude
begin

text \<open>
  The checksum of the firmware download (\<open>netana_toolkit.c\<close>): \<open>Crc32Table\<close> and
  \<open>CreateCRC32\<close>. The reference is the bitwise CRC-32 with the reflected polynomial
  \<open>0xEDB88320\<close>: the table holds its value for every byte, and the table driven loop
  computes it. Since the checksum is continued over the blocks of a file,
  \<open>CreateCRC32_append\<close> is what the download relies on.
\<close>

section \<open>The code\<close>

definition Crc32Table :: "u32 list" where
  "Crc32Table = [
   0x00000000, 0x77073096, 0xee0e612c, 0x990951ba, 0x076dc419, 0x706af48f, 0xe963a535, 0x9e6495a3,
   0x0edb8832, 0x79dcb8a4, 0xe0d5e91e, 0x97d2d988, 0x09b64c2b, 0x7eb17cbd, 0xe7b82d07, 0x90bf1d91,
   0x1db71064, 0x6ab020f2, 0xf3b97148, 0x84be41de, 0x1adad47d, 0x6ddde4eb, 0xf4d4b551, 0x83d385c7,
   0x136c9856, 0x646ba8c0, 0xfd62f97a, 0x8a65c9ec, 0x14015c4f, 0x63066cd9, 0xfa0f3d63, 0x8d080df5,
   0x3b6e20c8, 0x4c69105e, 0xd56041e4, 0xa2677172, 0x3c03e4d1, 0x4b04d447, 0xd20d85fd, 0xa50ab56b,
   0x35b5a8fa, 0x42b2986c, 0xdbbbc9d6, 0xacbcf940, 0x32d86ce3, 0x45df5c75, 0xdcd60dcf, 0xabd13d59,
   0x26d930ac, 0x51de003a, 0xc8d75180, 0xbfd06116, 0x21b4f4b5, 0x56b3c423, 0xcfba9599, 0xb8bda50f,
   0x2802b89e, 0x5f058808, 0xc60cd9b2, 0xb10be924, 0x2f6f7c87, 0x58684c11, 0xc1611dab, 0xb6662d3d,
   0x76dc4190, 0x01db7106, 0x98d220bc, 0xefd5102a, 0x71b18589, 0x06b6b51f, 0x9fbfe4a5, 0xe8b8d433,
   0x7807c9a2, 0x0f00f934, 0x9609a88e, 0xe10e9818, 0x7f6a0dbb, 0x086d3d2d, 0x91646c97, 0xe6635c01,
   0x6b6b51f4, 0x1c6c6162, 0x856530d8, 0xf262004e, 0x6c0695ed, 0x1b01a57b, 0x8208f4c1, 0xf50fc457,
   0x65b0d9c6, 0x12b7e950, 0x8bbeb8ea, 0xfcb9887c, 0x62dd1ddf, 0x15da2d49, 0x8cd37cf3, 0xfbd44c65,
   0x4db26158, 0x3ab551ce, 0xa3bc0074, 0xd4bb30e2, 0x4adfa541, 0x3dd895d7, 0xa4d1c46d, 0xd3d6f4fb,
   0x4369e96a, 0x346ed9fc, 0xad678846, 0xda60b8d0, 0x44042d73, 0x33031de5, 0xaa0a4c5f, 0xdd0d7cc9,
   0x5005713c, 0x270241aa, 0xbe0b1010, 0xc90c2086, 0x5768b525, 0x206f85b3, 0xb966d409, 0xce61e49f,
   0x5edef90e, 0x29d9c998, 0xb0d09822, 0xc7d7a8b4, 0x59b33d17, 0x2eb40d81, 0xb7bd5c3b, 0xc0ba6cad,
   0xedb88320, 0x9abfb3b6, 0x03b6e20c, 0x74b1d29a, 0xead54739, 0x9dd277af, 0x04db2615, 0x73dc1683,
   0xe3630b12, 0x94643b84, 0x0d6d6a3e, 0x7a6a5aa8, 0xe40ecf0b, 0x9309ff9d, 0x0a00ae27, 0x7d079eb1,
   0xf00f9344, 0x8708a3d2, 0x1e01f268, 0x6906c2fe, 0xf762575d, 0x806567cb, 0x196c3671, 0x6e6b06e7,
   0xfed41b76, 0x89d32be0, 0x10da7a5a, 0x67dd4acc, 0xf9b9df6f, 0x8ebeeff9, 0x17b7be43, 0x60b08ed5,
   0xd6d6a3e8, 0xa1d1937e, 0x38d8c2c4, 0x4fdff252, 0xd1bb67f1, 0xa6bc5767, 0x3fb506dd, 0x48b2364b,
   0xd80d2bda, 0xaf0a1b4c, 0x36034af6, 0x41047a60, 0xdf60efc3, 0xa867df55, 0x316e8eef, 0x4669be79,
   0xcb61b38c, 0xbc66831a, 0x256fd2a0, 0x5268e236, 0xcc0c7795, 0xbb0b4703, 0x220216b9, 0x5505262f,
   0xc5ba3bbe, 0xb2bd0b28, 0x2bb45a92, 0x5cb36a04, 0xc2d7ffa7, 0xb5d0cf31, 0x2cd99e8b, 0x5bdeae1d,
   0x9b64c2b0, 0xec63f226, 0x756aa39c, 0x026d930a, 0x9c0906a9, 0xeb0e363f, 0x72076785, 0x05005713,
   0x95bf4a82, 0xe2b87a14, 0x7bb12bae, 0x0cb61b38, 0x92d28e9b, 0xe5d5be0d, 0x7cdcefb7, 0x0bdbdf21,
   0x86d3d2d4, 0xf1d4e242, 0x68ddb3f8, 0x1fda836e, 0x81be16cd, 0xf6b9265b, 0x6fb077e1, 0x18b74777,
   0x88085ae6, 0xff0f6a70, 0x66063bca, 0x11010b5c, 0x8f659eff, 0xf862ae69, 0x616bffd3, 0x166ccf45,
   0xa00ae278, 0xd70dd2ee, 0x4e048354, 0x3903b3c2, 0xa7672661, 0xd06016f7, 0x4969474d, 0x3e6e77db,
   0xaed16a4a, 0xd9d65adc, 0x40df0b66, 0x37d83bf0, 0xa9bcae53, 0xdebb9ec5, 0x47b2cf7f, 0x30b5ffe9,
   0xbdbdf21c, 0xcabac28a, 0x53b39330, 0x24b4a3a6, 0xbad03605, 0xcdd70693, 0x54de5729, 0x23d967bf,
   0xb3667a2e, 0xc4614ab8, 0x5d681b02, 0x2a6f2b94, 0xb40bbe37, 0xc30c8ea1, 0x5a05df1b, 0x2d02ef8d]"

definition crc_step :: "u8 \<Rightarrow> u32 \<Rightarrow> u32" where
  "crc_step b ulCRC = Crc32Table ! unat ((ulCRC XOR ucast b) AND 0xff) XOR drop_bit 8 ulCRC"

definition CreateCRC32 :: "u32 \<Rightarrow> bytes \<Rightarrow> u32" where
  "CreateCRC32 ulCRC pabBuffer =
     (if pabBuffer = [] then ulCRC
      else fold crc_step pabBuffer (ulCRC XOR 0xffffffff) XOR 0xffffffff)"

section \<open>The reference\<close>

text \<open>One bit, one byte and a whole buffer of the bitwise algorithm.\<close>

definition crc_bit :: "u32 \<Rightarrow> u32" where
  "crc_bit c = (if bit c 0 then drop_bit 1 c XOR 0xEDB88320 else drop_bit 1 c)"

definition crc_byte :: "u8 \<Rightarrow> u32 \<Rightarrow> u32" where
  "crc_byte b c = (crc_bit ^^ 8) (c XOR ucast b)"

definition crc_reference :: "u32 \<Rightarrow> bytes \<Rightarrow> u32" where
  "crc_reference c bs = fold crc_byte bs (c XOR 0xffffffff) XOR 0xffffffff"

lemma crc_bit_xor: "crc_bit (a XOR b) = crc_bit a XOR crc_bit b"
proof -
  have d: "drop_bit 1 (a XOR b) = drop_bit 1 a XOR drop_bit 1 b"
    by (rule bit_word_eqI) (simp add: bit_drop_bit_eq bit_xor_iff)
  show ?thesis
    by (auto simp: crc_bit_def d bit_xor_iff ac_simps)
qed

lemma crc_bits_xor: "(crc_bit ^^ n) (a XOR b) = (crc_bit ^^ n) a XOR (crc_bit ^^ n) b"
  by (induction n) (simp_all add: crc_bit_xor)

text \<open>A word whose low \<open>n\<close> bits are clear is only shifted.\<close>

lemma crc_bits_shift: "(\<forall>i < n. \<not> bit c i) \<Longrightarrow> (crc_bit ^^ n) c = drop_bit n c"
proof (induction n)
  case (Suc n)
  then have "(crc_bit ^^ n) c = drop_bit n c" "\<not> bit (drop_bit n c) 0"
    by (simp_all add: bit_drop_bit_eq)
  moreover have "(crc_bit ^^ Suc n) c = crc_bit ((crc_bit ^^ n) c)"
    by simp
  moreover have "crc_bit (drop_bit n c) = drop_bit (Suc n) c" if "\<not> bit (drop_bit n c) 0"
    using that by (simp add: crc_bit_def)
  ultimately show ?case
    by simp
qed simp

lemma crc_bits_split: "(crc_bit ^^ 8) x = (crc_bit ^^ 8) (x AND 0xff) XOR drop_bit 8 x"
proof -
  have ff: "(0xff :: u32) = mask 8"
    by (simp add: mask_eq_exp_minus_1)
  have x: "x = (x AND mask 8) XOR (x AND NOT (mask 8))"
    by (rule bit_word_eqI) (auto simp: bit_simps)
  have "(crc_bit ^^ 8) (x AND NOT (mask 8)) = drop_bit 8 (x AND NOT (mask 8))"
    by (rule crc_bits_shift) (auto simp: bit_simps)
  also have "\<dots> = drop_bit 8 x"
    by (rule bit_word_eqI) (auto simp: bit_simps dest: bit_imp_le_length)
  finally have "(crc_bit ^^ 8) ((x AND mask 8) XOR (x AND NOT (mask 8))) = (crc_bit ^^ 8) (x AND mask 8) XOR drop_bit 8 x"
    by (simp only: crc_bits_xor)
  then show ?thesis
    unfolding ff using x by metis
qed

section \<open>The table\<close>

definition crc_bits8 :: "u32 \<Rightarrow> u32" where
  "crc_bits8 c = crc_bit (crc_bit (crc_bit (crc_bit (crc_bit (crc_bit (crc_bit (crc_bit c)))))))"

lemma crc_bits8: "(crc_bit ^^ 8) c = crc_bits8 c"
  by (simp add: crc_bits8_def numeral_eq_Suc)

text \<open>Evaluation of a step on a literal.\<close>

lemma crc_bit_of_nat:
  "k < 2 ^ 32 \<Longrightarrow> crc_bit (of_nat k) =
     (if odd k then of_nat (k div 2) XOR 0xEDB88320 else of_nat (k div 2))"
proof -
  assume k: "k < 2 ^ 32"
  have "drop_bit 1 (of_nat k :: u32) = of_nat (k div 2)"
    using k by (intro word_unat_eq_iff[THEN iffD2])
      (simp add: unat_drop_bit_eq unat_of_nat drop_bit_eq_div unat_div)
  then show ?thesis
    by (auto simp: crc_bit_def bit_0)
qed

lemma crc_bit_literal:
  "crc_bit 0 = 0" "crc_bit 1 = 0xEDB88320"
  "(numeral (Num.Bit0 n) :: nat) < 2 ^ 32 \<Longrightarrow> crc_bit (numeral (Num.Bit0 n)) = numeral n"
  "(numeral (Num.Bit1 n) :: nat) < 2 ^ 32 \<Longrightarrow> crc_bit (numeral (Num.Bit1 n)) = numeral n XOR 0xEDB88320"
  using crc_bit_of_nat[of 0] crc_bit_of_nat[of 1] crc_bit_of_nat[of "numeral (Num.Bit0 n)"]
    crc_bit_of_nat[of "numeral (Num.Bit1 n)"]
  by simp_all

lemma Crc32Table_check: "map (\<lambda>i. crc_bits8 (of_nat i)) [0..<256] = Crc32Table"
  by (simp add: Crc32Table_def crc_bits8_def crc_bit_literal upt_rec)

lemma Crc32Table_length [simp]: "length Crc32Table = 256"
  by (simp add: Crc32Table_def)

theorem Crc32Table_correct: "i < 256 \<Longrightarrow> Crc32Table ! i = (crc_bit ^^ 8) (of_nat i)"
proof -
  assume i: "i < 256"
  have "map (\<lambda>i. crc_bits8 (of_nat i)) [0..<256] ! i = Crc32Table ! i"
    by (simp only: Crc32Table_check)
  with i show ?thesis
    by (simp add: crc_bits8)
qed

section \<open>The checksum\<close>

lemma crc_step_byte: "crc_step b c = crc_byte b c"
proof -
  let ?x = "c XOR ucast b"
  have "unat (?x AND 0xff) < 256"
    using word_and_le1[of ?x "0xff"] by (simp add: word_le_nat_alt)
  then have "Crc32Table ! unat (?x AND 0xff) = (crc_bit ^^ 8) (?x AND 0xff)"
    by (simp add: Crc32Table_correct)
  moreover have "drop_bit 8 ?x = drop_bit 8 c"
    by (rule bit_word_eqI) (auto simp: bit_simps dest: bit_imp_le_length)
  ultimately show ?thesis
    by (simp add: crc_step_def crc_byte_def crc_bits_split[of ?x])
qed

text \<open>C19: For every buffer and every continued value, the table driven \<open>CreateCRC32\<close> returns the
  bitwise CRC-32 of the buffer.\<close>

theorem CreateCRC32_correct: "CreateCRC32 c bs = crc_reference c bs"
proof -
  have "crc_step = crc_byte"
    by (intro ext) (rule crc_step_byte)
  then show ?thesis
    by (simp add: CreateCRC32_def crc_reference_def xor.assoc)
qed

lemma CreateCRC32_continue: "CreateCRC32 (CreateCRC32 c xs) ys = CreateCRC32 c (xs @ ys)"
  by (simp add: CreateCRC32_def xor.assoc)

text \<open>The checksum of a file does not depend on how it is cut into blocks: continuing the
  value of a first part over a second part gives the value of both.\<close>

theorem CreateCRC32_append: "CreateCRC32 (CreateCRC32 c xs) ys = CreateCRC32 c (xs @ ys)"
  by (rule CreateCRC32_continue)

end
