(* ===== verification/Boot_Mailbox.thy ===== *)
theory Boot_Mailbox
  imports Handshake Packets
begin

text \<open>
  Packets to the boot loader (\<open>netana_toolkit.c\<close>): \<open>WaitForBitStatePollBL\<close>, \<open>PutPacketBL\<close>,
  \<open>GetPacketBL\<close> and \<open>TransferPacket\<close>. Until the firmware runs there is no interrupt; the
  handshake flags of the system channel are polled. Host and device bits obey the same
  contract as those of the running firmware: \<open>command_channel\<close> is interpreted here again.

  The device acts between two looks of the host at the DPM. Each look consumes one
  \<open>boot_tick\<close> of the trace \<open>bo_env\<close>, which gives the time and what the device did to its
  part of the memory; it does not write the host flags and the send mailbox.
\<close>

section \<open>The memory before the firmware runs\<close>

abbreviation (input) HSF_SEND_MBX_CMD :: u8 where "HSF_SEND_MBX_CMD \<equiv> 0x10"
abbreviation (input) HSF_RECV_MBX_ACK :: u8 where "HSF_RECV_MBX_ACK \<equiv> 0x20"
abbreviation (input) NSF_READY :: u8 where "NSF_READY \<equiv> 0x01"
abbreviation (input) RCX_FLAGS_EQUAL :: u8 where "RCX_FLAGS_EQUAL \<equiv> 0"
abbreviation (input) RCX_FLAGS_NOT_EQUAL :: u8 where "RCX_FLAGS_NOT_EQUAL \<equiv> 1"
abbreviation (input) NETX_SYSTEM_MAILBOX_MIN_SIZE :: u32 where "NETX_SYSTEM_MAILBOX_MIN_SIZE \<equiv> 124"
abbreviation (input) RCX_MSK_PACKET_ANSWER :: u32 where "RCX_MSK_PACKET_ANSWER \<equiv> 1"
abbreviation (input) RCX_S_OK :: u32 where "RCX_S_OK \<equiv> 0"
abbreviation (input) RCX_MAX_PACKET_SIZE :: nat where "RCX_MAX_PACKET_SIZE \<equiv> 1596"

text \<open>
  The DPM as the ROM and boot loader lay it out: the cookie, the two system mailboxes (the
  receive mailbox with all that lies behind it), the system handshake cell, the registers
  \<open>ulSystemState\<close> and \<open>ulIRQEnable_0\<close>, the values written to \<open>ulHostReset\<close>, latest first,
  and the image of the boot loader which the host copied over the start of the DPM.
\<close>

record boot_hw =
  bd_abCookie :: bytes
  bd_abSendMbx :: bytes
  bd_abRecvMbx :: bytes
  bd_usData :: u16
  bd_bNetxFlags :: u8
  bd_bHostFlags :: u8
  bd_ulSystemState :: u32
  bd_ulIRQEnable_0 :: u32
  bd_ulHostReset :: "u32 list"
  bd_abImage :: bytes

record boot_tick =
  bt_hw :: "boot_hw \<Rightarrow> boot_hw"
  bt_now :: u32

record boot =
  bo_dev :: devinst
  bo_hw :: boot_hw
  bo_env :: "boot_tick list"
  bo_now :: u32

definition upd_hw :: "(boot_hw \<Rightarrow> boot_hw) \<Rightarrow> boot \<Rightarrow> boot" where
  "upd_hw f s = s\<lparr>bo_hw := f (bo_hw s)\<rparr>"

definition boot_step :: "boot_tick \<Rightarrow> boot_tick list \<Rightarrow> boot \<Rightarrow> boot" where
  "boot_step t ts s = s\<lparr>
     bo_hw := (bt_hw t (bo_hw s))\<lparr>bd_bHostFlags := bd_bHostFlags (bo_hw s), bd_abSendMbx := bd_abSendMbx (bo_hw s),
       bd_ulHostReset := bd_ulHostReset (bo_hw s), bd_abImage := bd_abImage (bo_hw s)\<rparr>,
     bo_env := ts, bo_now := bt_now t\<rparr>"

section \<open>The operations\<close>

definition bl_state :: "boot_hw \<Rightarrow> u8 \<Rightarrow> u8" where
  "bl_state h ulBitMask = (if (bd_bHostFlags h XOR bd_bNetxFlags h) AND ulBitMask \<noteq> 0
     then RCX_FLAGS_NOT_EQUAL else RCX_FLAGS_EQUAL)"

fun poll_loop :: "u8 \<Rightarrow> u8 \<Rightarrow> u64 \<Rightarrow> u32 \<Rightarrow> boot_tick list \<Rightarrow> boot \<Rightarrow> (bool \<times> boot) option" where
  "poll_loop ulBitMask bState ulTimeout lStartTime [] s = None"
| "poll_loop ulBitMask bState ulTimeout lStartTime (t # ts) s =
     (let s1 = boot_step t ts s; ulDiffTime = ucast (bo_now s1 - lStartTime) in
      if bl_state (bo_hw s1) ulBitMask = bState then Some (True, s1)
      else if ulDiffTime \<le> ulTimeout then poll_loop ulBitMask bState ulTimeout lStartTime ts s1
      else Some (False, s1))"

definition WaitForBitStatePollBL :: "u8 \<Rightarrow> u8 \<Rightarrow> u64 \<Rightarrow> (boot, bool) proc" where
  "WaitForBitStatePollBL ulBitMask bState ulTimeout s =
     (if bl_state (bo_hw s) ulBitMask = bState then Some (True, s)
      else if ulTimeout = 0 then Some (False, s)
      else poll_loop ulBitMask bState ulTimeout (bo_now s) (bo_env s) s)"

definition toggle_host :: "u8 \<Rightarrow> boot \<Rightarrow> boot" where
  "toggle_host ulBitMask = upd_hw (\<lambda>h. h\<lparr>bd_bHostFlags := bd_bHostFlags h XOR ulBitMask\<rparr>)"

definition write_send :: "bytes \<Rightarrow> boot \<Rightarrow> boot" where
  "write_send bs = upd_hw (\<lambda>h. h\<lparr>bd_abSendMbx := blit 0 bs (bd_abSendMbx h)\<rparr>)"

definition PutPacketBL :: "packet \<Rightarrow> u64 \<Rightarrow> (boot, u32) proc" where
  "PutPacketBL ptSendPkt ulTimeout s =
     (if bd_bNetxFlags (bo_hw s) AND NSF_READY = 0 then Some (NETANA_DEV_NOT_READY, s)
      else if packet_size ptSendPkt > NETX_SYSTEM_MAILBOX_MIN_SIZE then Some (NETANA_DEV_MAILBOX_TOO_SHORT, s)
      else do {
        (ok, s1) \<leftarrow> WaitForBitStatePollBL HSF_SEND_MBX_CMD RCX_FLAGS_EQUAL ulTimeout s;
        if ok then
          Some (NETANA_NO_ERROR, toggle_host HSF_SEND_MBX_CMD
            (write_send (take (unat (packet_size ptSendPkt)) (packet_bytes ptSendPkt)) s1))
        else Some (NETANA_DEV_MAILBOX_FULL, s1)
      })"

definition GetPacketBL :: "bytes \<Rightarrow> u64 \<Rightarrow> u64 \<Rightarrow> (boot, u32 \<times> bytes) proc" where
  "GetPacketBL ptRecvPkt ulRecvBufferSize ulTimeout s =
     (if bd_bNetxFlags (bo_hw s) AND NSF_READY = 0 then Some ((NETANA_DEV_NOT_READY, ptRecvPkt), s)
      else do {
        (ok, s1) \<leftarrow> WaitForBitStatePollBL HSF_RECV_MBX_ACK RCX_FLAGS_NOT_EQUAL ulTimeout s;
        if \<not> ok then Some ((NETANA_DEV_GET_NO_PACKET, ptRecvPkt), s1)
        else
          let mbx = bd_abRecvMbx (bo_hw s1);
              ulCopySize = ucast (packet_size (read_packet mbx));
              (r, n) = (if ulCopySize > ulRecvBufferSize then (NETANA_BUFFER_TOO_SHORT, ulRecvBufferSize)
                        else (NETANA_NO_ERROR, ulCopySize))
          in Some ((r, blit 0 (take (unat n) mbx) ptRecvPkt), toggle_host HSF_RECV_MBX_ACK s1)
      })"

text \<open>The answer to a request: its command with the answer bit, from the same sender.\<close>

definition is_answer :: "packet \<Rightarrow> packet \<Rightarrow> bool" where
  "is_answer ptSendPkt ptRecvPkt \<longleftrightarrow>
     pk_ulCmd ptRecvPkt AND NOT RCX_MSK_PACKET_ANSWER = pk_ulCmd ptSendPkt \<and>
     pk_ulSrc ptRecvPkt = pk_ulSrc ptSendPkt \<and> pk_ulId ptRecvPkt = pk_ulId ptSendPkt \<and>
     pk_ulSrcId ptRecvPkt = pk_ulSrcId ptSendPkt"

lemma poll_loop_env:
  "poll_loop m st to t0 ts s = Some (r, s') \<Longrightarrow> length (bo_env s') < length ts"
  by (induction ts arbitrary: s) (auto simp: Let_def boot_step_def split: if_splits dest: less_SucI)

lemma poll_env:
  "WaitForBitStatePollBL m st to s = Some (r, s') \<Longrightarrow> length (bo_env s') \<le> length (bo_env s)"
  by (auto simp: WaitForBitStatePollBL_def split: if_splits dest: poll_loop_env)

lemma GetPacketBL_env:
  "GetPacketBL rcv n to s = Some (r, s') \<Longrightarrow> length (bo_env s') \<le> length (bo_env s)"
  by (auto simp: GetPacketBL_def toggle_host_def upd_hw_def Let_def bind_eq_Some_conv
      split: if_splits prod.splits dest!: poll_env)

function transfer_loop :: "packet \<Rightarrow> bytes \<Rightarrow> u64 \<Rightarrow> u64 \<Rightarrow> u32 \<Rightarrow> boot \<Rightarrow> ((u32 \<times> bytes) \<times> boot) option" where
  "transfer_loop ptSendPkt ptRecvPkt ulRecvBufferSize ulTimeout lStartTime s =
     (case GetPacketBL ptRecvPkt ulRecvBufferSize ulTimeout s of
        None \<Rightarrow> None
      | Some ((lRet, rcv), s1) \<Rightarrow>
          if lRet \<noteq> NETANA_NO_ERROR then Some ((lRet, rcv), s1)
          else if is_answer ptSendPkt (read_packet rcv) then Some ((NETANA_NO_ERROR, rcv), s1)
          else case bo_env s1 of
            [] \<Rightarrow> None
          | t # ts \<Rightarrow>
              if ucast (bo_now (boot_step t ts s1) - lStartTime) < ulTimeout
              then transfer_loop ptSendPkt rcv ulRecvBufferSize ulTimeout lStartTime (boot_step t ts s1)
              else Some ((NETANA_TRANSFER_TIMEOUT, rcv), boot_step t ts s1))"
  by pat_completeness auto
termination
  by (relation "measure (\<lambda>(_, _, _, _, _, s). length (bo_env s))")
     (auto dest!: GetPacketBL_env simp: boot_step_def)

declare transfer_loop.simps [simp del]

definition TransferPacket :: "packet \<Rightarrow> bytes \<Rightarrow> u64 \<Rightarrow> u64 \<Rightarrow> (boot, u32 \<times> bytes) proc" where
  "TransferPacket ptSendPkt ptRecvPkt ulRecvBufferSize ulTimeout s = do {
     (lRet, s1) \<leftarrow> PutPacketBL ptSendPkt ulTimeout s;
     if lRet \<noteq> NETANA_NO_ERROR then Some ((lRet, ptRecvPkt), s1)
     else transfer_loop ptSendPkt ptRecvPkt ulRecvBufferSize ulTimeout (bo_now s) s1
   }"

section \<open>The boot handshake is a command channel\<close>

text \<open>What polling leaves alone.\<close>

definition poll_frame :: "boot \<Rightarrow> boot \<Rightarrow> bool" where
  "poll_frame s s' \<longleftrightarrow> bo_dev s' = bo_dev s \<and> bd_bHostFlags (bo_hw s') = bd_bHostFlags (bo_hw s) \<and>
     bd_abSendMbx (bo_hw s') = bd_abSendMbx (bo_hw s) \<and> bd_ulHostReset (bo_hw s') = bd_ulHostReset (bo_hw s) \<and>
     bd_abImage (bo_hw s') = bd_abImage (bo_hw s)"

lemma poll_frame_refl [simp]: "poll_frame s s"
  by (simp add: poll_frame_def)

lemma poll_frame_trans: "poll_frame a b \<Longrightarrow> poll_frame b c \<Longrightarrow> poll_frame a c"
  by (simp add: poll_frame_def)

lemma poll_frame_step [simp]: "poll_frame s (boot_step t ts s)"
  by (simp add: poll_frame_def boot_step_def)

lemma poll_loop_frame:
  "poll_loop m st to t0 ts s = Some (r, s') \<Longrightarrow> poll_frame s s' \<and> (r \<longleftrightarrow> bl_state (bo_hw s') m = st)"
  by (induction ts arbitrary: s)
     (auto simp: Let_def split: if_splits intro: poll_frame_trans[OF poll_frame_step])

lemma Poll_frame:
  "WaitForBitStatePollBL m st to s = Some (r, s') \<Longrightarrow> poll_frame s s' \<and> (r \<longleftrightarrow> bl_state (bo_hw s') m = st)"
  by (auto simp: WaitForBitStatePollBL_def split: if_splits dest: poll_loop_frame)

definition boot_hostbit :: "boot \<Rightarrow> nat \<Rightarrow> bool" where
  "boot_hostbit s b = bit (bd_bHostFlags (bo_hw s)) b"

definition boot_netxbit :: "boot \<Rightarrow> nat \<Rightarrow> bool" where
  "boot_netxbit s b = bit (bd_bNetxFlags (bo_hw s)) b"

text \<open>The mask of one flag.\<close>

definition flag :: "nat \<Rightarrow> u8" where
  "flag b = push_bit b 1"

lemma bit_flag [simp]: "bit (flag b) i \<longleftrightarrow> i = b \<and> b < 8"
  by (auto simp: flag_def bit_simps)

lemma and_flag_eq_0 [simp]: "w AND flag b = 0 \<longleftrightarrow> \<not> bit w b"
proof
  assume "w AND flag b = 0"
  then have "\<not> bit (w AND flag b) b"
    by simp
  then show "\<not> bit w b"
    using bit_imp_le_length[of w b] by (auto simp: bit_and_iff)
next
  assume "\<not> bit w b"
  then show "w AND flag b = 0"
    by (intro bit_word_eqI) (auto simp: bit_and_iff)
qed

lemma flag_masks: "HSF_SEND_MBX_CMD = flag 4" "HSF_RECV_MBX_ACK = flag 5"
  by (simp_all add: flag_def)

lemma bl_state_equal [simp]:
  "bl_state (bo_hw s) (flag b) = RCX_FLAGS_EQUAL \<longleftrightarrow> boot_hostbit s b = boot_netxbit s b"
  "bl_state (bo_hw s) (flag b) = RCX_FLAGS_NOT_EQUAL \<longleftrightarrow> boot_hostbit s b \<noteq> boot_netxbit s b"
  by (auto simp: bl_state_def bit_xor_iff boot_hostbit_def boot_netxbit_def)

lemma toggle_host_frame [simp]:
  "bd_bHostFlags (bo_hw (toggle_host m s)) = bd_bHostFlags (bo_hw s) XOR m"
  "bd_bNetxFlags (bo_hw (toggle_host m s)) = bd_bNetxFlags (bo_hw s)"
  "bd_abSendMbx (bo_hw (toggle_host m s)) = bd_abSendMbx (bo_hw s)"
  "bd_abRecvMbx (bo_hw (toggle_host m s)) = bd_abRecvMbx (bo_hw s)"
  "bd_ulHostReset (bo_hw (toggle_host m s)) = bd_ulHostReset (bo_hw s)"
  "bd_abImage (bo_hw (toggle_host m s)) = bd_abImage (bo_hw s)" "bd_abCookie (bo_hw (toggle_host m s)) = bd_abCookie (bo_hw s)"
  "bo_dev (toggle_host m s) = bo_dev s" "bo_env (toggle_host m s) = bo_env s" "bo_now (toggle_host m s) = bo_now s"
  by (simp_all add: toggle_host_def upd_hw_def)

lemma write_send_frame [simp]:
  "bd_bHostFlags (bo_hw (write_send bs s)) = bd_bHostFlags (bo_hw s)"
  "bd_bNetxFlags (bo_hw (write_send bs s)) = bd_bNetxFlags (bo_hw s)"
  "bd_abSendMbx (bo_hw (write_send bs s)) = blit 0 bs (bd_abSendMbx (bo_hw s))"
  "bd_abRecvMbx (bo_hw (write_send bs s)) = bd_abRecvMbx (bo_hw s)"
  "bd_ulHostReset (bo_hw (write_send bs s)) = bd_ulHostReset (bo_hw s)"
  "bd_abImage (bo_hw (write_send bs s)) = bd_abImage (bo_hw s)" "bd_abCookie (bo_hw (write_send bs s)) = bd_abCookie (bo_hw s)"
  "bo_dev (write_send bs s) = bo_dev s" "bo_env (write_send bs s) = bo_env s" "bo_now (write_send bs s) = bo_now s"
  by (simp_all add: write_send_def upd_hw_def)

interpretation bl: command_channel
  "\<lambda>b. WaitForBitStatePollBL (flag b) RCX_FLAGS_EQUAL" "\<lambda>b. toggle_host (flag b)"
  boot_hostbit boot_netxbit "\<lambda>b. b < 8"
proof (unfold_locales, goal_cases)
  case (1 b t s r s')
  then show ?case
    by (auto dest!: Poll_frame)
next
  case (2 b t s r s' c)
  then show ?case
    by (auto dest!: Poll_frame simp: poll_frame_def boot_hostbit_def)
next
  case (3 b s c)
  then show ?case
    by (auto simp: boot_hostbit_def bit_xor_iff)
next
  case (4 b s c)
  then show ?case
    by (simp add: boot_netxbit_def)
qed


section \<open>Packets\<close>

text \<open>The device sees in the send mailbox what a successful \<open>PutPacketBL\<close> was given.\<close>

definition request_in :: "packet \<Rightarrow> boot \<Rightarrow> bool" where
  "request_in p s \<longleftrightarrow> take (unat (packet_size p)) (bd_abSendMbx (bo_hw s)) = take (unat (packet_size p)) (packet_bytes p)"

lemma PutPacketBL_sent:
  assumes "PutPacketBL p to s = Some (NETANA_NO_ERROR, s')" "124 \<le> length (bd_abSendMbx (bo_hw s))"
    and mem: "unat (packet_size p) \<le> length (packet_bytes p)"
  shows "request_in p s' \<and> unat (packet_size p) \<le> 124 \<and> bo_dev s' = bo_dev s \<and>
    bd_bHostFlags (bo_hw s') = bd_bHostFlags (bo_hw s) XOR HSF_SEND_MBX_CMD \<and>
    drop (unat (packet_size p)) (bd_abSendMbx (bo_hw s')) = drop (unat (packet_size p)) (bd_abSendMbx (bo_hw s)) \<and>
    length (bo_env s') \<le> length (bo_env s)"
proof -
  let ?bs = "take (unat (packet_size p)) (packet_bytes p)"
  obtain s1 where w: "WaitForBitStatePollBL HSF_SEND_MBX_CMD RCX_FLAGS_EQUAL to s = Some (True, s1)"
    and s': "s' = toggle_host HSF_SEND_MBX_CMD (write_send ?bs s1)" and sz: "packet_size p \<le> 124"
    using assms(1) by (auto simp: PutPacketBL_def bind_eq_Some_conv split: if_splits)
  have f: "poll_frame s s1" "length (bo_env s1) \<le> length (bo_env s)"
    using Poll_frame[OF w] poll_env[OF w] by auto
  have n: "unat (packet_size p) \<le> 124"
    using sz by (simp add: word_le_nat_alt)
  have l: "length ?bs = unat (packet_size p)"
    using mem by (simp del: length_packet_bytes)
  have b: "blit 0 ?bs (bd_abSendMbx (bo_hw s)) = ?bs @ drop (unat (packet_size p)) (bd_abSendMbx (bo_hw s))"
    using l n assms(2) by (subst blit_0) (simp_all del: length_packet_bytes)
  show ?thesis
    using f n b l unfolding s' request_in_def
    by (simp add: poll_frame_def del: length_packet_bytes)
qed

lemma PutPacketBL_failed:
  assumes "PutPacketBL p to s = Some (r, s')" "r \<noteq> NETANA_NO_ERROR"
  shows "poll_frame s s' \<and> r \<in> {NETANA_DEV_NOT_READY, NETANA_DEV_MAILBOX_TOO_SHORT, NETANA_DEV_MAILBOX_FULL}"
  using assms by (auto simp: PutPacketBL_def bind_eq_Some_conv split: if_splits dest!: Poll_frame)

text \<open>What receiving leaves alone: the request in the send mailbox, the send flag, the instance.\<close>

definition recv_frame :: "boot \<Rightarrow> boot \<Rightarrow> bool" where
  "recv_frame s s' \<longleftrightarrow> bo_dev s' = bo_dev s \<and> bd_abSendMbx (bo_hw s') = bd_abSendMbx (bo_hw s) \<and>
     bd_ulHostReset (bo_hw s') = bd_ulHostReset (bo_hw s) \<and> bd_abImage (bo_hw s') = bd_abImage (bo_hw s) \<and>
     (\<forall>c. c \<noteq> 5 \<longrightarrow> boot_hostbit s' c = boot_hostbit s c)"

lemma recv_frame_trans: "recv_frame a b \<Longrightarrow> recv_frame b c \<Longrightarrow> recv_frame a c"
  by (simp add: recv_frame_def)

lemma recv_frame_poll: "poll_frame s s' \<Longrightarrow> recv_frame s s'"
  by (simp add: recv_frame_def poll_frame_def boot_hostbit_def)

lemma recv_frame_ack: "recv_frame s (toggle_host HSF_RECV_MBX_ACK s)"
  unfolding flag_masks by (simp add: recv_frame_def boot_hostbit_def bit_xor_iff)

lemma unat_u32_u64: "unat (ucast (w :: u32) :: u64) = unat w"
  by simp

lemma GetPacketBL_got:
  assumes "GetPacketBL rcv n to s = Some ((r, rcv'), s')" "unat n \<le> length rcv"
  shows "recv_frame s s' \<and> length rcv' = length rcv \<and> drop (unat n) rcv' = drop (unat n) rcv"
proof (cases "r = NETANA_NO_ERROR \<or> r = NETANA_BUFFER_TOO_SHORT")
  case True
  let ?size = "\<lambda>s. ucast (packet_size (read_packet (bd_abRecvMbx (bo_hw s)))) :: u64"
  obtain s1 where w: "WaitForBitStatePollBL HSF_RECV_MBX_ACK RCX_FLAGS_NOT_EQUAL to s = Some (True, s1)"
    and s': "s' = toggle_host HSF_RECV_MBX_ACK s1"
    and r: "rcv' = blit 0 (take (unat (min n (?size s1))) (bd_abRecvMbx (bo_hw s1))) rcv"
    using assms(1) True
    by (auto simp: GetPacketBL_def bind_eq_Some_conv Let_def min_def split: if_splits)
  define k where "k = min n (?size s1)"
  have k: "k \<le> n"
    by (simp add: k_def)
  note r = r[folded k_def]
  have k': "length (take (unat k) (bd_abRecvMbx (bo_hw s1))) \<le> unat n"
    using k by (simp add: word_le_nat_alt min_le_iff_disj)
  have "recv_frame s s'"
    unfolding s' using Poll_frame[OF w] by (blast intro: recv_frame_trans recv_frame_poll recv_frame_ack)
  then show ?thesis
    using r k' assms(2) by (simp add: blit_0 del: length_take)
next
  case False
  then show ?thesis
    using assms by (auto simp: GetPacketBL_def bind_eq_Some_conv Let_def split: if_splits dest!: Poll_frame intro: recv_frame_poll)
qed

lemma transfer_loop_correct:
  assumes "transfer_loop p rcv n to t0 s = Some ((r, rcv'), s')" "unat n \<le> length rcv"
  shows "recv_frame s s' \<and> length rcv' = length rcv \<and> drop (unat n) rcv' = drop (unat n) rcv \<and>
    (r = NETANA_NO_ERROR \<longrightarrow> is_answer p (read_packet rcv'))"
  using assms
proof (induction p rcv n to t0 s rule: transfer_loop.induct)
  case (1 p rcv n to t0 s)
  obtain r1 rcv1 s1 where g: "GetPacketBL rcv n to s = Some ((r1, rcv1), s1)"
    using 1(2) by (subst (asm) transfer_loop.simps) (auto split: option.splits)
  note got = GetPacketBL_got[OF g 1(3)]
  note eq = 1(2)[unfolded transfer_loop.simps[of p rcv] g, simplified]
  show ?case
  proof (cases "r1 \<noteq> NETANA_NO_ERROR \<or> is_answer p (read_packet rcv1)")
    case True
    then show ?thesis
      using eq got by (auto split: if_splits)
  next
    case False
    then obtain t ts where e: "bo_env s1 = t # ts"
      using eq by (cases "bo_env s1") auto
    let ?s2 = "boot_step t ts s1"
    have f2: "recv_frame s ?s2"
      using got recv_frame_poll[OF poll_frame_step] by (blast intro: recv_frame_trans)
    show ?thesis
    proof (cases "ucast (bo_now ?s2 - t0) < to")
      case True
      then have "transfer_loop p rcv1 n to t0 ?s2 = Some ((r, rcv'), s')"
        using eq False e by simp
      moreover have "unat n \<le> length rcv1"
        using got 1(3) by simp
      ultimately have "recv_frame ?s2 s' \<and> length rcv' = length rcv1 \<and> drop (unat n) rcv' = drop (unat n) rcv1 \<and>
          (r = NETANA_NO_ERROR \<longrightarrow> is_answer p (read_packet rcv'))"
        using 1(1)[OF g refl refl _ _ e True] False by simp
      then show ?thesis
        using got f2 by (auto intro: recv_frame_trans)
    next
      case F: False
      then show ?thesis
        using eq False e got f2 by auto
    qed
  qed
qed

section \<open>Progress\<close>

text \<open>The clock advances with every tick, and by less than a full period since \<open>t0\<close>.\<close>

definition since :: "u32 \<Rightarrow> boot \<Rightarrow> nat" where
  "since t0 s = unat (bo_now s - t0)"

definition ticking :: "u32 \<Rightarrow> boot \<Rightarrow> bool" where
  "ticking t0 s \<longleftrightarrow> sorted_wrt (<) (since t0 s # map (\<lambda>t. unat (bt_now t - t0)) (bo_env s))"

lemma ticking_step:
  assumes "ticking t0 s" "bo_env s = t # ts"
  shows "ticking t0 (boot_step t ts s)" "since t0 s < since t0 (boot_step t ts s)"
  using assms by (simp_all add: ticking_def since_def boot_step_def)

lemma since_diff:
  assumes "since b s \<le> since b s'"
  shows "unat (bo_now s' - bo_now s) = since b s' - since b s"
proof -
  have "unat ((bo_now s' - b) - (bo_now s - b)) = unat (bo_now s' - b) - unat (bo_now s - b)"
    by (rule unat_sub) (use assms in \<open>simp add: since_def word_le_nat_alt\<close>)
  then show ?thesis
    by (simp add: since_def)
qed

lemma poll_loop_returns:
  assumes "ticking b s" "bo_env s = ts" "since b s0 \<le> since b s" "since b s \<le> since b s0 + unat to"
    "since b s0 + unat to < since b s + length ts"
  shows "\<exists>r s'. poll_loop m st to (bo_now s0) ts s = Some (r, s') \<and> ticking b s' \<and>
    since b s + length ts \<le> since b s' + length (bo_env s') \<and>
    since b s + length ts \<le> since b s0 + unat to + 1 + length (bo_env s')"
  using assms
proof (induction ts arbitrary: s)
  case (Cons t ts)
  let ?s1 = "boot_step t ts s"
  note step = ticking_step[OF Cons.prems(1,2)]
  have e: "bo_env ?s1 = ts"
    by (simp add: boot_step_def)
  have le: "since b s0 \<le> since b ?s1"
    using step(2) Cons.prems(3) by linarith
  have d: "unat (bo_now ?s1 - bo_now s0) = since b ?s1 - since b s0"
    by (rule since_diff[OF le])
  show ?case
  proof (cases "bl_state (bo_hw ?s1) m \<noteq> st \<and> ucast (bo_now ?s1 - bo_now s0) \<le> to")
    case True
    then have "since b ?s1 - since b s0 \<le> unat to"
      using d by (simp add: word_le_nat_alt)
    then have le1: "since b ?s1 \<le> since b s0 + unat to"
      using le by linarith
    then have "since b s0 + unat to < since b ?s1 + length ts"
      using step(2) Cons.prems(5) by simp
    then obtain r s' where r: "poll_loop m st to (bo_now s0) ts ?s1 = Some (r, s')" "ticking b s'"
      "since b ?s1 + length ts \<le> since b s' + length (bo_env s')"
      "since b ?s1 + length ts \<le> since b s0 + unat to + 1 + length (bo_env s')"
      using Cons.IH[OF step(1) e le le1] by auto
    then show ?thesis
      using True step(2) by (intro exI[of _ r] exI[of _ s']) (auto simp: Let_def)
  next
    case False
    then show ?thesis
      using step e Cons.prems(4) by (auto simp: Let_def)
  qed
qed simp

lemma Poll_returns:
  assumes "ticking b s" "unat to < length (bo_env s)"
  shows "\<exists>r s'. WaitForBitStatePollBL m st to s = Some (r, s') \<and> ticking b s' \<and>
    since b s + length (bo_env s) \<le> since b s' + length (bo_env s') \<and>
    length (bo_env s) \<le> unat to + 1 + length (bo_env s')"
  using poll_loop_returns[OF assms(1) refl order_refl, of to m st] assms
  by (auto simp: WaitForBitStatePollBL_def)

lemma ticking_toggle [simp]: "ticking b (toggle_host m s) = ticking b s"
  "ticking b (write_send bs s) = ticking b s"
  "since b (toggle_host m s) = since b s" "since b (write_send bs s) = since b s"
  by (simp_all add: ticking_def since_def)

lemma GetPacketBL_returns:
  assumes "ticking b s" "unat to < length (bo_env s)"
  shows "\<exists>r s'. GetPacketBL rcv n to s = Some (r, s') \<and> ticking b s' \<and>
    since b s + length (bo_env s) \<le> since b s' + length (bo_env s') \<and>
    length (bo_env s) \<le> unat to + 1 + length (bo_env s')"
proof -
  obtain r s1 where w: "WaitForBitStatePollBL HSF_RECV_MBX_ACK RCX_FLAGS_NOT_EQUAL to s = Some (r, s1)"
    and l: "ticking b s1" "since b s + length (bo_env s) \<le> since b s1 + length (bo_env s1)"
    "length (bo_env s) \<le> unat to + 1 + length (bo_env s1)"
    using Poll_returns[OF assms] by blast
  show ?thesis
    using l assms by (cases r) (auto simp: GetPacketBL_def w Let_def)
qed

lemma PutPacketBL_returns:
  assumes "ticking b s" "unat to < length (bo_env s)"
  shows "\<exists>r s'. PutPacketBL p to s = Some (r, s') \<and> ticking b s' \<and>
    since b s + length (bo_env s) \<le> since b s' + length (bo_env s') \<and>
    length (bo_env s) \<le> unat to + 1 + length (bo_env s')"
proof -
  obtain r s1 where w: "WaitForBitStatePollBL HSF_SEND_MBX_CMD RCX_FLAGS_EQUAL to s = Some (r, s1)"
    and l: "ticking b s1" "since b s + length (bo_env s) \<le> since b s1 + length (bo_env s1)"
    "length (bo_env s) \<le> unat to + 1 + length (bo_env s1)"
    using Poll_returns[OF assms] by blast
  show ?thesis
    using l assms by (cases r) (auto simp: PutPacketBL_def w)
qed

lemma transfer_loop_returns:
  assumes "ticking t0 s" "unat to + 1 < length (bo_env s)" "2 * unat to + 1 < since t0 s + length (bo_env s)"
  shows "\<exists>r s'. transfer_loop p rcv n to t0 s = Some (r, s')"
  using assms
proof (induction p rcv n to t0 s rule: transfer_loop.induct)
  case (1 p rcv n to t0 s)
  obtain r1 rcv1 s1 where g: "GetPacketBL rcv n to s = Some ((r1, rcv1), s1)"
    and l: "ticking t0 s1" "since t0 s + length (bo_env s) \<le> since t0 s1 + length (bo_env s1)"
    "length (bo_env s) \<le> unat to + 1 + length (bo_env s1)"
    using GetPacketBL_returns[OF 1(2), of to rcv n] 1(3) by auto
  obtain t ts where e: "bo_env s1 = t # ts"
    using l(3) 1(3) by (cases "bo_env s1") auto
  let ?s2 = "boot_step t ts s1"
  note step = ticking_step[OF l(1) e]
  have e2: "bo_env ?s2 = ts"
    by (simp add: boot_step_def)
  show ?case
  proof (cases "r1 = NETANA_NO_ERROR \<and> \<not> is_answer p (read_packet rcv1) \<and> ucast (bo_now ?s2 - t0) < to")
    case True
    then have "since t0 ?s2 < unat to"
      by (simp add: word_less_nat_alt since_def)
    moreover have "2 * unat to + 1 < since t0 ?s2 + length ts"
      using l(2) 1(4) step(2) e by simp
    ultimately have "\<exists>r s'. transfer_loop p rcv1 n to t0 ?s2 = Some (r, s')"
      using 1(1)[OF g refl refl _ _ e _ step(1)] True e2 by simp
    then show ?thesis
      using True by (simp add: transfer_loop.simps[of p rcv] g e)
  next
    case False
    then show ?thesis
      by (auto simp: transfer_loop.simps[of p rcv] g e)
  qed
qed

section \<open>Properties\<close>

text \<open>C18: When \<open>TransferPacket\<close> reports success, the request was put into the send mailbox
  as a whole, the send flag was toggled once, and the packet returned answers this request:
  same command but for the answer bit, same sender, same identification. On an error of the
  send nothing was sent. Nothing is written beyond the receive buffer, and the device
  instance is never changed.\<close>

theorem transfer_packet_correct:
  assumes call: "TransferPacket p rcv n to s = Some ((r, rcv'), s')"
    and buf: "unat n \<le> length rcv" and mbx: "124 \<le> length (bd_abSendMbx (bo_hw s))"
    and mem: "unat (packet_size p) \<le> length (packet_bytes p)"
  shows "(r = NETANA_NO_ERROR \<longrightarrow>
        is_answer p (read_packet rcv') \<and> request_in p s' \<and> boot_hostbit s' 4 \<noteq> boot_hostbit s 4) \<and>
    (boot_hostbit s' 4 = boot_hostbit s 4 \<longrightarrow>
        r \<in> {NETANA_DEV_NOT_READY, NETANA_DEV_MAILBOX_TOO_SHORT, NETANA_DEV_MAILBOX_FULL} \<and>
        bd_abSendMbx (bo_hw s') = bd_abSendMbx (bo_hw s)) \<and>
    bo_dev s' = bo_dev s \<and> length rcv' = length rcv \<and> drop (unat n) rcv' = drop (unat n) rcv"
proof -
  obtain r1 s1 where put: "PutPacketBL p to s = Some (r1, s1)"
    using call by (auto simp: TransferPacket_def bind_eq_Some_conv)
  show ?thesis
  proof (cases "r1 = NETANA_NO_ERROR")
    case True
    note sent = PutPacketBL_sent[OF put[unfolded True] mbx mem]
    have loop: "transfer_loop p rcv n to (bo_now s) s1 = Some ((r, rcv'), s')"
      using call put True by (simp add: TransferPacket_def)
    note got = transfer_loop_correct[OF loop buf]
    have "boot_hostbit s1 4 \<noteq> boot_hostbit s 4"
      using sent unfolding flag_masks by (simp add: boot_hostbit_def bit_xor_iff)
    moreover have "boot_hostbit s' 4 = boot_hostbit s1 4" "request_in p s'"
      using got sent by (simp_all add: recv_frame_def request_in_def)
    ultimately show ?thesis
      using got sent by (auto simp: recv_frame_def)
  next
    case False
    then have "r = r1" "rcv' = rcv" "s' = s1"
      using call put by (simp_all add: TransferPacket_def)
    then show ?thesis
      using PutPacketBL_failed[OF put False] False by (auto simp: poll_frame_def boot_hostbit_def)
  qed
qed

text \<open>A boot loader that is ready and answers at the first look.\<close>

definition sample_request :: packet where
  "sample_request = \<lparr>pk_ulDest = 0, pk_ulSrc = 0, pk_ulDestId = 0, pk_ulSrcId = 0, pk_ulLen = 0, pk_ulId = 7,
     pk_ulState = 0, pk_ulCmd = 0x1EB8, pk_ulExt = 0, pk_ulRout = 0, pk_abData = []\<rparr>"

definition sample_answer :: packet where
  "sample_answer = sample_request\<lparr>pk_ulCmd := 0x1EB9\<rparr>"

definition boot_sample :: boot where
  "boot_sample = \<lparr>bo_dev = sample_dev,
     bo_hw = \<lparr>bd_abCookie = [0x42, 0x4F, 0x4F, 0x54] @ replicate 8 0, bd_abSendMbx = replicate 124 0, bd_abRecvMbx = packet_bytes sample_answer,
       bd_usData = 0, bd_bNetxFlags = 0x01, bd_bHostFlags = 0, bd_ulSystemState = 0, bd_ulIRQEnable_0 = 0,
       bd_ulHostReset = [], bd_abImage = []\<rparr>,
     bo_env = [\<lparr>bt_hw = (\<lambda>h. h\<lparr>bd_bNetxFlags := 0x31\<rparr>), bt_now = 1\<rparr>], bo_now = 0\<rparr>"

lemma sample_transfer:
  "\<exists>s'. TransferPacket sample_request (replicate 40 0) 40 1000 boot_sample
     = Some ((NETANA_NO_ERROR, packet_bytes sample_answer), s')"
proof -
  have sz: "packet_size sample_request = 40" "packet_size sample_answer = 40"
    by (simp_all add: packet_size_def sample_answer_def sample_request_def)
  have l: "length (packet_bytes sample_answer) = 40" "length (packet_bytes sample_request) = 40"
    by (simp_all add: sample_answer_def sample_request_def)
  have b: "blit 0 (take 40 (packet_bytes sample_answer)) (replicate 40 0) = packet_bytes sample_answer"
    using l by (simp add: blit_def)
  have a: "is_answer sample_request sample_answer"
    by (simp add: is_answer_def sample_request_def sample_answer_def)
  show ?thesis
    by (simp add: TransferPacket_def transfer_loop.simps[of sample_request "replicate 40 0"] boot_sample_def PutPacketBL_def GetPacketBL_def WaitForBitStatePollBL_def bl_state_def boot_step_def
        toggle_host_def write_send_def upd_hw_def sz Let_def b a l)
qed

lemma transfer_packet_correct_witness:
  "\<exists>s'. TransferPacket sample_request (replicate 40 0) 40 1000 boot_sample
       = Some ((NETANA_NO_ERROR, packet_bytes sample_answer), s') \<and>
     request_in sample_request s' \<and> boot_hostbit s' 4"
proof -
  obtain s' where s': "TransferPacket sample_request (replicate 40 0) 40 1000 boot_sample
       = Some ((NETANA_NO_ERROR, packet_bytes sample_answer), s')"
    using sample_transfer by blast
  have "\<not> boot_hostbit boot_sample 4"
    by (simp add: boot_hostbit_def boot_sample_def)
  then show ?thesis
    using s' transfer_packet_correct[OF s']
    by (simp add: boot_sample_def packet_size_def sample_request_def)
qed

text \<open>\<open>TransferPacket\<close> returns: with a clock that advances between two looks at the DPM,
  \<open>2 * ulTimeout + 3\<close> looks are enough, whatever the device answers.\<close>

theorem transfer_packet_returns:
  assumes "ticking (bo_now s) s" "2 * unat to + 3 \<le> length (bo_env s)"
  shows "\<exists>r s'. TransferPacket p rcv n to s = Some (r, s')"
proof -
  let ?t0 = "bo_now s"
  obtain r s1 where put: "PutPacketBL p to s = Some (r, s1)"
    and l: "ticking ?t0 s1" "since ?t0 s + length (bo_env s) \<le> since ?t0 s1 + length (bo_env s1)"
    "length (bo_env s) \<le> unat to + 1 + length (bo_env s1)"
    using PutPacketBL_returns[OF assms(1), of to p] assms(2) by auto
  have "\<exists>r s'. transfer_loop p rcv n to ?t0 s1 = Some (r, s')"
    by (rule transfer_loop_returns[OF l(1)]) (use l assms in auto)
  then show ?thesis
    by (auto simp: TransferPacket_def put)
qed

lemma transfer_packet_returns_witness:
  "\<exists>r s'. TransferPacket sample_request (replicate 40 0) 40 1
     (boot_sample\<lparr>bo_env := map (\<lambda>i. \<lparr>bt_hw = id, bt_now = i\<rparr>) [1, 2, 3, 4, 5]\<rparr>) = Some (r, s')"
  by (rule transfer_packet_returns) (simp_all add: boot_sample_def ticking_def since_def)

end
