(* ===== verification/Download.thy ===== *)
theory Download
  imports Boot_Mailbox Crc32
begin

text \<open>
  The file download to the device (\<open>DownloadFile\<close> in \<open>netana_toolkit.c\<close>): a state machine
  which sends a request, then the file in blocks with a continued checksum, and an abort
  request when anything fails. The function that transfers a packet is an argument, as in
  the code; the driver passes \<open>TransferPacket\<close>. The buffers \<open>OS_Memalloc\<close> returns are
  arguments too, since their content is not initialised.
\<close>

section \<open>The code\<close>

abbreviation (input) RCX_FILE_DOWNLOAD_REQ :: u32 where "RCX_FILE_DOWNLOAD_REQ \<equiv> 0x1E62"
abbreviation (input) RCX_FILE_DOWNLOAD_DATA_REQ :: u32 where "RCX_FILE_DOWNLOAD_DATA_REQ \<equiv> 0x1E64"
abbreviation (input) RCX_FILE_DOWNLOAD_ABORT_REQ :: u32 where "RCX_FILE_DOWNLOAD_ABORT_REQ \<equiv> 0x1E66"
abbreviation (input) RCX_PACKET_SEQ_NONE :: u32 where "RCX_PACKET_SEQ_NONE \<equiv> 0x00"
abbreviation (input) RCX_PACKET_SEQ_FIRST :: u32 where "RCX_PACKET_SEQ_FIRST \<equiv> 0x80"
abbreviation (input) RCX_PACKET_SEQ_MIDDLE :: u32 where "RCX_PACKET_SEQ_MIDDLE \<equiv> 0xC0"
abbreviation (input) RCX_PACKET_SEQ_LAST :: u32 where "RCX_PACKET_SEQ_LAST \<equiv> 0x40"
abbreviation (input) TO_SEND_PACKET :: u64 where "TO_SEND_PACKET \<equiv> 1000"
abbreviation (input) SIZEOF_RCX_PACKET :: u64 where "SIZEOF_RCX_PACKET \<equiv> 1596"

type_synonym 's transfer = "packet \<Rightarrow> bytes \<Rightarrow> u64 \<Rightarrow> u64 \<Rightarrow> ('s, u32 \<times> bytes) proc"

record download_args =
  da_ulChannel :: u64
  da_ulMailboxSize :: u64
  da_ulTransferType :: u64
  da_szFileName :: bytes
  da_pvFile :: bytes
  da_ulFileLength :: u64

record download =
  dl_ulMaxDataLength :: u32
  dl_ulSendLen :: u32
  dl_ulTransferedLength :: u32
  dl_ulCRC :: u32
  dl_ulBlockNumber :: u32
  dl_ulState :: u32
  dl_ulCmdDataState :: u32
  dl_fStopDownload :: bool
  dl_lRetAbort :: u32
  dl_lRet :: u32
  dl_ulCurrentId :: u32
  dl_ulCurrentOffset :: u32
  dl_ptBaseSendPkt :: packet
  dl_ptBaseRecvPkt :: bytes

definition download_init :: "download_args \<Rightarrow> packet \<Rightarrow> bytes \<Rightarrow> download" where
  "download_init a ptBaseSendPkt ptBaseRecvPkt = \<lparr>dl_ulMaxDataLength = ucast (da_ulMailboxSize a - 48),
     dl_ulSendLen = 0, dl_ulTransferedLength = 0, dl_ulCRC = 0, dl_ulBlockNumber = 0,
     dl_ulState = RCX_FILE_DOWNLOAD_REQ, dl_ulCmdDataState = RCX_PACKET_SEQ_NONE, dl_fStopDownload = False,
     dl_lRetAbort = NETANA_NO_ERROR, dl_lRet = NETANA_NO_ERROR, dl_ulCurrentId = 0, dl_ulCurrentOffset = 0,
     dl_ptBaseSendPkt = ptBaseSendPkt, dl_ptBaseRecvPkt = ptBaseRecvPkt\<rparr>"

text \<open>The common end of a transfer: its error, or the state of the confirmation.\<close>

definition confirmed :: "u32 \<Rightarrow> bytes \<Rightarrow> u32" where
  "confirmed lRet ptRecvPkt = (if lRet \<noteq> NETANA_NO_ERROR then lRet else pk_ulState (read_packet ptRecvPkt))"

definition file_name_length :: "download_args \<Rightarrow> u64" where
  "file_name_length a = min (of_nat (length (da_szFileName a)) + 1) (da_ulMailboxSize a - 58)"

definition request_packet :: "download_args \<Rightarrow> download \<Rightarrow> packet" where
  "request_packet a d = (let n = file_name_length a; p = dl_ptBaseSendPkt d in
     p\<lparr>pk_ulDest := 0, pk_ulSrc := 0, pk_ulDestId := 0, pk_ulSrcId := 0, pk_ulLen := ucast (18 + n),
       pk_ulId := dl_ulCurrentId d + 1, pk_ulState := 0, pk_ulCmd := RCX_FILE_DOWNLOAD_REQ,
       pk_ulExt := dl_ulCmdDataState d, pk_ulRout := 0,
       pk_abData := blit 0 (le32 (ucast (da_ulTransferType a)) @ le32 (dl_ulMaxDataLength d) @
         le32 (ucast (da_ulFileLength a)) @ le32 (ucast (da_ulChannel a)) @ le16 (ucast n) @
         take (unat n) (da_szFileName a @ [0])) (pk_abData p)\<rparr>)"

definition send_request :: "'s transfer \<Rightarrow> download_args \<Rightarrow> download \<Rightarrow> ('s, download) proc" where
  "send_request xfer a d s = do {
     let p = request_packet a d;
     ((r, rcv), s1) \<leftarrow> xfer p (dl_ptBaseRecvPkt d) SIZEOF_RCX_PACKET TO_SEND_PACKET s;
     let lRet = confirmed r rcv;
     let d1 = d\<lparr>dl_ulCurrentId := dl_ulCurrentId d + 1, dl_ptBaseSendPkt := p, dl_ptBaseRecvPkt := rcv, dl_lRet := lRet\<rparr>;
     let ulMaxBlockSize = word_at 10 rcv;
     Some (if lRet \<noteq> NETANA_NO_ERROR then d1\<lparr>dl_ulState := RCX_FILE_DOWNLOAD_ABORT_REQ\<rparr>
       else if ulMaxBlockSize = 0 then
         d1\<lparr>dl_lRet := NETANA_DOWNLOAD_FAILED, dl_ulState := RCX_FILE_DOWNLOAD_ABORT_REQ\<rparr>
       else
         let m = (if dl_ulMaxDataLength d > ulMaxBlockSize then ulMaxBlockSize else dl_ulMaxDataLength d);
             d2 = d1\<lparr>dl_ulMaxDataLength := m, dl_ulState := RCX_FILE_DOWNLOAD_DATA_REQ\<rparr>
         in if da_ulFileLength a \<le> ucast m
            then d2\<lparr>dl_ulSendLen := ucast (da_ulFileLength a), dl_ulCmdDataState := RCX_PACKET_SEQ_NONE\<rparr>
            else d2\<lparr>dl_ulSendLen := m, dl_ulCmdDataState := RCX_PACKET_SEQ_FIRST\<rparr>, s1)
   }"

definition block_data :: "download_args \<Rightarrow> download \<Rightarrow> bytes" where
  "block_data a d = take (unat (dl_ulSendLen d)) (drop (unat (dl_ulCurrentOffset d)) (da_pvFile a))"

definition data_packet :: "download_args \<Rightarrow> download \<Rightarrow> packet" where
  "data_packet a d = (let p = dl_ptBaseSendPkt d in
     p\<lparr>pk_ulDest := 0, pk_ulSrc := 0, pk_ulCmd := RCX_FILE_DOWNLOAD_DATA_REQ, pk_ulId := dl_ulCurrentId d + 1,
       pk_ulExt := dl_ulCmdDataState d, pk_ulLen := 8 + dl_ulSendLen d,
       pk_abData := blit 0 (le32 (dl_ulBlockNumber d) @ le32 (CreateCRC32 (dl_ulCRC d) (block_data a d)) @
         block_data a d) (pk_abData p)\<rparr>)"

definition next_block :: "download_args \<Rightarrow> download \<Rightarrow> download" where
  "next_block a d =
     (let t = dl_ulTransferedLength d + dl_ulSendLen d;
          d1 = d\<lparr>dl_ulTransferedLength := t\<rparr>
      in if dl_ulCmdDataState d = RCX_PACKET_SEQ_LAST \<or> dl_ulCmdDataState d = RCX_PACKET_SEQ_NONE
         then d1\<lparr>dl_fStopDownload := True\<rparr>
         else
           let d2 = d1\<lparr>dl_ulCurrentOffset := dl_ulCurrentOffset d + dl_ulSendLen d,
                       dl_ulState := RCX_FILE_DOWNLOAD_DATA_REQ\<rparr>
           in if da_ulFileLength a \<le> ucast (dl_ulSendLen d + t)
              then d2\<lparr>dl_ulSendLen := ucast (da_ulFileLength a - ucast t), dl_ulCmdDataState := RCX_PACKET_SEQ_LAST\<rparr>
              else d2\<lparr>dl_ulCmdDataState := RCX_PACKET_SEQ_MIDDLE\<rparr>)"

definition send_data :: "'s transfer \<Rightarrow> download_args \<Rightarrow> download \<Rightarrow> ('s, download) proc" where
  "send_data xfer a d s = do {
     let p = data_packet a d;
     ((r, rcv), s1) \<leftarrow> xfer p (dl_ptBaseRecvPkt d) SIZEOF_RCX_PACKET TO_SEND_PACKET s;
     let lRet = confirmed r rcv;
     let d1 = d\<lparr>dl_ulCurrentId := dl_ulCurrentId d + 1, dl_ulCRC := CreateCRC32 (dl_ulCRC d) (block_data a d),
                dl_ulBlockNumber := dl_ulBlockNumber d + 1, dl_ptBaseSendPkt := p, dl_ptBaseRecvPkt := rcv,
                dl_lRet := lRet\<rparr>;
     Some (if lRet \<noteq> NETANA_NO_ERROR then d1\<lparr>dl_ulState := RCX_FILE_DOWNLOAD_ABORT_REQ\<rparr>
           else next_block a d1, s1)
   }"

definition abort_packet :: "download \<Rightarrow> packet" where
  "abort_packet d = (dl_ptBaseSendPkt d)\<lparr>pk_ulDest := 0, pk_ulSrc := 0, pk_ulDestId := 0, pk_ulSrcId := 0,
     pk_ulLen := 0, pk_ulId := dl_ulCurrentId d + 1, pk_ulState := 0, pk_ulCmd := RCX_FILE_DOWNLOAD_ABORT_REQ,
     pk_ulExt := RCX_PACKET_SEQ_NONE, pk_ulRout := 0\<rparr>"

definition send_abort :: "'s transfer \<Rightarrow> download \<Rightarrow> ('s, download) proc" where
  "send_abort xfer d s = do {
     let p = abort_packet d;
     ((r, rcv), s1) \<leftarrow> xfer p (dl_ptBaseRecvPkt d) SIZEOF_RCX_PACKET TO_SEND_PACKET s;
     Some (d\<lparr>dl_ulCurrentId := dl_ulCurrentId d + 1, dl_ptBaseSendPkt := p, dl_ptBaseRecvPkt := rcv,
             dl_lRetAbort := confirmed r rcv, dl_fStopDownload := True\<rparr>, s1)
   }"

definition download_step :: "'s transfer \<Rightarrow> download_args \<Rightarrow> download \<Rightarrow> ('s, download) proc" where
  "download_step xfer a d s =
     (if dl_ulState d = RCX_FILE_DOWNLOAD_REQ then send_request xfer a d s
      else if dl_ulState d = RCX_FILE_DOWNLOAD_DATA_REQ then send_data xfer a d s
      else if dl_ulState d = RCX_FILE_DOWNLOAD_ABORT_REQ then send_abort xfer d s
      else Some (d\<lparr>dl_lRet := NETANA_FUNCTION_FAILED, dl_fStopDownload := True\<rparr>, s))"

text \<open>
  The \<open>do ... while\<close> loop with its number of rounds bounded; \<open>DownloadFile\<close> takes a bound
  which \<open>download_returns\<close> below shows to be enough.
\<close>

fun download_loop :: "nat \<Rightarrow> 's transfer \<Rightarrow> download_args \<Rightarrow> download \<Rightarrow> ('s, download) proc" where
  "download_loop 0 xfer a d s = None"
| "download_loop (Suc n) xfer a d s = do {
     (d1, s1) \<leftarrow> download_step xfer a d s;
     if dl_fStopDownload d1 then Some (d1, s1) else download_loop n xfer a d1 s1
   }"

definition DownloadFile :: "'s transfer \<Rightarrow> download_args \<Rightarrow> packet \<Rightarrow> bytes \<Rightarrow> ('s, u32) proc" where
  "DownloadFile xfer a ptBaseSendPkt ptBaseRecvPkt s = do {
     (d, s1) \<leftarrow> download_loop (unat (da_ulFileLength a) + 3) xfer a (download_init a ptBaseSendPkt ptBaseRecvPkt) s;
     Some (if dl_lRet d \<noteq> NETANA_NO_ERROR then dl_lRet d else dl_lRetAbort d, s1)
   }"

section \<open>What was sent\<close>

text \<open>A transfer function which notes the packets it is given.\<close>

definition logged :: "'s transfer \<Rightarrow> ('s \<times> packet list) transfer" where
  "logged xfer p rcv n t = (\<lambda>(s, log). map_option (\<lambda>(r, s1). (r, (s1, log @ [p]))) (xfer p rcv n t s))"

definition payload :: "packet \<Rightarrow> bytes" where
  "payload p = take (unat (pk_ulLen p)) (pk_abData p)"

text \<open>Block \<open>i\<close> of a file cut into \<open>bs\<close>: number, checksum of all up to it, and its data.\<close>

definition data_request :: "bytes list \<Rightarrow> u32 \<Rightarrow> nat \<Rightarrow> packet \<Rightarrow> bool" where
  "data_request bs ext i p \<longleftrightarrow> pk_ulCmd p = RCX_FILE_DOWNLOAD_DATA_REQ \<and> pk_ulDest p = 0 \<and> pk_ulSrc p = 0 \<and>
     pk_ulId p = of_nat (i + 2) \<and> pk_ulExt p = ext \<and>
     payload p = le32 (of_nat i) @ le32 (CreateCRC32 0 (concat (take (Suc i) bs))) @ bs ! i"

definition open_flag :: "nat \<Rightarrow> u32" where
  "open_flag i = (if i = 0 then RCX_PACKET_SEQ_FIRST else RCX_PACKET_SEQ_MIDDLE)"

definition seq_flag :: "nat \<Rightarrow> nat \<Rightarrow> u32" where
  "seq_flag k i = (if Suc i < k then open_flag i else if i = 0 then RCX_PACKET_SEQ_NONE else RCX_PACKET_SEQ_LAST)"

definition fits :: "download_args \<Rightarrow> packet \<Rightarrow> bool" where
  "fits a p \<longleftrightarrow> unat (pk_ulLen p) + 40 \<le> unat (da_ulMailboxSize a)"

text \<open>The arguments the driver calls with: a mailbox of sane size and a file which fits 32 bits.\<close>

definition args_ok :: "download_args \<Rightarrow> bool" where
  "args_ok a \<longleftrightarrow> 58 \<le> unat (da_ulMailboxSize a) \<and> unat (da_ulFileLength a) = length (da_pvFile a) \<and>
     length (da_pvFile a) + unat (da_ulMailboxSize a) < 2 ^ 32"

text \<open>The loop state before a block is sent, when \<open>bs\<close> are the blocks sent so far.\<close>

definition sending :: "download_args \<Rightarrow> bytes list \<Rightarrow> download \<Rightarrow> bool" where
  "sending a bs d \<longleftrightarrow>
     (let L = length (da_pvFile a); off = length (concat bs); m = unat (dl_ulMaxDataLength d) in
      dl_ulState d = RCX_FILE_DOWNLOAD_DATA_REQ \<and> dl_lRetAbort d = 0 \<and> 0 < m \<and> m + 48 \<le> unat (da_ulMailboxSize a) \<and>
      concat bs = take off (da_pvFile a) \<and> off \<le> L \<and> (bs \<noteq> [] \<longrightarrow> off < L) \<and> length bs \<le> off \<and>
      dl_ulTransferedLength d = of_nat off \<and> dl_ulCurrentOffset d = of_nat off \<and>
      dl_ulBlockNumber d = of_nat (length bs) \<and> dl_ulCurrentId d = of_nat (Suc (length bs)) \<and>
      dl_ulCRC d = CreateCRC32 0 (concat bs) \<and>
      unat (dl_ulSendLen d) = min m (L - off) \<and>
      dl_ulCmdDataState d = (if off + m < L then open_flag (length bs) else if bs = [] then RCX_PACKET_SEQ_NONE else RCX_PACKET_SEQ_LAST))"

text \<open>The packets sent so far: a request and the blocks, none of which is the last.\<close>

definition sent_so_far :: "download_args \<Rightarrow> bytes list \<Rightarrow> packet list \<Rightarrow> bool" where
  "sent_so_far a bs log \<longleftrightarrow> (\<exists>req datas. log = req # datas \<and> pk_ulCmd req = RCX_FILE_DOWNLOAD_REQ \<and>
     length datas = length bs \<and> (\<forall>p \<in> set log. fits a p) \<and>
     (\<forall>i < length bs. data_request bs (open_flag i) i (datas ! i)))"

definition sent_all :: "download_args \<Rightarrow> bytes list \<Rightarrow> packet list \<Rightarrow> bool" where
  "sent_all a bs log \<longleftrightarrow> (\<exists>req datas. log = req # datas \<and> pk_ulCmd req = RCX_FILE_DOWNLOAD_REQ \<and>
     length datas = length bs \<and> (\<forall>p \<in> set log. fits a p) \<and>
     (\<forall>i < length bs. data_request bs (seq_flag (length bs) i) i (datas ! i)))"

lemma sending_state: "sending a bs d \<Longrightarrow> dl_ulState d = RCX_FILE_DOWNLOAD_DATA_REQ"
  by (simp add: sending_def Let_def)

lemma payload_blit: "unat (pk_ulLen p) = length bs \<Longrightarrow> pk_abData p = blit 0 bs x \<Longrightarrow> payload p = bs"
  by (simp add: payload_def blit_def)

lemma data_request_append:
  "i < length bs \<Longrightarrow> data_request (bs @ [b]) ext i p = data_request bs ext i p"
  by (simp add: data_request_def nth_append)

lemma fits_request:
  assumes "args_ok a"
  shows "fits a (request_packet a d)"
proof -
  have "file_name_length a \<le> da_ulMailboxSize a - 58"
    by (simp add: file_name_length_def)
  moreover have "58 \<le> da_ulMailboxSize a"
    using assms by (simp add: args_ok_def word_le_nat_alt)
  ultimately have n: "unat (file_name_length a) + 58 \<le> unat (da_ulMailboxSize a)"
    by (simp add: word_le_nat_alt unat_sub)
  then have "unat (18 + file_name_length a) = 18 + unat (file_name_length a)"
    using unsigned_less[of "da_ulMailboxSize a", where ?'a = nat] by (subst unat_add_no_wrap) auto
  moreover have "unat (ucast (18 + file_name_length a) :: u32) \<le> unat (18 + file_name_length a)"
    by (simp add: unsigned_ucast_eq take_bit_nat_less_eq_self)
  ultimately show ?thesis
    using n by (simp add: fits_def request_packet_def Let_def)
qed

lemma unat_ucast_64_32: "unat (w :: u64) < 2 ^ 32 \<Longrightarrow> unat (ucast w :: u32) = unat w"
  by (simp add: unsigned_ucast_eq take_bit_nat_eq_self)

lemma len_le: "unat (x :: u64) = n \<Longrightarrow> x \<le> ucast (y :: u32) \<longleftrightarrow> n \<le> unat y"
  by (simp add: word_le_nat_alt)

definition fresh :: "download_args \<Rightarrow> download \<Rightarrow> bool" where
  "fresh a d \<longleftrightarrow> dl_ulMaxDataLength d = ucast (da_ulMailboxSize a - 48) \<and> dl_ulTransferedLength d = 0 \<and>
     dl_ulCRC d = 0 \<and> dl_ulBlockNumber d = 0 \<and> dl_ulCurrentId d = 0 \<and> dl_ulCurrentOffset d = 0 \<and>
     dl_lRetAbort d = 0 \<and> dl_ulState d = RCX_FILE_DOWNLOAD_REQ \<and> \<not> dl_fStopDownload d"

lemma args_okD:
  assumes "args_ok a"
  shows "58 \<le> unat (da_ulMailboxSize a)" "unat (da_ulFileLength a) = length (da_pvFile a)"
    "length (da_pvFile a) + unat (da_ulMailboxSize a) < 4294967296"
    "unat (ucast (da_ulMailboxSize a - 48) :: u32) + 48 = unat (da_ulMailboxSize a)"
    "unat (ucast (da_ulFileLength a) :: u32) = length (da_pvFile a)"
proof -
  show a: "58 \<le> unat (da_ulMailboxSize a)" "unat (da_ulFileLength a) = length (da_pvFile a)"
    "length (da_pvFile a) + unat (da_ulMailboxSize a) < 4294967296"
    using assms by (simp_all add: args_ok_def)
  have "unat (da_ulMailboxSize a - 48) = unat (da_ulMailboxSize a) - 48"
    using a(1) by (subst unat_sub) (simp_all add: word_le_nat_alt)
  then show "unat (ucast (da_ulMailboxSize a - 48) :: u32) + 48 = unat (da_ulMailboxSize a)"
    using a by (subst unat_ucast_64_32) auto
  show "unat (ucast (da_ulFileLength a) :: u32) = length (da_pvFile a)"
    using a by (subst unat_ucast_64_32) auto
qed

lemma send_request_sending:
  assumes "args_ok a" "send_request (logged xfer) a d (s, []) = Some (d1, (s1, log))" "fresh a d"
  shows "sent_so_far a [] log \<and> \<not> dl_fStopDownload d1 \<and> dl_lRetAbort d1 = 0 \<and>
    (if dl_lRet d1 = NETANA_NO_ERROR then sending a [] d1 else dl_ulState d1 = RCX_FILE_DOWNLOAD_ABORT_REQ)"
proof -
  note ok = args_okD[OF assms(1)]
  obtain r rcv where x: "xfer (request_packet a d) (dl_ptBaseRecvPkt d) SIZEOF_RCX_PACKET TO_SEND_PACKET s = Some ((r, rcv), s1)"
    and log: "log = [request_packet a d]"
    using assms(2) by (auto simp: send_request_def logged_def bind_eq_Some_conv Let_def split: if_splits)
  have so: "sent_so_far a [] log"
    using fits_request[OF assms(1), of d] by (simp add: sent_so_far_def log request_packet_def Let_def)
  define m where "m = (if dl_ulMaxDataLength d > word_at 10 rcv then word_at 10 rcv else dl_ulMaxDataLength d)"
  have max: "unat (dl_ulMaxDataLength d) + 48 = unat (da_ulMailboxSize a)"
    using ok(4) assms(3) by (simp add: fresh_def)
  have m: "unat m + 48 \<le> unat (da_ulMailboxSize a)" "word_at 10 rcv \<noteq> 0 \<Longrightarrow> 0 < unat m"
    using max ok(1) by (auto simp: m_def word_less_nat_alt unat_gt_0)
  have d1: "d1 = (let lRet = confirmed r rcv; d1 = d\<lparr>dl_ulCurrentId := dl_ulCurrentId d + 1,
        dl_ptBaseSendPkt := request_packet a d, dl_ptBaseRecvPkt := rcv, dl_lRet := lRet\<rparr> in
      if lRet \<noteq> NETANA_NO_ERROR then d1\<lparr>dl_ulState := RCX_FILE_DOWNLOAD_ABORT_REQ\<rparr>
      else if word_at 10 rcv = 0 then d1\<lparr>dl_lRet := NETANA_DOWNLOAD_FAILED, dl_ulState := RCX_FILE_DOWNLOAD_ABORT_REQ\<rparr>
      else let d2 = d1\<lparr>dl_ulMaxDataLength := m, dl_ulState := RCX_FILE_DOWNLOAD_DATA_REQ\<rparr>
         in if da_ulFileLength a \<le> ucast m
            then d2\<lparr>dl_ulSendLen := ucast (da_ulFileLength a), dl_ulCmdDataState := RCX_PACKET_SEQ_NONE\<rparr>
            else d2\<lparr>dl_ulSendLen := m, dl_ulCmdDataState := RCX_PACKET_SEQ_FIRST\<rparr>)"
    using assms(2) x unfolding m_def send_request_def logged_def Let_def by (simp split del: if_split)
  have le: "da_ulFileLength a \<le> ucast m \<longleftrightarrow> length (da_pvFile a) \<le> unat m"
    by (simp add: word_le_nat_alt ok(2))
  show ?thesis
    using so m assms(3) ok unfolding d1 le
    by (simp add: Let_def sending_def fresh_def open_flag_def CreateCRC32_def min_def)
qed

lemma download_init_fresh: "fresh a (download_init a p rcv)"
  by (simp add: fresh_def download_init_def)

section \<open>One block\<close>

lemma unat_of_nat_32: "n < 4294967296 \<Longrightarrow> unat (of_nat n :: u32) = n"
  by (simp add: unat_of_nat take_bit_nat_eq_self)

lemma sending_block:
  assumes "args_ok a" "sending a bs d"
  shows "length (block_data a d) = unat (dl_ulSendLen d)" "unat (dl_ulSendLen d) + 48 \<le> unat (da_ulMailboxSize a)"
    "concat (bs @ [block_data a d]) = take (length (concat bs) + unat (dl_ulSendLen d)) (da_pvFile a)"
    "length (concat (bs @ [block_data a d])) = length (concat bs) + unat (dl_ulSendLen d)"
    "unat (dl_ulCurrentOffset d) = length (concat bs)"
proof -
  let ?off = "length (concat bs)"
  note ok = args_okD[OF assms(1)]
  have s: "concat bs = take ?off (da_pvFile a)" "?off \<le> length (da_pvFile a)" "dl_ulCurrentOffset d = of_nat ?off"
    "unat (dl_ulSendLen d) = min (unat (dl_ulMaxDataLength d)) (length (da_pvFile a) - ?off)"
    "unat (dl_ulMaxDataLength d) + 48 \<le> unat (da_ulMailboxSize a)"
    using assms(2) unfolding sending_def Let_def by blast+
  have "?off < 4294967296"
    using s(2) ok(3) by linarith
  then show off: "unat (dl_ulCurrentOffset d) = ?off"
    unfolding s(3) by (rule unat_of_nat_32)
  show l: "length (block_data a d) = unat (dl_ulSendLen d)"
    using s(2,4) by (simp add: block_data_def off)
  show "unat (dl_ulSendLen d) + 48 \<le> unat (da_ulMailboxSize a)"
    using s(4,5) by simp
  show "concat (bs @ [block_data a d]) = take (?off + unat (dl_ulSendLen d)) (da_pvFile a)"
    using s(1) by (simp add: take_add block_data_def off)
  show "length (concat (bs @ [block_data a d])) = ?off + unat (dl_ulSendLen d)"
    using l by simp
qed

lemma data_packet_ok:
  assumes "args_ok a" "sending a bs d"
  shows "fits a (data_packet a d)"
    "data_request (bs @ [block_data a d]) (dl_ulCmdDataState d) (length bs) (data_packet a d)"
proof -
  note b = sending_block[OF assms]
  note ok = args_okD[OF assms(1)]
  have len: "unat (8 + dl_ulSendLen d) = 8 + unat (dl_ulSendLen d)"
    by (subst unat_add_no_wrap) (use b(2) ok(3) in simp_all)
  show "fits a (data_packet a d)"
    using b(2) by (simp add: fits_def data_packet_def Let_def len)
  have s: "dl_ulBlockNumber d = of_nat (length bs)" "dl_ulCurrentId d = of_nat (Suc (length bs))"
    "dl_ulCRC d = CreateCRC32 0 (concat bs)"
    using assms(2) unfolding sending_def Let_def by blast+
  have "payload (data_packet a d) = le32 (of_nat (length bs)) @ le32 (CreateCRC32 0 (concat bs @ block_data a d)) @ block_data a d"
    by (rule payload_blit) (simp_all add: data_packet_def Let_def len b(1) s CreateCRC32_continue)
  then show "data_request (bs @ [block_data a d]) (dl_ulCmdDataState d) (length bs) (data_packet a d)"
    by (simp add: data_request_def) (simp add: data_packet_def Let_def s)
qed

lemma sent_append:
  assumes "sent_so_far a bs log" "fits a p" "data_request (bs @ [b]) ext (length bs) p"
  shows "ext = open_flag (length bs) \<Longrightarrow> sent_so_far a (bs @ [b]) (log @ [p])"
    "ext = (if bs = [] then RCX_PACKET_SEQ_NONE else RCX_PACKET_SEQ_LAST) \<Longrightarrow> sent_all a (bs @ [b]) (log @ [p])"
proof -
  obtain req datas where l: "log = req # datas" "pk_ulCmd req = RCX_FILE_DOWNLOAD_REQ" "length datas = length bs"
    "\<forall>p \<in> set log. fits a p" "\<forall>i < length bs. data_request bs (open_flag i) i (datas ! i)"
    using assms(1) unfolding sent_so_far_def by blast
  show "sent_so_far a (bs @ [b]) (log @ [p])" if "ext = open_flag (length bs)"
    unfolding sent_so_far_def using l assms(2,3) that
    by (intro exI[of _ req] exI[of _ "datas @ [p]"]) (auto simp: nth_append data_request_append less_Suc_eq)
  show "sent_all a (bs @ [b]) (log @ [p])" if "ext = (if bs = [] then RCX_PACKET_SEQ_NONE else RCX_PACKET_SEQ_LAST)"
    unfolding sent_all_def using l assms(2,3) that
    by (intro exI[of _ req] exI[of _ "datas @ [p]"])
      (auto simp: nth_append data_request_append less_Suc_eq seq_flag_def)
qed

text \<open>After a confirmed block: the download is complete, or the next block is due.\<close>

lemma next_block_sending:
  assumes "args_ok a" "sending a bs d"
    and keep: "dl_ulMaxDataLength d1 = dl_ulMaxDataLength d" "dl_ulSendLen d1 = dl_ulSendLen d"
      "dl_ulTransferedLength d1 = dl_ulTransferedLength d" "dl_ulCurrentOffset d1 = dl_ulCurrentOffset d"
      "dl_ulCmdDataState d1 = dl_ulCmdDataState d" "dl_lRetAbort d1 = dl_lRetAbort d" "\<not> dl_fStopDownload d1"
    and new: "dl_ulBlockNumber d1 = dl_ulBlockNumber d + 1" "dl_ulCurrentId d1 = dl_ulCurrentId d + 1"
      "dl_ulCRC d1 = CreateCRC32 (dl_ulCRC d) (block_data a d)"
  shows "if length (concat bs) + unat (dl_ulMaxDataLength d) < length (da_pvFile a)
    then \<not> dl_fStopDownload (next_block a d1) \<and> sending a (bs @ [block_data a d]) (next_block a d1)
    else dl_fStopDownload (next_block a d1) \<and> concat (bs @ [block_data a d]) = da_pvFile a"
proof -
  let ?off = "length (concat bs)" and ?L = "length (da_pvFile a)" and ?m = "unat (dl_ulMaxDataLength d)"
  note b = sending_block[OF assms(1,2)]
  note ok = args_okD[OF assms(1)]
  have s: "?off \<le> ?L" "0 < ?m" "?m + 48 \<le> unat (da_ulMailboxSize a)" "length bs \<le> ?off"
    "unat (dl_ulSendLen d) = min ?m (?L - ?off)" "dl_ulTransferedLength d = of_nat ?off"
    "dl_ulCurrentOffset d = of_nat ?off" "dl_ulBlockNumber d = of_nat (length bs)"
    "dl_ulCurrentId d = of_nat (Suc (length bs))" "dl_ulCRC d = CreateCRC32 0 (concat bs)" "dl_lRetAbort d = 0"
    "dl_ulCmdDataState d = (if ?off + ?m < ?L then open_flag (length bs) else if bs = [] then RCX_PACKET_SEQ_NONE else RCX_PACKET_SEQ_LAST)"
    using assms(2) unfolding sending_def Let_def by blast+
  show ?thesis
  proof (cases "?off + ?m < ?L")
    case True
    then have len: "unat (dl_ulSendLen d) = ?m"
      using s(5) by simp
    have t: "unat (dl_ulTransferedLength d + dl_ulSendLen d) = ?off + ?m"
      using True s(1,3) ok(3) by (subst unat_add_no_wrap) (simp_all add: s(6) unat_of_nat_32 len)
    have t2: "unat (dl_ulSendLen d + (dl_ulTransferedLength d + dl_ulSendLen d)) = ?off + 2 * ?m"
      using True s(1,3) ok(3) by (subst unat_add_no_wrap) (simp_all add: t len)
    have tw: "dl_ulTransferedLength d + dl_ulSendLen d = of_nat (?off + ?m)"
      using len by (simp add: s(6) word_unat_eq_iff[of "dl_ulSendLen d", symmetric])
    have le: "da_ulFileLength a \<le> ucast (dl_ulSendLen d + (dl_ulTransferedLength d + dl_ulSendLen d)) \<longleftrightarrow> ?L \<le> ?off + 2 * ?m"
      unfolding len_le[OF ok(2)] t2 ..
    have rest: "unat (ucast (da_ulFileLength a - ucast (dl_ulTransferedLength d + dl_ulSendLen d)) :: u32) = ?L - (?off + ?m)"
      using True ok(2,3) by (subst unat_ucast_64_32; subst unat_sub) (simp_all add: word_le_nat_alt t)
    have noend: "\<not> (dl_ulCmdDataState d1 = RCX_PACKET_SEQ_LAST \<or> dl_ulCmdDataState d1 = RCX_PACKET_SEQ_NONE)"
      using True s(12) keep(5) by (simp add: open_flag_def)
    have n: "next_block a d1 = (let d2 = d1\<lparr>dl_ulTransferedLength := of_nat (?off + ?m),
          dl_ulCurrentOffset := of_nat (?off + ?m), dl_ulState := RCX_FILE_DOWNLOAD_DATA_REQ\<rparr>
        in if ?L \<le> ?off + 2 * ?m
           then d2\<lparr>dl_ulSendLen := ucast (da_ulFileLength a - ucast (dl_ulTransferedLength d + dl_ulSendLen d)),
                   dl_ulCmdDataState := RCX_PACKET_SEQ_LAST\<rparr>
           else d2\<lparr>dl_ulCmdDataState := RCX_PACKET_SEQ_MIDDLE\<rparr>)"
      using noend keep le tw s(6,7) unfolding next_block_def Let_def by simp
    have c: "concat (bs @ [block_data a d]) = take (?off + ?m) (da_pvFile a)"
      "length (concat (bs @ [block_data a d])) = ?off + ?m"
      using b(3,4) len by simp_all
    have "sending a (bs @ [block_data a d]) (next_block a d1)"
      unfolding sending_def c(2) Let_def
      using True s(2,3,4,8,9,10,11) keep new rest len c(1) unfolding n Let_def
      by (simp add: open_flag_def CreateCRC32_continue)
    then show ?thesis
      using True keep(7) by (simp add: n Let_def)
  next
    case False
    then have "?off + unat (dl_ulSendLen d) = ?L"
      using s(1,5) by simp
    then have "concat (bs @ [block_data a d]) = da_pvFile a"
      using b(3) by simp
    then show ?thesis
      using False s(12) keep by (simp add: next_block_def Let_def)
  qed
qed

section \<open>The loop\<close>

lemma send_data_sending:
  assumes "args_ok a" "sending a bs d" "\<not> dl_fStopDownload d" "sent_so_far a bs log"
    "send_data (logged xfer) a d (s, log) = Some (d1, (s1, log1))"
  shows "log1 = log @ [data_packet a d] \<and>
    (if dl_lRet d1 \<noteq> NETANA_NO_ERROR then dl_ulState d1 = RCX_FILE_DOWNLOAD_ABORT_REQ \<and> \<not> dl_fStopDownload d1
     else if dl_fStopDownload d1 then
       dl_lRetAbort d1 = 0 \<and> concat (bs @ [block_data a d]) = da_pvFile a \<and> sent_all a (bs @ [block_data a d]) log1
     else sending a (bs @ [block_data a d]) d1 \<and> sent_so_far a (bs @ [block_data a d]) log1)"
proof -
  obtain r rcv where x: "xfer (data_packet a d) (dl_ptBaseRecvPkt d) SIZEOF_RCX_PACKET TO_SEND_PACKET s = Some ((r, rcv), s1)"
    and log1: "log1 = log @ [data_packet a d]"
    using assms(5) by (auto simp: send_data_def logged_def bind_eq_Some_conv Let_def split: if_splits)
  define d2 where "d2 = d\<lparr>dl_ulCurrentId := dl_ulCurrentId d + 1, dl_ulCRC := CreateCRC32 (dl_ulCRC d) (block_data a d),
     dl_ulBlockNumber := dl_ulBlockNumber d + 1, dl_ptBaseSendPkt := data_packet a d, dl_ptBaseRecvPkt := rcv,
     dl_lRet := confirmed r rcv\<rparr>"
  have d1: "d1 = (if confirmed r rcv \<noteq> NETANA_NO_ERROR then d2\<lparr>dl_ulState := RCX_FILE_DOWNLOAD_ABORT_REQ\<rparr> else next_block a d2)"
    using assms(5) x unfolding send_data_def logged_def Let_def d2_def by (simp split del: if_split)
  have ret: "dl_lRet (next_block a d2) = confirmed r rcv"
    by (simp add: next_block_def Let_def d2_def)
  have abort: "dl_lRetAbort (next_block a d2) = 0"
    using assms(2) by (simp add: next_block_def Let_def d2_def sending_def)
  note nb = next_block_sending[OF assms(1,2), of d2]
  note p = data_packet_ok[OF assms(1,2)]
  have flag: "dl_ulCmdDataState d = (if length (concat bs) + unat (dl_ulMaxDataLength d) < length (da_pvFile a)
      then open_flag (length bs) else if bs = [] then RCX_PACKET_SEQ_NONE else RCX_PACKET_SEQ_LAST)"
    using assms(2) unfolding sending_def Let_def by blast
  note sent = sent_append[OF assms(4) p]
  show ?thesis
  proof (cases "confirmed r rcv = NETANA_NO_ERROR")
    case True
    then show ?thesis
      using nb ret abort sent flag assms(3) unfolding d1 log1
      by (auto simp: d2_def split: if_splits)
  next
    case False
    then show ?thesis
      using assms(3) unfolding d1 log1 by (simp add: d2_def)
  qed
qed

definition dl_inv :: "download_args \<Rightarrow> download \<Rightarrow> packet list \<Rightarrow> bool" where
  "dl_inv a d log \<longleftrightarrow> \<not> dl_fStopDownload d \<and> (\<forall>p \<in> set log. fits a p) \<and>
     (fresh a d \<and> log = [] \<or> (\<exists>bs. sending a bs d \<and> sent_so_far a bs log) \<or>
      dl_ulState d = RCX_FILE_DOWNLOAD_ABORT_REQ \<and> dl_lRet d \<noteq> NETANA_NO_ERROR)"

definition dl_done :: "download_args \<Rightarrow> download \<Rightarrow> packet list \<Rightarrow> bool" where
  "dl_done a d log \<longleftrightarrow> (\<forall>p \<in> set log. fits a p) \<and>
     (if dl_lRet d = NETANA_NO_ERROR
      then dl_lRetAbort d = NETANA_NO_ERROR \<and> (\<exists>bs. concat bs = da_pvFile a \<and> sent_all a bs log)
      else log \<noteq> [] \<and> pk_ulCmd (last log) = RCX_FILE_DOWNLOAD_ABORT_REQ)"

text \<open>A bound on the rounds still to come.\<close>

definition need :: "download_args \<Rightarrow> download \<Rightarrow> nat" where
  "need a d = (if dl_ulState d = RCX_FILE_DOWNLOAD_REQ then length (da_pvFile a) + 3
     else if dl_ulState d = RCX_FILE_DOWNLOAD_DATA_REQ then length (da_pvFile a) - unat (dl_ulCurrentOffset d) + 2 else 1)"

lemma download_step_inv:
  assumes "args_ok a" "dl_inv a d log" "download_step (logged xfer) a d (s, log) = Some (d1, (s1, log1))"
  shows "if dl_fStopDownload d1 then dl_done a d1 log1 else dl_inv a d1 log1 \<and> need a d1 < need a d"
proof -
  consider (req) "fresh a d" "log = []" | (data) bs where "sending a bs d" "sent_so_far a bs log"
    | (abort) "dl_ulState d = RCX_FILE_DOWNLOAD_ABORT_REQ" "dl_lRet d \<noteq> NETANA_NO_ERROR"
    using assms(2) unfolding dl_inv_def by blast
  then show ?thesis
  proof cases
    case req
    then have st: "dl_ulState d = RCX_FILE_DOWNLOAD_REQ"
      by (simp add: fresh_def)
    have r: "send_request (logged xfer) a d (s, []) = Some (d1, (s1, log1))"
      using assms(3) st req(2) by (simp add: download_step_def)
    note post = send_request_sending[OF assms(1) r req(1)]
    moreover have "\<forall>p \<in> set log1. fits a p"
      using post by (auto simp: sent_so_far_def)
    moreover have "need a d1 < need a d" if "dl_ulState d1 \<noteq> RCX_FILE_DOWNLOAD_REQ"
      using that st by (simp add: need_def less_Suc_eq_le)
    ultimately show ?thesis
      by (auto simp: dl_inv_def dest: sending_state split: if_splits)
  next
    case (data bs)
    then have st: "dl_ulState d = RCX_FILE_DOWNLOAD_DATA_REQ"
      by (simp add: sending_def Let_def)
    have r: "send_data (logged xfer) a d (s, log) = Some (d1, (s1, log1))"
      using assms(3) st by (simp add: download_step_def)
    have ns: "\<not> dl_fStopDownload d" "\<forall>p \<in> set log. fits a p"
      using assms(2) by (simp_all add: dl_inv_def)
    note post = send_data_sending[OF assms(1) data(1) ns(1) data(2) r]
    have f: "\<forall>p \<in> set log1. fits a p"
      using post ns(2) data_packet_ok(1)[OF assms(1) data(1)] by auto
    have nd: "need a d1 < need a d" if "sending a (bs @ [block_data a d]) d1"
    proof -
      note o = sending_block(5)[OF assms(1) data(1)] sending_block(5)[OF assms(1) that] sending_block(4)[OF assms(1) data(1)]
      have "length (concat (bs @ [block_data a d])) < length (da_pvFile a)" "dl_ulState d1 = RCX_FILE_DOWNLOAD_DATA_REQ"
        using that by (simp_all add: sending_def Let_def)
      moreover have "0 < unat (dl_ulSendLen d)"
        using data(1) \<open>length (concat (bs @ [block_data a d])) < length (da_pvFile a)\<close>
        unfolding sending_def Let_def o(3) by auto
      ultimately show ?thesis
        using st o by (simp add: need_def)
    qed
    have fin: "\<exists>bs. concat bs = da_pvFile a \<and> sent_all a bs log1"
      if "dl_lRet d1 = NETANA_NO_ERROR" "dl_fStopDownload d1"
      using post that by (intro exI[of _ "bs @ [block_data a d]"]) auto
    have cont: "\<exists>bs. sending a bs d1 \<and> sent_so_far a bs log1"
      if "dl_lRet d1 = NETANA_NO_ERROR" "\<not> dl_fStopDownload d1"
      using post that by (intro exI[of _ "bs @ [block_data a d]"]) auto
    have nd': "need a d1 < need a d" if "dl_lRet d1 \<noteq> NETANA_NO_ERROR"
      using post that st by (simp add: need_def)
    show ?thesis
    proof (cases "dl_lRet d1 = NETANA_NO_ERROR")
      case True
      then show ?thesis
        using fin cont f nd post by (simp add: dl_inv_def dl_done_def)
    next
      case False
      then show ?thesis
        using post f nd' by (simp add: dl_inv_def)
    qed
  next
    case abort
    then show ?thesis
      using assms by (auto simp: download_step_def send_abort_def logged_def bind_eq_Some_conv Let_def
          dl_done_def dl_inv_def abort_packet_def fits_def args_ok_def)
  qed
qed

lemma download_loop_done:
  assumes "args_ok a"
  shows "dl_inv a d log \<Longrightarrow> download_loop n (logged xfer) a d (s, log) = Some (d1, (s1, log1)) \<Longrightarrow> dl_done a d1 log1"
proof (induction n arbitrary: d s log)
  case (Suc n)
  obtain d2 s2 log2 where st: "download_step (logged xfer) a d (s, log) = Some (d2, (s2, log2))"
    using Suc.prems(2) by (auto simp: bind_eq_Some_conv)
  note inv = download_step_inv[OF assms Suc.prems(1) st]
  show ?case
    using Suc inv st by (cases "dl_fStopDownload d2") auto
qed simp

text \<open>Noting the packets changes nothing else.\<close>

lemma logged_step:
  "map_option (\<lambda>(d1, (s1, l)). (d1, s1)) (download_step (logged xfer) a d (s, log)) = download_step xfer a d s"
  by (simp add: download_step_def send_request_def send_data_def send_abort_def logged_def Let_def
      split: bind_split prod.split)

lemma logged_loop:
  "map_option (\<lambda>(d1, (s1, l)). (d1, s1)) (download_loop n (logged xfer) a d (s, log)) = download_loop n xfer a d s"
proof (induction n arbitrary: d s log)
  case (Suc n)
  show ?case
  proof (cases "download_step (logged xfer) a d (s, log)")
    case None
    then show ?thesis
      using logged_step[of xfer a d s log] by (simp add: eq_commute[of None])
  next
    case (Some x)
    obtain d1 s1 log1 where x: "x = (d1, (s1, log1))"
      by (cases x)
    then have "download_step xfer a d s = Some (d1, s1)"
      using logged_step[of xfer a d s log] Some by simp
    then show ?thesis
      using Suc Some x by simp
  qed
qed simp

lemma download_loop_returns:
  assumes "args_ok a" and total: "\<And>p r n t s. xfer p r n t s \<noteq> None"
  shows "dl_inv a d log \<Longrightarrow> need a d \<le> n \<Longrightarrow> download_loop n (logged xfer) a d (s, log) \<noteq> None"
proof (induction n arbitrary: d s log)
  case 0
  then show ?case
    by (simp add: need_def split: if_splits)
next
  case (Suc n)
  have "download_step xfer a d s \<noteq> None"
    using total by (simp add: download_step_def send_request_def send_data_def send_abort_def Let_def
        del: not_None_eq split: bind_split prod.split)
  then obtain d1 s1 log1 where st: "download_step (logged xfer) a d (s, log) = Some (d1, (s1, log1))"
    using logged_step[of xfer a d s log] by (cases "download_step (logged xfer) a d (s, log)") auto
  note inv = download_step_inv[OF assms(1) Suc.prems(1) st]
  then show ?case
    using Suc.IH[of d1 log1 s1] Suc.prems(2) st by (auto split: if_splits)
qed

lemma dl_inv_init: "dl_inv a (download_init a p rcv) []"
  using download_init_fresh[of a p rcv] by (simp add: dl_inv_def fresh_def)

section \<open>Properties\<close>

lemma download_sent:
  assumes "args_ok a" "DownloadFile (logged xfer) a p rcv (s, []) = Some (r, (s', log))"
  shows "(\<forall>q \<in> set log. fits a q) \<and>
    (r = NETANA_NO_ERROR \<longrightarrow> (\<exists>bs. concat bs = da_pvFile a \<and> sent_all a bs log)) \<and>
    (r \<noteq> NETANA_NO_ERROR \<longrightarrow> log \<noteq> [] \<and> pk_ulCmd (last log) = RCX_FILE_DOWNLOAD_ABORT_REQ)"
proof -
  obtain d where d: "download_loop (unat (da_ulFileLength a) + 3) (logged xfer) a (download_init a p rcv) (s, []) = Some (d, (s', log))"
    and r: "r = (if dl_lRet d \<noteq> NETANA_NO_ERROR then dl_lRet d else dl_lRetAbort d)"
    using assms(2) by (auto simp: DownloadFile_def bind_eq_Some_conv)
  have "dl_done a d log"
    by (rule download_loop_done[OF assms(1) dl_inv_init d])
  then show ?thesis
    using r by (auto simp: dl_done_def split: if_splits)
qed

text \<open>C3: Whatever the device answers, every packet \<open>DownloadFile\<close> sends fits the mailbox.
  When it reports success, it has sent one request and then the whole file, block after
  block: the blocks concatenate to the file, they are numbered from 0, their sequence flags
  mark the first, middle and last (or only) block, and each carries the CRC-32 of all data
  up to its end. When it reports an error, the last packet sent was an abort request.\<close>

theorem download_correct:
  assumes "args_ok a" "DownloadFile (logged xfer) a p rcv (s, []) = Some (r, (s', log))"
  shows "(\<forall>q \<in> set log. fits a q) \<and>
    (r = NETANA_NO_ERROR \<longrightarrow> (\<exists>bs. concat bs = da_pvFile a \<and> sent_all a bs log)) \<and>
    (r \<noteq> NETANA_NO_ERROR \<longrightarrow> log \<noteq> [] \<and> pk_ulCmd (last log) = RCX_FILE_DOWNLOAD_ABORT_REQ)"
  by (rule download_sent[OF assms])

text \<open>C17: \<open>DownloadFile\<close> ends after at most one request, one packet per block and one abort,
  as soon as every packet transfer returns: no answer of the device keeps it in its loop.\<close>

theorem download_returns:
  assumes "args_ok a" "\<And>p r n t s. xfer p r n t s \<noteq> None"
  shows "\<exists>r s'. DownloadFile xfer a p rcv s = Some (r, s')"
proof -
  have "need a (download_init a p rcv) \<le> unat (da_ulFileLength a) + 3"
    using assms(1) by (simp add: need_def download_init_def args_ok_def)
  then have "download_loop (unat (da_ulFileLength a) + 3) (logged xfer) a (download_init a p rcv) (s, []) \<noteq> None"
    by (rule download_loop_returns[OF assms dl_inv_init])
  then show ?thesis
    using logged_loop[of "unat (da_ulFileLength a) + 3" xfer a "download_init a p rcv" s "[]"]
    by (cases "download_loop (unat (da_ulFileLength a) + 3) xfer a (download_init a p rcv) s") (auto simp: DownloadFile_def)
qed


text \<open>A device which confirms every packet and takes blocks of at most two bytes.\<close>

definition confirming :: "unit transfer" where
  "confirming p rcv n t s = Some ((NETANA_NO_ERROR, replicate 40 0 @ le32 2), s)"

definition sample_file :: download_args where
  "sample_file = \<lparr>da_ulChannel = 0, da_ulMailboxSize = 124, da_ulTransferType = 2, da_szFileName = [0x61, 0x62],
     da_pvFile = [1, 2, 3, 4, 5], da_ulFileLength = 5\<rparr>"

lemma sample_file_ok: "args_ok sample_file"
  by (simp add: args_ok_def sample_file_def)

lemma confirmed_sample: "confirmed 0 (replicate 40 0 @ le32 2) = 0" "word_at 10 (replicate 40 0 @ le32 2) = 2"
  by (simp_all add: confirmed_def read_packet_def word_at_def) (simp add: rd32_def)

lemma confirming_step:
  "download_step (logged confirming) a d s = Some (d1, s1) \<Longrightarrow> dl_lRetAbort d = 0 \<Longrightarrow>
     dl_ulState d \<in> {RCX_FILE_DOWNLOAD_REQ, RCX_FILE_DOWNLOAD_DATA_REQ} \<Longrightarrow>
     dl_lRet d1 = 0 \<and> dl_lRetAbort d1 = 0 \<and> dl_ulState d1 \<in> {RCX_FILE_DOWNLOAD_REQ, RCX_FILE_DOWNLOAD_DATA_REQ}"
  by (cases s) (auto simp: download_step_def send_request_def send_data_def Let_def logged_def confirming_def
      confirmed_sample next_block_def split: if_splits)

lemma confirming_loop:
  "download_loop n (logged confirming) a d s = Some (d1, s1) \<Longrightarrow> dl_lRetAbort d = 0 \<Longrightarrow>
     dl_ulState d \<in> {RCX_FILE_DOWNLOAD_REQ, RCX_FILE_DOWNLOAD_DATA_REQ} \<Longrightarrow> dl_lRet d1 = 0 \<and> dl_lRetAbort d1 = 0"
proof (induction n arbitrary: d s)
  case (Suc n)
  obtain d2 s2 where st: "download_step (logged confirming) a d s = Some (d2, s2)"
    and "if dl_fStopDownload d2 then (d1, s1) = (d2, s2) else download_loop n (logged confirming) a d2 s2 = Some (d1, s1)"
    using Suc.prems(1) by (auto simp: bind_eq_Some_conv split: if_splits)
  then show ?case
    using confirming_step[OF st Suc.prems(2,3)] Suc.IH by (auto split: if_splits)
qed simp

lemma download_sample:
  "\<exists>log. DownloadFile (logged confirming) sample_file sample_request [] ((), []) = Some (NETANA_NO_ERROR, ((), log))"
proof -
  let ?d = "download_init sample_file sample_request []"
  have "download_loop 8 (logged confirming) sample_file ?d ((), []) \<noteq> None"
    by (rule download_loop_returns[OF sample_file_ok _ dl_inv_init])
      (simp_all add: confirming_def need_def download_init_def sample_file_def)
  then obtain d log where d: "download_loop 8 (logged confirming) sample_file ?d ((), []) = Some (d, ((), log))"
    by auto
  have "dl_lRet d = 0 \<and> dl_lRetAbort d = 0"
    by (rule confirming_loop[OF d]) (simp_all add: download_init_def)
  moreover have "unat (da_ulFileLength sample_file) + 3 = 8"
    by (simp add: sample_file_def)
  ultimately show ?thesis
    using d by (simp add: DownloadFile_def)
qed

lemma download_correct_witness:
  "\<exists>log bs. DownloadFile (logged confirming) sample_file sample_request [] ((), []) = Some (NETANA_NO_ERROR, ((), log)) \<and>
     concat bs = [1, 2, 3, 4, 5] \<and> sent_all sample_file bs log"
proof -
  obtain log where "DownloadFile (logged confirming) sample_file sample_request [] ((), []) = Some (NETANA_NO_ERROR, ((), log))"
    using download_sample by blast
  with download_correct[OF sample_file_ok this] show ?thesis
    by (auto simp: sample_file_def)
qed

lemma download_returns_witness:
  "\<exists>r s'. DownloadFile confirming sample_file sample_request [] () = Some (r, s')"
  by (rule download_returns[OF sample_file_ok]) (simp add: confirming_def)

end
