(* ===== verification/Device_Boot.thy ===== *)
theory Device_Boot
  imports Download
begin

text \<open>
  How a device is brought up (\<open>netana_toolkit.c\<close>): \<open>netx_reset\<close>, the boot loader, the device
  class, the identification file and the firmware, and the part of \<open>netana_tkit_deviceadd\<close>
  that puts them in order. The functions of the port (\<open>USER_GetBootloaderFile\<close> and its
  like, \<open>OS_FileOpen\<close>, \<open>OS_FileRead\<close>, \<open>OS_Memalloc\<close>) are the argument \<open>port\<close>; saving and
  restoring the PCI configuration around the reset does not touch the modelled state.
\<close>

abbreviation (input) RCX_HW_IDENTIFY_REQ :: u32 where "RCX_HW_IDENTIFY_REQ \<equiv> 0x1EB8"
abbreviation (input) RCX_CHANNEL_INSTANTIATE_REQ :: u32 where "RCX_CHANNEL_INSTANTIATE_REQ \<equiv> 0x1EC4"
abbreviation (input) RCX_FILE_XFER_MODULE :: u64 where "RCX_FILE_XFER_MODULE \<equiv> 2"
abbreviation (input) RCX_FILE_XFER_LICENSE_CODE :: u64 where "RCX_FILE_XFER_LICENSE_CODE \<equiv> 5"
abbreviation (input) DPM_NO_MEMORY_ASSIGNED :: u32 where "DPM_NO_MEMORY_ASSIGNED \<equiv> 0x0BAD0BAD"
abbreviation (input) DPM_INVALID_CONTENT :: u32 where "DPM_INVALID_CONTENT \<equiv> 0xFFFFFFFF"
abbreviation (input) DPMSIGNATURE_BSL_VAL :: u32 where "DPMSIGNATURE_BSL_VAL \<equiv> 0x544F4F42"
abbreviation (input) DPMSIGNATURE_FW_VAL :: u32 where "DPMSIGNATURE_FW_VAL \<equiv> 0x5874656E"
abbreviation (input) NETX50_BOOTID_DPM :: u32 where "NETX50_BOOTID_DPM \<equiv> 0x4C42584E"
abbreviation (input) MSK_SYSSTA_LED_READY :: u32 where "MSK_SYSSTA_LED_READY \<equiv> 0x01"
abbreviation (input) MSK_SYSSTA_BOOT_ACTIVE :: u32 where "MSK_SYSSTA_BOOT_ACTIVE \<equiv> 0x08"
abbreviation (input) MSK_SYSSTA_BOOT_START :: u32 where "MSK_SYSSTA_BOOT_START \<equiv> 0x80"
abbreviation (input) NET_BOOTLOADER_STARTUP_CYCLES :: nat where "NET_BOOTLOADER_STARTUP_CYCLES \<equiv> 50"
abbreviation (input) NET_BOOTLOADER_STARTUP_WAIT :: u32 where "NET_BOOTLOADER_STARTUP_WAIT \<equiv> 100"
abbreviation (input) NET_BOOTLOADER_STARTUP_TIME :: u32 where "NET_BOOTLOADER_STARTUP_TIME \<equiv> 2000"

text \<open>\<open>netANALYZER\<close> with its terminating zero.\<close>

definition NETANA_COOKIE :: bytes where
  "NETANA_COOKIE = [0x6E, 0x65, 0x74, 0x41, 0x4E, 0x41, 0x4C, 0x59, 0x5A, 0x45, 0x52, 0]"

text \<open>
  The port: names of the files of a device (full and short), opening a file (its handle and
  size), reading (the bytes read), whether \<open>OS_Memalloc\<close> succeeds where the code checks it,
  and the content of the packet buffers it returns.
\<close>

record port =
  po_bootloader :: "devinst \<Rightarrow> string \<times> bytes"
  po_firmware :: "devinst \<Rightarrow> string \<times> bytes"
  po_ident :: "devinst \<Rightarrow> string \<times> bytes"
  po_open :: "string \<Rightarrow> (nat \<times> u64) option"
  po_read :: "nat \<Rightarrow> u64 \<Rightarrow> u64 \<Rightarrow> bytes"
  po_alloc :: bool
  po_send_mem :: packet
  po_recv_mem :: bytes

definition upd_bdev :: "(devinst \<Rightarrow> devinst) \<Rightarrow> boot \<Rightarrow> boot" where
  "upd_bdev f s = s\<lparr>bo_dev := f (bo_dev s)\<rparr>"

text \<open>\<open>OS_Sleep\<close>: the device goes on and time passes.\<close>

definition boot_sleep :: "boot \<Rightarrow> boot option" where
  "boot_sleep s = (case bo_env s of [] \<Rightarrow> None | t # ts \<Rightarrow> Some (boot_step t ts s))"

section \<open>Reset\<close>

definition reset_sequence :: "u32 list" where
  "reset_sequence = [0x00000000, 0x00000001, 0x00000003, 0x00000007, 0x0000000F, 0x0000001F, 0x0000003F,
     0x0000007F, 0x000000FF]"

definition dpm_cookie :: "boot_hw \<Rightarrow> u32" where
  "dpm_cookie h = rd32 (take 4 (bd_abCookie h))"

fun reset_loop :: "nat \<Rightarrow> (boot, u32) proc" where
  "reset_loop 0 s = Some (NETANA_HWRESET_ERROR, s)"
| "reset_loop (Suc n) s = do {
     s1 \<leftarrow> boot_sleep s;
     let ulState = bd_ulSystemState (bo_hw s1);
     if ulState = DPM_INVALID_CONTENT \<or> ulState = DPM_NO_MEMORY_ASSIGNED then Some (NETANA_MEMORY_MAPPING_FAILED, s1)
     else if dpm_cookie (bo_hw s1) = NETX50_BOOTID_DPM then
       Some (NETANA_NO_ERROR, upd_bdev (\<lambda>d. d\<lparr>eChip := eCHIP_NETX50\<rparr>) s1)
     else if ulState AND (MSK_SYSSTA_BOOT_ACTIVE OR MSK_SYSSTA_LED_READY) = MSK_SYSSTA_BOOT_ACTIVE OR MSK_SYSSTA_LED_READY then
       Some (NETANA_NO_ERROR, upd_bdev (\<lambda>d. d\<lparr>eChip := eCHIP_NETX100_500\<rparr>) s1)
     else reset_loop n s1
   }"

definition netx_reset :: "(boot, u32) proc" where
  "netx_reset s = do {
     s1 \<leftarrow> boot_sleep (upd_hw (\<lambda>h. h\<lparr>bd_ulHostReset := rev reset_sequence @ bd_ulHostReset h\<rparr>) s);
     reset_loop NET_BOOTLOADER_STARTUP_CYCLES s1
   }"

section \<open>Boot loader\<close>

text \<open>The image overwrites the DPM from its start: cookie, mailboxes and handshake cell.\<close>

definition overlay :: "nat \<Rightarrow> bytes \<Rightarrow> bytes \<Rightarrow> bytes" where
  "overlay off img mem = blit 0 (take (length mem) (drop off img)) mem"

definition byte_over :: "nat \<Rightarrow> bytes \<Rightarrow> u8 \<Rightarrow> u8" where
  "byte_over off img old = (if off < length img then img ! off else old)"

definition copy_image :: "bytes \<Rightarrow> boot_hw \<Rightarrow> boot_hw" where
  "copy_image img h = h\<lparr>bd_abImage := img, bd_abCookie := overlay 0 img (bd_abCookie h),
     bd_abSendMbx := overlay 0x104 img (bd_abSendMbx h), bd_abRecvMbx := overlay 0x184 img (bd_abRecvMbx h),
     bd_usData := ucast (byte_over 0x200 img (ucast (bd_usData h))) OR
       push_bit 8 (ucast (byte_over 0x201 img (ucast (drop_bit 8 (bd_usData h))))),
     bd_bNetxFlags := byte_over 0x202 img (bd_bNetxFlags h), bd_bHostFlags := byte_over 0x203 img (bd_bHostFlags h)\<rparr>"

definition hsk_value :: "boot_hw \<Rightarrow> u32" where
  "hsk_value h = ucast (bd_usData h) OR push_bit 16 (ucast (bd_bNetxFlags h)) OR push_bit 24 (ucast (bd_bHostFlags h))"

definition bl_running :: "boot_hw \<Rightarrow> bool" where
  "bl_running h \<longleftrightarrow> dpm_cookie h \<in> {DPMSIGNATURE_BSL_VAL, DPMSIGNATURE_FW_VAL} \<and>
     hsk_value h \<noteq> DPM_NO_MEMORY_ASSIGNED \<and> hsk_value h \<noteq> DPM_INVALID_CONTENT \<and>
     bd_bNetxFlags h AND NSF_READY \<noteq> 0"

definition request_start :: "u32 \<Rightarrow> u32" where
  "request_start ulState = (if ulState AND MSK_SYSSTA_BOOT_ACTIVE \<noteq> 0 then ulState OR MSK_SYSSTA_BOOT_START
     else ulState AND NOT MSK_SYSSTA_BOOT_START)"

fun bl_start_loop :: "u32 \<Rightarrow> boot_tick list \<Rightarrow> boot \<Rightarrow> (u32 \<times> boot) option" where
  "bl_start_loop lStartTime [] s = None"
| "bl_start_loop lStartTime (t # ts) s =
     (let s1 = boot_step t ts s in
      if bl_running (bo_hw s1) then Some (NETANA_NO_ERROR, s1)
      else if bo_now s1 - lStartTime < NET_BOOTLOADER_STARTUP_TIME then bl_start_loop lStartTime ts s1
      else Some (NETANA_DOWNLOAD_FAILED, s1))"

definition netx100_start_bootloader :: "port \<Rightarrow> nat \<Rightarrow> u64 \<Rightarrow> (boot, u32) proc" where
  "netx100_start_bootloader P hFile ulFileLen s =
     (let data = po_read P hFile 0 ulFileLen; s1 = upd_hw (copy_image data) s in
      if ulFileLen \<noteq> of_nat (length data) then Some (NETANA_DOWNLOAD_FAILED, s1)
      else
        let s2 = upd_hw (\<lambda>h. h\<lparr>bd_ulSystemState := request_start (bd_ulSystemState h)\<rparr>) s1
        in bl_start_loop (bo_now s2) (bo_env s2) s2)"

definition netx_download_bootloader :: "port \<Rightarrow> (boot, u32) proc" where
  "netx_download_bootloader P s =
     (case eChip (bo_dev s) of
        eCHIP_NETX100_500 \<Rightarrow>
          (case po_open P (fst (po_bootloader P (bo_dev s))) of
             None \<Rightarrow> Some (NETANA_FILE_OPEN_ERROR, s)
           | Some (hFile, ullFileLen) \<Rightarrow> netx100_start_bootloader P hFile (ucast (ucast ullFileLen :: u32)) s)
      | eCHIP_NETX50 \<Rightarrow> Some (NETANA_CHIP_NOT_SUPPORTED, s)
      | eCHIP_UNKNOWN \<Rightarrow> Some (NETANA_CHIP_NOT_SUPPORTED, s))"

section \<open>Device class, identification file, firmware\<close>

definition identify_packet :: "packet \<Rightarrow> packet" where
  "identify_packet p = p\<lparr>pk_ulDest := 0, pk_ulCmd := RCX_HW_IDENTIFY_REQ, pk_ulLen := 0\<rparr>"

definition RequestDeviceClass :: "port \<Rightarrow> (boot, u16) proc" where
  "RequestDeviceClass P s =
     (if \<not> po_alloc P then Some (0, s)
      else do {
        ((lRet, rcv), s1) \<leftarrow> TransferPacket (identify_packet (po_send_mem P)) (po_recv_mem P) SIZEOF_RCX_PACKET 100 s;
        Some (if lRet \<noteq> NETANA_NO_ERROR \<or> pk_ulState (read_packet rcv) \<noteq> RCX_S_OK then 0
              else ucast (word_at 14 rcv), s1)
      })"

definition download_of :: "u64 \<Rightarrow> bytes \<Rightarrow> bytes \<Rightarrow> u64 \<Rightarrow> download_args" where
  "download_of ulTransferType szShortFileName data ullFileLen = \<lparr>da_ulChannel = 0, da_ulMailboxSize = 124,
     da_ulTransferType = ulTransferType, da_szFileName = szShortFileName, da_pvFile = data,
     da_ulFileLength = ucast (ucast ullFileLen :: u32)\<rparr>"

definition netx_update_ident_info :: "port \<Rightarrow> u32 option \<Rightarrow> (boot, u32 \<times> u32 option) proc" where
  "netx_update_ident_info P plError s = do {
     (lRet, s1) \<leftarrow>
       (if \<not> if_fIdentUpdateRequest (tIdentInfoFile (bo_dev s)) then Some (NETANA_NO_ERROR, s)
        else
          let s0 = upd_bdev (\<lambda>d. d\<lparr>tIdentInfoFile := (tIdentInfoFile d)\<lparr>if_fIdentUpdateRequest := False\<rparr>\<rparr>) s;
              (full, short) = po_ident P (bo_dev s0)
          in case po_open P full of
               None \<Rightarrow> Some (NETANA_FILE_OPEN_ERROR, s0)
             | Some (hFile, ullFileLen) \<Rightarrow>
                 if \<not> po_alloc P then Some (NETANA_DOWNLOAD_FAILED, s0)
                 else
                   let data = po_read P hFile 0 ullFileLen in
                   if ullFileLen \<noteq> of_nat (length data) then Some (NETANA_FILE_READ_FAILED, s0)
                   else DownloadFile TransferPacket (download_of RCX_FILE_XFER_LICENSE_CODE short data ullFileLen)
                          (po_send_mem P) (po_recv_mem P) s0);
     let s2 = upd_bdev (\<lambda>d. d\<lparr>tIdentInfoFile := (tIdentInfoFile d)\<lparr>if_lError := lRet\<rparr>\<rparr>) s1;
     Some (case plError of None \<Rightarrow> (lRet, None) | Some _ \<Rightarrow> (NETANA_NO_ERROR, Some lRet), s2)
   }"

definition start_packet :: "packet \<Rightarrow> packet" where
  "start_packet p = p\<lparr>pk_ulDest := 0, pk_ulLen := 4, pk_ulCmd := RCX_CHANNEL_INSTANTIATE_REQ,
     pk_abData := blit 0 (le32 0) (pk_abData p)\<rparr>"

fun fw_start_loop :: "u32 \<Rightarrow> boot_tick list \<Rightarrow> boot \<Rightarrow> (u32 \<times> boot) option" where
  "fw_start_loop lStartTime ts s =
     (if bd_abCookie (bo_hw s) = NETANA_COOKIE then Some (NETANA_NO_ERROR, s)
      else case ts of
        [] \<Rightarrow> None
      | t # ts' \<Rightarrow>
          let s1 = boot_step t ts' s in
          if bo_now s1 - lStartTime < NET_BOOTLOADER_STARTUP_WAIT then fw_start_loop lStartTime ts' s1
          else Some (NETANA_FW_START_FAILED, s1))"

declare fw_start_loop.simps [simp del]

definition StartFirmware :: "port \<Rightarrow> (boot, u32) proc" where
  "StartFirmware P s = do {
     ((r, rcv), s1) \<leftarrow> TransferPacket (start_packet (po_send_mem P)) (po_recv_mem P) SIZEOF_RCX_PACKET TO_SEND_PACKET s;
     let lRet = confirmed r rcv;
     if lRet \<noteq> NETANA_NO_ERROR then Some (lRet, s1) else fw_start_loop (bo_now s1) (bo_env s1) s1
   }"

definition DownloadAndStartFirmware :: "port \<Rightarrow> (boot, u32) proc" where
  "DownloadAndStartFirmware P s =
     (let (full, short) = po_firmware P (bo_dev s) in
      case po_open P full of
        None \<Rightarrow> Some (NETANA_FILE_OPEN_ERROR, s)
      | Some (hFile, ullFileLen) \<Rightarrow>
          let data = po_read P hFile 0 ullFileLen in
          if ullFileLen \<noteq> of_nat (length data) then Some (NETANA_FILE_READ_FAILED, s)
          else do {
            (lRet, s1) \<leftarrow> DownloadFile TransferPacket (download_of RCX_FILE_XFER_MODULE short data ullFileLen)
               (po_send_mem P) (po_recv_mem P) s;
            if lRet \<noteq> NETANA_NO_ERROR then Some (lRet, s1) else StartFirmware P s1
          })"

section \<open>The order of the steps in netana_tkit_deviceadd\<close>

definition bring_up :: "port \<Rightarrow> (boot, u32 \<times> u32) proc" where
  "bring_up P s =
     (let s0 = upd_hw (\<lambda>h. h\<lparr>bd_ulIRQEnable_0 := 0\<rparr>) s in
      if ulFlashBased (bo_dev s0) \<noteq> 0 then
        Some ((if bd_abCookie (bo_hw s0) = NETANA_COOKIE then NETANA_NO_ERROR else NETANA_FW_START_FAILED, NETANA_NO_ERROR), s0)
      else do {
        (r1, s1) \<leftarrow> netx_reset s0;
        if r1 \<noteq> NETANA_NO_ERROR then Some ((r1, 0), s1)
        else do {
          (r2, s2) \<leftarrow> netx_download_bootloader P s1;
          if r2 \<noteq> NETANA_NO_ERROR then Some ((r2, 0), s2)
          else do {
            (cls, s3) \<leftarrow> RequestDeviceClass P s2;
            let s4 = upd_bdev (\<lambda>d. d\<lparr>usDeviceClass := cls\<rparr>) s3;
            if cls = 0 then Some ((NETANA_FUNCTION_FAILED, 0), s4)
            else do {
              ((r5, lErrorIdentUpdate), s5) \<leftarrow> netx_update_ident_info P (Some 0) s4;
              if r5 \<noteq> NETANA_NO_ERROR then Some ((r5, the lErrorIdentUpdate), s5)
              else do {
                (r6, s6) \<leftarrow> DownloadAndStartFirmware P s5;
                Some ((r6, the lErrorIdentUpdate), s6)
              }
            }
          }
        }
      })"

section \<open>What the steps leave alone\<close>

text \<open>Exchanging packets changes neither the instance nor what was reset and copied before.\<close>

definition boot_frame :: "boot \<Rightarrow> boot \<Rightarrow> bool" where
  "boot_frame s s' \<longleftrightarrow> bo_dev s' = bo_dev s \<and> bd_abImage (bo_hw s') = bd_abImage (bo_hw s) \<and>
     bd_ulHostReset (bo_hw s') = bd_ulHostReset (bo_hw s)"

lemma boot_frame_refl [simp]: "boot_frame s s"
  by (simp add: boot_frame_def)

lemma boot_frame_trans: "boot_frame a b \<Longrightarrow> boot_frame b c \<Longrightarrow> boot_frame a c"
  by (simp add: boot_frame_def)

lemma boot_frame_step [simp]: "boot_frame s (boot_step t ts s)"
  by (simp add: boot_frame_def boot_step_def)

lemma boot_frame_host [simp]: "boot_frame s (toggle_host m s')= boot_frame s s'"
  "boot_frame s (write_send bs s') = boot_frame s s'"
  by (simp_all add: boot_frame_def)

lemma Poll_boot_frame: "WaitForBitStatePollBL m st to s = Some (r, s') \<Longrightarrow> boot_frame s s'"
  by (drule Poll_frame) (simp add: poll_frame_def boot_frame_def)

lemma Put_boot_frame: "PutPacketBL p to s = Some (r, s') \<Longrightarrow> boot_frame s s'"
  by (auto simp: PutPacketBL_def bind_eq_Some_conv split: if_splits dest: Poll_boot_frame)

lemma Get_boot_frame: "GetPacketBL rcv n to s = Some (r, s') \<Longrightarrow> boot_frame s s'"
  by (auto simp: GetPacketBL_def Let_def bind_eq_Some_conv split: if_splits dest: Poll_boot_frame)

lemma transfer_loop_boot_frame: "transfer_loop p rcv n to t0 s = Some (r, s') \<Longrightarrow> boot_frame s s'"
proof (induction p rcv n to t0 s rule: transfer_loop.induct)
  case (1 p rcv n to t0 s)
  obtain r1 rcv1 s1 where g: "GetPacketBL rcv n to s = Some ((r1, rcv1), s1)"
    using 1(2) by (subst (asm) transfer_loop.simps) (auto split: option.splits)
  note eq = 1(2)[unfolded transfer_loop.simps[of p rcv] g, simplified]
  show ?case
  proof (cases "r1 \<noteq> NETANA_NO_ERROR \<or> is_answer p (read_packet rcv1)")
    case True
    then show ?thesis
      using eq Get_boot_frame[OF g] by (auto split: if_splits)
  next
    case False
    then obtain t ts where e: "bo_env s1 = t # ts"
      using eq by (cases "bo_env s1") auto
    have f: "boot_frame s (boot_step t ts s1)"
      using Get_boot_frame[OF g] boot_frame_step by (rule boot_frame_trans)
    show ?thesis
    proof (cases "ucast (bo_now (boot_step t ts s1) - t0) < to")
      case True
      then have "boot_frame (boot_step t ts s1) s'"
        using 1(1)[OF g refl refl _ _ e True] eq False e by simp
      then show ?thesis
        using f by (blast intro: boot_frame_trans)
    next
      case F: False
      then show ?thesis
        using eq False e f by auto
    qed
  qed
qed

lemma Transfer_boot_frame: "TransferPacket p rcv n to s = Some (r, s') \<Longrightarrow> boot_frame s s'"
  by (auto simp: TransferPacket_def bind_eq_Some_conv split: if_splits
      dest!: Put_boot_frame transfer_loop_boot_frame intro: boot_frame_trans)

text \<open>A download preserves whatever relation its packet transfers preserve.\<close>

lemma download_step_frame:
  assumes "\<And>p r n t s x s'. xfer p r n t s = Some (x, s') \<Longrightarrow> R s s'" "\<And>s. R s s"
  shows "download_step xfer a d s = Some (d1, s') \<Longrightarrow> R s s'"
  using assms(2)
  by (auto simp: download_step_def send_request_def send_data_def send_abort_def Let_def bind_eq_Some_conv
      split: if_splits dest!: assms(1))

lemma download_frame:
  assumes x: "\<And>p r n t s x s'. xfer p r n t s = Some (x, s') \<Longrightarrow> R s s'" and refl: "\<And>s. R s s"
    and trans: "\<And>a b c. R a b \<Longrightarrow> R b c \<Longrightarrow> R a c"
  shows "DownloadFile xfer a p rcv s = Some (r, s') \<Longrightarrow> R s s'"
proof -
  have step: "R s s'" if "download_step xfer a d s = Some (d1, s')" for d d1 s s'
    by (rule download_step_frame[where R = R, OF x refl that])
  have "download_loop n xfer a d s = Some (d1, s') \<Longrightarrow> R s s'" for n d d1 s s'
  proof (induction n arbitrary: d s)
    case (Suc n)
    obtain d2 s2 where d2: "download_step xfer a d s = Some (d2, s2)"
      and "d2 = d1 \<and> s2 = s' \<or> download_loop n xfer a d2 s2 = Some (d1, s')"
      using Suc.prems by (auto simp: bind_eq_Some_conv split: if_splits)
    then show ?case
      using step[OF d2] Suc.IH by (auto intro: trans)
  qed simp
  then show "DownloadFile xfer a p rcv s = Some (r, s') \<Longrightarrow> R s s'"
    by (auto simp: DownloadFile_def bind_eq_Some_conv)
qed

lemma Download_boot_frame:
  assumes "DownloadFile TransferPacket a p rcv s = Some (r, s')"
  shows "boot_frame s s'"
proof (rule download_frame[where R = boot_frame, OF _ _ _ assms])
  show "\<And>a b c. boot_frame a b \<Longrightarrow> boot_frame b c \<Longrightarrow> boot_frame a c"
    by (rule boot_frame_trans)
qed (rule Transfer_boot_frame boot_frame_refl, assumption?)+

lemma fw_start_loop_post:
  "fw_start_loop t0 ts s = Some (r, s') \<Longrightarrow>
     boot_frame s s' \<and> (r = NETANA_NO_ERROR \<longrightarrow> bd_abCookie (bo_hw s') = NETANA_COOKIE)"
proof (induction ts arbitrary: s)
  case Nil
  then show ?case
    by (subst (asm) fw_start_loop.simps) (auto split: if_splits)
next
  case (Cons t ts)
  then show ?case
    by (subst (asm) fw_start_loop.simps[of _ "t # ts"])
      (auto simp: Let_def split: if_splits intro: boot_frame_trans[OF boot_frame_step])
qed

lemma bl_start_loop_post:
  "bl_start_loop t0 ts s = Some (r, s') \<Longrightarrow> boot_frame s s' \<and> (r = NETANA_NO_ERROR \<longrightarrow> bl_running (bo_hw s'))"
  by (induction ts arbitrary: s)
     (auto simp: Let_def split: if_splits intro: boot_frame_trans[OF boot_frame_step])

section \<open>Properties\<close>

lemma reset_loop_post:
  "reset_loop n s = Some (r, s') \<Longrightarrow>
     bd_ulHostReset (bo_hw s') = bd_ulHostReset (bo_hw s) \<and> bd_abImage (bo_hw s') = bd_abImage (bo_hw s) \<and>
     (r = NETANA_NO_ERROR \<longrightarrow>
        (if dpm_cookie (bo_hw s') = NETX50_BOOTID_DPM then bo_dev s' = (bo_dev s)\<lparr>eChip := eCHIP_NETX50\<rparr>
         else bo_dev s' = (bo_dev s)\<lparr>eChip := eCHIP_NETX100_500\<rparr> \<and> bd_ulSystemState (bo_hw s') AND 9 = 9)) \<and>
     (r \<noteq> NETANA_NO_ERROR \<longrightarrow> bo_dev s' = bo_dev s \<and> r \<in> {NETANA_HWRESET_ERROR, NETANA_MEMORY_MAPPING_FAILED})"
proof (induction n arbitrary: s)
  case (Suc n)
  obtain s1 where s1: "boot_sleep s = Some s1" "boot_frame s s1"
    using Suc.prems by (auto simp: boot_sleep_def bind_eq_Some_conv split: list.splits)
  let ?st = "bd_ulSystemState (bo_hw s1)" and ?c = "dpm_cookie (bo_hw s1)"
  have f: "bo_dev s1 = bo_dev s" "bd_abImage (bo_hw s1) = bd_abImage (bo_hw s)"
    "bd_ulHostReset (bo_hw s1) = bd_ulHostReset (bo_hw s)"
    using s1(2) by (simp_all add: boot_frame_def)
  consider (mem) "?st = DPM_INVALID_CONTENT \<or> ?st = DPM_NO_MEMORY_ASSIGNED"
    | (netx50) "?st \<noteq> DPM_INVALID_CONTENT" "?st \<noteq> DPM_NO_MEMORY_ASSIGNED" "?c = NETX50_BOOTID_DPM"
    | (netx100) "?st \<noteq> DPM_INVALID_CONTENT" "?st \<noteq> DPM_NO_MEMORY_ASSIGNED" "?c \<noteq> NETX50_BOOTID_DPM" "?st AND 9 = 9"
    | (wait) "?st \<noteq> DPM_INVALID_CONTENT" "?st \<noteq> DPM_NO_MEMORY_ASSIGNED" "?c \<noteq> NETX50_BOOTID_DPM" "?st AND 9 \<noteq> 9"
    by blast
  then show ?case
  proof cases
    case wait
    then have "reset_loop n s1 = Some (r, s')"
      using Suc.prems s1(1) by simp
    from Suc.IH[OF this] show ?thesis
      unfolding f .
  qed (use Suc.prems s1(1) f in \<open>simp_all add: upd_bdev_def, (elim conjE, hypsubst, simp)+\<close>)
qed simp

lemma reset_loop_returns: "n \<le> length (bo_env s) \<Longrightarrow> \<exists>r s'. reset_loop n s = Some (r, s')"
proof (induction n arbitrary: s)
  case (Suc n)
  then obtain t ts where "bo_env s = t # ts"
    by (cases "bo_env s") auto
  then show ?case
    using Suc by (auto simp: boot_sleep_def boot_step_def Let_def)
qed simp

text \<open>\<open>netx_reset\<close> writes the reset sequence in its order and nothing else to the reset
  register. It reports success only when the ROM loader has shown itself, and then has
  noted the right chip: a netX50 by its cookie, a netX100/500 by both ready bits of the
  system state. On an error the instance is unchanged. It sleeps at most 51 times, so it
  returns whatever the device does.\<close>

theorem netx_reset_correct:
  assumes "51 \<le> length (bo_env s)"
  shows "\<exists>r s'. netx_reset s = Some (r, s') \<and>
    bd_ulHostReset (bo_hw s') = rev reset_sequence @ bd_ulHostReset (bo_hw s) \<and>
    (r = NETANA_NO_ERROR \<longrightarrow>
        (if dpm_cookie (bo_hw s') = NETX50_BOOTID_DPM then bo_dev s' = (bo_dev s)\<lparr>eChip := eCHIP_NETX50\<rparr>
         else bo_dev s' = (bo_dev s)\<lparr>eChip := eCHIP_NETX100_500\<rparr> \<and> bd_ulSystemState (bo_hw s') AND 9 = 9)) \<and>
    (r \<noteq> NETANA_NO_ERROR \<longrightarrow> bo_dev s' = bo_dev s \<and> r \<in> {NETANA_HWRESET_ERROR, NETANA_MEMORY_MAPPING_FAILED})"
proof -
  let ?s0 = "upd_hw (\<lambda>h. h\<lparr>bd_ulHostReset := rev reset_sequence @ bd_ulHostReset h\<rparr>) s"
  obtain t ts where e: "bo_env s = t # ts"
    using assms by (cases "bo_env s") auto
  have s1: "boot_sleep ?s0 = Some (boot_step t ts ?s0)"
    by (simp add: boot_sleep_def e upd_hw_def)
  have l: "50 \<le> length (bo_env (boot_step t ts ?s0))"
    using assms e by (simp add: boot_step_def)
  obtain r s' where "reset_loop 50 (boot_step t ts ?s0) = Some (r, s')"
    using reset_loop_returns[OF l] by blast
  then show ?thesis
    using reset_loop_post[of 50 "boot_step t ts ?s0" r s'] s1
    by (simp add: netx_reset_def boot_step_def upd_hw_def del: reset_loop.simps)
qed

lemma netx_reset_correct_witness:
  "\<exists>s'. netx_reset (boot_sample\<lparr>bo_env := replicate 51 \<lparr>bt_hw = (\<lambda>h. h\<lparr>bd_ulSystemState := 9\<rparr>), bt_now = 0\<rparr>\<rparr>)
       = Some (NETANA_NO_ERROR, s') \<and> eChip (bo_dev s') = eCHIP_NETX100_500"
proof -
  let ?t = "\<lparr>bt_hw = (\<lambda>h. h\<lparr>bd_ulSystemState := 9\<rparr>), bt_now = 0\<rparr>"
  let ?s = "boot_sample\<lparr>bo_env := replicate 51 ?t\<rparr>"
  have "51 \<le> length (bo_env ?s)"
    by simp
  note reset = netx_reset_correct[OF this]
  have r: "replicate 51 ?t = ?t # ?t # replicate 49 ?t"
    using replicate_Suc[of 50 ?t] replicate_Suc[of 49 ?t] by simp
  have c: "dpm_cookie (bo_hw boot_sample) = 0x544F4F42"
    by (simp add: dpm_cookie_def boot_sample_def rd32_def)
  have "\<exists>s'. netx_reset ?s = Some (NETANA_NO_ERROR, s') \<and> dpm_cookie (bo_hw s') = 0x544F4F42"
    using c unfolding r
    by (simp add: netx_reset_def reset_loop.simps(2)[of 49, simplified] boot_sleep_def boot_step_def upd_hw_def upd_bdev_def
        dpm_cookie_def)
  then show ?thesis
    using reset by auto
qed

lemma download_bootloader_post:
  assumes "netx_download_bootloader P s = Some (NETANA_NO_ERROR, s')"
  shows "eChip (bo_dev s) = eCHIP_NETX100_500 \<and> bo_dev s' = bo_dev s \<and> bd_ulHostReset (bo_hw s') = bd_ulHostReset (bo_hw s) \<and>
    (\<exists>h len. po_open P (fst (po_bootloader P (bo_dev s))) = Some (h, len) \<and>
       bd_abImage (bo_hw s') = po_read P h 0 (ucast (ucast len :: u32)) \<and>
       of_nat (length (bd_abImage (bo_hw s'))) = (ucast (ucast len :: u32) :: u64))"
proof (cases "eChip (bo_dev s)")
  case eCHIP_NETX100_500
  then obtain h len where o: "po_open P (fst (po_bootloader P (bo_dev s))) = Some (h, len)"
    and st: "netx100_start_bootloader P h (ucast (ucast len :: u32)) s = Some (NETANA_NO_ERROR, s')"
    using assms by (auto simp: netx_download_bootloader_def split: option.splits)
  let ?data = "po_read P h 0 (ucast (ucast len :: u32))"
  let ?s2 = "upd_hw (\<lambda>h. h\<lparr>bd_ulSystemState := request_start (bd_ulSystemState h)\<rparr>) (upd_hw (copy_image ?data) s)"
  have l: "ucast (ucast len :: u32) = (of_nat (length ?data) :: u64)"
    using st by (simp add: netx100_start_bootloader_def Let_def split: if_splits)
  have "bl_start_loop (bo_now ?s2) (bo_env ?s2) ?s2 = Some (NETANA_NO_ERROR, s')"
    using st l unfolding netx100_start_bootloader_def Let_def by simp
  then have "boot_frame ?s2 s'"
    using bl_start_loop_post by blast
  then have "bo_dev s' = bo_dev s" "bd_abImage (bo_hw s') = ?data" "bd_ulHostReset (bo_hw s') = bd_ulHostReset (bo_hw s)"
    by (simp_all add: boot_frame_def upd_hw_def copy_image_def)
  then show ?thesis
    using eCHIP_NETX100_500 o l by simp
qed (use assms in \<open>simp_all add: netx_download_bootloader_def\<close>)

lemma class_frame: "RequestDeviceClass P s = Some (c, s') \<Longrightarrow> boot_frame s s'"
  by (auto simp: RequestDeviceClass_def bind_eq_Some_conv split: if_splits dest: Transfer_boot_frame)

lemma update_ident_post:
  assumes "netx_update_ident_info P (Some x) s = Some ((r, e), s')"
  shows "r = NETANA_NO_ERROR \<and> e = Some (if_lError (tIdentInfoFile (bo_dev s'))) \<and>
    eChip (bo_dev s') = eChip (bo_dev s) \<and> usDeviceClass (bo_dev s') = usDeviceClass (bo_dev s) \<and>
    bd_abImage (bo_hw s') = bd_abImage (bo_hw s) \<and> bd_ulHostReset (bo_hw s') = bd_ulHostReset (bo_hw s)"
  using assms
  by (auto simp: netx_update_ident_info_def upd_bdev_def Let_def bind_eq_Some_conv boot_frame_def
      split: if_splits option.splits prod.splits dest!: Download_boot_frame)

lemma StartFirmware_post:
  assumes "StartFirmware P s = Some (NETANA_NO_ERROR, s')"
  shows "boot_frame s s' \<and> bd_abCookie (bo_hw s') = NETANA_COOKIE"
  using assms
  by (auto simp: StartFirmware_def Let_def bind_eq_Some_conv split: if_splits
      dest!: Transfer_boot_frame fw_start_loop_post intro: boot_frame_trans)

text \<open>The firmware file of a device has been sent as a whole, in blocks with their checksums.\<close>

definition firmware_sent :: "port \<Rightarrow> devinst \<Rightarrow> bool" where
  "firmware_sent P d \<longleftrightarrow> (\<exists>h len s1 s2 log bs.
     let data = po_read P h 0 len; a = download_of RCX_FILE_XFER_MODULE (snd (po_firmware P d)) data len in
     po_open P (fst (po_firmware P d)) = Some (h, len) \<and> of_nat (length data) = len \<and>
     DownloadFile (logged TransferPacket) a (po_send_mem P) (po_recv_mem P) (s1, []) = Some (NETANA_NO_ERROR, (s2, log)) \<and>
     concat bs = data \<and> sent_all a bs log)"

text \<open>The files of the port are of a size the driver can handle.\<close>

definition files_small :: "port \<Rightarrow> bool" where
  "files_small P \<longleftrightarrow> (\<forall>h len. length (po_read P h 0 len) + 124 < 2 ^ 32)"

lemma DownloadFile_logged:
  assumes "DownloadFile xfer a p rcv s = Some (r, s')"
  shows "\<exists>log. DownloadFile (logged xfer) a p rcv (s, []) = Some (r, (s', log))"
  using assms logged_loop[of "unat (da_ulFileLength a) + 3" xfer a "download_init a p rcv" s "[]"]
  by (cases "download_loop (unat (da_ulFileLength a) + 3) (logged xfer) a (download_init a p rcv) (s, [])")
     (auto simp: DownloadFile_def bind_eq_Some_conv)

lemma firmware_post:
  assumes "DownloadAndStartFirmware P s = Some (NETANA_NO_ERROR, s')" "files_small P"
  shows "boot_frame s s' \<and> bd_abCookie (bo_hw s') = NETANA_COOKIE \<and> firmware_sent P (bo_dev s)"
proof -
  let ?f = "po_firmware P (bo_dev s)"
  obtain h len where o: "po_open P (fst ?f) = Some (h, len)"
    using assms(1) by (auto simp: DownloadAndStartFirmware_def split: option.splits prod.splits)
  let ?data = "po_read P h 0 len"
  let ?a = "download_of RCX_FILE_XFER_MODULE (snd ?f) ?data len"
  have len: "of_nat (length ?data) = len"
    using assms(1) o by (auto simp: DownloadAndStartFirmware_def Let_def split: prod.splits if_splits)
  obtain s1 where dl: "DownloadFile TransferPacket ?a (po_send_mem P) (po_recv_mem P) s = Some (NETANA_NO_ERROR, s1)"
    and st: "StartFirmware P s1 = Some (NETANA_NO_ERROR, s')"
    using assms(1) o len by (auto simp: DownloadAndStartFirmware_def Let_def bind_eq_Some_conv split: prod.splits if_splits)
  have small: "length ?data + 124 < 4294967296"
    using assms(2) by (simp add: files_small_def)
  have "unat (of_nat (length ?data) :: u64) = length ?data"
    using small by (simp add: unat_of_nat take_bit_nat_eq_self)
  then have "unat len = length ?data"
    by (simp only: len)
  then have ok: "args_ok ?a"
    using small by (simp add: args_ok_def download_of_def unat_ucast_64_32)
  obtain log where lg: "DownloadFile (logged TransferPacket) ?a (po_send_mem P) (po_recv_mem P) (s, []) = Some (NETANA_NO_ERROR, (s1, log))"
    using DownloadFile_logged[OF dl] by blast
  obtain bs where "concat bs = ?data" "sent_all ?a bs log"
    using download_sent[OF ok lg] by (auto simp: download_of_def)
  then have "firmware_sent P (bo_dev s)"
    unfolding firmware_sent_def Let_def using o len lg by blast
  then show ?thesis
    using StartFirmware_post[OF st] Download_boot_frame[OF dl] by (blast intro: boot_frame_trans)
qed


section \<open>A device that comes up\<close>

text \<open>A tick in which the device fetches the request, puts the answer \<open>a\<close> into the receive
  mailbox and shows the cookie \<open>c\<close>.\<close>

definition respond :: "packet \<Rightarrow> bytes \<Rightarrow> boot_tick" where
  "respond a c = \<lparr>bt_hw = (\<lambda>h. h\<lparr>bd_abRecvMbx := packet_bytes a, bd_abCookie := c,
     bd_bNetxFlags := (bd_bHostFlags h XOR HSF_RECV_MBX_ACK) OR NSF_READY\<rparr>), bt_now = 0\<rparr>"

text \<open>The device is ready and both mailboxes are free.\<close>

definition idle :: "boot \<Rightarrow> bool" where
  "idle s \<longleftrightarrow> bd_bNetxFlags (bo_hw s) AND NSF_READY \<noteq> 0 \<and>
     (bd_bHostFlags (bo_hw s) XOR bd_bNetxFlags (bo_hw s)) AND (HSF_SEND_MBX_CMD OR HSF_RECV_MBX_ACK) = 0"

lemma packet_bytes_append: "packet_bytes a @ r = packet_bytes (a\<lparr>pk_abData := pk_abData a @ r\<rparr>)"
  by (simp add: packet_bytes_def header_words_def)

lemma read_answer: "read_packet (blit 0 (packet_bytes a) rcv) = a\<lparr>pk_abData := pk_abData a @ drop (length (packet_bytes a)) rcv\<rparr>"
  by (simp add: blit_def packet_bytes_append del: length_packet_bytes)

lemma idleD:
  assumes "idle s"
  shows "bd_bNetxFlags (bo_hw s) AND NSF_READY \<noteq> 0" "bl_state (bo_hw s) HSF_SEND_MBX_CMD = RCX_FLAGS_EQUAL"
    "bl_state (bo_hw s) HSF_RECV_MBX_ACK = RCX_FLAGS_EQUAL"
proof -
  let ?x = "bd_bHostFlags (bo_hw s) XOR bd_bNetxFlags (bo_hw s)"
  show "bd_bNetxFlags (bo_hw s) AND NSF_READY \<noteq> 0"
    using assms by (simp add: idle_def)
  have "?x AND HSF_SEND_MBX_CMD = (?x AND (HSF_SEND_MBX_CMD OR HSF_RECV_MBX_ACK)) AND HSF_SEND_MBX_CMD"
    "?x AND HSF_RECV_MBX_ACK = (?x AND (HSF_SEND_MBX_CMD OR HSF_RECV_MBX_ACK)) AND HSF_RECV_MBX_ACK"
    by (simp_all add: and.assoc)
  then show "bl_state (bo_hw s) HSF_SEND_MBX_CMD = RCX_FLAGS_EQUAL" "bl_state (bo_hw s) HSF_RECV_MBX_ACK = RCX_FLAGS_EQUAL"
    using assms by (simp_all add: idle_def bl_state_def)
qed

lemma idle_flags: "((x :: u8) XOR ((x OR 1))) AND 0x30 = 0" "(x OR 1) AND 1 \<noteq> 0"
proof -
  show "(x XOR (x OR 1)) AND 0x30 = 0"
    by (rule bit_word_eqI) (auto simp: bit_simps)
  have "bit ((x OR 1) AND 1) 0"
    by (simp add: bit_simps)
  then show "(x OR 1) AND 1 \<noteq> 0"
    by auto
qed

lemma transfer_respond:
  assumes "idle s" "bo_env s = respond a c # ts" "packet_size p \<le> 124" "is_answer p a"
    "packet_wf a" "length (pk_abData a) \<le> 84" "0 < to"
  shows "\<exists>s'. TransferPacket p rcv SIZEOF_RCX_PACKET to s = Some ((NETANA_NO_ERROR, blit 0 (packet_bytes a) rcv), s') \<and>
    idle s' \<and> bo_env s' = ts \<and> bo_dev s' = bo_dev s \<and> bd_abCookie (bo_hw s') = c"
proof -
  have size: "unat (packet_size a) = length (packet_bytes a)"
    by (rule packet_size_wf[OF assms(5)]) (use assms(6) in simp)
  then have small: "\<not> 1596 < (ucast (packet_size a) :: u64)" and len: "unat (ucast (packet_size a) :: u64) = length (packet_bytes a)"
    using assms(6) by (simp_all add: word_less_nat_alt)
  let ?s1 = "toggle_host HSF_SEND_MBX_CMD (write_send (take (unat (packet_size p)) (packet_bytes p)) s)"
  let ?s2 = "boot_step (respond a c) ts ?s1"
  have put: "PutPacketBL p to s = Some (NETANA_NO_ERROR, ?s1)"
    using idleD[OF assms(1)] assms(3) by (simp add: PutPacketBL_def WaitForBitStatePollBL_def not_less[symmetric])
  have e0: "boot_hostbit s 4 = boot_netxbit s 4" "boot_hostbit s 5 = boot_netxbit s 5"
    using idleD(2,3)[OF assms(1)] unfolding flag_masks by simp_all
  have e1: "bl_state (bo_hw ?s1) HSF_RECV_MBX_ACK = RCX_FLAGS_EQUAL"
    using e0 unfolding flag_masks by (simp add: boot_hostbit_def boot_netxbit_def bit_xor_iff)
  have h2: "bd_bHostFlags (bo_hw ?s2) = bd_bHostFlags (bo_hw ?s1)"
    "bd_bNetxFlags (bo_hw ?s2) = (bd_bHostFlags (bo_hw ?s1) XOR HSF_RECV_MBX_ACK) OR NSF_READY"
    by (simp_all add: boot_step_def respond_def del: toggle_host_frame write_send_frame)
  have e2: "bl_state (bo_hw ?s2) HSF_RECV_MBX_ACK = RCX_FLAGS_NOT_EQUAL"
    unfolding flag_masks bl_state_equal boot_hostbit_def boot_netxbit_def h2[unfolded flag_masks]
    by (simp add: bit_or_iff bit_xor_iff bit_1_iff)
  have rdy: "bd_bNetxFlags (bo_hw ?s1) AND NSF_READY \<noteq> 0"
    using idleD(1)[OF assms(1)] by simp
  have mbx: "bd_abRecvMbx (bo_hw ?s2) = packet_bytes a"
    by (simp add: boot_step_def respond_def)
  have get: "GetPacketBL rcv SIZEOF_RCX_PACKET to ?s1 = Some ((NETANA_NO_ERROR, blit 0 (packet_bytes a) rcv), toggle_host HSF_RECV_MBX_ACK ?s2)"
    using rdy e1 e2 assms(2,7) mbx small len
    by (simp add: GetPacketBL_def WaitForBitStatePollBL_def Let_def word_neq_0_conv[symmetric] del: length_packet_bytes)
  have "is_answer p (read_packet (blit 0 (packet_bytes a) rcv))"
    using assms(4) by (simp add: read_answer is_answer_def)
  then have "TransferPacket p rcv SIZEOF_RCX_PACKET to s = Some ((NETANA_NO_ERROR, blit 0 (packet_bytes a) rcv), toggle_host HSF_RECV_MBX_ACK ?s2)"
    by (simp add: TransferPacket_def put transfer_loop.simps[of p rcv] get)
  moreover have "idle (toggle_host HSF_RECV_MBX_ACK ?s2)"
    unfolding idle_def toggle_host_frame(1,2)
    unfolding h2 by (simp add: idle_flags)
  ultimately show ?thesis
    by (simp add: boot_step_def respond_def)
qed

definition answer :: "u32 \<Rightarrow> u32 \<Rightarrow> u32 list \<Rightarrow> packet" where
  "answer cmd i ws = \<lparr>pk_ulDest = 0, pk_ulSrc = 0, pk_ulDestId = 0, pk_ulSrcId = 0, pk_ulLen = of_nat (4 * length ws),
     pk_ulId = i, pk_ulState = 0, pk_ulCmd = cmd, pk_ulExt = 0, pk_ulRout = 0, pk_abData = concat (map le32 ws)\<rparr>"

lemma answer_ok:
  assumes "length ws \<le> 21"
  shows "packet_wf (answer cmd i ws)" "length (pk_abData (answer cmd i ws)) \<le> 84"
proof -
  have l: "length (concat (map le32 ws)) = 4 * length ws"
    by (induction ws) simp_all
  show "packet_wf (answer cmd i ws)"
    using assms l by (simp add: packet_wf_def answer_def unat_of_nat_32 del: of_nat_mult)
  show "length (pk_abData (answer cmd i ws)) \<le> 84"
    using assms l by (simp add: answer_def)
qed

lemma answer_word:
  "i < length ws \<Longrightarrow> word_at (10 + i) (blit 0 (packet_bytes (answer cmd j ws)) rcv) = ws ! i"
proof -
  assume i: "i < length ws"
  let ?p = "answer cmd j ws"
  have "blit 0 (packet_bytes ?p) rcv = concat (map le32 (header_words ?p @ ws)) @ drop (length (packet_bytes ?p)) rcv"
    by (simp add: blit_def packet_bytes_def answer_def)
  moreover have "(header_words ?p @ ws) ! (10 + i) = ws ! i"
    by (simp add: header_words_def nth_append)
  ultimately show ?thesis
    using i word_at_concat[of "10 + i" "header_words ?p @ ws"] by (simp add: header_words_def)
qed

lemma transfer_answer:
  assumes "idle s" "bo_env s = respond (answer cmd i ws) c # ts" "packet_size p \<le> 124" "is_answer p (answer cmd i ws)"
    "length ws \<le> 21" "0 < to"
  obtains s' where "TransferPacket p rcv SIZEOF_RCX_PACKET to s
      = Some ((NETANA_NO_ERROR, blit 0 (packet_bytes (answer cmd i ws)) rcv), s')"
    "idle s'" "bo_env s' = ts" "bo_dev s' = bo_dev s" "bd_abCookie (bo_hw s') = c"
  using transfer_respond[OF assms(1-4) answer_ok(1)[OF assms(5)] answer_ok(2)[OF assms(5)] assms(6)] by blast

lemma state_answer [simp]: "pk_ulState (read_packet (blit 0 (packet_bytes (answer cmd i ws)) rcv)) = 0"
  by (simp add: read_answer answer_def)

definition COOKIE_BOOT :: bytes where
  "COOKIE_BOOT = [0x42, 0x4F, 0x4F, 0x54] @ replicate 8 0"

definition sample_port :: port where
  "sample_port = \<lparr>po_bootloader = (\<lambda>_. (''boot'', [])), po_firmware = (\<lambda>_. (''fw'', [0x66])),
     po_ident = (\<lambda>_. (''ident'', [])), po_open = (\<lambda>f. Some (if f = ''boot'' then (1, 4) else (2, 1))),
     po_read = (\<lambda>h off n. take (unat n) [0x42, 0x4F, 0x4F, 0x54]), po_alloc = True,
     po_send_mem = sample_request\<lparr>pk_ulId := 0, pk_ulCmd := 0\<rparr>, po_recv_mem = []\<rparr>"

definition boot_sample_up :: boot where
  "boot_sample_up = boot_sample\<lparr>bo_env :=
     [\<lparr>bt_hw = id, bt_now = 0\<rparr>, \<lparr>bt_hw = (\<lambda>h. h\<lparr>bd_ulSystemState := 9\<rparr>), bt_now = 0\<rparr>, \<lparr>bt_hw = id, bt_now = 0\<rparr>,
      respond (answer 0x1EB9 0 [0, 0, 0, 0, 0x10]) COOKIE_BOOT, respond (answer 0x1E63 1 [100]) COOKIE_BOOT,
      respond (answer 0x1E65 2 []) COOKIE_BOOT, respond (answer 0x1EC5 0 []) NETANA_COOKIE]\<rparr>"

lemma sample_reset:
  "\<exists>s1 s2. netx_reset (upd_hw (\<lambda>h. h\<lparr>bd_ulIRQEnable_0 := 0\<rparr>) boot_sample_up) = Some (NETANA_NO_ERROR, s1) \<and>
     netx_download_bootloader sample_port s1 = Some (NETANA_NO_ERROR, s2) \<and> idle s2 \<and>
     bo_dev s2 = sample_dev\<lparr>eChip := eCHIP_NETX100_500\<rparr> \<and> bo_env s2 = drop 3 (bo_env boot_sample_up)"
  by (simp add: netx_reset_def reset_loop.simps(2)[of 49, simplified] boot_sample_up_def boot_sample_def boot_sleep_def
      boot_step_def upd_hw_def upd_bdev_def dpm_cookie_def rd32_def netx_download_bootloader_def sample_port_def
      netx100_start_bootloader_def copy_image_def overlay_def byte_over_def blit_def bl_running_def hsk_value_def idle_def)

lemma sample_class:
  assumes "idle s" "bo_env s = respond (answer 0x1EB9 0 [0, 0, 0, 0, 0x10]) c # ts"
  shows "\<exists>s'. RequestDeviceClass sample_port s = Some (0x10, s') \<and> idle s' \<and> bo_env s' = ts \<and> bo_dev s' = bo_dev s"
proof -
  let ?p = "identify_packet (po_send_mem sample_port)"
  have "packet_size ?p \<le> 124" "is_answer ?p (answer 0x1EB9 0 [0, 0, 0, 0, 0x10])"
    by (simp_all add: sample_port_def identify_packet_def sample_request_def packet_size_def is_answer_def answer_def)
  from transfer_answer[OF assms this, of 100 "po_recv_mem sample_port"]
  obtain s' where "TransferPacket ?p (po_recv_mem sample_port) SIZEOF_RCX_PACKET 100 s
      = Some ((NETANA_NO_ERROR, blit 0 (packet_bytes (answer 0x1EB9 0 [0, 0, 0, 0, 0x10])) (po_recv_mem sample_port)), s')"
    and "idle s'" "bo_env s' = ts" "bo_dev s' = bo_dev s"
    by auto
  then show ?thesis
    using answer_word[of 4 "[0, 0, 0, 0, 0x10]" "0x1EB9" 0 "po_recv_mem sample_port"]
    by (simp add: RequestDeviceClass_def, simp add: sample_port_def)
qed

lemma sample_start:
  assumes "idle s" "bo_env s = respond (answer 0x1EC5 0 []) NETANA_COOKIE # ts"
  shows "\<exists>s'. StartFirmware sample_port s = Some (NETANA_NO_ERROR, s')"
proof -
  let ?p = "start_packet (po_send_mem sample_port)"
  have "packet_size ?p \<le> 124" "is_answer ?p (answer 0x1EC5 0 [])"
    by (simp_all add: sample_port_def start_packet_def sample_request_def packet_size_def is_answer_def answer_def)
  from transfer_answer[OF assms this, of 1000 "po_recv_mem sample_port"]
  obtain s' where "TransferPacket ?p (po_recv_mem sample_port) SIZEOF_RCX_PACKET 1000 s
      = Some ((NETANA_NO_ERROR, blit 0 (packet_bytes (answer 0x1EC5 0 [])) (po_recv_mem sample_port)), s')"
    and "bd_abCookie (bo_hw s') = NETANA_COOKIE"
    by auto
  then show ?thesis
    by (simp add: StartFirmware_def confirmed_def fw_start_loop.simps)
qed

lemma sample_download:
  assumes "idle s" "bo_env s = respond (answer 0x1E63 1 [100]) c # respond (answer 0x1E65 2 []) c # ts"
  shows "\<exists>s'. DownloadFile TransferPacket (download_of RCX_FILE_XFER_MODULE [0x66] [0x42] 1) (po_send_mem sample_port)
       (po_recv_mem sample_port) s = Some (NETANA_NO_ERROR, s') \<and> idle s' \<and> bo_env s' = ts \<and> bo_dev s' = bo_dev s"
proof -
  let ?a = "download_of RCX_FILE_XFER_MODULE [0x66] [0x42] 1"
  let ?d = "download_init ?a (po_send_mem sample_port) (po_recv_mem sample_port)"
  let ?p = "request_packet ?a ?d"
  have "packet_size ?p \<le> 124" "is_answer ?p (answer 0x1E63 1 [100])"
    by (simp_all add: request_packet_def file_name_length_def download_of_def download_init_def packet_size_def
        is_answer_def answer_def Let_def)
  from transfer_answer[OF assms(1,2) this, of 1000 "po_recv_mem sample_port"]
  obtain s1 where t1: "TransferPacket ?p (po_recv_mem sample_port) SIZEOF_RCX_PACKET 1000 s
      = Some ((NETANA_NO_ERROR, blit 0 (packet_bytes (answer 0x1E63 1 [100])) (po_recv_mem sample_port)), s1)"
    and s1: "idle s1" "bo_env s1 = respond (answer 0x1E65 2 []) c # ts" "bo_dev s1 = bo_dev s"
    by auto
  let ?rcv = "blit 0 (packet_bytes (answer 0x1E63 1 [100])) (po_recv_mem sample_port)"
  have m: "word_at 10 ?rcv = 100"
    using answer_word[of 0 "[100]"] by simp
  obtain d1 where st1: "send_request TransferPacket ?a ?d s = Some (d1, s1)"
    and d1: "d1 = ?d\<lparr>dl_ulCurrentId := 1, dl_ptBaseSendPkt := ?p, dl_ptBaseRecvPkt := ?rcv, dl_ulMaxDataLength := 76,
      dl_ulState := RCX_FILE_DOWNLOAD_DATA_REQ, dl_ulSendLen := 1\<rparr>"
    using t1 m by (simp add: send_request_def confirmed_def Let_def download_init_def download_of_def)
  let ?q = "data_packet ?a d1"
  have "packet_size ?q \<le> 124" "is_answer ?q (answer 0x1E65 2 [])"
    by (simp_all add: d1 data_packet_def request_packet_def file_name_length_def download_of_def download_init_def
        sample_port_def sample_request_def packet_size_def is_answer_def answer_def Let_def)
  from transfer_answer[OF s1(1,2) this, of 1000 ?rcv]
  obtain s2 where t2: "TransferPacket ?q ?rcv SIZEOF_RCX_PACKET 1000 s1
      = Some ((NETANA_NO_ERROR, blit 0 (packet_bytes (answer 0x1E65 2 [])) ?rcv), s2)"
    and s2: "idle s2" "bo_env s2 = ts" "bo_dev s2 = bo_dev s"
    using s1 by auto
  obtain d2 where st2: "send_data TransferPacket ?a d1 s1 = Some (d2, s2)"
    and d2: "dl_fStopDownload d2" "dl_lRet d2 = 0" "dl_lRetAbort d2 = 0"
    using t2 by (simp add: send_data_def confirmed_def Let_def d1 next_block_def download_init_def)
  have n: "unat (da_ulFileLength ?a) + 3 = Suc (Suc (Suc 1))"
    by (simp add: download_of_def)
  have "dl_ulState ?d = RCX_FILE_DOWNLOAD_REQ" "dl_ulState d1 = RCX_FILE_DOWNLOAD_DATA_REQ" "\<not> dl_fStopDownload d1"
    by (simp_all add: d1 download_init_def)
  then show ?thesis
    using st1 st2 d2 s2 by (simp add: DownloadFile_def n download_step_def)
qed

lemma sample_bring_up: "\<exists>e s'. bring_up sample_port boot_sample_up = Some ((NETANA_NO_ERROR, e), s')"
proof -
  obtain s1 s2 where r: "netx_reset (upd_hw (\<lambda>h. h\<lparr>bd_ulIRQEnable_0 := 0\<rparr>) boot_sample_up) = Some (NETANA_NO_ERROR, s1)"
    "netx_download_bootloader sample_port s1 = Some (NETANA_NO_ERROR, s2)"
    and s2: "idle s2" "bo_dev s2 = sample_dev\<lparr>eChip := eCHIP_NETX100_500\<rparr>" "bo_env s2 = drop 3 (bo_env boot_sample_up)"
    using sample_reset by blast
  obtain s3 where c: "RequestDeviceClass sample_port s2 = Some (0x10, s3)"
    and s3: "idle s3" "bo_env s3 = drop 4 (bo_env boot_sample_up)" "bo_dev s3 = bo_dev s2"
    using sample_class[OF s2(1), of COOKIE_BOOT "drop 4 (bo_env boot_sample_up)"] s2(3) by (auto simp: boot_sample_up_def)
  let ?s4 = "upd_bdev (\<lambda>d. d\<lparr>usDeviceClass := 0x10\<rparr>) s3"
  obtain x s5 where u: "netx_update_ident_info sample_port (Some 0) ?s4 = Some ((NETANA_NO_ERROR, x), s5)"
    and s5: "idle s5" "bo_env s5 = bo_env s3"
    using s2(2) s3 by (simp add: netx_update_ident_info_def upd_bdev_def sample_dev_def idle_def)
  have "bo_env s5 = respond (answer 0x1E63 1 [100]) COOKIE_BOOT # respond (answer 0x1E65 2 []) COOKIE_BOOT # drop 6 (bo_env boot_sample_up)"
    using s3 s5 by (simp add: boot_sample_up_def)
  from sample_download[OF s5(1) this] obtain s6 where d: "DownloadFile TransferPacket (download_of RCX_FILE_XFER_MODULE [0x66] [0x42] 1)
       (po_send_mem sample_port) (po_recv_mem sample_port) s5 = Some (NETANA_NO_ERROR, s6)" "idle s6" "bo_env s6 = drop 6 (bo_env boot_sample_up)"
    by blast
  obtain s7 where st: "StartFirmware sample_port s6 = Some (NETANA_NO_ERROR, s7)"
    using sample_start[OF d(2), of "[]"] d(3) by (auto simp: boot_sample_up_def)
  have "DownloadAndStartFirmware sample_port s5 = Some (NETANA_NO_ERROR, s7)"
    using d(1) st by (simp add: DownloadAndStartFirmware_def) (simp add: sample_port_def)
  moreover have "ulFlashBased (bo_dev (upd_hw (\<lambda>h. h\<lparr>bd_ulIRQEnable_0 := 0\<rparr>) boot_sample_up)) = 0"
    by (simp add: upd_hw_def boot_sample_up_def boot_sample_def sample_dev_def)
  ultimately show ?thesis
    using r c u by (simp add: bring_up_def)
qed


end
