(* ===== verification/Dpm_Layout.thy ===== *)
theory Dpm_Layout
  imports Netana_Sample
begin

text \<open>
  How \<open>netana_tkit_deviceadd\<close> finds its way through the DPM: the firmware announces how many
  GPIOs and ports it has and how large filters and counters are, and the driver places one
  block after the other behind the base DPM. The pointers \<open>aptGPIOs\<close>, \<open>atFilters\<close>,
  \<open>aptCounters\<close>, \<open>pbIdentInfoBlock\<close> and \<open>ptHandshakeBlock\<close> are offsets from \<open>pvDPM\<close>
  here; \<open>pbCurrentBlock\<close> is threaded through the loops.
\<close>

section \<open>The loops\<close>

abbreviation (input) SIZEOF_BASE_DPM :: nat where "SIZEOF_BASE_DPM \<equiv> 0x600"
abbreviation (input) SIZEOF_GPIO_BLOCK :: nat where "SIZEOF_GPIO_BLOCK \<equiv> 20"
abbreviation (input) SIZEOF_FILTER_BASE :: nat where "SIZEOF_FILTER_BASE \<equiv> 4"
abbreviation (input) SIZEOF_IDENT_INFO_BLOCK :: nat where "SIZEOF_IDENT_INFO_BLOCK \<equiv> 30"
abbreviation (input) SIZEOF_HANDSHAKE_BLOCK :: nat where "SIZEOF_HANDSHAKE_BLOCK \<equiv> 256"
abbreviation (input) SIZEOF_MAILBOX_BLOCK :: nat where "SIZEOF_MAILBOX_BLOCK \<equiv> 1600"
abbreviation (input) DPM_SEND_MBX_OFFSET :: nat where "DPM_SEND_MBX_OFFSET \<equiv> 0x2900"
abbreviation (input) DPM_RECV_MBX_OFFSET :: nat where "DPM_RECV_MBX_OFFSET \<equiv> 0x2F40"

record filter_ptrs =
  fq_ptBase :: nat
  fq_pbMaskA :: nat
  fq_pbValueA :: nat
  fq_pbMaskB :: nat
  fq_pbValueB :: nat

record layout =
  ly_aptGPIOs :: "nat list"
  ly_atFilters :: "filter_ptrs list"
  ly_aptCounters :: "nat list"
  ly_pbIdentInfoBlock :: nat
  ly_ptHandshakeBlock :: int

fun gpio_loop :: "nat \<Rightarrow> nat \<Rightarrow> nat list \<times> nat" where
  "gpio_loop 0 pbCurrentBlock = ([], pbCurrentBlock)"
| "gpio_loop (Suc n) pbCurrentBlock =
     (let (ps, e) = gpio_loop n (pbCurrentBlock + SIZEOF_GPIO_BLOCK) in (pbCurrentBlock # ps, e))"

definition filter_at :: "nat \<Rightarrow> nat \<Rightarrow> filter_ptrs" where
  "filter_at ulSize pb = (let p = pb + SIZEOF_FILTER_BASE in
     \<lparr>fq_ptBase = pb, fq_pbMaskA = p, fq_pbValueA = p + ulSize,
      fq_pbMaskB = p + ulSize + ulSize, fq_pbValueB = p + ulSize + ulSize + ulSize\<rparr>)"

fun filter_loop :: "nat \<Rightarrow> nat \<Rightarrow> nat \<Rightarrow> filter_ptrs list \<times> nat" where
  "filter_loop ulSize 0 pbCurrentBlock = ([], pbCurrentBlock)"
| "filter_loop ulSize (Suc n) pbCurrentBlock =
     (let f = filter_at ulSize pbCurrentBlock; (ps, e) = filter_loop ulSize n (fq_pbValueB f + ulSize) in (f # ps, e))"

fun counter_loop :: "nat \<Rightarrow> nat \<Rightarrow> nat \<Rightarrow> nat list \<times> nat" where
  "counter_loop ulSize 0 pbCurrentBlock = ([], pbCurrentBlock)"
| "counter_loop ulSize (Suc n) pbCurrentBlock =
     (let (ps, e) = counter_loop ulSize n (pbCurrentBlock + ulSize) in (pbCurrentBlock # ps, e))"

definition read_layout :: "system_info_block \<Rightarrow> layout" where
  "read_layout i =
     (let (gs, p1) = gpio_loop (unat (si_ulGPIOCount i)) SIZEOF_BASE_DPM;
          (fs, p2) = filter_loop (unat (si_ulFilterSize i)) (unat (si_ulPortCount i)) p1;
          (cs, p3) = counter_loop (unat (si_ulCounterSize i)) (unat (si_ulPortCount i)) p2
      in \<lparr>ly_aptGPIOs = gs, ly_atFilters = fs, ly_aptCounters = cs, ly_pbIdentInfoBlock = p3,
          ly_ptHandshakeBlock = int (unat (si_ulDPMUsedSize i)) - int SIZEOF_HANDSHAKE_BLOCK\<rparr>)"

section \<open>The blocks in the order of the DPM\<close>

text \<open>A block is its offset and its size. A list of blocks is packed from \<open>p\<close> to \<open>q\<close> when each
  starts where its predecessor ends.\<close>

type_synonym block = "nat \<times> nat"

fun packed :: "nat \<Rightarrow> block list \<Rightarrow> nat \<Rightarrow> bool" where
  "packed p [] q \<longleftrightarrow> p = q"
| "packed p ((o1, n) # bs) q \<longleftrightarrow> o1 = p \<and> packed (p + n) bs q"

definition apart :: "block \<Rightarrow> block \<Rightarrow> bool" where
  "apart a b \<longleftrightarrow> fst a + snd a \<le> fst b \<or> fst b + snd b \<le> fst a"

definition filter_layout :: "nat \<Rightarrow> filter_ptrs \<Rightarrow> block list" where
  "filter_layout n f = [(fq_ptBase f, SIZEOF_FILTER_BASE), (fq_pbMaskA f, n), (fq_pbValueA f, n),
     (fq_pbMaskB f, n), (fq_pbValueB f, n)]"

definition blocks :: "system_info_block \<Rightarrow> layout \<Rightarrow> block list" where
  "blocks i l = map (\<lambda>p. (p, SIZEOF_GPIO_BLOCK)) (ly_aptGPIOs l) @
     concat (map (filter_layout (unat (si_ulFilterSize i))) (ly_atFilters l)) @
     map (\<lambda>p. (p, unat (si_ulCounterSize i))) (ly_aptCounters l) @
     [(ly_pbIdentInfoBlock l, SIZEOF_IDENT_INFO_BLOCK)]"

definition layout_end :: "system_info_block \<Rightarrow> nat" where
  "layout_end i = SIZEOF_BASE_DPM + SIZEOF_GPIO_BLOCK * unat (si_ulGPIOCount i) +
     (SIZEOF_FILTER_BASE + 4 * unat (si_ulFilterSize i) + unat (si_ulCounterSize i)) * unat (si_ulPortCount i) +
     SIZEOF_IDENT_INFO_BLOCK"

lemma packed_append [simp]: "packed p (as @ bs) q \<longleftrightarrow> (\<exists>m. packed p as m \<and> packed m bs q)"
proof (induction as arbitrary: p)
  case (Cons a as)
  then show ?case
    by (cases a) simp
qed simp

lemma packedI: "packed p as m \<Longrightarrow> packed m bs q \<Longrightarrow> packed p (as @ bs) q"
  by auto

lemma packed_le: "packed p bs q \<Longrightarrow> p \<le> q"
  by (induction p bs q rule: packed.induct) auto

lemma packed_in: "packed p bs q \<Longrightarrow> b \<in> set bs \<Longrightarrow> p \<le> fst b \<and> fst b + snd b \<le> q"
  by (induction p bs q rule: packed.induct) (auto dest: packed_le)

lemma packed_apart: "packed p bs q \<Longrightarrow> sorted_wrt apart bs"
  by (induction p bs q rule: packed.induct) (auto simp: apart_def dest: packed_in)

lemma gpio_loop_packed:
  "gpio_loop n p = (ps, e) \<Longrightarrow> packed p (map (\<lambda>p. (p, SIZEOF_GPIO_BLOCK)) ps) e \<and> length ps = n \<and> e = p + SIZEOF_GPIO_BLOCK * n"
  by (induction n arbitrary: p ps e) (auto split: prod.splits, fastforce+)

lemma counter_loop_packed:
  "counter_loop s n p = (ps, e) \<Longrightarrow> packed p (map (\<lambda>p. (p, s)) ps) e \<and> length ps = n \<and> e = p + s * n"
  by (induction n arbitrary: p ps e) (auto split: prod.splits, fastforce+)

lemma filter_loop_packed:
  "filter_loop s n p = (fs, e) \<Longrightarrow> packed p (concat (map (filter_layout s) fs)) e \<and> length fs = n \<and>
     e = p + (SIZEOF_FILTER_BASE + 4 * s) * n"
  by (induction n arbitrary: p fs e)
    (auto simp: Let_def filter_at_def filter_layout_def algebra_simps split: prod.splits, fastforce+)

lemma read_layout_packed:
  "packed SIZEOF_BASE_DPM (blocks i (read_layout i)) (layout_end i) \<and>
     length (ly_aptGPIOs (read_layout i)) = unat (si_ulGPIOCount i) \<and>
     length (ly_atFilters (read_layout i)) = unat (si_ulPortCount i) \<and>
     length (ly_aptCounters (read_layout i)) = unat (si_ulPortCount i)"
proof -
  obtain gs p1 where g: "gpio_loop (unat (si_ulGPIOCount i)) SIZEOF_BASE_DPM = (gs, p1)"
    by fastforce
  obtain fs p2 where f: "filter_loop (unat (si_ulFilterSize i)) (unat (si_ulPortCount i)) p1 = (fs, p2)"
    by fastforce
  obtain cs p3 where c: "counter_loop (unat (si_ulCounterSize i)) (unat (si_ulPortCount i)) p2 = (cs, p3)"
    by fastforce
  note l = gpio_loop_packed[OF g] filter_loop_packed[OF f] counter_loop_packed[OF c]
  have rl: "read_layout i = \<lparr>ly_aptGPIOs = gs, ly_atFilters = fs, ly_aptCounters = cs, ly_pbIdentInfoBlock = p3,
      ly_ptHandshakeBlock = int (unat (si_ulDPMUsedSize i)) - int SIZEOF_HANDSHAKE_BLOCK\<rparr>"
    by (simp add: read_layout_def g f c)
  have "packed p3 [(p3, SIZEOF_IDENT_INFO_BLOCK)] (p3 + SIZEOF_IDENT_INFO_BLOCK)"
    by simp
  note packed = packedI[OF l(1)[THEN conjunct1] packedI[OF l(2)[THEN conjunct1] packedI[OF l(3)[THEN conjunct1] this]]]
  have "p3 + SIZEOF_IDENT_INFO_BLOCK = layout_end i"
    using l by (simp add: layout_end_def algebra_simps)
  then show ?thesis
    using packed l by (simp add: rl blocks_def)
qed

text \<open>C25: The blocks found in the DPM follow the base DPM without gaps: one per GPIO, five per
  filter of a port, one counter block per port and the identification block. No two overlap
  or reach into the base DPM, whatever counts and sizes the device announces; and when their
  sum leaves room for the handshake block, they lie before it.\<close>

theorem layout_correct:
  assumes "layout_end i + SIZEOF_HANDSHAKE_BLOCK \<le> unat (si_ulDPMUsedSize i)"
  shows "sorted_wrt apart (blocks i (read_layout i)) \<and>
    length (ly_aptGPIOs (read_layout i)) = unat (si_ulGPIOCount i) \<and>
    length (ly_atFilters (read_layout i)) = unat (si_ulPortCount i) \<and>
    length (ly_aptCounters (read_layout i)) = unat (si_ulPortCount i) \<and>
    (\<forall>b \<in> set (blocks i (read_layout i)). SIZEOF_BASE_DPM \<le> fst b \<and>
       int (fst b + snd b) \<le> ly_ptHandshakeBlock (read_layout i) \<and> fst b + snd b \<le> unat (si_ulDPMUsedSize i))"
proof -
  note p = read_layout_packed[of i, THEN conjunct1]
  have h: "ly_ptHandshakeBlock (read_layout i) = int (unat (si_ulDPMUsedSize i)) - 256"
    by (simp add: read_layout_def split: prod.splits)
  have "\<forall>b \<in> set (blocks i (read_layout i)). SIZEOF_BASE_DPM \<le> fst b \<and> fst b + snd b + 256 \<le> unat (si_ulDPMUsedSize i)"
    using packed_in[OF p] assms by (meson add_le_mono1 le_trans)
  moreover have "int n \<le> int (unat (si_ulDPMUsedSize i)) - 256 \<and> n \<le> unat (si_ulDPMUsedSize i)"
    if "n + 256 \<le> unat (si_ulDPMUsedSize i)" for n
    using that by linarith
  ultimately show ?thesis
    using packed_apart[OF p] read_layout_packed[of i] unfolding h by blast
qed

definition sample_info :: system_info_block where
  "sample_info = sample_sysinfo\<lparr>si_ulGPIOCount := 4, si_ulPortCount := 2, si_ulFilterSize := 64,
     si_ulCounterSize := 104, si_ulDPMUsedSize := 0x4000\<rparr>"

lemma layout_correct_witness:
  "sorted_wrt apart (blocks sample_info (read_layout sample_info)) \<and> length (ly_atFilters (read_layout sample_info)) = 2"
proof -
  have "layout_end sample_info + SIZEOF_HANDSHAKE_BLOCK \<le> unat (si_ulDPMUsedSize sample_info)"
    by (simp add: layout_end_def sample_info_def)
  from layout_correct[OF this] show ?thesis
    by (simp add: sample_info_def)
qed

end
