(* ===== verification/User_Port.thy ===== *)
theory User_Port
  imports Netana_Sample
begin

text \<open>
  The Linux port of the user functions (\<open>USER_Linux.c\<close>): the files of a device, its alias name,
  and the device class filter, which the driver keeps per process in the list
  \<open>g_tAppProcessList\<close>. The process id of the caller is an argument.
\<close>

section \<open>Files and names\<close>

definition text_bytes :: "string \<Rightarrow> bytes" where
  "text_bytes = map (\<lambda>c. of_nat (of_char c))"

text \<open>Full and short name; \<open>tFileInfo\<close> starts out zeroed.\<close>

definition USER_GetFirmwareFile :: "devinst \<Rightarrow> string \<times> bytes" where
  "USER_GetFirmwareFile d =
     (if usDeviceClass d = NANL_DEV_CLASS then (''netanalyzer/NANL-500.nxf'', text_bytes ''NANL-500.NXF'')
      else if usDeviceClass d = NSCP_DEV_CLASS then (''netanalyzer/NSCP-100.nxf'', text_bytes ''NSCP-100.NXF'')
      else if usDeviceClass d = CIFX_DEV_CLASS then (''netanalyzer/NANLCIFX.nxf'', text_bytes ''NANLCIFX.NXF'')
      else ('''', []))"

definition USER_GetBootloaderFile :: "devinst \<Rightarrow> string \<times> bytes" where
  "USER_GetBootloaderFile d = (''netanalyzer/NETX100-BSL.bin'', text_bytes ''NETX100-BSL.bin'')"

definition USER_GetIdentInfoFile :: "devinst \<Rightarrow> string \<times> bytes" where
  "USER_GetIdentInfoFile d = (if_szIdentInfoFileName (tIdentInfoFile d), text_bytes ''lic.nxl'')"

text \<open>\<open>OS_Snprintf\<close> into a buffer of \<open>n\<close> characters keeps \<open>n - 1\<close> of them.\<close>

definition snprintf :: "nat \<Rightarrow> string \<Rightarrow> string" where
  "snprintf n str = take (n - 1) str"

definition USER_GetAliasName :: "u32 \<Rightarrow> string \<Rightarrow> nat \<Rightarrow> u32 \<times> string" where
  "USER_GetAliasName ulDeviceClass szName ulNameLen =
     (if ulDeviceClass = ucast NSCP_DEV_CLASS then (NETANA_NO_ERROR, snprintf ulNameLen ''netSCOPE'')
      else if ulDeviceClass = ucast NANL_DEV_CLASS then (NETANA_NO_ERROR, snprintf ulNameLen ''netANALYZER'')
      else if ulDeviceClass = ucast CIFX_DEV_CLASS then (NETANA_NO_ERROR, snprintf ulNameLen ''cifXANALYZER'')
      else (NETANA_INVALID_PARAMETER, szName))"

section \<open>The device class filter of a process\<close>

type_synonym apps = "(nat \<times> u32) list"

definition invalid_class :: "u32 \<Rightarrow> bool" where
  "invalid_class c \<longleftrightarrow>
     c AND NOT (NETANA_DEV_CLASS_NANL_500 OR NETANA_DEV_CLASS_NSCP_100 OR NETANA_DEV_CLASS_CIFX) \<noteq> 0 \<or> c = 0"

fun set_entry :: "nat \<Rightarrow> u32 \<Rightarrow> apps \<Rightarrow> apps option" where
  "set_entry pid c [] = None"
| "set_entry pid c ((p, x) # al) =
     (if p = pid then Some ((p, c) # al) else map_option ((#) (p, x)) (set_entry pid c al))"

definition USER_SetDevClassFilter :: "bool \<Rightarrow> nat \<Rightarrow> u32 \<Rightarrow> apps \<Rightarrow> u32 \<times> apps" where
  "USER_SetDevClassFilter alloc pid ulDeviceFilter al =
     (if invalid_class ulDeviceFilter then (NETANA_INVALID_PARAMETER, al)
      else case set_entry pid ulDeviceFilter al of
             Some al' \<Rightarrow> (NETANA_NO_ERROR, al')
           | None \<Rightarrow> if alloc then (NETANA_NO_ERROR, al @ [(pid, ulDeviceFilter)])
                     else (NETANA_FUNCTION_FAILED, al))"

fun USER_GetDevClassFilter :: "nat \<Rightarrow> apps \<Rightarrow> u32" where
  "USER_GetDevClassFilter pid [] = 0"
| "USER_GetDevClassFilter pid ((p, c) # al) = (if p = pid then c else USER_GetDevClassFilter pid al)"

fun USER_ClearDevClassFilter :: "nat \<Rightarrow> apps \<Rightarrow> apps" where
  "USER_ClearDevClassFilter pid [] = []"
| "USER_ClearDevClassFilter pid ((p, c) # al) = (if p = pid then al else (p, c) # USER_ClearDevClassFilter pid al)"

text \<open>The list is a finite map: one entry per process, with a valid class.\<close>

definition apps_ok :: "apps \<Rightarrow> bool" where
  "apps_ok al \<longleftrightarrow> distinct (map fst al) \<and> (\<forall>(p, c) \<in> set al. \<not> invalid_class c)"

lemma set_entry_None [simp]: "set_entry pid c al = None \<longleftrightarrow> pid \<notin> fst ` set al"
  by (induction pid c al rule: set_entry.induct) auto

lemma set_entry_Some:
  "set_entry pid c al = Some al' \<Longrightarrow> map fst al' = map fst al \<and> map_of al' = (map_of al)(pid \<mapsto> c) \<and>
     set al' \<subseteq> insert (pid, c) (set al)"
  by (induction pid c al arbitrary: al' rule: set_entry.induct) (auto split: if_splits)

lemma get_filter_map: "USER_GetDevClassFilter pid al = (case map_of al pid of Some c \<Rightarrow> c | None \<Rightarrow> 0)"
  by (induction pid al rule: USER_GetDevClassFilter.induct) auto

lemma clear_filter:
  "distinct (map fst al) \<Longrightarrow> map_of (USER_ClearDevClassFilter pid al) = (map_of al)(pid := None) \<and>
     set (USER_ClearDevClassFilter pid al) \<subseteq> set al \<and> distinct (map fst (USER_ClearDevClassFilter pid al))"
proof (induction pid al rule: USER_ClearDevClassFilter.induct)
  case (2 pid p c al)
  then show ?case
    by (auto simp: fun_eq_iff map_of_eq_None_iff)
qed simp

lemma set_filter_result:
  assumes "apps_ok al" "USER_SetDevClassFilter alloc pid c al = (r, al')"
  shows "apps_ok al' \<and> (r = NETANA_NO_ERROR \<longrightarrow> \<not> invalid_class c \<and> map_of al' = (map_of al)(pid \<mapsto> c)) \<and>
    (r \<noteq> NETANA_NO_ERROR \<longrightarrow> al' = al)"
proof (cases "invalid_class c")
  case False
  show ?thesis
  proof (cases "set_entry pid c al")
    case None
    then have "map_of al pid = None"
      by (simp add: map_of_eq_None_iff)
    then have "map_of (al @ [(pid, c)]) = (map_of al)(pid \<mapsto> c)"
      by (auto simp: fun_eq_iff map_add_def split: option.splits)
    then show ?thesis
      using assms None False by (auto simp: USER_SetDevClassFilter_def apps_ok_def split: if_splits)
  next
    case (Some as2)
    then show ?thesis
      using assms False set_entry_Some[OF Some] by (auto simp: USER_SetDevClassFilter_def apps_ok_def)
  qed
qed (use assms in \<open>simp add: USER_SetDevClassFilter_def\<close>)

text \<open>C26: The list of class filters refines a map from processes to valid classes: setting a
  filter changes the entry of the calling process and no other, an invalid class or a failed
  allocation changes nothing, and reading and clearing act on the entry of the caller.\<close>

theorem class_filter_refines_map:
  assumes "apps_ok al" "USER_SetDevClassFilter alloc pid c al = (r, al')"
  shows "apps_ok al' \<and> (r = NETANA_NO_ERROR \<longrightarrow> map_of al' = (map_of al)(pid \<mapsto> c)) \<and>
    (r \<noteq> NETANA_NO_ERROR \<longrightarrow> al' = al) \<and> (r = NETANA_INVALID_PARAMETER \<longleftrightarrow> invalid_class c) \<and>
    USER_GetDevClassFilter p al' = (case map_of al' p of Some x \<Rightarrow> x | None \<Rightarrow> 0) \<and>
    apps_ok (USER_ClearDevClassFilter p al') \<and> map_of (USER_ClearDevClassFilter p al') = (map_of al')(p := None)"
proof -
  note r = set_filter_result[OF assms]
  have "r = NETANA_INVALID_PARAMETER \<longleftrightarrow> invalid_class c"
    using assms(2) by (auto simp: USER_SetDevClassFilter_def split: if_splits option.splits)
  then show ?thesis
    using r clear_filter[of al' p] by (auto simp: get_filter_map apps_ok_def)
qed

lemma class_filter_refines_map_witness:
  "USER_GetDevClassFilter 7 (snd (USER_SetDevClassFilter True 7 2 [(5, 1)])) = 2 \<and>
   USER_GetDevClassFilter 5 (snd (USER_SetDevClassFilter True 7 2 [(5, 1)])) = 1"
proof -
  have ok: "apps_ok [(5, 1)]" and "\<not> invalid_class 2"
    by (simp_all add: apps_ok_def invalid_class_def)
  then have set: "USER_SetDevClassFilter True 7 2 [(5, 1)] = (NETANA_NO_ERROR, [(5, 1), (7, 2)])"
    by (simp add: USER_SetDevClassFilter_def)
  show ?thesis
    using class_filter_refines_map[OF ok set, of 7] class_filter_refines_map[OF ok set, of 5] set by simp
qed

end
