(* ===== verification/Devices.thy ===== *)
theory Devices
  imports Device_Boot Dpm_Layout User_Port Api_Capture Interrupt Api_Config
begin

text \<open>
  The devices of the toolkit: the card list with \<open>netana_tkit_init\<close>, \<open>netana_tkit_deinit\<close>,
  \<open>netana_tkit_deviceadd\<close>, \<open>netana_tkit_deviceremove\<close> and \<open>netana_restart_device\<close>, and opening
  and closing a device. A handle is the address of a device instance, \<open>0\<close> is \<open>NULL\<close>; \<open>tk_cards\<close>
  is the memory of the instances and \<open>g_tCardList\<close> the list of those under control.
\<close>

section \<open>State\<close>

abbreviation (input) NETANA_CLKOFF_BIT :: nat where "NETANA_CLKOFF_BIT \<equiv> 15"
abbreviation (input) MSK_IRQ_EN0_INT_REQ :: u32 where "MSK_IRQ_EN0_INT_REQ \<equiv> 0x80000000"

text \<open>An instance with the resources of the operating system it holds: the lock, the events of
  the handshake bits and of \<open>hStopComplete\<close>, the interrupt handler and the interrupt enable
  register.\<close>

record card =
  cd_sys :: sys
  cd_lay :: layout
  cd_pvLock :: bool
  cd_ahHandshakeBitEvents :: "bool list"
  cd_hStopComplete :: bool
  cd_irq :: bool
  cd_ulIRQEnable_0 :: u32

text \<open>\<open>tk_fault\<close> notes that a pointer that is not valid was used: \<open>OS_EnterLock\<close> with a deleted
  lock, or \<open>STAILQ_REMOVE\<close> of an instance that is not in the list, which walks past its end.\<close>

record toolkit =
  g_tCardList :: "nat list"
  g_ulCardCnt :: u32
  g_pvCardLock :: bool
  tk_fault :: bool
  tk_cards :: "nat \<Rightarrow> card"
  tk_apps :: apps

text \<open>Which allocations and registrations of the operating system succeed.\<close>

record os_alloc =
  oa_lock :: bool
  oa_stop :: bool
  oa_event :: "nat \<Rightarrow> bool"
  oa_filter :: "nat \<Rightarrow> nat \<Rightarrow> bool \<times> bool"
  oa_irq :: bool
  oa_app :: bool

text \<open>The device while it is added: its boot hardware, what it does then, and the DPM its
  firmware shows once it runs.\<close>

record dev_env =
  de_hw :: boot_hw
  de_ticks :: "boot_tick list"
  de_dpm :: "boot_hw \<Rightarrow> dpm"

definition upd_card :: "nat \<Rightarrow> (card \<Rightarrow> card) \<Rightarrow> toolkit \<Rightarrow> toolkit" where
  "upd_card h f t = t\<lparr>tk_cards := (tk_cards t)(h := f (tk_cards t h))\<rparr>"

definition upd_sys :: "(sys \<Rightarrow> sys) \<Rightarrow> card \<Rightarrow> card" where
  "upd_sys f c = c\<lparr>cd_sys := f (cd_sys c)\<rparr>"

definition card_dev :: "card \<Rightarrow> devinst" where
  "card_dev c = dev (cd_sys c)"

definition enter_lock :: "toolkit \<Rightarrow> toolkit" where
  "enter_lock t = t\<lparr>tk_fault := tk_fault t \<or> \<not> g_pvCardLock t\<rparr>"

section \<open>Events and interrupts\<close>

fun create_events :: "os_alloc \<Rightarrow> nat list \<Rightarrow> card \<Rightarrow> u32 \<times> card" where
  "create_events al [] c = (NETANA_NO_ERROR, c)"
| "create_events al (i # is) c =
     (let c1 = c\<lparr>cd_ahHandshakeBitEvents := (cd_ahHandshakeBitEvents c)[i := oa_event al i]\<rparr> in
      if oa_event al i then create_events al is (upd_sys (\<lambda>s. s\<lparr>hskEvents := (hskEvents s)[i := False]\<rparr>) c1)
      else (NETANA_IRQEVENT_CREATION_FAILED, c1))"

definition CreateIrqEvents :: "os_alloc \<Rightarrow> card \<Rightarrow> u32 \<times> card" where
  "CreateIrqEvents al c =
     (let c1 = c\<lparr>cd_hStopComplete := oa_stop al\<rparr> in
      if oa_stop al then create_events al [0..<16] (upd_sys (\<lambda>s. s\<lparr>hStopComplete := False\<rparr>) c1)
      else (NETANA_IRQEVENT_CREATION_FAILED, c1))"

definition DeleteIrqEvents :: "card \<Rightarrow> card" where
  "DeleteIrqEvents c = c\<lparr>cd_hStopComplete := False,
     cd_ahHandshakeBitEvents := map (\<lambda>_. False) (cd_ahHandshakeBitEvents c)\<rparr>"

definition netana_tkit_enable_hwinterrupts :: "card \<Rightarrow> card" where
  "netana_tkit_enable_hwinterrupts c = c\<lparr>cd_ulIRQEnable_0 := MSK_IRQ_EN0_INT_REQ OR 1\<rparr>"

definition netana_tkit_disable_hwinterrupts :: "card \<Rightarrow> card" where
  "netana_tkit_disable_hwinterrupts c = c\<lparr>cd_ulIRQEnable_0 := 0\<rparr>"

definition OS_EnableDeviceInterrupts :: "os_alloc \<Rightarrow> card \<Rightarrow> card" where
  "OS_EnableDeviceInterrupts al c =
     (if oa_irq al then netana_tkit_enable_hwinterrupts (c\<lparr>cd_irq := True\<rparr>) else c)"

definition OS_DisableDeviceInterrupts :: "card \<Rightarrow> card" where
  "OS_DisableDeviceInterrupts c = (netana_tkit_disable_hwinterrupts c)\<lparr>cd_irq := False\<rparr>"

section \<open>Adding a device\<close>

definition default_of :: "bool \<times> bool \<Rightarrow> nat \<Rightarrow> filter_pair \<Rightarrow> default_pair" where
  "default_of ok n p = \<lparr>dp_pbMask = (if fst ok then Some (take n (fp_pbMask p)) else None),
     dp_pbValue = (if snd ok then Some (take n (fp_pbValue p)) else None)\<rparr>"

definition read_instance :: "os_alloc \<Rightarrow> dpm \<Rightarrow> devinst \<Rightarrow> devinst" where
  "read_instance al m d =
     (let i = tSystemInfoBlock m; n = unat (si_ulFilterSize i); cell = atHandshake m ! 0 in
      d\<lparr>ulDeviceNr := si_ulDeviceNr i, ulSerialNr := si_ulSerialNr i, ulGpioCnt := si_ulGPIOCount i,
        atDefaultGPIOs := map (\<lambda>k. gpios m ! k) [0..<unat (si_ulGPIOCount i)],
        ulPortCnt := si_ulPortCount i, ulFilterSize := si_ulFilterSize i,
        atDefaultFilter := map (\<lambda>k. (default_of (oa_filter al k 0) n (fl_A (filters m ! k)),
                                     default_of (oa_filter al k 1) n (fl_B (filters m ! k))))
                               [0..<unat (si_ulPortCount i)],
        ulCounterSize := si_ulCounterSize i,
        ulNetxFlags := ucast (hs_usNetxFlags cell), ulHostFlags := ucast (hs_usHostFlags cell)\<rparr>)"

text \<open>\<open>%d\<close> prints the number as a signed one.\<close>

definition dec_i32 :: "u32 \<Rightarrow> string" where
  "dec_i32 w = (if bit w 31 then CHR ''-'' # dec (unat (- w)) else dec (unat w))"

definition alias_class :: "u16 \<Rightarrow> u32" where
  "alias_class c = ucast (if c = NSCP_DEV_CLASS \<or> c = NANL_DEV_CLASS then c else CIFX_DEV_CLASS)"

definition alias_name :: "u16 \<Rightarrow> u32 \<Rightarrow> string" where
  "alias_name c no = snprintf NETANA_MAX_DEVICENAMESIZE
     (snd (USER_GetAliasName (alias_class c) [] NETANA_MAX_DEVICENAMESIZE) @ ''_'' @ dec_i32 no)"

definition ack_new_status :: "sys \<Rightarrow> sys" where
  "ack_new_status s =
     (if (ulNetxFlags (dev s) XOR ulHostFlags (dev s)) AND msk NETANA_NEWSTATUS_BIT \<noteq> 0
      then netana_tkit_ToggleBit NETANA_NEWSTATUS_BIT s else s)"

definition setup_mailboxes :: "sys \<Rightarrow> sys" where
  "setup_mailboxes s = s\<lparr>dev := (dev s)\<lparr>
       tSendMbx := (tSendMbx (dev s))\<lparr>tx_ulSendMailboxLength := NETANA_CHANNEL_MAILBOX_SIZE,
         tx_bSendCMDBitoffset := of_nat NETANA_SEND_MBX_BIT, tx_ulSendPacketCnt := 0\<rparr>,
       tRecvMbx := (tRecvMbx (dev s))\<lparr>rx_ulRecvMailboxLength := NETANA_CHANNEL_MAILBOX_SIZE,
         rx_bRecvACKBitoffset := of_nat NETANA_RECV_MBX_BIT, rx_ulRecvPacketCnt := 0\<rparr>\<rparr>,
     dpm := (dpm s)\<lparr>tSendMailbox := (tSendMailbox (dpm s))\<lparr>sm_usPackagesAccepted := 0\<rparr>,
                    tRecvMailbox := (tRecvMailbox (dpm s))\<lparr>rm_usWaitingPackages := 0\<rparr>\<rparr>\<rparr>"

definition read_device :: "os_alloc \<Rightarrow> u32 \<Rightarrow> dpm \<Rightarrow> card \<Rightarrow> card" where
  "read_device al no m c =
     upd_sys (\<lambda>s. setup_mailboxes (upd_dev (\<lambda>d. d\<lparr>szAliasName := alias_name (usDeviceClass d) no, ulDevNo := no\<rparr>)
       (ack_new_status (s\<lparr>dpm := m, dev := read_instance al m (dev s)\<rparr>)))) (c\<lparr>cd_lay := read_layout (tSystemInfoBlock m)\<rparr>)"

text \<open>Everything before the card list.\<close>

definition add_device :: "port \<Rightarrow> os_alloc \<Rightarrow> dev_env \<Rightarrow> u32 \<Rightarrow> card \<Rightarrow> (u32 \<times> card) option" where
  "add_device P al E no c =
     (let c0 = c\<lparr>cd_pvLock := oa_lock al\<rparr> in
      if \<not> oa_lock al then Some (NETANA_IRQLOCK_CREATION_FAILED, c0)
      else let (r, c1) = CreateIrqEvents al c0 in
        if r \<noteq> NETANA_NO_ERROR then Some (r, c1)
        else do {
          ((r, _), b) \<leftarrow> bring_up P \<lparr>bo_dev = card_dev c1, bo_hw = de_hw E, bo_env = de_ticks E, bo_now = now (cd_sys c1)\<rparr>;
          let c2 = (upd_sys (\<lambda>s. s\<lparr>dev := bo_dev b, now := bo_now b\<rparr>) c1)\<lparr>cd_ulIRQEnable_0 := bd_ulIRQEnable_0 (bo_hw b)\<rparr>;
          Some (r, if r = NETANA_NO_ERROR then read_device al no (de_dpm E (bo_hw b)) c2 else c2)
        })"

definition first_interrupt :: "sys \<Rightarrow> sys" where
  "first_interrupt s = (let (r, s1) = netana_tkit_isr_handler True s in
     if r = NETANA_TKIT_DSR_PROCESSING_REQUEST then snd (netana_tkit_dsr_handler s1) else s1)"

definition netana_tkit_deviceadd :: "port \<Rightarrow> os_alloc \<Rightarrow> dev_env \<Rightarrow> nat \<Rightarrow> u32 \<Rightarrow> (toolkit, u32) proc" where
  "netana_tkit_deviceadd P al E h no t = do {
     (r, c) \<leftarrow> add_device P al E no (tk_cards t h);
     let t1 = upd_card h (\<lambda>_. c) t;
     Some (r, if r = NETANA_NO_ERROR then
         let t2 = (enter_lock t1)\<lparr>g_tCardList := g_tCardList t1 @ [h], g_ulCardCnt := g_ulCardCnt t1 + 1\<rparr>
         in upd_card h (\<lambda>c. OS_EnableDeviceInterrupts al (upd_sys first_interrupt c)) t2
       else upd_card h (\<lambda>c. (DeleteIrqEvents c)\<lparr>cd_pvLock := False\<rparr>) t1)
   }"

section \<open>Removing and restarting a device\<close>

definition release_device :: "file_ops \<Rightarrow> card \<Rightarrow> card" where
  "release_device ops c =
     (let c1 = (DeleteIrqEvents (OS_DisableDeviceInterrupts (c\<lparr>cd_ulIRQEnable_0 := 0\<rparr>)))\<lparr>cd_pvLock := False\<rparr>
      in upd_sys (\<lambda>s. set_files (CloseCaptureFiles ops (files_of s)) s) c1)"

definition netana_tkit_deviceremove :: "file_ops \<Rightarrow> bool \<Rightarrow> nat \<Rightarrow> (toolkit, u32) proc" where
  "netana_tkit_deviceremove ops fForceRemove h t =
     (if ulOpenCnt (card_dev (tk_cards t h)) > 0 \<and> \<not> fForceRemove then Some (NETANA_DEVICE_STILL_OPEN, t)
      else do {
        (ok, s) \<leftarrow> netana_tkit_WaitForBitState NETANA_CLKOFF_BIT NETANA_BITSTATE_EQUAL NETANA_DEFAULT_TIMEOUT
                     (netana_tkit_ToggleBit NETANA_CLKOFF_BIT (cd_sys (tk_cards t h)));
        let t1 = enter_lock (upd_card h (\<lambda>c. release_device ops (upd_sys (\<lambda>_. s) c)) t);
        Some (if ok then NETANA_NO_ERROR else NETANA_FUNCTION_FAILED,
              t1\<lparr>tk_fault := tk_fault t1 \<or> h \<notin> set (g_tCardList t1),
                 g_tCardList := remove1 h (g_tCardList t1), g_ulCardCnt := g_ulCardCnt t1 - 1\<rparr>)
      })"

definition netana_close_device :: "nat \<Rightarrow> toolkit \<Rightarrow> u32 \<times> toolkit" where
  "netana_close_device h t =
     (if h = 0 then (NETANA_INVALID_PARAMETER, t)
      else if ulOpenCnt (card_dev (tk_cards t h)) > 0 then
        (NETANA_NO_ERROR, upd_card h (upd_sys (upd_dev (\<lambda>d. d\<lparr>ulOpenCnt := ulOpenCnt d - 1\<rparr>))) t)
      else (NETANA_DEVICE_NOT_OPEN, t))"

definition netana_restart_device :: "port \<Rightarrow> file_ops \<Rightarrow> os_alloc \<Rightarrow> dev_env \<Rightarrow> nat \<Rightarrow> (toolkit, u32) proc" where
  "netana_restart_device P ops al E h t =
     (if IsCaptureRunning (cd_sys (tk_cards t h)) then Some (NETANA_CAPTURE_ACTIVE, t)
      else do {
        (r, t1) \<leftarrow> netana_tkit_deviceremove ops True h t;
        (r2, t2) \<leftarrow> (if r = NETANA_NO_ERROR
                     then netana_tkit_deviceadd P al E h (ulDevNo (card_dev (tk_cards t1 h))) t1 else Some (r, t1));
        Some (r2, if r2 \<noteq> NETANA_NO_ERROR then snd (netana_close_device h t2) else t2)
      })"

text \<open>\<open>netana_tkit_init\<close> and \<open>netana_tkit_deinit\<close>; the \<open>while\<close> loop of the latter takes the first
  card until the list is empty.\<close>

definition netana_tkit_init :: "bool \<Rightarrow> bool \<Rightarrow> toolkit \<Rightarrow> u32 \<times> toolkit" where
  "netana_tkit_init os_init lock t =
     (if os_init then
        let t1 = t\<lparr>g_tCardList := [], g_ulCardCnt := 0, g_pvCardLock := lock\<rparr>
        in (if lock then NETANA_NO_ERROR else NETANA_TKIT_INITIALIZATION_FAILED, t1)
      else (NETANA_TKIT_INITIALIZATION_FAILED, t))"

fun remove_all :: "file_ops \<Rightarrow> nat list \<Rightarrow> toolkit \<Rightarrow> toolkit option" where
  "remove_all ops [] t = Some t"
| "remove_all ops (h # hs) t = do { (_, t1) \<leftarrow> netana_tkit_deviceremove ops True h t; remove_all ops hs t1 }"

definition netana_tkit_deinit :: "file_ops \<Rightarrow> toolkit \<Rightarrow> toolkit option" where
  "netana_tkit_deinit ops t = remove_all ops (g_tCardList t) (t\<lparr>g_pvCardLock := False\<rparr>)"

section \<open>Opening a device\<close>

text \<open>\<open>OS_Strnicmp\<close> is \<open>strncmp\<close>: equality of the first \<open>n\<close> characters.\<close>

definition strn_eq :: "nat \<Rightarrow> string \<Rightarrow> string \<Rightarrow> bool" where
  "strn_eq n a b \<longleftrightarrow> take n a = take n b"

fun find_card :: "string \<Rightarrow> nat list \<Rightarrow> (nat \<Rightarrow> card) \<Rightarrow> nat option" where
  "find_card name [] m = None"
| "find_card name (h # hs) m =
     (if strn_eq NETANA_MAX_DEVICENAMESIZE name (szAliasName (card_dev (m h))) then Some h else find_card name hs m)"

definition class_selected :: "u16 \<Rightarrow> u32 \<Rightarrow> bool" where
  "class_selected c ulFilter \<longleftrightarrow>
     c = NANL_DEV_CLASS \<and> NETANA_DEV_CLASS_NANL_500 AND ulFilter = NETANA_DEV_CLASS_NANL_500 \<or>
     c = NSCP_DEV_CLASS \<and> NETANA_DEV_CLASS_NSCP_100 AND ulFilter = NETANA_DEV_CLASS_NSCP_100 \<or>
     c = CIFX_DEV_CLASS \<and> NETANA_DEV_CLASS_CIFX AND ulFilter = NETANA_DEV_CLASS_CIFX"

text \<open>The class filter of the caller; a process without one is given \<open>NETANA_DEV_CLASS_NANL_500\<close>.\<close>

definition caller_filter :: "os_alloc \<Rightarrow> nat \<Rightarrow> toolkit \<Rightarrow> u32 \<times> toolkit" where
  "caller_filter al pid t =
     (let f = USER_GetDevClassFilter pid (tk_apps t) in
      if f = 0 then (NETANA_DEV_CLASS_NANL_500,
                     t\<lparr>tk_apps := snd (USER_SetDevClassFilter (oa_app al) pid NETANA_DEV_CLASS_NANL_500 (tk_apps t))\<rparr>)
      else (f, t))"

definition default_filter :: "u32 \<Rightarrow> default_pair \<Rightarrow> netana_filter" where
  "default_filter n p = \<lparr>uf_ulFilterSize = n, uf_pbMask = dp_pbMask p, uf_pbValue = dp_pbValue p\<rparr>"

definition reset_filter :: "nat \<Rightarrow> sys \<Rightarrow> sys" where
  "reset_filter ulNo s =
     (let n = ulFilterSize (dev s); p = atDefaultFilter (dev s) ! ulNo
      in snd (netana_set_filter (of_nat ulNo) (Some (default_filter n (fst p))) (Some (default_filter n (snd p))) 0 s))"

definition reset_gpio :: "nat \<Rightarrow> sys \<Rightarrow> sys" where
  "reset_gpio ulNo s = upd_gpio ulNo (\<lambda>_. atDefaultGPIOs (dev s) ! ulNo) s"

definition reset_config :: "sys \<Rightarrow> sys" where
  "reset_config s =
     (let s1 = fold reset_filter [0..<unat (ulPortCnt (dev s))] s in fold reset_gpio [0..<unat (ulGpioCnt (dev s1))] s1)"

definition netana_open_device :: "os_alloc \<Rightarrow> nat \<Rightarrow> string option \<Rightarrow> nat option \<Rightarrow> toolkit \<Rightarrow> (u32 \<times> nat option) \<times> toolkit" where
  "netana_open_device al pid szDevice phDev t =
     (case (szDevice, phDev) of
        (Some name, Some old) \<Rightarrow>
          let t0 = enter_lock t in
          (case find_card name (g_tCardList t0) (tk_cards t0) of
             None \<Rightarrow> ((NETANA_DEVICE_NOT_FOUND, phDev), t0)
           | Some h \<Rightarrow>
               let (f, t1) = caller_filter al pid t0; c = tk_cards t1 h in
               if class_selected (si_usDeviceClass (tSystemInfoBlock (dpm (cd_sys c)))) f then
                 if ulOpenCnt (card_dev c) > 0 then ((NETANA_DEVICE_STILL_OPEN, phDev), t1)
                 else ((NETANA_NO_ERROR, Some h),
                       upd_card h (upd_sys (\<lambda>s. reset_config (upd_dev (\<lambda>d. d\<lparr>ulOpenCnt := ulOpenCnt d + 1\<rparr>) s))) t1)
               else ((NETANA_ACCESS_DENIED, phDev), t1))
      | _ \<Rightarrow> ((NETANA_INVALID_PARAMETER, phDev), t))"

section \<open>What the operations leave alone\<close>

text \<open>The instance but for what bringing up a device finds out about it.\<close>

definition core :: "devinst \<Rightarrow> devinst" where
  "core d = d\<lparr>eChip := eCHIP_UNKNOWN, usDeviceClass := 0,
     tIdentInfoFile := \<lparr>if_fIdentUpdateRequest = False, if_szIdentInfoFileName = [], if_lError = 0\<rparr>\<rparr>"

lemma core_simps [simp]:
  "core (d\<lparr>eChip := x\<rparr>) = core d" "core (d\<lparr>usDeviceClass := c\<rparr>) = core d" "core (d\<lparr>tIdentInfoFile := i\<rparr>) = core d"
  by (simp_all add: core_def)

lemma core_fields: "core d = core d' \<Longrightarrow> ulOpenCnt d = ulOpenCnt d' \<and> flst d = flst d' \<and> ulDevNo d = ulDevNo d'"
  by (drule arg_cong[where f = "\<lambda>d. (ulOpenCnt d, flst d, ulDevNo d)"]) (simp add: core_def)

lemma boot_frame_dev: "boot_frame s s' \<Longrightarrow> bo_dev s' = bo_dev s"
  by (simp add: boot_frame_def)

lemma reset_core: "netx_reset s = Some (r, s') \<Longrightarrow> core (bo_dev s') = core (bo_dev s)"
  by (auto simp: netx_reset_def boot_sleep_def upd_hw_def boot_step_def bind_eq_Some_conv
      split: list.splits simp del: reset_loop.simps dest!: reset_loop_post split: if_splits)

lemma bootloader_core: "netx_download_bootloader P s = Some (r, s') \<Longrightarrow> bo_dev s' = bo_dev s"
  by (auto simp: netx_download_bootloader_def netx100_start_bootloader_def upd_hw_def Let_def
      split: chiptype.splits option.splits prod.splits if_splits dest!: bl_start_loop_post boot_frame_dev)

lemma ident_core:
  assumes "netx_update_ident_info P e s = Some (r, s')"
  shows "core (bo_dev s') = core (bo_dev s)"
  using assms
  by (auto simp: netx_update_ident_info_def upd_bdev_def Let_def bind_eq_Some_conv
      split: if_splits option.splits prod.splits dest!: Download_boot_frame boot_frame_dev)

lemma firmware_core: "DownloadAndStartFirmware P s = Some (r, s') \<Longrightarrow> bo_dev s' = bo_dev s"
  by (auto simp: DownloadAndStartFirmware_def StartFirmware_def Let_def bind_eq_Some_conv
      split: if_splits option.splits prod.splits dest!: Download_boot_frame Transfer_boot_frame fw_start_loop_post boot_frame_dev)

text \<open>Keeping \<open>core\<close> is closed under sequencing and branching.\<close>

definition keeps_core :: "(boot, 'a) proc \<Rightarrow> bool" where
  "keeps_core f \<longleftrightarrow> (\<forall>s r s'. f s = Some (r, s') \<longrightarrow> core (bo_dev s') = core (bo_dev s))"

lemma keeps_core_bind:
  assumes "keeps_core f" "\<And>a. keeps_core (g a)"
  shows "keeps_core (\<lambda>s. f s \<bind> (\<lambda>(a, s1). g a s1))"
  using assms by (fastforce simp: keeps_core_def bind_eq_Some_conv)

lemma keeps_core_if: "keeps_core f \<Longrightarrow> keeps_core g \<Longrightarrow> keeps_core (\<lambda>s. if b then f s else g s)"
  by (cases b) simp_all

lemma keeps_core_prod: "(\<And>x y. keeps_core (f x y)) \<Longrightarrow> keeps_core (case a of (x, y) \<Rightarrow> f x y)"
  by (cases a) simp

lemma keeps_core_return: "keeps_core (\<lambda>s. Some (r, s))"
  by (simp add: keeps_core_def)

lemma keeps_core_steps:
  "keeps_core netx_reset" "keeps_core (netx_download_bootloader P)" "keeps_core (RequestDeviceClass P)"
  "keeps_core (netx_update_ident_info P e)" "keeps_core (DownloadAndStartFirmware P)"
  by (auto simp: keeps_core_def dest: reset_core bootloader_core class_frame[THEN boot_frame_dev] ident_core firmware_core)

lemma keeps_core_class:
  "keeps_core f \<Longrightarrow> keeps_core (\<lambda>s. f (upd_bdev (\<lambda>d. d\<lparr>usDeviceClass := c\<rparr>) s))"
  by (auto simp: keeps_core_def upd_bdev_def)

lemmas keeps_core_intros = keeps_core_bind keeps_core_if keeps_core_return keeps_core_steps

lemma bring_up_core:
  assumes "bring_up P s = Some (x, s')"
  shows "core (bo_dev s') = core (bo_dev s)"
proof -
  let ?s0 = "upd_hw (\<lambda>h. h\<lparr>bd_ulIRQEnable_0 := 0\<rparr>) s"
  have d: "bo_dev ?s0 = bo_dev s"
    by (simp add: upd_hw_def)
  have "keeps_core (\<lambda>s0. netx_reset s0 \<bind> (\<lambda>(r1, s1). if r1 \<noteq> NETANA_NO_ERROR then Some ((r1, 0 :: u32), s1)
    else netx_download_bootloader P s1 \<bind> (\<lambda>(r2, s2). if r2 \<noteq> NETANA_NO_ERROR then Some ((r2, 0), s2)
    else RequestDeviceClass P s2 \<bind> (\<lambda>(cls, s3). if cls = 0 then Some ((NETANA_FUNCTION_FAILED, 0), upd_bdev (\<lambda>d. d\<lparr>usDeviceClass := cls\<rparr>) s3)
    else netx_update_ident_info P (Some 0) (upd_bdev (\<lambda>d. d\<lparr>usDeviceClass := cls\<rparr>) s3) \<bind> (\<lambda>((r5, e), s5).
      if r5 \<noteq> NETANA_NO_ERROR then Some ((r5, the e), s5)
      else DownloadAndStartFirmware P s5 \<bind> (\<lambda>(r6, s6). Some ((r6, the e), s6)))))))"
    by (intro keeps_core_intros keeps_core_prod keeps_core_class[OF keeps_core_return] keeps_core_class[OF keeps_core_steps(4)])
  note step = this[unfolded keeps_core_def, rule_format, of ?s0 x s', unfolded d]
  show ?thesis
  proof (cases "ulFlashBased (bo_dev ?s0) \<noteq> 0")
    case True
    then have "s' = ?s0"
      using assms by (simp add: bring_up_def Let_def)
    then show ?thesis
      by (simp add: d)
  next
    case False
    then show ?thesis
      using assms step by (simp add: bring_up_def Let_def cong: if_cong)
  qed
qed

lemma wait_ulOpenCnt: "wait_frame s s' \<Longrightarrow> ulOpenCnt (dev s') = ulOpenCnt (dev s) \<and> ulDevNo (dev s') = ulDevNo (dev s)"
  unfolding wait_frame_def
  by (elim conjE, drule arg_cong[where f = "\<lambda>d. (ulOpenCnt d, ulDevNo d)"]) (simp add: host_view_def)

lemma set_filter_dev [simp]: "dev (snd (netana_set_filter p a b r s)) = dev s"
  by (simp add: netana_set_filter_def Let_def)

lemma reset_filter_dev [simp]: "dev (reset_filter k s) = dev s"
  by (simp add: reset_filter_def Let_def)

lemma fold_dev: "(\<And>k s. dev (f k s) = dev s) \<Longrightarrow> dev (fold f ks s) = dev s"
  by (induction ks arbitrary: s) simp_all

lemma reset_config_dev [simp]: "dev (reset_config s) = dev s"
  by (simp add: reset_config_def Let_def fold_dev reset_gpio_def)

lemma first_interrupt_ulOpenCnt [simp]: "ulOpenCnt (dev (first_interrupt s)) = ulOpenCnt (dev s)"
  by (auto simp: first_interrupt_def netana_tkit_isr_handler_def upd_dev_def Let_def split: prod.splits)

lemma first_interrupt_never: "fst (netana_tkit_isr_handler True s) \<noteq> NETANA_TKIT_DSR_PROCESSING_REQUEST"
  by (simp add: netana_tkit_isr_handler_def)

section \<open>Resources of a device\<close>

definition card_shape :: "card \<Rightarrow> bool" where
  "card_shape c \<longleftrightarrow> length (cd_ahHandshakeBitEvents c) = 16 \<and> ulOpenCnt (card_dev c) \<le> 1"

definition card_held :: "card \<Rightarrow> bool" where
  "card_held c \<longleftrightarrow> cd_pvLock c \<and> cd_hStopComplete c \<and> list_all id (cd_ahHandshakeBitEvents c)"

definition card_released :: "card \<Rightarrow> bool" where
  "card_released c \<longleftrightarrow> \<not> cd_pvLock c \<and> \<not> cd_hStopComplete c \<and> list_all Not (cd_ahHandshakeBitEvents c)"

definition same_resources :: "card \<Rightarrow> card \<Rightarrow> bool" where
  "same_resources c c' \<longleftrightarrow> cd_pvLock c' = cd_pvLock c \<and> cd_hStopComplete c' = cd_hStopComplete c \<and>
     cd_ahHandshakeBitEvents c' = cd_ahHandshakeBitEvents c \<and> ulOpenCnt (card_dev c') = ulOpenCnt (card_dev c)"

lemma same_resources_trans: "same_resources a b \<Longrightarrow> same_resources b c \<Longrightarrow> same_resources a c"
  by (simp add: same_resources_def)

lemma same_resourcesD:
  "same_resources c c' \<Longrightarrow> card_shape c' = card_shape c" "same_resources c c' \<Longrightarrow> card_held c' = card_held c"
  by (simp_all add: same_resources_def card_shape_def card_held_def)

lemma upd_sys_simps [simp]:
  "cd_sys (upd_sys f c) = f (cd_sys c)" "cd_pvLock (upd_sys f c) = cd_pvLock c"
  "cd_hStopComplete (upd_sys f c) = cd_hStopComplete c" "cd_irq (upd_sys f c) = cd_irq c"
  "cd_ahHandshakeBitEvents (upd_sys f c) = cd_ahHandshakeBitEvents c"
  "cd_ulIRQEnable_0 (upd_sys f c) = cd_ulIRQEnable_0 c" "cd_lay (upd_sys f c) = cd_lay c"
  "card_dev (upd_sys f c) = dev (f (cd_sys c))"
  by (simp_all add: upd_sys_def card_dev_def)

lemma upd_card_simps [simp]:
  "g_tCardList (upd_card h f t) = g_tCardList t" "g_ulCardCnt (upd_card h f t) = g_ulCardCnt t"
  "g_pvCardLock (upd_card h f t) = g_pvCardLock t" "tk_apps (upd_card h f t) = tk_apps t"
  "tk_fault (upd_card h f t) = tk_fault t"
  "tk_cards (upd_card h f t) j = (if j = h then f (tk_cards t h) else tk_cards t j)"
  by (simp_all add: upd_card_def)

lemma enter_lock_simps [simp]:
  "g_tCardList (enter_lock t) = g_tCardList t" "g_ulCardCnt (enter_lock t) = g_ulCardCnt t"
  "g_pvCardLock (enter_lock t) = g_pvCardLock t" "tk_apps (enter_lock t) = tk_apps t"
  "tk_cards (enter_lock t) = tk_cards t" "tk_fault (enter_lock t) = (tk_fault t \<or> \<not> g_pvCardLock t)"
  by (simp_all add: enter_lock_def)

lemma create_events_post:
  "create_events al is c = (r, c') \<Longrightarrow>
     length (cd_ahHandshakeBitEvents c') = length (cd_ahHandshakeBitEvents c) \<and> card_dev c' = card_dev c \<and>
     cd_pvLock c' = cd_pvLock c \<and> cd_hStopComplete c' = cd_hStopComplete c \<and>
     (r = NETANA_NO_ERROR \<longrightarrow> (\<forall>i < length (cd_ahHandshakeBitEvents c).
        i \<in> set is \<or> cd_ahHandshakeBitEvents c ! i \<longrightarrow> cd_ahHandshakeBitEvents c' ! i))"
proof (induction al "is" c rule: create_events.induct)
  case (2 al i "is" c)
  let ?c1 = "c\<lparr>cd_ahHandshakeBitEvents := (cd_ahHandshakeBitEvents c)[i := oa_event al i]\<rparr>"
  show ?case
  proof (cases "oa_event al i")
    case True
    let ?c2 = "upd_sys (\<lambda>s. s\<lparr>hskEvents := (hskEvents s)[i := False]\<rparr>) ?c1"
    have "create_events al is ?c2 = (r, c')"
      using 2(2) True by (simp add: Let_def)
    note ih = 2(1)[OF refl True this]
    have mono: "cd_ahHandshakeBitEvents ?c2 ! j" if "j < length (cd_ahHandshakeBitEvents c)"
        "j = i \<or> cd_ahHandshakeBitEvents c ! j" for j
      using that True by (cases "j = i") simp_all
    have same: "length (cd_ahHandshakeBitEvents ?c2) = length (cd_ahHandshakeBitEvents c)" "card_dev ?c2 = card_dev c"
      "cd_pvLock ?c2 = cd_pvLock c" "cd_hStopComplete ?c2 = cd_hStopComplete c"
      by (simp_all add: card_dev_def)
    show ?thesis
    proof (intro conjI impI allI)
      fix j assume "r = NETANA_NO_ERROR" "j < length (cd_ahHandshakeBitEvents c)"
        "j \<in> set (i # is) \<or> cd_ahHandshakeBitEvents c ! j"
      then show "cd_ahHandshakeBitEvents c' ! j"
        using ih[unfolded same] mono[of j] unfolding list.set(2) insert_iff by blast
    qed (use ih[unfolded same] in blast)+
  next
    case False
    then have "r \<noteq> NETANA_NO_ERROR" "c' = ?c1"
      using 2(2) by (auto simp: Let_def)
    then show ?thesis
      by (simp add: card_dev_def)
  qed
qed simp

lemma CreateIrqEvents_post:
  assumes "CreateIrqEvents al c = (r, c')" "length (cd_ahHandshakeBitEvents c) = 16"
  shows "length (cd_ahHandshakeBitEvents c') = 16 \<and> card_dev c' = card_dev c \<and> cd_pvLock c' = cd_pvLock c \<and>
    (r = NETANA_NO_ERROR \<longrightarrow> cd_hStopComplete c' \<and> list_all id (cd_ahHandshakeBitEvents c'))"
proof (cases "oa_stop al")
  case True
  then have "create_events al [0..<16] (upd_sys (\<lambda>s. s\<lparr>hStopComplete := False\<rparr>) (c\<lparr>cd_hStopComplete := True\<rparr>)) = (r, c')"
    using assms(1) by (simp add: CreateIrqEvents_def Let_def)
  from create_events_post[OF this] show ?thesis
    using assms(2) by (auto simp: card_dev_def list_all_length)
next
  case False
  then show ?thesis
    using assms by (auto simp: CreateIrqEvents_def Let_def card_dev_def)
qed

lemma read_instance_ulOpenCnt [simp]: "ulOpenCnt (read_instance al m d) = ulOpenCnt d"
  by (simp add: read_instance_def Let_def)

lemma ack_new_status_ulOpenCnt [simp]: "ulOpenCnt (dev (ack_new_status s)) = ulOpenCnt (dev s)"
  by (simp add: ack_new_status_def dev_Toggle)

lemma setup_mailboxes_ulOpenCnt [simp]: "ulOpenCnt (dev (setup_mailboxes s)) = ulOpenCnt (dev s)"
  by (simp add: setup_mailboxes_def)

lemma read_device_resources: "same_resources c (read_device al no m c)"
  by (simp add: same_resources_def read_device_def upd_dev_def) (simp add: card_dev_def)

lemma add_device_post:
  assumes "add_device P al E no c = Some (r, c')" "card_shape c"
  shows "card_shape c' \<and> (r = NETANA_NO_ERROR \<longrightarrow> card_held c')"
proof -
  let ?c0 = "c\<lparr>cd_pvLock := oa_lock al\<rparr>"
  have s0: "card_shape ?c0" "card_dev ?c0 = card_dev c"
    using assms(2) by (simp_all add: card_shape_def card_dev_def)
  show ?thesis
  proof (cases "oa_lock al")
    case True
    obtain r1 c1 where ev: "CreateIrqEvents al ?c0 = (r1, c1)"
      by fastforce
    note post = CreateIrqEvents_post[OF ev]
    have s1: "card_shape c1" "cd_pvLock c1" "r1 = NETANA_NO_ERROR \<longrightarrow> card_held c1"
      using post s0 True by (simp_all add: card_shape_def card_held_def)
    show ?thesis
    proof (cases "r1 = NETANA_NO_ERROR")
      case r1: True
      obtain e b where up: "bring_up P \<lparr>bo_dev = card_dev c1, bo_hw = de_hw E, bo_env = de_ticks E, bo_now = now (cd_sys c1)\<rparr>
          = Some ((r, e), b)"
        and c': "c' = (let c2 = (upd_sys (\<lambda>s. s\<lparr>dev := bo_dev b, now := bo_now b\<rparr>) c1)\<lparr>cd_ulIRQEnable_0 := bd_ulIRQEnable_0 (bo_hw b)\<rparr>
          in if r = NETANA_NO_ERROR then read_device al no (de_dpm E (bo_hw b)) c2 else c2)"
        using assms(1) True ev r1 by (auto simp: add_device_def bind_eq_Some_conv Let_def)
      let ?c2 = "(upd_sys (\<lambda>s. s\<lparr>dev := bo_dev b, now := bo_now b\<rparr>) c1)\<lparr>cd_ulIRQEnable_0 := bd_ulIRQEnable_0 (bo_hw b)\<rparr>"
      have "ulOpenCnt (bo_dev b) = ulOpenCnt (card_dev c1)"
        using core_fields[OF bring_up_core[OF up]] by simp
      then have "same_resources c1 ?c2"
        by (simp add: same_resources_def card_dev_def)
      then have "same_resources c1 c'"
        using same_resources_trans[OF _ read_device_resources[of ?c2 al no "de_dpm E (bo_hw b)"]] unfolding c' Let_def
        by (cases "r = NETANA_NO_ERROR") (simp_all only: if_True if_False refl simp_thms)
      then show ?thesis
        using same_resourcesD s1 r1 by blast
    qed (use assms(1) True ev s1 in \<open>auto simp: add_device_def Let_def\<close>)
  qed (use assms(1) s0 in \<open>auto simp: add_device_def Let_def\<close>)
qed

lemma release_device_post:
  assumes "card_shape c"
  shows "card_shape (release_device ops c)" "card_released (release_device ops c)"
  using assms by (simp_all add: release_device_def card_shape_def card_released_def DeleteIrqEvents_def
      OS_DisableDeviceInterrupts_def netana_tkit_disable_hwinterrupts_def card_dev_def list_all_iff set_files_def)

section \<open>The registry\<close>

text \<open>The card list holds each device once, \<open>g_ulCardCnt\<close> counts it, the devices on it hold
  their lock and events, no device is opened twice, and nothing was used after its release.\<close>

definition toolkit_ok :: "toolkit \<Rightarrow> bool" where
  "toolkit_ok t \<longleftrightarrow> distinct (g_tCardList t) \<and> 0 \<notin> set (g_tCardList t) \<and>
     g_ulCardCnt t = of_nat (length (g_tCardList t)) \<and> (\<forall>h \<in> set (g_tCardList t). card_held (tk_cards t h)) \<and>
     (\<forall>h. card_shape (tk_cards t h)) \<and> apps_ok (tk_apps t) \<and> g_pvCardLock t \<and> \<not> tk_fault t"

text \<open>What the module does with the registry: devices appear and disappear, an application
  restarts, opens and closes them and sets its class filter, and any other operation on a device
  that does not open or close it (\<open>tk_work\<close>).\<close>

inductive tk_step :: "toolkit \<Rightarrow> toolkit \<Rightarrow> bool" where
  tk_add: "h \<noteq> 0 \<Longrightarrow> h \<notin> set (g_tCardList t) \<Longrightarrow> netana_tkit_deviceadd P al E h no t = Some (r, t') \<Longrightarrow> tk_step t t'"
| tk_remove: "h \<in> set (g_tCardList t) \<Longrightarrow> netana_tkit_deviceremove ops force h t = Some (r, t') \<Longrightarrow> tk_step t t'"
| tk_restart: "h \<in> set (g_tCardList t) \<Longrightarrow> netana_restart_device P ops al E h t = Some (r, t') \<Longrightarrow> tk_step t t'"
| tk_open: "netana_open_device al pid szDevice phDev t = (res, t') \<Longrightarrow> tk_step t t'"
| tk_close: "netana_close_device h t = (r, t') \<Longrightarrow> tk_step t t'"
| tk_set_class: "tk_step t (t\<lparr>tk_apps := snd (USER_SetDevClassFilter ok pid c (tk_apps t))\<rparr>)"
| tk_clear_class: "tk_step t (t\<lparr>tk_apps := USER_ClearDevClassFilter pid (tk_apps t)\<rparr>)"
| tk_work: "\<forall>s. ulOpenCnt (dev (f s)) = ulOpenCnt (dev s) \<Longrightarrow> tk_step t (upd_card h (upd_sys f) t)"

lemma upd_sys_shape:
  "ulOpenCnt (dev (f (cd_sys c))) \<le> 1 \<Longrightarrow> card_shape c \<Longrightarrow> card_shape (upd_sys f c)"
  "card_held (upd_sys f c) = card_held c"
  by (simp_all add: card_shape_def card_held_def)

lemma first_irq_shape:
  "card_shape c \<Longrightarrow> card_shape (OS_EnableDeviceInterrupts al (upd_sys first_interrupt c))"
  "card_held c \<Longrightarrow> card_held (OS_EnableDeviceInterrupts al (upd_sys first_interrupt c))"
  by (simp_all add: card_shape_def card_held_def OS_EnableDeviceInterrupts_def netana_tkit_enable_hwinterrupts_def)
    (simp_all add: card_dev_def)

lemma unwind_post:
  assumes "card_shape c"
  shows "card_shape ((DeleteIrqEvents c)\<lparr>cd_pvLock := False\<rparr>)" "card_released ((DeleteIrqEvents c)\<lparr>cd_pvLock := False\<rparr>)"
  using assms by (simp_all add: card_shape_def card_released_def DeleteIrqEvents_def card_dev_def list_all_iff)

lemma deviceadd_ok:
  assumes "toolkit_ok t" "h \<noteq> 0" "h \<notin> set (g_tCardList t)"
    "netana_tkit_deviceadd P al E h no t = Some (r, t')"
  shows "toolkit_ok t'"
proof -
  obtain c where c: "add_device P al E no (tk_cards t h) = Some (r, c)"
    using assms(4) by (auto simp: netana_tkit_deviceadd_def bind_eq_Some_conv Let_def)
  have "card_shape (tk_cards t h)"
    using assms(1) by (simp add: toolkit_ok_def)
  note post = add_device_post[OF c this]
  show ?thesis
  proof (cases "r = NETANA_NO_ERROR")
    case True
    have t': "t' = (let t1 = upd_card h (\<lambda>_. c) t; t2 = (enter_lock t1)\<lparr>g_tCardList := g_tCardList t1 @ [h], g_ulCardCnt := g_ulCardCnt t1 + 1\<rparr>
         in upd_card h (\<lambda>c. OS_EnableDeviceInterrupts al (upd_sys first_interrupt c)) t2)"
      using assms(4) c True by (simp add: netana_tkit_deviceadd_def Let_def)
    have "card_shape c" "card_held c"
      using post True by simp_all
    then show ?thesis
      using assms(1-3) unfolding t' toolkit_ok_def Let_def
      by (simp add: first_irq_shape)
  next
    case False
    have t': "t' = upd_card h (\<lambda>c. (DeleteIrqEvents c)\<lparr>cd_pvLock := False\<rparr>) (upd_card h (\<lambda>_. c) t)"
      using assms(4) c False by (simp add: netana_tkit_deviceadd_def Let_def)
    have "card_shape c"
      using post by simp
    then show ?thesis
      using assms(1-3) unfolding t' toolkit_ok_def by (auto simp: unwind_post)
  qed
qed

lemma remove1_count: "h \<in> set xs \<Longrightarrow> of_nat (length xs) - 1 = (of_nat (length (remove1 h xs)) :: u32)"
  by (cases "length xs") (auto simp: length_remove1)

text \<open>What a removal that gets as far as releasing the device does.\<close>

lemma deviceremove_result:
  assumes "netana_tkit_deviceremove ops force h t = Some (r, t')"
  shows "(ulOpenCnt (card_dev (tk_cards t h)) > 0 \<and> \<not> force \<and> r = NETANA_DEVICE_STILL_OPEN \<and> t' = t) \<or>
    (\<exists>c. t' = (upd_card h (\<lambda>_. release_device ops c) t)\<lparr>
         tk_fault := tk_fault t \<or> \<not> g_pvCardLock t \<or> h \<notin> set (g_tCardList t),
         g_tCardList := remove1 h (g_tCardList t), g_ulCardCnt := g_ulCardCnt t - 1\<rparr> \<and>
       same_resources (tk_cards t h) c \<and> ulDevNo (card_dev c) = ulDevNo (card_dev (tk_cards t h)) \<and>
       r \<in> {NETANA_NO_ERROR, NETANA_FUNCTION_FAILED})"
proof (cases "ulOpenCnt (card_dev (tk_cards t h)) > 0 \<and> \<not> force")
  case False
  then obtain ok s where w: "netana_tkit_WaitForBitState NETANA_CLKOFF_BIT NETANA_BITSTATE_EQUAL NETANA_DEFAULT_TIMEOUT
      (netana_tkit_ToggleBit NETANA_CLKOFF_BIT (cd_sys (tk_cards t h))) = Some (ok, s)"
    and t': "t' = (let t1 = enter_lock (upd_card h (\<lambda>c. release_device ops (upd_sys (\<lambda>_. s) c)) t) in
        t1\<lparr>tk_fault := tk_fault t1 \<or> h \<notin> set (g_tCardList t1),
           g_tCardList := remove1 h (g_tCardList t1), g_ulCardCnt := g_ulCardCnt t1 - 1\<rparr>)"
    and r: "r = (if ok then NETANA_NO_ERROR else NETANA_FUNCTION_FAILED)"
    using assms[unfolded netana_tkit_deviceremove_def if_not_P[OF False] bind_eq_Some_conv]
    by (clarsimp simp only: Let_def option.inject prod.inject split: prod.splits) metis
  have "ulOpenCnt (dev s) = ulOpenCnt (card_dev (tk_cards t h)) \<and> ulDevNo (dev s) = ulDevNo (card_dev (tk_cards t h))"
    using wait_ulOpenCnt[OF Wait_frame[OF w]] by (simp add: dev_Toggle card_dev_def)
  then have "same_resources (tk_cards t h) (upd_sys (\<lambda>_. s) (tk_cards t h))"
    and "ulDevNo (card_dev (upd_sys (\<lambda>_. s) (tk_cards t h))) = ulDevNo (card_dev (tk_cards t h))"
    by (simp_all add: same_resources_def)
  moreover have "t' = (upd_card h (\<lambda>_. release_device ops (upd_sys (\<lambda>_. s) (tk_cards t h))) t)\<lparr>
         tk_fault := tk_fault t \<or> \<not> g_pvCardLock t \<or> h \<notin> set (g_tCardList t),
         g_tCardList := remove1 h (g_tCardList t), g_ulCardCnt := g_ulCardCnt t - 1\<rparr>"
    unfolding t' Let_def enter_lock_def upd_card_def by simp
  moreover have "r \<in> {NETANA_NO_ERROR, NETANA_FUNCTION_FAILED}"
    unfolding r by simp
  ultimately show ?thesis
    by blast
qed (use assms in \<open>auto simp: netana_tkit_deviceremove_def\<close>)

lemma deviceremove_ok:
  assumes "toolkit_ok t" "h \<in> set (g_tCardList t)" "netana_tkit_deviceremove ops force h t = Some (r, t')"
  shows "toolkit_ok t'"
  using deviceremove_result[OF assms(3)]
proof
  assume "\<exists>c. t' = (upd_card h (\<lambda>_. release_device ops c) t)\<lparr>
         tk_fault := tk_fault t \<or> \<not> g_pvCardLock t \<or> h \<notin> set (g_tCardList t),
         g_tCardList := remove1 h (g_tCardList t), g_ulCardCnt := g_ulCardCnt t - 1\<rparr> \<and>
       same_resources (tk_cards t h) c \<and> ulDevNo (card_dev c) = ulDevNo (card_dev (tk_cards t h)) \<and>
       r \<in> {NETANA_NO_ERROR, NETANA_FUNCTION_FAILED}"
  then obtain c where t': "t' = (upd_card h (\<lambda>_. release_device ops c) t)\<lparr>
         tk_fault := tk_fault t \<or> \<not> g_pvCardLock t \<or> h \<notin> set (g_tCardList t),
         g_tCardList := remove1 h (g_tCardList t), g_ulCardCnt := g_ulCardCnt t - 1\<rparr>"
    and c: "same_resources (tk_cards t h) c"
    by blast
  have "card_shape c"
    using assms(1) same_resourcesD(1)[OF c] by (simp add: toolkit_ok_def)
  then show ?thesis
    using assms(1,2) remove1_count[OF assms(2)] unfolding t' toolkit_ok_def
    by (auto simp: release_device_post dest: notin_set_remove1)
qed (use assms(1) in simp)

lemma close_ok:
  assumes "toolkit_ok t" "netana_close_device h t = (r, t')"
  shows "toolkit_ok t'"
proof -
  have "card_shape c \<Longrightarrow> ulOpenCnt (card_dev c) > 0 \<Longrightarrow> card_shape (upd_sys (upd_dev (\<lambda>d. d\<lparr>ulOpenCnt := ulOpenCnt d - 1\<rparr>)) c)" for c
    by (rule upd_sys_shape) (auto simp: upd_dev_def card_dev_def card_shape_def unat_arith_simps)
  then show ?thesis
    using assms unfolding toolkit_ok_def netana_close_device_def
    by (auto simp: upd_sys_shape(2) split: if_splits)
qed

lemma restart_ok:
  assumes "toolkit_ok t" "h \<in> set (g_tCardList t)" "netana_restart_device P ops al E h t = Some (r, t')"
  shows "toolkit_ok t'"
proof (cases "IsCaptureRunning (cd_sys (tk_cards t h))")
  case False
  then obtain r1 t1 t2 where rm: "netana_tkit_deviceremove ops True h t = Some (r1, t1)"
    and ad: "(if r1 = NETANA_NO_ERROR then netana_tkit_deviceadd P al E h (ulDevNo (card_dev (tk_cards t1 h))) t1 else Some (r1, t1)) = Some (r, t2)"
    and t': "t' = (if r \<noteq> NETANA_NO_ERROR then snd (netana_close_device h t2) else t2)"
    using assms(3) by (auto simp: netana_restart_device_def bind_eq_Some_conv)
  have t1: "toolkit_ok t1"
    by (rule deviceremove_ok[OF assms(1,2) rm])
  have "h \<notin> set (g_tCardList t1)"
    using deviceremove_result[OF rm] assms(1,2) by (auto simp: toolkit_ok_def)
  moreover have "h \<noteq> 0"
    using assms(1,2) unfolding toolkit_ok_def by metis
  ultimately have t2: "toolkit_ok t2"
    using ad t1 deviceadd_ok by (cases "r1 = NETANA_NO_ERROR") auto
  show ?thesis
    using close_ok[of t2 h] t2 by (cases "netana_close_device h t2") (simp add: t')
qed (use assms(1,3) in \<open>simp add: netana_restart_device_def\<close>)

lemma open_result:
  assumes "netana_open_device al pid szDevice phDev t = (res, t')"
  shows "\<exists>apps cs. t' = t\<lparr>tk_fault := tk_fault t', tk_cards := cs, tk_apps := apps\<rparr> \<and>
    (tk_fault t' \<longrightarrow> tk_fault t \<or> \<not> g_pvCardLock t) \<and> (apps_ok (tk_apps t) \<longrightarrow> apps_ok apps) \<and>
    (cs = tk_cards t \<or> (\<exists>h. ulOpenCnt (card_dev (tk_cards t h)) = 0 \<and>
        cs = (tk_cards t)(h := upd_sys (\<lambda>s. reset_config (upd_dev (\<lambda>d. d\<lparr>ulOpenCnt := ulOpenCnt d + 1\<rparr>) s)) (tk_cards t h))))"
proof -
  have cf: "\<exists>apps. snd (caller_filter al pid t0) = t0\<lparr>tk_apps := apps\<rparr> \<and> (apps_ok (tk_apps t0) \<longrightarrow> apps_ok apps)" for t0
    using set_filter_result[OF _ surjective_pairing, of "tk_apps t0" "oa_app al" pid NETANA_DEV_CLASS_NANL_500]
    by (cases "USER_GetDevClassFilter pid (tk_apps t0) = 0")
      (auto simp: caller_filter_def Let_def intro: exI[of _ "tk_apps t0"])
  show ?thesis
  proof (cases "\<exists>name old h. szDevice = Some name \<and> phDev = Some old \<and> find_card name (g_tCardList t) (tk_cards t) = Some h")
    case True
    then obtain name old h where a: "szDevice = Some name" "phDev = Some old" "find_card name (g_tCardList t) (tk_cards t) = Some h"
      by blast
    obtain f t1 where f: "caller_filter al pid (enter_lock t) = (f, t1)"
      by fastforce
    obtain apps where apps: "t1 = (enter_lock t)\<lparr>tk_apps := apps\<rparr>" "apps_ok (tk_apps t) \<longrightarrow> apps_ok apps"
      using cf[of "enter_lock t"] f by auto
    show ?thesis
      using assms a f apps(2) unfolding apps(1)
      by (intro exI[of _ apps] exI[of _ "tk_cards t'"])
        (auto simp: netana_open_device_def Let_def enter_lock_def upd_card_def word_gt_0
          simp del: word_neq_0_conv split: if_splits)
  next
    case False
    then show ?thesis
      using assms by (intro exI[of _ "tk_apps t'"] exI[of _ "tk_cards t'"])
        (auto simp: netana_open_device_def Let_def enter_lock_def split: option.splits)
  qed
qed

lemma open_ok:
  assumes "toolkit_ok t" "netana_open_device al pid szDevice phDev t = (res, t')"
  shows "toolkit_ok t'"
proof -
  let ?f = "\<lambda>s. reset_config (upd_dev (\<lambda>d. d\<lparr>ulOpenCnt := ulOpenCnt d + 1\<rparr>) s)"
  have opened: "card_shape (upd_sys ?f c)" if "card_shape c" "ulOpenCnt (card_dev c) = 0" for c
    using that by (intro upd_sys_shape) (simp_all add: upd_dev_def card_dev_def)
  obtain apps cs where t': "t' = t\<lparr>tk_fault := tk_fault t', tk_cards := cs, tk_apps := apps\<rparr>"
      and fault: "tk_fault t' \<longrightarrow> tk_fault t \<or> \<not> g_pvCardLock t" and apps: "apps_ok (tk_apps t) \<longrightarrow> apps_ok apps"
      and cs: "cs = tk_cards t \<or> (\<exists>h. ulOpenCnt (card_dev (tk_cards t h)) = 0 \<and> cs = (tk_cards t)(h := upd_sys ?f (tk_cards t h)))"
    using open_result[OF assms(2)] by blast
  have shape: "\<forall>h. card_shape (cs h)" "\<forall>h. card_held (cs h) = card_held (tk_cards t h)"
    using cs assms(1) by (auto simp: toolkit_ok_def opened upd_sys_shape(2) split: if_splits)
  show ?thesis
    using assms(1) shape fault apps by (subst t') (simp add: toolkit_ok_def)
qed

lemma class_ok: "apps_ok al \<Longrightarrow> apps_ok (snd (USER_SetDevClassFilter ok pid c al))" "apps_ok al \<Longrightarrow> apps_ok (USER_ClearDevClassFilter pid al)"
  using set_filter_result[OF _ surjective_pairing, of al ok pid c] clear_filter[of al pid] by (auto simp: apps_ok_def)

lemma tk_step_ok: "tk_step t t' \<Longrightarrow> toolkit_ok t \<Longrightarrow> toolkit_ok t'"
proof (induction rule: tk_step.induct)
  case (tk_set_class t ok pid c)
  then show ?case
    by (simp add: toolkit_ok_def class_ok)
next
  case (tk_clear_class t pid)
  then show ?case
    by (simp add: toolkit_ok_def class_ok)
next
  case (tk_work f h t)
  then show ?case
    by (auto simp: toolkit_ok_def card_shape_def card_held_def card_dev_def)
qed (blast intro: deviceadd_ok deviceremove_ok restart_ok open_ok close_ok)+

text \<open>C21: The device registry is consistent in every state the driver reaches from one that is,
  whatever order devices appear, disappear, are restarted, opened and closed in and whichever of
  these operations fail: the card list has no device twice, \<open>g_ulCardCnt\<close> is its length, every
  device on it holds its lock and all its events, no device is open twice, and no operation uses
  the deleted lock or removes a device that is not on the list.\<close>

theorem registry_invariant:
  assumes "tk_step\<^sup>*\<^sup>* t t'" "toolkit_ok t"
  shows "toolkit_ok t'"
  using assms by (induction rule: rtranclp_induct) (auto intro: tk_step_ok)

section \<open>The configuration an application finds\<close>

text \<open>Every port has its default filter, in buffers of the size of the filters.\<close>

definition default_ok :: "nat \<Rightarrow> default_pair \<Rightarrow> bool" where
  "default_ok n p \<longleftrightarrow> (\<exists>m v. dp_pbMask p = Some m \<and> dp_pbValue p = Some v \<and> length m = n \<and> length v = n)"

definition defaults_ok :: "devinst \<Rightarrow> bool" where
  "defaults_ok d \<longleftrightarrow> length (atDefaultFilter d) = unat (ulPortCnt d) \<and>
     (\<forall>(a, b) \<in> set (atDefaultFilter d). default_ok (unat (ulFilterSize d)) a \<and> default_ok (unat (ulFilterSize d)) b) \<and>
     length (atDefaultGPIOs d) = unat (ulGpioCnt d)"

definition default_block :: "default_pair \<times> default_pair \<Rightarrow> dpm_filter" where
  "default_block p = \<lparr>fl_ulRelationShip = 0,
     fl_A = \<lparr>fp_pbMask = the (dp_pbMask (fst p)), fp_pbValue = the (dp_pbValue (fst p))\<rparr>,
     fl_B = \<lparr>fp_pbMask = the (dp_pbMask (snd p)), fp_pbValue = the (dp_pbValue (snd p))\<rparr>\<rparr>"

lemma default_filter_valid:
  "default_ok (unat n) p \<Longrightarrow> validate_filter n (Some (default_filter n p)) = NETANA_NO_ERROR"
  "default_ok (unat n) p \<Longrightarrow> filter_sound (Some (default_filter n p))"
  by (auto simp: default_ok_def default_filter_def validate_filter_def)

lemma default_filter_image:
  "default_ok (unat n) p \<Longrightarrow> filter_image n (Some (default_filter n p)) =
     \<lparr>fp_pbMask = the (dp_pbMask p), fp_pbValue = the (dp_pbValue p)\<rparr>"
  by (auto simp: default_ok_def default_filter_def Let_def)

lemma write_default:
  assumes "default_ok (unat n) p" "length (fp_pbMask q) = unat n" "length (fp_pbValue q) = unat n"
  shows "write_filter n (Some (default_filter n p)) q = \<lparr>fp_pbMask = the (dp_pbMask p), fp_pbValue = the (dp_pbValue p)\<rparr>"
  using write_filter_image[OF default_filter_valid[OF assms(1)] assms(2,3)] default_filter_image[OF assms(1)] by simp

lemma reset_filter_step:
  assumes "\<not> IsCaptureRunning s" "dpm_filters_ok s" "defaults_ok (dev s)" "k < unat (ulPortCnt (dev s))"
  shows "reset_filter k s = upd_filter k (\<lambda>_. default_block (atDefaultFilter (dev s) ! k)) s"
proof -
  let ?n = "ulFilterSize (dev s)" and ?p = "atDefaultFilter (dev s) ! k"
  let ?A = "Some (default_filter ?n (fst ?p))" and ?B = "Some (default_filter ?n (snd ?p))"
  have "?p \<in> set (atDefaultFilter (dev s))"
    using assms(3,4) by (simp add: defaults_ok_def)
  then have ok: "default_ok (unat ?n) (fst ?p)" "default_ok (unat ?n) (snd ?p)"
    using assms(3) by (auto simp: defaults_ok_def)
  have k: "unat (of_nat k :: u32) = k"
    using assms(4) by (intro unat_of_nat_le[of _ "ulPortCnt (dev s)"]) simp
  then have lt: "of_nat k < ulPortCnt (dev s)"
    using assms(4) by (simp add: word_less_nat_alt)
  have fl: "filters (dpm s) ! k \<in> set (filters (dpm s))"
    using assms(2,4) by (simp add: dpm_filters_ok_def)
  have wf: "write_filter ?n ?A (fl_A (filters (dpm s) ! k)) = fl_A (default_block ?p)"
       "write_filter ?n ?B (fl_B (filters (dpm s) ! k)) = fl_B (default_block ?p)"
    unfolding default_block_def dpm_filter.simps
    by (rule write_default; use assms(2) fl ok in \<open>simp add: dpm_filters_ok_def\<close>)+
  have "(filters (dpm s) ! k)\<lparr>fl_ulRelationShip := 0, fl_A := write_filter ?n ?A (fl_A (filters (dpm s) ! k)),
      fl_B := write_filter ?n ?B (fl_B (filters (dpm s) ! k))\<rparr> = default_block ?p"
    unfolding wf by (rule dpm_filter.equality) (simp_all add: default_block_def)
  then have "upd_filter k (\<lambda>fl. fl\<lparr>fl_ulRelationShip := 0, fl_A := write_filter ?n ?A (fl_A fl),
      fl_B := write_filter ?n ?B (fl_B fl)\<rparr>) s = upd_filter k (\<lambda>_. default_block ?p) s"
    by (simp add: upd_filter_def)
  then show ?thesis
    using assms(1) lt k default_filter_valid(1)[OF ok(1)] default_filter_valid(1)[OF ok(2)]
    by (simp add: reset_filter_def netana_set_filter_def Let_def)
qed

lemma fold_upd:
  "n \<le> length (filters (dpm s)) \<Longrightarrow> fold (\<lambda>k. upd_filter k (\<lambda>_. f k)) [0..<n] s =
     s\<lparr>dpm := (dpm s)\<lparr>filters := map f [0..<n] @ drop n (filters (dpm s))\<rparr>\<rparr>"
  "n \<le> length (gpios (dpm s)) \<Longrightarrow> fold (\<lambda>k. upd_gpio k (\<lambda>_. g k)) [0..<n] s =
     s\<lparr>dpm := (dpm s)\<lparr>gpios := map g [0..<n] @ drop n (gpios (dpm s))\<rparr>\<rparr>"
  by (induction n) (auto simp: upd_filter_def upd_gpio_def list_update_append Cons_nth_drop_Suc[symmetric])

lemma upd_filter_keeps [simp]:
  "dev (upd_filter k f s) = dev s" "IsCaptureRunning (upd_filter k f s) = IsCaptureRunning s"
  "gpios (dpm (upd_filter k f s)) = gpios (dpm s)" "length (filters (dpm (upd_filter k f s))) = length (filters (dpm s))"
  by (simp_all add: upd_filter_def IsCaptureRunning_def)

lemma default_block_fits:
  assumes "dpm_filters_ok s" "defaults_ok (dev s)" "k < unat (ulPortCnt (dev s))"
  shows "dpm_filters_ok (upd_filter k (\<lambda>_. default_block (atDefaultFilter (dev s) ! k)) s)"
proof -
  have "atDefaultFilter (dev s) ! k \<in> set (atDefaultFilter (dev s))"
    using assms(2,3) by (simp add: defaults_ok_def)
  then have "default_ok (unat (ulFilterSize (dev s))) (fst (atDefaultFilter (dev s) ! k))"
    "default_ok (unat (ulFilterSize (dev s))) (snd (atDefaultFilter (dev s) ! k))"
    using assms(2) by (auto simp: defaults_ok_def)
  then show ?thesis
    using assms(1) by (auto simp: dpm_filters_ok_def upd_filter_def default_block_def default_ok_def dest!: set_update_subset_insert[THEN subsetD])
qed

lemma fold_reset_filter:
  assumes "\<not> IsCaptureRunning s" "dpm_filters_ok s" "defaults_ok (dev s)" "n \<le> unat (ulPortCnt (dev s))"
  shows "fold reset_filter [0..<n] s = fold (\<lambda>k. upd_filter k (\<lambda>_. default_block (atDefaultFilter (dev s) ! k))) [0..<n] s \<and>
    dpm_filters_ok (fold reset_filter [0..<n] s) \<and> \<not> IsCaptureRunning (fold reset_filter [0..<n] s)"
  using assms(4)
proof (induction n)
  case (Suc n)
  let ?s = "fold reset_filter [0..<n] s"
  have ih: "?s = fold (\<lambda>k. upd_filter k (\<lambda>_. default_block (atDefaultFilter (dev s) ! k))) [0..<n] s"
    "dpm_filters_ok ?s" "\<not> IsCaptureRunning ?s"
    using Suc.IH[OF Suc_leD[OF Suc.prems]] by blast+
  have d: "dev ?s = dev s"
    by (simp add: fold_dev)
  have "reset_filter n ?s = upd_filter n (\<lambda>_. default_block (atDefaultFilter (dev s) ! n)) ?s"
    using reset_filter_step[OF ih(3,2)] assms(3) Suc.prems d by simp
  then have r: "fold reset_filter [0..<Suc n] s = upd_filter n (\<lambda>_. default_block (atDefaultFilter (dev s) ! n)) ?s"
    by simp
  have "dpm_filters_ok (upd_filter n (\<lambda>_. default_block (atDefaultFilter (dev s) ! n)) ?s)"
    using default_block_fits[OF ih(2), of n] assms(3) Suc.prems d by simp
  then show ?case
    using ih(3) unfolding r by (simp only: ih(1)) simp
qed (use assms in simp)

text \<open>Opening a device leaves the default configuration in its DPM.\<close>

lemma reset_config_defaults:
  assumes "\<not> IsCaptureRunning s" "dpm_filters_ok s" "defaults_ok (dev s)" "length (gpios (dpm s)) = unat (ulGpioCnt (dev s))"
  shows "filters (dpm (reset_config s)) = map default_block (atDefaultFilter (dev s)) \<and>
    gpios (dpm (reset_config s)) = atDefaultGPIOs (dev s)"
proof -
  let ?n = "unat (ulPortCnt (dev s))" and ?s = "fold reset_filter [0..<unat (ulPortCnt (dev s))] s"
  have len: "length (atDefaultFilter (dev s)) = ?n" "length (atDefaultGPIOs (dev s)) = unat (ulGpioCnt (dev s))"
    "length (filters (dpm s)) = ?n"
    using assms(2,3) by (simp_all add: defaults_ok_def dpm_filters_ok_def)
  have all: "map (\<lambda>k. f (xs ! k)) [0..<length xs] = map f xs" for f :: "'x \<Rightarrow> 'y" and xs
    by (rule nth_equalityI) simp_all
  have s1: "?s = s\<lparr>dpm := (dpm s)\<lparr>filters := map default_block (atDefaultFilter (dev s))\<rparr>\<rparr>"
    using len fold_reset_filter[OF assms(1-3), of ?n]
      fold_upd(1)[of ?n s "\<lambda>k. default_block (atDefaultFilter (dev s) ! k)"] all[of default_block "atDefaultFilter (dev s)"]
    by simp
  have "dev x = dev s \<Longrightarrow> fold reset_gpio ks x = fold (\<lambda>k. upd_gpio k (\<lambda>_. atDefaultGPIOs (dev s) ! k)) ks x" for ks x
    by (induction ks arbitrary: x) (simp_all add: reset_gpio_def upd_gpio_def)
  then have "reset_config s = fold (\<lambda>k. upd_gpio k (\<lambda>_. atDefaultGPIOs (dev s) ! k)) [0..<unat (ulGpioCnt (dev s))] ?s"
    by (simp add: reset_config_def Let_def fold_dev)
  then show ?thesis
    using fold_upd(2)[of "unat (ulGpioCnt (dev s))" ?s "\<lambda>k. atDefaultGPIOs (dev s) ! k"] len assms(4)
    by (simp add: s1 map_nth[of "atDefaultGPIOs (dev s)", unfolded len(2)])
qed

lemma find_card_Some:
  "find_card name hs m = Some h \<Longrightarrow> h \<in> set hs \<and> strn_eq NETANA_MAX_DEVICENAMESIZE name (szAliasName (card_dev (m h)))"
  by (induction name hs m rule: find_card.induct) (auto split: if_splits)

lemma find_card_cong: "(\<And>j. szAliasName (card_dev (m' j)) = szAliasName (card_dev (m j))) \<Longrightarrow> find_card name hs m' = find_card name hs m"
  by (induction name hs m rule: find_card.induct) auto

lemma caller_filter_map: "fst (caller_filter al pid t) =
    (let f = USER_GetDevClassFilter pid (tk_apps t) in if f = 0 then NETANA_DEV_CLASS_NANL_500 else f)"
  by (simp add: caller_filter_def Let_def)

lemma caller_filter_cards [simp]: "tk_cards (snd (caller_filter al pid t)) = tk_cards t"
  "g_tCardList (snd (caller_filter al pid t)) = g_tCardList t"
  by (simp_all add: caller_filter_def Let_def)

definition device_class :: "card \<Rightarrow> u16" where
  "device_class c = si_usDeviceClass (tSystemInfoBlock (dpm (cd_sys c)))"

lemma open_branches:
  assumes "netana_open_device al pid (Some name) (Some old) t = ((r, hOut), t')"
  shows "(case find_card name (g_tCardList t) (tk_cards t) of
      None \<Rightarrow> r = NETANA_DEVICE_NOT_FOUND \<and> hOut = Some old \<and> tk_cards t' = tk_cards t
    | Some h \<Rightarrow>
        if \<not> class_selected (device_class (tk_cards t h)) (fst (caller_filter al pid t))
        then r = NETANA_ACCESS_DENIED \<and> hOut = Some old \<and> tk_cards t' = tk_cards t
        else if ulOpenCnt (card_dev (tk_cards t h)) > 0
        then r = NETANA_DEVICE_STILL_OPEN \<and> hOut = Some old \<and> tk_cards t' = tk_cards t
        else r = NETANA_NO_ERROR \<and> hOut = Some h \<and> tk_cards t' = (tk_cards t)(h :=
          upd_sys (\<lambda>s. reset_config (upd_dev (\<lambda>d. d\<lparr>ulOpenCnt := ulOpenCnt d + 1\<rparr>) s)) (tk_cards t h))) \<and>
    g_tCardList t' = g_tCardList t"
proof -
  obtain f t1 where f: "caller_filter al pid (enter_lock t) = (f, t1)"
    by fastforce
  have t1: "tk_cards t1 = tk_cards t" "g_tCardList t1 = g_tCardList t" "fst (caller_filter al pid t) = f"
    using caller_filter_cards[of al pid "enter_lock t"] f by (simp_all add: caller_filter_def Let_def split: if_splits)
  show ?thesis
    using assms f t1 by (auto simp: netana_open_device_def Let_def upd_card_def device_class_def split: option.splits if_splits)
qed

text \<open>C23: Opening a device hands it to one application, with the default configuration. A
  successful \<open>netana_open_device\<close> returns the first device on the card list with the name, which is closed
  and of a class the filter of the process selects (\<open>NETANA_DEV_CLASS_NANL_500\<close> where it has none); it sets the open count
  to one and touches no other device. Its filters and GPIOs are then the defaults read when the
  device was added, if no capture is running. A second open of the name, by any process, fails until the device is
  closed. A failing open changes no device and leaves the handle of the caller.\<close>

theorem open_device_correct:
  assumes "netana_open_device al pid (Some name) (Some old) t = ((r, hOut), t')"
  shows "(r = NETANA_NO_ERROR \<longrightarrow> (\<exists>h. hOut = Some h \<and> h \<in> set (g_tCardList t) \<and>
      strn_eq NETANA_MAX_DEVICENAMESIZE name (szAliasName (card_dev (tk_cards t h))) \<and>
      ulOpenCnt (card_dev (tk_cards t h)) = 0 \<and> ulOpenCnt (card_dev (tk_cards t' h)) = 1 \<and>
      class_selected (device_class (tk_cards t h))
        (let f = USER_GetDevClassFilter pid (tk_apps t) in if f = 0 then NETANA_DEV_CLASS_NANL_500 else f) \<and>
      (\<forall>j. j \<noteq> h \<longrightarrow> tk_cards t' j = tk_cards t j) \<and>
      (let s = cd_sys (tk_cards t h); s' = cd_sys (tk_cards t' h) in
       \<not> IsCaptureRunning s \<and> dpm_filters_ok s \<and> defaults_ok (dev s) \<and> length (gpios (dpm s)) = unat (ulGpioCnt (dev s)) \<longrightarrow>
         filters (dpm s') = map default_block (atDefaultFilter (dev s)) \<and> gpios (dpm s') = atDefaultGPIOs (dev s)) \<and>
      fst (fst (netana_open_device al2 pid2 (Some name) (Some old2) t')) \<in> {NETANA_DEVICE_STILL_OPEN, NETANA_ACCESS_DENIED})) \<and>
    (r \<noteq> NETANA_NO_ERROR \<longrightarrow> hOut = Some old \<and> tk_cards t' = tk_cards t) \<and> g_tCardList t' = g_tCardList t"
proof (cases "r = NETANA_NO_ERROR")
  case True
  let ?open = "upd_dev (\<lambda>d. d\<lparr>ulOpenCnt := ulOpenCnt d + 1\<rparr>)"
  obtain h where f: "find_card name (g_tCardList t) (tk_cards t) = Some h"
    and sel: "class_selected (device_class (tk_cards t h)) (fst (caller_filter al pid t))"
    and cnt: "ulOpenCnt (card_dev (tk_cards t h)) = 0" and h: "hOut = Some h"
    and c: "tk_cards t' = (tk_cards t)(h := upd_sys (\<lambda>s. reset_config (?open s)) (tk_cards t h))"
    and list: "g_tCardList t' = g_tCardList t"
    using open_branches[OF assms] True
    by (auto simp: word_gt_0 simp del: word_neq_0_conv split: option.splits if_splits)
  let ?s = "cd_sys (tk_cards t h)"
  have open1: "dev (?open ?s) = (dev ?s)\<lparr>ulOpenCnt := ulOpenCnt (dev ?s) + 1\<rparr>" "dpm (?open ?s) = dpm ?s"
    by (simp_all add: upd_dev_def)
  have one: "ulOpenCnt (card_dev (tk_cards t' h)) = 1"
    using cnt by (simp add: c open1) (simp add: card_dev_def)
  have "szAliasName (card_dev (tk_cards t' j)) = szAliasName (card_dev (tk_cards t j))" for j
    by (simp add: c open1) (simp add: card_dev_def)
  then have f': "find_card name (g_tCardList t') (tk_cards t') = Some h"
    using f find_card_cong[of "tk_cards t'" "tk_cards t"] list by simp
  have again: "fst (fst (netana_open_device al2 pid2 (Some name) (Some old2) t')) \<in> {NETANA_DEVICE_STILL_OPEN, NETANA_ACCESS_DENIED}"
    using open_branches[of al2 pid2 name old2 t' "fst (fst (netana_open_device al2 pid2 (Some name) (Some old2) t'))"
        "snd (fst (netana_open_device al2 pid2 (Some name) (Some old2) t'))" "snd (netana_open_device al2 pid2 (Some name) (Some old2) t')"] f' one
    by (auto split: if_splits)
  have "\<not> IsCaptureRunning ?s \<and> dpm_filters_ok ?s \<and> defaults_ok (dev ?s) \<and> length (gpios (dpm ?s)) = unat (ulGpioCnt (dev ?s)) \<longrightarrow>
      filters (dpm (cd_sys (tk_cards t' h))) = map default_block (atDefaultFilter (dev ?s)) \<and>
      gpios (dpm (cd_sys (tk_cards t' h))) = atDefaultGPIOs (dev ?s)"
    using reset_config_defaults[of "?open ?s"]
    by (simp add: c open1 IsCaptureRunning_def dpm_filters_ok_def defaults_ok_def)
  then show ?thesis
    using True h f[THEN find_card_Some] cnt one sel again list by (simp add: c Let_def caller_filter_map)
qed (use open_branches[OF assms] in \<open>auto split: option.splits if_splits\<close>)

text \<open>A closed, flash based device of the sample data, as the module hands it over, and a system in which
  every allocation succeeds.\<close>

definition sample_card :: card where
  "sample_card = \<lparr>cd_sys = sample\<lparr>dev := sample_dev\<lparr>ulOpenCnt := 0, ulFlashBased := 1\<rparr>\<rparr>, cd_lay = read_layout sample_sysinfo,
     cd_pvLock = False, cd_ahHandshakeBitEvents = replicate 16 False, cd_hStopComplete = False, cd_irq = False, cd_ulIRQEnable_0 = 0\<rparr>"

definition sample_kit :: toolkit where
  "sample_kit = \<lparr>g_tCardList = [], g_ulCardCnt = 0, g_pvCardLock = True, tk_fault = False, tk_cards = (\<lambda>_. sample_card), tk_apps = []\<rparr>"

definition sample_alloc :: os_alloc where
  "sample_alloc = \<lparr>oa_lock = True, oa_stop = True, oa_event = (\<lambda>_. True), oa_filter = (\<lambda>_ _. (True, True)), oa_irq = True, oa_app = True\<rparr>"

definition flash_env :: dev_env where
  "flash_env = \<lparr>de_hw = (bo_hw boot_sample)\<lparr>bd_abCookie := NETANA_COOKIE\<rparr>, de_ticks = [], de_dpm = (\<lambda>_. sample_dpm)\<rparr>"

lemma create_events_all: "(\<forall>i. oa_event al i) \<Longrightarrow> fst (create_events al is c) = NETANA_NO_ERROR"
  by (induction al "is" c rule: create_events.induct) (auto simp: Let_def)

lemma flash_add:
  assumes "ulFlashBased (card_dev (tk_cards t h)) \<noteq> 0" "length (cd_ahHandshakeBitEvents (tk_cards t h)) = 16"
  shows "\<exists>t'. netana_tkit_deviceadd P sample_alloc flash_env h no t = Some (NETANA_NO_ERROR, t')"
proof -
  let ?c = "(tk_cards t h)\<lparr>cd_pvLock := True\<rparr>"
  have "fst (CreateIrqEvents sample_alloc c) = NETANA_NO_ERROR" for c
    by (simp add: CreateIrqEvents_def Let_def sample_alloc_def create_events_all)
  moreover have "card_dev (snd (CreateIrqEvents sample_alloc ?c)) = card_dev (tk_cards t h)"
    using CreateIrqEvents_post[OF surjective_pairing, where al = sample_alloc and c = ?c] assms(2)
    by (simp add: card_dev_def)
  moreover have "oa_lock sample_alloc" "bd_abCookie (de_hw flash_env) = NETANA_COOKIE"
    by (simp_all add: sample_alloc_def flash_env_def)
  ultimately show ?thesis
    using assms(1) by (simp add: netana_tkit_deviceadd_def add_device_def bring_up_def upd_hw_def Let_def case_prod_beta)
qed

lemma sample_add: "\<exists>t. netana_tkit_deviceadd P sample_alloc flash_env 7 0 sample_kit = Some (NETANA_NO_ERROR, t)"
  by (rule flash_add) (simp_all add: sample_kit_def sample_card_def card_dev_def)

lemma sample_kit_ok: "toolkit_ok sample_kit"
  by (simp add: toolkit_ok_def sample_kit_def card_shape_def card_dev_def sample_card_def sample_dev_def apps_ok_def)

lemma registry_invariant_witness:
  "\<exists>t t'. netana_tkit_deviceadd sample_port sample_alloc flash_env 7 0 sample_kit = Some (NETANA_NO_ERROR, t) \<and>
     t' = snd (netana_open_device sample_alloc 1 (Some ''netANALYZER_0'') (Some 0) t) \<and> toolkit_ok t'"
proof -
  obtain t where t: "netana_tkit_deviceadd sample_port sample_alloc flash_env 7 0 sample_kit = Some (NETANA_NO_ERROR, t)"
    using sample_add by blast
  have "tk_step sample_kit t"
    using t by (intro tk_add) (simp_all add: sample_kit_def)
  moreover have "tk_step t (snd (netana_open_device sample_alloc 1 (Some ''netANALYZER_0'') (Some 0) t))"
    by (rule tk_open[OF surjective_pairing])
  ultimately have "tk_step\<^sup>*\<^sup>* sample_kit (snd (netana_open_device sample_alloc 1 (Some ''netANALYZER_0'') (Some 0) t))"
    by (meson r_into_rtranclp rtranclp_trans)
  from registry_invariant[OF this sample_kit_ok] show ?thesis
    using t by blast
qed

lemma open_device_correct_witness:
  "\<exists>t'. netana_open_device sample_alloc 1 (Some ''netANALYZER_0'') (Some 0) (sample_kit\<lparr>g_tCardList := [7]\<rparr>) = ((NETANA_NO_ERROR, Some 7), t') \<and>
     ulOpenCnt (card_dev (tk_cards t' 7)) = 1 \<and>
     filters (dpm (cd_sys (tk_cards t' 7))) = map default_block (atDefaultFilter sample_dev) \<and> gpios (dpm (cd_sys (tk_cards t' 7))) = atDefaultGPIOs sample_dev"
proof -
  let ?t = "sample_kit\<lparr>g_tCardList := [7]\<rparr>"
  obtain r hOut t' where t': "netana_open_device sample_alloc 1 (Some ''netANALYZER_0'') (Some 0) ?t = ((r, hOut), t')"
    by (metis surj_pair)
  have "find_card ''netANALYZER_0'' (g_tCardList ?t) (tk_cards ?t) = Some 7"
    by (simp add: sample_kit_def sample_card_def card_dev_def sample_dev_def strn_eq_def)
  moreover have "class_selected (device_class (tk_cards ?t 7)) (fst (caller_filter sample_alloc 1 ?t))"
    by (simp add: caller_filter_map sample_kit_def device_class_def sample_card_def sample_defs class_selected_def)
  moreover have "ulOpenCnt (card_dev (tk_cards ?t 7)) = 0"
    by (simp add: sample_kit_def card_dev_def sample_card_def)
  ultimately have r: "r = NETANA_NO_ERROR" "hOut = Some 7"
    using open_branches[OF t'] by simp_all
  have "\<not> IsCaptureRunning (cd_sys sample_card)" "dpm_filters_ok (cd_sys sample_card)" "defaults_ok (dev (cd_sys sample_card))"
    "length (gpios (dpm (cd_sys sample_card))) = unat (ulGpioCnt (dev (cd_sys sample_card)))"
    "atDefaultFilter (dev (cd_sys sample_card)) = atDefaultFilter sample_dev" "atDefaultGPIOs (dev (cd_sys sample_card)) = atDefaultGPIOs sample_dev"
    by (simp_all add: sample_card_def IsCaptureRunning_def dpm_filters_ok_def defaults_ok_def default_ok_def sample_default_def sample_defs)
  then show ?thesis
    using open_device_correct[OF t'] t' r by (simp add: Let_def sample_kit_def)
qed

section \<open>Adding a device, and what fails\<close>

lemma first_interrupt_keeps:
  "dpm (first_interrupt s) = dpm s \<and>
   ulDevNo (dev (first_interrupt s)) = ulDevNo (dev s) \<and> szAliasName (dev (first_interrupt s)) = szAliasName (dev s) \<and>
   usDeviceClass (dev (first_interrupt s)) = usDeviceClass (dev s) \<and> ulSerialNr (dev (first_interrupt s)) = ulSerialNr (dev s) \<and>
   ulPortCnt (dev (first_interrupt s)) = ulPortCnt (dev s) \<and> ulGpioCnt (dev (first_interrupt s)) = ulGpioCnt (dev s) \<and>
   ulFilterSize (dev (first_interrupt s)) = ulFilterSize (dev s) \<and>
   atDefaultGPIOs (dev (first_interrupt s)) = atDefaultGPIOs (dev s) \<and> atDefaultFilter (dev (first_interrupt s)) = atDefaultFilter (dev s)"
  using first_interrupt_never[of s]
  by (auto simp: first_interrupt_def netana_tkit_isr_handler_def upd_dev_def Let_def split: prod.splits)

text \<open>The instance describes the device: what was read from the DPM agrees with it.\<close>

definition describes :: "u32 \<Rightarrow> card \<Rightarrow> bool" where
  "describes no c \<longleftrightarrow>
     (let d = card_dev c; m = dpm (cd_sys c); i = tSystemInfoBlock m in
      ulDevNo d = no \<and> szAliasName d = alias_name (usDeviceClass d) no \<and> ulSerialNr d = si_ulSerialNr i \<and>
      ulPortCnt d = si_ulPortCount i \<and> ulGpioCnt d = si_ulGPIOCount i \<and> ulFilterSize d = si_ulFilterSize i \<and>
      cd_lay c = read_layout i \<and> atDefaultGPIOs d = map (\<lambda>k. gpios m ! k) [0..<unat (ulGpioCnt d)] \<and>
      sm_usPackagesAccepted (tSendMailbox m) = 0 \<and> rm_usWaitingPackages (tRecvMailbox m) = 0)"

definition saved_filters :: "card \<Rightarrow> bool" where
  "saved_filters c \<longleftrightarrow> (dpm_filters_ok (cd_sys c) \<longrightarrow> defaults_ok (card_dev c) \<and>
     map default_block (atDefaultFilter (card_dev c)) = map (\<lambda>f. f\<lparr>fl_ulRelationShip := 0\<rparr>) (filters (dpm (cd_sys c))))"

lemma Toggle_dpm_keeps:
  "gpios (dpm (ack_new_status s)) = gpios (dpm s) \<and> filters (dpm (ack_new_status s)) = filters (dpm s) \<and>
   tSystemInfoBlock (dpm (ack_new_status s)) = tSystemInfoBlock (dpm s)"
  by (simp add: ack_new_status_def netana_tkit_ToggleBit_def Let_def)

lemma ack_dev_keeps: "\<exists>f. dev (ack_new_status s) = (dev s)\<lparr>ulHostFlags := f\<rparr>"
  by (cases "dev s") (simp add: ack_new_status_def dev_Toggle)

lemma read_device_describes: "describes no (read_device al no m c)"
proof -
  obtain f where f: "dev (ack_new_status ((cd_sys c)\<lparr>dpm := m, dev := read_instance al m (dev (cd_sys c))\<rparr>)) =
      (read_instance al m (dev (cd_sys c)))\<lparr>ulHostFlags := f\<rparr>"
    using ack_dev_keeps[of "(cd_sys c)\<lparr>dpm := m, dev := read_instance al m (dev (cd_sys c))\<rparr>"] by auto
  show ?thesis
    using Toggle_dpm_keeps[of "(cd_sys c)\<lparr>dpm := m, dev := read_instance al m (dev (cd_sys c))\<rparr>"]
    by (simp add: describes_def read_device_def Let_def setup_mailboxes_def upd_dev_def f)
      (simp add: read_instance_def Let_def upd_sys_def)
qed

lemma default_of_block:
  assumes "length (fp_pbMask (fl_A b)) = n" "length (fp_pbValue (fl_A b)) = n" "length (fp_pbMask (fl_B b)) = n" "length (fp_pbValue (fl_B b)) = n"
  shows "default_block (default_of (True, True) n (fl_A b), default_of (True, True) n (fl_B b)) = b\<lparr>fl_ulRelationShip := 0\<rparr>"
    "default_ok n (default_of (True, True) n (fl_A b))" "default_ok n (default_of (True, True) n (fl_B b))"
proof -
  show "default_block (default_of (True, True) n (fl_A b), default_of (True, True) n (fl_B b)) = b\<lparr>fl_ulRelationShip := 0\<rparr>"
    using assms by (intro dpm_filter.equality filter_pair.equality) (simp_all add: default_block_def default_of_def)
qed (use assms in \<open>simp_all add: default_ok_def default_of_def\<close>)

lemma read_device_saves:
  assumes "\<forall>k j. oa_filter al k j = (True, True)"
  shows "saved_filters (read_device al no m c)"
  unfolding saved_filters_def
proof
  let ?r = "read_device al no m c" and ?i = "tSystemInfoBlock m"
  let ?n = "unat (si_ulFilterSize ?i)"
  let ?s0 = "(cd_sys c)\<lparr>dpm := m, dev := read_instance al m (dev (cd_sys c))\<rparr>"
  obtain f where f: "dev (ack_new_status ?s0) = (read_instance al m (dev (cd_sys c)))\<lparr>ulHostFlags := f\<rparr>"
    using ack_dev_keeps[of ?s0] by auto
  have fields: "ulPortCnt (card_dev ?r) = si_ulPortCount ?i" "ulFilterSize (card_dev ?r) = si_ulFilterSize ?i"
    "ulGpioCnt (card_dev ?r) = si_ulGPIOCount ?i" "filters (dpm (cd_sys ?r)) = filters m"
    "atDefaultFilter (card_dev ?r) = map (\<lambda>k. (default_of (True, True) ?n (fl_A (filters m ! k)), default_of (True, True) ?n (fl_B (filters m ! k))))
       [0..<unat (si_ulPortCount ?i)]"
    "atDefaultGPIOs (card_dev ?r) = map (\<lambda>k. gpios m ! k) [0..<unat (si_ulGPIOCount ?i)]"
    using Toggle_dpm_keeps[of ?s0] assms
    by (simp_all add: read_device_def Let_def setup_mailboxes_def upd_dev_def f)
      (simp_all add: read_instance_def Let_def upd_sys_def)
  assume "dpm_filters_ok (cd_sys ?r)"
  then have len: "length (filters m) = unat (si_ulPortCount ?i)"
    and sizes: "\<forall>b \<in> set (filters m). \<forall>p \<in> {fl_A b, fl_B b}. length (fp_pbMask p) = ?n \<and> length (fp_pbValue p) = ?n"
    using fields by (simp_all add: dpm_filters_ok_def card_dev_def)
  show "defaults_ok (card_dev ?r) \<and>
     map default_block (atDefaultFilter (card_dev ?r)) = map (\<lambda>f. f\<lparr>fl_ulRelationShip := 0\<rparr>) (filters (dpm (cd_sys ?r)))"
    unfolding defaults_ok_def fields using sizes len
    by (auto simp: default_of_block list_eq_iff_nth_eq)
qed

lemma enable_sys [simp]:
  "cd_sys (OS_EnableDeviceInterrupts al c) = cd_sys c" "cd_lay (OS_EnableDeviceInterrupts al c) = cd_lay c"
  "card_dev (OS_EnableDeviceInterrupts al c) = card_dev c"
  by (simp_all add: OS_EnableDeviceInterrupts_def netana_tkit_enable_hwinterrupts_def card_dev_def)

lemma enable_keeps:
  assumes "describes no c"
  shows "describes no (OS_EnableDeviceInterrupts al (upd_sys first_interrupt c))"
    "saved_filters c \<Longrightarrow> saved_filters (OS_EnableDeviceInterrupts al (upd_sys first_interrupt c))"
proof -
  have "describes no (upd_sys first_interrupt c)"
    using assms first_interrupt_keeps[of "cd_sys c"] unfolding describes_def Let_def upd_sys_simps card_dev_def[of c] by presburger
  then show "describes no (OS_EnableDeviceInterrupts al (upd_sys first_interrupt c))"
    by (simp add: describes_def)
  assume "saved_filters c"
  then have "saved_filters (upd_sys first_interrupt c)"
    using first_interrupt_keeps[of "cd_sys c"]
    unfolding saved_filters_def dpm_filters_ok_def defaults_ok_def upd_sys_simps card_dev_def[of c] by presburger
  then show "saved_filters (OS_EnableDeviceInterrupts al (upd_sys first_interrupt c))"
    by (simp add: saved_filters_def)
qed

lemma deviceadd_result:
  assumes "netana_tkit_deviceadd P al E h no t = Some (r, t')" "card_shape (tk_cards t h)"
  shows "(r = NETANA_NO_ERROR \<longrightarrow> g_tCardList t' = g_tCardList t @ [h] \<and> g_ulCardCnt t' = g_ulCardCnt t + 1 \<and>
      card_held (tk_cards t' h) \<and> describes no (tk_cards t' h) \<and>
      ((\<forall>k j. oa_filter al k j = (True, True)) \<longrightarrow> saved_filters (tk_cards t' h))) \<and>
    (r \<noteq> NETANA_NO_ERROR \<longrightarrow> g_tCardList t' = g_tCardList t \<and> g_ulCardCnt t' = g_ulCardCnt t \<and> card_released (tk_cards t' h)) \<and>
    (\<forall>j. j \<noteq> h \<longrightarrow> tk_cards t' j = tk_cards t j)"
proof -
  obtain c where c: "add_device P al E no (tk_cards t h) = Some (r, c)"
    using assms(1) by (auto simp: netana_tkit_deviceadd_def bind_eq_Some_conv Let_def)
  note post = add_device_post[OF c assms(2)]
  show ?thesis
  proof (cases "r = NETANA_NO_ERROR")
    case True
    obtain m c2 where r: "c = read_device al no m c2"
      using c True by (auto simp: add_device_def bind_eq_Some_conv Let_def split: if_splits prod.splits)
    have "describes no c" "(\<forall>k j. oa_filter al k j = (True, True)) \<longrightarrow> saved_filters c"
      using read_device_describes read_device_saves unfolding r by blast+
    then show ?thesis
      using assms(1) c True post by (auto simp: netana_tkit_deviceadd_def Let_def enable_keeps first_irq_shape)
  next
    case False
    then show ?thesis
      using assms(1) c post by (auto simp: netana_tkit_deviceadd_def Let_def unwind_post)
  qed
qed

text \<open>C22: What \<open>netana_tkit_deviceadd\<close> does. On success the device is at the end of the card list and
  \<open>g_ulCardCnt\<close> counts it; it holds its lock and events; its instance has the
  number and alias name it is added under and the serial number, counts and default GPIOs of its
  DPM, whose layout was laid out from the system info block, with empty mailboxes; and, where the
  buffers could be allocated, the saved default filters are those of the DPM, so that opening the device
  restores them. On an error the list and the count are unchanged, and the lock and the events
  are released. No other device changes.\<close>

theorem deviceadd_correct:
  assumes "netana_tkit_deviceadd P al E h no t = Some (r, t')" "card_shape (tk_cards t h)"
  shows "(r = NETANA_NO_ERROR \<longrightarrow> g_tCardList t' = g_tCardList t @ [h] \<and> g_ulCardCnt t' = g_ulCardCnt t + 1 \<and>
      card_held (tk_cards t' h) \<and> describes no (tk_cards t' h) \<and>
      ((\<forall>k j. oa_filter al k j = (True, True)) \<longrightarrow> saved_filters (tk_cards t' h))) \<and>
    (r \<noteq> NETANA_NO_ERROR \<longrightarrow> g_tCardList t' = g_tCardList t \<and> g_ulCardCnt t' = g_ulCardCnt t \<and> card_released (tk_cards t' h)) \<and>
    (\<forall>j. j \<noteq> h \<longrightarrow> tk_cards t' j = tk_cards t j)"
  by (rule deviceadd_result[OF assms])

lemma deviceadd_correct_witness:
  "\<exists>t. netana_tkit_deviceadd sample_port sample_alloc flash_env 7 0 sample_kit = Some (NETANA_NO_ERROR, t) \<and>
     g_tCardList t = [7] \<and> g_ulCardCnt t = 1 \<and> describes 0 (tk_cards t 7) \<and> saved_filters (tk_cards t 7)"
proof -
  obtain t where t: "netana_tkit_deviceadd sample_port sample_alloc flash_env 7 0 sample_kit = Some (NETANA_NO_ERROR, t)"
    using sample_add by blast
  have "card_shape (tk_cards sample_kit 7)" "\<forall>k j. oa_filter sample_alloc k j = (True, True)"
    using sample_kit_ok by (simp_all add: toolkit_ok_def sample_alloc_def)
  then show ?thesis
    using deviceadd_correct[OF t] t by (simp add: sample_kit_def)
qed

text \<open>C24: Restarting a device. With a capture running \<open>netana_restart_device\<close> changes nothing.
  Otherwise success leaves the device, under its old number, at the end of the card list, with its resources; any error leaves it off the list with
  its lock and events released. The number of the devices follows the list, and no other device
  changes.\<close>

theorem restart_device_correct:
  assumes "netana_restart_device P ops al E h t = Some (r, t')" "toolkit_ok t" "h \<in> set (g_tCardList t)"
  shows "(IsCaptureRunning (cd_sys (tk_cards t h)) \<longrightarrow> r = NETANA_CAPTURE_ACTIVE \<and> t' = t) \<and>
    (\<not> IsCaptureRunning (cd_sys (tk_cards t h)) \<longrightarrow>
      (r = NETANA_NO_ERROR \<longrightarrow> g_tCardList t' = remove1 h (g_tCardList t) @ [h] \<and> card_held (tk_cards t' h) \<and>
         describes (ulDevNo (card_dev (tk_cards t h))) (tk_cards t' h)) \<and>
      (r \<noteq> NETANA_NO_ERROR \<longrightarrow> g_tCardList t' = remove1 h (g_tCardList t) \<and> card_released (tk_cards t' h))) \<and>
    g_ulCardCnt t' = of_nat (length (g_tCardList t')) \<and> (\<forall>j. j \<noteq> h \<longrightarrow> tk_cards t' j = tk_cards t j)"
proof (cases "IsCaptureRunning (cd_sys (tk_cards t h))")
  case False
  then obtain r1 t1 t2 where rm: "netana_tkit_deviceremove ops True h t = Some (r1, t1)"
    and ad: "(if r1 = NETANA_NO_ERROR then netana_tkit_deviceadd P al E h (ulDevNo (card_dev (tk_cards t1 h))) t1 else Some (r1, t1)) = Some (r, t2)"
    and t': "t' = (if r \<noteq> NETANA_NO_ERROR then snd (netana_close_device h t2) else t2)"
    using assms(1) by (auto simp: netana_restart_device_def bind_eq_Some_conv)
  have ok: "toolkit_ok t1" "toolkit_ok t'"
    using deviceremove_ok[OF assms(2,3) rm] restart_ok[OF assms(2,3,1)] by simp_all
  have close: "g_tCardList (snd (netana_close_device h x)) = g_tCardList x"
    "card_released (tk_cards x h) \<Longrightarrow> card_released (tk_cards (snd (netana_close_device h x)) h)"
    "j \<noteq> h \<Longrightarrow> tk_cards (snd (netana_close_device h x)) j = tk_cards x j" for x j
    by (auto simp: netana_close_device_def card_released_def)
  have shape: "card_shape (tk_cards t h)" "card_shape (tk_cards t1 h)"
    using assms(2) ok(1) by (simp_all add: toolkit_ok_def)
  obtain c where t1: "tk_cards t1 = (tk_cards t)(h := release_device ops c)" "g_tCardList t1 = remove1 h (g_tCardList t)"
    and c: "same_resources (tk_cards t h) c" "ulDevNo (card_dev c) = ulDevNo (card_dev (tk_cards t h))"
    using deviceremove_result[OF rm] by (auto simp: upd_card_def)
  have rel: "card_released (tk_cards t1 h)" "ulDevNo (card_dev (tk_cards t1 h)) = ulDevNo (card_dev (tk_cards t h))"
    using release_device_post(2)[of c ops] same_resourcesD(1)[OF c(1)] shape c(2)
    by (simp_all add: t1 release_device_def DeleteIrqEvents_def OS_DisableDeviceInterrupts_def
        netana_tkit_disable_hwinterrupts_def card_dev_def set_files_def)
  show ?thesis
  proof (cases "r1 = NETANA_NO_ERROR")
    case True
    then have "netana_tkit_deviceadd P al E h (ulDevNo (card_dev (tk_cards t h))) t1 = Some (r, t2)"
      using ad rel(2) by simp
    from deviceadd_result[OF this shape(2)] show ?thesis
      using False ok(2) close t1 t' by (auto simp: toolkit_ok_def)
  next
    case r1: False
    then show ?thesis
      using ad False ok(2) close t1 rel(1) t' by (auto simp: toolkit_ok_def)
  qed
qed (use assms in \<open>auto simp: netana_restart_device_def toolkit_ok_def\<close>)

text \<open>One device under control, which has already acknowledged the next \<open>CLKOFF\<close>.\<close>

definition ready_card :: card where
  "ready_card = sample_card\<lparr>cd_sys := sample\<lparr>dev := sample_dev\<lparr>ulFlashBased := 1, ulNetxFlags := 0x8000\<rparr>\<rparr>,
     cd_pvLock := True, cd_ahHandshakeBitEvents := replicate 16 True, cd_hStopComplete := True\<rparr>"

definition ready_kit :: toolkit where
  "ready_kit = sample_kit\<lparr>g_tCardList := [7], g_ulCardCnt := 1, tk_cards := (\<lambda>_. ready_card)\<rparr>"

lemma ready_kit_ok: "toolkit_ok ready_kit"
  by (simp add: toolkit_ok_def ready_kit_def sample_kit_def card_shape_def card_held_def card_dev_def ready_card_def
      sample_card_def sample_dev_def apps_ok_def list_all_iff)

lemma ready_remove:
  assumes "tk_cards t h = ready_card"
  shows "\<exists>t'. netana_tkit_deviceremove ops True h t = Some (NETANA_NO_ERROR, t') \<and> g_tCardList t' = remove1 h (g_tCardList t) \<and>
    ulFlashBased (card_dev (tk_cards t' h)) = 1 \<and> length (cd_ahHandshakeBitEvents (tk_cards t' h)) = 16 \<and>
    ulDevNo (card_dev (tk_cards t' h)) = 0"
  by (simp add: netana_tkit_deviceremove_def assms netana_tkit_WaitForBitState_def dev_Toggle ready_card_def sample_card_def
      bit_in_state.simps netxbit_def hostbit_def release_device_def DeleteIrqEvents_def OS_DisableDeviceInterrupts_def
      netana_tkit_disable_hwinterrupts_def card_dev_def set_files_def Let_def sample_dev_def msk_def)

lemma restart_device_correct_witness:
  "\<exists>t'. netana_restart_device sample_port stdio_ops sample_alloc flash_env 7 ready_kit = Some (NETANA_NO_ERROR, t') \<and>
     g_tCardList t' = [7] \<and> card_held (tk_cards t' 7) \<and> describes 0 (tk_cards t' 7)"
proof -
  obtain t1 where t1: "netana_tkit_deviceremove stdio_ops True 7 ready_kit = Some (NETANA_NO_ERROR, t1)"
    "ulFlashBased (card_dev (tk_cards t1 7)) \<noteq> 0" "length (cd_ahHandshakeBitEvents (tk_cards t1 7)) = 16" "ulDevNo (card_dev (tk_cards t1 7)) = 0"
    using ready_remove[of ready_kit 7 stdio_ops] by (auto simp: ready_kit_def)
  obtain t' where t': "netana_tkit_deviceadd sample_port sample_alloc flash_env 7 0 t1 = Some (NETANA_NO_ERROR, t')"
    using flash_add[OF t1(2,3)] by blast
  have run: "\<not> IsCaptureRunning (cd_sys (tk_cards ready_kit 7))"
    by (simp add: ready_kit_def ready_card_def IsCaptureRunning_def sample_defs)
  then have r: "netana_restart_device sample_port stdio_ops sample_alloc flash_env 7 ready_kit = Some (NETANA_NO_ERROR, t')"
    using t1 t' by (simp add: netana_restart_device_def)
  have "7 \<in> set (g_tCardList ready_kit)" "remove1 7 (g_tCardList ready_kit) = []" "ulDevNo (card_dev (tk_cards ready_kit 7)) = 0"
    by (simp_all add: ready_kit_def ready_card_def card_dev_def sample_dev_def)
  then show ?thesis
    using restart_device_correct[OF r ready_kit_ok] run r by simp
qed

lemma remove_all_result:
  "remove_all ops hs t = Some t' \<Longrightarrow> hs = g_tCardList t \<Longrightarrow> g_ulCardCnt t = of_nat (length hs) \<Longrightarrow> \<not> g_pvCardLock t \<Longrightarrow>
     g_tCardList t' = [] \<and> g_ulCardCnt t' = 0 \<and> (tk_fault t' \<longleftrightarrow> tk_fault t \<or> hs \<noteq> [])"
proof (induction ops hs t rule: remove_all.induct)
  case (2 ops h hs t)
  obtain r t1 where rm: "netana_tkit_deviceremove ops True h t = Some (r, t1)" and rest: "remove_all ops hs t1 = Some t'"
    using 2(2) by (auto simp: bind_eq_Some_conv)
  have t1: "g_tCardList t1 = hs" "g_ulCardCnt t1 = of_nat (length hs)" "\<not> g_pvCardLock t1" "tk_fault t1"
    using deviceremove_result[OF rm] 2(4,5) unfolding 2(3)[symmetric] by auto
  show ?case
    using 2(1)[OF _ _ rest] rm t1 by simp
qed simp

text \<open>Unloading the toolkit with devices: \<open>netana_tkit_deinit\<close>, if its waits end, removes every device, and it
  enters the card list lock it has deleted before exactly when there was a device to remove.\<close>

theorem deinit_uses_deleted_lock:
  assumes "netana_tkit_deinit ops t = Some t'" "toolkit_ok t"
  shows "g_tCardList t' = [] \<and> g_ulCardCnt t' = 0 \<and> (tk_fault t' \<longleftrightarrow> g_tCardList t \<noteq> [])"
  using remove_all_result[OF assms(1)[unfolded netana_tkit_deinit_def]] assms(2) by (simp add: toolkit_ok_def)

lemma deinit_uses_deleted_lock_witness:
  "\<exists>t'. netana_tkit_deinit stdio_ops ready_kit = Some t' \<and> g_tCardList t' = [] \<and> tk_fault t'"
proof -
  have "tk_cards (ready_kit\<lparr>g_pvCardLock := False\<rparr>) 7 = ready_card"
    by (simp add: ready_kit_def)
  from ready_remove[OF this] obtain t' where "netana_tkit_deviceremove stdio_ops True 7 (ready_kit\<lparr>g_pvCardLock := False\<rparr>) = Some (NETANA_NO_ERROR, t')"
    by blast
  then have d: "netana_tkit_deinit stdio_ops ready_kit = Some t'"
    by (simp add: netana_tkit_deinit_def ready_kit_def)
  show ?thesis
    using deinit_uses_deleted_lock[OF d ready_kit_ok] d by (simp add: ready_kit_def)
qed

end
