(* ===== verification/Device_Info.thy ===== *)
theory Device_Info
  imports Devices
begin

text \<open>
  What the API tells about the driver and its devices (\<open>toolkit/netana_functions.c\<close>): driver and
  device information, enumeration, the management commands, the identification of a device and
  the descriptions of the error codes. The calls copy a structure of their stack frame into the buffer of the caller, as many bytes
  as the caller says: a structure is its bytes here, and \<open>stack\<close> is the memory behind it, which
  a larger size runs into.
\<close>

section \<open>Driver and device information\<close>

definition copy_struct :: "u32 \<Rightarrow> bytes \<Rightarrow> bytes \<Rightarrow> bytes" where
  "copy_struct ulSize b stack = take (unat ulSize) (b @ stack)"

text \<open>A character array of \<open>n\<close> bytes with the string in it.\<close>

definition char_array :: "nat \<Rightarrow> string \<Rightarrow> bytes" where
  "char_array n str = take n (text_bytes str @ replicate n 0)"

record driver_information =
  vi_ulCardCnt :: u32
  vi_aulVersion :: "u32 list"
  vi_ulMaxFileCount :: u32
  vi_ulDMABufferSize :: u32
  vi_ulDMABufferCount :: u32
  vi_aulToolkitVersion :: "u32 list"
  vi_lMarshallerStatus :: u32
  vi_aulMarshallerVersion :: "u32 list"

definition driver_information_bytes :: "driver_information \<Rightarrow> bytes" where
  "driver_information_bytes i = le32 (vi_ulCardCnt i) @ concat (map le32 (vi_aulVersion i)) @
     le32 (vi_ulMaxFileCount i) @ le32 (vi_ulDMABufferSize i) @ le32 (vi_ulDMABufferCount i) @
     concat (map le32 (vi_aulToolkitVersion i)) @ le32 (vi_lMarshallerStatus i) @ concat (map le32 (vi_aulMarshallerVersion i))"

definition NETANA_TOOLKIT_VERSION :: "u32 list" where
  "NETANA_TOOLKIT_VERSION = [1, 7, 0, 0]"

definition netana_driver_information :: "tkit_config \<Rightarrow> u32 \<Rightarrow> bool \<Rightarrow> bytes \<Rightarrow> toolkit \<Rightarrow> u32 \<times> bytes option" where
  "netana_driver_information cfg ulDrvInfoSize given stack t =
     (if \<not> given then (NETANA_INVALID_PARAMETER, None)
      else (NETANA_NO_ERROR, Some (copy_struct ulDrvInfoSize (driver_information_bytes
        \<lparr>vi_ulCardCnt = g_ulCardCnt t, vi_aulVersion = [0, 0, 0, 0], vi_ulMaxFileCount = NETANA_MAX_FILES,
         vi_ulDMABufferSize = g_ulDMABufferSize cfg, vi_ulDMABufferCount = g_ulDMABufferCount cfg,
         vi_aulToolkitVersion = NETANA_TOOLKIT_VERSION, vi_lMarshallerStatus = 0, vi_aulMarshallerVersion = [0, 0, 0, 0]\<rparr>) stack)))"

record device_information =
  di_szDeviceName :: string
  di_ulPhysicalAddress :: u32
  di_ulDPMSize :: u32
  di_ulUsedDPMSize :: u32
  di_ulDPMLayoutVersion :: u32
  di_ulInterrupt :: u32
  di_ulDeviceNr :: u32
  di_ulSerialNr :: u32
  di_ausHwOptions :: "u16 list"
  di_usManufacturer :: u16
  di_usProductionDate :: u16
  di_usDeviceClass :: u16
  di_bHwRevision :: u8
  di_bHwCompatibility :: u8
  di_ulOpenCnt :: u32
  di_ulPortCnt :: u32
  di_ulGpioCnt :: u32
  di_ulFilterSize :: u32
  di_ulCounterSize :: u32
  di_szFirmwareName :: bytes
  di_aulVersion :: "u32 list"
  di_ulExtendedInfoSize :: u32
  di_ulExtendedInfoType :: u32
  di_tExtendedInfo :: bytes

abbreviation (input) SIZEOF_EXTENDED_DEV_INFO :: nat where "SIZEOF_EXTENDED_DEV_INFO \<equiv> 210"
abbreviation (input) EXT_TOOLKIT_VERSION :: nat where "EXT_TOOLKIT_VERSION \<equiv> 46"
abbreviation (input) NETANA_GBE_VARIANT :: u32 where "NETANA_GBE_VARIANT \<equiv> 0x00476245"

definition device_information_bytes :: "device_information \<Rightarrow> bytes" where
  "device_information_bytes i = char_array NETANA_MAX_DEVICENAMESIZE (di_szDeviceName i) @
     concat (map le32 [di_ulPhysicalAddress i, di_ulDPMSize i, di_ulUsedDPMSize i, di_ulDPMLayoutVersion i,
       di_ulInterrupt i, di_ulDeviceNr i, di_ulSerialNr i]) @ concat (map le16 (di_ausHwOptions i)) @
     le16 (di_usManufacturer i) @ le16 (di_usProductionDate i) @ le16 (di_usDeviceClass i) @
     [di_bHwRevision i, di_bHwCompatibility i] @
     concat (map le32 [di_ulOpenCnt i, di_ulPortCnt i, di_ulGpioCnt i, di_ulFilterSize i, di_ulCounterSize i]) @
     di_szFirmwareName i @ concat (map le32 (di_aulVersion i)) @
     le32 (di_ulExtendedInfoSize i) @ le32 (di_ulExtendedInfoType i) @ di_tExtendedInfo i"

text \<open>\<open>GenerateDeviceInformation\<close> up to the copy. \<open>ulExtendedInfoType\<close> is tested as it was
  initialised.\<close>

definition extended_info :: "device_information \<Rightarrow> device_information" where
  "extended_info i =
     (if di_ulExtendedInfoType i = NETANA_GBE_VARIANT
      then i\<lparr>di_tExtendedInfo := blit EXT_TOOLKIT_VERSION (concat (map le32 NETANA_TOOLKIT_VERSION)) (di_tExtendedInfo i)\<rparr>
      else i)"

definition device_information_of :: "sys \<Rightarrow> device_information" where
  "device_information_of s = (let d = dev s; i = tSystemInfoBlock (dpm s) in extended_info
     \<lparr>di_szDeviceName = szAliasName d, di_ulPhysicalAddress = ulDPMPhysicalAddress d, di_ulDPMSize = ulDPMSize d,
      di_ulUsedDPMSize = si_ulDPMUsedSize i, di_ulDPMLayoutVersion = si_ulDPMLayoutVersion i,
      di_ulInterrupt = ulInterruptNr d, di_ulDeviceNr = ulDeviceNr d, di_ulSerialNr = ulSerialNr d,
      di_ausHwOptions = si_ausHwOptions i, di_usManufacturer = si_usManufacturer i,
      di_usProductionDate = si_usProductionDate i, di_usDeviceClass = si_usDeviceClass i,
      di_bHwRevision = si_bHwRevision i, di_bHwCompatibility = si_bHwCompatibility i,
      di_ulOpenCnt = ulOpenCnt d, di_ulPortCnt = ulPortCnt d, di_ulGpioCnt = ulGpioCnt d,
      di_ulFilterSize = ulFilterSize d, di_ulCounterSize = si_ulCounterSize i,
      di_szFirmwareName = si_szFirmwareName i,
      di_aulVersion = [si_ulVersionMajor i, si_ulVersionMinor i, si_ulVersionBuild i, si_ulVersionRevision i],
      di_ulExtendedInfoSize = 0, di_ulExtendedInfoType = 0, di_tExtendedInfo = replicate SIZEOF_EXTENDED_DEV_INFO 0\<rparr>)"

definition GenerateDeviceInformation :: "u32 \<Rightarrow> bytes \<Rightarrow> sys \<Rightarrow> bytes" where
  "GenerateDeviceInformation ulDevInfoSize stack s =
     copy_struct ulDevInfoSize (device_information_bytes (device_information_of s)) stack"

definition netana_device_info :: "nat \<Rightarrow> u32 \<Rightarrow> bytes \<Rightarrow> toolkit \<Rightarrow> u32 \<times> bytes option" where
  "netana_device_info h ulDevInfoSize stack t =
     (if h = 0 then (NETANA_INVALID_PARAMETER, None)
      else (NETANA_NO_ERROR, Some (GenerateDeviceInformation ulDevInfoSize stack (cd_sys (tk_cards t h)))))"

section \<open>Enumeration\<close>

text \<open>The loop \<open>while ((ulCardNr-- > 0) && NULL != (ptDevice = STAILQ_NEXT(ptDevice)))\<close>.\<close>

fun enum_walk :: "nat \<Rightarrow> nat list \<Rightarrow> nat option" where
  "enum_walk n [] = None"
| "enum_walk 0 (h # hs) = Some h"
| "enum_walk (Suc n) (h # hs) = enum_walk n hs"

definition netana_enum_device :: "os_alloc \<Rightarrow> nat \<Rightarrow> u32 \<Rightarrow> u32 \<Rightarrow> bytes \<Rightarrow> toolkit \<Rightarrow> (u32 \<times> bytes option) \<times> toolkit" where
  "netana_enum_device al pid ulCardNr ulDevInfoSize stack t =
     (if ulCardNr > g_ulCardCnt t then ((NETANA_DEVICE_NOT_FOUND, None), t)
      else let t0 = enter_lock t in
        case enum_walk (unat ulCardNr) (g_tCardList t0) of
          None \<Rightarrow> ((NETANA_DEVICE_NOT_FOUND, None), t0)
        | Some h \<Rightarrow>
            let (f, t1) = caller_filter al pid t0; s = cd_sys (tk_cards t1 h) in
            if class_selected (si_usDeviceClass (tSystemInfoBlock (dpm s))) f
            then ((NETANA_NO_ERROR, Some (GenerateDeviceInformation ulDevInfoSize stack s)), t1)
            else ((NETANA_ACCESS_DENIED, None), t1))"

section \<open>Management commands\<close>

text \<open>The commands with the type of their parameters; \<open>None\<close> is a \<open>NULL\<close> pointer, followed by the
  size the caller gives. \<open>Cmd_Other\<close> is any unknown command.\<close>

datatype mngmt_cmd =
    Cmd_Blink "string option" u32
  | Cmd_Dev_Scan bool u32 bool u32
  | Cmd_Get_Dev_Feature "nat option" u32 u32
  | Cmd_Set_Dev_Class_Filter "u32 option" u32
  | Cmd_Other

abbreviation (input) SIZEOF_DEV_SCAN_IN :: u32 where "SIZEOF_DEV_SCAN_IN \<equiv> 16"
abbreviation (input) SIZEOF_DEV_FEATURE_IN :: u32 where "SIZEOF_DEV_FEATURE_IN \<equiv> 8"
abbreviation (input) SIZEOF_DEV_FEATURE_OUT :: u32 where "SIZEOF_DEV_FEATURE_OUT \<equiv> 72"
abbreviation (input) SIZEOF_SET_DEV_CLASS_FILTER_IN :: u32 where "SIZEOF_SET_DEV_CLASS_FILTER_IN \<equiv> 4"

definition dev_features :: "sys \<Rightarrow> u32 list" where
  "dev_features s = (let f = si_features (tSystemInfoBlock (dpm s)) in
     [0, si_ulPhysType f, ulPortCnt (dev s), si_ulPhysTapPresent f, si_ulPhysForwardingSupport f,
      si_ulPhysPortSpeedSupport f, si_ulPhysTransparentModeSupport f, ulGpioCnt (dev s),
      si_ulGpioInputRisingSupport f, si_ulGpioInputFallingSupport f, si_ulGpioOutputModeSupport f,
      si_ulGpioOutputPWMSupport f, si_ulGpioSyncInSupport f, si_ulGpioTriggerStartSupport f,
      si_ulGpioTriggerStopSupport f, si_ulGpioVoltage3VSupport f, si_ulGpioVoltage24VSupport f, si_ulSyncSupport f])"

fun netana_mngmt_exec_cmd :: "os_alloc \<Rightarrow> nat \<Rightarrow> mngmt_cmd \<Rightarrow> toolkit \<Rightarrow> (u32 \<times> bytes option) \<times> toolkit" where
  "netana_mngmt_exec_cmd al pid (Cmd_Blink input ulIn) t =
     (case input of
        None \<Rightarrow> ((NETANA_INVALID_PARAMETER, None), t)
      | Some name \<Rightarrow>
          if ulIn = 0 then ((NETANA_INVALID_PARAMETER, None), t)
          else let t0 = enter_lock t in
            (case find_card name (g_tCardList t0) (tk_cards t0) of
               None \<Rightarrow> ((NETANA_DEVICE_NOT_FOUND, None), t0)
             | Some h \<Rightarrow> ((NETANA_NO_ERROR, None), upd_card h (upd_sys (netana_tkit_ToggleBit NETANA_BLINK_BIT)) t0)))"
| "netana_mngmt_exec_cmd al pid (Cmd_Dev_Scan given_in ulIn given_out ulOut) t =
     (if \<not> given_in \<or> ulIn \<noteq> SIZEOF_DEV_SCAN_IN \<or> \<not> given_out \<or> ulOut = 0 then ((NETANA_INVALID_PARAMETER, None), t)
      else ((NETANA_NO_ERROR, Some (le32 (g_ulCardCnt t))), t))"
| "netana_mngmt_exec_cmd al pid (Cmd_Get_Dev_Feature input ulIn ulOut) t =
     (case input of
        None \<Rightarrow> ((NETANA_INVALID_PARAMETER, None), t)
      | Some h \<Rightarrow>
          if ulIn \<noteq> SIZEOF_DEV_FEATURE_IN \<or> h = 0 then ((NETANA_INVALID_PARAMETER, None), t)
          else ((NETANA_NO_ERROR, Some (take (unat (if ulOut > SIZEOF_DEV_FEATURE_OUT then SIZEOF_DEV_FEATURE_OUT else ulOut))
                   (concat (map le32 (dev_features (cd_sys (tk_cards t h))))))), t))"
| "netana_mngmt_exec_cmd al pid (Cmd_Set_Dev_Class_Filter input ulIn) t =
     (case input of
        None \<Rightarrow> ((NETANA_INVALID_PARAMETER, None), t)
      | Some c \<Rightarrow>
          if ulIn \<noteq> SIZEOF_SET_DEV_CLASS_FILTER_IN \<or> invalid_class c then ((NETANA_INVALID_PARAMETER, None), t)
          else let (r, apps) = USER_SetDevClassFilter (oa_app al) pid c (tk_apps t) in ((r, None), t\<lparr>tk_apps := apps\<rparr>))"
| "netana_mngmt_exec_cmd al pid Cmd_Other t = ((NETANA_INVALID_PARAMETER, None), t)"

section \<open>Identification of a device\<close>

definition netana_set_device_ident :: "string option \<Rightarrow> sys \<Rightarrow> u32 \<times> sys" where
  "netana_set_device_ident szFileName s =
     (if IsCaptureRunning s then (NETANA_CAPTURE_ACTIVE, s)
      else
        let s1 = upd_dev (\<lambda>d. d\<lparr>tIdentInfoFile := (tIdentInfoFile d)\<lparr>if_fIdentUpdateRequest := False, if_lError := NETANA_NO_ERROR\<rparr>\<rparr>) s
        in case szFileName of
             None \<Rightarrow> (NETANA_INVALID_PARAMETER, s1)
           | Some f \<Rightarrow> (NETANA_NO_ERROR, upd_dev (\<lambda>d. d\<lparr>tIdentInfoFile := (tIdentInfoFile d)
               \<lparr>if_szIdentInfoFileName := take NETANA_MAX_FILEPATH f, if_fIdentUpdateRequest := True\<rparr>\<rparr>) s1))"

abbreviation (input) SIZEOF_DEVICE_IDENT :: u32 where "SIZEOF_DEVICE_IDENT \<equiv> 26"

definition device_ident_bytes :: "system_info_block \<Rightarrow> bytes" where
  "device_ident_bytes i = le32 0 @ le32 (si_ulDeviceNr i) @ le32 (si_ulSerialNr i) @ le16 (si_usManufacturer i) @
     le32 (si_ulLicenseFlags1 i) @ le32 (si_ulLicenseFlags2 i) @ le16 (si_usNetXLicenseID i) @ le16 (si_usNetXLicenseFlags i)"

definition netana_get_device_ident :: "u32 \<Rightarrow> bool \<Rightarrow> sys \<Rightarrow> u32 \<times> bytes option" where
  "netana_get_device_ident ulInfoSize given s =
     (if \<not> given then (NETANA_INVALID_POINTER, None)
      else if ulInfoSize > SIZEOF_DEVICE_IDENT then (NETANA_INVALID_BUFFERSIZE, None)
      else (NETANA_NO_ERROR, Some (copy_struct ulInfoSize (device_ident_bytes (tSystemInfoBlock (dpm s))) [])))"

section \<open>Descriptions of the error codes\<close>

text \<open>The column \<open>lError\<close> of the table is a \<open>long\<close> of 64 bits. The error codes are signed and of 32
  bits, so that they are sign extended; those of a capture are unsigned literals, which are
  not.\<close>

abbreviation (input) NETANA_CAPTURE_ERROR_STOP_TRIGGER :: u32 where "NETANA_CAPTURE_ERROR_STOP_TRIGGER \<equiv> 0"
abbreviation (input) NETANA_CAPTURE_ERROR_NO_DMACHANNEL :: u32 where "NETANA_CAPTURE_ERROR_NO_DMACHANNEL \<equiv> 0xC0660004"
abbreviation (input) NETANA_CAPTURE_ERROR_URX_OVERFLOW :: u32 where "NETANA_CAPTURE_ERROR_URX_OVERFLOW \<equiv> 0xC0660005"
abbreviation (input) NETANA_CAPTURE_ERROR_NO_HOSTBUFFER :: u32 where "NETANA_CAPTURE_ERROR_NO_HOSTBUFFER \<equiv> 0xC066000B"
abbreviation (input) NETANA_CAPTURE_ERROR_NO_INTRAMBUFFER :: u32 where "NETANA_CAPTURE_ERROR_NO_INTRAMBUFFER \<equiv> 0xC066000C"
abbreviation (input) NETANA_CAPTURE_ERROR_STATUS_FIFO_FULL :: u32 where "NETANA_CAPTURE_ERROR_STATUS_FIFO_FULL \<equiv> 0xC066000D"

definition s_atErrorToDescrTable :: "(u64 \<times> string) list" where
  "s_atErrorToDescrTable =
    [(scast (NETANA_TKIT_INITIALIZATION_FAILED :: u32), ''Toolkit initialization failed''),
     (scast (NETANA_DMABUFFER_CREATION_FAILED :: u32), ''Creation of DMA buffers failed''),
     (scast (NETANA_DEVICE_STILL_OPEN :: u32), ''Device is still in use by another application''),
     (scast (NETANA_HWRESET_ERROR :: u32), ''Error during hardware reset of device''),
     (scast (NETANA_MEMORY_MAPPING_FAILED :: u32), ''Failed to map memory''),
     (scast (NETANA_CHIP_NOT_SUPPORTED :: u32), ''Chip type is not supported by toolkit''),
     (scast (NETANA_DOWNLOAD_FAILED :: u32), ''Download of Bootloader / Firmware failed''),
     (scast (NETANA_INVALID_PARAMETER :: u32), ''Invalid parameter''),
     (scast (NETANA_DEVICE_NOT_FOUND :: u32), ''Device with the given name does not exist''),
     (scast (NETANA_DEVICE_NOT_OPEN :: u32), ''Device is not open''),
     (scast (NETANA_FUNCTION_FAILED :: u32), ''Function failed (Generic Error)''),
     (scast (NETANA_INVALID_PORT :: u32), ''Invalid port number''),
     (scast (NETANA_INVALID_POINTER :: u32), ''Invalid pointer''),
     (scast (NETANA_INVALID_HANDLE :: u32), ''Invalid handle''),
     (scast (NETANA_NO_WORKING_DIRECTORY :: u32), ''No working directory''),
     (scast (NETANA_NO_ENTRY_FOUND :: u32), ''No entry found''),
     (scast (NETANA_FUNCTION_NOT_AVAILABLE :: u32), ''Function not available''),
     (scast (NETANA_INVALID_BUFFERSIZE :: u32), ''Size of given buffer is invalid''),
     (scast (NETANA_FILE_OPEN_ERROR :: u32), ''Error opening file''),
     (scast (NETANA_FILE_READ_FAILED :: u32), ''Error reading file''),
     (scast (NETANA_TRANSFER_TIMEOUT :: u32), ''Transfer timed out''),
     (scast (NETANA_CAPTURE_ACTIVE :: u32), ''Capturing is currently active''),
     (scast (NETANA_IRQEVENT_CREATION_FAILED :: u32), ''Error creating interrupt events''),
     (scast (NETANA_CONFIGURATION_ERROR :: u32), ''Capture configuration error''),
     (scast (NETANA_IRQLOCK_CREATION_FAILED :: u32), ''Error creating internal IRQ locks''),
     (scast (NETANA_FILE_CREATION_FAILED :: u32), ''Error creating file''),
     (scast (NETANA_FILE_WRITE_FAILED :: u32), ''Error writing file''),
     (scast (NETANA_IOCTL_FAILED :: u32), ''Error sending IOCTL to driver''),
     (scast (NETANA_FW_START_FAILED :: u32), ''Error starting firmware''),
     (scast (NETANA_DRIVER_NOT_RUNNING :: u32), ''netANALYZER Driver is not running''),
     (scast (NETANA_OUT_OF_MEMORY :: u32), ''Out of memory''),
     (scast (NETANA_THREAD_CREATION_FAILED :: u32), ''Creation of worker thread failed''),
     (scast (NETANA_NO_BUFFER_DATA :: u32), ''Buffer content not valid''),
     (scast (NETANA_NO_STATE_CHANGE :: u32), ''No state change''),
     (scast (NETANA_NO_PLUGIN_FOUND :: u32), ''No plugin found''),
     (scast (NETANA_FILECAPTURE_NOT_ACTIVE :: u32), ''Capturing to file is not enabled''),
     (scast (NETANA_CAPTURE_NOT_ACTIVE :: u32), ''Capturing is currently stopped''),
     (scast (NETANA_ACCESS_DENIED :: u32), ''Access denied''),
     (scast (NETANA_DEV_MAILBOX_FULL :: u32), ''Device mailbox is full''),
     (scast (NETANA_DEV_NOT_READY :: u32), ''Device not ready''),
     (scast (NETANA_DEV_MAILBOX_TOO_SHORT :: u32), ''Mailbox is too short for packet''),
     (scast (NETANA_DEV_GET_NO_PACKET :: u32), ''No packet available''),
     (scast (NETANA_BUFFER_TOO_SHORT :: u32), ''Given buffer is too short''),
     (scast (NETANA_NO_ERROR :: u32), ''''),
     (ucast (NETANA_CAPTURE_ERROR_STOP_TRIGGER :: u32), ''No error''),
     (ucast (NETANA_CAPTURE_ERROR_NO_DMACHANNEL :: u32), ''No free DMA channel available. Probably host is too slow''),
     (ucast (NETANA_CAPTURE_ERROR_URX_OVERFLOW :: u32), ''XC buffer overflow (URX overflow)''),
     (ucast (NETANA_CAPTURE_ERROR_NO_HOSTBUFFER :: u32), ''No free DMA buffer available. Host is too slow to handle data efficiently''),
     (ucast (NETANA_CAPTURE_ERROR_NO_INTRAMBUFFER :: u32), ''Internal capture buffer overflow (no free INTRAM)''),
     (ucast (NETANA_CAPTURE_ERROR_STATUS_FIFO_FULL :: u32), ''Capture FIFO overflow''),
     (ucast (NETANA_CAPTURE_ERROR_DRIVER_FILE_FULL :: u32), ''End of capture file reached''),
     (scast (NETANA_TRANSPORT_CHECKSUM_ERROR :: u32), ''Checksum incorrect''),
     (scast (NETANA_TRANSPORT_LENGTH_INCOMPLETE :: u32), ''Transport lenght is incomplete''),
     (scast (NETANA_TRANSPORT_DATA_TYPE_UNKOWN :: u32), ''Unknown datatype''),
     (scast (NETANA_TRANSPORT_DEVICE_UNKNOWN :: u32), ''Device is unknown''),
     (scast (NETANA_TRANSPORT_CHANNEL_UNKNOWN :: u32), ''Channel is unknown''),
     (scast (NETANA_TRANSPORT_SEQUENCE :: u32), ''Sequence error''),
     (scast (NETANA_TRANSPORT_BUFFEROVERFLOW :: u32), ''Bufferoverflow''),
     (scast (NETANA_TRANSPORT_KEEPALIVE :: u32), ''Keepalive error''),
     (scast (NETANA_TRANSPORT_RESOURCE :: u32), ''Resource error''),
     (scast (NETANA_TRANSPORT_ERROR_UNKNOWN :: u32), ''Unknown error''),
     (scast (NETANA_TRANSPORT_RECV_TIMEOUT :: u32), ''Receive timeout''),
     (scast (NETANA_TRANSPORT_SEND_TIMEOUT :: u32), ''Time out while sending data''),
     (scast (NETANA_TRANSPORT_CONNECT :: u32), ''Unable to communicate to the device / no answer''),
     (scast (NETANA_TRANSPORT_ABORTED :: u32), ''Transfer has been aborted due to keep alive timeout or interface detachment''),
     (scast (NETANA_TRANSPORT_INVALID_RESPONSE :: u32), ''The packet response was rejected due to invalid packet data''),
     (scast (NETANA_TRANSPORT_UNKNOWN_DATALAYER :: u32), ''The data layer provided by the device is not supported''),
     (scast (NETANA_CONNECTOR_FUNCTIONS_READ_ERROR :: u32), ''Error reading the connector functions from the DLL''),
     (scast (NETANA_CONNECTOR_IDENTIFIER_TOO_LONG :: u32), ''Connector delivers an identifier longer than 6 characters''),
     (scast (NETANA_CONNECTOR_IDENTIFIER_EMPTY :: u32), ''Connector delivers an empty dentifier''),
     (scast (NETANA_CONNECTOR_DUPLICATE_IDENTIFIER :: u32), ''Connector identifier already used''),
     (scast (NETANA_TRANSPORT_DATA_TOO_SHORT :: u32), ''Received transaction data too short''),
     (scast (NETANA_TRANSPORT_UNSUPPORTED_FUNCTION :: u32), ''Function is not supported''),
     (scast (NETANA_TRANSPORT_TIMEOUT :: u32), ''Transport timeout''),
     (scast (NETANA_CAPTURE_ERROR_ON_TARGET :: u32), ''Capture error on the target device'')]"

fun lookup_error :: "u32 \<Rightarrow> (u64 \<times> string) list \<Rightarrow> string option" where
  "lookup_error lError [] = None"
| "lookup_error lError ((c, d) # es) = (if c = scast lError then Some d else lookup_error lError es)"

text \<open>The description is copied with \<open>ulBufferSize\<close> bytes, its terminating zero and what follows it in
  memory included.\<close>

definition netana_get_error_description :: "u32 \<Rightarrow> u32 \<Rightarrow> bytes \<Rightarrow> u32 \<times> bytes option" where
  "netana_get_error_description lError ulBufferSize behind =
     (case lookup_error lError s_atErrorToDescrTable of
        Some d \<Rightarrow> (NETANA_NO_ERROR, Some (copy_struct ulBufferSize (text_bytes d @ [0]) behind))
      | None \<Rightarrow> (NETANA_FUNCTION_FAILED, None))"

section \<open>Lemmas\<close>

lemma enum_walk_nth: "enum_walk n hs = (if n < length hs then Some (hs ! n) else None)"
  by (induction n hs rule: enum_walk.induct) auto

lemma lookup_error_map: "lookup_error e es = map_of es (scast e)"
  by (induction e es rule: lookup_error.induct) auto

lemma length_le16 [simp]: "length (le16 w) = 2"
  by (simp add: le16_def)

lemma length_device_ident: "length (device_ident_bytes i) = 26"
  by (simp add: device_ident_bytes_def)

lemma di_name [simp]: "di_szDeviceName (device_information_of s) = szAliasName (dev s)"
  by (simp add: device_information_of_def extended_info_def Let_def)

text \<open>The names of the devices on the card list tell them apart.\<close>

definition names_distinct :: "toolkit \<Rightarrow> bool" where
  "names_distinct t \<longleftrightarrow> (\<forall>g \<in> set (g_tCardList t). \<forall>h \<in> set (g_tCardList t).
     strn_eq NETANA_MAX_DEVICENAMESIZE (szAliasName (card_dev (tk_cards t g))) (szAliasName (card_dev (tk_cards t h))) \<longrightarrow> g = h)"

lemma find_card_name:
  assumes "h \<in> set hs" "\<And>g. g \<in> set hs \<Longrightarrow> strn_eq NETANA_MAX_DEVICENAMESIZE name (szAliasName (card_dev (m g))) \<longleftrightarrow> g = h"
  shows "find_card name hs m = Some h"
  using assms by (induction name hs m rule: find_card.induct) auto

definition class_of_caller :: "nat \<Rightarrow> toolkit \<Rightarrow> u32" where
  "class_of_caller pid t = (let f = USER_GetDevClassFilter pid (tk_apps t) in if f = 0 then NETANA_DEV_CLASS_NANL_500 else f)"

lemma enum_branches:
  assumes "netana_enum_device al pid k n stack t = ((r, out), t')"
  shows "(if k > g_ulCardCnt t \<or> length (g_tCardList t) \<le> unat k then r = NETANA_DEVICE_NOT_FOUND \<and> out = None \<and> tk_apps t' = tk_apps t
     else let c = tk_cards t (g_tCardList t ! unat k) in
       tk_apps t' = tk_apps (snd (caller_filter al pid t)) \<and>
       (if class_selected (device_class c) (class_of_caller pid t)
        then r = NETANA_NO_ERROR \<and> out = Some (GenerateDeviceInformation n stack (cd_sys c))
        else r = NETANA_ACCESS_DENIED \<and> out = None)) \<and>
    tk_cards t' = tk_cards t \<and> g_tCardList t' = g_tCardList t"
proof -
  obtain f t1 where f: "caller_filter al pid (enter_lock t) = (f, t1)"
    by fastforce
  have t1: "tk_cards t1 = tk_cards t" "g_tCardList t1 = g_tCardList t" "f = class_of_caller pid t"
    "tk_apps t1 = tk_apps (snd (caller_filter al pid t))"
    using caller_filter_cards[of al pid "enter_lock t"] caller_filter_map[of al pid "enter_lock t"] f
    by (auto simp: class_of_caller_def caller_filter_def Let_def split: if_splits)
  show ?thesis
    using assms f t1 by (auto simp: netana_enum_device_def enum_walk_nth device_class_def Let_def split: if_splits)
qed

lemma class_of_caller_again:
  assumes "apps_ok (tk_apps t)"
  shows "class_of_caller pid (snd (caller_filter al pid t)) = class_of_caller pid t"
proof (cases "USER_GetDevClassFilter pid (tk_apps t) = 0")
  case True
  obtain r apps where set: "USER_SetDevClassFilter (oa_app al) pid NETANA_DEV_CLASS_NANL_500 (tk_apps t) = (r, apps)"
    by fastforce
  have "USER_GetDevClassFilter pid apps \<in> {0, NETANA_DEV_CLASS_NANL_500}"
    using set_filter_result[OF assms set] True by (cases "r = NETANA_NO_ERROR") (simp_all add: get_filter_map)
  then show ?thesis
    using True set by (auto simp: class_of_caller_def caller_filter_def Let_def)
qed (simp add: class_of_caller_def caller_filter_def Let_def)

lemma enum_numbers:
  assumes "toolkit_ok t" "length (g_tCardList t) < 2 ^ 32"
  shows "k > g_ulCardCnt t \<or> length (g_tCardList t) \<le> unat k \<longleftrightarrow> length (g_tCardList t) \<le> unat k"
proof -
  have "unat (g_ulCardCnt t) = length (g_tCardList t)"
    using assms by (simp add: toolkit_ok_def unsigned_of_nat take_bit_nat_eq_self)
  then show ?thesis
    by (auto simp: word_less_nat_alt)
qed

lemma open_succeeds:
  assumes "find_card name (g_tCardList t) (tk_cards t) = Some h" "ulOpenCnt (card_dev (tk_cards t h)) = 0"
    "class_selected (device_class (tk_cards t h)) (fst (caller_filter al pid t))"
  shows "fst (netana_open_device al pid (Some name) (Some old) t) = (NETANA_NO_ERROR, Some h)"
proof -
  obtain r hOut t' where o: "netana_open_device al pid (Some name) (Some old) t = ((r, hOut), t')"
    by (metis surj_pair)
  show ?thesis
    using open_branches[OF o] assms o by simp
qed

text \<open>C27: Enumeration visits every device of the card list once. \<open>netana_enum_device\<close> with the numbers below
  the number of devices describes the devices in the order of the list, those whose class the
  filter of the process does not select excepted; the first number beyond is not found. Nothing
  but the class filter of the process changes. And the name in a description opens the very device it describes:
  if the names are distinct and the device is closed, \<open>netana_open_device\<close> with it
  succeeds and returns the handle.\<close>

theorem enum_device_correct:
  assumes "netana_enum_device al pid k n stack t = ((r, out), t')" "toolkit_ok t" "length (g_tCardList t) < 2 ^ 32"
  shows "(r = NETANA_DEVICE_NOT_FOUND \<longleftrightarrow> length (g_tCardList t) \<le> unat k) \<and>
    (unat k < length (g_tCardList t) \<longrightarrow>
      (let h = g_tCardList t ! unat k; c = tk_cards t h in
       (r = NETANA_NO_ERROR \<longleftrightarrow> class_selected (device_class c) (class_of_caller pid t)) \<and>
       (r = NETANA_NO_ERROR \<longrightarrow> out = Some (GenerateDeviceInformation n stack (cd_sys c)) \<and>
          (names_distinct t \<and> ulOpenCnt (card_dev c) = 0 \<longrightarrow>
             fst (netana_open_device al pid (Some (di_szDeviceName (device_information_of (cd_sys c)))) (Some old) t') = (NETANA_NO_ERROR, Some h))) \<and>
       (r \<noteq> NETANA_NO_ERROR \<longrightarrow> r = NETANA_ACCESS_DENIED \<and> out = None))) \<and>
    tk_cards t' = tk_cards t \<and> g_tCardList t' = g_tCardList t"
proof (cases "unat k < length (g_tCardList t)")
  case True
  let ?h = "g_tCardList t ! unat k"
  let ?c = "tk_cards t ?h"
  have branch: "tk_apps t' = tk_apps (snd (caller_filter al pid t))" "tk_cards t' = tk_cards t" "g_tCardList t' = g_tCardList t"
    "if class_selected (device_class ?c) (class_of_caller pid t)
     then r = NETANA_NO_ERROR \<and> out = Some (GenerateDeviceInformation n stack (cd_sys ?c)) else r = NETANA_ACCESS_DENIED \<and> out = None"
    using enum_branches[OF assms(1)] True enum_numbers[OF assms(2,3), of k] by (auto simp: Let_def)
  have "class_of_caller pid t' = class_of_caller pid t"
    using class_of_caller_again[of t pid al] assms(2) branch(1) by (simp add: class_of_caller_def toolkit_ok_def)
  then have sel: "fst (caller_filter al pid t') = class_of_caller pid t"
    by (simp add: caller_filter_map class_of_caller_def)
  have "fst (netana_open_device al pid (Some (szAliasName (card_dev ?c))) (Some old) t') = (NETANA_NO_ERROR, Some ?h)"
    if "names_distinct t" "ulOpenCnt (card_dev ?c) = 0" "r = NETANA_NO_ERROR"
  proof -
    have "?h \<in> set (g_tCardList t)"
      using True by simp
    then have "find_card (szAliasName (card_dev ?c)) (g_tCardList t') (tk_cards t') = Some ?h"
      using that(1) unfolding branch(2,3) names_distinct_def
      by (intro find_card_name) (auto simp: strn_eq_def)
    then show ?thesis
      using that(2) sel branch open_succeeds[where t = t' and al = al and pid = pid] that(3) by (simp split: if_splits)
  qed
  then show ?thesis
    using True branch by (auto simp: Let_def card_dev_def split: if_splits)
next
  case False
  then show ?thesis
    using enum_branches[OF assms(1)] enum_numbers[OF assms(2,3), of k] by simp
qed

lemma enum_device_correct_witness:
  "\<exists>t'. netana_enum_device sample_alloc 1 0 4 [] ready_kit = ((NETANA_NO_ERROR, Some [0x6E, 0x65, 0x74, 0x41]), t')"
proof -
  obtain r out t' where e: "netana_enum_device sample_alloc 1 0 4 [] ready_kit = ((r, out), t')"
    by (metis surj_pair)
  have "length (g_tCardList ready_kit) < 2 ^ 32" "0 < length (g_tCardList ready_kit)" "g_tCardList ready_kit ! 0 = 7" "tk_cards ready_kit 7 = ready_card"
    by (simp_all add: ready_kit_def)
  moreover have "class_selected (device_class ready_card) (class_of_caller 1 ready_kit)"
    by (simp add: class_of_caller_def ready_kit_def sample_kit_def ready_card_def device_class_def sample_defs class_selected_def)
  moreover have "GenerateDeviceInformation 4 [] (cd_sys ready_card) = [0x6E, 0x65, 0x74, 0x41]"
    by (simp add: GenerateDeviceInformation_def copy_struct_def device_information_bytes_def char_array_def text_bytes_def
        ready_card_def sample_dev_def)
  ultimately show ?thesis
    using enum_device_correct[OF e ready_kit_ok] e by (simp add: Let_def)
qed

text \<open>The codes the driver and the toolkit return, and those the firmware reports for a capture.\<close>

definition toolkit_errors :: "u32 list" where
  "toolkit_errors = [NETANA_TKIT_INITIALIZATION_FAILED, NETANA_DMABUFFER_CREATION_FAILED, NETANA_DEVICE_STILL_OPEN, NETANA_HWRESET_ERROR, NETANA_MEMORY_MAPPING_FAILED, NETANA_CHIP_NOT_SUPPORTED, NETANA_DOWNLOAD_FAILED, NETANA_INVALID_PARAMETER, NETANA_DEVICE_NOT_FOUND, NETANA_DEVICE_NOT_OPEN, NETANA_FUNCTION_FAILED, NETANA_INVALID_PORT, NETANA_INVALID_POINTER, NETANA_INVALID_HANDLE, NETANA_NO_WORKING_DIRECTORY, NETANA_NO_ENTRY_FOUND, NETANA_FUNCTION_NOT_AVAILABLE, NETANA_INVALID_BUFFERSIZE, NETANA_FILE_OPEN_ERROR, NETANA_FILE_READ_FAILED, NETANA_TRANSFER_TIMEOUT, NETANA_CAPTURE_ACTIVE, NETANA_IRQEVENT_CREATION_FAILED, NETANA_CONFIGURATION_ERROR, NETANA_IRQLOCK_CREATION_FAILED, NETANA_FILE_CREATION_FAILED, NETANA_FILE_WRITE_FAILED, NETANA_IOCTL_FAILED, NETANA_FW_START_FAILED, NETANA_DRIVER_NOT_RUNNING, NETANA_OUT_OF_MEMORY, NETANA_THREAD_CREATION_FAILED, NETANA_NO_BUFFER_DATA, NETANA_NO_STATE_CHANGE, NETANA_NO_PLUGIN_FOUND, NETANA_FILECAPTURE_NOT_ACTIVE, NETANA_CAPTURE_NOT_ACTIVE, NETANA_ACCESS_DENIED, NETANA_DEV_MAILBOX_FULL, NETANA_DEV_NOT_READY, NETANA_DEV_MAILBOX_TOO_SHORT, NETANA_DEV_GET_NO_PACKET, NETANA_BUFFER_TOO_SHORT, NETANA_NO_ERROR, NETANA_TRANSPORT_CHECKSUM_ERROR, NETANA_TRANSPORT_LENGTH_INCOMPLETE, NETANA_TRANSPORT_DATA_TYPE_UNKOWN, NETANA_TRANSPORT_DEVICE_UNKNOWN, NETANA_TRANSPORT_CHANNEL_UNKNOWN, NETANA_TRANSPORT_SEQUENCE, NETANA_TRANSPORT_BUFFEROVERFLOW, NETANA_TRANSPORT_KEEPALIVE, NETANA_TRANSPORT_RESOURCE, NETANA_TRANSPORT_ERROR_UNKNOWN, NETANA_TRANSPORT_RECV_TIMEOUT, NETANA_TRANSPORT_SEND_TIMEOUT, NETANA_TRANSPORT_CONNECT, NETANA_TRANSPORT_ABORTED, NETANA_TRANSPORT_INVALID_RESPONSE, NETANA_TRANSPORT_UNKNOWN_DATALAYER, NETANA_CONNECTOR_FUNCTIONS_READ_ERROR, NETANA_CONNECTOR_IDENTIFIER_TOO_LONG, NETANA_CONNECTOR_IDENTIFIER_EMPTY, NETANA_CONNECTOR_DUPLICATE_IDENTIFIER, NETANA_TRANSPORT_DATA_TOO_SHORT, NETANA_TRANSPORT_UNSUPPORTED_FUNCTION, NETANA_TRANSPORT_TIMEOUT, NETANA_CAPTURE_ERROR_ON_TARGET]"

definition capture_errors :: "u32 list" where
  "capture_errors = [NETANA_CAPTURE_ERROR_NO_DMACHANNEL, NETANA_CAPTURE_ERROR_URX_OVERFLOW, NETANA_CAPTURE_ERROR_NO_HOSTBUFFER, NETANA_CAPTURE_ERROR_NO_INTRAMBUFFER, NETANA_CAPTURE_ERROR_STATUS_FIFO_FULL, NETANA_CAPTURE_ERROR_DRIVER_FILE_FULL]"

lemma long_inj: "(scast (a :: u32) :: u64) = scast b \<longleftrightarrow> a = b"
proof
  assume eq: "(scast a :: u64) = scast b"
  show "a = b"
  proof (rule bit_word_eqI)
    fix n assume n: "n < LENGTH(32)"
    have "bit (scast a :: u64) n \<longleftrightarrow> bit (scast b :: u64) n"
      using eq by simp
    then show "bit a n \<longleftrightarrow> bit b n"
      using n by (cases "n = 31") (simp_all add: bit_simps min_def)
  qed
qed simp

lemma long_signed: "bit (e :: u32) 31 \<Longrightarrow> (ucast (a :: u32) :: u64) \<noteq> scast e"
proof
  assume "bit e 31" "(ucast a :: u64) = scast e"
  then have "bit (ucast a :: u64) 63 \<longleftrightarrow> bit (scast e :: u64) 63"
    by simp
  then show False
    using \<open>bit e 31\<close> bit_imp_le_length[of a 63] by (auto simp: bit_simps)
qed

lemma lookup_error_iff: "lookup_error e es = None \<longleftrightarrow> scast e \<notin> fst ` set es"
  by (simp add: lookup_error_map map_of_eq_None_iff)

lemma described: "list_all (\<lambda>e. lookup_error e s_atErrorToDescrTable \<noteq> None) toolkit_errors"
  unfolding lookup_error_iff s_atErrorToDescrTable_def toolkit_errors_def
  by (simp only: list.pred_inject list.set image_insert image_empty fst_conv insert_iff simp_thms empty_iff)

lemma table_codes: "fst ` set s_atErrorToDescrTable \<subseteq> scast ` set toolkit_errors \<union> range (ucast :: u32 \<Rightarrow> u64)"
  unfolding s_atErrorToDescrTable_def toolkit_errors_def
  by (simp only: list.set image_insert image_empty fst_conv insert_subset Un_iff insert_iff rangeI simp_thms empty_subsetI)

lemma capture_codes: "list_all (\<lambda>e. bit e 31 \<and> e \<notin> set toolkit_errors) capture_errors"
  unfolding toolkit_errors_def capture_errors_def by simp

lemma undescribed: "list_all (\<lambda>e. lookup_error e s_atErrorToDescrTable = None) capture_errors"
  using capture_codes table_codes long_signed
  by (fastforce simp: lookup_error_iff list_all_iff long_inj)

section \<open>What the calls return\<close>

text \<open>Every error code of the driver and the toolkit has a description, and the capture errors the
  firmware reports do not: their table entries are never found, because they are compared with a sign extended
  code.\<close>

theorem error_descriptions:
  "list_all (\<lambda>e. fst (netana_get_error_description e n behind) = NETANA_NO_ERROR) toolkit_errors \<and>
   list_all (\<lambda>e. netana_get_error_description e n behind = (NETANA_FUNCTION_FAILED, None) \<and>
     ucast e \<in> fst ` set s_atErrorToDescrTable) capture_errors"
proof -
  have "list_all (\<lambda>e. (ucast e :: u64) \<in> fst ` set s_atErrorToDescrTable) capture_errors"
    unfolding s_atErrorToDescrTable_def capture_errors_def
    by (simp only: list.pred_inject list.set image_insert image_empty fst_conv insert_iff simp_thms)
  then show ?thesis
    using described undescribed
    by (auto simp: list_all_iff netana_get_error_description_def)
qed

text \<open>What a call may return from the stack: \<open>netana_get_device_ident\<close> never more than the structure, the others as much as the
  caller asks for.\<close>

lemma ident_bounds:
  "netana_get_device_ident n given s = (NETANA_NO_ERROR, Some b) \<Longrightarrow> length b = unat n \<and> b = take (unat n) (device_ident_bytes (tSystemInfoBlock (dpm s)))"
  by (auto simp: netana_get_device_ident_def copy_struct_def length_device_ident word_less_nat_alt not_less min_def split: if_splits)

lemma length_concat_le32 [simp]: "length (concat (map le32 ws)) = 4 * length ws"
  by (induction ws) simp_all

lemma length_features: "length (concat (map le32 (dev_features s))) = 72"
  by (simp add: dev_features_def Let_def)

text \<open>C28: The management commands. \<open>BLINK\<close> toggles the blink bit of the device with the name and nothing else; \<open>GET_DEV_FEATURE\<close> returns the features
  of the device, never more bytes than the structure has or the caller asked for; \<open>SET_DEV_CLASS_FILTER\<close> stores a valid class for the process; any
  error leaves everything as it was.\<close>

theorem mngmt_exec_cmd_correct:
  assumes "netana_mngmt_exec_cmd al pid cmd t = ((r, out), t')" "toolkit_ok t"
  shows "toolkit_ok t' \<and> (r \<noteq> NETANA_NO_ERROR \<longrightarrow> t' = t \<and> out = None) \<and>
    (r = NETANA_NO_ERROR \<longrightarrow>
      (case cmd of
         Cmd_Blink input n \<Rightarrow> \<exists>name h. input = Some name \<and> find_card name (g_tCardList t) (tk_cards t) = Some h \<and>
           t' = upd_card h (upd_sys (netana_tkit_ToggleBit NETANA_BLINK_BIT)) t
       | Cmd_Dev_Scan _ _ _ _ \<Rightarrow> t' = t \<and> out = Some (le32 (g_ulCardCnt t))
       | Cmd_Get_Dev_Feature input _ n \<Rightarrow> t' = t \<and> (\<exists>h b. input = Some h \<and> h \<noteq> 0 \<and> out = Some b \<and> length b = min (unat n) 72 \<and>
           b = take (unat n) (concat (map le32 (dev_features (cd_sys (tk_cards t h))))))
       | Cmd_Set_Dev_Class_Filter input _ \<Rightarrow> \<exists>c. input = Some c \<and> \<not> invalid_class c \<and>
           map_of (tk_apps t') = (map_of (tk_apps t))(pid \<mapsto> c) \<and> tk_cards t' = tk_cards t
       | Cmd_Other \<Rightarrow> False))"
proof -
  have lock: "enter_lock t = t"
    using assms(2) by (simp add: enter_lock_def toolkit_ok_def)
  show ?thesis
  proof (cases cmd)
    case (Cmd_Blink input n)
    have "tk_step t (upd_card h (upd_sys (netana_tkit_ToggleBit NETANA_BLINK_BIT)) t)" for h
      by (rule tk_work) (simp add: dev_Toggle)
    then have "toolkit_ok (upd_card h (upd_sys (netana_tkit_ToggleBit NETANA_BLINK_BIT)) t)" for h
      using tk_step_ok assms(2) by blast
    then show ?thesis
      using assms lock Cmd_Blink by (auto simp: Let_def split: option.splits if_splits)
  next
    case (Cmd_Get_Dev_Feature input n m)
    have "unat (if SIZEOF_DEV_FEATURE_OUT < m then SIZEOF_DEV_FEATURE_OUT else m) = min (unat m) 72"
      by (auto simp: min_def word_less_nat_alt)
    then show ?thesis
      using assms Cmd_Get_Dev_Feature length_features by (auto simp: min_def split: option.splits if_splits)
  next
    case (Cmd_Set_Dev_Class_Filter input n)
    show ?thesis
    proof (cases "\<exists>c. input = Some c \<and> n = SIZEOF_SET_DEV_CLASS_FILTER_IN \<and> \<not> invalid_class c")
      case True
      then obtain c where c: "input = Some c" "n = SIZEOF_SET_DEV_CLASS_FILTER_IN" "\<not> invalid_class c"
        by blast
      obtain apps where set: "USER_SetDevClassFilter (oa_app al) pid c (tk_apps t) = (r, apps)" "t' = t\<lparr>tk_apps := apps\<rparr>" "out = None"
        using assms(1) Cmd_Set_Dev_Class_Filter c by (auto split: prod.splits)
      have "apps_ok (tk_apps t)"
        using assms(2) by (simp add: toolkit_ok_def)
      from set_filter_result[OF this set(1)] show ?thesis
        using set(2,3) c(1,3) assms(2) Cmd_Set_Dev_Class_Filter by (auto simp: toolkit_ok_def)
    qed (use assms Cmd_Set_Dev_Class_Filter in \<open>auto split: option.splits if_splits\<close>)
  qed (use assms in \<open>auto split: if_splits\<close>)
qed

lemma mngmt_exec_cmd_correct_witness:
  "\<exists>b t'. netana_mngmt_exec_cmd sample_alloc 1 (Cmd_Get_Dev_Feature (Some 7) 8 100) ready_kit = ((NETANA_NO_ERROR, Some b), t') \<and> length b = 72"
proof -
  obtain r out t' where e: "netana_mngmt_exec_cmd sample_alloc 1 (Cmd_Get_Dev_Feature (Some 7) 8 100) ready_kit = ((r, out), t')"
    by (metis surj_pair)
  then have "r = NETANA_NO_ERROR"
    by simp
  then show ?thesis
    using mngmt_exec_cmd_correct[OF e ready_kit_ok] e by auto
qed

end
