(* ===== verification/Kernel_Notify.thy ===== *)
theory Kernel_Notify
  imports Netana_Sample
begin

text \<open>
  How the kernel module hands a DMA buffer to the application (\<open>netana.c\<close>). The DSR thread calls
  \<open>netana_notify_data\<close> from \<open>netana_tkit_process\<close>, which publishes the buffer, counts an event
  and sleeps until \<open>netana_read\<close>, on the thread of the application, has copied the buffer. No lock protects the
  hand-off, so both routines are step functions here, one shared access per step, and their
  interleavings with the netX, which refills every buffer it owns, and with opening and
  closing the device file are runs of \<open>ho_step\<close>. The second part is the life of
  the DSR thread and \<open>stop_dsr_thread\<close>.
\<close>

section \<open>State\<close>

text \<open>\<open>struct netana_info\<close>; \<open>cur_dma_buf.data\<close> is the DMA buffer or \<open>None\<close> for \<open>NULL\<close>.\<close>

record kinfo =
  ki_notify_interrupts :: bool
  ki_captureactive :: bool
  ki_statuscallback :: bool
  ki_data_read_sig :: bool
  ki_data_event_counter :: u32
  ki_data_read_counter :: u32
  ki_status_read_sig :: bool
  ki_status_event_counter :: u32
  ki_status_read_counter :: u32
  ki_data :: "nat option"
  ki_datalen :: u32
  ki_buffervalid :: bool

text \<open>Where \<open>netana_notify_data\<close> stands, with its arguments, and where \<open>netana_read\<close> stands, with the
  size the caller wants and the number of bytes \<open>copy_to_user\<close> will fail to copy.\<close>

datatype notify_pc =
    N_Idle | N_Active nat u32 | N_Notify nat u32 | N_Data nat u32 | N_Len nat u32 | N_Valid nat u32
  | N_Count nat u32 | N_Wait nat u32 | N_Clear nat u32

datatype read_pc =
    R_Idle | R_Start nat nat | R_Compare nat nat u32 | R_Take nat nat u32 | R_Check nat nat
  | R_Copy nat nat | R_Null nat nat bytes | R_Sig nat nat bytes

datatype read_result = ENODATA | EAGAIN | Bytes bytes

text \<open>\<open>hf_presented\<close> and \<open>hf_delivered\<close> record, since the device file was opened, the content of
  every buffer for which an event was counted, and what every read got: the content at
  the time of the copy, the two sizes, and the bytes.\<close>

record handoff =
  hf_info :: kinfo
  hf_mem :: "nat \<Rightarrow> bytes"
  hf_dsr :: notify_pc
  hf_reader :: read_pc
  hf_open :: bool
  hf_presented :: "bytes list"
  hf_delivered :: "(bytes \<times> nat \<times> nat \<times> bytes) list"
  hf_results :: "read_result list"

definition upd_info :: "(kinfo \<Rightarrow> kinfo) \<Rightarrow> handoff \<Rightarrow> handoff" where
  "upd_info f s = s\<lparr>hf_info := f (hf_info s)\<rparr>"

section \<open>The routines\<close>

text \<open>\<open>netana_notify_data\<close>; a step of \<open>N_Wait\<close> without the signal is the sleeping thread.\<close>

definition notify_step :: "handoff \<Rightarrow> handoff" where
  "notify_step s = (let i = hf_info s in case hf_dsr s of
     N_Idle \<Rightarrow> s
   | N_Active b n \<Rightarrow> s\<lparr>hf_dsr := (if ki_captureactive i then N_Notify b n else N_Idle)\<rparr>
   | N_Notify b n \<Rightarrow> s\<lparr>hf_dsr := (if ki_notify_interrupts i then N_Data b n else N_Idle)\<rparr>
   | N_Data b n \<Rightarrow> (upd_info (\<lambda>i. i\<lparr>ki_data := Some b\<rparr>) s)\<lparr>hf_dsr := N_Len b n\<rparr>
   | N_Len b n \<Rightarrow> (upd_info (\<lambda>i. i\<lparr>ki_datalen := n\<rparr>) s)\<lparr>hf_dsr := N_Valid b n\<rparr>
   | N_Valid b n \<Rightarrow> (upd_info (\<lambda>i. i\<lparr>ki_buffervalid := True\<rparr>) s)\<lparr>hf_dsr := N_Count b n\<rparr>
   | N_Count b n \<Rightarrow> (upd_info (\<lambda>i. i\<lparr>ki_data_event_counter := ki_data_event_counter i + 1\<rparr>) s)
       \<lparr>hf_dsr := N_Wait b n, hf_presented := hf_presented s @ [take (unat n) (hf_mem s b)]\<rparr>
   | N_Wait b n \<Rightarrow> if ki_data_read_sig i then s\<lparr>hf_dsr := N_Clear b n\<rparr> else s
   | N_Clear b n \<Rightarrow> (upd_info (\<lambda>i. i\<lparr>ki_data_read_sig := False\<rparr>) s)\<lparr>hf_dsr := N_Idle\<rparr>)"

definition read_return :: "read_result \<Rightarrow> handoff \<Rightarrow> handoff" where
  "read_return r s = s\<lparr>hf_reader := R_Idle, hf_results := hf_results s @ [r]\<rparr>"

text \<open>\<open>netana_read\<close>.\<close>

definition read_step :: "handoff \<Rightarrow> handoff" where
  "read_step s = (let i = hf_info s in case hf_reader s of
     R_Idle \<Rightarrow> s
   | R_Start t u \<Rightarrow> s\<lparr>hf_reader := R_Compare t u (ki_data_event_counter i)\<rparr>
   | R_Compare t u e \<Rightarrow> if ki_data_read_counter i = e then read_return ENODATA s else s\<lparr>hf_reader := R_Take t u e\<rparr>
   | R_Take t u e \<Rightarrow> (upd_info (\<lambda>i. i\<lparr>ki_data_read_counter := e\<rparr>) s)\<lparr>hf_reader := R_Check t u\<rparr>
   | R_Check t u \<Rightarrow> if ki_data i = None \<or> \<not> ki_buffervalid i then read_return EAGAIN s else s\<lparr>hf_reader := R_Copy t u\<rparr>
   | R_Copy t u \<Rightarrow>
       (let c = take (unat (ki_datalen i)) (hf_mem s (the (ki_data i)));
            tsize = min t (unat (ki_datalen i)); r = take (tsize - u) c
        in s\<lparr>hf_reader := R_Null t u r, hf_delivered := hf_delivered s @ [(c, t, u, r)]\<rparr>)
   | R_Null t u r \<Rightarrow> (upd_info (\<lambda>i. i\<lparr>ki_data := None\<rparr>) s)\<lparr>hf_reader := R_Sig t u r\<rparr>
   | R_Sig t u r \<Rightarrow> read_return (Bytes r) (upd_info (\<lambda>i. i\<lparr>ki_data_read_sig := True\<rparr>) s))"

definition netana_reset_event_counter :: "kinfo \<Rightarrow> kinfo" where
  "netana_reset_event_counter i = i\<lparr>ki_data_read_sig := False, ki_data_read_counter := 0, ki_status_read_sig := False,
     ki_status_read_counter := 0, ki_data_event_counter := 0, ki_status_event_counter := 0\<rparr>"

text \<open>What \<open>netana_open\<close> and \<open>netana_release\<close> do to the hand-off.\<close>

definition open_file :: "handoff \<Rightarrow> handoff" where
  "open_file s = (upd_info (\<lambda>i. netana_reset_event_counter (i\<lparr>ki_notify_interrupts := True\<rparr>)) s)
     \<lparr>hf_open := True, hf_presented := [], hf_delivered := [], hf_results := []\<rparr>"

definition release_file :: "handoff \<Rightarrow> handoff" where
  "release_file s = (upd_info (\<lambda>i. i\<lparr>ki_notify_interrupts := False, ki_captureactive := False, ki_data_read_sig := True,
     ki_statuscallback := False, ki_status_read_sig := True\<rparr>) s)\<lparr>hf_open := False\<rparr>"

datatype poll_event = POLLPRI | POLLIN | POLLRDNORM

definition netana_poll :: "kinfo \<Rightarrow> poll_event set" where
  "netana_poll i = (if ki_data_read_counter i \<noteq> ki_data_event_counter i then {POLLPRI, POLLIN} else {}) \<union>
     (if ki_status_read_counter i \<noteq> ki_status_event_counter i then {POLLRDNORM, POLLIN} else {})"

fun dsr_buffer :: "notify_pc \<Rightarrow> nat option" where
  "dsr_buffer N_Idle = None"
| "dsr_buffer (N_Active b n) = Some b"
| "dsr_buffer (N_Notify b n) = Some b"
| "dsr_buffer (N_Data b n) = Some b"
| "dsr_buffer (N_Len b n) = Some b"
| "dsr_buffer (N_Valid b n) = Some b"
| "dsr_buffer (N_Count b n) = Some b"
| "dsr_buffer (N_Wait b n) = Some b"
| "dsr_buffer (N_Clear b n) = Some b"

text \<open>The steps of the system. A buffer belongs to the DSR from the call of the notification until it
  returns; the netX may write any other.\<close>

inductive ho_step :: "handoff \<Rightarrow> handoff \<Rightarrow> bool" where
  ho_notify: "hf_dsr s = N_Idle \<Longrightarrow> unat n \<le> length (hf_mem s b) \<Longrightarrow> ho_step s (s\<lparr>hf_dsr := N_Active b n\<rparr>)"
| ho_dsr: "ho_step s (notify_step s)"
| ho_call_read: "hf_open s \<Longrightarrow> hf_reader s = R_Idle \<Longrightarrow> ho_step s (s\<lparr>hf_reader := R_Start t u\<rparr>)"
| ho_read: "ho_step s (read_step s)"
| ho_netx: "dsr_buffer (hf_dsr s) \<noteq> Some b \<Longrightarrow> ho_step s (s\<lparr>hf_mem := (hf_mem s)(b := c)\<rparr>)"
| ho_capture: "ho_step s (upd_info (\<lambda>i. i\<lparr>ki_captureactive := a, ki_statuscallback := c\<rparr>) s)"
| ho_open: "\<not> hf_open s \<Longrightarrow> ho_step s (open_file s)"
| ho_release: "hf_open s \<Longrightarrow> hf_reader s = R_Idle \<Longrightarrow> ho_step s (release_file s)"

section \<open>The invariant of the hand-off\<close>

text \<open>The buffer an event was counted for and which is not copied yet: the DSR sleeps on it.\<close>

definition waiting :: "handoff \<Rightarrow> bytes \<Rightarrow> bool" where
  "waiting s c \<longleftrightarrow> (\<exists>b n. hf_dsr s = N_Wait b n \<and> ki_data (hf_info s) = Some b \<and> ki_datalen (hf_info s) = n \<and>
     ki_buffervalid (hf_info s) \<and> \<not> ki_data_read_sig (hf_info s) \<and> unat n \<le> length (hf_mem s b) \<and> c = take (unat n) (hf_mem s b))"

definition all_read :: "handoff \<Rightarrow> bool" where
  "all_read s \<longleftrightarrow> hf_presented s = map fst (hf_delivered s)"

definition one_unread :: "handoff \<Rightarrow> bool" where
  "one_unread s \<longleftrightarrow> (\<exists>c. waiting s c \<and> hf_presented s = map fst (hf_delivered s) @ [c])"

definition same_count :: "handoff \<Rightarrow> bool" where
  "same_count s \<longleftrightarrow> ki_data_event_counter (hf_info s) = ki_data_read_counter (hf_info s)"

definition sleeps :: "handoff \<Rightarrow> bool" where
  "sleeps s \<longleftrightarrow> (\<exists>b n. hf_dsr s = N_Wait b n) \<and> \<not> ki_data_read_sig (hf_info s)"

fun reader_inv :: "read_pc \<Rightarrow> handoff \<Rightarrow> bool" where
  "reader_inv R_Idle s \<longleftrightarrow> (if same_count s then all_read s else one_unread s)"
| "reader_inv (R_Start t u) s \<longleftrightarrow> (if same_count s then all_read s else one_unread s)"
| "reader_inv (R_Compare t u e) s \<longleftrightarrow> (if same_count s then all_read s else one_unread s) \<and>
     (e = ki_data_read_counter (hf_info s) \<or> e = ki_data_event_counter (hf_info s))"
| "reader_inv (R_Take t u e) s \<longleftrightarrow> \<not> same_count s \<and> one_unread s \<and> e = ki_data_event_counter (hf_info s)"
| "reader_inv (R_Check t u) s \<longleftrightarrow> same_count s \<and> one_unread s"
| "reader_inv (R_Copy t u) s \<longleftrightarrow> same_count s \<and> one_unread s"
| "reader_inv (R_Null t u r) s \<longleftrightarrow> same_count s \<and> all_read s \<and> sleeps s"
| "reader_inv (R_Sig t u r) s \<longleftrightarrow> same_count s \<and> all_read s \<and> sleeps s"

fun dsr_inv :: "notify_pc \<Rightarrow> kinfo \<Rightarrow> bool" where
  "dsr_inv (N_Len b n) i \<longleftrightarrow> ki_data i = Some b"
| "dsr_inv (N_Valid b n) i \<longleftrightarrow> ki_data i = Some b \<and> ki_datalen i = n"
| "dsr_inv (N_Count b n) i \<longleftrightarrow> ki_data i = Some b \<and> ki_datalen i = n \<and> ki_buffervalid i"
| "dsr_inv _ i \<longleftrightarrow> True"

definition delivered_ok :: "bytes \<times> nat \<times> nat \<times> bytes \<Rightarrow> bool" where
  "delivered_ok = (\<lambda>(c, t, u, r). r = take (min t (length c) - u) c)"

fun dsr_fits :: "notify_pc \<Rightarrow> (nat \<Rightarrow> bytes) \<Rightarrow> bool" where
  "dsr_fits N_Idle m \<longleftrightarrow> True"
| "dsr_fits (N_Active b n) m \<longleftrightarrow> unat n \<le> length (m b)"
| "dsr_fits (N_Notify b n) m \<longleftrightarrow> unat n \<le> length (m b)"
| "dsr_fits (N_Data b n) m \<longleftrightarrow> unat n \<le> length (m b)"
| "dsr_fits (N_Len b n) m \<longleftrightarrow> unat n \<le> length (m b)"
| "dsr_fits (N_Valid b n) m \<longleftrightarrow> unat n \<le> length (m b)"
| "dsr_fits (N_Count b n) m \<longleftrightarrow> unat n \<le> length (m b)"
| "dsr_fits (N_Wait b n) m \<longleftrightarrow> unat n \<le> length (m b)"
| "dsr_fits (N_Clear b n) m \<longleftrightarrow> unat n \<le> length (m b)"

fun signal_expected :: "notify_pc \<Rightarrow> bool" where
  "signal_expected (N_Wait b n) \<longleftrightarrow> True"
| "signal_expected (N_Clear b n) \<longleftrightarrow> True"
| "signal_expected _ \<longleftrightarrow> False"

definition ho_inv :: "handoff \<Rightarrow> bool" where
  "ho_inv s \<longleftrightarrow> dsr_inv (hf_dsr s) (hf_info s) \<and> dsr_fits (hf_dsr s) (hf_mem s) \<and>
     (if hf_open s
      then reader_inv (hf_reader s) s \<and> list_all delivered_ok (hf_delivered s) \<and> EAGAIN \<notin> set (hf_results s) \<and>
        (ki_data_read_sig (hf_info s) \<longrightarrow> signal_expected (hf_dsr s))
      else hf_reader s = R_Idle)"

lemmas ho_defs = ho_inv_def upd_info_def waiting_def all_read_def one_unread_def same_count_def sleeps_def read_return_def

lemma notify_step_inv: "ho_inv s \<Longrightarrow> ho_inv (notify_step s)"
  by (cases "hf_dsr s"; cases "hf_reader s") (auto simp: notify_step_def ho_defs Let_def split: if_splits)

lemma read_step_inv: "ho_inv s \<Longrightarrow> ho_inv (read_step s)"
  by (cases "hf_reader s") (auto simp: read_step_def ho_defs Let_def delivered_ok_def min_def split: if_splits)

lemma netx_inv: "ho_inv s \<Longrightarrow> dsr_buffer (hf_dsr s) \<noteq> Some b \<Longrightarrow> ho_inv (s\<lparr>hf_mem := (hf_mem s)(b := c)\<rparr>)"
  by (cases "hf_dsr s"; cases "hf_reader s") (auto simp: ho_defs split: if_splits)

lemma ho_step_inv: "ho_step s s' \<Longrightarrow> ho_inv s \<Longrightarrow> ho_inv s'"
proof (induction rule: ho_step.induct)
  case (ho_notify s n b)
  then show ?case
    by (cases "hf_reader s") (auto simp: ho_defs split: if_splits)
next
  case (ho_capture s a c)
  then show ?case
    by (cases "hf_dsr s"; cases "hf_reader s") (auto simp: ho_defs split: if_splits)
next
  case (ho_open s)
  then show ?case
    by (cases "hf_dsr s") (auto simp: ho_defs open_file_def netana_reset_event_counter_def)
next
  case (ho_release s)
  then show ?case
    by (cases "hf_dsr s") (auto simp: ho_defs release_file_def)
next
  case (ho_call_read s t u)
  then show ?case
    by (auto simp: ho_defs split: if_splits)
qed (auto intro: notify_step_inv read_step_inv netx_inv)

lemma ho_run_inv: "ho_step\<^sup>*\<^sup>* s s' \<Longrightarrow> ho_inv s \<Longrightarrow> ho_inv s'"
  by (induction rule: rtranclp_induct) (auto intro: ho_step_inv)

lemma poll_data [simp]: "POLLPRI \<in> netana_poll (hf_info s) \<longleftrightarrow> \<not> same_count s"
  by (auto simp: netana_poll_def same_count_def)

lemma reader_inv_cases: "reader_inv pc s \<Longrightarrow> all_read s \<or> one_unread s"
  by (cases pc) (auto split: if_splits)

section \<open>Buffers reach the application\<close>

text \<open>The device as the module creates it.\<close>

definition fresh_handoff :: "handoff \<Rightarrow> bool" where
  "fresh_handoff s \<longleftrightarrow> \<not> hf_open s \<and> hf_reader s = R_Idle \<and> hf_dsr s = N_Idle"

lemma fresh_inv: "fresh_handoff s \<Longrightarrow> ho_inv s"
  by (simp add: fresh_handoff_def ho_inv_def)

text \<open>C37: The hand-off of DMA buffers is safe under every interleaving of the DSR thread, the
  reading application, the netX and opening and closing. Since the device was opened, the
  application has been given the buffers in the order the DSR presented them, each once and none left out, but for at most
  one, on which the DSR still sleeps, unchanged since it was presented; every read
  returned bytes of the buffer as presented, as many as asked for and copied; no read finds the
  pointer cleared; and between two reads \<open>POLLPRI\<close> is reported exactly if there is a buffer to read.\<close>

theorem handoff_in_order:
  assumes "ho_step\<^sup>*\<^sup>* s0 s" "fresh_handoff s0" "hf_open s"
  shows "(\<exists>u. hf_presented s = map fst (hf_delivered s) @ u \<and> length u \<le> 1 \<and> list_all (waiting s) u) \<and>
    list_all delivered_ok (hf_delivered s) \<and> EAGAIN \<notin> set (hf_results s) \<and>
    (hf_reader s = R_Idle \<longrightarrow>
      (POLLPRI \<in> netana_poll (hf_info s) \<longleftrightarrow> length (hf_presented s) = Suc (length (hf_delivered s))))"
proof -
  have inv: "reader_inv (hf_reader s) s" "list_all delivered_ok (hf_delivered s)" "EAGAIN \<notin> set (hf_results s)"
    using ho_run_inv[OF assms(1) fresh_inv[OF assms(2)]] assms(3) by (simp_all add: ho_inv_def)
  have "\<exists>u. hf_presented s = map fst (hf_delivered s) @ u \<and> length u \<le> 1 \<and> list_all (waiting s) u"
    using reader_inv_cases[OF inv(1)]
  proof
    assume "all_read s"
    then show ?thesis
      by (intro exI[of _ "[]"]) (simp add: all_read_def)
  next
    assume "one_unread s"
    then obtain c where "waiting s c" "hf_presented s = map fst (hf_delivered s) @ [c]"
      by (auto simp: one_unread_def)
    then show ?thesis
      by (intro exI[of _ "[c]"]) simp
  qed
  moreover have "hf_reader s = R_Idle \<longrightarrow>
      (POLLPRI \<in> netana_poll (hf_info s) \<longleftrightarrow> length (hf_presented s) = Suc (length (hf_delivered s)))"
    using inv(1) by (auto simp: all_read_def one_unread_def split: if_splits)
  ultimately show ?thesis
    using inv(2,3) by blast
qed

text \<open>The whole of a successful read, step by step.\<close>

definition read_run :: "nat \<Rightarrow> bytes \<Rightarrow> handoff \<Rightarrow> handoff" where
  "read_run t c s = s\<lparr>hf_info := (hf_info s)\<lparr>ki_data_read_counter := ki_data_event_counter (hf_info s), ki_data := None, ki_data_read_sig := True\<rparr>,
     hf_reader := R_Idle, hf_delivered := hf_delivered s @ [(c, t, 0, c)], hf_results := hf_results s @ [Bytes c]\<rparr>"

lemma read_run:
  assumes "\<not> same_count s" "ki_data (hf_info s) = Some b" "ki_buffervalid (hf_info s)"
    "unat (ki_datalen (hf_info s)) \<le> t"
  shows "(read_step ^^ 7) (s\<lparr>hf_reader := R_Start t 0\<rparr>) = read_run t (take (unat (ki_datalen (hf_info s))) (hf_mem s b)) s"
proof -
  let ?i = "hf_info s" and ?c = "take (unat (ki_datalen (hf_info s))) (hf_mem s b)"
  let ?e = "ki_data_event_counter ?i"
  have ne: "ki_data_read_counter ?i \<noteq> ?e"
    using assms(1) by (simp add: same_count_def)
  have 1: "read_step (s\<lparr>hf_reader := R_Start t 0\<rparr>) = s\<lparr>hf_reader := R_Compare t 0 ?e\<rparr>"
    by (simp add: read_step_def)
  have 2: "read_step (s\<lparr>hf_reader := R_Compare t 0 ?e\<rparr>) = s\<lparr>hf_reader := R_Take t 0 ?e\<rparr>"
    using ne by (simp add: read_step_def)
  have 3: "read_step (s\<lparr>hf_reader := R_Take t 0 ?e\<rparr>) = s\<lparr>hf_info := ?i\<lparr>ki_data_read_counter := ?e\<rparr>, hf_reader := R_Check t 0\<rparr>"
    by (simp add: read_step_def upd_info_def)
  have 4: "read_step (s\<lparr>hf_info := ?i\<lparr>ki_data_read_counter := ?e\<rparr>, hf_reader := R_Check t 0\<rparr>) =
      s\<lparr>hf_info := ?i\<lparr>ki_data_read_counter := ?e\<rparr>, hf_reader := R_Copy t 0\<rparr>"
    using assms by (simp add: read_step_def)
  have 5: "read_step (s\<lparr>hf_info := ?i\<lparr>ki_data_read_counter := ?e\<rparr>, hf_reader := R_Copy t 0\<rparr>) =
      s\<lparr>hf_info := ?i\<lparr>ki_data_read_counter := ?e\<rparr>, hf_reader := R_Null t 0 ?c, hf_delivered := hf_delivered s @ [(?c, t, 0, ?c)]\<rparr>"
    using assms by (simp add: read_step_def Let_def min_absorb2)
  have 6: "read_step (s\<lparr>hf_info := ?i\<lparr>ki_data_read_counter := ?e\<rparr>, hf_reader := R_Null t 0 ?c, hf_delivered := hf_delivered s @ [(?c, t, 0, ?c)]\<rparr>) =
      s\<lparr>hf_info := ?i\<lparr>ki_data_read_counter := ?e, ki_data := None\<rparr>, hf_reader := R_Sig t 0 ?c, hf_delivered := hf_delivered s @ [(?c, t, 0, ?c)]\<rparr>"
    by (simp add: read_step_def upd_info_def)
  have 7: "read_step (s\<lparr>hf_info := ?i\<lparr>ki_data_read_counter := ?e, ki_data := None\<rparr>, hf_reader := R_Sig t 0 ?c, hf_delivered := hf_delivered s @ [(?c, t, 0, ?c)]\<rparr>) = read_run t ?c s"
    by (simp add: read_step_def read_return_def upd_info_def read_run_def)
  have "(read_step ^^ 7) x = read_step (read_step (read_step (read_step (read_step (read_step (read_step x))))))" for x
    by (simp add: eval_nat_numeral)
  then show ?thesis
    by (simp only: 1 2 3 4 5 6 7)
qed

text \<open>C38: The hand-off goes on: when \<open>POLLPRI\<close> is reported, a read with a buffer large enough returns
  the whole content in seven steps of the application alone, and two more steps of the DSR bring it out of
  \<open>netana_notify_data\<close>; closing the file lets a sleeping DSR out as well.\<close>

theorem read_releases_dsr:
  assumes "ho_step\<^sup>*\<^sup>* s0 s" "fresh_handoff s0" "hf_open s" "hf_reader s = R_Idle" "POLLPRI \<in> netana_poll (hf_info s)"
  shows "\<exists>c. waiting s c \<and>
    (unat (ki_datalen (hf_info s)) \<le> t \<longrightarrow>
      (let s' = (read_step ^^ 7) (s\<lparr>hf_reader := R_Start t 0\<rparr>) in
       hf_reader s' = R_Idle \<and> hf_results s' = hf_results s @ [Bytes c] \<and> hf_dsr ((notify_step ^^ 2) s') = N_Idle)) \<and>
    hf_dsr ((notify_step ^^ 2) (release_file s)) = N_Idle"
proof -
  have "reader_inv R_Idle s"
    using ho_run_inv[OF assms(1) fresh_inv[OF assms(2)]] assms(3,4) by (simp add: ho_inv_def)
  then obtain c where c: "waiting s c" and new: "\<not> same_count s"
    using assms(5) by (auto simp: one_unread_def)
  then obtain b n where w: "hf_dsr s = N_Wait b n" "ki_data (hf_info s) = Some b" "ki_datalen (hf_info s) = n"
    "ki_buffervalid (hf_info s)" "c = take (unat n) (hf_mem s b)" "unat n \<le> length (hf_mem s b)"
    by (auto simp: waiting_def)
  have "hf_dsr ((notify_step ^^ 2) (release_file s)) = N_Idle"
    by (simp add: numeral_2_eq_2 notify_step_def release_file_def upd_info_def w)
  moreover have "hf_reader s' = R_Idle \<and> hf_results s' = hf_results s @ [Bytes c] \<and> hf_dsr ((notify_step ^^ 2) s') = N_Idle"
    if s': "s' = (read_step ^^ 7) (s\<lparr>hf_reader := R_Start t 0\<rparr>)" and t: "unat n \<le> t" for s'
  proof -
    have "s' = read_run t c s"
      using read_run[OF new w(2) w(4), of t] t w unfolding s' by simp
    then show ?thesis
      by (simp add: read_run_def numeral_2_eq_2 notify_step_def w upd_info_def)
  qed
  ultimately show ?thesis
    using c w(3) by (intro exI[of _ c]) (simp add: Let_def)
qed

text \<open>A device whose DSR has just presented a buffer of four bytes.\<close>

definition sample_handoff :: handoff where
  "sample_handoff = \<lparr>hf_info = \<lparr>ki_notify_interrupts = False, ki_captureactive = False, ki_statuscallback = False,
       ki_data_read_sig = True, ki_data_event_counter = 9, ki_data_read_counter = 9, ki_status_read_sig = True,
       ki_status_event_counter = 2, ki_status_read_counter = 1, ki_data = None, ki_datalen = 0, ki_buffervalid = False\<rparr>,
     hf_mem = (\<lambda>_. [1, 2, 3, 4, 5, 6, 7, 8]), hf_dsr = N_Idle, hf_reader = R_Idle, hf_open = False,
     hf_presented = [], hf_delivered = [], hf_results = []\<rparr>"

definition sample_presented :: handoff where
  "sample_presented = (notify_step ^^ 6) ((upd_info (\<lambda>i. i\<lparr>ki_captureactive := True, ki_statuscallback := False\<rparr>) (open_file sample_handoff))\<lparr>hf_dsr := N_Active 1 4\<rparr>)"

lemma dsr_run: "ho_step\<^sup>*\<^sup>* s ((notify_step ^^ n) s)"
  by (induction n) (auto intro: rtranclp.rtrancl_into_rtrancl ho_dsr)

lemma sample_handoff_run: "ho_step\<^sup>*\<^sup>* sample_handoff sample_presented"
proof -
  let ?s1 = "open_file sample_handoff"
  let ?s2 = "upd_info (\<lambda>i. i\<lparr>ki_captureactive := True, ki_statuscallback := False\<rparr>) ?s1"
  have "ho_step sample_handoff ?s1"
    by (rule ho_open) (simp add: sample_handoff_def)
  moreover have "ho_step ?s1 ?s2"
    by (rule ho_capture)
  moreover have "ho_step ?s2 (?s2\<lparr>hf_dsr := N_Active 1 4\<rparr>)"
    by (rule ho_notify) (simp_all add: upd_info_def open_file_def sample_handoff_def)
  ultimately show ?thesis
    using dsr_run[of "?s2\<lparr>hf_dsr := N_Active 1 4\<rparr>" 6] unfolding sample_presented_def
    by (meson rtranclp.rtrancl_into_rtrancl rtranclp.rtrancl_refl rtranclp_trans)
qed

lemma notify_run:
  assumes "hf_dsr s = N_Active b n" "ki_captureactive (hf_info s)" "ki_notify_interrupts (hf_info s)"
  shows "(notify_step ^^ 6) s = s\<lparr>hf_info := (hf_info s)\<lparr>ki_data := Some b, ki_datalen := n, ki_buffervalid := True,
       ki_data_event_counter := ki_data_event_counter (hf_info s) + 1\<rparr>,
     hf_dsr := N_Wait b n, hf_presented := hf_presented s @ [take (unat n) (hf_mem s b)]\<rparr>"
proof -
  let ?i = "hf_info s"
  have 1: "notify_step s = s\<lparr>hf_dsr := N_Notify b n\<rparr>"
    using assms by (simp add: notify_step_def)
  have 2: "notify_step (s\<lparr>hf_dsr := N_Notify b n\<rparr>) = s\<lparr>hf_dsr := N_Data b n\<rparr>"
    using assms by (simp add: notify_step_def)
  have 3: "notify_step (s\<lparr>hf_dsr := N_Data b n\<rparr>) = s\<lparr>hf_info := ?i\<lparr>ki_data := Some b\<rparr>, hf_dsr := N_Len b n\<rparr>"
    by (simp add: notify_step_def upd_info_def)
  have 4: "notify_step (s\<lparr>hf_info := ?i\<lparr>ki_data := Some b\<rparr>, hf_dsr := N_Len b n\<rparr>) =
      s\<lparr>hf_info := ?i\<lparr>ki_data := Some b, ki_datalen := n\<rparr>, hf_dsr := N_Valid b n\<rparr>"
    by (simp add: notify_step_def upd_info_def)
  have 5: "notify_step (s\<lparr>hf_info := ?i\<lparr>ki_data := Some b, ki_datalen := n\<rparr>, hf_dsr := N_Valid b n\<rparr>) =
      s\<lparr>hf_info := ?i\<lparr>ki_data := Some b, ki_datalen := n, ki_buffervalid := True\<rparr>, hf_dsr := N_Count b n\<rparr>"
    by (simp add: notify_step_def upd_info_def)
  have "(notify_step ^^ 6) x = notify_step (notify_step (notify_step (notify_step (notify_step (notify_step x)))))" for x
    by (simp add: eval_nat_numeral)
  then have "(notify_step ^^ 6) s = notify_step (s\<lparr>hf_info := ?i\<lparr>ki_data := Some b, ki_datalen := n, ki_buffervalid := True\<rparr>, hf_dsr := N_Count b n\<rparr>)"
    by (simp only: 1 2 3 4 5)
  then show ?thesis
    by (simp add: notify_step_def upd_info_def)
qed

lemma sample_handoff_state:
  "fresh_handoff sample_handoff" "hf_open sample_presented" "hf_reader sample_presented = R_Idle"
  "POLLPRI \<in> netana_poll (hf_info sample_presented)" "hf_delivered sample_presented = []"
  "ki_datalen (hf_info sample_presented) = 4"
proof -
  have p: "sample_presented = (let s = (upd_info (\<lambda>i. i\<lparr>ki_captureactive := True, ki_statuscallback := False\<rparr>) (open_file sample_handoff))\<lparr>hf_dsr := N_Active 1 4\<rparr> in
      s\<lparr>hf_info := (hf_info s)\<lparr>ki_data := Some 1, ki_datalen := 4, ki_buffervalid := True,
       ki_data_event_counter := ki_data_event_counter (hf_info s) + 1\<rparr>,
     hf_dsr := N_Wait 1 4, hf_presented := hf_presented s @ [take (unat (4 :: u32)) (hf_mem s 1)]\<rparr>)"
    unfolding sample_presented_def Let_def
    by (rule notify_run) (simp_all add: sample_handoff_def open_file_def netana_reset_event_counter_def upd_info_def)
  note p = p[unfolded Let_def sample_handoff_def open_file_def netana_reset_event_counter_def upd_info_def]
  show "fresh_handoff sample_handoff"
    by (simp add: fresh_handoff_def sample_handoff_def)
  show "hf_open sample_presented" "hf_reader sample_presented = R_Idle" "POLLPRI \<in> netana_poll (hf_info sample_presented)"
    "hf_delivered sample_presented = []" "ki_datalen (hf_info sample_presented) = 4"
    by (simp_all add: netana_poll_def p)
qed

lemma handoff_in_order_witness:
  "length (hf_presented sample_presented) = 1 \<and> (\<exists>c. hf_presented sample_presented = [c] \<and> waiting sample_presented c)"
proof -
  have "length (hf_presented sample_presented) = Suc 0"
    using handoff_in_order[OF sample_handoff_run sample_handoff_state(1,2)] sample_handoff_state by simp
  then obtain c where "hf_presented sample_presented = [c]"
    by (cases "hf_presented sample_presented") auto
  then show ?thesis
    using handoff_in_order[OF sample_handoff_run sample_handoff_state(1,2)] sample_handoff_state(5) by auto
qed

lemma read_releases_dsr_witness:
  "\<exists>c. waiting sample_presented c \<and>
     hf_results ((read_step ^^ 7) (sample_presented\<lparr>hf_reader := R_Start 4 0\<rparr>)) = hf_results sample_presented @ [Bytes c]"
  using read_releases_dsr[OF sample_handoff_run sample_handoff_state(1-4), of 4] sample_handoff_state(6)
  by (auto simp: Let_def)

section \<open>The DSR thread and its end\<close>

text \<open>\<open>netana_dsrhandler\<close> and \<open>stop_dsr_thread\<close>, which runs after the interrupt was freed. \<open>kthread_stop\<close> marks the thread,
  wakes it and waits for its end; woken up, \<open>wait_event_interruptible\<close> tests its condition again and
  nothing else.\<close>

datatype thread_pc = T_Wait | T_Clear | T_Check | T_Work | T_Exit

datatype stop_pc = S_Start | S_Signal | S_Kthread_Stop | S_Join | S_Done

record dsr_thread =
  dt_dsr_sig :: bool
  dt_should_stop :: bool
  dt_pc :: thread_pc
  dt_stop :: stop_pc

definition thread_step :: "dsr_thread \<Rightarrow> dsr_thread" where
  "thread_step d = (case dt_pc d of
     T_Wait \<Rightarrow> if dt_dsr_sig d then d\<lparr>dt_pc := T_Clear\<rparr> else d
   | T_Clear \<Rightarrow> d\<lparr>dt_dsr_sig := False, dt_pc := T_Check\<rparr>
   | T_Check \<Rightarrow> d\<lparr>dt_pc := (if dt_should_stop d then T_Exit else T_Work)\<rparr>
   | T_Work \<Rightarrow> d\<lparr>dt_pc := T_Wait\<rparr>
   | T_Exit \<Rightarrow> d)"

definition stop_step :: "dsr_thread \<Rightarrow> dsr_thread" where
  "stop_step d = (case dt_stop d of
     S_Start \<Rightarrow> d\<lparr>dt_stop := S_Signal\<rparr>
   | S_Signal \<Rightarrow> d\<lparr>dt_dsr_sig := True, dt_stop := S_Kthread_Stop\<rparr>
   | S_Kthread_Stop \<Rightarrow> d\<lparr>dt_should_stop := True, dt_stop := S_Join\<rparr>
   | S_Join \<Rightarrow> if dt_pc d = T_Exit then d\<lparr>dt_stop := S_Done\<rparr> else d
   | S_Done \<Rightarrow> d)"

inductive dt_step :: "dsr_thread \<Rightarrow> dsr_thread \<Rightarrow> bool" where
  dt_thread: "dt_step d (thread_step d)"
| dt_stopper: "dt_step d (stop_step d)"

inductive_cases dt_stepE: "dt_step d d'"

definition running_thread :: dsr_thread where
  "running_thread = \<lparr>dt_dsr_sig = False, dt_should_stop = False, dt_pc = T_Work, dt_stop = S_Start\<rparr>"

definition hung :: "dsr_thread \<Rightarrow> bool" where
  "hung d \<longleftrightarrow> dt_stop d = S_Join \<and> dt_pc d = T_Wait \<and> \<not> dt_dsr_sig d"

lemma hung_stays: "dt_step d d' \<Longrightarrow> hung d \<Longrightarrow> d' = d"
  by (auto simp: hung_def thread_step_def stop_step_def elim!: dt_stepE)

lemma hung_forever: "dt_step\<^sup>*\<^sup>* d d' \<Longrightarrow> hung d \<Longrightarrow> d' = d"
  by (induction rule: rtranclp_induct) (auto dest: hung_stays)

text \<open>What holds while the thread is stopped: the thread ends only when told to, and it can miss
  the signal.\<close>

definition dt_inv :: "dsr_thread \<Rightarrow> bool" where
  "dt_inv d \<longleftrightarrow> (dt_pc d = T_Exit \<longrightarrow> dt_should_stop d) \<and> (dt_should_stop d \<longleftrightarrow> dt_stop d \<in> {S_Join, S_Done}) \<and>
     (dt_stop d = S_Done \<longrightarrow> dt_pc d = T_Exit)"

lemma dt_inv_step: "dt_inv d \<Longrightarrow> dt_inv (thread_step d)" "dt_inv d \<Longrightarrow> dt_inv (stop_step d)"
proof -
  show "dt_inv d \<Longrightarrow> dt_inv (thread_step d)"
    by (cases "dt_pc d") (auto simp: dt_inv_def thread_step_def)
  show "dt_inv d \<Longrightarrow> dt_inv (stop_step d)"
    by (cases "dt_stop d") (auto simp: dt_inv_def stop_step_def)
qed

lemma dt_inv_run: "dt_step\<^sup>*\<^sup>* d d' \<Longrightarrow> dt_inv d \<Longrightarrow> dt_inv d'"
  by (induction rule: rtranclp_induct) (auto elim!: dt_stepE intro: dt_inv_step)

text \<open>The run on which the signal is lost.\<close>

definition hung_thread :: dsr_thread where
  "hung_thread = stop_step (thread_step (thread_step (thread_step (thread_step (stop_step (stop_step (thread_step running_thread)))))))"

lemma hung_thread: "hung hung_thread" "dt_step\<^sup>*\<^sup>* running_thread hung_thread"
proof -
  show "hung hung_thread"
    by (simp add: hung_def hung_thread_def running_thread_def thread_step_def stop_step_def)
  have st: "dt_step\<^sup>*\<^sup>* a b \<Longrightarrow> dt_step\<^sup>*\<^sup>* a (thread_step b)" "dt_step\<^sup>*\<^sup>* a b \<Longrightarrow> dt_step\<^sup>*\<^sup>* a (stop_step b)" for a b
    by (auto intro: rtranclp.rtrancl_into_rtrancl dt_thread dt_stopper)
  show "dt_step\<^sup>*\<^sup>* running_thread hung_thread"
    unfolding hung_thread_def by (intro st rtranclp.rtrancl_refl)
qed

text \<open>Stopping the DSR thread. \<open>stop_dsr_thread\<close> returns only after the thread has ended. But it may
  hang for ever: there is a run on which the thread takes the signal before \<open>kthread_stop\<close> has marked it, does its
  work once more and goes to sleep, and from there no step of either changes anything. The thread ends if it
  does not run between the two.\<close>

theorem stop_dsr_thread_race:
  "(dt_step\<^sup>*\<^sup>* running_thread d \<longrightarrow> dt_stop d = S_Done \<longrightarrow> dt_pc d = T_Exit) \<and>
   (\<exists>h. dt_step\<^sup>*\<^sup>* running_thread h \<and> hung h \<and> (\<forall>d'. dt_step\<^sup>*\<^sup>* h d' \<longrightarrow> d' = h)) \<and>
   (dt_pc e = T_Wait \<and> dt_stop e = S_Signal \<longrightarrow>
      dt_stop (stop_step ((thread_step ^^ 3) (stop_step (stop_step e)))) = S_Done)"
proof (intro conjI impI)
  assume "dt_step\<^sup>*\<^sup>* running_thread d" "dt_stop d = S_Done"
  then show "dt_pc d = T_Exit"
    using dt_inv_run[of running_thread d] by (simp add: dt_inv_def running_thread_def)
next
  show "\<exists>h. dt_step\<^sup>*\<^sup>* running_thread h \<and> hung h \<and> (\<forall>d'. dt_step\<^sup>*\<^sup>* h d' \<longrightarrow> d' = h)"
    using hung_thread hung_forever by blast
next
  assume "dt_pc e = T_Wait \<and> dt_stop e = S_Signal"
  then show "dt_stop (stop_step ((thread_step ^^ 3) (stop_step (stop_step e)))) = S_Done"
    by (simp add: eval_nat_numeral stop_step_def thread_step_def)
qed

lemma stop_dsr_thread_race_witness:
  "dt_stop (stop_step ((thread_step ^^ 3) (stop_step (stop_step (running_thread\<lparr>dt_pc := T_Wait, dt_stop := S_Signal\<rparr>))))) = S_Done"
  using stop_dsr_thread_race[of running_thread "running_thread\<lparr>dt_pc := T_Wait, dt_stop := S_Signal\<rparr>"] by simp

end
