(* ===== verification/Kernel_Sysfs.thy ===== *)
theory Kernel_Sysfs
  imports Netana_Prelude
begin

text \<open>
  The resources the kernel module holds for a device, and how its sysfs directories are created and
  removed (\<open>netana_sysfs.c\<close>, \<open>netana_create_sysfsentries\<close> of \<open>netana.c\<close>). The state is a
  ledger: the set of allocations and kernel objects the module owns and has
  to give back. Giving back, or touching, what is not in the ledger is a double free or a use after free
  and sets \<open>kr_fault\<close>. What the kernel answers at every place where it can
  refuse something is the parameter \<open>rc\<close>: 0, or the error code; a routine asks at each site at most once
  per registration. The references a kernel object holds on its parent are not in the ledger.
\<close>

section \<open>Resources\<close>

datatype sysdir = D_drvinfo | D_devstate | D_devinfo | D_ident | D_features | D_fwerror | D_timeout
  | D_capture | D_exec | D_pi | D_time | D_mbx

datatype sysgroup = G_filter | G_gpio | G_port | G_phy

datatype filterbuf = F_vala | F_maska | F_valb | F_maskb

text \<open>The directories of \<open>struct netana_info\<close> which are plain kernel objects.\<close>

datatype basedir = B_drv_info | B_dma | B_dev_info | B_hw | B_conf | B_ctl

text \<open>The first argument is the device (\<open>struct netana_info\<close>) the resource belongs to. \<open>R_att\<close>
  is the array \<open>attgroup\<close> of a group and \<open>R_entry\<close> an object it points to,
  \<open>R_kobj_type\<close> the \<open>kobj_type\<close> of \<open>device_info\<close>, \<open>R_dmainfo\<close> the array \<open>dmainfo\<close> and \<open>R_meminfo\<close> an object it points to.\<close>

datatype res =
    R_chrdev | R_class_mem | R_class
  | R_tk nat | R_minor nat | R_device nat | R_thread nat | R_listed nat
  | R_dmainfo nat | R_buf nat nat | R_meminfo nat nat | R_base nat basedir
  | R_dir nat sysdir | R_kobj_type nat | R_group nat sysgroup | R_att nat sysgroup
  | R_entry nat sysgroup nat | R_fbuf nat filterbuf
  | R_info nat | R_dpminfo nat | R_enabled nat | R_regions nat | R_mapped nat

text \<open>The places where the kernel can refuse.\<close>

datatype site =
    S_chrdev | S_class_mem | S_class | S_toolkit
  | S_tk | S_minor | S_device | S_thread | S_deviceadd
  | S_dmainfo | S_base basedir | S_buf nat | S_meminfo nat | S_dma_add nat
  | S_kobj_type | S_dir_mem sysdir | S_dir_add sysdir | S_dir_bin sysdir
  | S_group sysgroup | S_att sysgroup | S_fbuf filterbuf | S_entry_mem sysgroup nat | S_entry_add sysgroup nat
  | S_entry_bin nat nat
  | S_info | S_dpminfo | S_enable | S_regions | S_resource | S_ioremap

type_synonym answers = "site \<Rightarrow> int"

text \<open>\<open>struct netana_sysfs_groups\<close>; \<open>rg_att\<close> tells which entries of the array are
  set and \<open>rg_len\<close> its length.\<close>

record rgroup =
  rg_kobj :: bool
  rg_att :: "(nat \<Rightarrow> bool) option"
  rg_len :: nat
  rg_attcnt :: nat

datatype thread_ptr = T_NULL | T_Task | T_Err

text \<open>The pointers of \<open>struct netana_info\<close> and \<open>struct netana_tk_device\<close>, \<open>True\<close> for a pointer
  which is not \<open>NULL\<close>.\<close>

record rdev =
  ri_tkdevice :: bool
  ri_minor :: nat
  ri_dmainfo :: bool
  ri_meminfo :: "nat \<Rightarrow> bool"
  ri_hBuffer :: "nat \<Rightarrow> bool"
  ri_ulDMABufferCount :: nat
  ri_dsrthread :: thread_ptr
  ri_addsucceded :: bool
  ri_base :: "basedir \<Rightarrow> bool"
  ri_dir :: "sysdir \<Rightarrow> bool"
  ri_group :: "sysgroup \<Rightarrow> rgroup"
  ri_fbuf :: "filterbuf \<Rightarrow> bool"

text \<open>\<open>kr_class\<close> is \<open>netana_class\<close> with its reference count, \<open>kr_idr\<close> the
  table of minor numbers, \<open>kr_locks\<close> counts the global locks \<open>netana_tkit_init\<close> created. The last three
  are the DMA settings.\<close>

record kreg =
  kr_ledger :: "res set"
  kr_fault :: bool
  kr_class :: "nat option"
  kr_locks :: nat
  kr_idr :: "(nat \<times> nat) list"
  kr_info :: rdev
  kr_g_ulDMABufferCount :: nat
  kr_g_ulDMABufferSize :: u32
  kr_g_ulDMABufferTimeout :: u32

definition upd :: "(rdev \<Rightarrow> rdev) \<Rightarrow> kreg \<Rightarrow> kreg" where
  "upd f s = s\<lparr>kr_info := f (kr_info s)\<rparr>"

definition acquire :: "res \<Rightarrow> kreg \<Rightarrow> kreg" where
  "acquire r s = s\<lparr>kr_ledger := insert r (kr_ledger s)\<rparr>"

text \<open>\<open>kfree\<close>, \<open>kobject_put\<close> and the like.\<close>

definition give_back :: "res \<Rightarrow> kreg \<Rightarrow> kreg" where
  "give_back r s = (if r \<in> kr_ledger s then s\<lparr>kr_ledger := kr_ledger s - {r}\<rparr> else s\<lparr>kr_fault := True\<rparr>)"

text \<open>An access to an object.\<close>

definition touch :: "res \<Rightarrow> kreg \<Rightarrow> kreg" where
  "touch r s = (if r \<in> kr_ledger s then s else s\<lparr>kr_fault := True\<rparr>)"

definition fault :: "kreg \<Rightarrow> kreg" where
  "fault s = s\<lparr>kr_fault := True\<rparr>"

definition ENOMEM :: int where
  "ENOMEM = 12"

definition SUCCESS :: int where
  "SUCCESS = 0"

section \<open>Directories with fixed attributes\<close>

text \<open>The common body: allocate, initialise and add the object, then store the pointer.\<close>

definition create_dir :: "answers \<Rightarrow> nat \<Rightarrow> sysdir \<Rightarrow> kreg \<Rightarrow> int \<times> kreg" where
  "create_dir rc p d s =
     (if rc (S_dir_mem d) \<noteq> 0 then (- ENOMEM, s)
      else (let s = acquire (R_dir p d) s in
        if rc (S_dir_add d) \<noteq> 0 then (rc (S_dir_add d), give_back (R_dir p d) s)
        else (0, upd (\<lambda>i. i\<lparr>ri_dir := (ri_dir i)(d := True)\<rparr>) s)))"

definition nasysfs_create_drv_info :: "answers \<Rightarrow> nat \<Rightarrow> kreg \<Rightarrow> int \<times> kreg" where
  "nasysfs_create_drv_info rc p s = create_dir rc p D_drvinfo s"

definition nasysfs_create_dev_state_info :: "answers \<Rightarrow> nat \<Rightarrow> kreg \<Rightarrow> int \<times> kreg" where
  "nasysfs_create_dev_state_info rc p s = create_dir rc p D_devstate s"

definition nasysfs_create_dev_features :: "answers \<Rightarrow> nat \<Rightarrow> kreg \<Rightarrow> int \<times> kreg" where
  "nasysfs_create_dev_features rc p s = create_dir rc p D_features s"

definition nasysfs_create_fw_error :: "answers \<Rightarrow> nat \<Rightarrow> kreg \<Rightarrow> int \<times> kreg" where
  "nasysfs_create_fw_error rc p s = create_dir rc p D_fwerror s"

definition nasysfs_create_capture_ctl :: "answers \<Rightarrow> nat \<Rightarrow> kreg \<Rightarrow> int \<times> kreg" where
  "nasysfs_create_capture_ctl rc p s = create_dir rc p D_capture s"

definition nasysfs_create_exec_cmd :: "answers \<Rightarrow> nat \<Rightarrow> kreg \<Rightarrow> int \<times> kreg" where
  "nasysfs_create_exec_cmd rc p s = create_dir rc p D_exec s"

definition nasysfs_create_pi_cfg :: "answers \<Rightarrow> nat \<Rightarrow> kreg \<Rightarrow> int \<times> kreg" where
  "nasysfs_create_pi_cfg rc p s = create_dir rc p D_pi s"

definition nasysfs_create_time_cfg :: "answers \<Rightarrow> nat \<Rightarrow> kreg \<Rightarrow> int \<times> kreg" where
  "nasysfs_create_time_cfg rc p s = create_dir rc p D_time s"

definition nasysfs_create_timeout_cfg :: "answers \<Rightarrow> nat \<Rightarrow> kreg \<Rightarrow> int \<times> kreg" where
  "nasysfs_create_timeout_cfg rc p s = create_dir rc p D_timeout s"

text \<open>The three directories with a binary file. A failure of the binary file of \<open>ident_info\<close> is returned with the directory in place.\<close>

definition nasysfs_create_ident_info :: "answers \<Rightarrow> nat \<Rightarrow> kreg \<Rightarrow> int \<times> kreg" where
  "nasysfs_create_ident_info rc p s =
     (case create_dir rc p D_ident s of (ret, s) \<Rightarrow>
        if ret \<noteq> 0 then (ret, s) else (rc (S_dir_bin D_ident), s))"

definition nasysfs_create_dev_info :: "answers \<Rightarrow> nat \<Rightarrow> kreg \<Rightarrow> int \<times> kreg" where
  "nasysfs_create_dev_info rc p s =
     (if rc S_kobj_type \<noteq> 0 then (- ENOMEM, s)
      else (let s = acquire (R_kobj_type p) s in
        if rc (S_dir_mem D_devinfo) \<noteq> 0 then (- ENOMEM, give_back (R_kobj_type p) s)
        else (let s = upd (\<lambda>i. i\<lparr>ri_dir := (ri_dir i)(D_devinfo := True)\<rparr>) (acquire (R_dir p D_devinfo) s) in
          if rc (S_dir_add D_devinfo) \<noteq> 0 then
            (rc (S_dir_add D_devinfo), give_back (R_kobj_type p) (give_back (R_dir p D_devinfo) s))
          else if rc (S_dir_bin D_devinfo) \<noteq> 0 then
            (rc (S_dir_bin D_devinfo), give_back (R_kobj_type p) (give_back (R_dir p D_devinfo) (touch (R_dir p D_devinfo) s)))
          else (0, s))))"

definition nasysfs_create_mbx_dir :: "answers \<Rightarrow> nat \<Rightarrow> kreg \<Rightarrow> int \<times> kreg" where
  "nasysfs_create_mbx_dir rc p s =
     (case create_dir rc p D_mbx s of (ret, s) \<Rightarrow>
        if ret \<noteq> 0 then (ret, s)
        else if rc (S_dir_bin D_mbx) \<noteq> 0 then (rc (S_dir_bin D_mbx), give_back (R_dir p D_mbx) s)
        else (0, s))"

section \<open>Groups of directories\<close>

definition upd_group :: "sysgroup \<Rightarrow> (rgroup \<Rightarrow> rgroup) \<Rightarrow> kreg \<Rightarrow> kreg" where
  "upd_group g f = upd (\<lambda>i. i\<lparr>ri_group := (ri_group i)(g := f (ri_group i g))\<rparr>)"

text \<open>\<open>cleanup_objset\<close>: \<open>while (--objcnt > 0)\<close> visits the entries from \<open>objcnt - 1\<close> down to 1.\<close>

definition cleanup_objset :: "nat \<Rightarrow> sysgroup \<Rightarrow> nat \<Rightarrow> kreg \<Rightarrow> kreg" where
  "cleanup_objset p g objcnt s =
     upd_group g (\<lambda>x. x\<lparr>rg_attcnt := 0\<rparr>)
       (case rg_att (ri_group (kr_info s) g) of
          None \<Rightarrow> s
        | Some a \<Rightarrow> upd_group g (\<lambda>x. x\<lparr>rg_att := None\<rparr>)
            (give_back (R_att p g)
              (fold (\<lambda>i s. if a i then give_back (R_entry p g i) s else s) (rev [1..<objcnt]) s)))"

text \<open>\<open>attgroup[i] = entry\<close>, which faults when the allocation of the array failed.\<close>

definition store_entry :: "sysgroup \<Rightarrow> nat \<Rightarrow> kreg \<Rightarrow> kreg" where
  "store_entry g i s =
     (case rg_att (ri_group (kr_info s) g) of
        None \<Rightarrow> fault s
      | Some a \<Rightarrow> upd_group g (\<lambda>x. x\<lparr>rg_att := Some (a(i := True))\<rparr>) s)"

text \<open>The loop over the entries \<open>i .. i + n - 1\<close>; \<open>cnt i\<close> is what is stored to \<open>attcnt\<close> after entry
  \<open>i\<close>. It returns \<open>Inl ret\<close> for the jump to the error label.\<close>

fun entry_loop :: "answers \<Rightarrow> nat \<Rightarrow> sysgroup \<Rightarrow> (nat \<Rightarrow> nat) \<Rightarrow> nat \<Rightarrow> nat \<Rightarrow> kreg \<Rightarrow> bool \<times> kreg" where
  "entry_loop rc p g cnt i 0 s = (True, s)"
| "entry_loop rc p g cnt i (Suc n) s =
     (if rc (S_entry_mem g i) \<noteq> 0 then (False, s)
      else (let s = acquire (R_entry p g i) s in
        if rc (S_entry_add g i) \<noteq> 0 then (False, give_back (R_entry p g i) s)
        else entry_loop rc p g cnt (Suc i) n
               (upd_group g (\<lambda>x. x\<lparr>rg_attcnt := cnt i\<rparr>) (store_entry g i s))))"

text \<open>\<open>kzalloc\<close> of an array of \<open>n\<close> pointers.\<close>

definition alloc_att :: "answers \<Rightarrow> nat \<Rightarrow> sysgroup \<Rightarrow> nat \<Rightarrow> kreg \<Rightarrow> kreg" where
  "alloc_att rc p g n s =
     (if rc (S_att g) \<noteq> 0 then upd_group g (\<lambda>x. x\<lparr>rg_att := None\<rparr>) s
      else upd_group g (\<lambda>x. x\<lparr>rg_att := Some (\<lambda>_. False), rg_len := n\<rparr>) (acquire (R_att p g) s))"

definition free_fbuf :: "nat \<Rightarrow> filterbuf \<Rightarrow> kreg \<Rightarrow> kreg" where
  "free_fbuf p f s = (if ri_fbuf (kr_info s) f
     then upd (\<lambda>i. i\<lparr>ri_fbuf := (ri_fbuf i)(f := False)\<rparr>) (give_back (R_fbuf p f) s) else s)"

definition free_fbufs :: "nat \<Rightarrow> kreg \<Rightarrow> kreg" where
  "free_fbufs p s = free_fbuf p F_maskb (free_fbuf p F_valb (free_fbuf p F_maska (free_fbuf p F_vala s)))"

fun alloc_fbufs :: "answers \<Rightarrow> nat \<Rightarrow> filterbuf list \<Rightarrow> kreg \<Rightarrow> bool \<times> kreg" where
  "alloc_fbufs rc p [] s = (True, s)"
| "alloc_fbufs rc p (f # fs) s =
     (if rc (S_fbuf f) \<noteq> 0 then (False, upd (\<lambda>i. i\<lparr>ri_fbuf := (ri_fbuf i)(f := False)\<rparr>) s)
      else alloc_fbufs rc p fs (upd (\<lambda>i. i\<lparr>ri_fbuf := (ri_fbuf i)(f := True)\<rparr>) (acquire (R_fbuf p f) s)))"

text \<open>What \<open>nasysfs_create_gpio_dir\<close>, \<open>nasysfs_create_port_dir\<close> and \<open>nasysfs_create_phy_dir\<close> do at their error label.\<close>

definition drop_group :: "nat \<Rightarrow> sysgroup \<Rightarrow> kreg \<Rightarrow> kreg" where
  "drop_group p g s =
     give_back (R_group p g)
       (upd_group g (\<lambda>x. x\<lparr>rg_kobj := False\<rparr>) (cleanup_objset p g (rg_attcnt (ri_group (kr_info s) g)) s))"

text \<open>\<open>n\<close> is \<open>ulGpioCnt\<close>, also for the filters. The result of the loop over the filters is
  the one of the last binary file of the last filter.\<close>

definition nasysfs_create_filter_dir :: "answers \<Rightarrow> nat \<Rightarrow> nat \<Rightarrow> kreg \<Rightarrow> int \<times> kreg" where
  "nasysfs_create_filter_dir rc p n s =
     (if n > 0 then
        (if rc (S_group G_filter) \<noteq> 0 then (- ENOMEM, s)
         else (let s = acquire (R_group p G_filter) s in
           if rc (S_att G_filter) \<noteq> 0 then (- ENOMEM, give_back (R_group p G_filter) (alloc_att rc p G_filter n s))
           else (case alloc_fbufs rc p [F_vala, F_maska, F_valb, F_maskb] (alloc_att rc p G_filter n s) of (ok, s) \<Rightarrow>
             if \<not> ok then (- ENOMEM, give_back (R_group p G_filter) (free_fbufs p s))
             else (case entry_loop rc p G_filter Suc 0 n (upd_group G_filter (\<lambda>x. x\<lparr>rg_kobj := True\<rparr>) s) of (ok, s) \<Rightarrow>
               if ok then (rc (S_entry_bin (n - 1) 3), s)
               else (- ENOMEM, give_back (R_group p G_filter) (free_fbufs p
                      (upd_group G_filter (\<lambda>x. x\<lparr>rg_kobj := False\<rparr>)
                        (cleanup_objset p G_filter (rg_attcnt (ri_group (kr_info s) G_filter)) s))))))))
      else (SUCCESS, s))"

text \<open>The GPIO loop stores \<open>lidx\<close> to \<open>attcnt\<close>, the entry of the voltage \<open>lidx + 1\<close>.\<close>

definition nasysfs_create_gpio_dir :: "answers \<Rightarrow> nat \<Rightarrow> nat \<Rightarrow> kreg \<Rightarrow> int \<times> kreg" where
  "nasysfs_create_gpio_dir rc p n s =
     (if n > 0 then
        (if rc (S_group G_gpio) \<noteq> 0 then (- ENOMEM, s)
         else (let s = upd_group G_gpio (\<lambda>x. x\<lparr>rg_kobj := True\<rparr>) (alloc_att rc p G_gpio (n + 1) (acquire (R_group p G_gpio) s)) in
           (case entry_loop rc p G_gpio id 0 n s of (ok, s) \<Rightarrow>
             if \<not> ok then (- ENOMEM, drop_group p G_gpio s)
             else (case entry_loop rc p G_gpio Suc n 1 s of (ok, s) \<Rightarrow>
               if ok then (0, s) else (- ENOMEM, drop_group p G_gpio s)))))
      else (SUCCESS, s))"

definition create_port_group :: "answers \<Rightarrow> nat \<Rightarrow> sysgroup \<Rightarrow> nat \<Rightarrow> kreg \<Rightarrow> int \<times> kreg" where
  "create_port_group rc p g n s =
     (if n > 0 then
        (if rc (S_group g) \<noteq> 0 then (- ENOMEM, s)
         else (let s = upd_group g (\<lambda>x. x\<lparr>rg_kobj := True\<rparr>) (alloc_att rc p g n (acquire (R_group p g) s)) in
           (case entry_loop rc p g Suc 0 n s of (ok, s) \<Rightarrow>
             if ok then (0, s) else (- ENOMEM, drop_group p g s))))
      else (- ENOMEM, s))"

definition nasysfs_create_port_dir :: "answers \<Rightarrow> nat \<Rightarrow> nat \<Rightarrow> kreg \<Rightarrow> int \<times> kreg" where
  "nasysfs_create_port_dir rc p n s = create_port_group rc p G_port n s"

definition nasysfs_create_phy_dir :: "answers \<Rightarrow> nat \<Rightarrow> nat \<Rightarrow> kreg \<Rightarrow> int \<times> kreg" where
  "nasysfs_create_phy_dir rc p n s = create_port_group rc p G_phy n s"

section \<open>Removal\<close>

definition touch_dir :: "nat \<Rightarrow> sysdir \<Rightarrow> kreg \<Rightarrow> kreg" where
  "touch_dir p d s = (if ri_dir (kr_info s) d then touch (R_dir p d) s else s)"

text \<open>\<open>remove_bin_files\<close> looks at the first four entries of the filter array, whatever its length.\<close>

definition remove_bin_files :: "nat \<Rightarrow> kreg \<Rightarrow> kreg" where
  "remove_bin_files p s =
     touch_dir p D_mbx (touch_dir p D_ident (touch_dir p D_devinfo
       (case rg_att (ri_group (kr_info s) G_filter) of
          None \<Rightarrow> s
        | Some a \<Rightarrow> fold (\<lambda>i s. if i \<ge> rg_len (ri_group (kr_info s) G_filter) then fault s
                                else if a i then touch (R_entry p G_filter i) s else s) [0..<4] s)))"

text \<open>\<open>kobject_put\<close> of a directory; the one of \<open>device_info\<close> has no release function.\<close>

definition put_dir :: "nat \<Rightarrow> sysdir \<Rightarrow> kreg \<Rightarrow> kreg" where
  "put_dir p d s = (if \<not> ri_dir (kr_info s) d then s
     else if d = D_devinfo then touch (R_dir p d) s else give_back (R_dir p d) s)"

definition put_group :: "nat \<Rightarrow> sysgroup \<Rightarrow> kreg \<Rightarrow> kreg" where
  "put_group p g s = (if rg_kobj (ri_group (kr_info s) g)
     then give_back (R_group p g) (cleanup_objset p g (rg_attcnt (ri_group (kr_info s) g)) s) else s)"

definition clean_up_sysfs :: "nat \<Rightarrow> kreg \<Rightarrow> kreg" where
  "clean_up_sysfs p s =
     free_fbufs p
       (fold (put_group p) [G_gpio, G_port, G_phy, G_filter]
         (fold (put_dir p) [D_capture, D_exec, D_pi, D_time, D_timeout, D_drvinfo, D_devstate, D_features,
                            D_fwerror, D_ident, D_devinfo, D_mbx]
           (remove_bin_files p s)))"

definition kobject_put_base :: "nat \<Rightarrow> basedir \<Rightarrow> kreg \<Rightarrow> kreg" where
  "kobject_put_base p b s = (if ri_base (kr_info s) b then give_back (R_base p b) s else s)"

definition put_base_dirs :: "nat \<Rightarrow> kreg \<Rightarrow> kreg" where
  "put_base_dirs p s = fold (kobject_put_base p) [B_ctl, B_conf, B_hw, B_dev_info] s"

section \<open>All entries of a device\<close>

definition create_base :: "answers \<Rightarrow> nat \<Rightarrow> basedir \<Rightarrow> kreg \<Rightarrow> int \<times> kreg" where
  "create_base rc p b s = (if rc (S_base b) \<noteq> 0 then (- ENOMEM, s)
     else (0, upd (\<lambda>i. i\<lparr>ri_base := (ri_base i)(b := True)\<rparr>) (acquire (R_base p b) s)))"

text \<open>The calls of \<open>netana_create_sysfsentries\<close> in their order.\<close>

definition sysfs_steps :: "answers \<Rightarrow> nat \<Rightarrow> nat \<Rightarrow> nat \<Rightarrow> (kreg \<Rightarrow> int \<times> kreg) list" where
  "sysfs_steps rc p gpios ports =
     [nasysfs_create_drv_info rc p,
      create_base rc p B_dev_info,
      nasysfs_create_dev_state_info rc p, nasysfs_create_dev_info rc p, nasysfs_create_ident_info rc p,
      nasysfs_create_dev_features rc p, nasysfs_create_fw_error rc p,
      create_base rc p B_hw,
      nasysfs_create_filter_dir rc p gpios, nasysfs_create_gpio_dir rc p gpios,
      nasysfs_create_port_dir rc p ports, nasysfs_create_phy_dir rc p ports,
      create_base rc p B_conf,
      nasysfs_create_timeout_cfg rc p,
      create_base rc p B_ctl,
      nasysfs_create_capture_ctl rc p, nasysfs_create_exec_cmd rc p, nasysfs_create_pi_cfg rc p,
      nasysfs_create_time_cfg rc p, nasysfs_create_mbx_dir rc p]"

fun run_steps :: "(kreg \<Rightarrow> int \<times> kreg) list \<Rightarrow> kreg \<Rightarrow> bool \<times> kreg" where
  "run_steps [] s = (True, s)"
| "run_steps (f # fs) s = (case f s of (ret, s) \<Rightarrow> if ret \<noteq> 0 then (False, s) else run_steps fs s)"

definition netana_create_sysfsentries :: "answers \<Rightarrow> nat \<Rightarrow> nat \<Rightarrow> nat \<Rightarrow> kreg \<Rightarrow> int \<times> kreg" where
  "netana_create_sysfsentries rc p gpios ports s =
     (case (if ri_base (kr_info s) B_drv_info then run_steps (sysfs_steps rc p gpios ports) s else (False, s)) of (ok, s) \<Rightarrow>
        if ok then (0, s) else (- ENOMEM, put_base_dirs p (clean_up_sysfs p s)))"

section \<open>How the ledger and the pointers belong together\<close>

lemma upd_simps [simp]:
  "kr_ledger (upd f s) = kr_ledger s" "kr_fault (upd f s) = kr_fault s" "kr_info (upd f s) = f (kr_info s)"
  "kr_class (upd f s) = kr_class s" "kr_locks (upd f s) = kr_locks s" "kr_idr (upd f s) = kr_idr s"
  by (simp_all add: upd_def)

lemma acquire_simps [simp]:
  "kr_ledger (acquire r s) = insert r (kr_ledger s)" "kr_fault (acquire r s) = kr_fault s"
  "kr_info (acquire r s) = kr_info s"
  "kr_class (acquire r s) = kr_class s" "kr_locks (acquire r s) = kr_locks s" "kr_idr (acquire r s) = kr_idr s"
  by (simp_all add: acquire_def)

lemma give_back_simps [simp]:
  "kr_info (give_back r s) = kr_info s"
  "kr_class (give_back r s) = kr_class s" "kr_locks (give_back r s) = kr_locks s" "kr_idr (give_back r s) = kr_idr s"
  "kr_ledger (give_back r s) = kr_ledger s - {r}"
  "kr_fault (give_back r s) \<longleftrightarrow> kr_fault s \<or> r \<notin> kr_ledger s"
  by (auto simp: give_back_def)

lemma touch_simps [simp]:
  "kr_info (touch r s) = kr_info s"
  "kr_class (touch r s) = kr_class s" "kr_locks (touch r s) = kr_locks s" "kr_idr (touch r s) = kr_idr s"
  "kr_ledger (touch r s) = kr_ledger s"
  "kr_fault (touch r s) \<longleftrightarrow> kr_fault s \<or> r \<notin> kr_ledger s"
  by (auto simp: touch_def)

text \<open>The state without what this theory changes.\<close>

definition kcore :: "kreg \<Rightarrow> kreg" where
  "kcore s = s\<lparr>kr_ledger := {}, kr_fault := False, kr_info := (kr_info s)
     \<lparr>ri_base := \<lambda>_. False, ri_dir := \<lambda>_. False,
      ri_group := \<lambda>_. \<lparr>rg_kobj = False, rg_att = None, rg_len = 0, rg_attcnt = 0\<rparr>, ri_fbuf := \<lambda>_. False\<rparr>\<rparr>"

lemma kcore_simps [simp]:
  "kcore (acquire r s) = kcore s" "kcore (give_back r s) = kcore s" "kcore (touch r s) = kcore s" "kcore (fault s) = kcore s"
  "kcore (upd_group g f s) = kcore s"
  "kcore (upd (\<lambda>i. i\<lparr>ri_dir := d i\<rparr>) s) = kcore s" "kcore (upd (\<lambda>i. i\<lparr>ri_base := b i\<rparr>) s) = kcore s"
  "kcore (upd (\<lambda>i. i\<lparr>ri_fbuf := u i\<rparr>) s) = kcore s"
  by (simp_all add: kcore_def acquire_def give_back_def touch_def fault_def upd_group_def upd_def)

text \<open>The parts of the tree, and what each of them holds when it is complete.\<close>

datatype comp = C_Base basedir | C_Dir sysdir | C_Group sysgroup

fun group_size :: "nat \<Rightarrow> nat \<Rightarrow> sysgroup \<Rightarrow> nat" where
  "group_size gpios ports G_filter = gpios"
| "group_size gpios ports G_gpio = Suc gpios"
| "group_size gpios ports G_port = ports"
| "group_size gpios ports G_phy = ports"

fun comp_res :: "nat \<Rightarrow> nat \<Rightarrow> nat \<Rightarrow> comp \<Rightarrow> res set" where
  "comp_res p gpios ports (C_Base b) = {R_base p b}"
| "comp_res p gpios ports (C_Dir d) = (if d = D_devinfo then {R_dir p d, R_kobj_type p} else {R_dir p d})"
| "comp_res p gpios ports (C_Group g) = {R_group p g, R_att p g} \<union> R_entry p g ` {..<group_size gpios ports g}
     \<union> (if g = G_filter then range (R_fbuf p) else {})"

text \<open>What a registration which fails may leave behind.\<close>

definition leakable :: "nat \<Rightarrow> res \<Rightarrow> bool" where
  "leakable p r \<longleftrightarrow> r \<in> {R_dir p D_devinfo, R_kobj_type p, R_att p G_filter} \<or> (\<exists>g. r = R_entry p g 0) \<or> (\<exists>i. r = R_entry p G_gpio i)"

definition sysfs_res :: "nat \<Rightarrow> res \<Rightarrow> bool" where
  "sysfs_res p r \<longleftrightarrow> (\<exists>b. b \<notin> {B_drv_info, B_dma} \<and> r = R_base p b) \<or> (\<exists>d. r = R_dir p d) \<or> r = R_kobj_type p \<or>
     (\<exists>g. r = R_group p g \<or> r = R_att p g) \<or> (\<exists>g i. r = R_entry p g i) \<or> (\<exists>f. r = R_fbuf p f)"

text \<open>\<open>K\<close> is complete, \<open>lk\<close> lost, \<open>L0\<close> the rest of the ledger and \<open>bd\<close> the other base directories.\<close>

definition pointers_ok :: "nat \<Rightarrow> nat \<Rightarrow> comp set \<Rightarrow> (basedir \<Rightarrow> bool) \<Rightarrow> rdev \<Rightarrow> bool" where
  "pointers_ok gpios ports K bd i \<longleftrightarrow>
     (\<forall>b. ri_base i b = (if b \<in> {B_drv_info, B_dma} then bd b else C_Base b \<in> K)) \<and>
     (\<forall>d. ri_dir i d = (C_Dir d \<in> K)) \<and>
     (\<forall>f. ri_fbuf i f = (C_Group G_filter \<in> K)) \<and>
     (\<forall>g. rg_kobj (ri_group i g) = (C_Group g \<in> K)) \<and>
     (\<forall>g. C_Group g \<in> K \<longrightarrow> rg_att (ri_group i g) = Some (\<lambda>j. j < group_size gpios ports g) \<and>
        rg_attcnt (ri_group i g) = group_size gpios ports g) \<and>
     (\<forall>g. C_Group g \<notin> K \<longrightarrow> rg_att (ri_group i g) = None \<or> g = G_filter \<and> rg_att (ri_group i g) = Some (\<lambda>_. False)) \<and>
     (rg_att (ri_group i G_filter) \<noteq> None \<longrightarrow> rg_len (ri_group i G_filter) = gpios \<and> gpios \<noteq> 0)"

definition built :: "nat \<Rightarrow> nat \<Rightarrow> nat \<Rightarrow> (basedir \<Rightarrow> bool) \<Rightarrow> res set \<Rightarrow> kreg \<Rightarrow> comp set \<Rightarrow> res set \<Rightarrow> kreg \<Rightarrow> bool" where
  "built p gpios ports bd L0 c K lk s \<longleftrightarrow>
     \<not> kr_fault s \<and> kcore s = c \<and> pointers_ok gpios ports K bd (kr_info s) \<and>
     kr_ledger s = L0 \<union> (\<Union>k\<in>K. comp_res p gpios ports k) \<union> lk \<and>
     (\<forall>r\<in>lk. leakable p r) \<and> (\<forall>r\<in>L0. \<not> sysfs_res p r) \<and> C_Base B_drv_info \<notin> K \<and> C_Base B_dma \<notin> K"

section \<open>Cleaning up\<close>

lemma fold_put_entries:
  assumes "distinct xs"
  shows "kr_info (fold (\<lambda>i s. if a i then give_back (R_entry p g i) s else s) xs s) = kr_info s \<and>
    kcore (fold (\<lambda>i s. if a i then give_back (R_entry p g i) s else s) xs s) = kcore s \<and>
    kr_ledger (fold (\<lambda>i s. if a i then give_back (R_entry p g i) s else s) xs s)
      = kr_ledger s - R_entry p g ` {i \<in> set xs. a i} \<and>
    (kr_fault (fold (\<lambda>i s. if a i then give_back (R_entry p g i) s else s) xs s)
      \<longleftrightarrow> kr_fault s \<or> (\<exists>i\<in>set xs. a i \<and> R_entry p g i \<notin> kr_ledger s))"
  using assms by (induction xs arbitrary: s) auto

lemma upd_group_simps [simp]:
  "kr_ledger (upd_group g f s) = kr_ledger s" "kr_fault (upd_group g f s) = kr_fault s"
  "kr_info (upd_group g f s) = (kr_info s)\<lparr>ri_group := (ri_group (kr_info s))(g := f (ri_group (kr_info s) g))\<rparr>"
  by (simp_all add: upd_group_def)

lemma cleanup_objset_some:
  assumes "rg_att (ri_group (kr_info s) g) = Some a"
  shows "kr_info (cleanup_objset p g n s) = (kr_info s)\<lparr>ri_group := (ri_group (kr_info s))
           (g := (ri_group (kr_info s) g)\<lparr>rg_att := None, rg_attcnt := 0\<rparr>)\<rparr> \<and>
         kcore (cleanup_objset p g n s) = kcore s \<and>
         kr_ledger (cleanup_objset p g n s) = kr_ledger s - R_entry p g ` {i \<in> {1..<n}. a i} - {R_att p g} \<and>
         (kr_fault (cleanup_objset p g n s) \<longleftrightarrow>
            kr_fault s \<or> R_att p g \<notin> kr_ledger s \<or> (\<exists>i\<in>{1..<n}. a i \<and> R_entry p g i \<notin> kr_ledger s))"
  using assms fold_put_entries[of "rev [1..<n]" a p g s]
  by (auto simp: cleanup_objset_def)

definition group_ok :: "nat \<Rightarrow> bool \<Rightarrow> rgroup \<Rightarrow> bool" where
  "group_ok n k x \<longleftrightarrow> rg_kobj x = k \<and> (k \<longrightarrow> rg_att x = Some (\<lambda>j. j < n) \<and> rg_attcnt x = n)"

definition group_res :: "nat \<Rightarrow> sysgroup \<Rightarrow> nat \<Rightarrow> res set" where
  "group_res p g n = {R_group p g, R_att p g} \<union> R_entry p g ` {..<n}"

lemma put_group_ok:
  assumes x: "group_ok n k (ri_group (kr_info s) g)" and k: "k \<Longrightarrow> group_res p g n \<subseteq> kr_ledger s"
  shows "kr_fault (put_group p g s) = kr_fault s \<and> kcore (put_group p g s) = kcore s \<and>
    (\<forall>h. h \<noteq> g \<longrightarrow> ri_group (kr_info (put_group p g s)) h = ri_group (kr_info s) h) \<and>
    ri_fbuf (kr_info (put_group p g s)) = ri_fbuf (kr_info s) \<and> ri_base (kr_info (put_group p g s)) = ri_base (kr_info s) \<and>
    kr_ledger (put_group p g s) = kr_ledger s - (if k then group_res p g n - {R_entry p g 0} else {})"
proof (cases k)
  case True
  have a: "rg_kobj (ri_group (kr_info s) g)" "rg_att (ri_group (kr_info s) g) = Some (\<lambda>j. j < n)"
    "rg_attcnt (ri_group (kr_info s) g) = n"
    using x True by (auto simp: group_ok_def)
  note c = cleanup_objset_some[OF a(2), of p n]
  have e: "{i \<in> {1..<n}. i < n} = {1..<n}" "{..<n} - {0} = {1..<n}"
    by auto
  have "R_entry p g ` {..<n} - {R_entry p g 0} = R_entry p g ` {1..<n}"
    by (auto simp flip: e(2))
  then have r: "group_res p g n - {R_entry p g 0} = {R_group p g, R_att p g} \<union> R_entry p g ` {1..<n}"
    by (auto simp: group_res_def)
  have pg: "put_group p g s = give_back (R_group p g) (cleanup_objset p g n s)"
    using a by (simp add: put_group_def)
  have h: "R_att p g \<in> kr_ledger s" "R_group p g \<in> kr_ledger s" "\<forall>i<n. R_entry p g i \<in> kr_ledger s"
    using k True by (auto simp: group_res_def)
  have lc: "kr_ledger (cleanup_objset p g n s) = kr_ledger s - R_entry p g ` {1..<n} - {R_att p g}"
    using c unfolding e(1) by blast
  have "kr_ledger (put_group p g s) = kr_ledger s - R_entry p g ` {1..<n} - {R_att p g} - {R_group p g}"
    unfolding pg give_back_simps lc by (rule refl)
  then have l: "kr_ledger (put_group p g s) = kr_ledger s - (group_res p g n - {R_entry p g 0})"
    unfolding r by blast
  have f: "kr_fault (cleanup_objset p g n s) = kr_fault s"
    using c h by auto
  have "R_group p g \<in> kr_ledger (cleanup_objset p g n s)"
    using h unfolding lc by auto
  then have "kr_fault (put_group p g s) = kr_fault s"
    using f by (simp add: pg)
  then show ?thesis
    using c l True by (simp add: pg)
next
  case False
  then show ?thesis
    using x by (auto simp: put_group_def group_ok_def)
qed

lemma put_groups_ok:
  assumes "distinct gs" "\<forall>g\<in>set gs. group_ok (n g) (k g) (ri_group (kr_info s) g)"
    and "\<forall>g\<in>set gs. k g \<longrightarrow> group_res p g (n g) \<subseteq> kr_ledger s"
  shows "kr_fault (fold (put_group p) gs s) = kr_fault s \<and> kcore (fold (put_group p) gs s) = kcore s \<and>
    ri_fbuf (kr_info (fold (put_group p) gs s)) = ri_fbuf (kr_info s) \<and>
    ri_base (kr_info (fold (put_group p) gs s)) = ri_base (kr_info s) \<and>
    kr_ledger (fold (put_group p) gs s) =
      kr_ledger s - (\<Union>g\<in>{g \<in> set gs. k g}. group_res p g (n g) - {R_entry p g 0})"
  using assms
proof (induction gs arbitrary: s)
  case Nil
  then show ?case by simp
next
  case (Cons g gs)
  have 1: "kr_fault (put_group p g s) = kr_fault s \<and> kcore (put_group p g s) = kcore s \<and>
    (\<forall>h. h \<noteq> g \<longrightarrow> ri_group (kr_info (put_group p g s)) h = ri_group (kr_info s) h) \<and>
    ri_fbuf (kr_info (put_group p g s)) = ri_fbuf (kr_info s) \<and> ri_base (kr_info (put_group p g s)) = ri_base (kr_info s) \<and>
    kr_ledger (put_group p g s) = kr_ledger s - (if k g then group_res p g (n g) - {R_entry p g 0} else {})"
    using Cons.prems by (intro put_group_ok) auto
  have d: "h \<noteq> g \<Longrightarrow> group_res p h (n h) \<inter> group_res p g (n g) = {}" for h
    by (auto simp: group_res_def)
  have g: "g \<notin> set gs" "distinct gs"
    using Cons.prems(1) by auto
  have 2: "\<forall>h\<in>set gs. group_ok (n h) (k h) (ri_group (kr_info (put_group p g s)) h)"
    using Cons.prems(2) 1 g by (metis list.set_intros(2))
  have 3: "\<forall>h\<in>set gs. k h \<longrightarrow> group_res p h (n h) \<subseteq> kr_ledger (put_group p g s)"
  proof (intro ballI impI)
    fix h assume h: "h \<in> set gs" "k h"
    then have "group_res p h (n h) \<subseteq> kr_ledger s" "h \<noteq> g"
      using Cons.prems(3) g by auto
    then show "group_res p h (n h) \<subseteq> kr_ledger (put_group p g s)"
      using d[of h] 1 by auto
  qed
  have 4: "{h \<in> set (g # gs). k h} = (if k g then insert g {h \<in> set gs. k h} else {h \<in> set gs. k h})"
    by auto
  show ?case
    using Cons.IH[OF g(2) 2 3] 1 unfolding 4 by auto
qed

lemma put_dirs_ok:
  assumes "distinct ds" "\<forall>d\<in>set ds. ri_dir (kr_info s) d \<longrightarrow> R_dir p d \<in> kr_ledger s"
  shows "kr_fault (fold (put_dir p) ds s) = kr_fault s \<and> kcore (fold (put_dir p) ds s) = kcore s \<and>
    kr_info (fold (put_dir p) ds s) = kr_info s \<and>
    kr_ledger (fold (put_dir p) ds s) = kr_ledger s - R_dir p ` {d \<in> set ds. ri_dir (kr_info s) d \<and> d \<noteq> D_devinfo}"
  using assms
proof (induction ds arbitrary: s)
  case Nil
  then show ?case by simp
next
  case (Cons d ds)
  have i: "kr_info (put_dir p d s) = kr_info s"
    by (simp add: put_dir_def)
  have f: "kr_fault (put_dir p d s) = kr_fault s" "kcore (put_dir p d s) = kcore s"
    "kr_ledger (put_dir p d s) = kr_ledger s - (if ri_dir (kr_info s) d \<and> d \<noteq> D_devinfo then {R_dir p d} else {})"
    using Cons.prems(2) by (auto simp: put_dir_def)
  have 1: "\<forall>e\<in>set ds. ri_dir (kr_info (put_dir p d s)) e \<longrightarrow> R_dir p e \<in> kr_ledger (put_dir p d s)"
    using Cons.prems f(3) i by auto
  have "distinct ds"
    using Cons.prems(1) by simp
  note IH = Cons.IH[OF this 1]
  have "kr_ledger (fold (put_dir p) (d # ds) s) = kr_ledger (put_dir p d s) - R_dir p ` {e \<in> set ds. ri_dir (kr_info s) e \<and> e \<noteq> D_devinfo}"
    using IH i by simp
  also have "\<dots> = kr_ledger s - R_dir p ` {e \<in> set (d # ds). ri_dir (kr_info s) e \<and> e \<noteq> D_devinfo}"
    unfolding f(3) by auto
  finally show ?case
    using IH f i by simp
qed

lemma all_filterbuf: "(\<forall>f. P f) \<longleftrightarrow> P F_vala \<and> P F_maska \<and> P F_valb \<and> P F_maskb"
  by (metis filterbuf.exhaust)

lemma free_fbuf_ok:
  assumes "ri_fbuf (kr_info s) f \<longrightarrow> R_fbuf p f \<in> kr_ledger s"
  shows "kr_fault (free_fbuf p f s) = kr_fault s \<and> kcore (free_fbuf p f s) = kcore s \<and>
    ri_base (kr_info (free_fbuf p f s)) = ri_base (kr_info s) \<and> ri_dir (kr_info (free_fbuf p f s)) = ri_dir (kr_info s) \<and>
    ri_group (kr_info (free_fbuf p f s)) = ri_group (kr_info s) \<and>
    ri_fbuf (kr_info (free_fbuf p f s)) = (ri_fbuf (kr_info s))(f := False) \<and>
    kr_ledger (free_fbuf p f s) = kr_ledger s - (if ri_fbuf (kr_info s) f then {R_fbuf p f} else {})"
  using assms by (auto simp: free_fbuf_def fun_eq_iff)

lemma free_fbufs_fold: "free_fbufs p s = fold (free_fbuf p) [F_vala, F_maska, F_valb, F_maskb] s"
  by (simp add: free_fbufs_def)

lemma fold_free_fbuf_ok:
  assumes "distinct fs" "\<forall>f\<in>set fs. ri_fbuf (kr_info s) f \<longrightarrow> R_fbuf p f \<in> kr_ledger s"
  shows "kr_fault (fold (free_fbuf p) fs s) = kr_fault s \<and> kcore (fold (free_fbuf p) fs s) = kcore s \<and>
    ri_base (kr_info (fold (free_fbuf p) fs s)) = ri_base (kr_info s) \<and>
    ri_dir (kr_info (fold (free_fbuf p) fs s)) = ri_dir (kr_info s) \<and>
    ri_group (kr_info (fold (free_fbuf p) fs s)) = ri_group (kr_info s) \<and>
    ri_fbuf (kr_info (fold (free_fbuf p) fs s)) = (\<lambda>f. if f \<in> set fs then False else ri_fbuf (kr_info s) f) \<and>
    kr_ledger (fold (free_fbuf p) fs s) = kr_ledger s - R_fbuf p ` {f \<in> set fs. ri_fbuf (kr_info s) f}"
  using assms
proof (induction fs arbitrary: s)
  case Nil
  then show ?case by simp
next
  case (Cons f fs)
  have a: "ri_fbuf (kr_info s) f \<longrightarrow> R_fbuf p f \<in> kr_ledger s" "f \<notin> set fs" "distinct fs"
    using Cons.prems by auto
  note 1 = free_fbuf_ok[OF a(1)]
  have 2: "\<forall>g\<in>set fs. ri_fbuf (kr_info (free_fbuf p f s)) g \<longrightarrow> R_fbuf p g \<in> kr_ledger (free_fbuf p f s)"
    using Cons.prems(2) a(2) 1 by auto
  have e: "{g \<in> set fs. ri_fbuf (kr_info (free_fbuf p f s)) g} = {g \<in> set fs. ri_fbuf (kr_info s) g}"
    using a(2) 1 by auto
  have "kr_ledger (fold (free_fbuf p) (f # fs) s) = kr_ledger (free_fbuf p f s) - R_fbuf p ` {g \<in> set fs. ri_fbuf (kr_info s) g}"
    using Cons.IH[OF a(3) 2] unfolding e by simp
  also have "\<dots> = kr_ledger s - R_fbuf p ` {g \<in> set (f # fs). ri_fbuf (kr_info s) g}"
    using 1 by auto
  finally have l: "kr_ledger (fold (free_fbuf p) (f # fs) s) = kr_ledger s - R_fbuf p ` {g \<in> set (f # fs). ri_fbuf (kr_info s) g}" .
  show ?case
    using Cons.IH[OF a(3) 2] 1 l by (auto simp: fun_eq_iff)
qed

lemma free_fbufs_ok:
  assumes "\<forall>f. ri_fbuf (kr_info s) f \<longrightarrow> R_fbuf p f \<in> kr_ledger s"
  shows "kr_fault (free_fbufs p s) = kr_fault s \<and> kcore (free_fbufs p s) = kcore s \<and>
    ri_base (kr_info (free_fbufs p s)) = ri_base (kr_info s) \<and> ri_dir (kr_info (free_fbufs p s)) = ri_dir (kr_info s) \<and>
    ri_group (kr_info (free_fbufs p s)) = ri_group (kr_info s) \<and>
    ri_fbuf (kr_info (free_fbufs p s)) = (\<lambda>f. False) \<and>
    kr_ledger (free_fbufs p s) = kr_ledger s - R_fbuf p ` {f. ri_fbuf (kr_info s) f}"
proof -
  have u: "set [F_vala, F_maska, F_valb, F_maskb] = UNIV"
    using filterbuf.exhaust by auto
  have "distinct [F_vala, F_maska, F_valb, F_maskb]"
    by simp
  from fold_free_fbuf_ok[OF this, of s p] assms show ?thesis
    unfolding free_fbufs_fold u by simp
qed

lemma fold_same: "\<forall>x\<in>set xs. f x s = s \<Longrightarrow> fold f xs s = s"
  by (induction xs) auto

lemma touch_same: "r \<in> kr_ledger s \<Longrightarrow> touch r s = s"
  by (simp add: touch_def)

lemma remove_bin_files_same:
  assumes d: "\<forall>d. ri_dir (kr_info s) d \<longrightarrow> R_dir p d \<in> kr_ledger s"
    and g: "\<And>a. rg_att (ri_group (kr_info s) G_filter) = Some a \<Longrightarrow>
      4 \<le> rg_len (ri_group (kr_info s) G_filter) \<and> (\<forall>i. a i \<longrightarrow> R_entry p G_filter i \<in> kr_ledger s)"
  shows "remove_bin_files p s = s"
proof -
  have t: "touch_dir p e s = s" for e
    using d by (simp add: touch_dir_def touch_same)
  show ?thesis
  proof (cases "rg_att (ri_group (kr_info s) G_filter)")
    case None
    then show ?thesis
      by (simp add: remove_bin_files_def t)
  next
    case (Some a)
    have "fold (\<lambda>i s. if i \<ge> rg_len (ri_group (kr_info s) G_filter) then fault s
             else if a i then touch (R_entry p G_filter i) s else s) [0..<4] s = s"
      by (rule fold_same) (use g[OF Some] in \<open>auto simp: touch_same\<close>)
    then show ?thesis
      using Some by (simp add: remove_bin_files_def t)
  qed
qed

lemma put_bases_ok:
  assumes "distinct bs" "\<forall>b\<in>set bs. ri_base (kr_info s) b \<longrightarrow> R_base p b \<in> kr_ledger s"
  shows "kr_fault (fold (kobject_put_base p) bs s) = kr_fault s \<and> kcore (fold (kobject_put_base p) bs s) = kcore s \<and>
    kr_info (fold (kobject_put_base p) bs s) = kr_info s \<and>
    kr_ledger (fold (kobject_put_base p) bs s) = kr_ledger s - R_base p ` {b \<in> set bs. ri_base (kr_info s) b}"
  using assms
proof (induction bs arbitrary: s)
  case Nil
  then show ?case by simp
next
  case (Cons b bs)
  have 1: "kr_fault (kobject_put_base p b s) = kr_fault s" "kcore (kobject_put_base p b s) = kcore s"
    "kr_info (kobject_put_base p b s) = kr_info s"
    "kr_ledger (kobject_put_base p b s) = kr_ledger s - (if ri_base (kr_info s) b then {R_base p b} else {})"
    using Cons.prems(2) by (auto simp: kobject_put_base_def)
  have 2: "\<forall>c\<in>set bs. ri_base (kr_info (kobject_put_base p b s)) c \<longrightarrow> R_base p c \<in> kr_ledger (kobject_put_base p b s)"
    using Cons.prems 1 by auto
  have "distinct bs"
    using Cons.prems(1) by simp
  note IH = Cons.IH[OF this 2]
  have "kr_ledger (fold (kobject_put_base p) (b # bs) s) = kr_ledger s - R_base p ` {c \<in> set (b # bs). ri_base (kr_info s) c}"
    using IH 1 by auto
  then show ?case
    using IH 1 by auto
qed

text \<open>What \<open>clean_up_sysfs\<close> and the four base directories give back of complete parts.\<close>

definition given_back :: "nat \<Rightarrow> nat \<Rightarrow> nat \<Rightarrow> comp set \<Rightarrow> res set" where
  "given_back p gpios ports K =
     R_dir p ` {d. C_Dir d \<in> K \<and> d \<noteq> D_devinfo} \<union>
     (\<Union>g\<in>{g. C_Group g \<in> K}. group_res p g (group_size gpios ports g) - {R_entry p g 0}) \<union>
     R_fbuf p ` {f. C_Group G_filter \<in> K} \<union> R_base p ` {b. C_Base b \<in> K}"

lemma all_sysgroup: "set [G_gpio, G_port, G_phy, G_filter] = UNIV"
proof -
  have "x \<in> set [G_gpio, G_port, G_phy, G_filter]" for x
    by (cases x) simp_all
  then show ?thesis by blast
qed

lemma all_sysdir: "set [D_capture, D_exec, D_pi, D_time, D_timeout, D_drvinfo, D_devstate, D_features,
  D_fwerror, D_ident, D_devinfo, D_mbx] = UNIV"
proof -
  have "x \<in> set [D_capture, D_exec, D_pi, D_time, D_timeout, D_drvinfo, D_devstate, D_features,
    D_fwerror, D_ident, D_devinfo, D_mbx]" for x
    by (cases x) simp_all
  then show ?thesis by blast
qed

lemma all_basedir: "set [B_ctl, B_conf, B_hw, B_dev_info] = - {B_drv_info, B_dma}"
proof -
  have "x \<in> set [B_ctl, B_conf, B_hw, B_dev_info] \<longleftrightarrow> x \<in> - {B_drv_info, B_dma}" for x
    by (cases x) simp_all
  then show ?thesis by blast
qed

lemma built_holds:
  assumes b: "built p gpios ports bd L0 c K lk s" and k: "k \<in> K"
  shows "comp_res p gpios ports k \<subseteq> kr_ledger s"
  using assms unfolding built_def by blast

lemma clean_up_built:
  assumes b: "built p gpios ports bd L0 c K lk s" and n: "gpios = 0 \<or> 4 \<le> gpios"
  shows "\<not> kr_fault (put_base_dirs p (clean_up_sysfs p s)) \<and> kcore (put_base_dirs p (clean_up_sysfs p s)) = c \<and>
    ri_base (kr_info (put_base_dirs p (clean_up_sysfs p s))) = ri_base (kr_info s) \<and>
    kr_ledger (put_base_dirs p (clean_up_sysfs p s)) = kr_ledger s - given_back p gpios ports K"
proof -
  let ?D = "[D_capture, D_exec, D_pi, D_time, D_timeout, D_drvinfo, D_devstate, D_features,
    D_fwerror, D_ident, D_devinfo, D_mbx]"
  let ?G = "[G_gpio, G_port, G_phy, G_filter]" and ?B = "[B_ctl, B_conf, B_hw, B_dev_info]"
  have P: "pointers_ok gpios ports K bd (kr_info s)"
    and F: "\<not> kr_fault s" "kcore s = c" "C_Base B_drv_info \<notin> K" "C_Base B_dma \<notin> K"
    using b unfolding built_def by blast+
  have Pb: "\<forall>b. ri_base (kr_info s) b = (if b \<in> {B_drv_info, B_dma} then bd b else C_Base b \<in> K)"
    and Pd: "\<forall>d. ri_dir (kr_info s) d = (C_Dir d \<in> K)"
    and Pf: "\<forall>f. ri_fbuf (kr_info s) f = (C_Group G_filter \<in> K)"
    and Pg: "\<forall>g. rg_kobj (ri_group (kr_info s) g) = (C_Group g \<in> K)"
    and Pa: "\<forall>g. C_Group g \<in> K \<longrightarrow> rg_att (ri_group (kr_info s) g) = Some (\<lambda>j. j < group_size gpios ports g) \<and>
        rg_attcnt (ri_group (kr_info s) g) = group_size gpios ports g"
    and Pn: "\<forall>g. C_Group g \<notin> K \<longrightarrow> rg_att (ri_group (kr_info s) g) = None \<or>
        g = G_filter \<and> rg_att (ri_group (kr_info s) g) = Some (\<lambda>_. False)"
    and Pl: "rg_att (ri_group (kr_info s) G_filter) \<noteq> None \<longrightarrow> rg_len (ri_group (kr_info s) G_filter) = gpios \<and> gpios \<noteq> 0"
    using P unfolding pointers_ok_def by blast+
  have h: "k \<in> K \<Longrightarrow> comp_res p gpios ports k \<subseteq> kr_ledger s" for k
    using built_holds[OF b] .
  have hd: "R_dir p d \<in> kr_ledger s" if "C_Dir d \<in> K" for d
    using h[OF that] by (auto split: if_splits)
  have hg: "group_res p g (group_size gpios ports g) \<subseteq> kr_ledger s" if "C_Group g \<in> K" for g
    using h[OF that] by (auto simp: group_res_def)
  have hf: "R_fbuf p f \<in> kr_ledger s" if "C_Group G_filter \<in> K" for f
    using h[OF that] by auto
  have hb: "R_base p x \<in> kr_ledger s" if "C_Base x \<in> K" for x
    using h[OF that] by simp
  have 1: "remove_bin_files p s = s"
  proof (rule remove_bin_files_same)
    show "\<forall>d. ri_dir (kr_info s) d \<longrightarrow> R_dir p d \<in> kr_ledger s"
      using Pd hd by blast
    fix a assume a: "rg_att (ri_group (kr_info s) G_filter) = Some a"
    have "rg_len (ri_group (kr_info s) G_filter) = gpios" "gpios \<noteq> 0"
      using Pl a by simp_all
    moreover have "R_entry p G_filter i \<in> kr_ledger s" if "a i" for i
    proof (cases "C_Group G_filter \<in> K")
      case True
      then have "a = (\<lambda>j. j < gpios)"
        using Pa a by fastforce
      then show ?thesis
        using that hg[OF True] by (auto simp: group_res_def)
    next
      case False
      then have "a = (\<lambda>_. False)"
        using Pn a by fastforce
      then show ?thesis
        using that by simp
    qed
    ultimately show "4 \<le> rg_len (ri_group (kr_info s) G_filter) \<and> (\<forall>i. a i \<longrightarrow> R_entry p G_filter i \<in> kr_ledger s)"
      using n by auto
  qed
  define s1 where "s1 = fold (put_dir p) ?D s"
  have "distinct ?D" by simp
  moreover have "\<forall>d\<in>set ?D. ri_dir (kr_info s) d \<longrightarrow> R_dir p d \<in> kr_ledger s"
    using Pd hd by blast
  ultimately have 2: "kr_fault s1 = kr_fault s \<and> kcore s1 = kcore s \<and> kr_info s1 = kr_info s \<and>
    kr_ledger s1 = kr_ledger s - R_dir p ` {d \<in> set ?D. ri_dir (kr_info s) d \<and> d \<noteq> D_devinfo}"
    unfolding s1_def by (rule put_dirs_ok)
  define s2 where "s2 = fold (put_group p) ?G s1"
  have "distinct ?G" by simp
  moreover have "\<forall>g\<in>set ?G. group_ok (group_size gpios ports g) (C_Group g \<in> K) (ri_group (kr_info s1) g)"
    using Pg Pa 2 unfolding group_ok_def by simp
  moreover have "\<forall>g\<in>set ?G. C_Group g \<in> K \<longrightarrow> group_res p g (group_size gpios ports g) \<subseteq> kr_ledger s1"
    using 2 hg unfolding group_res_def by fastforce
  ultimately have 3: "kr_fault s2 = kr_fault s1 \<and> kcore s2 = kcore s1 \<and> ri_fbuf (kr_info s2) = ri_fbuf (kr_info s1) \<and>
    ri_base (kr_info s2) = ri_base (kr_info s1) \<and> kr_ledger s2 = kr_ledger s1 -
      (\<Union>g\<in>{g \<in> set ?G. C_Group g \<in> K}. group_res p g (group_size gpios ports g) - {R_entry p g 0})"
    unfolding s2_def by (rule put_groups_ok)
  define s3 where "s3 = free_fbufs p s2"
  have "R_fbuf p f \<in> kr_ledger s2" if "C_Group G_filter \<in> K" for f
    using 2 3 hf[OF that] by (auto simp: group_res_def)
  then have "\<forall>f. ri_fbuf (kr_info s2) f \<longrightarrow> R_fbuf p f \<in> kr_ledger s2"
    using 2 3 Pf by simp
  then have 4: "kr_fault s3 = kr_fault s2 \<and> kcore s3 = kcore s2 \<and> ri_base (kr_info s3) = ri_base (kr_info s2) \<and>
    kr_ledger s3 = kr_ledger s2 - R_fbuf p ` {f. ri_fbuf (kr_info s2) f}"
    unfolding s3_def using free_fbufs_ok by blast
  have c: "clean_up_sysfs p s = s3"
    unfolding clean_up_sysfs_def 1 s3_def s2_def s1_def by (rule refl)
  define s4 where "s4 = fold (kobject_put_base p) ?B s3"
  have bK: "ri_base (kr_info s) x = (C_Base x \<in> K)" if "x \<in> set ?B" for x
    using Pb that unfolding all_basedir by simp
  have "distinct ?B" by simp
  moreover have "\<forall>x\<in>set ?B. ri_base (kr_info s3) x \<longrightarrow> R_base p x \<in> kr_ledger s3"
    using 2 3 4 hb bK by (auto simp: group_res_def)
  ultimately have 5: "kr_fault s4 = kr_fault s3 \<and> kcore s4 = kcore s3 \<and> kr_info s4 = kr_info s3 \<and>
    kr_ledger s4 = kr_ledger s3 - R_base p ` {x \<in> set ?B. ri_base (kr_info s3) x}"
    unfolding s4_def by (rule put_bases_ok)
  have e1: "{d \<in> set ?D. ri_dir (kr_info s) d \<and> d \<noteq> D_devinfo} = {d. C_Dir d \<in> K \<and> d \<noteq> D_devinfo}"
    using Pd unfolding all_sysdir by blast
  have e2: "{g \<in> set ?G. C_Group g \<in> K} = {g. C_Group g \<in> K}"
    unfolding all_sysgroup by simp
  have e3: "{f. ri_fbuf (kr_info s2) f} = {f. C_Group G_filter \<in> K}"
    using 2 3 Pf by simp
  have "C_Base x \<in> K \<Longrightarrow> x \<in> set ?B" for x
    using F unfolding all_basedir by blast
  then have e4: "{x \<in> set ?B. ri_base (kr_info s3) x} = {x. C_Base x \<in> K}"
    using 2 3 4 bK by auto
  have "kr_ledger s4 = kr_ledger s - given_back p gpios ports K"
    using 2 3 4 5 unfolding e1 e2 e3 e4 given_back_def by auto
  moreover have "put_base_dirs p (clean_up_sysfs p s) = s4"
    unfolding c put_base_dirs_def s4_def by (rule refl)
  ultimately show ?thesis
    using F 2 3 4 5 by simp
qed

section \<open>Every routine builds its part or leaves the state tidy\<close>

definition stage :: "nat \<Rightarrow> nat \<Rightarrow> nat \<Rightarrow> (basedir \<Rightarrow> bool) \<Rightarrow> res set \<Rightarrow> kreg \<Rightarrow> comp set \<Rightarrow> (kreg \<Rightarrow> int \<times> kreg) \<Rightarrow> bool" where
  "stage p gpios ports bd L0 c new f \<longleftrightarrow>
     (\<forall>K s. new \<inter> K = {} \<longrightarrow> built p gpios ports bd L0 c K {} s \<longrightarrow>
        (\<exists>K' lk'. built p gpios ports bd L0 c K' lk' (snd (f s)) \<and> (fst (f s) = 0 \<longrightarrow> K' = new \<union> K \<and> lk' = {})))"

lemma stageI:
  assumes "\<And>K s. new \<inter> K = {} \<Longrightarrow> built p gpios ports bd L0 c K {} s \<Longrightarrow>
    (\<exists>lk'. fst (f s) \<noteq> 0 \<and> built p gpios ports bd L0 c K lk' (snd (f s))) \<or>
    built p gpios ports bd L0 c (new \<union> K) {} (snd (f s))"
  shows "stage p gpios ports bd L0 c new f"
  unfolding stage_def using assms by metis

lemma acquire_give_back [simp]: "r \<notin> kr_ledger s \<Longrightarrow> give_back r (acquire r s) = s"
  by (simp add: give_back_def acquire_def)

lemma comp_res_iff [simp]:
  "R_dir p d \<in> comp_res p gpios ports k \<longleftrightarrow> k = C_Dir d"
  "R_kobj_type p \<in> comp_res p gpios ports k \<longleftrightarrow> k = C_Dir D_devinfo"
  "R_base p b \<in> comp_res p gpios ports k \<longleftrightarrow> k = C_Base b"
  "R_group p g \<in> comp_res p gpios ports k \<longleftrightarrow> k = C_Group g"
  "R_att p g \<in> comp_res p gpios ports k \<longleftrightarrow> k = C_Group g"
  "R_entry p g i \<in> comp_res p gpios ports k \<longleftrightarrow> k = C_Group g \<and> i < group_size gpios ports g"
  "R_fbuf p f \<in> comp_res p gpios ports k \<longleftrightarrow> k = C_Group G_filter"
  by (cases k; auto)+

lemma built_fresh:
  assumes "built p gpios ports bd L0 c K {} s" "sysfs_res p r" "\<And>k. k \<in> K \<Longrightarrow> r \<notin> comp_res p gpios ports k"
  shows "r \<notin> kr_ledger s"
  using assms unfolding built_def by blast

lemma built_dir:
  assumes b: "built p gpios ports bd L0 c K {} s"
    and i: "kr_info s' = (kr_info s)\<lparr>ri_dir := (ri_dir (kr_info s))(d := True)\<rparr>"
    and s': "\<not> kr_fault s'" "kcore s' = kcore s" "kr_ledger s' = comp_res p gpios ports (C_Dir d) \<union> kr_ledger s"
  shows "built p gpios ports bd L0 c (insert (C_Dir d) K) {} s'"
proof -
  have "pointers_ok gpios ports (insert (C_Dir d) K) bd (kr_info s')"
    using b unfolding built_def pointers_ok_def i by simp
  then show ?thesis
    using b s' unfolding built_def by auto
qed

lemma dir_fresh:
  assumes "built p gpios ports bd L0 c K {} s" "C_Dir d \<notin> K"
  shows "R_dir p d \<notin> kr_ledger s"
  by (rule built_fresh[OF assms(1)])
    (use assms(2) in \<open>auto simp: sysfs_res_def\<close>)

lemma create_dir_cases:
  assumes b: "built p gpios ports bd L0 c K {} s" and d: "C_Dir d \<notin> K" "d \<noteq> D_devinfo"
  obtains "fst (create_dir rc p d s) \<noteq> 0" "snd (create_dir rc p d s) = s"
  | "fst (create_dir rc p d s) = 0" "built p gpios ports bd L0 c (insert (C_Dir d) K) {} (snd (create_dir rc p d s))"
proof (cases "rc (S_dir_mem d) \<noteq> 0 \<or> rc (S_dir_add d) \<noteq> 0")
  case True
  then show ?thesis
    using that(1) dir_fresh[OF b d(1)] by (auto simp: create_dir_def ENOMEM_def Let_def)
next
  case False
  let ?s = "upd (\<lambda>i. i\<lparr>ri_dir := (ri_dir i)(d := True)\<rparr>) (acquire (R_dir p d) s)"
  have e: "create_dir rc p d s = (0, ?s)"
    using False by (simp add: create_dir_def Let_def)
  have "built p gpios ports bd L0 c (insert (C_Dir d) K) {} ?s"
    by (rule built_dir[OF b]) (use b d(2) in \<open>simp_all add: built_def\<close>)
  then show ?thesis
    using that(2) e by simp
qed

lemma stage_dir: "d \<noteq> D_devinfo \<Longrightarrow> stage p gpios ports bd L0 c {C_Dir d} (create_dir rc p d)"
proof (rule stageI)
  fix K s
  assume d: "d \<noteq> D_devinfo" and n: "{C_Dir d} \<inter> K = {}" and b: "built p gpios ports bd L0 c K {} s"
  from n have n': "C_Dir d \<notin> K" by simp
  show "(\<exists>lk'. fst (create_dir rc p d s) \<noteq> 0 \<and> built p gpios ports bd L0 c K lk' (snd (create_dir rc p d s))) \<or>
    built p gpios ports bd L0 c ({C_Dir d} \<union> K) {} (snd (create_dir rc p d s))"
    by (rule create_dir_cases[OF b n' d, of rc]) (use b in auto)
qed

lemma stage_ident: "stage p gpios ports bd L0 c {C_Dir D_ident} (nasysfs_create_ident_info rc p)"
proof (rule stageI)
  fix K s
  let ?f = "nasysfs_create_ident_info rc p"
  assume n: "{C_Dir D_ident} \<inter> K = {}" and b: "built p gpios ports bd L0 c K {} s"
  from n have n': "C_Dir D_ident \<notin> K" "D_ident \<noteq> D_devinfo" by simp_all
  show "(\<exists>lk'. fst (?f s) \<noteq> 0 \<and> built p gpios ports bd L0 c K lk' (snd (?f s))) \<or>
    built p gpios ports bd L0 c ({C_Dir D_ident} \<union> K) {} (snd (?f s))"
    by (rule create_dir_cases[OF b n', of rc])
      (use b in \<open>auto simp: nasysfs_create_ident_info_def split: prod.splits\<close>)
qed

lemma stage_mbx:
  assumes "rc (S_dir_bin D_mbx) = 0"
  shows "stage p gpios ports bd L0 c {C_Dir D_mbx} (nasysfs_create_mbx_dir rc p)"
proof (rule stageI)
  fix K s
  let ?f = "nasysfs_create_mbx_dir rc p"
  assume n: "{C_Dir D_mbx} \<inter> K = {}" and b: "built p gpios ports bd L0 c K {} s"
  from n have n': "C_Dir D_mbx \<notin> K" "D_mbx \<noteq> D_devinfo" by simp_all
  show "(\<exists>lk'. fst (?f s) \<noteq> 0 \<and> built p gpios ports bd L0 c K lk' (snd (?f s))) \<or>
    built p gpios ports bd L0 c ({C_Dir D_mbx} \<union> K) {} (snd (?f s))"
    by (rule create_dir_cases[OF b n', of rc])
      (use b assms in \<open>auto simp: nasysfs_create_mbx_dir_def split: prod.splits\<close>)
qed

lemma kobj_type_fresh:
  assumes "built p gpios ports bd L0 c K {} s" "C_Dir D_devinfo \<notin> K"
  shows "R_kobj_type p \<notin> kr_ledger s"
  by (rule built_fresh[OF assms(1)])
    (use assms(2) in \<open>auto simp: sysfs_res_def\<close>)

lemma stage_devinfo:
  assumes rc: "rc (S_dir_add D_devinfo) = 0" "rc (S_dir_bin D_devinfo) = 0"
  shows "stage p gpios ports bd L0 c {C_Dir D_devinfo} (nasysfs_create_dev_info rc p)"
proof (rule stageI)
  fix K s
  let ?f = "nasysfs_create_dev_info rc p"
  assume n: "{C_Dir D_devinfo} \<inter> K = {}" and b: "built p gpios ports bd L0 c K {} s"
  from n have n': "C_Dir D_devinfo \<notin> K" by simp
  note fr = kobj_type_fresh[OF b n']
  show "(\<exists>lk'. fst (?f s) \<noteq> 0 \<and> built p gpios ports bd L0 c K lk' (snd (?f s))) \<or>
    built p gpios ports bd L0 c ({C_Dir D_devinfo} \<union> K) {} (snd (?f s))"
  proof (cases "rc S_kobj_type \<noteq> 0 \<or> rc (S_dir_mem D_devinfo) \<noteq> 0")
    case True
    then show ?thesis
      using fr b by (auto simp: nasysfs_create_dev_info_def Let_def ENOMEM_def)
  next
    case False
    let ?s = "upd (\<lambda>i. i\<lparr>ri_dir := (ri_dir i)(D_devinfo := True)\<rparr>) (acquire (R_dir p D_devinfo) (acquire (R_kobj_type p) s))"
    have e: "?f s = (0, ?s)"
      using False rc by (simp add: nasysfs_create_dev_info_def Let_def)
    have "built p gpios ports bd L0 c (insert (C_Dir D_devinfo) K) {} ?s"
      by (rule built_dir[OF b]) (use b in \<open>auto simp: built_def\<close>)
    then show ?thesis
      using e by simp
  qed
qed

lemma base_fresh:
  assumes "built p gpios ports bd L0 c K {} s" "C_Base b \<notin> K" "b \<notin> {B_drv_info, B_dma}"
  shows "R_base p b \<notin> kr_ledger s"
  by (rule built_fresh[OF assms(1)])
    (use assms(2,3) in \<open>auto simp: sysfs_res_def\<close>)

lemma stage_base:
  assumes bb: "b \<notin> {B_drv_info, B_dma}"
  shows "stage p gpios ports bd L0 c {C_Base b} (create_base rc p b)"
proof (rule stageI)
  fix K s
  let ?f = "create_base rc p b"
  assume n: "{C_Base b} \<inter> K = {}" and bt: "built p gpios ports bd L0 c K {} s"
  show "(\<exists>lk'. fst (?f s) \<noteq> 0 \<and> built p gpios ports bd L0 c K lk' (snd (?f s))) \<or>
    built p gpios ports bd L0 c ({C_Base b} \<union> K) {} (snd (?f s))"
  proof (cases "rc (S_base b) \<noteq> 0")
    case True
    then show ?thesis
      using bt by (auto simp: create_base_def ENOMEM_def)
  next
    case False
    let ?s = "upd (\<lambda>i. i\<lparr>ri_base := (ri_base i)(b := True)\<rparr>) (acquire (R_base p b) s)"
    have e: "?f s = (0, ?s)"
      using False by (simp add: create_base_def)
    have "pointers_ok gpios ports (insert (C_Base b) K) bd (kr_info ?s)"
      using bt bb not_sym[of b B_drv_info] not_sym[of b B_dma] unfolding built_def pointers_ok_def by auto
    then have "built p gpios ports bd L0 c (insert (C_Base b) K) {} ?s"
      using bt bb unfolding built_def by auto
    then show ?thesis
      using e by simp
  qed
qed

text \<open>The loop over the entries makes \<open>k\<close> of them.\<close>

definition entries_made :: "nat \<Rightarrow> sysgroup \<Rightarrow> (nat \<Rightarrow> nat) \<Rightarrow> (nat \<Rightarrow> bool) \<Rightarrow> nat \<Rightarrow> nat \<Rightarrow> kreg \<Rightarrow> kreg \<Rightarrow> bool" where
  "entries_made p g cnt a i k s s' \<longleftrightarrow>
     kr_fault s' = kr_fault s \<and> kcore s' = kcore s \<and> kr_ledger s' = kr_ledger s \<union> R_entry p g ` {i..<i + k} \<and>
     kr_info s' = (kr_info s)\<lparr>ri_group := (ri_group (kr_info s))(g := (ri_group (kr_info s) g)
       \<lparr>rg_att := Some (\<lambda>j. a j \<or> i \<le> j \<and> j < i + k),
        rg_attcnt := (if k = 0 then rg_attcnt (ri_group (kr_info s) g) else cnt (i + k - 1))\<rparr>)\<rparr>"

lemma entries_made_0:
  assumes "rg_att (ri_group (kr_info s) g) = Some a"
  shows "entries_made p g cnt a i 0 s s"
proof -
  have f: "(\<lambda>j. a j \<or> i \<le> j \<and> j < i) = a"
    by auto
  have x: "rg_att x = Some a \<Longrightarrow> x\<lparr>rg_att := Some a\<rparr> = x" for x :: rgroup
    by (cases x) simp
  have y: "y\<lparr>ri_group := ri_group y\<rparr> = y" for y :: rdev
    by (cases y) simp
  show ?thesis
    using x[OF assms] by (simp add: entries_made_def f y)
qed

lemma entry_loop_made:
  assumes "rg_att (ri_group (kr_info s) g) = Some a" "\<forall>j\<ge>i. R_entry p g j \<notin> kr_ledger s"
  shows "\<exists>k\<le>n. (fst (entry_loop rc p g cnt i n s) \<longrightarrow> k = n) \<and> entries_made p g cnt a i k s (snd (entry_loop rc p g cnt i n s))"
  using assms
proof (induction n arbitrary: i s a)
  case 0
  then show ?case
    using entries_made_0[of s g a p cnt i] by simp
next
  case (Suc n)
  have fr: "R_entry p g i \<notin> kr_ledger s"
    using Suc.prems(2) by simp
  show ?case
  proof (cases "rc (S_entry_mem g i) \<noteq> 0 \<or> rc (S_entry_add g i) \<noteq> 0")
    case True
    then have "entry_loop rc p g cnt i (Suc n) s = (False, s)"
      using fr by (auto simp: Let_def)
    then show ?thesis
      using entries_made_0[of s g a p cnt i, OF Suc.prems(1)] by auto
  next
    case False
    define t where "t = upd_group g (\<lambda>x. x\<lparr>rg_attcnt := cnt i\<rparr>) (store_entry g i (acquire (R_entry p g i) s))"
    have e: "entry_loop rc p g cnt i (Suc n) s = entry_loop rc p g cnt (Suc i) n t"
      using False by (simp add: t_def Let_def)
    have ti: "kr_info t = (kr_info s)\<lparr>ri_group := (ri_group (kr_info s))(g := (ri_group (kr_info s) g)
        \<lparr>rg_att := Some (a(i := True)), rg_attcnt := cnt i\<rparr>)\<rparr>"
      using Suc.prems(1) by (simp add: t_def store_entry_def)
    have tt: "kr_fault t = kr_fault s" "kcore t = kcore s" "kr_ledger t = insert (R_entry p g i) (kr_ledger s)"
      using Suc.prems(1) by (simp_all add: t_def store_entry_def)
    have "rg_att (ri_group (kr_info t) g) = Some (a(i := True))"
      by (simp add: ti)
    moreover have "\<forall>j\<ge>Suc i. R_entry p g j \<notin> kr_ledger t"
      using Suc.prems(2) tt by auto
    ultimately obtain k where k: "k \<le> n" "fst (entry_loop rc p g cnt (Suc i) n t) \<longrightarrow> k = n"
      "entries_made p g cnt (a(i := True)) (Suc i) k t (snd (entry_loop rc p g cnt (Suc i) n t))"
      using Suc.IH[of t "a(i := True)" "Suc i"] by blast
    have f: "(\<lambda>j. (a(i := True)) j \<or> Suc i \<le> j \<and> j < Suc i + k) = (\<lambda>j. a j \<or> i \<le> j \<and> j < i + Suc k)"
      by (auto simp: fun_eq_iff)
    have r: "insert (R_entry p g i) (kr_ledger s) \<union> R_entry p g ` {Suc i..<Suc i + k} = kr_ledger s \<union> R_entry p g ` {i..<i + Suc k}"
    proof -
      have "{i..<i + Suc k} = insert i {Suc i..<Suc i + k}"
        by auto
      then show ?thesis by auto
    qed
    have "entries_made p g cnt a i (Suc k) s (snd (entry_loop rc p g cnt (Suc i) n t))"
      using k(3) unfolding entries_made_def f tt r ti by (cases "k = 0") simp_all
    then show ?thesis
      using k(1,2) unfolding e by (intro exI[of _ "Suc k"]) auto
  qed
qed

text \<open>How a group enters the tree, and what an error leaves.\<close>

lemma built_group:
  assumes b: "built p gpios ports bd L0 c K {} s"
    and i: "kr_info s' = (kr_info s)\<lparr>ri_group := (ri_group (kr_info s))(g := x),
              ri_fbuf := (if g = G_filter then (\<lambda>_. True) else ri_fbuf (kr_info s))\<rparr>"
    and x: "rg_kobj x" "rg_att x = Some (\<lambda>j. j < group_size gpios ports g)" "rg_attcnt x = group_size gpios ports g"
      "g = G_filter \<Longrightarrow> rg_len x = gpios \<and> gpios \<noteq> 0"
    and s': "\<not> kr_fault s'" "kcore s' = kcore s" "kr_ledger s' = comp_res p gpios ports (C_Group g) \<union> kr_ledger s"
  shows "built p gpios ports bd L0 c (insert (C_Group g) K) {} s'"
proof -
  have P: "pointers_ok gpios ports K bd (kr_info s)"
    using b unfolding built_def by blast
  have "pointers_ok gpios ports (insert (C_Group g) K) bd (kr_info s')"
    using P x unfolding pointers_ok_def i by (cases "g = G_filter") auto
  then show ?thesis
    using b s' unfolding built_def by auto
qed

lemma built_failed_group:
  assumes b: "built p gpios ports bd L0 c K {} s" and n: "C_Group g \<notin> K"
    and i: "kr_info s' = (kr_info s)\<lparr>ri_group := (ri_group (kr_info s))(g := x), ri_fbuf := \<lambda>f. ri_fbuf (kr_info s) f \<and> g \<noteq> G_filter\<rparr>"
    and x: "\<not> rg_kobj x" "rg_att x = None \<or> g = G_filter \<and> rg_att x = Some (\<lambda>_. False) \<and> rg_len x = gpios \<and> gpios \<noteq> 0"
    and s': "\<not> kr_fault s'" "kcore s' = kcore s" "kr_ledger s' = kr_ledger s \<union> lk" "\<forall>r\<in>lk. leakable p r"
  shows "built p gpios ports bd L0 c K lk s'"
proof -
  have P: "pointers_ok gpios ports K bd (kr_info s)"
    using b unfolding built_def by blast
  have "pointers_ok gpios ports K bd (kr_info s')"
    using P x n unfolding pointers_ok_def i by (cases "g = G_filter") auto
  then show ?thesis
    using b s' unfolding built_def by auto
qed

lemma group_fresh:
  assumes "built p gpios ports bd L0 c K {} s" "C_Group g \<notin> K"
  shows "R_group p g \<notin> kr_ledger s" "R_att p g \<notin> kr_ledger s" "R_entry p g j \<notin> kr_ledger s"
    "g = G_filter \<Longrightarrow> R_fbuf p f \<notin> kr_ledger s"
proof -
  have "r \<notin> kr_ledger s" if "sysfs_res p r" "\<And>k. k \<in> K \<Longrightarrow> r \<notin> comp_res p gpios ports k" for r
    using built_fresh[OF assms(1) that] .
  note f = this
  show "R_group p g \<notin> kr_ledger s" "R_att p g \<notin> kr_ledger s" "R_entry p g j \<notin> kr_ledger s"
    by (rule f; use assms(2) in \<open>auto simp: sysfs_res_def\<close>)+
  show "g = G_filter \<Longrightarrow> R_fbuf p f \<notin> kr_ledger s"
    by (rule f; use assms(2) in \<open>auto simp: sysfs_res_def\<close>)
qed

text \<open>A group with \<open>k\<close> entries in the making.\<close>

definition group_begun :: "nat \<Rightarrow> sysgroup \<Rightarrow> nat \<Rightarrow> rgroup \<Rightarrow> kreg \<Rightarrow> kreg \<Rightarrow> bool" where
  "group_begun p g k x s s2 \<longleftrightarrow>
     kr_fault s2 = kr_fault s \<and> kcore s2 = kcore s \<and> kr_ledger s2 = kr_ledger s \<union> {R_group p g, R_att p g} \<union> R_entry p g ` {..<k} \<and>
     kr_info s2 = (kr_info s)\<lparr>ri_group := (ri_group (kr_info s))(g := x)\<rparr> \<and> rg_kobj x \<and> rg_att x = Some (\<lambda>j. j < k)"

lemma alloc_begun:
  assumes "rc (S_att g) = 0"
  shows "group_begun p g 0 ((ri_group (kr_info s) g)\<lparr>rg_att := Some (\<lambda>_. False), rg_len := n, rg_kobj := True\<rparr>) s
    (upd_group g (\<lambda>x. x\<lparr>rg_kobj := True\<rparr>) (alloc_att rc p g n (acquire (R_group p g) s)))"
  using assms by (auto simp: group_begun_def alloc_att_def)

lemma group_begun_entries:
  assumes b: "group_begun p g k x s s2" and e: "entries_made p g cnt (\<lambda>j. j < k) k m s2 s3"
  shows "group_begun p g (k + m) (x\<lparr>rg_att := Some (\<lambda>j. j < k + m),
    rg_attcnt := (if m = 0 then rg_attcnt x else cnt (k + m - 1))\<rparr>) s s3"
proof -
  have f: "(\<lambda>j. j < k \<or> k \<le> j \<and> j < k + m) = (\<lambda>j. j < k + m)"
    by auto
  have "{..<k} \<union> {k..<k + m} = {..<k + m}"
    by auto
  then have r: "R_entry p g ` {..<k} \<union> R_entry p g ` {k..<k + m} = R_entry p g ` {..<k + m}"
    by (simp flip: image_Un)
  have l: "kr_ledger s3 = kr_ledger s \<union> {R_group p g, R_att p g} \<union> R_entry p g ` {..<k + m}"
    using b e unfolding group_begun_def entries_made_def r[symmetric] by (simp add: Un_assoc)
  have i2: "kr_info s2 = (kr_info s)\<lparr>ri_group := (ri_group (kr_info s))(g := x)\<rparr>" and x: "rg_kobj x"
    using b unfolding group_begun_def by auto
  have i3: "kr_info s3 = (kr_info s2)\<lparr>ri_group := (ri_group (kr_info s2))(g := (ri_group (kr_info s2) g)
      \<lparr>rg_att := Some (\<lambda>j. j < k + m), rg_attcnt := (if m = 0 then rg_attcnt (ri_group (kr_info s2) g) else cnt (k + m - 1))\<rparr>)\<rparr>"
    using e unfolding entries_made_def f by blast
  have "kr_info s3 = (kr_info s)\<lparr>ri_group := (ri_group (kr_info s))(g := x\<lparr>rg_att := Some (\<lambda>j. j < k + m),
      rg_attcnt := (if m = 0 then rg_attcnt x else cnt (k + m - 1))\<rparr>)\<rparr>"
    unfolding i3 i2 by simp
  then show ?thesis
    using b e l x unfolding group_begun_def entries_made_def by simp
qed

lemma group_loop_begun:
  assumes b: "group_begun p g k x s s2" and fr: "\<And>j. R_entry p g j \<notin> kr_ledger s"
  obtains m where "m \<le> n" "fst (entry_loop rc p g cnt k n s2) \<longrightarrow> m = n"
    "group_begun p g (k + m) (x\<lparr>rg_att := Some (\<lambda>j. j < k + m),
       rg_attcnt := (if m = 0 then rg_attcnt x else cnt (k + m - 1))\<rparr>) s (snd (entry_loop rc p g cnt k n s2))"
proof -
  have "rg_att (ri_group (kr_info s2) g) = Some (\<lambda>j. j < k)" "\<forall>j\<ge>k. R_entry p g j \<notin> kr_ledger s2"
    using b fr unfolding group_begun_def by auto
  from entry_loop_made[OF this, of n rc cnt] obtain m where m: "m \<le> n"
    "fst (entry_loop rc p g cnt k n s2) \<longrightarrow> m = n" "entries_made p g cnt (\<lambda>j. j < k) k m s2 (snd (entry_loop rc p g cnt k n s2))"
    by blast
  show ?thesis
    by (rule that[OF m(1,2) group_begun_entries[OF b m(3)]])
qed

lemma begun_complete:
  assumes b: "built p gpios ports bd L0 c K {} s" and g: "group_begun p g (group_size gpios ports g) x s s2" "g \<noteq> G_filter"
    and x: "rg_attcnt x = group_size gpios ports g"
  shows "built p gpios ports bd L0 c (insert (C_Group g) K) {} s2"
proof (rule built_group[OF b])
  show "kr_info s2 = (kr_info s)\<lparr>ri_group := (ri_group (kr_info s))(g := x),
      ri_fbuf := (if g = G_filter then (\<lambda>_. True) else ri_fbuf (kr_info s))\<rparr>"
    using g by (simp add: group_begun_def)
  show "kr_ledger s2 = comp_res p gpios ports (C_Group g) \<union> kr_ledger s"
    using g by (auto simp: group_begun_def)
qed (use b g x in \<open>auto simp: group_begun_def built_def\<close>)

lemma cleanup_begun:
  assumes fr: "\<And>j. R_entry p g j \<notin> kr_ledger s" "R_att p g \<notin> kr_ledger s" and g: "group_begun p g k x s s2"
  shows "kr_fault (cleanup_objset p g (rg_attcnt x) s2) = kr_fault s \<and> kcore (cleanup_objset p g (rg_attcnt x) s2) = kcore s \<and>
    kr_info (cleanup_objset p g (rg_attcnt x) s2) =
      (kr_info s)\<lparr>ri_group := (ri_group (kr_info s))(g := x\<lparr>rg_att := None, rg_attcnt := 0\<rparr>)\<rparr> \<and>
    kr_ledger (cleanup_objset p g (rg_attcnt x) s2) =
      insert (R_group p g) (kr_ledger s) \<union> R_entry p g ` {i. i < k \<and> \<not> (1 \<le> i \<and> i < rg_attcnt x)}"
proof -
  have a: "rg_att (ri_group (kr_info s2) g) = Some (\<lambda>j. j < k)"
    and i2: "kr_info s2 = (kr_info s)\<lparr>ri_group := (ri_group (kr_info s))(g := x)\<rparr>"
    and l2: "kr_ledger s2 = kr_ledger s \<union> {R_group p g, R_att p g} \<union> R_entry p g ` {..<k}"
    and f2: "kr_fault s2 = kr_fault s" "kcore s2 = kcore s"
    using g by (auto simp: group_begun_def)
  note c = cleanup_objset_some[OF a, of p "rg_attcnt x"]
  have i: "kr_info (cleanup_objset p g (rg_attcnt x) s2) =
      (kr_info s)\<lparr>ri_group := (ri_group (kr_info s))(g := x\<lparr>rg_att := None, rg_attcnt := 0\<rparr>)\<rparr>"
    using c unfolding i2 by simp
  have f: "kr_fault (cleanup_objset p g (rg_attcnt x) s2) = kr_fault s"
    using c f2 by (auto simp: l2)
  have l: "kr_ledger (cleanup_objset p g (rg_attcnt x) s2)
      = kr_ledger s2 - R_entry p g ` {i \<in> {1..<rg_attcnt x}. i < k} - {R_att p g}"
    using c by blast
  have "kr_ledger (cleanup_objset p g (rg_attcnt x) s2) =
      insert (R_group p g) (kr_ledger s) \<union> R_entry p g ` {i. i < k \<and> \<not> (1 \<le> i \<and> i < rg_attcnt x)}"
    using fr unfolding l l2 by auto
  then show ?thesis
    using i f c f2 by auto
qed

text \<open>The resources an error of a group leaves.\<close>

definition left_entries :: "nat \<Rightarrow> sysgroup \<Rightarrow> nat \<Rightarrow> nat \<Rightarrow> res set" where
  "left_entries p g k cnt = R_entry p g ` {i. i < k \<and> \<not> (1 \<le> i \<and> i < cnt)}"

lemma left_entries_leakable:
  "g = G_gpio \<or> cnt = k \<or> k = 0 \<Longrightarrow> \<forall>r\<in>left_entries p g k cnt. leakable p r"
  by (auto simp: left_entries_def leakable_def)

lemma drop_begun:
  assumes b: "built p gpios ports bd L0 c K {} s" and n: "C_Group g \<notin> K" and g: "group_begun p g k x s s2" "g \<noteq> G_filter"
    and x: "g = G_gpio \<or> rg_attcnt x = k \<or> k = 0"
  shows "built p gpios ports bd L0 c K (left_entries p g k (rg_attcnt x)) (drop_group p g s2)"
proof (rule built_failed_group[OF b n])
  note fr = group_fresh[OF b n]
  note c = cleanup_begun[OF fr(3) fr(2) g(1), folded left_entries_def]
  have x2: "ri_group (kr_info s2) g = x"
    using g(1) by (simp add: group_begun_def)
  have d: "drop_group p g s2 = give_back (R_group p g) (upd_group g (\<lambda>x. x\<lparr>rg_kobj := False\<rparr>) (cleanup_objset p g (rg_attcnt x) s2))"
    by (simp add: drop_group_def x2)
  show "kr_info (drop_group p g s2) = (kr_info s)\<lparr>ri_group := (ri_group (kr_info s))
      (g := x\<lparr>rg_att := None, rg_attcnt := 0, rg_kobj := False\<rparr>), ri_fbuf := \<lambda>f. ri_fbuf (kr_info s) f \<and> g \<noteq> G_filter\<rparr>"
    using c g(2) by (simp add: d)
  have "R_group p g \<notin> left_entries p g k (rg_attcnt x)"
    by (auto simp: left_entries_def)
  then show "kr_ledger (drop_group p g s2) = kr_ledger s \<union> left_entries p g k (rg_attcnt x)"
    using c fr(1) by (auto simp: d)
  show "\<not> kr_fault (drop_group p g s2)" "kcore (drop_group p g s2) = kcore s"
    using b c by (auto simp: d built_def)
  show "\<forall>r\<in>left_entries p g k (rg_attcnt x). leakable p r"
    by (rule left_entries_leakable[OF x])
qed simp_all

lemma stage_port_group:
  assumes rc: "rc (S_att g) = 0" and g: "g \<in> {G_port, G_phy}"
  shows "stage p gpios ports bd L0 c {C_Group g} (create_port_group rc p g ports)"
proof (rule stageI)
  fix K s
  let ?f = "create_port_group rc p g ports"
  assume n: "{C_Group g} \<inter> K = {}" and b: "built p gpios ports bd L0 c K {} s"
  from n have n': "C_Group g \<notin> K" by simp
  have gs: "group_size gpios ports g = ports" "g \<noteq> G_filter"
    using g by auto
  show "(\<exists>lk'. fst (?f s) \<noteq> 0 \<and> built p gpios ports bd L0 c K lk' (snd (?f s))) \<or>
    built p gpios ports bd L0 c ({C_Group g} \<union> K) {} (snd (?f s))"
  proof (cases "ports = 0 \<or> rc (S_group g) \<noteq> 0")
    case True
    then show ?thesis
      using b by (auto simp: create_port_group_def ENOMEM_def)
  next
    case False
    define s1 where "s1 = upd_group g (\<lambda>x. x\<lparr>rg_kobj := True\<rparr>) (alloc_att rc p g ports (acquire (R_group p g) s))"
    define x where "x = (ri_group (kr_info s) g)\<lparr>rg_att := Some (\<lambda>_. False), rg_len := ports, rg_kobj := True\<rparr>"
    have b1: "group_begun p g 0 x s s1"
      unfolding s1_def x_def by (rule alloc_begun[where rc=rc and g=g, OF rc])
    obtain m where m: "m \<le> ports" "fst (entry_loop rc p g Suc 0 ports s1) \<longrightarrow> m = ports"
      "group_begun p g (0 + m) (x\<lparr>rg_att := Some (\<lambda>j. j < 0 + m),
         rg_attcnt := (if m = 0 then rg_attcnt x else Suc (0 + m - 1))\<rparr>) s (snd (entry_loop rc p g Suc 0 ports s1))"
      by (rule group_loop_begun[OF b1 group_fresh(3)[OF b n']])
    have e: "?f s = (if fst (entry_loop rc p g Suc 0 ports s1) then (0, snd (entry_loop rc p g Suc 0 ports s1))
        else (- ENOMEM, drop_group p g (snd (entry_loop rc p g Suc 0 ports s1))))"
      using False by (simp add: create_port_group_def s1_def Let_def split_beta)
    show ?thesis
    proof (cases "fst (entry_loop rc p g Suc 0 ports s1)")
      case True
      have mp: "m = ports"
        using True m(2) by simp
      have "built p gpios ports bd L0 c (insert (C_Group g) K) {} (snd (entry_loop rc p g Suc 0 ports s1))"
      proof (rule begun_complete[OF b _ gs(2)])
        show "group_begun p g (group_size gpios ports g) (x\<lparr>rg_att := Some (\<lambda>j. j < ports), rg_attcnt := ports\<rparr>) s
            (snd (entry_loop rc p g Suc 0 ports s1))"
          using m(3) mp False gs by simp
        show "rg_attcnt (x\<lparr>rg_att := Some (\<lambda>j. j < ports), rg_attcnt := ports\<rparr>) = group_size gpios ports g"
          using gs by simp
      qed
      then show ?thesis
        using True e by simp
    next
      case ok: False
      have "built p gpios ports bd L0 c K (left_entries p g (0 + m) (if m = 0 then rg_attcnt x else Suc (0 + m - 1)))
          (drop_group p g (snd (entry_loop rc p g Suc 0 ports s1)))"
        using drop_begun[OF b n' m(3) gs(2)] by simp
      then show ?thesis
        using ok e by (auto simp: ENOMEM_def)
    qed
  qed
qed

lemma stage_gpio:
  assumes rc: "rc (S_att G_gpio) = 0"
  shows "stage p gpios ports bd L0 c (if gpios = 0 then {} else {C_Group G_gpio}) (nasysfs_create_gpio_dir rc p gpios)"
proof (rule stageI)
  fix K s
  let ?f = "nasysfs_create_gpio_dir rc p gpios" and ?g = G_gpio
  let ?new = "if gpios = 0 then {} else {C_Group G_gpio}"
  assume n: "?new \<inter> K = {}" and b: "built p gpios ports bd L0 c K {} s"
  show "(\<exists>lk'. fst (?f s) \<noteq> 0 \<and> built p gpios ports bd L0 c K lk' (snd (?f s))) \<or>
    built p gpios ports bd L0 c (?new \<union> K) {} (snd (?f s))"
  proof (cases "gpios = 0 \<or> rc (S_group ?g) \<noteq> 0")
    case True
    then show ?thesis
      using b by (auto simp: nasysfs_create_gpio_dir_def ENOMEM_def)
  next
    case False
    then have n': "C_Group ?g \<notin> K"
      using n by simp
    define s1 where "s1 = upd_group ?g (\<lambda>x. x\<lparr>rg_kobj := True\<rparr>) (alloc_att rc p ?g (gpios + 1) (acquire (R_group p ?g) s))"
    define x where "x = (ri_group (kr_info s) ?g)\<lparr>rg_att := Some (\<lambda>_. False), rg_len := gpios + 1, rg_kobj := True\<rparr>"
    have b1: "group_begun p ?g 0 x s s1"
      unfolding s1_def x_def by (rule alloc_begun[where rc=rc and g="?g", OF rc])
    note fr = group_fresh(3)[OF b n']
    obtain m where m: "m \<le> gpios" "fst (entry_loop rc p ?g id 0 gpios s1) \<longrightarrow> m = gpios"
      "group_begun p ?g (0 + m) (x\<lparr>rg_att := Some (\<lambda>j. j < 0 + m),
         rg_attcnt := (if m = 0 then rg_attcnt x else id (0 + m - 1))\<rparr>) s (snd (entry_loop rc p ?g id 0 gpios s1))"
      by (rule group_loop_begun[OF b1 fr])
    define s2 where "s2 = snd (entry_loop rc p ?g id 0 gpios s1)"
    have e: "?f s = (if \<not> fst (entry_loop rc p ?g id 0 gpios s1) then (- ENOMEM, drop_group p ?g s2)
        else if fst (entry_loop rc p ?g Suc gpios 1 s2) then (0, snd (entry_loop rc p ?g Suc gpios 1 s2))
        else (- ENOMEM, drop_group p ?g (snd (entry_loop rc p ?g Suc gpios 1 s2))))"
      using False by (simp add: nasysfs_create_gpio_dir_def s1_def s2_def Let_def split_beta)
    have drop: "\<exists>lk'. built p gpios ports bd L0 c K lk' (drop_group p ?g s3)" if "group_begun p ?g k y s s3" for k y s3
      using drop_begun[OF b n' that] by blast
    show ?thesis
    proof (cases "fst (entry_loop rc p ?g id 0 gpios s1)")
      case ok: False
      then show ?thesis
        using drop[OF m(3), folded s2_def] e by (simp add: ENOMEM_def)
    next
      case ok: True
      define y where "y = x\<lparr>rg_att := Some (\<lambda>j. j < gpios), rg_attcnt := gpios - 1\<rparr>"
      have b2: "group_begun p ?g gpios y s s2"
        using m(3) m(2) ok False by (simp add: y_def s2_def)
      obtain m' where m': "m' \<le> 1" "fst (entry_loop rc p ?g Suc gpios 1 s2) \<longrightarrow> m' = 1"
        "group_begun p ?g (gpios + m') (y\<lparr>rg_att := Some (\<lambda>j. j < gpios + m'),
           rg_attcnt := (if m' = 0 then rg_attcnt y else Suc (gpios + m' - 1))\<rparr>) s (snd (entry_loop rc p ?g Suc gpios 1 s2))"
        by (rule group_loop_begun[OF b2 fr])
      show ?thesis
      proof (cases "fst (entry_loop rc p ?g Suc gpios 1 s2)")
        case True
        have "built p gpios ports bd L0 c (insert (C_Group ?g) K) {} (snd (entry_loop rc p ?g Suc gpios 1 s2))"
        proof (rule begun_complete[OF b])
          show "group_begun p ?g (group_size gpios ports ?g) (y\<lparr>rg_att := Some (\<lambda>j. j < Suc gpios), rg_attcnt := Suc gpios\<rparr>) s
              (snd (entry_loop rc p ?g Suc gpios 1 s2))"
            using m'(3) m'(2) True by simp
        qed simp_all
        then show ?thesis
          using ok True e False by simp
      next
        case False
        then show ?thesis
          using drop[OF m'(3)] e ok by (simp add: ENOMEM_def)
      qed
    qed
  qed
qed

text \<open>The four buffers of the filters.\<close>

definition with_fbufs :: "nat \<Rightarrow> filterbuf set \<Rightarrow> kreg \<Rightarrow> kreg" where
  "with_fbufs p A s = s\<lparr>kr_ledger := kr_ledger s \<union> R_fbuf p ` A, kr_info := (kr_info s)\<lparr>ri_fbuf := \<lambda>f. f \<in> A\<rparr>\<rparr>"

lemma with_fbufs_simps [simp]:
  "kr_ledger (with_fbufs p A s) = kr_ledger s \<union> R_fbuf p ` A" "kr_fault (with_fbufs p A s) = kr_fault s"
  "kr_info (with_fbufs p A s) = (kr_info s)\<lparr>ri_fbuf := \<lambda>f. f \<in> A\<rparr>" "kcore (with_fbufs p A s) = kcore s"
  by (simp_all add: with_fbufs_def kcore_def)

lemma alloc_fbufs_made:
  assumes "A \<inter> set fs = {}" "distinct fs"
  shows "\<exists>B. A \<subseteq> B \<and> (fst (alloc_fbufs rc p fs (with_fbufs p A s)) \<longrightarrow> B = A \<union> set fs) \<and>
    snd (alloc_fbufs rc p fs (with_fbufs p A s)) = with_fbufs p B s"
  using assms
proof (induction fs arbitrary: A)
  case Nil
  then show ?case by auto
next
  case (Cons f fs)
  have g: "(\<lambda>g. g \<in> A)(f := False) = (\<lambda>g. g \<in> A)" if "f \<notin> A"
    using that by (auto simp: fun_eq_iff)
  have t: "(\<lambda>g. g \<in> A)(f := True) = (\<lambda>g. g \<in> insert f A)"
    by (auto simp: fun_eq_iff)
  show ?case
  proof (cases "rc (S_fbuf f) \<noteq> 0")
    case True
    have "upd (\<lambda>i. i\<lparr>ri_fbuf := (ri_fbuf i)(f := False)\<rparr>) (with_fbufs p A s) = with_fbufs p A s"
      using Cons.prems g by (simp add: upd_def with_fbufs_def)
    then show ?thesis
      using True by auto
  next
    case False
      have e: "upd (\<lambda>i. i\<lparr>ri_fbuf := (ri_fbuf i)(f := True)\<rparr>) (acquire (R_fbuf p f) (with_fbufs p A s)) = with_fbufs p (insert f A) s"
        by (simp add: upd_def acquire_def with_fbufs_def t)
      have "insert f A \<inter> set fs = {}"
        using Cons.prems by auto
      from Cons.IH[OF this] show ?thesis
        using False e Cons.prems(2) by auto
  qed
qed

lemma free_fbufs_info: "kr_info (free_fbufs p s) = (kr_info s)\<lparr>ri_fbuf := \<lambda>_. False\<rparr>"
proof -
  have 1: "kr_info (free_fbuf p f t) = (kr_info t)\<lparr>ri_fbuf := (ri_fbuf (kr_info t))(f := False)\<rparr>" for f t
  proof (cases "ri_fbuf (kr_info t) f")
    case False
    then have "(ri_fbuf (kr_info t))(f := False) = ri_fbuf (kr_info t)"
      by (auto simp: fun_eq_iff)
    moreover have "i\<lparr>ri_fbuf := ri_fbuf i\<rparr> = i" for i :: rdev
      by (cases i) simp
    ultimately show ?thesis
      using False by (simp add: free_fbuf_def)
  qed (simp add: free_fbuf_def)
  have "(u(F_vala := False, F_maska := False, F_valb := False, F_maskb := False)) f = False" for u :: "filterbuf \<Rightarrow> bool" and f
    by (cases f) simp_all
  then have "u(F_vala := False, F_maska := False, F_valb := False, F_maskb := False) = (\<lambda>_. False)" for u :: "filterbuf \<Rightarrow> bool"
    by (simp add: fun_eq_iff)
  then show ?thesis
    by (simp add: free_fbufs_def 1)
qed

lemma with_no_fbufs:
  assumes "\<forall>f. \<not> ri_fbuf (kr_info s) f"
  shows "with_fbufs p {} s = s"
proof -
  have "(\<lambda>f. f \<in> {}) = ri_fbuf (kr_info s)"
    using assms by (auto simp: fun_eq_iff)
  moreover have "i\<lparr>ri_fbuf := ri_fbuf i\<rparr> = i" for i :: rdev
    by (cases i) simp
  moreover have "t\<lparr>kr_ledger := kr_ledger t, kr_info := kr_info t\<rparr> = t" for t :: kreg
    by (cases t) simp
  ultimately show ?thesis
    by (simp add: with_fbufs_def)
qed

text \<open>The error labels of the filter directory, from a state with the buffers \<open>A\<close>.\<close>

lemma filter_error:
  assumes b: "built p gpios ports bd L0 c K {} s" and n: "C_Group G_filter \<notin> K"
    and t: "kr_fault t = kr_fault s" "kcore t = kcore s"
      "kr_info t = (kr_info s)\<lparr>ri_group := (ri_group (kr_info s))(G_filter := x), ri_fbuf := \<lambda>f. f \<in> A\<rparr>"
      "kr_ledger t = insert (R_group p G_filter) (kr_ledger s) \<union> R_fbuf p ` A \<union> lk"
    and lk: "\<forall>r\<in>lk. leakable p r" and x: "\<not> rg_kobj x"
      "rg_att x = None \<or> rg_att x = Some (\<lambda>_. False) \<and> rg_len x = gpios \<and> gpios \<noteq> 0"
  shows "built p gpios ports bd L0 c K lk (give_back (R_group p G_filter) (free_fbufs p t))"
proof (rule built_failed_group[OF b n])
  note fr = group_fresh[OF b n]
  have "R_fbuf p f \<notin> lk" "R_group p G_filter \<notin> lk" for f
    using lk by (auto simp: leakable_def)
  note fr' = fr this
  have "\<forall>f. ri_fbuf (kr_info t) f \<longrightarrow> R_fbuf p f \<in> kr_ledger t"
    by (simp add: t)
  note f = free_fbufs_ok[OF this]
  have "{f. ri_fbuf (kr_info t) f} = A"
    by (simp add: t)
  then have l: "kr_ledger (free_fbufs p t) = kr_ledger t - R_fbuf p ` A"
    using f by simp
  show "kr_info (give_back (R_group p G_filter) (free_fbufs p t)) =
      (kr_info s)\<lparr>ri_group := (ri_group (kr_info s))(G_filter := x), ri_fbuf := \<lambda>f. ri_fbuf (kr_info s) f \<and> G_filter \<noteq> G_filter\<rparr>"
    by (simp add: free_fbufs_info t)
  show "\<not> kr_fault (give_back (R_group p G_filter) (free_fbufs p t))"
    "kcore (give_back (R_group p G_filter) (free_fbufs p t)) = kcore s"
    using f b t l by (auto simp: built_def)
  show "kr_ledger (give_back (R_group p G_filter) (free_fbufs p t)) = kr_ledger s \<union> lk"
    using fr' by (auto simp: l t)
qed (use lk x in auto)

lemma stage_filter:
  shows "stage p gpios ports bd L0 c (if gpios = 0 then {} else {C_Group G_filter}) (nasysfs_create_filter_dir rc p gpios)"
proof (rule stageI)
  fix K s
  let ?f = "nasysfs_create_filter_dir rc p gpios" and ?g = G_filter
  let ?new = "if gpios = 0 then {} else {C_Group G_filter}"
  assume n: "?new \<inter> K = {}" and b: "built p gpios ports bd L0 c K {} s"
  let ?goal = "(\<exists>lk'. fst (?f s) \<noteq> 0 \<and> built p gpios ports bd L0 c K lk' (snd (?f s))) \<or>
    built p gpios ports bd L0 c (?new \<union> K) {} (snd (?f s))"
  show ?goal
  proof (cases "gpios = 0 \<or> rc (S_group ?g) \<noteq> 0")
    case True
    then show ?thesis
      using b by (auto simp: nasysfs_create_filter_dir_def SUCCESS_def ENOMEM_def)
  next
    case ok1: False
    then have n': "C_Group ?g \<notin> K"
      using n by simp
    note fr = group_fresh[OF b n']
    have P: "pointers_ok gpios ports K bd (kr_info s)"
      using b unfolding built_def by blast
    have u: "\<forall>f. \<not> ri_fbuf (kr_info s) f" and k0: "\<not> rg_kobj (ri_group (kr_info s) ?g)"
      using P n' unfolding pointers_ok_def by blast+
    have u': "ri_fbuf (kr_info s) = (\<lambda>f. f \<in> {})"
      using u by (auto simp: fun_eq_iff)
    show ?thesis
    proof (cases "rc (S_att ?g) \<noteq> 0")
      case True
      let ?t = "alloc_att rc p ?g gpios (acquire (R_group p ?g) s)"
      have "built p gpios ports bd L0 c K {} (give_back (R_group p ?g) ?t)"
        by (rule built_failed_group[OF b n', where x="(ri_group (kr_info s) ?g)\<lparr>rg_att := None\<rparr>"])
          (use b True k0 fr(1) u' in \<open>auto simp: alloc_att_def built_def\<close>)
      then show ?thesis
        using True ok1 by (auto simp: nasysfs_create_filter_dir_def Let_def ENOMEM_def)
    next
      case ok2: False
      define s0 where "s0 = alloc_att rc p ?g gpios (acquire (R_group p ?g) s)"
      define x0 where "x0 = (ri_group (kr_info s) ?g)\<lparr>rg_att := Some (\<lambda>_. False), rg_len := gpios\<rparr>"
      have s0: "kr_info s0 = (kr_info s)\<lparr>ri_group := (ri_group (kr_info s))(?g := x0)\<rparr>" "kcore s0 = kcore s"
        "kr_fault s0 = kr_fault s" "kr_ledger s0 = insert (R_att p ?g) (insert (R_group p ?g) (kr_ledger s))"
        using ok2 by (simp_all add: s0_def x0_def alloc_att_def)
      have w0: "with_fbufs p {} s0 = s0"
        by (rule with_no_fbufs) (simp add: s0 u)
      let ?fs = "[F_vala, F_maska, F_valb, F_maskb]"
      have "{} \<inter> set ?fs = {}" "distinct ?fs"
        by simp_all
      from alloc_fbufs_made[OF this, where rc=rc and p=p and s=s0] obtain B where
        B: "fst (alloc_fbufs rc p ?fs s0) \<longrightarrow> B = set ?fs" "snd (alloc_fbufs rc p ?fs s0) = with_fbufs p B s0"
        unfolding w0 by auto
      show ?thesis
      proof (cases "fst (alloc_fbufs rc p ?fs s0)")
        case False
        have "built p gpios ports bd L0 c K {R_att p ?g} (give_back (R_group p ?g) (free_fbufs p (with_fbufs p B s0)))"
          by (rule filter_error[OF b n', where x=x0 and A=B])
            (use ok1 k0 in \<open>auto simp: s0 x0_def leakable_def\<close>)
        then show ?thesis
          using False B(2) ok1 ok2 by (auto simp: nasysfs_create_filter_dir_def Let_def ENOMEM_def split_beta simp flip: s0_def simp del: alloc_fbufs.simps)
      next
        case ok3: True
        have Ball: "f \<in> B" for f
          using B(1) ok3 by (cases f) auto
        define sF where "sF = with_fbufs p B s"
        define s1 where "s1 = upd_group ?g (\<lambda>x. x\<lparr>rg_kobj := True\<rparr>) (with_fbufs p B s0)"
        define x1 where "x1 = x0\<lparr>rg_kobj := True\<rparr>"
        have b1: "group_begun p ?g 0 x1 sF s1"
          by (auto simp: group_begun_def s1_def sF_def x1_def s0 x0_def)
        have frF: "R_entry p ?g j \<notin> kr_ledger sF" "R_att p ?g \<notin> kr_ledger sF" for j
          using fr by (auto simp: sF_def)
        obtain m where m: "m \<le> gpios" "fst (entry_loop rc p ?g Suc 0 gpios s1) \<longrightarrow> m = gpios"
          "group_begun p ?g (0 + m) (x1\<lparr>rg_att := Some (\<lambda>j. j < 0 + m),
             rg_attcnt := (if m = 0 then rg_attcnt x1 else Suc (0 + m - 1))\<rparr>) sF (snd (entry_loop rc p ?g Suc 0 gpios s1))"
          by (rule group_loop_begun[OF b1 frF(1)])
        define s2 where "s2 = snd (entry_loop rc p ?g Suc 0 gpios s1)"
        define x2 where "x2 = x1\<lparr>rg_att := Some (\<lambda>j. j < 0 + m), rg_attcnt := (if m = 0 then rg_attcnt x1 else Suc (0 + m - 1))\<rparr>"
        have g2: "group_begun p ?g m x2 sF s2"
          using m(3) by (simp add: s2_def x2_def)
        have e: "?f s = (if fst (entry_loop rc p ?g Suc 0 gpios s1) then (rc (S_entry_bin (gpios - 1) 3), s2)
            else (- ENOMEM, give_back (R_group p ?g) (free_fbufs p (upd_group ?g (\<lambda>x. x\<lparr>rg_kobj := False\<rparr>)
                    (cleanup_objset p ?g (rg_attcnt (ri_group (kr_info s2) ?g)) s2)))))"
          using ok1 ok2 ok3 B(2)
          by (simp add: nasysfs_create_filter_dir_def Let_def split_beta s2_def s1_def flip: s0_def del: alloc_fbufs.simps)
        show ?thesis
        proof (cases "fst (entry_loop rc p ?g Suc 0 gpios s1)")
          case True
          then have mg: "m = gpios"
            using m(2) by simp
          have "built p gpios ports bd L0 c (insert (C_Group ?g) K) {} s2"
          proof (rule built_group[OF b])
            show "kr_info s2 = (kr_info s)\<lparr>ri_group := (ri_group (kr_info s))(?g := x2),
                ri_fbuf := (if ?g = G_filter then (\<lambda>_. True) else ri_fbuf (kr_info s))\<rparr>"
              using g2 Ball by (simp add: group_begun_def sF_def)
            show "kr_ledger s2 = comp_res p gpios ports (C_Group ?g) \<union> kr_ledger s"
              using g2 Ball mg by (auto simp: group_begun_def sF_def)
            show "\<not> kr_fault s2" "kcore s2 = kcore s"
              using g2 b by (auto simp: group_begun_def sF_def built_def)
            show "rg_kobj x2" "rg_att x2 = Some (\<lambda>j. j < group_size gpios ports ?g)" "rg_attcnt x2 = group_size gpios ports ?g"
              "rg_len x2 = gpios \<and> gpios \<noteq> 0"
              using ok1 by (simp_all add: x2_def x1_def x0_def mg)
          qed
          then show ?thesis
            using True e ok1 by simp
        next
          case False
          note c = cleanup_begun[OF frF(1) frF(2) g2, folded left_entries_def]
          have x2i: "ri_group (kr_info s2) ?g = x2"
            using g2 by (simp add: group_begun_def)
          have "built p gpios ports bd L0 c K (left_entries p ?g m (rg_attcnt x2)) (give_back (R_group p ?g) (free_fbufs p
              (upd_group ?g (\<lambda>x. x\<lparr>rg_kobj := False\<rparr>) (cleanup_objset p ?g (rg_attcnt x2) s2))))"
          proof (rule filter_error[OF b n', where A=B])
            show "kr_info (upd_group ?g (\<lambda>x. x\<lparr>rg_kobj := False\<rparr>) (cleanup_objset p ?g (rg_attcnt x2) s2)) =
              (kr_info s)\<lparr>ri_group := (ri_group (kr_info s))(?g := x2\<lparr>rg_att := None, rg_attcnt := 0, rg_kobj := False\<rparr>),
                ri_fbuf := \<lambda>f. f \<in> B\<rparr>"
              using c by (simp add: sF_def)
            show "\<forall>r\<in>left_entries p ?g m (rg_attcnt x2). leakable p r"
              by (rule left_entries_leakable) (simp add: x2_def)
            show "kr_ledger (upd_group ?g (\<lambda>x. x\<lparr>rg_kobj := False\<rparr>) (cleanup_objset p ?g (rg_attcnt x2) s2)) =
              insert (R_group p ?g) (kr_ledger s) \<union> R_fbuf p ` B \<union> left_entries p ?g m (rg_attcnt x2)"
              using c by (auto simp: sF_def)
          qed (use c in \<open>simp_all add: sF_def\<close>)
          then show ?thesis
            using False e x2i by (auto simp: ENOMEM_def)
        qed
      qed
    qed
  qed
qed

section \<open>All entries\<close>

lemma stageD:
  assumes "stage p gpios ports bd L0 c new f" "new \<inter> K = {}" "built p gpios ports bd L0 c K {} s"
  obtains K' lk' where "built p gpios ports bd L0 c K' lk' (snd (f s))" "fst (f s) = 0 \<longrightarrow> K' = new \<union> K \<and> lk' = {}"
  using assms unfolding stage_def by blast

text \<open>\<open>news\<close> are the parts the steps add, each of them once.\<close>

fun parts_distinct :: "comp set list \<Rightarrow> comp set \<Rightarrow> bool" where
  "parts_distinct [] K = True"
| "parts_distinct (n # ns) K = (n \<inter> K = {} \<and> parts_distinct ns (n \<union> K))"

lemma run_stages:
  assumes "list_all2 (stage p gpios ports bd L0 c) news fs" "parts_distinct news K" "built p gpios ports bd L0 c K {} s"
  shows "\<exists>K' lk'. built p gpios ports bd L0 c K' lk' (snd (run_steps fs s)) \<and>
    (fst (run_steps fs s) \<longrightarrow> K' = K \<union> \<Union> (set news) \<and> lk' = {})"
  using assms
proof (induction news fs arbitrary: K s rule: list_all2_induct)
  case Nil
  then show ?case by auto
next
  case (Cons n ns f fs)
  obtain K' lk' where 1: "built p gpios ports bd L0 c K' lk' (snd (f s))" "fst (f s) = 0 \<longrightarrow> K' = n \<union> K \<and> lk' = {}"
    using stageD[OF Cons.hyps(1) _ Cons.prems(2)] Cons.prems(1) by auto
  show ?case
  proof (cases "fst (f s) = 0")
    case True
    then have "built p gpios ports bd L0 c (n \<union> K) {} (snd (f s))"
      using 1 by simp
    from Cons.IH[OF _ this] show ?thesis
      using True Cons.prems(1) by (simp add: split_beta Un_ac)
  next
    case False
    then show ?thesis
      using 1(1) by (auto simp: split_beta)
  qed
qed

text \<open>The sites whose failure the code does not survive.\<close>

definition survivable_sysfs :: "answers \<Rightarrow> bool" where
  "survivable_sysfs rc \<longleftrightarrow> (\<forall>g\<in>{G_gpio, G_port, G_phy}. rc (S_att g) = 0) \<and>
     rc (S_dir_add D_devinfo) = 0 \<and> rc (S_dir_bin D_devinfo) = 0 \<and> rc (S_dir_bin D_mbx) = 0"

definition all_parts :: "nat \<Rightarrow> comp set" where
  "all_parts gpios = range C_Dir \<union> C_Base ` (- {B_drv_info, B_dma}) \<union>
     C_Group ` (if gpios = 0 then {G_port, G_phy} else UNIV)"

definition step_parts :: "nat \<Rightarrow> comp set list" where
  "step_parts gpios = [{C_Dir D_drvinfo}, {C_Base B_dev_info}, {C_Dir D_devstate}, {C_Dir D_devinfo}, {C_Dir D_ident},
     {C_Dir D_features}, {C_Dir D_fwerror}, {C_Base B_hw},
     if gpios = 0 then {} else {C_Group G_filter}, if gpios = 0 then {} else {C_Group G_gpio},
     {C_Group G_port}, {C_Group G_phy}, {C_Base B_conf}, {C_Dir D_timeout}, {C_Base B_ctl},
     {C_Dir D_capture}, {C_Dir D_exec}, {C_Dir D_pi}, {C_Dir D_time}, {C_Dir D_mbx}]"

lemma step_parts_distinct: "parts_distinct (step_parts gpios) {}"
  by (simp add: step_parts_def)

lemma step_parts_all: "\<Union> (set (step_parts gpios)) = all_parts gpios"
proof (rule set_eqI)
  fix k
  show "k \<in> \<Union> (set (step_parts gpios)) \<longleftrightarrow> k \<in> all_parts gpios"
  proof (cases k)
    case (C_Base b)
    then show ?thesis by (cases b) (simp_all add: step_parts_def all_parts_def image_iff)
  next
    case (C_Dir d)
    then show ?thesis by (cases d) (simp_all add: step_parts_def all_parts_def image_iff)
  next
    case (C_Group g)
    then show ?thesis by (cases g) (simp_all add: step_parts_def all_parts_def image_iff)
  qed
qed

lemma stages:
  assumes "survivable_sysfs rc"
  shows "list_all2 (stage p gpios ports bd L0 c) (step_parts gpios) (sysfs_steps rc p gpios ports)"
proof -
  have d: "stage p gpios ports bd L0 c {C_Dir d} (\<lambda>s. create_dir rc p d s)" if "d \<noteq> D_devinfo" for d
    using stage_dir[OF that] by simp
  have e: "nasysfs_create_drv_info rc p = (\<lambda>s. create_dir rc p D_drvinfo s)"
    "nasysfs_create_dev_state_info rc p = (\<lambda>s. create_dir rc p D_devstate s)"
    "nasysfs_create_dev_features rc p = (\<lambda>s. create_dir rc p D_features s)"
    "nasysfs_create_fw_error rc p = (\<lambda>s. create_dir rc p D_fwerror s)"
    "nasysfs_create_capture_ctl rc p = (\<lambda>s. create_dir rc p D_capture s)"
    "nasysfs_create_exec_cmd rc p = (\<lambda>s. create_dir rc p D_exec s)"
    "nasysfs_create_pi_cfg rc p = (\<lambda>s. create_dir rc p D_pi s)"
    "nasysfs_create_time_cfg rc p = (\<lambda>s. create_dir rc p D_time s)"
    "nasysfs_create_timeout_cfg rc p = (\<lambda>s. create_dir rc p D_timeout s)"
    "nasysfs_create_port_dir rc p ports = create_port_group rc p G_port ports"
    "nasysfs_create_phy_dir rc p ports = create_port_group rc p G_phy ports"
    by (simp_all add: fun_eq_iff nasysfs_create_drv_info_def nasysfs_create_dev_state_info_def nasysfs_create_dev_features_def
      nasysfs_create_fw_error_def nasysfs_create_capture_ctl_def nasysfs_create_exec_cmd_def nasysfs_create_pi_cfg_def
      nasysfs_create_time_cfg_def nasysfs_create_timeout_cfg_def nasysfs_create_port_dir_def nasysfs_create_phy_dir_def)
  have rc: "rc (S_att G_gpio) = 0" "rc (S_att G_port) = 0" "rc (S_att G_phy) = 0"
    "rc (S_dir_add D_devinfo) = 0" "rc (S_dir_bin D_devinfo) = 0" "rc (S_dir_bin D_mbx) = 0"
    using assms by (simp_all add: survivable_sysfs_def)
  show ?thesis
    unfolding step_parts_def sysfs_steps_def e list_all2_Cons list_all2_Nil
    by (intro conjI d stage_base stage_devinfo stage_ident stage_mbx stage_port_group stage_gpio stage_filter rc TrueI) simp_all
qed

lemma given_back_iff [simp]:
  "R_dir p d \<in> given_back p gpios ports K \<longleftrightarrow> C_Dir d \<in> K \<and> d \<noteq> D_devinfo"
  "R_kobj_type p \<notin> given_back p gpios ports K"
  "R_base p b \<in> given_back p gpios ports K \<longleftrightarrow> C_Base b \<in> K"
  "R_group p g \<in> given_back p gpios ports K \<longleftrightarrow> C_Group g \<in> K"
  "R_att p g \<in> given_back p gpios ports K \<longleftrightarrow> C_Group g \<in> K"
  "R_entry p g i \<in> given_back p gpios ports K \<longleftrightarrow> C_Group g \<in> K \<and> i \<noteq> 0 \<and> i < group_size gpios ports g"
  "R_fbuf p f \<in> given_back p gpios ports K \<longleftrightarrow> C_Group G_filter \<in> K"
  unfolding given_back_def group_res_def by auto

lemma given_back_rest:
  assumes "k \<in> K" "r \<in> comp_res p gpios ports k" "r \<notin> given_back p gpios ports K"
  shows "leakable p r"
proof (cases k)
  case (C_Base b)
  then show ?thesis using assms by simp
next
  case (C_Dir d)
  then show ?thesis using assms by (auto simp: leakable_def split: if_splits)
next
  case (C_Group g)
  then have "r \<in> comp_res p gpios ports (C_Group g)" "C_Group g \<in> K"
    using assms by simp_all
  then consider "r = R_group p g" | "r = R_att p g" | i where "r = R_entry p g i" "i < group_size gpios ports g"
    | f where "r = R_fbuf p f" "g = G_filter"
    by (auto split: if_splits)
  then show ?thesis
    using assms(3) \<open>C_Group g \<in> K\<close> by cases (auto simp: leakable_def)
qed

lemma given_back_sysfs:
  assumes "r \<in> given_back p gpios ports K" "C_Base B_drv_info \<notin> K" "C_Base B_dma \<notin> K"
  shows "sysfs_res p r"
  using assms by (auto simp: given_back_def group_res_def sysfs_res_def)

text \<open>A device without entries yet.\<close>

definition no_entries :: "nat \<Rightarrow> kreg \<Rightarrow> bool" where
  "no_entries p s \<longleftrightarrow> (\<forall>r\<in>kr_ledger s. \<not> sysfs_res p r) \<and>
     (\<forall>b. b \<notin> {B_drv_info, B_dma} \<longrightarrow> \<not> ri_base (kr_info s) b) \<and> (\<forall>d. \<not> ri_dir (kr_info s) d) \<and>
     (\<forall>f. \<not> ri_fbuf (kr_info s) f) \<and> (\<forall>g. \<not> rg_kobj (ri_group (kr_info s) g) \<and> rg_att (ri_group (kr_info s) g) = None)"

lemma no_entries_built:
  "no_entries p s \<Longrightarrow> \<not> kr_fault s \<Longrightarrow> built p gpios ports (ri_base (kr_info s)) (kr_ledger s) (kcore s) {} {} s"
  by (auto simp: no_entries_def built_def pointers_ok_def)

lemma create_sysfsentries_cases:
  assumes n: "no_entries p s" "\<not> kr_fault s" and b: "ri_base (kr_info s) B_drv_info"
    and rc: "survivable_sysfs rc" and g: "gpios = 0 \<or> 4 \<le> gpios"
    and r_def: "r = netana_create_sysfsentries rc p gpios ports s"
  shows "(fst r = 0 \<longrightarrow> built p gpios ports (ri_base (kr_info s)) (kr_ledger s) (kcore s) (all_parts gpios) {} (snd r)) \<and>
    (fst r \<noteq> 0 \<longrightarrow> fst r = - ENOMEM \<and> \<not> kr_fault (snd r) \<and> kcore (snd r) = kcore s \<and>
       (\<forall>b\<in>{B_drv_info, B_dma}. ri_base (kr_info (snd r)) b = ri_base (kr_info s) b) \<and>
       kr_ledger s \<subseteq> kr_ledger (snd r) \<and> (\<forall>x\<in>kr_ledger (snd r) - kr_ledger s. leakable p x))"
proof -
  let ?st = "run_steps (sysfs_steps rc p gpios ports) s"
  obtain K lk where K: "built p gpios ports (ri_base (kr_info s)) (kr_ledger s) (kcore s) K lk (snd ?st)"
    "fst ?st \<longrightarrow> K = {} \<union> \<Union> (set (step_parts gpios)) \<and> lk = {}"
    using run_stages[OF stages[OF rc] step_parts_distinct no_entries_built[OF n]] by blast
  have e: "r = (if fst ?st then (0, snd ?st) else (- ENOMEM, put_base_dirs p (clean_up_sysfs p (snd ?st))))"
    using b by (simp add: r_def netana_create_sysfsentries_def split_beta)
  show ?thesis
  proof (cases "fst ?st")
    case True
    then show ?thesis
      using K e by (simp add: step_parts_all)
  next
    case False
    define t where "t = put_base_dirs p (clean_up_sysfs p (snd ?st))"
    have c: "\<not> kr_fault t \<and> kcore t = kcore s \<and> ri_base (kr_info t) = ri_base (kr_info (snd ?st)) \<and>
      kr_ledger t = kr_ledger (snd ?st) - given_back p gpios ports K"
      unfolding t_def by (rule clean_up_built[OF K(1) g])
    have l: "kr_ledger (snd ?st) = kr_ledger s \<union> (\<Union>k\<in>K. comp_res p gpios ports k) \<union> lk"
      and lk: "\<forall>r\<in>lk. leakable p r" and f: "\<forall>r\<in>kr_ledger s. \<not> sysfs_res p r" "C_Base B_drv_info \<notin> K" "C_Base B_dma \<notin> K"
      and P: "pointers_ok gpios ports K (ri_base (kr_info s)) (kr_info (snd ?st))"
      using K(1) unfolding built_def by blast+
    have "\<forall>b\<in>{B_drv_info, B_dma}. ri_base (kr_info (snd ?st)) b = ri_base (kr_info s) b"
      using P unfolding pointers_ok_def by metis
    moreover have "kr_ledger s \<subseteq> kr_ledger t"
      using c l given_back_sysfs[OF _ f(2,3)] f(1) by blast
    moreover have "\<forall>x\<in>kr_ledger t - kr_ledger s. leakable p x"
      using c l lk given_back_rest by blast
    ultimately show ?thesis
      using False c e by (simp add: t_def ENOMEM_def)
  qed
qed

text \<open>What is lost when a device with all its entries is taken away.\<close>

definition lost_entries :: "nat \<Rightarrow> nat \<Rightarrow> nat \<Rightarrow> res set" where
  "lost_entries p gpios ports = {R_dir p D_devinfo, R_kobj_type p} \<union>
     (if gpios = 0 then {} else {R_entry p G_filter 0, R_entry p G_gpio 0}) \<union>
     (if ports = 0 then {} else {R_entry p G_port 0, R_entry p G_phy 0})"

lemma part_of_device:
  "k \<in> all_parts gpios \<longleftrightarrow> (case k of C_Base b \<Rightarrow> b \<notin> {B_drv_info, B_dma} | C_Dir d \<Rightarrow> True
     | C_Group g \<Rightarrow> gpios \<noteq> 0 \<or> g = G_port \<or> g = G_phy)"
  by (cases k) (auto simp: all_parts_def)

lemma lost_entries_iff:
  "r \<in> lost_entries p gpios ports \<longleftrightarrow> r = R_dir p D_devinfo \<or> r = R_kobj_type p \<or> r = R_entry p G_filter 0 \<and> gpios \<noteq> 0 \<or>
     r = R_entry p G_gpio 0 \<and> gpios \<noteq> 0 \<or> r = R_entry p G_port 0 \<and> ports \<noteq> 0 \<or> r = R_entry p G_phy 0 \<and> ports \<noteq> 0"
  by (simp add: lost_entries_def)

lemma parts_lost:
  "(\<Union>k\<in>all_parts gpios. comp_res p gpios ports k) - given_back p gpios ports (all_parts gpios) = lost_entries p gpios ports"
    (is "?A - ?B = ?C")
proof (rule set_eqI)
  fix r
  have 1: "r \<in> ?A \<Longrightarrow> r \<notin> ?B \<Longrightarrow> r \<in> ?C"
  proof -
    assume a: "r \<in> ?A" "r \<notin> ?B"
    then obtain k where k: "k \<in> all_parts gpios" "r \<in> comp_res p gpios ports k"
      by blast
    show "r \<in> ?C"
    proof (cases k)
      case (C_Base b)
      then show ?thesis
        using k a(2) by simp
    next
      case (C_Dir d)
      then show ?thesis
        using k a(2) by (auto simp: lost_entries_iff split: if_splits)
    next
      case (C_Group g)
      have g: "r \<in> comp_res p gpios ports (C_Group g)" "C_Group g \<in> all_parts gpios"
        using k C_Group by simp_all
      then consider "r = R_group p g" | "r = R_att p g" | i where "r = R_entry p g i" "i < group_size gpios ports g"
        | f where "r = R_fbuf p f" "g = G_filter"
        by (auto split: if_splits)
      then have "r = R_entry p g 0 \<and> group_size gpios ports g \<noteq> 0"
        using a(2) g(2) by cases auto
      then show ?thesis
        using g by (cases g) (auto simp: lost_entries_iff part_of_device)
    qed
  qed
  have 2: "r \<in> ?C \<Longrightarrow> \<exists>k. k \<in> all_parts gpios \<and> r \<in> comp_res p gpios ports k"
  proof -
    assume "r \<in> ?C"
    then consider "r = R_dir p D_devinfo" | "r = R_kobj_type p" | "r = R_entry p G_filter 0" "gpios \<noteq> 0"
      | "r = R_entry p G_gpio 0" "gpios \<noteq> 0" | "r = R_entry p G_port 0" "ports \<noteq> 0" | "r = R_entry p G_phy 0" "ports \<noteq> 0"
      unfolding lost_entries_iff by blast
    then show ?thesis
    proof cases
      case 1
      then show ?thesis by (intro exI[of _ "C_Dir D_devinfo"]) (simp add: part_of_device)
    next
      case 2
      then show ?thesis by (intro exI[of _ "C_Dir D_devinfo"]) (simp add: part_of_device)
    next
      case 3
      then show ?thesis by (intro exI[of _ "C_Group G_filter"]) (simp add: part_of_device)
    next
      case 4
      then show ?thesis by (intro exI[of _ "C_Group G_gpio"]) (simp add: part_of_device)
    next
      case 5
      then show ?thesis by (intro exI[of _ "C_Group G_port"]) (simp add: part_of_device)
    next
      case 6
      then show ?thesis by (intro exI[of _ "C_Group G_phy"]) (simp add: part_of_device)
    qed
  qed
  have 3: "r \<in> ?C \<Longrightarrow> r \<notin> ?B"
    unfolding lost_entries_iff by (elim disjE) simp_all
  show "r \<in> ?A - ?B \<longleftrightarrow> r \<in> ?C"
    using 1 2 3 by blast
qed

lemma clean_up_all:
  assumes b: "built p gpios ports bd L0 c (all_parts gpios) {} s" and n: "gpios = 0 \<or> 4 \<le> gpios"
  shows "\<not> kr_fault (put_base_dirs p (clean_up_sysfs p s)) \<and> kcore (put_base_dirs p (clean_up_sysfs p s)) = c \<and>
    ri_base (kr_info (put_base_dirs p (clean_up_sysfs p s))) = ri_base (kr_info s) \<and>
    kr_ledger (put_base_dirs p (clean_up_sysfs p s)) = L0 \<union> lost_entries p gpios ports"
proof -
  have l: "kr_ledger s = L0 \<union> (\<Union>k\<in>all_parts gpios. comp_res p gpios ports k)"
    and f: "\<forall>r\<in>L0. \<not> sysfs_res p r" "C_Base B_drv_info \<notin> all_parts gpios" "C_Base B_dma \<notin> all_parts gpios"
    using b unfolding built_def by blast+
  have d: "L0 \<inter> given_back p gpios ports (all_parts gpios) = {}"
    using given_back_sysfs[OF _ f(2,3)] f(1) by blast
  have u: "X = L0 \<union> Y \<Longrightarrow> L0 \<inter> Z = {} \<Longrightarrow> Y - Z = W \<Longrightarrow> X - Z = L0 \<union> W" for X Y Z W :: "res set"
    by blast
  have "kr_ledger s - given_back p gpios ports (all_parts gpios) = L0 \<union> lost_entries p gpios ports"
    by (rule u[OF l d parts_lost])
  then show ?thesis
    using clean_up_built[OF b n] by simp
qed

end
