(* ===== verification/Kernel_Register.thy ===== *)
theory Kernel_Register
  imports Kernel_Sysfs
begin

text \<open>
  How the kernel module takes a device into service and lets it go (\<open>netana.c\<close>:
  \<open>init_netana_class\<close>, \<open>netana_create_dma\<close>, \<open>netana_registerdevice\<close>, \<open>netana_unregisterdevice\<close>;
  \<open>netana_enum.c\<close>: \<open>netana_pci_probe\<close>, \<open>netana_pci_remove\<close>), over the ledger of resources.
  \<open>netana_tkit_deviceadd\<close> and \<open>netana_tkit_deviceremove\<close> are modelled in detail elsewhere; here the
  first is one more site that can refuse, and a device on the list of the toolkit is a resource.
\<close>

section \<open>The device class\<close>

definition init_netana_class :: "answers \<Rightarrow> kreg \<Rightarrow> int \<times> kreg" where
  "init_netana_class rc s =
     (case kr_class s of
        Some n \<Rightarrow> (SUCCESS, s\<lparr>kr_class := Some (n + 1)\<rparr>)
      | None \<Rightarrow>
          if rc S_chrdev < 0 then (rc S_chrdev, s)
          else (let s = acquire R_chrdev s in
            if rc S_class_mem \<noteq> 0 then (- ENOMEM, give_back R_chrdev s)
            else (let s = (acquire R_class_mem s)\<lparr>kr_class := Some 1\<rparr> in
              if rc S_class \<noteq> 0 then (1, give_back R_chrdev ((give_back R_class_mem s)\<lparr>kr_class := None\<rparr>))
              else (let s = acquire R_class s in
                if rc S_toolkit = 0 then (SUCCESS, s\<lparr>kr_locks := kr_locks s + 1\<rparr>)
                else (- ENOMEM, give_back R_chrdev ((give_back R_class_mem (give_back R_class s))\<lparr>kr_class := None\<rparr>))))))"

definition netana_release_class :: "kreg \<Rightarrow> kreg" where
  "netana_release_class s =
     (give_back R_chrdev (give_back R_class_mem (give_back R_class s)))\<lparr>kr_class := None\<rparr>"

text \<open>\<open>kref_put\<close> releases the object with the last reference.\<close>

definition netana_classdestroy :: "kreg \<Rightarrow> kreg" where
  "netana_classdestroy s =
     (case kr_class s of
        None \<Rightarrow> s
      | Some n \<Rightarrow> if n \<le> 1 then netana_release_class s else s\<lparr>kr_class := Some (n - 1)\<rparr>)"

section \<open>Minor numbers\<close>

text \<open>\<open>idr_alloc\<close> gives the least number which is free.\<close>

definition least_free :: "nat list \<Rightarrow> nat" where
  "least_free xs = List.hd (filter (\<lambda>n. n \<notin> set xs) [0..<Suc (length xs)])"

definition netana_getminor :: "answers \<Rightarrow> nat \<Rightarrow> kreg \<Rightarrow> int \<times> kreg" where
  "netana_getminor rc p s =
     (if rc S_minor < 0 then (rc S_minor, s)
      else (let n = least_free (map fst (kr_idr s)) in
        (0, upd (\<lambda>i. i\<lparr>ri_minor := n\<rparr>) (acquire (R_minor p) (s\<lparr>kr_idr := (n, p) # kr_idr s\<rparr>)))))"

definition netana_freeminor :: "nat \<Rightarrow> kreg \<Rightarrow> kreg" where
  "netana_freeminor p s = give_back (R_minor p) (s\<lparr>kr_idr := filter (\<lambda>x. fst x \<noteq> ri_minor (kr_info s)) (kr_idr s)\<rparr>)"

section \<open>DMA buffers\<close>

definition NETANA_MAX_DMA_BUFFERS :: nat where
  "NETANA_MAX_DMA_BUFFERS = 32"

text \<open>The first loop of \<open>netana_create_dma\<close>; it returns the value of \<open>lidx\<close> when an allocation fails.
  The array \<open>atDMABuffers\<close> has 32 elements.\<close>

fun alloc_bufs :: "answers \<Rightarrow> nat \<Rightarrow> nat \<Rightarrow> nat \<Rightarrow> kreg \<Rightarrow> nat option \<times> kreg" where
  "alloc_bufs rc p i 0 s = (None, s)"
| "alloc_bufs rc p i (Suc n) s =
     (if rc (S_buf i) \<noteq> 0 then (Some i, s)
      else alloc_bufs rc p (Suc i) n
             (upd (\<lambda>d. d\<lparr>ri_hBuffer := (ri_hBuffer d)(i := True)\<rparr>)
               (acquire (R_buf p i) (if i \<ge> NETANA_MAX_DMA_BUFFERS then fault s else s))))"

text \<open>The second loop, with the variable \<open>ret\<close>. It is unsigned, so that the result of \<open>kobject_add\<close> is
  stored but its failure is not noticed.\<close>

fun add_dma_infos :: "answers \<Rightarrow> nat \<Rightarrow> nat \<Rightarrow> nat \<Rightarrow> int \<Rightarrow> kreg \<Rightarrow> (nat \<times> int) option \<times> kreg" where
  "add_dma_infos rc p i 0 ret s = (None, s)"
| "add_dma_infos rc p i (Suc n) ret s =
     (if rc (S_meminfo i) \<noteq> 0 then (Some (i, ret), s)
      else add_dma_infos rc p (Suc i) n (rc (S_dma_add i))
             (upd (\<lambda>d. d\<lparr>ri_meminfo := (ri_meminfo d)(i := True, Suc i := False)\<rparr>) (acquire (R_meminfo p i) s)))"

definition free_bufs :: "nat \<Rightarrow> nat \<Rightarrow> kreg \<Rightarrow> kreg" where
  "free_bufs p n s = fold (\<lambda>i. give_back (R_buf p i)) (rev [0..<n]) s"

text \<open>At \<open>err_dma_mem_info\<close> the release function of the object frees the memory which \<open>kfree\<close> frees again.\<close>

definition free_dma_infos :: "nat \<Rightarrow> nat \<Rightarrow> kreg \<Rightarrow> kreg" where
  "free_dma_infos p n s =
     fold (\<lambda>i s. if ri_meminfo (kr_info s) i then give_back (R_meminfo p i) (give_back (R_meminfo p i) s) else s) (rev [0..<n]) s"

definition netana_create_dma :: "answers \<Rightarrow> nat \<Rightarrow> kreg \<Rightarrow> int \<times> kreg" where
  "netana_create_dma rc p s =
     (if rc S_dmainfo \<noteq> 0 then (- ENOMEM, s)
      else (let s = upd (\<lambda>d. d\<lparr>ri_dmainfo := True\<rparr>) (acquire (R_dmainfo p) s) in
        (case create_base rc p B_drv_info s of (r1, s) \<Rightarrow>
          if r1 \<noteq> 0 then (- ENOMEM, give_back (R_dmainfo p) s)
          else (case create_base rc p B_dma s of (r2, s) \<Rightarrow>
            if r2 \<noteq> 0 then (- ENOMEM, give_back (R_dmainfo p) s)
            else (let n = kr_g_ulDMABufferCount s in
              (case alloc_bufs rc p 0 n s of
                 (Some k, s) \<Rightarrow> (- ENOMEM, give_back (R_dmainfo p) (give_back (R_base p B_dma) (free_bufs p k s)))
               | (None, s) \<Rightarrow>
                 (case add_dma_infos rc p 0 n (- ENOMEM) s of
                    (Some (k, ret), s) \<Rightarrow>
                      (ret, give_back (R_dmainfo p) (give_back (R_base p B_dma) (free_bufs p n (free_dma_infos p k s))))
                  | (None, s) \<Rightarrow> (SUCCESS, upd (\<lambda>d. d\<lparr>ri_ulDMABufferCount := n\<rparr>) s))))))))"

definition netana_free_dma :: "nat \<Rightarrow> kreg \<Rightarrow> kreg" where
  "netana_free_dma p s =
     (let t = fold (\<lambda>i s. (let s = (if ri_hBuffer (kr_info s) i then give_back (R_buf p i) s else s)
                           in if ri_dmainfo (kr_info s) \<and> ri_meminfo (kr_info s) i then give_back (R_meminfo p i) s else s))
                [0..<kr_g_ulDMABufferCount s] s;
          t = (if ri_dmainfo (kr_info t) then give_back (R_dmainfo p) t else t)
      in kobject_put_base p B_drv_info (kobject_put_base p B_dma t))"

section \<open>Registration\<close>

text \<open>The parameters of the module.\<close>

record module_params =
  mp_ulDMABufferSize :: u32
  mp_ulDMABufferCount :: nat
  mp_ulDMABufferTimeout :: u32

definition take_params :: "module_params \<Rightarrow> kreg \<Rightarrow> kreg" where
  "take_params m s =
     (if mp_ulDMABufferSize m \<noteq> 0 then s\<lparr>kr_g_ulDMABufferSize := mp_ulDMABufferSize m\<rparr>
      else if mp_ulDMABufferCount m \<noteq> 0 then s\<lparr>kr_g_ulDMABufferCount := mp_ulDMABufferCount m\<rparr>
      else if mp_ulDMABufferTimeout m \<noteq> 0 then s\<lparr>kr_g_ulDMABufferTimeout := mp_ulDMABufferTimeout m\<rparr>
      else s)"

text \<open>\<open>kthread_run\<close> returns the thread or an error pointer, never \<open>NULL\<close>.\<close>

definition kthread_run :: "answers \<Rightarrow> nat \<Rightarrow> kreg \<Rightarrow> thread_ptr \<times> kreg" where
  "kthread_run rc p s = (if rc S_thread \<noteq> 0 then (T_Err, s) else (T_Task, acquire (R_thread p) s))"

definition stop_dsr_thread :: "nat \<Rightarrow> kreg \<Rightarrow> kreg" where
  "stop_dsr_thread p s =
     (if ri_dsrthread (kr_info s) \<noteq> T_NULL
      then upd (\<lambda>d. d\<lparr>ri_dsrthread := T_NULL\<rparr>)
             (if ri_dsrthread (kr_info s) = T_Err then fault s else give_back (R_thread p) s)
      else s)"

text \<open>The labels at the end of \<open>netana_registerdevice\<close>, each of them falling through to the next.\<close>

definition err_devmem :: "kreg \<Rightarrow> kreg" where
  "err_devmem s = netana_classdestroy s"

definition err_get_minor :: "nat \<Rightarrow> kreg \<Rightarrow> kreg" where
  "err_get_minor p s = err_devmem (give_back (R_tk p) s)"

definition err_create_device :: "nat \<Rightarrow> kreg \<Rightarrow> kreg" where
  "err_create_device p s = err_get_minor p (netana_freeminor p s)"

definition error_dma :: "nat \<Rightarrow> kreg \<Rightarrow> kreg" where
  "error_dma p s = err_create_device p (give_back (R_device p) s)"

definition err_reg_dsr_thread :: "nat \<Rightarrow> kreg \<Rightarrow> kreg" where
  "err_reg_dsr_thread p s = error_dma p (netana_free_dma p s)"

definition err_add_to_toolkit :: "nat \<Rightarrow> kreg \<Rightarrow> kreg" where
  "err_add_to_toolkit p s = err_reg_dsr_thread p (stop_dsr_thread p s)"

definition err_sysfs :: "nat \<Rightarrow> kreg \<Rightarrow> kreg" where
  "err_sysfs p s = err_add_to_toolkit p (give_back (R_listed p) s)"

text \<open>From the creation of the DMA buffers on; \<open>gpios\<close> and \<open>ports\<close> are what
  \<open>netana_tkit_deviceadd\<close> read from the device.\<close>

definition register_services :: "answers \<Rightarrow> nat \<Rightarrow> nat \<Rightarrow> nat \<Rightarrow> kreg \<Rightarrow> int \<times> kreg" where
  "register_services rc p gpios ports s =
     (case netana_create_dma rc p s of (r, s) \<Rightarrow>
        if r < 0 then (- ENOMEM, error_dma p s)
        else (case kthread_run rc p s of (th, s) \<Rightarrow>
          (let s = upd (\<lambda>d. d\<lparr>ri_dsrthread := th\<rparr>) s in
            if th = T_NULL then (- ENOMEM, err_reg_dsr_thread p s)
            else if rc S_deviceadd \<noteq> 0 then
              (rc S_deviceadd, err_add_to_toolkit p (upd (\<lambda>d. d\<lparr>ri_addsucceded := False\<rparr>) s))
            else (case netana_create_sysfsentries rc p gpios ports (acquire (R_listed p) s) of (r, s) \<Rightarrow>
              if r \<noteq> SUCCESS then (- ENOMEM, err_sysfs p s)
              else (SUCCESS, upd (\<lambda>d. d\<lparr>ri_addsucceded := True\<rparr>) s)))))"

definition netana_registerdevice :: "module_params \<Rightarrow> answers \<Rightarrow> nat \<Rightarrow> nat \<Rightarrow> nat \<Rightarrow> kreg \<Rightarrow> int \<times> kreg" where
  "netana_registerdevice m rc p gpios ports s =
     (case init_netana_class rc (take_params m s) of (r, s) \<Rightarrow>
        if r \<noteq> 0 then (- ENOMEM, s)
        else if rc S_tk \<noteq> 0 then (- ENOMEM, err_devmem s)
        else (let s = upd (\<lambda>d. d\<lparr>ri_tkdevice := True\<rparr>) (acquire (R_tk p) s) in
          (case netana_getminor rc p s of (r, s) \<Rightarrow>
            if r \<noteq> 0 then (r, err_get_minor p s)
            else if rc S_device \<noteq> 0 then (1, err_create_device p s)
            else register_services rc p gpios ports (acquire (R_device p) s))))"

definition netana_unregisterdevice :: "nat \<Rightarrow> kreg \<Rightarrow> kreg" where
  "netana_unregisterdevice p s =
     (let s = (if ri_addsucceded (kr_info s) then give_back (R_listed p) s else s);
          s = netana_free_dma p (stop_dsr_thread p s);
          s = put_base_dirs p (clean_up_sysfs p s)
      in netana_classdestroy (give_back (R_tk p) (netana_freeminor p (give_back (R_device p) s))))"

section \<open>The PCI driver\<close>

definition rdev_zero :: rdev where
  "rdev_zero = \<lparr>ri_tkdevice = False, ri_minor = 0, ri_dmainfo = False, ri_meminfo = \<lambda>_. False, ri_hBuffer = \<lambda>_. False,
     ri_ulDMABufferCount = 0, ri_dsrthread = T_NULL, ri_addsucceded = False, ri_base = \<lambda>_. False, ri_dir = \<lambda>_. False,
     ri_group = \<lambda>_. \<lparr>rg_kobj = False, rg_att = None, rg_len = 0, rg_attcnt = 0\<rparr>, ri_fbuf = \<lambda>_. False\<rparr>"

text \<open>\<open>netana_pci_probe\<close>; \<open>S_resource\<close> fails when the first region has no address. The error codes
  the code returns are the ones of the call which failed, but a mapping which fails returns the result of \<open>pci_request_regions\<close>.\<close>

definition netana_pci_probe :: "module_params \<Rightarrow> answers \<Rightarrow> nat \<Rightarrow> nat \<Rightarrow> nat \<Rightarrow> kreg \<Rightarrow> int \<times> kreg" where
  "netana_pci_probe m rc p gpios ports s =
     (if rc S_info \<noteq> 0 then (- ENOMEM, s)
      else (let s = (acquire (R_info p) s)\<lparr>kr_info := rdev_zero\<rparr> in
        if rc S_dpminfo \<noteq> 0 then (- ENOMEM, give_back (R_info p) s)
        else (let s = acquire (R_dpminfo p) s;
                  err_enable = (\<lambda>s. give_back (R_info p) (give_back (R_dpminfo p) s)) in
          if rc S_enable \<noteq> 0 then (rc S_enable, err_enable s)
          else (let s = acquire (R_enabled p) s;
                    out_pci_request = (\<lambda>s. err_enable (give_back (R_enabled p) s)) in
            if rc S_regions < 0 then (rc S_regions, out_pci_request s)
            else (let s = acquire (R_regions p) s;
                      err_pci_resource = (\<lambda>s. out_pci_request (give_back (R_regions p) s)) in
              if rc S_resource \<noteq> 0 \<or> rc S_ioremap \<noteq> 0 then (rc S_regions, err_pci_resource s)
              else (case netana_registerdevice m rc p gpios ports (acquire (R_mapped p) s) of (r, s) \<Rightarrow>
                if r = SUCCESS then (SUCCESS, s)
                else (r, err_pci_resource (give_back (R_mapped p) s))))))))"

definition netana_pci_remove :: "nat \<Rightarrow> kreg \<Rightarrow> kreg" where
  "netana_pci_remove p s =
     give_back (R_info p) (give_back (R_dpminfo p) (give_back (R_mapped p)
       (give_back (R_enabled p) (give_back (R_regions p) (netana_unregisterdevice p s)))))"

section \<open>The DMA buffers\<close>

lemma ENOMEM_nonzero [simp]: "ENOMEM \<noteq> 0" "0 < ENOMEM"
  by (simp_all add: ENOMEM_def)

lemma count_simps [simp]:
  "kr_g_ulDMABufferCount (upd f s) = kr_g_ulDMABufferCount s" "kr_g_ulDMABufferCount (acquire r s) = kr_g_ulDMABufferCount s"
  "kr_g_ulDMABufferCount (give_back r s) = kr_g_ulDMABufferCount s"
  by (simp_all add: upd_def acquire_def give_back_def)

lemma kcore_eqD:
  assumes "kcore s' = kcore s"
  shows "kr_class s' = kr_class s \<and> kr_idr s' = kr_idr s \<and> kr_g_ulDMABufferCount s' = kr_g_ulDMABufferCount s \<and>
    ri_minor (kr_info s') = ri_minor (kr_info s) \<and> ri_dsrthread (kr_info s') = ri_dsrthread (kr_info s) \<and>
    ri_hBuffer (kr_info s') = ri_hBuffer (kr_info s) \<and> ri_meminfo (kr_info s') = ri_meminfo (kr_info s) \<and>
    ri_dmainfo (kr_info s') = ri_dmainfo (kr_info s) \<and> ri_addsucceded (kr_info s') = ri_addsucceded (kr_info s)"
proof -
  show ?thesis
    using assms[THEN arg_cong[where f=kr_class]] assms[THEN arg_cong[where f=kr_idr]]
      assms[THEN arg_cong[where f=kr_g_ulDMABufferCount]] assms[THEN arg_cong[where f="\<lambda>s. ri_minor (kr_info s)"]]
      assms[THEN arg_cong[where f="\<lambda>s. ri_dsrthread (kr_info s)"]] assms[THEN arg_cong[where f="\<lambda>s. ri_hBuffer (kr_info s)"]]
      assms[THEN arg_cong[where f="\<lambda>s. ri_meminfo (kr_info s)"]] assms[THEN arg_cong[where f="\<lambda>s. ri_dmainfo (kr_info s)"]]
      assms[THEN arg_cong[where f="\<lambda>s. ri_addsucceded (kr_info s)"]]
    by (simp add: kcore_def)
qed

text \<open>The state with the first \<open>a\<close> buffers and the first \<open>b\<close> information objects.\<close>

definition with_dma :: "nat \<Rightarrow> nat \<Rightarrow> nat \<Rightarrow> kreg \<Rightarrow> kreg" where
  "with_dma p a b s = s\<lparr>kr_ledger := kr_ledger s \<union> R_buf p ` {..<a} \<union> R_meminfo p ` {..<b},
     kr_info := (kr_info s)\<lparr>ri_hBuffer := \<lambda>j. j < a, ri_meminfo := \<lambda>j. j < b\<rparr>\<rparr>"

lemma alloc_bufs_cases:
  assumes "i + n \<le> NETANA_MAX_DMA_BUFFERS"
  shows "alloc_bufs rc p i n (with_dma p i 0 s) = (None, with_dma p (i + n) 0 s) \<or>
    (\<exists>k<i + n. alloc_bufs rc p i n (with_dma p i 0 s) = (Some k, with_dma p k 0 s))"
  using assms
proof (induction n arbitrary: i)
  case 0
  then show ?case by simp
next
  case (Suc n)
  show ?case
  proof (cases "rc (S_buf i) = 0")
    case True
    have f: "(\<lambda>j. j < i)(i := True) = (\<lambda>j. j < Suc i)"
      by (auto simp: fun_eq_iff)
    have "{..<Suc i} = insert i {..<i}"
      by auto
    then have s: "upd (\<lambda>d. d\<lparr>ri_hBuffer := (ri_hBuffer d)(i := True)\<rparr>) (acquire (R_buf p i) (with_dma p i 0 s)) = with_dma p (Suc i) 0 s"
      by (simp add: upd_def acquire_def with_dma_def f)
    have "alloc_bufs rc p i (Suc n) (with_dma p i 0 s) = alloc_bufs rc p (Suc i) n (with_dma p (Suc i) 0 s)"
      using True Suc.prems s by simp
    then show ?thesis
      using Suc.IH[of "Suc i"] Suc.prems by simp
  qed auto
qed

lemma add_dma_infos_cases:
  assumes "\<forall>j<n. 0 < i + j \<longrightarrow> rc (S_meminfo (i + j)) = 0"
  shows "(\<exists>r. add_dma_infos rc p i n ret (with_dma p a i s) = (None, with_dma p a (i + n) s)) \<or>
    i = 0 \<and> add_dma_infos rc p i n ret (with_dma p a i s) = (Some (0, ret), with_dma p a 0 s)"
  using assms
proof (induction n arbitrary: i ret)
  case 0
  then show ?case by simp
next
  case (Suc n)
  show ?case
  proof (cases "rc (S_meminfo i) = 0")
    case True
    have f: "(\<lambda>j. j < i)(i := True, Suc i := False) = (\<lambda>j. j < Suc i)"
      by (auto simp: fun_eq_iff)
    have "{..<Suc i} = insert i {..<i}"
      by auto
    then have s: "upd (\<lambda>d. d\<lparr>ri_meminfo := (ri_meminfo d)(i := True, Suc i := False)\<rparr>) (acquire (R_meminfo p i) (with_dma p a i s))
        = with_dma p a (Suc i) s"
      by (simp add: upd_def acquire_def with_dma_def f)
    have e: "add_dma_infos rc p i (Suc n) ret (with_dma p a i s) = add_dma_infos rc p (Suc i) n (rc (S_dma_add i)) (with_dma p a (Suc i) s)"
      using True s by simp
    have "\<forall>j<n. 0 < Suc i + j \<longrightarrow> rc (S_meminfo (Suc i + j)) = 0"
      using Suc.prems by auto
    from Suc.IH[OF this, of "rc (S_dma_add i)"] show ?thesis
      unfolding e by simp
  next
    case False
    then have "i = 0"
      using Suc.prems[rule_format, of 0] by auto
    then show ?thesis
      using False by simp
  qed
qed

lemma fold_give_back:
  assumes "distinct xs" "inj_on f (set xs)" "f ` set xs \<subseteq> kr_ledger s"
  shows "fold (\<lambda>i. give_back (f i)) xs s = s\<lparr>kr_ledger := kr_ledger s - f ` set xs\<rparr>"
  using assms
proof (induction xs arbitrary: s)
  case Nil
  then show ?case by simp
next
  case (Cons x xs)
  have g: "give_back (f x) s = s\<lparr>kr_ledger := kr_ledger s - {f x}\<rparr>"
    using Cons.prems(3) by (simp add: give_back_def)
  have "f x \<notin> f ` set xs"
    using Cons.prems(1,2) by (auto simp: inj_on_def)
  moreover have "kr_ledger (give_back (f x) s) = kr_ledger s - {f x}"
    by simp
  ultimately have "f ` set xs \<subseteq> kr_ledger (give_back (f x) s)"
    using Cons.prems(3) by (simp add: subset_Diff_insert)
  then have "fold (\<lambda>i. give_back (f i)) xs (give_back (f x) s)
      = (give_back (f x) s)\<lparr>kr_ledger := kr_ledger (give_back (f x) s) - f ` set xs\<rparr>"
    using Cons.prems by (intro Cons.IH) auto
  moreover have "kr_ledger s - {f x} - f ` set xs = kr_ledger s - f ` set (x # xs)"
    by auto
  ultimately show ?case
    by (simp add: g)
qed

lemma free_bufs_eq:
  assumes "R_buf p ` {..<n} \<subseteq> kr_ledger s"
  shows "free_bufs p n s = s\<lparr>kr_ledger := kr_ledger s - R_buf p ` {..<n}\<rparr>"
  unfolding free_bufs_def using fold_give_back[of "rev [0..<n]" "R_buf p" s] assms
  by (simp add: inj_on_def lessThan_atLeast0)

text \<open>\<open>netana_create_dma\<close> starts without DMA buffers.\<close>

definition no_dma :: "nat \<Rightarrow> kreg \<Rightarrow> bool" where
  "no_dma p s \<longleftrightarrow> (\<forall>i. R_buf p i \<notin> kr_ledger s \<and> R_meminfo p i \<notin> kr_ledger s) \<and> R_dmainfo p \<notin> kr_ledger s \<and>
     R_base p B_drv_info \<notin> kr_ledger s \<and> R_base p B_dma \<notin> kr_ledger s \<and>
     ri_hBuffer (kr_info s) = (\<lambda>_. False) \<and> ri_meminfo (kr_info s) = (\<lambda>_. False)"

definition survivable_dma :: "answers \<Rightarrow> nat \<Rightarrow> bool" where
  "survivable_dma rc n \<longleftrightarrow> n \<le> NETANA_MAX_DMA_BUFFERS \<and> (\<forall>i<n. 0 < i \<longrightarrow> rc (S_meminfo i) = 0)"

definition dma_res :: "nat \<Rightarrow> nat \<Rightarrow> res set" where
  "dma_res p n = {R_dmainfo p, R_base p B_drv_info, R_base p B_dma} \<union> R_buf p ` {..<n} \<union> R_meminfo p ` {..<n}"

definition same_dev :: "kreg \<Rightarrow> kreg \<Rightarrow> bool" where
  "same_dev s t \<longleftrightarrow> kr_fault t = kr_fault s \<and> kr_class t = kr_class s \<and> kr_idr t = kr_idr s \<and>
     kr_g_ulDMABufferCount t = kr_g_ulDMABufferCount s \<and> ri_minor (kr_info t) = ri_minor (kr_info s) \<and>
     ri_dir (kr_info t) = ri_dir (kr_info s) \<and> ri_group (kr_info t) = ri_group (kr_info s) \<and> ri_fbuf (kr_info t) = ri_fbuf (kr_info s) \<and>
     (\<forall>b. b \<notin> {B_drv_info, B_dma} \<longrightarrow> ri_base (kr_info t) b = ri_base (kr_info s) b)"

lemma create_dma_cases:
  assumes n: "no_dma p s" and rc: "survivable_dma rc (kr_g_ulDMABufferCount s)"
    and r: "r = netana_create_dma rc p s" and nn: "n = kr_g_ulDMABufferCount s"
  shows "fst r = 0 \<and> snd r = s\<lparr>kr_ledger := kr_ledger s \<union> dma_res p n, kr_info := (kr_info s)
       \<lparr>ri_dmainfo := True, ri_meminfo := \<lambda>j. j < n, ri_hBuffer := \<lambda>j. j < n, ri_ulDMABufferCount := n,
        ri_base := (ri_base (kr_info s))(B_drv_info := True, B_dma := True)\<rparr>\<rparr> \<or>
    fst r = - ENOMEM \<and> same_dev s (snd r) \<and> (\<exists>lk. lk \<subseteq> {R_base p B_drv_info} \<and> kr_ledger (snd r) = kr_ledger s \<union> lk)"
    (is "?good \<or> ?bad")
proof -
  have nR: "R_dmainfo p \<notin> kr_ledger s" "R_base p B_drv_info \<notin> kr_ledger s" "R_base p B_dma \<notin> kr_ledger s"
    "R_buf p i \<notin> kr_ledger s" "R_meminfo p i \<notin> kr_ledger s" for i
    using n by (auto simp: no_dma_def)
  define s1 where "s1 = upd (\<lambda>d. d\<lparr>ri_dmainfo := True\<rparr>) (acquire (R_dmainfo p) s)"
  consider "rc S_dmainfo \<noteq> 0" | "rc S_dmainfo = 0" "rc (S_base B_drv_info) \<noteq> 0"
    | "rc S_dmainfo = 0" "rc (S_base B_drv_info) = 0" "rc (S_base B_dma) \<noteq> 0"
    | "rc S_dmainfo = 0" "rc (S_base B_drv_info) = 0" "rc (S_base B_dma) = 0"
    by blast
  then show ?thesis
  proof cases
    case 1
    then have "fst r = - ENOMEM" "same_dev s (snd r)" "kr_ledger (snd r) = kr_ledger s \<union> {}"
      by (simp_all add: r netana_create_dma_def same_dev_def)
    then show ?thesis
      by (intro disjI2 conjI exI[of _ "{}"]) simp_all
  next
    case 2
    then have "fst r = - ENOMEM" "same_dev s (snd r)" "kr_ledger (snd r) = kr_ledger s \<union> {}"
      using nR by (simp_all add: r netana_create_dma_def create_base_def same_dev_def Let_def)
    then show ?thesis
      by (intro disjI2 conjI exI[of _ "{}"]) simp_all
  next
    case 3
    then have 3: "fst r = - ENOMEM" "same_dev s (snd r)"
      using nR by (simp_all add: r netana_create_dma_def create_base_def same_dev_def Let_def)
    have "kr_ledger (snd r) = kr_ledger s \<union> {R_base p B_drv_info}"
      using nR \<open>rc S_dmainfo = 0\<close> \<open>rc (S_base B_drv_info) = 0\<close> \<open>rc (S_base B_dma) \<noteq> 0\<close>
      by (auto simp: r netana_create_dma_def create_base_def Let_def)
    then show ?thesis
      using 3 by (intro disjI2 conjI exI[of _ "{R_base p B_drv_info}"]) simp_all
  next
    case 4
    define s2 where "s2 = s\<lparr>kr_ledger := kr_ledger s \<union> {R_dmainfo p, R_base p B_drv_info, R_base p B_dma},
      kr_info := (kr_info s)\<lparr>ri_dmainfo := True, ri_base := (ri_base (kr_info s))(B_drv_info := True, B_dma := True)\<rparr>\<rparr>"
    have w0: "with_dma p 0 0 s2 = s2"
    proof -
      have "i\<lparr>ri_hBuffer := ri_hBuffer i, ri_meminfo := ri_meminfo i\<rparr> = i" for i :: rdev
        by (cases i) simp
      moreover have "t\<lparr>kr_ledger := kr_ledger t, kr_info := kr_info t\<rparr> = t" for t :: kreg
        by (cases t) simp
      moreover have "ri_hBuffer (kr_info s2) = (\<lambda>_. False)" "ri_meminfo (kr_info s2) = (\<lambda>_. False)"
        using n by (simp_all add: s2_def no_dma_def)
      ultimately show ?thesis
        by (simp add: with_dma_def)
    qed
    have e: "r = (case alloc_bufs rc p 0 n s2 of
          (Some k, s) \<Rightarrow> (- ENOMEM, give_back (R_dmainfo p) (give_back (R_base p B_dma) (free_bufs p k s)))
        | (None, s) \<Rightarrow> (case add_dma_infos rc p 0 n (- ENOMEM) s of
            (Some (k, ret), s) \<Rightarrow> (ret, give_back (R_dmainfo p) (give_back (R_base p B_dma) (free_bufs p n (free_dma_infos p k s))))
          | (None, s) \<Rightarrow> (SUCCESS, upd (\<lambda>d. d\<lparr>ri_ulDMABufferCount := n\<rparr>) s)))"
    proof -
      have "upd (\<lambda>i. i\<lparr>ri_base := (ri_base i)(B_dma := True)\<rparr>) (acquire (R_base p B_dma)
          (upd (\<lambda>i. i\<lparr>ri_base := (ri_base i)(B_drv_info := True)\<rparr>) (acquire (R_base p B_drv_info) s1))) = s2"
        by (simp add: s1_def s2_def upd_def acquire_def insert_commute)
      moreover have "kr_g_ulDMABufferCount s1 = n" "kr_g_ulDMABufferCount s2 = n"
        by (simp_all add: s1_def s2_def nn)
      ultimately show ?thesis
        using 4 by (simp add: r netana_create_dma_def create_base_def Let_def flip: s1_def cong: prod.case_cong option.case_cong)
    qed
    have bound: "0 + n \<le> NETANA_MAX_DMA_BUFFERS"
      using rc by (simp add: survivable_dma_def nn)
    have freed: "\<exists>lk. lk \<subseteq> {R_base p B_drv_info} \<and> kr_ledger t = kr_ledger s \<union> lk"
      and same: "same_dev s t" if t: "t = give_back (R_dmainfo p) (give_back (R_base p B_dma) (free_bufs p k (with_dma p k 0 s2)))" for k t
    proof -
      have "R_buf p ` {..<k} \<subseteq> kr_ledger (with_dma p k 0 s2)"
        by (auto simp: with_dma_def)
      note f = free_bufs_eq[OF this]
      have l: "kr_ledger (with_dma p k 0 s2) = kr_ledger s \<union> {R_dmainfo p, R_base p B_drv_info, R_base p B_dma} \<union> R_buf p ` {..<k}"
        by (simp add: with_dma_def s2_def)
      have "kr_ledger t = kr_ledger s \<union> {R_base p B_drv_info}"
        using nR unfolding t f by (auto simp: l)
      then show "\<exists>lk. lk \<subseteq> {R_base p B_drv_info} \<and> kr_ledger t = kr_ledger s \<union> lk"
        by blast
      show "same_dev s t"
        unfolding t f by (auto simp: same_dev_def l) (simp_all add: with_dma_def s2_def)
    qed
    consider "alloc_bufs rc p 0 n s2 = (None, with_dma p n 0 s2)"
      | k where "alloc_bufs rc p 0 n s2 = (Some k, with_dma p k 0 s2)"
      using alloc_bufs_cases[OF bound, of rc p s2] unfolding w0 by auto
    then show ?thesis
    proof cases
      case (2 k)
      then show ?thesis
        using freed[of "snd r" k] same[of "snd r" k] e by simp
    next
      case 1
      have "\<forall>j<n. 0 < 0 + j \<longrightarrow> rc (S_meminfo (0 + j)) = 0"
        using rc by (simp add: survivable_dma_def nn)
      from add_dma_infos_cases[OF this, where ret="- ENOMEM" and p=p and a=n and s=s2]
      consider "add_dma_infos rc p 0 n (- ENOMEM) (with_dma p n 0 s2) = (None, with_dma p n n s2)"
        | "add_dma_infos rc p 0 n (- ENOMEM) (with_dma p n 0 s2) = (Some (0, - ENOMEM), with_dma p n 0 s2)"
        by auto
      then show ?thesis
      proof cases
        case a: 1
        have r: "r = (SUCCESS, upd (\<lambda>d. d\<lparr>ri_ulDMABufferCount := n\<rparr>) (with_dma p n n s2))"
          unfolding e 1 by (simp add: a)
        have "kr_ledger (with_dma p n n s2) = kr_ledger s \<union> dma_res p n"
          by (auto simp: with_dma_def s2_def dma_res_def)
        then have ?good
          by (simp add: r SUCCESS_def) (simp add: with_dma_def s2_def upd_def)
        then show ?thesis ..
      next
        case 2
        then have "r = (- ENOMEM, give_back (R_dmainfo p) (give_back (R_base p B_dma) (free_bufs p n (with_dma p n 0 s2))))"
          unfolding e 1 by (simp add: free_dma_infos_def)
        then show ?thesis
          using freed[of "snd r" n] same[of "snd r" n] by simp
      qed
    qed
  qed
qed

definition dma_pointers :: "nat \<Rightarrow> kreg \<Rightarrow> bool" where
  "dma_pointers n s \<longleftrightarrow> kr_g_ulDMABufferCount s = n \<and> ri_dmainfo (kr_info s) \<and> ri_meminfo (kr_info s) = (\<lambda>j. j < n) \<and>
     ri_hBuffer (kr_info s) = (\<lambda>j. j < n) \<and> ri_base (kr_info s) B_drv_info \<and> ri_base (kr_info s) B_dma"

lemma ledger_triv: "s\<lparr>kr_ledger := kr_ledger s\<rparr> = s" for s :: kreg
  by (cases s) simp

lemma free_dma_eq:
  assumes p: "dma_pointers n s" and l: "dma_res p n \<subseteq> kr_ledger s"
  shows "netana_free_dma p s = s\<lparr>kr_ledger := kr_ledger s - dma_res p n\<rparr>"
proof -
  let ?f = "\<lambda>i s. (let s = (if ri_hBuffer (kr_info s) i then give_back (R_buf p i) s else s)
    in if ri_dmainfo (kr_info s) \<and> ri_meminfo (kr_info s) i then give_back (R_meminfo p i) s else s)"
  have i: "ri_dmainfo (kr_info s)" "ri_meminfo (kr_info s) = (\<lambda>j. j < n)" "ri_hBuffer (kr_info s) = (\<lambda>j. j < n)"
    "ri_base (kr_info s) B_drv_info" "ri_base (kr_info s) B_dma" "kr_g_ulDMABufferCount s = n"
    using p by (simp_all add: dma_pointers_def)
  have loop: "m \<le> n \<Longrightarrow> fold ?f [0..<m] s = s\<lparr>kr_ledger := kr_ledger s - R_buf p ` {..<m} - R_meminfo p ` {..<m}\<rparr>" for m
  proof (induction m)
    case 0
    then show ?case by (simp add: ledger_triv)
  next
    case (Suc m)
    define t where "t = s\<lparr>kr_ledger := kr_ledger s - R_buf p ` {..<m} - R_meminfo p ` {..<m}\<rparr>"
    have "fold ?f [0..<Suc m] s = ?f m t"
      using Suc by (simp add: t_def)
    also have "\<dots> = give_back (R_meminfo p m) (give_back (R_buf p m) t)"
      using i Suc.prems by (simp add: t_def)
    also have "\<dots> = t\<lparr>kr_ledger := kr_ledger t - {R_buf p m} - {R_meminfo p m}\<rparr>"
    proof -
      have "R_buf p m \<in> kr_ledger t" "R_meminfo p m \<in> kr_ledger t"
        using l Suc.prems by (auto simp: t_def dma_res_def)
      then show ?thesis
        by (simp add: give_back_def)
    qed
    also have "\<dots> = s\<lparr>kr_ledger := kr_ledger s - R_buf p ` {..<Suc m} - R_meminfo p ` {..<Suc m}\<rparr>"
      by (simp add: t_def lessThan_Suc) (simp add: set_diff_eq conj_ac)
    finally show ?case .
  qed
  define t where "t = s\<lparr>kr_ledger := kr_ledger s - R_buf p ` {..<n} - R_meminfo p ` {..<n}\<rparr>"
  have h: "R_dmainfo p \<in> kr_ledger t" "R_base p B_dma \<in> kr_ledger t" "R_base p B_drv_info \<in> kr_ledger t"
    using l by (auto simp: t_def dma_res_def)
  have "netana_free_dma p s = give_back (R_base p B_drv_info) (give_back (R_base p B_dma) (give_back (R_dmainfo p) t))"
    using i loop[of n] by (simp add: netana_free_dma_def kobject_put_base_def Let_def t_def)
  also have "\<dots> = t\<lparr>kr_ledger := kr_ledger t - {R_dmainfo p} - {R_base p B_dma} - {R_base p B_drv_info}\<rparr>"
    using h by (simp add: give_back_def)
  also have "\<dots> = s\<lparr>kr_ledger := kr_ledger s - dma_res p n\<rparr>"
  proof -
    have "kr_ledger s - R_buf p ` {..<n} - R_meminfo p ` {..<n} - {R_dmainfo p} - {R_base p B_dma} - {R_base p B_drv_info}
        = kr_ledger s - dma_res p n"
      by (auto simp: dma_res_def)
    then show ?thesis
      by (simp add: t_def)
  qed
  finally show ?thesis .
qed

section \<open>On the way to registration and back\<close>

definition class_res :: "res set" where
  "class_res = {R_chrdev, R_class_mem, R_class}"

definition users :: "kreg \<Rightarrow> nat" where
  "users s = (case kr_class s of None \<Rightarrow> 0 | Some n \<Rightarrow> n)"

text \<open>The class exists exactly while it has users.\<close>

definition class_ok :: "kreg \<Rightarrow> bool" where
  "class_ok s \<longleftrightarrow> (case kr_class s of None \<Rightarrow> kr_ledger s \<inter> class_res = {} | Some n \<Rightarrow> 0 < n \<and> class_res \<subseteq> kr_ledger s)"

definition dev_res :: "nat \<Rightarrow> res \<Rightarrow> bool" where
  "dev_res p r \<longleftrightarrow> sysfs_res p r \<or> r \<in> {R_tk p, R_minor p, R_device p, R_thread p, R_listed p} \<or> (\<exists>n. r \<in> dma_res p n)"

definition lost :: "nat \<Rightarrow> res \<Rightarrow> bool" where
  "lost p r \<longleftrightarrow> leakable p r \<or> r = R_base p B_drv_info"

lemma lost_not:
  "\<not> lost p R_chrdev" "\<not> lost p R_class_mem" "\<not> lost p R_class" "\<not> lost p (R_tk q)" "\<not> lost p (R_minor q)"
  "\<not> lost p (R_device q)" "\<not> lost p (R_thread q)" "\<not> lost p (R_listed q)"
  by (auto simp: lost_def leakable_def)

definition staged :: "nat \<Rightarrow> kreg \<Rightarrow> res set \<Rightarrow> res set \<Rightarrow> kreg \<Rightarrow> bool" where
  "staged p s0 X lk t \<longleftrightarrow> \<not> kr_fault t \<and> kr_class t = Some (users s0 + 1) \<and>
     kr_ledger t = kr_ledger s0 \<union> class_res \<union> X \<union> lk \<and> (\<forall>r\<in>lk. lost p r) \<and> (\<forall>r\<in>X. dev_res p r) \<and>
     kr_idr t = (if R_minor p \<in> X then (ri_minor (kr_info t), p) # kr_idr s0 else kr_idr s0) \<and>
     (R_minor p \<in> X \<longrightarrow> ri_minor (kr_info t) \<notin> set (map fst (kr_idr s0)))"

definition undone :: "nat \<Rightarrow> kreg \<Rightarrow> res set \<Rightarrow> kreg \<Rightarrow> bool" where
  "undone p s0 lk t \<longleftrightarrow> \<not> kr_fault t \<and> kr_class t = kr_class s0 \<and> kr_idr t = kr_idr s0 \<and>
     kr_ledger t = kr_ledger s0 \<union> lk \<and> (\<forall>r\<in>lk. lost p r)"

definition fresh_dev :: "nat \<Rightarrow> kreg \<Rightarrow> bool" where
  "fresh_dev p s \<longleftrightarrow> (\<forall>r\<in>kr_ledger s. \<not> dev_res p r)"

lemma dev_res_not_class: "dev_res p r \<Longrightarrow> r \<notin> class_res"
  by (auto simp: dev_res_def class_res_def sysfs_res_def dma_res_def)

lemma err_devmem_undone:
  assumes c: "class_ok s0" and s: "staged p s0 {} lk t"
  shows "undone p s0 lk (err_devmem t)"
proof (cases "kr_class s0")
  case None
  have l: "kr_ledger t = kr_ledger s0 \<union> class_res \<union> lk" and lk: "\<forall>r\<in>lk. lost p r" and k: "kr_class t = Some 1"
    using s None by (auto simp: staged_def users_def)
  have e: "err_devmem t = (give_back R_chrdev (give_back R_class_mem (give_back R_class t)))\<lparr>kr_class := None\<rparr>"
    using k by (simp add: err_devmem_def netana_classdestroy_def netana_release_class_def)
  have d: "kr_ledger s0 \<inter> class_res = {}" "lk \<inter> class_res = {}"
    using c None lk lost_not by (auto simp: class_ok_def class_res_def)
  have "kr_ledger (err_devmem t) = kr_ledger t - class_res"
    by (auto simp: e class_res_def)
  then have "kr_ledger (err_devmem t) = kr_ledger s0 \<union> lk"
    using d unfolding l by blast
  moreover have "\<not> kr_fault (err_devmem t)"
    using s by (auto simp: e staged_def class_res_def)
  ultimately show ?thesis
    using s None lk by (simp add: undone_def staged_def e)
next
  case (Some n)
  then have "0 < n" "class_res \<subseteq> kr_ledger s0"
    using c by (auto simp: class_ok_def)
  then show ?thesis
    using s Some by (auto simp: undone_def staged_def err_devmem_def netana_classdestroy_def users_def)
qed

lemma staged_give_back:
  assumes f: "fresh_dev p s0" and s: "staged p s0 (insert r X) lk t"
    and r: "r \<notin> X" "\<not> lost p r" "r \<noteq> R_minor p"
  shows "staged p s0 X lk (give_back r t)"
proof -
  have d: "dev_res p r"
    using s by (simp add: staged_def)
  then have n: "r \<notin> kr_ledger s0" "r \<notin> class_res"
    using f dev_res_not_class by (auto simp: fresh_dev_def)
  moreover have "r \<notin> lk" "kr_ledger t = kr_ledger s0 \<union> class_res \<union> insert r X \<union> lk"
    using s r(2) by (auto simp: staged_def)
  ultimately have "kr_ledger t - {r} = kr_ledger s0 \<union> class_res \<union> X \<union> lk" "r \<in> kr_ledger t"
    using r(1) by auto
  then show ?thesis
    using s r(3) by (simp add: staged_def)
qed

lemma staged_freeminor:
  assumes f: "fresh_dev p s0" and s: "staged p s0 (insert (R_minor p) X) lk t" and r: "R_minor p \<notin> X"
  shows "staged p s0 X lk (netana_freeminor p t)"
proof -
  have d: "dev_res p (R_minor p)"
    by (simp add: dev_res_def)
  then have n: "R_minor p \<notin> kr_ledger s0" "R_minor p \<notin> class_res"
    using f dev_res_not_class by (auto simp: fresh_dev_def)
  moreover have "R_minor p \<notin> lk" "kr_ledger t = kr_ledger s0 \<union> class_res \<union> insert (R_minor p) X \<union> lk"
    using s lost_not by (auto simp: staged_def)
  ultimately have l: "kr_ledger t - {R_minor p} = kr_ledger s0 \<union> class_res \<union> X \<union> lk" "R_minor p \<in> kr_ledger t"
    using r by auto
  have "kr_idr t = (ri_minor (kr_info t), p) # kr_idr s0" "ri_minor (kr_info t) \<notin> set (map fst (kr_idr s0))"
    using s by (auto simp: staged_def)
  then have "filter (\<lambda>x. fst x \<noteq> ri_minor (kr_info t)) (kr_idr t) = kr_idr s0"
    by (simp add: filter_id_conv) (metis fst_conv image_eqI)
  then show ?thesis
    using s l r by (simp add: staged_def netana_freeminor_def)
qed

lemma error_dma_undone:
  assumes c: "class_ok s0" "fresh_dev p s0" and s: "staged p s0 {R_device p, R_minor p, R_tk p} lk t"
  shows "undone p s0 lk (error_dma p t)"
proof -
  have "staged p s0 {R_minor p, R_tk p} lk (give_back (R_device p) t)"
    by (rule staged_give_back[OF c(2) s]) (simp_all add: lost_not)
  then have "staged p s0 {R_tk p} lk (netana_freeminor p (give_back (R_device p) t))"
    by (rule staged_freeminor[OF c(2)]) simp
  then have "staged p s0 {} lk (give_back (R_tk p) (netana_freeminor p (give_back (R_device p) t)))"
    by (rule staged_give_back[OF c(2)]) (simp_all add: lost_not)
  then show ?thesis
    unfolding error_dma_def err_create_device_def err_get_minor_def by (rule err_devmem_undone[OF c(1)])
qed

lemma staged_acquire:
  assumes "staged p s0 X lk t" "dev_res p r" "r \<noteq> R_minor p"
  shows "staged p s0 (insert r X) lk (acquire r t)"
  using assms by (simp add: staged_def)

lemma staged_upd:
  assumes "staged p s0 X lk t" "\<And>i. ri_minor (f i) = ri_minor i"
  shows "staged p s0 X lk (upd f t)"
  using assms by (simp add: staged_def)

lemma least_free: "least_free xs \<notin> set xs"
proof -
  have "card (set xs) < Suc (length xs)"
    using card_length[of xs] by simp
  then have "\<not> {0..<Suc (length xs)} \<subseteq> set xs"
    using card_mono[of "set xs" "{0..<Suc (length xs)}"] by auto
  then have "filter (\<lambda>n. n \<notin> set xs) [0..<Suc (length xs)] \<noteq> []"
    by (auto simp: filter_empty_conv simp del: upt_Suc)
  then have "List.hd (filter (\<lambda>n. n \<notin> set xs) [0..<Suc (length xs)]) \<in> set (filter (\<lambda>n. n \<notin> set xs) [0..<Suc (length xs)])"
    by (rule hd_in_set)
  then show ?thesis
    by (simp add: least_free_def del: upt_Suc)
qed

lemma init_class_cases:
  assumes "class_ok s" "\<not> kr_fault s"
  shows "fst (init_netana_class rc s) = 0 \<and> staged p s {} {} (snd (init_netana_class rc s)) \<and>
      kr_info (snd (init_netana_class rc s)) = kr_info s \<and>
      kr_g_ulDMABufferCount (snd (init_netana_class rc s)) = kr_g_ulDMABufferCount s \<or>
    fst (init_netana_class rc s) \<noteq> 0 \<and> undone p s {} (snd (init_netana_class rc s))"
proof (cases "kr_class s")
  case (Some n)
  then show ?thesis
    using assms by (auto simp: init_netana_class_def SUCCESS_def staged_def users_def class_ok_def)
next
  case None
  have n: "R_chrdev \<notin> kr_ledger s" "R_class_mem \<notin> kr_ledger s" "R_class \<notin> kr_ledger s"
    using assms None by (auto simp: class_ok_def class_res_def)
  consider "rc S_chrdev < 0" | "\<not> rc S_chrdev < 0" "rc S_class_mem \<noteq> 0"
    | "\<not> rc S_chrdev < 0" "rc S_class_mem = 0" "rc S_class \<noteq> 0"
    | "\<not> rc S_chrdev < 0" "rc S_class_mem = 0" "rc S_class = 0" "rc S_toolkit \<noteq> 0"
    | "\<not> rc S_chrdev < 0" "rc S_class_mem = 0" "rc S_class = 0" "rc S_toolkit = 0"
    by blast
  then show ?thesis
  proof cases
    case 5
    then show ?thesis
      using None assms by (auto simp: init_netana_class_def SUCCESS_def Let_def staged_def users_def class_res_def)
  qed (use None n assms in \<open>auto simp: init_netana_class_def Let_def undone_def give_back_def acquire_def\<close>)
qed

definition blank :: "rdev \<Rightarrow> bool" where
  "blank i \<longleftrightarrow> ri_hBuffer i = (\<lambda>_. False) \<and> ri_meminfo i = (\<lambda>_. False) \<and> ri_base i = (\<lambda>_. False) \<and>
     ri_dir i = (\<lambda>_. False) \<and> ri_fbuf i = (\<lambda>_. False) \<and> (\<forall>g. \<not> rg_kobj (ri_group i g) \<and> rg_att (ri_group i g) = None)"

definition survivable :: "answers \<Rightarrow> nat \<Rightarrow> bool" where
  "survivable rc n \<longleftrightarrow> survivable_sysfs rc \<and> survivable_dma rc n \<and> rc S_thread = 0"

definition held_res :: "nat \<Rightarrow> res set" where
  "held_res p = {R_device p, R_minor p, R_tk p, R_thread p, R_listed p}"

definition in_service :: "nat \<Rightarrow> nat \<Rightarrow> nat \<Rightarrow> nat \<Rightarrow> kreg \<Rightarrow> kreg \<Rightarrow> bool" where
  "in_service p gpios ports n s0 t \<longleftrightarrow>
     (\<exists>s1. staged p s0 (held_res p \<union> dma_res p n) {} s1 \<and> kr_fault t = kr_fault s1 \<and> kr_class t = kr_class s1 \<and>
        kr_idr t = kr_idr s1 \<and> ri_minor (kr_info t) = ri_minor (kr_info s1) \<and>
        (\<exists>bd c. built p gpios ports bd (kr_ledger s1) c (all_parts gpios) {} t)) \<and>
     dma_pointers n t \<and> ri_dsrthread (kr_info t) = T_Task \<and> ri_addsucceded (kr_info t)"

lemma staged_free_dma:
  assumes f: "fresh_dev p s0" and s: "staged p s0 (X \<union> dma_res p n) lk t" and p: "dma_pointers n t"
    and d: "X \<inter> dma_res p n = {}" "\<forall>r\<in>lk. leakable p r"
  shows "staged p s0 X lk (netana_free_dma p t)"
proof -
  have "\<And>r. r \<in> dma_res p n \<Longrightarrow> dev_res p r"
    by (auto simp: dev_res_def)
  then have n: "kr_ledger s0 \<inter> dma_res p n = {}" "class_res \<inter> dma_res p n = {}"
    using f dev_res_not_class by (auto simp: fresh_dev_def)
  have "lk \<inter> dma_res p n = {}"
    using d(2) by (auto simp: leakable_def dma_res_def)
  moreover have l: "kr_ledger t = kr_ledger s0 \<union> class_res \<union> (X \<union> dma_res p n) \<union> lk"
    using s by (simp add: staged_def)
  ultimately have l': "kr_ledger t - dma_res p n = kr_ledger s0 \<union> class_res \<union> X \<union> lk"
    using n d(1) by blast
  have e: "netana_free_dma p t = t\<lparr>kr_ledger := kr_ledger t - dma_res p n\<rparr>"
    by (rule free_dma_eq[OF p]) (simp add: l Un_assoc le_supI2)
  have "R_minor p \<in> X \<union> dma_res p n \<longleftrightarrow> R_minor p \<in> X"
    by (auto simp: dma_res_def)
  then show ?thesis
    using s l' unfolding e staged_def by simp
qed

lemma err_add_to_toolkit_undone:
  assumes c: "class_ok s0" "fresh_dev p s0"
    and s: "staged p s0 (insert (R_thread p) ({R_device p, R_minor p, R_tk p} \<union> dma_res p n)) lk t"
    and d: "dma_pointers n t" "ri_dsrthread (kr_info t) = T_Task" and lk: "\<forall>r\<in>lk. leakable p r"
  shows "undone p s0 lk (err_add_to_toolkit p t)"
proof -
  let ?u = "stop_dsr_thread p t"
  have u: "?u = upd (\<lambda>d. d\<lparr>ri_dsrthread := T_NULL\<rparr>) (give_back (R_thread p) t)"
    using d(2) by (simp add: stop_dsr_thread_def)
  have "staged p s0 ({R_device p, R_minor p, R_tk p} \<union> dma_res p n) lk ?u"
    unfolding u by (rule staged_upd[OF staged_give_back[OF c(2) s]]) (auto simp: lost_not dma_res_def)
  moreover have "dma_pointers n ?u"
    using d(1) by (simp add: dma_pointers_def u)
  ultimately have "staged p s0 {R_device p, R_minor p, R_tk p} lk (netana_free_dma p ?u)"
    by (rule staged_free_dma[OF c(2)]) (use lk in \<open>auto simp: dma_res_def\<close>)
  then show ?thesis
    unfolding err_add_to_toolkit_def err_reg_dsr_thread_def by (rule error_dma_undone[OF c])
qed

lemma dma_pointers_kcore:
  assumes "dma_pointers n s" "kcore s' = kcore s" "\<forall>b\<in>{B_drv_info, B_dma}. ri_base (kr_info s') b = ri_base (kr_info s) b"
  shows "dma_pointers n s'"
  using assms(1,3) kcore_eqD[OF assms(2)] by (simp add: dma_pointers_def)

lemma dma_not_sysfs: "r \<in> dma_res p n \<Longrightarrow> \<not> sysfs_res p r"
  by (auto simp: dma_res_def sysfs_res_def)

lemma no_dma_staged:
  assumes f: "fresh_dev p s0" and s: "staged p s0 {R_device p, R_minor p, R_tk p} {} t" and b: "blank (kr_info t)"
  shows "no_dma p t"
proof -
  have fr: "\<And>r. dev_res p r \<Longrightarrow> r \<notin> kr_ledger s0 \<union> class_res"
    using f dev_res_not_class by (auto simp: fresh_dev_def)
  have l: "kr_ledger t = kr_ledger s0 \<union> class_res \<union> {R_device p, R_minor p, R_tk p}"
    using s by (simp add: staged_def)
  have "r \<notin> kr_ledger t" if d: "r \<in> dma_res p k" for r k
  proof -
    have "dev_res p r" "r \<notin> {R_device p, R_minor p, R_tk p}"
      using d by (auto simp: dev_res_def) (auto simp: dma_res_def)
    then show ?thesis
      using fr unfolding l by blast
  qed
  then have "R_buf p i \<notin> kr_ledger t" "R_meminfo p i \<notin> kr_ledger t" "R_dmainfo p \<notin> kr_ledger t"
    "R_base p B_drv_info \<notin> kr_ledger t" "R_base p B_dma \<notin> kr_ledger t" for i
    by (simp_all add: dma_res_def) (metis lessThan_iff imageI lessI UnCI)+
  then show ?thesis
    using b by (simp add: no_dma_def blank_def)
qed

text \<open>The part of \<open>register_services\<close> after the DMA buffers, with the thread running.\<close>

lemma services_after_thread:
  assumes c: "class_ok s0" "fresh_dev p s0"
    and s2: "staged p s0 (insert (R_thread p) ({R_device p, R_minor p, R_tk p} \<union> dma_res p n)) {} t2"
    and d2: "dma_pointers n t2" "ri_dsrthread (kr_info t2) = T_Task"
    and b: "blank ((kr_info t2)\<lparr>ri_hBuffer := \<lambda>_. False, ri_meminfo := \<lambda>_. False, ri_base := \<lambda>_. False\<rparr>)"
      "\<forall>b. b \<notin> {B_drv_info, B_dma} \<longrightarrow> \<not> ri_base (kr_info t2) b"
    and rc: "survivable_sysfs rc" and g: "gpios = 0 \<or> 4 \<le> gpios"
    and r: "r = (if rc S_deviceadd \<noteq> 0 then (rc S_deviceadd, err_add_to_toolkit p (upd (\<lambda>d. d\<lparr>ri_addsucceded := False\<rparr>) t2))
        else (case netana_create_sysfsentries rc p gpios ports (acquire (R_listed p) t2) of (r, s) \<Rightarrow>
              if r \<noteq> SUCCESS then (- ENOMEM, err_sysfs p s)
              else (SUCCESS, upd (\<lambda>d. d\<lparr>ri_addsucceded := True\<rparr>) s)))"
  shows "fst r = 0 \<and> in_service p gpios ports n s0 (snd r) \<or> fst r \<noteq> 0 \<and> (\<exists>lk. undone p s0 lk (snd r))"
proof -
  let ?X = "{R_device p, R_minor p, R_tk p}"
  have fr: "\<And>r. dev_res p r \<Longrightarrow> r \<notin> kr_ledger s0 \<union> class_res"
    using c(2) dev_res_not_class by (auto simp: fresh_dev_def)
  show ?thesis
  proof (cases "rc S_deviceadd = 0")
    case False
    have "staged p s0 (insert (R_thread p) (?X \<union> dma_res p n)) {} (upd (\<lambda>d. d\<lparr>ri_addsucceded := False\<rparr>) t2)"
      by (rule staged_upd[OF s2]) simp
    from err_add_to_toolkit_undone[OF c this] have "undone p s0 {} (err_add_to_toolkit p (upd (\<lambda>d. d\<lparr>ri_addsucceded := False\<rparr>) t2))"
      using d2 by (simp add: dma_pointers_def)
    then show ?thesis
      using False r by auto
  next
    case True
    define t3 where "t3 = acquire (R_listed p) t2"
    have s3: "staged p s0 (insert (R_listed p) (insert (R_thread p) (?X \<union> dma_res p n))) {} t3"
      unfolding t3_def by (rule staged_acquire[OF s2]) (simp_all add: dev_res_def)
    have d3: "dma_pointers n t3" "ri_dsrthread (kr_info t3) = T_Task"
      using d2 by (simp_all add: t3_def dma_pointers_def)
    have X3: "insert (R_listed p) (insert (R_thread p) (?X \<union> dma_res p n)) = held_res p \<union> dma_res p n"
      by (auto simp: held_res_def)
    have l3: "kr_ledger t3 = kr_ledger s0 \<union> class_res \<union> (held_res p \<union> dma_res p n)"
      using s3 unfolding X3 by (simp add: staged_def)
    have sys: "sysfs_res p r \<Longrightarrow> r \<notin> kr_ledger s0 \<union> class_res" for r
      using fr by (simp add: dev_res_def)
    have "\<not> sysfs_res p r" if "r \<in> kr_ledger t3" for r
    proof
      assume "sysfs_res p r"
      moreover from this have "r \<notin> held_res p"
        by (auto simp: held_res_def sysfs_res_def)
      ultimately show False
        using that sys dma_not_sysfs unfolding l3 by blast
    qed
    moreover have "kr_info t3 = kr_info t2"
      by (simp add: t3_def)
    ultimately have ne: "no_entries p t3"
      using b by (simp add: no_entries_def blank_def)
    have f3: "\<not> kr_fault t3"
      using s3 by (simp add: staged_def)
    have b3: "ri_base (kr_info t3) B_drv_info"
      using d3(1) by (simp add: dma_pointers_def)
    obtain r4 t4 where r4: "netana_create_sysfsentries rc p gpios ports t3 = (r4, t4)"
      by (cases "netana_create_sysfsentries rc p gpios ports t3")
    note cs = create_sysfsentries_cases[OF ne f3 b3 rc g refl, of ports, unfolded r4 fst_conv snd_conv]
    show ?thesis
    proof (cases "r4 = 0")
      case r0: True
      let ?t5 = "upd (\<lambda>d. d\<lparr>ri_addsucceded := True\<rparr>) t4"
      have bt: "built p gpios ports (ri_base (kr_info t3)) (kr_ledger t3) (kcore t3) (all_parts gpios) {} t4"
        using cs r0 by blast
      have kc: "kcore t4 = kcore t3"
        using bt by (simp add: built_def)
      have bb: "\<forall>b\<in>{B_drv_info, B_dma}. ri_base (kr_info t4) b = ri_base (kr_info t3) b"
        using bt by (simp add: built_def pointers_ok_def)
      have "built p gpios ports (ri_base (kr_info t3)) (kr_ledger t3) (kcore ?t5) (all_parts gpios) {} ?t5"
        using bt by (simp add: built_def pointers_ok_def)
      moreover have "dma_pointers n ?t5" "ri_dsrthread (kr_info ?t5) = T_Task"
        using dma_pointers_kcore[OF d3(1) kc bb] d3(2) kcore_eqD[OF kc] by (simp_all add: dma_pointers_def)
      moreover have "kr_fault ?t5 = kr_fault t3" "kr_class ?t5 = kr_class t3" "kr_idr ?t5 = kr_idr t3"
        "ri_minor (kr_info ?t5) = ri_minor (kr_info t3)"
        using bt f3 kcore_eqD[OF kc] by (simp_all add: built_def)
      ultimately have "in_service p gpios ports n s0 ?t5"
        using s3 unfolding in_service_def X3
        by (intro conjI exI[of _ t3] exI[of _ "ri_base (kr_info t3)"] exI[of _ "kcore ?t5"]) simp_all
      then show ?thesis
        using r True r4 r0 by (simp add: SUCCESS_def flip: t3_def)
    next
      case r0: False
      have q: "\<not> kr_fault t4" "kcore t4 = kcore t3" "\<forall>b\<in>{B_drv_info, B_dma}. ri_base (kr_info t4) b = ri_base (kr_info t3) b"
        "kr_ledger t3 \<subseteq> kr_ledger t4" "\<forall>x\<in>kr_ledger t4 - kr_ledger t3. leakable p x"
        using cs r0 by blast+
      define lk where "lk = kr_ledger t4 - kr_ledger t3"
      have l4: "kr_ledger t4 = kr_ledger t3 \<union> lk"
        using q(4) by (auto simp: lk_def)
      have "staged p s0 (insert (R_listed p) (insert (R_thread p) (?X \<union> dma_res p n))) lk t4"
        using s3 q(1,5) l4 kcore_eqD[OF q(2)] unfolding staged_def lk_def[symmetric] by (auto simp: lost_def)
      then have "staged p s0 (insert (R_thread p) (?X \<union> dma_res p n)) lk (give_back (R_listed p) t4)"
        by (rule staged_give_back[OF c(2)]) (auto simp: lost_not dma_res_def)
      moreover have "dma_pointers n (give_back (R_listed p) t4)" "ri_dsrthread (kr_info (give_back (R_listed p) t4)) = T_Task"
        using dma_pointers_kcore[OF d3(1) q(2,3)] d3(2) kcore_eqD[OF q(2)] by (simp_all add: dma_pointers_def)
      ultimately have "undone p s0 lk (err_sysfs p t4)"
        unfolding err_sysfs_def using q(5) by (intro err_add_to_toolkit_undone[OF c]) (simp_all add: lk_def)
      then show ?thesis
        using r True r4 r0 by (auto simp: SUCCESS_def simp flip: t3_def)
    qed
  qed
qed

lemma register_services_cases:
  assumes c: "class_ok s0" "fresh_dev p s0" and s: "staged p s0 {R_device p, R_minor p, R_tk p} {} t" and b: "blank (kr_info t)"
    and rc: "survivable rc (kr_g_ulDMABufferCount t)" and g: "gpios = 0 \<or> 4 \<le> gpios"
    and n: "n = kr_g_ulDMABufferCount t"
  shows "fst (register_services rc p gpios ports t) = 0 \<and> in_service p gpios ports n s0 (snd (register_services rc p gpios ports t)) \<or>
    fst (register_services rc p gpios ports t) \<noteq> 0 \<and> (\<exists>lk. undone p s0 lk (snd (register_services rc p gpios ports t)))"
proof -
  let ?X = "{R_device p, R_minor p, R_tk p}"
  have sd: "survivable_dma rc (kr_g_ulDMABufferCount t)" and ss: "survivable_sysfs rc"
    using rc by (simp_all add: survivable_def)
  obtain r1 t1 where r1: "netana_create_dma rc p t = (r1, t1)"
    by (cases "netana_create_dma rc p t")
  from create_dma_cases[OF no_dma_staged[OF c(2) s b] sd refl n, unfolded r1 fst_conv snd_conv]
  show ?thesis
  proof
    assume "r1 = - ENOMEM \<and> same_dev t t1 \<and> (\<exists>lk. lk \<subseteq> {R_base p B_drv_info} \<and> kr_ledger t1 = kr_ledger t \<union> lk)"
    then obtain lk where f: "r1 = - ENOMEM" "same_dev t t1" "lk \<subseteq> {R_base p B_drv_info}" "kr_ledger t1 = kr_ledger t \<union> lk"
      by blast
    have "staged p s0 ?X lk t1"
      using s f(2,3,4) by (auto simp: staged_def same_dev_def lost_def)
    from error_dma_undone[OF c this] show ?thesis
      using f(1) by (auto simp: register_services_def r1)
  next
    assume k: "r1 = 0 \<and> t1 = t\<lparr>kr_ledger := kr_ledger t \<union> dma_res p n, kr_info := (kr_info t)
       \<lparr>ri_dmainfo := True, ri_meminfo := \<lambda>j. j < n, ri_hBuffer := \<lambda>j. j < n, ri_ulDMABufferCount := n,
        ri_base := (ri_base (kr_info t))(B_drv_info := True, B_dma := True)\<rparr>\<rparr>"
    define t2 where "t2 = upd (\<lambda>d. d\<lparr>ri_dsrthread := T_Task\<rparr>) (acquire (R_thread p) t1)"
    have "staged p s0 (?X \<union> dma_res p n) {} t1"
      using s k by (auto simp: staged_def dev_res_def dma_res_def)
    then have "staged p s0 (insert (R_thread p) (?X \<union> dma_res p n)) {} (acquire (R_thread p) t1)"
      by (rule staged_acquire) (simp_all add: dev_res_def)
    then have s2: "staged p s0 (insert (R_thread p) (?X \<union> dma_res p n)) {} t2"
      unfolding t2_def by (rule staged_upd) simp
    have i2: "dma_pointers n t2" "ri_dsrthread (kr_info t2) = T_Task"
      "blank ((kr_info t2)\<lparr>ri_hBuffer := \<lambda>_. False, ri_meminfo := \<lambda>_. False, ri_base := \<lambda>_. False\<rparr>)"
      "\<forall>b. b \<notin> {B_drv_info, B_dma} \<longrightarrow> \<not> ri_base (kr_info t2) b"
      using k b n by (auto simp: t2_def dma_pointers_def blank_def)
    show ?thesis
      by (rule services_after_thread[OF c s2 i2 ss g])
        (use rc k in \<open>simp add: register_services_def r1 kthread_run_def survivable_def t2_def Let_def\<close>)
  qed
qed

lemma take_params_frame:
  "kr_ledger (take_params m s) = kr_ledger s" "kr_fault (take_params m s) = kr_fault s" "kr_class (take_params m s) = kr_class s"
  "kr_idr (take_params m s) = kr_idr s" "kr_info (take_params m s) = kr_info s" "users (take_params m s) = users s"
  by (simp_all add: take_params_def users_def)

lemma staged_params: "staged p (take_params m s) = staged p s" "undone p (take_params m s) = undone p s"
  "in_service p gpios ports n (take_params m s) = in_service p gpios ports n s"
  "class_ok (take_params m s) = class_ok s" "fresh_dev p (take_params m s) = fresh_dev p s"
  by (simp_all add: fun_eq_iff staged_def undone_def in_service_def class_ok_def fresh_dev_def take_params_frame cong: option.case_cong)

lemma getminor_staged:
  assumes s: "staged p s0 {R_tk p} {} t" and r: "\<not> rc S_minor < 0"
  shows "fst (netana_getminor rc p t) = 0" "staged p s0 {R_minor p, R_tk p} {} (snd (netana_getminor rc p t))"
    "kr_info (snd (netana_getminor rc p t)) = (kr_info t)\<lparr>ri_minor := least_free (map fst (kr_idr t))\<rparr>"
    "kr_g_ulDMABufferCount (snd (netana_getminor rc p t)) = kr_g_ulDMABufferCount t"
proof -
  have "kr_idr t = kr_idr s0"
    using s by (simp add: staged_def)
  then show "staged p s0 {R_minor p, R_tk p} {} (snd (netana_getminor rc p t))"
    using s r least_free[of "map fst (kr_idr s0)"] by (simp add: netana_getminor_def staged_def Let_def dev_res_def acquire_def upd_def)
qed (use r in \<open>simp_all add: netana_getminor_def Let_def acquire_def upd_def\<close>)

lemma registerdevice_cases:
  assumes c: "class_ok s" "fresh_dev p s" "\<not> kr_fault s" and b: "blank (kr_info s)"
    and n: "n = kr_g_ulDMABufferCount (take_params m s)" and rc: "survivable rc n" and g: "gpios = 0 \<or> 4 \<le> gpios"
    and r: "r = netana_registerdevice m rc p gpios ports s"
  shows "fst r = 0 \<and> in_service p gpios ports n s (snd r) \<or> fst r \<noteq> 0 \<and> (\<exists>lk. undone p s lk (snd r))"
proof -
  define s1 where "s1 = take_params m s"
  have c1: "class_ok s1" "fresh_dev p s1" "\<not> kr_fault s1" "kr_info s1 = kr_info s"
    using c by (simp_all add: s1_def staged_params take_params_frame)
  obtain i t where i: "init_netana_class rc s1 = (i, t)"
    by (cases "init_netana_class rc s1")
  have e: "r = (if i \<noteq> 0 then (- ENOMEM, t) else if rc S_tk \<noteq> 0 then (- ENOMEM, err_devmem t)
      else (let u = upd (\<lambda>d. d\<lparr>ri_tkdevice := True\<rparr>) (acquire (R_tk p) t) in
        (case netana_getminor rc p u of (r, s) \<Rightarrow>
            if r \<noteq> 0 then (r, err_get_minor p s)
            else if rc S_device \<noteq> 0 then (1, err_create_device p s)
            else register_services rc p gpios ports (acquire (R_device p) s))))"
    by (simp add: r netana_registerdevice_def i flip: s1_def)
  show ?thesis
  proof (cases "i = 0")
    case False
    then have "undone p s {} t"
      using init_class_cases[OF c1(1,3), of rc] i by (simp add: s1_def staged_params)
    then show ?thesis
      using False e by auto
  next
    case True
    have t: "staged p s {} {} t" "kr_info t = kr_info s" "kr_g_ulDMABufferCount t = n"
      using init_class_cases[OF c1(1,3), of rc] i True c1(4) by (simp_all add: s1_def staged_params n)
    show ?thesis
    proof (cases "rc S_tk = 0")
      case False
      then show ?thesis
        using err_devmem_undone[OF c(1) t(1)] e True by auto
    next
      case tk: True
      define u where "u = upd (\<lambda>d. d\<lparr>ri_tkdevice := True\<rparr>) (acquire (R_tk p) t)"
      have su: "staged p s {R_tk p} {} u"
        unfolding u_def by (rule staged_upd[OF staged_acquire[OF t(1)]]) (simp_all add: dev_res_def)
      have undo1: "undone p s {} (err_get_minor p v)" if "staged p s {R_tk p} {} v" for v
        unfolding err_get_minor_def
        by (rule err_devmem_undone[OF c(1) staged_give_back[OF c(2) that]]) (simp_all add: lost_not)
      show ?thesis
      proof (cases "rc S_minor < 0")
        case neg: True
        then show ?thesis
          using undo1[OF su] e True tk by (auto simp: netana_getminor_def simp flip: u_def)
      next
        case pos: False
        note gm = getminor_staged[where rc=rc, OF su pos]
        define v where "v = snd (netana_getminor rc p u)"
        have ev: "netana_getminor rc p u = (0, v)"
          using gm(1) by (simp add: v_def prod_eq_iff)
        show ?thesis
        proof (cases "rc S_device = 0")
          case False
          have "staged p s {R_tk p} {} (netana_freeminor p v)"
            by (rule staged_freeminor[OF c(2) gm(2)[folded v_def]]) simp
          then have "undone p s {} (err_create_device p v)"
            unfolding err_create_device_def by (rule undo1)
          then show ?thesis
            using e True tk ev False by (auto simp flip: u_def)
        next
          case dev: True
          have "staged p s {R_device p, R_minor p, R_tk p} {} (acquire (R_device p) v)"
            by (rule staged_acquire[OF gm(2)[folded v_def]]) (simp_all add: dev_res_def)
          moreover have "blank (kr_info (acquire (R_device p) v))" "kr_g_ulDMABufferCount (acquire (R_device p) v) = n"
            using b t gm(3,4) by (simp_all add: v_def u_def blank_def)
          ultimately have "fst (register_services rc p gpios ports (acquire (R_device p) v)) = 0 \<and>
              in_service p gpios ports n s (snd (register_services rc p gpios ports (acquire (R_device p) v))) \<or>
            fst (register_services rc p gpios ports (acquire (R_device p) v)) \<noteq> 0 \<and>
              (\<exists>lk. undone p s lk (snd (register_services rc p gpios ports (acquire (R_device p) v))))"
            using rc g by (intro register_services_cases[OF c(1,2)]) simp_all
          moreover have "r = register_services rc p gpios ports (acquire (R_device p) v)"
            using e True tk ev dev by (simp flip: u_def)
          ultimately show ?thesis
            by (simp only:)
        qed
      qed
    qed
  qed
qed

text \<open>What a device in service holds.\<close>

definition device_res :: "nat \<Rightarrow> nat \<Rightarrow> nat \<Rightarrow> nat \<Rightarrow> res set" where
  "device_res p gpios ports n = held_res p \<union> dma_res p n \<union> (\<Union>k\<in>all_parts gpios. comp_res p gpios ports k)"

lemma in_service_holds:
  assumes "in_service p gpios ports n s t"
  shows "\<not> kr_fault t \<and> kr_class t = Some (users s + 1) \<and> ri_addsucceded (kr_info t) \<and>
    kr_ledger t = kr_ledger s \<union> class_res \<union> device_res p gpios ports n \<and>
    kr_idr t = (ri_minor (kr_info t), p) # kr_idr s \<and> ri_minor (kr_info t) \<notin> set (map fst (kr_idr s))"
proof -
  obtain s1 bd c where s1: "staged p s (held_res p \<union> dma_res p n) {} s1" "kr_fault t = kr_fault s1" "kr_class t = kr_class s1"
    "kr_idr t = kr_idr s1" "ri_minor (kr_info t) = ri_minor (kr_info s1)"
    "built p gpios ports bd (kr_ledger s1) c (all_parts gpios) {} t" "ri_addsucceded (kr_info t)"
    using assms unfolding in_service_def by blast
  have "kr_ledger t = kr_ledger s1 \<union> (\<Union>k\<in>all_parts gpios. comp_res p gpios ports k)"
    using s1(6) by (simp add: built_def)
  moreover have "R_minor p \<in> held_res p"
    by (simp add: held_res_def)
  ultimately show ?thesis
    using s1 by (simp add: staged_def device_res_def Un_assoc)
qed

lemma built_without:
  assumes "built p gpios ports bd L0 c K {} t" "t' = t\<lparr>kr_ledger := kr_ledger t - Y, kr_info := i\<rparr>"
    "pointers_ok gpios ports K bd i" "\<forall>r\<in>Y. r \<notin> (\<Union>k\<in>K. comp_res p gpios ports k)"
  shows "built p gpios ports bd (L0 - Y) (kcore t') K {} t'"
  using assms unfolding built_def by (simp add: Un_Diff) blast

lemma lost_entries_lost: "\<forall>r\<in>lost_entries p gpios ports. lost p r"
  by (auto simp: lost_entries_iff lost_def leakable_def)

lemma parts_sysfs: "r \<in> comp_res p gpios ports k \<Longrightarrow> k \<in> all_parts gpios \<Longrightarrow> sysfs_res p r"
  by (cases k) (auto simp: sysfs_res_def part_of_device split: if_splits)

lemma unregister_undone:
  assumes c: "class_ok s" "fresh_dev p s" and i: "in_service p gpios ports n s t" and g: "gpios = 0 \<or> 4 \<le> gpios"
  shows "undone p s (lost_entries p gpios ports) (netana_unregisterdevice p t)"
proof -
  obtain s1 bd c1 where s1: "staged p s (held_res p \<union> dma_res p n) {} s1" "kr_fault t = kr_fault s1" "kr_class t = kr_class s1"
    "kr_idr t = kr_idr s1" "ri_minor (kr_info t) = ri_minor (kr_info s1)"
    "built p gpios ports bd (kr_ledger s1) c1 (all_parts gpios) {} t"
    and d: "dma_pointers n t" "ri_dsrthread (kr_info t) = T_Task" "ri_addsucceded (kr_info t)"
    using i unfolding in_service_def by blast
  let ?Y = "{R_listed p, R_thread p} \<union> dma_res p n"
  have lt: "kr_ledger t = kr_ledger s1 \<union> (\<Union>k\<in>all_parts gpios. comp_res p gpios ports k)"
    using s1(6) by (simp add: built_def)
  have ls: "kr_ledger s1 = kr_ledger s \<union> class_res \<union> (held_res p \<union> dma_res p n)"
    using s1(1) by (simp add: staged_def)
  have h: "R_listed p \<in> kr_ledger t" "R_thread p \<in> kr_ledger t" "dma_res p n \<subseteq> kr_ledger t"
    unfolding lt ls by (auto simp: held_res_def)
  define t1 where "t1 = stop_dsr_thread p (give_back (R_listed p) t)"
  have t1: "t1 = t\<lparr>kr_ledger := kr_ledger t - {R_listed p} - {R_thread p}, kr_info := (kr_info t)\<lparr>ri_dsrthread := T_NULL\<rparr>\<rparr>"
    using d h by (simp add: t1_def stop_dsr_thread_def upd_def give_back_def)
  have "dma_pointers n t1"
    using d(1) by (simp add: t1 dma_pointers_def)
  moreover have "dma_res p n \<subseteq> kr_ledger t1"
    using h by (auto simp: t1 dma_res_def)
  ultimately have f: "netana_free_dma p t1 = t1\<lparr>kr_ledger := kr_ledger t1 - dma_res p n\<rparr>"
    by (rule free_dma_eq)
  define t2 where "t2 = netana_free_dma p t1"
  have t2: "t2 = t\<lparr>kr_ledger := kr_ledger t - ?Y, kr_info := (kr_info t)\<lparr>ri_dsrthread := T_NULL\<rparr>\<rparr>"
  proof -
    have "kr_ledger t - {R_listed p} - {R_thread p} - dma_res p n = kr_ledger t - ?Y"
      by auto
    then show ?thesis
      unfolding t2_def f by (simp add: t1)
  qed
  have "\<not> sysfs_res p r" if "r \<in> ?Y" for r
  proof (cases "r \<in> dma_res p n")
    case True
    then show ?thesis by (rule dma_not_sysfs)
  next
    case False
    then show ?thesis
      using that by (auto simp: sysfs_res_def)
  qed
  then have "\<forall>r\<in>?Y. r \<notin> (\<Union>k\<in>all_parts gpios. comp_res p gpios ports k)"
    using parts_sysfs by blast
  moreover have "pointers_ok gpios ports (all_parts gpios) bd ((kr_info t)\<lparr>ri_dsrthread := T_NULL\<rparr>)"
    using s1(6) by (simp add: built_def pointers_ok_def)
  ultimately have b2: "built p gpios ports bd (kr_ledger s1 - ?Y) (kcore t2) (all_parts gpios) {} t2"
    by (intro built_without[OF s1(6) t2])
  define t3 where "t3 = put_base_dirs p (clean_up_sysfs p t2)"
  note t3 = clean_up_all[OF b2 g, folded t3_def]
  have "kr_ledger s1 - ?Y = kr_ledger s \<union> class_res \<union> {R_device p, R_minor p, R_tk p}"
  proof -
    have y: "dev_res p r" if "r \<in> ?Y" for r
      using that by (auto simp: dev_res_def)
    then have 1: "(kr_ledger s \<union> class_res) \<inter> ?Y = {}"
      using c(2) dev_res_not_class unfolding fresh_dev_def by blast
    have 2: "held_res p \<union> dma_res p n = ?Y \<union> {R_device p, R_minor p, R_tk p}"
      by (auto simp: held_res_def)
    have 3: "{R_device p, R_minor p, R_tk p} \<inter> ?Y = {}"
      by (auto simp: dma_res_def)
    have "A \<inter> Y = {} \<Longrightarrow> H = Y \<union> X \<Longrightarrow> X \<inter> Y = {} \<Longrightarrow> A \<union> H - Y = A \<union> X" for A H X Y :: "res set"
      by blast
    from this[OF 1 2 3] show ?thesis
      unfolding ls .
  qed
  then have "staged p s {R_device p, R_minor p, R_tk p} (lost_entries p gpios ports) t3"
    using t3 s1(1-5) kcore_eqD[of t3 t2] lost_entries_lost[of p gpios ports] by (simp add: staged_def t2 held_res_def dev_res_def)
  from error_dma_undone[OF c this] show ?thesis
    using d(3) unfolding error_dma_def err_create_device_def err_get_minor_def err_devmem_def
    by (simp add: netana_unregisterdevice_def Let_def t3_def t2_def t1_def)
qed

section \<open>A kernel which refuses nothing\<close>

definition granted :: answers where
  "granted x = 0"

lemma granted_simp [simp]: "granted x = 0"
  by (simp add: granted_def)

lemma entry_loop_granted: "fst (entry_loop granted p g cnt i n s)"
  by (induction n arbitrary: i s) (simp_all add: Let_def)

lemma alloc_fbufs_granted: "fst (alloc_fbufs granted p fs s)"
  by (induction fs arbitrary: s) simp_all

lemma alloc_bufs_granted: "fst (alloc_bufs granted p i n s) = None"
  by (induction n arbitrary: i s) simp_all

lemma add_dma_infos_granted: "fst (add_dma_infos granted p i n ret s) = None"
  by (induction n arbitrary: i ret s) simp_all

lemma run_steps_granted: "(\<And>f s. f \<in> set fs \<Longrightarrow> fst (f s) = 0) \<Longrightarrow> fst (run_steps fs s)"
  by (induction fs arbitrary: s) (simp_all add: split_beta)

lemma sysfs_granted:
  assumes "0 < ports" "ri_base (kr_info s) B_drv_info"
  shows "fst (netana_create_sysfsentries granted p gpios ports s) = 0"
proof -
  have "fst (f s) = 0" if "f \<in> set (sysfs_steps granted p gpios ports)" for f s
    using that assms entry_loop_granted alloc_fbufs_granted
    by (auto simp: sysfs_steps_def nasysfs_create_drv_info_def nasysfs_create_dev_state_info_def nasysfs_create_dev_features_def
      nasysfs_create_fw_error_def nasysfs_create_capture_ctl_def nasysfs_create_exec_cmd_def nasysfs_create_pi_cfg_def
      nasysfs_create_time_cfg_def nasysfs_create_timeout_cfg_def nasysfs_create_port_dir_def nasysfs_create_phy_dir_def
      nasysfs_create_dev_info_def nasysfs_create_ident_info_def nasysfs_create_mbx_dir_def create_dir_def create_base_def
      create_port_group_def nasysfs_create_gpio_dir_def nasysfs_create_filter_dir_def Let_def split_beta SUCCESS_def
      simp del: entry_loop.simps alloc_fbufs.simps)
  then have "fst (run_steps (sysfs_steps granted p gpios ports) s)"
    by (rule run_steps_granted)
  then show ?thesis
    using assms(2) by (simp add: netana_create_sysfsentries_def split_beta)
qed

lemma alloc_bufs_base: "ri_base (kr_info (snd (alloc_bufs granted p i n s))) = ri_base (kr_info s)"
  by (induction n arbitrary: i s) (simp_all add: fault_def)

lemma add_dma_infos_base: "ri_base (kr_info (snd (add_dma_infos granted p i n ret s))) = ri_base (kr_info s)"
  by (induction n arbitrary: i ret s) simp_all

lemma create_dma_granted:
  shows "fst (netana_create_dma granted p s) = 0 \<and> ri_base (kr_info (snd (netana_create_dma granted p s))) B_drv_info"
  using alloc_bufs_granted add_dma_infos_granted
  by (simp add: netana_create_dma_def create_base_def Let_def split_beta SUCCESS_def alloc_bufs_base add_dma_infos_base)

lemma register_granted:
  assumes p: "0 < ports"
  shows "fst (netana_registerdevice m granted p gpios ports s) = 0"
proof -
  have "fst (init_netana_class granted t) = 0" for t
    by (simp add: init_netana_class_def SUCCESS_def Let_def split: option.split)
  moreover have "fst (netana_getminor granted p t) = 0" for t
    by (simp add: netana_getminor_def Let_def)
  moreover have "fst (register_services granted p gpios ports t) = 0" for t
    using create_dma_granted sysfs_granted[OF p]
    by (simp add: register_services_def kthread_run_def Let_def split_beta SUCCESS_def)
  ultimately show ?thesis
    by (simp add: netana_registerdevice_def Let_def split_beta)
qed

section \<open>Probing and removing\<close>

definition pci_res :: "nat \<Rightarrow> res set" where
  "pci_res p = {R_info p, R_dpminfo p, R_enabled p, R_regions p, R_mapped p}"

text \<open>A system which has nothing of the device yet.\<close>

definition unprobed :: "nat \<Rightarrow> kreg \<Rightarrow> bool" where
  "unprobed p s \<longleftrightarrow> \<not> kr_fault s \<and> class_ok s \<and> fresh_dev p s \<and> kr_ledger s \<inter> pci_res p = {}"

text \<open>\<open>netana_registerdevice\<close> after the five resources of the PCI device.\<close>

definition pci_held :: "nat \<Rightarrow> kreg \<Rightarrow> kreg" where
  "pci_held p s = s\<lparr>kr_ledger := kr_ledger s \<union> pci_res p, kr_info := rdev_zero\<rparr>"

lemma pci_held_ready:
  assumes "unprobed p s"
  shows "class_ok (pci_held p s)" "fresh_dev p (pci_held p s)" "\<not> kr_fault (pci_held p s)" "blank (kr_info (pci_held p s))"
proof -
  have n: "r \<notin> class_res" "\<not> dev_res p r" if "r \<in> pci_res p" for r
    using that by (auto simp: pci_res_def class_res_def dev_res_def sysfs_res_def dma_res_def)
  show "class_ok (pci_held p s)"
    using assms n by (auto simp: unprobed_def class_ok_def pci_held_def split: option.splits)
  show "fresh_dev p (pci_held p s)"
    using assms n by (auto simp: unprobed_def fresh_dev_def pci_held_def)
qed (use assms in \<open>auto simp: unprobed_def pci_held_def blank_def rdev_zero_def\<close>)

lemma take_params_held: "kr_g_ulDMABufferCount (take_params m (pci_held p s)) = kr_g_ulDMABufferCount (take_params m s)"
  by (simp add: take_params_def pci_held_def)

lemma give_back_pci:
  assumes u: "unprobed p s" and d: "undone p (pci_held p s) lk t"
    and L: "set rs = pci_res p" "distinct rs" and e: "e = fold give_back rs t"
  shows "undone p s lk e"
proof -
  have l: "kr_ledger t = kr_ledger s \<union> pci_res p \<union> lk" and lk: "\<forall>r\<in>lk. lost p r"
    and f: "\<not> kr_fault t" "kr_class t = kr_class s" "kr_idr t = kr_idr s"
    using d by (auto simp: undone_def pci_held_def)
  have "lk \<inter> pci_res p = {}"
    using lk by (auto simp: pci_res_def lost_def leakable_def)
  moreover have "kr_ledger s \<inter> pci_res p = {}"
    using u by (simp add: unprobed_def)
  ultimately have "kr_ledger t - pci_res p = kr_ledger s \<union> lk"
    unfolding l by blast
  moreover have "fold (\<lambda>i. give_back (id i)) rs t = t\<lparr>kr_ledger := kr_ledger t - id ` set rs\<rparr>"
    by (rule fold_give_back[OF L(2)]) (use l L(1) in \<open>auto simp: inj_on_def\<close>)
  ultimately show ?thesis
    using f lk L(1) by (simp add: undone_def e)
qed

lemma probe_eq:
  assumes u: "unprobed p s"
  shows "netana_pci_probe m rc p gpios ports s =
    (if rc S_info \<noteq> 0 then (- ENOMEM, s)
     else if rc S_dpminfo \<noteq> 0 then (- ENOMEM, s\<lparr>kr_info := rdev_zero\<rparr>)
     else if rc S_enable \<noteq> 0 then (rc S_enable, s\<lparr>kr_info := rdev_zero\<rparr>)
     else if rc S_regions < 0 then (rc S_regions, s\<lparr>kr_info := rdev_zero\<rparr>)
     else if rc S_resource \<noteq> 0 \<or> rc S_ioremap \<noteq> 0 then (rc S_regions, s\<lparr>kr_info := rdev_zero\<rparr>)
     else (case netana_registerdevice m rc p gpios ports (pci_held p s) of (r, t) \<Rightarrow>
       if r = SUCCESS then (SUCCESS, t)
       else (r, fold give_back [R_mapped p, R_regions p, R_enabled p, R_dpminfo p, R_info p] t)))"
proof -
  have n: "R_info p \<notin> kr_ledger s" "R_dpminfo p \<notin> kr_ledger s" "R_enabled p \<notin> kr_ledger s" "R_regions p \<notin> kr_ledger s"
    "R_mapped p \<notin> kr_ledger s"
    using u by (auto simp: unprobed_def pci_res_def)
  have h: "acquire (R_mapped p) (acquire (R_regions p) (acquire (R_enabled p) (acquire (R_dpminfo p)
      (acquire (R_info p) (s\<lparr>kr_info := rdev_zero\<rparr>))))) = pci_held p s"
    by (simp add: acquire_def pci_held_def pci_res_def insert_commute)
  have i: "(acquire (R_info p) s)\<lparr>kr_info := rdev_zero\<rparr> = acquire (R_info p) (s\<lparr>kr_info := rdev_zero\<rparr>)"
    by (simp add: acquire_def)
  show ?thesis
    using n by (simp add: netana_pci_probe_def Let_def i h split: prod.split)
qed

definition mapped :: "answers \<Rightarrow> bool" where
  "mapped rc \<longleftrightarrow> rc S_resource = 0 \<and> rc S_ioremap = 0"

lemma probe_cases:
  assumes u: "unprobed p s" and rc: "survivable rc (kr_g_ulDMABufferCount (take_params m s))"
    and g: "gpios = 0 \<or> 4 \<le> gpios" and r: "netana_pci_probe m rc p gpios ports s = (r, t)"
  shows "r = 0 \<and> mapped rc \<and> in_service p gpios ports (kr_g_ulDMABufferCount (take_params m s)) (pci_held p s) t \<or>
    (r \<noteq> 0 \<or> \<not> mapped rc \<or> rc S_regions < 0) \<and> (\<exists>lk. undone p s lk t)"
proof -
  have refl_undone: "undone p s {} (s\<lparr>kr_info := i\<rparr>)" for i
    using u by (simp add: undone_def unprobed_def)
  have "undone p s {} s"
    using u by (simp add: undone_def unprobed_def)
  note early = this refl_undone
  show ?thesis
  proof (cases "rc S_info \<noteq> 0 \<or> rc S_dpminfo \<noteq> 0 \<or> rc S_enable \<noteq> 0 \<or> rc S_regions < 0 \<or> \<not> mapped rc")
    case True
    then show ?thesis
      using r early by (fastforce simp: probe_eq[OF u] mapped_def split: if_splits)
  next
    case False
    obtain r' t' where reg: "netana_registerdevice m rc p gpios ports (pci_held p s) = (r', t')"
      by (cases "netana_registerdevice m rc p gpios ports (pci_held p s)")
    have e: "(r, t) = (if r' = SUCCESS then (SUCCESS, t') else (r', fold give_back [R_mapped p, R_regions p, R_enabled p, R_dpminfo p, R_info p] t'))"
      using r reg False by (simp add: probe_eq[OF u] mapped_def split: if_splits)
    have rc': "survivable rc (kr_g_ulDMABufferCount (take_params m (pci_held p s)))"
      using rc by (simp add: take_params_held)
    from registerdevice_cases[OF pci_held_ready[OF u] refl rc' g refl, of ports, unfolded reg fst_conv snd_conv]
    consider "r' = 0" "in_service p gpios ports (kr_g_ulDMABufferCount (take_params m (pci_held p s))) (pci_held p s) t'"
      | lk where "r' \<noteq> 0" "undone p (pci_held p s) lk t'"
      by blast
    then show ?thesis
    proof cases
      case 1
      then show ?thesis
        using e False by (simp add: SUCCESS_def take_params_held)
    next
      case (2 lk)
      have "undone p s lk (fold give_back [R_mapped p, R_regions p, R_enabled p, R_dpminfo p, R_info p] t')"
        by (rule give_back_pci[OF u 2(2) _ _ refl]) (auto simp: pci_res_def)
      then show ?thesis
        using e 2(1) by (auto simp: SUCCESS_def)
    qed
  qed
qed

section \<open>Properties\<close>

text \<open>C39: Taking a PCI device into service either succeeds completely or is undone. When \<open>netana_pci_probe\<close>
  reports success for a device it could map, the module holds exactly the resources of the device
  and of the class in addition to what it held, the device is on the list of the toolkit, has a
  minor number nobody else has, and the class one user more. When it reports an error, all minor
  numbers and the class are as before and nothing held before is lost; what it held for the device is given
  back, apart from the directory \<open>driver_information\<close> and some objects below \<open>hw_resources\<close> and
  \<open>device_info\<close> (\<open>lost\<close>). Nothing is freed twice. A kernel that grants every request gets the device into service. A device
  that cannot be mapped is also reported as a success, although everything was given back. The
  hypothesis \<open>survivable\<close> names the places whose failure the error paths do not handle.\<close>

theorem pci_probe_correct:
  assumes "unprobed p s" "survivable rc (kr_g_ulDMABufferCount (take_params m s))"
    and "gpios = 0 \<or> 4 \<le> gpios" "netana_pci_probe m rc p gpios ports s = (r, t)"
  shows "\<not> kr_fault t \<and>
    (r = 0 \<and> mapped rc \<and> rc S_regions \<ge> 0 \<longrightarrow>
       kr_ledger t = kr_ledger s \<union> pci_res p \<union> class_res \<union>
         device_res p gpios ports (kr_g_ulDMABufferCount (take_params m s)) \<and>
       kr_class t = Some (users s + 1) \<and> ri_addsucceded (kr_info t) \<and>
       kr_idr t = (ri_minor (kr_info t), p) # kr_idr s \<and> ri_minor (kr_info t) \<notin> set (map fst (kr_idr s))) \<and>
    (r \<noteq> 0 \<longrightarrow> kr_class t = kr_class s \<and> kr_idr t = kr_idr s \<and> kr_ledger s \<subseteq> kr_ledger t \<and>
       (\<forall>x\<in>kr_ledger t - kr_ledger s. lost p x)) \<and>
    (rc = granted \<and> 0 < ports \<longrightarrow> r = 0) \<and>
    (rc S_info = 0 \<and> rc S_dpminfo = 0 \<and> rc S_enable = 0 \<and> rc S_regions = 0 \<and> \<not> mapped rc \<longrightarrow>
       r = 0 \<and> kr_ledger t = kr_ledger s)"
proof -
  note u = assms(1)
  have s0: "kr_class (pci_held p s) = kr_class s" "kr_idr (pci_held p s) = kr_idr s"
    "kr_ledger (pci_held p s) = kr_ledger s \<union> pci_res p"
    by (simp_all add: pci_held_def)
  have gr: "rc = granted \<and> 0 < ports \<longrightarrow> r = 0"
    using assms(4) register_granted[of ports m p gpios "pci_held p s"]
    by (auto simp: probe_eq[OF u] split_beta SUCCESS_def)
  have mp: "rc S_info = 0 \<and> rc S_dpminfo = 0 \<and> rc S_enable = 0 \<and> rc S_regions = 0 \<and> \<not> mapped rc \<longrightarrow>
       r = 0 \<and> kr_ledger t = kr_ledger s"
    using assms(4) by (auto simp: probe_eq[OF u] mapped_def)
  from probe_cases[OF assms] show ?thesis
  proof
    assume i: "r = 0 \<and> mapped rc \<and> in_service p gpios ports (kr_g_ulDMABufferCount (take_params m s)) (pci_held p s) t"
    have us: "users (pci_held p s) = users s"
      by (simp add: users_def s0)
    show ?thesis
      using in_service_holds[of p gpios ports "kr_g_ulDMABufferCount (take_params m s)" "pci_held p s" t] i gr mp
      by (simp add: s0 us)
  next
    assume "(r \<noteq> 0 \<or> \<not> mapped rc \<or> rc S_regions < 0) \<and> (\<exists>lk. undone p s lk t)"
    then obtain lk where "r \<noteq> 0 \<or> \<not> mapped rc \<or> rc S_regions < 0" "undone p s lk t"
      by blast
    then show ?thesis
      using gr mp by (auto simp: undone_def)
  qed
qed

text \<open>C40: What a successful probe took, \<open>netana_pci_remove\<close> gives back: after it the minor
  number is free, the class has the users it had and is gone with its last user, nothing was freed twice, and the ledger is the one
  before the probe but for the objects \<open>clean_up_sysfs\<close> leaves behind, which are exactly the first entry of every group
  and the object and the type of \<open>device_info\<close>.\<close>

theorem probe_then_remove:
  assumes "unprobed p s" "survivable rc (kr_g_ulDMABufferCount (take_params m s))"
    and "gpios = 0 \<or> 4 \<le> gpios" "netana_pci_probe m rc p gpios ports s = (0, t)" "mapped rc" "rc S_regions \<ge> 0"
  shows "\<not> kr_fault (netana_pci_remove p t) \<and> kr_class (netana_pci_remove p t) = kr_class s \<and>
    kr_idr (netana_pci_remove p t) = kr_idr s \<and>
    kr_ledger (netana_pci_remove p t) = kr_ledger s \<union> lost_entries p gpios ports"
proof -
  let ?n = "kr_g_ulDMABufferCount (take_params m s)"
  have "in_service p gpios ports ?n (pci_held p s) t"
    using probe_cases[OF assms(1-4)] assms(5,6) by auto
  then have "undone p (pci_held p s) (lost_entries p gpios ports) (netana_unregisterdevice p t)"
    using pci_held_ready[OF assms(1)] by (intro unregister_undone[OF _ _ _ assms(3)])
  then have "undone p s (lost_entries p gpios ports) (netana_pci_remove p t)"
    by (rule give_back_pci[OF assms(1), where rs="[R_regions p, R_enabled p, R_mapped p, R_dpminfo p, R_info p]"])
      (auto simp: pci_res_def netana_pci_remove_def)
  then show ?thesis
    by (simp add: undone_def)
qed

text \<open>A module without devices, two DMA buffers, and a device with four GPIOs and two ports.\<close>

definition sample_kreg :: kreg where
  "sample_kreg = \<lparr>kr_ledger = {}, kr_fault = False, kr_class = None, kr_locks = 0, kr_idr = [], kr_info = rdev_zero,
     kr_g_ulDMABufferCount = 2, kr_g_ulDMABufferSize = 0x100000, kr_g_ulDMABufferTimeout = 0\<rparr>"

definition sample_params :: module_params where
  "sample_params = \<lparr>mp_ulDMABufferSize = 0, mp_ulDMABufferCount = 0, mp_ulDMABufferTimeout = 0\<rparr>"

lemma sample_unprobed: "unprobed 0 sample_kreg"
  by (simp add: unprobed_def sample_kreg_def class_ok_def fresh_dev_def)

lemma sample_survivable: "survivable granted (kr_g_ulDMABufferCount (take_params sample_params sample_kreg))"
  by (simp add: survivable_def survivable_sysfs_def survivable_dma_def take_params_def sample_params_def sample_kreg_def
      NETANA_MAX_DMA_BUFFERS_def)

lemma sample_probe: "fst (netana_pci_probe sample_params granted 0 4 2 sample_kreg) = 0"
  using register_granted[of 2 sample_params 0 4 "pci_held 0 sample_kreg"]
  by (simp add: probe_eq[OF sample_unprobed] split_beta SUCCESS_def)

theorem pci_probe_correct_witness:
  "kr_ledger (snd (netana_pci_probe sample_params granted 0 4 2 sample_kreg)) = pci_res 0 \<union> class_res \<union> device_res 0 4 2 2"
proof -
  let ?r = "netana_pci_probe sample_params granted 0 4 2 sample_kreg"
  have e: "?r = (0, snd ?r)"
    using sample_probe by (simp add: prod_eq_iff)
  have "(4::nat) = 0 \<or> 4 \<le> (4::nat)"
    by simp
  from pci_probe_correct[OF sample_unprobed sample_survivable this e]
  show ?thesis
    by (simp add: mapped_def take_params_def sample_params_def) (simp add: sample_kreg_def)
qed

theorem probe_then_remove_witness:
  "kr_ledger (netana_pci_remove 0 (snd (netana_pci_probe sample_params granted 0 4 2 sample_kreg))) = lost_entries 0 4 2 \<and>
   kr_class (netana_pci_remove 0 (snd (netana_pci_probe sample_params granted 0 4 2 sample_kreg))) = None"
proof -
  let ?r = "netana_pci_probe sample_params granted 0 4 2 sample_kreg"
  have e: "?r = (0, snd ?r)"
    using sample_probe by (simp add: prod_eq_iff)
  have "(4::nat) = 0 \<or> 4 \<le> (4::nat)" "mapped granted" "granted S_regions \<ge> 0"
    by (simp_all add: mapped_def)
  from probe_then_remove[OF sample_unprobed sample_survivable this(1) e this(2,3)]
  show ?thesis
    by (simp add: sample_kreg_def)
qed

section \<open>An error which goes unnoticed\<close>

lemma add_dma_infos_fails:
  assumes "\<forall>j<k. rc (S_meminfo (i + j)) = 0" "rc (S_meminfo (i + k)) \<noteq> 0" "k < n"
  shows "add_dma_infos rc p i n ret (with_dma p a i s) =
    (Some (i + k, if k = 0 then ret else rc (S_dma_add (i + k - 1))), with_dma p a (i + k) s)"
  using assms
proof (induction n arbitrary: i k ret)
  case 0
  then show ?case by simp
next
  case (Suc n)
  show ?case
  proof (cases k)
    case 0
    then show ?thesis
      using Suc.prems by simp
  next
    case (Suc j)
    have f: "(\<lambda>j. j < i)(i := True, Suc i := False) = (\<lambda>j. j < Suc i)"
      by (auto simp: fun_eq_iff)
    have "{..<Suc i} = insert i {..<i}"
      by auto
    then have s: "upd (\<lambda>d. d\<lparr>ri_meminfo := (ri_meminfo d)(i := True, Suc i := False)\<rparr>) (acquire (R_meminfo p i) (with_dma p a i s))
        = with_dma p a (Suc i) s"
      by (simp add: upd_def acquire_def with_dma_def f)
    have "rc (S_meminfo i) = 0"
      using Suc.prems(1) Suc by force
    then have e: "add_dma_infos rc p i (Suc n) ret (with_dma p a i s) = add_dma_infos rc p (Suc i) n (rc (S_dma_add i)) (with_dma p a (Suc i) s)"
      using s by simp
    have "\<forall>l<j. rc (S_meminfo (Suc i + l)) = 0"
    proof (intro allI impI)
      fix l assume "l < j"
      then have "rc (S_meminfo (i + Suc l)) = 0"
        using Suc.prems(1) Suc by blast
      then show "rc (S_meminfo (Suc i + l)) = 0"
        by simp
    qed
    moreover have "rc (S_meminfo (Suc i + j)) \<noteq> 0" "j < n"
      using Suc.prems(2,3) Suc by simp_all
    ultimately show ?thesis
      using Suc.IH[of j "Suc i" "rc (S_dma_add i)"] Suc e by simp
  qed
qed

end
