(* ===== verification/Text_Format.thy ===== *)
theory Text_Format
  imports Netana_Prelude
begin

text \<open>
  The text which the sysfs attributes and the library exchange: \<open>sprintf\<close> and \<open>sscanf\<close> for the conversions
  the sources use. A format string is taken apart into directives; printing and scanning are functions
  on them. Scanning returns the arguments it has converted, so that the return value of \<open>sscanf\<close> is
  the length of its result. Numbers are kept modulo the width of the variable the argument points to, a
  \<open>%d\<close> into a \<open>uint32_t\<close> included.
\<close>

section \<open>Digits\<close>

definition digit_val :: "char \<Rightarrow> nat option" where
  "digit_val c = (let n = of_char c :: nat in
     if 48 \<le> n \<and> n \<le> 57 then Some (n - 48)
     else if 65 \<le> n \<and> n \<le> 70 then Some (n - 55)
     else if 97 \<le> n \<and> n \<le> 102 then Some (n - 87) else None)"

definition digit_char :: "nat \<Rightarrow> char" where
  "digit_char d = char_of (if d < 10 then 48 + d else 55 + d)"

text \<open>\<open>c\<close> is a digit of base \<open>b\<close>.\<close>

definition is_digit :: "nat \<Rightarrow> char \<Rightarrow> bool" where
  "is_digit b c \<longleftrightarrow> (case digit_val c of Some d \<Rightarrow> d < b | None \<Rightarrow> False)"

definition is_space :: "char \<Rightarrow> bool" where
  "is_space c \<longleftrightarrow> (let n = of_char c :: nat in n = 32 \<or> 9 \<le> n \<and> n \<le> 13)"

lemma digit_val_char [simp]: "d < 16 \<Longrightarrow> digit_val (digit_char d) = Some d"
proof -
  assume "d < 16"
  then have "of_char (digit_char d) = (if d < 10 then 48 + d else 55 + d)"
    by (simp add: digit_char_def)
  with \<open>d < 16\<close> show ?thesis
    by (simp add: digit_val_def Let_def split: if_splits)
qed

lemma is_digit_char [simp]: "d < 16 \<Longrightarrow> is_digit b (digit_char d) \<longleftrightarrow> d < b"
  by (simp add: is_digit_def)

lemma digit_not_space [simp]: "d < 16 \<Longrightarrow> \<not> is_space (digit_char d)"
  by (auto simp: is_space_def digit_char_def Let_def)

lemma digit_char_neq [simp]:
  "d < 16 \<Longrightarrow> digit_char d \<noteq> CHR ''-''" "d < 16 \<Longrightarrow> digit_char d \<noteq> CHR ''x''" "d < 16 \<Longrightarrow> digit_char d \<noteq> CHR ''X''"
  by (drule digit_val_char, rule notI, simp add: digit_val_def)+

lemma char_48 [simp]: "char_of (48 :: nat) = CHR ''0''"
proof -
  have "of_char (CHR ''0'') = (48 :: nat)"
    by simp
  then show ?thesis
    by (metis char_of_char)
qed

lemma digit_char_0 [simp]: "d < 16 \<Longrightarrow> digit_char d = CHR ''0'' \<longleftrightarrow> d = 0"
proof
  assume "d < 16" "digit_char d = CHR ''0''"
  then have "digit_val (CHR ''0'') = Some d"
    using digit_val_char by metis
  then show "d = 0"
    by (simp add: digit_val_def)
qed (simp add: digit_char_def)

section \<open>Numbers\<close>

function radix :: "nat \<Rightarrow> nat \<Rightarrow> string" where
  "radix b n = (if b < 2 \<or> n < b then [digit_char n] else radix b (n div b) @ [digit_char (n mod b)])"
  by auto
termination
  by (relation "measure snd") auto

declare radix.simps [simp del]

fun scan_digits :: "nat \<Rightarrow> nat \<Rightarrow> string \<Rightarrow> nat \<times> string" where
  "scan_digits b a [] = (a, [])"
| "scan_digits b a (c # cs) = (if is_digit b c then scan_digits b (a * b + the (digit_val c)) cs else (a, c # cs))"

text \<open>Where the digits of a number end.\<close>

definition stops :: "nat \<Rightarrow> string \<Rightarrow> bool" where
  "stops b s \<longleftrightarrow> s = [] \<or> \<not> is_digit b (List.hd s)"

lemma scan_digits_stops [simp]: "stops b s \<Longrightarrow> scan_digits b a s = (a, s)"
  by (cases s) (auto simp: stops_def)

lemma scan_radix:
  assumes "2 \<le> b" "b \<le> 16"
  shows "scan_digits b a (radix b n @ s) = scan_digits b (a * b ^ length (radix b n) + n) s"
  using assms
proof (induction b n arbitrary: a s rule: radix.induct)
  case (1 b n)
  show ?case
  proof (cases "n < b")
    case True
    then show ?thesis
      using 1 by (simp add: radix.simps[of b n])
  next
    case False
    then have r: "radix b n = radix b (n div b) @ [digit_char (n mod b)]"
      using 1 by (simp add: radix.simps[of b n])
    have m: "n mod b < b" "n mod b < 16"
      using 1 by (auto intro: less_le_trans[of _ b])
    have "scan_digits b a (radix b n @ s) =
        scan_digits b (a * b ^ length (radix b (n div b)) + n div b) (digit_char (n mod b) # s)"
      using 1 False by (simp add: r)
    also have "\<dots> = scan_digits b ((a * b ^ length (radix b (n div b)) + n div b) * b + n mod b) s"
      using m 1 by simp
    also have "(a * b ^ length (radix b (n div b)) + n div b) * b + n mod b = a * b ^ length (radix b n) + n"
      by (simp add: r algebra_simps)
    finally show ?thesis .
  qed
qed

lemma hd_radix:
  assumes "2 \<le> b" "b \<le> 16"
  obtains d ds where "radix b n = digit_char d # ds" "d < b" "d = 0 \<longrightarrow> ds = []"
proof -
  have "\<exists>d ds. radix b n = digit_char d # ds \<and> d < b \<and> (d = 0 \<longrightarrow> n = 0 \<and> ds = [])"
    using assms
  proof (induction b n rule: radix.induct)
    case (1 b n)
    show ?case
    proof (cases "n < b")
      case True
      then show ?thesis
        by (auto simp: radix.simps[of b n])
    next
      case False
      then obtain d ds where "radix b (n div b) = digit_char d # ds" "d < b" "d = 0 \<longrightarrow> n div b = 0 \<and> ds = []"
        using 1 by auto
      moreover have "n div b \<noteq> 0"
        using False 1 by (simp add: div_eq_0_iff)
      ultimately show ?thesis
        using 1 False by (simp add: radix.simps[of b n])
    qed
  qed
  then show thesis
    using that by blast
qed

lemma radix_head:
  assumes "2 \<le> b" "b \<le> 16"
  shows "\<not> is_space (List.hd (radix b n))" "take 1 (radix b n @ s) \<noteq> ''-''"
proof -
  obtain d ds where "radix b n = digit_char d # ds" "d < b" "d = 0 \<longrightarrow> ds = []"
    by (rule hd_radix[OF assms])
  moreover have "d < 16"
    using calculation(2) assms(2) by (rule less_le_trans)
  ultimately show "\<not> is_space (List.hd (radix b n))" "take 1 (radix b n @ s) \<noteq> ''-''"
    by simp_all
qed

lemma radix_neq_Nil [simp]: "radix b n \<noteq> []"
  by (subst radix.simps) simp

text \<open>
  \<open>simple_strtoull\<close>: a base of \<open>0\<close> asks the prefix of the number, base 16 skips a prefix.
\<close>

definition hex_prefix :: "string \<Rightarrow> bool" where
  "hex_prefix s \<longleftrightarrow> take 2 s \<in> {''0x'', ''0X''} \<and> \<not> stops 16 (drop 2 s)"

definition scan_number :: "nat \<Rightarrow> string \<Rightarrow> (nat \<times> string) option" where
  "scan_number base s = (let b = if base = 0 then (if hex_prefix s then 16 else if take 1 s = ''0'' then 8 else 10) else base in
     if stops b s then None
     else Some (scan_digits b 0 (if b = 16 \<and> hex_prefix s then drop 2 s else s)))"

text \<open>What a text may be followed by so that a number before it ends there.\<close>

definition delimited :: "string \<Rightarrow> bool" where
  "delimited s \<longleftrightarrow> s = [] \<or> is_space (List.hd s)"

lemma space_no_digit: "is_space c \<Longrightarrow> digit_val c = None \<and> c \<noteq> CHR ''x'' \<and> c \<noteq> CHR ''X''"
  by (auto simp: is_space_def digit_val_def Let_def)

lemma delimited_stops [simp]: "delimited s \<Longrightarrow> stops b s"
  by (auto simp: delimited_def stops_def is_digit_def dest: space_no_digit)

lemma delimited_scan [simp]: "delimited s \<Longrightarrow> scan_digits b a s = (a, s)"
  by simp

lemma no_hex_prefix:
  assumes "2 \<le> b" "b \<le> 16" "delimited s"
  shows "\<not> hex_prefix (radix b n @ s)"
proof -
  obtain d ds where r: "radix b n = digit_char d # ds" "d < b" "d = 0 \<longrightarrow> ds = []"
    using hd_radix[OF assms(1,2)] by blast
  show ?thesis
  proof
    assume h: "hex_prefix (radix b n @ s)"
    then have "d = 0"
      using r assms by (auto simp: hex_prefix_def)
    then show False
      using h r assms(3) space_no_digit[of "List.hd s"] by (cases s) (auto simp: hex_prefix_def delimited_def)
  qed
qed

lemma scan_number_radix:
  assumes "b \<in> {10, 16} \<and> base = b \<or> b = 10 \<and> base = 0" "delimited s"
  shows "scan_number base (radix b n @ s) = Some (n, s)"
proof -
  have b: "2 \<le> b" "b \<le> 16"
    using assms(1) by auto
  obtain d ds where r: "radix b n = digit_char d # ds" "d < b" "d = 0 \<longrightarrow> ds = []"
    using hd_radix[OF b] by blast
  have ns: "\<not> stops b (radix b n @ s)"
    using r b by (auto simp: stops_def)
  have h: "\<not> hex_prefix (radix b n @ s)"
    by (rule no_hex_prefix[OF b assms(2)])
  have sc: "scan_digits b 0 (radix b n @ s) = (n, s)"
    using scan_radix[OF b, of 0 n s] assms(2) by simp
  consider (same) "base = b" | (zero) "base = 0" "b = 10"
    using assms(1) by auto
  then show ?thesis
  proof cases
    case same
    then show ?thesis
      using ns h sc b by (simp add: scan_number_def)
  next
    case zero
    show ?thesis
    proof (cases "d = 0")
      case True
      then have "radix b n = ''0''"
        using r by (simp add: digit_char_def)
      moreover from this have "n = 0"
        using sc assms(2) by (simp add: is_digit_def digit_val_def zero)
      ultimately show ?thesis
        using h zero delimited_scan[OF assms(2), of 8 0] by (simp add: scan_number_def stops_def is_digit_def digit_val_def)
    next
      case False
      then have "take 1 (radix b n @ s) \<noteq> ''0''"
        using r b by simp
      then show ?thesis
        using zero ns h sc by (simp add: scan_number_def)
    qed
  qed
qed

section \<open>Format strings\<close>

datatype conv = Cd | Cu | Ci | CX | Clu | Cllu | Cs

datatype directive = Space char | Literal char | Conv conv

definition conversion :: "string \<Rightarrow> (conv \<times> string) option" where
  "conversion s =
     (if take 1 s = ''d'' then Some (Cd, drop 1 s)
      else if take 1 s = ''u'' then Some (Cu, drop 1 s)
      else if take 1 s = ''i'' then Some (Ci, drop 1 s)
      else if take 1 s = ''X'' then Some (CX, drop 1 s)
      else if take 1 s = ''s'' then Some (Cs, drop 1 s)
      else if take 2 s = ''lu'' then Some (Clu, drop 2 s)
      else if take 3 s = ''llu'' then Some (Cllu, drop 3 s)
      else None)"

lemma conversion_shorter: "conversion s = Some (k, r) \<Longrightarrow> length r < Suc (length s)"
  by (auto simp: conversion_def split: if_splits)

function directives :: "string \<Rightarrow> directive list" where
  "directives [] = []"
| "directives (c # cs) =
     (if c = CHR ''%'' then (case conversion cs of Some (k, r) \<Rightarrow> Conv k # directives r | None \<Rightarrow> [])
      else (if is_space c then Space c else Literal c) # directives cs)"
  by pat_completeness auto
termination
  by (relation "measure length") (auto dest: conversion_shorter)

section \<open>Printing and scanning\<close>

text \<open>An argument, or the variable behind a pointer argument: 32 bit, 64 bit or a string.\<close>

datatype carg = W u32 | LL u64 | Str string

definition print_signed :: "u32 \<Rightarrow> string" where
  "print_signed w = (if sint w < 0 then CHR ''-'' # radix 10 (nat (- sint w)) else radix 10 (unat w))"

fun print_arg :: "conv \<Rightarrow> carg \<Rightarrow> string" where
  "print_arg k (W w) = (case k of Cd \<Rightarrow> print_signed w | Ci \<Rightarrow> print_signed w | CX \<Rightarrow> radix 16 (unat w) | _ \<Rightarrow> radix 10 (unat w))"
| "print_arg k (LL w) = radix 10 (unat w)"
| "print_arg k (Str s) = s"

fun print_text :: "directive list \<Rightarrow> carg list \<Rightarrow> string" where
  "print_text [] xs = []"
| "print_text (Space c # ds) xs = c # print_text ds xs"
| "print_text (Literal c # ds) xs = c # print_text ds xs"
| "print_text (Conv k # ds) [] = []"
| "print_text (Conv k # ds) (x # xs) = print_arg k x @ print_text ds xs"

definition sprintf :: "string \<Rightarrow> carg list \<Rightarrow> string" where
  "sprintf fmt xs = print_text (directives fmt) xs"

definition scan_signed :: "nat \<Rightarrow> string \<Rightarrow> (int \<times> string) option" where
  "scan_signed base s =
     (if take 1 s = ''-'' then map_option (map_prod (\<lambda>n. - int n) id) (scan_number base (drop 1 s))
      else map_option (map_prod int id) (scan_number base s))"

fun scan_arg :: "conv \<Rightarrow> string \<Rightarrow> (carg \<times> string) option" where
  "scan_arg Cd s = map_option (map_prod (\<lambda>i. W (word_of_int i)) id) (scan_signed 10 s)"
| "scan_arg Ci s = map_option (map_prod (\<lambda>i. W (word_of_int i)) id) (scan_signed 0 s)"
| "scan_arg Cu s = map_option (map_prod (\<lambda>n. W (of_nat n)) id) (scan_number 10 s)"
| "scan_arg CX s = map_option (map_prod (\<lambda>n. W (of_nat n)) id) (scan_number 16 s)"
| "scan_arg Clu s = map_option (map_prod (\<lambda>n. LL (of_nat n)) id) (scan_number 10 s)"
| "scan_arg Cllu s = map_option (map_prod (\<lambda>n. LL (of_nat n)) id) (scan_number 10 s)"
| "scan_arg Cs s = (let w = takeWhile (\<lambda>c. \<not> is_space c) s in
     if w = [] then None else Some (Str w, dropWhile (\<lambda>c. \<not> is_space c) s))"

fun scan_text :: "directive list \<Rightarrow> string \<Rightarrow> carg list" where
  "scan_text [] s = []"
| "scan_text (Space c # ds) s = scan_text ds (dropWhile is_space s)"
| "scan_text (Literal c # ds) [] = []"
| "scan_text (Literal c # ds) (x # s) = (if c = x then scan_text ds s else [])"
| "scan_text (Conv k # ds) s = (case scan_arg k (dropWhile is_space s) of None \<Rightarrow> [] | Some (x, r) \<Rightarrow> x # scan_text ds r)"

definition sscanf :: "string \<Rightarrow> string \<Rightarrow> carg list" where
  "sscanf s fmt = scan_text (directives fmt) s"

section \<open>What is printed with one format and scanned with another\<close>

fun transfer :: "conv \<Rightarrow> conv \<Rightarrow> carg \<Rightarrow> carg option" where
  "transfer p q (W w) =
     (if p \<in> {Cd, Ci} \<and> q \<in> {Cd, Ci} \<or> p = Cu \<and> q \<in> {Cd, Ci, Cu} \<or> p = CX \<and> q = CX then Some (W w) else None)"
| "transfer p q (LL w) =
     (if p \<in> {Clu, Cllu} \<and> q \<in> {Clu, Cllu} then Some (LL w)
      else if p \<in> {Clu, Cllu} \<and> q = Cu then Some (W (ucast w)) else None)"
| "transfer p q (Str s) = (if p = Cs \<and> q = Cs \<and> s \<noteq> [] \<and> list_all (\<lambda>c. \<not> is_space c) s then Some (Str s) else None)"

fun space_follows :: "directive list \<Rightarrow> bool" where
  "space_follows (Space c # ds) \<longleftrightarrow> is_space c"
| "space_follows ds \<longleftrightarrow> ds = []"

fun no_space_follows :: "directive list \<Rightarrow> bool" where
  "no_space_follows (Space c # ds) \<longleftrightarrow> False"
| "no_space_follows (Literal c # ds) \<longleftrightarrow> \<not> is_space c"
| "no_space_follows ds \<longleftrightarrow> True"

text \<open>The arguments which arrive, if all do.\<close>

fun transmit :: "directive list \<Rightarrow> directive list \<Rightarrow> carg list \<Rightarrow> carg list option" where
  "transmit ps [] xs = Some []"
| "transmit (Space c # ps) (Space d # qs) xs = (if is_space c \<and> no_space_follows ps then transmit ps qs xs else None)"
| "transmit (Literal c # ps) (Literal d # qs) xs = (if c = d then transmit ps qs xs else None)"
| "transmit (Conv p # ps) (Conv q # qs) (x # xs) =
     (case transfer p q x of Some y \<Rightarrow> if space_follows ps then map_option (Cons y) (transmit ps qs xs) else None
      | None \<Rightarrow> None)"
| "transmit ps qs xs = None"

lemma word_of_int_minus_nat_sint: "sint w < 0 \<Longrightarrow> (word_of_int (- int (nat (- sint w))) :: u32) = w"
  by simp

lemma scan_signed_print:
  assumes "delimited s" "base = 0 \<or> base = 10"
  shows "\<exists>i. scan_signed base (print_signed w @ s) = Some (i, s) \<and> word_of_int i = w"
proof -
  have n: "scan_number base (radix 10 n @ s) = Some (n, s)" for n
    by (rule scan_number_radix) (use assms in auto)
  show ?thesis
    using n radix_head(2)[of 10 "unat w" s] by (auto simp: scan_signed_def print_signed_def)
qed

lemma scan_print_arg:
  assumes "transfer p q x = Some y" "delimited s"
  shows "scan_arg q (print_arg p x @ s) = Some (y, s)"
proof (cases x)
  case (W w)
  obtain i where i: "scan_signed 10 (print_signed w @ s) = Some (i, s)" "word_of_int i = w"
    using scan_signed_print[OF assms(2), of 10 w] by blast
  obtain j where j: "scan_signed 0 (print_signed w @ s) = Some (j, s)" "word_of_int j = w"
    using scan_signed_print[OF assms(2), of 0 w] by blast
  have n: "scan_number 10 (radix 10 (unat w) @ s) = Some (unat w, s)" "scan_number 0 (radix 10 (unat w) @ s) = Some (unat w, s)"
      "scan_number 16 (radix 16 (unat w) @ s) = Some (unat w, s)"
    using assms(2) by (simp_all add: scan_number_radix)
  then have "scan_signed 10 (radix 10 (unat w) @ s) = Some (int (unat w), s)" "scan_signed 0 (radix 10 (unat w) @ s) = Some (int (unat w), s)"
    using radix_head(2)[of 10 "unat w" s] by (simp_all add: scan_signed_def)
  then show ?thesis
    using assms(1) W i j n by (auto split: if_splits)
next
  case (LL w)
  then show ?thesis
    using assms scan_number_radix[of 10 10 s "unat w"] by (auto split: if_splits)
next
  case (Str t)
  then have "y = Str t" "p = Cs" "q = Cs" "t \<noteq> []" and t: "list_all (\<lambda>c. \<not> is_space c) t"
    using assms(1) by (auto split: if_splits)
  moreover have "takeWhile (\<lambda>c. \<not> is_space c) (t @ s) = t" "dropWhile (\<lambda>c. \<not> is_space c) (t @ s) = s"
    using t assms(2) by (cases s; simp add: list_all_iff takeWhile_append delimited_def)+
  ultimately show ?thesis
    using Str by simp
qed

lemma print_arg_no_space:
  assumes "transfer p q x = Some y"
  shows "print_arg p x \<noteq> [] \<and> \<not> is_space (List.hd (print_arg p x))"
proof -
  have r: "\<not> is_space (List.hd (radix 10 n))" "\<not> is_space (List.hd (radix 16 n))" for n
    by (simp_all add: radix_head)
  have m: "\<not> is_space (CHR ''-'')"
    by (simp add: is_space_def)
  have "print_signed w \<noteq> [] \<and> \<not> is_space (List.hd (print_signed w))" for w
    using r m by (simp add: print_signed_def)
  with r show ?thesis
    using assms by (cases x; cases p) (auto simp: list_all_iff split: if_splits)
qed

lemma dropWhile_print_arg:
  "transfer p q x = Some y \<Longrightarrow> dropWhile is_space (print_arg p x @ s) = print_arg p x @ s"
  using print_arg_no_space[of p q x y] by (cases "print_arg p x") auto

lemma print_text_no_space:
  assumes "no_space_follows ps" "transmit ps qs xs = Some ys" "qs \<noteq> []"
  shows "dropWhile is_space (print_text ps xs) = print_text ps xs"
proof (cases ps)
  case (Cons p ps')
  then show ?thesis
    using assms by (cases p; cases qs; cases "List.hd qs"; cases xs) (auto simp: dropWhile_print_arg split: option.splits)
qed simp

lemma space_follows_delimited: "space_follows ps \<Longrightarrow> delimited (print_text ps xs)"
  by (cases ps rule: space_follows.cases) (auto simp: delimited_def)

text \<open>Printing and scanning: what the formats promise to transmit arrives.\<close>

lemma transmit_print: "transmit ps qs xs = Some ys \<Longrightarrow> scan_text qs (print_text ps xs) = ys"
proof (induction ps qs xs arbitrary: ys rule: transmit.induct)
  case (2 c ps d qs xs)
  then have IH: "scan_text qs (print_text ps xs) = ys" and c: "is_space c" "no_space_follows ps" "transmit ps qs xs = Some ys"
    by (auto split: if_splits)
  have "scan_text qs (dropWhile is_space (print_text ps xs)) = ys"
  proof (cases "qs = []")
    case False
    then show ?thesis
      using print_text_no_space[OF c(2,3)] IH by simp
  qed (use c(3) in simp)
  then show ?case
    using c(1) by simp
next
  case (4 p ps q qs x xs)
  then obtain y zs where y: "transfer p q x = Some y" "space_follows ps" "transmit ps qs xs = Some zs" "ys = y # zs"
    by (auto split: option.splits if_splits)
  then have "scan_arg q (print_arg p x @ print_text ps xs) = Some (y, print_text ps xs)"
    by (intro scan_print_arg) (auto intro: space_follows_delimited)
  then show ?case
    using 4(1)[OF y(1,2,3)] y by (simp add: dropWhile_print_arg)
qed (auto split: if_splits)

lemma sscanf_sprintf: "transmit (directives f) (directives g) xs = Some ys \<Longrightarrow> sscanf (sprintf f xs) g = ys"
  by (simp add: sscanf_def sprintf_def transmit_print)

text \<open>Format strings are taken apart by simplification with these.\<close>

lemmas format_defs = conversion_def is_space_def

end
