(* ===== verification/Kernel_Tasks.thy ===== *)
theory Kernel_Tasks
  imports Netana_State
begin

text \<open>
  The task list of a device (\<open>netana_tk_interface.c\<close>): for every thread which had an error its last
  error, and for every process the timeout it has set, in one list of \<open>struct task_info\<close>.
  Errors belong to the thread (\<open>pid\<close>), timeouts to the process (the \<open>pid\<close> of the group leader).
  Both tables are instances of one locale, which gives what a table holds after any
  sequence of operations.
\<close>

section \<open>The list\<close>

record task_info =
  ti_pid :: nat
  ti_lasterror :: u32
  ti_timeout :: u32

text \<open>\<open>get_current ()\<close>: the pid of the thread and the pid of its group leader, and whether \<open>kzalloc\<close>
  succeeds.\<close>

record current =
  cu_pid :: nat
  cu_leader :: nat
  cu_kzalloc :: bool

abbreviation (input) EPERM :: int where "EPERM \<equiv> 1"

definition initlist :: "task_info list" where
  "initlist = []"

fun cleanlist :: "task_info list \<Rightarrow> task_info list" where
  "cleanlist [] = []"
| "cleanlist (x # xs) = cleanlist xs"

fun get_err :: "current \<Rightarrow> task_info list \<Rightarrow> u32" where
  "get_err c [] = NETANA_NO_ERROR"
| "get_err c (x # xs) = (if ti_pid x = cu_pid c then ti_lasterror x else get_err c xs)"

definition store_err :: "current \<Rightarrow> u32 \<Rightarrow> task_info list \<Rightarrow> int \<times> task_info list" where
  "store_err c lerror xs =
     (if lerror = 0 then (0, xs)
      else (- EPERM,
        let ys = map (\<lambda>x. if ti_pid x = cu_pid c then x\<lparr>ti_lasterror := lerror\<rparr> else x) xs in
        if \<not> list_ex (\<lambda>x. ti_pid x = cu_pid c) xs \<and> cu_kzalloc c
        then ys @ [\<lparr>ti_pid = cu_pid c, ti_lasterror = lerror, ti_timeout = 0\<rparr>] else ys))"

definition get_timeout :: "current \<Rightarrow> task_info list \<Rightarrow> u32" where
  "get_timeout c xs = foldl (\<lambda>ret x. if ti_pid x = cu_leader c then ti_timeout x else ret) 0 xs"

definition store_timeout :: "current \<Rightarrow> u32 \<Rightarrow> task_info list \<Rightarrow> task_info list" where
  "store_timeout c ultimeout xs =
     (let ys = map (\<lambda>x. if ti_pid x = cu_leader c then x\<lparr>ti_timeout := ultimeout\<rparr> else x) xs in
      if \<not> list_ex (\<lambda>x. ti_pid x = cu_leader c) xs \<and> cu_kzalloc c
      then ys @ [\<lparr>ti_pid = cu_leader c, ti_lasterror = 0, ti_timeout = ultimeout\<rparr>] else ys)"

section \<open>A table of values which a sequence of operations writes\<close>

text \<open>\<open>effect\<close> says for an operation which keys it writes, and what.\<close>

locale value_table =
  fixes lookup :: "'k \<Rightarrow> 's \<Rightarrow> 'v"
    and step :: "'op \<Rightarrow> 's \<Rightarrow> 's"
    and effect :: "'op \<Rightarrow> 's \<Rightarrow> 'k \<Rightarrow> 'v option"
    and ok :: "'s \<Rightarrow> bool"
  assumes step_ok: "ok s \<Longrightarrow> ok (step op s)"
    and step_lookup: "ok s \<Longrightarrow> lookup k (step op s) = (case effect op s k of Some v \<Rightarrow> v | None \<Rightarrow> lookup k s)"
begin

text \<open>What the operations have written to the key, latest first.\<close>

primrec written :: "'op list \<Rightarrow> 's \<Rightarrow> 'k \<Rightarrow> 'v list" where
  "written [] s k = []"
| "written (op # ops) s k = written ops (step op s) k @ (case effect op s k of Some v \<Rightarrow> [v] | None \<Rightarrow> [])"

lemma run_ok: "ok s \<Longrightarrow> ok (fold step ops s)"
  by (induction ops arbitrary: s) (simp_all add: step_ok)

lemma lookup_run: "ok s \<Longrightarrow> lookup k (fold step ops s) = List.hd (written ops s k @ [lookup k s])"
proof (induction ops arbitrary: s)
  case (Cons op ops)
  then show ?case
    by (cases "written ops (step op s) k") (simp_all add: step_ok step_lookup split: option.split)
qed simp

lemma lookup_unwritten: "ok s \<Longrightarrow> written ops s k = [] \<Longrightarrow> lookup k (fold step ops s) = lookup k s"
  by (simp add: lookup_run)

end

section \<open>The task list as two tables\<close>

text \<open>The operations on the list, each with the thread that performs it.\<close>

datatype task_op = Store_Err current u32 | Store_Timeout current u32 | Clean

fun task_step :: "task_op \<Rightarrow> task_info list \<Rightarrow> task_info list" where
  "task_step (Store_Err c e) xs = snd (store_err c e xs)"
| "task_step (Store_Timeout c t) xs = store_timeout c t xs"
| "task_step Clean xs = cleanlist xs"

definition tasks_ok :: "task_info list \<Rightarrow> bool" where
  "tasks_ok xs \<longleftrightarrow> distinct (map ti_pid xs)"

definition known :: "nat \<Rightarrow> task_info list \<Rightarrow> bool" where
  "known p xs \<longleftrightarrow> p \<in> ti_pid ` set xs"

text \<open>The two tables: what the getters return for a thread, or a process.\<close>

definition err_of :: "nat \<Rightarrow> task_info list \<Rightarrow> u32" where
  "err_of p xs = get_err \<lparr>cu_pid = p, cu_leader = 0, cu_kzalloc = False\<rparr> xs"

definition timeout_of :: "nat \<Rightarrow> task_info list \<Rightarrow> u32" where
  "timeout_of p xs = get_timeout \<lparr>cu_pid = 0, cu_leader = p, cu_kzalloc = False\<rparr> xs"

lemma get_err_of: "get_err c xs = err_of (cu_pid c) xs"
  by (induction xs) (simp_all add: err_of_def)

lemma get_timeout_of: "get_timeout c xs = timeout_of (cu_leader c) xs"
  by (simp add: get_timeout_def timeout_of_def)

lemma cleanlist_Nil [simp]: "cleanlist xs = []"
  by (induction xs) simp_all

text \<open>An operation writes unless there is no entry and no memory for one.\<close>

fun err_effect :: "task_op \<Rightarrow> task_info list \<Rightarrow> nat \<Rightarrow> u32 option" where
  "err_effect (Store_Err c e) xs p = (if p = cu_pid c \<and> e \<noteq> 0 \<and> (cu_kzalloc c \<or> known p xs) then Some e else None)"
| "err_effect (Store_Timeout c t) xs p = None"
| "err_effect Clean xs p = Some 0"

fun timeout_effect :: "task_op \<Rightarrow> task_info list \<Rightarrow> nat \<Rightarrow> u32 option" where
  "timeout_effect (Store_Err c e) xs p = None"
| "timeout_effect (Store_Timeout c t) xs p = (if p = cu_leader c \<and> (cu_kzalloc c \<or> known p xs) then Some t else None)"
| "timeout_effect Clean xs p = Some 0"

section \<open>Correctness\<close>

lemma list_ex_known: "list_ex (\<lambda>x. ti_pid x = p) xs \<longleftrightarrow> known p xs"
  by (auto simp: list_ex_iff known_def)

lemma known_Cons [simp]: "known p (x # xs) \<longleftrightarrow> ti_pid x = p \<or> known p xs"
  by (auto simp: known_def)

lemma known_Nil [simp]: "\<not> known p []"
  by (simp add: known_def)

text \<open>Both stores change a field of the entry with the pid, or append one.\<close>

definition put :: "nat \<Rightarrow> (task_info \<Rightarrow> task_info) \<Rightarrow> bool \<Rightarrow> task_info list \<Rightarrow> task_info list" where
  "put p f alloc xs = map (\<lambda>x. if ti_pid x = p then f x else x) xs @
     (if \<not> known p xs \<and> alloc then [f \<lparr>ti_pid = p, ti_lasterror = 0, ti_timeout = 0\<rparr>] else [])"

lemma store_err_put: "store_err c e xs =
    (if e = 0 then (0, xs) else (- EPERM, put (cu_pid c) (ti_lasterror_update (\<lambda>_. e)) (cu_kzalloc c) xs))"
  by (simp add: store_err_def put_def Let_def list_ex_known)

lemma store_timeout_put: "store_timeout c t xs = put (cu_leader c) (ti_timeout_update (\<lambda>_. t)) (cu_kzalloc c) xs"
  by (simp add: store_timeout_def put_def Let_def list_ex_known)

lemma put_pids:
  assumes "\<And>x. ti_pid (f x) = ti_pid x"
  shows "map ti_pid (put p f alloc xs) = map ti_pid xs @ (if \<not> known p xs \<and> alloc then [p] else [])"
  using assms by (auto simp: put_def)

lemma put_ok: "(\<And>x. ti_pid (f x) = ti_pid x) \<Longrightarrow> tasks_ok xs \<Longrightarrow> tasks_ok (put p f alloc xs)"
  by (simp add: tasks_ok_def put_pids) (auto simp: known_def)

text \<open>A getter is the field of the entry, or \<open>0\<close> without one.\<close>

definition field_of :: "(task_info \<Rightarrow> u32) \<Rightarrow> nat \<Rightarrow> task_info list \<Rightarrow> u32" where
  "field_of g p xs = (case find (\<lambda>x. ti_pid x = p) xs of None \<Rightarrow> 0 | Some x \<Rightarrow> g x)"

lemma find_none: "find (\<lambda>x. ti_pid x = p) xs = None \<longleftrightarrow> \<not> known p xs"
  by (induction xs) auto

lemma find_append_case: "find P (xs @ ys) = (case find P xs of None \<Rightarrow> find P ys | Some x \<Rightarrow> Some x)"
  by (induction xs) auto

lemma find_map_pid:
  assumes "\<And>x. ti_pid (f x) = ti_pid x"
  shows "find (\<lambda>x. ti_pid x = q) (map (\<lambda>x. if ti_pid x = p then f x else x) xs) =
    (if q = p then map_option f (find (\<lambda>x. ti_pid x = q) xs) else find (\<lambda>x. ti_pid x = q) xs)"
  by (induction xs) (auto simp: assms)

lemma find_put:
  assumes "\<And>x. ti_pid (f x) = ti_pid x"
  shows "find (\<lambda>x. ti_pid x = q) (put p f alloc xs) =
    (if q = p then (if known p xs then map_option f (find (\<lambda>x. ti_pid x = q) xs)
        else if alloc then Some (f \<lparr>ti_pid = p, ti_lasterror = 0, ti_timeout = 0\<rparr>) else None)
     else find (\<lambda>x. ti_pid x = q) xs)"
  using find_none[of q xs]
  by (auto simp: put_def find_append_case find_map_pid[of f, OF assms] assms split: option.splits)

lemma field_of_put_same:
  assumes "\<And>x. ti_pid (f x) = ti_pid x" "\<And>x. g (f x) = v"
  shows "field_of g q (put p f alloc xs) = (if q = p \<and> (alloc \<or> known p xs) then v else field_of g q xs)"
  using find_none[of p xs] by (auto simp: field_of_def find_put[OF assms(1)] assms(2))

lemma field_of_put_other:
  assumes "\<And>x. ti_pid (f x) = ti_pid x" "\<And>x. g (f x) = g x" "\<And>p. g \<lparr>ti_pid = p, ti_lasterror = 0, ti_timeout = 0\<rparr> = 0"
  shows "field_of g q (put p f alloc xs) = field_of g q xs"
  using find_none[of p xs] by (auto simp: field_of_def find_put[OF assms(1)] assms(2,3) split: option.splits)

lemma err_of_field: "err_of p xs = field_of ti_lasterror p xs"
  by (induction xs) (simp_all add: err_of_def field_of_def)

lemma timeout_fold: "\<not> known p xs \<Longrightarrow> foldl (\<lambda>ret x. if ti_pid x = p then ti_timeout x else ret) r xs = r"
  by (induction xs) auto

lemma timeout_of_field: "tasks_ok xs \<Longrightarrow> timeout_of p xs = field_of ti_timeout p xs"
proof -
  have "tasks_ok xs \<Longrightarrow> foldl (\<lambda>ret x. if ti_pid x = p then ti_timeout x else ret) r xs =
      (case find (\<lambda>x. ti_pid x = p) xs of None \<Rightarrow> r | Some x \<Rightarrow> ti_timeout x)" for r
    by (induction xs arbitrary: r) (auto simp: tasks_ok_def timeout_fold known_def)
  then show "tasks_ok xs \<Longrightarrow> ?thesis"
    by (simp add: timeout_of_def get_timeout_def field_of_def)
qed

lemma task_step_ok: "tasks_ok xs \<Longrightarrow> tasks_ok (task_step op xs)"
proof (cases op)
  case (Store_Err c e)
  then show "tasks_ok xs \<Longrightarrow> ?thesis"
    by (simp add: store_err_put put_ok)
next
  case (Store_Timeout c t)
  then show "tasks_ok xs \<Longrightarrow> ?thesis"
    by (simp add: store_timeout_put put_ok)
qed (simp add: tasks_ok_def)

lemma field_of_store_err:
  "field_of ti_lasterror p (put q (ti_lasterror_update (\<lambda>_. e)) alloc xs) =
    (if p = q \<and> (alloc \<or> known q xs) then e else field_of ti_lasterror p xs)"
  "field_of ti_timeout p (put q (ti_lasterror_update (\<lambda>_. e)) alloc xs) = field_of ti_timeout p xs"
  by (simp_all add: field_of_put_same field_of_put_other)

lemma field_of_store_timeout:
  "field_of ti_timeout p (put q (ti_timeout_update (\<lambda>_. t)) alloc xs) =
    (if p = q \<and> (alloc \<or> known q xs) then t else field_of ti_timeout p xs)"
  "field_of ti_lasterror p (put q (ti_timeout_update (\<lambda>_. t)) alloc xs) = field_of ti_lasterror p xs"
  by (simp_all add: field_of_put_same field_of_put_other)

lemma field_of_Nil [simp]: "field_of g p [] = 0"
  by (simp add: field_of_def)

lemma err_step: "err_of p (task_step op xs) = (case err_effect op xs p of Some v \<Rightarrow> v | None \<Rightarrow> err_of p xs)"
  by (cases op) (auto simp: err_of_field store_err_put store_timeout_put field_of_store_err field_of_store_timeout)

lemma timeout_step:
  "tasks_ok xs \<Longrightarrow> timeout_of p (task_step op xs) = (case timeout_effect op xs p of Some v \<Rightarrow> v | None \<Rightarrow> timeout_of p xs)"
  using task_step_ok[of xs op]
  by (cases op) (auto simp: timeout_of_field store_err_put store_timeout_put field_of_store_err field_of_store_timeout)

interpretation errors: value_table err_of task_step err_effect tasks_ok
  by unfold_locales (rule task_step_ok, assumption, rule err_step)

interpretation timeouts: value_table timeout_of task_step timeout_effect tasks_ok
  by unfold_locales (rule task_step_ok, assumption, rule timeout_step)

section \<open>The tables against the history of the calls\<close>

text \<open>The specification reads the calls only: the last error which the thread has stored since the list was
  cleaned, an error of \<open>0\<close> not counting, and the last timeout of the process.\<close>

fun err_spec :: "nat \<Rightarrow> u32 \<Rightarrow> task_op list \<Rightarrow> u32" where
  "err_spec p a [] = a"
| "err_spec p a (Store_Err c e # ops) = err_spec p (if cu_pid c = p \<and> e \<noteq> 0 then e else a) ops"
| "err_spec p a (Store_Timeout c t # ops) = err_spec p a ops"
| "err_spec p a (Clean # ops) = err_spec p 0 ops"

fun timeout_spec :: "nat \<Rightarrow> u32 \<Rightarrow> task_op list \<Rightarrow> u32" where
  "timeout_spec p a [] = a"
| "timeout_spec p a (Store_Err c e # ops) = timeout_spec p a ops"
| "timeout_spec p a (Store_Timeout c t # ops) = timeout_spec p (if cu_leader c = p then t else a) ops"
| "timeout_spec p a (Clean # ops) = timeout_spec p 0 ops"

fun allocates :: "task_op \<Rightarrow> bool" where
  "allocates (Store_Err c e) \<longleftrightarrow> cu_kzalloc c"
| "allocates (Store_Timeout c t) \<longleftrightarrow> cu_kzalloc c"
| "allocates Clean \<longleftrightarrow> True"

text \<open>The calls which may change what a thread, or a process, reads.\<close>

fun sets_err :: "nat \<Rightarrow> task_op \<Rightarrow> bool" where
  "sets_err p (Store_Err c e) \<longleftrightarrow> cu_pid c = p"
| "sets_err p (Store_Timeout c t) \<longleftrightarrow> False"
| "sets_err p Clean \<longleftrightarrow> True"

fun sets_timeout :: "nat \<Rightarrow> task_op \<Rightarrow> bool" where
  "sets_timeout p (Store_Err c e) \<longleftrightarrow> False"
| "sets_timeout p (Store_Timeout c t) \<longleftrightarrow> cu_leader c = p"
| "sets_timeout p Clean \<longleftrightarrow> True"

lemma hd_append_two: "List.hd (xs @ [y, z]) = List.hd (xs @ [y])"
  by (cases xs) simp_all

lemma written_err_spec: "list_all allocates ops \<Longrightarrow> List.hd (errors.written ops s p @ [a]) = err_spec p a ops"
proof (induction ops arbitrary: s a)
  case (Cons op ops)
  then show ?case
    by (cases op) (auto simp: hd_append_two)
qed simp

lemma written_timeout_spec: "list_all allocates ops \<Longrightarrow> List.hd (timeouts.written ops s p @ [a]) = timeout_spec p a ops"
proof (induction ops arbitrary: s a)
  case (Cons op ops)
  then show ?case
    by (cases op) (auto simp: hd_append_two)
qed simp

lemma unwritten_err: "list_all (\<lambda>op. \<not> sets_err p op) ops \<Longrightarrow> errors.written ops s p = []"
proof (induction ops arbitrary: s)
  case (Cons op ops)
  then show ?case
    by (cases op) auto
qed simp

lemma unwritten_timeout: "list_all (\<lambda>op. \<not> sets_timeout p op) ops \<Longrightarrow> timeouts.written ops s p = []"
proof (induction ops arbitrary: s)
  case (Cons op ops)
  then show ?case
    by (cases op) auto
qed simp

text \<open>C36: The task list keeps the last error of every thread and the timeout of every process apart. After
  any sequence of calls there is at most one entry for a pid; as long as memory lasts, a
  thread reads the last error other than \<open>0\<close> it stored and a process the last timeout it set since the
  list was cleaned; and, memory or not, what others store changes neither.\<close>

theorem task_list_tables:
  assumes "tasks_ok xs"
  shows "tasks_ok (fold task_step ops xs) \<and>
    (list_all allocates ops \<longrightarrow>
      get_err c (fold task_step ops xs) = err_spec (cu_pid c) (get_err c xs) ops \<and>
      get_timeout c (fold task_step ops xs) = timeout_spec (cu_leader c) (get_timeout c xs) ops) \<and>
    (list_all (\<lambda>op. \<not> sets_err (cu_pid c) op) ops \<longrightarrow> get_err c (fold task_step ops xs) = get_err c xs) \<and>
    (list_all (\<lambda>op. \<not> sets_timeout (cu_leader c) op) ops \<longrightarrow> get_timeout c (fold task_step ops xs) = get_timeout c xs)"
  using errors.run_ok[OF assms] errors.lookup_run[OF assms] timeouts.lookup_run[OF assms]
    errors.lookup_unwritten[OF assms] timeouts.lookup_unwritten[OF assms]
  by (simp add: get_err_of get_timeout_of written_err_spec written_timeout_spec unwritten_err unwritten_timeout)

text \<open>Thread 8 of process 7 fails, process 7 sets a timeout from it, thread 9 fails.\<close>

theorem task_list_tables_witness:
  "let c = \<lparr>cu_pid = 8, cu_leader = 7, cu_kzalloc = True\<rparr>; d = c\<lparr>cu_pid := 9\<rparr>;
     xs = fold task_step [Store_Err c NETANA_INVALID_PARAMETER, Store_Timeout c 500, Store_Err d NETANA_CAPTURE_ACTIVE] initlist
   in get_err c xs = NETANA_INVALID_PARAMETER \<and> get_timeout d xs = 500 \<and> length xs = 3"
  using task_list_tables[of initlist "[Store_Err \<lparr>cu_pid = 8, cu_leader = 7, cu_kzalloc = True\<rparr> NETANA_INVALID_PARAMETER,
      Store_Timeout \<lparr>cu_pid = 8, cu_leader = 7, cu_kzalloc = True\<rparr> 500, Store_Err \<lparr>cu_pid = 9, cu_leader = 7, cu_kzalloc = True\<rparr> NETANA_CAPTURE_ACTIVE]"
      "\<lparr>cu_pid = 8, cu_leader = 7, cu_kzalloc = True\<rparr>"]
  by (simp add: tasks_ok_def initlist_def store_err_def store_timeout_def get_timeout_def)

end
