(* ===== verification/Sysfs_Attributes.thy ===== *)
theory Sysfs_Attributes
  imports Text_Format Kernel_Tasks Kernel_Notify Device_Info Api_Mailbox
begin

text \<open>
  The sysfs attributes of a device (\<open>netana_tk_interface.c\<close>): for every attribute the function that
  prints it and the one that takes what was written to it, each a call of the
  toolkit with its parameters in text. A failed call is recorded as the last error of the calling
  thread. An attribute function returns the \<open>ssize_t\<close> of the source, and a show function
  the text or bytes it has put into the buffer too; \<open>None\<close> is, as in the toolkit, a call that still waits
  for the device.
\<close>

section \<open>State and environment\<close>

abbreviation (input) EINVAL :: int where "EINVAL \<equiv> 22"
abbreviation (input) EIO :: int where "EIO \<equiv> 5"

text \<open>How the DSR thread is scheduled.\<close>

datatype dsr_sched = Sched_Fifo | Sched_Fifo_Low | Sched_Normal int

text \<open>The fields of \<open>struct netana_info\<close> and of its \<open>tkdevice\<close> which the attributes use. The device
  instance is card \<open>na_card\<close> of the toolkit, \<open>na_hdevice\<close> whether the driver has it open.\<close>

record ninfo =
  na_tk :: toolkit
  na_card :: nat
  na_minor :: u32
  na_hdevice :: bool
  na_addsucceded :: bool
  na_maska :: bytes
  na_vala :: bytes
  na_maskb :: bytes
  na_valb :: bytes
  na_identinfoblock :: bytes
  na_tasks :: "task_info list"
  na_k :: kinfo
  na_dsrthread :: "dsr_sched option"

text \<open>What a call depends on besides the device: the calling thread, the port of the toolkit and its
  configuration, the answers of \<open>kmalloc\<close>, \<open>kzalloc\<close> (mask and value) and of the mutex, and
  the memory behind the buffers in use.\<close>

record sysfs_env =
  se_current :: current
  se_ops :: file_ops
  se_cfg :: tkit_config
  se_alloc :: os_alloc
  se_port :: port
  se_dev_env :: dev_env
  se_mutex :: bool
  se_kmalloc :: bool
  se_kzalloc :: "bool \<times> bool"
  se_heap :: bytes
  se_page :: bytes

text \<open>\<open>struct attrid\<close>: the numbers of the object and of the attribute in it.\<close>

record attrid =
  ai_objnum :: u32
  ai_devnum :: u32

definition sys_of :: "ninfo \<Rightarrow> sys" where
  "sys_of i = cd_sys (tk_cards (na_tk i) (na_card i))"

definition set_sys :: "sys \<Rightarrow> ninfo \<Rightarrow> ninfo" where
  "set_sys s i = i\<lparr>na_tk := upd_card (na_card i) (upd_sys (\<lambda>_. s)) (na_tk i)\<rparr>"

text \<open>A call of the toolkit on the device instance.\<close>

definition on_device :: "(sys, 'a) proc \<Rightarrow> (ninfo, 'a) proc" where
  "on_device f i = do { (r, s) \<leftarrow> f (sys_of i); Some (r, set_sys s i) }"

definition record_err :: "sysfs_env \<Rightarrow> u32 \<Rightarrow> ninfo \<Rightarrow> int \<times> ninfo" where
  "record_err E e i = (let (r, xs) = store_err (se_current E) e (na_tasks i) in (r, i\<lparr>na_tasks := xs\<rparr>))"

type_synonym show_fn = "sysfs_env \<Rightarrow> attrid \<Rightarrow> (ninfo, int \<times> string) proc"
type_synonym store_fn = "sysfs_env \<Rightarrow> attrid \<Rightarrow> string \<Rightarrow> (ninfo, int) proc"

text \<open>\<open>return store_err (...)\<close>, in a show function without a text.\<close>

definition reject :: "sysfs_env \<Rightarrow> u32 \<Rightarrow> (ninfo, int) proc" where
  "reject E e i = Some (record_err E e i)"

definition refuse :: "sysfs_env \<Rightarrow> u32 \<Rightarrow> (ninfo, int \<times> 'a list) proc" where
  "refuse E e i = (let (r, i1) = record_err E e i in Some ((r, []), i1))"

text \<open>\<open>return sprintf (buf, ...)\<close>.\<close>

definition put_text :: "string \<Rightarrow> (ninfo, int \<times> string) proc" where
  "put_text t i = Some ((int (length t), t), i)"

section \<open>Driver information\<close>

definition NETANA_DRIVER_VERSION :: "u32 list" where
  "NETANA_DRIVER_VERSION = [1, 0, 6, 0]"

definition netana_get_last_error :: show_fn where
  "netana_get_last_error E at i = put_text (sprintf ''0x%X\<newline>'' [W (get_err (se_current E) (na_tasks i))]) i"

definition netana_show_drvvers :: show_fn where
  "netana_show_drvvers E at i =
     put_text (sprintf ''%d %d %d %d %d %d %d %d\<newline>'' (map W (NETANA_DRIVER_VERSION @ NETANA_TOOLKIT_VERSION))) i"

definition netana_show_dma_buffercnt :: show_fn where
  "netana_show_dma_buffercnt E at i = put_text (sprintf ''%d\<newline>'' [W (g_ulDMABufferCount (se_cfg E))]) i"

definition netana_show_dma_buffersize :: show_fn where
  "netana_show_dma_buffersize E at i = put_text (sprintf ''0x%X\<newline>'' [W (g_ulDMABufferSize (se_cfg E))]) i"

definition netana_set_device_class :: store_fn where
  "netana_set_device_class E at buf i =
     (case sscanf buf ''%d'' of
        [W ulDeviceClass] \<Rightarrow>
          let (e, apps) = USER_SetDevClassFilter (oa_app (se_alloc E)) (cu_leader (se_current E)) ulDeviceClass (tk_apps (na_tk i));
              i1 = i\<lparr>na_tk := (na_tk i)\<lparr>tk_apps := apps\<rparr>\<rparr>
          in if e \<noteq> NETANA_NO_ERROR then reject E e i1 else Some (int (length buf), i1)
      | _ \<Rightarrow> Some (int (length buf), i))"

definition netana_get_device_class :: show_fn where
  "netana_get_device_class E at i =
     put_text (sprintf ''%d\<newline>'' [W (USER_GetDevClassFilter (cu_leader (se_current E)) (tk_apps (na_tk i)))]) i"

text \<open>\<open>netana_update_dsr_thread_prio\<close> as from Linux 5.9 on; \<open>SCHED_FIFO\<close> is policy 1.\<close>

definition netana_update_dsr_thread_prio :: "u32 \<Rightarrow> u32 \<Rightarrow> ninfo \<Rightarrow> int \<times> ninfo" where
  "netana_update_dsr_thread_prio iPolicy iPrio i =
     (case na_dsrthread i of
        None \<Rightarrow> (- EINVAL, i)
      | Some _ \<Rightarrow>
          (0, i\<lparr>na_dsrthread := Some (if iPolicy = 1 then (if sint iPrio \<ge> 50 then Sched_Fifo else Sched_Fifo_Low)
                                     else Sched_Normal (sint iPrio))\<rparr>))"

definition netana_set_dsr_prio :: store_fn where
  "netana_set_dsr_prio E at buf i =
     (case sscanf buf ''%d %d'' of
        [W iPolicy, W iPrio] \<Rightarrow>
          let (iret, i1) = netana_update_dsr_thread_prio iPolicy iPrio i
          in Some (if iret < 0 then iret else int (length buf), i1)
      | _ \<Rightarrow> Some (- EINVAL, i))"

section \<open>Device state and features\<close>

definition devstate_show :: show_fn where
  "devstate_show E at i =
     (if \<not> na_hdevice i then refuse E NETANA_INVALID_HANDLE i
      else case netana_get_state (Some 0) (Some 0) (sys_of i) of
        (e, st, er) \<Rightarrow>
          if e \<noteq> NETANA_NO_ERROR then refuse E e i
          else put_text (sprintf ''0x%X 0x%X\<newline>'' [W (the st), W (the er)]) i)"

definition ack_status :: "kinfo \<Rightarrow> kinfo" where
  "ack_status k =
     (if ki_status_read_counter k \<noteq> ki_status_event_counter k
      then k\<lparr>ki_status_read_counter := ki_status_event_counter k, ki_status_read_sig := True\<rparr> else k)"

definition devstate_show_poll :: show_fn where
  "devstate_show_poll E at i =
     (if \<not> na_hdevice i then refuse E NETANA_INVALID_HANDLE i
      else do {
        (r, i1) \<leftarrow> (case netana_get_state (Some 0) (Some 0) (sys_of i) of
           (e, st, er) \<Rightarrow>
             if e \<noteq> NETANA_NO_ERROR then refuse E e i
             else put_text (sprintf ''0x%X 0x%X\<newline>'' [W (the st), W (the er)]) i);
        Some (r, i1\<lparr>na_k := ack_status (na_k i1)\<rparr>)
      })"

definition devfeature_show :: show_fn where
  "devfeature_show E at i =
     (if \<not> na_hdevice i then refuse E NETANA_INVALID_HANDLE i
      else case netana_mngmt_exec_cmd (se_alloc E) (cu_leader (se_current E))
             (Cmd_Get_Dev_Feature (Some (na_card i)) SIZEOF_DEV_FEATURE_IN SIZEOF_DEV_FEATURE_OUT) (na_tk i) of
        ((e, out), tk) \<Rightarrow>
          let i1 = i\<lparr>na_tk := tk\<rparr> in
          if e \<noteq> NETANA_NO_ERROR then refuse E e i1
          else put_text (sprintf ''0x%X 0x%X 0x%X 0x%X 0x%X 0x%X 0x%X 0x%X 0x%X 0x%X 0x%X 0x%X 0x%X 0x%X 0x%X 0x%X 0x%X 0x%X\<newline>''
                 (map (\<lambda>k. W (word_at k (the out))) [0..<18])) i1)"

definition fwerror_store :: store_fn where
  "fwerror_store E at buf i =
     (if \<not> na_hdevice i then reject E NETANA_INVALID_HANDLE i
      else case sscanf buf ''%d'' of
        [W ulDeviceError] \<Rightarrow> do {
          (e, i1) \<leftarrow> on_device (netana_signal_driver_error ulDeviceError) i;
          if e \<noteq> NETANA_NO_ERROR then reject E e i1 else Some (int (length buf), i1)
        }
      | _ \<Rightarrow> Some (int (length buf), i))"

abbreviation (input) SIZEOF_DEVICE_INFORMATION :: nat where "SIZEOF_DEVICE_INFORMATION \<equiv> 394"

text \<open>A binary attribute, read from an offset for a number of bytes.\<close>

definition show_device_info :: "sysfs_env \<Rightarrow> nat \<Rightarrow> nat \<Rightarrow> (ninfo, int \<times> bytes) proc" where
  "show_device_info E toff tcount i =
     (if toff > SIZEOF_DEVICE_INFORMATION then Some ((0, []), i)
      else
        let n = (if toff + tcount > SIZEOF_DEVICE_INFORMATION then SIZEOF_DEVICE_INFORMATION - toff else tcount)
        in case netana_enum_device (se_alloc E) (cu_leader (se_current E)) (na_minor i) (of_nat SIZEOF_DEVICE_INFORMATION)
               (se_heap E) (na_tk i) of
             ((e, out), tk) \<Rightarrow>
               let i1 = i\<lparr>na_tk := tk\<rparr> in
               if e \<noteq> NETANA_NO_ERROR then refuse E e i1
               else Some ((int n, take n (drop toff (the out))), i1))"

section \<open>GPIOs, ports and PHYs\<close>

definition netana_store_gpio_mode :: store_fn where
  "netana_store_gpio_mode E at buf i =
     (if \<not> na_hdevice i then reject E NETANA_INVALID_HANDLE i
      else case sscanf buf ''%d %d %d'' of
        [W m, W x, W y] \<Rightarrow>
          let (e, s) = netana_set_gpio_mode (ai_objnum at) \<lparr>gm_ulMode = m, gm_uData0 = x, gm_uData1 = y\<rparr> (sys_of i); i1 = set_sys s i
          in if e \<noteq> NETANA_NO_ERROR then reject E e i1 else Some (int (length buf), i1)
      | _ \<Rightarrow> Some (int (length buf), i))"

definition netana_store_gpio_level :: store_fn where
  "netana_store_gpio_level E at buf i =
     (if \<not> na_hdevice i then reject E NETANA_INVALID_HANDLE i
      else case sscanf buf ''%d'' of
        [W ullevel] \<Rightarrow>
          let (e, s) = netana_set_gpio_output (ai_objnum at) ullevel (sys_of i); i1 = set_sys s i
          in if e \<noteq> NETANA_NO_ERROR then reject E e i1 else Some (int (length buf), i1)
      | _ \<Rightarrow> Some (int (length buf), i))"

definition netana_gpio_get_reg_val :: show_fn where
  "netana_gpio_get_reg_val E at i =
     (if \<not> na_hdevice i then refuse E NETANA_INVALID_HANDLE i
      else let (e, m) = netana_get_gpio_mode (ai_objnum at) \<lparr>gm_ulMode = 0, gm_uData0 = 0, gm_uData1 = 0\<rparr> (sys_of i)
        in if e \<noteq> NETANA_NO_ERROR then refuse E e i
           else put_text (sprintf ''%d %d %d\<newline>'' [W (gm_ulMode m), W (gm_uData0 m), W (gm_uData1 m)]) i)"

definition netana_set_gpiovoltage :: store_fn where
  "netana_set_gpiovoltage E at buf i =
     (if \<not> na_hdevice i then reject E NETANA_INVALID_HANDLE i
      else case sscanf buf ''%d %d'' of
        [W ulGpioSelMask, W ulVoltage] \<Rightarrow>
          if ulVoltage = 0 \<or> ulVoltage = 1 then
            let (e, s) = netana_set_gpio_voltage ulGpioSelMask ulVoltage (sys_of i); i1 = set_sys s i
            in if e \<noteq> NETANA_NO_ERROR then reject E e i1 else Some (int (length buf), i1)
          else reject E NETANA_INVALID_PARAMETER i
      | _ \<Rightarrow> reject E NETANA_INVALID_PARAMETER i)"

definition netana_get_gpiovoltage :: show_fn where
  "netana_get_gpiovoltage E at i =
     (if \<not> na_hdevice i then refuse E NETANA_INVALID_HANDLE i
      else let (e, v) = netana_get_gpio_voltage (ai_objnum at) (Some 0) (sys_of i)
        in if e \<noteq> NETANA_NO_ERROR then refuse E e i else put_text (sprintf ''%d\<newline>'' [W (the v)]) i)"

text \<open>The fields of the packed \<open>NETANA_PORT_STATE_T\<close>.\<close>

definition rd64 :: "bytes \<Rightarrow> u64" where
  "rd64 bs = ucast (rd32 (take 4 bs)) OR push_bit 32 (ucast (rd32 (take 4 (drop 4 bs))))"

definition port_state_args :: "bytes \<Rightarrow> carg list" where
  "port_state_args b = [W (rd32 (take 4 b))] @ map (\<lambda>k. LL (rd64 (take 8 (drop (4 + 8 * k) b)))) [0..<11] @
     [W (rd32 (take 4 (drop 92 b))), LL (rd64 (take 8 (drop 96 b)))]"

definition netana_port_get_reg_val :: show_fn where
  "netana_port_get_reg_val E at i =
     (if \<not> na_hdevice i then refuse E NETANA_INVALID_HANDLE i
      else do {
        ((e, st), i1) \<leftarrow> on_device (netana_get_portstat (ai_objnum at) 104 (replicate 104 0)) i;
        if e \<noteq> NETANA_NO_ERROR then refuse E e i1
        else put_text (sprintf ''%d %llu %llu %llu %llu %llu %llu %llu %llu %llu %llu %llu %d %llu\<newline>'' (port_state_args st)) i1
      })"

definition netana_phy_get_reg_val :: show_fn where
  "netana_phy_get_reg_val E at i =
     (if \<not> na_hdevice i then refuse E NETANA_INVALID_HANDLE i
      else do {
        ((e, usValue), i1) \<leftarrow> on_device (netana_access_phy_reg NETANA_PHY_DIRECTION_READ (ucast (ai_objnum at))
           (ucast (ai_devnum at)) 0 (get_timeout (se_current E) (na_tasks i))) i;
        if e \<noteq> NETANA_NO_ERROR then refuse E e i1 else put_text (sprintf ''%u\<newline>'' [W (ucast usValue)]) i1
      })"

definition netana_phy_set_reg_val :: store_fn where
  "netana_phy_set_reg_val E at buf i =
     (if \<not> na_hdevice i then reject E NETANA_INVALID_HANDLE i
      else case sscanf buf ''%u'' of
        [W tmp] \<Rightarrow> do {
          ((e, _), i1) \<leftarrow> on_device (netana_access_phy_reg NETANA_PHY_DIRECTION_WRITE (ucast (ai_objnum at))
             (ucast (ai_devnum at)) (ucast (0xFFFF AND tmp)) (get_timeout (se_current E) (na_tasks i))) i;
          if e \<noteq> NETANA_NO_ERROR then reject E e i1 else Some (int (length buf), i1)
        }
      | _ \<Rightarrow> Some (int (length buf), i))"

section \<open>Filters\<close>

definition get_relation :: show_fn where
  "get_relation E at i =
     (if \<not> na_hdevice i then refuse E NETANA_INVALID_HANDLE i
      else
        let fa = \<lparr>uf_ulFilterSize = 0, uf_pbMask = Some (na_maska i), uf_pbValue = Some (na_vala i)\<rparr>;
            fb = \<lparr>uf_ulFilterSize = 0, uf_pbMask = Some (na_maskb i), uf_pbValue = Some (na_valb i)\<rparr>;
            ulfiltersize = ulFilterSize (dev (sys_of i));
            (e, _, _, rel) = netana_get_filter (ai_objnum at) (Some fa) (Some fb) (Some 0) (sys_of i)
        in if e \<noteq> NETANA_NO_ERROR then refuse E e i
           else put_text (sprintf ''%d %d %d\<newline>'' [W (the rel), W ulfiltersize, W ulfiltersize]) i)"

definition set_filter :: store_fn where
  "set_filter E at buf i =
     (if \<not> na_hdevice i then reject E NETANA_INVALID_HANDLE i
      else case sscanf buf ''%d %d %d'' of
        [W ulrelationship, W sizea, W sizeb] \<Rightarrow>
          let fa = \<lparr>uf_ulFilterSize = sizea, uf_pbMask = Some (na_maska i), uf_pbValue = Some (na_vala i)\<rparr>;
              fb = \<lparr>uf_ulFilterSize = sizeb, uf_pbMask = Some (na_maskb i), uf_pbValue = Some (na_valb i)\<rparr>;
              (e, s) = netana_set_filter (ai_objnum at) (Some fa) (Some fb) ulrelationship (sys_of i); i1 = set_sys s i
          in if e \<noteq> NETANA_NO_ERROR then reject E e i1 else Some (int (length buf), i1)
      | _ \<Rightarrow> Some (int (length buf), i))"

text \<open>The binary attributes of a filter. \<open>off\<close> is not used, and what is read beyond the filter comes
  from the memory behind the copy.\<close>

definition show_filter :: "sysfs_env \<Rightarrow> u32 \<Rightarrow> string \<Rightarrow> nat \<Rightarrow> nat \<Rightarrow> (ninfo, int \<times> bytes) proc" where
  "show_filter E objnum name off count i =
     (if \<not> na_hdevice i then refuse E NETANA_INVALID_HANDLE i
      else
        let n = ulFilterSize (dev (sys_of i));
            copy = (\<lambda>ok. if ok then Some (replicate (unat n) 0) else None);
            tfilter = \<lparr>uf_ulFilterSize = n, uf_pbMask = copy (fst (se_kzalloc E)), uf_pbValue = copy (snd (se_kzalloc E))\<rparr>;
            is_a = (take 5 name = ''maska'' \<or> take 4 name = ''vala'');
            is_b = (take 5 name = ''maskb'' \<or> take 4 name = ''valb'')
        in if \<not> is_a \<and> \<not> is_b then Some ((- EIO, []), i)
           else case netana_get_filter objnum (if is_a then Some tfilter else None) (if is_a then None else Some tfilter)
                  (Some 0) (sys_of i) of
                  (e, a, b, _) \<Rightarrow>
                    if e \<noteq> NETANA_NO_ERROR then refuse E e i
                    else let f = the (if is_a then a else b);
                             src = (if take 4 name = ''mask'' then uf_pbMask f else uf_pbValue f)
                         in Some ((int count, take count (the src @ se_heap E)), i))"

definition store_filter :: "sysfs_env \<Rightarrow> string \<Rightarrow> bytes \<Rightarrow> (ninfo, int) proc" where
  "store_filter E name buf i =
     (let count = length buf; n = unat (ulFilterSize (dev (sys_of i))); new = blit 0 buf (replicate n 0) in
      if \<not> na_hdevice i then reject E NETANA_INVALID_HANDLE i
      else if count = 0 \<or> count > n then reject E NETANA_INVALID_BUFFERSIZE i
      else if take 5 name = ''maska'' then Some (int count, i\<lparr>na_maska := new\<rparr>)
      else if take 4 name = ''vala'' then Some (int count, i\<lparr>na_vala := new\<rparr>)
      else if take 5 name = ''maskb'' then Some (int count, i\<lparr>na_maskb := new\<rparr>)
      else if take 4 name = ''valb'' then Some (int count, i\<lparr>na_valb := new\<rparr>)
      else reject E NETANA_INVALID_PARAMETER i)"

section \<open>Device control\<close>

text \<open>The callbacks \<open>netana_notify_state\<close> and \<open>netana_notify_data\<close>, by number. \<open>fdatacallback\<close> is
  scanned and not used.\<close>

abbreviation (input) notify_state_fn :: nat where "notify_state_fn \<equiv> 1"
abbreviation (input) notify_data_fn :: nat where "notify_data_fn \<equiv> 2"

definition netana_config_control :: store_fn where
  "netana_config_control E at buf i =
     (if \<not> na_hdevice i then reject E NETANA_INVALID_HANDLE i
      else case sscanf buf ''%d %d %d %llu %i %i'' of
        [W ulcapturemode, W ulportmask, W ulmacmode, LL ullreftime, W fdatacallback, W fstatuscallback] \<Rightarrow> do {
          (e, i1) \<leftarrow> on_device (netana_start_capture (se_ops E) (se_cfg E) ulcapturemode ulportmask ulmacmode ullreftime
             (if fstatuscallback \<noteq> 0 then Some notify_state_fn else None) (Some notify_data_fn) (na_card i)) i;
          if e \<noteq> NETANA_NO_ERROR then reject E e i1
          else Some (int (length buf), i1\<lparr>na_k := (na_k i1)\<lparr>ki_captureactive := True,
                 ki_statuscallback := fstatuscallback \<noteq> 0 \<or> ki_statuscallback (na_k i1)\<rparr>\<rparr>)
        }
      | _ \<Rightarrow>
        (case sscanf buf ''%d'' of
          [W ulcapturedisable] \<Rightarrow>
            if ulcapturedisable = 1 then do {
              (e, i1) \<leftarrow> on_device (netana_stop_capture (se_ops E)) i;
              if e \<noteq> NETANA_NO_ERROR then reject E e i1
              else Some (int (length buf), i1\<lparr>na_k := (na_k i1)\<lparr>ki_captureactive := False, ki_statuscallback := False\<rparr>\<rparr>)
            } else Some (int (length buf), i)
        | _ \<Rightarrow> Some (int (length buf), i)))"

definition netana_blink_device :: store_fn where
  "netana_blink_device E at buf i =
     (case sscanf buf ''%i'' of
        [W blink] \<Rightarrow>
          if blink \<noteq> 0 then
            (let name = szDeviceName (dev (sys_of i)) in
             case netana_mngmt_exec_cmd (se_alloc E) (cu_leader (se_current E)) (Cmd_Blink (Some name) (of_nat (length name))) (na_tk i) of
               ((e, _), tk) \<Rightarrow>
                 let i1 = i\<lparr>na_tk := tk\<rparr> in
                 if e \<noteq> NETANA_NO_ERROR then reject E e i1 else Some (int (length buf), i1))
          else Some (int (length buf), i)
      | _ \<Rightarrow> Some (int (length buf), i))"

definition netana_pi_config :: store_fn where
  "netana_pi_config E at buf i =
     (if \<not> na_hdevice i then reject E NETANA_INVALID_HANDLE i
      else case sscanf buf ''%d %d'' of
        [W ulp, W uli] \<Rightarrow>
          let (e, s) = netana_config_pi_controller ulp uli (sys_of i); i1 = set_sys s i
          in if e \<noteq> NETANA_NO_ERROR then reject E e i1 else Some (int (length buf), i1)
      | _ \<Rightarrow> reject E NETANA_INVALID_PARAMETER i)"

definition netana_time_config :: store_fn where
  "netana_time_config E at buf i =
     (if \<not> na_hdevice i then reject E NETANA_INVALID_HANDLE i
      else case sscanf buf ''%llu'' of
        [LL ullreferencetime] \<Rightarrow> do {
          (e, i1) \<leftarrow> on_device (netana_resync_time ullreferencetime) i;
          if e \<noteq> NETANA_NO_ERROR then reject E e i1 else Some (int (length buf), i1)
        }
      | _ \<Rightarrow> reject E NETANA_INVALID_PARAMETER i)"

definition netana_timeout_config :: store_fn where
  "netana_timeout_config E at buf i =
     (if \<not> na_hdevice i then reject E NETANA_INVALID_HANDLE i
      else case sscanf buf ''%d'' of
        [W ultimeout] \<Rightarrow> Some (int (length buf), i\<lparr>na_tasks := store_timeout (se_current E) ultimeout (na_tasks i)\<rparr>)
      | _ \<Rightarrow> reject E NETANA_INVALID_PARAMETER i)"

section \<open>Identification\<close>

definition netana_show_ident_info :: show_fn where
  "netana_show_ident_info E at i =
     (if \<not> na_hdevice i then refuse E NETANA_INVALID_HANDLE i
      else let b = tSystemInfoBlock (dpm (sys_of i))
        in put_text (sprintf ''%lu %lu %lu %u 0x%X 0x%X %u %u\<newline>''
             [LL 0, LL (ucast (si_ulDeviceNr b)), LL (ucast (si_ulSerialNr b)), W (ucast (si_usManufacturer b)),
              W (si_ulLicenseFlags1 b), W (si_ulLicenseFlags2 b), W (ucast (si_usNetXLicenseID b)),
              W (ucast (si_usNetXLicenseFlags b))]) i)"

definition netana_ident_update :: store_fn where
  "netana_ident_update E at buf i =
     (if \<not> na_hdevice i then reject E NETANA_INVALID_HANDLE i
      else if \<not> se_kmalloc E then reject E NETANA_OUT_OF_MEMORY i
      else case sscanf buf ''%s'' of
        [Str ident_info_file] \<Rightarrow>
          let (e, s) = netana_set_device_ident (Some ident_info_file) (sys_of i); i1 = set_sys s i
          in if e = NETANA_NO_ERROR then do {
               (e1, tk) \<leftarrow> netana_restart_device (se_port E) (se_ops E) (se_alloc E) (se_dev_env E) (na_card i1) (na_tk i1);
               let i2 = i1\<lparr>na_tk := tk\<rparr>;
               if e1 \<noteq> NETANA_NO_ERROR then reject E NETANA_HWRESET_ERROR (i2\<lparr>na_addsucceded := False, na_hdevice := False\<rparr>)
               else let l = if_lError (tIdentInfoFile (dev (sys_of i2)))
                    in if l \<noteq> NETANA_NO_ERROR then reject E l i2 else Some (int (length buf), i2)
             } else reject E e i1
      | _ \<Rightarrow> reject E NETANA_INVALID_PARAMETER i)"

definition netana_write_ident :: "sysfs_env \<Rightarrow> bytes \<Rightarrow> (ninfo, int) proc" where
  "netana_write_ident E buf i =
     (if \<not> na_hdevice i then reject E NETANA_INVALID_HANDLE i
      else do {
        let i1 = i\<lparr>na_identinfoblock := blit 0 buf (na_identinfoblock i)\<rparr>;
        ((e, out), i2) \<leftarrow> on_device (netana_check_device_ident (of_nat (length buf)) (Some (na_identinfoblock i1))) i1;
        let i3 = i2\<lparr>na_identinfoblock := the out\<rparr>;
        if e \<noteq> NETANA_NO_ERROR then reject E e i3 else Some (int (length buf), i3)
      })"

definition netana_read_ident :: "sysfs_env \<Rightarrow> nat \<Rightarrow> nat \<Rightarrow> (ninfo, int \<times> bytes) proc" where
  "netana_read_ident E off count i =
     (if \<not> na_hdevice i then refuse E NETANA_INVALID_HANDLE i
      else Some ((int count, take count (drop off (na_identinfoblock i) @ se_heap E)),
             i\<lparr>na_identinfoblock := blit 0 (replicate count 0) (na_identinfoblock i)\<rparr>))"

section \<open>The mailbox\<close>

definition netana_read_mbx_status :: show_fn where
  "netana_read_mbx_status E at i =
     (if \<not> na_hdevice i then refuse E NETANA_INVALID_HANDLE i
      else case netana_get_mbx_state (Some 16) (Some 0) (sys_of i) of
        (e, recv_cnt, send_cnt) \<Rightarrow>
          if e \<noteq> NETANA_NO_ERROR then refuse E e i
          else put_text (sprintf ''%u %u\<newline>'' [W (the recv_cnt), W (the send_cnt)]) i)"

text \<open>The buffers are pages of the kernel: a packet is received over what is in the page, and one which
  claims to be longer than what was written is sent with what follows in memory.\<close>

definition netana_read_mbx_packet_bin :: "sysfs_env \<Rightarrow> nat \<Rightarrow> (ninfo, int \<times> bytes) proc" where
  "netana_read_mbx_packet_bin E count i =
     (if \<not> na_hdevice i then refuse E NETANA_INVALID_HANDLE i
      else do {
        ((e, buf), i1) \<leftarrow> on_device (netana_get_packet (se_mutex E) (of_nat count) (se_page E)
           (get_timeout (se_current E) (na_tasks i))) i;
        if e \<noteq> NETANA_NO_ERROR then refuse E e i1 else Some ((int count, take count buf), i1)
      })"

definition netana_write_mbx_packet_bin :: "sysfs_env \<Rightarrow> bytes \<Rightarrow> (ninfo, int) proc" where
  "netana_write_mbx_packet_bin E buf i =
     (if \<not> na_hdevice i then reject E NETANA_INVALID_HANDLE i
      else do {
        (e, i1) \<leftarrow> on_device (netana_put_packet (se_mutex E) (read_packet (buf @ se_heap E))
           (get_timeout (se_current E) (na_tasks i))) i;
        if e \<noteq> NETANA_NO_ERROR then reject E e i1 else Some (int (length buf), i1)
      })"

section \<open>How an attribute answers\<close>

text \<open>A call either does what it was asked for and returns the length of the text, or fails with
  \<open>-EPERM\<close> and leaves the error, never \<open>0\<close>, to the calling thread.\<close>

definition shown :: "current \<Rightarrow> task_info list \<Rightarrow> int \<times> 'a list \<Rightarrow> task_info list \<Rightarrow> bool" where
  "shown c xs = (\<lambda>(r, t) ys. r = int (length t) \<and> ys = xs \<or>
     r = - EPERM \<and> t = [] \<and> (\<exists>e. e \<noteq> NETANA_NO_ERROR \<and> ys = snd (store_err c e xs)))"

definition stored :: "current \<Rightarrow> task_info list \<Rightarrow> 'a list \<Rightarrow> int \<Rightarrow> task_info list \<Rightarrow> bool" where
  "stored c xs buf r ys \<longleftrightarrow> r = int (length buf) \<and> ys = xs \<or>
     r = - EPERM \<and> (\<exists>e. e \<noteq> NETANA_NO_ERROR \<and> ys = snd (store_err c e xs))"

lemma record_err_eq [simp]:
  "e \<noteq> 0 \<Longrightarrow> record_err E e i = (- EPERM, i\<lparr>na_tasks := snd (store_err (se_current E) e (na_tasks i))\<rparr>)"
  by (simp add: record_err_def store_err_def)

lemma reject_eq [simp]:
  "e \<noteq> 0 \<Longrightarrow> reject E e i = Some (- EPERM, i\<lparr>na_tasks := snd (store_err (se_current E) e (na_tasks i))\<rparr>)"
  by (simp add: reject_def)

lemma refuse_eq [simp]:
  "e \<noteq> 0 \<Longrightarrow> refuse E e i = Some ((- EPERM, []), i\<lparr>na_tasks := snd (store_err (se_current E) e (na_tasks i))\<rparr>)"
  by (simp add: refuse_def)

lemma set_sys_frame [simp]:
  "na_tasks (set_sys s i) = na_tasks i" "na_hdevice (set_sys s i) = na_hdevice i" "na_card (set_sys s i) = na_card i"
  "na_k (set_sys s i) = na_k i" "sys_of (set_sys s i) = s"
  by (simp_all add: set_sys_def sys_of_def upd_card_def upd_sys_def)

lemma on_device_Some:
  "on_device f i = Some (r, i') \<longleftrightarrow> (\<exists>s. f (sys_of i) = Some (r, s) \<and> i' = set_sys s i)"
  by (auto simp: on_device_def bind_eq_Some_conv)

lemma shown_refused: "e \<noteq> 0 \<Longrightarrow> shown c xs (- EPERM, []) (snd (store_err c e xs))"
  by (auto simp: shown_def)

lemma shown_text [simp]: "shown c xs (int (length t), t) xs"
  by (simp add: shown_def)

lemma stored_all [simp]: "stored c xs buf (int (length buf)) xs"
  by (simp add: stored_def)

lemma stored_rejected: "e \<noteq> 0 \<Longrightarrow> stored c xs buf (- EPERM) (snd (store_err c e xs))"
  by (auto simp: stored_def)

lemmas answer_simps = put_text_def on_device_Some bind_eq_Some_conv shown_refused stored_rejected Let_def

lemma on_device_bindE:
  assumes "on_device f i \<bind> g = Some y"
  obtains a s where "f (sys_of i) = Some (a, s)" "g (a, set_sys s i) = Some y"
  using assms by (auto simp: bind_eq_Some_conv on_device_Some)

lemma shown_put [intro]: "put_text t i = Some (x, i') \<Longrightarrow> na_tasks i = xs \<Longrightarrow> shown c xs x (na_tasks i')"
  by (auto simp: put_text_def)

lemma shown_refuse [intro]:
  "refuse E e i = Some (x, i') \<Longrightarrow> e \<noteq> 0 \<Longrightarrow> na_tasks i = xs \<Longrightarrow> c = se_current E \<Longrightarrow> shown c xs x (na_tasks i')"
  by (auto simp: shown_refused)

lemma netana_get_last_error_answers:
  "netana_get_last_error E at i = Some (x, i') \<Longrightarrow> shown (se_current E) (na_tasks i) x (na_tasks i')"
  unfolding netana_get_last_error_def by (auto simp: answer_simps simp del: refuse_eq split: if_splits prod.splits)

lemma netana_show_drvvers_answers:
  "netana_show_drvvers E at i = Some (x, i') \<Longrightarrow> shown (se_current E) (na_tasks i) x (na_tasks i')"
  unfolding netana_show_drvvers_def by (auto simp: answer_simps simp del: refuse_eq split: if_splits prod.splits)

lemma netana_show_dma_buffercnt_answers:
  "netana_show_dma_buffercnt E at i = Some (x, i') \<Longrightarrow> shown (se_current E) (na_tasks i) x (na_tasks i')"
  unfolding netana_show_dma_buffercnt_def by (auto simp: answer_simps simp del: refuse_eq split: if_splits prod.splits)

lemma netana_show_dma_buffersize_answers:
  "netana_show_dma_buffersize E at i = Some (x, i') \<Longrightarrow> shown (se_current E) (na_tasks i) x (na_tasks i')"
  unfolding netana_show_dma_buffersize_def by (auto simp: answer_simps simp del: refuse_eq split: if_splits prod.splits)

lemma netana_get_device_class_answers:
  "netana_get_device_class E at i = Some (x, i') \<Longrightarrow> shown (se_current E) (na_tasks i) x (na_tasks i')"
  unfolding netana_get_device_class_def by (auto simp: answer_simps simp del: refuse_eq split: if_splits prod.splits)

lemma devstate_show_answers:
  "devstate_show E at i = Some (x, i') \<Longrightarrow> shown (se_current E) (na_tasks i) x (na_tasks i')"
  unfolding devstate_show_def by (auto simp: answer_simps simp del: refuse_eq split: if_splits prod.splits)

lemma devstate_show_poll_answers:
  "devstate_show_poll E at i = Some (x, i') \<Longrightarrow> shown (se_current E) (na_tasks i) x (na_tasks i')"
  unfolding devstate_show_poll_def by (auto simp: answer_simps simp del: refuse_eq split: if_splits prod.splits)

lemma devfeature_show_answers:
  "devfeature_show E at i = Some (x, i') \<Longrightarrow> shown (se_current E) (na_tasks i) x (na_tasks i')"
  unfolding devfeature_show_def by (auto simp: answer_simps simp del: refuse_eq split: if_splits prod.splits)

lemma netana_gpio_get_reg_val_answers:
  "netana_gpio_get_reg_val E at i = Some (x, i') \<Longrightarrow> shown (se_current E) (na_tasks i) x (na_tasks i')"
  unfolding netana_gpio_get_reg_val_def by (auto simp: answer_simps simp del: refuse_eq split: if_splits prod.splits)

lemma netana_get_gpiovoltage_answers:
  "netana_get_gpiovoltage E at i = Some (x, i') \<Longrightarrow> shown (se_current E) (na_tasks i) x (na_tasks i')"
  unfolding netana_get_gpiovoltage_def by (auto simp: answer_simps simp del: refuse_eq split: if_splits prod.splits)

lemma netana_port_get_reg_val_answers:
  "netana_port_get_reg_val E at i = Some (x, i') \<Longrightarrow> shown (se_current E) (na_tasks i) x (na_tasks i')"
  unfolding netana_port_get_reg_val_def by (auto simp: put_text_def shown_refused elim!: on_device_bindE split: if_split_asm)

lemma netana_phy_get_reg_val_answers:
  "netana_phy_get_reg_val E at i = Some (x, i') \<Longrightarrow> shown (se_current E) (na_tasks i) x (na_tasks i')"
  unfolding netana_phy_get_reg_val_def by (auto simp: put_text_def shown_refused elim!: on_device_bindE split: if_split_asm)

lemma get_relation_answers:
  "get_relation E at i = Some (x, i') \<Longrightarrow> shown (se_current E) (na_tasks i) x (na_tasks i')"
  unfolding get_relation_def by (auto simp: answer_simps simp del: refuse_eq split: if_splits prod.splits)

lemma netana_show_ident_info_answers:
  "netana_show_ident_info E at i = Some (x, i') \<Longrightarrow> shown (se_current E) (na_tasks i) x (na_tasks i')"
  unfolding netana_show_ident_info_def by (auto simp: answer_simps simp del: refuse_eq split: if_splits prod.splits)

lemma netana_read_mbx_status_answers:
  "netana_read_mbx_status E at i = Some (x, i') \<Longrightarrow> shown (se_current E) (na_tasks i) x (na_tasks i')"
  unfolding netana_read_mbx_status_def by (auto simp: answer_simps simp del: refuse_eq split: if_splits prod.splits)

lemma netana_set_device_class_answers:
  "netana_set_device_class E at buf i = Some (r, i') \<Longrightarrow> stored (se_current E) (na_tasks i) buf r (na_tasks i')"
  unfolding netana_set_device_class_def
  by (auto simp: stored_rejected Let_def elim!: on_device_bindE split: if_split_asm list.split_asm carg.split_asm prod.split_asm)

lemma fwerror_store_answers:
  "fwerror_store E at buf i = Some (r, i') \<Longrightarrow> stored (se_current E) (na_tasks i) buf r (na_tasks i')"
  unfolding fwerror_store_def
  by (auto simp: stored_rejected Let_def elim!: on_device_bindE split: if_split_asm list.split_asm carg.split_asm prod.split_asm)

lemma netana_store_gpio_mode_answers:
  "netana_store_gpio_mode E at buf i = Some (r, i') \<Longrightarrow> stored (se_current E) (na_tasks i) buf r (na_tasks i')"
  unfolding netana_store_gpio_mode_def
  by (auto simp: stored_rejected Let_def elim!: on_device_bindE split: if_split_asm list.split_asm carg.split_asm prod.split_asm)

lemma netana_store_gpio_level_answers:
  "netana_store_gpio_level E at buf i = Some (r, i') \<Longrightarrow> stored (se_current E) (na_tasks i) buf r (na_tasks i')"
  unfolding netana_store_gpio_level_def
  by (auto simp: stored_rejected Let_def elim!: on_device_bindE split: if_split_asm list.split_asm carg.split_asm prod.split_asm)

lemma netana_set_gpiovoltage_answers:
  "netana_set_gpiovoltage E at buf i = Some (r, i') \<Longrightarrow> stored (se_current E) (na_tasks i) buf r (na_tasks i')"
  unfolding netana_set_gpiovoltage_def
  by (auto simp: stored_rejected Let_def elim!: on_device_bindE split: if_split_asm list.split_asm carg.split_asm prod.split_asm)

lemma netana_phy_set_reg_val_answers:
  "netana_phy_set_reg_val E at buf i = Some (r, i') \<Longrightarrow> stored (se_current E) (na_tasks i) buf r (na_tasks i')"
  unfolding netana_phy_set_reg_val_def
  by (auto simp: stored_rejected Let_def elim!: on_device_bindE split: if_split_asm list.split_asm carg.split_asm prod.split_asm)

lemma set_filter_answers:
  "set_filter E at buf i = Some (r, i') \<Longrightarrow> stored (se_current E) (na_tasks i) buf r (na_tasks i')"
  unfolding set_filter_def
  by (auto simp: stored_rejected Let_def elim!: on_device_bindE split: if_split_asm list.split_asm carg.split_asm prod.split_asm)

lemma netana_blink_device_answers:
  "netana_blink_device E at buf i = Some (r, i') \<Longrightarrow> stored (se_current E) (na_tasks i) buf r (na_tasks i')"
  unfolding netana_blink_device_def
  by (auto simp: stored_rejected Let_def elim!: on_device_bindE split: if_split_asm list.split_asm carg.split_asm prod.split_asm)

lemma netana_pi_config_answers:
  "netana_pi_config E at buf i = Some (r, i') \<Longrightarrow> stored (se_current E) (na_tasks i) buf r (na_tasks i')"
  unfolding netana_pi_config_def
  by (auto simp: stored_rejected Let_def elim!: on_device_bindE split: if_split_asm list.split_asm carg.split_asm prod.split_asm)

lemma netana_time_config_answers:
  "netana_time_config E at buf i = Some (r, i') \<Longrightarrow> stored (se_current E) (na_tasks i) buf r (na_tasks i')"
  unfolding netana_time_config_def
  by (auto simp: stored_rejected Let_def elim!: on_device_bindE split: if_split_asm list.split_asm carg.split_asm prod.split_asm)

lemma netana_ident_update_answers:
  "netana_ident_update E at buf i = Some (r, i') \<Longrightarrow> stored (se_current E) (na_tasks i) buf r (na_tasks i')"
  unfolding netana_ident_update_def
  by (auto simp: stored_rejected Let_def bind_eq_Some_conv split: if_split_asm list.split_asm carg.split_asm prod.split_asm)

lemma netana_config_control_answers:
  "netana_config_control E at buf i = Some (r, i') \<Longrightarrow> stored (se_current E) (na_tasks i) buf r (na_tasks i')"
  unfolding netana_config_control_def
  by (auto simp: stored_rejected elim!: on_device_bindE split: if_split_asm list.split_asm carg.split_asm)

lemma netana_timeout_config_answers:
  "netana_timeout_config E at buf i = Some (r, i') \<Longrightarrow>
    (\<exists>t. sscanf buf ''%d'' = [W t] \<and> na_hdevice i \<and> r = int (length buf) \<and> i' = i\<lparr>na_tasks := store_timeout (se_current E) t (na_tasks i)\<rparr>) \<or>
    stored (se_current E) (na_tasks i) buf r (na_tasks i')"
  unfolding netana_timeout_config_def by (auto simp: stored_rejected split: if_split_asm list.split_asm carg.split_asm)

lemma netana_set_dsr_prio_answers:
  "netana_set_dsr_prio E at buf i = Some (r, i') \<Longrightarrow> r = - EINVAL \<and> i' = i \<or> r = int (length buf) \<and> na_tasks i' = na_tasks i"
  unfolding netana_set_dsr_prio_def netana_update_dsr_thread_prio_def
  by (auto split: if_split_asm list.split_asm carg.split_asm option.split_asm)

text \<open>The binary attributes: a read returns the number of bytes asked for, or fewer for the device
  information.\<close>

definition bin_shown :: "current \<Rightarrow> task_info list \<Rightarrow> nat \<Rightarrow> int \<Rightarrow> task_info list \<Rightarrow> bool" where
  "bin_shown c xs count r ys \<longleftrightarrow> (r = - EIO \<or> 0 \<le> r \<and> r \<le> int count) \<and> ys = xs \<or>
     r = - EPERM \<and> (\<exists>e. e \<noteq> NETANA_NO_ERROR \<and> ys = snd (store_err c e xs))"

lemma bin_shown_refused: "e \<noteq> 0 \<Longrightarrow> bin_shown c xs n (- EPERM) (snd (store_err c e xs))"
  by (auto simp: bin_shown_def)

lemma bin_shown_all [simp]: "r = - EIO \<or> 0 \<le> r \<and> r \<le> int n \<Longrightarrow> bin_shown c xs n r xs"
  by (auto simp: bin_shown_def)

lemma bin_read_answers:
  "show_device_info E off n i = Some ((r, b), i') \<Longrightarrow> bin_shown (se_current E) (na_tasks i) n r (na_tasks i')"
  "show_filter E k name off n i = Some ((r, b), i') \<Longrightarrow> bin_shown (se_current E) (na_tasks i) n r (na_tasks i')"
  "netana_read_ident E off n i = Some ((r, b), i') \<Longrightarrow> bin_shown (se_current E) (na_tasks i) n r (na_tasks i')"
  "netana_read_mbx_packet_bin E n i = Some ((r, b), i') \<Longrightarrow> bin_shown (se_current E) (na_tasks i) n r (na_tasks i')"
  subgoal
    unfolding show_device_info_def by (auto simp: bin_shown_refused Let_def split: if_split_asm prod.split_asm)
  subgoal
    unfolding show_filter_def Let_def by (auto simp: bin_shown_refused split: if_split_asm prod.split_asm)
  subgoal
    unfolding netana_read_ident_def by (auto simp: bin_shown_refused split: if_split_asm)
  subgoal
    unfolding netana_read_mbx_packet_bin_def
    by (auto simp: bin_shown_refused elim!: on_device_bindE split: if_split_asm)
  done

lemma bin_write_answers:
  "store_filter E name buf i = Some (r, i') \<Longrightarrow> stored (se_current E) (na_tasks i) buf r (na_tasks i')"
  "netana_write_ident E buf i = Some (r, i') \<Longrightarrow> stored (se_current E) (na_tasks i) buf r (na_tasks i')"
  "netana_write_mbx_packet_bin E buf i = Some (r, i') \<Longrightarrow> stored (se_current E) (na_tasks i) buf r (na_tasks i')"
  subgoal
    unfolding store_filter_def by (auto simp: stored_rejected Let_def split: if_split_asm)
  subgoal
    unfolding netana_write_ident_def by (auto simp: stored_rejected Let_def elim!: on_device_bindE split: if_split_asm)
  subgoal
    unfolding netana_write_mbx_packet_bin_def by (auto simp: stored_rejected elim!: on_device_bindE split: if_split_asm)
  done

end
