(* ===== verification/Sysfs_Tree.thy ===== *)
theory Sysfs_Tree
  imports Sysfs_Attributes
begin

text \<open>
  The tree of attributes below a device (\<open>netana_sysfs.c\<close>): the attribute definitions with their permissions
  and functions, the groups of the directories, and the directories with the number of their object.
  \<open>netana_attr_show\<close> and \<open>netana_attr_store\<close> lead from a file of the tree to its function.
\<close>

section \<open>Entries\<close>

abbreviation (input) S_IRUGO :: u16 where "S_IRUGO \<equiv> 0x124"
abbreviation (input) S_IWUSR :: u16 where "S_IWUSR \<equiv> 0x080"
abbreviation (input) S_IWGRP :: u16 where "S_IWGRP \<equiv> 0x010"

record netana_sysfs_entry =
  en_name :: string
  en_mode :: u16
  en_objnum :: u32
  en_show :: "show_fn option"
  en_store :: "store_fn option"

record netana_sysfs_entry_bin =
  eb_name :: string
  eb_mode :: u16
  eb_size :: nat
  eb_read :: "(sysfs_env \<Rightarrow> u32 \<Rightarrow> nat \<Rightarrow> nat \<Rightarrow> (ninfo, int \<times> bytes) proc) option"
  eb_write :: "(sysfs_env \<Rightarrow> u32 \<Rightarrow> nat \<Rightarrow> bytes \<Rightarrow> (ninfo, int) proc) option"

text \<open>The macro \<open>__ATTR\<close>.\<close>

definition attr_entry :: "string \<Rightarrow> u16 \<Rightarrow> show_fn option \<Rightarrow> store_fn option \<Rightarrow> netana_sysfs_entry" where
  "attr_entry name mode sh st = \<lparr>en_name = name, en_mode = mode, en_objnum = 0, en_show = sh, en_store = st\<rparr>"

definition drvinfo_dma_bufsiz :: netana_sysfs_entry where
  "drvinfo_dma_bufsiz = attr_entry ''dma_buffersize'' S_IRUGO (Some netana_show_dma_buffersize) None"

definition drvinfo_dma_bufcnt :: netana_sysfs_entry where
  "drvinfo_dma_bufcnt = attr_entry ''dma_buffercnt'' S_IRUGO (Some netana_show_dma_buffercnt) None"

definition drvinfo_show_drvver :: netana_sysfs_entry where
  "drvinfo_show_drvver = attr_entry ''driver_version'' S_IRUGO (Some netana_show_drvvers) None"

definition drvinfo_show_error :: netana_sysfs_entry where
  "drvinfo_show_error = attr_entry ''error'' S_IRUGO (Some netana_get_last_error) None"

definition drvinfo_dev_class :: netana_sysfs_entry where
  "drvinfo_dev_class = attr_entry ''device_class'' (S_IRUGO OR S_IWUSR OR S_IWGRP) (Some netana_get_device_class) (Some netana_set_device_class)"

definition drv_info_dsr_prio :: netana_sysfs_entry where
  "drv_info_dsr_prio = attr_entry ''dsr'' (S_IWUSR OR S_IWGRP) None (Some netana_set_dsr_prio)"

definition drvinfo_attrs :: "netana_sysfs_entry list" where
  "drvinfo_attrs = [drvinfo_dma_bufsiz, drvinfo_dma_bufcnt, drvinfo_show_drvver, drvinfo_show_error, drvinfo_dev_class, drv_info_dsr_prio]"

definition dev_ident_info :: netana_sysfs_entry where
  "dev_ident_info = attr_entry ''ident_info'' (S_IRUGO OR S_IWUSR OR S_IWGRP) (Some netana_show_ident_info) (Some netana_ident_update)"

definition device_ident_attrs :: "netana_sysfs_entry list" where
  "device_ident_attrs = [dev_ident_info]"

definition netana_dev_state :: netana_sysfs_entry where
  "netana_dev_state = attr_entry ''device_state'' S_IRUGO (Some devstate_show) None"

definition netana_dev_state_poll :: netana_sysfs_entry where
  "netana_dev_state_poll = attr_entry ''device_state_poll'' S_IRUGO (Some devstate_show_poll) None"

definition drvstate_attrs :: "netana_sysfs_entry list" where
  "drvstate_attrs = [netana_dev_state, netana_dev_state_poll]"

definition netana_dev_feature :: netana_sysfs_entry where
  "netana_dev_feature = attr_entry ''device_features'' S_IRUGO (Some devfeature_show) None"

definition devfeature_attrs :: "netana_sysfs_entry list" where
  "devfeature_attrs = [netana_dev_feature]"

definition netana_fw_error :: netana_sysfs_entry where
  "netana_fw_error = attr_entry ''fw_error'' (S_IRUGO OR S_IWUSR OR S_IWGRP) None (Some fwerror_store)"

definition fwerror_attrs :: "netana_sysfs_entry list" where
  "fwerror_attrs = [netana_fw_error]"

definition netana_dev_filterRel :: netana_sysfs_entry where
  "netana_dev_filterRel = attr_entry ''relation'' (S_IRUGO OR S_IWUSR OR S_IWGRP) (Some get_relation) (Some set_filter)"

definition filter_attrs :: "netana_sysfs_entry list" where
  "filter_attrs = [netana_dev_filterRel]"

definition gpio_status :: netana_sysfs_entry where
  "gpio_status = attr_entry ''status'' (S_IRUGO OR S_IWUSR OR S_IWGRP) (Some netana_gpio_get_reg_val) (Some netana_store_gpio_mode)"

definition gpio_level :: netana_sysfs_entry where
  "gpio_level = attr_entry ''level'' S_IWUSR None (Some netana_store_gpio_level)"

definition gpio_voltage_get :: netana_sysfs_entry where
  "gpio_voltage_get = attr_entry ''voltage'' S_IRUGO (Some netana_get_gpiovoltage) None"

definition gpio_attrs :: "netana_sysfs_entry list" where
  "gpio_attrs = [gpio_status, gpio_level, gpio_voltage_get]"

definition gpio_voltage_set :: netana_sysfs_entry where
  "gpio_voltage_set = attr_entry ''set_voltage'' (S_IRUGO OR S_IWUSR OR S_IWGRP) None (Some netana_set_gpiovoltage)"

definition gpio_voltage_attrs :: "netana_sysfs_entry list" where
  "gpio_voltage_attrs = [gpio_voltage_set]"

definition port_status :: netana_sysfs_entry where
  "port_status = attr_entry ''status'' S_IRUGO (Some netana_port_get_reg_val) None"

definition port_attrs :: "netana_sysfs_entry list" where
  "port_attrs = [port_status]"

text \<open>\<open>phy_regval0\<close> to \<open>phy_regval31\<close>, numbered by \<open>nasysfs_create_phy_dir\<close>.\<close>

definition phy_regval :: "nat \<Rightarrow> netana_sysfs_entry" where
  "phy_regval n = (attr_entry (''regval'' @ radix 10 n) (S_IRUGO OR S_IWUSR OR S_IWGRP)
     (Some netana_phy_get_reg_val) (Some netana_phy_set_reg_val))\<lparr>en_objnum := of_nat n\<rparr>"

definition phy_attrs :: "netana_sysfs_entry list" where
  "phy_attrs = map phy_regval [0..<32]"

definition netana_capture_control :: netana_sysfs_entry where
  "netana_capture_control = attr_entry ''control'' (S_IWUSR OR S_IWGRP) None (Some netana_config_control)"

definition capture_ctl_attrs :: "netana_sysfs_entry list" where
  "capture_ctl_attrs = [netana_capture_control]"

definition dev_cmd_blink :: netana_sysfs_entry where
  "dev_cmd_blink = attr_entry ''identify'' (S_IRUGO OR S_IWUSR OR S_IWGRP) None (Some netana_blink_device)"

definition blink_attrs :: "netana_sysfs_entry list" where
  "blink_attrs = [dev_cmd_blink]"

definition dev_pi_config :: netana_sysfs_entry where
  "dev_pi_config = attr_entry ''config'' (S_IWUSR OR S_IWGRP) None (Some netana_pi_config)"

definition pi_attrs :: "netana_sysfs_entry list" where
  "pi_attrs = [dev_pi_config]"

definition dev_time_config :: netana_sysfs_entry where
  "dev_time_config = attr_entry ''config'' (S_IWUSR OR S_IWGRP) None (Some netana_time_config)"

definition time_config_attrs :: "netana_sysfs_entry list" where
  "time_config_attrs = [dev_time_config]"

definition dev_timeout_config :: netana_sysfs_entry where
  "dev_timeout_config = attr_entry ''config'' (S_IWUSR OR S_IWGRP) None (Some netana_timeout_config)"

definition timeout_config_attrs :: "netana_sysfs_entry list" where
  "timeout_config_attrs = [dev_timeout_config]"

definition dev_mailbox_status :: netana_sysfs_entry where
  "dev_mailbox_status = attr_entry ''status'' S_IRUGO (Some netana_read_mbx_status) None"

definition mailbox_attrs :: "netana_sysfs_entry list" where
  "mailbox_attrs = [dev_mailbox_status]"

section \<open>Binary entries\<close>

definition dev_info :: netana_sysfs_entry_bin where
  "dev_info = \<lparr>eb_name = ''device_info'', eb_mode = S_IRUGO, eb_size = SIZEOF_DEVICE_INFORMATION,
     eb_read = Some (\<lambda>E objnum. show_device_info E), eb_write = None\<rparr>"

definition ident_bin :: netana_sysfs_entry_bin where
  "ident_bin = \<lparr>eb_name = ''ident_check'', eb_mode = S_IRUGO OR S_IWUSR OR S_IWGRP, eb_size = unat IDENT_INFO_BLOCK_SIZE,
     eb_read = Some (\<lambda>E objnum. netana_read_ident E), eb_write = Some (\<lambda>E objnum off. netana_write_ident E)\<rparr>"

text \<open>\<open>nasysfs_create_filter_dir\<close> sets the size to that of the filters of the device.\<close>

definition filter_bin :: "nat \<Rightarrow> string \<Rightarrow> netana_sysfs_entry_bin" where
  "filter_bin fsize name = \<lparr>eb_name = name, eb_mode = S_IRUGO OR S_IWUSR OR S_IWGRP, eb_size = fsize,
     eb_read = Some (\<lambda>E objnum. show_filter E objnum name), eb_write = Some (\<lambda>E objnum off. store_filter E name)\<rparr>"

definition filter_bin_attr :: "nat \<Rightarrow> netana_sysfs_entry_bin list" where
  "filter_bin_attr fsize = map (filter_bin fsize) [''vala'', ''maska'', ''valb'', ''maskb'']"

definition mailbox_bin_attr :: netana_sysfs_entry_bin where
  "mailbox_bin_attr = \<lparr>eb_name = ''mailbox'', eb_mode = S_IRUGO OR S_IWUSR OR S_IWGRP, eb_size = 0,
     eb_read = Some (\<lambda>E objnum off. netana_read_mbx_packet_bin E), eb_write = Some (\<lambda>E objnum off. netana_write_mbx_packet_bin E)\<rparr>"

section \<open>Directories\<close>

text \<open>A directory: its path below the device, the number of its object, and its files.\<close>

record netana_sysfs_dir =
  sd_path :: string
  sd_objnum :: u32
  sd_attrs :: "netana_sysfs_entry list"
  sd_bins :: "netana_sysfs_entry_bin list"

definition plain_dir :: "string \<Rightarrow> netana_sysfs_entry list \<Rightarrow> netana_sysfs_entry_bin list \<Rightarrow> netana_sysfs_dir" where
  "plain_dir path xs bs = \<lparr>sd_path = path, sd_objnum = 0, sd_attrs = xs, sd_bins = bs\<rparr>"

text \<open>A group \<open><path>0\<close>, \<open><path>1\<close>, ... of directories.\<close>

definition numbered :: "string \<Rightarrow> nat \<Rightarrow> netana_sysfs_entry list \<Rightarrow> netana_sysfs_entry_bin list \<Rightarrow> netana_sysfs_dir list" where
  "numbered path cnt xs bs = map (\<lambda>n. \<lparr>sd_path = path @ radix 10 n, sd_objnum = of_nat n, sd_attrs = xs, sd_bins = bs\<rparr>) [0..<cnt]"

text \<open>What \<open>netana_create_sysfsentries\<close> and \<open>netana_create_dma\<close> create, without the directories of the
  DMA buffers; the filters are counted by the GPIOs.\<close>

definition sysfs_dirs :: "devinst \<Rightarrow> netana_sysfs_dir list" where
  "sysfs_dirs d = (let ports = unat (ulPortCnt d); cnt = unat (ulGpioCnt d); fsize = unat (ulFilterSize d) in
     [plain_dir ''driver_information/driver_information'' drvinfo_attrs [],
      plain_dir ''device_information/ident_info'' device_ident_attrs [ident_bin],
      plain_dir ''device_information/device_state'' drvstate_attrs [],
      plain_dir ''device_information/device_info'' [] [dev_info],
      plain_dir ''device_information/device_features'' devfeature_attrs [],
      plain_dir ''fw'' fwerror_attrs [],
      plain_dir ''device_control/capture_control'' capture_ctl_attrs [],
      plain_dir ''device_control/exec_cmd'' blink_attrs [],
      plain_dir ''device_control/pi'' pi_attrs [],
      plain_dir ''device_control/time'' time_config_attrs [],
      plain_dir ''device_control/mailbox'' mailbox_attrs [mailbox_bin_attr],
      plain_dir ''device_config/timeout'' timeout_config_attrs []] @
     (if cnt > 0 then [plain_dir ''hw_resources/gpio/voltage'' gpio_voltage_attrs []] else []) @
     numbered ''hw_resources/filter/filter'' cnt filter_attrs (filter_bin_attr fsize) @
     numbered ''hw_resources/gpio/gpio'' cnt gpio_attrs [] @
     numbered ''hw_resources/port/port'' ports port_attrs [] @
     numbered ''hw_resources/phy/phy'' ports phy_attrs [])"

section \<open>From a file to its function\<close>

definition netana_attr_show :: "netana_sysfs_dir \<Rightarrow> netana_sysfs_entry \<Rightarrow> sysfs_env \<Rightarrow> (ninfo, int \<times> string) proc" where
  "netana_attr_show dir attr E i =
     (case en_show attr of
        Some sh \<Rightarrow> sh E \<lparr>ai_objnum = sd_objnum dir, ai_devnum = en_objnum attr\<rparr> i
      | None \<Rightarrow> Some ((- EIO, []), i))"

definition netana_attr_store :: "netana_sysfs_dir \<Rightarrow> netana_sysfs_entry \<Rightarrow> sysfs_env \<Rightarrow> string \<Rightarrow> (ninfo, int) proc" where
  "netana_attr_store dir attr E buf i =
     (case en_store attr of
        Some st \<Rightarrow> st E \<lparr>ai_objnum = sd_objnum dir, ai_devnum = en_objnum attr\<rparr> buf i
      | None \<Rightarrow> Some (- EIO, i))"

text \<open>The file with a path: its directory is what stands before the last slash.\<close>

definition dirname :: "string \<Rightarrow> string" where
  "dirname path = rev (tl (dropWhile (\<lambda>c. c \<noteq> CHR ''/'') (rev path)))"

definition basename :: "string \<Rightarrow> string" where
  "basename path = rev (takeWhile (\<lambda>c. c \<noteq> CHR ''/'') (rev path))"

definition find_attr :: "devinst \<Rightarrow> string \<Rightarrow> (netana_sysfs_dir \<times> netana_sysfs_entry) option" where
  "find_attr d path =
     (case find (\<lambda>dir. sd_path dir = dirname path) (sysfs_dirs d) of
        None \<Rightarrow> None
      | Some dir \<Rightarrow> map_option (Pair dir) (find (\<lambda>x. en_name x = basename path) (sd_attrs dir)))"

definition find_bin :: "devinst \<Rightarrow> string \<Rightarrow> (netana_sysfs_dir \<times> netana_sysfs_entry_bin) option" where
  "find_bin d path =
     (case find (\<lambda>dir. sd_path dir = dirname path) (sysfs_dirs d) of
        None \<Rightarrow> None
      | Some dir \<Rightarrow> map_option (Pair dir) (find (\<lambda>x. eb_name x = basename path) (sd_bins dir)))"

section \<open>The protocol of the last error\<close>

text \<open>What a call leaves for the threads: a result of \<open>-EPERM\<close> comes with an error for the calling thread,
  any other leaves its last error alone, and no call touches the error of another thread.\<close>

definition error_protocol :: "current \<Rightarrow> int \<Rightarrow> task_info list \<Rightarrow> task_info list \<Rightarrow> bool" where
  "error_protocol c r xs ys \<longleftrightarrow> tasks_ok ys \<and> (\<forall>p. p \<noteq> cu_pid c \<longrightarrow> err_of p ys = err_of p xs) \<and>
     (if r = - EPERM then cu_kzalloc c \<longrightarrow> get_err c ys \<noteq> NETANA_NO_ERROR else get_err c ys = get_err c xs)"

lemma protocol_refl: "tasks_ok xs \<Longrightarrow> r \<noteq> - EPERM \<Longrightarrow> error_protocol c r xs xs"
  by (simp add: error_protocol_def)

lemma protocol_error: "tasks_ok xs \<Longrightarrow> e \<noteq> 0 \<Longrightarrow> error_protocol c (- EPERM) xs (snd (store_err c e xs))"
  using task_step_ok[of xs "Store_Err c e"] err_step[of _ "Store_Err c e" xs]
  by (auto simp: error_protocol_def get_err_of)

lemma protocol_timeout: "tasks_ok xs \<Longrightarrow> r \<noteq> - EPERM \<Longrightarrow> error_protocol c r xs (store_timeout c t xs)"
  using task_step_ok[of xs "Store_Timeout c t"] err_step[of _ "Store_Timeout c t" xs]
  by (auto simp: error_protocol_def get_err_of)

lemma shown_protocol: "tasks_ok xs \<Longrightarrow> shown c xs x ys \<Longrightarrow> error_protocol c (fst x) xs ys \<and> (fst x = int (length (snd x)) \<or> fst x = - EPERM)"
  by (cases x) (auto simp: shown_def protocol_refl protocol_error)

lemma stored_protocol: "tasks_ok xs \<Longrightarrow> stored c xs buf r ys \<Longrightarrow> error_protocol c r xs ys \<and> (r = int (length buf) \<or> r = - EPERM)"
  by (auto simp: stored_def protocol_refl protocol_error)

lemma bin_shown_protocol:
  "tasks_ok xs \<Longrightarrow> bin_shown c xs n r ys \<Longrightarrow> error_protocol c r xs ys \<and> (r = - EIO \<or> r = - EPERM \<or> 0 \<le> r \<and> r \<le> int n)"
  by (auto simp: bin_shown_def protocol_refl protocol_error)

text \<open>An entry whose functions keep to the protocol.\<close>

definition show_ok :: "show_fn \<Rightarrow> bool" where
  "show_ok f \<longleftrightarrow> (\<forall>E at i x i'. f E at i = Some (x, i') \<longrightarrow> shown (se_current E) (na_tasks i) x (na_tasks i'))"

definition store_ok :: "int set \<Rightarrow> store_fn \<Rightarrow> bool" where
  "store_ok extra f \<longleftrightarrow> (\<forall>E at buf i r i'. f E at buf i = Some (r, i') \<longrightarrow> tasks_ok (na_tasks i) \<longrightarrow>
     error_protocol (se_current E) r (na_tasks i) (na_tasks i') \<and> r \<in> {int (length buf), - EPERM} \<union> extra)"

text \<open>The priority of the DSR is the only attribute with an error of its own.\<close>

definition own_errors :: "netana_sysfs_entry \<Rightarrow> int set" where
  "own_errors x = (if en_name x = ''dsr'' then {- EINVAL} else {})"

definition entry_ok :: "netana_sysfs_entry \<Rightarrow> bool" where
  "entry_ok x \<longleftrightarrow> pred_option show_ok (en_show x) \<and> pred_option (store_ok (own_errors x)) (en_store x)"

lemma show_oks [simp]:
  "show_ok netana_get_last_error" "show_ok netana_show_drvvers" "show_ok netana_show_dma_buffercnt" "show_ok
  netana_show_dma_buffersize" "show_ok netana_get_device_class" "show_ok devstate_show" "show_ok
  devstate_show_poll" "show_ok devfeature_show" "show_ok netana_gpio_get_reg_val" "show_ok
  netana_get_gpiovoltage" "show_ok netana_port_get_reg_val" "show_ok netana_phy_get_reg_val" "show_ok
  get_relation" "show_ok netana_show_ident_info" "show_ok netana_read_mbx_status"
  unfolding show_ok_def
  by (blast intro: netana_get_last_error_answers netana_show_drvvers_answers netana_show_dma_buffercnt_answers
      netana_show_dma_buffersize_answers netana_get_device_class_answers devstate_show_answers
      devstate_show_poll_answers devfeature_show_answers netana_gpio_get_reg_val_answers
      netana_get_gpiovoltage_answers netana_port_get_reg_val_answers netana_phy_get_reg_val_answers
      get_relation_answers netana_show_ident_info_answers netana_read_mbx_status_answers)+

lemma store_okI: "(\<And>E at buf i r i'. f E at buf i = Some (r, i') \<Longrightarrow> stored (se_current E) (na_tasks i) buf r (na_tasks i')) \<Longrightarrow> store_ok X f"
  by (simp add: store_ok_def) (use stored_protocol in blast)

lemma timeout_store_ok [simp]: "store_ok X netana_timeout_config"
proof -
  have "error_protocol (se_current E) r (na_tasks i) (na_tasks i') \<and> r \<in> {int (length buf), - EPERM}"
    if "netana_timeout_config E at buf i = Some (r, i')" "tasks_ok (na_tasks i)" for E at buf i r i'
    using netana_timeout_config_answers[OF that(1)] stored_protocol[OF that(2)] protocol_timeout[OF that(2), of "int (length buf)"]
    by auto
  then show ?thesis
    unfolding store_ok_def by blast
qed

lemma dsr_store_ok [simp]: "store_ok {- EINVAL} netana_set_dsr_prio"
  unfolding store_ok_def using netana_set_dsr_prio_answers protocol_refl by fastforce

lemma store_oks [simp]:
  "store_ok X netana_set_device_class" "store_ok X fwerror_store" "store_ok X netana_store_gpio_mode"
  "store_ok X netana_store_gpio_level" "store_ok X netana_set_gpiovoltage" "store_ok X netana_phy_set_reg_val"
  "store_ok X set_filter" "store_ok X netana_blink_device" "store_ok X netana_pi_config"
  "store_ok X netana_time_config"
  "store_ok X netana_ident_update" "store_ok X netana_config_control"
  by (rule store_okI; blast intro: netana_set_device_class_answers fwerror_store_answers netana_store_gpio_mode_answers
      netana_store_gpio_level_answers netana_set_gpiovoltage_answers netana_phy_set_reg_val_answers
      set_filter_answers netana_blink_device_answers netana_pi_config_answers netana_time_config_answers
      netana_ident_update_answers netana_config_control_answers)+

lemma entry_ok_attr [simp]: "entry_ok (attr_entry n m sh st) \<longleftrightarrow> pred_option show_ok sh \<and>
    pred_option (store_ok (if n = ''dsr'' then {- EINVAL} else {})) st"
  by (simp add: entry_ok_def own_errors_def attr_entry_def)

lemma entry_ok_phy [simp]: "entry_ok (phy_regval n)"
  by (simp add: phy_regval_def entry_ok_def attr_entry_def)

lemmas entry_defs = drvinfo_dma_bufsiz_def drvinfo_dma_bufcnt_def drvinfo_show_drvver_def
  drvinfo_show_error_def drvinfo_dev_class_def drv_info_dsr_prio_def dev_ident_info_def
  netana_dev_state_def netana_dev_state_poll_def netana_dev_feature_def netana_fw_error_def
  netana_dev_filterRel_def gpio_status_def gpio_level_def gpio_voltage_get_def gpio_voltage_set_def
  port_status_def netana_capture_control_def dev_cmd_blink_def dev_pi_config_def dev_time_config_def
  dev_timeout_config_def dev_mailbox_status_def

lemmas attrs_defs = entry_defs drvinfo_attrs_def device_ident_attrs_def drvstate_attrs_def devfeature_attrs_def fwerror_attrs_def
  filter_attrs_def gpio_attrs_def gpio_voltage_attrs_def port_attrs_def phy_attrs_def capture_ctl_attrs_def blink_attrs_def
  pi_attrs_def time_config_attrs_def timeout_config_attrs_def mailbox_attrs_def

text \<open>What holds for the directories of every group holds for the tree.\<close>

lemma numbered_all: "(\<And>n. P \<lparr>sd_path = path @ radix 10 n, sd_objnum = of_nat n, sd_attrs = xs, sd_bins = bs\<rparr>) \<Longrightarrow>
    list_all P (numbered path cnt xs bs)"
  by (simp add: numbered_def list_all_iff)

lemma entries_ok: "list_all (\<lambda>dir. list_all entry_ok (sd_attrs dir)) (sysfs_dirs d)"
  by (simp add: sysfs_dirs_def Let_def plain_dir_def numbered_all attrs_defs list_all_iff[of entry_ok "map phy_regval _"])

text \<open>The same for a binary entry: \<open>n\<close> bytes are asked for.\<close>

type_synonym read_fn = "sysfs_env \<Rightarrow> u32 \<Rightarrow> nat \<Rightarrow> nat \<Rightarrow> (ninfo, int \<times> bytes) proc"
type_synonym write_fn = "sysfs_env \<Rightarrow> u32 \<Rightarrow> nat \<Rightarrow> bytes \<Rightarrow> (ninfo, int) proc"

definition read_ok :: "read_fn \<Rightarrow> bool" where
  "read_ok f \<longleftrightarrow> (\<forall>E k off n i r b i'. f E k off n i = Some ((r, b), i') \<longrightarrow> tasks_ok (na_tasks i) \<longrightarrow>
     (r = - EPERM \<or> 0 \<le> r \<and> r \<le> int n) \<and> error_protocol (se_current E) r (na_tasks i) (na_tasks i'))"

definition write_ok :: "write_fn \<Rightarrow> bool" where
  "write_ok f \<longleftrightarrow> (\<forall>E k off buf i r i'. f E k off buf i = Some (r, i') \<longrightarrow> tasks_ok (na_tasks i) \<longrightarrow>
     r \<in> {int (length buf), - EPERM} \<and> error_protocol (se_current E) r (na_tasks i) (na_tasks i'))"

definition bin_ok :: "netana_sysfs_entry_bin \<Rightarrow> bool" where
  "bin_ok x \<longleftrightarrow> pred_option read_ok (eb_read x) \<and> pred_option write_ok (eb_write x)"

lemma read_okI:
  assumes "\<And>E k off n i r b i'. f E k off n i = Some ((r, b), i') \<Longrightarrow> bin_shown (se_current E) (na_tasks i) n r (na_tasks i')"
    and "\<And>E k off n i r b i'. f E k off n i = Some ((r, b), i') \<Longrightarrow> r \<noteq> - EIO"
  shows "read_ok f"
  unfolding read_ok_def
proof (intro allI impI)
  fix E k off n i r b i'
  assume f: "f E k off n i = Some ((r, b), i')" and t: "tasks_ok (na_tasks i)"
  show "(r = - EPERM \<or> 0 \<le> r \<and> r \<le> int n) \<and> error_protocol (se_current E) r (na_tasks i) (na_tasks i')"
    using bin_shown_protocol[OF t assms(1)[OF f]] assms(2)[OF f] by blast
qed

lemma write_okI:
  assumes "\<And>E k off buf i r i'. f E k off buf i = Some (r, i') \<Longrightarrow> stored (se_current E) (na_tasks i) buf r (na_tasks i')"
  shows "write_ok f"
  unfolding write_ok_def using stored_protocol assms by blast

lemma bin_read_data:
  "show_device_info E off n i = Some ((r, b), i') \<Longrightarrow> r \<noteq> - EIO"
  "netana_read_ident E off n i = Some ((r, b), i') \<Longrightarrow> r \<noteq> - EIO"
  "netana_read_mbx_packet_bin E n i = Some ((r, b), i') \<Longrightarrow> r \<noteq> - EIO"
  "name \<in> {''vala'', ''maska'', ''valb'', ''maskb''} \<Longrightarrow> show_filter E k name off n i = Some ((r, b), i') \<Longrightarrow> r \<noteq> - EIO"
     apply (auto simp: show_device_info_def Let_def split: if_split_asm prod.split_asm)[1]
    apply (auto simp: netana_read_ident_def split: if_split_asm)[1]
   apply (auto simp: netana_read_mbx_packet_bin_def elim!: on_device_bindE split: if_split_asm)[1]
  apply (auto simp: show_filter_def Let_def split: if_split_asm prod.split_asm)
  done

lemma bin_oks [simp]: "bin_ok dev_info" "bin_ok ident_bin" "bin_ok mailbox_bin_attr"
  "name \<in> {''vala'', ''maska'', ''valb'', ''maskb''} \<Longrightarrow> bin_ok (filter_bin z name)"
proof -
  show "bin_ok dev_info" "bin_ok ident_bin" "bin_ok mailbox_bin_attr"
    unfolding bin_ok_def dev_info_def ident_bin_def mailbox_bin_attr_def
    by (simp_all) (blast intro: read_okI write_okI bin_read_answers bin_write_answers bin_read_data dest: bin_read_data)+
  assume n: "name \<in> {''vala'', ''maska'', ''valb'', ''maskb''}"
  have "read_ok (\<lambda>E objnum. show_filter E objnum name)"
    by (rule read_okI[OF bin_read_answers(2) bin_read_data(4)[OF n]])
  moreover have "write_ok (\<lambda>E objnum off. store_filter E name)"
    by (rule write_okI[OF bin_write_answers(1)])
  ultimately show "bin_ok (filter_bin z name)"
    by (simp add: bin_ok_def filter_bin_def)
qed

lemma bins_ok: "list_all (\<lambda>dir. list_all bin_ok (sd_bins dir)) (sysfs_dirs d)"
  by (simp add: sysfs_dirs_def Let_def plain_dir_def numbered_all filter_bin_attr_def)

section \<open>A device which is not open\<close>

text \<open>The directories whose files do not need the handle of the device.\<close>

definition without_handle :: "netana_sysfs_dir \<Rightarrow> bool" where
  "without_handle dir \<longleftrightarrow> sd_path dir \<in> {''driver_information/driver_information'', ''device_control/exec_cmd'',
     ''device_information/device_info''}"

definition checks_show :: "show_fn \<Rightarrow> bool" where
  "checks_show f \<longleftrightarrow> (\<forall>E at i. \<not> na_hdevice i \<longrightarrow> f E at i = refuse E NETANA_INVALID_HANDLE i)"

definition checks_store :: "store_fn \<Rightarrow> bool" where
  "checks_store f \<longleftrightarrow> (\<forall>E at buf i. \<not> na_hdevice i \<longrightarrow> f E at buf i = reject E NETANA_INVALID_HANDLE i)"

definition entry_checks :: "netana_sysfs_entry \<Rightarrow> bool" where
  "entry_checks x \<longleftrightarrow> pred_option checks_show (en_show x) \<and> pred_option checks_store (en_store x)"

lemma checks_shows [simp]:
  "checks_show devstate_show" "checks_show devstate_show_poll" "checks_show devfeature_show" "checks_show netana_gpio_get_reg_val"
  "checks_show netana_get_gpiovoltage" "checks_show netana_port_get_reg_val" "checks_show netana_phy_get_reg_val"
  "checks_show get_relation" "checks_show netana_show_ident_info" "checks_show netana_read_mbx_status"
  by (simp_all add: checks_show_def devstate_show_def devstate_show_poll_def devfeature_show_def netana_gpio_get_reg_val_def
      netana_get_gpiovoltage_def netana_port_get_reg_val_def netana_phy_get_reg_val_def get_relation_def
      netana_show_ident_info_def netana_read_mbx_status_def)

lemma checks_stores [simp]:
  "checks_store fwerror_store" "checks_store netana_store_gpio_mode" "checks_store netana_store_gpio_level"
  "checks_store netana_set_gpiovoltage" "checks_store netana_phy_set_reg_val" "checks_store set_filter"
  "checks_store netana_config_control" "checks_store netana_pi_config" "checks_store netana_time_config"
  "checks_store netana_timeout_config" "checks_store netana_ident_update"
  by (simp_all add: checks_store_def fwerror_store_def netana_store_gpio_mode_def netana_store_gpio_level_def
      netana_set_gpiovoltage_def netana_phy_set_reg_val_def set_filter_def netana_config_control_def netana_pi_config_def
      netana_time_config_def netana_timeout_config_def netana_ident_update_def)

lemma entry_checks_attr [simp]: "entry_checks (attr_entry n m sh st) \<longleftrightarrow> pred_option checks_show sh \<and> pred_option checks_store st"
  by (simp add: entry_checks_def attr_entry_def)

lemma entry_checks_phy [simp]: "entry_checks (phy_regval n)"
  by (simp add: phy_regval_def entry_checks_def attr_entry_def)

lemma entries_check: "list_all (\<lambda>dir. without_handle dir \<or> list_all entry_checks (sd_attrs dir)) (sysfs_dirs d)"
  by (simp add: sysfs_dirs_def Let_def plain_dir_def numbered_all attrs_defs without_handle_def list_all_iff[of entry_checks "map phy_regval _"])

definition bin_checks :: "netana_sysfs_entry_bin \<Rightarrow> bool" where
  "bin_checks x \<longleftrightarrow>
     pred_option (\<lambda>f. \<forall>E k off n i. \<not> na_hdevice i \<longrightarrow> f E k off n i = refuse E NETANA_INVALID_HANDLE i) (eb_read x) \<and>
     pred_option (\<lambda>f. \<forall>E k off buf i. \<not> na_hdevice i \<longrightarrow> f E k off buf i = reject E NETANA_INVALID_HANDLE i) (eb_write x)"

lemma bins_check: "list_all (\<lambda>dir. without_handle dir \<or> list_all bin_checks (sd_bins dir)) (sysfs_dirs d)"
proof -
  have "bin_checks ident_bin" "bin_checks mailbox_bin_attr" "bin_checks (filter_bin z name)" for z name
    by (simp_all add: bin_checks_def ident_bin_def mailbox_bin_attr_def filter_bin_def netana_read_ident_def netana_write_ident_def
        netana_read_mbx_packet_bin_def netana_write_mbx_packet_bin_def show_filter_def store_filter_def)
  then show ?thesis
    by (simp add: sysfs_dirs_def Let_def plain_dir_def numbered_all filter_bin_attr_def without_handle_def)
qed

section \<open>The answers of the attributes\<close>

text \<open>What is left by a refusal: the error of the calling thread.\<close>

definition refused :: "sysfs_env \<Rightarrow> ninfo \<Rightarrow> ninfo" where
  "refused E i = i\<lparr>na_tasks := snd (store_err (se_current E) NETANA_INVALID_HANDLE (na_tasks i))\<rparr>"

lemma text_answers:
  assumes "dir \<in> set (sysfs_dirs d)" "attr \<in> set (sd_attrs dir)" "tasks_ok (na_tasks i)"
  shows "netana_attr_show dir attr E i = Some ((r, t), i') \<Longrightarrow>
      r \<in> {int (length t), - EPERM} \<union> (if en_show attr = None then {- EIO} else {}) \<and>
      error_protocol (se_current E) r (na_tasks i) (na_tasks i')"
    and "netana_attr_store dir attr E buf i = Some (r, i') \<Longrightarrow>
      r \<in> {int (length buf), - EPERM} \<union> (if en_name attr = ''dsr'' then {- EINVAL} else {}) \<union>
        (if en_store attr = None then {- EIO} else {}) \<and>
      error_protocol (se_current E) r (na_tasks i) (na_tasks i')"
    and "\<not> na_hdevice i \<Longrightarrow> \<not> without_handle dir \<Longrightarrow>
      (en_show attr \<noteq> None \<longrightarrow> netana_attr_show dir attr E i = Some ((- EPERM, []), refused E i)) \<and>
      (en_store attr \<noteq> None \<longrightarrow> netana_attr_store dir attr E buf i = Some (- EPERM, refused E i))"
proof -
  have ok: "entry_ok attr"
    using entries_ok[of d] assms by (simp add: list_all_iff)
  show "r \<in> {int (length t), - EPERM} \<union> (if en_show attr = None then {- EIO} else {}) \<and>
      error_protocol (se_current E) r (na_tasks i) (na_tasks i')" if "netana_attr_show dir attr E i = Some ((r, t), i')"
    using that ok shown_protocol[OF assms(3)] protocol_refl[OF assms(3)]
    by (fastforce simp: netana_attr_show_def entry_ok_def show_ok_def split: option.split_asm)
  show "r \<in> {int (length buf), - EPERM} \<union> (if en_name attr = ''dsr'' then {- EINVAL} else {}) \<union>
        (if en_store attr = None then {- EIO} else {}) \<and>
      error_protocol (se_current E) r (na_tasks i) (na_tasks i')" if "netana_attr_store dir attr E buf i = Some (r, i')"
    using that ok assms(3) protocol_refl[OF assms(3)]
    by (fastforce simp: netana_attr_store_def entry_ok_def store_ok_def own_errors_def split: option.split_asm)
  show "(en_show attr \<noteq> None \<longrightarrow> netana_attr_show dir attr E i = Some ((- EPERM, []), refused E i)) \<and>
      (en_store attr \<noteq> None \<longrightarrow> netana_attr_store dir attr E buf i = Some (- EPERM, refused E i))"
    if "\<not> na_hdevice i" "\<not> without_handle dir"
  proof -
    have "entry_checks attr"
      using entries_check[of d] assms that by (auto simp only: list_all_iff)
    then show ?thesis
      using that(1) by (auto simp: entry_checks_def checks_show_def checks_store_def netana_attr_show_def netana_attr_store_def refused_def)
  qed
qed

lemma bin_answers:
  assumes "dir \<in> set (sysfs_dirs d)" "attr \<in> set (sd_bins dir)" "tasks_ok (na_tasks i)"
  shows "eb_read attr = Some f \<Longrightarrow> f E k off n i = Some ((r, b), i') \<Longrightarrow>
      (r = - EPERM \<or> 0 \<le> r \<and> r \<le> int n) \<and> error_protocol (se_current E) r (na_tasks i) (na_tasks i')"
    and "eb_write attr = Some g \<Longrightarrow> g E k off bs i = Some (r, i') \<Longrightarrow>
      r \<in> {int (length bs), - EPERM} \<and> error_protocol (se_current E) r (na_tasks i) (na_tasks i')"
    and "\<not> na_hdevice i \<Longrightarrow> \<not> without_handle dir \<Longrightarrow> eb_read attr = Some f \<Longrightarrow> f E k off n i = Some ((- EPERM, []), refused E i)"
    and "\<not> na_hdevice i \<Longrightarrow> \<not> without_handle dir \<Longrightarrow> eb_write attr = Some g \<Longrightarrow> g E k off bs i = Some (- EPERM, refused E i)"
proof -
  have ok: "bin_ok attr" "\<not> without_handle dir \<Longrightarrow> bin_checks attr"
    using bins_ok[of d] bins_check[of d] assms by (auto simp only: list_all_iff)
  have r: "read_ok f" if "eb_read attr = Some f"
    using ok(1) that by (simp add: bin_ok_def)
  have w: "write_ok g" if "eb_write attr = Some g"
    using ok(1) that by (simp add: bin_ok_def)
  show "(r = - EPERM \<or> 0 \<le> r \<and> r \<le> int n) \<and> error_protocol (se_current E) r (na_tasks i) (na_tasks i')"
    if "eb_read attr = Some f" "f E k off n i = Some ((r, b), i')"
    using r[OF that(1), unfolded read_ok_def] that(2) assms(3) by blast
  show "r \<in> {int (length bs), - EPERM} \<and> error_protocol (se_current E) r (na_tasks i) (na_tasks i')"
    if "eb_write attr = Some g" "g E k off bs i = Some (r, i')"
    using w[OF that(1), unfolded write_ok_def] that(2) assms(3) by blast
  show "f E k off n i = Some ((- EPERM, []), refused E i)" if "\<not> na_hdevice i" "\<not> without_handle dir" "eb_read attr = Some f"
    using ok(2)[OF that(2)] that by (simp add: bin_checks_def refused_def)
  show "g E k off bs i = Some (- EPERM, refused E i)" if "\<not> na_hdevice i" "\<not> without_handle dir" "eb_write attr = Some g"
    using ok(2)[OF that(2)] that by (simp add: bin_checks_def refused_def)
qed


text \<open>A device of the sample data as the module has opened it, for thread 8 of process 7.\<close>

definition sample_ninfo :: ninfo where
  "sample_ninfo = \<lparr>na_tk = sample_kit, na_card = 1, na_minor = 0, na_hdevice = True, na_addsucceded = True,
     na_maska = replicate 4 0, na_vala = replicate 4 0, na_maskb = replicate 4 0, na_valb = replicate 4 0,
     na_identinfoblock = replicate 30 0, na_tasks = [],
     na_k = \<lparr>ki_notify_interrupts = False, ki_captureactive = False, ki_statuscallback = False, ki_data_read_sig = False,
       ki_data_event_counter = 0, ki_data_read_counter = 0, ki_status_read_sig = False, ki_status_event_counter = 0,
       ki_status_read_counter = 0, ki_data = None, ki_datalen = 0, ki_buffervalid = False\<rparr>,
     na_dsrthread = Some (Sched_Normal 0)\<rparr>"

text \<open>The Linux port, with no device that asked for a file name.\<close>

definition sample_linux :: linux_port where
  "sample_linux = \<lparr>lp_pdeviceinstance = None, lp_resumephase = False, lp_bl_copy = 0, lp_fw_copy = 0,
     lp_request_firmware = (\<lambda>name fs. (0, fs)), lp_release_firmware = (\<lambda>h fs. fs)\<rparr>"

definition sample_env :: sysfs_env where
  "sample_env = \<lparr>se_current = \<lparr>cu_pid = 8, cu_leader = 7, cu_kzalloc = True\<rparr>, se_ops = linux_ops sample_linux, se_cfg = sample_config,
     se_alloc = sample_alloc, se_port = sample_port, se_dev_env = flash_env, se_mutex = True, se_kmalloc = True,
     se_kzalloc = (True, True), se_heap = [], se_page = replicate 4096 0\<rparr>"


end
