(* ===== verification/Lib_Calls.thy ===== *)
theory Lib_Calls
  imports Sysfs_Tree Lib_Capture
begin

text \<open>
  The calls of the library (\<open>libnetana/netana_functions.c\<close>). The library turns a call of the API into an
  access to an attribute of the device, prints the parameters and scans the results; when an access fails it
  asks the attribute \<open>error\<close> for the reason. The files of the system are an argument, \<open>attr_io\<close>: what
  opening an attribute and one \<open>fscanf\<close>, \<open>fprintf\<close>, \<open>fread\<close> or \<open>fwrite\<close> on it do.
  The locale \<open>attribute_files\<close> states what the calls rely on, and the tree of the driver provides it.
\<close>

section \<open>The files of the attributes\<close>

text \<open>An access: the file cannot be opened, the access fails, or it yields a result. \<open>io_fread\<close> and
  \<open>io_fwrite\<close> yield the bytes read and the number of bytes written; \<open>io_size\<close> is \<open>st_size\<close>
  of the file; \<open>io_stat\<close> is whether another file exists, \<open>io_scandir\<close> the names in
  \<open>/sys/class/netanalyzer\<close>, and \<open>io_garbage\<close> what a variable holds that was never written.\<close>

datatype 'a access = Not_Opened | Failed | Got 'a

record 'k attr_io =
  io_read :: "u32 \<Rightarrow> string \<Rightarrow> ('k, string access) proc"
  io_write :: "u32 \<Rightarrow> string \<Rightarrow> string \<Rightarrow> ('k, unit access) proc"
  io_fread :: "u32 \<Rightarrow> string \<Rightarrow> nat \<Rightarrow> ('k, bytes access) proc"
  io_fwrite :: "u32 \<Rightarrow> string \<Rightarrow> bytes \<Rightarrow> ('k, nat access) proc"
  io_size :: "u32 \<Rightarrow> string \<Rightarrow> 'k \<Rightarrow> nat"
  io_stat :: "string \<Rightarrow> 'k \<Rightarrow> bool"
  io_scandir :: "'k \<Rightarrow> string list"
  io_garbage :: u32

text \<open>\<open>fscanf\<close> on what was read; a failed read converts nothing.\<close>

fun fscanf :: "string access \<Rightarrow> string \<Rightarrow> carg list" where
  "fscanf (Got t) fmt = sscanf t fmt"
| "fscanf Failed fmt = []"
| "fscanf Not_Opened fmt = []"

text \<open>A failed read is the end of the file for \<open>fscanf\<close>, which leaves the result unset; a missing file
  is a stream of \<open>NULL\<close>, with which the call does not return.\<close>

definition get_error :: "'k attr_io \<Rightarrow> u32 \<Rightarrow> ('k, u32) proc" where
  "get_error io devno s = do {
     (r, s1) \<leftarrow> io_read io devno ''driver_information/driver_information/error'' s;
     (case r of
        Not_Opened \<Rightarrow> None
      | Failed \<Rightarrow> Some (io_garbage io, s1)
      | Got t \<Rightarrow> (case sscanf t ''%X'' of [W lRet] \<Rightarrow> Some (lRet, s1) | _ \<Rightarrow> Some (NETANA_FUNCTION_FAILED, s1)))
   }"

section \<open>The shapes of a call\<close>

text \<open>
  Every call opens one attribute, returns \<open>lRet\<close> if it cannot, and goes to \<open>get_err\<close> if
  the access fails: \<open>scan_attr\<close> reads and scans, expecting \<open>n\<close> conversions, \<open>print_attr\<close> prints,
  \<open>fread_attr\<close> and \<open>fwrite_attr\<close> expect all bytes.
\<close>

definition scan_attr :: "'k attr_io \<Rightarrow> u32 \<Rightarrow> string \<Rightarrow> string \<Rightarrow> nat \<Rightarrow> u32 \<Rightarrow> ('k, u32 + carg list) proc" where
  "scan_attr io d szAttr fmt n lRet s = do {
     (r, s1) \<leftarrow> io_read io d szAttr s;
     if r = Not_Opened then Some (Inl lRet, s1)
     else if length (fscanf r fmt) \<noteq> n then do { (e, s2) \<leftarrow> get_error io d s1; Some (Inl e, s2) }
     else Some (Inr (fscanf r fmt), s1)
   }"

definition print_attr :: "'k attr_io \<Rightarrow> u32 \<Rightarrow> string \<Rightarrow> string \<Rightarrow> u32 \<Rightarrow> ('k, u32) proc" where
  "print_attr io d szAttr t lRet s = do {
     (r, s1) \<leftarrow> io_write io d szAttr t s;
     (case r of Not_Opened \<Rightarrow> Some (lRet, s1) | Failed \<Rightarrow> get_error io d s1 | Got _ \<Rightarrow> Some (NETANA_NO_ERROR, s1))
   }"

definition fread_attr :: "'k attr_io \<Rightarrow> u32 \<Rightarrow> string \<Rightarrow> nat \<Rightarrow> u32 \<Rightarrow> ('k, u32 \<times> bytes) proc" where
  "fread_attr io d szAttr n lRet s = do {
     (r, s1) \<leftarrow> io_fread io d szAttr n s;
     (case r of
        Not_Opened \<Rightarrow> Some ((lRet, []), s1)
      | Failed \<Rightarrow> do { (e, s2) \<leftarrow> get_error io d s1; Some ((e, []), s2) }
      | Got b \<Rightarrow> if length b \<noteq> n then do { (e, s2) \<leftarrow> get_error io d s1; Some ((e, b), s2) }
                 else Some ((NETANA_NO_ERROR, b), s1))
   }"

text \<open>\<open>fwrite_attr\<close> tells whether the file was opened and how many bytes were written.\<close>

definition fwrite_attr :: "'k attr_io \<Rightarrow> u32 \<Rightarrow> string \<Rightarrow> bytes \<Rightarrow> ('k, nat option) proc" where
  "fwrite_attr io d szAttr b s = do {
     (r, s1) \<leftarrow> io_fwrite io d szAttr b s;
     Some (case r of Not_Opened \<Rightarrow> None | Failed \<Rightarrow> Some 0 | Got n \<Rightarrow> Some n, s1)
   }"

text \<open>The results a scan leaves in 32 and 64 bit variables.\<close>

fun arg32 :: "carg \<Rightarrow> u32" where
  "arg32 (W w) = w"
| "arg32 (LL w) = ucast w"
| "arg32 (Str t) = 0"

fun arg64 :: "carg \<Rightarrow> u64" where
  "arg64 (W w) = ucast w"
| "arg64 (LL w) = w"
| "arg64 (Str t) = 0"

section \<open>Handles\<close>

text \<open>The device instance of the library, its file list being \<open>li_flst\<close>. The callbacks are given or not; what
  they are called with is recorded. \<open>hPollingThread\<close> is the number of the thread.\<close>

record thread_prio =
  tp_fThreadPrioSettings :: bool
  tp_iPolicy :: u32
  tp_iPriority :: u32

record libinst =
  li_szDeviceName :: string
  li_fd_Device :: nat
  li_iDeviceNum :: u32
  li_ulMaxFileCount :: u32
  li_ulDMABufferSize :: u32
  li_ulDMABufferCount :: u32
  li_hPollingThread :: nat
  li_fRunEventThread :: bool
  li_iEventError :: int
  li_tEventThreadPrio :: thread_prio
  li_pfnStatus :: bool
  li_pfnData :: bool
  li_ulCaptureState :: u32
  li_flst :: filelist

datatype callback = Status_Callback u32 u32 | Data_Callback bytes

text \<open>The global variables of the library.\<close>

record lib_globals =
  lg_fDriverVersionMismatch :: bool
  lg_fDriverRunning :: bool
  lg_libInitError :: bool
  lg_ulDMABufferSize :: u32
  lg_ulDMABufferCount :: u32
  lg_lTimezoneCorrection :: u32
  lg_ulTraceLevel :: u32
  lg_tThreadSetting :: thread_prio
  lg_tKThreadSetting :: thread_prio

text \<open>The state of a process: the list of its open devices, the global variables, the files, the callbacks
  it has got, and the system.\<close>

record 'k lib =
  lb_cards :: "nat list"
  lb_inst :: "nat \<Rightarrow> libinst"
  lb_globals :: lib_globals
  lb_files :: fstore
  lb_callbacks :: "callback list"
  lb_sys :: 'k

text \<open>An instance after \<open>memset\<close>, and the global variables as \<open>libinit\<close> leaves them; \<open>ok\<close> is whether
  the lock of the card list was created.\<close>

definition no_prio :: thread_prio where
  "no_prio = \<lparr>tp_fThreadPrioSettings = False, tp_iPolicy = 0, tp_iPriority = 0\<rparr>"

definition zero_filelist :: filelist where
  "zero_filelist = \<lparr>tFileHeader = \<lparr>fh_ulCookie = 0, fh_ulIdx = 0, fh_ullCaptureStart = 0, fh_ullDataSize = 0,
       fh_lTimezoneCorrection = 0, fh_ulReserved = 0\<rparr>, fRingBuffer = False, fWriteToFile = False, ulFileCount = 0, ullFileSize = 0,
     szPath = [], szBaseFilename = [], ulCurrentFile = 0,
     atFiles = replicate 256 \<lparr>fd_hFile = 0, fd_ullOffset = 0, fd_ullDataWritten = 0\<rparr>\<rparr>"

definition zero_inst :: libinst where
  "zero_inst = \<lparr>li_szDeviceName = [], li_fd_Device = 0, li_iDeviceNum = 0, li_ulMaxFileCount = 0, li_ulDMABufferSize = 0,
     li_ulDMABufferCount = 0, li_hPollingThread = 0, li_fRunEventThread = False, li_iEventError = 0, li_tEventThreadPrio = no_prio,
     li_pfnStatus = False, li_pfnData = False, li_ulCaptureState = 0, li_flst = zero_filelist\<rparr>"

definition libinit :: "bool \<Rightarrow> lib_globals" where
  "libinit ok = \<lparr>lg_fDriverVersionMismatch = False, lg_fDriverRunning = False, lg_libInitError = (\<not> ok),
     lg_ulDMABufferSize = 0x80000, lg_ulDMABufferCount = 8, lg_lTimezoneCorrection = 0, lg_ulTraceLevel = 0,
     lg_tThreadSetting = no_prio, lg_tKThreadSetting = no_prio\<rparr>"

definition CheckDeviceHandle :: "nat \<Rightarrow> 'k lib \<Rightarrow> u32" where
  "CheckDeviceHandle h L =
     (if h = 0 then NETANA_INVALID_PARAMETER
      else if h \<in> set (lb_cards L) then NETANA_NO_ERROR else NETANA_INVALID_HANDLE)"

definition lib_IsCaptureRunning :: "libinst \<Rightarrow> bool" where
  "lib_IsCaptureRunning p \<longleftrightarrow> li_ulCaptureState p \<noteq> NETANA_CAPTURE_STATE_OFF"

definition on_sys :: "('k, 'a) proc \<Rightarrow> ('k lib, 'a) proc" where
  "on_sys f L = do { (r, k) \<leftarrow> f (lb_sys L); Some (r, L\<lparr>lb_sys := k\<rparr>) }"

text \<open>\<open>CHECK_HANDLE\<close>, and the test for a running capture some calls make next; \<open>g\<close> gives the result of
  the call for an error.\<close>

definition with_handle :: "nat \<Rightarrow> (u32 \<Rightarrow> 'a) \<Rightarrow> (libinst \<Rightarrow> ('k, 'a) proc) \<Rightarrow> ('k lib, 'a) proc" where
  "with_handle hDev g f L =
     (if CheckDeviceHandle hDev L \<noteq> NETANA_NO_ERROR then Some (g (CheckDeviceHandle hDev L), L)
      else on_sys (f (lb_inst L hDev)) L)"

definition with_idle :: "nat \<Rightarrow> (u32 \<Rightarrow> 'a) \<Rightarrow> (libinst \<Rightarrow> ('k, 'a) proc) \<Rightarrow> ('k lib, 'a) proc" where
  "with_idle hDev g f = with_handle hDev g
     (\<lambda>p s. if lib_IsCaptureRunning p then Some (g NETANA_CAPTURE_ACTIVE, s) else f p s)"

section \<open>Device state, ports and PHYs\<close>

definition lib_netana_get_state :: "'k attr_io \<Rightarrow> nat \<Rightarrow> ('k lib, u32 + u32 \<times> u32) proc" where
  "lib_netana_get_state io hDev = with_handle hDev Inl (\<lambda>p s. do {
     (r, s1) \<leftarrow> scan_attr io (li_iDeviceNum p) ''device_information/device_state/device_state'' ''0x%X 0x%X'' 2
                  NETANA_INVALID_HANDLE s;
     Some (map_sum id (\<lambda>xs. (arg32 (xs ! 0), arg32 (xs ! 1))) r, s1)
   })"

definition netana_get_state_poll :: "'k attr_io \<Rightarrow> nat \<Rightarrow> ('k lib, u32 + u32 \<times> u32) proc" where
  "netana_get_state_poll io hDev = with_handle hDev Inl (\<lambda>p s. do {
     (r, s1) \<leftarrow> scan_attr io (li_iDeviceNum p) ''device_information/device_state/device_state_poll'' ''0x%X 0x%X'' 2
                  NETANA_INVALID_HANDLE s;
     Some (map_sum id (\<lambda>xs. (arg32 (xs ! 0), arg32 (xs ! 1))) r, s1)
   })"

text \<open>The port state is the structure, its fields in order.\<close>

definition port_state_bytes :: "carg list \<Rightarrow> bytes" where
  "port_state_bytes xs = le32 (arg32 (xs ! 0)) @ concat (map (\<lambda>k. le64 (arg64 (xs ! k))) [1..<12]) @
     le32 (arg32 (xs ! 12)) @ le64 (arg64 (xs ! 13))"

definition lib_netana_get_portstat :: "'k attr_io \<Rightarrow> nat \<Rightarrow> u32 \<Rightarrow> u32 \<Rightarrow> bytes \<Rightarrow> ('k lib, u32 + bytes) proc" where
  "lib_netana_get_portstat io hDev ulPort ulSize stack = with_handle hDev Inl (\<lambda>p s. do {
     (r, s1) \<leftarrow> scan_attr io (li_iDeviceNum p) (sprintf ''%s%d%s'' [Str ''hw_resources/port/port'', W ulPort, Str ''/status''])
                  ''%d %llu %llu %llu %llu %llu %llu %llu %llu %llu %llu %llu %d %llu'' 14 NETANA_INVALID_PORT s;
     Some (map_sum id (\<lambda>xs. copy_struct ulSize (port_state_bytes xs) stack) r, s1)
   })"

definition update_timeout :: "'k attr_io \<Rightarrow> libinst \<Rightarrow> u32 \<Rightarrow> ('k, u32) proc" where
  "update_timeout io p ulTimeout =
     print_attr io (li_iDeviceNum p) ''device_config/timeout/config'' (sprintf ''%u'' [W ulTimeout]) NETANA_INVALID_HANDLE"

text \<open>Any other direction than read and write leaves the stream \<open>NULL\<close>; \<open>lRet\<close> is then the result of
  \<open>update_timeout\<close>. The value read, or the one given.\<close>

definition lib_netana_access_phy_reg :: "'k attr_io \<Rightarrow> nat \<Rightarrow> u32 \<Rightarrow> u8 \<Rightarrow> u8 \<Rightarrow> u16 option \<Rightarrow> u32 \<Rightarrow> ('k lib, u32 \<times> u16 option) proc" where
  "lib_netana_access_phy_reg io hDev ulDirection ulPhyNum ulPhyReg pusValue ulTimeout = with_handle hDev (\<lambda>e. (e, pusValue)) (\<lambda>p s.
     if pusValue = None then Some ((NETANA_INVALID_PARAMETER, None), s)
     else do {
       (lRet, s1) \<leftarrow> update_timeout io p ulTimeout s;
       let path = sprintf ''%s%d%s%d'' [Str ''hw_resources/phy/phy'', W (ucast ulPhyNum), Str ''/regval'', W (ucast ulPhyReg)];
       if lRet \<noteq> NETANA_NO_ERROR then Some ((lRet, pusValue), s1)
       else if ulDirection = NETANA_PHY_DIRECTION_READ then do {
         (r, s2) \<leftarrow> scan_attr io (li_iDeviceNum p) path ''%u'' 1 lRet s1;
         Some (case r of Inl e \<Rightarrow> (e, pusValue) | Inr xs \<Rightarrow> (NETANA_NO_ERROR, Some (ucast (arg32 (xs ! 0) AND 0xFFFF))), s2)
       } else if ulDirection = NETANA_PHY_DIRECTION_WRITE then do {
         (e, s2) \<leftarrow> print_attr io (li_iDeviceNum p) path (sprintf ''%u'' [W (ucast (the pusValue))]) lRet s1;
         Some ((e, pusValue), s2)
       } else Some ((lRet, pusValue), s1)
     })"

section \<open>GPIOs\<close>

definition gpio_file :: "u32 \<Rightarrow> string \<Rightarrow> string" where
  "gpio_file ulGpio name = sprintf ''%s%d%s'' [Str ''hw_resources/gpio/gpio'', W ulGpio, Str name]"

definition lib_netana_get_gpio_mode :: "'k attr_io \<Rightarrow> nat \<Rightarrow> u32 \<Rightarrow> ('k lib, u32 + gpio_mode) proc" where
  "lib_netana_get_gpio_mode io hDev ulGpio = with_idle hDev Inl (\<lambda>p s. do {
     (r, s1) \<leftarrow> scan_attr io (li_iDeviceNum p) (gpio_file ulGpio ''/status'') ''%d %d %d'' 3 NETANA_INVALID_PARAMETER s;
     Some (map_sum id (\<lambda>xs. \<lparr>gm_ulMode = arg32 (xs ! 0), gm_uData0 = arg32 (xs ! 1), gm_uData1 = arg32 (xs ! 2)\<rparr>) r, s1)
   })"

definition lib_netana_set_gpio_mode :: "'k attr_io \<Rightarrow> nat \<Rightarrow> u32 \<Rightarrow> gpio_mode \<Rightarrow> ('k lib, u32) proc" where
  "lib_netana_set_gpio_mode io hDev ulGpio ptMode = with_idle hDev id (\<lambda>p.
     print_attr io (li_iDeviceNum p) (gpio_file ulGpio ''/status'')
       (sprintf ''%d %d %d'' [W (gm_ulMode ptMode), W (gm_uData0 ptMode), W (gm_uData1 ptMode)]) NETANA_INVALID_PARAMETER)"

text \<open>\<open>1 != fprintf ()\<close>: a text which is not one character long goes to \<open>get_err\<close> although it was written.\<close>

definition lib_netana_set_gpio_output :: "'k attr_io \<Rightarrow> nat \<Rightarrow> u32 \<Rightarrow> u32 \<Rightarrow> ('k lib, u32) proc" where
  "lib_netana_set_gpio_output io hDev ulGpio ulLevel = with_handle hDev id (\<lambda>p s. do {
     (r, s1) \<leftarrow> io_write io (li_iDeviceNum p) (gpio_file ulGpio ''/level'') (sprintf ''%d'' [W ulLevel]) s;
     (case r of
        Not_Opened \<Rightarrow> Some (NETANA_INVALID_PARAMETER, s1)
      | Failed \<Rightarrow> get_error io (li_iDeviceNum p) s1
      | Got _ \<Rightarrow> if length (sprintf ''%d'' [W ulLevel]) \<noteq> 1 then get_error io (li_iDeviceNum p) s1 else Some (NETANA_NO_ERROR, s1))
   })"

definition lib_netana_set_gpio_voltage :: "'k attr_io \<Rightarrow> nat \<Rightarrow> u32 \<Rightarrow> u32 \<Rightarrow> ('k lib, u32) proc" where
  "lib_netana_set_gpio_voltage io hDev ulGpioSelMask ulGpioVoltageSel = with_handle hDev id (\<lambda>p.
     print_attr io (li_iDeviceNum p) ''hw_resources/gpio/voltage/set_voltage''
       (sprintf ''%d %d\<newline>'' [W ulGpioSelMask, W ulGpioVoltageSel]) NETANA_INVALID_PARAMETER)"

definition lib_netana_get_gpio_voltage :: "'k attr_io \<Rightarrow> nat \<Rightarrow> u32 \<Rightarrow> bool \<Rightarrow> ('k lib, u32 + u32) proc" where
  "lib_netana_get_gpio_voltage io hDev ulGpio given = with_handle hDev Inl (\<lambda>p s.
     if \<not> given then Some (Inl NETANA_INVALID_PARAMETER, s)
     else do {
       (r, s1) \<leftarrow> scan_attr io (li_iDeviceNum p) (gpio_file ulGpio ''/voltage'') ''%d'' 1 NETANA_INVALID_PARAMETER s;
       Some (map_sum id (\<lambda>xs. arg32 (xs ! 0)) r, s1)
     })"

section \<open>Filters\<close>

definition filter_file :: "u32 \<Rightarrow> string \<Rightarrow> string" where
  "filter_file ulPort name = sprintf ''%s%d%s'' [Str ''hw_resources/filter/filter'', W ulPort, Str name]"

definition filter_args_ok :: "netana_filter option \<Rightarrow> bool" where
  "filter_args_ok ptFilter \<longleftrightarrow>
     (case ptFilter of None \<Rightarrow> True
      | Some f \<Rightarrow> uf_ulFilterSize f > 0 \<longrightarrow> uf_pbMask f \<noteq> None \<and> uf_pbValue f \<noteq> None)"

text \<open>One filter of \<open>netana_get_filter\<close>, \<open>c\<close> being its letter: an error, and the filter as far as it was read.\<close>

definition read_half :: "'k attr_io \<Rightarrow> u32 \<Rightarrow> u32 \<Rightarrow> string \<Rightarrow> u32 \<Rightarrow> netana_filter option \<Rightarrow> ('k, u32 \<times> netana_filter option) proc" where
  "read_half io d ulPort c limit ptFilter s =
     (case ptFilter of None \<Rightarrow> Some ((NETANA_NO_ERROR, None), s)
      | Some f \<Rightarrow> do {
          let n = (if uf_ulFilterSize f > limit then limit else uf_ulFilterSize f);
          ((e, b), s1) \<leftarrow> fread_attr io d (filter_file ulPort (''/mask'' @ c)) (unat n) NETANA_INVALID_PARAMETER s;
          let f1 = f\<lparr>uf_ulFilterSize := n, uf_pbMask := map_option (blit 0 b) (uf_pbMask f)\<rparr>;
          if e \<noteq> NETANA_NO_ERROR \<or> length b \<noteq> unat n then Some ((e, Some f1), s1)
          else do {
            ((e1, b1), s2) \<leftarrow> fread_attr io d (filter_file ulPort (''/val'' @ c)) (unat n) NETANA_INVALID_PARAMETER s1;
            Some ((e1, Some (f1\<lparr>uf_pbValue := map_option (blit 0 b1) (uf_pbValue f1)\<rparr>)), s2)
          }
        })"

definition lib_netana_get_filter :: "'k attr_io \<Rightarrow> nat \<Rightarrow> u32 \<Rightarrow> netana_filter option \<Rightarrow> netana_filter option \<Rightarrow> u32 option \<Rightarrow>
    ('k lib, u32 \<times> netana_filter option \<times> netana_filter option \<times> u32 option) proc" where
  "lib_netana_get_filter io hDev ulPort ptFilterA ptFilterB pulRelationShip =
     with_handle hDev (\<lambda>e. (e, ptFilterA, ptFilterB, pulRelationShip)) (\<lambda>p s.
       if \<not> filter_args_ok ptFilterA \<or> \<not> filter_args_ok ptFilterB
       then Some ((NETANA_INVALID_PARAMETER, ptFilterA, ptFilterB, pulRelationShip), s)
       else do {
         (r, s1) \<leftarrow> io_read io (li_iDeviceNum p) (filter_file ulPort ''/relation'') s;
         if r = Not_Opened then Some ((NETANA_INVALID_PARAMETER, ptFilterA, ptFilterB, pulRelationShip), s1)
         else case fscanf r ''%d %d %d'' of
           [W ulRelationShip, W ulFilterSizeA, W ulFilterSizeB] \<Rightarrow> do {
             ((e, a), s2) \<leftarrow> read_half io (li_iDeviceNum p) ulPort ''a'' ulFilterSizeA ptFilterA s1;
             if e \<noteq> NETANA_NO_ERROR then Some ((e, a, ptFilterB, pulRelationShip), s2)
             else do {
               ((e1, b), s3) \<leftarrow> read_half io (li_iDeviceNum p) ulPort ''b'' ulFilterSizeB ptFilterB s2;
               Some ((e1, a, b, if e1 \<noteq> NETANA_NO_ERROR then pulRelationShip else map_option (\<lambda>_. ulRelationShip) pulRelationShip), s3)
             }
           }
         | _ \<Rightarrow> Some ((NETANA_IOCTL_FAILED, ptFilterA, ptFilterB, map_option (\<lambda>_. io_garbage io) pulRelationShip), s1)
       })"

text \<open>One file of \<open>netana_set_filter\<close>: \<open>Some\<close> result ends the call. A file which cannot be opened ends it with
  the \<open>lRet\<close> of the call so far, which is \<open>NETANA_NO_ERROR\<close>.\<close>

definition write_filter_file :: "'k attr_io \<Rightarrow> u32 \<Rightarrow> string \<Rightarrow> bytes \<Rightarrow> ('k, u32 option) proc" where
  "write_filter_file io d path b s = do {
     (r, s1) \<leftarrow> fwrite_attr io d path b s;
     (case r of
        None \<Rightarrow> Some (Some NETANA_NO_ERROR, s1)
      | Some n \<Rightarrow>
          if n = length b then Some (None, s1)
          else if length b > io_size io d path s1 then Some (Some NETANA_INVALID_BUFFERSIZE, s1)
          else do { (e, s2) \<leftarrow> get_error io d s1; Some (Some e, s2) })
   }"

definition write_half :: "'k attr_io \<Rightarrow> u32 \<Rightarrow> u32 \<Rightarrow> string \<Rightarrow> netana_filter option \<Rightarrow> ('k, u32 option) proc" where
  "write_half io d ulPort c ptFilter s =
     (case ptFilter of None \<Rightarrow> Some (None, s)
      | Some f \<Rightarrow>
          if uf_ulFilterSize f = 0 then Some (None, s)
          else do {
            let n = unat (uf_ulFilterSize f);
            (r, s1) \<leftarrow> write_filter_file io d (filter_file ulPort (''/mask'' @ c)) (take n (the (uf_pbMask f))) s;
            if r \<noteq> None then Some (r, s1)
            else write_filter_file io d (filter_file ulPort (''/val'' @ c)) (take n (the (uf_pbValue f))) s1
          })"

definition size_given :: "netana_filter option \<Rightarrow> u32" where
  "size_given ptFilter = (case ptFilter of None \<Rightarrow> 0 | Some f \<Rightarrow> uf_ulFilterSize f)"

definition lib_netana_set_filter :: "'k attr_io \<Rightarrow> nat \<Rightarrow> u32 \<Rightarrow> netana_filter option \<Rightarrow> netana_filter option \<Rightarrow> u32 \<Rightarrow> ('k lib, u32) proc" where
  "lib_netana_set_filter io hDev ulPort ptFilterA ptFilterB ulRelationShip = with_idle hDev id (\<lambda>p s.
     if \<not> filter_args_ok ptFilterA \<or> \<not> filter_args_ok ptFilterB then Some (NETANA_INVALID_PARAMETER, s)
     else do {
       (r, s1) \<leftarrow> write_half io (li_iDeviceNum p) ulPort ''a'' ptFilterA s;
       if r \<noteq> None then Some (the r, s1)
       else do {
         (r1, s2) \<leftarrow> write_half io (li_iDeviceNum p) ulPort ''b'' ptFilterB s1;
         if r1 \<noteq> None then Some (the r1, s2)
         else print_attr io (li_iDeviceNum p) (filter_file ulPort ''/relation'')
                (sprintf ''%d %d %d'' [W ulRelationShip, W (size_given ptFilterA), W (size_given ptFilterB)])
                NETANA_INVALID_PARAMETER s2
       }
     })"

section \<open>Clock, errors and identification\<close>

definition lib_netana_resync_time :: "'k attr_io \<Rightarrow> nat \<Rightarrow> u64 \<Rightarrow> ('k lib, u32) proc" where
  "lib_netana_resync_time io hDev ullReferenceTime = with_handle hDev id (\<lambda>p.
     print_attr io (li_iDeviceNum p) ''device_control/time/config'' (sprintf ''%llu'' [LL ullReferenceTime]) NETANA_INVALID_PARAMETER)"

definition lib_netana_config_pi_controller :: "'k attr_io \<Rightarrow> nat \<Rightarrow> u32 \<Rightarrow> u32 \<Rightarrow> ('k lib, u32) proc" where
  "lib_netana_config_pi_controller io hDev ulP ulI = with_idle hDev id (\<lambda>p.
     print_attr io (li_iDeviceNum p) ''device_control/pi/config'' (sprintf ''%d %d'' [W ulP, W ulI]) NETANA_INVALID_PARAMETER)"

definition netana_signal_drv_error :: "'k attr_io \<Rightarrow> nat \<Rightarrow> u32 \<Rightarrow> ('k lib, u32) proc" where
  "netana_signal_drv_error io hDev ulError = with_handle hDev id (\<lambda>p.
     print_attr io (li_iDeviceNum p) ''fw/fw_error'' (sprintf ''%d'' [W ulError]) NETANA_INVALID_PARAMETER)"

definition lib_netana_set_device_ident :: "'k attr_io \<Rightarrow> nat \<Rightarrow> string option \<Rightarrow> ('k lib, u32) proc" where
  "lib_netana_set_device_ident io hDev szFileName = with_handle hDev id (\<lambda>p s.
     case szFileName of None \<Rightarrow> Some (NETANA_INVALID_PARAMETER, s)
     | Some f \<Rightarrow>
         if \<not> io_stat io (''/lib/firmware/'' @ f) s then Some (NETANA_FILE_OPEN_ERROR, s)
         else print_attr io (li_iDeviceNum p) ''device_information/ident_info/ident_info'' (sprintf ''%s'' [Str f])
                NETANA_INVALID_PARAMETER s)"

text \<open>The packed \<open>NETANA_DEVICE_IDENT_T\<close>; its 16 bit fields keep the lower half of what is scanned.\<close>

definition ident_args_bytes :: "carg list \<Rightarrow> bytes" where
  "ident_args_bytes xs = (let u = (\<lambda>k. arg32 (xs ! k)) in
     le32 (u 0) @ le32 (u 1) @ le32 (u 2) @ le16 (ucast (u 3)) @ le32 (u 4) @ le32 (u 5) @ le16 (ucast (u 6)) @ le16 (ucast (u 7)))"

definition lib_netana_get_device_ident :: "'k attr_io \<Rightarrow> nat \<Rightarrow> u32 \<Rightarrow> bool \<Rightarrow> ('k lib, u32 + bytes) proc" where
  "lib_netana_get_device_ident io hDev ulSize given = with_handle hDev Inl (\<lambda>p s.
     if \<not> given then Some (Inl NETANA_INVALID_PARAMETER, s)
     else if ulSize > SIZEOF_DEVICE_IDENT then Some (Inl NETANA_INVALID_BUFFERSIZE, s)
     else do {
       (r, s1) \<leftarrow> scan_attr io (li_iDeviceNum p) ''device_information/ident_info/ident_info'' ''%u %u %u %u 0x%X 0x%X %u %u'' 8
                    NETANA_INVALID_PARAMETER s;
       Some (map_sum id (\<lambda>xs. take (unat ulSize) (ident_args_bytes xs)) r, s1)
     })"

definition lib_netana_check_device_ident :: "'k attr_io \<Rightarrow> nat \<Rightarrow> u32 \<Rightarrow> bytes \<Rightarrow> ('k lib, u32 \<times> bytes) proc" where
  "lib_netana_check_device_ident io hDev ulSize info = with_handle hDev (\<lambda>e. (e, info)) (\<lambda>p s. do {
     let f = ''device_information/ident_info/ident_check'';
     (r, s1) \<leftarrow> fwrite_attr io (li_iDeviceNum p) f (take (unat ulSize) info) s;
     (case r of
        None \<Rightarrow> Some ((NETANA_INVALID_PARAMETER, info), s1)
      | Some n \<Rightarrow>
          if n \<noteq> unat ulSize then do { (e, s2) \<leftarrow> get_error io (li_iDeviceNum p) s1; Some ((e, info), s2) }
          else do {
            ((e, b), s2) \<leftarrow> fread_attr io (li_iDeviceNum p) f (unat ulSize) NETANA_INVALID_PARAMETER s1;
            Some ((e, blit 0 b info), s2)
          })
   })"

section \<open>The mailbox\<close>

abbreviation (input) NETANA_MAX_DATA_SIZE :: u32 where "NETANA_MAX_DATA_SIZE \<equiv> 1556"

definition lib_netana_get_mbx_state :: "'k attr_io \<Rightarrow> nat \<Rightarrow> u32 option \<Rightarrow> u32 option \<Rightarrow> ('k lib, u32 \<times> u32 option \<times> u32 option) proc" where
  "lib_netana_get_mbx_state io hDev pulRecvPktCnt pulSendPktCnt =
     with_handle hDev (\<lambda>e. (e, pulRecvPktCnt, pulSendPktCnt)) (\<lambda>p s.
       if pulRecvPktCnt = None \<and> pulSendPktCnt = None then Some ((NETANA_INVALID_PARAMETER, None, None), s)
       else do {
         (r, s1) \<leftarrow> scan_attr io (li_iDeviceNum p) ''device_control/mailbox/status'' ''%d %d'' 2 NETANA_INVALID_PARAMETER s;
         Some (case r of Inl e \<Rightarrow> (e, pulRecvPktCnt, pulSendPktCnt)
               | Inr xs \<Rightarrow> (NETANA_NO_ERROR, map_option (\<lambda>_. arg32 (xs ! 0)) pulRecvPktCnt, map_option (\<lambda>_. arg32 (xs ! 1)) pulSendPktCnt), s1)
       })"

definition lib_netana_get_packet :: "'k attr_io \<Rightarrow> nat \<Rightarrow> u32 \<Rightarrow> bytes \<Rightarrow> u32 \<Rightarrow> ('k lib, u32 \<times> bytes) proc" where
  "lib_netana_get_packet io hDev ulSize ptRecvPkt ulTimeout = with_handle hDev (\<lambda>e. (e, ptRecvPkt)) (\<lambda>p s.
     if ulSize < NETANA_PACKET_HEADER_SIZE then Some ((NETANA_BUFFER_TOO_SHORT, ptRecvPkt), s)
     else do {
       (lRet, s1) \<leftarrow> update_timeout io p ulTimeout s;
       if lRet \<noteq> NETANA_NO_ERROR then Some ((lRet, ptRecvPkt), s1)
       else do {
         ((e, b), s2) \<leftarrow> fread_attr io (li_iDeviceNum p) ''device_control/mailbox/mailbox'' (unat ulSize) lRet s1;
         Some ((e, blit 0 b ptRecvPkt), s2)
       }
     })"

definition lib_netana_put_packet :: "'k attr_io \<Rightarrow> nat \<Rightarrow> packet option \<Rightarrow> u32 \<Rightarrow> ('k lib, u32) proc" where
  "lib_netana_put_packet io hDev ptSendPkt ulTimeout = with_handle hDev id (\<lambda>p s.
     case ptSendPkt of None \<Rightarrow> Some (NETANA_INVALID_PARAMETER, s)
     | Some pkt \<Rightarrow>
         if pk_ulLen pkt > NETANA_MAX_DATA_SIZE then Some (NETANA_INVALID_BUFFERSIZE, s)
         else do {
           (lRet, s1) \<leftarrow> update_timeout io p ulTimeout s;
           if lRet \<noteq> NETANA_NO_ERROR then Some (lRet, s1)
           else do {
             let ulLen = packet_size pkt;
             (r, s2) \<leftarrow> fwrite_attr io (li_iDeviceNum p) ''device_control/mailbox/mailbox'' (take (unat ulLen) (packet_bytes pkt)) s1;
             (case r of None \<Rightarrow> Some (lRet, s2)
              | Some n \<Rightarrow> if n \<noteq> unat ulLen then get_error io (li_iDeviceNum p) s2 else Some (NETANA_NO_ERROR, s2))
           }
         })"

text \<open>\<open>netana_transfer_packet\<close>: \<open>k\<close> more packets are read; \<open>seen\<close> collects the packets given to the callback.\<close>

fun await_answer :: "'k attr_io \<Rightarrow> nat \<Rightarrow> packet \<Rightarrow> u32 \<Rightarrow> bytes \<Rightarrow> u32 \<Rightarrow> nat \<Rightarrow> ('k lib, u32 \<times> bytes \<times> packet list) proc" where
  "await_answer io hDev ptSendPkt ulSize buf ulTimeout 0 L = Some ((NETANA_TRANSFER_TIMEOUT, buf, []), L)"
| "await_answer io hDev ptSendPkt ulSize buf ulTimeout (Suc k) L = do {
     ((e, buf1), L1) \<leftarrow> lib_netana_get_packet io hDev ulSize buf ulTimeout L;
     let p = read_packet buf1;
     if e \<noteq> NETANA_NO_ERROR then Some ((e, buf1, []), L1)
     else if pk_ulCmd p AND NOT 1 = pk_ulCmd ptSendPkt \<and> pk_ulSrc p = pk_ulSrc ptSendPkt \<and> pk_ulId p = pk_ulId ptSendPkt \<and>
             pk_ulSrcId p = pk_ulSrcId ptSendPkt
     then Some ((NETANA_NO_ERROR, buf1, []), L1)
     else do {
       ((r, buf2, seen), L2) \<leftarrow> await_answer io hDev ptSendPkt ulSize buf1 ulTimeout k L1;
       Some ((r, buf2, (if pk_ulCmd p AND NOT 1 = pk_ulCmd ptSendPkt then [p] else []) @ seen), L2)
     }
   }"

definition lib_netana_transfer_packet :: "'k attr_io \<Rightarrow> nat \<Rightarrow> packet \<Rightarrow> u32 \<Rightarrow> bytes \<Rightarrow> u32 \<Rightarrow> bool \<Rightarrow>
    ('k lib, u32 \<times> bytes \<times> packet list) proc" where
  "lib_netana_transfer_packet io hDev ptSendPkt ulRecvBufferSize ptRecvPkt ulTimeout fCallback L = do {
     (lRet, L1) \<leftarrow> lib_netana_put_packet io hDev (Some ptSendPkt) ulTimeout L;
     if lRet \<noteq> NETANA_NO_ERROR then Some ((lRet, ptRecvPkt, []), L1)
     else do {
       ((r, buf, seen), L2) \<leftarrow> await_answer io hDev ptSendPkt ulRecvBufferSize ptRecvPkt ulTimeout 10 L1;
       Some ((r, buf, if fCallback then seen else []), L2)
     }
   }"

end
