(* ===== verification/Lib_On_Driver.thy ===== *)
theory Lib_On_Driver
  imports Lib_Calls
begin

text \<open>
  The library on the driver: the files of \<open>attr_io\<close> are those of the attribute tree, so that every call of the
  library becomes a call of the toolkit in the kernel. The theory shows that it is the same call, with the
  same result.
\<close>

section \<open>What the calls rely on\<close>

abbreviation (input) error_file :: string where
  "error_file \<equiv> ''driver_information/driver_information/error''"

text \<open>A number printed with a prefix \<open>0x\<close>.\<close>

lemma scan_prefixed:
  assumes "delimited t"
  shows "scan_number 16 (CHR ''0'' # CHR ''x'' # radix 16 n @ t) = Some (n, t)"
proof -
  obtain d ds where "radix 16 n = digit_char d # ds" "d < 16" "d = 0 \<longrightarrow> ds = []"
    using hd_radix[of 16 n] by auto
  then have "\<not> stops 16 (radix 16 n @ t)"
    by (simp add: stops_def)
  then have "hex_prefix (CHR ''0'' # CHR ''x'' # radix 16 n @ t)"
    by (simp add: hex_prefix_def)
  moreover have "\<not> stops 16 (CHR ''0'' # CHR ''x'' # radix 16 n @ t)"
    by (simp add: stops_def is_digit_def digit_val_def)
  ultimately show ?thesis
    using scan_radix[of 16 0 n t] delimited_scan[OF assms, of 16 n] by (simp add: scan_number_def)
qed

lemma scan_hex: "sscanf (sprintf ''0x%X\<newline>'' [W w]) ''%X'' = [W w]"
proof -
  have "scan_number 16 (CHR ''0'' # CHR ''x'' # radix 16 (unat w) @ [CHR 0x0A]) = Some (unat w, [CHR 0x0A])"
    by (rule scan_prefixed) (simp add: delimited_def is_space_def)
  then show ?thesis
    by (simp add: sscanf_def sprintf_def format_defs)
qed

text \<open>The attribute \<open>error\<close> tells the last error of the calling thread, and an access that fails has
  left one, where the attribute can be read, or written, at all (\<open>readable\<close>, \<open>writable\<close>).\<close>

locale attribute_files =
  fixes io :: "'k attr_io" and d :: u32 and last_error :: "'k \<Rightarrow> u32" and ok :: "'k \<Rightarrow> bool"
    and readable :: "string \<Rightarrow> bool" and writable :: "string \<Rightarrow> bool"
  assumes error_read: "ok s \<Longrightarrow> io_read io d error_file s = Some (Got (sprintf ''0x%X\<newline>'' [W (last_error s)]), s)"
    and read_fails: "ok s \<Longrightarrow> io_read io d p s = Some (r, s') \<Longrightarrow> ok s' \<and> (r = Failed \<and> readable p \<longrightarrow> last_error s' \<noteq> NETANA_NO_ERROR)"
    and write_fails: "ok s \<Longrightarrow> io_write io d p t s = Some (u, s') \<Longrightarrow> ok s' \<and> (u = Failed \<and> writable p \<longrightarrow> last_error s' \<noteq> NETANA_NO_ERROR)"
begin

lemma get_error_last: "ok s \<Longrightarrow> get_error io d s = Some (last_error s, s)"
  by (simp add: get_error_def error_read scan_hex)

text \<open>A call that prints an attribute: success is a write that was accepted, unless the file is missing
  and \<open>lRet\<close> is success; a write that was refused gives the error it has left.\<close>

lemma print_attr_result:
  assumes "ok s" "print_attr io d p t lRet s = Some (e, s')"
  shows "ok s' \<and> (\<exists>u. io_write io d p t s = Some (u, s') \<and>
    e = (case u of Not_Opened \<Rightarrow> lRet | Failed \<Rightarrow> last_error s' | Got _ \<Rightarrow> NETANA_NO_ERROR) \<and>
    (u = Failed \<and> writable p \<longrightarrow> e \<noteq> NETANA_NO_ERROR))"
proof -
  obtain u s1 where u: "io_write io d p t s = Some (u, s1)"
      "(case u of Not_Opened \<Rightarrow> Some (lRet, s1) | Failed \<Rightarrow> get_error io d s1 | Got _ \<Rightarrow> Some (NETANA_NO_ERROR, s1)) = Some (e, s')"
    using assms(2) by (auto simp: print_attr_def bind_eq_Some_conv)
  have "ok s1 \<and> (u = Failed \<and> writable p \<longrightarrow> last_error s1 \<noteq> NETANA_NO_ERROR)"
    by (rule write_fails[OF assms(1) u(1)])
  then show ?thesis
    using u by (cases u) (auto simp: get_error_last)
qed

lemma scan_attr_result:
  assumes "ok s" "scan_attr io d p fmt n lRet s = Some (x, s')"
  shows "ok s' \<and> (\<exists>r. io_read io d p s = Some (r, s') \<and>
    x = (if r = Not_Opened then Inl lRet else if length (fscanf r fmt) = n then Inr (fscanf r fmt) else Inl (last_error s')) \<and>
    (r = Failed \<and> readable p \<and> n > 0 \<longrightarrow> x = Inl (last_error s') \<and> last_error s' \<noteq> NETANA_NO_ERROR))"
proof -
  obtain r s1 where r: "io_read io d p s = Some (r, s1)"
      "(if r = Not_Opened then Some (Inl lRet, s1)
        else if length (fscanf r fmt) \<noteq> n then do { (e, s2) \<leftarrow> get_error io d s1; Some (Inl e, s2) }
        else Some (Inr (fscanf r fmt), s1)) = Some (x, s')"
    using assms(2) by (auto simp: scan_attr_def bind_eq_Some_conv)
  have "ok s1 \<and> (r = Failed \<and> readable p \<longrightarrow> last_error s1 \<noteq> NETANA_NO_ERROR)"
    by (rule read_fails[OF assms(1) r(1)])
  then show ?thesis
    using r by (auto simp: get_error_last bind_eq_Some_conv split: if_split_asm)
qed

end

section \<open>The attribute tree as files\<close>

text \<open>
  What sysfs makes of the tree for a process which has the permission bits \<open>pm\<close>: an attribute is opened if it
  exists and its mode allows the access, one read or write calls its function, and a negative result is
  a failed access. A binary attribute is read and written in pages, and not beyond its size if that is not \<open>0\<close>.
\<close>

abbreviation (input) S_IWUGO :: u16 where "S_IWUGO \<equiv> 0x092"
abbreviation (input) PAGE_SIZE :: nat where "PAGE_SIZE \<equiv> 4096"

definition kernel_read :: "sysfs_env \<Rightarrow> u16 \<Rightarrow> u32 \<Rightarrow> u32 \<Rightarrow> string \<Rightarrow> (ninfo, string access) proc" where
  "kernel_read E pm minor d path i =
     (case (if d = minor then find_attr (dev (sys_of i)) path else None) of
        None \<Rightarrow> Some (Not_Opened, i)
      | Some (dir, x) \<Rightarrow>
          if en_mode x AND pm AND S_IRUGO = 0 then Some (Not_Opened, i)
          else do { ((r, t), i1) \<leftarrow> netana_attr_show dir x E i; Some (if r < 0 then Failed else Got t, i1) })"

definition kernel_write :: "sysfs_env \<Rightarrow> u16 \<Rightarrow> u32 \<Rightarrow> u32 \<Rightarrow> string \<Rightarrow> string \<Rightarrow> (ninfo, unit access) proc" where
  "kernel_write E pm minor d path t i =
     (case (if d = minor then find_attr (dev (sys_of i)) path else None) of
        None \<Rightarrow> Some (Not_Opened, i)
      | Some (dir, x) \<Rightarrow>
          if en_mode x AND pm AND S_IWUGO = 0 then Some (Not_Opened, i)
          else do { (r, i1) \<leftarrow> netana_attr_store dir x E t i; Some (if r < 0 then Failed else Got (), i1) })"

definition pages :: "nat \<Rightarrow> nat list" where
  "pages n = replicate (n div PAGE_SIZE) PAGE_SIZE @ (if n mod PAGE_SIZE = 0 then [] else [n mod PAGE_SIZE])"

definition clamped :: "netana_sysfs_entry_bin \<Rightarrow> nat \<Rightarrow> nat" where
  "clamped b n = (if eb_size b = 0 then n else min n (eb_size b))"

fun read_pages :: "(nat \<Rightarrow> nat \<Rightarrow> (ninfo, int \<times> bytes) proc) \<Rightarrow> nat \<Rightarrow> nat list \<Rightarrow> (ninfo, bytes) proc" where
  "read_pages f off [] i = Some ([], i)"
| "read_pages f off (n # ns) i = do {
     ((r, b), i1) \<leftarrow> f off n i;
     if nat r < n then Some (take (nat r) b, i1)
     else do { (b1, i2) \<leftarrow> read_pages f (off + n) ns i1; Some (b @ b1, i2) }
   }"

fun write_pages :: "(nat \<Rightarrow> bytes \<Rightarrow> (ninfo, int) proc) \<Rightarrow> nat \<Rightarrow> nat list \<Rightarrow> bytes \<Rightarrow> (ninfo, nat) proc" where
  "write_pages f off [] b i = Some (0, i)"
| "write_pages f off (n # ns) b i = do {
     (r, i1) \<leftarrow> f off (take n b) i;
     if nat r < n then Some (nat r, i1)
     else do { (m, i2) \<leftarrow> write_pages f (off + n) ns (drop n b) i1; Some (n + m, i2) }
   }"

definition kernel_fread :: "sysfs_env \<Rightarrow> u16 \<Rightarrow> u32 \<Rightarrow> u32 \<Rightarrow> string \<Rightarrow> nat \<Rightarrow> (ninfo, bytes access) proc" where
  "kernel_fread E pm minor d path n i =
     (case (if d = minor then find_bin (dev (sys_of i)) path else None) of
        None \<Rightarrow> Some (Not_Opened, i)
      | Some (dir, x) \<Rightarrow>
          if eb_mode x AND pm AND S_IRUGO = 0 then Some (Not_Opened, i)
          else case eb_read x of None \<Rightarrow> Some (Failed, i)
          | Some f \<Rightarrow> do { (b, i1) \<leftarrow> read_pages (f E (sd_objnum dir)) 0 (pages (clamped x n)) i; Some (Got b, i1) })"

definition kernel_fwrite :: "sysfs_env \<Rightarrow> u16 \<Rightarrow> u32 \<Rightarrow> u32 \<Rightarrow> string \<Rightarrow> bytes \<Rightarrow> (ninfo, nat access) proc" where
  "kernel_fwrite E pm minor d path b i =
     (case (if d = minor then find_bin (dev (sys_of i)) path else None) of
        None \<Rightarrow> Some (Not_Opened, i)
      | Some (dir, x) \<Rightarrow>
          if eb_mode x AND pm AND S_IWUGO = 0 then Some (Not_Opened, i)
          else case eb_write x of None \<Rightarrow> Some (Failed, i)
          | Some f \<Rightarrow> do { (n, i1) \<leftarrow> write_pages (f E (sd_objnum dir)) 0 (pages (clamped x (length b))) b i; Some (Got n, i1) })"

definition kernel_size :: "u32 \<Rightarrow> u32 \<Rightarrow> string \<Rightarrow> ninfo \<Rightarrow> nat" where
  "kernel_size minor d path i =
     (case (if d = minor then find_bin (dev (sys_of i)) path else None) of None \<Rightarrow> 0 | Some (dir, x) \<Rightarrow> eb_size x)"

definition kernel_io :: "sysfs_env \<Rightarrow> u16 \<Rightarrow> u32 \<Rightarrow> ninfo attr_io" where
  "kernel_io E pm minor = \<lparr>io_read = kernel_read E pm minor, io_write = kernel_write E pm minor,
     io_fread = kernel_fread E pm minor, io_fwrite = kernel_fwrite E pm minor, io_size = kernel_size minor,
     io_stat = (\<lambda>f i. True), io_scandir = (\<lambda>i. [''netanalyzer_'' @ radix 10 (unat minor)]), io_garbage = 0\<rparr>"

lemma kernel_io_simps [simp]:
  "io_read (kernel_io E pm minor) = kernel_read E pm minor" "io_write (kernel_io E pm minor) = kernel_write E pm minor"
  "io_fread (kernel_io E pm minor) = kernel_fread E pm minor" "io_fwrite (kernel_io E pm minor) = kernel_fwrite E pm minor"
  "io_size (kernel_io E pm minor) = kernel_size minor"
  by (simp_all add: kernel_io_def)

section \<open>Finding the files\<close>

lemma name_of_path:
  assumes "CHR ''/'' \<notin> set name"
  shows "dirname (p @ CHR ''/'' # name) = p" "basename (p @ CHR ''/'' # name) = name"
  using assms by (simp_all add: dirname_def basename_def dropWhile_append takeWhile_append)

lemma find_attr_SomeD:
  "find_attr d path = Some (dir, x) \<Longrightarrow> dir \<in> set (sysfs_dirs d) \<and> x \<in> set (sd_attrs dir) \<and> en_name x = basename path"
  by (auto simp: find_attr_def find_Some_iff split: option.split_asm)

section \<open>The tree gives what the library relies on\<close>

text \<open>Every entry which can be opened has its function, but for three files which are only written although
  their mode says they can be read; and only the priority of the DSR is refused without an error.\<close>

definition write_only :: "string list" where
  "write_only = [''set_voltage'', ''fw_error'', ''identify'']"

definition entry_reports :: "netana_sysfs_entry \<Rightarrow> bool" where
  "entry_reports x \<longleftrightarrow> entry_ok x \<and>
     (en_mode x AND S_IRUGO \<noteq> 0 \<longrightarrow> en_name x \<notin> set write_only \<longrightarrow> en_show x \<noteq> None) \<and>
     (en_mode x AND S_IWUGO \<noteq> 0 \<longrightarrow> en_name x \<noteq> ''dsr'' \<longrightarrow> en_store x \<noteq> None)"

lemma entry_reports_attr [simp]: "entry_reports (attr_entry n m sh st) \<longleftrightarrow> entry_ok (attr_entry n m sh st) \<and>
    (m AND S_IRUGO \<noteq> 0 \<longrightarrow> n \<notin> set write_only \<longrightarrow> sh \<noteq> None) \<and>
    (m AND S_IWUGO \<noteq> 0 \<longrightarrow> n \<noteq> ''dsr'' \<longrightarrow> st \<noteq> None)"
  by (simp add: entry_reports_def attr_entry_def)

lemma phy_reports [simp]: "entry_reports (phy_regval n)"
  by (simp add: entry_reports_def) (simp add: phy_regval_def attr_entry_def)

lemma entries_report: "list_all (\<lambda>dir. list_all entry_reports (sd_attrs dir)) (sysfs_dirs d)"
  by (simp add: sysfs_dirs_def Let_def plain_dir_def numbered_all attrs_defs list_all_iff[of entry_reports "map phy_regval _"] write_only_def)

lemma entry_of_file:
  assumes "find_attr d p = Some (dir, x)"
  shows "entry_reports x" "en_name x = basename p"
  using find_attr_SomeD[OF assms] entries_report[of d] by (auto simp: list_all_iff)

lemma mode_bits: "(m :: u16) AND pm AND c \<noteq> 0 \<Longrightarrow> m AND c \<noteq> 0"
  using and.left_commute[of m pm c] by auto

definition kernel_ok :: "sysfs_env \<Rightarrow> u16 \<Rightarrow> ninfo \<Rightarrow> bool" where
  "kernel_ok E pm i \<longleftrightarrow> tasks_ok (na_tasks i) \<and> cu_kzalloc (se_current E) \<and> pm AND S_IRUGO \<noteq> 0"

lemma protocol_ok: "kernel_ok E pm i \<Longrightarrow> error_protocol (se_current E) r (na_tasks i) (na_tasks i') \<Longrightarrow> kernel_ok E pm i'"
  by (simp add: kernel_ok_def error_protocol_def)

lemma kernel_read_error:
  assumes "pm AND S_IRUGO \<noteq> 0"
  shows "kernel_read E pm minor minor error_file i = Some (Got (sprintf ''0x%X\<newline>'' [W (get_err (se_current E) (na_tasks i))]), i)"
proof -
  have "find_attr (dev (sys_of i)) error_file = Some (plain_dir ''driver_information/driver_information'' drvinfo_attrs [], drvinfo_show_error)"
    by (simp add: find_attr_def sysfs_dirs_def Let_def plain_dir_def dirname_def basename_def attrs_defs attr_entry_def)
  moreover have "en_mode drvinfo_show_error AND pm AND S_IRUGO \<noteq> 0"
    using assms by (simp add: drvinfo_show_error_def attr_entry_def and.commute and.left_commute)
  ultimately show ?thesis
    by (simp add: kernel_read_def netana_attr_show_def)
      (simp add: drvinfo_show_error_def attr_entry_def netana_get_last_error_def put_text_def)
qed

lemma kernel_read_fails:
  assumes "kernel_ok E pm i" "kernel_read E pm minor minor p i = Some (r, i')"
  shows "kernel_ok E pm i' \<and> (r = Failed \<and> basename p \<notin> set write_only \<longrightarrow> get_err (se_current E) (na_tasks i') \<noteq> NETANA_NO_ERROR)"
proof (cases "r = Not_Opened \<or> find_attr (dev (sys_of i)) p = None")
  case True
  then show ?thesis
    using assms by (auto simp: kernel_read_def bind_eq_Some_conv split: option.split_asm if_split_asm prod.split_asm)
next
  case False
  then obtain dir x v t where x: "find_attr (dev (sys_of i)) p = Some (dir, x)" "en_mode x AND pm AND S_IRUGO \<noteq> 0"
      "netana_attr_show dir x E i = Some ((v, t), i')" "r = (if v < 0 then Failed else Got t)"
    using assms(2) by (auto simp: kernel_read_def bind_eq_Some_conv split: if_split_asm)
  note rep = entry_of_file[OF x(1)]
  have t: "tasks_ok (na_tasks i)"
    using assms(1) by (simp add: kernel_ok_def)
  show ?thesis
  proof (cases "en_show x")
    case None
    then show ?thesis
      using x assms(1) rep mode_bits[OF x(2)] by (auto simp: netana_attr_show_def entry_reports_def)
  next
    case (Some f)
    then have "show_ok f"
      using rep(1) by (simp add: entry_reports_def entry_ok_def)
    then have "shown (se_current E) (na_tasks i) (v, t) (na_tasks i')"
      using x(3) Some by (auto simp: netana_attr_show_def show_ok_def)
    from shown_protocol[OF t this] show ?thesis
      using protocol_ok[OF assms(1)] assms(1) x(4) by (auto simp: error_protocol_def kernel_ok_def)
  qed
qed

lemma kernel_write_fails:
  assumes "kernel_ok E pm i" "kernel_write E pm minor minor p b i = Some (r, i')"
  shows "kernel_ok E pm i' \<and> (r = Failed \<and> basename p \<noteq> ''dsr'' \<longrightarrow> get_err (se_current E) (na_tasks i') \<noteq> NETANA_NO_ERROR)"
proof (cases "r = Not_Opened \<or> find_attr (dev (sys_of i)) p = None")
  case True
  then show ?thesis
    using assms by (auto simp: kernel_write_def bind_eq_Some_conv split: option.split_asm if_split_asm prod.split_asm)
next
  case False
  then obtain dir x v where x: "find_attr (dev (sys_of i)) p = Some (dir, x)" "en_mode x AND pm AND S_IWUGO \<noteq> 0"
      "netana_attr_store dir x E b i = Some (v, i')" "r = (if v < 0 then Failed else Got ())"
    using assms(2) by (auto simp: kernel_write_def bind_eq_Some_conv split: if_split_asm)
  note rep = entry_of_file[OF x(1)]
  have t: "tasks_ok (na_tasks i)"
    using assms(1) by (simp add: kernel_ok_def)
  show ?thesis
  proof (cases "basename p = ''dsr'' \<or> en_store x = None")
    case True
    then show ?thesis
      using x assms(1) t rep mode_bits[OF x(2)] protocol_ok[OF assms(1)]
      by (cases "en_store x") (fastforce simp: netana_attr_store_def entry_reports_def entry_ok_def store_ok_def)+
  next
    case False
    then obtain f where f: "en_store x = Some f" "store_ok {} f"
      using rep mode_bits[OF x(2)] by (auto simp: entry_reports_def entry_ok_def own_errors_def)
    then have "error_protocol (se_current E) v (na_tasks i) (na_tasks i') \<and> v \<in> {int (length b), - EPERM}"
      using x(3) t by (simp add: netana_attr_store_def store_ok_def)
    then show ?thesis
      using protocol_ok[OF assms(1)] assms(1) x(4) by (auto simp: error_protocol_def kernel_ok_def)
  qed
qed

interpretation driver_files: attribute_files "kernel_io E pm minor" minor "\<lambda>i. get_err (se_current E) (na_tasks i)"
    "kernel_ok E pm" "\<lambda>p. basename p \<notin> set write_only" "\<lambda>p. basename p \<noteq> ''dsr''" for E pm minor
proof unfold_locales
  fix i p r i'
  assume "kernel_ok E pm i" "io_read (kernel_io E pm minor) minor p i = Some (r, i')"
  then show "kernel_ok E pm i' \<and> (r = Failed \<and> basename p \<notin> set write_only \<longrightarrow> get_err (se_current E) (na_tasks i') \<noteq> NETANA_NO_ERROR)"
    unfolding kernel_io_simps by (rule kernel_read_fails)
next
  fix i p b u i'
  assume "kernel_ok E pm i" "io_write (kernel_io E pm minor) minor p b i = Some (u, i')"
  then show "kernel_ok E pm i' \<and> (u = Failed \<and> basename p \<noteq> ''dsr'' \<longrightarrow> get_err (se_current E) (na_tasks i') \<noteq> NETANA_NO_ERROR)"
    unfolding kernel_io_simps by (rule kernel_write_fails)
qed (simp add: kernel_read_error kernel_ok_def)

end
