(* ===== verification/Lib_Refines.thy ===== *)
theory Lib_Refines
  imports Lib_On_Driver
begin

text \<open>
  Which call of the toolkit a call of the library becomes on the driver, and that it returns the same result.
\<close>

section \<open>The files of the numbered directories\<close>

lemma radix_inject [simp]:
  assumes "2 \<le> b" "b \<le> 16"
  shows "radix b m = radix b n \<longleftrightarrow> m = n"
proof
  assume "radix b m = radix b n"
  then have "scan_digits b 0 (radix b m @ []) = scan_digits b 0 (radix b n @ [])"
    by (rule arg_cong)
  then show "m = n"
    unfolding scan_radix[OF assms] by simp
qed simp

lemma sint_unat:
  assumes "unat (w :: u32) < 2 ^ 31"
  shows "sint w = int (unat w)"
proof -
  have "uint w < 2 ^ 31"
    using assms unfolding uint_nat by (metis of_nat_less_iff of_nat_numeral of_nat_power)
  then have "signed_take_bit 31 (uint w) = uint w"
    by (intro signed_take_bit_int_eq_self) (auto intro: order_trans[of _ 0])
  then show ?thesis
    by (simp add: sint_uint)
qed

lemma print_signed_unat: "unat w < 2 ^ 31 \<Longrightarrow> print_signed w = radix 10 (unat w)"
  using sint_unat[of w] by (simp add: print_signed_def)

lemma print_signed_radix: "radix 10 n = print_signed w \<Longrightarrow> n = unat w"
proof (cases "sint w < 0")
  case True
  moreover assume "radix 10 n = print_signed w"
  ultimately show ?thesis
    using radix_head(2)[of 10 n "[]"] by (simp add: print_signed_def)
next
  case False
  moreover assume "radix 10 n = print_signed w"
  ultimately show ?thesis
    by (simp add: print_signed_def)
qed

definition group_dir :: "string \<Rightarrow> netana_sysfs_entry list \<Rightarrow> netana_sysfs_entry_bin list \<Rightarrow> nat \<Rightarrow> netana_sysfs_dir" where
  "group_dir p xs bs n = \<lparr>sd_path = p @ radix 10 n, sd_objnum = of_nat n, sd_attrs = xs, sd_bins = bs\<rparr>"

lemma find_numbered:
  assumes "cnt \<le> 2 ^ 31"
  shows "find (\<lambda>dir. sd_path dir = p @ print_signed w) (numbered p cnt xs bs) =
    (if unat w < cnt then Some (group_dir p xs bs (unat w)) else None)"
proof (cases "unat w < cnt")
  case True
  then show ?thesis
    using assms by (auto simp: find_Some_iff numbered_def print_signed_unat group_dir_def radix_inject intro!: exI[of _ "unat w"])
next
  case False
  then show ?thesis
    using print_signed_radix by (fastforce simp: find_None_iff numbered_def)
qed

lemma find_no_numbered: "(\<And>n. path \<noteq> p @ radix 10 n) \<Longrightarrow> find (\<lambda>dir. sd_path dir = path) (numbered p cnt xs bs) = None"
  by (auto simp: find_None_iff numbered_def)

lemma find_append: "find P (xs @ ys) = (case find P xs of None \<Rightarrow> find P ys | Some x \<Rightarrow> Some x)"
  by (induction xs) simp_all

lemma print_signed_neq_Nil [simp]: "print_signed w \<noteq> []"
  by (simp add: print_signed_def)

lemma find_group:
  assumes "ulGpioCnt d \<le> 4" "ulPortCnt d \<le> 4"
  shows "find (\<lambda>dir. sd_path dir = ''hw_resources/gpio/gpio'' @ print_signed w) (sysfs_dirs d) =
      (if w < ulGpioCnt d then Some (group_dir ''hw_resources/gpio/gpio'' gpio_attrs [] (unat w)) else None)"
    "find (\<lambda>dir. sd_path dir = ''hw_resources/port/port'' @ print_signed w) (sysfs_dirs d) =
      (if w < ulPortCnt d then Some (group_dir ''hw_resources/port/port'' port_attrs [] (unat w)) else None)"
  using assms
  by (simp_all add: sysfs_dirs_def Let_def find_append plain_dir_def find_numbered[of _ "''hw_resources/gpio/gpio''", simplified]
     find_numbered[of _ "''hw_resources/port/port''", simplified]
      find_no_numbered word_less_nat_alt word_le_nat_alt)

section \<open>One call\<close>

text \<open>What an attribute leaves when it answers with the error \<open>e\<close> of the toolkit.\<close>

definition replied :: "sysfs_env \<Rightarrow> u32 \<Rightarrow> ninfo \<Rightarrow> ninfo" where
  "replied E e i = (if e = NETANA_NO_ERROR then i else i\<lparr>na_tasks := snd (store_err (se_current E) e (na_tasks i))\<rparr>)"

lemma replied_frame [simp]: "sys_of (replied E e i) = sys_of i" "na_hdevice (replied E e i) = na_hdevice i"
  by (simp_all add: replied_def sys_of_def)

lemma replied_ok: "kernel_ok E pm i \<Longrightarrow> kernel_ok E pm (replied E e i)"
  using protocol_error[of "na_tasks i" e "se_current E"]
  by (simp add: kernel_ok_def replied_def error_protocol_def)

lemma get_err_replied: "kernel_ok E pm i \<Longrightarrow> e \<noteq> 0 \<Longrightarrow> get_err (se_current E) (na_tasks (replied E e i)) = e"
  using err_step[of "cu_pid (se_current E)" "Store_Err (se_current E) e" "na_tasks i"]
  by (simp add: kernel_ok_def replied_def get_err_of)

text \<open>The process that calls has the rights of the owner of the files.\<close>

abbreviation (input) owner :: u16 where "owner \<equiv> 0x1C0"

lemma print_call:
  assumes "find_attr (dev (sys_of i)) p = Some (dir, x)" "en_mode x AND owner AND S_IWUGO \<noteq> 0" "kernel_ok E owner i1"
    "netana_attr_store dir x E t i = (if e \<noteq> 0 then reject E e i1 else Some (int (length t), i1))"
  shows "print_attr (kernel_io E owner minor) minor p t lRet i = Some (e, replied E e i1)"
proof (cases "e = 0")
  case False
  then have "kernel_write E owner minor minor p t i = Some (Failed, replied E e i1)"
    using assms by (simp add: kernel_write_def replied_def)
  then show ?thesis
    using driver_files.get_error_last[OF replied_ok[OF assms(3)], of minor] get_err_replied[OF assms(3) False]
    by (simp add: print_attr_def)
qed (use assms in \<open>simp add: print_attr_def kernel_write_def replied_def\<close>)

lemma scan_call:
  assumes "find_attr (dev (sys_of i)) p = Some (dir, x)" "en_mode x AND owner AND S_IRUGO \<noteq> 0" "kernel_ok E owner i1"
    "netana_attr_show dir x E i = (if e \<noteq> 0 then refuse E e i1 else put_text u i1)" "0 < n"
    "e = 0 \<longrightarrow> sscanf u fmt = ys \<and> length ys = n"
  shows "scan_attr (kernel_io E owner minor) minor p fmt n lRet i = Some (if e \<noteq> 0 then Inl e else Inr ys, replied E e i1)"
proof (cases "e = 0")
  case False
  then have "kernel_read E owner minor minor p i = Some (Failed, replied E e i1)"
    using assms by (simp add: kernel_read_def replied_def)
  then show ?thesis
    using driver_files.get_error_last[OF replied_ok[OF assms(3)], of minor] get_err_replied[OF assms(3) False] assms(5) False
    by (simp add: scan_attr_def)
qed (use assms in \<open>simp add: scan_attr_def kernel_read_def replied_def put_text_def\<close>)

text \<open>A file which is not there.\<close>

lemma print_missing: "find_attr (dev (sys_of i)) p = None \<Longrightarrow> print_attr (kernel_io E pm minor) minor p t lRet i = Some (lRet, i)"
  by (simp add: print_attr_def kernel_write_def)

lemma scan_missing: "find_attr (dev (sys_of i)) p = None \<Longrightarrow> scan_attr (kernel_io E pm minor) minor p fmt n lRet i = Some (Inl lRet, i)"
  by (simp add: scan_attr_def kernel_read_def)

section \<open>An open device of the library on the driver\<close>

definition attached :: "sysfs_env \<Rightarrow> u32 \<Rightarrow> nat \<Rightarrow> ninfo lib \<Rightarrow> bool" where
  "attached E minor h L \<longleftrightarrow> h \<noteq> 0 \<and> h \<in> set (lb_cards L) \<and> li_iDeviceNum (lb_inst L h) = minor \<and>
     kernel_ok E owner (lb_sys L) \<and> na_hdevice (lb_sys L) \<and>
     ulGpioCnt (dev (sys_of (lb_sys L))) \<le> 4 \<and> ulPortCnt (dev (sys_of (lb_sys L))) \<le> 4"

lemma attached_handle: "attached E minor h L \<Longrightarrow> with_handle h g f L = on_sys (f (lb_inst L h)) L"
  by (simp add: attached_def with_handle_def CheckDeviceHandle_def)

lemma attached_idle: "attached E minor h L \<Longrightarrow> \<not> lib_IsCaptureRunning (lb_inst L h) \<Longrightarrow> with_idle h g f L = on_sys (f (lb_inst L h)) L"
  by (simp add: with_idle_def attached_handle on_sys_def)

lemma kernel_ok_set_sys [simp]: "kernel_ok E pm (set_sys s i) = kernel_ok E pm i"
  by (simp add: kernel_ok_def)

lemma kernel_ok_na_k [simp]: "kernel_ok E pm (i\<lparr>na_k := k\<rparr>) = kernel_ok E pm i"
  by (simp add: kernel_ok_def)

section \<open>GPIOs\<close>

lemma gpio_file_name: "gpio_file g t = ''hw_resources/gpio/gpio'' @ print_signed g @ t"
  by (simp add: gpio_file_def sprintf_def format_defs)

lemma find_gpio_attr:
  assumes "ulGpioCnt d \<le> 4" "ulPortCnt d \<le> 4" "CHR ''/'' \<notin> set name"
  shows "find_attr d (gpio_file g (''/'' @ name)) =
    (if g < ulGpioCnt d then map_option (Pair (group_dir ''hw_resources/gpio/gpio'' gpio_attrs [] (unat g))) (find (\<lambda>x. en_name x = name) gpio_attrs)
     else None)"
  using name_of_path[OF assms(3), of "''hw_resources/gpio/gpio'' @ print_signed g"] find_group(1)[OF assms(1,2), of g]
  by (simp add: find_attr_def gpio_file_name group_dir_def)

lemmas gpio_entries = gpio_attrs_def gpio_status_def gpio_level_def gpio_voltage_get_def attr_entry_def

text \<open>The call \<open>f\<close> of the toolkit on the device, and what becomes of the library's state.\<close>

definition toolkit_call :: "sysfs_env \<Rightarrow> (sys, u32) proc \<Rightarrow> (ninfo lib, u32) proc" where
  "toolkit_call E f L = do {
     (e, s) \<leftarrow> f (sys_of (lb_sys L));
     Some (e, L\<lparr>lb_sys := replied E e (set_sys s (lb_sys L))\<rparr>)
   }"

text \<open>A call that asks for a value.\<close>

definition toolkit_query :: "sysfs_env \<Rightarrow> (sys, u32 \<times> 'a) proc \<Rightarrow> (ninfo lib, u32 + 'a) proc" where
  "toolkit_query E f L = do {
     ((e, v), s) \<leftarrow> f (sys_of (lb_sys L));
     Some (if e \<noteq> NETANA_NO_ERROR then Inl e else Inr v, L\<lparr>lb_sys := replied E e (set_sys s (lb_sys L))\<rparr>)
   }"

lemma set_sys_same [simp]: "set_sys (sys_of i) i = i"
  by (simp add: set_sys_def sys_of_def upd_card_def upd_sys_def)

lemma gpio_mode_text: "sscanf (sprintf ''%d %d %d'' [W a, W b, W c]) ''%d %d %d'' = [W a, W b, W c]"
  "sscanf (sprintf ''%d %d %d\<newline>'' [W a, W b, W c]) ''%d %d %d'' = [W a, W b, W c]"
  by (rule sscanf_sprintf, simp add: format_defs)+

lemma one_number_text: "sscanf (sprintf ''%d'' [W a]) ''%d'' = [W a]" "sscanf (sprintf ''%d\<newline>'' [W a]) ''%d'' = [W a]"
  by (rule sscanf_sprintf, simp add: format_defs)+

lemma two_numbers_text: "sscanf (sprintf ''%d %d'' [W a, W b]) ''%d %d'' = [W a, W b]"
  "sscanf (sprintf ''%d %d\<newline>'' [W a, W b]) ''%d %d'' = [W a, W b]"
  by (rule sscanf_sprintf, simp add: format_defs)+

abbreviation (input) gpio_dir :: "u32 \<Rightarrow> netana_sysfs_dir" where
  "gpio_dir g \<equiv> group_dir ''hw_resources/gpio/gpio'' gpio_attrs [] (unat g)"

lemma gpio_found:
  assumes "attached E minor h L" "g < ulGpioCnt (dev (sys_of (lb_sys L)))"
  shows "find_attr (dev (sys_of (lb_sys L))) (gpio_file g ''/status'') = Some (gpio_dir g, gpio_status)"
    "find_attr (dev (sys_of (lb_sys L))) (gpio_file g ''/level'') = Some (gpio_dir g, gpio_level)"
    "find_attr (dev (sys_of (lb_sys L))) (gpio_file g ''/voltage'') = Some (gpio_dir g, gpio_voltage_get)"
  using assms find_gpio_attr[of "dev (sys_of (lb_sys L))" "''status''" g] find_gpio_attr[of "dev (sys_of (lb_sys L))" "''level''" g]
    find_gpio_attr[of "dev (sys_of (lb_sys L))" "''voltage''" g]
  by (simp_all add: attached_def gpio_entries)

lemma gpio_missing:
  assumes "attached E minor h L" "\<not> g < ulGpioCnt (dev (sys_of (lb_sys L)))"
  shows "find_attr (dev (sys_of (lb_sys L))) (gpio_file g ''/status'') = None"
    "find_attr (dev (sys_of (lb_sys L))) (gpio_file g ''/level'') = None"
    "find_attr (dev (sys_of (lb_sys L))) (gpio_file g ''/voltage'') = None"
  using assms find_gpio_attr[of "dev (sys_of (lb_sys L))" "''status''" g] find_gpio_attr[of "dev (sys_of (lb_sys L))" "''level''" g]
    find_gpio_attr[of "dev (sys_of (lb_sys L))" "''voltage''" g]
  by (simp_all add: attached_def)

lemma group_dir_objnum [simp]: "sd_objnum (group_dir p xs bs n) = of_nat n"
  by (simp add: group_dir_def)

text \<open>How a call on an attribute becomes a call of the toolkit.\<close>

lemma print_is_call:
  assumes "attached E minor h L" "find_attr (dev (sys_of (lb_sys L))) p = Some (dir, x)" "en_mode x AND owner AND S_IWUGO \<noteq> 0"
    "netana_attr_store dir x E t (lb_sys L) = do {
       (e, i1) \<leftarrow> on_device f (lb_sys L);
       if e \<noteq> NETANA_NO_ERROR then reject E e i1 else Some (int (length t), i1) }"
  shows "on_sys (print_attr (kernel_io E owner minor) minor p t lRet) L = toolkit_call E f L"
proof (cases "f (sys_of (lb_sys L))")
  case None
  then show ?thesis
    using assms(2-4) by (simp add: on_sys_def toolkit_call_def print_attr_def kernel_write_def on_device_def)
next
  case (Some es)
  then obtain e s where e: "f (sys_of (lb_sys L)) = Some (e, s)"
    by (cases es) simp
  have "print_attr (kernel_io E owner minor) minor p t lRet (lb_sys L) = Some (e, replied E e (set_sys s (lb_sys L)))"
    by (rule print_call[OF assms(2,3)]) (use assms(1,4) e in \<open>simp_all add: attached_def on_device_def\<close>)
  then show ?thesis
    using e by (simp add: on_sys_def toolkit_call_def)
qed

lemma scan_is_query:
  assumes "attached E minor h L" "find_attr (dev (sys_of (lb_sys L))) p = Some (dir, x)" "en_mode x AND owner AND S_IRUGO \<noteq> 0"
    "netana_attr_show dir x E (lb_sys L) = do {
       ((e, v), i1) \<leftarrow> on_device f (lb_sys L);
       if e \<noteq> NETANA_NO_ERROR then refuse E e i1 else put_text (u v) i1 }"
    "\<And>v s. f (sys_of (lb_sys L)) = Some ((NETANA_NO_ERROR, v), s) \<Longrightarrow> length (sscanf (u v) fmt) = n \<and> g (sscanf (u v) fmt) = g' v" "0 < n"
  shows "on_sys (\<lambda>s. do { (r, s1) \<leftarrow> scan_attr (kernel_io E owner minor) minor p fmt n lRet s; Some (map_sum id g r, s1) }) L =
    toolkit_query E (\<lambda>s. do { ((e, v), s1) \<leftarrow> f s; Some ((e, g' v), s1) }) L"
proof (cases "f (sys_of (lb_sys L))")
  case None
  then show ?thesis
    using assms(2-4) by (simp add: on_sys_def toolkit_query_def scan_attr_def kernel_read_def on_device_def)
next
  case (Some es)
  then obtain e v s where e: "f (sys_of (lb_sys L)) = Some ((e, v), s)"
    by (metis prod.exhaust)
  have "scan_attr (kernel_io E owner minor) minor p fmt n lRet (lb_sys L) =
      Some (if e \<noteq> 0 then Inl e else Inr (sscanf (u v) fmt), replied E e (set_sys s (lb_sys L)))"
    by (rule scan_call[OF assms(2,3), where n = n and u = "u v"])
      (use assms(1,4,6) assms(5)[of v s] e in \<open>auto simp: attached_def on_device_def\<close>)
  then show ?thesis
    using e assms(5)[of v s] by (simp add: on_sys_def toolkit_query_def)
qed

lemma gpio_mode_eta [simp]: "\<lparr>gm_ulMode = gm_ulMode m, gm_uData0 = gm_uData0 m, gm_uData1 = gm_uData1 m\<rparr> = m"
  by (cases m) simp

lemma attached_simps:
  assumes "attached E minor h L"
  shows "li_iDeviceNum (lb_inst L h) = minor" "na_hdevice (lb_sys L)" "kernel_ok E owner (lb_sys L)"
  using assms by (simp_all add: attached_def)

text \<open>The functions of the attributes as they are called.\<close>

lemmas attr_call_simps = attr_entry_def netana_attr_store_def netana_attr_show_def on_device_def Let_def case_prod_beta

lemma set_gpio_mode_call:
  assumes "attached E minor h L" "\<not> lib_IsCaptureRunning (lb_inst L h)" "g < ulGpioCnt (dev (sys_of (lb_sys L)))"
  shows "lib_netana_set_gpio_mode (kernel_io E owner minor) h g m L = toolkit_call E (\<lambda>s. Some (netana_set_gpio_mode g m s)) L"
  unfolding lib_netana_set_gpio_mode_def attached_idle[OF assms(1,2)] attached_simps(1)[OF assms(1)]
  by (rule print_is_call[OF assms(1) gpio_found(1)[OF assms(1,3)]])
    (simp_all add: attr_call_simps gpio_status_def netana_store_gpio_mode_def gpio_mode_text attached_simps(2)[OF assms(1)])

lemma get_gpio_mode_call:
  assumes "attached E minor h L" "\<not> lib_IsCaptureRunning (lb_inst L h)" "g < ulGpioCnt (dev (sys_of (lb_sys L)))"
  shows "lib_netana_get_gpio_mode (kernel_io E owner minor) h g L =
    toolkit_query E (\<lambda>s. Some (netana_get_gpio_mode g \<lparr>gm_ulMode = 0, gm_uData0 = 0, gm_uData1 = 0\<rparr> s, s)) L"
  unfolding lib_netana_get_gpio_mode_def attached_idle[OF assms(1,2)] attached_simps(1)[OF assms(1)]
  by (subst scan_is_query[OF assms(1) gpio_found(1)[OF assms(1,3)],
        where u = "\<lambda>m. sprintf ''%d %d %d\<newline>'' [W (gm_ulMode m), W (gm_uData0 m), W (gm_uData1 m)]" and g' = id
          and f = "\<lambda>s. Some (netana_get_gpio_mode g \<lparr>gm_ulMode = 0, gm_uData0 = 0, gm_uData1 = 0\<rparr> s, s)"])
    (simp_all add: attr_call_simps gpio_status_def netana_gpio_get_reg_val_def gpio_mode_text attached_simps(2)[OF assms(1)])

lemma get_gpio_voltage_call:
  assumes "attached E minor h L" "g < ulGpioCnt (dev (sys_of (lb_sys L)))"
  shows "lib_netana_get_gpio_voltage (kernel_io E owner minor) h g True L =
    toolkit_query E (\<lambda>s. Some (map_prod id the (netana_get_gpio_voltage g (Some 0) s), s)) L"
  unfolding lib_netana_get_gpio_voltage_def attached_handle[OF assms(1)] attached_simps(1)[OF assms(1)] not_True_eq_False if_False
  by (subst scan_is_query[OF assms(1) gpio_found(3)[OF assms], where u = "\<lambda>v. sprintf ''%d\<newline>'' [W (the v)]" and g' = the
         and f = "\<lambda>s. Some (netana_get_gpio_voltage g (Some 0) s, s)"])
    (simp_all add: attr_call_simps gpio_voltage_get_def netana_get_gpiovoltage_def one_number_text attached_simps(2)[OF assms(1)]
       map_prod_def)

text \<open>A level that is not written as one digit is refused by the toolkit.\<close>

lemma set_gpio_output_call:
  assumes "attached E minor h L" "g < ulGpioCnt (dev (sys_of (lb_sys L)))"
  shows "lib_netana_set_gpio_output (kernel_io E owner minor) h g l L = toolkit_call E (\<lambda>s. Some (netana_set_gpio_output g l s)) L"
proof -
  let ?i = "lb_sys L" and ?t = "sprintf ''%d'' [W l]"
  have store: "netana_attr_store (gpio_dir g) gpio_level E ?t ?i = do {
       (e, i1) \<leftarrow> on_device (\<lambda>s. Some (netana_set_gpio_output g l s)) ?i;
       if e \<noteq> NETANA_NO_ERROR then reject E e i1 else Some (int (length ?t), i1) }"
    by (simp add: attr_call_simps gpio_level_def netana_store_gpio_level_def one_number_text attached_simps(2)[OF assms(1)])
  have one: "length ?t = 1" if "fst (netana_set_gpio_output g l (sys_of ?i)) = 0"
    using that by (auto simp: netana_set_gpio_output_def sprintf_def format_defs print_signed_def radix.simps split: if_split_asm)
  have "lib_netana_set_gpio_output (kernel_io E owner minor) h g l L =
      on_sys (print_attr (kernel_io E owner minor) minor (gpio_file g ''/level'') ?t NETANA_INVALID_PARAMETER) L"
    using store one gpio_found(2)[OF assms]
    by (cases "fst (netana_set_gpio_output g l (sys_of ?i)) = 0")
      (simp_all add: lib_netana_set_gpio_output_def attached_handle[OF assms(1)] attached_simps(1)[OF assms(1)] on_sys_def print_attr_def
        kernel_write_def attr_call_simps gpio_level_def)
  also have "\<dots> = toolkit_call E (\<lambda>s. Some (netana_set_gpio_output g l s)) L"
    by (rule print_is_call[OF assms(1) gpio_found(2)[OF assms] _ store]) (simp add: gpio_level_def attr_entry_def)
  finally show ?thesis .
qed

text \<open>The files which are there once.\<close>

lemmas tree_simps = find_attr_def sysfs_dirs_def Let_def dirname_def basename_def attrs_defs attr_entry_def

lemma set_voltage_found:
  "0 < ulGpioCnt d \<Longrightarrow> find_attr d ''hw_resources/gpio/voltage/set_voltage'' =
    Some (plain_dir ''hw_resources/gpio/voltage'' gpio_voltage_attrs [], gpio_voltage_set)"
  by (simp add: tree_simps plain_dir_def word_less_nat_alt)

lemma set_gpio_voltage_call:
  assumes "attached E minor h L" "0 < ulGpioCnt (dev (sys_of (lb_sys L)))"
  shows "lib_netana_set_gpio_voltage (kernel_io E owner minor) h m v L = toolkit_call E (\<lambda>s. Some (netana_set_gpio_voltage m v s)) L"
proof -
  have "netana_set_gpio_voltage m v s = (NETANA_INVALID_PARAMETER, s)" if "v \<noteq> 0" "v \<noteq> 1" for s
    using that by (simp add: netana_set_gpio_voltage_def Let_def)
  then show ?thesis
    unfolding lib_netana_set_gpio_voltage_def attached_handle[OF assms(1)] attached_simps(1)[OF assms(1)]
    by (intro print_is_call[OF assms(1) set_voltage_found[OF assms(2)]])
      (simp_all add: attr_call_simps gpio_voltage_set_def netana_set_gpiovoltage_def two_numbers_text attached_simps(2)[OF assms(1)])
qed

section \<open>State, clock and errors\<close>

lemma fixed_found:
  "find_attr d ''device_information/device_state/device_state'' =
    Some (plain_dir ''device_information/device_state'' drvstate_attrs [], netana_dev_state)"
  "find_attr d ''device_information/device_state/device_state_poll'' =
    Some (plain_dir ''device_information/device_state'' drvstate_attrs [], netana_dev_state_poll)"
  "find_attr d ''device_control/time/config'' = Some (plain_dir ''device_control/time'' time_config_attrs [], dev_time_config)"
  "find_attr d ''device_control/pi/config'' = Some (plain_dir ''device_control/pi'' pi_attrs [], dev_pi_config)"
  "find_attr d ''fw/fw_error'' = Some (plain_dir ''fw'' fwerror_attrs [], netana_fw_error)"
  "find_attr d ''device_control/mailbox/status'' =
    Some (plain_dir ''device_control/mailbox'' mailbox_attrs [mailbox_bin_attr], dev_mailbox_status)"
  "find_attr d ''device_config/timeout/config'' = Some (plain_dir ''device_config/timeout'' timeout_config_attrs [], dev_timeout_config)"
  "find_attr d ''device_information/ident_info/ident_info'' =
    Some (plain_dir ''device_information/ident_info'' device_ident_attrs [ident_bin], dev_ident_info)"
  by (simp_all add: tree_simps plain_dir_def)

definition state_query :: "sys \<Rightarrow> u32 \<times> u32 \<times> u32" where
  "state_query s = (case netana_get_state (Some 0) (Some 0) s of (e, st, er) \<Rightarrow> (e, the st, the er))"

lemma two_hex_text: "sscanf (sprintf ''0x%X 0x%X\<newline>'' [W a, W b]) ''0x%X 0x%X'' = [W a, W b]"
  by (rule sscanf_sprintf, simp add: format_defs)

lemma get_state_call:
  assumes "attached E minor h L"
  shows "lib_netana_get_state (kernel_io E owner minor) h L = toolkit_query E (\<lambda>s. Some (state_query s, s)) L"
  unfolding lib_netana_get_state_def attached_handle[OF assms(1)] attached_simps(1)[OF assms(1)]
  by (subst scan_is_query[OF assms(1) fixed_found(1), where u = "\<lambda>(st, er). sprintf ''0x%X 0x%X\<newline>'' [W st, W er]" and g' = id
         and f = "\<lambda>s. Some (state_query s, s)"])
    (simp_all add: attr_call_simps netana_dev_state_def devstate_show_def state_query_def two_hex_text attached_simps(2)[OF assms(1)])

lemma get_state_poll_call:
  assumes "attached E minor h L"
  shows "netana_get_state_poll (kernel_io E owner minor) h L =
    map_option (\<lambda>(r, L'). (r, L'\<lparr>lb_sys := (lb_sys L')\<lparr>na_k := ack_status (na_k (lb_sys L'))\<rparr>\<rparr>))
      (lib_netana_get_state (kernel_io E owner minor) h L)"
proof -
  let ?i = "lb_sys L" and ?ack = "\<lambda>i. i\<lparr>na_k := ack_status (na_k i)\<rparr>"
  obtain e st er where e: "state_query (sys_of ?i) = (e, st, er)"
    by (metis prod.exhaust)
  have "scan_attr (kernel_io E owner minor) minor ''device_information/device_state/device_state_poll'' ''0x%X 0x%X'' 2 NETANA_INVALID_HANDLE ?i =
     Some (if e \<noteq> 0 then Inl e else Inr [W st, W er], replied E e (?ack ?i))"
    by (rule scan_call[OF fixed_found(2), where u = "sprintf ''0x%X 0x%X\<newline>'' [W st, W er]"])
      (use e in \<open>simp_all add: attr_call_simps netana_dev_state_poll_def devstate_show_poll_def state_query_def two_hex_text
         attached_simps[OF assms] put_text_def\<close>)
  then show ?thesis
    using e by (simp add: netana_get_state_poll_def get_state_call[OF assms] toolkit_query_def attached_handle[OF assms] on_sys_def
        attached_simps(1)[OF assms] replied_def)
qed

lemma time_text: "sscanf (sprintf ''%llu'' [LL a]) ''%llu'' = [LL a]"
  by (rule sscanf_sprintf, simp add: format_defs)

lemma resync_time_call:
  assumes "attached E minor h L"
  shows "lib_netana_resync_time (kernel_io E owner minor) h t L = toolkit_call E (netana_resync_time t) L"
  unfolding lib_netana_resync_time_def attached_handle[OF assms(1)] attached_simps(1)[OF assms(1)]
  by (intro print_is_call[OF assms(1) fixed_found(3)])
    (simp_all add: attr_call_simps dev_time_config_def netana_time_config_def time_text attached_simps(2)[OF assms(1)])

lemma signal_drv_error_call:
  assumes "attached E minor h L"
  shows "netana_signal_drv_error (kernel_io E owner minor) h e L = toolkit_call E (netana_signal_driver_error e) L"
  unfolding netana_signal_drv_error_def attached_handle[OF assms(1)] attached_simps(1)[OF assms(1)]
  by (intro print_is_call[OF assms(1) fixed_found(5)])
    (simp_all add: attr_call_simps netana_fw_error_def fwerror_store_def one_number_text attached_simps(2)[OF assms(1)])

lemma config_pi_controller_call:
  assumes "attached E minor h L" "\<not> lib_IsCaptureRunning (lb_inst L h)"
  shows "lib_netana_config_pi_controller (kernel_io E owner minor) h p i L = toolkit_call E (\<lambda>s. Some (netana_config_pi_controller p i s)) L"
  unfolding lib_netana_config_pi_controller_def attached_idle[OF assms] attached_simps(1)[OF assms(1)]
  by (intro print_is_call[OF assms(1) fixed_found(4)])
    (simp_all add: attr_call_simps dev_pi_config_def netana_pi_config_def two_numbers_text attached_simps(2)[OF assms(1)])

section \<open>Timeouts and PHYs\<close>

text \<open>The state of the library after its process has told the driver a timeout.\<close>

definition timed :: "sysfs_env \<Rightarrow> u32 \<Rightarrow> ninfo \<Rightarrow> ninfo" where
  "timed E t i = i\<lparr>na_tasks := store_timeout (se_current E) t (na_tasks i)\<rparr>"

lemma timed_simps [simp]: "sys_of (timed E t i) = sys_of i" "na_hdevice (timed E t i) = na_hdevice i"
  by (simp_all add: timed_def sys_of_def)

lemma timed_ok: "kernel_ok E pm i \<Longrightarrow> kernel_ok E pm (timed E t i)"
  using task_step_ok[of "na_tasks i" "Store_Timeout (se_current E) t"] by (simp add: kernel_ok_def timed_def)

lemma get_timeout_timed: "kernel_ok E pm i \<Longrightarrow> get_timeout (se_current E) (na_tasks (timed E t i)) = t"
  using timeout_step[of "na_tasks i" "cu_leader (se_current E)" "Store_Timeout (se_current E) t"]
  by (simp add: kernel_ok_def timed_def get_timeout_of)

lemma timeout_text: "sscanf (sprintf ''%u'' [W a]) ''%d'' = [W a]" "sscanf (sprintf ''%u'' [W a]) ''%u'' = [W a]"
  "sscanf (sprintf ''%u\<newline>'' [W a]) ''%u'' = [W a]"
  by (rule sscanf_sprintf, simp add: format_defs)+

lemma update_timeout_call:
  assumes "attached E minor h L"
  shows "update_timeout (kernel_io E owner minor) (lb_inst L h) t (lb_sys L) = Some (NETANA_NO_ERROR, timed E t (lb_sys L))"
proof -
  have "update_timeout (kernel_io E owner minor) (lb_inst L h) t (lb_sys L) = Some (0, replied E 0 (timed E t (lb_sys L)))"
    unfolding update_timeout_def attached_simps(1)[OF assms]
    by (rule print_call[OF fixed_found(7)])
      (simp_all add: attr_call_simps dev_timeout_config_def netana_timeout_config_def timeout_text attached_simps[OF assms] timed_ok timed_def[symmetric])
  then show ?thesis
    by (simp add: replied_def)
qed

definition phy_file :: "u8 \<Rightarrow> u8 \<Rightarrow> string" where
  "phy_file num reg = sprintf ''%s%d%s%d'' [Str ''hw_resources/phy/phy'', W (ucast num), Str ''/regval'', W (ucast reg)]"

lemma unat_byte:
  fixes w :: u8
  shows "unat w < 2 ^ 31" "unat (ucast w :: u32) = unat w" "print_signed (ucast w) = radix 10 (unat w)"
proof -
  have "unat w < 2 ^ LENGTH(8)"
    by (rule unsigned_less)
  also have "(2 :: nat) ^ LENGTH(8) \<le> 2 ^ 31"
    by simp
  finally show s: "unat w < 2 ^ 31" .
  then show u: "unat (ucast w :: u32) = unat w"
    by (simp add: unsigned_ucast_eq take_bit_nat_eq_self)
  show "print_signed (ucast w) = radix 10 (unat w)"
    using print_signed_unat[of "ucast w"] u s by simp
qed

lemma find_phy_group:
  assumes "ulGpioCnt d \<le> 4" "ulPortCnt d \<le> 4"
  shows "find (\<lambda>dir. sd_path dir = ''hw_resources/phy/phy'' @ print_signed w) (sysfs_dirs d) =
      (if w < ulPortCnt d then Some (group_dir ''hw_resources/phy/phy'' phy_attrs [] (unat w)) else None)"
  using assms
  by (simp add: sysfs_dirs_def Let_def find_append plain_dir_def find_numbered[of _ "''hw_resources/phy/phy''", simplified]
      find_no_numbered word_less_nat_alt word_le_nat_alt)

lemma find_phy_reg: "find (\<lambda>x. en_name x = ''regval'' @ radix 10 r) phy_attrs = (if r < 32 then Some (phy_regval r) else None)"
proof (cases "r < 32")
  case True
  then show ?thesis
    by (auto simp: find_Some_iff phy_attrs_def phy_regval_def attr_entry_def intro!: exI[of _ r])
next
  case False
  then show ?thesis
    by (auto simp: find_None_iff phy_attrs_def phy_regval_def attr_entry_def)
qed

lemma digit_val_slash: "digit_val (CHR ''/'') = None"
  by (simp add: digit_val_def)

lemma digit_no_slash: "d < 16 \<Longrightarrow> CHR ''/'' \<noteq> digit_char d"
  using digit_val_char[of d] by (metis digit_val_slash option.distinct(1))

lemma radix_no_slash: "CHR ''/'' \<notin> set (radix 10 n)"
proof (induction n rule: less_induct)
  case (less n)
  have "n mod 10 < 16"
    by (rule less_trans[of _ 10]) simp_all
  then show ?case
    using less digit_no_slash[of "n mod 10"] digit_no_slash[of n] by (cases "n < 10") (auto simp: radix.simps[of 10 n])
qed

lemma phy_file_path:
  "phy_file num reg = (''hw_resources/phy/phy'' @ print_signed (ucast num)) @ CHR ''/'' # (''regval'' @ radix 10 (unat reg))"
  "dirname (phy_file num reg) = ''hw_resources/phy/phy'' @ print_signed (ucast num)"
  "basename (phy_file num reg) = ''regval'' @ radix 10 (unat reg)"
proof -
  show p: "phy_file num reg = (''hw_resources/phy/phy'' @ print_signed (ucast num)) @ CHR ''/'' # (''regval'' @ radix 10 (unat reg))"
    by (simp add: phy_file_def sprintf_def format_defs unat_byte(3))
  have "CHR ''/'' \<notin> set (''regval'' @ radix 10 (unat reg))"
    by (simp add: radix_no_slash)
  from name_of_path[OF this] show "dirname (phy_file num reg) = ''hw_resources/phy/phy'' @ print_signed (ucast num)"
    "basename (phy_file num reg) = ''regval'' @ radix 10 (unat reg)"
    unfolding p by blast+
qed

lemma find_phy:
  assumes "ulGpioCnt d \<le> 4" "ulPortCnt d \<le> 4"
  shows "find_attr d (phy_file num reg) =
    (if ucast num < ulPortCnt d \<and> unat reg < 32
     then Some (group_dir ''hw_resources/phy/phy'' phy_attrs [] (unat num), phy_regval (unat reg)) else None)"
  unfolding find_attr_def phy_file_path(2,3) find_phy_group[OF assms]
  by (simp add: find_phy_reg[simplified] group_dir_def unat_byte)

definition phy_call :: "sysfs_env \<Rightarrow> u32 \<Rightarrow> u8 \<Rightarrow> u8 \<Rightarrow> u16 \<Rightarrow> u32 \<Rightarrow> (ninfo lib, u32 \<times> u16 option) proc" where
  "phy_call E dir num reg v t L = do {
     ((e, v'), s) \<leftarrow> netana_access_phy_reg dir num reg v t (sys_of (lb_sys L));
     Some ((e, Some (if dir = NETANA_PHY_DIRECTION_READ \<and> e = NETANA_NO_ERROR then v' else v)),
       L\<lparr>lb_sys := replied E e (set_sys s (timed E t (lb_sys L)))\<rparr>)
   }"

lemma low_half [simp]: "ucast ((ucast (v :: u16) :: u32) AND 0xFFFF) = v" "ucast (0xFFFF AND (ucast v :: u32)) = v"
proof -
  have m: "(0xFFFF :: u32) = Bit_Operations.mask 16"
    by (simp add: mask_eq_exp_minus_1)
  show "ucast ((ucast v :: u32) AND 0xFFFF) = v" "ucast (0xFFFF AND (ucast v :: u32)) = v"
    unfolding m by (rule bit_word_eqI; simp add: bit_ucast_iff bit_and_iff bit_mask_iff)+
qed

lemma phy_objects: "ucast (of_nat (unat num) :: u32) = (num :: u8)" "ucast (en_objnum (phy_regval (unat reg))) = (reg :: u8)"
proof -
  have "ucast (of_nat (unat w) :: u32) = w" for w :: u8
    by (rule bit_word_eqI) (simp add: of_nat_unat bit_ucast_iff)
  then show "ucast (of_nat (unat num) :: u32) = num" "ucast (en_objnum (phy_regval (unat reg))) = reg"
    by (simp_all add: phy_regval_def)
qed

text \<open>The two accesses to the attribute of a register; the process has just set the timeout.\<close>

lemma phy_attr_read:
  assumes "attached E minor h L" "ucast num < ulPortCnt (dev (sys_of (lb_sys L)))" "unat reg < 32"
  shows "scan_attr (kernel_io E owner minor) minor (phy_file num reg) ''%u'' 1 lRet (timed E t (lb_sys L)) =
    (case netana_access_phy_reg NETANA_PHY_DIRECTION_READ num reg 0 t (sys_of (lb_sys L)) of
       None \<Rightarrow> None
     | Some ((e, v), s) \<Rightarrow> Some (if e \<noteq> 0 then Inl e else Inr [W (ucast v)], replied E e (set_sys s (timed E t (lb_sys L)))))"
proof -
  let ?i = "timed E t (lb_sys L)"
  have f: "find_attr (dev (sys_of ?i)) (phy_file num reg) =
      Some (group_dir ''hw_resources/phy/phy'' phy_attrs [] (unat num), phy_regval (unat reg))"
    using assms find_phy by (simp add: attached_def)
  have call: "netana_attr_show (group_dir ''hw_resources/phy/phy'' phy_attrs [] (unat num)) (phy_regval (unat reg)) E ?i = do {
      ((e, v), i1) \<leftarrow> on_device (netana_access_phy_reg NETANA_PHY_DIRECTION_READ num reg 0 t) ?i;
      if e \<noteq> NETANA_NO_ERROR then refuse E e i1 else put_text (sprintf ''%u\<newline>'' [W (ucast v)]) i1 }"
    using phy_objects attached_simps[OF assms(1)] get_timeout_timed[of E owner "lb_sys L" t]
    by (simp add: netana_attr_show_def netana_phy_get_reg_val_def) (simp add: phy_regval_def attr_entry_def netana_phy_get_reg_val_def)
  have mode: "en_mode (phy_regval n) AND owner AND S_IRUGO \<noteq> 0" for n
    by (simp add: phy_regval_def attr_entry_def)
  show ?thesis
  proof (cases "netana_access_phy_reg NETANA_PHY_DIRECTION_READ num reg 0 t (sys_of (lb_sys L))")
    case None
    then show ?thesis
      using f call mode by (simp add: scan_attr_def kernel_read_def on_device_def)
  next
    case (Some evs)
    then obtain e v s where e: "netana_access_phy_reg NETANA_PHY_DIRECTION_READ num reg 0 t (sys_of (lb_sys L)) = Some ((e, v), s)"
      by (metis prod.exhaust)
    have "scan_attr (kernel_io E owner minor) minor (phy_file num reg) ''%u'' 1 lRet ?i =
        Some (if e \<noteq> 0 then Inl e else Inr [W (ucast v)], replied E e (set_sys s ?i))"
      by (rule scan_call[OF f mode, where u = "sprintf ''%u\<newline>'' [W (ucast v)]"])
        (use call e attached_simps[OF assms(1)] timed_ok in \<open>simp_all add: on_device_def timeout_text\<close>)
    then show ?thesis
      using e by simp
  qed
qed

lemma phy_attr_write:
  assumes "attached E minor h L" "ucast num < ulPortCnt (dev (sys_of (lb_sys L)))" "unat reg < 32"
  shows "print_attr (kernel_io E owner minor) minor (phy_file num reg) (sprintf ''%u'' [W (ucast v)]) lRet (timed E t (lb_sys L)) =
    (case netana_access_phy_reg NETANA_PHY_DIRECTION_WRITE num reg v t (sys_of (lb_sys L)) of
       None \<Rightarrow> None
     | Some ((e, v'), s) \<Rightarrow> Some (e, replied E e (set_sys s (timed E t (lb_sys L)))))"
proof -
  let ?i = "timed E t (lb_sys L)" and ?t = "sprintf ''%u'' [W (ucast v)]"
  have f: "find_attr (dev (sys_of ?i)) (phy_file num reg) =
      Some (group_dir ''hw_resources/phy/phy'' phy_attrs [] (unat num), phy_regval (unat reg))"
    using assms find_phy by (simp add: attached_def)
  have call: "netana_attr_store (group_dir ''hw_resources/phy/phy'' phy_attrs [] (unat num)) (phy_regval (unat reg)) E ?t ?i = do {
      ((e, v'), i1) \<leftarrow> on_device (netana_access_phy_reg NETANA_PHY_DIRECTION_WRITE num reg v t) ?i;
      if e \<noteq> NETANA_NO_ERROR then reject E e i1 else Some (int (length ?t), i1) }"
    using phy_objects attached_simps[OF assms(1)] get_timeout_timed[of E owner "lb_sys L" t]
    by (simp add: netana_attr_store_def netana_phy_set_reg_val_def timeout_text)
      (simp add: phy_regval_def attr_entry_def netana_phy_set_reg_val_def timeout_text)
  have mode: "en_mode (phy_regval n) AND owner AND S_IWUGO \<noteq> 0" for n
    by (simp add: phy_regval_def attr_entry_def)
  show ?thesis
  proof (cases "netana_access_phy_reg NETANA_PHY_DIRECTION_WRITE num reg v t (sys_of (lb_sys L))")
    case None
    then show ?thesis
      using f call mode by (simp add: print_attr_def kernel_write_def on_device_def)
  next
    case (Some evs)
    then obtain e v' s where e: "netana_access_phy_reg NETANA_PHY_DIRECTION_WRITE num reg v t (sys_of (lb_sys L)) = Some ((e, v'), s)"
      by (metis prod.exhaust)
    have "print_attr (kernel_io E owner minor) minor (phy_file num reg) ?t lRet ?i = Some (e, replied E e (set_sys s ?i))"
      by (rule print_call[OF f mode]) (use call e attached_simps[OF assms(1)] timed_ok in \<open>simp_all add: on_device_def\<close>)
    then show ?thesis
      using e by simp
  qed
qed

lemma access_phy_call:
  assumes "attached E minor h L" "ucast num < ulPortCnt (dev (sys_of (lb_sys L)))" "unat reg < 32"
  shows "lib_netana_access_phy_reg (kernel_io E owner minor) h NETANA_PHY_DIRECTION_READ num reg (Some v) t L = do {
      ((e, v'), s) \<leftarrow> netana_access_phy_reg NETANA_PHY_DIRECTION_READ num reg 0 t (sys_of (lb_sys L));
      Some ((e, Some (if e = NETANA_NO_ERROR then v' else v)), L\<lparr>lb_sys := replied E e (set_sys s (timed E t (lb_sys L)))\<rparr>) }"
    "lib_netana_access_phy_reg (kernel_io E owner minor) h NETANA_PHY_DIRECTION_WRITE num reg (Some v) t L = do {
      ((e, v'), s) \<leftarrow> netana_access_phy_reg NETANA_PHY_DIRECTION_WRITE num reg v t (sys_of (lb_sys L));
      Some ((e, Some v), L\<lparr>lb_sys := replied E e (set_sys s (timed E t (lb_sys L)))\<rparr>) }"
  using phy_attr_read[OF assms, of 0 t] phy_attr_write[OF assms, of v 0 t]
  by (auto simp: lib_netana_access_phy_reg_def attached_handle[OF assms(1)] on_sys_def update_timeout_call[OF assms(1)]
      attached_simps(1)[OF assms(1)] phy_file_def[symmetric] split: option.split)

text \<open>A register which is not there: only the timeout is stored, and the call reports success.\<close>

lemma access_phy_missing:
  assumes "attached E minor h L" "\<not> (ucast num < ulPortCnt (dev (sys_of (lb_sys L))) \<and> unat reg < 32)"
  shows "lib_netana_access_phy_reg (kernel_io E owner minor) h dir num reg (Some v) t L =
    Some ((NETANA_NO_ERROR, Some v), L\<lparr>lb_sys := timed E t (lb_sys L)\<rparr>)"
proof -
  have "find_attr (dev (sys_of (timed E t (lb_sys L)))) (phy_file num reg) = None"
    using assms find_phy[of "dev (sys_of (lb_sys L))" num reg] by (auto simp: attached_def)
  then show ?thesis
    by (simp add: lib_netana_access_phy_reg_def attached_handle[OF assms(1)] on_sys_def update_timeout_call[OF assms(1)]
        attached_simps(1)[OF assms(1)] phy_file_def[symmetric] print_missing scan_missing Let_def)
qed

section \<open>Ports and mailboxes\<close>

lemma le64_halves: "take 4 (le64 w) = le32 (ucast w)" "take 4 (drop 4 (le64 w)) = le32 (ucast (drop_bit 32 w))"
proof -
  have "(ucast (drop_bit k w) :: u8) = ucast (drop_bit k (ucast w :: u32))" if "k \<le> 24" for k
    using that by (intro bit_word_eqI) (auto simp: bit_ucast_iff bit_drop_bit_eq)
  from this[of 0] this[of 8] this[of 16] this[of 24] show "take 4 (le64 w) = le32 (ucast w)"
    by (simp add: le64_def le32_def upt_rec)
  have "(ucast (drop_bit k w) :: u8) = ucast (drop_bit (k - 32) (ucast (drop_bit 32 w) :: u32))" if "32 \<le> k" "k \<le> 56" for k
    using that by (intro bit_word_eqI) (auto simp: bit_ucast_iff bit_drop_bit_eq)
  from this[of 32] this[of 40] this[of 48] this[of 56] show "take 4 (drop 4 (le64 w)) = le32 (ucast (drop_bit 32 w))"
    by (simp add: le64_def le32_def upt_rec)
qed

lemma rd64_le64 [simp]: "rd64 (le64 w) = w"
  unfolding rd64_def le64_halves rd32_le32
  by (rule bit_word_eqI) (auto simp: bit_or_iff bit_push_bit_iff bit_ucast_iff bit_drop_bit_eq)

lemma port_state_counter: "port_state_args (counter_bytes c) =
   [W (cb_ulLinkState c), LL (cb_ullFramesReceivedOk c), LL (cb_ullRXErrors c), LL (cb_ullAlignmentErrors c),
    LL (cb_ullFrameCheckSequenceErrors c), LL (cb_ullFrameTooLongErrors c), LL (cb_ullSFDErrors c), LL (cb_ullShortFrame c),
    LL (cb_ullFramesRejected c), LL (cb_ullLongPreambleCnt c), LL (cb_ullShortPreambleCnt c), LL (cb_ullBytesLineBusy c),
    W (cb_ullMinIFG c), LL (cb_ullTime c)]"
  by (simp add: port_state_args_def counter_bytes_def upt_rec)

lemma port_state_text:
  "sscanf (sprintf ''%d %llu %llu %llu %llu %llu %llu %llu %llu %llu %llu %llu %d %llu\<newline>'' (port_state_args (counter_bytes c)))
     ''%d %llu %llu %llu %llu %llu %llu %llu %llu %llu %llu %llu %d %llu'' = port_state_args (counter_bytes c)"
  unfolding port_state_counter by (rule sscanf_sprintf) (simp add: format_defs)

lemma length_port_state_args [simp]: "length (port_state_args b) = 14"
  by (simp add: port_state_args_def)

lemma port_state_bytes_args: "port_state_bytes (port_state_args (counter_bytes c)) = counter_bytes c"
  unfolding port_state_counter by (simp add: port_state_bytes_def counter_bytes_def upt_rec numeral_eq_Suc)

lemma port_file_name: "sprintf ''%s%d%s'' [Str ''hw_resources/port/port'', W g, Str ''/status''] =
    (''hw_resources/port/port'' @ print_signed g) @ CHR ''/'' # ''status''"
  by (simp add: sprintf_def format_defs)

lemma find_port:
  assumes "ulGpioCnt d \<le> 4" "ulPortCnt d \<le> 4"
  shows "find_attr d ((''hw_resources/port/port'' @ print_signed g) @ CHR ''/'' # ''status'') =
    (if g < ulPortCnt d then Some (group_dir ''hw_resources/port/port'' port_attrs [] (unat g), port_status) else None)"
proof -
  note name = name_of_path[of "''status''" "''hw_resources/port/port'' @ print_signed g"]
  show ?thesis
    unfolding find_attr_def name[simplified] find_group(2)[OF assms] append.append_Cons append.append_Nil
    by (simp add: name[simplified] find_group(2)[OF assms, simplified] group_dir_def port_attrs_def port_status_def attr_entry_def)
qed

lemma portstat_bytes:
  "netana_get_portstat g 104 (replicate 104 0) s = Some ((NETANA_NO_ERROR, b), s') \<Longrightarrow> \<exists>c. b = counter_bytes c"
proof -
  assume "netana_get_portstat g 104 (replicate 104 0) s = Some ((NETANA_NO_ERROR, b), s')"
  then obtain c where "b = blit 0 (take 104 (counter_bytes c)) (replicate 104 0)"
    by (auto simp: netana_get_portstat_def Let_def bind_eq_Some_conv split: if_split_asm)
  then have "b = counter_bytes c"
    by (simp add: counter_bytes_def blit_def)
  then show ?thesis
    by blast
qed

lemma get_portstat_call:
  assumes "attached E minor h L" "g < ulPortCnt (dev (sys_of (lb_sys L)))"
  shows "lib_netana_get_portstat (kernel_io E owner minor) h g n stack L = toolkit_query E
    (\<lambda>s. do { ((e, b), s1) \<leftarrow> netana_get_portstat g 104 (replicate 104 0) s; Some ((e, copy_struct n b stack), s1) }) L"
proof -
  have f: "find_attr (dev (sys_of (lb_sys L))) (sprintf ''%s%d%s'' [Str ''hw_resources/port/port'', W g, Str ''/status'']) =
      Some (group_dir ''hw_resources/port/port'' port_attrs [] (unat g), port_status)"
    using assms find_port by (simp add: attached_def port_file_name)
  show ?thesis
    unfolding lib_netana_get_portstat_def attached_handle[OF assms(1)] attached_simps(1)[OF assms(1)]
    by (rule scan_is_query[OF assms(1) f, where
         u = "\<lambda>b. sprintf ''%d %llu %llu %llu %llu %llu %llu %llu %llu %llu %llu %llu %d %llu\<newline>'' (port_state_args b)"])
      (auto simp: attr_call_simps port_status_def netana_port_get_reg_val_def attached_simps(2)[OF assms(1)]
        port_state_text port_state_bytes_args dest!: portstat_bytes) 
qed

lemma mbx_text: "sscanf (sprintf ''%u %u\<newline>'' [W a, W b]) ''%d %d'' = [W a, W b]"
  by (rule sscanf_sprintf, simp add: format_defs)

text \<open>The counters go to the variables the caller has given.\<close>

lemma get_mbx_state_call:
  assumes "attached E minor h L" "r \<noteq> None \<or> t \<noteq> None"
  shows "lib_netana_get_mbx_state (kernel_io E owner minor) h r t L =
    (case netana_get_mbx_state r t (sys_of (lb_sys L)) of (e, r', t') \<Rightarrow>
       Some ((e, r', t'), L\<lparr>lb_sys := replied E e (lb_sys L)\<rparr>))"
proof -
  let ?s = "sys_of (lb_sys L)"
  obtain e a b where e: "netana_get_mbx_state (Some 16) (Some 0) ?s = (e, a, b)"
    by (metis prod.exhaust)
  have "scan_attr (kernel_io E owner minor) minor ''device_control/mailbox/status'' ''%d %d'' 2 NETANA_INVALID_PARAMETER (lb_sys L) =
      Some (if e \<noteq> 0 then Inl e else Inr [W (the a), W (the b)], replied E e (lb_sys L))"
    by (rule scan_call[OF fixed_found(6), where u = "sprintf ''%u %u\<newline>'' [W (the a), W (the b)]"])
      (use e in \<open>simp_all add: attr_call_simps dev_mailbox_status_def netana_read_mbx_status_def mbx_text attached_simps[OF assms(1)]\<close>)
  then show ?thesis
    using e assms(2)
    by (auto simp: lib_netana_get_mbx_state_def attached_handle[OF assms(1)] attached_simps(1)[OF assms(1)] on_sys_def
        netana_get_mbx_state_def split: if_split_asm)
qed

section \<open>Packets\<close>

lemma find_mailbox: "find_bin d ''device_control/mailbox/mailbox'' =
    Some (plain_dir ''device_control/mailbox'' mailbox_attrs [mailbox_bin_attr], mailbox_bin_attr)"
  by (simp add: find_bin_def sysfs_dirs_def Let_def dirname_def basename_def plain_dir_def mailbox_bin_attr_def)

lemma one_page: "0 < n \<Longrightarrow> n \<le> PAGE_SIZE \<Longrightarrow> pages n = [n]"
  by (cases "n = PAGE_SIZE") (simp_all add: pages_def)

lemma mailbox_fread:
  assumes "0 < n" "n \<le> PAGE_SIZE"
  shows "kernel_fread E owner minor minor ''device_control/mailbox/mailbox'' n i =
    (case netana_read_mbx_packet_bin E n i of None \<Rightarrow> None
     | Some ((r, b), i1) \<Rightarrow> Some (Got (if nat r < n then take (nat r) b else b), i1))"
  using assms
  by (auto simp: kernel_fread_def find_mailbox mailbox_bin_attr_def clamped_def one_page split: option.split)

lemma mailbox_fwrite:
  assumes "b \<noteq> []" "length b \<le> PAGE_SIZE"
  shows "kernel_fwrite E owner minor minor ''device_control/mailbox/mailbox'' b i =
    (case netana_write_mbx_packet_bin E b i of None \<Rightarrow> None
     | Some (r, i1) \<Rightarrow> Some (Got (if nat r < length b then nat r else length b), i1))"
  using assms
  by (auto simp: kernel_fwrite_def find_mailbox mailbox_bin_attr_def clamped_def one_page split: option.split)

lemma packet_bytes_neq_Nil: "packet_bytes p \<noteq> []"
  by (metis add_is_0 length_packet_bytes list.size(3) zero_neq_numeral)

lemma packet_bytes_behind: "packet_bytes p @ h = packet_bytes (p\<lparr>pk_abData := pk_abData p @ h\<rparr>)"
  by (simp add: packet_bytes_def header_words_def)

lemma put_packet_behind:
  assumes "packet_wf p" "length (pk_abData p) + 40 < 2 ^ 32"
  shows "netana_put_packet m (read_packet (packet_bytes p @ h)) t s = netana_put_packet m p t s"
proof -
  have a: "packet_size (p\<lparr>pk_abData := pk_abData p @ h\<rparr>) = packet_size p"
    by (simp add: packet_size_def)
  have b: "take (unat (packet_size p)) (packet_bytes (p\<lparr>pk_abData := pk_abData p @ h\<rparr>)) = take (unat (packet_size p)) (packet_bytes p)"
    using packet_size_wf[OF assms] by (simp add: packet_bytes_behind[symmetric])
  show ?thesis
    unfolding packet_bytes_behind read_packet_bytes netana_put_packet_def put_packet_def a b by (rule refl)
qed

lemma put_packet_call:
  assumes "attached E minor h L" "packet_wf p" "length (pk_abData p) \<le> 1556"
  shows "lib_netana_put_packet (kernel_io E owner minor) h (Some p) t L =
    (case netana_put_packet (se_mutex E) p t (sys_of (lb_sys L)) of None \<Rightarrow> None
     | Some (e, s) \<Rightarrow> Some (e, L\<lparr>lb_sys := replied E e (set_sys s (timed E t (lb_sys L)))\<rparr>))"
proof -
  have l: "length (pk_abData p) + 40 < 2 ^ 32"
    using assms(3) by simp
  have size: "unat (packet_size p) = 40 + length (pk_abData p)"
    using packet_size_wf[OF assms(2) l] by simp
  have len: "\<not> pk_ulLen p > NETANA_MAX_DATA_SIZE"
    using assms(2,3) by (simp add: packet_wf_def word_less_nat_alt)
  let ?i = "timed E t (lb_sys L)"
  have store: "netana_write_mbx_packet_bin E (packet_bytes p) ?i = do {
      (e, i1) \<leftarrow> on_device (netana_put_packet (se_mutex E) p t) ?i;
      if e \<noteq> NETANA_NO_ERROR then reject E e i1 else Some (int (length (packet_bytes p)), i1) }"
    using attached_simps[OF assms(1)] get_timeout_timed[of E owner "lb_sys L" t] put_packet_behind[OF assms(2) l]
    by (simp add: netana_write_mbx_packet_bin_def on_device_def)
  have wr: "kernel_fwrite E owner minor minor ''device_control/mailbox/mailbox'' (packet_bytes p) ?i =
      (case netana_put_packet (se_mutex E) p t (sys_of (lb_sys L)) of None \<Rightarrow> None
       | Some (e, s) \<Rightarrow> Some (Got (if e = 0 then length (packet_bytes p) else 0), replied E e (set_sys s ?i)))"
    using mailbox_fwrite[OF packet_bytes_neq_Nil, of p E minor ?i] assms(3) store
    by (auto simp: on_device_def replied_def split: option.split)
  have "kernel_ok E owner (set_sys s ?i)" for s
    using attached_simps[OF assms(1)] by (simp add: timed_ok)
  note err = driver_files.get_error_last[OF replied_ok[OF this], of minor] get_err_replied[OF this]
  show ?thesis
    using wr size by (auto simp: lib_netana_put_packet_def attached_handle[OF assms(1)] on_sys_def update_timeout_call[OF assms(1)]
        len Let_def fwrite_attr_def attached_simps(1)[OF assms(1)] err split: option.split)
qed

lemma get_packet_length:
  assumes "netana_get_packet m n buf t s = Some ((e, b), s')" "unat n \<le> length buf"
  shows "length b = length buf"
  using assms
  by (auto simp: netana_get_packet_def get_packet_def Let_def bind_eq_Some_conv word_le_nat_alt not_less min_def split: if_split_asm)

lemma get_packet_call:
  assumes "attached E minor h L" "40 \<le> n" "n \<le> 4096" "length (se_page E) = PAGE_SIZE"
  shows "lib_netana_get_packet (kernel_io E owner minor) h n buf t L =
    (case netana_get_packet (se_mutex E) n (se_page E) t (sys_of (lb_sys L)) of None \<Rightarrow> None
     | Some ((e, b), s) \<Rightarrow> Some ((e, if e = NETANA_NO_ERROR then blit 0 (take (unat n) b) buf else buf),
         L\<lparr>lb_sys := replied E e (set_sys s (timed E t (lb_sys L)))\<rparr>))"
proof -
  have n: "0 < unat n" "unat n \<le> PAGE_SIZE" "\<not> n < 40"
    using assms(2,3) by (simp_all add: word_le_nat_alt word_less_nat_alt)
  let ?i = "timed E t (lb_sys L)"
  have shown: "netana_read_mbx_packet_bin E (unat n) ?i = do {
      ((e, b), i1) \<leftarrow> on_device (netana_get_packet (se_mutex E) n (se_page E) t) ?i;
      if e \<noteq> NETANA_NO_ERROR then refuse E e i1 else Some ((int (unat n), take (unat n) b), i1) }"
    using attached_simps[OF assms(1)] get_timeout_timed[of E owner "lb_sys L" t]
    by (simp add: netana_read_mbx_packet_bin_def on_device_def)
  have rd: "kernel_fread E owner minor minor ''device_control/mailbox/mailbox'' (unat n) ?i =
      (case netana_get_packet (se_mutex E) n (se_page E) t (sys_of (lb_sys L)) of None \<Rightarrow> None
       | Some ((e, b), s) \<Rightarrow> Some (Got (if e = 0 then take (unat n) b else []), replied E e (set_sys s ?i)))"
    using mailbox_fread[OF n(1,2), of E minor ?i] n(1) shown
    by (auto simp: on_device_def replied_def split: option.split)
  have len: "length b = PAGE_SIZE" if "netana_get_packet (se_mutex E) n (se_page E) t (sys_of (lb_sys L)) = Some ((e, b), s)" for e b s
    using get_packet_length[OF that] n(2) assms(4) by simp
  have "kernel_ok E owner (set_sys s ?i)" for s
    using attached_simps[OF assms(1)] by (simp add: timed_ok)
  note err = driver_files.get_error_last[OF replied_ok[OF this], of minor] get_err_replied[OF this]
  show ?thesis
    using rd n by (auto simp: lib_netana_get_packet_def attached_handle[OF assms(1)] on_sys_def update_timeout_call[OF assms(1)]
        fread_attr_def attached_simps(1)[OF assms(1)] err blit_def dest!: len split: option.split)
qed

section \<open>The calls of the library are calls of the toolkit\<close>

text \<open>C29: On the attribute tree of the driver, for an open device and the owner of its files, a call of the
  library is the call of the toolkit with the same parameters. It returns the result of the
  toolkit, error codes included, whatever it is; the device is left as the toolkit leaves it; and the last
  error of the calling thread is the only other thing that changes. The GPIO calls need the library to be
  idle where it asks for that. For a GPIO which the device does not have, and so has no file,
  the result is \<open>NETANA_INVALID_PARAMETER\<close> and nothing changes.\<close>

theorem device_calls:
  assumes "attached E minor h L" "io = kernel_io E owner minor" "d = dev (sys_of (lb_sys L))"
  shows "(\<not> lib_IsCaptureRunning (lb_inst L h) \<and> g < ulGpioCnt d \<longrightarrow>
       lib_netana_set_gpio_mode io h g m L = toolkit_call E (\<lambda>s. Some (netana_set_gpio_mode g m s)) L \<and>
       lib_netana_get_gpio_mode io h g L =
         toolkit_query E (\<lambda>s. Some (netana_get_gpio_mode g \<lparr>gm_ulMode = 0, gm_uData0 = 0, gm_uData1 = 0\<rparr> s, s)) L) \<and>
    (g < ulGpioCnt d \<longrightarrow>
       lib_netana_set_gpio_output io h g l L = toolkit_call E (\<lambda>s. Some (netana_set_gpio_output g l s)) L \<and>
       lib_netana_get_gpio_voltage io h g True L = toolkit_query E (\<lambda>s. Some (map_prod id the (netana_get_gpio_voltage g (Some 0) s), s)) L \<and>
       lib_netana_set_gpio_voltage io h l v L = toolkit_call E (\<lambda>s. Some (netana_set_gpio_voltage l v s)) L) \<and>
    (\<not> g < ulGpioCnt d \<and> \<not> lib_IsCaptureRunning (lb_inst L h) \<longrightarrow>
       lib_netana_set_gpio_mode io h g m L = Some (NETANA_INVALID_PARAMETER, L) \<and>
       lib_netana_get_gpio_mode io h g L = Some (Inl NETANA_INVALID_PARAMETER, L)) \<and>
    (\<not> lib_IsCaptureRunning (lb_inst L h) \<longrightarrow>
       lib_netana_config_pi_controller io h p q L = toolkit_call E (\<lambda>s. Some (netana_config_pi_controller p q s)) L) \<and>
    (g < ulPortCnt d \<longrightarrow> lib_netana_get_portstat io h g n stack L = toolkit_query E
       (\<lambda>s. do { ((e, b), s1) \<leftarrow> netana_get_portstat g 104 (replicate 104 0) s; Some ((e, copy_struct n b stack), s1) }) L) \<and>
    lib_netana_get_state io h L = toolkit_query E (\<lambda>s. Some (state_query s, s)) L \<and>
    lib_netana_resync_time io h t L = toolkit_call E (netana_resync_time t) L \<and>
    netana_signal_drv_error io h x L = toolkit_call E (netana_signal_driver_error x) L"
proof -
  have "0 < ulGpioCnt d" if "g < ulGpioCnt d"
    using that by (cases "ulGpioCnt d = 0") (simp_all add: word_gt_0)
  moreover have "lib_netana_set_gpio_mode io h g m L = Some (NETANA_INVALID_PARAMETER, L)"
      "lib_netana_get_gpio_mode io h g L = Some (Inl NETANA_INVALID_PARAMETER, L)"
    if "\<not> g < ulGpioCnt d" "\<not> lib_IsCaptureRunning (lb_inst L h)"
    using gpio_missing(1)[OF assms(1)] that assms(2,3) attached_simps(1)[OF assms(1)]
    by (simp_all add: lib_netana_set_gpio_mode_def lib_netana_get_gpio_mode_def attached_idle[OF assms(1)] on_sys_def
        print_missing scan_missing)
  ultimately show ?thesis
    unfolding assms(2,3)
    using set_gpio_mode_call[OF assms(1)] get_gpio_mode_call[OF assms(1)] set_gpio_output_call[OF assms(1)]
      get_gpio_voltage_call[OF assms(1)] set_gpio_voltage_call[OF assms(1)] config_pi_controller_call[OF assms(1)]
      get_portstat_call[OF assms(1)] get_state_call[OF assms(1)] resync_time_call[OF assms(1)] signal_drv_error_call[OF assms(1)]
    by blast
qed

text \<open>The sample device, opened by the library as its handle 5.\<close>

definition sample_lib :: "ninfo lib" where
  "sample_lib = \<lparr>lb_cards = [5],
     lb_inst = (\<lambda>_. zero_inst), lb_globals = libinit True, lb_files = (\<lambda>_. \<lparr>fs_bytes = [], fs_pos = 0, fs_room = 0, fs_open = False\<rparr>),
     lb_callbacks = [], lb_sys = set_sys sample sample_ninfo\<rparr>"

lemma sample_attached: "attached sample_env 0 5 sample_lib" "\<not> lib_IsCaptureRunning (lb_inst sample_lib 5)"
    "sys_of (lb_sys sample_lib) = sample"
  by (simp_all add: attached_def sample_lib_def zero_inst_def kernel_ok_def sample_env_def sample_ninfo_def tasks_ok_def sample_dev_def
      lib_IsCaptureRunning_def) (simp_all add: sample_def sample_dev_def)

theorem device_calls_witness:
  "let io = kernel_io sample_env owner 0; pwm = \<lparr>gm_ulMode = NETANA_GPIO_MODE_OUTPUT_PWM, gm_uData0 = 5, gm_uData1 = 5\<rparr> in
     lib_netana_set_gpio_mode io 5 1 pwm sample_lib =
       Some (NETANA_INVALID_PARAMETER, sample_lib\<lparr>lb_sys := replied sample_env NETANA_INVALID_PARAMETER (lb_sys sample_lib)\<rparr>) \<and>
     lib_netana_set_gpio_mode io 5 4 pwm sample_lib = Some (NETANA_INVALID_PARAMETER, sample_lib)"
proof -
  note calls = device_calls[OF sample_attached(1) refl refl, unfolded sample_attached(3),
      where m = "\<lparr>gm_ulMode = NETANA_GPIO_MODE_OUTPUT_PWM, gm_uData0 = 5, gm_uData1 = 5\<rparr>"]
  have "netana_set_gpio_mode 1 \<lparr>gm_ulMode = NETANA_GPIO_MODE_OUTPUT_PWM, gm_uData0 = 5, gm_uData1 = 5\<rparr> sample = (NETANA_INVALID_PARAMETER, sample)"
    by (simp add: netana_set_gpio_mode_def sample_defs IsCaptureRunning_def)
  moreover have "1 < ulGpioCnt (dev sample)" "\<not> 4 < ulGpioCnt (dev sample)"
    by (simp_all add: sample_def sample_dev_def)
  moreover have "set_sys sample (lb_sys sample_lib) = lb_sys sample_lib"
    by (metis sample_attached(3) set_sys_same)
  ultimately show ?thesis
    using calls[of 1] calls[of 4] sample_attached(2,3) by (simp add: toolkit_call_def)
qed

text \<open>C31: The calls with a timeout, packets and PHY registers, store the timeout for their process first; the
  toolkit then works with this very timeout and the parameters of the call, its result and
  its errors come back, and a packet reaches the toolkit as it was given, a received one the caller. But
  for a PHY register that does not exist the call reports success and has only
  stored the timeout.\<close>

theorem timed_calls:
  assumes "attached E minor h L" "io = kernel_io E owner minor" "s = sys_of (lb_sys L)"
    "back = (\<lambda>e s1. L\<lparr>lb_sys := replied E e (set_sys s1 (timed E t (lb_sys L)))\<rparr>)"
  shows "get_timeout (se_current E) (na_tasks (timed E t (lb_sys L))) = t \<and>
    (packet_wf p \<and> length (pk_abData p) \<le> 1556 \<longrightarrow>
       lib_netana_put_packet io h (Some p) t L =
         (case netana_put_packet (se_mutex E) p t s of None \<Rightarrow> None | Some (e, s1) \<Rightarrow> Some (e, back e s1))) \<and>
    (40 \<le> n \<and> n \<le> 4096 \<and> length (se_page E) = PAGE_SIZE \<longrightarrow>
       lib_netana_get_packet io h n buf t L =
         (case netana_get_packet (se_mutex E) n (se_page E) t s of None \<Rightarrow> None
          | Some ((e, b), s1) \<Rightarrow> Some ((e, if e = NETANA_NO_ERROR then blit 0 (take (unat n) b) buf else buf), back e s1))) \<and>
    (ucast num < ulPortCnt (dev s) \<and> unat reg < 32 \<longrightarrow>
       lib_netana_access_phy_reg io h NETANA_PHY_DIRECTION_READ num reg (Some v) t L = do {
         ((e, v'), s1) \<leftarrow> netana_access_phy_reg NETANA_PHY_DIRECTION_READ num reg 0 t s;
         Some ((e, Some (if e = NETANA_NO_ERROR then v' else v)), back e s1) } \<and>
       lib_netana_access_phy_reg io h NETANA_PHY_DIRECTION_WRITE num reg (Some v) t L = do {
         ((e, v'), s1) \<leftarrow> netana_access_phy_reg NETANA_PHY_DIRECTION_WRITE num reg v t s;
         Some ((e, Some v), back e s1) }) \<and>
    (\<not> (ucast num < ulPortCnt (dev s) \<and> unat reg < 32) \<longrightarrow>
       lib_netana_access_phy_reg io h dir num reg (Some v) t L =
         Some ((NETANA_NO_ERROR, Some v), L\<lparr>lb_sys := timed E t (lb_sys L)\<rparr>))"
  unfolding assms(2-4)
  using get_timeout_timed[OF attached_simps(3)[OF assms(1)]] put_packet_call[OF assms(1)] get_packet_call[OF assms(1)]
    access_phy_call[OF assms(1)] access_phy_missing[OF assms(1)]
  by blast

text \<open>A packet of two bytes is sent, and a register of PHY 7 is written that does not exist.\<close>

theorem timed_calls_witness:
  "\<exists>L1. lib_netana_put_packet (kernel_io sample_env owner 0) 5 (Some sample_packet) 0 sample_lib = Some (NETANA_NO_ERROR, L1) \<and>
     lib_netana_access_phy_reg (kernel_io sample_env owner 0) 5 NETANA_PHY_DIRECTION_WRITE 7 0 (Some 1) 0 sample_lib =
       Some ((NETANA_NO_ERROR, Some 1), sample_lib\<lparr>lb_sys := timed sample_env 0 (lb_sys sample_lib)\<rparr>)"
proof -
  have "send_bit sample = 9" "bit_in_state sample 9 NETANA_BITSTATE_EQUAL"
    by (simp_all add: send_bit_def hostbit_def netxbit_def sample_defs)
  then obtain s1 where "netana_put_packet (se_mutex sample_env) sample_packet 0 sample = Some (NETANA_NO_ERROR, s1)"
    by (simp add: netana_put_packet_def put_packet_def sample_packet_def packet_size_def sample_env_def) (simp add: sample_defs)
  moreover have "packet_wf sample_packet" "length (pk_abData sample_packet) \<le> 1556" "\<not> (ucast (7 :: u8) < ulPortCnt (dev sample))"
    by (simp_all add: packet_wf_def sample_packet_def sample_defs)
  ultimately show ?thesis
    using timed_calls[OF sample_attached(1) refl refl refl, unfolded sample_attached(3), where p = sample_packet and t = 0 and num = 7]
    by auto
qed

section \<open>What a result tells\<close>

text \<open>The result of a call which prints one attribute, or scans one, compared with what the attribute
  did; \<open>lRet\<close> is the error for a file which cannot be opened.\<close>

definition write_told :: "sysfs_env \<Rightarrow> u16 \<Rightarrow> u32 \<Rightarrow> string \<Rightarrow> string \<Rightarrow> ninfo lib \<Rightarrow> u32 \<Rightarrow> ninfo lib \<Rightarrow> bool" where
  "write_told E pm minor path t L e L' \<longleftrightarrow> (\<exists>u. kernel_write E pm minor minor path t (lb_sys L) = Some (u, lb_sys L') \<and>
     (e = NETANA_NO_ERROR \<longleftrightarrow> u = Got ()) \<and>
     (u = Not_Opened \<longrightarrow> e = NETANA_INVALID_PARAMETER \<and> L' = L) \<and>
     (u = Failed \<longrightarrow> e = get_err (se_current E) (na_tasks (lb_sys L'))))"

definition read_told :: "sysfs_env \<Rightarrow> u16 \<Rightarrow> u32 \<Rightarrow> string \<Rightarrow> string \<Rightarrow> nat \<Rightarrow> u32 \<Rightarrow> ninfo lib \<Rightarrow> u32 + 'a \<Rightarrow> ninfo lib \<Rightarrow> bool" where
  "read_told E pm minor path fmt n lRet L x L' \<longleftrightarrow> (\<exists>r. kernel_read E pm minor minor path (lb_sys L) = Some (r, lb_sys L') \<and>
     (isl x \<longleftrightarrow> (\<forall>t. r = Got t \<longrightarrow> length (sscanf t fmt) \<noteq> n)) \<and>
     (r = Not_Opened \<longrightarrow> x = Inl lRet \<and> L' = L) \<and>
     (r = Failed \<longrightarrow> x = Inl (get_err (se_current E) (na_tasks (lb_sys L'))) \<and> x \<noteq> Inl NETANA_NO_ERROR))"

lemma print_told:
  assumes "kernel_ok E pm (lb_sys L)" "on_sys (print_attr (kernel_io E pm minor) minor p t NETANA_INVALID_PARAMETER) L = Some (e, L')"
    and "basename p \<noteq> ''dsr''"
  shows "write_told E pm minor p t L e L'"
proof -
  obtain k where k: "print_attr (kernel_io E pm minor) minor p t NETANA_INVALID_PARAMETER (lb_sys L) = Some (e, k)" "L' = L\<lparr>lb_sys := k\<rparr>"
    using assms(2) by (auto simp: on_sys_def bind_eq_Some_conv)
  obtain u where u: "kernel_write E pm minor minor p t (lb_sys L) = Some (u, k)"
      "e = (case u of Not_Opened \<Rightarrow> NETANA_INVALID_PARAMETER | Failed \<Rightarrow> get_err (se_current E) (na_tasks k) | Got _ \<Rightarrow> NETANA_NO_ERROR)"
      "u = Failed \<longrightarrow> e \<noteq> NETANA_NO_ERROR"
    using driver_files.print_attr_result[OF assms(1) k(1)] assms(3) unfolding kernel_io_simps by blast
  have "u = Not_Opened \<Longrightarrow> k = lb_sys L"
    using u(1) by (auto simp: kernel_write_def bind_eq_Some_conv split: option.split_asm if_split_asm prod.split_asm)
  then show ?thesis
    unfolding write_told_def using u k(2) by (cases u) (simp_all)
qed

lemma scan_told:
  assumes "kernel_ok E pm (lb_sys L)" "on_sys (scan_attr (kernel_io E pm minor) minor p fmt n lRet) L = Some (x, L')"
    and "basename p \<notin> set write_only" "0 < n"
  shows "read_told E pm minor p fmt n lRet L (map_sum id f x) L'"
proof -
  obtain k where k: "scan_attr (kernel_io E pm minor) minor p fmt n lRet (lb_sys L) = Some (x, k)" "L' = L\<lparr>lb_sys := k\<rparr>"
    using assms(2) by (auto simp: on_sys_def bind_eq_Some_conv)
  obtain r where r: "kernel_read E pm minor minor p (lb_sys L) = Some (r, k)"
      "x = (if r = Not_Opened then Inl lRet else if length (fscanf r fmt) = n then Inr (fscanf r fmt) else Inl (get_err (se_current E) (na_tasks k)))"
      "r = Failed \<longrightarrow> x = Inl (get_err (se_current E) (na_tasks k)) \<and> get_err (se_current E) (na_tasks k) \<noteq> NETANA_NO_ERROR"
    using driver_files.scan_attr_result[OF assms(1) k(1)] assms(3,4) by auto
  have "r = Not_Opened \<Longrightarrow> k = lb_sys L"
    using r(1) by (auto simp: kernel_read_def bind_eq_Some_conv split: option.split_asm if_split_asm prod.split_asm)
  then show ?thesis
    unfolding read_told_def using r k(2) by (cases r) (auto simp: isl_def)
qed

lemma on_sys_map: "on_sys (\<lambda>s. do { (r, s1) \<leftarrow> f s; Some (g r, s1) }) L = do { (r, L1) \<leftarrow> on_sys f L; Some (g r, L1) }"
  by (simp add: on_sys_def split: bind_split)

lemma scan_call_told:
  assumes "kernel_ok E pm (lb_sys L)" "0 < n" "basename p \<notin> set write_only"
    and "on_sys (\<lambda>s. do { (r, s1) \<leftarrow> scan_attr (kernel_io E pm minor) minor p fmt n lRet s; Some (map_sum id f r, s1) }) L = Some (x, L')"
  shows "read_told E pm minor p fmt n lRet L x L'"
  using scan_told[OF assms(1) _ assms(3,2)] assms(4) by (auto simp: on_sys_map bind_eq_Some_conv)

text \<open>A handle of the library for the device.\<close>

definition holds_device :: "sysfs_env \<Rightarrow> u16 \<Rightarrow> u32 \<Rightarrow> nat \<Rightarrow> ninfo lib \<Rightarrow> bool" where
  "holds_device E pm minor h L \<longleftrightarrow> CheckDeviceHandle h L = NETANA_NO_ERROR \<and> li_iDeviceNum (lb_inst L h) = minor \<and>
     \<not> lib_IsCaptureRunning (lb_inst L h) \<and> kernel_ok E pm (lb_sys L)"

lemma numbered_basename:
  "basename (gpio_file g ''/status'') = ''status''" "basename (gpio_file g ''/voltage'') = ''voltage''"
  "basename (gpio_file g ''/level'') = ''level''"
  "basename (sprintf ''%s%d%s'' [Str ''hw_resources/port/port'', W n, Str ''/status'']) = ''status''"
  using name_of_path(2)[of _ "''hw_resources/gpio/gpio'' @ print_signed g"] name_of_path(2)[of _ "''hw_resources/port/port'' @ print_signed n"]
  by (simp_all add: gpio_file_name sprintf_def format_defs)

lemma gpio_output_told:
  assumes "holds_device E pm minor h L" "lib_netana_set_gpio_output (kernel_io E pm minor) h g lvl L = Some (NETANA_NO_ERROR, L')"
  shows "kernel_write E pm minor minor (gpio_file g ''/level'') (sprintf ''%d'' [W lvl]) (lb_sys L) = Some (Got (), lb_sys L')"
proof -
  have h: "CheckDeviceHandle h L = NETANA_NO_ERROR" "li_iDeviceNum (lb_inst L h) = minor" and ok: "kernel_ok E pm (lb_sys L)"
    using assms(1) by (simp_all add: holds_device_def)
  let ?t = "sprintf ''%d'' [W lvl]"
  obtain u k where u: "kernel_write E pm minor minor (gpio_file g ''/level'') ?t (lb_sys L) = Some (u, k)"
      "(case u of Not_Opened \<Rightarrow> Some (NETANA_INVALID_PARAMETER, k) | Failed \<Rightarrow> get_error (kernel_io E pm minor) minor k
        | Got _ \<Rightarrow> if length ?t \<noteq> 1 then get_error (kernel_io E pm minor) minor k else Some (NETANA_NO_ERROR, k)) = Some (NETANA_NO_ERROR, lb_sys L')"
    using assms(2) h by (auto simp: lib_netana_set_gpio_output_def with_handle_def on_sys_def bind_eq_Some_conv)
  note w = kernel_write_fails[OF ok u(1)]
  have "get_error (kernel_io E pm minor) minor k = Some (get_err (se_current E) (na_tasks k), k)"
    by (rule driver_files.get_error_last) (use w in blast)
  then show ?thesis
    using u w numbered_basename(3)[of g] by (cases u) (auto split: if_split_asm)
qed

text \<open>The calls with more than one access.\<close>

lemma access_phy_told:
  assumes "holds_device E pm minor h L" "io = kernel_io E pm minor"
    and "lib_netana_access_phy_reg io h NETANA_PHY_DIRECTION_WRITE num reg (Some v) t L = Some ((NETANA_NO_ERROR, v'), L')"
  shows "\<exists>s1 u. update_timeout io (lb_inst L h) t (lb_sys L) = Some (NETANA_NO_ERROR, s1) \<and>
    kernel_write E pm minor minor (phy_file num reg)
      (sprintf ''%u'' [W (ucast v)]) s1 = Some (u, lb_sys L') \<and> u \<in> {Got (), Not_Opened}"
proof -
  have h: "CheckDeviceHandle h L = NETANA_NO_ERROR" "li_iDeviceNum (lb_inst L h) = minor" and ok: "kernel_ok E pm (lb_sys L)"
    using assms(1) by (simp_all add: holds_device_def)
  let ?p = "phy_file num reg"
  let ?t = "sprintf ''%u'' [W (ucast v)]"
  have dir: "(NETANA_PHY_DIRECTION_WRITE :: u32) \<noteq> NETANA_PHY_DIRECTION_READ"
    by simp
  obtain s1 k where s1: "update_timeout io (lb_inst L h) t (lb_sys L) = Some (NETANA_NO_ERROR, s1)"
      "print_attr io minor ?p ?t NETANA_NO_ERROR s1 = Some (NETANA_NO_ERROR, k)" "L' = L\<lparr>lb_sys := k\<rparr>"
    using assms(3) unfolding h(2)[symmetric]
    by (auto simp: h(1) dir phy_file_def lib_netana_access_phy_reg_def with_handle_def on_sys_def bind_eq_Some_conv Let_def split: if_split_asm)
  have ok1: "kernel_ok E pm s1"
    using driver_files.print_attr_result[OF ok s1(1)[unfolded update_timeout_def assms(2) h(2)]] by blast
  have "basename ?p \<noteq> ''dsr''"
    unfolding phy_file_path(3) by simp
  then obtain u where "kernel_write E pm minor minor ?p ?t s1 = Some (u, k)" "u \<noteq> Failed"
    using driver_files.print_attr_result[OF ok1 s1(2)[unfolded assms(2)]] unfolding kernel_io_simps by blast
  then show ?thesis
    using s1(1,3) by (cases u) auto
qed

text \<open>The file of a mask or value which cannot be opened.\<close>

lemma set_filter_missing:
  assumes "holds_device E pm minor h L" "filter_args_ok (Some f)" "0 < uf_ulFilterSize f"
    and "find_bin (dev (sys_of (lb_sys L))) (filter_file ulPort ''/maska'') = None"
  shows "lib_netana_set_filter (kernel_io E pm minor) h ulPort (Some f) None r L = Some (NETANA_NO_ERROR, L)"
proof -
  have "filter_args_ok None"
    by (simp add: filter_args_ok_def)
  then show ?thesis
    using assms by (simp add: lib_netana_set_filter_def with_idle_def with_handle_def on_sys_def holds_device_def write_half_def
        write_filter_file_def fwrite_attr_def kernel_fwrite_def word_gt_0)
qed

lemma holds_device_simps:
  assumes "holds_device E pm minor h L"
  shows "with_handle h z f L = on_sys (f (lb_inst L h)) L" "with_idle h z f L = on_sys (f (lb_inst L h)) L"
    "li_iDeviceNum (lb_inst L h) = minor" "kernel_ok E pm (lb_sys L)"
  using assms by (simp_all add: holds_device_def with_handle_def with_idle_def)

lemma plain_basenames [simp]: "basename ''hw_resources/gpio/voltage/set_voltage'' = ''set_voltage''"
  "basename ''device_control/time/config'' = ''config''" "basename ''device_control/pi/config'' = ''config''"
  "basename ''fw/fw_error'' = ''fw_error''" "basename ''device_information/ident_info/ident_info'' = ''ident_info''"
  "basename ''device_information/device_state/device_state'' = ''device_state''"
  "basename ''device_information/device_state/device_state_poll'' = ''device_state_poll''"
  "basename ''device_config/timeout/config'' = ''config''"
  by (simp_all add: basename_def)



end
