(* ===== verification/Lib_Filters.thy ===== *)
theory Lib_Filters
  imports Lib_Refines
begin

text \<open>
  The filter calls of the library on the driver: masks and values go through four binary files and the driver's
  copies, the relation file then makes the call of the toolkit.
\<close>

section \<open>The files of a filter\<close>

lemma filter_file_name: "filter_file g t = ''hw_resources/filter/filter'' @ print_signed g @ t"
  by (simp add: filter_file_def sprintf_def format_defs)

abbreviation (input) filter_dir :: "devinst \<Rightarrow> u32 \<Rightarrow> netana_sysfs_dir" where
  "filter_dir d g \<equiv> group_dir ''hw_resources/filter/filter'' filter_attrs (filter_bin_attr (unat (ulFilterSize d))) (unat g)"

lemma find_filter_group:
  assumes "ulGpioCnt d \<le> 4" "ulPortCnt d \<le> 4"
  shows "find (\<lambda>dir. sd_path dir = ''hw_resources/filter/filter'' @ print_signed w) (sysfs_dirs d) =
      (if w < ulGpioCnt d then Some (filter_dir d w) else None)"
  using assms
  by (simp add: sysfs_dirs_def Let_def find_append plain_dir_def find_numbered[of _ "''hw_resources/filter/filter''", simplified]
      find_no_numbered word_less_nat_alt word_le_nat_alt)

lemma find_relation:
  assumes "ulGpioCnt d \<le> 4" "ulPortCnt d \<le> 4"
  shows "find_attr d (filter_file g ''/relation'') = (if g < ulGpioCnt d then Some (filter_dir d g, netana_dev_filterRel) else None)"
  using name_of_path[of "''relation''" "''hw_resources/filter/filter'' @ print_signed g"] find_filter_group[OF assms, of g]
  by (simp add: find_attr_def filter_file_name group_dir_def filter_attrs_def netana_dev_filterRel_def attr_entry_def)

definition filter_names :: "string list" where
  "filter_names = [''vala'', ''maska'', ''valb'', ''maskb'']"

lemma find_filter_bin:
  assumes "ulGpioCnt d \<le> 4" "ulPortCnt d \<le> 4" "name \<in> set filter_names"
  shows "find_bin d (filter_file g (''/'' @ name)) =
    (if g < ulGpioCnt d then Some (filter_dir d g, filter_bin (unat (ulFilterSize d)) name) else None)"
proof -
  have "CHR ''/'' \<notin> set name"
    using assms(3) by (auto simp: filter_names_def)
  note name = name_of_path[OF this, of "''hw_resources/filter/filter'' @ print_signed g"]
  have "find (\<lambda>x. eb_name x = name) (filter_bin_attr n) = Some (filter_bin n name)" for n
    using assms(3) by (auto simp: filter_names_def filter_bin_attr_def filter_bin_def)
  then show ?thesis
    using name find_filter_group[OF assms(1,2), of g]
    by (simp add: find_bin_def filter_file_name group_dir_def)
qed

text \<open>The copy of the driver that a file writes.\<close>

definition stash :: "string \<Rightarrow> bytes \<Rightarrow> ninfo \<Rightarrow> ninfo" where
  "stash name b i =
     (if name = ''maska'' then i\<lparr>na_maska := b\<rparr> else if name = ''vala'' then i\<lparr>na_vala := b\<rparr>
      else if name = ''maskb'' then i\<lparr>na_maskb := b\<rparr> else i\<lparr>na_valb := b\<rparr>)"

lemma stash_simps [simp]: "sys_of (stash name b i) = sys_of i" "na_hdevice (stash name b i) = na_hdevice i"
  "kernel_ok E pm (stash name b i) = kernel_ok E pm i"
  by (simp_all add: stash_def sys_of_def kernel_ok_def)

definition padded :: "nat \<Rightarrow> bytes \<Rightarrow> bytes" where
  "padded n b = blit 0 (take n b) (replicate n 0)"

lemma filter_name_cases:
  assumes "name \<in> set filter_names"
  obtains "name = ''vala''" | "name = ''maska''" | "name = ''valb''" | "name = ''maskb''"
  using assms by (auto simp: filter_names_def)

lemma store_filter_stash:
  assumes "na_hdevice i" "name \<in> set filter_names" "b \<noteq> []" "length b \<le> unat (ulFilterSize (dev (sys_of i)))"
  shows "store_filter E name b i = Some (int (length b), stash name (blit 0 b (replicate (unat (ulFilterSize (dev (sys_of i)))) 0)) i)"
  by (rule filter_name_cases[OF assms(2)]) (use assms(1,3,4) in \<open>simp_all add: store_filter_def stash_def\<close>)

lemma filter_fwrite:
  assumes "ulGpioCnt (dev (sys_of i)) \<le> 4" "ulPortCnt (dev (sys_of i)) \<le> 4" "g < ulGpioCnt (dev (sys_of i))" "na_hdevice i"
    "name \<in> set filter_names" "b \<noteq> []" "n = unat (ulFilterSize (dev (sys_of i)))" "0 < n" "n \<le> PAGE_SIZE"
  shows "kernel_fwrite E owner minor minor (filter_file g (''/'' @ name)) b i = Some (Got (min (length b) n), stash name (padded n b) i)"
proof -
  have p: "pages (min (length b) n) = [min (length b) n]"
    using assms(6,8,9) by (intro one_page) auto
  have t: "take (min (length b) n) b = take n b" "length (take n b) = min (length b) n" "take n b \<noteq> []"
    using assms(6,8) by (simp_all add: min_def)
  have "store_filter E name (take n b) i = Some (int (min (length b) n), stash name (padded n b) i)"
    using store_filter_stash[OF assms(4,5) t(3), of E] t(2) assms(7) by (simp add: padded_def)
  then show ?thesis
    using assms(3,7,8) find_filter_bin[OF assms(1,2,5), of g] p t(1)
    by (simp add: kernel_fwrite_def filter_bin_def clamped_def)
qed

section \<open>Setting the filters\<close>

text \<open>A filter of the caller: buffers as long as it says.\<close>

definition filter_wf :: "netana_filter option \<Rightarrow> bool" where
  "filter_wf f \<longleftrightarrow> (case f of None \<Rightarrow> True | Some x \<Rightarrow> uf_ulFilterSize x > 0 \<longrightarrow>
     (\<exists>m v. uf_pbMask x = Some m \<and> uf_pbValue x = Some v \<and> unat (uf_ulFilterSize x) \<le> length m \<and> unat (uf_ulFilterSize x) \<le> length v))"

text \<open>Two filters which are the same for the toolkit.\<close>

definition filter_same :: "netana_filter option \<Rightarrow> netana_filter option \<Rightarrow> bool" where
  "filter_same f g \<longleftrightarrow> size_given f = size_given g \<and> (size_given f > 0 \<longrightarrow>
     (\<exists>x y m v m' v'. f = Some x \<and> g = Some y \<and> uf_pbMask x = Some m \<and> uf_pbValue x = Some v \<and> uf_pbMask y = Some m' \<and>
       uf_pbValue y = Some v' \<and> take (unat (size_given f)) m = take (unat (size_given f)) m' \<and>
       take (unat (size_given f)) v = take (unat (size_given f)) v'))"

lemma filter_same_empty: "size_given f = 0 \<Longrightarrow> validate_filter n f = 0 \<and> write_filter n f p = write_filter n None p"
  by (cases f) (simp_all add: size_given_def validate_filter_def write_filter_def)

lemma filter_same_half:
  assumes "filter_same f g"
  shows "validate_filter n f = validate_filter n g" "write_filter n f p = write_filter n g p"
  using assms filter_same_empty[of f n p] filter_same_empty[of g n p]
  by (cases "size_given f = 0"; force simp: filter_same_def validate_filter_def write_filter_def size_given_def word_neq_0_conv)+

lemma set_filter_same:
  "filter_same a a' \<Longrightarrow> filter_same b b' \<Longrightarrow> netana_set_filter g a b rel s = netana_set_filter g a' b' rel s"
  by (simp add: netana_set_filter_def filter_same_half[of a a'] filter_same_half[of b b'] Let_def)

definition half_names :: "string \<Rightarrow> bool" where
  "half_names c \<longleftrightarrow> c = ''a'' \<or> c = ''b''"

lemma half_name [simp]: "half_names c \<Longrightarrow> ''mask'' @ c \<in> set filter_names" "half_names c \<Longrightarrow> ''val'' @ c \<in> set filter_names"
  by (auto simp: half_names_def filter_names_def)

lemma write_file:
  assumes "attached E minor h L" "g < ulGpioCnt (dev (sys_of (lb_sys L)))" "name \<in> set filter_names" "b \<noteq> []"
    "n = unat (ulFilterSize (dev (sys_of (lb_sys L))))" "0 < n" "n \<le> PAGE_SIZE"
  shows "write_filter_file (kernel_io E owner minor) minor (filter_file g (''/'' @ name)) b (lb_sys L) =
    Some (if length b \<le> n then None else Some NETANA_INVALID_BUFFERSIZE, stash name (padded n b) (lb_sys L))"
proof -
  have d: "ulGpioCnt (dev (sys_of (lb_sys L))) \<le> 4" "ulPortCnt (dev (sys_of (lb_sys L))) \<le> 4" "na_hdevice (lb_sys L)"
    using assms(1) by (simp_all add: attached_def)
  have "kernel_size minor minor (filter_file g (''/'' @ name)) (stash name (padded n b) (lb_sys L)) = n"
    using find_filter_bin[OF d(1,2) assms(3), of g] assms(2,5) by (simp add: kernel_size_def filter_bin_def)
  then show ?thesis
    using filter_fwrite[OF d(1,2) assms(2) d(3) assms(3-7), of E minor] assms(5)
    by (simp add: write_filter_file_def fwrite_attr_def)
qed

text \<open>One filter, from a state that differs from that of the call in the copies of the driver only.\<close>

definition copies_only :: "ninfo \<Rightarrow> ninfo \<Rightarrow> bool" where
  "copies_only i j \<longleftrightarrow> sys_of j = sys_of i \<and> na_hdevice j = na_hdevice i \<and> na_tasks j = na_tasks i"

lemma copies_only_simps [simp]: "copies_only i i" "copies_only i j \<Longrightarrow> copies_only i (stash name b j)"
  by (simp_all add: copies_only_def) (simp add: stash_def)

lemma copies_only_hdevice: "copies_only i j \<Longrightarrow> na_hdevice j = na_hdevice i"
  by (simp add: copies_only_def)

lemma attached_copies: "attached E minor h L \<Longrightarrow> copies_only (lb_sys L) j \<Longrightarrow> attached E minor h (L\<lparr>lb_sys := j\<rparr>)"
  by (simp add: attached_def copies_only_def kernel_ok_def)

definition half_written :: "nat \<Rightarrow> string \<Rightarrow> netana_filter option \<Rightarrow> ninfo \<Rightarrow> ninfo" where
  "half_written n c f i = (if size_given f = 0 then i
     else stash (''val'' @ c) (padded n (take (unat (size_given f)) (the (uf_pbValue (the f)))))
            (stash (''mask'' @ c) (padded n (take (unat (size_given f)) (the (uf_pbMask (the f))))) i))"

lemma write_half_call:
  assumes "attached E minor h L" "g < ulGpioCnt (dev (sys_of (lb_sys L)))" "half_names c"
    "n = unat (ulFilterSize (dev (sys_of (lb_sys L))))" "0 < n" "n \<le> PAGE_SIZE" "filter_wf f" "copies_only (lb_sys L) j"
  shows "\<exists>j'. copies_only (lb_sys L) j' \<and> (unat (size_given f) \<le> n \<longrightarrow> j' = half_written n c f j) \<and>
    write_half (kernel_io E owner minor) minor g c f j = Some (if unat (size_given f) \<le> n then None else Some NETANA_INVALID_BUFFERSIZE, j')"
proof (cases "size_given f = 0")
  case True
  then show ?thesis
    using assms(8) by (auto simp: write_half_def half_written_def size_given_def split: option.split_asm option.split)
next
  case False
  then obtain x m v where f: "f = Some x" "uf_pbMask x = Some m" "uf_pbValue x = Some v" and
      l: "unat (uf_ulFilterSize x) \<le> length m" "unat (uf_ulFilterSize x) \<le> length v" "0 < unat (uf_ulFilterSize x)"
    using assms(7) by (auto simp: size_given_def filter_wf_def word_neq_0_conv unat_gt_0 split: option.split_asm)
  let ?k = "unat (uf_ulFilterSize x)"
  let ?j1 = "stash (''mask'' @ c) (padded n (take ?k m)) j"
  have d: "dev (sys_of j) = dev (sys_of (lb_sys L))" "dev (sys_of ?j1) = dev (sys_of (lb_sys L))"
    using assms(8) by (simp_all add: copies_only_def)
  have ne: "take ?k m \<noteq> []" "take ?k v \<noteq> []"
    using l by auto
  have w1: "write_filter_file (kernel_io E owner minor) minor (filter_file g (''/'' @ ''mask'' @ c)) (take ?k m) j =
      Some (if ?k \<le> n then None else Some NETANA_INVALID_BUFFERSIZE, ?j1)"
    using write_file[OF attached_copies[OF assms(1,8)], of g "''mask'' @ c" "take ?k m" n] assms(2-6) d ne l half_name(1)[OF assms(3)] by simp
  have w2: "write_filter_file (kernel_io E owner minor) minor (filter_file g (''/'' @ ''val'' @ c)) (take ?k v) ?j1 =
      Some (if ?k \<le> n then None else Some NETANA_INVALID_BUFFERSIZE, stash (''val'' @ c) (padded n (take ?k v)) ?j1)"
    using write_file[OF attached_copies[OF assms(1) copies_only_simps(2)[OF assms(8), of "''mask'' @ c" "padded n (take ?k m)"]],
        of g "''val'' @ c" "take ?k v" n]
      assms(2-6) d ne l half_name(2)[OF assms(3)] by simp
  show ?thesis
    using w1 w2 f l assms(8)
    by (auto simp: write_half_def half_written_def size_given_def Let_def)
qed

lemma padded_take: "k \<le> n \<Longrightarrow> k \<le> length b \<Longrightarrow> take k (padded n (take k b)) = take k b"
  by (simp add: padded_def blit_def)

text \<open>The filters the driver makes of its copies, once both halves are written.\<close>

lemma half_same:
  assumes "filter_wf f" "unat (size_given f) \<le> n"
    "size_given f > 0 \<longrightarrow> m = padded n (take (unat (size_given f)) (the (uf_pbMask (the f)))) \<and>
       v = padded n (take (unat (size_given f)) (the (uf_pbValue (the f))))"
  shows "filter_same (Some \<lparr>uf_ulFilterSize = size_given f, uf_pbMask = Some m, uf_pbValue = Some v\<rparr>) f"
proof (cases f)
  case None
  then show ?thesis
    by (simp add: filter_same_def size_given_def)
next
  case (Some x)
  show ?thesis
  proof (cases "uf_ulFilterSize x > 0")
    case True
    then obtain mx vx where "uf_pbMask x = Some mx" "uf_pbValue x = Some vx"
        "unat (uf_ulFilterSize x) \<le> length mx" "unat (uf_ulFilterSize x) \<le> length vx"
      using assms(1) Some by (auto simp: filter_wf_def)
    then show ?thesis
      using assms(2,3) Some True by (simp add: filter_same_def size_given_def padded_take)
  qed (use Some in \<open>simp add: filter_same_def size_given_def\<close>)
qed

lemma copies_written:
  fixes i :: ninfo and n :: nat and a b :: "netana_filter option"
  defines "j \<equiv> half_written n ''b'' b (half_written n ''a'' a i)"
  shows "size_given a > 0 \<longrightarrow> na_maska j = padded n (take (unat (size_given a)) (the (uf_pbMask (the a)))) \<and>
       na_vala j = padded n (take (unat (size_given a)) (the (uf_pbValue (the a))))"
    "size_given b > 0 \<longrightarrow> na_maskb j = padded n (take (unat (size_given b)) (the (uf_pbMask (the b)))) \<and>
       na_valb j = padded n (take (unat (size_given b)) (the (uf_pbValue (the b))))"
  by (simp_all add: j_def half_written_def stash_def)

text \<open>The relation file.\<close>

lemma relation_write:
  assumes "attached E minor h L" "g < ulGpioCnt (dev (sys_of (lb_sys L)))"
  shows "print_attr (kernel_io E owner minor) minor (filter_file g ''/relation'') (sprintf ''%d %d %d'' [W rel, W sa, W sb]) lRet (lb_sys L) =
    (let i = lb_sys L;
         (e, s) = netana_set_filter g (Some \<lparr>uf_ulFilterSize = sa, uf_pbMask = Some (na_maska i), uf_pbValue = Some (na_vala i)\<rparr>)
           (Some \<lparr>uf_ulFilterSize = sb, uf_pbMask = Some (na_maskb i), uf_pbValue = Some (na_valb i)\<rparr>) rel (sys_of i)
     in Some (e, replied E e (set_sys s i)))"
proof -
  let ?i = "lb_sys L"
  let ?f = "netana_set_filter g (Some \<lparr>uf_ulFilterSize = sa, uf_pbMask = Some (na_maska ?i), uf_pbValue = Some (na_vala ?i)\<rparr>)
           (Some \<lparr>uf_ulFilterSize = sb, uf_pbMask = Some (na_maskb ?i), uf_pbValue = Some (na_valb ?i)\<rparr>) rel"
  obtain e s where e: "?f (sys_of ?i) = (e, s)"
    by (cases "?f (sys_of ?i)")
  have f: "find_attr (dev (sys_of ?i)) (filter_file g ''/relation'') = Some (filter_dir (dev (sys_of ?i)) g, netana_dev_filterRel)"
    using assms find_relation by (simp add: attached_def)
  have "print_attr (kernel_io E owner minor) minor (filter_file g ''/relation'') (sprintf ''%d %d %d'' [W rel, W sa, W sb]) lRet ?i =
      Some (e, replied E e (set_sys s ?i))"
    by (rule print_call[OF f])
      (use e attached_simps[OF assms(1)] in \<open>simp_all add: attr_call_simps netana_dev_filterRel_def set_filter_def gpio_mode_text\<close>)
  then show ?thesis
    using e by simp
qed

lemma filter_wf_args: "filter_wf f \<Longrightarrow> filter_args_ok f"
  by (auto simp: filter_wf_def filter_args_ok_def split: option.splits)

lemma set_filter_too_long:
  assumes "\<not> IsCaptureRunning s" "filter_wf a" "filter_wf b"
    "size_given a > ulFilterSize (dev s) \<or> size_given b > ulFilterSize (dev s)"
  shows "netana_set_filter g a b rel s = (NETANA_INVALID_BUFFERSIZE, s)"
proof -
  have v: "validate_filter n f = (if size_given f > n then NETANA_INVALID_BUFFERSIZE else NETANA_NO_ERROR)" if "filter_wf f" for n f
    using that by (auto simp: validate_filter_def size_given_def filter_wf_def word_neq_0_conv split: option.splits)
      (metis word_coorder.extremum not_less_iff_gr_or_eq word_gt_0 order_less_trans)+
  show ?thesis
    using assms v[OF assms(2)] v[OF assms(3)] by (auto simp: netana_set_filter_def Let_def)
qed

lemma set_filter_call:
  assumes "attached E minor h L" "\<not> lib_IsCaptureRunning (lb_inst L h)" "\<not> IsCaptureRunning (sys_of (lb_sys L))"
    "g < ulGpioCnt (dev (sys_of (lb_sys L)))" "0 < ulFilterSize (dev (sys_of (lb_sys L)))"
    "ulFilterSize (dev (sys_of (lb_sys L))) \<le> 4096" "filter_wf a" "filter_wf b"
  shows "\<exists>i'. lib_netana_set_filter (kernel_io E owner minor) h g a b rel L =
      Some (fst (netana_set_filter g a b rel (sys_of (lb_sys L))), L\<lparr>lb_sys := i'\<rparr>) \<and>
    sys_of i' = snd (netana_set_filter g a b rel (sys_of (lb_sys L))) \<and> na_hdevice i'"
proof -
  let ?i = "lb_sys L" and ?n = "unat (ulFilterSize (dev (sys_of (lb_sys L))))"
  have n: "0 < ?n" "?n \<le> PAGE_SIZE"
    using assms(5,6) by (simp_all add: word_less_nat_alt word_le_nat_alt)
  obtain j where j: "copies_only ?i j" "unat (size_given a) \<le> ?n \<longrightarrow> j = half_written ?n ''a'' a ?i"
      "write_half (kernel_io E owner minor) minor g ''a'' a ?i = Some (if unat (size_given a) \<le> ?n then None else Some NETANA_INVALID_BUFFERSIZE, j)"
    using write_half_call[OF assms(1,4) _ refl n assms(7), of "''a''" ?i] by (auto simp: half_names_def)
  obtain k where k: "copies_only ?i k" "unat (size_given b) \<le> ?n \<longrightarrow> k = half_written ?n ''b'' b j"
      "write_half (kernel_io E owner minor) minor g ''b'' b j = Some (if unat (size_given b) \<le> ?n then None else Some NETANA_INVALID_BUFFERSIZE, k)"
    using write_half_call[OF assms(1,4) _ refl n assms(8) j(1), of "''b''"] by (auto simp: half_names_def)
  note calls = lib_netana_set_filter_def attached_idle[OF assms(1,2)] on_sys_def filter_wf_args[OF assms(7)] filter_wf_args[OF assms(8)]
    attached_simps(1)[OF assms(1)]
  show ?thesis
  proof (cases "unat (size_given a) \<le> ?n \<and> unat (size_given b) \<le> ?n")
    case False
    then have "netana_set_filter g a b rel (sys_of ?i) = (NETANA_INVALID_BUFFERSIZE, sys_of ?i)"
      using set_filter_too_long[OF assms(3,7,8)] by (auto simp: word_less_nat_alt)
    then show ?thesis
      using False j k attached_simps(2)[OF assms(1)] by (auto simp: calls copies_only_def)
  next
    case True
    obtain e s where e: "netana_set_filter g a b rel (sys_of ?i) = (e, s)"
      by (cases "netana_set_filter g a b rel (sys_of ?i)")
    have "netana_set_filter g (Some \<lparr>uf_ulFilterSize = size_given a, uf_pbMask = Some (na_maska k), uf_pbValue = Some (na_vala k)\<rparr>)
        (Some \<lparr>uf_ulFilterSize = size_given b, uf_pbMask = Some (na_maskb k), uf_pbValue = Some (na_valb k)\<rparr>) rel (sys_of ?i) = (e, s)"
      unfolding e[symmetric] using True j(2) k(2) copies_written[where n = ?n and a = a and b = b and i = ?i]
      by (intro set_filter_same half_same[OF assms(7)] half_same[OF assms(8)]) auto
    then have "print_attr (kernel_io E owner minor) minor (filter_file g ''/relation'')
        (sprintf ''%d %d %d'' [W rel, W (size_given a), W (size_given b)]) NETANA_INVALID_PARAMETER k = Some (e, replied E e (set_sys s k))"
      using relation_write[OF attached_copies[OF assms(1) k(1)], of g rel "size_given a" "size_given b"] assms(4) k(1)
      by (simp add: copies_only_def)
    then show ?thesis
      using True j(3) k(3) e attached_simps(2)[OF assms(1)] copies_only_hdevice[OF k(1)]
      by (intro exI[of _ "replied E e (set_sys s k)"]) (simp add: calls)
  qed
qed

section \<open>Reading the filters\<close>

text \<open>What a file of a filter holds.\<close>

definition filter_content :: "string \<Rightarrow> dpm_filter \<Rightarrow> bytes" where
  "filter_content name fl =
     (if name = ''maska'' then fp_pbMask (fl_A fl) else if name = ''vala'' then fp_pbValue (fl_A fl)
      else if name = ''maskb'' then fp_pbMask (fl_B fl) else fp_pbValue (fl_B fl))"

definition filters_ok :: "sys \<Rightarrow> u32 \<Rightarrow> bool" where
  "filters_ok s g \<longleftrightarrow> (\<forall>name \<in> set filter_names. length (filter_content name (filters (dpm s) ! unat g)) = unat (ulFilterSize (dev s)))"

lemma filters_ok_length: "filters_ok s g \<Longrightarrow> name \<in> set filter_names \<Longrightarrow>
    length (filter_content name (filters (dpm s) ! unat g)) = unat (ulFilterSize (dev s))"
  by (simp add: filters_ok_def)

lemma show_filter_content:
  assumes "na_hdevice i" "se_kzalloc E = (True, True)" "name \<in> set filter_names" "g < ulPortCnt (dev (sys_of i))"
    "filters_ok (sys_of i) g" "n \<le> unat (ulFilterSize (dev (sys_of i)))" "0 < n"
  shows "show_filter E g name 0 n i = Some ((int n, take n (filter_content name (filters (dpm (sys_of i)) ! unat g))), i)"
  using assms(1,2,4,6,7) filters_ok_length[OF assms(5,3)]
  by (rule_tac filter_name_cases[OF assms(3)])
    (simp_all add: show_filter_def netana_get_filter_def read_filter_def filter_content_def blit_def word_less_nat_alt Let_def)

lemma filter_fread:
  assumes "attached E minor h L" "g < ulGpioCnt (dev (sys_of (lb_sys L)))" "se_kzalloc E = (True, True)" "name \<in> set filter_names"
    "g < ulPortCnt (dev (sys_of (lb_sys L)))" "filters_ok (sys_of (lb_sys L)) g" "n \<le> unat (ulFilterSize (dev (sys_of (lb_sys L))))"
    "ulFilterSize (dev (sys_of (lb_sys L))) \<le> 4096"
  shows "kernel_fread E owner minor minor (filter_file g (''/'' @ name)) n (lb_sys L) =
    Some (Got (take n (filter_content name (filters (dpm (sys_of (lb_sys L))) ! unat g))), lb_sys L)"
proof -
  let ?i = "lb_sys L"
  have d: "ulGpioCnt (dev (sys_of ?i)) \<le> 4" "ulPortCnt (dev (sys_of ?i)) \<le> 4" "na_hdevice ?i"
    using assms(1) by (simp_all add: attached_def)
  have n: "n \<le> PAGE_SIZE"
    using assms(7,8) by (simp add: word_le_nat_alt)
  have c: "clamped (filter_bin (unat (ulFilterSize (dev (sys_of ?i)))) name) n = n"
    using assms(7) by (simp add: clamped_def filter_bin_def)
  show ?thesis
  proof (cases "n = 0")
    case True
    then show ?thesis
      using find_filter_bin[OF d(1,2) assms(4), of g] assms(2) c by (simp add: kernel_fread_def) (simp add: filter_bin_def pages_def)
  next
    case False
    then show ?thesis
      using find_filter_bin[OF d(1,2) assms(4), of g] assms(2) c one_page[OF _ n]
        show_filter_content[OF d(3) assms(3-7)] by (simp add: kernel_fread_def) (simp add: filter_bin_def)
  qed
qed

lemma blit_Nil [simp]: "map_option (blit 0 []) b = b"
  by (cases b) (simp_all add: blit_def)

lemma half_content: "half_names c \<Longrightarrow> filter_content (''mask'' @ c) fl = fp_pbMask (if c = ''a'' then fl_A fl else fl_B fl)"
  "half_names c \<Longrightarrow> filter_content (''val'' @ c) fl = fp_pbValue (if c = ''a'' then fl_A fl else fl_B fl)"
  by (auto simp: half_names_def filter_content_def)

lemma read_half_call:
  assumes "attached E minor h L" "g < ulGpioCnt (dev (sys_of (lb_sys L)))" "se_kzalloc E = (True, True)" "half_names c"
    "g < ulPortCnt (dev (sys_of (lb_sys L)))" "filters_ok (sys_of (lb_sys L)) g" "ulFilterSize (dev (sys_of (lb_sys L))) \<le> 4096"
    "filter_wf f" "limit = ulFilterSize (dev (sys_of (lb_sys L)))" "fl = filters (dpm (sys_of (lb_sys L))) ! unat g"
  shows "read_half (kernel_io E owner minor) minor g c limit f (lb_sys L) =
    Some ((NETANA_NO_ERROR, the (read_filter limit (if c = ''a'' then fl_A fl else fl_B fl) f)), lb_sys L)"
proof (cases f)
  case None
  then show ?thesis
    by (simp add: read_half_def read_filter_def)
next
  case (Some x)
  let ?n = "if uf_ulFilterSize x > limit then limit else uf_ulFilterSize x" and ?p = "if c = ''a'' then fl_A fl else fl_B fl"
  have n: "unat ?n \<le> unat (ulFilterSize (dev (sys_of (lb_sys L))))"
    using assms(9) by (simp add: word_less_nat_alt)
  note rd = filter_fread[OF assms(1-3) _ assms(5,6) n assms(7)]
  have len: "length (filter_content name fl) = unat limit" if "name \<in> set filter_names" for name
    using filters_ok_length[OF assms(6) that] assms(9,10) by simp
  have m: "fread_attr (kernel_io E owner minor) minor (filter_file g (''/mask'' @ c)) (unat ?n) lRet (lb_sys L) =
      Some ((NETANA_NO_ERROR, take (unat ?n) (fp_pbMask ?p)), lb_sys L)" for lRet
    using rd[OF half_name(1)[OF assms(4)]] len[OF half_name(1)[OF assms(4)]] n assms(9,10) half_content(1)[OF assms(4), of fl]
    by (simp add: fread_attr_def)
  have v: "fread_attr (kernel_io E owner minor) minor (filter_file g (''/val'' @ c)) (unat ?n) lRet (lb_sys L) =
      Some ((NETANA_NO_ERROR, take (unat ?n) (fp_pbValue ?p)), lb_sys L)" for lRet
    using rd[OF half_name(2)[OF assms(4)]] len[OF half_name(2)[OF assms(4)]] n assms(9,10) half_content(2)[OF assms(4), of fl]
    by (simp add: fread_attr_def)
  have lm: "length (take (unat ?n) (fp_pbMask ?p)) = unat ?n"
    using len[OF half_name(1)[OF assms(4)]] half_content(1)[OF assms(4), of fl] n assms(9) by simp
  obtain k where k: "k = ?n"
    by simp
  obtain M V where MV: "M = take (unat k) (fp_pbMask ?p)" "V = take (unat k) (fp_pbValue ?p)"
    by simp
  have half: "read_half (kernel_io E owner minor) minor g c limit f (lb_sys L) = Some ((NETANA_NO_ERROR, Some (x\<lparr>uf_ulFilterSize := k,
      uf_pbMask := map_option (blit 0 M) (uf_pbMask x), uf_pbValue := map_option (blit 0 V) (uf_pbValue x)\<rparr>)), lb_sys L)"
    using m v lm unfolding read_half_def Some option.case Let_def k[symmetric] MV[symmetric] by simp
  show ?thesis
  proof (cases "uf_ulFilterSize x = 0")
    case True
    then show ?thesis
      using half Some k MV by (cases x) (simp add: read_filter_def option.map_ident)
  next
    case False
    then show ?thesis
      using half Some k MV assms(8) by (auto simp: read_filter_def filter_wf_def word_neq_0_conv Let_def)
  qed
qed

lemma relation_read:
  assumes "attached E minor h L" "g < ulGpioCnt (dev (sys_of (lb_sys L)))" "g < ulPortCnt (dev (sys_of (lb_sys L)))"
  shows "\<exists>t. kernel_read E owner minor minor (filter_file g ''/relation'') (lb_sys L) = Some (Got t, lb_sys L) \<and>
    sscanf t ''%d %d %d'' = [W (fl_ulRelationShip (filters (dpm (sys_of (lb_sys L))) ! unat g)),
      W (ulFilterSize (dev (sys_of (lb_sys L)))), W (ulFilterSize (dev (sys_of (lb_sys L))))]"
proof -
  have "find_attr (dev (sys_of (lb_sys L))) (filter_file g ''/relation'') =
      Some (filter_dir (dev (sys_of (lb_sys L))) g, netana_dev_filterRel)"
    using assms find_relation by (simp add: attached_def)
  then show ?thesis
    using assms(3) attached_simps(2)[OF assms(1)]
    by (simp add: kernel_read_def netana_attr_show_def)
      (simp add: netana_dev_filterRel_def attr_entry_def get_relation_def netana_get_filter_def read_filter_def put_text_def gpio_mode_text Let_def)
qed

lemma get_filter_call:
  assumes "attached E minor h L" "g < ulGpioCnt (dev (sys_of (lb_sys L)))" "se_kzalloc E = (True, True)"
    "g < ulPortCnt (dev (sys_of (lb_sys L)))" "filters_ok (sys_of (lb_sys L)) g" "ulFilterSize (dev (sys_of (lb_sys L))) \<le> 4096"
    "filter_wf a" "filter_wf b"
  shows "lib_netana_get_filter (kernel_io E owner minor) h g a b r L = Some (netana_get_filter g a b r (sys_of (lb_sys L)), L)"
proof -
  let ?s = "sys_of (lb_sys L)"
  have some: "\<exists>y. read_filter (ulFilterSize (dev ?s)) p f = Some y" if "filter_wf f" for p f
    using that by (auto simp: read_filter_def filter_wf_def word_neq_0_conv Let_def split: option.splits)
  obtain ya yb where y: "read_filter (ulFilterSize (dev ?s)) (fl_A (filters (dpm ?s) ! unat g)) a = Some ya"
      "read_filter (ulFilterSize (dev ?s)) (fl_B (filters (dpm ?s) ! unat g)) b = Some yb"
    using some[OF assms(7)] some[OF assms(8)] by blast
  have "read_half (kernel_io E owner minor) minor g ''a'' (ulFilterSize (dev ?s)) a (lb_sys L) = Some ((NETANA_NO_ERROR, ya), lb_sys L)"
    "read_half (kernel_io E owner minor) minor g ''b'' (ulFilterSize (dev ?s)) b (lb_sys L) = Some ((NETANA_NO_ERROR, yb), lb_sys L)"
    using read_half_call[OF assms(1-3) _ assms(4-6) assms(7) refl refl, of "''a''"] read_half_call[OF assms(1-3) _ assms(4-6) assms(8) refl refl, of "''b''"] y
    by (simp_all add: half_names_def)
  then show ?thesis
    using relation_read[OF assms(1,2,4)] y assms(4)
    by (auto simp: lib_netana_get_filter_def attached_handle[OF assms(1)] on_sys_def attached_simps(1)[OF assms(1)] netana_get_filter_def
        filter_wf_args[OF assms(7)] filter_wf_args[OF assms(8)] Let_def)
qed

section \<open>The filter calls are those of the toolkit\<close>

text \<open>C30: Setting and reading the filters of a port through the library gives what the toolkit gives: for
  filters of any size, longer than the device takes included, \<open>netana_set_filter\<close> returns the result of the toolkit
  for the filters of the caller and leaves the device as the toolkit does, although they pass through four files
  and the copies of the driver; \<open>netana_get_filter\<close> returns the filters, sizes and relationship
  the toolkit returns, and changes nothing.\<close>

theorem filter_calls:
  assumes "attached E minor h L" "io = kernel_io E owner minor" "s = sys_of (lb_sys L)"
    "g < ulGpioCnt (dev s)" "ulFilterSize (dev s) \<le> 4096" "filter_wf a" "filter_wf b"
  shows "(\<not> lib_IsCaptureRunning (lb_inst L h) \<and> \<not> IsCaptureRunning s \<and> 0 < ulFilterSize (dev s) \<longrightarrow>
       (\<exists>i'. lib_netana_set_filter io h g a b rel L = Some (fst (netana_set_filter g a b rel s), L\<lparr>lb_sys := i'\<rparr>) \<and>
         sys_of i' = snd (netana_set_filter g a b rel s) \<and> na_hdevice i')) \<and>
    (se_kzalloc E = (True, True) \<and> g < ulPortCnt (dev s) \<and> filters_ok s g \<longrightarrow>
       lib_netana_get_filter io h g a b r L = Some (netana_get_filter g a b r s, L))"
  using set_filter_call[OF assms(1)] get_filter_call[OF assms(1)] assms(4-7)
  unfolding assms(2,3) by blast

text \<open>A filter of two bytes for port 1 of the sample device.\<close>

definition sample_user_filter :: "netana_filter option" where
  "sample_user_filter = Some \<lparr>uf_ulFilterSize = 2, uf_pbMask = Some [1, 2], uf_pbValue = Some [3, 4]\<rparr>"

theorem filter_calls_witness:
  "\<exists>i'. lib_netana_set_filter (kernel_io sample_env owner 0) 5 1 sample_user_filter None 2 sample_lib =
       Some (NETANA_NO_ERROR, sample_lib\<lparr>lb_sys := i'\<rparr>) \<and>
     fp_pbMask (fl_A (filters (dpm (sys_of i')) ! 1)) = [1, 2, 0, 0] \<and> fl_ulRelationShip (filters (dpm (sys_of i')) ! 1) = 2"
proof -
  have wf: "filter_wf sample_user_filter" "filter_wf None"
    by (simp_all add: filter_wf_def sample_user_filter_def)
  have run: "1 < ulGpioCnt (dev sample)" "ulFilterSize (dev sample) \<le> 4096" "\<not> IsCaptureRunning sample" "0 < ulFilterSize (dev sample)"
    by (simp_all add: sample_defs IsCaptureRunning_def)
  have two: "replicate 2 (0 :: u8) = [0, 0]"
    by (simp add: numeral_2_eq_2)
  have set: "fst (netana_set_filter 1 sample_user_filter None 2 sample) = NETANA_NO_ERROR"
      "fp_pbMask (fl_A (filters (dpm (snd (netana_set_filter 1 sample_user_filter None 2 sample))) ! 1)) = [1, 2, 0, 0]"
      "fl_ulRelationShip (filters (dpm (snd (netana_set_filter 1 sample_user_filter None 2 sample))) ! 1) = 2"
    by (simp_all add: netana_set_filter_def sample_user_filter_def sample_defs IsCaptureRunning_def validate_filter_def write_filter_def
        upd_filter_def blit_def Let_def two)
  show ?thesis
    using filter_calls[OF sample_attached(1) refl refl, unfolded sample_attached(3), OF run(1,2) wf, of 2] sample_attached(2) run set
    by fastforce
qed

text \<open>
  The copies of the driver belong to the device, not to a port or a caller: when a second thread writes the
  mask for another port before the first has written the relation, the first port gets the mask of the second.
\<close>

lemma concurrent_filters_mix:
  assumes "attached E minor h L" "ulFilterSize (dev (sys_of (lb_sys L))) = of_nat n" "0 < n" "n \<le> 4096" "m1 \<noteq> []" "m2 \<noteq> []"
    "g1 < ulGpioCnt (dev (sys_of (lb_sys L)))" "g2 < ulGpioCnt (dev (sys_of (lb_sys L)))"
  shows "\<exists>i1 i2. kernel_fwrite E owner minor minor (filter_file g1 (''/'' @ ''maska'')) m1 (lb_sys L) = Some (Got (min (length m1) n), i1) \<and>
    kernel_fwrite E owner minor minor (filter_file g2 (''/'' @ ''maska'')) m2 i1 = Some (Got (min (length m2) n), i2) \<and>
    na_maska i2 = padded n m2 \<and> i2 = (lb_sys L)\<lparr>na_maska := padded n m2\<rparr>"
proof -
  have d: "ulGpioCnt (dev (sys_of (lb_sys L))) \<le> 4" "ulPortCnt (dev (sys_of (lb_sys L))) \<le> 4" "na_hdevice (lb_sys L)"
    using assms(1) by (simp_all add: attached_def)
  have n: "n = unat (ulFilterSize (dev (sys_of (lb_sys L))))"
    using assms(2,4) by (simp add: unat_of_nat take_bit_nat_eq_self)
  have m: "''maska'' \<in> set filter_names"
    by (simp add: filter_names_def)
  let ?j = "stash ''maska'' (padded n m1) (lb_sys L)"
  have w1: "kernel_fwrite E owner minor minor (filter_file g1 (''/'' @ ''maska'')) m1 (lb_sys L) = Some (Got (min (length m1) n), ?j)"
    by (rule filter_fwrite[OF d(1,2) assms(7) d(3) m assms(5) n assms(3,4)])
  have w2: "kernel_fwrite E owner minor minor (filter_file g2 (''/'' @ ''maska'')) m2 ?j =
      Some (Got (min (length m2) n), stash ''maska'' (padded n m2) ?j)"
    by (rule filter_fwrite[OF _ _ _ _ m assms(6) _ assms(3,4)]) (use d n assms(8) in simp_all)
  have "stash ''maska'' (padded n m2) ?j = (lb_sys L)\<lparr>na_maska := padded n m2\<rparr>"
    by (simp add: stash_def)
  then show ?thesis
    using w1 w2 by simp
qed

end
