(* ===== verification/Lib_Device.thy ===== *)
theory Lib_Device
  imports Lib_Filters
begin

text \<open>
  The library's view of driver and devices (\<open>libnetana/netana_functions.c\<close>): information about driver and
  devices, the management commands, and the list of the devices a process has open.
\<close>

section \<open>The driver\<close>

text \<open>\<open>sscanf\<close> returns a number other than \<open>0\<close> for a name that ends before the number as well: it is \<open>EOF\<close>.\<close>

definition names_device :: "string \<Rightarrow> bool" where
  "names_device d_name \<longleftrightarrow> sscanf d_name ''netanalyzer_%u'' \<noteq> [] \<or> take (length d_name) ''netanalyzer_'' = d_name \<or>
     take 12 d_name = ''netanalyzer_'' \<and> list_all is_space (drop 12 d_name)"

definition netana_get_devicecount :: "string list \<Rightarrow> u32" where
  "netana_get_devicecount namelist = of_nat (length (filter names_device namelist))"

abbreviation (input) drvinfo_dir :: string where "drvinfo_dir \<equiv> ''driver_information/driver_information/''"

text \<open>What \<open>netana_driver_information\<close> collects in \<open>tDrvInfo\<close>; \<open>full\<close> is whether the caller gives the size of
  the structure.\<close>

definition read_driver_information :: "'k attr_io \<Rightarrow> bool \<Rightarrow> ('k, u32 + driver_information) proc" where
  "read_driver_information io full s = do {
     (r, s1) \<leftarrow> scan_attr io 0 (drvinfo_dir @ ''dma_buffersize'') ''0x%X'' 1 NETANA_DRIVER_NOT_RUNNING s;
     (case r of Inl e \<Rightarrow> Some (Inl e, s1)
      | Inr xs \<Rightarrow> do {
          (r1, s2) \<leftarrow> scan_attr io 0 (drvinfo_dir @ ''dma_buffercnt'') ''%d'' 1 NETANA_INVALID_PARAMETER s1;
          (case r1 of Inl e \<Rightarrow> Some (Inl e, s2)
           | Inr ys \<Rightarrow>
               let tDrvInfo = \<lparr>vi_ulCardCnt = netana_get_devicecount (io_scandir io s), vi_aulVersion = [0, 0, 0, 0],
                     vi_ulMaxFileCount = NETANA_MAX_FILES, vi_ulDMABufferSize = arg32 (xs ! 0), vi_ulDMABufferCount = arg32 (ys ! 0),
                     vi_aulToolkitVersion = [0, 0, 0, 0], vi_lMarshallerStatus = 0, vi_aulMarshallerVersion = [0, 0, 0, 0]\<rparr>
               in if \<not> full then Some (Inr tDrvInfo, s2)
               else do {
                 (r2, s3) \<leftarrow> scan_attr io 0 (drvinfo_dir @ ''driver_version'') ''%d %d %d %d %d %d %d %d'' 8 NETANA_INVALID_PARAMETER s2;
                 Some (map_sum id (\<lambda>zs. tDrvInfo\<lparr>vi_aulVersion := map arg32 (take 4 zs), vi_aulToolkitVersion := map arg32 (drop 4 zs)\<rparr>) r2, s3)
               })
        })
   }"

abbreviation (input) SIZEOF_DRIVER_INFORMATION :: u32 where "SIZEOF_DRIVER_INFORMATION \<equiv> 68"

definition lib_netana_driver_information :: "'k attr_io \<Rightarrow> u32 \<Rightarrow> bool \<Rightarrow> bytes \<Rightarrow> ('k, u32 + bytes) proc" where
  "lib_netana_driver_information io ulDrvInfoSize given stack s =
     (if \<not> given then Some (Inl NETANA_INVALID_PARAMETER, s)
      else do {
        (r, s1) \<leftarrow> read_driver_information io (ulDrvInfoSize = SIZEOF_DRIVER_INFORMATION) s;
        Some (map_sum id (\<lambda>i. copy_struct ulDrvInfoSize (driver_information_bytes i) stack) r, s1)
      })"

abbreviation (input) DRV_MAJOR :: u32 where "DRV_MAJOR \<equiv> 1"
abbreviation (input) DRV_MINOR :: u32 where "DRV_MINOR \<equiv> 0"

text \<open>\<open>major\<close> and \<open>minor\<close> are what the variable holds when the call has failed.\<close>

definition check_version :: "u32 \<Rightarrow> u32 \<Rightarrow> lib_globals \<Rightarrow> lib_globals" where
  "check_version major minor g = (if major < DRV_MAJOR \<or> major = DRV_MAJOR \<and> minor < DRV_MINOR then g\<lparr>lg_fDriverVersionMismatch := True\<rparr> else g)"

definition check_driver :: "'k attr_io \<Rightarrow> u32 \<Rightarrow> u32 \<Rightarrow> ('k lib, unit) proc" where
  "check_driver io major minor L = do {
     (r, s) \<leftarrow> read_driver_information io True (lb_sys L);
     let g = lb_globals L;
     Some ((), L\<lparr>lb_sys := s, lb_globals :=
       (case r of
          Inl e \<Rightarrow> if e = NETANA_DRIVER_NOT_RUNNING then g\<lparr>lg_fDriverRunning := False, lg_fDriverVersionMismatch := False\<rparr>
                   else check_version major minor (g\<lparr>lg_fDriverRunning := True\<rparr>)
        | Inr i \<Rightarrow> check_version (vi_aulVersion i ! 0) (vi_aulVersion i ! 1)
                     (g\<lparr>lg_fDriverRunning := True, lg_ulDMABufferSize := vi_ulDMABufferSize i, lg_ulDMABufferCount := vi_ulDMABufferCount i\<rparr>))\<rparr>)
   }"

section \<open>Descriptions of the error codes\<close>

definition lib_atErrorToDescrTable :: "(u64 \<times> string) list" where
  "lib_atErrorToDescrTable =
    [(scast (NETANA_TKIT_INITIALIZATION_FAILED :: u32), ''Toolkit initialization failed''),
     (scast (NETANA_DMABUFFER_CREATION_FAILED :: u32), ''Creation of DMA buffers failed''),
     (scast (NETANA_DEVICE_STILL_OPEN :: u32), ''Device is still in use by another application''),
     (scast (NETANA_HWRESET_ERROR :: u32), ''Error during hardware reset of device''),
     (scast (NETANA_MEMORY_MAPPING_FAILED :: u32), ''Failed to map memory''),
     (scast (NETANA_CHIP_NOT_SUPPORTED :: u32), ''Chip type is not supported by toolkit''),
     (scast (NETANA_DOWNLOAD_FAILED :: u32), ''Download of Bootloader / Firmware failed''),
     (scast (NETANA_INVALID_PARAMETER :: u32), ''Invalid parameter''),
     (scast (NETANA_DEVICE_NOT_FOUND :: u32), ''Device with the given name does not exist''),
     (scast (NETANA_DEVICE_NOT_OPEN :: u32), ''Device is not open''),
     (scast (NETANA_FUNCTION_FAILED :: u32), ''Function failed (Generic Error)''),
     (scast (NETANA_INVALID_PORT :: u32), ''Invalid port number''),
     (scast (NETANA_INVALID_POINTER :: u32), ''Invalid pointer''),
     (scast (NETANA_INVALID_HANDLE :: u32), ''Invalid handle''),
     (scast (NETANA_NO_WORKING_DIRECTORY :: u32), ''No working directory''),
     (scast (NETANA_NO_ENTRY_FOUND :: u32), ''No entry found''),
     (scast (NETANA_FILE_OPEN_ERROR :: u32), ''Error opening file''),
     (scast (NETANA_FILE_READ_FAILED :: u32), ''Error reading file''),
     (scast (NETANA_TRANSFER_TIMEOUT :: u32), ''Transfer timed out''),
     (scast (NETANA_CAPTURE_ACTIVE :: u32), ''Capturing is currently active''),
     (scast (NETANA_IRQEVENT_CREATION_FAILED :: u32), ''Error creating interrupt events''),
     (scast (NETANA_CONFIGURATION_ERROR :: u32), ''Capture configuration error''),
     (scast (NETANA_IRQLOCK_CREATION_FAILED :: u32), ''Error creating internal IRQ locks''),
     (scast (NETANA_FILE_CREATION_FAILED :: u32), ''Error creating file''),
     (scast (NETANA_FILE_WRITE_FAILED :: u32), ''Error writing file''),
     (scast (NETANA_IOCTL_FAILED :: u32), ''Error sending IOCTL to driver''),
     (scast (NETANA_FW_START_FAILED :: u32), ''Error starting firmware''),
     (scast (NETANA_DRIVER_NOT_RUNNING :: u32), ''netANALYZER Driver is not running''),
     (scast (NETANA_OUT_OF_MEMORY :: u32), ''Out of memory''),
     (scast (NETANA_THREAD_CREATION_FAILED :: u32), ''Creation of worker thread failed''),
     (scast (NETANA_FILECAPTURE_NOT_ACTIVE :: u32), ''Capturing to file is not enabled''),
     (scast (NETANA_CAPTURE_NOT_ACTIVE :: u32), ''Capturing is currently stopped''),
     (scast (NETANA_DEV_MAILBOX_FULL :: u32), ''Device mailbox is full''),
     (scast (NETANA_DEV_NOT_READY :: u32), ''Device not ready''),
     (scast (NETANA_DEV_MAILBOX_TOO_SHORT :: u32), ''Mailbox is too short for packet''),
     (scast (NETANA_DEV_GET_NO_PACKET :: u32), ''No packet available''),
     (scast (NETANA_BUFFER_TOO_SHORT :: u32), ''Given buffer is too short''),
     (scast (NETANA_NO_ERROR :: u32), ''''),
     (ucast (NETANA_CAPTURE_ERROR_STOP_TRIGGER :: u32), ''No error''),
     (ucast (NETANA_CAPTURE_ERROR_NO_DMACHANNEL :: u32), ''No free DMA channel available. Probably host is too slow''),
     (ucast (NETANA_CAPTURE_ERROR_URX_OVERFLOW :: u32), ''XC buffer overflow (URX overflow)''),
     (ucast (NETANA_CAPTURE_ERROR_NO_HOSTBUFFER :: u32), ''No free DMA buffer available. Host is too slow to handle data efficiently''),
     (ucast (NETANA_CAPTURE_ERROR_NO_INTRAMBUFFER :: u32), ''Internal capture buffer overflow (no free INTRAM)''),
     (ucast (NETANA_CAPTURE_ERROR_STATUS_FIFO_FULL :: u32), ''Capture FIFO overflow''),
     (ucast (NETANA_CAPTURE_ERROR_DRIVER_FILE_FULL :: u32), ''End of capture file reached''),
     (scast (NETANA_TRANSPORT_CHECKSUM_ERROR :: u32), ''Checksum incorrect''),
     (scast (NETANA_TRANSPORT_LENGTH_INCOMPLETE :: u32), ''Transport lenght is incomplete''),
     (scast (NETANA_TRANSPORT_DATA_TYPE_UNKOWN :: u32), ''Unknown datatype''),
     (scast (NETANA_TRANSPORT_DEVICE_UNKNOWN :: u32), ''Device is unknown''),
     (scast (NETANA_TRANSPORT_CHANNEL_UNKNOWN :: u32), ''Channel is unknown''),
     (scast (NETANA_TRANSPORT_SEQUENCE :: u32), ''Sequence error''),
     (scast (NETANA_TRANSPORT_BUFFEROVERFLOW :: u32), ''Bufferoverflow''),
     (scast (NETANA_TRANSPORT_KEEPALIVE :: u32), ''Keepalive error''),
     (scast (NETANA_TRANSPORT_RESOURCE :: u32), ''Resource error''),
     (scast (NETANA_TRANSPORT_ERROR_UNKNOWN :: u32), ''Unknown error''),
     (scast (NETANA_TRANSPORT_RECV_TIMEOUT :: u32), ''Receive timeout''),
     (scast (NETANA_TRANSPORT_SEND_TIMEOUT :: u32), ''Time out while sending data''),
     (scast (NETANA_TRANSPORT_CONNECT :: u32), ''Unable to communicate to the device / no answer''),
     (scast (NETANA_TRANSPORT_ABORTED :: u32), ''Transfer has been aborted due to keep alive timeout or interface detachment''),
     (scast (NETANA_TRANSPORT_INVALID_RESPONSE :: u32), ''The packet response was rejected due to invalid packet data''),
     (scast (NETANA_TRANSPORT_UNKNOWN_DATALAYER :: u32), ''The data layer provided by the device is not supported''),
     (scast (NETANA_CONNECTOR_FUNCTIONS_READ_ERROR :: u32), ''Error reading the connector functions from the DLL''),
     (scast (NETANA_CONNECTOR_IDENTIFIER_TOO_LONG :: u32), ''Connector delivers an identifier longer than 6 characters''),
     (scast (NETANA_CONNECTOR_IDENTIFIER_EMPTY :: u32), ''Connector delivers an empty dentifier''),
     (scast (NETANA_CONNECTOR_DUPLICATE_IDENTIFIER :: u32), ''Connector identifier already used''),
     (scast (NETANA_TRANSPORT_DATA_TOO_SHORT :: u32), ''Received transaction data too short''),
     (scast (NETANA_TRANSPORT_UNSUPPORTED_FUNCTION :: u32), ''Function is not supported''),
     (scast (NETANA_TRANSPORT_TIMEOUT :: u32), ''Transport timeout''),
     (scast (NETANA_CAPTURE_ERROR_ON_TARGET :: u32), ''Capture error on the target device'')]"

definition lib_netana_get_error_description :: "u32 \<Rightarrow> u32 \<Rightarrow> u32 \<times> bytes option" where
  "lib_netana_get_error_description lError ulBufferSize =
     (case lookup_error lError lib_atErrorToDescrTable of
        Some d \<Rightarrow> (NETANA_NO_ERROR, Some (char_array (unat ulBufferSize) d))
      | None \<Rightarrow> (NETANA_FUNCTION_FAILED, None))"

section \<open>The devices\<close>

abbreviation (input) device_info_file :: string where "device_info_file \<equiv> ''device_information/device_info/device_info''"

text \<open>\<open>fread\<close> with the size of the caller; the result has to have the size of the structure.\<close>

definition read_device_info :: "'k attr_io \<Rightarrow> u32 \<Rightarrow> u32 \<Rightarrow> ('k, u32 \<times> bytes) proc" where
  "read_device_info io d ulDevInfoSize s = do {
     (r, s1) \<leftarrow> io_fread io d device_info_file (unat ulDevInfoSize) s;
     (case r of
        Not_Opened \<Rightarrow> Some ((NETANA_DEVICE_NOT_FOUND, []), s1)
      | Failed \<Rightarrow> do { (e, s2) \<leftarrow> get_error io d s1; Some ((e, []), s2) }
      | Got b \<Rightarrow> if length b \<noteq> SIZEOF_DEVICE_INFORMATION then do { (e, s2) \<leftarrow> get_error io d s1; Some ((e, b), s2) }
                 else Some ((NETANA_NO_ERROR, b), s1))
   }"

definition lib_netana_enum_device :: "'k attr_io \<Rightarrow> u32 \<Rightarrow> u32 \<Rightarrow> ('k, u32 \<times> bytes) proc" where
  "lib_netana_enum_device io ulCardNr ulDevInfoSize = read_device_info io ulCardNr ulDevInfoSize"

definition lib_netana_device_info :: "'k attr_io \<Rightarrow> nat \<Rightarrow> u32 \<Rightarrow> ('k lib, u32 \<times> bytes) proc" where
  "lib_netana_device_info io hDev ulDevInfoSize = with_handle hDev (\<lambda>e. (e, []))
     (\<lambda>p. read_device_info io (li_iDeviceNum p) ulDevInfoSize)"

section \<open>Opening and closing a device\<close>

text \<open>The device file and the rest of the system a process uses: \<open>open\<close>, \<open>flock\<close>, \<open>close\<close>, \<open>poll\<close>
  (its result, and whether \<open>POLLPRI\<close> and \<open>POLLRDNORM\<close> are set), \<open>read\<close> (its result and the bytes), and whether
  \<open>malloc\<close> and \<open>pthread_create\<close> succeed.\<close>

datatype dev_open = Opened nat | Open_EBUSY | Open_EACCES | Open_Error

record 'k dev_io =
  dv_open :: "u32 \<Rightarrow> ('k, dev_open) proc"
  dv_flock :: "nat \<Rightarrow> ('k, bool) proc"
  dv_close :: "nat \<Rightarrow> ('k, int) proc"
  dv_poll :: "nat \<Rightarrow> ('k, int \<times> bool \<times> bool) proc"
  dv_read :: "nat \<Rightarrow> nat \<Rightarrow> ('k, int \<times> bytes) proc"
  dv_malloc :: "'k \<Rightarrow> bool"
  dv_pthread_create :: "'k \<Rightarrow> bool"

text \<open>The name in front of the number has to be a beginning of a device name; \<open>stack\<close> is what \<open>malloc\<close>
  returned, which is used as it is if \<open>szDevice\<close> starts with a digit.\<close>

definition lead :: "string \<Rightarrow> string" where
  "lead szDevice = takeWhile (\<lambda>c. \<not> is_digit 10 c) szDevice"

definition device_name_valid :: "string \<Rightarrow> string \<Rightarrow> bool" where
  "device_name_valid szDevice stack \<longleftrightarrow> (let szTmpName = (if lead szDevice = [] then stack else lead szDevice) in
     list_ex (\<lambda>n. take (length szTmpName) n = szTmpName) [''netANALYZER_'', ''netSCOPE_'', ''cifXANALYZER_''])"

text \<open>\<open>sscanf (szDevice, "%*[^0-9]%d", &n)\<close>, \<open>n\<close> being kept if nothing is converted.\<close>

definition device_number :: "string \<Rightarrow> u32 \<Rightarrow> u32" where
  "device_number szDevice n =
     (if lead szDevice = [] then n
      else case scan_arg Cd (drop (length (lead szDevice)) szDevice) of Some (x, _) \<Rightarrow> arg32 x | None \<Rightarrow> n)"

definition upd_inst :: "nat \<Rightarrow> (libinst \<Rightarrow> libinst) \<Rightarrow> 'k lib \<Rightarrow> 'k lib" where
  "upd_inst h f L = L\<lparr>lb_inst := (lb_inst L)(h := f (lb_inst L h))\<rparr>"

text \<open>
  \<open>h\<close> is the address \<open>malloc\<close> gives for the instance. A name that does not fit its array is written over
  the instance, with no defined result.
\<close>

definition lib_netana_open_device :: "'k attr_io \<Rightarrow> 'k dev_io \<Rightarrow> string option \<Rightarrow> bool \<Rightarrow> u32 \<times> u32 \<Rightarrow> string \<Rightarrow> nat \<Rightarrow>
    ('k lib, u32 \<times> nat option) proc" where
  "lib_netana_open_device io dv szDevice given garbage stack h L =
     (case szDevice of None \<Rightarrow> Some ((NETANA_INVALID_PARAMETER, None), L)
      | Some name \<Rightarrow>
          if \<not> given then Some ((NETANA_INVALID_PARAMETER, None), L)
          else do {
            (_, L1) \<leftarrow> check_driver io (fst garbage) (snd garbage) L;
            let g = lb_globals L1;
            if \<not> lg_fDriverRunning g then Some ((NETANA_DRIVER_NOT_RUNNING, None), L1)
            else if lg_fDriverVersionMismatch g then Some ((NETANA_FUNCTION_FAILED, None), L1)
            else if lg_libInitError g then Some ((NETANA_FUNCTION_FAILED, None), L1)
            else if \<not> device_name_valid name stack then Some ((NETANA_DEVICE_NOT_FOUND, None), L1)
            else do {
              let iDeviceNum = device_number name 0;
              (r, s2) \<leftarrow> dv_open dv iDeviceNum (lb_sys L1);
              let L2 = L1\<lparr>lb_sys := s2\<rparr>;
              (case r of
                 Open_EBUSY \<Rightarrow> Some ((NETANA_DEVICE_STILL_OPEN, None), L2)
               | Open_EACCES \<Rightarrow> Some ((NETANA_ACCESS_DENIED, None), L2)
               | Open_Error \<Rightarrow> Some ((NETANA_FUNCTION_FAILED, None), L2)
               | Opened fd \<Rightarrow> do {
                   (locked, s3) \<leftarrow> dv_flock dv fd s2;
                   if \<not> locked then do { (_, s4) \<leftarrow> dv_close dv fd s3; Some ((NETANA_INVALID_PARAMETER, None), L2\<lparr>lb_sys := s4\<rparr>) }
                   else if length name > NETANA_MAX_DEVICENAMESIZE then None
                   else do {
                     let p = zero_inst\<lparr>li_ulCaptureState := NETANA_CAPTURE_STATE_OFF, li_fd_Device := fd, li_iDeviceNum := iDeviceNum,
                           li_szDeviceName := name, li_tEventThreadPrio := lg_tThreadSetting g\<rparr>;
                     let prio = lg_tKThreadSetting g;
                     (_, s4) \<leftarrow> (if tp_fThreadPrioSettings prio
                       then do { (_, s4) \<leftarrow> io_write io iDeviceNum ''driver_information/driver_information/dsr''
                                   (sprintf ''%d %d'' [W (tp_iPolicy prio), W (tp_iPriority prio)]) s3; Some ((), s4) }
                       else Some ((), s3));
                     Some ((NETANA_NO_ERROR, Some h), L2\<lparr>lb_sys := s4, lb_cards := lb_cards L2 @ [h], lb_inst := (lb_inst L2)(h := p)\<rparr>)
                   }
                 })
            }
          })"

text \<open>\<open>close\<close> returns \<open>-1\<close> when it fails, so that the test for \<open>-EBADF\<close> never holds.\<close>

definition lib_netana_close_device :: "'k attr_io \<Rightarrow> 'k dev_io \<Rightarrow> nat \<Rightarrow> ('k lib, u32) proc" where
  "lib_netana_close_device io dv hDev L =
     (if CheckDeviceHandle hDev L \<noteq> NETANA_NO_ERROR then Some (CheckDeviceHandle hDev L, L)
      else do {
        (r, L1) \<leftarrow> lib_netana_get_state io hDev L;
        if (case r of Inl _ \<Rightarrow> True | Inr (ulCaptureState, _) \<Rightarrow> ulCaptureState = NETANA_CAPTURE_STATE_OFF) then do {
          (c, s) \<leftarrow> dv_close dv (li_fd_Device (lb_inst L1 hDev)) (lb_sys L1);
          let L2 = L1\<lparr>lb_sys := s\<rparr>;
          if c = - 9 then Some (NETANA_DEVICE_NOT_OPEN, L2)
          else Some (NETANA_NO_ERROR, L2\<lparr>lb_cards := remove1 hDev (lb_cards L2)\<rparr>)
        } else Some (NETANA_CAPTURE_ACTIVE, L1)
      })"

section \<open>Management commands\<close>

text \<open>The name in a \<open>NETANA_DEVICE_INFORMATION_T\<close>, a string with a terminating zero.\<close>

definition info_name :: "bytes \<Rightarrow> string" where
  "info_name b = map (\<lambda>x. char_of (unat x)) (takeWhile (\<lambda>x. x \<noteq> 0) (take NETANA_MAX_DEVICENAMESIZE b))"

text \<open>The loop of \<open>NETANA_MNGMT_CMD_BLINK\<close>, which ends at the first number without a device.\<close>

partial_function (option) blink_loop :: "'k attr_io \<Rightarrow> string \<Rightarrow> u32 \<Rightarrow> ('k, u32) proc" where
  "blink_loop io szDevice ulCardNumber s = do {
     x \<leftarrow> lib_netana_enum_device io ulCardNumber (of_nat SIZEOF_DEVICE_INFORMATION) s;
     let lRet = fst (fst x);
     let name = info_name (snd (fst x));
     if lRet = NETANA_NO_ERROR \<and> take (length name) szDevice = name
     then print_attr io (device_number szDevice ulCardNumber) ''device_control/exec_cmd/identify'' (sprintf ''%i'' [W 1])
            NETANA_INVALID_PARAMETER (snd x)
     else if lRet = NETANA_DEVICE_NOT_FOUND then Some (lRet, snd x)
     else blink_loop io szDevice (ulCardNumber + 1) (snd x)
   }"

text \<open>The devices reported by \<open>NETANA_MNGMT_CMD_DEV_SCAN\<close>: their number in the scan and their name.\<close>

fun scan_loop :: "'k attr_io \<Rightarrow> u32 \<Rightarrow> nat \<Rightarrow> ('k, (u32 \<times> string) list) proc" where
  "scan_loop io ulCardNr 0 s = Some ([], s)"
| "scan_loop io ulCardNr (Suc ulCardNumber) s = do {
     ((lRet, b), s1) \<leftarrow> lib_netana_enum_device io ulCardNr (of_nat SIZEOF_DEVICE_INFORMATION) s;
     (xs, s2) \<leftarrow> scan_loop io (ulCardNr + 1) ulCardNumber s1;
     Some ((if lRet = NETANA_NO_ERROR then [(ulCardNr + 1, info_name b)] else []) @ xs, s2)
   }"

definition features_format :: string where
  "features_format = ''0x%X 0x%X 0x%X 0x%X 0x%X 0x%X 0x%X 0x%X 0x%X 0x%X 0x%X 0x%X 0x%X 0x%X 0x%X 0x%X 0x%X 0x%X''"

text \<open>\<open>NETANA_MNGMT_CMD_GET_DEV_FEATURE\<close> copies the structure even into a smaller buffer, and as many bytes
  as the buffer has if that is larger. What is not converted stays \<open>0\<close>.\<close>

definition lib_dev_features :: "'k attr_io \<Rightarrow> u32 \<Rightarrow> u32 \<Rightarrow> bytes \<Rightarrow> ('k, u32 \<times> bytes option) proc" where
  "lib_dev_features io d ulOutputParameterSize stack s = do {
     (r, s1) \<leftarrow> io_read io d ''device_information/device_features/device_features'' s;
     (case r of
        Not_Opened \<Rightarrow> Some ((NETANA_INVALID_PARAMETER, None), s1)
      | _ \<Rightarrow> if r = Failed \<or> r = Got [] then do { (e, s2) \<leftarrow> get_error io d s1; Some ((e, None), s2) }
             else let xs = map arg32 (fscanf r features_format)
                  in Some ((NETANA_NO_ERROR, Some (copy_struct (max ulOutputParameterSize SIZEOF_DEV_FEATURE_OUT)
                       (concat (map le32 (xs @ replicate (18 - length xs) 0))) stack)), s1))
   }"

text \<open>The commands: \<open>Cmd_Dev_Scan\<close> is given whether there is a callback, the others as in the toolkit. The result is
  the return value, what is written to the output, and the calls of the callback.\<close>

fun lib_netana_mngmt_exec_cmd :: "'k attr_io \<Rightarrow> mngmt_cmd \<Rightarrow> bytes \<Rightarrow> ('k lib, u32 \<times> bytes option \<times> (u32 \<times> string) list) proc" where
  "lib_netana_mngmt_exec_cmd io (Cmd_Blink szDevice ulIn) stack L =
     (case szDevice of None \<Rightarrow> Some ((NETANA_INVALID_PARAMETER, None, []), L)
      | Some name \<Rightarrow> do { (e, L1) \<leftarrow> on_sys (blink_loop io name 0) L; Some ((e, None, []), L1) })"
| "lib_netana_mngmt_exec_cmd io (Cmd_Dev_Scan fCallback ulIn given_out ulOut) stack L =
     (if \<not> given_out \<or> ulOut \<noteq> 4 then Some ((NETANA_INVALID_PARAMETER, None, []), L)
      else do {
        (r, L1) \<leftarrow> on_sys (read_driver_information io True) L;
        (case r of Inl e \<Rightarrow> Some ((e, None, []), L1)
         | Inr tDrvInfo \<Rightarrow> do {
             (xs, L2) \<leftarrow> (if fCallback then on_sys (scan_loop io 0 (unat (vi_ulCardCnt tDrvInfo))) L1 else Some ([], L1));
             Some ((NETANA_NO_ERROR, Some (le32 (vi_ulCardCnt tDrvInfo)), xs), L2)
           })
      })"
| "lib_netana_mngmt_exec_cmd io (Cmd_Get_Dev_Feature input ulIn ulOut) stack L =
     (case input of None \<Rightarrow> Some ((NETANA_INVALID_PARAMETER, None, []), L)
      | Some hDev \<Rightarrow>
          if ulIn \<noteq> SIZEOF_DEV_FEATURE_IN \<or> ulOut = 0 \<or> hDev = 0 then Some ((NETANA_INVALID_PARAMETER, None, []), L)
          else do {
            ((e, b), L1) \<leftarrow> with_handle hDev (\<lambda>e. (e, None)) (\<lambda>p. lib_dev_features io (li_iDeviceNum p) ulOut stack) L;
            Some ((e, b, []), L1)
          })"
| "lib_netana_mngmt_exec_cmd io (Cmd_Set_Dev_Class_Filter input ulIn) stack L =
     (case input of None \<Rightarrow> Some ((NETANA_INVALID_PARAMETER, None, []), L)
      | Some ulDeviceClass \<Rightarrow>
          if ulIn \<noteq> SIZEOF_SET_DEV_CLASS_FILTER_IN then Some ((NETANA_INVALID_PARAMETER, None, []), L)
          else do {
            (e, L1) \<leftarrow> on_sys (print_attr io 0 (drvinfo_dir @ ''device_class'') (sprintf ''%d'' [W ulDeviceClass]) NETANA_INVALID_PARAMETER) L;
            Some ((e, None, []), L1)
          })"
| "lib_netana_mngmt_exec_cmd io Cmd_Other stack L = Some ((NETANA_INVALID_PARAMETER, None, []), L)"

end
