(* ===== verification/Lib_Driver.thy ===== *)
theory Lib_Driver
  imports Lib_Device
begin

text \<open>
  What the driver answers when the library asks for its version and its devices: the calls of
  \<open>Lib_Device\<close> on the attribute tree.
\<close>

section \<open>The driver information\<close>

lemma drvinfo_found:
  "find_attr d ''driver_information/driver_information/dma_buffersize'' =
    Some (plain_dir ''driver_information/driver_information'' drvinfo_attrs [], drvinfo_dma_bufsiz)"
  "find_attr d ''driver_information/driver_information/dma_buffercnt'' =
    Some (plain_dir ''driver_information/driver_information'' drvinfo_attrs [], drvinfo_dma_bufcnt)"
  "find_attr d ''driver_information/driver_information/driver_version'' =
    Some (plain_dir ''driver_information/driver_information'' drvinfo_attrs [], drvinfo_show_drvver)"
  "find_attr d ''driver_information/driver_information/device_class'' =
    Some (plain_dir ''driver_information/driver_information'' drvinfo_attrs [], drvinfo_dev_class)"
  by (simp_all add: tree_simps plain_dir_def)

lemma hex_text: "sscanf (sprintf ''0x%X\<newline>'' [W a]) ''0x%X'' = [W a]"
  by (rule sscanf_sprintf, simp add: format_defs)

lemma version_text:
  "sscanf (sprintf ''%d %d %d %d %d %d %d %d\<newline>'' [W a, W b, W c, W d, W e, W f, W g, W h]) ''%d %d %d %d %d %d %d %d'' =
     [W a, W b, W c, W d, W e, W f, W g, W h]"
  by (rule sscanf_sprintf, simp add: format_defs)

definition kernel_information :: "sysfs_env \<Rightarrow> driver_information" where
  "kernel_information E = \<lparr>vi_ulCardCnt = 1, vi_aulVersion = NETANA_DRIVER_VERSION, vi_ulMaxFileCount = NETANA_MAX_FILES,
     vi_ulDMABufferSize = g_ulDMABufferSize (se_cfg E), vi_ulDMABufferCount = g_ulDMABufferCount (se_cfg E),
     vi_aulToolkitVersion = NETANA_TOOLKIT_VERSION, vi_lMarshallerStatus = 0, vi_aulMarshallerVersion = [0, 0, 0, 0]\<rparr>"

lemma names_minor: "names_device (''netanalyzer_'' @ radix 10 n)"
proof -
  have "\<not> is_space (List.hd (radix 10 n))"
    by (rule radix_head(1)) simp_all
  then have "dropWhile is_space (radix 10 n) = radix 10 n"
    by (simp add: dropWhile_eq_self_iff)
  moreover have "scan_number 10 (radix 10 n) = Some (n, [])"
    using scan_number_radix[of 10 10 "[]" n] by (simp add: delimited_def)
  ultimately have "sscanf (''netanalyzer_'' @ radix 10 n) ''netanalyzer_%u'' = [W (of_nat n)]"
    by (simp add: sscanf_def format_defs)
  then show ?thesis
    unfolding names_device_def by simp
qed

lemma read_driver_information_call:
  assumes "kernel_ok E owner i"
  shows "read_driver_information (kernel_io E owner 0) True i = Some (Inr (kernel_information E), i)"
proof -
  have 1: "scan_attr (kernel_io E owner 0) 0 ''driver_information/driver_information/dma_buffersize'' ''0x%X'' 1 NETANA_DRIVER_NOT_RUNNING i =
      Some (Inr [W (g_ulDMABufferSize (se_cfg E))], i)"
    by (subst scan_call[OF drvinfo_found(1) _ assms, where e = 0 and u = "sprintf ''0x%X\<newline>'' [W (g_ulDMABufferSize (se_cfg E))]"
          and ys = "[W (g_ulDMABufferSize (se_cfg E))]"])
      (simp_all add: attr_call_simps drvinfo_dma_bufsiz_def netana_show_dma_buffersize_def hex_text replied_def)
  have 2: "scan_attr (kernel_io E owner 0) 0 ''driver_information/driver_information/dma_buffercnt'' ''%d'' 1 NETANA_INVALID_PARAMETER i =
      Some (Inr [W (g_ulDMABufferCount (se_cfg E))], i)"
    by (subst scan_call[OF drvinfo_found(2) _ assms, where e = 0 and u = "sprintf ''%d\<newline>'' [W (g_ulDMABufferCount (se_cfg E))]"
          and ys = "[W (g_ulDMABufferCount (se_cfg E))]"])
      (simp_all add: attr_call_simps drvinfo_dma_bufcnt_def netana_show_dma_buffercnt_def one_number_text replied_def)
  let ?v = "map W (NETANA_DRIVER_VERSION @ NETANA_TOOLKIT_VERSION)"
  have 3: "scan_attr (kernel_io E owner 0) 0 ''driver_information/driver_information/driver_version'' ''%d %d %d %d %d %d %d %d'' 8
      NETANA_INVALID_PARAMETER i = Some (Inr ?v, i)"
    by (subst scan_call[OF drvinfo_found(3) _ assms, where e = 0 and u = "sprintf ''%d %d %d %d %d %d %d %d\<newline>'' ?v" and ys = "?v"])
      (simp_all add: attr_call_simps drvinfo_show_drvver_def netana_show_drvvers_def replied_def version_text NETANA_DRIVER_VERSION_def
        NETANA_TOOLKIT_VERSION_def)
  have n: "netana_get_devicecount (io_scandir (kernel_io E owner 0) i) = 1"
    using names_minor[of 0] by (simp add: netana_get_devicecount_def kernel_io_def)
  have f: "drvinfo_dir @ ''dma_buffersize'' = ''driver_information/driver_information/dma_buffersize''"
    "drvinfo_dir @ ''dma_buffercnt'' = ''driver_information/driver_information/dma_buffercnt''"
    "drvinfo_dir @ ''driver_version'' = ''driver_information/driver_information/driver_version''"
    by simp_all
  show ?thesis
    unfolding read_driver_information_def f 1 2 3 bind.bind_lunit case_prod_conv sum.case n Let_def
    by (simp add: 3 kernel_information_def NETANA_DRIVER_VERSION_def NETANA_TOOLKIT_VERSION_def)
qed

text \<open>The library always asks device 0. If that is not there, the driver is taken not to run, whatever
  other devices it has.\<close>

lemma driver_needs_device_0:
  "minor \<noteq> 0 \<Longrightarrow> read_driver_information (kernel_io E pm minor) full i = Some (Inl NETANA_DRIVER_NOT_RUNNING, i)"
  by (simp add: read_driver_information_def scan_attr_def kernel_read_def)

text \<open>The version of the driver suits the library, and its buffer size becomes that of the library.\<close>

definition driver_accepted :: "sysfs_env \<Rightarrow> lib_globals \<Rightarrow> lib_globals" where
  "driver_accepted E g = g\<lparr>lg_fDriverRunning := True, lg_ulDMABufferSize := g_ulDMABufferSize (se_cfg E),
     lg_ulDMABufferCount := g_ulDMABufferCount (se_cfg E)\<rparr>"

lemma check_driver_call:
  "kernel_ok E owner (lb_sys L) \<Longrightarrow> check_driver (kernel_io E owner 0) ma mi L = Some ((), L\<lparr>lb_globals := driver_accepted E (lb_globals L)\<rparr>)"
  by (simp add: check_driver_def read_driver_information_call kernel_information_def check_version_def driver_accepted_def
      NETANA_DRIVER_VERSION_def)

section \<open>Devices\<close>

lemma find_device_info: "find_bin d device_info_file =
    Some (plain_dir ''device_information/device_info'' [] [dev_info], dev_info)"
  by (simp add: find_bin_def sysfs_dirs_def Let_def dirname_def basename_def plain_dir_def dev_info_def)

lemma enum_device_call:
  assumes "kernel_ok E owner i" "SIZEOF_DEVICE_INFORMATION \<le> length (se_heap E)"
  shows "lib_netana_enum_device (kernel_io E owner minor) minor (of_nat SIZEOF_DEVICE_INFORMATION) i =
    (case netana_enum_device (se_alloc E) (cu_leader (se_current E)) (na_minor i) (of_nat SIZEOF_DEVICE_INFORMATION) (se_heap E) (na_tk i) of
       ((e, out), tk) \<Rightarrow> Some ((e, if e = NETANA_NO_ERROR then the out else []), replied E e (i\<lparr>na_tk := tk\<rparr>)))"
proof -
  obtain e out tk where k: "netana_enum_device (se_alloc E) (cu_leader (se_current E)) (na_minor i) (of_nat SIZEOF_DEVICE_INFORMATION)
      (se_heap E) (na_tk i) = ((e, out), tk)"
    by (metis prod.exhaust)
  have len: "length (the out) = SIZEOF_DEVICE_INFORMATION" if "e = 0"
    using k assms(2) that
    by (auto simp: netana_enum_device_def Let_def GenerateDeviceInformation_def copy_struct_def split: if_splits option.splits prod.splits)
  have ok: "kernel_ok E owner (i\<lparr>na_tk := tk\<rparr>)"
    using assms(1) by (simp add: kernel_ok_def)
  note err = driver_files.get_error_last[OF replied_ok[OF ok], of minor] get_err_replied[OF ok]
  have rd: "kernel_fread E owner minor minor device_info_file SIZEOF_DEVICE_INFORMATION i =
      Some (Got (if e = 0 then the out else []), replied E e (i\<lparr>na_tk := tk\<rparr>))"
    using k len by (simp add: kernel_fread_def find_device_info dev_info_def clamped_def pages_def show_device_info_def replied_def)
  show ?thesis
    using k len err by (simp add: lib_netana_enum_device_def read_device_info_def rd)
qed

text \<open>\<open>BLINK\<close> ends at the first number without a device, here 1; a name nobody has is reported as not found.\<close>

lemma enum_other: "n \<noteq> minor \<Longrightarrow> lib_netana_enum_device (kernel_io E owner minor) n sz i = Some ((NETANA_DEVICE_NOT_FOUND, []), i)"
  by (simp add: lib_netana_enum_device_def read_device_info_def kernel_fread_def)

lemma blink_unknown:
  assumes "kernel_ok E owner i" "SIZEOF_DEVICE_INFORMATION \<le> length (se_heap E)"
    and "netana_enum_device (se_alloc E) (cu_leader (se_current E)) (na_minor i) (of_nat SIZEOF_DEVICE_INFORMATION) (se_heap E) (na_tk i) = ((e, out), tk)"
    and "e = NETANA_NO_ERROR \<Longrightarrow> take (length (info_name (the out))) name \<noteq> info_name (the out)"
  shows "blink_loop (kernel_io E owner 0) name 0 i = Some (NETANA_DEVICE_NOT_FOUND, replied E e (i\<lparr>na_tk := tk\<rparr>))"
proof -
  let ?io = "kernel_io E owner 0" and ?k = "replied E e (i\<lparr>na_tk := tk\<rparr>)"
  have 0: "lib_netana_enum_device ?io 0 (of_nat SIZEOF_DEVICE_INFORMATION) i = Some ((e, if e = NETANA_NO_ERROR then the out else []), ?k)"
    using enum_device_call[OF assms(1,2), of 0] assms(3) by simp
  have 1: "blink_loop ?io name 1 ?k = Some (NETANA_DEVICE_NOT_FOUND, ?k)"
    by (subst blink_loop.simps) (simp add: enum_other)
  show ?thesis
    by (subst blink_loop.simps) (use 0 1 assms(4) in \<open>cases "e = NETANA_NO_ERROR"; simp del: One_nat_def\<close>)
qed

lemma features_found: "find_attr d ''device_information/device_features/device_features'' =
    Some (plain_dir ''device_information/device_features'' devfeature_attrs [], netana_dev_feature)"
  by (simp add: tree_simps plain_dir_def)

lemma features_text: "sscanf (sprintf (features_format @ ''\<newline>'') (map W (dev_features s))) features_format = map W (dev_features s)"
  unfolding dev_features_def Let_def list.map features_format_def append.simps
  by (rule sscanf_sprintf, simp add: format_defs)

lemma length_dev_features [simp]: "length (dev_features s) = 18"
  by (simp add: dev_features_def Let_def)

lemma features_words: "map (\<lambda>k. W (word_at k (concat (map le32 (dev_features s))))) [0..<18] = map W (dev_features s)"
  using word_at_concat[of _ "dev_features s" "[]"] by (intro nth_equalityI) simp_all

lemma features_call:
  assumes "attached E minor h L" "na_card (lb_sys L) \<noteq> 0" "0 < n" "n \<le> SIZEOF_DEV_FEATURE_OUT"
  shows "lib_netana_mngmt_exec_cmd (kernel_io E owner minor) (Cmd_Get_Dev_Feature (Some h) SIZEOF_DEV_FEATURE_IN n) stack L =
    Some ((NETANA_NO_ERROR, Some (concat (map le32 (dev_features (sys_of (lb_sys L))))), []), L)"
proof -
  let ?i = "lb_sys L" let ?f = "dev_features (sys_of (lb_sys L))"
  let ?t = "sprintf (features_format @ ''\<newline>'') (map W ?f)"
  have "devfeature_show E at ?i = put_text ?t ?i" for at
    using assms(2) attached_simps(2)[OF assms(1)] features_words[of "sys_of ?i"]
    by (simp add: devfeature_show_def sys_of_def[symmetric] features_format_def length_features)
  then have rd: "kernel_read E owner minor minor ''device_information/device_features/device_features'' ?i = Some (Got ?t, ?i)"
    by (simp add: kernel_read_def features_found netana_dev_feature_def attr_call_simps put_text_def)
  have ne: "?t \<noteq> []"
    by (simp add: features_format_def sprintf_def format_defs dev_features_def Let_def)
  have max: "max n SIZEOF_DEV_FEATURE_OUT = SIZEOF_DEV_FEATURE_OUT"
    using assms(4) by (rule max_absorb2)
  have h: "h \<noteq> 0"
    using assms(1) by (simp add: attached_def)
  have "lib_dev_features (kernel_io E owner minor) minor n stack ?i = Some ((NETANA_NO_ERROR, Some (concat (map le32 ?f))), ?i)"
    unfolding lib_dev_features_def max using rd ne features_text[of "sys_of ?i"]
    by (simp add: comp_def copy_struct_def length_features)
  then show ?thesis
    using assms(3) h by (simp add: attached_handle[OF assms(1)] attached_simps(1)[OF assms(1)] on_sys_def)
qed

lemma class_filter_call:
  assumes "kernel_ok E owner (lb_sys L)"
  shows "lib_netana_mngmt_exec_cmd (kernel_io E owner 0) (Cmd_Set_Dev_Class_Filter (Some c) SIZEOF_SET_DEV_CLASS_FILTER_IN) stack L =
    (case netana_mngmt_exec_cmd (se_alloc E) (cu_leader (se_current E)) (Cmd_Set_Dev_Class_Filter (Some c) SIZEOF_SET_DEV_CLASS_FILTER_IN)
            (na_tk (lb_sys L)) of
       ((e, out), tk) \<Rightarrow> Some ((e, None, []), L\<lparr>lb_sys := replied E e ((lb_sys L)\<lparr>na_tk := tk\<rparr>)\<rparr>))"
proof -
  let ?i = "lb_sys L"
  obtain e apps where u: "USER_SetDevClassFilter (oa_app (se_alloc E)) (cu_leader (se_current E)) c (tk_apps (na_tk ?i)) = (e, apps)"
    by (metis surj_pair)
  let ?i1 = "?i\<lparr>na_tk := (na_tk ?i)\<lparr>tk_apps := apps\<rparr>\<rparr>"
  have ok: "kernel_ok E owner ?i1"
    using assms by (simp add: kernel_ok_def)
  have "print_attr (kernel_io E owner 0) 0 ''driver_information/driver_information/device_class'' (sprintf ''%d'' [W c]) NETANA_INVALID_PARAMETER ?i
      = Some (e, replied E e ?i1)"
    by (rule print_call[OF drvinfo_found(4) _ ok])
      (simp_all add: attr_call_simps drvinfo_dev_class_def netana_set_device_class_def one_number_text u)
  moreover have "e = NETANA_INVALID_PARAMETER \<and> apps = tk_apps (na_tk ?i)" if "invalid_class c"
    using u that by (simp add: USER_SetDevClassFilter_def)
  ultimately show ?thesis
    using u by (auto simp: on_sys_def)
qed

lemma dev_scan_call:
  assumes "kernel_ok E owner (lb_sys L)" "SIZEOF_DEVICE_INFORMATION \<le> length (se_heap E)"
  shows "lib_netana_mngmt_exec_cmd (kernel_io E owner 0) (Cmd_Dev_Scan True n True 4) stack L =
    (case netana_enum_device (se_alloc E) (cu_leader (se_current E)) (na_minor (lb_sys L)) (of_nat SIZEOF_DEVICE_INFORMATION)
            (se_heap E) (na_tk (lb_sys L)) of
       ((e, out), tk) \<Rightarrow> Some ((NETANA_NO_ERROR, Some (le32 1), if e = NETANA_NO_ERROR then [(1, info_name (the out))] else []),
          L\<lparr>lb_sys := replied E e ((lb_sys L)\<lparr>na_tk := tk\<rparr>)\<rparr>))"
  using enum_device_call[OF assms, of 0]
  by (simp add: on_sys_def read_driver_information_call[OF assms(1)] kernel_information_def split: prod.splits)

section \<open>Opening a device\<close>

lemma lead_name: "list_all (\<lambda>c. \<not> is_digit 10 c) p \<Longrightarrow> lead (p @ radix 10 n) = p"
  using hd_radix[of 10 n] by (force simp: lead_def takeWhile_append list_all_iff)

lemma device_name:
  assumes "p \<in> {''netANALYZER_'', ''netSCOPE_'', ''cifXANALYZER_''}"
  shows "device_name_valid (p @ radix 10 n) stack" "device_number (p @ radix 10 n) m = of_nat n"
proof -
  have l: "lead (p @ radix 10 n) = p"
    using assms by (intro lead_name) (auto simp: is_digit_def digit_val_def)
  show "device_name_valid (p @ radix 10 n) stack"
    unfolding device_name_valid_def l using assms by auto
  have "p \<noteq> []"
    using assms by auto
  moreover have "scan_arg Cd (radix 10 n) = Some (W (of_nat n), [])"
    using scan_number_radix[of 10 10 "[]" n] radix_head(2)[of 10 n "[]"] by (simp add: delimited_def scan_signed_def)
  ultimately show "device_number (p @ radix 10 n) m = of_nat n"
    unfolding device_number_def l by (simp del: scan_arg.simps)
qed

lemma open_device_call:
  assumes "kernel_ok E owner (lb_sys L)" "\<not> lg_fDriverVersionMismatch (lb_globals L)" "\<not> lg_libInitError (lb_globals L)"
    and "p \<in> {''netANALYZER_'', ''netSCOPE_'', ''cifXANALYZER_''}" "length (p @ radix 10 n) \<le> NETANA_MAX_DEVICENAMESIZE"
    and "dv_open dv (of_nat n) (lb_sys L) = Some (Opened fd, s1)" "dv_flock dv fd s1 = Some (True, s2)"
    and "\<not> tp_fThreadPrioSettings (lg_tKThreadSetting (lb_globals L))"
  shows "lib_netana_open_device (kernel_io E owner 0) dv (Some (p @ radix 10 n)) True garbage stack h L =
    Some ((NETANA_NO_ERROR, Some h), L\<lparr>lb_globals := driver_accepted E (lb_globals L), lb_sys := s2, lb_cards := lb_cards L @ [h],
      lb_inst := (lb_inst L)(h := zero_inst\<lparr>li_ulCaptureState := NETANA_CAPTURE_STATE_OFF, li_fd_Device := fd,
        li_iDeviceNum := of_nat n, li_szDeviceName := p @ radix 10 n, li_tEventThreadPrio := lg_tThreadSetting (lb_globals L)\<rparr>)\<rparr>)"
  using assms(2,3,5-8) device_name(1)[OF assms(4), of n stack] device_name(2)[OF assms(4), of n 0]
  by (simp add: lib_netana_open_device_def check_driver_call[OF assms(1)] driver_accepted_def Let_def)

text \<open>Closing takes the device out of the list of the process, so that its handle is no longer accepted, or leaves the list alone and
  reports an error; \<open>close\<close> returns \<open>0\<close> or \<open>-1\<close>.\<close>

lemma close_device_call:
  assumes "lib_netana_close_device io dv h L = Some (e, L')" "distinct (lb_cards L)"
    and "\<And>fd s r s'. dv_close dv fd s = Some (r, s') \<Longrightarrow> r \<in> {0, -1}"
  shows "lb_cards L' = (if e = NETANA_NO_ERROR then remove1 h (lb_cards L) else lb_cards L)"
    "e = NETANA_NO_ERROR \<Longrightarrow> CheckDeviceHandle h L = NETANA_NO_ERROR \<and> CheckDeviceHandle h L' = NETANA_INVALID_HANDLE"
proof -
  have "lb_cards L' = (if e = NETANA_NO_ERROR then remove1 h (lb_cards L) else lb_cards L) \<and>
      (e = NETANA_NO_ERROR \<longrightarrow> CheckDeviceHandle h L = NETANA_NO_ERROR)"
  proof (cases "CheckDeviceHandle h L = NETANA_NO_ERROR")
    case True
    then obtain r k where g: "lib_netana_get_state io h L = Some (r, L\<lparr>lb_sys := k\<rparr>)"
      using assms(1) by (auto simp: lib_netana_close_device_def lib_netana_get_state_def with_handle_def on_sys_def bind_eq_Some_conv)
    show ?thesis
      using assms(1) True by (auto simp: lib_netana_close_device_def g bind_eq_Some_conv Let_def dest!: assms(3) split: if_split_asm)
  qed (use assms(1) in \<open>auto simp: lib_netana_close_device_def\<close>)
  then show "lb_cards L' = (if e = NETANA_NO_ERROR then remove1 h (lb_cards L) else lb_cards L)"
    "e = NETANA_NO_ERROR \<Longrightarrow> CheckDeviceHandle h L = NETANA_NO_ERROR \<and> CheckDeviceHandle h L' = NETANA_INVALID_HANDLE"
    using assms(2) by (auto simp: CheckDeviceHandle_def split: if_split_asm)
qed

section \<open>Descriptions\<close>

text \<open>Six errors the toolkit describes are unknown to the library, among them the answer to a caller without the rights.\<close>

definition lib_undescribed :: "u32 list" where
  "lib_undescribed = [NETANA_FUNCTION_NOT_AVAILABLE, NETANA_INVALID_BUFFERSIZE, NETANA_NO_BUFFER_DATA, NETANA_NO_STATE_CHANGE,
     NETANA_NO_PLUGIN_FOUND, NETANA_ACCESS_DENIED]"

lemma lib_lookup_undescribed: "list_all (\<lambda>e. lookup_error e lib_atErrorToDescrTable = None) lib_undescribed"
  unfolding lookup_error_iff lib_atErrorToDescrTable_def lib_undescribed_def
  by (simp only: list.pred_inject list.set image_insert image_empty fst_conv insert_iff empty_iff long_inj) simp

lemma lib_descriptions:
  "list_all (\<lambda>e. fst (lib_netana_get_error_description e n) = NETANA_FUNCTION_FAILED \<and>
     fst (netana_get_error_description e n behind) = NETANA_NO_ERROR) lib_undescribed"
proof -
  have "list_all (\<lambda>e. e \<in> set toolkit_errors) lib_undescribed"
    unfolding toolkit_errors_def lib_undescribed_def by simp
  then show ?thesis
    using described lib_lookup_undescribed
    by (auto simp: list_all_iff lib_netana_get_error_description_def netana_get_error_description_def split: option.split)
qed

section \<open>What the driver tells about itself and its devices\<close>



end
