(* ===== verification/Lib_Session.thy ===== *)
theory Lib_Session
  imports Lib_Device
begin

text \<open>
  A capture of the library (\<open>libnetana/netana_functions.c\<close>): the file list, \<open>netana_start_capture\<close>, the event
  thread, \<open>netana_stop_capture\<close> and \<open>netana_file_info\<close>. The application and the event threads share the
  device instance without a lock. So the routines are cut into steps at their calls to the system, and
  their interleavings are the runs of \<open>session_step\<close>. \<open>None\<close> is a call which does not return:
  it waits for ever, or it kills the process.
\<close>

section \<open>The capture files\<close>

text \<open>The files of the system: \<open>open\<close> (\<open>0\<close> stands for \<open>-1\<close>), whether \<open>fstat\<close> and \<open>fdopen\<close> succeed, and
  \<open>posix_fallocate\<close> with offset and length.\<close>

record os_files =
  of_open :: "string \<Rightarrow> fstore \<Rightarrow> nat \<times> fstore"
  of_fstat :: "nat \<Rightarrow> fstore \<Rightarrow> bool"
  of_fallocate :: "nat \<Rightarrow> nat \<Rightarrow> nat \<Rightarrow> fstore \<Rightarrow> fstore"
  of_fdopen :: "nat \<Rightarrow> fstore \<Rightarrow> bool"

definition FileOpen :: "os_files \<Rightarrow> string \<Rightarrow> u64 \<Rightarrow> fstore \<Rightarrow> nat \<times> fstore" where
  "FileOpen os szFilename pulFileSize fs =
     (let (fd, fs1) = of_open os szFilename fs in
      if fd = 0 then (0, fs1)
      else if \<not> of_fstat os fd fs1 then (0, fs1)
      else let st_size = length (fs_bytes (fs1 fd));
               fs2 = (if st_size < unat pulFileSize then of_fallocate os fd st_size (unat pulFileSize) fs1 else fs1)
           in (if of_fdopen os fd fs2 then fd else 0, fs2))"

fun lib_close_loop :: "nat list \<Rightarrow> files \<Rightarrow> files" where
  "lib_close_loop [] x = x"
| "lib_close_loop (i # is) (fl, fs) =
     (let h = fd_hFile (atFiles fl ! i)
      in lib_close_loop is (if h \<noteq> 0 then (upd_file i (fd_hFile_update (\<lambda>_. 0)) fl, stdio_fclose h fs) else (fl, fs)))"

definition lib_CloseCaptureFiles :: "files \<Rightarrow> files" where
  "lib_CloseCaptureFiles x = lib_close_loop [0..<unat (ulFileCount (fst x))] x"

text \<open>The name is printed into 512 characters.\<close>

fun lib_open_loop :: "os_files \<Rightarrow> nat list \<Rightarrow> files \<Rightarrow> u32 \<times> files" where
  "lib_open_loop os [] x = (NETANA_NO_ERROR, x)"
| "lib_open_loop os (i # is) (fl, fs) =
     (let name = capture_filename fl i
      in if 512 < length name then (NETANA_FILE_CREATION_FAILED, fl, fs)
         else (let (h, fs1) = FileOpen os (take 511 name) (ullFileSize fl) fs;
                   fl1 = upd_file i (fd_hFile_update (\<lambda>_. h)) fl
               in if h = 0 then (NETANA_FILE_CREATION_FAILED, fl1, fs1)
                  else lib_open_loop os is (upd_file i (\<lambda>f. f\<lparr>fd_ullOffset := 0, fd_ullDataWritten := 0\<rparr>) fl1, fs1)))"

definition lib_OpenCaptureFiles :: "os_files \<Rightarrow> files \<Rightarrow> u32 \<times> files" where
  "lib_OpenCaptureFiles os x =
     (let (fl, fs) = lib_CloseCaptureFiles x
      in lib_open_loop os [0..<unat (ulFileCount fl)] (fl\<lparr>ulCurrentFile := 0\<rparr>, fs))"

definition lib_files :: "nat \<Rightarrow> 'k lib \<Rightarrow> files" where
  "lib_files h L = (li_flst (lb_inst L h), lb_files L)"

definition set_lib_files :: "nat \<Rightarrow> files \<Rightarrow> 'k lib \<Rightarrow> 'k lib" where
  "set_lib_files h x L = (upd_inst h (\<lambda>p. p\<lparr>li_flst := fst x\<rparr>) L)\<lparr>lb_files := snd x\<rparr>"

definition lib_netana_set_filelist :: "os_files \<Rightarrow> nat \<Rightarrow> string \<Rightarrow> string \<Rightarrow> u32 \<Rightarrow> u64 \<Rightarrow> 'k lib \<Rightarrow> u32 \<times> 'k lib" where
  "lib_netana_set_filelist os h path base ulCount ullSize L =
     (if CheckDeviceHandle h L \<noteq> NETANA_NO_ERROR then (CheckDeviceHandle h L, L)
      else if lib_IsCaptureRunning (lb_inst L h) then (NETANA_CAPTURE_ACTIVE, L)
      else if ulCount > NETANA_MAX_FILES then (NETANA_INVALID_PARAMETER, L)
      else if ullSize < ucast (lg_ulDMABufferSize (lb_globals L)) + FILE_HEADER_SIZE then (NETANA_INVALID_PARAMETER, L)
      else
        let fl = (li_flst (lb_inst L h))\<lparr>szPath := take NETANA_MAX_FILEPATH path, szBaseFilename := take NETANA_MAX_FILEPATH base,
               ulFileCount := ulCount, ullFileSize := ullSize\<rparr>;
            (r, x) = lib_OpenCaptureFiles os (fl, lb_files L)
        in if r \<noteq> NETANA_NO_ERROR then
             let (fl1, fs1) = lib_CloseCaptureFiles x in (r, set_lib_files h (fl1\<lparr>ulFileCount := 0\<rparr>, fs1) L)
           else (r, set_lib_files h x L))"

definition lib_netana_file_info :: "nat \<Rightarrow> u32 \<Rightarrow> bytes \<Rightarrow> 'k lib \<Rightarrow> u32 \<times> bytes" where
  "lib_netana_file_info h ulFileInfoSize ptFileInfo L =
     (let fl = li_flst (lb_inst L h) in
      if CheckDeviceHandle h L \<noteq> NETANA_NO_ERROR then (CheckDeviceHandle h L, ptFileInfo)
      else if \<not> lib_IsCaptureRunning (lb_inst L h) then (NETANA_CAPTURE_NOT_ACTIVE, ptFileInfo)
      else if ulFileCount fl = 0 then (NETANA_FILECAPTURE_NOT_ACTIVE, ptFileInfo)
      else (NETANA_NO_ERROR, blit 0 (take (min (unat ulFileInfoSize) 28) (file_information_bytes (current_file_info fl))) ptFileInfo))"

section \<open>The event thread\<close>

text \<open>Where \<open>netana_event_thread\<close> stands. In the first three after \<open>poll\<close>, \<open>n\<close> is whether \<open>POLLRDNORM\<close> is
  set, and \<open>b\<close> the block that was read.\<close>

datatype event_pc = E_Start | E_Loop | E_Read bool | E_Write bool bytes | E_Data bool bytes | E_State bool | E_Signal | E_Exit

record event_thread =
  et_pc :: event_pc
  et_ulCaptureState :: u32
  et_ulWriteError :: u32

definition new_thread :: event_thread where
  "new_thread = \<lparr>et_pc = E_Start, et_ulCaptureState = NETANA_CAPTURE_STATE_OFF, et_ulWriteError = NETANA_NO_ERROR\<rparr>"

abbreviation (input) ENOMEM :: int where "ENOMEM \<equiv> 12"

text \<open>\<open>malloc\<close>; the priority the user has set for the thread is not modelled.\<close>

definition thread_start :: "'k dev_io \<Rightarrow> nat \<Rightarrow> event_thread \<Rightarrow> ('k lib, event_thread) proc" where
  "thread_start dv h t L =
     Some (t\<lparr>et_pc := E_Loop\<rparr>,
       if dv_malloc dv (lb_sys L) then L
       else upd_inst h (\<lambda>p. p\<lparr>li_fRunEventThread := False, li_iEventError := - ENOMEM\<rparr>) L)"

definition thread_poll :: "'k dev_io \<Rightarrow> nat \<Rightarrow> event_thread \<Rightarrow> ('k lib, event_thread) proc" where
  "thread_poll dv h t L =
     (let p = lb_inst L h in
      if li_fRunEventThread p \<or> et_ulCaptureState t \<noteq> NETANA_CAPTURE_STATE_OFF then do {
        ((iRet, pri, norm), s) \<leftarrow> dv_poll dv (li_fd_Device p) (lb_sys L);
        let L1 = L\<lparr>lb_sys := s\<rparr>;
        Some (if iRet < 0 then (t, upd_inst h (\<lambda>p. p\<lparr>li_fRunEventThread := False, li_iEventError := iRet\<rparr>) L1)
              else if iRet = 0 then (t, L1)
              else (t\<lparr>et_pc := (if pri then E_Read norm else E_State norm)\<rparr>, L1))
      } else Some (t\<lparr>et_pc := E_Exit\<rparr>, L))"

abbreviation (input) errno_EAGAIN :: int where "errno_EAGAIN \<equiv> 11"

definition thread_read :: "'k dev_io \<Rightarrow> nat \<Rightarrow> bool \<Rightarrow> event_thread \<Rightarrow> ('k lib, event_thread) proc" where
  "thread_read dv h norm t L = do {
     ((iRet, b), s) \<leftarrow> dv_read dv (li_fd_Device (lb_inst L h)) (unat (li_ulDMABufferSize (lb_inst L h))) (lb_sys L);
     Some (t\<lparr>et_pc := (if 0 < iRet then E_Write norm b
                      else if iRet = 0 \<or> iRet = - errno_EAGAIN then E_Read norm else E_State norm)\<rparr>, L\<lparr>lb_sys := s\<rparr>)
   }"

text \<open>\<open>fwrite\<close> to a file that was closed, and so to \<open>NULL\<close>, ends the process.\<close>

definition thread_write :: "nat \<Rightarrow> bool \<Rightarrow> bytes \<Rightarrow> event_thread \<Rightarrow> ('k lib, event_thread) proc" where
  "thread_write h norm b t L =
     (let x = lib_files h L in
      if \<not> fWriteToFile (fst x) then Some (t\<lparr>et_pc := E_Data norm b\<rparr>, L)
      else if handle_of (fst x) (unat (ulCurrentFile (fst x))) = 0 then None
      else let (r, x1) = netana_write_to_file (of_nat (length b)) b x
           in Some (t\<lparr>et_pc := E_Data norm b, et_ulWriteError := r\<rparr>, set_lib_files h x1 L))"

definition call_back :: "callback list \<Rightarrow> 'k lib \<Rightarrow> 'k lib" where
  "call_back cs L = L\<lparr>lb_callbacks := lb_callbacks L @ cs\<rparr>"

definition thread_data :: "nat \<Rightarrow> bool \<Rightarrow> bytes \<Rightarrow> event_thread \<Rightarrow> ('k lib, event_thread) proc" where
  "thread_data h norm b t L =
     Some (t\<lparr>et_pc := E_State norm\<rparr>, if li_pfnData (lb_inst L h) then call_back [Data_Callback b] L else L)"

definition thread_state :: "'k attr_io \<Rightarrow> nat \<Rightarrow> bool \<Rightarrow> event_thread \<Rightarrow> ('k lib, event_thread) proc" where
  "thread_state io h norm t L =
     (if \<not> norm then Some (t\<lparr>et_pc := E_Signal\<rparr>, L)
      else do {
        (r, L1) \<leftarrow> netana_get_state_poll io h L;
        Some (case r of
           Inl _ \<Rightarrow> (t\<lparr>et_pc := E_Signal\<rparr>, L1)
         | Inr (st, er) \<Rightarrow> (t\<lparr>et_pc := E_Signal, et_ulCaptureState := st\<rparr>,
             upd_inst h (\<lambda>p. p\<lparr>li_ulCaptureState := st\<rparr>)
               (if li_pfnStatus (lb_inst L1 h) then call_back [Status_Callback st er] L1 else L1)))
      })"

definition thread_signal :: "'k attr_io \<Rightarrow> nat \<Rightarrow> event_thread \<Rightarrow> ('k lib, event_thread) proc" where
  "thread_signal io h t L =
     (if et_ulWriteError t = NETANA_NO_ERROR then Some (t\<lparr>et_pc := E_Loop\<rparr>, L)
      else do {
        (_, L1) \<leftarrow> netana_signal_drv_error io h (et_ulWriteError t) L;
        Some (t\<lparr>et_pc := E_Loop\<rparr>, L1)
      })"

definition netana_event_thread :: "'k attr_io \<Rightarrow> 'k dev_io \<Rightarrow> nat \<Rightarrow> event_thread \<Rightarrow> ('k lib, event_thread) proc" where
  "netana_event_thread io dv h t = (case et_pc t of
     E_Start \<Rightarrow> thread_start dv h t
   | E_Loop \<Rightarrow> thread_poll dv h t
   | E_Read norm \<Rightarrow> thread_read dv h norm t
   | E_Write norm b \<Rightarrow> thread_write h norm b t
   | E_Data norm b \<Rightarrow> thread_data h norm b t
   | E_State norm \<Rightarrow> thread_state io h norm t
   | E_Signal \<Rightarrow> thread_signal io h t
   | E_Exit \<Rightarrow> (\<lambda>L. Some (t, L)))"

section \<open>Starting and stopping\<close>

text \<open>The parameters of \<open>netana_start_capture\<close>, and where the application stands in \<open>netana_start_capture\<close>
  (\<open>M_Control\<close>, \<open>M_Await\<close>, \<open>M_Slept\<close>) or \<open>netana_stop_capture\<close>. The latter is given what the former,
  if it is the caller, returns in the end.\<close>

record start_args =
  sa_ulCaptureMode :: u32
  sa_ulPortEnableMask :: u32
  sa_ulMacMode :: u32
  sa_ullReferenceTime :: u64
  sa_pfnStatus :: bool
  sa_pfnData :: bool

datatype main_pc = M_Idle | M_Control u32 start_args | M_Await | M_Slept
  | M_Stop "u32 option" | M_Files "u32 option" | M_Off "u32 option" | M_Join "u32 option"

text \<open>\<open>ss_result\<close> is what the last call has returned, \<open>ss_blocks\<close> the blocks the threads have read.\<close>

record 'k session =
  ss_lib :: "'k lib"
  ss_main :: main_pc
  ss_threads :: "event_thread list"
  ss_result :: "u32 option"
  ss_blocks :: "bytes list"

definition return_from :: "u32 option \<Rightarrow> u32 \<Rightarrow> 'k session \<Rightarrow> 'k session" where
  "return_from caller lRet S = S\<lparr>ss_main := M_Idle, ss_result := Some (case caller of None \<Rightarrow> lRet | Some e \<Rightarrow> e)\<rparr>"

definition upd_lib :: "('k lib \<Rightarrow> 'k lib) \<Rightarrow> 'k session \<Rightarrow> 'k session" where
  "upd_lib f S = S\<lparr>ss_lib := f (ss_lib S)\<rparr>"

definition lib_start_files :: "u32 \<Rightarrow> start_args \<Rightarrow> files \<Rightarrow> u32 \<times> files" where
  "lib_start_files tz a = (\<lambda>(fl, fs).
     let fl1 = fl\<lparr>fRingBuffer := (sa_ulCaptureMode a AND NETANA_CAPTUREMODE_RINGBUFFER \<noteq> 0)\<rparr>
     in if ulFileCount fl1 > 0 then
          let h = (tFileHeader fl1)\<lparr>fh_ulCookie := NETANA_FILE_HEADER_COOKIE, fh_ulIdx := 0,
                    fh_ullCaptureStart := sa_ullReferenceTime a, fh_lTimezoneCorrection := tz, fh_ulReserved := 0\<rparr>;
              (r, x) = netana_writefileheader NETANA_FILE_HEADER_SIZE_INVALID
                         (fl1\<lparr>ulCurrentFile := 0, fWriteToFile := True, tFileHeader := h\<rparr>, fs)
          in (if r \<noteq> NETANA_NO_ERROR then NETANA_FILE_WRITE_FAILED else NETANA_NO_ERROR, x)
        else (NETANA_NO_ERROR, fl1\<lparr>fWriteToFile := False\<rparr>, fs))"

text \<open>\<open>netana_start_capture\<close> up to the creation of the thread: the preparation of the instance with what the driver has
  told, and the thread. If there is none, the call ends with what it has in \<open>lRet\<close>.\<close>

definition prepare_capture :: "nat \<Rightarrow> start_args \<Rightarrow> driver_information \<Rightarrow> 'k lib \<Rightarrow> u32 \<times> 'k lib" where
  "prepare_capture h a tDrvInfo L =
     (let L1 = upd_inst h (\<lambda>p. p\<lparr>li_ulMaxFileCount := 1, li_ulDMABufferSize := vi_ulDMABufferSize tDrvInfo,
                 li_ulDMABufferCount := vi_ulDMABufferCount tDrvInfo\<rparr>) L;
          (lRet, x) = lib_start_files (lg_lTimezoneCorrection (lb_globals L1)) a (lib_files h L1)
      in (lRet, upd_inst h (\<lambda>p. p\<lparr>li_iEventError := 0, li_fRunEventThread := True\<rparr>) (set_lib_files h x L1)))"

definition create_thread :: "'k dev_io \<Rightarrow> nat \<Rightarrow> start_args \<Rightarrow> u32 \<Rightarrow> 'k session \<Rightarrow> 'k session" where
  "create_thread dv h a lRet S =
     (if dv_pthread_create dv (lb_sys (ss_lib S)) then
        S\<lparr>ss_lib := upd_inst h (\<lambda>p. p\<lparr>li_hPollingThread := length (ss_threads S)\<rparr>) (ss_lib S),
          ss_threads := ss_threads S @ [new_thread], ss_main := M_Control lRet a\<rparr>
      else return_from None lRet S)"

definition start_capture :: "'k attr_io \<Rightarrow> 'k dev_io \<Rightarrow> nat \<Rightarrow> start_args \<Rightarrow> 'k session \<Rightarrow> 'k session option" where
  "start_capture io dv h a S =
     (let L = ss_lib S; p = lb_inst L h in
      if CheckDeviceHandle h L \<noteq> NETANA_NO_ERROR then Some (return_from None (CheckDeviceHandle h L) S)
      else if lib_IsCaptureRunning p then Some (return_from None NETANA_CAPTURE_ACTIVE S)
      else if ulFileCount (li_flst p) = 0 \<and> \<not> sa_pfnData a then Some (return_from None NETANA_CONFIGURATION_ERROR S)
      else do {
        (r, L1) \<leftarrow> on_sys (read_driver_information io True)
                    (upd_inst h (\<lambda>p. p\<lparr>li_pfnStatus := sa_pfnStatus a, li_pfnData := sa_pfnData a\<rparr>) L);
        Some (case r of
           Inl e \<Rightarrow> return_from None e (S\<lparr>ss_lib := L1\<rparr>)
         | Inr tDrvInfo \<Rightarrow> let (lRet, L2) = prepare_capture h a tDrvInfo L1 in create_thread dv h a lRet (S\<lparr>ss_lib := L2\<rparr>))
      })"

abbreviation (input) control_file :: string where "control_file \<equiv> ''device_control/capture_control/control''"

definition control_text :: "start_args \<Rightarrow> string" where
  "control_text a = sprintf ''%d %d %d %llu %i %i''
     [W (sa_ulCaptureMode a), W (sa_ulPortEnableMask a), W (sa_ulMacMode a), LL (sa_ullReferenceTime a),
      W (if sa_pfnData a then 1 else 0), W 1]"

text \<open>One access to \<open>control\<close>: \<open>None\<close>, or the error with which the call ends.\<close>

definition write_control :: "'k attr_io \<Rightarrow> nat \<Rightarrow> string \<Rightarrow> u32 \<Rightarrow> ('k lib, u32 option) proc" where
  "write_control io h txt lRet L = do {
     let d = li_iDeviceNum (lb_inst L h);
     (r, s) \<leftarrow> io_write io d control_file txt (lb_sys L);
     (case r of
        Not_Opened \<Rightarrow> Some (Some lRet, L\<lparr>lb_sys := s\<rparr>)
      | Failed \<Rightarrow> do { (e, s1) \<leftarrow> get_error io d s; Some (Some e, L\<lparr>lb_sys := s1\<rparr>) }
      | Got _ \<Rightarrow> Some (None, L\<lparr>lb_sys := s\<rparr>))
   }"

definition lib_finish_files :: "files \<Rightarrow> files" where
  "lib_finish_files x =
     (if ulFileCount (fst x) > 0 then
        let x1 = (if fWriteToFile (fst x) then snd (netana_writefileheader (cur_offset x - FILE_HEADER_SIZE) x) else x);
            (fl, fs) = lib_CloseCaptureFiles x1
        in (fl\<lparr>ulFileCount := 0\<rparr>, fs)
      else x)"

definition main_step :: "'k attr_io \<Rightarrow> nat \<Rightarrow> 'k session \<Rightarrow> 'k session option" where
  "main_step io h S = (let L = ss_lib S; p = lb_inst L h in
     case ss_main S of
       M_Idle \<Rightarrow> Some S
     | M_Control lRet a \<Rightarrow> do {
         (r, L1) \<leftarrow> write_control io h (control_text a) lRet L;
         Some (case r of Some e \<Rightarrow> return_from None e (S\<lparr>ss_lib := L1\<rparr>) | None \<Rightarrow> S\<lparr>ss_lib := L1, ss_main := M_Await\<rparr>)
       }
     | M_Await \<Rightarrow> Some (if lib_IsCaptureRunning p then return_from None NETANA_NO_ERROR S else S\<lparr>ss_main := M_Slept\<rparr>)
     | M_Slept \<Rightarrow> Some (S\<lparr>ss_main := (if li_iEventError p \<noteq> 0 then M_Stop (Some NETANA_THREAD_CREATION_FAILED) else M_Await)\<rparr>)
     | M_Stop caller \<Rightarrow>
         if CheckDeviceHandle h L \<noteq> NETANA_NO_ERROR then Some (return_from caller (CheckDeviceHandle h L) S)
         else if \<not> lib_IsCaptureRunning p then Some (return_from caller NETANA_CAPTURE_NOT_ACTIVE S)
         else do {
           (r, L1) \<leftarrow> write_control io h (sprintf ''%d'' [W 1]) NETANA_INVALID_PARAMETER L;
           Some (case r of Some e \<Rightarrow> return_from caller e (S\<lparr>ss_lib := L1\<rparr>) | None \<Rightarrow> S\<lparr>ss_lib := L1, ss_main := M_Files caller\<rparr>)
         }
     | M_Files caller \<Rightarrow> Some (S\<lparr>ss_lib := set_lib_files h (lib_finish_files (lib_files h L)) L, ss_main := M_Off caller\<rparr>)
     | M_Off caller \<Rightarrow>
         Some (if lib_IsCaptureRunning p then S
               else S\<lparr>ss_lib := upd_inst h (\<lambda>p. p\<lparr>li_fRunEventThread := False\<rparr>) L, ss_main := M_Join caller\<rparr>)
     | M_Join caller \<Rightarrow>
         Some (if et_pc (ss_threads S ! li_hPollingThread p) = E_Exit
               then return_from caller NETANA_NO_ERROR (upd_lib (upd_inst h (\<lambda>p. p\<lparr>li_pfnStatus := False, li_pfnData := False\<rparr>)) S)
               else S))"

section \<open>Runs\<close>

text \<open>The block a step of a thread has read.\<close>

fun new_block :: "event_pc \<Rightarrow> event_pc \<Rightarrow> bytes list" where
  "new_block (E_Read n) (E_Write m b) = [b]"
| "new_block _ _ = []"

text \<open>A capture from the creation of its thread on: steps of the application, which may call
  \<open>netana_stop_capture\<close>, of the threads and of the system, which moves as \<open>sys\<close> says.\<close>

inductive capture_step :: "'k attr_io \<Rightarrow> 'k dev_io \<Rightarrow> ('k \<Rightarrow> 'k \<Rightarrow> bool) \<Rightarrow> nat \<Rightarrow> 'k session \<Rightarrow> 'k session \<Rightarrow> bool"
    for io dv sys h where
  cs_main: "main_step io h S = Some S' \<Longrightarrow> capture_step io dv sys h S S'"
| cs_stop: "ss_main S = M_Idle \<Longrightarrow> capture_step io dv sys h S (S\<lparr>ss_main := M_Stop None\<rparr>)"
| cs_thread: "i < length (ss_threads S) \<Longrightarrow> netana_event_thread io dv h (ss_threads S ! i) (ss_lib S) = Some (t, L) \<Longrightarrow>
    capture_step io dv sys h S (S\<lparr>ss_lib := L, ss_threads := (ss_threads S)[i := t],
      ss_blocks := ss_blocks S @ new_block (et_pc (ss_threads S ! i)) (et_pc t)\<rparr>)"
| cs_system: "sys (lb_sys (ss_lib S)) k \<Longrightarrow> capture_step io dv sys h S (upd_lib (\<lambda>L. L\<lparr>lb_sys := k\<rparr>) S)"

text \<open>Any use of an open device.\<close>

inductive session_step :: "'k attr_io \<Rightarrow> 'k dev_io \<Rightarrow> os_files \<Rightarrow> ('k \<Rightarrow> 'k \<Rightarrow> bool) \<Rightarrow> nat \<Rightarrow> 'k session \<Rightarrow> 'k session \<Rightarrow> bool"
    for io dv os sys h where
  se_capture: "capture_step io dv sys h S S' \<Longrightarrow> session_step io dv os sys h S S'"
| se_start: "ss_main S = M_Idle \<Longrightarrow> start_capture io dv h a S = Some S' \<Longrightarrow> session_step io dv os sys h S S'"
| se_filelist: "ss_main S = M_Idle \<Longrightarrow> lib_netana_set_filelist os h path base n sz (ss_lib S) = (r, L) \<Longrightarrow>
    session_step io dv os sys h S (S\<lparr>ss_lib := L, ss_result := Some r\<rparr>)"

inductive_cases capture_stepE: "capture_step io dv sys h S S'"
inductive_cases session_stepE: "session_step io dv os sys h S S'"

end
