(* ===== verification/Lib_Session_Files.thy ===== *)
theory Lib_Session_Files
  imports Lib_Session
begin

text \<open>
  The file list of a capture of the library. Opening, starting and finishing the files are the routines of the
  toolkit on the files of the process, so that they obey the same contract, provided that
  \<open>FileOpen\<close> gives new files of the size asked for.
\<close>

definition lib_ops :: "os_files \<Rightarrow> file_ops" where
  "lib_ops os = \<lparr>fo_write = stdio_fwrite, fo_seek = stdio_fseek, fo_open = FileOpen os, fo_close = stdio_fclose\<rparr>"

lemma lib_ops_sel [simp]: "fo_write (lib_ops os) = stdio_fwrite" "fo_seek (lib_ops os) = stdio_fseek"
    "fo_open (lib_ops os) = FileOpen os" "fo_close (lib_ops os) = stdio_fclose"
  by (simp_all add: lib_ops_def)

lemma lib_close_loop_eq: "lib_close_loop is x = close_loop (lib_ops os) is x"
  by (induction "is" x rule: lib_close_loop.induct) (simp_all add: Let_def)

lemma lib_Close_eq: "lib_CloseCaptureFiles = CloseCaptureFiles (lib_ops os)"
  by (simp add: fun_eq_iff lib_CloseCaptureFiles_def CloseCaptureFiles_def lib_close_loop_eq[of _ _ os])

lemma lib_open_loop_eq: "lib_open_loop os is x = open_loop (lib_ops os) is x"
  by (induction os "is" x rule: lib_open_loop.induct) (simp_all add: Let_def split: prod.split)

lemma lib_Open_eq: "lib_OpenCaptureFiles os = OpenCaptureFiles (lib_ops os)"
  by (simp add: fun_eq_iff lib_OpenCaptureFiles_def OpenCaptureFiles_def lib_open_loop_eq lib_Close_eq[of os])

lemma lib_header_eq: "netana_writefileheader = netana_tkit_writefileheader (lib_ops os)"
  unfolding netana_writefileheader_def netana_tkit_writefileheader_def lib_ops_sel by (rule refl)

lemma lib_finish_eq: "lib_finish_files = finish_files (lib_ops os)"
  by (simp add: fun_eq_iff lib_finish_files_def finish_files_def lib_header_eq[of os] lib_Close_eq[of os])

text \<open>So is the report about them.\<close>

lemma lib_file_info_eq:
  "CheckDeviceHandle h L = NETANA_NO_ERROR \<Longrightarrow> li_flst (lb_inst L h) = flst (dev s) \<Longrightarrow> lib_IsCaptureRunning (lb_inst L h) = IsCaptureRunning s \<Longrightarrow>
   lib_netana_file_info h n b L = netana_file_info n b s"
  by (simp add: lib_netana_file_info_def netana_file_info_def Let_def)

section \<open>A directory for the capture files\<close>

text \<open>What \<open>FileOpen\<close> relies on: \<open>open\<close> gives a handle which is not in use and an empty file, and
  \<open>posix_fallocate\<close> gives it the length asked for.\<close>

locale capture_directory =
  fixes os :: os_files
  assumes os_open_frame: "of_open os name fs = (h, fs') \<Longrightarrow> h \<noteq> 0 \<Longrightarrow> j \<noteq> h \<Longrightarrow> fs' j = fs j"
    and os_open_new: "of_open os name fs = (h, fs') \<Longrightarrow> h \<noteq> 0 \<Longrightarrow>
      \<not> fs_open (fs h) \<and> fs' h = \<lparr>fs_bytes = [], fs_pos = 0, fs_room = 0, fs_open = True\<rparr>"
    and os_fallocate: "of_fallocate os h off len fs =
      fs(h := (fs h)\<lparr>fs_bytes := fs_bytes (fs h) @ replicate (off + len - length (fs_bytes (fs h))) 0, fs_room := off + len\<rparr>)"

sublocale capture_directory \<subseteq> file_opener "lib_ops os"
proof (unfold_locales, goal_cases)
  case (3 name sz fs h fs')
  then show ?case
    using os_open_frame by (auto simp: FileOpen_def os_fallocate Let_def split: prod.splits if_splits) 
next
  case (4 name sz fs h fs')
  obtain fs1 where o: "of_open os name fs = (h, fs1)"
      "fs' = (if length (fs_bytes (fs1 h)) < unat sz then of_fallocate os h (length (fs_bytes (fs1 h))) (unat sz) fs1 else fs1)"
    using 4 by (auto simp: FileOpen_def Let_def split: prod.splits if_split_asm)
  show ?case
    using os_open_new[OF o(1) 4(2)] o(2) by (simp add: os_fallocate)
qed (simp_all add: stdio_fwrite_def stdio_fseek_def stdio_fclose_def Let_def)

context capture_directory
begin

lemma opener: "file_opener (lib_ops os)"
  by (rule file_opener_axioms)

end

text \<open>A directory with no capture files yet, and a process which may open 1023 files.\<close>

definition new_directory :: os_files where
  "new_directory = \<lparr>
     of_open = (\<lambda>name fs. case find (\<lambda>h. \<not> fs_open (fs h)) [1..<1024] of
        None \<Rightarrow> (0, fs)
      | Some h \<Rightarrow> (h, fs(h := \<lparr>fs_bytes = [], fs_pos = 0, fs_room = 0, fs_open = True\<rparr>))),
     of_fstat = (\<lambda>h fs. True),
     of_fallocate = (\<lambda>h off len fs. fs(h := (fs h)\<lparr>fs_bytes := fs_bytes (fs h) @ replicate (off + len - length (fs_bytes (fs h))) 0,
        fs_room := off + len\<rparr>)),
     of_fdopen = (\<lambda>h fs. True)\<rparr>"

interpretation new_dir: capture_directory new_directory
  by unfold_locales (auto simp: new_directory_def find_Some_iff split: option.split_asm)

section \<open>The list before and after a capture\<close>

text \<open>A list ready for a capture.\<close>

definition lib_filelist_ready :: "files \<Rightarrow> bool" where
  "lib_filelist_ready x \<longleftrightarrow> fresh_upto (unat (ulFileCount (fst x))) x \<and> unat (ullFileSize (fst x)) < 2 ^ 63 \<and>
     FILE_HEADER_SIZE \<le> ullFileSize (fst x)"

lemma start_files_filing:
  assumes "lib_filelist_ready x" "0 < ulFileCount (fst x)"
  shows "\<exists>k. files_rel (snd (lib_start_files tz a x)) k \<and> sk_active k \<and> sink_data k = [] \<and> sk_cap k = unat (ullFileSize (fst x)) \<and>
    sk_count k = unat (ulFileCount (fst x)) \<and> sk_ring k = (sa_ulCaptureMode a AND NETANA_CAPTUREMODE_RINGBUFFER \<noteq> 0) \<and>
    (\<forall>i < sk_count k. handle_of (fst (snd (lib_start_files tz a x))) i \<noteq> 0)"
proof -
  obtain fl fs where x: "x = (fl, fs)"
    by (metis surj_pair)
  let ?h = "(tFileHeader fl)\<lparr>fh_ulCookie := NETANA_FILE_HEADER_COOKIE, fh_ulIdx := 0,
      fh_ullCaptureStart := sa_ullReferenceTime a, fh_lTimezoneCorrection := tz, fh_ulReserved := 0\<rparr>"
  let ?fl = "fl\<lparr>fRingBuffer := (sa_ulCaptureMode a AND NETANA_CAPTUREMODE_RINGBUFFER \<noteq> 0), ulCurrentFile := 0,
      fWriteToFile := True, tFileHeader := ?h\<rparr>"
  have fresh: "fresh_upto (unat (ulFileCount ?fl)) (?fl, fs)"
    using assms(1) by (simp add: lib_filelist_ready_def fresh_upto_def x)
  let ?y = "snd (netana_tkit_writefileheader (lib_ops new_directory) NETANA_FILE_HEADER_SIZE_INVALID (?fl, fs))"
  have "files_rel ?y (new_sink ?fl)"
    using assms by (intro new_dir.start_fresh fresh) (simp_all add: lib_filelist_ready_def x)
  moreover have y: "snd (lib_start_files tz a x) = ?y"
    using assms(2) by (simp add: lib_start_files_def x Let_def lib_header_eq[of new_directory] case_prod_beta)
  moreover have "handle_of (fst ?y) i \<noteq> 0" if "i < unat (ulFileCount fl)" for i
    using fresh_uptoD(2)[OF fresh] that by simp
  ultimately show ?thesis
    unfolding y by (intro exI[of _ "new_sink ?fl"]) (simp add: new_sink_def sink_data_def x)
qed

lemma start_no_files: "ulFileCount (fst x) = 0 \<Longrightarrow> \<not> fWriteToFile (fst (snd (lib_start_files tz a x))) \<and>
    ulFileCount (fst (snd (lib_start_files tz a x))) = 0"
  by (cases x) (simp add: lib_start_files_def Let_def)

lemma start_files_count [simp]: "ulFileCount (fst (snd (lib_start_files tz a x))) = ulFileCount (fst x)"
  by (cases x) (simp add: lib_start_files_def Let_def lib_header_eq[of new_directory] case_prod_beta)

text \<open>\<open>netana_set_filelist\<close> leaves such a list, or none.\<close>

lemma set_filelist_ready:
  assumes "capture_directory os" "lib_netana_set_filelist os h path base n sz L = (NETANA_NO_ERROR, L')"
    and "length (atFiles (li_flst (lb_inst L h))) = 256" "unat sz < 2 ^ 63"
  shows "lib_filelist_ready (lib_files h L')" "ulFileCount (fst (lib_files h L')) = n" "ullFileSize (fst (lib_files h L')) = sz"
    "unat (lg_ulDMABufferSize (lb_globals L)) + 32 \<le> unat sz" "\<exists>x. L' = set_lib_files h x L"
proof -
  let ?fl = "(li_flst (lb_inst L h))\<lparr>szPath := take NETANA_MAX_FILEPATH path, szBaseFilename := take NETANA_MAX_FILEPATH base,
      ulFileCount := n, ullFileSize := sz\<rparr>"
  have fo: "file_opener (lib_ops os)"
    by (rule capture_directory.opener[OF assms(1)])
  have ne: "CheckDeviceHandle h L = NETANA_NO_ERROR" "\<not> lib_IsCaptureRunning (lb_inst L h)" "n \<le> 256"
      "ucast (lg_ulDMABufferSize (lb_globals L)) + FILE_HEADER_SIZE \<le> sz"
    using assms(2) by (auto simp: lib_netana_set_filelist_def not_less split: if_split_asm)
  obtain r x where op: "OpenCaptureFiles (lib_ops os) (?fl, lb_files L) = (r, x)"
    by (metis surj_pair)
  have r: "r = NETANA_NO_ERROR" "L' = set_lib_files h x L"
    using assms(2) ne op by (auto simp: lib_netana_set_filelist_def lib_Open_eq Let_def not_less split: if_split_asm prod.split_asm)
  have n: "unat (ulFileCount (fst (?fl, lb_files L))) \<le> length (atFiles (fst (?fl, lb_files L)))"
    using assms(3) ne(3) by (simp add: word_le_nat_alt)
  note new = file_opener.OpenCaptureFiles_fresh[OF fo op[unfolded r(1)] n]
  show "\<exists>x. L' = set_lib_files h x L"
    using r(2) by blast
  show "ulFileCount (fst (lib_files h L')) = n" "ullFileSize (fst (lib_files h L')) = sz"
    "unat (lg_ulDMABufferSize (lb_globals L)) + 32 \<le> unat sz" "lib_filelist_ready (lib_files h L')"
    using new r(2) buffer_fits[OF ne(4)] assms(4) by (simp_all add: lib_filelist_ready_def set_lib_files_def upd_inst_def lib_files_def)
qed

end
