(* ===== verification/Lib_Run.thy ===== *)
theory Lib_Run
  imports Lib_Session_Files
begin

text \<open>
  What every use of an open device keeps: the invariant of the instance and its threads under any
  interleaving of the application, the event threads and the system.
\<close>

section \<open>What one step changes\<close>

lemma upd_inst_sel [simp]:
  "lb_inst (upd_inst h f L) h = f (lb_inst L h)" "lb_cards (upd_inst h f L) = lb_cards L"
  "lb_globals (upd_inst h f L) = lb_globals L" "lb_files (upd_inst h f L) = lb_files L"
  "lb_callbacks (upd_inst h f L) = lb_callbacks L" "lb_sys (upd_inst h f L) = lb_sys L"
  by (simp_all add: upd_inst_def)

lemma call_back_sel [simp]:
  "lb_inst (call_back cs L) = lb_inst L" "lb_cards (call_back cs L) = lb_cards L" "lb_globals (call_back cs L) = lb_globals L"
  "lb_files (call_back cs L) = lb_files L" "lb_sys (call_back cs L) = lb_sys L"
  "lb_callbacks (call_back cs L) = lb_callbacks L @ cs"
  by (simp_all add: call_back_def)

lemma set_lib_files_sel [simp]:
  "lb_inst (set_lib_files h x L) h = (lb_inst L h)\<lparr>li_flst := fst x\<rparr>" "lb_cards (set_lib_files h x L) = lb_cards L"
  "lb_globals (set_lib_files h x L) = lb_globals L" "lb_files (set_lib_files h x L) = snd x"
  "lb_callbacks (set_lib_files h x L) = lb_callbacks L" "lb_sys (set_lib_files h x L) = lb_sys L"
  "lib_files h (set_lib_files h x L) = x"
  by (simp_all add: set_lib_files_def lib_files_def)

lemma on_sys_frame: "on_sys f L = Some (r, L') \<Longrightarrow> \<exists>k. f (lb_sys L) = Some (r, k) \<and> L' = L\<lparr>lb_sys := k\<rparr>"
  by (auto simp: on_sys_def bind_eq_Some_conv)

lemma with_handle_frame: "with_handle h g f L = Some (r, L') \<Longrightarrow> \<exists>k. L' = L\<lparr>lb_sys := k\<rparr>"
  by (auto simp: with_handle_def dest: on_sys_frame split: if_split_asm intro: exI[of _ "lb_sys L"])

lemma state_poll_frame: "netana_get_state_poll io h L = Some (r, L') \<Longrightarrow> \<exists>k. L' = L\<lparr>lb_sys := k\<rparr>"
  unfolding netana_get_state_poll_def by (rule with_handle_frame)

lemma drv_error_frame: "netana_signal_drv_error io h e L = Some (r, L') \<Longrightarrow> \<exists>k. L' = L\<lparr>lb_sys := k\<rparr>"
  unfolding netana_signal_drv_error_def by (rule with_handle_frame)

lemma write_control_frame: "write_control io h txt lRet L = Some (r, L') \<Longrightarrow> \<exists>k. L' = L\<lparr>lb_sys := k\<rparr>"
proof -
  assume "write_control io h txt lRet L = Some (r, L')"
  then obtain x s where "(case x of Not_Opened \<Rightarrow> Some (Some lRet, L\<lparr>lb_sys := s\<rparr>)
      | Failed \<Rightarrow> do { (e, s1) \<leftarrow> get_error io (li_iDeviceNum (lb_inst L h)) s; Some (Some e, L\<lparr>lb_sys := s1\<rparr>) }
      | Got (_ :: unit) \<Rightarrow> Some (None, L\<lparr>lb_sys := s\<rparr>)) = Some (r, L')"
    by (auto simp: write_control_def bind_eq_Some_conv Let_def)
  then show ?thesis
    by (cases x) (auto simp: bind_eq_Some_conv)
qed

definition data_callbacks :: "callback list \<Rightarrow> bytes list" where
  "data_callbacks cs = concat (map (\<lambda>c. case c of Data_Callback b \<Rightarrow> [b] | Status_Callback s e \<Rightarrow> []) cs)"

lemma data_callbacks_simps [simp]:
  "data_callbacks [] = []" "data_callbacks (xs @ ys) = data_callbacks xs @ data_callbacks ys"
  "data_callbacks [Data_Callback b] = [b]" "data_callbacks [Status_Callback s e] = []"
  by (simp_all add: data_callbacks_def)

text \<open>The step of a thread, seen from the others.\<close>

definition thread_effect :: "nat \<Rightarrow> event_thread \<Rightarrow> 'k lib \<Rightarrow> event_thread \<Rightarrow> 'k lib \<Rightarrow> bool" where
  "thread_effect h t L t' L' \<longleftrightarrow> (let p = lb_inst L h; q = lb_inst L' h in
     lb_cards L' = lb_cards L \<and> lb_globals L' = lb_globals L \<and> li_hPollingThread q = li_hPollingThread p \<and>
     li_pfnStatus q = li_pfnStatus p \<and> li_pfnData q = li_pfnData p \<and> li_ulDMABufferSize q = li_ulDMABufferSize p \<and>
     li_fd_Device q = li_fd_Device p \<and>
     (li_fRunEventThread q \<longrightarrow> li_fRunEventThread p) \<and>
     (if et_ulCaptureState t' = et_ulCaptureState t \<and> li_ulCaptureState q = li_ulCaptureState p then True
      else li_ulCaptureState q = et_ulCaptureState t' \<and> et_pc t' = E_Signal) \<and>
     (et_pc t' = E_Exit \<longrightarrow> et_pc t = E_Exit \<or> et_pc t = E_Loop \<and> et_ulCaptureState t' = NETANA_CAPTURE_STATE_OFF \<and> \<not> li_fRunEventThread p) \<and>
     (et_pc t = E_Exit \<longrightarrow> t' = t \<and> L' = L) \<and>
     (case et_pc t of
        E_Write n b \<Rightarrow> thread_write h n b t L = Some (t', L')
      | _ \<Rightarrow> lib_files h L' = lib_files h L) \<and>
     data_callbacks (lb_callbacks L') = data_callbacks (lb_callbacks L) @
       (case et_pc t of E_Data n b \<Rightarrow> if li_pfnData p then [b] else [] | _ \<Rightarrow> []) \<and>
     (case et_pc t of E_Read n \<Rightarrow> True | E_Write n b \<Rightarrow> et_pc t' = E_Data n b | _ \<Rightarrow> (\<forall>n b. et_pc t' \<noteq> E_Write n b \<and> et_pc t' \<noteq> E_Data n b)) \<and>
     (case et_pc t of E_Read n \<Rightarrow> (\<forall>n b. et_pc t' \<noteq> E_Data n b) | _ \<Rightarrow> True))"

lemma event_thread_effect:
  assumes "netana_event_thread io dv h t L = Some (t', L')"
  shows "thread_effect h t L t' L'"
proof (cases "et_pc t")
  case (E_State n)
  show ?thesis
  proof (cases n)
    case True
    then obtain r L1 where L1: "netana_get_state_poll io h L = Some (r, L1)"
        "(t', L') = (case r of Inl _ \<Rightarrow> (t\<lparr>et_pc := E_Signal\<rparr>, L1)
         | Inr (st, er) \<Rightarrow> (t\<lparr>et_pc := E_Signal, et_ulCaptureState := st\<rparr>,
             upd_inst h (\<lambda>p. p\<lparr>li_ulCaptureState := st\<rparr>)
               (if li_pfnStatus (lb_inst L1 h) then call_back [Status_Callback st er] L1 else L1)))"
      using assms E_State by (auto simp: netana_event_thread_def thread_state_def bind_eq_Some_conv)
    obtain k where "L1 = L\<lparr>lb_sys := k\<rparr>"
      using state_poll_frame[OF L1(1)] by blast
    then show ?thesis
      using L1(2) E_State by (auto simp: thread_effect_def Let_def lib_files_def split: sum.split_asm if_split_asm prod.split_asm)
  qed (use assms E_State in \<open>auto simp: netana_event_thread_def thread_state_def thread_effect_def Let_def\<close>)
next
  case E_Signal
  show ?thesis
  proof (cases "et_ulWriteError t = NETANA_NO_ERROR")
    case False
    then obtain r L1 where L1: "netana_signal_drv_error io h (et_ulWriteError t) L = Some (r, L1)" "t' = t\<lparr>et_pc := E_Loop\<rparr>" "L' = L1"
      using assms E_Signal by (auto simp: netana_event_thread_def thread_signal_def bind_eq_Some_conv)
    obtain k where "L1 = L\<lparr>lb_sys := k\<rparr>"
      using drv_error_frame[OF L1(1)] by blast
    then show ?thesis
      using L1(2,3) E_Signal by (auto simp: thread_effect_def Let_def lib_files_def)
  qed (use assms E_Signal in \<open>auto simp: netana_event_thread_def thread_signal_def thread_effect_def Let_def\<close>)
next
  case (E_Write n b)
  then show ?thesis
    using assms by (auto simp: netana_event_thread_def thread_write_def thread_effect_def Let_def split: if_split_asm prod.split_asm)
next
  case E_Loop
  show ?thesis
  proof (cases "li_fRunEventThread (lb_inst L h) \<or> et_ulCaptureState t \<noteq> NETANA_CAPTURE_STATE_OFF")
    case True
    then have e: "dv_poll dv (li_fd_Device (lb_inst L h)) (lb_sys L) \<bind> (\<lambda>((r, pri, n), s). Some (if r < 0
        then (t, upd_inst h (\<lambda>p. p\<lparr>li_fRunEventThread := False, li_iEventError := r\<rparr>) (L\<lparr>lb_sys := s\<rparr>))
        else if r = 0 then (t, L\<lparr>lb_sys := s\<rparr>) else (t\<lparr>et_pc := (if pri then E_Read n else E_State n)\<rparr>, L\<lparr>lb_sys := s\<rparr>))) = Some (t', L')"
      using assms E_Loop by (simp add: netana_event_thread_def thread_poll_def Let_def)
    obtain r pri n s where d: "dv_poll dv (li_fd_Device (lb_inst L h)) (lb_sys L) = Some ((r, pri, n), s)"
      using e by (cases "dv_poll dv (li_fd_Device (lb_inst L h)) (lb_sys L)") auto
    have "(t', L') = (if r < 0
        then (t, upd_inst h (\<lambda>p. p\<lparr>li_fRunEventThread := False, li_iEventError := r\<rparr>) (L\<lparr>lb_sys := s\<rparr>))
        else if r = 0 then (t, L\<lparr>lb_sys := s\<rparr>) else (t\<lparr>et_pc := (if pri then E_Read n else E_State n)\<rparr>, L\<lparr>lb_sys := s\<rparr>))"
      using e by (simp add: d)
    then show ?thesis
      using E_Loop by (simp add: thread_effect_def Let_def lib_files_def split: if_split_asm)
  next
    case False
    then have "t' = t\<lparr>et_pc := E_Exit\<rparr>" "L' = L"
      using assms E_Loop by (simp_all add: netana_event_thread_def thread_poll_def Let_def)
    then show ?thesis
      using False E_Loop by (simp add: thread_effect_def Let_def)
  qed
next
  case E_Start
  then show ?thesis
    using assms by (cases "dv_malloc dv (lb_sys L)") (auto simp: netana_event_thread_def thread_start_def thread_effect_def Let_def lib_files_def)
next
  case (E_Read n)
  then obtain r b s where "t' = t\<lparr>et_pc := (if 0 < r then E_Write n b else if r = 0 \<or> r = - errno_EAGAIN then E_Read n else E_State n)\<rparr>"
      "L' = L\<lparr>lb_sys := s\<rparr>"
    using assms by (auto simp: netana_event_thread_def thread_read_def bind_eq_Some_conv)
  then show ?thesis
    using E_Read by (simp add: thread_effect_def Let_def lib_files_def)
next
  case (E_Data n b)
  then show ?thesis
    using assms by (cases "li_pfnData (lb_inst L h)") (auto simp: netana_event_thread_def thread_data_def thread_effect_def Let_def lib_files_def)
next
  case E_Exit
  then show ?thesis
    using assms by (simp add: netana_event_thread_def thread_effect_def Let_def)
qed

section \<open>The file list stays in its array\<close>

definition filelist_wf :: "filelist \<Rightarrow> bool" where
  "filelist_wf fl \<longleftrightarrow> length (atFiles fl) = 256 \<and> ulFileCount fl \<le> 256 \<and> ulCurrentFile fl < 256"

lemma write_to_file_wf: "filelist_wf (fst x) \<Longrightarrow> filelist_wf (fst (snd (netana_write_to_file sz data x)))"
proof -
  assume wf: "filelist_wf (fst x)"
  then have "ulCurrentFile (fst x) + 1 \<ge> ulFileCount (fst x) \<or> ulCurrentFile (fst x) + 1 < 256"
    by (auto simp: filelist_wf_def)
  then show ?thesis
    using wf unfolding lib_store_eq store_buffer_def
    by (auto simp: filelist_wf_def Let_def split: prod.split)
      (metis fst_conv snd_conv writefileheader_frame(3,5,6))+
qed

lemma close_loop_current [simp]: "ulCurrentFile (fst (close_loop ops is x)) = ulCurrentFile (fst x)"
  unfolding close_loop_fold by (induction "is" arbitrary: x) (simp_all add: close_one_def)

lemma Close_wf: "filelist_wf (fst (CloseCaptureFiles ops x)) = filelist_wf (fst x)"
  by (simp add: filelist_wf_def CloseCaptureFiles_def)

lemma open_loop_current: "open_loop ops is (fl, fs) = (r, x) \<Longrightarrow> ulCurrentFile (fst x) = ulCurrentFile fl"
  by (induction "is" arbitrary: fl fs) (auto simp: Let_def split: if_splits prod.splits)

lemma Open_current: "OpenCaptureFiles ops x = (r, y) \<Longrightarrow> ulCurrentFile (fst y) = 0"
  by (auto simp: OpenCaptureFiles_def dest: open_loop_current split: prod.split_asm)

lemma set_filelist_wf:
  assumes "lib_netana_set_filelist os h path base n sz L = (r, L')" "filelist_wf (li_flst (lb_inst L h))"
  shows "filelist_wf (li_flst (lb_inst L' h))" "\<exists>x. L' = L \<or> L' = set_lib_files h x L"
proof -
  let ?fl = "(li_flst (lb_inst L h))\<lparr>szPath := take NETANA_MAX_FILEPATH path, szBaseFilename := take NETANA_MAX_FILEPATH base,
      ulFileCount := n, ullFileSize := sz\<rparr>"
  obtain e x where op: "OpenCaptureFiles (lib_ops os) (?fl, lb_files L) = (e, x)"
    by (metis surj_pair)
  let ?c = "CloseCaptureFiles (lib_ops os) x"
  have x: "filelist_wf (fst x)" if "n \<le> 256"
    using OpenCaptureFiles_frame[OF op] Open_current[OF op] assms(2) that by (simp add: filelist_wf_def)
  have d: "L' = L \<or> n \<le> 256 \<and> (L' = set_lib_files h x L \<or> L' = set_lib_files h ((fst ?c)\<lparr>ulFileCount := 0\<rparr>, snd ?c) L)"
    using assms(1) op by (auto simp: lib_netana_set_filelist_def lib_Open_eq lib_Close_eq[of os] Let_def not_less split: if_split_asm prod.split_asm)
  show "\<exists>x. L' = L \<or> L' = set_lib_files h x L"
    using d by blast
  show "filelist_wf (li_flst (lb_inst L' h))"
    using d
  proof (elim disjE conjE)
    assume "n \<le> 256" "L' = set_lib_files h ((fst ?c)\<lparr>ulFileCount := 0\<rparr>, snd ?c) L"
    then show ?thesis
      using x Close_wf[of "lib_ops os" x] by (simp add: filelist_wf_def)
  qed (use assms(2) x in simp_all)
qed

lemma start_files_wf: "filelist_wf (fst x) \<Longrightarrow> filelist_wf (fst (snd (lib_start_files tz a x)))"
  by (simp add: lib_start_files_def Let_def lib_writefileheader_eq filelist_wf_def case_prod_beta)

lemma Close_sel [simp]: "ulCurrentFile (fst (CloseCaptureFiles ops x)) = ulCurrentFile (fst x)"
  by (simp add: CloseCaptureFiles_def)

lemma finish_files_wf: "filelist_wf (fst x) \<Longrightarrow> filelist_wf (fst (lib_finish_files x))"
  by (simp add: lib_finish_files_def Let_def lib_writefileheader_eq filelist_wf_def lib_Close_eq[of undefined] case_prod_beta)

section \<open>The invariant of a session\<close>

text \<open>The indices are inside their arrays; a thread has only ended when no capture was running for it; while a capture runs,
  the thread that has seen it start is alive; the thread the application will join exists.\<close>

definition session_wf :: "nat \<Rightarrow> 'k session \<Rightarrow> bool" where
  "session_wf h S \<longleftrightarrow> (let p = lb_inst (ss_lib S) h; ts = ss_threads S in
     filelist_wf (li_flst p) \<and>
     (\<forall>t \<in> set ts. et_pc t = E_Exit \<longrightarrow> et_ulCaptureState t = NETANA_CAPTURE_STATE_OFF) \<and>
     (lib_IsCaptureRunning p \<longrightarrow> (\<exists>t \<in> set ts. et_pc t \<noteq> E_Exit \<and> et_ulCaptureState t = li_ulCaptureState p)) \<and>
     (ts \<noteq> [] \<longrightarrow> li_hPollingThread p < length ts) \<and>
     (ss_main S = M_Idle \<or> (\<exists>c. ss_main S = M_Stop c) \<or> ts \<noteq> []) \<and>
     (\<forall>c. ss_main S = M_Join c \<longrightarrow> \<not> li_fRunEventThread p))"

text \<open>A device just opened.\<close>

definition session_open :: "nat \<Rightarrow> 'k session \<Rightarrow> bool" where
  "session_open h S \<longleftrightarrow> ss_main S = M_Idle \<and> ss_threads S = [] \<and> \<not> lib_IsCaptureRunning (lb_inst (ss_lib S) h) \<and>
     filelist_wf (li_flst (lb_inst (ss_lib S) h))"

lemma session_open_wf: "session_open h S \<Longrightarrow> session_wf h S"
  by (simp add: session_open_def session_wf_def Let_def)

lemma set_update_cases: "i < length xs \<Longrightarrow> t \<in> set (xs[i := v]) \<Longrightarrow> t = v \<or> (\<exists>j < length xs. j \<noteq> i \<and> t = xs ! j)"
  by (auto simp: in_set_conv_nth nth_list_update split: if_split_asm)

lemma thread_keeps_wf:
  assumes wf: "session_wf h S" and i: "i < length (ss_threads S)"
    and eff: "thread_effect h (ss_threads S ! i) (ss_lib S) t L"
  shows "session_wf h (S\<lparr>ss_lib := L, ss_threads := (ss_threads S)[i := t], ss_blocks := bs\<rparr>)"
proof -
  let ?p = "lb_inst (ss_lib S) h" and ?q = "lb_inst L h" and ?ts = "ss_threads S" and ?t = "ss_threads S ! i"
  note eff = eff[unfolded thread_effect_def Let_def]
  have e_exit: "et_pc t = E_Exit \<longrightarrow> et_pc ?t = E_Exit \<or> et_pc ?t = E_Loop \<and> et_ulCaptureState t = NETANA_CAPTURE_STATE_OFF \<and> \<not> li_fRunEventThread ?p"
    and e_stay: "et_pc ?t = E_Exit \<longrightarrow> t = ?t \<and> L = ss_lib S"
    and e_run: "li_fRunEventThread ?q \<longrightarrow> li_fRunEventThread ?p" and e_poll: "li_hPollingThread ?q = li_hPollingThread ?p"
    and e_state: "if et_ulCaptureState t = et_ulCaptureState ?t \<and> li_ulCaptureState ?q = li_ulCaptureState ?p then True
      else li_ulCaptureState ?q = et_ulCaptureState t \<and> et_pc t = E_Signal"
    and e_files: "case et_pc ?t of E_Write n b \<Rightarrow> thread_write h n b ?t (ss_lib S) = Some (t, L) | _ \<Rightarrow> lib_files h L = lib_files h (ss_lib S)"
    by (insert eff, elim conjE, assumption)+
  have t_exit: "et_pc t = E_Exit \<longrightarrow> et_ulCaptureState t = NETANA_CAPTURE_STATE_OFF"
    using e_exit e_stay wf i by (auto simp: session_wf_def Let_def)
  have ti: "et_pc ?t = E_Exit \<longrightarrow> et_ulCaptureState ?t = NETANA_CAPTURE_STATE_OFF"
    using wf i by (auto simp: session_wf_def Let_def)
  have fl: "filelist_wf (li_flst ?q)"
  proof (cases "\<exists>n b. et_pc ?t = E_Write n b")
    case True
    then obtain n b where w: "thread_write h n b ?t (ss_lib S) = Some (t, L)"
      using e_files by auto
    have x: "filelist_wf (fst (lib_files h (ss_lib S)))"
      using wf by (simp add: session_wf_def Let_def lib_files_def)
    show ?thesis
      using w wf write_to_file_wf[OF x, of "of_nat (length b)" b]
      by (auto simp: thread_write_def Let_def session_wf_def split: if_split_asm prod.split_asm)
  next
    case False
    then have "lib_files h L = lib_files h (ss_lib S)"
      using e_files by (auto split: event_pc.split_asm)
    then show ?thesis
      using wf by (simp add: lib_files_def session_wf_def Let_def)
  qed
  have exited: "et_pc u = E_Exit \<longrightarrow> et_ulCaptureState u = NETANA_CAPTURE_STATE_OFF" if u: "u \<in> set (?ts[i := t])" for u
    using set_update_cases[OF i u] wf t_exit by (auto simp: session_wf_def Let_def)
  have alive: "\<exists>u \<in> set (?ts[i := t]). et_pc u \<noteq> E_Exit \<and> et_ulCaptureState u = li_ulCaptureState ?q" if run: "lib_IsCaptureRunning ?q"
  proof (cases "et_ulCaptureState t = et_ulCaptureState ?t \<and> li_ulCaptureState ?q = li_ulCaptureState ?p")
    case True
    then obtain j where j: "j < length ?ts" "et_pc (?ts ! j) \<noteq> E_Exit" "et_ulCaptureState (?ts ! j) = li_ulCaptureState ?p"
      using wf run by (auto simp: session_wf_def Let_def lib_IsCaptureRunning_def in_set_conv_nth)
    show ?thesis
    proof (cases "j = i")
      case False
      then have "?ts[i := t] ! j = ?ts ! j" "j < length (?ts[i := t])"
        using j by simp_all
      then show ?thesis
        using j True by (metis nth_mem)
    next
      case eq: True
      have "et_pc t \<noteq> E_Exit"
        using t_exit run True j(3) unfolding eq by (auto simp: lib_IsCaptureRunning_def)
      then show ?thesis
        using True j(3) set_update_memI[OF i, of t] unfolding eq by auto
    qed
  next
    case False
    then have "li_ulCaptureState ?q = et_ulCaptureState t \<and> et_pc t = E_Signal"
      using e_state by (auto split: if_split_asm)
    then show ?thesis
      using set_update_memI[OF i, of t] by (intro bexI[of _ t]) auto
  qed
  show ?thesis
    using wf fl exited alive e_run e_poll by (auto simp: session_wf_def Let_def)
qed

lemma return_from_sel [simp]:
  "ss_lib (return_from c r S) = ss_lib S" "ss_threads (return_from c r S) = ss_threads S" "ss_main (return_from c r S) = M_Idle"
  "ss_blocks (return_from c r S) = ss_blocks S" "ss_result (return_from c r S) = Some (case c of None \<Rightarrow> r | Some e \<Rightarrow> e)"
  by (simp_all add: return_from_def)

lemma wf_return [simp]: "session_wf h S \<Longrightarrow> session_wf h (return_from c r S)"
  by (simp add: session_wf_def Let_def)

lemma wf_sys [simp]: "session_wf h (S\<lparr>ss_lib := (ss_lib S)\<lparr>lb_sys := k\<rparr>\<rparr>) = session_wf h S"
  by (simp add: session_wf_def Let_def)

lemma wf_main_sys:
  assumes "session_wf h S" "L = (ss_lib S)\<lparr>lb_sys := k\<rparr>" "m \<noteq> M_Idle \<Longrightarrow> ss_threads S \<noteq> []" "\<forall>c. m \<noteq> M_Join c"
  shows "session_wf h (S\<lparr>ss_lib := L, ss_main := m\<rparr>)"
  using assms by (auto simp: session_wf_def Let_def)

lemma main_keeps_wf:
  assumes "main_step io h S = Some S'" "session_wf h S"
  shows "session_wf h S'"
proof (cases "ss_main S")
  case (M_Control r a)
  then obtain x L where w: "write_control io h (control_text a) r (ss_lib S) = Some (x, L)"
      "S' = (case x of Some e \<Rightarrow> return_from None e (S\<lparr>ss_lib := L\<rparr>) | None \<Rightarrow> S\<lparr>ss_lib := L, ss_main := M_Await\<rparr>)"
    using assms(1) by (auto simp: main_step_def Let_def bind_eq_Some_conv)
  obtain k where "L = (ss_lib S)\<lparr>lb_sys := k\<rparr>"
    using write_control_frame[OF w(1)] by blast
  moreover have "ss_threads S \<noteq> []"
    using assms(2) M_Control by (simp add: session_wf_def Let_def)
  ultimately show ?thesis
    using w(2) assms(2) by (auto intro!: wf_main_sys split: option.split)
next
  case (M_Stop c)
  show ?thesis
  proof (cases "CheckDeviceHandle h (ss_lib S) \<noteq> NETANA_NO_ERROR \<or> \<not> lib_IsCaptureRunning (lb_inst (ss_lib S) h)")
    case True
    then show ?thesis
      using assms M_Stop by (auto simp: main_step_def Let_def split: if_split_asm)
  next
    case False
    then obtain x L where w: "write_control io h (sprintf ''%d'' [W 1]) NETANA_INVALID_PARAMETER (ss_lib S) = Some (x, L)"
        "S' = (case x of Some e \<Rightarrow> return_from c e (S\<lparr>ss_lib := L\<rparr>) | None \<Rightarrow> S\<lparr>ss_lib := L, ss_main := M_Files c\<rparr>)"
      using assms(1) M_Stop by (auto simp: main_step_def Let_def bind_eq_Some_conv)
    obtain k where "L = (ss_lib S)\<lparr>lb_sys := k\<rparr>"
      using write_control_frame[OF w(1)] by blast
    moreover have "ss_threads S \<noteq> []"
      using assms(2) False by (auto simp: session_wf_def Let_def)
    ultimately show ?thesis
      using w(2) assms(2) by (auto intro!: wf_main_sys split: option.split)
  qed
next
  case (M_Files c)
  have "filelist_wf (fst (lib_finish_files (lib_files h (ss_lib S))))"
    using assms(2) by (intro finish_files_wf) (simp add: session_wf_def Let_def lib_files_def)
  then show ?thesis
    using assms M_Files by (auto simp: main_step_def Let_def session_wf_def lib_IsCaptureRunning_def)
next
  case (M_Join c)
  then show ?thesis
    using assms by (auto simp: main_step_def Let_def session_wf_def upd_lib_def lib_IsCaptureRunning_def split: if_split_asm)
qed (use assms in \<open>auto simp: main_step_def Let_def session_wf_def lib_IsCaptureRunning_def split: if_split_asm\<close>)

lemma capture_keeps_wf:
  assumes "capture_step io dv sys h S S'" "session_wf h S"
  shows "session_wf h S'"
  using assms(1)
proof cases
  case cs_main
  then show ?thesis
    using main_keeps_wf assms(2) by blast
next
  case cs_stop
  then show ?thesis
    using assms(2) by (simp add: session_wf_def Let_def)
next
  case (cs_thread i t L)
  then show ?thesis
    using thread_keeps_wf[OF assms(2)] event_thread_effect by blast
next
  case (cs_system k)
  then show ?thesis
    using assms(2) by (simp add: upd_lib_def)
qed

text \<open>What is left of the state before a start.\<close>

lemma prepare_keeps:
  assumes "prepare_capture h a i L = (r, L')"
  shows "lb_inst L' h = (lb_inst L h)\<lparr>li_ulMaxFileCount := 1, li_ulDMABufferSize := vi_ulDMABufferSize i,
      li_ulDMABufferCount := vi_ulDMABufferCount i, li_iEventError := 0, li_fRunEventThread := True,
      li_flst := fst (snd (lib_start_files (lg_lTimezoneCorrection (lb_globals L)) a (lib_files h L)))\<rparr>"
    "lib_files h L' = snd (lib_start_files (lg_lTimezoneCorrection (lb_globals L)) a (lib_files h L))"
    "r = fst (lib_start_files (lg_lTimezoneCorrection (lb_globals L)) a (lib_files h L))"
    "lb_sys L' = lb_sys L" "lb_callbacks L' = lb_callbacks L"
  using assms by (auto simp: prepare_capture_def Let_def lib_files_def split: prod.split_asm)

lemma start_cases:
  assumes "start_capture io dv h a S = Some S'"
  obtains (refused) r where "S' = return_from None r S" 
  | (no_driver) r s L where "S' = return_from None r (S\<lparr>ss_lib := L\<rparr>)"
      "L = (upd_inst h (\<lambda>p. p\<lparr>li_pfnStatus := sa_pfnStatus a, li_pfnData := sa_pfnData a\<rparr>) (ss_lib S))\<lparr>lb_sys := s\<rparr>"
  | (asked) i s L r L2 where "\<not> lib_IsCaptureRunning (lb_inst (ss_lib S) h)"
      "0 < ulFileCount (li_flst (lb_inst (ss_lib S) h)) \<or> sa_pfnData a"
      "L = (upd_inst h (\<lambda>p. p\<lparr>li_pfnStatus := sa_pfnStatus a, li_pfnData := sa_pfnData a\<rparr>) (ss_lib S))\<lparr>lb_sys := s\<rparr>"
      "read_driver_information io True (lb_sys (ss_lib S)) = Some (Inr i, s)"
      "prepare_capture h a i L = (r, L2)" "S' = create_thread dv h a r (S\<lparr>ss_lib := L2\<rparr>)"
proof -
  let ?L = "upd_inst h (\<lambda>p. p\<lparr>li_pfnStatus := sa_pfnStatus a, li_pfnData := sa_pfnData a\<rparr>) (ss_lib S)"
  consider (r) r where "S' = return_from None r S"
    | (go) r L1 where "\<not> lib_IsCaptureRunning (lb_inst (ss_lib S) h)" "0 < ulFileCount (li_flst (lb_inst (ss_lib S) h)) \<or> sa_pfnData a"
        "on_sys (read_driver_information io True) ?L = Some (r, L1)"
        "S' = (case r of Inl e \<Rightarrow> return_from None e (S\<lparr>ss_lib := L1\<rparr>)
         | Inr tDrvInfo \<Rightarrow> let (lRet, L2) = prepare_capture h a tDrvInfo L1 in create_thread dv h a lRet (S\<lparr>ss_lib := L2\<rparr>))"
    using assms by (auto simp: start_capture_def Let_def bind_eq_Some_conv word_neq_0_conv split: if_split_asm)
  then show thesis
  proof cases
    case r
    then show ?thesis
      by (rule refused)
  next
    case go
    obtain k where k: "read_driver_information io True (lb_sys ?L) = Some (r, k)" "L1 = ?L\<lparr>lb_sys := k\<rparr>"
      using on_sys_frame[OF go(3)] by blast
    show ?thesis
    proof (cases r)
      case (Inl e)
      then show ?thesis
        using go(4) k(2) by (intro no_driver) simp_all
    next
      case (Inr i)
      obtain e L2 where p: "prepare_capture h a i L1 = (e, L2)"
        by (metis surj_pair)
      show ?thesis
        by (rule asked[OF go(1,2) k(2) _ p]) (use k(1) go(4) Inr p in simp_all)
    qed
  qed
qed

lemma start_keeps_wf:
  assumes "start_capture io dv h a S = Some S'" "session_wf h S"
  shows "session_wf h S'"
  using assms(1)
proof (cases rule: start_cases)
  case (no_driver r s L)
  then show ?thesis
    using assms(2) by (simp add: session_wf_def Let_def lib_IsCaptureRunning_def)
next
  case (asked i s L r L2)
  let ?x = "lib_files h L"
  have x: "filelist_wf (fst ?x)"
    using assms(2) asked(3) by (simp add: session_wf_def Let_def lib_files_def)
  note L2 = prepare_keeps(1)[OF asked(5)]
  have "filelist_wf (li_flst (lb_inst L2 h))"
    using start_files_wf[OF x] by (simp add: L2)
  then show ?thesis
    using assms(2) asked(1,3) L2 unfolding asked(6)
    by (auto simp: create_thread_def session_wf_def Let_def lib_IsCaptureRunning_def new_thread_def)
qed (use assms(2) in simp)

lemma session_keeps_wf:
  assumes "session_step io dv os sys h S S'" "session_wf h S"
  shows "session_wf h S'"
  using assms(1)
proof cases
  case (se_filelist path base n sz r L)
  have "filelist_wf (li_flst (lb_inst (ss_lib S) h))"
    using assms(2) by (simp add: session_wf_def Let_def)
  note L = set_filelist_wf[OF se_filelist(3) this]
  have "li_ulCaptureState (lb_inst L h) = li_ulCaptureState (lb_inst (ss_lib S) h)"
    "li_hPollingThread (lb_inst L h) = li_hPollingThread (lb_inst (ss_lib S) h)"
    using L(2) by auto
  then show ?thesis
    using L(1) assms(2) se_filelist(1,2) by (simp add: session_wf_def Let_def lib_IsCaptureRunning_def)
qed (use assms(2) capture_keeps_wf start_keeps_wf in blast)+

lemma session_run_wf: "(session_step io dv os sys h)\<^sup>*\<^sup>* S S' \<Longrightarrow> session_wf h S \<Longrightarrow> session_wf h S'"
  by (induction rule: rtranclp_induct) (auto intro: session_keeps_wf)

end
