(* ===== verification/Lib_Delivery.thy ===== *)
theory Lib_Delivery
  imports Lib_Run
begin

text \<open>
  What becomes of the blocks an event thread reads: every block is given to the callback of the
  application and stored in the capture files, in the order in which it was read. This holds on any
  device file whose \<open>read\<close> keeps the contract \<open>device_file\<close>.
\<close>

section \<open>The blocks of one capture\<close>

text \<open>Read, but not yet stored; read, but not yet given to the callback.\<close>

fun unwritten :: "event_pc \<Rightarrow> bytes list" where
  "unwritten (E_Write n b) = [b]"
| "unwritten _ = []"

fun undelivered :: "event_pc \<Rightarrow> bytes list" where
  "undelivered (E_Write n b) = [b]"
| "undelivered (E_Data n b) = [b]"
| "undelivered _ = []"

text \<open>The list represents a sink with the blocks \<open>w\<close>, or with a beginning of them once it was full; \<open>n\<close> bytes always fit into an empty file.\<close>

definition filing :: "files \<Rightarrow> bytes list \<Rightarrow> nat \<Rightarrow> bool" where
  "filing x w n \<longleftrightarrow> (\<exists>k m. files_rel x k \<and> 32 + n \<le> sk_cap k \<and> (\<forall>i < sk_count k. handle_of (fst x) i \<noteq> 0) \<and> m \<le> length w \<and>
     (\<not> sk_ring k \<longrightarrow> sink_data k = concat (take m w)) \<and> (sk_active k \<longrightarrow> m = length w))"

text \<open>All files of the list are closed and hold a beginning of the blocks.\<close>

definition filed :: "files \<Rightarrow> bytes list \<Rightarrow> bool" where
  "filed x w \<longleftrightarrow> (\<exists>k m hd. unat (ulCurrentFile (fst x)) < sk_count k \<and> m \<le> length w \<and>
     (\<not> sk_ring k \<longrightarrow> sink_data k = concat (take m w)) \<and>
     (\<forall>i < sk_count k. handle_of (fst x) i = 0 \<and> \<not> fs_open (snd x (hd i)) \<and>
        (i \<in> sk_used k \<longrightarrow> finished_file (sk_payload k i) (snd x (hd i)))))"

lemma filed_more: "filed x w \<Longrightarrow> filed x (w @ v)"
proof -
  assume "filed x w"
  then obtain k m hd where k: "unat (ulCurrentFile (fst x)) < sk_count k" "m \<le> length w" "\<not> sk_ring k \<longrightarrow> sink_data k = concat (take m w)"
      "\<forall>i < sk_count k. handle_of (fst x) i = 0 \<and> \<not> fs_open (snd x (hd i)) \<and>
        (i \<in> sk_used k \<longrightarrow> finished_file (sk_payload k i) (snd x (hd i)))"
    unfolding filed_def by blast
  have "take m (w @ v) = take m w"
    using k(2) by simp
  then show ?thesis
    unfolding filed_def using k by (intro exI[of _ k] exI[of _ m] exI[of _ hd]) auto
qed

lemma write_buffer_handles [simp]: "handle_of (fst (write_buffer ops sz data x)) = handle_of (fst x)"
  by (cases x) (simp add: write_buffer_def handle_of_keep Let_def split: prod.split)

lemma filing_write:
  assumes "filing x w n" "length b \<le> n" "n < 2 ^ 32" "fWriteToFile (fst x)"
  shows "handle_of (fst x) (unat (ulCurrentFile (fst x))) \<noteq> 0"
    "filing (snd (netana_write_to_file (of_nat (length b)) b x)) (w @ [b]) n"
proof -
  obtain k m where k: "files_rel x k" "32 + n \<le> sk_cap k" "\<forall>i < sk_count k. handle_of (fst x) i \<noteq> 0" "m \<le> length w"
      "\<not> sk_ring k \<longrightarrow> sink_data k = concat (take m w)" "sk_active k \<longrightarrow> m = length w"
    using assms(1) unfolding filing_def by blast
  have act: "sk_active k" and cur: "unat (ulCurrentFile (fst x)) < sk_count k"
    using k(1) assms(4) by (auto simp: files_rel_def files_inv_def sink_ok_def)
  then show "handle_of (fst x) (unat (ulCurrentFile (fst x))) \<noteq> 0"
    using k(3) by blast
  have sz: "unat (of_nat (length b) :: u32) = length b"
    using assms(2,3) by (simp add: unat_of_nat)
  have fit: "32 + length b \<le> sk_cap k"
    using assms(2) k(2) by simp
  let ?y = "snd (netana_write_to_file (of_nat (length b)) b x)" and ?k = "sink_put b k"
  have rel: "files_rel ?y ?k"
    by (rule lib_sink.put_rel[OF k(1) act sz fit])
  have hd: "handle_of (fst ?y) = handle_of (fst x)"
    unfolding lib_store_eq store_buffer_def by (auto simp: Let_def case_prod_beta)
  let ?m = "if sk_active ?k then Suc m else m"
  have "\<not> sk_ring ?k \<longrightarrow> sink_data ?k = concat (take ?m (w @ [b]))"
    using sink_put_data[of k b] act k(4-6) by auto
  then show "filing ?y (w @ [b]) n"
    unfolding filing_def using rel k act hd by (intro exI[of _ ?k] exI[of _ ?m]) auto
qed

lemma filing_finish:
  assumes "filing x w n" "0 < ulFileCount (fst x)"
  shows "filed (lib_finish_files x) w" "ulFileCount (fst (lib_finish_files x)) = 0"
proof -
  obtain k m where k: "files_rel x k" "\<forall>i < sk_count k. handle_of (fst x) i \<noteq> 0" "m \<le> length w"
      "\<not> sk_ring k \<longrightarrow> sink_data k = concat (take m w)"
    using assms(1) unfolding filing_def by blast
  note fin = new_dir.finish_files_result[OF k(1) assms(2) k(2), folded lib_finish_eq]
  have "unat (ulCurrentFile (fst x)) < sk_count k"
    using k(1) by (auto simp: files_rel_def files_inv_def sink_ok_def)
  moreover have "ulCurrentFile (fst (lib_finish_files x)) = ulCurrentFile (fst x)"
    by (simp add: lib_finish_files_def Let_def lib_writefileheader_eq lib_Close_eq[of undefined] case_prod_beta)
  ultimately show "filed (lib_finish_files x) w"
    unfolding filed_def using k(3,4) fin(2) by (intro exI[of _ k] exI[of _ m] exI[of _ "handle_of (fst x)"]) simp
  show "ulFileCount (fst (lib_finish_files x)) = 0"
    by (rule fin(1))
qed

lemma finish_no_files: "ulFileCount (fst x) = 0 \<Longrightarrow> lib_finish_files x = x"
  by (simp add: lib_finish_files_def)

lemma write_count: "ulFileCount (fst (snd (netana_write_to_file sz b x))) = ulFileCount (fst x)"
  unfolding lib_store_eq store_buffer_def by (auto simp: Let_def case_prod_beta)

section \<open>The invariant of a capture\<close>

text \<open>The thread of the capture; the others have ended.\<close>

definition poller :: "nat \<Rightarrow> 'k session \<Rightarrow> event_thread" where
  "poller h S = ss_threads S ! li_hPollingThread (lb_inst (ss_lib S) h)"

definition one_thread :: "nat \<Rightarrow> 'k session \<Rightarrow> bool" where
  "one_thread h S \<longleftrightarrow> (let n = li_hPollingThread (lb_inst (ss_lib S) h) in
     n < length (ss_threads S) \<and> (\<forall>j < length (ss_threads S). j \<noteq> n \<longrightarrow> et_pc (ss_threads S ! j) = E_Exit))"

text \<open>\<open>df\<close> is whether the application has given a callback for data, \<open>ff\<close> whether there is a file list.\<close>

definition files_kept :: "bool \<Rightarrow> files \<Rightarrow> bytes list \<Rightarrow> nat \<Rightarrow> bool" where
  "files_kept ff x w n \<longleftrightarrow>
     (if \<not> ff then \<not> fWriteToFile (fst x) \<and> ulFileCount (fst x) = 0
      else if ulFileCount (fst x) = 0 then filed x w else filing x w n)"

definition capture_inv :: "nat \<Rightarrow> bool \<Rightarrow> bool \<Rightarrow> 'k session \<Rightarrow> bool" where
  "capture_inv h df ff S \<longleftrightarrow> (let L = ss_lib S; p = lb_inst L h; pc = et_pc (poller h S) in
     one_thread h S \<and>
     (\<forall>n b. pc = E_Write n b \<longrightarrow> length b \<le> unat (li_ulDMABufferSize p)) \<and>
     (\<exists>w. ss_blocks S = w @ unwritten pc \<and> files_kept ff (lib_files h L) w (unat (li_ulDMABufferSize p))) \<and>
     (if df then data_callbacks (lb_callbacks L) @ undelivered pc = ss_blocks S else data_callbacks (lb_callbacks L) = []) \<and>
     (li_pfnData p = df \<or> \<not> li_pfnData p \<and> pc = E_Exit) \<and>
     (pc = E_Exit \<longrightarrow> et_ulCaptureState (poller h S) = NETANA_CAPTURE_STATE_OFF))"

text \<open>\<open>read\<close> returns the number of bytes it has written to the buffer.\<close>

locale device_file =
  fixes dv :: "'k dev_io"
  assumes read_length: "dv_read dv fd n s = Some ((r, b), s') \<Longrightarrow> 0 < r \<Longrightarrow> int (length b) = r \<and> length b \<le> n"

lemma files_kept_write:
  assumes "files_kept ff x w n" "thread_write h norm b t L = Some (t', L')" "x = lib_files h L" "length b \<le> n" "n < 2 ^ 32"
  shows "files_kept ff (lib_files h L') (w @ [b]) n" "lb_inst L' h = (lb_inst L h)\<lparr>li_flst := fst (lib_files h L')\<rparr>"
proof -
  consider (off) "\<not> fWriteToFile (fst x)" "L' = L"
    | (on) "fWriteToFile (fst x)" "handle_of (fst x) (unat (ulCurrentFile (fst x))) \<noteq> 0"
        "L' = set_lib_files h (snd (netana_write_to_file (of_nat (length b)) b x)) L"
    using assms(2,3) by (auto simp: thread_write_def Let_def case_prod_beta split: if_split_asm)
  then have "files_kept ff (lib_files h L') (w @ [b]) n \<and> lb_inst L' h = (lb_inst L h)\<lparr>li_flst := fst (lib_files h L')\<rparr>"
  proof cases
    case off
    have "filing x (w @ [b]) n" if f: "filing x w n"
    proof -
      obtain k m where k: "files_rel x k" "32 + n \<le> sk_cap k" "\<forall>i < sk_count k. handle_of (fst x) i \<noteq> 0" "m \<le> length w"
          "\<not> sk_ring k \<longrightarrow> sink_data k = concat (take m w)"
        using f unfolding filing_def by blast
      moreover have "\<not> sk_active k" "take m (w @ [b]) = take m w"
        using k(1,4) off(1) by (simp_all add: files_rel_def)
      ultimately show ?thesis
        unfolding filing_def by (intro exI[of _ k] exI[of _ m]) simp
    qed
    then show ?thesis
      using assms(1,3) off(2) filed_more[of x w "[b]"] by (auto simp: files_kept_def lib_files_def split: if_split_asm)
  next
    case on
    have "\<not> filed x w"
      using on(2) by (auto simp: filed_def)
    then have k: "ff" "ulFileCount (fst x) \<noteq> 0" "filing x w n"
      using assms(1) on(1) by (auto simp: files_kept_def split: if_split_asm)
    show ?thesis
      using filing_write(2)[OF k(3) assms(4,5) on(1)] k(1,2) on(3) by (simp add: files_kept_def write_count)
  qed
  then show "files_kept ff (lib_files h L') (w @ [b]) n" "lb_inst L' h = (lb_inst L h)\<lparr>li_flst := fst (lib_files h L')\<rparr>"
    by simp_all
qed

lemma thread_read_cases:
  assumes "netana_event_thread io dv h t L = Some (t', L')" "et_pc t = E_Read n"
  obtains r b k where "dv_read dv (li_fd_Device (lb_inst L h)) (unat (li_ulDMABufferSize (lb_inst L h))) (lb_sys L) = Some ((r, b), k)"
    "t' = t\<lparr>et_pc := (if 0 < r then E_Write n b else if r = 0 \<or> r = - errno_EAGAIN then E_Read n else E_State n)\<rparr>"
    "L' = L\<lparr>lb_sys := k\<rparr>"
  using assms by (auto simp: netana_event_thread_def thread_read_def bind_eq_Some_conv)

lemma thread_keeps_capture:
  assumes dv: "device_file dv" and inv: "capture_inv h df ff S" and i: "i < length (ss_threads S)"
    and st: "netana_event_thread io dv h (ss_threads S ! i) (ss_lib S) = Some (t, L)"
  shows "capture_inv h df ff (S\<lparr>ss_lib := L, ss_threads := (ss_threads S)[i := t],
      ss_blocks := ss_blocks S @ new_block (et_pc (ss_threads S ! i)) (et_pc t)\<rparr>)" (is "capture_inv h df ff ?S'")
proof (cases "i = li_hPollingThread (lb_inst (ss_lib S) h)")
  case False
  then have x: "et_pc (ss_threads S ! i) = E_Exit"
    using inv i by (simp add: capture_inv_def one_thread_def Let_def)
  then have "t = ss_threads S ! i" "L = ss_lib S"
    using event_thread_effect[OF st] by (simp_all add: thread_effect_def Let_def)
  then have "?S' = S"
    using x by simp
  then show ?thesis
    using inv by simp
next
  case True
  let ?t = "ss_threads S ! i" and ?p = "lb_inst (ss_lib S) h" and ?q = "lb_inst L h"
  note eff = event_thread_effect[OF st, unfolded thread_effect_def Let_def]
  have e_poll: "li_hPollingThread ?q = li_hPollingThread ?p" and e_size: "li_ulDMABufferSize ?q = li_ulDMABufferSize ?p"
    and e_data: "li_pfnData ?q = li_pfnData ?p"
    and e_exit: "et_pc t = E_Exit \<longrightarrow> et_pc ?t = E_Exit \<or> et_pc ?t = E_Loop \<and> et_ulCaptureState t = NETANA_CAPTURE_STATE_OFF \<and> \<not> li_fRunEventThread ?p"
    and e_stay: "et_pc ?t = E_Exit \<longrightarrow> t = ?t \<and> L = ss_lib S"
    and e_files: "case et_pc ?t of E_Write n b \<Rightarrow> thread_write h n b ?t (ss_lib S) = Some (t, L) | _ \<Rightarrow> lib_files h L = lib_files h (ss_lib S)"
    and e_cb: "data_callbacks (lb_callbacks L) = data_callbacks (lb_callbacks (ss_lib S)) @
       (case et_pc ?t of E_Data n b \<Rightarrow> if li_pfnData ?p then [b] else [] | _ \<Rightarrow> [])"
    and e_next: "case et_pc ?t of E_Read n \<Rightarrow> True | E_Write n b \<Rightarrow> et_pc t = E_Data n b
       | _ \<Rightarrow> (\<forall>n b. et_pc t \<noteq> E_Write n b \<and> et_pc t \<noteq> E_Data n b)"
    and e_read: "case et_pc ?t of E_Read n \<Rightarrow> (\<forall>n b. et_pc t \<noteq> E_Data n b) | _ \<Rightarrow> True"
    by (insert eff, elim conjE, assumption)+
  have pol: "poller h S = ?t" "poller h ?S' = t"
    using True i by (simp_all add: poller_def e_poll)
  have one: "one_thread h ?S'"
    using inv True i by (auto simp: capture_inv_def one_thread_def Let_def e_poll)
  obtain w where w: "ss_blocks S = w @ unwritten (et_pc ?t)" "files_kept ff (lib_files h (ss_lib S)) w (unat (li_ulDMABufferSize ?p))"
      "if df then data_callbacks (lb_callbacks (ss_lib S)) @ undelivered (et_pc ?t) = ss_blocks S else data_callbacks (lb_callbacks (ss_lib S)) = []"
      "li_pfnData ?p = df \<or> \<not> li_pfnData ?p \<and> et_pc ?t = E_Exit"
      "et_pc ?t = E_Exit \<longrightarrow> et_ulCaptureState ?t = NETANA_CAPTURE_STATE_OFF"
      "\<forall>n b. et_pc ?t = E_Write n b \<longrightarrow> length b \<le> unat (li_ulDMABufferSize ?p)"
    using inv by (auto simp: capture_inv_def Let_def pol)
  have ex: "et_pc t = E_Exit \<longrightarrow> et_ulCaptureState t = NETANA_CAPTURE_STATE_OFF"
    using e_exit e_stay w(5) by auto
  have data: "li_pfnData ?q = df \<or> \<not> li_pfnData ?q \<and> et_pc t = E_Exit"
    using w(4) e_stay e_data by auto
  have n32: "unat (li_ulDMABufferSize ?p) < 2 ^ 32"
    using unsigned_less[of "li_ulDMABufferSize ?p"] by simp
  let ?nb = "new_block (et_pc ?t) (et_pc t)"
  have inv': "capture_inv h df ff ?S'"
    if "ss_blocks S @ ?nb = v @ unwritten (et_pc t)" "files_kept ff (lib_files h L) v (unat (li_ulDMABufferSize ?p))"
      "if df then data_callbacks (lb_callbacks L) @ undelivered (et_pc t) = ss_blocks S @ ?nb else data_callbacks (lb_callbacks L) = []"
      "\<forall>n b. et_pc t = E_Write n b \<longrightarrow> length b \<le> unat (li_ulDMABufferSize ?p)" for v
  proof -
    define T where "T = ?S'"
    have T: "ss_lib T = L" "ss_blocks T = ss_blocks S @ ?nb" "poller h T = t" "one_thread h T"
      using pol(2) one by (simp_all add: T_def)
    show ?thesis
      unfolding T_def[symmetric] capture_inv_def Let_def T e_size using that ex data T(4) by blast
  qed
  have idle: "capture_inv h df ff ?S'"
    if "unwritten (et_pc ?t) = []" "undelivered (et_pc ?t) = []" "\<forall>n b. et_pc t \<noteq> E_Write n b \<and> et_pc t \<noteq> E_Data n b"
      "lib_files h L = lib_files h (ss_lib S)" "data_callbacks (lb_callbacks L) = data_callbacks (lb_callbacks (ss_lib S))"
  proof (rule inv')
    have "unwritten (et_pc t) = []" "undelivered (et_pc t) = []" "?nb = []"
      using that(3) by (cases "et_pc t"; cases "et_pc ?t"; simp)+
    then show "ss_blocks S @ ?nb = w @ unwritten (et_pc t)"
      "if df then data_callbacks (lb_callbacks L) @ undelivered (et_pc t) = ss_blocks S @ ?nb else data_callbacks (lb_callbacks L) = []"
      using w(1,3) that(1,2,5) by (simp_all split: if_split_asm)
    show "files_kept ff (lib_files h L) w (unat (li_ulDMABufferSize ?p))"
      "\<forall>n b. et_pc t = E_Write n b \<longrightarrow> length b \<le> unat (li_ulDMABufferSize ?p)"
      using w(2) that(3,4) by simp_all
  qed
  show ?thesis
  proof (cases "et_pc ?t")
    case (E_Read n)
    obtain r b k where r: "dv_read dv (li_fd_Device ?p) (unat (li_ulDMABufferSize ?p)) (lb_sys (ss_lib S)) = Some ((r, b), k)"
        "t = ?t\<lparr>et_pc := (if 0 < r then E_Write n b else if r = 0 \<or> r = - errno_EAGAIN then E_Read n else E_State n)\<rparr>"
        "L = (ss_lib S)\<lparr>lb_sys := k\<rparr>"
      using thread_read_cases[OF st E_Read] by blast
    have same: "lib_files h L = lib_files h (ss_lib S)" "lb_callbacks L = lb_callbacks (ss_lib S)"
      by (simp_all add: r(3) lib_files_def)
    show ?thesis
    proof (cases "0 < r")
      case True
      have b: "length b \<le> unat (li_ulDMABufferSize ?p)"
        using device_file.read_length[OF dv r(1) True] by simp
      have pc: "et_pc t = E_Write n b"
        using True by (subst r(2)) simp
      show ?thesis
        by (rule inv'[of w]) (use w b E_Read in \<open>simp_all add: pc same split: if_split_asm\<close>)
    next
      case False
      then have pc: "et_pc t = (if r = 0 \<or> r = - errno_EAGAIN then E_Read n else E_State n)"
        by (subst r(2)) simp
      show ?thesis
        by (rule idle) (use E_Read in \<open>simp_all add: pc same\<close>)
    qed
  next
    case (E_Write n b)
    have b: "length b \<le> unat (li_ulDMABufferSize ?p)"
      using w(6) E_Write by simp
    have st': "thread_write h n b ?t (ss_lib S) = Some (t, L)"
      using e_files E_Write by simp
    have pc: "et_pc t = E_Data n b"
      using e_next E_Write by simp
    show ?thesis
      by (rule inv'[of "w @ [b]"]) (use w E_Write e_cb files_kept_write(1)[OF w(2) st' refl b n32] in \<open>simp_all add: pc split: if_split_asm\<close>)
  next
    case (E_Data n b)
    have np: "\<forall>n b. et_pc t \<noteq> E_Write n b \<and> et_pc t \<noteq> E_Data n b"
      using e_next unfolding E_Data by simp
    have pc: "unwritten (et_pc t) = []" "undelivered (et_pc t) = []" "new_block (et_pc ?t) (et_pc t) = []"
      using np by (cases "et_pc t"; cases "et_pc ?t"; simp)+
    have same: "lib_files h L = lib_files h (ss_lib S)" "li_pfnData ?p = df"
      using e_files w(4) E_Data by simp_all
    have blocks: "ss_blocks S = w"
      using w(1) E_Data by simp
    have cb: "if df then data_callbacks (lb_callbacks L) = w else data_callbacks (lb_callbacks L) = []"
      using w(3) e_cb E_Data same(2) blocks by (simp split: if_split_asm)
    show ?thesis
      by (rule inv'[of w]) (use w(2) cb np in \<open>simp_all add: pc same blocks\<close>)
  qed (rule idle; use e_next e_files e_cb in simp)+
qed

text \<open>Everything else a capture consists of.\<close>

lemma capture_inv_same:
  assumes "capture_inv h df ff S" "ss_threads S' = ss_threads S" "ss_blocks S' = ss_blocks S"
    and "lb_callbacks (ss_lib S') = lb_callbacks (ss_lib S)" "lib_files h (ss_lib S') = lib_files h (ss_lib S)"
    and "li_hPollingThread (lb_inst (ss_lib S') h) = li_hPollingThread (lb_inst (ss_lib S) h)"
      "li_ulDMABufferSize (lb_inst (ss_lib S') h) = li_ulDMABufferSize (lb_inst (ss_lib S) h)"
      "li_pfnData (lb_inst (ss_lib S') h) = li_pfnData (lb_inst (ss_lib S) h) \<or>
       \<not> li_pfnData (lb_inst (ss_lib S') h) \<and> et_pc (poller h S) = E_Exit"
  shows "capture_inv h df ff S'"
proof -
  have "poller h S' = poller h S" "one_thread h S' = one_thread h S"
    using assms(2,6) by (simp_all add: poller_def one_thread_def)
  then show ?thesis
    using assms by (auto simp: capture_inv_def Let_def)
qed

lemma main_keeps_capture:
  assumes "main_step io h S = Some S'" "capture_inv h df ff S"
  shows "capture_inv h df ff S'"
proof -
  have io: "capture_inv h df ff (S\<lparr>ss_lib := L, ss_main := m\<rparr>)" "capture_inv h df ff (return_from c e (S\<lparr>ss_lib := L\<rparr>))"
    if "L = (ss_lib S)\<lparr>lb_sys := k\<rparr>" for L k m c e
    by (rule capture_inv_same[OF assms(2)]; use that in \<open>simp add: lib_files_def\<close>)+
  show ?thesis
  proof (cases "ss_main S")
    case (M_Control r a)
    then obtain x L where w: "write_control io h (control_text a) r (ss_lib S) = Some (x, L)"
        "S' = (case x of Some e \<Rightarrow> return_from None e (S\<lparr>ss_lib := L\<rparr>) | None \<Rightarrow> S\<lparr>ss_lib := L, ss_main := M_Await\<rparr>)"
      using assms(1) by (auto simp: main_step_def Let_def bind_eq_Some_conv)
    then show ?thesis
      using write_control_frame[OF w(1)] io by (auto split: option.split)
  next
    case (M_Stop c)
    show ?thesis
    proof (cases "CheckDeviceHandle h (ss_lib S) \<noteq> NETANA_NO_ERROR \<or> \<not> lib_IsCaptureRunning (lb_inst (ss_lib S) h)")
      case True
      then obtain e where "S' = return_from c e S"
        using assms(1) M_Stop by (auto simp: main_step_def Let_def split: if_split_asm)
      then show ?thesis
        using capture_inv_same[OF assms(2), of S'] by simp
    next
      case False
      then obtain x L where w: "write_control io h (sprintf ''%d'' [W 1]) NETANA_INVALID_PARAMETER (ss_lib S) = Some (x, L)"
          "S' = (case x of Some e \<Rightarrow> return_from c e (S\<lparr>ss_lib := L\<rparr>) | None \<Rightarrow> S\<lparr>ss_lib := L, ss_main := M_Files c\<rparr>)"
        using assms(1) M_Stop by (auto simp: main_step_def Let_def bind_eq_Some_conv)
      then show ?thesis
        using write_control_frame[OF w(1)] io by (auto split: option.split)
    qed
  next
    case (M_Files c)
    let ?x = "lib_files h (ss_lib S)"
    have S': "S' = S\<lparr>ss_lib := set_lib_files h (lib_finish_files ?x) (ss_lib S), ss_main := M_Off c\<rparr>"
      using assms(1) M_Files by (simp add: main_step_def Let_def)
    have "files_kept ff (lib_finish_files ?x) w n" if "files_kept ff ?x w n" for w n
      using that filing_finish[of ?x w n] finish_no_files[of ?x]
      by (cases "ulFileCount (fst ?x) = 0") (auto simp: files_kept_def word_neq_0_conv split: if_split_asm)
    moreover have "poller h S' = poller h S" "one_thread h S' = one_thread h S"
      by (simp_all add: S' poller_def one_thread_def)
    ultimately show ?thesis
      using assms(2) by (auto simp: capture_inv_def Let_def S')
  next
    case (M_Join c)
    then show ?thesis
      using assms(1) by (intro capture_inv_same[OF assms(2)])
        (auto simp: main_step_def Let_def upd_lib_def lib_files_def poller_def split: if_split_asm)
  qed (rule capture_inv_same[OF assms(2)]; use assms(1) in \<open>auto simp: main_step_def Let_def lib_files_def split: if_split_asm\<close>)+
qed

lemma capture_keeps:
  assumes "capture_step io dv sys h S S'" "device_file dv" "capture_inv h df ff S"
  shows "capture_inv h df ff S'"
  using assms(1)
proof cases
  case cs_main
  then show ?thesis
    using main_keeps_capture assms(3) by blast
next
  case cs_stop
  then show ?thesis
    by (intro capture_inv_same[OF assms(3)]) simp_all
next
  case (cs_thread i t L)
  then show ?thesis
    using thread_keeps_capture[OF assms(2,3)] by blast
next
  case (cs_system k)
  then show ?thesis
    by (intro capture_inv_same[OF assms(3)]) (simp_all add: upd_lib_def lib_files_def)
qed

lemma capture_run_keeps: "(capture_step io dv sys h)\<^sup>*\<^sup>* S S' \<Longrightarrow> device_file dv \<Longrightarrow> capture_inv h df ff S \<Longrightarrow> capture_inv h df ff S'"
  by (induction rule: rtranclp_induct) (auto intro: capture_keeps)

context device_file
begin

lemma run_keeps: "(capture_step io dv sys h)\<^sup>*\<^sup>* S S' \<Longrightarrow> capture_inv h df ff S \<Longrightarrow> capture_inv h df ff S'"
  by (rule capture_run_keeps[OF _ device_file_axioms])

end

section \<open>The beginning of a capture\<close>

text \<open>If \<open>netana_start_capture\<close> has got as far as creating the thread, it has reset files and instance.\<close>

lemma start_thread:
  assumes "start_capture io dv h a S = Some S0" "ss_main S0 \<noteq> M_Idle"
  obtains i s L r L2 where
    "L = (upd_inst h (\<lambda>p. p\<lparr>li_pfnStatus := sa_pfnStatus a, li_pfnData := sa_pfnData a\<rparr>) (ss_lib S))\<lparr>lb_sys := s\<rparr>"
    "read_driver_information io True (lb_sys (ss_lib S)) = Some (Inr i, s)" "prepare_capture h a i L = (r, L2)"
    "S0 = S\<lparr>ss_lib := upd_inst h (\<lambda>p. p\<lparr>li_hPollingThread := length (ss_threads S)\<rparr>) L2,
      ss_threads := ss_threads S @ [new_thread], ss_main := M_Control r a\<rparr>"
  using assms(1)
proof (cases rule: start_cases)
  case (asked i s L r L2)
  then show ?thesis
    using assms(2) that by (simp add: create_thread_def split: if_split_asm)
qed (use assms(2) in simp_all)

definition fresh_session :: "nat \<Rightarrow> nat \<Rightarrow> 'k session \<Rightarrow> bool" where
  "fresh_session h n S \<longleftrightarrow> list_all (\<lambda>t. et_pc t = E_Exit) (ss_threads S) \<and> ss_blocks S = [] \<and> lb_callbacks (ss_lib S) = [] \<and>
     (let x = lib_files h (ss_lib S) in 0 < ulFileCount (fst x) \<longrightarrow> lib_filelist_ready x \<and> 32 + n \<le> unat (ullFileSize (fst x)))"

lemma start_capture_inv:
  assumes "start_capture io dv h a S = Some S0" "ss_main S0 \<noteq> M_Idle" "fresh_session h (unat (li_ulDMABufferSize (lb_inst (ss_lib S0) h))) S"
  shows "capture_inv h (sa_pfnData a) (0 < ulFileCount (fst (lib_files h (ss_lib S)))) S0"
proof -
  obtain i s L r L2 where st:
    "L = (upd_inst h (\<lambda>p. p\<lparr>li_pfnStatus := sa_pfnStatus a, li_pfnData := sa_pfnData a\<rparr>) (ss_lib S))\<lparr>lb_sys := s\<rparr>"
    "prepare_capture h a i L = (r, L2)"
    "S0 = S\<lparr>ss_lib := upd_inst h (\<lambda>p. p\<lparr>li_hPollingThread := length (ss_threads S)\<rparr>) L2,
      ss_threads := ss_threads S @ [new_thread], ss_main := M_Control r a\<rparr>"
    by (rule start_thread[OF assms(1,2)])
  have L: "lib_files h L = lib_files h (ss_lib S)" "li_pfnData (lb_inst L h) = sa_pfnData a" "lb_callbacks L = lb_callbacks (ss_lib S)"
    by (simp_all add: st(1) lib_files_def)
  note L2 = prepare_keeps[OF st(2)]
  let ?x = "lib_files h (ss_lib S)" and ?n = "unat (li_ulDMABufferSize (lb_inst (ss_lib S0) h))"
  let ?y = "snd (lib_start_files (lg_lTimezoneCorrection (lb_globals L)) a ?x)"
  have files: "lib_files h (ss_lib S0) = ?y"
    using L2(2) by (simp add: st(3) lib_files_def L(1)[unfolded lib_files_def])
  have "files_kept (0 < ulFileCount (fst ?x)) ?y [] ?n"
  proof (cases "0 < ulFileCount (fst ?x)")
    case True
    then have "lib_filelist_ready ?x" "32 + ?n \<le> unat (ullFileSize (fst ?x))"
      using assms(3) by (simp_all add: fresh_session_def Let_def)
    then show ?thesis
      using start_files_filing[of ?x "lg_lTimezoneCorrection (lb_globals L)" a] True
      by (auto simp: files_kept_def filing_def)
  next
    case False
    then show ?thesis
      using start_no_files[of ?x] by (simp add: files_kept_def word_gt_0)
  qed
  moreover have "poller h S0 = new_thread" "one_thread h S0"
    using assms(3) by (auto simp: poller_def one_thread_def st(3) fresh_session_def list_all_length nth_append)
  moreover have "ss_blocks S0 = []" "lb_callbacks (ss_lib S0) = []" "li_pfnData (lb_inst (ss_lib S0) h) = sa_pfnData a"
    using assms(3) L2 L by (simp_all add: st(3) fresh_session_def)
  ultimately show ?thesis
    by (simp add: capture_inv_def Let_def files new_thread_def)
qed

end
