(* ===== verification/Lib_Device_File.thy ===== *)
theory Lib_Device_File
  imports Lib_Delivery Kernel_Notify
begin

text \<open>
  The library on top of the kernel module: \<open>poll\<close> and \<open>read\<close> on the device file are \<open>netana_poll\<close> and
  \<open>netana_read\<close>, which other threads, the netX and the DSR interleave with. So every DMA buffer is
  followed from the DSR to the callback of the application and its capture files.
\<close>

section \<open>The device file\<close>

text \<open>A step of the hand-off without the application: what \<open>ho_step\<close> allows, other than reading, opening and closing, and
  notifications of the status.\<close>

definition other_step :: "handoff \<Rightarrow> handoff \<Rightarrow> bool" where
  "other_step s s' \<longleftrightarrow> ho_step s s' \<and> hf_reader s' = hf_reader s \<and> hf_open s' = hf_open s \<and>
       hf_delivered s' = hf_delivered s \<and> hf_results s' = hf_results s \<or>
     (\<exists>e r g. s' = upd_info (\<lambda>i. i\<lparr>ki_status_event_counter := e, ki_status_read_counter := r, ki_status_read_sig := g\<rparr>) s)"

text \<open>The kernel consists of the hand-off and of whatever else there is.\<close>

definition kernel_moves :: "handoff \<times> 'd \<Rightarrow> handoff \<times> 'd \<Rightarrow> bool" where
  "kernel_moves x y \<longleftrightarrow> other_step\<^sup>*\<^sup>* (fst x) (fst y)"

text \<open>\<open>netana_read\<close>, with \<open>sched k\<close> taking place after its step \<open>7 - k\<close>; it has at most seven.\<close>

fun read_loop :: "(nat \<Rightarrow> handoff \<times> 'd \<Rightarrow> handoff \<times> 'd) \<Rightarrow> nat \<Rightarrow> handoff \<times> 'd \<Rightarrow> handoff \<times> 'd" where
  "read_loop sched 0 x = x"
| "read_loop sched (Suc k) x = read_loop sched k (sched k (read_step (fst x), snd x))"

definition kernel_read_file :: "(nat \<Rightarrow> handoff \<times> 'd \<Rightarrow> handoff \<times> 'd) \<Rightarrow> nat \<Rightarrow> (handoff \<times> 'd, int \<times> bytes) proc" where
  "kernel_read_file sched n x =
     (let y = read_loop sched 7 ((fst x)\<lparr>hf_reader := R_Start n 0\<rparr>, snd x)
      in Some (case last (hf_results (fst y)) of Bytes b \<Rightarrow> (int (length b), b) | _ \<Rightarrow> (-1, []), y))"

definition kernel_poll :: "(handoff \<times> 'd, int \<times> bool \<times> bool) proc" where
  "kernel_poll x = (let ev = netana_poll (hf_info (fst x))
     in Some ((if ev = {} then 0 else 1, POLLPRI \<in> ev, POLLRDNORM \<in> ev), x))"

definition kernel_file :: "(handoff \<times> 'd) dev_io \<Rightarrow> (nat \<Rightarrow> handoff \<times> 'd \<Rightarrow> handoff \<times> 'd) \<Rightarrow> (handoff \<times> 'd) dev_io" where
  "kernel_file dv sched = dv\<lparr>dv_poll := (\<lambda>fd. kernel_poll), dv_read := (\<lambda>fd. kernel_read_file sched)\<rparr>"

lemma kernel_file_sel [simp]: "dv_poll (kernel_file dv sched) fd = kernel_poll" "dv_read (kernel_file dv sched) fd = kernel_read_file sched"
  by (simp_all add: kernel_file_def)

section \<open>One read\<close>

lemma other_step_keeps:
  assumes "other_step s s'"
  shows "hf_reader s' = hf_reader s" "hf_open s' = hf_open s" "hf_delivered s' = hf_delivered s" "hf_results s' = hf_results s"
    "ho_inv s \<Longrightarrow> ho_inv s'"
proof -
  show "hf_reader s' = hf_reader s" "hf_open s' = hf_open s" "hf_delivered s' = hf_delivered s" "hf_results s' = hf_results s"
    using assms by (auto simp: other_step_def upd_info_def)
  assume inv: "ho_inv s"
  consider "ho_step s s'" | e r g where "s' = upd_info (\<lambda>i. i\<lparr>ki_status_event_counter := e, ki_status_read_counter := r, ki_status_read_sig := g\<rparr>) s"
    using assms by (auto simp: other_step_def)
  then show "ho_inv s'"
  proof cases
    case 2
    then show ?thesis
      using inv by (cases "hf_dsr s"; cases "hf_reader s") (auto simp: ho_defs split: if_splits)
  qed (use ho_step_inv inv in blast)
qed

lemma other_run_keeps:
  "other_step\<^sup>*\<^sup>* s s' \<Longrightarrow> hf_reader s' = hf_reader s \<and> hf_open s' = hf_open s \<and> hf_delivered s' = hf_delivered s \<and> hf_results s' = hf_results s \<and>
    (ho_inv s \<longrightarrow> ho_inv s')"
  by (induction rule: rtranclp_induct) (use other_step_keeps in \<open>metis\<close>)+

text \<open>Where a read stands, which began when \<open>d\<close> had been delivered and \<open>rs\<close> returned; \<open>k\<close> bounds the steps it still has.\<close>

fun reading :: "nat \<Rightarrow> (bytes \<times> nat \<times> nat \<times> bytes) list \<Rightarrow> read_result list \<Rightarrow> read_pc \<Rightarrow> handoff \<Rightarrow> nat \<Rightarrow> bool" where
  "reading n d rs (R_Start t u) s k \<longleftrightarrow> 7 \<le> k \<and> t = n \<and> u = 0 \<and> hf_delivered s = d \<and> hf_results s = rs"
| "reading n d rs (R_Compare t u e) s k \<longleftrightarrow> 6 \<le> k \<and> t = n \<and> u = 0 \<and> hf_delivered s = d \<and> hf_results s = rs"
| "reading n d rs (R_Take t u e) s k \<longleftrightarrow> 5 \<le> k \<and> t = n \<and> u = 0 \<and> hf_delivered s = d \<and> hf_results s = rs"
| "reading n d rs (R_Check t u) s k \<longleftrightarrow> 4 \<le> k \<and> t = n \<and> u = 0 \<and> hf_delivered s = d \<and> hf_results s = rs"
| "reading n d rs (R_Copy t u) s k \<longleftrightarrow> 3 \<le> k \<and> t = n \<and> u = 0 \<and> hf_delivered s = d \<and> hf_results s = rs"
| "reading n d rs (R_Null t u r) s k \<longleftrightarrow> 2 \<le> k \<and> length r \<le> n \<and> (\<exists>c. hf_delivered s = d @ [(c, n, 0, r)]) \<and> hf_results s = rs"
| "reading n d rs (R_Sig t u r) s k \<longleftrightarrow> 1 \<le> k \<and> length r \<le> n \<and> (\<exists>c. hf_delivered s = d @ [(c, n, 0, r)]) \<and> hf_results s = rs"
| "reading n d rs R_Idle s k \<longleftrightarrow> hf_delivered s = d \<and> hf_results s \<in> {rs @ [ENODATA], rs @ [EAGAIN]} \<or>
     (\<exists>c r. length r \<le> n \<and> hf_delivered s = d @ [(c, n, 0, r)] \<and> hf_results s = rs @ [Bytes r])"

lemma reading_step: "reading n d rs (hf_reader s) s (Suc k) \<Longrightarrow> reading n d rs (hf_reader (read_step s)) (read_step s) k"
  by (cases "hf_reader s") (auto simp: read_step_def read_return_def upd_info_def Let_def)

lemma reading_other: "other_step\<^sup>*\<^sup>* s s' \<Longrightarrow> reading n d rs (hf_reader s) s k \<Longrightarrow> reading n d rs (hf_reader s') s' k"
  using other_run_keeps[of s s'] by (cases "hf_reader s") auto

lemma reading_end: "reading n d rs pc s 0 \<Longrightarrow> pc = R_Idle"
  by (cases pc) auto

locale kernel_scheduler =
  fixes sched :: "nat \<Rightarrow> handoff \<times> 'd \<Rightarrow> handoff \<times> 'd"
  assumes sched_moves: "kernel_moves x (sched k x)"
begin

lemma read_loop_reads:
  "reading n d rs (hf_reader (fst x)) (fst x) k \<Longrightarrow>
   reading n d rs R_Idle (fst (read_loop sched k x)) 0 \<and> hf_reader (fst (read_loop sched k x)) = R_Idle \<and>
   hf_open (fst (read_loop sched k x)) = hf_open (fst x) \<and> (ho_inv (fst x) \<longrightarrow> ho_inv (fst (read_loop sched k x)))"
proof (induction k arbitrary: x)
  case 0
  then show ?case
    using reading_end[OF 0] by auto
next
  case (Suc k)
  let ?y = "sched k (read_step (fst x), snd x)"
  have m: "other_step\<^sup>*\<^sup>* (read_step (fst x)) (fst ?y)"
    using sched_moves[of "(read_step (fst x), snd x)" k] by (simp add: kernel_moves_def)
  have o: "hf_open (read_step s) = hf_open s" for s
    by (cases "hf_reader s") (simp_all add: read_step_def read_return_def upd_info_def Let_def)
  show ?case
    using Suc.IH[OF reading_other[OF m reading_step[OF Suc.prems]]] other_run_keeps[OF m] o read_step_inv[of "fst x"] by simp
qed

lemma read_result:
  assumes "kernel_read_file sched n x = Some ((r, b), y)"
  obtains (nothing) "r = -1" "hf_delivered (fst y) = hf_delivered (fst x)" "hf_reader (fst y) = R_Idle"
      "hf_open (fst y) = hf_open (fst x)" "hf_open (fst x) \<Longrightarrow> hf_reader (fst x) = R_Idle \<Longrightarrow> ho_inv (fst x) \<Longrightarrow> ho_inv (fst y)"
  | (got) c where "r = int (length b)" "length b \<le> n" "hf_delivered (fst y) = hf_delivered (fst x) @ [(c, n, 0, b)]"
      "hf_reader (fst y) = R_Idle" "hf_open (fst y) = hf_open (fst x)"
      "hf_open (fst x) \<Longrightarrow> hf_reader (fst x) = R_Idle \<Longrightarrow> ho_inv (fst x) \<Longrightarrow> ho_inv (fst y)"
proof -
  let ?x = "((fst x)\<lparr>hf_reader := R_Start n 0\<rparr>, snd x)"
  have y: "y = read_loop sched 7 ?x" and rb: "(r, b) = (case last (hf_results (fst y)) of Bytes b \<Rightarrow> (int (length b), b) | _ \<Rightarrow> (-1, []))"
    using assms by (auto simp: kernel_read_file_def Let_def)
  have "reading n (hf_delivered (fst x)) (hf_results (fst x)) (hf_reader (fst ?x)) (fst ?x) 7"
    by simp
  note run = read_loop_reads[OF this, folded y]
  have inv: "ho_inv (fst y)" if "hf_open (fst x)" "hf_reader (fst x) = R_Idle" "ho_inv (fst x)"
    using ho_step_inv[OF ho_call_read[OF that(1,2), of n 0] that(3)] run by simp
  have "hf_delivered (fst y) = hf_delivered (fst x) \<and> hf_results (fst y) \<in> {hf_results (fst x) @ [ENODATA], hf_results (fst x) @ [EAGAIN]} \<or>
     (\<exists>c r. length r \<le> n \<and> hf_delivered (fst y) = hf_delivered (fst x) @ [(c, n, 0, r)] \<and> hf_results (fst y) = hf_results (fst x) @ [Bytes r])"
    using run by simp
  then show thesis
  proof (elim disjE conjE exE)
    assume a: "hf_delivered (fst y) = hf_delivered (fst x)" "hf_results (fst y) \<in> {hf_results (fst x) @ [ENODATA], hf_results (fst x) @ [EAGAIN]}"
    have "r = -1"
      using rb a(2) by auto
    then show thesis
      by (rule nothing) (use a(1) run inv in simp_all)
  next
    fix c r' assume a: "length r' \<le> n" "hf_delivered (fst y) = hf_delivered (fst x) @ [(c, n, 0, r')]" "hf_results (fst y) = hf_results (fst x) @ [Bytes r']"
    have rr: "r = int (length r')" "b = r'"
      using rb a(3) by simp_all
    show thesis
      by (rule got[of c]) (use a run inv rr in simp_all)
  qed
qed

end

text \<open>Such a file keeps the contract of the event thread, whatever the scheduler.\<close>

sublocale kernel_scheduler \<subseteq> device_file "kernel_file dv sched" for dv
proof (unfold_locales, goal_cases)
  case (1 fd n s r b s')
  then have "kernel_read_file sched n s = Some ((r, b), s')"
    by simp
  then show ?case
    by (rule read_result) (use 1(2) in simp_all)
qed

context kernel_scheduler
begin

lemma file_contract: "device_file (kernel_file dv sched)"
  by (rule device_file_axioms)

end

text \<open>No other thread gets the processor; and the DSR gets it after every step.\<close>

lemma dsr_moves: "other_step\<^sup>*\<^sup>* s ((notify_step ^^ k) s)"
proof (induction k)
  case (Suc k)
  have "other_step t (notify_step t)" for t
    unfolding other_step_def
    by (intro disjI1 conjI ho_dsr) (cases "hf_dsr t"; simp add: notify_step_def upd_info_def Let_def)+
  then show ?case
    using Suc by (simp add: rtranclp.rtrancl_into_rtrancl)
qed simp

definition eager_dsr :: "nat \<Rightarrow> handoff \<times> 'd \<Rightarrow> handoff \<times> 'd" where
  "eager_dsr k x = ((notify_step ^^ k) (fst x), snd x)"

interpretation alone: kernel_scheduler "\<lambda>k x. x"
  by unfold_locales (simp add: kernel_moves_def)

interpretation eager: kernel_scheduler eager_dsr
  by unfold_locales (simp add: kernel_moves_def eager_dsr_def dsr_moves)

section \<open>The rest of the kernel during a capture\<close>

text \<open>Reading and writing attributes moves the kernel as \<open>mv\<close> says.\<close>

definition within :: "('k \<Rightarrow> 'k \<Rightarrow> bool) \<Rightarrow> 'k attr_io \<Rightarrow> bool" where
  "within mv io \<longleftrightarrow> (\<forall>d f x r y. io_read io d f x = Some (r, y) \<longrightarrow> mv x y) \<and>
     (\<forall>d f t x r y. io_write io d f t x = Some (r, y) \<longrightarrow> mv x y) \<and> reflp mv \<and> transp mv"

lemma kernel_moves_refl [simp]: "kernel_moves x x"
  by (simp add: kernel_moves_def)

lemma kernel_moves_order: "reflp kernel_moves" "transp kernel_moves"
  by (auto simp: kernel_moves_def intro!: reflpI transpI)

lemma within_refl: "within mv io \<Longrightarrow> mv x x"
  by (simp add: within_def reflpD)

lemma within_trans: "within mv io \<Longrightarrow> mv x y \<Longrightarrow> mv y z \<Longrightarrow> mv x z"
  unfolding within_def by (blast dest: transpD)

lemma within_read: "within mv io \<Longrightarrow> io_read io d f x = Some (r, y) \<Longrightarrow> mv x y"
  by (auto simp: within_def)

lemma within_write: "within mv io \<Longrightarrow> io_write io d f t x = Some (r, y) \<Longrightarrow> mv x y"
  by (auto simp: within_def)

lemma get_error_moves:
  assumes "within mv io" "get_error io d x = Some (r, y)"
  shows "mv x y"
proof -
  obtain a z where z: "io_read io d ''driver_information/driver_information/error'' x = Some (a, z)"
      "(case a of Not_Opened \<Rightarrow> None | Failed \<Rightarrow> Some (io_garbage io, z)
        | Got t \<Rightarrow> (case sscanf t ''%X'' of [W lRet] \<Rightarrow> Some (lRet, z) | _ \<Rightarrow> Some (NETANA_FUNCTION_FAILED, z))) = Some (r, y)"
    using assms(2) by (auto simp: get_error_def bind_eq_Some_conv)
  then have "z = y"
    by (cases a) (auto split: list.split_asm carg.split_asm)
  then show ?thesis
    using within_read[OF assms(1) z(1)] by simp
qed

lemma scan_moves:
  assumes "within mv io" "scan_attr io d f fmt n l x = Some (r, y)"
  shows "mv x y"
proof -
  obtain a z where z: "io_read io d f x = Some (a, z)"
      "(if a = Not_Opened then Some (Inl l, z)
        else if length (fscanf a fmt) \<noteq> n then do { (e, s2) \<leftarrow> get_error io d z; Some (Inl e, s2) }
        else Some (Inr (fscanf a fmt), z)) = Some (r, y)"
    using assms(2) by (auto simp: scan_attr_def bind_eq_Some_conv)
  then have "y = z \<or> (\<exists>e. get_error io d z = Some (e, y))"
    by (auto simp: bind_eq_Some_conv split: if_split_asm)
  then show ?thesis
    using within_read[OF assms(1) z(1)] get_error_moves[OF assms(1)] within_trans[OF assms(1)] by blast
qed

lemma print_moves:
  assumes "within mv io" "print_attr io d f t l x = Some (r, y)"
  shows "mv x y"
proof -
  obtain a z where z: "io_write io d f t x = Some (a, z)"
      "(case a of Not_Opened \<Rightarrow> Some (l, z) | Failed \<Rightarrow> get_error io d z | Got (_ :: unit) \<Rightarrow> Some (NETANA_NO_ERROR, z)) = Some (r, y)"
    using assms(2) by (auto simp: print_attr_def bind_eq_Some_conv)
  then have "y = z \<or> get_error io d z = Some (r, y)"
    by (cases a) auto
  then show ?thesis
    using within_write[OF assms(1) z(1)] get_error_moves[OF assms(1)] within_trans[OF assms(1)] by blast
qed

lemma write_control_moves:
  assumes "within mv io" "write_control io h t l L = Some (r, L')"
  shows "mv (lb_sys L) (lb_sys L')"
proof -
  let ?d = "li_iDeviceNum (lb_inst L h)"
  obtain a z where z: "io_write io ?d control_file t (lb_sys L) = Some (a, z)"
      "(case a of Not_Opened \<Rightarrow> Some (Some l, L\<lparr>lb_sys := z\<rparr>)
        | Failed \<Rightarrow> do { (e, s1) \<leftarrow> get_error io ?d z; Some (Some e, L\<lparr>lb_sys := s1\<rparr>) }
        | Got (_ :: unit) \<Rightarrow> Some (None, L\<lparr>lb_sys := z\<rparr>)) = Some (r, L')"
    using assms(2) by (auto simp: write_control_def bind_eq_Some_conv Let_def)
  then have "lb_sys L' = z \<or> (\<exists>e. get_error io ?d z = Some (e, lb_sys L'))"
    by (cases a) (auto simp: bind_eq_Some_conv)
  then show ?thesis
    using within_write[OF assms(1) z(1)] get_error_moves[OF assms(1)] within_trans[OF assms(1)] by metis
qed

lemma with_handle_moves:
  "with_handle h g f L = Some (r, L') \<Longrightarrow> within mv io \<Longrightarrow> (\<And>x r y. f (lb_inst L h) x = Some (r, y) \<Longrightarrow> mv x y) \<Longrightarrow> mv (lb_sys L) (lb_sys L')"
  by (auto simp: with_handle_def on_sys_def bind_eq_Some_conv within_refl split: if_split_asm)

lemma driver_information_moves:
  assumes q: "within mv io" and r: "read_driver_information io full x = Some (r, y)"
  shows "mv x y"
proof -
  let ?f = "\<lambda>a. drvinfo_dir @ a"
  obtain a x1 where 1: "scan_attr io 0 (?f ''dma_buffersize'') ''0x%X'' 1 NETANA_DRIVER_NOT_RUNNING x = Some (a, x1)"
    using r by (auto simp: read_driver_information_def bind_eq_Some_conv)
  note m1 = scan_moves[OF q 1]
  show ?thesis
  proof (cases a)
    case (Inl e)
    then show ?thesis
      using r 1 m1 by (simp add: read_driver_information_def)
  next
    case (Inr xs)
    obtain b x2 where 2: "scan_attr io 0 (?f ''dma_buffercnt'') ''%d'' 1 NETANA_INVALID_PARAMETER x1 = Some (b, x2)"
      using r 1 Inr by (auto simp: read_driver_information_def bind_eq_Some_conv)
    note m2 = within_trans[OF q m1 scan_moves[OF q 2]]
    have "y = x2 \<or> (\<exists>c. scan_attr io 0 (?f ''driver_version'') ''%d %d %d %d %d %d %d %d'' 8 NETANA_INVALID_PARAMETER x2 = Some (c, y))"
      using r 1 2 Inr by (auto simp: read_driver_information_def bind_eq_Some_conv Let_def split: sum.split_asm if_split_asm)
    then show ?thesis
      using m2 scan_moves[OF q] within_trans[OF q] by blast
  qed
qed

lemma thread_moves:
  assumes "netana_event_thread io dv h t L = Some (t', L')" "within mv io" "\<forall>n. et_pc t \<noteq> E_Read n"
    and "\<And>fd x r y. dv_poll dv fd x = Some (r, y) \<Longrightarrow> mv x y"
  shows "mv (lb_sys L) (lb_sys L')"
proof (cases "et_pc t")
  case E_Start
  then show ?thesis
    using assms(1) within_refl[OF assms(2)] by (auto simp: netana_event_thread_def thread_start_def)
next
  case E_Loop
  then show ?thesis
    using assms(1,4) within_refl[OF assms(2)]
    by (auto simp: netana_event_thread_def thread_poll_def Let_def bind_eq_Some_conv split: if_split_asm)
next
  case (E_Write n b)
  then show ?thesis
    using assms(1) within_refl[OF assms(2)] by (auto simp: netana_event_thread_def thread_write_def Let_def split: if_split_asm prod.split_asm)
next
  case (E_State n)
  have sp: "mv (lb_sys L) (lb_sys L1)" if "netana_get_state_poll io h L = Some (r, L1)" for r L1
    using that unfolding netana_get_state_poll_def
    by (rule with_handle_moves[OF _ assms(2)]) (auto simp: bind_eq_Some_conv intro: scan_moves[OF assms(2)])
  show ?thesis
  proof (cases n)
    case True
    then obtain r L1 where L1: "netana_get_state_poll io h L = Some (r, L1)"
        "(t', L') = (case r of Inl _ \<Rightarrow> (t\<lparr>et_pc := E_Signal\<rparr>, L1)
         | Inr (st, er) \<Rightarrow> (t\<lparr>et_pc := E_Signal, et_ulCaptureState := st\<rparr>,
             upd_inst h (\<lambda>p. p\<lparr>li_ulCaptureState := st\<rparr>)
               (if li_pfnStatus (lb_inst L1 h) then call_back [Status_Callback st er] L1 else L1)))"
      using assms(1) E_State by (auto simp: netana_event_thread_def thread_state_def bind_eq_Some_conv)
    then show ?thesis
      using sp[OF L1(1)] by (auto split: sum.split_asm prod.split_asm)
  qed (use assms(1) E_State within_refl[OF assms(2)] in \<open>auto simp: netana_event_thread_def thread_state_def\<close>)
next
  case E_Signal
  have "mv (lb_sys L) (lb_sys L1)" if "netana_signal_drv_error io h e L = Some (r, L1)" for e r L1
    using that unfolding netana_signal_drv_error_def
    by (rule with_handle_moves[OF _ assms(2)]) (auto intro: print_moves[OF assms(2)])
  then show ?thesis
    using assms(1) E_Signal within_refl[OF assms(2)] by (auto simp: netana_event_thread_def thread_signal_def bind_eq_Some_conv split: if_split_asm)
qed (use assms within_refl[OF assms(2)] in \<open>auto simp: netana_event_thread_def thread_data_def\<close>)

lemma main_moves_sys:
  assumes "main_step io h S = Some S'" "within mv io"
  shows "mv (lb_sys (ss_lib S)) (lb_sys (ss_lib S'))" "ss_blocks S' = ss_blocks S"
    "li_ulDMABufferSize (lb_inst (ss_lib S') h) = li_ulDMABufferSize (lb_inst (ss_lib S) h)"
proof -
  have "mv (lb_sys (ss_lib S)) (lb_sys (ss_lib S')) \<and> ss_blocks S' = ss_blocks S \<and>
      li_ulDMABufferSize (lb_inst (ss_lib S') h) = li_ulDMABufferSize (lb_inst (ss_lib S) h)"
  proof (cases "ss_main S")
    case (M_Control r a)
    then obtain x L where w: "write_control io h (control_text a) r (ss_lib S) = Some (x, L)"
        "S' = (case x of Some e \<Rightarrow> return_from None e (S\<lparr>ss_lib := L\<rparr>) | None \<Rightarrow> S\<lparr>ss_lib := L, ss_main := M_Await\<rparr>)"
      using assms(1) by (auto simp: main_step_def Let_def bind_eq_Some_conv)
    then show ?thesis
      using write_control_frame[OF w(1)] write_control_moves[OF assms(2) w(1)] by (auto split: option.split)
  next
    case (M_Stop c)
    show ?thesis
    proof (cases "CheckDeviceHandle h (ss_lib S) \<noteq> NETANA_NO_ERROR \<or> \<not> lib_IsCaptureRunning (lb_inst (ss_lib S) h)")
      case True
      then show ?thesis
        using assms(1) M_Stop within_refl[OF assms(2)] by (auto simp: main_step_def Let_def split: if_split_asm)
    next
      case False
      then obtain x L where w: "write_control io h (sprintf ''%d'' [W 1]) NETANA_INVALID_PARAMETER (ss_lib S) = Some (x, L)"
          "S' = (case x of Some e \<Rightarrow> return_from c e (S\<lparr>ss_lib := L\<rparr>) | None \<Rightarrow> S\<lparr>ss_lib := L, ss_main := M_Files c\<rparr>)"
        using assms(1) M_Stop by (auto simp: main_step_def Let_def bind_eq_Some_conv)
      then show ?thesis
        using write_control_frame[OF w(1)] write_control_moves[OF assms(2) w(1)] by (auto split: option.split)
    qed
  qed (use assms(1) within_refl[OF assms(2)] in \<open>auto simp: main_step_def Let_def upd_lib_def split: if_split_asm\<close>)
  then show "mv (lb_sys (ss_lib S)) (lb_sys (ss_lib S'))" "ss_blocks S' = ss_blocks S"
    "li_ulDMABufferSize (lb_inst (ss_lib S') h) = li_ulDMABufferSize (lb_inst (ss_lib S) h)"
    by simp_all
qed

section \<open>Every buffer read during a capture\<close>

text \<open>\<open>d0\<close> was delivered before the capture; each read since then has asked for \<open>N\<close> bytes, and the blocks are what
  the reads have returned, but for nothing.\<close>

definition kernel_inv :: "nat \<Rightarrow> (bytes \<times> nat \<times> nat \<times> bytes) list \<Rightarrow> u32 \<Rightarrow> (handoff \<times> 'd) session \<Rightarrow> bool" where
  "kernel_inv h d0 N S \<longleftrightarrow> (let x = fst (lb_sys (ss_lib S)) in
     ho_inv x \<and> hf_open x \<and> hf_reader x = R_Idle \<and> li_ulDMABufferSize (lb_inst (ss_lib S) h) = N \<and>
     (\<exists>ds. hf_delivered x = d0 @ ds \<and> list_all (\<lambda>(c, t, u, r). t = unat N \<and> u = 0) ds \<and>
       ss_blocks S = filter (\<lambda>b. b \<noteq> []) (map (\<lambda>(c, t, u, r). r) ds)))"

lemma kernel_inv_moves:
  assumes "kernel_inv h d0 N S" "kernel_moves (lb_sys (ss_lib S)) (lb_sys (ss_lib S'))" "ss_blocks S' = ss_blocks S"
    and "li_ulDMABufferSize (lb_inst (ss_lib S') h) = li_ulDMABufferSize (lb_inst (ss_lib S) h)"
  shows "kernel_inv h d0 N S'"
proof -
  have "other_step\<^sup>*\<^sup>* (fst (lb_sys (ss_lib S))) (fst (lb_sys (ss_lib S')))"
    using assms(2) by (simp add: kernel_moves_def)
  from other_run_keeps[OF this] show ?thesis
    using assms(1,3,4) by (simp add: kernel_inv_def Let_def)
qed

lemma new_block_reads: "new_block p q = (case p of E_Read n \<Rightarrow> (case q of E_Write m b \<Rightarrow> [b] | _ \<Rightarrow> []) | _ \<Rightarrow> [])"
  by (cases p; cases q) simp_all

context kernel_scheduler
begin

lemma thread_keeps_kernel:
  assumes inv: "kernel_inv h d0 N S" and q: "within kernel_moves io"
    and st: "netana_event_thread io (kernel_file dv sched) h t (ss_lib S) = Some (t', L)"
  shows "kernel_inv h d0 N (S\<lparr>ss_lib := L, ss_threads := ts, ss_blocks := ss_blocks S @ new_block (et_pc t) (et_pc t')\<rparr>)"
proof (cases "\<exists>n. et_pc t = E_Read n")
  case False
  have "kernel_moves (lb_sys (ss_lib S)) (lb_sys L)"
    by (rule thread_moves[OF st q]) (use False in \<open>auto simp: kernel_poll_def Let_def\<close>)
  moreover have "li_ulDMABufferSize (lb_inst L h) = li_ulDMABufferSize (lb_inst (ss_lib S) h)"
    using event_thread_effect[OF st] by (simp add: thread_effect_def Let_def)
  moreover have "new_block (et_pc t) (et_pc t') = []"
    using False by (auto simp: new_block_reads split: event_pc.split)
  ultimately show ?thesis
    by (intro kernel_inv_moves[OF inv]) simp_all
next
  case True
  then obtain n where n: "et_pc t = E_Read n"
    by blast
  obtain r b k where r: "dv_read (kernel_file dv sched) (li_fd_Device (lb_inst (ss_lib S) h)) (unat (li_ulDMABufferSize (lb_inst (ss_lib S) h)))
        (lb_sys (ss_lib S)) = Some ((r, b), k)"
      "t' = t\<lparr>et_pc := (if 0 < r then E_Write n b else if r = 0 \<or> r = - errno_EAGAIN then E_Read n else E_State n)\<rparr>"
      "L = (ss_lib S)\<lparr>lb_sys := k\<rparr>"
    by (rule thread_read_cases[OF st n])
  have N: "li_ulDMABufferSize (lb_inst (ss_lib S) h) = N"
    and x: "ho_inv (fst (lb_sys (ss_lib S)))" "hf_open (fst (lb_sys (ss_lib S)))" "hf_reader (fst (lb_sys (ss_lib S))) = R_Idle"
    using inv by (simp_all add: kernel_inv_def Let_def)
  obtain ds where ds: "hf_delivered (fst (lb_sys (ss_lib S))) = d0 @ ds" "list_all (\<lambda>(c, t, u, r). t = unat N \<and> u = 0) ds"
      "ss_blocks S = filter (\<lambda>b. b \<noteq> []) (map (\<lambda>(c, t, u, r). r) ds)"
    using inv by (auto simp: kernel_inv_def Let_def)
  have rd: "kernel_read_file sched (unat N) (lb_sys (ss_lib S)) = Some ((r, b), k)"
    using r(1) N by simp
  have new: "new_block (et_pc t) (et_pc t') = (if 0 < r then [b] else [])"
    using n by (auto simp: r(2))
  have keep: "kernel_inv h d0 N (S\<lparr>ss_lib := L, ss_threads := ts, ss_blocks := ss_blocks S @ new_block (et_pc t) (et_pc t')\<rparr>)"
    if "ho_inv (fst k)" "hf_open (fst k)" "hf_reader (fst k) = R_Idle" "hf_delivered (fst k) = d0 @ ds @ es"
      "list_all (\<lambda>(c, t, u, r). t = unat N \<and> u = 0) es" "(if 0 < r then [b] else []) = filter (\<lambda>b. b \<noteq> []) (map (\<lambda>(c, t, u, r). r) es)" for es
    unfolding new kernel_inv_def Let_def using that ds(2,3) N by (auto simp: r(3) intro!: exI[of _ "ds @ es"])
  from rd show ?thesis
  proof (rule read_result)
    assume a: "r = -1" "hf_delivered (fst k) = hf_delivered (fst (lb_sys (ss_lib S)))" "hf_reader (fst k) = R_Idle"
      "hf_open (fst k) = hf_open (fst (lb_sys (ss_lib S)))"
      "hf_open (fst (lb_sys (ss_lib S))) \<Longrightarrow> hf_reader (fst (lb_sys (ss_lib S))) = R_Idle \<Longrightarrow> ho_inv (fst (lb_sys (ss_lib S))) \<Longrightarrow> ho_inv (fst k)"
    then show ?thesis
      using x ds(1) by (intro keep[of "[]"]) simp_all
  next
    fix c assume a: "r = int (length b)" "hf_delivered (fst k) = hf_delivered (fst (lb_sys (ss_lib S))) @ [(c, unat N, 0, b)]"
      "hf_reader (fst k) = R_Idle" "hf_open (fst k) = hf_open (fst (lb_sys (ss_lib S)))"
      "hf_open (fst (lb_sys (ss_lib S))) \<Longrightarrow> hf_reader (fst (lb_sys (ss_lib S))) = R_Idle \<Longrightarrow> ho_inv (fst (lb_sys (ss_lib S))) \<Longrightarrow> ho_inv (fst k)"
    then show ?thesis
      using x ds(1) by (intro keep[of "[(c, unat N, 0, b)]"]) simp_all
  qed
qed

lemma capture_keeps_kernel:
  assumes "capture_step io (kernel_file dv sched) kernel_moves h S S'" "within kernel_moves io" "kernel_inv h d0 N S"
  shows "kernel_inv h d0 N S'"
  using assms(1)
proof cases
  case cs_main
  then show ?thesis
    using main_moves_sys[OF cs_main assms(2)] by (intro kernel_inv_moves[OF assms(3)])
next
  case cs_stop
  then show ?thesis
    by (intro kernel_inv_moves[OF assms(3)]) simp_all
next
  case (cs_thread i t L)
  then show ?thesis
    using thread_keeps_kernel[OF assms(3,2)] by blast
next
  case (cs_system k)
  then show ?thesis
    by (intro kernel_inv_moves[OF assms(3)]) (simp_all add: upd_lib_def)
qed

lemma run_keeps_kernel:
  "(capture_step io (kernel_file dv sched) kernel_moves h)\<^sup>*\<^sup>* S S' \<Longrightarrow> within kernel_moves io \<Longrightarrow> kernel_inv h d0 N S \<Longrightarrow> kernel_inv h d0 N S'"
  by (induction rule: rtranclp_induct) (auto intro: capture_keeps_kernel)

end

lemma start_kernel_inv:
  assumes "start_capture io dv h a S = Some S0" "ss_main S0 \<noteq> M_Idle" "within kernel_moves io" "ss_blocks S = []"
    and "ho_inv (fst (lb_sys (ss_lib S)))" "hf_open (fst (lb_sys (ss_lib S)))" "hf_reader (fst (lb_sys (ss_lib S))) = R_Idle"
  shows "kernel_inv h (hf_delivered (fst (lb_sys (ss_lib S)))) (li_ulDMABufferSize (lb_inst (ss_lib S0) h)) S0"
proof -
  obtain i s L r L2 where st:
    "L = (upd_inst h (\<lambda>p. p\<lparr>li_pfnStatus := sa_pfnStatus a, li_pfnData := sa_pfnData a\<rparr>) (ss_lib S))\<lparr>lb_sys := s\<rparr>"
    "read_driver_information io True (lb_sys (ss_lib S)) = Some (Inr i, s)" "prepare_capture h a i L = (r, L2)"
    "S0 = S\<lparr>ss_lib := upd_inst h (\<lambda>p. p\<lparr>li_hPollingThread := length (ss_threads S)\<rparr>) L2,
      ss_threads := ss_threads S @ [new_thread], ss_main := M_Control r a\<rparr>"
    by (rule start_thread[OF assms(1,2)])
  have "kernel_moves (lb_sys (ss_lib S)) s"
    by (rule driver_information_moves[OF assms(3) st(2)])
  moreover have "lb_sys (ss_lib S0) = s" "ss_blocks S0 = []"
    using prepare_keeps(4)[OF st(3)] assms(4) by (simp_all add: st(1,4))
  ultimately show ?thesis
    using other_run_keeps[of "fst (lb_sys (ss_lib S))" "fst s"] assms(5-7)
    by (auto simp: kernel_inv_def Let_def kernel_moves_def)
qed

section \<open>From the DSR to the callback and the files\<close>

lemma reader_inv_unread: "reader_inv pc s \<Longrightarrow> \<exists>u. hf_presented s = map fst (hf_delivered s) @ u \<and> length u \<le> 1 \<and> list_all (waiting s) u"
  using reader_inv_cases[of pc s] by (auto simp: all_read_def one_unread_def intro: exI[of _ "[]"])


text \<open>An application with a callback and no files, on the device which has just presented four bytes.\<close>

definition sample_answers :: "(handoff \<times> unit) attr_io" where
  "sample_answers = \<lparr>io_read = (\<lambda>d f s. Some (Got (if f = drvinfo_dir @ ''dma_buffersize'' then ''0x8''
        else if f = drvinfo_dir @ ''dma_buffercnt'' then ''32'' else ''1 0 0 0 1 0 0 0''), s)),
     io_write = (\<lambda>d f t s. Some (Got (), s)), io_fread = (\<lambda>d f n s. Some (Not_Opened, s)), io_fwrite = (\<lambda>d f b s. Some (Not_Opened, s)),
     io_size = (\<lambda>d f s. 0), io_stat = (\<lambda>f s. False), io_scandir = (\<lambda>s. [''netanalyzer_0'']), io_garbage = 0\<rparr>"

definition presented_file :: "(handoff \<times> unit) dev_io" where
  "presented_file = kernel_file \<lparr>dv_open = (\<lambda>n s. Some (Opened 3, s)), dv_flock = (\<lambda>fd s. Some (True, s)), dv_close = (\<lambda>fd s. Some (0, s)),
     dv_poll = (\<lambda>fd s. None), dv_read = (\<lambda>fd n s. None), dv_malloc = (\<lambda>s. True), dv_pthread_create = (\<lambda>s. True)\<rparr> (\<lambda>k x. x)"

definition idle_session :: "(handoff \<times> unit) session" where
  "idle_session = \<lparr>ss_lib = \<lparr>lb_cards = [1], lb_inst = (\<lambda>h. zero_inst\<lparr>li_ulCaptureState := NETANA_CAPTURE_STATE_OFF, li_fd_Device := 3\<rparr>),
       lb_globals = libinit True, lb_files = (\<lambda>_. \<lparr>fs_bytes = [], fs_pos = 0, fs_room = 0, fs_open = False\<rparr>), lb_callbacks = [], lb_sys = (sample_presented, ())\<rparr>,
     ss_main = M_Idle, ss_threads = [], ss_result = None, ss_blocks = []\<rparr>"

definition capture_args :: start_args where
  "capture_args = \<lparr>sa_ulCaptureMode = 0, sa_ulPortEnableMask = 15, sa_ulMacMode = 0, sa_ullReferenceTime = 0, sa_pfnStatus = False, sa_pfnData = True\<rparr>"

text \<open>One step of the first thread.\<close>

definition first_thread :: "(handoff \<times> unit) session \<Rightarrow> (handoff \<times> unit) session option" where
  "first_thread S = (case netana_event_thread sample_answers presented_file 1 (ss_threads S ! 0) (ss_lib S) of
     Some (t, L) \<Rightarrow> Some (S\<lparr>ss_lib := L, ss_threads := (ss_threads S)[0 := t], ss_blocks := ss_blocks S @ new_block (et_pc (ss_threads S ! 0)) (et_pc t)\<rparr>)
   | None \<Rightarrow> None)"

lemma first_thread_step: "first_thread S = Some S' \<Longrightarrow> ss_threads S \<noteq> [] \<Longrightarrow>
    capture_step sample_answers presented_file kernel_moves 1 S S'"
  unfolding first_thread_def by (auto split: option.split_asm intro!: cs_thread)

lemma sample_answers_within: "within kernel_moves sample_answers"
  by (simp add: within_def sample_answers_def kernel_moves_order)

lemma sample_information: "read_driver_information sample_answers True x = Some (Inr \<lparr>vi_ulCardCnt = 1, vi_aulVersion = [1, 0, 0, 0],
    vi_ulMaxFileCount = NETANA_MAX_FILES, vi_ulDMABufferSize = 8, vi_ulDMABufferCount = 32, vi_aulToolkitVersion = [1, 0, 0, 0],
    vi_lMarshallerStatus = 0, vi_aulMarshallerVersion = [0, 0, 0, 0]\<rparr>, x)"
proof -
  have t: "sscanf ''0x8'' ''0x%X'' = [W 8]" "sscanf ''32'' ''%d'' = [W 32]"
    "sscanf ''1 0 0 0 1 0 0 0'' ''%d %d %d %d %d %d %d %d'' = map W [1, 0, 0, 0, 1, 0, 0, 0]"
    by code_simp+
  have n: "netana_get_devicecount [''netanalyzer_0''] = 1"
    by code_simp
  show ?thesis
    by (simp add: read_driver_information_def scan_attr_def sample_answers_def t n)
qed

definition capture_at :: "event_pc \<Rightarrow> handoff \<Rightarrow> bytes list \<Rightarrow> callback list \<Rightarrow> (handoff \<times> unit) session" where
  "capture_at pc x bs cs = idle_session\<lparr>
     ss_lib := upd_inst 1 (\<lambda>p. p\<lparr>li_pfnData := True, li_ulMaxFileCount := 1, li_ulDMABufferSize := 8, li_ulDMABufferCount := 32,
         li_fRunEventThread := True\<rparr>) ((ss_lib idle_session)\<lparr>lb_callbacks := cs, lb_sys := (x, ())\<rparr>),
     ss_main := M_Control 0 capture_args, ss_threads := [new_thread\<lparr>et_pc := pc\<rparr>], ss_blocks := bs\<rparr>"

lemma capture_starts: "start_capture sample_answers presented_file 1 capture_args idle_session = Some (capture_at E_Start sample_presented [] [])"
proof -
  have "upd_inst h f (upd_inst h g L) = upd_inst h (\<lambda>p. f (g p)) L" for h f g and L :: "'k lib"
    by (simp add: upd_inst_def)
  then show ?thesis
    by (simp add: start_capture_def on_sys_def sample_information idle_session_def capture_args_def CheckDeviceHandle_def lib_IsCaptureRunning_def
      prepare_capture_def lib_start_files_def lib_files_def set_lib_files_def create_thread_def presented_file_def kernel_file_def capture_at_def
      Let_def zero_inst_def zero_filelist_def new_thread_def upd_inst_def)
qed

lemma alone_read: "read_loop (\<lambda>k x. x) k x = ((read_step ^^ k) (fst x), snd x)"
  by (induction k arbitrary: x) (simp_all add: funpow_swap1)

lemma sample_presented_buffer:
  "ki_data (hf_info sample_presented) = Some 1" "ki_buffervalid (hf_info sample_presented)" "hf_mem sample_presented 1 = [1, 2, 3, 4, 5, 6, 7, 8]"
  "POLLRDNORM \<notin> netana_poll (hf_info sample_presented)"
proof -
  have p: "sample_presented = (let s = (upd_info (\<lambda>i. i\<lparr>ki_captureactive := True, ki_statuscallback := False\<rparr>) (open_file sample_handoff))\<lparr>hf_dsr := N_Active 1 4\<rparr> in
      s\<lparr>hf_info := (hf_info s)\<lparr>ki_data := Some 1, ki_datalen := 4, ki_buffervalid := True,
       ki_data_event_counter := ki_data_event_counter (hf_info s) + 1\<rparr>,
     hf_dsr := N_Wait 1 4, hf_presented := hf_presented s @ [take (unat (4 :: u32)) (hf_mem s 1)]\<rparr>)"
    unfolding sample_presented_def Let_def
    by (rule notify_run) (simp_all add: sample_handoff_def open_file_def netana_reset_event_counter_def upd_info_def)
  note p = p[unfolded Let_def sample_handoff_def open_file_def netana_reset_event_counter_def upd_info_def]
  show "ki_data (hf_info sample_presented) = Some 1" "ki_buffervalid (hf_info sample_presented)" "hf_mem sample_presented 1 = [1, 2, 3, 4, 5, 6, 7, 8]"
    "POLLRDNORM \<notin> netana_poll (hf_info sample_presented)"
    by (simp_all add: p netana_poll_def)
qed

lemma capture_reads: "kernel_read_file (\<lambda>k x. x) 8 (sample_presented, ()) = Some ((4, [1, 2, 3, 4]), read_run 8 [1, 2, 3, 4] sample_presented, ())"
proof -
  have "\<not> same_count sample_presented"
    using sample_handoff_state(4) by simp
  then have "(read_step ^^ 7) (sample_presented\<lparr>hf_reader := R_Start 8 0\<rparr>) = read_run 8 [1, 2, 3, 4] sample_presented"
    using read_run[of sample_presented 1 8] sample_presented_buffer sample_handoff_state(6) by simp
  then show ?thesis
    by (simp add: kernel_read_file_def alone_read read_run_def)
qed

lemma capture_delivers: "(capture_step sample_answers presented_file kernel_moves 1)\<^sup>*\<^sup>* (capture_at E_Start sample_presented [] [])
    (capture_at (E_State False) (read_run 8 [1, 2, 3, 4] sample_presented) [[1, 2, 3, 4]] [Data_Callback [1, 2, 3, 4]])"
proof -
  let ?y = "read_run 8 [1, 2, 3, 4] sample_presented"
  have poll: "kernel_poll (sample_presented, ()) = Some ((1, True, False), (sample_presented, ()))"
  proof -
    have "netana_poll (hf_info sample_presented) \<noteq> {}" "POLLPRI \<in> netana_poll (hf_info sample_presented)"
      using sample_handoff_state(4) by blast+
    then show ?thesis
      using sample_presented_buffer(4) by (simp add: kernel_poll_def Let_def del: poll_data)
  qed
  note defs = first_thread_def netana_event_thread_def capture_at_def idle_session_def upd_inst_def presented_file_def kernel_file_def
  have 1: "first_thread (capture_at E_Start sample_presented [] []) = Some (capture_at E_Loop sample_presented [] [])"
    by (simp add: defs thread_start_def new_thread_def)
  have 2: "first_thread (capture_at E_Loop sample_presented [] []) = Some (capture_at (E_Read False) sample_presented [] [])"
    by (simp add: defs thread_poll_def new_thread_def poll Let_def)
  have 3: "first_thread (capture_at (E_Read False) sample_presented [] []) = Some (capture_at (E_Write False [1, 2, 3, 4]) ?y [[1, 2, 3, 4]] [])"
    by (simp add: defs thread_read_def new_thread_def capture_reads)
  have 4: "first_thread (capture_at (E_Write False [1, 2, 3, 4]) ?y [[1, 2, 3, 4]] []) = Some (capture_at (E_Data False [1, 2, 3, 4]) ?y [[1, 2, 3, 4]] [])"
    by (simp add: defs thread_write_def new_thread_def Let_def lib_files_def zero_inst_def zero_filelist_def)
  have 5: "first_thread (capture_at (E_Data False [1, 2, 3, 4]) ?y [[1, 2, 3, 4]] []) =
      Some (capture_at (E_State False) ?y [[1, 2, 3, 4]] [Data_Callback [1, 2, 3, 4]])"
    by (simp add: defs thread_data_def new_thread_def call_back_def)
  have ne: "ss_threads (capture_at pc x bs cs) \<noteq> []" for pc x bs cs
    by (simp add: capture_at_def)
  note st = first_thread_step[OF _ ne]
  show ?thesis
    using st[OF 1] st[OF 2] st[OF 3] st[OF 4] st[OF 5] by (meson rtranclp.rtrancl_refl rtranclp.rtrancl_into_rtrancl)
qed


end
