(* ===== verification/Lib_Sessions.thy ===== *)
theory Lib_Sessions
  imports Lib_Device_File
begin

text \<open>
  The life of an open device in the library: what every interleaving of its calls, event threads and the
  system keeps, and where starting and stopping leave more behind than their results tell.
\<close>

section \<open>Any use of an open device\<close>



section \<open>What a result does not tell\<close>

text \<open>A start which gets no thread reports success, if the files could be written: there is no new thread, and the capture is not running.\<close>

lemma start_without_thread:
  assumes "start_capture io dv h a S = Some S'" "read_driver_information io True (lb_sys (ss_lib S)) = Some (Inr i, s)"
    and "\<not> dv_pthread_create dv s" "CheckDeviceHandle h (ss_lib S) = NETANA_NO_ERROR"
    and "\<not> lib_IsCaptureRunning (lb_inst (ss_lib S) h)" "ulFileCount (li_flst (lb_inst (ss_lib S) h)) = 0" "sa_pfnData a"
  shows "ss_result S' = Some NETANA_NO_ERROR" "ss_threads S' = ss_threads S" "\<not> lib_IsCaptureRunning (lb_inst (ss_lib S') h)"
proof -
  let ?L = "(upd_inst h (\<lambda>p. p\<lparr>li_pfnStatus := sa_pfnStatus a, li_pfnData := sa_pfnData a\<rparr>) (ss_lib S))\<lparr>lb_sys := s\<rparr>"
  obtain r L2 where p: "prepare_capture h a i ?L = (r, L2)"
    by (metis surj_pair)
  note L2 = prepare_keeps[OF p]
  have "lib_start_files tz a x = (NETANA_NO_ERROR, snd (lib_start_files tz a x))" if "ulFileCount (fst x) = 0" for tz x
    using that by (cases x) (simp add: lib_start_files_def Let_def)
  then have "r = NETANA_NO_ERROR"
    using L2(3) assms(6) by (simp add: lib_files_def) (metis fst_conv)
  moreover have "S' = return_from None r (S\<lparr>ss_lib := L2\<rparr>)"
    using assms p L2(4) by (simp add: start_capture_def on_sys_def create_thread_def Let_def)
  ultimately show "ss_result S' = Some NETANA_NO_ERROR" "ss_threads S' = ss_threads S" "\<not> lib_IsCaptureRunning (lb_inst (ss_lib S') h)"
    using L2(1) assms(5) by (simp_all add: lib_IsCaptureRunning_def)
qed

text \<open>The event thread of a capture that has ended by itself is not joined: a stop is refused, and the next start sets up a
  second thread beside it, on the same device file.\<close>

lemma stop_leaves_thread:
  "ss_main S = M_Stop None \<Longrightarrow> CheckDeviceHandle h (ss_lib S) = NETANA_NO_ERROR \<Longrightarrow> \<not> lib_IsCaptureRunning (lb_inst (ss_lib S) h) \<Longrightarrow>
   main_step io h S = Some (return_from None NETANA_CAPTURE_NOT_ACTIVE S)"
  by (simp add: main_step_def)

lemma start_beside_thread:
  assumes "start_capture io dv h a S = Some S'" "ss_main S' \<noteq> M_Idle" "t \<in> set (ss_threads S)" "et_pc t \<noteq> E_Exit"
  shows "t \<in> set (ss_threads S')" "new_thread \<in> set (ss_threads S')" "li_fRunEventThread (lb_inst (ss_lib S') h)"
    "length (ss_threads S') = Suc (length (ss_threads S))"
proof -
  obtain i s L r L2 where st: "prepare_capture h a i L = (r, L2)"
    "S' = S\<lparr>ss_lib := upd_inst h (\<lambda>p. p\<lparr>li_hPollingThread := length (ss_threads S)\<rparr>) L2,
      ss_threads := ss_threads S @ [new_thread], ss_main := M_Control r a\<rparr>"
    by (rule start_thread[OF assms(1,2)])
  show "t \<in> set (ss_threads S')" "new_thread \<in> set (ss_threads S')" "li_fRunEventThread (lb_inst (ss_lib S') h)"
    "length (ss_threads S') = Suc (length (ss_threads S))"
    using assms(3) prepare_keeps(1)[OF st(1)] by (simp_all add: st(2))
qed

text \<open>\<open>netana_stop_capture\<close> closes the files without waiting for the event thread. A thread with a block at hand then writes to a file
  which is \<open>NULL\<close>.\<close>

lemma write_after_stop:
  assumes "filing (lib_files h (ss_lib S)) w n" "0 < ulFileCount (fst (lib_files h (ss_lib S)))" "fWriteToFile (fst (lib_files h (ss_lib S)))"
    and "ss_main S = M_Files c" "main_step io h S = Some S'"
  shows "thread_write h norm b t (ss_lib S') = None"
proof -
  let ?x = "lib_files h (ss_lib S)" let ?y = "lib_finish_files ?x"
  obtain k :: sink where "unat (ulCurrentFile (fst ?y)) < sk_count k" "\<forall>i < sk_count k. handle_of (fst ?y) i = 0"
    using filing_finish(1)[OF assms(1,2)] unfolding filed_def by blast
  moreover have "fWriteToFile (fst ?y) = fWriteToFile (fst ?x)"
    using assms(2) by (simp add: lib_finish_files_def Let_def lib_writefileheader_eq lib_Close_eq[of undefined] case_prod_beta)
  moreover have "lib_files h (ss_lib S') = ?y"
    using assms(4,5) by (auto simp: main_step_def Let_def)
  ultimately show ?thesis
    using assms(3) by (simp add: thread_write_def Let_def)
qed

end
