(* ===== verification/Spec2Isabelle.thy ===== *)
theory Spec2Isabelle
  imports Capture Lib_Capture Interrupt Api_Config Api_Command Api_Capture Api_Mailbox Crc32 Download Device_Boot Device_Info
    Kernel_Notify Kernel_Register Lib_Filters Lib_Driver Lib_Sessions
begin

text \<open>
  A verification library of the netANALYZER driver for Linux, which captures network traffic with a netX device.

  \<^bold>\<open>The program.\<close> It has three layers, and data and commands pass through all of them.

  \<^item> The toolkit (\<open>netanalyzer_kernel_mod/toolkit\<close>) drives a device through its dual ported memory (DPM): it loads and
    starts the firmware, gives commands over handshake bits, exchanges packets over mailboxes, and takes
    DMA buffers filled with captured frames from the device, which it passes to a callback and stores in files.
  \<^item> The kernel module (\<open>netanalyzer_kernel_mod\<close>) puts the toolkit into Linux: PCI probing, DMA memory, interrupt and DSR
    thread, a device file which hands the DMA buffers to an application, and a tree of sysfs attributes, each of
    which makes a call of the toolkit.
  \<^item> The library (\<open>libnetana\<close>) gives applications the interface of the toolkit again: its calls read and write the attributes, and an event thread
    polls the device file, stores what it reads in files and passes it to the application.

  \<^bold>\<open>Theories of the toolkit.\<close> The state is the record \<open>sys\<close> of \<open>Netana_State\<close>: the DPM (\<open>dpm\<close>, one record per block of
  \<open>netana_dpmlayout.h\<close>), the device instance (\<open>devinst\<close>, \<open>NETANA_DEVINSTANCE_T\<close>), the files, the callbacks made and the trace
  of what device and clock do next.

  \<^item> \<open>Netana_Prelude\<close>, \<open>Netana_State\<close>, \<open>Netana_Sample\<close>: machine integers, bytes, the structures and constants, a concrete device.
  \<^item> \<open>Handshake\<close>: \<open>GetHskBitState\<close>, \<open>netana_tkit_WaitForBitState\<close>, \<open>netana_tkit_ToggleBit\<close>, and the locale
    \<open>command_channel\<close> of a command with its acknowledgement, which the boot mailbox instantiates again.
  \<^item> \<open>Interrupt\<close> (\<open>netana_interrupt.c\<close>): ISR and DSR with the double buffer between them; no interrupt is lost under any interleaving.
  \<^item> \<open>Capture_Files\<close>, \<open>Capture\<close> (\<open>netana_capture.c\<close>): the file list refines an abstract sink of buffers (\<open>sink\<close>, \<open>files_rel\<close>; locales
    \<open>file_device\<close> and \<open>capture_sink\<close>), and \<open>netana_tkit_process\<close> delivers every buffer once, in order.
  \<^item> \<open>Api_Config\<close>, \<open>Api_Command\<close>, \<open>Api_Capture\<close>, \<open>Api_Mailbox\<close>, \<open>Device_Info\<close> (\<open>netana_functions.c\<close>): filters and GPIOs, commands,
    the life of a capture, packets (\<open>Packets\<close>), and information and management; each call on all its branches.
  \<^item> \<open>Boot_Mailbox\<close>, \<open>Crc32\<close>, \<open>Download\<close>, \<open>Device_Boot\<close>, \<open>Dpm_Layout\<close>, \<open>Devices\<close> (\<open>netana_toolkit.c\<close>): polling packets, checksum, the
    download state machine, bringing up a device, the blocks of its DPM, and the list of devices with open and close.

  \<^bold>\<open>Theories of the kernel module.\<close>

  \<^item> \<open>User_Port\<close> (\<open>USER_Linux.c\<close>): file names and the device class filter of a process, which refines a map.
  \<^item> \<open>Kernel_Notify\<close> (\<open>netana.c\<close>): the record \<open>handoff\<close> is \<open>struct netana_info\<close> with the places where DSR and reader stand;
    \<open>notify_step\<close> and \<open>read_step\<close> are \<open>netana_notify_data\<close> and \<open>netana_read\<close>, one shared access at a time. The
    life of the DSR thread is a second state machine.
  \<^item> \<open>Kernel_Sysfs\<close>, \<open>Kernel_Register\<close> (\<open>netana_sysfs.c\<close>, \<open>netana.c\<close>, \<open>netana_enum.c\<close>): a ledger of allocations and kernel objects shows what is
    leaked, freed twice or used after it was freed, for any pattern of refusals by the kernel.
  \<^item> \<open>Kernel_Tasks\<close> (\<open>netana_tk_interface.c\<close>): last errors and timeouts, two tables in one list (locale \<open>value_table\<close>).
  \<^item> \<open>Text_Format\<close>, \<open>Sysfs_Attributes\<close>, \<open>Sysfs_Tree\<close> (\<open>netana_tk_interface.c\<close>, \<open>netana_sysfs.c\<close>): \<open>sprintf\<close> and \<open>sscanf\<close>, every
    attribute with the toolkit call it makes, and the tables that lead from a path to its function. The state is \<open>ninfo\<close>.

  \<^bold>\<open>Theories of the library.\<close>

  \<^item> \<open>Lib_Capture\<close> (\<open>netana_capture.c\<close> of the library): its file writer is the toolkit's, on the C library's files.
  \<^item> \<open>Lib_Calls\<close>: the calls on an open device over an interface \<open>attr_io\<close> to the attributes; the state of the process is \<open>lib\<close>, a
    device instance \<open>libinst\<close>. \<open>Lib_On_Driver\<close> gives \<open>attr_io\<close> by the attribute tree (\<open>kernel_io\<close>; locale \<open>attribute_files\<close>), and
    \<open>Lib_Refines\<close> and \<open>Lib_Filters\<close> show which call of the toolkit every call becomes, with its result.
  \<^item> \<open>Lib_Device\<close>, \<open>Lib_Driver\<close>: information, enumeration, management commands, opening and closing, and what they yield on the driver.
  \<^item> \<open>Lib_Session\<close>, \<open>Lib_Session_Files\<close>, \<open>Lib_Run\<close>: \<open>netana_start_capture\<close>, \<open>netana_stop_capture\<close> and \<open>netana_event_thread\<close>, cut into steps at
    their system calls (\<open>main_pc\<close>, \<open>event_pc\<close>) since they share the instance without a lock; the file list; the
    invariant of every interleaving. \<open>Lib_Delivery\<close> follows the blocks an event thread reads (locale \<open>device_file\<close>),
    \<open>Lib_Device_File\<close> puts \<open>netana_poll\<close> and \<open>netana_read\<close> under it, and \<open>Lib_Sessions\<close> has the consequences.

  \<^bold>\<open>What is shown across components.\<close> A DMA buffer is followed all the way: the netX fills it and toggles its bit, the DSR
  takes the consecutive filled buffers in order and presents each (\<open>Capture\<close>), the hand-off gives each to a reader once and unchanged
  (\<open>Kernel_Notify\<close>), and the event thread gives it to the callback of the application and to the files (\<open>Lib_Device_File\<close>), which hold a beginning of
  all data, all of it as long as no error was reported. A command is followed from the library over text and attribute to the toolkit call and
  back, errors included (\<open>Lib_Refines\<close>, \<open>Lib_Filters\<close>, \<open>Lib_Driver\<close>, \<open>Sysfs_Tree\<close>, \<open>Kernel_Tasks\<close>).

  \<^bold>\<open>Conventions.\<close> Integers are words of their C width, and arithmetic wraps where it does in C. Pointers are numbers with \<open>0\<close> for \<open>NULL\<close>; a
  result is the error code of the source with the data beside it. A field keeps its C name, with a prefix of its
  structure where names would clash; library functions with the name of a toolkit function have the prefix \<open>lib_\<close>.

  \<^bold>\<open>Waiting.\<close> A routine that may wait has the type \<open>proc\<close>. Every look at the device consumes one entry of a trace, which gives the time and what
  the device did; \<open>None\<close> is a routine whose trace has run out while it was still waiting. The trace is the only bound: waits with a
  timeout are shown to end on every trace that lets the time pass (\<open>Handshake\<close>, \<open>Boot_Mailbox\<close>), the polling in \<open>netana_stop_capture\<close> after 50
  rounds. Other loops are recursions over what they count. \<open>blink_loop\<close> is partial, as the code need not end;
  it ends on the attribute tree. In \<open>Lib_Session\<close>, \<open>None\<close> is a call that does not return, one that ends the process included. \<open>read_loop\<close> gives
  \<open>netana_read\<close> seven steps, which is the number it has.

  \<^bold>\<open>Parameters.\<close> What is not in the sources is an argument: the device and the clock (the traces), the kernel's answers (\<open>rc\<close>), the
  scheduler, files and directories of the system (\<open>file_ops\<close>, \<open>os_files\<close>), the memory \<open>malloc\<close> returns and stack content that is
  copied without being written. Properties state what they rely on in their hypotheses or in a locale, and each locale is interpreted.

  \<^bold>\<open>Not modelled.\<close>

  \<^item> The operating system layer (\<open>OS_Linux.c\<close>), but for the parts the user functions and the files show: it wraps kernel functions.
    Memory barriers and caches are left out; a step of a state machine is one access.
  \<^item> Power management (\<open>NETANA_PM_AWARE\<close>), the device tree variant \<open>nanl_of_probe\<close>, and module loading.
  \<^item> Tracing, log files and thread priorities (\<open>USER_Trace\<close>, \<open>netana_helper.c\<close>); they do not influence results.
  \<^item> The constants and packet structures of \<open>rcX\<close>, \<open>netx_registers.h\<close> and the loader headers beyond those the driver uses, the
    vendored \<open>sys/queue.h\<close> (its lists are HOL lists), demo and test programs, build files.
  \<^item> In a capture of the library, the C library's locks on files, and an application that closes the device or changes the file list during its own calls.
  \<^item> The status notification of the kernel (\<open>netana_notify_state\<close>), which follows the scheme of the data notification; its
    counters may change at any time in \<open>Lib_Device_File\<close>.
\<close>

end
